(* ===== verification/Syntra_Prelude.thy ===== *)
theory Syntra_Prelude
  imports Main "HOL-Library.Word"
begin

text \<open>
  Shared vocabulary of the development: the machine integers and byte strings of the Rust
  sources, the \<open>Result\<close> type with its \<open>?\<close> operator, checked and saturating arithmetic,
  the UTF-8 test behind \<open>String::from_utf8\<close>, and the generic lemmas the component
  theories use.

  A Rust \<open>String\<close> is the list of its UTF-8 bytes (so \<open>len()\<close> is \<open>length\<close> and
  \<open>as_bytes()\<close> is the identity); that it is valid UTF-8, which the type guarantees in
  Rust, is the predicate \<open>utf8_valid\<close>. A \<open>usize\<close> that counts elements is a \<open>nat\<close>;
  a \<open>usize\<close> or \<open>u64\<close> whose overflow the code checks is a word.
\<close>

unbundle bit_operations_syntax

section \<open>Types\<close>

type_synonym u8 = "8 word"
type_synonym u16 = "16 word"
type_synonym u32 = "32 word"
type_synonym u64 = "64 word"
type_synonym i32 = "32 word"
type_synonym f32_bits = "32 word"
type_synonym f64_bits = "64 word"
type_synonym bytes = "u8 list"
type_synonym rstring = "u8 list"

definition lit :: "string \<Rightarrow> rstring" where
  "lit s = map of_char s"

lemma lit_Nil [simp]: "lit [] = []"
  by (simp add: lit_def)

lemma lit_Cons [simp]: "lit (c # s) = of_char c # lit s"
  by (simp add: lit_def)

lemma length_lit [simp]: "length (lit s) = length s"
  by (simp add: lit_def)

section \<open>Collections of rewrite rules\<close>

named_theorems wire_put \<open>reading back what a writer produced\<close>
named_theorems wire_get \<open>what a successful read says of its input\<close>
named_theorems const_defs \<open>the numeric limits of the sources\<close>

section \<open>Results\<close>

definition rbind :: "'e + 'a \<Rightarrow> ('a \<Rightarrow> 'e + 'b) \<Rightarrow> 'e + 'b" where
  "rbind m f = (case m of Inl e \<Rightarrow> Inl e | Inr x \<Rightarrow> f x)"

lemma rbind_Inl [simp]: "rbind (Inl e) f = Inl e"
  by (simp add: rbind_def)

lemma rbind_Inr [simp]: "rbind (Inr x) f = f x"
  by (simp add: rbind_def)

lemma rbind_eq_Inr_iff: "rbind m f = Inr y \<longleftrightarrow> (\<exists>x. m = Inr x \<and> f x = Inr y)"
  by (cases m) auto

lemma rbind_assoc: "rbind (rbind m f) g = rbind m (\<lambda>x. rbind (f x) g)"
  by (cases m) auto

definition is_ok :: "'e + 'a \<Rightarrow> bool" where
  "is_ok m = (case m of Inl _ \<Rightarrow> False | Inr _ \<Rightarrow> True)"

lemma is_ok_simps [simp]: "is_ok (Inr x)" "\<not> is_ok (Inl e)"
  by (simp_all add: is_ok_def)

section \<open>Checked and saturating arithmetic\<close>

definition checked_add :: "'a::len word \<Rightarrow> 'a word \<Rightarrow> 'a word option" where
  "checked_add a b = (if unat a + unat b < 2 ^ LENGTH('a) then Some (a + b) else None)"

lemma checked_add_Some_iff:
  "checked_add a b = Some (c :: 'a::len word) \<longleftrightarrow> unat c = unat a + unat b"
proof
  assume "checked_add a b = Some c"
  then show "unat c = unat a + unat b"
    by (auto simp: checked_add_def unat_word_ariths split: if_splits)
next
  assume c: "unat c = unat a + unat b"
  then have "unat a + unat b < 2 ^ LENGTH('a)"
    using unsigned_less [of c, where 'a = nat] by simp
  moreover have "a + b = c"
    using c by (simp add: word_arith_nat_add [of a b] flip: c)
  ultimately show "checked_add a b = Some c"
    by (simp add: checked_add_def)
qed

definition checked_mul :: "'a::len word \<Rightarrow> 'a word \<Rightarrow> 'a word option" where
  "checked_mul a b = (if unat a * unat b < 2 ^ LENGTH('a) then Some (a * b) else None)"

definition saturating_add :: "'a::len word \<Rightarrow> 'a word \<Rightarrow> 'a word" where
  "saturating_add a b = (if unat a + unat b < 2 ^ LENGTH('a) then a + b else - 1)"

lemma unat_saturating_add:
  "unat (saturating_add a b) = min (unat a + unat b) (2 ^ LENGTH('a) - 1)"
  for a b :: "'a::len word"
proof (cases "unat a + unat b < 2 ^ LENGTH('a)")
  case True
  then have "unat (a + b) = unat a + unat b"
    by (simp add: unat_add_lem)
  with True show ?thesis by (simp add: saturating_add_def)
next
  case False
  then show ?thesis by (simp add: saturating_add_def unsigned_minus_1_eq_mask mask_eq_exp_minus_1)
qed

definition saturating_sub :: "nat \<Rightarrow> nat \<Rightarrow> nat" where
  "saturating_sub a b = a - b"

definition div_ceil :: "nat \<Rightarrow> nat \<Rightarrow> nat" where
  "div_ceil a b = (if a mod b = 0 then a div b else a div b + 1)"

lemma div_ceil_bounds:
  assumes "0 < b"
  shows "a \<le> div_ceil a b * b" and "0 < a \<Longrightarrow> (div_ceil a b - 1) * b < a"
    and "div_ceil a b = 0 \<longleftrightarrow> a = 0"
proof -
  have split: "a = a div b * b + a mod b" and mod: "a mod b < b"
    using assms by auto
  show "a \<le> div_ceil a b * b"
    proof (cases "a mod b = 0")
    case True
    with split show ?thesis by (simp add: div_ceil_def)
  next
    case False
    have "a \<le> a div b * b + b"
      using div_mult_mod_eq [of a b] mod by linarith
    with False show ?thesis by (simp add: div_ceil_def add.commute)
  qed
  show "(div_ceil a b - 1) * b < a" if "0 < a"
  proof (cases "a mod b = 0")
    case True
    with that split have pos: "0 < a div b" by (metis add.right_neutral gr0I mult_0)
    have "(a div b - 1) * b < a div b * b" using pos assms by simp
    with True split show ?thesis by (simp add: div_ceil_def)
  next
    case False
    then have "a div b * b < a"
      using div_mult_mod_eq [of a b] by linarith
    with False show ?thesis by (simp add: div_ceil_def)
  qed
  show "div_ceil a b = 0 \<longleftrightarrow> a = 0"
    using assms by (cases "a = 0") (auto simp: div_ceil_def)
qed

lemma div_ceil_le: "0 < b \<Longrightarrow> div_ceil a b \<le> a"
proof -
  assume b: "0 < b"
  show ?thesis
  proof (cases "a mod b = 0")
    case True
    then show ?thesis by (simp add: div_ceil_def)
  next
    case False
    then have "b \<noteq> 1" and "0 < a" by (auto intro: gr0I)
    with b have "a div b < a" by (intro div_less_dividend) auto
    then show ?thesis by (simp add: div_ceil_def)
  qed
qed

lemma div_ceil_le_iff: "0 < b \<Longrightarrow> div_ceil a b \<le> i \<longleftrightarrow> a \<le> i * b"
proof
  assume b: "0 < b"
  assume "div_ceil a b \<le> i"
  then have "div_ceil a b * b \<le> i * b" by (rule mult_le_mono1)
  then show "a \<le> i * b" using div_ceil_bounds(1) [OF b, of a] by (rule le_trans [rotated])
next
  assume b: "0 < b"
  assume le: "a \<le> i * b"
  show "div_ceil a b \<le> i"
  proof (rule ccontr)
    assume "\<not> div_ceil a b \<le> i"
    then have "i \<le> div_ceil a b - 1" "0 < a" using div_ceil_bounds(3) [OF b, of a] by auto
    then have "i * b \<le> (div_ceil a b - 1) * b" by (intro mult_le_mono1)
    with div_ceil_bounds(2) [OF b \<open>0 < a\<close>] le show False by linarith
  qed
qed

section \<open>UTF-8\<close>

definition utf8_cont :: "u8 \<Rightarrow> bool" where
  "utf8_cont b \<longleftrightarrow> 0x80 \<le> b \<and> b \<le> 0xBF"

fun utf8_valid :: "bytes \<Rightarrow> bool" where
  "utf8_valid [] = True"
| "utf8_valid (a # bs) =
     (if a < 0x80 then utf8_valid bs
      else if 0xC2 \<le> a \<and> a \<le> 0xDF then
        (case bs of b # r \<Rightarrow> utf8_cont b \<and> utf8_valid r | _ \<Rightarrow> False)
      else if 0xE0 \<le> a \<and> a \<le> 0xEF then
        (case bs of b # c # r \<Rightarrow>
           utf8_cont b \<and> (a = 0xE0 \<longrightarrow> 0xA0 \<le> b) \<and> (a = 0xED \<longrightarrow> b \<le> 0x9F)
           \<and> utf8_cont c \<and> utf8_valid r
         | _ \<Rightarrow> False)
      else if 0xF0 \<le> a \<and> a \<le> 0xF4 then
        (case bs of b # c # d # r \<Rightarrow>
           utf8_cont b \<and> (a = 0xF0 \<longrightarrow> 0x90 \<le> b) \<and> (a = 0xF4 \<longrightarrow> b \<le> 0x8F)
           \<and> utf8_cont c \<and> utf8_cont d \<and> utf8_valid r
         | _ \<Rightarrow> False)
      else False)"

lemma utf8_valid_ascii: "\<forall>b \<in> set s. b < 0x80 \<Longrightarrow> utf8_valid s"
  by (induction s) auto

section \<open>Big-endian byte strings\<close>

primrec nat_be :: "nat \<Rightarrow> nat \<Rightarrow> bytes" where
  "nat_be 0 x = []"
| "nat_be (Suc n) x = nat_be n (x div 256) @ [word_of_nat x]"

definition be_nat :: "bytes \<Rightarrow> nat" where
  "be_nat bs = foldl (\<lambda>a b. a * 256 + unat b) 0 bs"

lemma be_nat_Nil [simp]: "be_nat [] = 0"
  by (simp add: be_nat_def)

lemma be_nat_snoc [simp]: "be_nat (bs @ [b]) = be_nat bs * 256 + unat b"
  by (simp add: be_nat_def)

lemma length_nat_be [simp]: "length (nat_be n x) = n"
  by (induction n arbitrary: x) simp_all

lemma unat_u8_of_nat: "unat (word_of_nat x :: u8) = x mod 256"
  by (simp add: unat_of_nat)

lemma be_nat_nat_be: "x < 256 ^ n \<Longrightarrow> be_nat (nat_be n x) = x"
proof (induction n arbitrary: x)
  case 0
  then show ?case by simp
next
  case (Suc n)
  then have "x div 256 < 256 ^ n" by (simp add: less_mult_imp_div_less mult.commute)
  then have "be_nat (nat_be n (x div 256)) = x div 256" by (rule Suc.IH)
  then show ?case by (simp add: unat_u8_of_nat)
qed

lemma nat_be_be_nat: "nat_be (length bs) (be_nat bs) = bs"
proof (induction bs rule: rev_induct)
  case Nil
  then show ?case by simp
next
  case (snoc b bs)
  have b: "unat b < 256" using unsigned_less [of b, where 'a = nat] by simp
  then have "(be_nat bs * 256 + unat b) div 256 = be_nat bs" by simp
  moreover have "(word_of_nat (be_nat bs * 256 + unat b) :: u8) = b"
  proof -
    have "(256 :: u8) = 0" by simp
    then have "(word_of_nat (be_nat bs * 256) :: u8) = 0"
      by (simp only: of_nat_mult of_nat_numeral mult_zero_right)
    then show ?thesis by (simp only: of_nat_add add_0_left) simp
  qed
  ultimately show ?case using snoc.IH by simp
qed

lemma be_nat_less: "be_nat bs < 256 ^ length bs"
proof (induction bs rule: rev_induct)
  case Nil
  then show ?case by simp
next
  case (snoc b bs)
  have "unat b < 256" using unsigned_less [of b, where 'a = nat] by simp
  with snoc.IH have "be_nat bs * 256 + unat b < (be_nat bs + 1) * 256" by simp
  also have "\<dots> \<le> 256 ^ length bs * 256" using snoc.IH by simp
  finally show ?case by (simp add: mult.commute)
qed

section \<open>Lists\<close>

definition split_on :: "'a \<Rightarrow> 'a list \<Rightarrow> 'a list list" where
  "split_on c xs = foldr (\<lambda>x acc. if x = c then [] # acc
                                   else (x # hd acc) # tl acc) xs [[]]"

lemma split_on_Nil [simp]: "split_on c [] = [[]]"
  by (simp add: split_on_def)

lemma split_on_Cons [simp]:
  "split_on c (x # xs) = (if x = c then [] # split_on c xs
                          else (x # hd (split_on c xs)) # tl (split_on c xs))"
  by (simp add: split_on_def)

lemma split_on_nonempty [simp]: "split_on c xs \<noteq> []"
  by (cases xs) auto

lemma split_on_no_sep: "part \<in> set (split_on c xs) \<Longrightarrow> c \<notin> set part"
proof (induction xs arbitrary: part)
  case Nil
  then show ?case by simp
next
  case (Cons x xs)
  have hd: "hd (split_on c xs) \<in> set (split_on c xs)" by simp
  from Cons.prems consider "part \<in> set (split_on c xs)" | "part = []"
    | "x \<noteq> c" "part = x # hd (split_on c xs)"
    by (auto split: if_splits dest: list.set_sel(2) [rotated])
  then show ?case using Cons.IH hd by cases auto
qed

lemma set_split_on: "part \<in> set (split_on c xs) \<Longrightarrow> set part \<subseteq> set xs"
proof (induction xs arbitrary: part)
  case (Cons x xs)
  have hd: "hd (split_on c xs) \<in> set (split_on c xs)" by simp
  from Cons.prems consider "part \<in> set (split_on c xs)" | "part = []"
    | "part = x # hd (split_on c xs)"
    by (auto split: if_splits dest: list.set_sel(2) [rotated])
  then show ?case using Cons.IH [OF hd] by cases (auto dest: Cons.IH)
qed simp

lemma unat_u32_u64: "unat (ucast (w :: u32) :: u64) = unat w"
  using unsigned_less [of w, where 'a = nat] by (simp add: unsigned_ucast_eq take_bit_eq_mod)

end
