(* ===== verification/Wire.thy ===== *)
theory Wire
  imports Syntra_Prelude
begin

text \<open>
  The byte-level primitives of the peer protocol, \<open>crates/syntra-proto/src/wire.rs\<close>, and
  the error type of the crate. A reader takes the unread bytes and returns the value with
  the bytes that are left, as the Rust helpers advance \<open>&mut &[u8]\<close>; a writer returns the
  bytes it appends to the buffer.

  The interface between the primitives and the message codec is the locale
  \<open>wire_codec\<close>: reading back what was written gives the value and the rest, and whatever
  is read is what would have been written. Every primitive pair is interpreted in it.
\<close>

section \<open>Protocol errors\<close>

datatype protocol_error =
    InvalidEventId u8
  | InvalidPosition u8
  | Truncated
  | TooLarge nat nat
  | InvalidChunkCount u32 u32
  | InvalidPath rstring
  | InvalidManifest rstring
  | LengthOverflow
  | InvalidProgress u64 u64
  | TrailingBytes nat
  | InvalidBoolean u8
  | InvalidCancelReason u8
  | InvalidFileChunk string
  | InvalidHistory string
  | InvalidProfile string

section \<open>Readers\<close>

type_synonym 'a parser = "bytes \<Rightarrow> protocol_error + 'a \<times> bytes"

definition preturn :: "'a \<Rightarrow> 'a parser" where
  "preturn x buf = Inr (x, buf)"

definition pfail :: "protocol_error \<Rightarrow> 'a parser" where
  "pfail e buf = Inl e"

definition pbind :: "'a parser \<Rightarrow> ('a \<Rightarrow> 'b parser) \<Rightarrow> 'b parser" where
  "pbind p f buf = (case p buf of Inl e \<Rightarrow> Inl e | Inr (x, rest) \<Rightarrow> f x rest)"

definition plift :: "protocol_error + 'a \<Rightarrow> 'a parser" where
  "plift r buf = (case r of Inl e \<Rightarrow> Inl e | Inr x \<Rightarrow> Inr (x, buf))"

definition take_bytes :: "nat \<Rightarrow> bytes parser" where
  "take_bytes len buf =
     (if length buf < len then Inl Truncated else Inr (take len buf, drop len buf))"

definition get_u8 :: "u8 parser" where
  "get_u8 = pbind (take_bytes 1) (\<lambda>v. preturn (v ! 0))"

definition get_u16 :: "u16 parser" where
  "get_u16 = pbind (take_bytes 2) (\<lambda>v. preturn (word_of_nat (be_nat v)))"

definition get_u32 :: "u32 parser" where
  "get_u32 = pbind (take_bytes 4) (\<lambda>v. preturn (word_of_nat (be_nat v)))"

definition get_u64 :: "u64 parser" where
  "get_u64 = pbind (take_bytes 8) (\<lambda>v. preturn (word_of_nat (be_nat v)))"

definition get_i32 :: "i32 parser" where
  "get_i32 = pbind (take_bytes 4) (\<lambda>v. preturn (word_of_nat (be_nat v)))"

definition get_f64 :: "f64_bits parser" where
  "get_f64 = pbind (take_bytes 8) (\<lambda>v. preturn (word_of_nat (be_nat v)))"

definition get_bool :: "bool parser" where
  "get_bool = pbind get_u8 (\<lambda>v.
     if v = 0 then preturn False else if v = 1 then preturn True else pfail (InvalidBoolean v))"

definition get_optional_u64 :: "u64 option parser" where
  "get_optional_u64 = pbind get_bool (\<lambda>present.
     if present then pbind get_u64 (\<lambda>v. preturn (Some v)) else preturn None)"

definition get_optional_string :: "rstring option parser" where
  "get_optional_string = pbind get_u16 (\<lambda>len.
     if unat len = 0 then preturn None
     else pbind (take_bytes (unat len)) (\<lambda>v.
       if utf8_valid v then preturn (Some v)
       else pfail (InvalidHistory ''non-UTF-8 error string'')))"

section \<open>Writers\<close>

definition put_u8 :: "u8 \<Rightarrow> bytes" where
  "put_u8 v = [v]"

definition put_u16 :: "u16 \<Rightarrow> bytes" where
  "put_u16 v = nat_be 2 (unat v)"

definition put_u32 :: "u32 \<Rightarrow> bytes" where
  "put_u32 v = nat_be 4 (unat v)"

definition put_u64 :: "u64 \<Rightarrow> bytes" where
  "put_u64 v = nat_be 8 (unat v)"

definition put_i32 :: "i32 \<Rightarrow> bytes" where
  "put_i32 v = nat_be 4 (unat v)"

definition put_f64 :: "f64_bits \<Rightarrow> bytes" where
  "put_f64 v = nat_be 8 (unat v)"

definition put_bool :: "bool \<Rightarrow> bytes" where
  "put_bool b = [if b then 1 else 0]"

definition put_optional_u64 :: "u64 option \<Rightarrow> bytes" where
  "put_optional_u64 value = put_bool (value \<noteq> None) @
     (case value of None \<Rightarrow> [] | Some v \<Rightarrow> put_u64 v)"

definition put_optional_string :: "rstring option \<Rightarrow> protocol_error + bytes" where
  "put_optional_string value = (case value of
     None \<Rightarrow> Inr (put_u16 0)
   | Some v \<Rightarrow>
       if v = [] \<or> length v > 65535 then Inl (InvalidHistory ''invalid error string'')
       else Inr (put_u16 (word_of_nat (length v)) @ v))"

section \<open>Laws of the reader combinators\<close>

lemma preturn_apply [simp]: "preturn x buf = Inr (x, buf)"
  by (simp add: preturn_def)

lemma pfail_apply [simp]: "pfail e buf = Inl e"
  by (simp add: pfail_def)

lemma pbind_Inr: "p buf = Inr (x, rest) \<Longrightarrow> pbind p f buf = f x rest"
  by (simp add: pbind_def)

lemma pbind_Inl: "p buf = Inl e \<Longrightarrow> pbind p f buf = Inl e"
  by (simp add: pbind_def)

lemma pbind_eq_Inr_iff [wire_get]:
  "pbind p f buf = Inr r \<longleftrightarrow> (\<exists>x rest. p buf = Inr (x, rest) \<and> f x rest = Inr r)"
  by (auto simp: pbind_def split: sum.splits)

lemma plift_Inr [simp]: "plift (Inr x) buf = Inr (x, buf)"
  by (simp add: plift_def)

lemma plift_Inl [simp]: "plift (Inl e) buf = Inl e"
  by (simp add: plift_def)

lemma plift_eq_Inr_iff [wire_get]: "plift r buf = Inr (x, rest) \<longleftrightarrow> r = Inr x \<and> rest = buf"
  by (cases r) auto

lemma pbind_plift [wire_put]: "r = Inr x \<Longrightarrow> pbind (plift r) f buf = f x buf"
  by (simp add: pbind_def)

lemma take_bytes_eq_Inr_iff [wire_get]:
  "take_bytes n buf = Inr (x, rest) \<longleftrightarrow> length x = n \<and> buf = x @ rest"
  by (auto simp: take_bytes_def)

lemma take_bytes_append: "length x = n \<Longrightarrow> take_bytes n (x @ rest) = Inr (x, rest)"
  by (simp add: take_bytes_eq_Inr_iff)

lemma pbind_take_bytes [wire_put]: "length x = n \<Longrightarrow> pbind (take_bytes n) f (x @ rest) = f x rest"
  by (simp add: pbind_Inr take_bytes_append)

lemma pbind_take_bytes_all [wire_put]: "length x = n \<Longrightarrow> pbind (take_bytes n) f x = f x []"
  using pbind_take_bytes [of x n f "[]"] by simp

section \<open>The interface of a primitive pair\<close>

locale wire_codec =
  fixes put :: "'a \<Rightarrow> bytes" and get :: "'a parser" and accepts :: "'a \<Rightarrow> bool"
  assumes get_put: "accepts x \<Longrightarrow> get (put x @ rest) = Inr (x, rest)"
    and get_sound: "get buf = Inr (x, rest) \<Longrightarrow> accepts x \<and> buf = put x @ rest"
begin

lemma get_iff: "get buf = Inr (x, rest) \<longleftrightarrow> accepts x \<and> buf = put x @ rest"
  by (metis get_put get_sound)

lemma bind_put: "accepts x \<Longrightarrow> pbind get f (put x @ rest) = f x rest"
  by (simp add: pbind_Inr get_put)

lemma bind_put_all: "accepts x \<Longrightarrow> pbind get f (put x) = f x []"
  using bind_put [of x f "[]"] by simp

lemma put_prefix_free:
  assumes "accepts x" and "accepts y" and "put x @ r = put y @ s"
  shows "x = y \<and> r = s"
proof -
  have "Inr (x, r) = (Inr (y, s) :: protocol_error + 'a \<times> bytes)"
    by (simp only: assms(3) flip: get_put [OF assms(1), of r] get_put [OF assms(2), of s])
  then show ?thesis by simp
qed

end

locale scalar_codec = wire_codec put get "\<lambda>_. True"
  for put :: "'a \<Rightarrow> bytes" and get :: "'a parser" +
  fixes width :: nat
  assumes put_width: "length (put x) = width"
    and get_short: "length buf < width \<Longrightarrow> get buf = Inl Truncated"
begin

lemma get_total: "width \<le> length buf \<Longrightarrow> (\<And>e. get buf \<noteq> Inl e) \<Longrightarrow>
    \<exists>x. get buf = Inr (x, drop width buf) \<and> take width buf = put x"
proof -
  assume "\<And>e. get buf \<noteq> Inl e"
  then obtain x rest where g: "get buf = Inr (x, rest)"
    by (cases "get buf") auto
  then have "buf = put x @ rest" using get_sound by blast
  then show ?thesis using g put_width [of x] by auto
qed

end

lemma nat_be_of_word:
  fixes put :: "'w::len word \<Rightarrow> bytes" and get :: "'w word parser"
  assumes put: "\<And>v. put v = nat_be n (unat v)"
    and get: "get = pbind (take_bytes n) (\<lambda>v. preturn (word_of_nat (be_nat v)))"
    and n: "256 ^ n = (2 :: nat) ^ LENGTH('w)"
  shows "scalar_codec put get n"
proof unfold_locales
  fix x :: "'w word" and rest :: bytes
  have "unat x < 256 ^ n" unfolding n by (rule unsigned_less)
  then show "get (put x @ rest) = Inr (x, rest)"
    by (simp add: put get pbind_take_bytes be_nat_nat_be)
next
  fix buf x rest
  assume "get buf = Inr (x, rest)"
  then obtain v where v: "length v = n" "buf = v @ rest" "x = word_of_nat (be_nat v)"
    by (auto simp: get wire_get)
  have "be_nat v < 2 ^ LENGTH('w)" using be_nat_less [of v] v(1) n by simp
  then have "unat x = be_nat v" using v(3) by (simp add: unat_of_nat)
  with v put nat_be_be_nat [of v] show "True \<and> buf = put x @ rest" by simp
next
  show "length (put x) = n" for x by (simp add: put)
next
  show "get buf = Inl Truncated" if "length buf < n" for buf
    using that by (simp add: get pbind_def take_bytes_def)
qed

interpretation u8c: scalar_codec put_u8 get_u8 1
  by unfold_locales
    (auto simp: get_u8_def put_u8_def pbind_def take_bytes_def take_Suc_conv_app_nth
      drop_Suc neq_Nil_conv split: if_splits)

interpretation u16c: scalar_codec put_u16 get_u16 2
  by (rule nat_be_of_word) (simp_all add: put_u16_def get_u16_def)

interpretation u32c: scalar_codec put_u32 get_u32 4
  by (rule nat_be_of_word) (simp_all add: put_u32_def get_u32_def)

interpretation u64c: scalar_codec put_u64 get_u64 8
  by (rule nat_be_of_word) (simp_all add: put_u64_def get_u64_def)

interpretation i32c: scalar_codec put_i32 get_i32 4
  by (rule nat_be_of_word) (simp_all add: put_i32_def get_i32_def)

interpretation f64c: scalar_codec put_f64 get_f64 8
  by (rule nat_be_of_word) (simp_all add: put_f64_def get_f64_def)

lemmas scalar_bind [wire_put] =
  u8c.bind_put [OF TrueI] u16c.bind_put [OF TrueI] u32c.bind_put [OF TrueI]
  u64c.bind_put [OF TrueI] i32c.bind_put [OF TrueI] f64c.bind_put [OF TrueI]
  u8c.bind_put_all [OF TrueI] u16c.bind_put_all [OF TrueI] u32c.bind_put_all [OF TrueI]
  u64c.bind_put_all [OF TrueI] i32c.bind_put_all [OF TrueI] f64c.bind_put_all [OF TrueI]

lemmas scalar_get [wire_get] =
  u8c.get_iff u16c.get_iff u32c.get_iff u64c.get_iff i32c.get_iff f64c.get_iff

lemmas scalar_width [simp] =
  u8c.put_width u16c.put_width u32c.put_width u64c.put_width i32c.put_width f64c.put_width

lemma get_u8_Cons [simp]: "get_u8 (b # buf) = Inr (b, buf)"
  using u8c.get_put [of b buf] by (simp add: put_u8_def)

lemma get_u8_Nil [simp]: "get_u8 [] = Inl Truncated"
  using u8c.get_short [of "[]"] by simp

interpretation boolc: scalar_codec put_bool get_bool 1
  by unfold_locales
    (auto simp: get_bool_def put_bool_def pbind_def scalar_get put_u8_def u8c.get_short
      split: if_splits sum.splits)

interpretation opt_u64c: wire_codec put_optional_u64 get_optional_u64 "\<lambda>_. True"
proof unfold_locales
  show "get_optional_u64 (put_optional_u64 x @ rest) = Inr (x, rest)" for x rest
    by (cases x)
      (simp_all add: get_optional_u64_def put_optional_u64_def boolc.bind_put [OF TrueI] scalar_bind)
next
  show "True \<and> buf = put_optional_u64 x @ rest"
    if "get_optional_u64 buf = Inr (x, rest)" for buf x rest
    using that
    by (auto simp: get_optional_u64_def put_optional_u64_def wire_get boolc.get_iff
        split: if_splits)
qed

text \<open>
  An optional string is written only when it is absent, or non-empty and at most
  \<open>u16::MAX\<close> bytes long; such a string (valid UTF-8, as every Rust string) reads back.
\<close>

definition optional_string_ok :: "rstring option \<Rightarrow> bool" where
  "optional_string_ok value = (case value of None \<Rightarrow> True
     | Some v \<Rightarrow> v \<noteq> [] \<and> length v \<le> 65535 \<and> utf8_valid v)"

definition optional_string_bytes :: "rstring option \<Rightarrow> bytes" where
  "optional_string_bytes value = (case value of None \<Rightarrow> put_u16 0
     | Some v \<Rightarrow> put_u16 (word_of_nat (length v)) @ v)"

lemma put_optional_string_ok:
  "optional_string_ok value \<Longrightarrow> put_optional_string value = Inr (optional_string_bytes value)"
  by (auto simp: optional_string_ok_def put_optional_string_def optional_string_bytes_def
      split: option.splits)

lemma put_optional_string_Inr:
  "put_optional_string value = Inr bs \<Longrightarrow> (\<forall>v. value = Some v \<longrightarrow> utf8_valid v)
   \<Longrightarrow> optional_string_ok value \<and> bs = optional_string_bytes value"
  by (auto simp: optional_string_ok_def put_optional_string_def optional_string_bytes_def
      split: option.splits if_splits)

lemma unat_u16_of_nat: "n \<le> 65535 \<Longrightarrow> unat (word_of_nat n :: u16) = n"
  by (simp add: unat_of_nat)

lemma u16_of_length: "length v = unat (x :: u16) \<Longrightarrow> (word_of_nat (length v) :: u16) = x"
  by simp

interpretation opt_strc: wire_codec optional_string_bytes get_optional_string optional_string_ok
proof unfold_locales
  show "get_optional_string (optional_string_bytes x @ rest) = Inr (x, rest)"
    if "optional_string_ok x" for x rest
    using that
    by (cases x)
      (auto simp: get_optional_string_def optional_string_bytes_def optional_string_ok_def
        wire_put unat_u16_of_nat)
next
  show "optional_string_ok x \<and> buf = optional_string_bytes x @ rest"
    if "get_optional_string buf = Inr (x, rest)" for buf x rest
  proof -
    have u16: "unat len \<le> 65535" for len :: u16
      using unsigned_less [of len, where 'a = nat] by simp
    show ?thesis
      using that u16
      by (auto simp: get_optional_string_def optional_string_bytes_def optional_string_ok_def
          wire_get unat_eq_zero u16_of_length split: if_splits)
  qed
qed

lemmas optional_bind [wire_put] =
  boolc.bind_put [OF TrueI] boolc.bind_put_all [OF TrueI]
  opt_u64c.bind_put [OF TrueI] opt_u64c.bind_put_all [OF TrueI]
  opt_strc.bind_put opt_strc.bind_put_all

lemmas optional_get [wire_get] = boolc.get_iff opt_u64c.get_iff opt_strc.get_iff

end
