(* ===== verification/Proto_Types.thy ===== *)
theory Proto_Types
  imports Wire
begin

text \<open>
  The vocabulary of the peer protocol: the input events of
  \<open>crates/syntra-input-event/src/lib.rs\<close> and the limits, message types and event
  identifiers of \<open>crates/syntra-proto/src/lib.rs\<close>. A fixed array \<open>[u8; n]\<close> is a byte list
  whose length the predicate \<open>wf_event\<close> fixes; a floating-point field is its bit pattern,
  since the codec only copies, tests and clamps it.
\<close>

section \<open>Input events\<close>

datatype pointer_event =
    Motion u32 f64_bits f64_bits
  | Button u32 u32 u32
  | Axis u32 u8 f64_bits
  | AxisDiscrete120 u8 i32

datatype keyboard_event =
    Key u32 u32 u8
  | Modifiers u32 u32 u32 u32

datatype input_event =
    Pointer pointer_event
  | Keyboard keyboard_event

section \<open>Limits\<close>

definition MAX_DATAGRAM_SIZE :: nat where [const_defs]: "MAX_DATAGRAM_SIZE = 16 * 1024"
definition CAP_RETURN_POSITION :: u32 where [const_defs]: "CAP_RETURN_POSITION = 1"
definition MAX_CLIPBOARD_SIZE :: nat where [const_defs]: "MAX_CLIPBOARD_SIZE = 64 * 1024 * 1024"
definition CLIPBOARD_CHUNK_HEADER_SIZE :: nat where
  [const_defs]: "CLIPBOARD_CHUNK_HEADER_SIZE = 1 + 8 + 4"
definition MAX_CLIPBOARD_CHUNK_SIZE :: nat where
  [const_defs]: "MAX_CLIPBOARD_CHUNK_SIZE = MAX_DATAGRAM_SIZE - CLIPBOARD_CHUNK_HEADER_SIZE"
definition MAX_CLIPBOARD_PATH_SIZE :: nat where [const_defs]: "MAX_CLIPBOARD_PATH_SIZE = 1024"
definition MAX_CLIPBOARD_MANIFEST_ENTRIES :: nat where
  [const_defs]: "MAX_CLIPBOARD_MANIFEST_ENTRIES = 256"
definition CLIPBOARD_FILE_CHUNK_HEADER_SIZE :: nat where
  [const_defs]: "CLIPBOARD_FILE_CHUNK_HEADER_SIZE = 1 + 8 + 8 + 8 + 8"
definition SAFE_DATAGRAM_SIZE :: nat where [const_defs]: "SAFE_DATAGRAM_SIZE = 1200"
definition MAX_CLIPBOARD_FILE_CHUNK_SIZE :: nat where
  [const_defs]: "MAX_CLIPBOARD_FILE_CHUNK_SIZE = SAFE_DATAGRAM_SIZE - CLIPBOARD_FILE_CHUNK_HEADER_SIZE"
definition MAX_MANUAL_FILE_CHUNK_SIZE :: nat where
  [const_defs]: "MAX_MANUAL_FILE_CHUNK_SIZE = SAFE_DATAGRAM_SIZE - (1 + 8 + 8)"
definition MAX_MANUAL_FILE_NAME_SIZE :: nat where [const_defs]: "MAX_MANUAL_FILE_NAME_SIZE = 1024"
definition MAX_MANUAL_FILE_ERROR_SIZE :: nat where [const_defs]: "MAX_MANUAL_FILE_ERROR_SIZE = 512"
definition MAX_HISTORY_RECORD_SIZE :: nat where
  [const_defs]: "MAX_HISTORY_RECORD_SIZE = 48 * 1024 * 1024"
definition HISTORY_CHUNK_HEADER_SIZE :: nat where
  [const_defs]: "HISTORY_CHUNK_HEADER_SIZE = 1 + 8 + 8 + 4"
definition MAX_HISTORY_CHUNK_SIZE :: nat where
  [const_defs]: "MAX_HISTORY_CHUNK_SIZE = SAFE_DATAGRAM_SIZE - HISTORY_CHUNK_HEADER_SIZE"
definition MAX_HISTORY_BOUNDARY_ENTRIES :: nat where
  [const_defs]: "MAX_HISTORY_BOUNDARY_ENTRIES = 100"
definition MAX_HISTORY_DEVICE_ID_SIZE :: nat where
  [const_defs]: "MAX_HISTORY_DEVICE_ID_SIZE = 128"
definition MAX_PROFILE_NAME_SIZE :: nat where [const_defs]: "MAX_PROFILE_NAME_SIZE = 128"
definition MAX_PROFILE_SIZE :: nat where [const_defs]: "MAX_PROFILE_SIZE = 128 * 128 * 4"
definition PROFILE_CHUNK_HEADER_SIZE :: nat where [const_defs]: "PROFILE_CHUNK_HEADER_SIZE = 1 + 8 + 4"
definition MAX_PROFILE_CHUNK_SIZE :: nat where
  [const_defs]: "MAX_PROFILE_CHUNK_SIZE = SAFE_DATAGRAM_SIZE - PROFILE_CHUNK_HEADER_SIZE"
definition MAX_HANDOFF_TARGET :: nat where [const_defs]: "MAX_HANDOFF_TARGET = 128"
definition USIZE_MAX :: nat where [const_defs]: "USIZE_MAX = 2 ^ 64 - 1"

section \<open>Message vocabulary\<close>

datatype manual_decision = Pending | Accepted | Declined

datatype clipboard_entry_kind = File | Directory

record clipboard_manifest_entry =
  me_file_id :: u64
  me_path :: rstring
  me_kind :: clipboard_entry_kind
  me_size :: u64

record clipboard_capabilities =
  cap_text :: bool
  cap_image :: bool
  cap_files :: bool

datatype clipboard_cancel_reason = User | IoError | Protocol

datatype position = Left | Right | Top | Bottom

datatype (plugins only: code) proto_event =
    Enter position
  | Leave u32
  | InputCapabilities u32
  | LeaveAt f32_bits
  | Handoff rstring position
  | EnterVia position rstring
  | EnterAt position f32_bits
  | Ack u32
  | Input input_event
  | Ping
  | Pong bool
  | Hello bytes
  | ProfileChanged
  | ProfileRequest u64
  | ProfileStart u64 u32 u32 u32 u32 rstring
  | ProfileChunk u64 u32 bytes
  | ClipboardStart u64 u32 u32
  | ClipboardImageStart u64 u32 u32 u32 u32
  | ClipboardChunk u64 u32 bytes
  | ClipboardCapabilities clipboard_capabilities
  | ClipboardManifest u64 "clipboard_manifest_entry list"
  | ClipboardFileRequest u64 u64 u64 u64 u64
  | ClipboardFileChunk u64 u64 u64 u64 bytes
  | ClipboardFileComplete u64 u64 u64 u64 bytes
  | ClipboardTransferCancel u64 "u64 option" clipboard_cancel_reason
  | ClipboardTransferProgress u64 u64 u64 u64
  | HistorySyncRequest u64 u64
  | HistoryRecordStart u64 u64 u32 u32
  | HistoryRecordChunk u64 u64 u32 bytes
  | ManualFileOffer u64 rstring u64
  | ManualFileDecision u64 manual_decision
  | ManualFileRequest u64 u64 u32
  | ManualFileChunk u64 u64 bytes
  | ManualFileComplete u64 bytes
  | ManualFileResult u64 bool "rstring option"
  | ManualFileCancel u64
  | HistorySyncPageEnd u64 "u64 option"
  | HistoryClearBoundaryRequest bytes
  | HistoryClearBoundary bytes "(rstring \<times> u64) list"
  | HistoryClearApply bytes "(rstring \<times> u64) list"
  | HistoryClearAck bytes u64 "rstring option"

text \<open>
  What Rust's types guarantee of a \<open>ProtoEvent\<close>: strings are UTF-8, arrays have their
  declared length.
\<close>

definition wf_entry :: "clipboard_manifest_entry \<Rightarrow> bool" where
  "wf_entry e \<longleftrightarrow> utf8_valid (me_path e)"

definition wf_opt_string :: "rstring option \<Rightarrow> bool" where
  "wf_opt_string s \<longleftrightarrow> (\<forall>v. s = Some v \<longrightarrow> utf8_valid v)"

primrec wf_event :: "proto_event \<Rightarrow> bool" where
  "wf_event (Handoff target side) = utf8_valid target"
| "wf_event (EnterVia side via) = utf8_valid via"
| "wf_event (Hello commit) = (length commit = 8)"
| "wf_event (ProfileStart r w h t c display_name) = utf8_valid display_name"
| "wf_event (ClipboardManifest t entries) = list_all wf_entry entries"
| "wf_event (ClipboardFileComplete t f r s digest) = (length digest = 32)"
| "wf_event (ManualFileOffer t file_name s) = utf8_valid file_name"
| "wf_event (ManualFileComplete t sha256) = (length sha256 = 32)"
| "wf_event (ManualFileResult t s error) = wf_opt_string error"
| "wf_event (HistoryClearBoundaryRequest op) = (length op = 16)"
| "wf_event (HistoryClearBoundary op boundary) =
     (length op = 16 \<and> list_all (\<lambda>(d, s). utf8_valid d) boundary)"
| "wf_event (HistoryClearApply op boundary) =
     (length op = 16 \<and> list_all (\<lambda>(d, s). utf8_valid d) boundary)"
| "wf_event (HistoryClearAck op affected error) = (length op = 16 \<and> wf_opt_string error)"
| "wf_event (Enter x0) = True"
| "wf_event (Leave x0) = True"
| "wf_event (InputCapabilities x0) = True"
| "wf_event (LeaveAt x0) = True"
| "wf_event (EnterAt x0 x1) = True"
| "wf_event (Ack x0) = True"
| "wf_event (Input x0) = True"
| "wf_event Ping = True"
| "wf_event (Pong x0) = True"
| "wf_event ProfileChanged = True"
| "wf_event (ProfileRequest x0) = True"
| "wf_event (ProfileChunk x0 x1 x2) = True"
| "wf_event (ClipboardStart x0 x1 x2) = True"
| "wf_event (ClipboardImageStart x0 x1 x2 x3 x4) = True"
| "wf_event (ClipboardChunk x0 x1 x2) = True"
| "wf_event (ClipboardCapabilities x0) = True"
| "wf_event (ClipboardFileRequest x0 x1 x2 x3 x4) = True"
| "wf_event (ClipboardFileChunk x0 x1 x2 x3 x4) = True"
| "wf_event (ClipboardTransferCancel x0 x1 x2) = True"
| "wf_event (ClipboardTransferProgress x0 x1 x2 x3) = True"
| "wf_event (HistorySyncRequest x0 x1) = True"
| "wf_event (HistoryRecordStart x0 x1 x2 x3) = True"
| "wf_event (HistoryRecordChunk x0 x1 x2 x3) = True"
| "wf_event (ManualFileDecision x0 x1) = True"
| "wf_event (ManualFileRequest x0 x1 x2) = True"
| "wf_event (ManualFileChunk x0 x1 x2) = True"
| "wf_event (ManualFileCancel x0) = True"
| "wf_event (HistorySyncPageEnd x0 x1) = True"

section \<open>Event identifiers\<close>

datatype (plugins only: code) event_type =
    T_PointerMotion | T_PointerButton | T_PointerAxis | T_PointerAxisValue120
  | T_KeyboardKey | T_KeyboardModifiers | T_Ping | T_Pong | T_Enter | T_Leave | T_Ack | T_Hello
  | T_ClipboardStart | T_ClipboardChunk | T_ClipboardImageStart | T_ClipboardCapabilities
  | T_ClipboardManifest | T_ClipboardFileRequest | T_ClipboardFileChunk
  | T_ClipboardFileComplete | T_ClipboardTransferCancel | T_ClipboardTransferProgress
  | T_HistorySyncRequest | T_HistoryRecordStart | T_HistoryRecordChunk | T_HistorySyncPageEnd
  | T_HistoryClearBoundaryRequest | T_HistoryClearBoundary | T_HistoryClearApply
  | T_HistoryClearAck | T_ProfileStart | T_ProfileChunk | T_ProfileRequest | T_ProfileChanged
  | T_ManualFileOffer | T_ManualFileDecision | T_ManualFileRequest | T_ManualFileChunk
  | T_ManualFileComplete | T_ManualFileResult | T_ManualFileCancel | T_Handoff | T_EnterVia
  | T_EnterAt | T_InputCapabilities | T_LeaveAt

definition event_types :: "event_type list" where
  "event_types =
    [T_PointerMotion, T_PointerButton, T_PointerAxis, T_PointerAxisValue120,
     T_KeyboardKey, T_KeyboardModifiers, T_Ping, T_Pong, T_Enter, T_Leave, T_Ack, T_Hello,
     T_ClipboardStart, T_ClipboardChunk, T_ClipboardImageStart, T_ClipboardCapabilities,
     T_ClipboardManifest, T_ClipboardFileRequest, T_ClipboardFileChunk,
     T_ClipboardFileComplete, T_ClipboardTransferCancel, T_ClipboardTransferProgress,
     T_HistorySyncRequest, T_HistoryRecordStart, T_HistoryRecordChunk, T_HistorySyncPageEnd,
     T_HistoryClearBoundaryRequest, T_HistoryClearBoundary, T_HistoryClearApply,
     T_HistoryClearAck, T_ProfileStart, T_ProfileChunk, T_ProfileRequest, T_ProfileChanged,
     T_ManualFileOffer, T_ManualFileDecision, T_ManualFileRequest, T_ManualFileChunk,
     T_ManualFileComplete, T_ManualFileResult, T_ManualFileCancel, T_Handoff, T_EnterVia,
     T_EnterAt, T_InputCapabilities, T_LeaveAt]"

text \<open>\<open>#[repr(u8)]\<close> numbers the variants in declaration order.\<close>

primrec event_code :: "event_type \<Rightarrow> u8" where
  "event_code T_PointerMotion = 0"
| "event_code T_PointerButton = 1"
| "event_code T_PointerAxis = 2"
| "event_code T_PointerAxisValue120 = 3"
| "event_code T_KeyboardKey = 4"
| "event_code T_KeyboardModifiers = 5"
| "event_code T_Ping = 6"
| "event_code T_Pong = 7"
| "event_code T_Enter = 8"
| "event_code T_Leave = 9"
| "event_code T_Ack = 10"
| "event_code T_Hello = 11"
| "event_code T_ClipboardStart = 12"
| "event_code T_ClipboardChunk = 13"
| "event_code T_ClipboardImageStart = 14"
| "event_code T_ClipboardCapabilities = 15"
| "event_code T_ClipboardManifest = 16"
| "event_code T_ClipboardFileRequest = 17"
| "event_code T_ClipboardFileChunk = 18"
| "event_code T_ClipboardFileComplete = 19"
| "event_code T_ClipboardTransferCancel = 20"
| "event_code T_ClipboardTransferProgress = 21"
| "event_code T_HistorySyncRequest = 22"
| "event_code T_HistoryRecordStart = 23"
| "event_code T_HistoryRecordChunk = 24"
| "event_code T_HistorySyncPageEnd = 25"
| "event_code T_HistoryClearBoundaryRequest = 26"
| "event_code T_HistoryClearBoundary = 27"
| "event_code T_HistoryClearApply = 28"
| "event_code T_HistoryClearAck = 29"
| "event_code T_ProfileStart = 30"
| "event_code T_ProfileChunk = 31"
| "event_code T_ProfileRequest = 32"
| "event_code T_ProfileChanged = 33"
| "event_code T_ManualFileOffer = 34"
| "event_code T_ManualFileDecision = 35"
| "event_code T_ManualFileRequest = 36"
| "event_code T_ManualFileChunk = 37"
| "event_code T_ManualFileComplete = 38"
| "event_code T_ManualFileResult = 39"
| "event_code T_ManualFileCancel = 40"
| "event_code T_Handoff = 41"
| "event_code T_EnterVia = 42"
| "event_code T_EnterAt = 43"
| "event_code T_InputCapabilities = 44"
| "event_code T_LeaveAt = 45"

definition event_type_try_from :: "u8 \<Rightarrow> event_type option" where
  "event_type_try_from b = find (\<lambda>t. event_code t = b) event_types"

lemma event_type_try_from_code [simp]: "event_type_try_from (event_code t) = Some t"
  by (cases t) (simp_all add: event_type_try_from_def event_types_def)

lemma event_type_try_from_Some: "event_type_try_from b = Some t \<Longrightarrow> b = event_code t"
  by (auto simp: event_type_try_from_def find_Some_iff)

text \<open>The discriminator a message is sent under, \<open>ProtoEvent::event_type\<close>.\<close>

primrec pointer_event_type :: "pointer_event \<Rightarrow> event_type" where
  "pointer_event_type (Motion t dx dy) = T_PointerMotion"
| "pointer_event_type (Button t b s) = T_PointerButton"
| "pointer_event_type (Axis t a v) = T_PointerAxis"
| "pointer_event_type (AxisDiscrete120 a v) = T_PointerAxisValue120"

primrec keyboard_event_type :: "keyboard_event \<Rightarrow> event_type" where
  "keyboard_event_type (Key t k s) = T_KeyboardKey"
| "keyboard_event_type (Modifiers d l k g) = T_KeyboardModifiers"

primrec input_event_type :: "input_event \<Rightarrow> event_type" where
  "input_event_type (Pointer p) = pointer_event_type p"
| "input_event_type (Keyboard k) = keyboard_event_type k"

primrec event_type_of :: "proto_event \<Rightarrow> event_type" where
  "event_type_of (Input i) = input_event_type i"
| "event_type_of Ping = T_Ping"
| "event_type_of (Pong a) = T_Pong"
| "event_type_of (ClipboardCapabilities c) = T_ClipboardCapabilities"
| "event_type_of (ClipboardManifest t es) = T_ClipboardManifest"
| "event_type_of (ClipboardFileRequest t f r x l) = T_ClipboardFileRequest"
| "event_type_of (ClipboardFileChunk t f r x d) = T_ClipboardFileChunk"
| "event_type_of (ClipboardFileComplete t f r s d) = T_ClipboardFileComplete"
| "event_type_of (ClipboardTransferCancel t f r) = T_ClipboardTransferCancel"
| "event_type_of (ClipboardTransferProgress t f c n) = T_ClipboardTransferProgress"
| "event_type_of (HistorySyncRequest r x) = T_HistorySyncRequest"
| "event_type_of (HistoryRecordStart r i n c) = T_HistoryRecordStart"
| "event_type_of (HistoryRecordChunk r i x d) = T_HistoryRecordChunk"
| "event_type_of (HistorySyncPageEnd r n) = T_HistorySyncPageEnd"
| "event_type_of (HistoryClearBoundaryRequest op) = T_HistoryClearBoundaryRequest"
| "event_type_of (HistoryClearBoundary op b) = T_HistoryClearBoundary"
| "event_type_of (HistoryClearApply op b) = T_HistoryClearApply"
| "event_type_of (HistoryClearAck op a e) = T_HistoryClearAck"
| "event_type_of (Enter p) = T_Enter"
| "event_type_of (Leave s) = T_Leave"
| "event_type_of (Handoff t s) = T_Handoff"
| "event_type_of (EnterVia s v) = T_EnterVia"
| "event_type_of (EnterAt s a) = T_EnterAt"
| "event_type_of (InputCapabilities b) = T_InputCapabilities"
| "event_type_of (LeaveAt a) = T_LeaveAt"
| "event_type_of (Ack s) = T_Ack"
| "event_type_of (Hello c) = T_Hello"
| "event_type_of (ClipboardStart t n c) = T_ClipboardStart"
| "event_type_of (ClipboardImageStart t w h n c) = T_ClipboardImageStart"
| "event_type_of (ProfileRequest r) = T_ProfileRequest"
| "event_type_of ProfileChanged = T_ProfileChanged"
| "event_type_of (ProfileStart r w h n c d) = T_ProfileStart"
| "event_type_of (ProfileChunk r i d) = T_ProfileChunk"
| "event_type_of (ClipboardChunk t i d) = T_ClipboardChunk"
| "event_type_of (ManualFileOffer t f s) = T_ManualFileOffer"
| "event_type_of (ManualFileDecision t d) = T_ManualFileDecision"
| "event_type_of (ManualFileRequest t x l) = T_ManualFileRequest"
| "event_type_of (ManualFileChunk t x d) = T_ManualFileChunk"
| "event_type_of (ManualFileComplete t s) = T_ManualFileComplete"
| "event_type_of (ManualFileResult t s e) = T_ManualFileResult"
| "event_type_of (ManualFileCancel t) = T_ManualFileCancel"

section \<open>Positions and small enumerations on the wire\<close>

primrec position_code :: "position \<Rightarrow> u8" where
  "position_code Left = 0"
| "position_code Right = 1"
| "position_code Top = 2"
| "position_code Bottom = 3"

definition position_try_from :: "u8 \<Rightarrow> protocol_error + position" where
  "position_try_from b =
     (if b = 0 then Inr Left else if b = 1 then Inr Right else if b = 2 then Inr Top
      else if b = 3 then Inr Bottom else Inl (InvalidPosition b))"

lemma position_try_from_code [simp]: "position_try_from (position_code p) = Inr p"
  by (cases p) (simp_all add: position_try_from_def)

lemma position_try_from_Inr [wire_get]: "position_try_from b = Inr p \<longleftrightarrow> b = position_code p"
  by (cases p) (auto simp: position_try_from_def)

primrec decision_code :: "manual_decision \<Rightarrow> u8" where
  "decision_code Pending = 0"
| "decision_code Accepted = 1"
| "decision_code Declined = 2"

primrec reason_code :: "clipboard_cancel_reason \<Rightarrow> u8" where
  "reason_code User = 0"
| "reason_code IoError = 1"
| "reason_code Protocol = 2"

end
