(* ===== verification/Proto_Validate.thy ===== *)
theory Proto_Validate
  imports Proto_Types
begin

text \<open>
  The validators of \<open>crates/syntra-proto/src/lib.rs\<close>: file names, relative paths, chunk
  counts, file positions and request ranges. \<open>usize\<close> is 64 bits wide. The lemmas say what an
  accepted value is; in particular an accepted path, resolved component by component under
  any directory, stays below that directory.
\<close>

section \<open>String operations of the standard library\<close>

definition starts_with_byte :: "u8 \<Rightarrow> rstring \<Rightarrow> bool" where
  "starts_with_byte c s = (case s of [] \<Rightarrow> False | b # _ \<Rightarrow> b = c)"

definition ends_with_byte :: "u8 \<Rightarrow> rstring \<Rightarrow> bool" where
  "ends_with_byte c s = (s \<noteq> [] \<and> last s = c)"

definition is_ascii_control :: "u8 \<Rightarrow> bool" where
  "is_ascii_control b = (b < 0x20 \<or> b = 0x7F)"

definition ascii_lower :: "u8 \<Rightarrow> u8" where
  "ascii_lower b = (if 0x41 \<le> b \<and> b \<le> 0x5A then b + 0x20 else b)"

definition eq_ignore_ascii_case :: "rstring \<Rightarrow> rstring \<Rightarrow> bool" where
  "eq_ignore_ascii_case a b = (map ascii_lower a = map ascii_lower b)"

definition trim_end_byte :: "u8 \<Rightarrow> rstring \<Rightarrow> rstring" where
  "trim_end_byte c s = rev (dropWhile (\<lambda>b. b = c) (rev s))"

text \<open>\<open>str::get(..n)\<close> and \<open>str::get(n..)\<close> need \<open>n\<close> to be a character boundary.\<close>

definition is_char_boundary :: "rstring \<Rightarrow> nat \<Rightarrow> bool" where
  "is_char_boundary s n = (n = 0 \<or> n = length s \<or> (n < length s \<and> \<not> utf8_cont (s ! n)))"

definition str_get_to :: "rstring \<Rightarrow> nat \<Rightarrow> rstring option" where
  "str_get_to s n = (if is_char_boundary s n then Some (take n s) else None)"

definition str_get_from :: "rstring \<Rightarrow> nat \<Rightarrow> rstring option" where
  "str_get_from s n = (if is_char_boundary s n then Some (drop n s) else None)"

section \<open>Manual file names\<close>

text \<open>The bytes \<open>< > : " | ? *\<close>.\<close>

definition windows_reserved_byte :: "u8 \<Rightarrow> bool" where
  "windows_reserved_byte b = (b \<in> set [0x3C, 0x3E, 0x3A, 0x22, 0x7C, 0x3F, 0x2A])"

text \<open>The suffixes \<open>1\<close> to \<open>9\<close> and the superscripts one, two and three.\<close>

definition device_suffixes :: "rstring list" where
  "device_suffixes = [[0x31], [0x32], [0x33], [0x34], [0x35], [0x36], [0x37], [0x38], [0x39],
     [0xC2, 0xB9], [0xC2, 0xB2], [0xC2, 0xB3]]"

definition reserved_device_stem :: "rstring \<Rightarrow> bool" where
  "reserved_device_stem stem =
     (list_ex (eq_ignore_ascii_case stem) [lit ''CON'', lit ''PRN'', lit ''AUX'', lit ''NUL'']
      \<or> ((case str_get_to stem 3 of None \<Rightarrow> False
           | Some prefix \<Rightarrow> eq_ignore_ascii_case prefix (lit ''COM'')
                          \<or> eq_ignore_ascii_case prefix (lit ''LPT''))
         \<and> (case str_get_from stem 3 of None \<Rightarrow> False
              | Some suffix \<Rightarrow> suffix \<in> set device_suffixes)))"

definition validate_manual_file_name :: "rstring \<Rightarrow> protocol_error + unit" where
  "validate_manual_file_name name =
     (if name = [] \<or> length name > MAX_MANUAL_FILE_NAME_SIZE
         \<or> name = lit ''.'' \<or> name = lit ''..''
         \<or> starts_with_byte 0x2F name
         \<or> 0x2F \<in> set name \<or> 0x5C \<in> set name
         \<or> ends_with_byte 0x2E name \<or> ends_with_byte 0x20 name
         \<or> list_ex (\<lambda>b. b = 0 \<or> is_ascii_control b) name
         \<or> list_ex windows_reserved_byte name
      then Inl (InvalidPath name)
      else let stem = trim_end_byte 0x20 (hd (split_on 0x2E name))
           in if reserved_device_stem stem then Inl (InvalidPath name) else Inr ())"

section \<open>Chunk counts and sizes\<close>

definition validate_history_start :: "u32 \<Rightarrow> u32 \<Rightarrow> protocol_error + unit" where
  "validate_history_start total_len chunks =
     (let len = unat total_len in
      if len = 0 \<or> len > MAX_HISTORY_RECORD_SIZE
      then Inl (TooLarge len MAX_HISTORY_RECORD_SIZE)
      else let expected = word_of_nat (div_ceil len MAX_HISTORY_CHUNK_SIZE)
           in if chunks \<noteq> expected then Inl (InvalidChunkCount expected chunks) else Inr ())"

definition validate_clipboard_start :: "u32 \<Rightarrow> u32 \<Rightarrow> protocol_error + unit" where
  "validate_clipboard_start total_len chunks =
     (if unat total_len > MAX_CLIPBOARD_SIZE
      then Inl (TooLarge (unat total_len) MAX_CLIPBOARD_SIZE)
      else let expected = (if total_len = 0 then 0
                           else word_of_nat (div_ceil (unat total_len) MAX_CLIPBOARD_CHUNK_SIZE))
           in if chunks \<noteq> expected then Inl (InvalidChunkCount expected chunks) else Inr ())"

definition validate_clipboard_image ::
  "u32 \<Rightarrow> u32 \<Rightarrow> u32 \<Rightarrow> u32 \<Rightarrow> protocol_error + unit" where
  "validate_clipboard_image width height total_len chunks =
     (case Option.bind (checked_mul (ucast width :: u64) (ucast height))
             (\<lambda>pixels. checked_mul pixels 4) of
        None \<Rightarrow> Inl (TooLarge USIZE_MAX MAX_CLIPBOARD_SIZE)
      | Some expected_len \<Rightarrow>
          if unat expected_len \<noteq> unat total_len
          then Inl (TooLarge (unat total_len) (unat expected_len))
          else validate_clipboard_start total_len chunks)"

section \<open>Relative paths\<close>

definition validate_path :: "rstring \<Rightarrow> protocol_error + unit" where
  "validate_path path =
     (if length path > MAX_CLIPBOARD_PATH_SIZE
      then Inl (TooLarge (length path) MAX_CLIPBOARD_PATH_SIZE)
      else if path = [] \<or> starts_with_byte 0x2F path \<or> ends_with_byte 0x2F path
         \<or> list_ex (\<lambda>b. b = 0x5C \<or> b = 0x3A \<or> b = 0) path
      then Inl (InvalidPath path)
      else if list_ex (\<lambda>part. part = [] \<or> part = lit ''.'' \<or> part = lit ''..'') (split_on 0x2F path)
      then Inl (InvalidPath path)
      else Inr ())"

section \<open>Positions and ranges\<close>

definition validate_file_position :: "u64 \<Rightarrow> protocol_error + unit" where
  "validate_file_position value =
     (if unat value > MAX_CLIPBOARD_SIZE
      then Inl (TooLarge (unat value) MAX_CLIPBOARD_SIZE) else Inr ())"

definition validate_file_chunk :: "u64 \<Rightarrow> nat \<Rightarrow> protocol_error + unit" where
  "validate_file_chunk offset data_len =
     (if data_len = 0 then Inl (InvalidFileChunk ''empty chunk'')
      else if data_len > MAX_CLIPBOARD_FILE_CHUNK_SIZE
      then Inl (TooLarge data_len MAX_CLIPBOARD_FILE_CHUNK_SIZE)
      else rbind (validate_file_position offset) (\<lambda>_.
        case checked_add offset (word_of_nat data_len) of
          None \<Rightarrow> Inl LengthOverflow
        | Some end \<Rightarrow> validate_file_position end))"

definition validate_progress :: "u64 \<Rightarrow> u64 \<Rightarrow> protocol_error + unit" where
  "validate_progress completed tot =
     rbind (validate_file_position tot) (\<lambda>_.
       if completed > tot then Inl (InvalidProgress completed tot) else Inr ())"

definition validate_ids :: "u64 \<Rightarrow> u64 \<Rightarrow> protocol_error + unit" where
  "validate_ids file_id request_id =
     (if file_id = 0 then Inl (InvalidFileChunk ''zero file id'')
      else if request_id = 0 then Inl (InvalidFileChunk ''zero request id'')
      else Inr ())"

definition validate_request :: "u64 \<Rightarrow> u64 \<Rightarrow> protocol_error + unit" where
  "validate_request offset len =
     rbind (validate_file_position offset) (\<lambda>_.
       if len = 0 \<or> unat len > MAX_CLIPBOARD_FILE_CHUNK_SIZE
       then Inl (InvalidFileChunk ''invalid request length'')
       else case checked_add offset len of
              None \<Rightarrow> Inl LengthOverflow
            | Some end \<Rightarrow> validate_file_position end)"

section \<open>What is accepted\<close>

lemma validate_history_start_ok:
  "validate_history_start total_len chunks = Inr () \<longleftrightarrow>
     0 < unat total_len \<and> unat total_len \<le> MAX_HISTORY_RECORD_SIZE
     \<and> chunks = word_of_nat (div_ceil (unat total_len) MAX_HISTORY_CHUNK_SIZE)"
  by (auto simp: validate_history_start_def Let_def)

lemma validate_file_position_ok:
  "validate_file_position v = Inr () \<longleftrightarrow> unat v \<le> MAX_CLIPBOARD_SIZE"
  by (simp add: validate_file_position_def)

lemma checked_add_small:
  fixes a b :: u64
  assumes "unat a \<le> MAX_CLIPBOARD_SIZE" and "unat b \<le> MAX_CLIPBOARD_SIZE"
  shows "checked_add a b = Some (a + b)" and "unat (a + b) = unat a + unat b"
proof -
  have *: "unat a + unat b < 2 ^ LENGTH(64)" using assms by (simp add: const_defs)
  then show "checked_add a b = Some (a + b)" by (simp add: checked_add_def)
  from * show "unat (a + b) = unat a + unat b" by (simp add: unat_word_ariths)
qed

lemma validate_file_chunk_ok:
  "validate_file_chunk offset n = Inr () \<longleftrightarrow>
     0 < n \<and> n \<le> MAX_CLIPBOARD_FILE_CHUNK_SIZE \<and> unat offset + n \<le> MAX_CLIPBOARD_SIZE"
proof (cases "0 < n \<and> n \<le> MAX_CLIPBOARD_FILE_CHUNK_SIZE \<and> unat offset \<le> MAX_CLIPBOARD_SIZE")
  case True
  then have n: "unat (word_of_nat n :: u64) = n" by (simp add: unat_of_nat const_defs)
  then have small: "unat (word_of_nat n :: u64) \<le> MAX_CLIPBOARD_SIZE"
    using True by (simp add: const_defs)
  with True n checked_add_small [of offset "word_of_nat n"] show ?thesis
    by (simp add: validate_file_chunk_def validate_file_position_def)
next
  case False
  then show ?thesis
    by (auto simp: validate_file_chunk_def validate_file_position_def)
qed

lemma validate_request_ok:
  "validate_request offset len = Inr () \<longleftrightarrow>
     0 < unat len \<and> unat len \<le> MAX_CLIPBOARD_FILE_CHUNK_SIZE
     \<and> unat offset + unat len \<le> MAX_CLIPBOARD_SIZE"
proof (cases "0 < unat len \<and> unat len \<le> MAX_CLIPBOARD_FILE_CHUNK_SIZE
              \<and> unat offset \<le> MAX_CLIPBOARD_SIZE")
  case True
  then have "unat len \<le> MAX_CLIPBOARD_SIZE" by (simp add: const_defs)
  with True checked_add_small [of offset len] show ?thesis
    by (auto simp: validate_request_def validate_file_position_def unat_gt_0)
next
  case False
  then show ?thesis
    by (auto simp: validate_request_def validate_file_position_def unat_gt_0)
qed

lemma validate_progress_ok:
  "validate_progress c t = Inr () \<longleftrightarrow> unat t \<le> MAX_CLIPBOARD_SIZE \<and> c \<le> t"
  by (auto simp: validate_progress_def validate_file_position_def not_less)

lemma validate_ids_ok: "validate_ids f r = Inr () \<longleftrightarrow> f \<noteq> 0 \<and> r \<noteq> 0"
  by (simp add: validate_ids_def)

section \<open>Paths stay below their root\<close>

text \<open>
  How an operating system walks a relative path from a directory, both as component lists:
  an empty component and \<open>.\<close> stay, \<open>..\<close> goes up, anything else goes down.
\<close>

fun walk :: "rstring list \<Rightarrow> rstring list \<Rightarrow> rstring list" where
  "walk dir [] = dir"
| "walk dir (part # parts) =
     (if part = [] \<or> part = lit ''.'' then walk dir parts
      else if part = lit ''..'' then walk (butlast dir) parts
      else walk (dir @ [part]) parts)"

lemma walk_normal:
  "\<forall>part \<in> set parts. part \<noteq> [] \<and> part \<noteq> lit ''.'' \<and> part \<noteq> lit ''..'' \<Longrightarrow>
   walk dir parts = dir @ parts"
  by (induction parts arbitrary: dir) auto

lemma validate_path_parts:
  "validate_path path = Inr () \<Longrightarrow>
   \<forall>part \<in> set (split_on 0x2F path). part \<noteq> [] \<and> part \<noteq> lit ''.'' \<and> part \<noteq> lit ''..''"
  unfolding validate_path_def by (auto simp: list_ex_iff simp del: lit_Cons split: if_splits)

lemma split_on_absent: "c \<notin> set xs \<Longrightarrow> split_on c xs = [xs]"
  by (induction xs) auto

lemma manual_name_bytes:
  assumes "validate_manual_file_name name = Inr ()"
  shows "name \<noteq> []" "length name \<le> MAX_MANUAL_FILE_NAME_SIZE" "name \<noteq> lit ''.''"
    "name \<noteq> lit ''..''" "0x2F \<notin> set name" "0x5C \<notin> set name" "0x3A \<notin> set name" "0 \<notin> set name"
  using assms
  by (auto simp: validate_manual_file_name_def list_ex_iff windows_reserved_byte_def
      is_ascii_control_def simp del: lit_Cons split: if_splits)

section \<open>Properties of the path and name validators\<close>

text \<open>A path that \<open>validate_path\<close> accepts names a place strictly below any
  directory it is resolved in: walking its components from the directory only goes down, and no
  component is empty or holds a separator, a drive colon or a NUL byte.\<close>

theorem manifest_path_confined:
  assumes "validate_path path = Inr ()"
  shows "walk root (split_on 0x2F path) = root @ split_on 0x2F path
    \<and> (\<forall>part \<in> set (split_on 0x2F path).
         part \<noteq> [] \<and> 0x2F \<notin> set part \<and> 0x5C \<notin> set part \<and> 0x3A \<notin> set part \<and> 0 \<notin> set part)"
proof -
  from assms have "0x5C \<notin> set path" "0x3A \<notin> set path" "0 \<notin> set path"
    by (auto simp: validate_path_def list_ex_iff simp del: lit_Cons split: if_splits)
  with validate_path_parts [OF assms] show ?thesis
    by (auto simp: walk_normal dest: split_on_no_sep set_split_on simp del: lit_Cons)
qed

theorem manifest_path_confined_witness:
  "walk [lit ''srv''] (split_on 0x2F (lit ''a/b.txt'')) = [lit ''srv'', lit ''a'', lit ''b.txt'']"
proof -
  have "validate_path (lit ''a/b.txt'') = Inr ()"
    by (simp add: validate_path_def starts_with_byte_def ends_with_byte_def const_defs)
  from manifest_path_confined [OF this, of "[lit ''srv'']"] show ?thesis by simp
qed

text \<open>A name that \<open>validate_manual_file_name\<close> accepts is a single path
  component: it is a valid relative path with no separator, so that joining it to a directory
  gives a direct child of the directory.\<close>

theorem manual_name_single_component:
  assumes "validate_manual_file_name name = Inr ()"
  shows "validate_path name = Inr () \<and> split_on 0x2F name = [name] \<and> walk root [name] = root @ [name]"
proof -
  note b = manual_name_bytes [OF assms]
  then have "split_on 0x2F name = [name]" by (intro split_on_absent)
  moreover have "\<not> starts_with_byte 0x2F name" "\<not> ends_with_byte 0x2F name"
    using b by (auto simp: starts_with_byte_def ends_with_byte_def split: list.splits
        dest: last_in_set)
  moreover have "\<not> list_ex (\<lambda>b. b = 0x5C \<or> b = 0x3A \<or> b = 0) name"
    using b by (auto simp: list_ex_iff)
  ultimately show ?thesis using b
    by (simp add: validate_path_def const_defs del: lit_Cons)
qed

theorem manual_name_single_component_witness:
  "validate_path (lit ''cv.pdf'') = Inr () \<and> walk [lit ''in''] [lit ''cv.pdf''] = [lit ''in'', lit ''cv.pdf'']"
proof -
  have "validate_manual_file_name (lit ''cv.pdf'') = Inr ()"
    by code_simp
  from manual_name_single_component [OF this, of "[lit ''in'']"] show ?thesis by simp
qed

end
