(* ===== verification/Proto_Codec.thy ===== *)
theory Proto_Codec
  imports Proto_Validate
begin

text \<open>
  The message codec of \<open>crates/syntra-proto/src/lib.rs\<close>: \<open>ProtoEvent::encode\<close> and
  \<open>ProtoEvent::decode\<close>. Every arm of the two matches that does more than copy one field is
  a definition of its own (\<open>enc_*\<close> extends the buffer, \<open>dec_*\<close> reads the body), and
  \<open>encode\<close> and \<open>decode\<close> dispatch to them as the Rust matches do.

  The theorems (stated in the root theory) say what the receiver of an encoded message sees,
  and that a decoded message re-encodes. The manifest and the history boundary are counted
  sequences: their loops are recursive functions on the entries and on the count.
\<close>

named_theorems codec_defs \<open>the arms of encode and decode\<close>

section \<open>Floating-point fractions\<close>

text \<open>
  On the bit pattern of an \<open>f32\<close>: the exponent of a non-finite value is all ones, negative
  values have the top bit set, and \<open>0x3F800000\<close> is \<open>1.0\<close>. \<open>clamp(0.0, 1.0)\<close> keeps a
  negative zero, since it is not less than zero.
\<close>

definition f32_is_finite :: "f32_bits \<Rightarrow> bool" where
  "f32_is_finite x \<longleftrightarrow> (x AND 0x7FFFFFFF) < 0x7F800000"

definition f32_clamp01 :: "f32_bits \<Rightarrow> f32_bits" where
  "f32_clamp01 x = (if 0x80000000 < x then 0
                    else if x < 0x80000000 \<and> 0x3F800000 < x then 0x3F800000 else x)"

section \<open>Encoding: the arms of encode\<close>

definition enc_manual_file_offer :: "bytes \<Rightarrow> u64 \<Rightarrow> rstring \<Rightarrow> u64 \<Rightarrow> protocol_error + bytes" where
  [codec_defs]: "enc_manual_file_offer buf transfer_id file_name sz =
     (if transfer_id = 0 then Inl (InvalidFileChunk ''zero transfer id'')
      else rbind (validate_manual_file_name file_name) (\<lambda>_.
        Inr (buf @ put_u64 transfer_id @ put_u16 (word_of_nat (length file_name)) @ file_name
                 @ put_u64 sz)))"

definition enc_manual_file_decision :: "bytes \<Rightarrow> u64 \<Rightarrow> manual_decision \<Rightarrow> protocol_error + bytes" where
  [codec_defs]: "enc_manual_file_decision buf transfer_id decision =
     (if transfer_id = 0 then Inl (InvalidFileChunk ''zero transfer id'')
      else Inr (buf @ put_u64 transfer_id @ put_u8 (decision_code decision)))"

definition enc_manual_file_request :: "bytes \<Rightarrow> u64 \<Rightarrow> u64 \<Rightarrow> u32 \<Rightarrow> protocol_error + bytes" where
  [codec_defs]: "enc_manual_file_request buf transfer_id offset len =
     (if transfer_id = 0 \<or> \<not> (1 \<le> unat len \<and> unat len \<le> MAX_MANUAL_FILE_CHUNK_SIZE)
      then Inl (InvalidFileChunk ''invalid manual request'')
      else Inr (buf @ put_u64 transfer_id @ put_u64 offset @ put_u32 len))"

definition enc_manual_file_chunk :: "bytes \<Rightarrow> u64 \<Rightarrow> u64 \<Rightarrow> bytes \<Rightarrow> protocol_error + bytes" where
  [codec_defs]: "enc_manual_file_chunk buf transfer_id offset data =
     (if transfer_id = 0 \<or> data = [] \<or> length data > MAX_MANUAL_FILE_CHUNK_SIZE
      then Inl (InvalidFileChunk ''invalid manual chunk'')
      else Inr (buf @ put_u64 transfer_id @ put_u64 offset @ data))"

definition enc_manual_file_complete :: "bytes \<Rightarrow> u64 \<Rightarrow> bytes \<Rightarrow> protocol_error + bytes" where
  [codec_defs]: "enc_manual_file_complete buf transfer_id sha256 =
     (if transfer_id = 0 then Inl (InvalidFileChunk ''zero transfer id'')
      else Inr (buf @ put_u64 transfer_id @ sha256))"

definition enc_manual_file_result ::
  "bytes \<Rightarrow> u64 \<Rightarrow> bool \<Rightarrow> rstring option \<Rightarrow> protocol_error + bytes" where
  [codec_defs]: "enc_manual_file_result buf transfer_id success error =
     (if transfer_id = 0 then Inl (InvalidFileChunk ''zero transfer id'')
      else case error of
        Some e \<Rightarrow>
          if length e > MAX_MANUAL_FILE_ERROR_SIZE
          then Inl (TooLarge (length e) MAX_MANUAL_FILE_ERROR_SIZE)
          else rbind (put_optional_string error) (\<lambda>s.
            Inr (buf @ put_u64 transfer_id @ put_bool success @ s))
      | None \<Rightarrow> rbind (put_optional_string error) (\<lambda>s.
            Inr (buf @ put_u64 transfer_id @ put_bool success @ s)))"

definition enc_manual_file_cancel :: "bytes \<Rightarrow> u64 \<Rightarrow> protocol_error + bytes" where
  [codec_defs]: "enc_manual_file_cancel buf transfer_id =
     (if transfer_id = 0 then Inl (InvalidFileChunk ''zero transfer id'')
      else Inr (buf @ put_u64 transfer_id))"

primrec enc_pointer :: "bytes \<Rightarrow> pointer_event \<Rightarrow> bytes" where
  "enc_pointer buf (Motion time dx dy) = buf @ put_u32 time @ put_f64 dx @ put_f64 dy"
| "enc_pointer buf (Button time button state) = buf @ put_u32 time @ put_u32 button @ put_u32 state"
| "enc_pointer buf (Axis time axis value) = buf @ put_u32 time @ put_u8 axis @ put_f64 value"
| "enc_pointer buf (AxisDiscrete120 axis value) = buf @ put_u8 axis @ put_i32 value"

primrec enc_keyboard :: "bytes \<Rightarrow> keyboard_event \<Rightarrow> bytes" where
  "enc_keyboard buf (Key time key state) = buf @ put_u32 time @ put_u32 key @ put_u8 state"
| "enc_keyboard buf (Modifiers depressed latched locked grp) =
     buf @ put_u32 depressed @ put_u32 latched @ put_u32 locked @ put_u32 grp"

definition enc_handoff :: "bytes \<Rightarrow> position \<Rightarrow> rstring \<Rightarrow> bytes" where
  [codec_defs]: "enc_handoff buf side target =
     buf @ put_u8 (position_code side)
         @ put_u16 (word_of_nat (min (length target) MAX_HANDOFF_TARGET))
         @ take (min (length target) MAX_HANDOFF_TARGET) target"

definition enc_profile_request :: "bytes \<Rightarrow> u64 \<Rightarrow> protocol_error + bytes" where
  [codec_defs]: "enc_profile_request buf request_id =
     (if request_id = 0 then Inl (InvalidProfile ''zero request id'')
      else Inr (buf @ put_u64 request_id))"

text \<open>The metadata test that the \<open>ProfileStart\<close> arms of encode and decode share.\<close>

definition profile_metadata_invalid :: "u32 \<Rightarrow> u32 \<Rightarrow> u32 \<Rightarrow> u32 \<Rightarrow> nat \<Rightarrow> bool" where
  "profile_metadata_invalid width height total_len chunks name_len =
     (let empty = (width = 0 \<and> height = 0 \<and> total_len = 0 \<and> chunks = 0);
          pixels = Option.bind (checked_mul (ucast width :: u64) (ucast height))
                     (\<lambda>v. checked_mul v 4)
      in name_len > MAX_PROFILE_NAME_SIZE
         \<or> width > 128 \<or> height > 128 \<or> unat total_len > MAX_PROFILE_SIZE
         \<or> (\<not> empty \<and> (chunks = 0 \<or> pixels \<noteq> Some (ucast total_len)))
         \<or> (empty \<and> pixels \<noteq> Some 0))"

definition enc_profile_start ::
  "bytes \<Rightarrow> u64 \<Rightarrow> u32 \<Rightarrow> u32 \<Rightarrow> u32 \<Rightarrow> u32 \<Rightarrow> rstring \<Rightarrow> protocol_error + bytes" where
  [codec_defs]: "enc_profile_start buf request_id width height total_len chunks display_name =
     (if request_id = 0
         \<or> profile_metadata_invalid width height total_len chunks (length display_name)
      then Inl (InvalidProfile ''invalid profile metadata'')
      else Inr (buf @ put_u64 request_id @ put_u32 width @ put_u32 height @ put_u32 total_len
                    @ put_u32 chunks @ put_u8 (word_of_nat (length display_name))
                    @ display_name))"

definition enc_profile_chunk :: "bytes \<Rightarrow> u64 \<Rightarrow> u32 \<Rightarrow> bytes \<Rightarrow> protocol_error + bytes" where
  [codec_defs]: "enc_profile_chunk buf request_id index data =
     (if request_id = 0 \<or> data = [] \<or> length data > MAX_PROFILE_CHUNK_SIZE
      then Inl (TooLarge (PROFILE_CHUNK_HEADER_SIZE + length data) SAFE_DATAGRAM_SIZE)
      else Inr (buf @ put_u64 request_id @ put_u32 index @ data))"

definition enc_clipboard_start :: "bytes \<Rightarrow> u64 \<Rightarrow> u32 \<Rightarrow> u32 \<Rightarrow> protocol_error + bytes" where
  [codec_defs]: "enc_clipboard_start buf transfer_id total_len chunks =
     rbind (validate_clipboard_start total_len chunks) (\<lambda>_.
       Inr (buf @ put_u64 transfer_id @ put_u32 total_len @ put_u32 chunks))"

definition enc_clipboard_image_start ::
  "bytes \<Rightarrow> u64 \<Rightarrow> u32 \<Rightarrow> u32 \<Rightarrow> u32 \<Rightarrow> u32 \<Rightarrow> protocol_error + bytes" where
  [codec_defs]: "enc_clipboard_image_start buf transfer_id width height total_len chunks =
     rbind (validate_clipboard_image width height total_len chunks) (\<lambda>_.
       Inr (buf @ put_u64 transfer_id @ put_u32 width @ put_u32 height @ put_u32 total_len
                @ put_u32 chunks))"

definition enc_clipboard_chunk :: "bytes \<Rightarrow> u64 \<Rightarrow> u32 \<Rightarrow> bytes \<Rightarrow> protocol_error + bytes" where
  [codec_defs]: "enc_clipboard_chunk buf transfer_id index data =
     (let actual = CLIPBOARD_CHUNK_HEADER_SIZE + length data in
      if actual > MAX_DATAGRAM_SIZE then Inl (TooLarge actual MAX_DATAGRAM_SIZE)
      else Inr (buf @ put_u64 transfer_id @ put_u32 index @ data))"

fun encode_manifest_entries ::
  "bytes \<Rightarrow> u64 \<Rightarrow> u64 \<Rightarrow> clipboard_manifest_entry list \<Rightarrow> protocol_error + bytes" where
  "encode_manifest_entries buf previous tot [] = Inr buf"
| "encode_manifest_entries buf previous tot (entry # entries) =
     rbind (validate_path (me_path entry)) (\<lambda>_.
       if me_file_id entry = 0 \<or> me_file_id entry \<le> previous
       then Inl (InvalidManifest (lit ''file ids must increase''))
       else case checked_add tot (me_size entry) of
          None \<Rightarrow> Inl LengthOverflow
        | Some tot' \<Rightarrow>
            if unat tot' > MAX_CLIPBOARD_SIZE then Inl (TooLarge USIZE_MAX MAX_CLIPBOARD_SIZE)
            else if me_kind entry = Directory \<and> me_size entry \<noteq> 0
            then Inl (InvalidManifest (lit ''directory size''))
            else encode_manifest_entries
              (buf @ put_u64 (me_file_id entry) @ put_bool (me_kind entry = File)
                   @ put_u16 (word_of_nat (length (me_path entry))) @ me_path entry
                   @ put_u64 (me_size entry))
              (me_file_id entry) tot' entries)"

definition encode_manifest ::
  "bytes \<Rightarrow> u64 \<Rightarrow> clipboard_manifest_entry list \<Rightarrow> protocol_error + bytes" where
  "encode_manifest buf transfer_id entries =
     (if entries = [] \<or> length entries > MAX_CLIPBOARD_MANIFEST_ENTRIES
      then Inl (InvalidManifest (lit ''entry count''))
      else rbind (encode_manifest_entries
             (buf @ put_u64 transfer_id @ put_u32 (word_of_nat (length entries))) 0 0 entries)
        (\<lambda>out. if length out > MAX_DATAGRAM_SIZE
                then Inl (TooLarge (length out) MAX_DATAGRAM_SIZE) else Inr out))"

definition enc_clipboard_file_request ::
  "bytes \<Rightarrow> u64 \<Rightarrow> u64 \<Rightarrow> u64 \<Rightarrow> u64 \<Rightarrow> u64 \<Rightarrow> protocol_error + bytes" where
  [codec_defs]: "enc_clipboard_file_request buf transfer_id file_id request_id offset len =
     rbind (validate_ids file_id request_id) (\<lambda>_. rbind (validate_request offset len) (\<lambda>_.
       Inr (buf @ put_u64 transfer_id @ put_u64 file_id @ put_u64 request_id @ put_u64 offset
                @ put_u64 len)))"

definition enc_clipboard_file_chunk ::
  "bytes \<Rightarrow> u64 \<Rightarrow> u64 \<Rightarrow> u64 \<Rightarrow> u64 \<Rightarrow> bytes \<Rightarrow> protocol_error + bytes" where
  [codec_defs]: "enc_clipboard_file_chunk buf transfer_id file_id request_id offset data =
     rbind (validate_ids file_id request_id) (\<lambda>_.
     rbind (validate_file_chunk offset (length data)) (\<lambda>_.
       Inr (buf @ put_u64 transfer_id @ put_u64 file_id @ put_u64 request_id @ put_u64 offset
                @ data)))"

definition enc_clipboard_file_complete ::
  "bytes \<Rightarrow> u64 \<Rightarrow> u64 \<Rightarrow> u64 \<Rightarrow> u64 \<Rightarrow> bytes \<Rightarrow> protocol_error + bytes" where
  [codec_defs]: "enc_clipboard_file_complete buf transfer_id file_id request_id sz digest =
     rbind (validate_ids file_id request_id) (\<lambda>_. rbind (validate_file_position sz) (\<lambda>_.
       Inr (buf @ put_u64 transfer_id @ put_u64 file_id @ put_u64 request_id @ put_u64 sz
                @ digest)))"

definition enc_clipboard_transfer_cancel ::
  "bytes \<Rightarrow> u64 \<Rightarrow> u64 option \<Rightarrow> clipboard_cancel_reason \<Rightarrow> protocol_error + bytes" where
  [codec_defs]: "enc_clipboard_transfer_cancel buf transfer_id file_id reason =
     Inr (buf @ put_u64 transfer_id @ put_u64 (case file_id of None \<Rightarrow> 0 | Some f \<Rightarrow> f)
              @ put_u8 (reason_code reason))"

definition enc_clipboard_transfer_progress ::
  "bytes \<Rightarrow> u64 \<Rightarrow> u64 \<Rightarrow> u64 \<Rightarrow> u64 \<Rightarrow> protocol_error + bytes" where
  [codec_defs]: "enc_clipboard_transfer_progress buf transfer_id file_id completed tot =
     (if completed > tot then Inl (InvalidProgress completed tot)
      else Inr (buf @ put_u64 transfer_id @ put_u64 file_id @ put_u64 completed @ put_u64 tot))"

definition enc_history_record_start ::
  "bytes \<Rightarrow> u64 \<Rightarrow> u64 \<Rightarrow> u32 \<Rightarrow> u32 \<Rightarrow> protocol_error + bytes" where
  [codec_defs]: "enc_history_record_start buf request_id record_id total_len chunks =
     rbind (validate_history_start total_len chunks) (\<lambda>_.
       Inr (buf @ put_u64 request_id @ put_u64 record_id @ put_u32 total_len @ put_u32 chunks))"

definition enc_history_record_chunk ::
  "bytes \<Rightarrow> u64 \<Rightarrow> u64 \<Rightarrow> u32 \<Rightarrow> bytes \<Rightarrow> protocol_error + bytes" where
  [codec_defs]: "enc_history_record_chunk buf request_id record_id index data =
     (if data = [] \<or> length data > MAX_HISTORY_CHUNK_SIZE
      then Inl (TooLarge (length data) MAX_HISTORY_CHUNK_SIZE)
      else Inr (buf @ put_u64 request_id @ put_u64 record_id @ put_u32 index @ data))"

fun encode_boundary_entries :: "bytes \<Rightarrow> (rstring \<times> u64) list \<Rightarrow> protocol_error + bytes" where
  "encode_boundary_entries buf [] = Inr buf"
| "encode_boundary_entries buf ((device_id, sequence) # rest) =
     (if device_id = [] \<or> length device_id > MAX_HISTORY_DEVICE_ID_SIZE
      then Inl (InvalidHistory ''invalid boundary device id'')
      else encode_boundary_entries
        (buf @ put_u16 (word_of_nat (length device_id)) @ device_id @ put_u64 sequence) rest)"

definition encode_history_boundary :: "bytes \<Rightarrow> (rstring \<times> u64) list \<Rightarrow> protocol_error + bytes" where
  "encode_history_boundary buf boundary =
     (if length boundary > MAX_HISTORY_BOUNDARY_ENTRIES
      then Inl (InvalidHistory ''too many boundary entries'')
      else rbind (encode_boundary_entries
             (buf @ put_u16 (word_of_nat (length boundary))) boundary)
        (\<lambda>out. if length out > MAX_DATAGRAM_SIZE
                then Inl (TooLarge (length out) MAX_DATAGRAM_SIZE) else Inr out))"

definition enc_history_clear_ack ::
  "bytes \<Rightarrow> bytes \<Rightarrow> u64 \<Rightarrow> rstring option \<Rightarrow> protocol_error + bytes" where
  [codec_defs]: "enc_history_clear_ack buf operation_id affected error =
     rbind (put_optional_string error) (\<lambda>s. Inr (buf @ operation_id @ put_u64 affected @ s))"

section \<open>encode\<close>

primrec encode_input :: "bytes \<Rightarrow> input_event \<Rightarrow> bytes" where
  "encode_input buf (Pointer p) = enc_pointer buf p"
| "encode_input buf (Keyboard k) = enc_keyboard buf k"

primrec encode_body :: "bytes \<Rightarrow> proto_event \<Rightarrow> protocol_error + bytes" where
  "encode_body buf (ManualFileOffer t name sz) = enc_manual_file_offer buf t name sz"
| "encode_body buf (ManualFileDecision t d) = enc_manual_file_decision buf t d"
| "encode_body buf (ManualFileRequest t x l) = enc_manual_file_request buf t x l"
| "encode_body buf (ManualFileChunk t x d) = enc_manual_file_chunk buf t x d"
| "encode_body buf (ManualFileComplete t s) = enc_manual_file_complete buf t s"
| "encode_body buf (ManualFileResult t s e) = enc_manual_file_result buf t s e"
| "encode_body buf (ManualFileCancel t) = enc_manual_file_cancel buf t"
| "encode_body buf (Input i) = Inr (encode_input buf i)"
| "encode_body buf Ping = Inr buf"
| "encode_body buf ProfileChanged = Inr buf"
| "encode_body buf (Pong alive) = Inr (buf @ put_bool alive)"
| "encode_body buf (Enter pos) = Inr (buf @ put_u8 (position_code pos))"
| "encode_body buf (Leave serial) = Inr (buf @ put_u32 serial)"
| "encode_body buf (Ack serial) = Inr (buf @ put_u32 serial)"
| "encode_body buf (InputCapabilities bits) = Inr (buf @ put_u32 bits)"
| "encode_body buf (LeaveAt along) = Inr (buf @ put_u32 along)"
| "encode_body buf (EnterAt side along) = Inr (buf @ put_u8 (position_code side) @ put_u32 along)"
| "encode_body buf (Handoff target side) = Inr (enc_handoff buf side target)"
| "encode_body buf (EnterVia side via) = Inr (enc_handoff buf side via)"
| "encode_body buf (Hello commit) = Inr (buf @ commit)"
| "encode_body buf (ProfileRequest r) = enc_profile_request buf r"
| "encode_body buf (ProfileStart r w h n c d) = enc_profile_start buf r w h n c d"
| "encode_body buf (ProfileChunk r i d) = enc_profile_chunk buf r i d"
| "encode_body buf (ClipboardStart t n c) = enc_clipboard_start buf t n c"
| "encode_body buf (ClipboardImageStart t w h n c) = enc_clipboard_image_start buf t w h n c"
| "encode_body buf (ClipboardChunk t i d) = enc_clipboard_chunk buf t i d"
| "encode_body buf (ClipboardCapabilities c) =
     Inr (buf @ put_bool (cap_text c) @ put_bool (cap_image c) @ put_bool (cap_files c))"
| "encode_body buf (ClipboardManifest t es) = encode_manifest buf t es"
| "encode_body buf (ClipboardFileRequest t f r x l) = enc_clipboard_file_request buf t f r x l"
| "encode_body buf (ClipboardFileChunk t f r x d) = enc_clipboard_file_chunk buf t f r x d"
| "encode_body buf (ClipboardFileComplete t f r s d) = enc_clipboard_file_complete buf t f r s d"
| "encode_body buf (ClipboardTransferCancel t f r) = enc_clipboard_transfer_cancel buf t f r"
| "encode_body buf (ClipboardTransferProgress t f c n) = enc_clipboard_transfer_progress buf t f c n"
| "encode_body buf (HistorySyncRequest r x) = Inr (buf @ put_u64 r @ put_u64 x)"
| "encode_body buf (HistoryRecordStart r i n c) = enc_history_record_start buf r i n c"
| "encode_body buf (HistoryRecordChunk r i x d) = enc_history_record_chunk buf r i x d"
| "encode_body buf (HistorySyncPageEnd r n) = Inr (buf @ put_u64 r @ put_optional_u64 n)"
| "encode_body buf (HistoryClearBoundaryRequest op) = Inr (buf @ op)"
| "encode_body buf (HistoryClearBoundary op b) = encode_history_boundary (buf @ op) b"
| "encode_body buf (HistoryClearApply op b) = encode_history_boundary (buf @ op) b"
| "encode_body buf (HistoryClearAck op a e) = enc_history_clear_ack buf op a e"

definition encode :: "proto_event \<Rightarrow> protocol_error + bytes" where
  "encode e =
     rbind (encode_body [event_code (event_type_of e)] e) (\<lambda>buf.
       if length buf > MAX_DATAGRAM_SIZE then Inl (TooLarge (length buf) MAX_DATAGRAM_SIZE)
       else Inr buf)"

section \<open>Decoding: the arms of decode\<close>

text \<open>A chunk takes all bytes that are left.\<close>

definition take_rest :: "bytes parser" where
  "take_rest buf = Inr (buf, [])"

definition get_nonzero_file_id :: "u64 parser" where
  "get_nonzero_file_id = pbind get_u64 (\<lambda>v.
     if v = 0 then pfail (InvalidFileChunk ''zero file id'') else preturn v)"

definition get_nonzero_request_id :: "u64 parser" where
  "get_nonzero_request_id = pbind get_u64 (\<lambda>v.
     if v = 0 then pfail (InvalidFileChunk ''zero request id'') else preturn v)"

definition get_position :: "position parser" where
  "get_position = pbind get_u8 (\<lambda>b. plift (position_try_from b))"

definition dec_pointer_motion :: "proto_event parser" where
  [codec_defs]: "dec_pointer_motion = pbind get_u32 (\<lambda>time. pbind get_f64 (\<lambda>dx.
     pbind get_f64 (\<lambda>dy. preturn (Input (Pointer (Motion time dx dy))))))"

definition dec_pointer_button :: "proto_event parser" where
  [codec_defs]: "dec_pointer_button = pbind get_u32 (\<lambda>time. pbind get_u32 (\<lambda>button.
     pbind get_u32 (\<lambda>state. preturn (Input (Pointer (Button time button state))))))"

definition dec_pointer_axis :: "proto_event parser" where
  [codec_defs]: "dec_pointer_axis = pbind get_u32 (\<lambda>time. pbind get_u8 (\<lambda>axis.
     pbind get_f64 (\<lambda>value. preturn (Input (Pointer (Axis time axis value))))))"

definition dec_pointer_axis_value120 :: "proto_event parser" where
  [codec_defs]: "dec_pointer_axis_value120 = pbind get_u8 (\<lambda>axis. pbind get_i32 (\<lambda>value.
     preturn (Input (Pointer (AxisDiscrete120 axis value)))))"

definition dec_keyboard_key :: "proto_event parser" where
  [codec_defs]: "dec_keyboard_key = pbind get_u32 (\<lambda>time. pbind get_u32 (\<lambda>key.
     pbind get_u8 (\<lambda>state. preturn (Input (Keyboard (Key time key state))))))"

definition dec_keyboard_modifiers :: "proto_event parser" where
  [codec_defs]: "dec_keyboard_modifiers = pbind get_u32 (\<lambda>depressed. pbind get_u32 (\<lambda>latched.
     pbind get_u32 (\<lambda>locked. pbind get_u32 (\<lambda>grp.
       preturn (Input (Keyboard (Modifiers depressed latched locked grp)))))))"

text \<open>\<open>Handoff\<close> and \<open>EnterVia\<close> have the same body: a side and a bounded fingerprint.\<close>

definition dec_handoff_body :: "(position \<times> rstring) parser" where
  "dec_handoff_body = pbind get_position (\<lambda>side. pbind get_u16 (\<lambda>len.
     if unat len > MAX_HANDOFF_TARGET then pfail Truncated
     else pbind (take_bytes (unat len)) (\<lambda>target.
       if utf8_valid target then preturn (side, target) else pfail Truncated)))"

definition dec_handoff :: "proto_event parser" where
  [codec_defs]: "dec_handoff = pbind dec_handoff_body (\<lambda>(side, target). preturn (Handoff target side))"

definition dec_enter_via :: "proto_event parser" where
  [codec_defs]: "dec_enter_via = pbind dec_handoff_body (\<lambda>(side, via). preturn (EnterVia side via))"

definition dec_leave_at :: "proto_event parser" where
  [codec_defs]: "dec_leave_at = pbind get_u32 (\<lambda>along.
     if \<not> f32_is_finite along then pfail Truncated else preturn (LeaveAt (f32_clamp01 along)))"

definition dec_enter_at :: "proto_event parser" where
  [codec_defs]: "dec_enter_at = pbind get_position (\<lambda>side. pbind get_u32 (\<lambda>along.
     if \<not> f32_is_finite along then pfail Truncated
     else preturn (EnterAt side (f32_clamp01 along))))"

definition dec_hello :: "proto_event parser" where
  [codec_defs]: "dec_hello = pbind (take_bytes 8) (\<lambda>commit. preturn (Hello commit))"

definition dec_profile_request :: "proto_event parser" where
  [codec_defs]: "dec_profile_request = pbind get_nonzero_request_id (\<lambda>r. preturn (ProfileRequest r))"

definition dec_profile_start :: "proto_event parser" where
  [codec_defs]: "dec_profile_start = pbind get_nonzero_request_id (\<lambda>request_id.
     pbind get_u32 (\<lambda>width. pbind get_u32 (\<lambda>height. pbind get_u32 (\<lambda>total_len.
     pbind get_u32 (\<lambda>chunks. pbind get_u8 (\<lambda>name_len.
       if profile_metadata_invalid width height total_len chunks (unat name_len)
       then pfail (InvalidProfile ''invalid profile metadata'')
       else pbind (take_bytes (unat name_len)) (\<lambda>display_name.
         if utf8_valid display_name
         then preturn (ProfileStart request_id width height total_len chunks display_name)
         else pfail (InvalidProfile ''profile name is not UTF-8''))))))))"

definition dec_profile_chunk :: "proto_event parser" where
  [codec_defs]: "dec_profile_chunk = pbind get_nonzero_request_id (\<lambda>request_id.
     pbind get_u32 (\<lambda>index. pbind take_rest (\<lambda>data.
       if data = [] \<or> length data > MAX_PROFILE_CHUNK_SIZE
       then pfail (TooLarge (PROFILE_CHUNK_HEADER_SIZE + length data) SAFE_DATAGRAM_SIZE)
       else preturn (ProfileChunk request_id index data))))"

definition dec_clipboard_start :: "proto_event parser" where
  [codec_defs]: "dec_clipboard_start = pbind get_u64 (\<lambda>transfer_id. pbind get_u32 (\<lambda>total_len.
     pbind get_u32 (\<lambda>chunks. pbind (plift (validate_clipboard_start total_len chunks)) (\<lambda>_.
       preturn (ClipboardStart transfer_id total_len chunks)))))"

definition dec_clipboard_image_start :: "proto_event parser" where
  [codec_defs]: "dec_clipboard_image_start = pbind get_u64 (\<lambda>transfer_id. pbind get_u32 (\<lambda>width.
     pbind get_u32 (\<lambda>height. pbind get_u32 (\<lambda>total_len. pbind get_u32 (\<lambda>chunks.
     pbind (plift (validate_clipboard_image width height total_len chunks)) (\<lambda>_.
       preturn (ClipboardImageStart transfer_id width height total_len chunks)))))))"

definition dec_clipboard_chunk :: "proto_event parser" where
  [codec_defs]: "dec_clipboard_chunk = pbind get_u64 (\<lambda>transfer_id. pbind get_u32 (\<lambda>index.
     pbind take_rest (\<lambda>data. preturn (ClipboardChunk transfer_id index data))))"

definition dec_clipboard_capabilities :: "proto_event parser" where
  [codec_defs]: "dec_clipboard_capabilities = pbind get_bool (\<lambda>t. pbind get_bool (\<lambda>i.
     pbind get_bool (\<lambda>f. preturn (ClipboardCapabilities
       \<lparr>cap_text = t, cap_image = i, cap_files = f\<rparr>))))"

primrec decode_manifest_entries ::
  "nat \<Rightarrow> u64 \<Rightarrow> u64 \<Rightarrow> clipboard_manifest_entry list parser" where
  "decode_manifest_entries 0 previous tot = preturn []"
| "decode_manifest_entries (Suc count) previous tot =
     pbind get_u64 (\<lambda>file_id.
     if file_id = 0 \<or> file_id \<le> previous
     then pfail (InvalidManifest (lit ''file ids must increase''))
     else pbind get_u8 (\<lambda>k.
     if k \<noteq> 0 \<and> k \<noteq> 1 then pfail (InvalidBoolean k)
     else let kind = (if k = 0 then Directory else File) in
     pbind get_u16 (\<lambda>path_len.
     if unat path_len > MAX_CLIPBOARD_PATH_SIZE
     then pfail (TooLarge (unat path_len) MAX_CLIPBOARD_PATH_SIZE)
     else pbind (take_bytes (unat path_len)) (\<lambda>path.
     if \<not> utf8_valid path then pfail (InvalidPath (lit ''non-UTF-8 path''))
     else pbind (plift (validate_path path)) (\<lambda>_.
     pbind get_u64 (\<lambda>sz.
     if kind = Directory \<and> sz \<noteq> 0 then pfail (InvalidManifest (lit ''directory size''))
     else case checked_add tot sz of
         None \<Rightarrow> pfail LengthOverflow
       | Some tot' \<Rightarrow> pbind (plift (validate_file_position tot')) (\<lambda>_.
           pbind (decode_manifest_entries count file_id tot') (\<lambda>entries.
             preturn (\<lparr>me_file_id = file_id, me_path = path, me_kind = kind, me_size = sz\<rparr>
                      # entries)))))))))"

definition decode_manifest :: "proto_event parser" where
  "decode_manifest = pbind get_u64 (\<lambda>transfer_id. pbind get_u32 (\<lambda>count.
     if unat count = 0 \<or> unat count > MAX_CLIPBOARD_MANIFEST_ENTRIES
     then pfail (InvalidManifest (lit ''entry count''))
     else pbind (decode_manifest_entries (unat count) 0 0) (\<lambda>entries.
       preturn (ClipboardManifest transfer_id entries))))"

definition dec_clipboard_file_request :: "proto_event parser" where
  [codec_defs]: "dec_clipboard_file_request = pbind get_u64 (\<lambda>transfer_id.
     pbind get_nonzero_file_id (\<lambda>file_id. pbind get_nonzero_request_id (\<lambda>request_id.
     pbind get_u64 (\<lambda>offset. pbind get_u64 (\<lambda>len.
     pbind (plift (validate_request offset len)) (\<lambda>_.
       preturn (ClipboardFileRequest transfer_id file_id request_id offset len)))))))"

definition dec_clipboard_file_chunk :: "proto_event parser" where
  [codec_defs]: "dec_clipboard_file_chunk = pbind get_u64 (\<lambda>transfer_id.
     pbind get_nonzero_file_id (\<lambda>file_id. pbind get_nonzero_request_id (\<lambda>request_id.
     pbind get_u64 (\<lambda>offset. pbind take_rest (\<lambda>data.
     pbind (plift (validate_file_chunk offset (length data))) (\<lambda>_.
       preturn (ClipboardFileChunk transfer_id file_id request_id offset data)))))))"

definition dec_clipboard_file_complete :: "proto_event parser" where
  [codec_defs]: "dec_clipboard_file_complete = pbind get_u64 (\<lambda>transfer_id.
     pbind get_nonzero_file_id (\<lambda>file_id. pbind get_nonzero_request_id (\<lambda>request_id.
     pbind get_u64 (\<lambda>sz. pbind (plift (validate_file_position sz)) (\<lambda>_.
     pbind (take_bytes 32) (\<lambda>digest.
       preturn (ClipboardFileComplete transfer_id file_id request_id sz digest)))))))"

definition dec_clipboard_transfer_cancel :: "proto_event parser" where
  [codec_defs]: "dec_clipboard_transfer_cancel = pbind get_u64 (\<lambda>transfer_id.
     pbind get_u64 (\<lambda>f. let file_id = (if f = 0 then None else Some f) in
     pbind get_u8 (\<lambda>v.
       if v = 0 then preturn (ClipboardTransferCancel transfer_id file_id User)
       else if v = 1 then preturn (ClipboardTransferCancel transfer_id file_id IoError)
       else if v = 2 then preturn (ClipboardTransferCancel transfer_id file_id Protocol)
       else pfail (InvalidCancelReason v))))"

definition dec_clipboard_transfer_progress :: "proto_event parser" where
  [codec_defs]: "dec_clipboard_transfer_progress = pbind get_u64 (\<lambda>transfer_id.
     pbind get_nonzero_file_id (\<lambda>file_id. pbind get_u64 (\<lambda>completed. pbind get_u64 (\<lambda>tot.
     pbind (plift (validate_progress completed tot)) (\<lambda>_.
       preturn (ClipboardTransferProgress transfer_id file_id completed tot))))))"

definition dec_history_sync_request :: "proto_event parser" where
  [codec_defs]: "dec_history_sync_request = pbind get_u64 (\<lambda>r. pbind get_u64 (\<lambda>x.
     preturn (HistorySyncRequest r x)))"

definition dec_history_record_start :: "proto_event parser" where
  [codec_defs]: "dec_history_record_start = pbind get_u64 (\<lambda>request_id. pbind get_u64 (\<lambda>record_id.
     pbind get_u32 (\<lambda>total_len. pbind get_u32 (\<lambda>chunks.
     pbind (plift (validate_history_start total_len chunks)) (\<lambda>_.
       preturn (HistoryRecordStart request_id record_id total_len chunks))))))"

definition dec_history_record_chunk :: "proto_event parser" where
  [codec_defs]: "dec_history_record_chunk = pbind get_u64 (\<lambda>request_id. pbind get_u64 (\<lambda>record_id.
     pbind get_u32 (\<lambda>index. pbind take_rest (\<lambda>data.
       if data = [] \<or> length data > MAX_HISTORY_CHUNK_SIZE
       then pfail (TooLarge (length data) MAX_HISTORY_CHUNK_SIZE)
       else preturn (HistoryRecordChunk request_id record_id index data)))))"

text \<open>The transfer id of the manual messages that reject zero at once.\<close>

definition get_manual_id :: "u64 parser" where
  "get_manual_id = pbind get_u64 (\<lambda>t.
     if t = 0 then pfail (InvalidFileChunk ''zero transfer id'') else preturn t)"

definition dec_manual_file_offer :: "proto_event parser" where
  [codec_defs]: "dec_manual_file_offer = pbind get_manual_id (\<lambda>transfer_id. pbind get_u16 (\<lambda>name_len.
     if unat name_len = 0 \<or> unat name_len > MAX_MANUAL_FILE_NAME_SIZE
     then pfail (InvalidFileChunk ''invalid manual file name'')
     else pbind (take_bytes (unat name_len)) (\<lambda>name.
       if \<not> utf8_valid name then pfail (InvalidFileChunk ''invalid manual file name'')
       else pbind (plift (validate_manual_file_name name)) (\<lambda>_. pbind get_u64 (\<lambda>sz.
         preturn (ManualFileOffer transfer_id name sz))))))"

definition dec_manual_file_decision :: "proto_event parser" where
  [codec_defs]: "dec_manual_file_decision = pbind get_manual_id (\<lambda>transfer_id. pbind get_u8 (\<lambda>v.
     if v = 0 then preturn (ManualFileDecision transfer_id Pending)
     else if v = 1 then preturn (ManualFileDecision transfer_id Accepted)
     else if v = 2 then preturn (ManualFileDecision transfer_id Declined)
     else pfail (InvalidFileChunk ''invalid manual decision'')))"

definition dec_manual_file_request :: "proto_event parser" where
  [codec_defs]: "dec_manual_file_request = pbind get_u64 (\<lambda>transfer_id. pbind get_u64 (\<lambda>offset.
     pbind get_u32 (\<lambda>len.
       if transfer_id = 0 \<or> \<not> (1 \<le> unat len \<and> unat len \<le> MAX_MANUAL_FILE_CHUNK_SIZE)
       then pfail (InvalidFileChunk ''invalid manual request'')
       else preturn (ManualFileRequest transfer_id offset len))))"

definition dec_manual_file_chunk :: "proto_event parser" where
  [codec_defs]: "dec_manual_file_chunk = pbind get_u64 (\<lambda>transfer_id. pbind get_u64 (\<lambda>offset.
     pbind take_rest (\<lambda>data.
       if transfer_id = 0 \<or> data = [] \<or> length data > MAX_MANUAL_FILE_CHUNK_SIZE
       then pfail (InvalidFileChunk ''invalid manual chunk'')
       else preturn (ManualFileChunk transfer_id offset data))))"

definition dec_manual_file_complete :: "proto_event parser" where
  [codec_defs]: "dec_manual_file_complete = pbind get_manual_id (\<lambda>transfer_id.
     pbind (take_bytes 32) (\<lambda>sha256. preturn (ManualFileComplete transfer_id sha256)))"

definition dec_manual_file_result :: "proto_event parser" where
  [codec_defs]: "dec_manual_file_result = pbind get_manual_id (\<lambda>transfer_id. pbind get_bool (\<lambda>success.
     pbind get_optional_string (\<lambda>error. case error of
       Some e \<Rightarrow> if length e > MAX_MANUAL_FILE_ERROR_SIZE
                  then pfail (TooLarge (length e) MAX_MANUAL_FILE_ERROR_SIZE)
                  else preturn (ManualFileResult transfer_id success error)
     | None \<Rightarrow> preturn (ManualFileResult transfer_id success error))))"

definition dec_manual_file_cancel :: "proto_event parser" where
  [codec_defs]: "dec_manual_file_cancel = pbind get_manual_id (\<lambda>t. preturn (ManualFileCancel t))"

definition dec_history_sync_page_end :: "proto_event parser" where
  [codec_defs]: "dec_history_sync_page_end = pbind get_u64 (\<lambda>r. pbind get_optional_u64 (\<lambda>n.
     preturn (HistorySyncPageEnd r n)))"

primrec decode_boundary_entries :: "nat \<Rightarrow> (rstring \<times> u64) list parser" where
  "decode_boundary_entries 0 = preturn []"
| "decode_boundary_entries (Suc count) = pbind get_u16 (\<lambda>len.
     if unat len = 0 \<or> unat len > MAX_HISTORY_DEVICE_ID_SIZE
     then pfail (InvalidHistory ''invalid boundary device id'')
     else pbind (take_bytes (unat len)) (\<lambda>device_id.
       if \<not> utf8_valid device_id then pfail (InvalidHistory ''non-UTF-8 boundary device id'')
       else pbind get_u64 (\<lambda>sequence. pbind (decode_boundary_entries count) (\<lambda>boundary.
         preturn ((device_id, sequence) # boundary)))))"

definition decode_history_boundary :: "(rstring \<times> u64) list parser" where
  "decode_history_boundary = pbind get_u16 (\<lambda>count.
     if unat count > MAX_HISTORY_BOUNDARY_ENTRIES
     then pfail (InvalidHistory ''too many boundary entries'')
     else decode_boundary_entries (unat count))"

definition dec_history_clear_boundary_request :: "proto_event parser" where
  [codec_defs]: "dec_history_clear_boundary_request =
     pbind (take_bytes 16) (\<lambda>op. preturn (HistoryClearBoundaryRequest op))"

definition dec_history_clear_boundary :: "proto_event parser" where
  [codec_defs]: "dec_history_clear_boundary = pbind (take_bytes 16) (\<lambda>op.
     pbind decode_history_boundary (\<lambda>b. preturn (HistoryClearBoundary op b)))"

definition dec_history_clear_apply :: "proto_event parser" where
  [codec_defs]: "dec_history_clear_apply = pbind (take_bytes 16) (\<lambda>op.
     pbind decode_history_boundary (\<lambda>b. preturn (HistoryClearApply op b)))"

definition dec_history_clear_ack :: "proto_event parser" where
  [codec_defs]: "dec_history_clear_ack = pbind (take_bytes 16) (\<lambda>op. pbind get_u64 (\<lambda>affected.
     pbind get_optional_string (\<lambda>error. preturn (HistoryClearAck op affected error))))"

section \<open>decode\<close>

primrec decode_body :: "event_type \<Rightarrow> proto_event parser" where
  "decode_body T_PointerMotion = dec_pointer_motion"
| "decode_body T_PointerButton = dec_pointer_button"
| "decode_body T_PointerAxis = dec_pointer_axis"
| "decode_body T_PointerAxisValue120 = dec_pointer_axis_value120"
| "decode_body T_KeyboardKey = dec_keyboard_key"
| "decode_body T_KeyboardModifiers = dec_keyboard_modifiers"
| "decode_body T_Ping = preturn Ping"
| "decode_body T_Pong = pbind get_u8 (\<lambda>b. preturn (Pong (b \<noteq> 0)))"
| "decode_body T_Enter = pbind get_position (\<lambda>p. preturn (Enter p))"
| "decode_body T_Leave = pbind get_u32 (\<lambda>serial. preturn (Leave serial))"
| "decode_body T_Handoff = dec_handoff"
| "decode_body T_InputCapabilities = pbind get_u32 (\<lambda>bits. preturn (InputCapabilities bits))"
| "decode_body T_LeaveAt = dec_leave_at"
| "decode_body T_EnterAt = dec_enter_at"
| "decode_body T_EnterVia = dec_enter_via"
| "decode_body T_Ack = pbind get_u32 (\<lambda>serial. preturn (Ack serial))"
| "decode_body T_Hello = dec_hello"
| "decode_body T_ProfileChanged = preturn ProfileChanged"
| "decode_body T_ProfileRequest = dec_profile_request"
| "decode_body T_ProfileStart = dec_profile_start"
| "decode_body T_ProfileChunk = dec_profile_chunk"
| "decode_body T_ClipboardStart = dec_clipboard_start"
| "decode_body T_ClipboardImageStart = dec_clipboard_image_start"
| "decode_body T_ClipboardChunk = dec_clipboard_chunk"
| "decode_body T_ClipboardCapabilities = dec_clipboard_capabilities"
| "decode_body T_ClipboardManifest = decode_manifest"
| "decode_body T_ClipboardFileRequest = dec_clipboard_file_request"
| "decode_body T_ClipboardFileChunk = dec_clipboard_file_chunk"
| "decode_body T_ClipboardFileComplete = dec_clipboard_file_complete"
| "decode_body T_ClipboardTransferCancel = dec_clipboard_transfer_cancel"
| "decode_body T_ClipboardTransferProgress = dec_clipboard_transfer_progress"
| "decode_body T_HistorySyncRequest = dec_history_sync_request"
| "decode_body T_HistoryRecordStart = dec_history_record_start"
| "decode_body T_HistoryRecordChunk = dec_history_record_chunk"
| "decode_body T_ManualFileOffer = dec_manual_file_offer"
| "decode_body T_ManualFileDecision = dec_manual_file_decision"
| "decode_body T_ManualFileRequest = dec_manual_file_request"
| "decode_body T_ManualFileChunk = dec_manual_file_chunk"
| "decode_body T_ManualFileComplete = dec_manual_file_complete"
| "decode_body T_ManualFileResult = dec_manual_file_result"
| "decode_body T_ManualFileCancel = dec_manual_file_cancel"
| "decode_body T_HistorySyncPageEnd = dec_history_sync_page_end"
| "decode_body T_HistoryClearBoundaryRequest = dec_history_clear_boundary_request"
| "decode_body T_HistoryClearBoundary = dec_history_clear_boundary"
| "decode_body T_HistoryClearApply = dec_history_clear_apply"
| "decode_body T_HistoryClearAck = dec_history_clear_ack"

definition decode :: "bytes \<Rightarrow> protocol_error + proto_event" where
  "decode buf =
     (if length buf > MAX_DATAGRAM_SIZE then Inl (TooLarge (length buf) MAX_DATAGRAM_SIZE)
      else rbind (get_u8 buf) (\<lambda>(b, buf). case event_type_try_from b of
          None \<Rightarrow> Inl (InvalidEventId b)
        | Some t \<Rightarrow> rbind (decode_body t buf) (\<lambda>(event, rest).
            if rest \<noteq> [] then Inl (TrailingBytes (length rest)) else Inr event)))"

end
