(* ===== verification/Proto_Roundtrip.thy ===== *)
theory Proto_Roundtrip
  imports Proto_Codec
begin

text \<open>
  The two directions of the codec. \<open>delivered e\<close> says what the receiver of an encoded message
  sees: the same message, apart from the four kinds of messages whose encoder is laxer than the
  decoder (fractions, hand-over targets, cancellations of a file and progress reports).
  \<open>decode_of_encode\<close> is the sending direction; \<open>encode_decode\<close> is the receiving one: what the
  decoder accepts re-encodes to a message of the same length that decodes to the same event.
  The arms are proved one by one, as \<open>sends_*\<close> and \<open>recodes_*\<close>.
\<close>

section \<open>Laws of the parsers\<close>

lemma take_rest_apply [simp]: "take_rest buf = Inr (buf, [])"
  by (simp add: take_rest_def)

lemma pbind_take_rest [wire_put]: "pbind take_rest f buf = f buf []"
  by (simp add: pbind_def)

lemma pbind_assoc: "pbind (pbind p f) g = pbind p (\<lambda>x. pbind (f x) g)"
  by (auto simp: pbind_def fun_eq_iff split: sum.splits)

lemma pbind_preturn: "pbind (preturn x) f = f x"
  by (auto simp: pbind_def)

lemma pbind_pfail: "pbind (pfail e) f = pfail e"
  by (auto simp: pbind_def)

lemmas pbind_laws = pbind_assoc pbind_preturn pbind_pfail

lemma pbind_preturn_apply [wire_put]: "pbind (preturn x) f buf = f x buf"
  by (simp add: pbind_def)
lemma pbind_plift_Inl [wire_put]: "pbind (plift (Inl e)) f buf = Inl e"
  by (simp add: pbind_def)

lemma pbind_pfail_apply [wire_put]: "pbind (pfail e) f buf = Inl e"
  by (simp add: pbind_def)

interpretation fidc: wire_codec put_u64 get_nonzero_file_id "\<lambda>v. v \<noteq> 0"
  by unfold_locales (auto simp: get_nonzero_file_id_def wire_put wire_get split: if_splits)

interpretation ridc: wire_codec put_u64 get_nonzero_request_id "\<lambda>v. v \<noteq> 0"
  by unfold_locales (auto simp: get_nonzero_request_id_def wire_put wire_get split: if_splits)

interpretation midc: wire_codec put_u64 get_manual_id "\<lambda>v. v \<noteq> 0"
  by unfold_locales (auto simp: get_manual_id_def wire_put wire_get split: if_splits)

interpretation posc: wire_codec "\<lambda>p. put_u8 (position_code p)" get_position "\<lambda>_. True"
  by unfold_locales (auto simp: get_position_def wire_put wire_get)

lemmas id_bind [wire_put] =
  fidc.bind_put fidc.bind_put_all ridc.bind_put ridc.bind_put_all midc.bind_put midc.bind_put_all
  posc.bind_put [OF TrueI] posc.bind_put_all [OF TrueI]

lemmas id_get [wire_get] = fidc.get_iff ridc.get_iff midc.get_iff posc.get_iff

lemma get_nonzero_file_id_0 [simp]:
  "get_nonzero_file_id (put_u64 0 @ rest) = Inl (InvalidFileChunk ''zero file id'')"
  by (simp add: get_nonzero_file_id_def wire_put)

lemma dec_handoff_body_put:
  "dec_handoff_body (put_u8 (position_code side)
         @ put_u16 (word_of_nat (min (length target) MAX_HANDOFF_TARGET))
         @ take (min (length target) MAX_HANDOFF_TARGET) target @ rest) =
   (let t = take MAX_HANDOFF_TARGET target
    in if utf8_valid t then Inr ((side, t), rest) else Inl Truncated)"
proof -
  have "unat (word_of_nat (min (length target) MAX_HANDOFF_TARGET) :: u16)
          = min (length target) MAX_HANDOFF_TARGET"
    by (rule unat_u16_of_nat) (simp add: const_defs)
  moreover have "take (min (length target) MAX_HANDOFF_TARGET) target = take MAX_HANDOFF_TARGET target"
    by (simp add: min_def)
  ultimately show ?thesis
    by (simp add: dec_handoff_body_def wire_put Let_def)
qed

lemma unat_u8_of_nat_small: "n \<le> 255 \<Longrightarrow> unat (word_of_nat n :: u8) = n"
  by (simp add: unat_of_nat)

lemma profile_name_bound: "\<not> profile_metadata_invalid w h n c l \<Longrightarrow> l \<le> 128"
  by (simp add: profile_metadata_invalid_def Let_def const_defs)

lemma manual_name_len: "validate_manual_file_name s = Inr x \<Longrightarrow>
   s \<noteq> [] \<and> length s \<le> MAX_MANUAL_FILE_NAME_SIZE \<and>  unat (word_of_nat (length s) :: u16) = length s"
  using manual_name_bytes [of s] by (simp add: const_defs unat_of_nat)

section \<open>What the receiver sees\<close>

definition delivered :: "proto_event \<Rightarrow> protocol_error + proto_event" where
  "delivered e = (case e of
     LeaveAt along \<Rightarrow> if f32_is_finite along then Inr (LeaveAt (f32_clamp01 along)) else Inl Truncated
   | EnterAt side along \<Rightarrow>
       if f32_is_finite along then Inr (EnterAt side (f32_clamp01 along)) else Inl Truncated
   | Handoff target side \<Rightarrow> let t = take MAX_HANDOFF_TARGET target
       in if utf8_valid t then Inr (Handoff t side) else Inl Truncated
   | EnterVia side via \<Rightarrow> let t = take MAX_HANDOFF_TARGET via
       in if utf8_valid t then Inr (EnterVia side t) else Inl Truncated
   | ClipboardTransferCancel t f r \<Rightarrow>
       Inr (ClipboardTransferCancel t (if f = Some 0 then None else f) r)
   | ClipboardTransferProgress t f c n \<Rightarrow>
       if f = 0 then Inl (InvalidFileChunk ''zero file id'')
       else if unat n > MAX_CLIPBOARD_SIZE then Inl (TooLarge (unat n) MAX_CLIPBOARD_SIZE)
       else Inr e
   | _ \<Rightarrow> Inr e)"

definition delivers :: "proto_event \<Rightarrow> bytes \<Rightarrow> bool" where
  "delivers e body \<longleftrightarrow>
     decode_body (event_type_of e) body = rbind (delivered e) (\<lambda>e'. Inr (e', []))"

definition sends :: "bytes \<Rightarrow> proto_event \<Rightarrow> bytes \<Rightarrow> bool" where
  "sends buf e out \<longleftrightarrow> (\<exists>body. out = buf @ body \<and> delivers e body)"

lemmas sends_defs = sends_def delivers_def delivered_def codec_defs rbind_eq_Inr_iff

section \<open>Sending\<close>

lemma sends_input: "sends buf (Input i) (encode_input buf i)"
proof (cases i)
  case (Pointer p)
  then show ?thesis by (cases p) (simp_all add: sends_defs wire_put)
next
  case (Keyboard k)
  then show ?thesis by (cases k) (simp_all add: sends_defs wire_put)
qed

lemma sends_manual_offer:
  assumes "enc_manual_file_offer buf t name sz = Inr out" and "utf8_valid name"
  shows "sends buf (ManualFileOffer t name sz) out"
proof -
  from assms have t: "t \<noteq> 0" and v: "validate_manual_file_name name = Inr ()"
    and out: "out = buf @ put_u64 t @ put_u16 (word_of_nat (length name)) @ name @ put_u64 sz"
    by (auto simp: enc_manual_file_offer_def rbind_eq_Inr_iff split: if_splits)
  have len: "unat (word_of_nat (length name) :: u16) = length name"
    by (rule unat_u16_of_nat) (use manual_name_bytes [OF v] in \<open>simp add: const_defs\<close>)
  show ?thesis
    using t v len out assms(2) manual_name_bytes [OF v] by (simp add: sends_defs wire_put)
qed

lemma sends_manual_decision:
  "enc_manual_file_decision buf t d = Inr out \<Longrightarrow> sends buf (ManualFileDecision t d) out"
  by (cases d) (auto simp: sends_defs wire_put split: if_splits)

lemma sends_manual_result:
  assumes "enc_manual_file_result buf t s e = Inr out" and "wf_opt_string e"
  shows "sends buf (ManualFileResult t s e) out"
proof -
  from assms(1) obtain bs where t: "t \<noteq> 0" and put: "put_optional_string e = Inr bs"
    and out: "out = buf @ put_u64 t @ put_bool s @ bs"
    and small: "\<forall>v. e = Some v \<longrightarrow> length v \<le> MAX_MANUAL_FILE_ERROR_SIZE"
    by (auto simp: enc_manual_file_result_def rbind_eq_Inr_iff split: if_splits option.splits)
  have "optional_string_ok e \<and> bs = optional_string_bytes e"
    using put_optional_string_Inr [OF put] assms(2) by (simp add: wf_opt_string_def)
  with t out small show ?thesis
    by (cases e) (simp_all add: sends_defs wire_put)
qed

lemma sends_handoff:
  "sends buf (Handoff target side) (enc_handoff buf side target)"
  "sends buf (EnterVia side target) (enc_handoff buf side target)"
  using dec_handoff_body_put [of side target "[]"]
  by (simp_all add: sends_defs pbind_def Let_def)

lemma sends_profile_start:
  assumes "enc_profile_start buf r w h n c name = Inr out" and "utf8_valid name"
  shows "sends buf (ProfileStart r w h n c name) out"
proof -
  from assms have ok: "\<not> profile_metadata_invalid w h n c (length name)"
    by (auto simp: enc_profile_start_def split: if_splits)
  have len: "unat (word_of_nat (length name) :: u8) = length name"
    by (rule unat_u8_of_nat_small) (use profile_name_bound [OF ok] in simp)
  show ?thesis
    using assms ok len by (auto simp: sends_defs wire_put split: if_splits)
qed

lemma sends_transfer_cancel:
  "enc_clipboard_transfer_cancel buf t f r = Inr out \<Longrightarrow> sends buf (ClipboardTransferCancel t f r) out"
  by (cases f; cases r) (auto simp: sends_defs wire_put Let_def)

lemma sends_transfer_progress:
  assumes "enc_clipboard_transfer_progress buf t f c n = Inr out"
  shows "sends buf (ClipboardTransferProgress t f c n) out"
proof (cases "f = 0")
  case True
  then show ?thesis
    using assms by (auto simp: sends_defs wire_put get_nonzero_file_id_def pbind_assoc pbind_pfail split: if_splits)
next
  case False
  then show ?thesis
    using assms
    by (auto simp: sends_defs wire_put validate_progress_def validate_file_position_def
        split: if_splits)
qed

lemma sends_clear_ack:
  assumes "enc_history_clear_ack buf op a e = Inr out" and "length op = 16" and "wf_opt_string e"
  shows "sends buf (HistoryClearAck op a e) out"
  using assms put_optional_string_Inr [of e]
  by (auto simp: sends_defs wf_opt_string_def wire_put)

lemma manifest_entries_deliver:
  "encode_manifest_entries buf previous tot es = Inr out \<Longrightarrow> list_all wf_entry es \<Longrightarrow>
   \<exists>body. out = buf @ body \<and>
     (\<forall>rest. decode_manifest_entries (length es) previous tot (body @ rest) = Inr (es, rest))"
proof (induction es arbitrary: buf previous tot)
  case Nil
  then show ?case by simp
next
  case (Cons entry entries)
  let ?hdr = "put_u64 (me_file_id entry) @ put_bool (me_kind entry = File)
                   @ put_u16 (word_of_nat (length (me_path entry))) @ me_path entry
                   @ put_u64 (me_size entry)"
  from Cons.prems(1) obtain tot' where path: "validate_path (me_path entry) = Inr ()"
    and fid: "me_file_id entry \<noteq> 0" "\<not> me_file_id entry \<le> previous"
    and tot': "checked_add tot (me_size entry) = Some tot'" "unat tot' \<le> MAX_CLIPBOARD_SIZE"
    and dir: "\<not> (me_kind entry = Directory \<and> me_size entry \<noteq> 0)"
    and rec: "encode_manifest_entries (buf @ ?hdr) (me_file_id entry) tot' entries = Inr out"
    by (auto simp: rbind_eq_Inr_iff split: if_splits option.splits)
  from Cons.IH [OF rec] Cons.prems(2) obtain body where body: "out = (buf @ ?hdr) @ body"
    and dec: "\<And>rest. decode_manifest_entries (length entries) (me_file_id entry) tot' (body @ rest)
              = Inr (entries, rest)"
    by auto
  have bind: "pbind (decode_manifest_entries (length entries) (me_file_id entry) tot') f (body @ rest)
              = f entries rest" for f :: "clipboard_manifest_entry list \<Rightarrow> clipboard_manifest_entry list parser"
    and rest by (simp add: pbind_def dec)
  have short: "length (me_path entry) \<le> MAX_CLIPBOARD_PATH_SIZE"
    using path by (auto simp: validate_path_def split: if_splits)
  have len: "unat (word_of_nat (length (me_path entry)) :: u16) = length (me_path entry)"
    by (rule unat_u16_of_nat) (use short in \<open>simp add: const_defs\<close>)
  have kind: "put_bool True = put_u8 1" "put_bool False = put_u8 0"
    by (simp_all add: put_bool_def put_u8_def)
  have "decode_manifest_entries (length (entry # entries)) previous tot ((?hdr @ body) @ rest)
        = Inr (entry # entries, rest)" for rest
    using fid path len short tot' dir Cons.prems(2)
    by (cases "me_kind entry")
      (simp_all add: wire_put kind bind wf_entry_def validate_file_position_def)
  with body show ?case by auto
qed

lemma boundary_entries_deliver:
  "encode_boundary_entries buf bs = Inr out \<Longrightarrow> list_all (\<lambda>(d, s). utf8_valid d) bs \<Longrightarrow>
   \<exists>body. out = buf @ body \<and>
     (\<forall>rest. decode_boundary_entries (length bs) (body @ rest) = Inr (bs, rest))"
proof (induction bs arbitrary: buf)
  case Nil
  then show ?case by simp
next
  case (Cons p bs)
  obtain d s where p: "p = (d, s)" by (cases p)
  let ?hdr = "put_u16 (word_of_nat (length d)) @ d @ put_u64 s"
  from Cons.prems(1) p have d: "d \<noteq> []" "length d \<le> MAX_HISTORY_DEVICE_ID_SIZE"
    and rec: "encode_boundary_entries (buf @ ?hdr) bs = Inr out"
    by (auto split: if_splits)
  from Cons.IH [OF rec] Cons.prems(2) obtain body where body: "out = (buf @ ?hdr) @ body"
    and dec: "\<And>rest. decode_boundary_entries (length bs) (body @ rest) = Inr (bs, rest)"
    by auto
  have bind: "pbind (decode_boundary_entries (length bs)) f (body @ rest) = f bs rest"
    for f :: "(rstring \<times> u64) list \<Rightarrow> (rstring \<times> u64) list parser" and rest
    by (simp add: pbind_def dec)
  have len: "unat (word_of_nat (length d) :: u16) = length d"
    by (rule unat_u16_of_nat) (use d in \<open>simp add: const_defs\<close>)
  have "decode_boundary_entries (length ((d, s) # bs)) ((?hdr @ body) @ rest) = Inr ((d, s) # bs, rest)"
    for rest
    using d len Cons.prems(2) p by (simp add: wire_put bind)
  with body p show ?case by auto
qed

lemma boundary_deliver:
  assumes "encode_history_boundary buf bs = Inr out" and "list_all (\<lambda>(d, s). utf8_valid d) bs"
  shows "\<exists>body. out = buf @ body \<and> decode_history_boundary body = Inr (bs, [])"
proof -
  from assms(1) have n: "length bs \<le> MAX_HISTORY_BOUNDARY_ENTRIES"
    and rec: "encode_boundary_entries (buf @ put_u16 (word_of_nat (length bs))) bs = Inr out"
    by (auto simp: encode_history_boundary_def rbind_eq_Inr_iff split: if_splits)
  have len: "unat (word_of_nat (length bs) :: u16) = length bs"
    by (rule unat_u16_of_nat) (use n in \<open>simp add: const_defs\<close>)
  from boundary_entries_deliver [OF rec assms(2)] obtain body
    where body: "out = (buf @ put_u16 (word_of_nat (length bs))) @ body"
      and dec: "\<And>rest. decode_boundary_entries (length bs) (body @ rest) = Inr (bs, rest)" by auto
  show ?thesis
    using body n len dec [of "[]"] by (auto simp: decode_history_boundary_def wire_put)
qed

lemma sends_manifest:
  assumes "encode_manifest buf t es = Inr out" and "list_all wf_entry es"
  shows "sends buf (ClipboardManifest t es) out"
proof -
  let ?hdr = "put_u64 t @ put_u32 (word_of_nat (length es))"
  from assms(1) have n: "es \<noteq> []" "length es \<le> MAX_CLIPBOARD_MANIFEST_ENTRIES"
    and rec: "encode_manifest_entries (buf @ ?hdr) 0 0 es = Inr out"
    by (auto simp: encode_manifest_def rbind_eq_Inr_iff split: if_splits)
  have len: "unat (word_of_nat (length es) :: u32) = length es"
    using n by (simp add: unat_of_nat const_defs)
  from manifest_entries_deliver [OF rec assms(2)] obtain body where body: "out = (buf @ ?hdr) @ body"
    and dec: "\<And>rest. decode_manifest_entries (length es) 0 0 (body @ rest) = Inr (es, rest)" by auto
  show ?thesis
    using body n len dec [of "[]"] by (auto simp: sends_defs decode_manifest_def wire_put pbind_Inr)
qed

lemma sends_boundary:
  assumes "encode_history_boundary (buf @ op) b = Inr out" and "length op = 16"
    and "list_all (\<lambda>(d, s). utf8_valid d) b"
  shows "sends buf (HistoryClearBoundary op b) out" and "sends buf (HistoryClearApply op b) out"
  using boundary_deliver [OF assms(1,3)] assms(2) by (auto simp: sends_defs wire_put pbind_Inr)

lemmas sends_special =
  sends_input sends_manual_offer sends_manual_decision sends_manual_result sends_handoff
  sends_profile_start sends_transfer_cancel sends_transfer_progress sends_clear_ack
  sends_manifest sends_boundary

lemma encode_body_sends:
  assumes "encode_body buf e = Inr out" and "wf_event e"
  shows "sends buf e out"
proof (cases e)
  case (ClipboardChunk t i d)
  then show ?thesis using assms by (auto simp: sends_defs wire_put Let_def split: if_splits)
next
  case (Pong b)
  then show ?thesis using assms
    by (cases b) (auto simp: sends_defs wire_put put_bool_def simp flip: put_u8_def)
qed (use assms in \<open>auto simp: validate_ids_ok sends_special\<close>,
     auto simp: sends_defs wire_put validate_ids_ok split: if_splits)

lemma delivers_nonempty_rest: "delivers e body \<Longrightarrow>
  rbind (decode_body (event_type_of e) body) (\<lambda>(event, rest).
     if rest \<noteq> [] then Inl (TrailingBytes (length rest)) else Inr event) = delivered e"
  by (cases "delivered e") (auto simp: delivers_def)

lemma decode_of_encode:
  assumes "wf_event e" and "encode e = Inr bs"
  shows "decode bs = delivered e"
proof -
  from assms(2) have small: "length bs \<le> MAX_DATAGRAM_SIZE"
    and body: "encode_body [event_code (event_type_of e)] e = Inr bs"
    by (auto simp: encode_def rbind_eq_Inr_iff split: if_splits)
  from encode_body_sends [OF body assms(1)] obtain b
    where "bs = event_code (event_type_of e) # b" and "delivers e b"
    by (auto simp: sends_def)
  with small show ?thesis by (simp add: decode_def delivers_nonempty_rest)
qed

section \<open>Receiving\<close>

lemma wf_entry_make [simp]:
  "wf_entry \<lparr>me_file_id = f, me_path = p, me_kind = k, me_size = s\<rparr> = utf8_valid p"
  by (simp add: wf_entry_def)

lemma manifest_entries_recode:
  "decode_manifest_entries n previous tot buf = Inr (es, rest) \<Longrightarrow>
   \<exists>body. buf = body @ rest \<and> length es = n \<and> list_all wf_entry es \<and>
     (\<forall>pre. encode_manifest_entries pre previous tot es = Inr (pre @ body))"
proof (induction n arbitrary: previous tot buf es rest)
  case 0
  then show ?case by simp
next
  case (Suc n)
  from Suc.prems obtain fid k len path sz tot' es' rest' where
    buf: "buf = put_u64 fid @ put_u8 k @ put_u16 len @ path @ put_u64 sz @ rest'"
    and fid: "fid \<noteq> 0" "\<not> fid \<le> previous" and k: "k = 0 \<or> k = 1"
    and len: "length path = unat len" and path: "utf8_valid path" "validate_path path = Inr ()"
    and dir: "\<not> (k = 0 \<and> sz \<noteq> 0)"
    and tot': "checked_add tot sz = Some tot'" "unat tot' \<le> MAX_CLIPBOARD_SIZE"
    and rec: "decode_manifest_entries n fid tot' rest' = Inr (es', rest)"
    and es: "es = \<lparr>me_file_id = fid, me_path = path, me_kind = if k = 0 then Directory else File,
                   me_size = sz\<rparr> # es'"
    by (auto simp: wire_get Let_def validate_file_position_ok split: if_splits option.splits)
  from Suc.IH [OF rec] obtain body where body: "rest' = body @ rest" "length es' = n"
    "list_all wf_entry es'"
    and enc: "\<And>pre. encode_manifest_entries pre fid tot' es' = Inr (pre @ body)"
    by auto
  have kb: "put_bool ((if k = 0 then Directory else File) = File) = put_u8 k"
    using k by (auto simp: put_bool_def put_u8_def)
  have "encode_manifest_entries pre previous tot es =
        Inr (pre @ put_u64 fid @ put_u8 k @ put_u16 len @ path @ put_u64 sz @ body)" for pre
    using fid path dir tot' k es u16_of_length [OF len] by (auto simp: enc kb simp del: of_nat_unat)
  moreover have "list_all wf_entry es" using es path body(3) by simp
  ultimately show ?case using buf body es by auto
qed

lemma boundary_entries_recode:
  "decode_boundary_entries n buf = Inr (bs, rest) \<Longrightarrow>
   \<exists>body. buf = body @ rest \<and> length bs = n \<and> list_all (\<lambda>(d, s). utf8_valid d) bs \<and>
     (\<forall>pre. encode_boundary_entries pre bs = Inr (pre @ body))"
proof (induction n arbitrary: buf bs rest)
  case 0
  then show ?case by simp
next
  case (Suc n)
  from Suc.prems obtain len d s bs' rest' where
    buf: "buf = put_u16 len @ d @ put_u64 s @ rest'"
    and d: "0 < unat len" "unat len \<le> MAX_HISTORY_DEVICE_ID_SIZE" "length d = unat len" "utf8_valid d"
    and rec: "decode_boundary_entries n rest' = Inr (bs', rest)" and bs: "bs = (d, s) # bs'"
    by (auto simp: wire_get split: if_splits)
  from Suc.IH [OF rec] obtain body where body: "rest' = body @ rest" "length bs' = n"
    "list_all (\<lambda>(d, s). utf8_valid d) bs'"
    and enc: "\<And>pre. encode_boundary_entries pre bs' = Inr (pre @ body)"
    by auto
  have "d \<noteq> []" using d by auto
  with buf d bs body u16_of_length [OF d(3)] show ?case by (auto simp: enc)
qed

lemma clamp_finite: "f32_is_finite x \<Longrightarrow> f32_is_finite (f32_clamp01 x)"
  by (simp add: f32_clamp01_def) (simp add: f32_is_finite_def)

lemma clamp_idem: "f32_clamp01 (f32_clamp01 x) = f32_clamp01 x"
  by (auto simp: f32_clamp01_def)

text \<open>
  The messages whose bytes are determined by the event: any nonzero byte is a true \<open>Pong\<close>, and
  the fractions are clamped.
\<close>

definition lossless :: "proto_event \<Rightarrow> bool" where
  "lossless e = (case e of Pong _ \<Rightarrow> False | LeaveAt _ \<Rightarrow> False | EnterAt _ _ \<Rightarrow> False | _ \<Rightarrow> True)"

definition recodes :: "event_type \<Rightarrow> bytes \<Rightarrow> proto_event \<Rightarrow> bool" where
  "recodes t buf e \<longleftrightarrow> wf_event e \<and> event_type_of e = t \<and> delivered e = Inr e \<and>
     (\<exists>body. length body = length buf \<and> (lossless e \<longrightarrow> body = buf)
        \<and> (\<forall>c. encode_body [c] e = Inr (c # body)))"

lemmas recodes_defs = recodes_def delivered_def lossless_def rbind_eq_Inr_iff

lemma recodes_same:
  "wf_event e \<Longrightarrow> event_type_of e = t \<Longrightarrow> delivered e = Inr e \<Longrightarrow>
   (\<And>c. encode_body [c] e = Inr (c # buf)) \<Longrightarrow> recodes t buf e"
  by (auto simp: recodes_def)

lemma take_rest_eq_Inr_iff [wire_get]: "take_rest buf = Inr (x, rest) \<longleftrightarrow> x = buf \<and> rest = []"
  by (auto simp: take_rest_def)

lemma recodes_pong: "decode_body T_Pong buf = Inr (e, []) \<Longrightarrow> recodes T_Pong buf e"
  by (auto simp: recodes_defs wire_get boolc.put_width)

lemma recodes_leave_at: "dec_leave_at buf = Inr (e, []) \<Longrightarrow> recodes T_LeaveAt buf e"
  by (auto simp: recodes_defs dec_leave_at_def wire_get clamp_finite clamp_idem split: if_splits)

lemma recodes_enter_at: "dec_enter_at buf = Inr (e, []) \<Longrightarrow> recodes T_EnterAt buf e"
  by (auto simp: recodes_defs dec_enter_at_def wire_get clamp_finite clamp_idem split: if_splits)

lemma dec_handoff_body_sound:
  assumes "dec_handoff_body buf = Inr ((side, target), rest)"
  shows "enc_handoff pre side target @ rest = pre @ buf \<and> utf8_valid target
         \<and> length target \<le> MAX_HANDOFF_TARGET"
  using assms u16_of_length
  by (auto simp: dec_handoff_body_def enc_handoff_def wire_get split: if_splits)

lemma recodes_handoff:
  "dec_handoff buf = Inr (e, []) \<Longrightarrow> recodes T_Handoff buf e"
  "dec_enter_via buf = Inr (e, []) \<Longrightarrow> recodes T_EnterVia buf e"
  using dec_handoff_body_sound
  by (fastforce simp: dec_handoff_def dec_enter_via_def wire_get delivered_def Let_def
      intro!: recodes_same)+

lemma recodes_profile_start:
  assumes "dec_profile_start buf = Inr (e, [])"
  shows "recodes T_ProfileStart buf e"
proof -
  from assms obtain r w h n c len name where
    "r \<noteq> 0" "length name = unat len" "\<not> profile_metadata_invalid w h n c (unat len)"
    "utf8_valid name" "e = ProfileStart r w h n c name"
    "buf = put_u64 r @ put_u32 w @ put_u32 h @ put_u32 n @ put_u32 c @ put_u8 len @ name"
    by (auto simp: dec_profile_start_def wire_get split: if_splits)
  moreover from this(2) have "word_of_nat (length name) = len" by simp
  ultimately show ?thesis
    by (auto simp: enc_profile_start_def delivered_def intro!: recodes_same)
qed

lemma recodes_clipboard_chunk:
  assumes "dec_clipboard_chunk buf = Inr (e, [])" and "length buf < MAX_DATAGRAM_SIZE"
  shows "recodes T_ClipboardChunk buf e"
  using assms
  by (auto simp: dec_clipboard_chunk_def enc_clipboard_chunk_def wire_get delivered_def Let_def
      CLIPBOARD_CHUNK_HEADER_SIZE_def intro!: recodes_same)

lemma recodes_manifest:
  assumes "decode_manifest buf = Inr (e, [])" and "length buf < MAX_DATAGRAM_SIZE"
  shows "recodes T_ClipboardManifest buf e"
proof -
  from assms(1) obtain t count es body where e: "e = ClipboardManifest t es"
    and buf: "buf = put_u64 t @ put_u32 count @ body"
    and count: "0 < unat count" "unat count \<le> MAX_CLIPBOARD_MANIFEST_ENTRIES"
    and dec: "decode_manifest_entries (unat count) 0 0 body = Inr (es, [])"
    by (auto simp: decode_manifest_def wire_get split: if_splits)
  from manifest_entries_recode [OF dec] have es: "length es = unat count" "list_all wf_entry es"
    and enc: "\<And>pre. encode_manifest_entries pre 0 0 es = Inr (pre @ body)"
    by auto
  from es have "word_of_nat (length es) = count" by simp
  with e buf count es assms(2) show ?thesis
    by (auto simp: encode_manifest_def enc delivered_def intro!: recodes_same)
qed

lemma history_boundary_recode:
  assumes "decode_history_boundary buf = Inr (bs, rest)"
  shows "\<exists>body. buf = body @ rest \<and> list_all (\<lambda>(d, s). utf8_valid d) bs \<and>
    (\<forall>pre. length (pre @ body) \<le> MAX_DATAGRAM_SIZE \<longrightarrow>
       encode_history_boundary pre bs = Inr (pre @ body))"
proof -
  from assms obtain count body where buf: "buf = put_u16 count @ body"
    and count: "unat count \<le> MAX_HISTORY_BOUNDARY_ENTRIES"
    and dec: "decode_boundary_entries (unat count) body = Inr (bs, rest)"
    by (auto simp: decode_history_boundary_def wire_get split: if_splits)
  from boundary_entries_recode [OF dec] obtain b where b: "body = b @ rest" "length bs = unat count"
    "list_all (\<lambda>(d, s). utf8_valid d) bs"
    and enc: "\<And>pre. encode_boundary_entries pre bs = Inr (pre @ b)"
    by auto
  from b have "word_of_nat (length bs) = count" by simp
  with buf count b show ?thesis
    by (intro exI [of _ "put_u16 count @ b"]) (auto simp: encode_history_boundary_def enc)
qed

lemma recodes_boundary:
  assumes "length buf < MAX_DATAGRAM_SIZE"
  shows "dec_history_clear_boundary buf = Inr (e, []) \<Longrightarrow> recodes T_HistoryClearBoundary buf e"
    and "dec_history_clear_apply buf = Inr (e, []) \<Longrightarrow> recodes T_HistoryClearApply buf e"
  using assms
  by (auto simp: dec_history_clear_boundary_def dec_history_clear_apply_def wire_get delivered_def
      dest!: history_boundary_recode intro!: recodes_same)

lemma recodes_manual_offer:
  assumes "dec_manual_file_offer buf = Inr (e, [])"
  shows "recodes T_ManualFileOffer buf e"
proof -
  from assms obtain t len name sz where
    "t \<noteq> 0" "length name = unat len" "utf8_valid name" "validate_manual_file_name name = Inr ()"
    "e = ManualFileOffer t name sz" "buf = put_u64 t @ put_u16 len @ name @ put_u64 sz"
    by (auto simp: dec_manual_file_offer_def wire_get split: if_splits)
  moreover from this(2) have "word_of_nat (length name) = len" by simp
  ultimately show ?thesis
    by (auto simp: enc_manual_file_offer_def delivered_def intro!: recodes_same)
qed

lemma recodes_manual_decision:
  "dec_manual_file_decision buf = Inr (e, []) \<Longrightarrow> recodes T_ManualFileDecision buf e"
  by (auto simp: codec_defs wire_get delivered_def split: if_splits intro!: recodes_same)

lemma recodes_manual_result:
  assumes "dec_manual_file_result buf = Inr (e, [])"
  shows "recodes T_ManualFileResult buf e"
proof -
  let ?tail = "\<lambda>t s v. case v of
       Some x \<Rightarrow> if length x > MAX_MANUAL_FILE_ERROR_SIZE
                  then pfail (TooLarge (length x) MAX_MANUAL_FILE_ERROR_SIZE)
                  else preturn (ManualFileResult t s v)
     | None \<Rightarrow> preturn (ManualFileResult t s v)"
  from assms obtain t s v rest where t: "t \<noteq> 0" and ok: "optional_string_ok v"
    and buf: "buf = put_u64 t @ put_bool s @ optional_string_bytes v @ rest"
    and tl: "?tail t s v rest = Inr (e, [])"
    by (auto simp: dec_manual_file_result_def wire_get simp del: option.case)
  from ok have "wf_opt_string v"
    by (auto simp: wf_opt_string_def optional_string_ok_def)
  with t ok buf tl show ?thesis
    by (cases v) (auto simp: enc_manual_file_result_def delivered_def put_optional_string_ok
        split: if_splits intro!: recodes_same)
qed

lemma recodes_clear_ack:
  assumes "dec_history_clear_ack buf = Inr (e, [])"
  shows "recodes T_HistoryClearAck buf e"
proof -
  from assms obtain op a v where "length op = 16" and ok: "optional_string_ok v"
    and "e = HistoryClearAck op a v" "buf = op @ put_u64 a @ optional_string_bytes v"
    by (auto simp: dec_history_clear_ack_def wire_get)
  moreover have "wf_opt_string v"
    using ok by (auto simp: wf_opt_string_def optional_string_ok_def)
  ultimately show ?thesis
    by (auto simp: enc_history_clear_ack_def delivered_def put_optional_string_ok
        intro!: recodes_same)
qed

lemma recodes_progress:
  "dec_clipboard_transfer_progress buf = Inr (e, []) \<Longrightarrow> recodes T_ClipboardTransferProgress buf e"
  by (auto simp: codec_defs wire_get delivered_def validate_progress_ok intro!: recodes_same)

lemma recodes_cancel:
  "dec_clipboard_transfer_cancel buf = Inr (e, []) \<Longrightarrow> recodes T_ClipboardTransferCancel buf e"
  by (auto simp: codec_defs wire_get delivered_def Let_def split: if_splits intro!: recodes_same)

lemmas recodes_special =
  recodes_pong recodes_leave_at recodes_enter_at recodes_handoff recodes_profile_start
  recodes_clipboard_chunk recodes_manifest recodes_boundary recodes_manual_offer
  recodes_manual_decision recodes_manual_result recodes_clear_ack recodes_progress recodes_cancel

lemma decode_body_recodes:
  assumes "decode_body t buf = Inr (e, [])" and "length buf < MAX_DATAGRAM_SIZE"
  shows "recodes t buf e"
proof (cases t)
  case T_Pong
  then show ?thesis using assms by (simp add: recodes_pong del: decode_body.simps)
qed (use assms in \<open>simp_all add: recodes_special\<close>,
     auto simp: codec_defs wire_get validate_ids_def delivered_def split: if_splits
       intro!: recodes_same)

lemma decode_Inr:
  assumes "decode buf = Inr e"
  shows "\<exists>body. buf = event_code (event_type_of e) # body
           \<and> recodes (event_type_of e) body e \<and> length buf \<le> MAX_DATAGRAM_SIZE"
proof -
  from assms obtain b body t where buf: "buf = b # body" and t: "event_type_try_from b = Some t"
    and dec: "decode_body t body = Inr (e, [])" and len: "length buf \<le> MAX_DATAGRAM_SIZE"
    by (cases buf) (auto simp: decode_def rbind_eq_Inr_iff split: if_splits option.splits)
  from dec len buf have "recodes t body e" by (intro decode_body_recodes) auto
  with event_type_try_from_Some [OF t] buf len show ?thesis by (auto simp: recodes_def)
qed

lemma encode_decode:
  assumes "decode buf = Inr e"
  shows "wf_event e \<and> (\<exists>buf'. encode e = Inr buf' \<and> decode buf' = Inr e
           \<and> length buf' = length buf \<and> (lossless e \<longrightarrow> buf' = buf))"
proof -
  from decode_Inr [OF assms] obtain body body' where buf: "buf = event_code (event_type_of e) # body"
    and wf: "wf_event e" and del: "delivered e = Inr e" and len: "length buf \<le> MAX_DATAGRAM_SIZE"
    and body': "length body' = length body" "lossless e \<longrightarrow> body' = body"
    and enc: "\<forall>c. encode_body [c] e = Inr (c # body')"
    unfolding recodes_def by blast
  let ?buf' = "event_code (event_type_of e) # body'"
  have e: "encode e = Inr ?buf'" using enc buf len body' by (simp add: encode_def)
  with wf del have "decode ?buf' = Inr e" by (simp add: decode_of_encode)
  with e wf buf body' show ?thesis by simp
qed

section \<open>Properties of the codec\<close>

text \<open>C3: sending a message. Whenever \<open>encode\<close> accepts a well-formed event (strings are
  UTF-8, digests and ids have their length), \<open>decode\<close> of the bytes gives exactly what
  \<open>delivered\<close> says: the same event, except for the clamped fractions of \<open>LeaveAt\<close> and
  \<open>EnterAt\<close>, the truncated targets of \<open>Handoff\<close> and \<open>EnterVia\<close>, the file id \<open>0\<close> of a
  cancellation (read as none), and the progress reports that the decoder refuses although the
  encoder sends them.\<close>

theorem proto_roundtrip:
  assumes "wf_event e" and "encode e = Inr bs"
  shows "decode bs = delivered e"
  using assms by (rule decode_of_encode)

theorem proto_roundtrip_witness:
  "decode [17, 0,0,0,0,0,0,0,7, 0,0,0,0,0,0,0,1, 0,0,0,0,0,0,0,9, 0,0,0,0,0,0,0,0,
           0,0,0,0,0,0,0,200] =
     Inr (ClipboardFileRequest 7 1 9 0 200)"
proof -
  let ?e = "ClipboardFileRequest 7 1 9 0 200"
  have "encode ?e = Inr [17, 0,0,0,0,0,0,0,7, 0,0,0,0,0,0,0,1, 0,0,0,0,0,0,0,9, 0,0,0,0,0,0,0,0,
           0,0,0,0,0,0,0,200]"
    by (simp add: encode_def codec_defs validate_ids_def validate_request_def
        validate_file_position_def checked_add_def const_defs put_u64_def nat_be_def)
  moreover have "wf_event ?e" and "delivered ?e = Inr ?e" by (simp_all add: delivered_def)
  ultimately show ?thesis using proto_roundtrip [of ?e] by simp
qed

text \<open>C19: receiving a message. Every datagram that \<open>decode\<close> accepts holds a well-formed event,
  which re-encodes to a datagram of the same length that decodes to the same event; apart from
  \<open>Pong\<close> (any nonzero byte is true) and the clamped fractions it is the received datagram
  itself, so the wire format has one representation per message.\<close>

theorem proto_recode:
  assumes "decode buf = Inr e"
  shows "wf_event e \<and> (\<exists>buf'. encode e = Inr buf' \<and> decode buf' = Inr e
           \<and> length buf' = length buf \<and> (lossless e \<longrightarrow> buf' = buf))"
  using assms by (rule encode_decode)

theorem proto_recode_witness:
  "\<exists>buf'. encode (Pong True) = Inr buf' \<and> decode buf' = Inr (Pong True) \<and> length buf' = 2"
proof -
  have "decode [7, 9] = Inr (Pong True)"
    by (simp add: decode_def event_type_try_from_def event_types_def wire_put const_defs pbind_def)
  from proto_recode [OF this] show ?thesis by auto
qed

text \<open>The messages that carry a slice of a longer payload.\<close>

definition is_fragment :: "proto_event \<Rightarrow> bool" where
  "is_fragment e = (case e of
     ClipboardFileChunk t f r x d \<Rightarrow> True
   | ManualFileChunk t x d \<Rightarrow> True
   | HistoryRecordChunk r i x d \<Rightarrow> True
   | ProfileChunk r i d \<Rightarrow> True
   | _ \<Rightarrow> False)"

text \<open>Every encoded slice of a file, a manual transfer, a history record or a
  profile fits the 1200 bytes that pass without IP fragmentation, header included.\<close>

theorem fragments_fit_safe_datagram:
  assumes "is_fragment e" and "encode e = Inr bs"
  shows "length bs \<le> SAFE_DATAGRAM_SIZE"
proof (cases e)
qed (use assms in \<open>auto simp: is_fragment_def encode_def codec_defs rbind_eq_Inr_iff
       validate_file_chunk_ok const_defs split: if_splits\<close>)

theorem fragments_fit_safe_datagram_witness:
  "\<exists>bs. encode (ManualFileChunk 5 0 (replicate 1183 1)) = Inr bs \<and> length bs \<le> 1200"
proof -
  let ?e = "ManualFileChunk 5 0 (replicate 1183 1)"
  obtain bs where bs: "encode ?e = Inr bs"
    by (simp add: encode_def codec_defs const_defs)
  have "is_fragment ?e" by (simp add: is_fragment_def)
  from fragments_fit_safe_datagram [OF this bs] bs show ?thesis
    by (simp add: SAFE_DATAGRAM_SIZE_def)
qed

text \<open>A datagram whose first byte is not one of the 46 discriminators is
  rejected with \<open>InvalidEventId\<close>, whatever follows.\<close>

theorem unknown_discriminator_rejected:
  assumes "46 \<le> b" and "length buf < MAX_DATAGRAM_SIZE"
  shows "decode (b # buf) = Inl (InvalidEventId b)"
proof -
  have "event_type_try_from b = None"
  proof (cases "event_type_try_from b")
    case (Some t)
    from event_type_try_from_Some [OF this] assms(1) show ?thesis by (cases t) (simp_all add: word_le_nat_alt)
  qed simp
  then show ?thesis using assms(2) by (simp add: decode_def)
qed

theorem unknown_discriminator_rejected_witness: "decode [46, 1] = Inl (InvalidEventId 46)"
  using unknown_discriminator_rejected [of 46 "[1]"] by (simp add: const_defs)

end
