(* ===== verification/Hash_Map.thy ===== *)
theory Hash_Map
  imports Syntra_Prelude
begin

text \<open>
  The \<open>HashMap\<close> and \<open>HashSet\<close> of the Rust standard library, as lists of distinct entries:
  \<open>hm_insert\<close> replaces the value of a key in place or adds the key at the end, \<open>hm_retain\<close>
  keeps the entries that satisfy a predicate, \<open>length\<close> is \<open>len()\<close>. The operations are
  executable. Rust leaves the iteration order of a map open; the order here is that of insertion, and
  no property relies on it.

  The interface is the locale \<open>key_value\<close>: what a lookup returns after each operation and
  that every operation keeps the keys distinct. The sum of a measure over the values, which the
  byte budgets of the sources track, is \<open>hm_sum\<close>.
\<close>

named_theorems hash_map \<open>lookups after the operations of a hash map\<close>

type_synonym ('k, 'v) hash_map = "('k \<times> 'v) list"

definition hm_ok :: "('k, 'v) hash_map \<Rightarrow> bool" where
  "hm_ok m \<longleftrightarrow> distinct (map fst m)"

definition hm_get :: "('k, 'v) hash_map \<Rightarrow> 'k \<Rightarrow> 'v option" where
  "hm_get m k = map_of m k"

primrec hm_insert :: "'k \<Rightarrow> 'v \<Rightarrow> ('k, 'v) hash_map \<Rightarrow> ('k, 'v) hash_map" where
  "hm_insert k v [] = [(k, v)]"
| "hm_insert k v (e # m) = (if fst e = k then (k, v) # m else e # hm_insert k v m)"

definition hm_retain :: "('k \<Rightarrow> 'v \<Rightarrow> bool) \<Rightarrow> ('k, 'v) hash_map \<Rightarrow> ('k, 'v) hash_map" where
  "hm_retain P m = filter (\<lambda>(k, v). P k v) m"

definition hm_remove :: "'k \<Rightarrow> ('k, 'v) hash_map \<Rightarrow> ('k, 'v) hash_map" where
  "hm_remove k m = hm_retain (\<lambda>a _. a \<noteq> k) m"

definition hm_sum :: "('v \<Rightarrow> nat) \<Rightarrow> ('k, 'v) hash_map \<Rightarrow> nat" where
  "hm_sum f m = sum_list (map (\<lambda>(k, v). f v) m)"

section \<open>Entries\<close>

lemma fst_hm_insert: "fst ` set (hm_insert k v m) = insert k (fst ` set m)"
  by (induction m) auto

lemma hm_get_set: "hm_ok m \<Longrightarrow> (k, v) \<in> set m \<longleftrightarrow> hm_get m k = Some v"
  by (simp add: hm_get_def hm_ok_def)

lemma hm_get_None: "hm_get m k = None \<longleftrightarrow> k \<notin> fst ` set m"
  by (simp add: hm_get_def map_of_eq_None_iff)

lemma hm_ok_Nil [simp]: "hm_ok []"
  by (simp add: hm_ok_def)

lemma hm_ok_insert [simp]: "hm_ok m \<Longrightarrow> hm_ok (hm_insert k v m)"
proof (induction m)
  case (Cons e m)
  have "fst e \<noteq> k \<Longrightarrow> fst e \<notin> fst ` set (hm_insert k v m)"
    using Cons.prems by (auto simp: hm_ok_def fst_hm_insert)
  with Cons show ?case by (auto simp: hm_ok_def)
qed (simp add: hm_ok_def)

lemma hm_ok_retain [simp]: "hm_ok m \<Longrightarrow> hm_ok (hm_retain P m)"
  by (induction m) (auto simp: hm_ok_def hm_retain_def)

lemma hm_ok_remove [simp]: "hm_ok m \<Longrightarrow> hm_ok (hm_remove k m)"
  by (simp add: hm_remove_def)

lemma hm_get_Nil [hash_map]: "hm_get [] k = None"
  by (simp add: hm_get_def)

lemma hm_get_Cons: "hm_get (e # m) k = (if k = fst e then Some (snd e) else hm_get m k)"
  by (cases e) (simp add: hm_get_def)

lemma hm_get_insert [hash_map]: "hm_get (hm_insert k v m) a = (if a = k then Some v else hm_get m a)"
  by (induction m) (auto simp: hm_get_def)

lemma hm_get_retain [hash_map]:
  "hm_ok m \<Longrightarrow> hm_get (hm_retain P m) k =
     (case hm_get m k of None \<Rightarrow> None | Some v \<Rightarrow> if P k v then Some v else None)"
proof (induction m)
  case (Cons e m)
  have "fst e \<notin> fst ` set m" using Cons.prems by (auto simp: hm_ok_def)
  then have "hm_get m (fst e) = None" by (simp add: hm_get_None)
  with Cons show ?case
    by (cases e) (auto simp: hm_ok_def hm_get_def hm_retain_def split: option.splits)
qed (simp add: hm_get_def hm_retain_def)

lemma hm_get_remove [hash_map]:
  "hm_ok m \<Longrightarrow> hm_get (hm_remove k m) a = (if a = k then None else hm_get m a)"
  by (auto simp: hm_remove_def hm_get_retain split: option.splits)

lemma hm_retain_all: "(\<And>k v. (k, v) \<in> set m \<Longrightarrow> P k v) \<Longrightarrow> hm_retain P m = m"
  by (auto simp: hm_retain_def filter_id_conv)

lemma hm_remove_insert: "hm_remove k (hm_insert k v m) = hm_remove k m"
  by (induction m) (auto simp: hm_remove_def hm_retain_def)

lemma hm_remove_absent: "hm_get m k = None \<Longrightarrow> hm_remove k m = m"
  by (auto simp: hm_remove_def hm_get_None intro!: hm_retain_all) force

lemma set_hm_retain: "set (hm_retain P m) = {(k, v) \<in> set m. P k v}"
  by (auto simp: hm_retain_def)

lemma set_hm_insert_subset: "set (hm_insert k v m) \<subseteq> insert (k, v) (set m)"
  by (induction m) auto

section \<open>Lengths and sums\<close>

lemma length_hm_insert:
  "length (hm_insert k v m) = (if hm_get m k = None then Suc (length m) else length m)"
  by (induction m) (auto simp: hm_get_def)

lemma length_hm_retain: "length (hm_retain P m) \<le> length m"
  by (simp add: hm_retain_def)

lemma length_hm_remove: "length (hm_remove k m) \<le> length m"
  by (simp add: hm_remove_def length_hm_retain)

lemma hm_sum_Nil [simp]: "hm_sum f [] = 0"
  by (simp add: hm_sum_def)

lemma hm_sum_Cons [simp]: "hm_sum f (e # m) = f (snd e) + hm_sum f m"
  by (cases e) (simp add: hm_sum_def)

lemma hm_sum_insert_new: "hm_get m k = None \<Longrightarrow> hm_sum f (hm_insert k v m) = hm_sum f m + f v"
  by (induction m) (auto simp: hm_get_def split: if_splits)

lemma hm_sum_insert_old:
  "hm_get m k = Some w \<Longrightarrow> hm_sum f (hm_insert k v m) + f w = hm_sum f m + f v"
  by (induction m) (auto simp: hm_get_def split: if_splits)

lemma hm_sum_retain:
  "hm_sum f (hm_retain P m) + hm_sum f (hm_retain (\<lambda>k v. \<not> P k v) m) = hm_sum f m"
  by (induction m) (auto simp: hm_retain_def)

lemma hm_sum_remove: "hm_ok m \<Longrightarrow> hm_get m k = Some w \<Longrightarrow> hm_sum f (hm_remove k m) + f w = hm_sum f m"
proof (induction m)
  case (Cons e m)
  show ?case
  proof (cases "fst e = k")
    case True
    then have "hm_get m k = None" using Cons.prems by (auto simp: hm_ok_def hm_get_None)
    then have "hm_remove k m = m" by (rule hm_remove_absent)
    with True Cons.prems show ?thesis
      by (cases e) (auto simp: hm_remove_def hm_retain_def hm_get_def)
  next
    case False
    with Cons show ?thesis
      by (cases e) (auto simp: hm_remove_def hm_retain_def hm_get_def hm_ok_def)
  qed
qed (simp add: hm_get_def)

lemma hm_sum_member: "hm_get m k = Some w \<Longrightarrow> f w \<le> hm_sum f m"
  by (induction m) (auto simp: hm_get_def split: if_splits)

section \<open>The interface\<close>

locale key_value =
  fixes ok :: "'m \<Rightarrow> bool"
    and get :: "'m \<Rightarrow> 'k \<Rightarrow> 'v option"
    and put :: "'k \<Rightarrow> 'v \<Rightarrow> 'm \<Rightarrow> 'm"
    and del :: "'k \<Rightarrow> 'm \<Rightarrow> 'm"
  assumes ok_put: "ok m \<Longrightarrow> ok (put k v m)"
    and ok_del: "ok m \<Longrightarrow> ok (del k m)"
    and get_put: "ok m \<Longrightarrow> get (put k v m) a = (if a = k then Some v else get m a)"
    and get_del: "ok m \<Longrightarrow> get (del k m) a = (if a = k then None else get m a)"
begin

text \<open>A predicate of all entries is kept by every operation that puts only good values.\<close>

definition every :: "('k \<Rightarrow> 'v \<Rightarrow> bool) \<Rightarrow> 'm \<Rightarrow> bool" where
  "every P m \<longleftrightarrow> (\<forall>k v. get m k = Some v \<longrightarrow> P k v)"

lemma every_put: "ok m \<Longrightarrow> every P m \<Longrightarrow> P k v \<Longrightarrow> every P (put k v m)"
  by (auto simp: every_def get_put)

lemma every_del: "ok m \<Longrightarrow> every P m \<Longrightarrow> every P (del k m)"
  by (auto simp: every_def get_del)

lemma every_get: "every P m \<Longrightarrow> get m k = Some v \<Longrightarrow> P k v"
  by (auto simp: every_def)

lemma put_get_same: "ok m \<Longrightarrow> get (put k v m) k = Some v"
  by (simp add: get_put)

end

interpretation hm: key_value hm_ok hm_get hm_insert hm_remove
  by unfold_locales (simp_all add: hash_map)

lemma hm_every_retain: "hm_ok m \<Longrightarrow> hm.every P m \<Longrightarrow> hm.every P (hm_retain Q m)"
  by (auto simp: hm.every_def hm_get_retain split: option.splits if_splits)

lemma hm_every_Nil [simp]: "hm.every P []"
  by (simp add: hm.every_def hash_map)

section \<open>Ordered maps\<close>

text \<open>
  \<open>BTreeMap\<close>: entries in the order of their keys, which is also the order of iteration.
\<close>

definition bt_ok :: "('k::linorder, 'v) hash_map \<Rightarrow> bool" where
  "bt_ok m \<longleftrightarrow> sorted_wrt (<) (map fst m)"

primrec bt_insert :: "'k::linorder \<Rightarrow> 'v \<Rightarrow> ('k, 'v) hash_map \<Rightarrow> ('k, 'v) hash_map" where
  "bt_insert k v [] = [(k, v)]"
| "bt_insert k v (e # m) =
     (if k < fst e then (k, v) # e # m else if k = fst e then (k, v) # m else e # bt_insert k v m)"

lemma bt_ok_hm_ok: "bt_ok m \<Longrightarrow> hm_ok m"
  by (auto simp: bt_ok_def hm_ok_def strict_sorted_iff)

lemma bt_ok_Nil [simp]: "bt_ok []"
  by (simp add: bt_ok_def)

lemma fst_bt_insert: "fst ` set (bt_insert k v m) = insert k (fst ` set m)"
  by (induction m) auto

lemma bt_ok_insert [simp]: "bt_ok m \<Longrightarrow> bt_ok (bt_insert k v m)"
proof (induction m)
  case (Cons e m)
  have "\<forall>x \<in> set (bt_insert k v m). fst e < fst x" if "fst e < k"
  proof
    fix x assume "x \<in> set (bt_insert k v m)"
    then have "fst x \<in> insert k (fst ` set m)" using fst_bt_insert [of k v m] by blast
    with that Cons.prems show "fst e < fst x" by (auto simp: bt_ok_def)
  qed
  with Cons show ?case by (auto simp: bt_ok_def dest: order.strict_trans)
qed (simp add: bt_ok_def)

lemma bt_get_less: "bt_ok (e # m) \<Longrightarrow> k < fst e \<Longrightarrow> hm_get (e # m) k = None"
  by (auto simp: bt_ok_def hm_get_def map_of_eq_None_iff)

lemma bt_get_insert [hash_map]:
  "bt_ok m \<Longrightarrow> hm_get (bt_insert k v m) a = (if a = k then Some v else hm_get m a)"
proof (induction m)
  case (Cons e m)
  then show ?case by (cases e) (auto simp: bt_ok_def hm_get_def)
qed (simp add: hm_get_def)

lemma bt_ok_remove [simp]: "bt_ok m \<Longrightarrow> bt_ok (hm_remove k m)"
proof -
  assume "bt_ok m"
  then have "sorted_wrt (<) (map fst (filter (\<lambda>(a, _). a \<noteq> k) m))"
    unfolding bt_ok_def sorted_wrt_map by (rule sorted_wrt_filter)
  then show ?thesis by (simp add: bt_ok_def hm_remove_def hm_retain_def)
qed

interpretation bt: key_value bt_ok hm_get bt_insert hm_remove
  by unfold_locales (simp_all add: hash_map bt_ok_hm_ok)

lemma bt_eqI:
  "bt_ok m \<Longrightarrow> bt_ok m' \<Longrightarrow> (\<And>k. hm_get m k = hm_get m' k) \<Longrightarrow> m = m'"
proof (induction m arbitrary: m')
  case Nil
  have "fst ` set m' = {}" using Nil.prems(3) hm_get_None [of m'] by (force simp: hash_map)
  then show ?case by simp
next
  case (Cons e m)
  obtain k v where e: "e = (k, v)" by (cases e)
  have "hm_get m' k = Some v" using Cons.prems(3) [of k] e by (simp add: hm_get_def)
  then obtain e' m'' where m': "m' = e' # m''" by (cases m') (auto simp: hm_get_def)
  obtain k' v' where e': "e' = (k', v')" by (cases e')
  have "\<not> k < k'" using bt_get_less [of e' m'' k] Cons.prems(2) m' e' \<open>hm_get m' k = Some v\<close> by auto
  moreover have "hm_get (e # m) k' = Some v'"
    using Cons.prems(3) [of k'] m' e' by (simp add: hm_get_def)
  then have "\<not> k' < k" using bt_get_less [of e m k'] Cons.prems(1) e by auto
  ultimately have k: "k' = k" by simp
  have v: "v' = v" using \<open>hm_get m' k = Some v\<close> m' e' k by (simp add: hm_get_def)
  have tails: "bt_ok m" "bt_ok m''" using Cons.prems(1,2) m' by (auto simp: bt_ok_def)
  have "hm_get m a = hm_get m'' a" for a
  proof (cases "a = k")
    case True
    have "k \<notin> fst ` set m" "k \<notin> fst ` set m''"
      using Cons.prems(1,2) e m' e' k by (auto simp: bt_ok_def)
    then show ?thesis using True by (metis hm_get_None)
  next
    case False
    then show ?thesis using Cons.prems(3) [of a] e m' e' k by (simp add: hm_get_def)
  qed
  with Cons.IH [OF tails] m' e e' k v show ?case by simp
qed

end
