(* ===== verification/Chunking.thy ===== *)
theory Chunking
  imports Syntra_Prelude
begin

text \<open>
  Payloads that travel in slices. \<open>chunks_of n\<close> is \<open>slice::chunks(n)\<close> of the Rust standard
  library. A receiver keeps a vector of optional slices; \<open>slots_hold\<close> says which slices it has.
  The locale \<open>slice_receiver\<close> is the contract both reassemblers (history records and device
  profiles) fulfil, and its theorem is shared: slices that arrive in any order, with any
  duplicates, give the payload exactly once.
\<close>

function chunks_of :: "nat \<Rightarrow> 'a list \<Rightarrow> 'a list list" where
  "chunks_of n xs = (if n = 0 \<or> xs = [] then [] else take n xs # chunks_of n (drop n xs))"
  by auto
termination by (relation "measure (\<lambda>(n, xs). length xs)") auto

declare chunks_of.simps [simp del]

lemma chunks_of_Nil [simp]: "chunks_of n [] = []"
  by (simp add: chunks_of.simps)

lemma chunks_of_step: "0 < n \<Longrightarrow> xs \<noteq> [] \<Longrightarrow> chunks_of n xs = take n xs # chunks_of n (drop n xs)"
  by (simp add: chunks_of.simps)

lemma concat_chunks_of: "0 < n \<Longrightarrow> concat (chunks_of n xs) = xs"
proof (induction n xs rule: chunks_of.induct)
  case (1 n xs)
  then show ?case by (cases "xs = []") (simp_all add: chunks_of_step)
qed

lemma div_ceil_step: "0 < n \<Longrightarrow> 0 < a \<Longrightarrow> div_ceil a n = Suc (div_ceil (a - n) n)"
proof -
  assume n: "0 < n" and a: "0 < a"
  show ?thesis
  proof (cases "n \<le> a")
    case True
    then show ?thesis using n by (simp add: div_ceil_def le_div_geq le_mod_geq)
  next
    case False
    then show ?thesis using n a by (simp add: div_ceil_def)
  qed
qed

lemma length_chunks_of: "0 < n \<Longrightarrow> length (chunks_of n xs) = div_ceil (length xs) n"
proof (induction n xs rule: chunks_of.induct)
  case (1 n xs)
  show ?case
  proof (cases "xs = []")
    case True
    then show ?thesis by (simp add: div_ceil_def)
  next
    case False
    with 1 show ?thesis by (simp add: chunks_of_step div_ceil_step)
  qed
qed

lemma nth_chunks_of:
  "0 < n \<Longrightarrow> i < length (chunks_of n xs) \<Longrightarrow> chunks_of n xs ! i = take n (drop (i * n) xs)"
proof (induction n xs arbitrary: i rule: chunks_of.induct)
  case (1 n xs)
  have ne: "xs \<noteq> []" using "1.prems" by auto
  show ?case
  proof (cases i)
    case 0
    then show ?thesis using "1.prems" ne by (simp add: chunks_of_step)
  next
    case (Suc j)
    then have "j < length (chunks_of n (drop n xs))"
      using "1.prems" ne by (simp add: chunks_of_step)
    with "1.IH" [of j] "1.prems" ne Suc show ?thesis
      by (simp add: chunks_of_step add.commute)
  qed
qed

lemma length_nth_chunks_of:
  "0 < n \<Longrightarrow> i < length (chunks_of n xs) \<Longrightarrow>
   length (chunks_of n xs ! i) = min n (length xs - i * n)"
  by (simp add: nth_chunks_of min.commute)

lemma set_enumerate: "set (enumerate 0 xs) = (\<lambda>i. (i, xs ! i)) ` {..<length xs}"
  by (auto simp: in_set_enumerate_eq image_iff)

section \<open>Slots\<close>

definition slots_hold :: "'a list \<Rightarrow> nat set \<Rightarrow> 'a option list \<Rightarrow> bool" where
  "slots_hold ps S slots \<longleftrightarrow> S \<subseteq> {..<length ps} \<and>
     slots = map (\<lambda>i. if i \<in> S then Some (ps ! i) else None) [0..<length ps]"

lemma slots_hold_length: "slots_hold ps S slots \<Longrightarrow> length slots = length ps"
  by (auto simp: slots_hold_def)

lemma slots_hold_nth:
  "slots_hold ps S slots \<Longrightarrow> i < length ps \<Longrightarrow> slots ! i = (if i \<in> S then Some (ps ! i) else None)"
  by (auto simp: slots_hold_def)

lemma slots_hold_empty: "slots_hold ps {} (replicate (length ps) None)"
  by (auto simp: slots_hold_def intro!: nth_equalityI)

lemma slots_hold_update:
  "slots_hold ps S slots \<Longrightarrow> i < length ps \<Longrightarrow> slots_hold ps (insert i S) (slots[i := Some (ps ! i)])"
  by (auto simp: slots_hold_def nth_list_update intro!: nth_equalityI)

lemma slots_hold_full: "slots_hold ps {..<length ps} slots \<Longrightarrow> slots = map Some ps"
  by (auto simp: slots_hold_def intro!: nth_equalityI)

lemma slots_hold_all_Some:
  assumes "slots_hold ps S slots"
  shows "None \<notin> set slots \<longleftrightarrow> S = {..<length ps}"
proof
  assume "None \<notin> set slots"
  then have "slots ! i \<noteq> None" if "i < length ps" for i
    using that slots_hold_length [OF assms] by (metis nth_mem)
  then have "{..<length ps} \<subseteq> S" using slots_hold_nth [OF assms] by (metis lessThan_iff subsetI)
  with assms show "S = {..<length ps}" by (auto simp: slots_hold_def)
next
  assume "S = {..<length ps}"
  with assms have "slots = map Some ps" by (simp add: slots_hold_full)
  then show "None \<notin> set slots" by auto
qed

definition count_some :: "'a option list \<Rightarrow> nat" where
  "count_some slots = length (filter (\<lambda>s. s \<noteq> None) slots)"

lemma count_some_le: "count_some slots \<le> length slots"
  by (simp add: count_some_def)

lemma count_some_replicate [simp]: "count_some (replicate n None) = 0"
  by (simp add: count_some_def)

lemma count_some_update:
  "i < length slots \<Longrightarrow> slots ! i = None \<Longrightarrow> count_some (slots[i := Some x]) = Suc (count_some slots)"
proof (induction slots arbitrary: i)
  case (Cons s slots)
  then show ?case by (cases i) (auto simp: count_some_def)
qed simp

lemma count_some_Cons: "count_some (s # slots) = (if s = None then 0 else 1) + count_some slots"
  by (simp add: count_some_def)

lemma count_some_full: "count_some slots = length slots \<longleftrightarrow> None \<notin> set slots"
proof (induction slots)
  case (Cons s slots)
  have "count_some slots < Suc (length slots)" using count_some_le [of slots] by simp
  with Cons show ?case by (cases s) (auto simp: count_some_Cons)
qed (simp add: count_some_def)

section \<open>The contract of a reassembler\<close>

text \<open>
  \<open>deliver s e\<close> hands an arriving slice to the receiver of one transfer of \<open>n\<close> slices;
  \<open>idx e\<close> is its index and \<open>timely e\<close> that it arrives before the transfer expires.
  \<open>holds S s\<close>: the transfer is pending and exactly the slices \<open>S\<close> have been stored;
  \<open>gone s\<close>: the transfer is not pending. \<open>quiet\<close> are the outputs that carry no payload.
\<close>

locale slice_receiver =
  fixes deliver :: "'s \<Rightarrow> 'e \<Rightarrow> 's \<times> 'o"
    and idx :: "'e \<Rightarrow> nat"
    and timely :: "'e \<Rightarrow> bool"
    and n :: nat
    and holds :: "nat set \<Rightarrow> 's \<Rightarrow> bool"
    and gone :: "'s \<Rightarrow> bool"
    and payload :: 'o
    and quiet :: "'o \<Rightarrow> bool"
  assumes stored_again: "holds S s \<Longrightarrow> timely e \<Longrightarrow> idx e \<in> S \<Longrightarrow>
      \<exists>s' q. deliver s e = (s', q) \<and> quiet q \<and> holds S s'"
    and stored: "holds S s \<Longrightarrow> timely e \<Longrightarrow> idx e < n \<Longrightarrow> idx e \<notin> S \<Longrightarrow> insert (idx e) S \<noteq> {..<n} \<Longrightarrow>
      \<exists>s' q. deliver s e = (s', q) \<and> quiet q \<and> holds (insert (idx e) S) s'"
    and completed: "holds S s \<Longrightarrow> timely e \<Longrightarrow> idx e < n \<Longrightarrow> idx e \<notin> S \<Longrightarrow> insert (idx e) S = {..<n} \<Longrightarrow>
      \<exists>s'. deliver s e = (s', payload) \<and> gone s'"
    and late: "gone s \<Longrightarrow> timely e \<Longrightarrow> \<exists>s' q. deliver s e = (s', q) \<and> quiet q \<and> gone s'"
    and payload_loud: "\<not> quiet payload"
begin

primrec run :: "'s \<Rightarrow> 'e list \<Rightarrow> 's \<times> 'o list" where
  "run s [] = (s, [])"
| "run s (e # es) = (let (s', q) = deliver s e; (s'', qs) = run s' es in (s'', q # qs))"

lemma run_gone:
  "gone s \<Longrightarrow> \<forall>e \<in> set es. timely e \<Longrightarrow>
   \<exists>s' qs. run s es = (s', qs) \<and> gone s' \<and> filter (\<lambda>q. \<not> quiet q) qs = []"
proof (induction es arbitrary: s)
  case (Cons e es)
  then obtain s1 q where "deliver s e = (s1, q)" "quiet q" "gone s1" using late by force
  with Cons.IH [of s1] Cons.prems show ?case by auto
qed simp

theorem any_order_any_duplicates:
  assumes "holds S s" and "S \<noteq> {..<n}"
    and "\<forall>e \<in> set es. timely e \<and> idx e < n" and "S \<union> idx ` set es = {..<n}"
  shows "\<exists>s' qs. run s es = (s', qs) \<and> gone s' \<and> filter (\<lambda>q. \<not> quiet q) qs = [payload]"
  using assms
proof (induction es arbitrary: s S)
  case Nil
  then show ?case by simp
next
  case (Cons e es)
  let ?i = "idx e"
  have e: "timely e" "?i < n" and es: "\<forall>e \<in> set es. timely e \<and> idx e < n"
    using Cons.prems(3) by auto
  have cover: "insert ?i S \<union> idx ` set es = {..<n}" using Cons.prems(4) by auto
  consider "?i \<in> S" | "?i \<notin> S" "insert ?i S \<noteq> {..<n}" | "?i \<notin> S" "insert ?i S = {..<n}" by blast
  then show ?case
  proof cases
    case 1
    with stored_again [OF Cons.prems(1) e(1)] obtain s' q
      where d: "deliver s e = (s', q)" "quiet q" "holds S s'" by blast
    from 1 cover have "S \<union> idx ` set es = {..<n}" by (simp add: insert_absorb)
    from Cons.IH [OF d(3) Cons.prems(2) es this] d show ?thesis by auto
  next
    case 2
    with stored [OF Cons.prems(1) e] obtain s' q
      where d: "deliver s e = (s', q)" "quiet q" "holds (insert ?i S) s'" by blast
    from Cons.IH [OF d(3) 2(2) es cover] d show ?thesis by auto
  next
    case 3
    with completed [OF Cons.prems(1) e] obtain s' where d: "deliver s e = (s', payload)" "gone s'"
      by blast
    from run_gone [OF d(2), of es] es d payload_loud show ?thesis by auto
  qed
qed

end

end
