(* ===== verification/History_Sync.thy ===== *)
theory History_Sync
  imports Proto_Roundtrip Hash_Map Chunking
begin

text \<open>
  The transfer of clipboard-history records of \<open>crates/syntra-core/src/history_sync.rs\<close>: the
  sender cuts a serialised record into slices (\<open>record_events\<close>), the \<open>Reassembler\<close> of the
  receiver collects the slices of at most eight records under a byte budget.

  \<open>bincode\<close>, the serialiser, is not part of the repository: it is the two parameters \<open>ser\<close>
  and \<open>deser\<close>. A point in time (\<open>Instant\<close>) is a number of milliseconds and an argument of the
  operations that read the clock. \<open>duration_since\<close> of an earlier instant is zero, as the
  subtraction of naturals is.
\<close>

definition PAGE_SIZE :: nat where [const_defs]: "PAGE_SIZE = 8"
definition CLEAR_TIMEOUT :: nat where [const_defs]: "CLEAR_TIMEOUT = 5000"
definition MAX_PENDING_RECORDS :: nat where [const_defs]: "MAX_PENDING_RECORDS = 8"
definition MAX_PENDING_BYTES :: nat where [const_defs]: "MAX_PENDING_BYTES = MAX_HISTORY_RECORD_SIZE"

text \<open>The first of two routes to the same device is replaced by the second.\<close>

definition deduplicate_routes :: "('i \<times> 'r) list \<Rightarrow> ('i, 'r) hash_map" where
  "deduplicate_routes routes = foldl (\<lambda>m (i, r). hm_insert i r m) [] routes"

record pending_record =
  pr_received :: nat
  pr_total_len :: nat
  pr_chunks :: "bytes option list"
  pr_started :: nat

type_synonym 'p record_key = "'p \<times> u64 \<times> u64"

record 'p reassembler =
  ra_records :: "('p record_key, pending_record) hash_map"
  ra_pending_bytes :: nat

definition ra_default :: "'p reassembler" where
  "ra_default = \<lparr>ra_records = [], ra_pending_bytes = 0\<rparr>"

section \<open>Operations\<close>

definition ra_start ::
  "'p reassembler \<Rightarrow> nat \<Rightarrow> 'p \<Rightarrow> u64 \<Rightarrow> u64 \<Rightarrow> u32 \<Rightarrow> u32 \<Rightarrow> 'p reassembler \<times> (string + unit)" where
  "ra_start ra now peer request_id record_id total_len32 chunks =
     (let total_len = unat total_len32 in
      if total_len = 0 \<or> total_len > MAX_HISTORY_RECORD_SIZE
      then (ra, Inl ''history record exceeds pending limits'')
      else let expected = word_of_nat (div_ceil total_len MAX_HISTORY_CHUNK_SIZE) in
      if chunks \<noteq> expected then (ra, Inl ''invalid history record chunk count'')
      else let key = (peer, request_id, record_id) in
      case hm_get (ra_records ra) key of
        Some previous \<Rightarrow>
          (ra, if pr_total_len previous = total_len \<and> length (pr_chunks previous) = unat chunks
               then Inr () else Inl ''conflicting history record start'')
      | None \<Rightarrow>
          if length (ra_records ra) \<ge> MAX_PENDING_RECORDS
             \<or> min (ra_pending_bytes ra + total_len) USIZE_MAX > MAX_PENDING_BYTES
          then (ra, Inl ''history record exceeds pending limits'')
          else (ra\<lparr>ra_pending_bytes := ra_pending_bytes ra + total_len,
                   ra_records := hm_insert key
                     \<lparr>pr_received = 0, pr_total_len = total_len,
                      pr_chunks = replicate (unat chunks) None, pr_started = now\<rparr>
                     (ra_records ra)\<rparr>, Inr ()))"

text \<open>Removing one record gives its bytes back to the budget.\<close>

definition ra_forget :: "'p reassembler \<Rightarrow> 'p record_key \<Rightarrow> pending_record \<Rightarrow> 'p reassembler" where
  "ra_forget ra key rec =
     ra\<lparr>ra_records := hm_remove key (ra_records ra),
        ra_pending_bytes := saturating_sub (ra_pending_bytes ra) (pr_total_len rec)\<rparr>"

definition ra_expected_len :: "nat \<Rightarrow> nat \<Rightarrow> nat \<Rightarrow> nat" where
  "ra_expected_len total_len chunks_len i =
     (if i + 1 = chunks_len then total_len - MAX_HISTORY_CHUNK_SIZE * (chunks_len - 1)
      else MAX_HISTORY_CHUNK_SIZE)"

definition ra_chunk ::
  "(bytes \<Rightarrow> 'r option) \<Rightarrow> 'p reassembler \<Rightarrow> 'p \<Rightarrow> u64 \<Rightarrow> u64 \<Rightarrow> u32 \<Rightarrow> bytes \<Rightarrow>
     'p reassembler \<times> (string + 'r option)" where
  "ra_chunk deser ra peer request_id record_id index data =
     (let key = (peer, request_id, record_id) in
      case hm_get (ra_records ra) key of
        None \<Rightarrow> (ra, Inr None)
      | Some rec \<Rightarrow>
         let chunks_len = length (pr_chunks rec); i = unat index in
         if i \<ge> chunks_len then (ra, Inl ''invalid history record chunk index'')
         else let expected_len = ra_expected_len (pr_total_len rec) chunks_len i in
         if length data \<noteq> expected_len
         then (ra_forget ra key rec, Inl ''invalid history record chunk length'')
         else case pr_chunks rec ! i of
           Some previous \<Rightarrow>
             (ra, if previous = data then Inr None
                  else Inl ''conflicting duplicate history record chunk'')
         | None \<Rightarrow>
             let rec' = rec\<lparr>pr_chunks := (pr_chunks rec)[i := Some data],
                            pr_received := pr_received rec + 1\<rparr>;
                 ra' = ra\<lparr>ra_records := hm_insert key rec' (ra_records ra)\<rparr> in
             if pr_received rec' \<noteq> length (pr_chunks rec') then (ra', Inr None)
             else (ra_forget ra' key rec',
                   case deser (concat (map the (pr_chunks rec'))) of
                     None \<Rightarrow> Inl ''invalid serialized history record''
                   | Some r \<Rightarrow> Inr (Some r)))"

text \<open>
  \<open>retain\<close> with the closure of \<open>peer_lost\<close>, \<open>finish_request\<close> and \<open>expire\<close>: every entry that
  goes is counted and gives its bytes back.
\<close>

definition ra_retain ::
  "('p record_key \<Rightarrow> pending_record \<Rightarrow> bool) \<Rightarrow> 'p reassembler \<Rightarrow> 'p reassembler \<times> nat" where
  "ra_retain keep ra =
     (let dropped = hm_retain (\<lambda>k r. \<not> keep k r) (ra_records ra) in
      (ra\<lparr>ra_records := hm_retain keep (ra_records ra),
          ra_pending_bytes :=
            foldl (\<lambda>b (k, r). saturating_sub b (pr_total_len r)) (ra_pending_bytes ra) dropped\<rparr>,
       length dropped))"

definition ra_peer_lost :: "'p reassembler \<Rightarrow> 'p \<Rightarrow> 'p reassembler" where
  "ra_peer_lost ra peer = fst (ra_retain (\<lambda>(candidate, _, _) r. candidate \<noteq> peer) ra)"

definition ra_finish_request :: "'p reassembler \<Rightarrow> 'p \<Rightarrow> u64 \<Rightarrow> 'p reassembler \<times> nat" where
  "ra_finish_request ra peer request_id =
     ra_retain (\<lambda>(candidate, candidate_request, _) r.
                  candidate \<noteq> peer \<or> candidate_request \<noteq> request_id) ra"

definition ra_expire :: "'p reassembler \<Rightarrow> nat \<Rightarrow> 'p reassembler \<times> nat" where
  "ra_expire ra now = ra_retain (\<lambda>_ r. now - pr_started r < CLEAR_TIMEOUT) ra"

text \<open>
  The sender. \<open>record_events\<close> fails when the record does not serialise within the limit; the
  \<open>u32::try_from\<close> cannot fail then.
\<close>

definition record_events ::
  "('r \<Rightarrow> string + bytes) \<Rightarrow> u64 \<Rightarrow> u64 \<Rightarrow> 'r \<Rightarrow> string + proto_event list" where
  "record_events ser request_id record_id rec =
     rbind (ser rec) (\<lambda>bytes.
       if bytes = [] \<or> length bytes > MAX_HISTORY_RECORD_SIZE
       then Inl ''serialized history record exceeds protocol limit''
       else if length bytes \<ge> 2 ^ 32 then Inl ''history record is too large''
       else Inr (HistoryRecordStart request_id record_id (word_of_nat (length bytes))
                   (word_of_nat (div_ceil (length bytes) MAX_HISTORY_CHUNK_SIZE))
                 # map (\<lambda>(index, data).
                          HistoryRecordChunk request_id record_id (word_of_nat index) data)
                       (enumerate 0 (chunks_of MAX_HISTORY_CHUNK_SIZE bytes))))"

text \<open>
  The arms of the service's \<open>handle_history_protocol\<close> for the two record messages: errors are
  logged, a reassembled record goes to the history store (here: is returned).
\<close>

definition history_receive ::
  "(bytes \<Rightarrow> 'r option) \<Rightarrow> 'p \<Rightarrow> 'p reassembler \<Rightarrow> nat \<times> proto_event \<Rightarrow> 'p reassembler \<times> 'r option" where
  "history_receive deser peer ra arrival = (case arrival of (now, event) \<Rightarrow> (case event of
     HistoryRecordStart request_id record_id total_len chunks \<Rightarrow>
       (fst (ra_start ra now peer request_id record_id total_len chunks), None)
   | HistoryRecordChunk request_id record_id index data \<Rightarrow>
       (case ra_chunk deser ra peer request_id record_id index data of
          (ra', Inr (Some r)) \<Rightarrow> (ra', Some r)
        | (ra', _) \<Rightarrow> (ra', None))
   | _ \<Rightarrow> (ra, None)))"

primrec history_receive_all ::
  "(bytes \<Rightarrow> 'r option) \<Rightarrow> 'p \<Rightarrow> 'p reassembler \<Rightarrow> (nat \<times> proto_event) list \<Rightarrow>
     'p reassembler \<times> 'r list" where
  "history_receive_all deser peer ra [] = (ra, [])"
| "history_receive_all deser peer ra (a # as) =
     (case history_receive deser peer ra a of (ra', out) \<Rightarrow>
      (case history_receive_all deser peer ra' as of (ra'', outs) \<Rightarrow>
        (ra'', (case out of None \<Rightarrow> outs | Some r \<Rightarrow> r # outs))))"

section \<open>The byte budget\<close>

definition expected_chunks :: "nat \<Rightarrow> nat" where
  "expected_chunks total_len = div_ceil total_len MAX_HISTORY_CHUNK_SIZE"

definition pr_wf :: "pending_record \<Rightarrow> bool" where
  "pr_wf r \<longleftrightarrow> 0 < pr_total_len r \<and> pr_total_len r \<le> MAX_HISTORY_RECORD_SIZE
     \<and> length (pr_chunks r) = expected_chunks (pr_total_len r)
     \<and> pr_received r = count_some (pr_chunks r) \<and> pr_received r < length (pr_chunks r)
     \<and> (\<forall>i d. i < length (pr_chunks r) \<longrightarrow> pr_chunks r ! i = Some d \<longrightarrow>
          length d = min MAX_HISTORY_CHUNK_SIZE (pr_total_len r - i * MAX_HISTORY_CHUNK_SIZE))"

definition ra_wf :: "'p reassembler \<Rightarrow> bool" where
  "ra_wf ra \<longleftrightarrow> hm_ok (ra_records ra) \<and> length (ra_records ra) \<le> MAX_PENDING_RECORDS
     \<and> hm.every (\<lambda>k r. pr_wf r) (ra_records ra)
     \<and> ra_pending_bytes ra = hm_sum pr_total_len (ra_records ra)
     \<and> ra_pending_bytes ra \<le> MAX_PENDING_BYTES"

lemma ra_default_wf: "ra_wf ra_default"
  by (simp add: ra_wf_def ra_default_def)

lemma chunk_size_pos: "0 < MAX_HISTORY_CHUNK_SIZE"
  by (simp add: const_defs)

lemma unat_expected:
  assumes "n \<le> MAX_HISTORY_RECORD_SIZE"
  shows "unat (word_of_nat (div_ceil n MAX_HISTORY_CHUNK_SIZE) :: u32) = expected_chunks n"
proof -
  have "div_ceil n MAX_HISTORY_CHUNK_SIZE \<le> n" using chunk_size_pos by (rule div_ceil_le)
  with assms show ?thesis by (simp add: expected_chunks_def unat_of_nat const_defs)
qed

lemma expected_chunks_pos: "0 < n \<Longrightarrow> 0 < expected_chunks n"
  using div_ceil_bounds(3) [OF chunk_size_pos, of n] by (simp add: expected_chunks_def)

text \<open>The length that the code expects of slice \<open>i\<close>, by whether it is the last one.\<close>

lemma expected_len:
  assumes "0 < n" and "i < expected_chunks n"
  shows "ra_expected_len n (expected_chunks n) i
           = min MAX_HISTORY_CHUNK_SIZE (n - i * MAX_HISTORY_CHUNK_SIZE)"
proof -
  note b = div_ceil_bounds [OF chunk_size_pos, of n, folded expected_chunks_def]
  show ?thesis
  proof (cases "i + 1 = expected_chunks n")
    case True
    then have "expected_chunks n - 1 = i" by simp
    moreover have "n \<le> (i + 1) * MAX_HISTORY_CHUNK_SIZE" using b(1) True by simp
    ultimately show ?thesis using True by (simp add: ra_expected_len_def mult.commute)
  next
    case False
    then have "i + 1 \<le> expected_chunks n - 1" using assms(2) by simp
    then have "(i + 1) * MAX_HISTORY_CHUNK_SIZE \<le> (expected_chunks n - 1) * MAX_HISTORY_CHUNK_SIZE"
      by (rule mult_le_mono1)
    also have "\<dots> < n" using b(2) assms(1) .
    finally show ?thesis using False by (simp add: ra_expected_len_def)
  qed
qed

section \<open>Every operation keeps the budget\<close>

lemma pr_new_wf:
  assumes "0 < n" and "n \<le> MAX_HISTORY_RECORD_SIZE"
  shows "pr_wf \<lparr>pr_received = 0, pr_total_len = n, pr_chunks = replicate (expected_chunks n) None,
                 pr_started = now\<rparr>"
  using assms expected_chunks_pos [OF assms(1)] by (simp add: pr_wf_def)

lemma budget_test: "MAX_PENDING_BYTES < min n USIZE_MAX \<longleftrightarrow> MAX_PENDING_BYTES < n"
  by (simp add: const_defs)

lemma ra_start_wf: "ra_wf ra \<Longrightarrow> ra_wf (fst (ra_start ra now p rq rc n c))"
  by (auto simp: ra_start_def Let_def ra_wf_def length_hm_insert hm_sum_insert_new unat_expected
      budget_test
      simp del: min_less_iff_conj intro!: hm.every_put pr_new_wf split: option.splits)

lemma ra_forget_wf:
  assumes "ra_wf ra" and "hm_get (ra_records ra) key = Some rec"
  shows "ra_wf (ra_forget ra key rec)"
proof -
  have ok: "hm_ok (ra_records ra)" using assms(1) by (simp add: ra_wf_def)
  have "hm_sum pr_total_len (hm_remove key (ra_records ra)) + pr_total_len rec
          = ra_pending_bytes ra"
    using hm_sum_remove [OF ok assms(2)] assms(1) by (simp add: ra_wf_def)
  then show ?thesis
    using assms(1) length_hm_remove [of key "ra_records ra"]
    by (auto simp: ra_wf_def ra_forget_def saturating_sub_def intro: hm.every_del)
qed

lemma pr_store_wf:
  assumes "pr_wf r" and "i < length (pr_chunks r)" and "pr_chunks r ! i = None"
    and "length d = min MAX_HISTORY_CHUNK_SIZE (pr_total_len r - i * MAX_HISTORY_CHUNK_SIZE)"
    and "pr_received r + 1 \<noteq> length (pr_chunks r)"
  shows "pr_wf (r\<lparr>pr_chunks := (pr_chunks r)[i := Some d], pr_received := Suc (pr_received r)\<rparr>)"
  using assms by (auto simp: pr_wf_def count_some_update nth_list_update)

text \<open>Replacing a pending record by one of the same size leaves the sums alone.\<close>

lemma ra_replace_wf:
  assumes "ra_wf ra" and "hm_get (ra_records ra) key = Some rec" and "pr_wf rec'"
    and "pr_total_len rec' = pr_total_len rec"
  shows "ra_wf (ra\<lparr>ra_records := hm_insert key rec' (ra_records ra)\<rparr>)"
  using assms hm_sum_insert_old [OF assms(2), of pr_total_len rec']
  by (auto simp: ra_wf_def length_hm_insert intro: hm.every_put)

lemma ra_forget_replaced:
  "pr_total_len rec' = pr_total_len rec \<Longrightarrow>
   ra_forget (ra\<lparr>ra_records := hm_insert key rec' (ra_records ra)\<rparr>) key rec' = ra_forget ra key rec"
  by (simp add: ra_forget_def hm_remove_insert)

text \<open>What \<open>ra_chunk\<close> does with a slice of a pending record, branch by branch.\<close>

lemma ra_chunk_pending:
  fixes index :: u32 and data :: bytes
  assumes wf: "ra_wf ra" and get: "hm_get (ra_records ra) (p, rq, rc) = Some rec"
  defines "i \<equiv> unat index"
  defines "rec' \<equiv> rec\<lparr>pr_chunks := (pr_chunks rec)[i := Some data],
                       pr_received := pr_received rec + 1\<rparr>"
  shows "ra_chunk deser ra p rq rc index data =
    (if i \<ge> length (pr_chunks rec) then (ra, Inl ''invalid history record chunk index'')
     else if length data \<noteq> min MAX_HISTORY_CHUNK_SIZE (pr_total_len rec - i * MAX_HISTORY_CHUNK_SIZE)
     then (ra_forget ra (p, rq, rc) rec, Inl ''invalid history record chunk length'')
     else case pr_chunks rec ! i of
       Some previous \<Rightarrow>
         (ra, if previous = data then Inr None
              else Inl ''conflicting duplicate history record chunk'')
     | None \<Rightarrow>
         if pr_received rec + 1 \<noteq> length (pr_chunks rec)
         then (ra\<lparr>ra_records := hm_insert (p, rq, rc) rec' (ra_records ra)\<rparr>, Inr None)
         else (ra_forget ra (p, rq, rc) rec,
               case deser (concat (map the ((pr_chunks rec)[i := Some data]))) of
                 None \<Rightarrow> Inl ''invalid serialized history record''
               | Some r \<Rightarrow> Inr (Some r)))"
proof -
  have "pr_wf rec" using wf get by (auto simp: ra_wf_def dest: hm.every_get)
  then have n: "0 < pr_total_len rec" "length (pr_chunks rec) = expected_chunks (pr_total_len rec)"
    by (auto simp: pr_wf_def)
  show ?thesis
  proof (cases "i < length (pr_chunks rec)")
    case True
    then have "ra_expected_len (pr_total_len rec) (length (pr_chunks rec)) i
        = min MAX_HISTORY_CHUNK_SIZE (pr_total_len rec - i * MAX_HISTORY_CHUNK_SIZE)"
      using expected_len [OF n(1)] unfolding n(2) by blast
    with True show ?thesis
      by (simp add: ra_chunk_def Let_def get ra_forget_replaced rec'_def flip: i_def
          split: option.split)
  next
    case False
    then show ?thesis by (simp add: ra_chunk_def get Let_def flip: i_def)
  qed
qed

lemma ra_chunk_wf:
  assumes wf: "ra_wf ra"
  shows "ra_wf (fst (ra_chunk deser ra p rq rc index data))"
proof (cases "hm_get (ra_records ra) (p, rq, rc)")
  case None
  with wf show ?thesis by (simp add: ra_chunk_def)
next
  case (Some rec)
  have "pr_wf rec" using wf Some by (auto simp: ra_wf_def dest: hm.every_get)
  with wf Some show ?thesis
    by (auto simp: ra_chunk_pending ra_forget_wf intro!: ra_replace_wf pr_store_wf
        split: option.split)
qed

lemma foldl_release:
  "foldl (\<lambda>b (k, r). saturating_sub b (pr_total_len r)) b m = b - hm_sum pr_total_len m"
  by (induction m arbitrary: b) (auto simp: saturating_sub_def)

lemma ra_retain_wf:
  assumes "ra_wf ra"
  shows "ra_wf (fst (ra_retain keep ra))"
  using assms hm_sum_retain [of pr_total_len keep "ra_records ra"]
    length_hm_retain [of keep "ra_records ra"]
  by (auto simp: ra_wf_def ra_retain_def Let_def foldl_release hm_every_retain)

lemmas ra_op_wf = ra_start_wf ra_chunk_wf ra_retain_wf

section \<open>Reassembly\<close>

definition record_slices :: "u64 \<Rightarrow> u64 \<Rightarrow> bytes \<Rightarrow> proto_event list" where
  "record_slices rq rc bytes =
     map (\<lambda>(index, data). HistoryRecordChunk rq rc (word_of_nat index) data)
         (enumerate 0 (chunks_of MAX_HISTORY_CHUNK_SIZE bytes))"

definition slice_index :: "nat \<times> proto_event \<Rightarrow> nat" where
  "slice_index a = (case snd a of HistoryRecordChunk rq rc i d \<Rightarrow> unat i | _ \<Rightarrow> 0)"

definition payload_ok :: "bytes \<Rightarrow> bool" where
  "payload_ok bytes \<longleftrightarrow> bytes \<noteq> [] \<and> length bytes \<le> MAX_HISTORY_RECORD_SIZE"

abbreviation history_slices :: "bytes \<Rightarrow> bytes list" where
  "history_slices bytes \<equiv> chunks_of MAX_HISTORY_CHUNK_SIZE bytes"

lemma length_history_slices: "length (history_slices bytes) = expected_chunks (length bytes)"
  by (simp add: length_chunks_of chunk_size_pos expected_chunks_def)

lemma slice_word:
  assumes "payload_ok bytes" and "i < length (history_slices bytes)"
  shows "unat (word_of_nat i :: u32) = i"
proof -
  have "expected_chunks (length bytes) \<le> length bytes"
    unfolding expected_chunks_def using chunk_size_pos by (rule div_ceil_le)
  moreover have "MAX_HISTORY_RECORD_SIZE < 2 ^ 32" by (simp add: const_defs)
  ultimately have "i < 2 ^ 32" using assms unfolding length_history_slices payload_ok_def by linarith
  then show ?thesis by (simp add: unat_of_nat)
qed

lemma record_slices_iff:
  "e \<in> set (record_slices rq rc bytes) \<longleftrightarrow>
     (\<exists>i < length (history_slices bytes).
        e = HistoryRecordChunk rq rc (word_of_nat i) (history_slices bytes ! i))"
  by (auto simp: record_slices_def set_enumerate image_image)

text \<open>
  The pending transfer as the contract of \<open>Chunking\<close> sees it: the record under the key expects
  the payload and holds the slices \<open>S\<close>; every other record is as it was in \<open>ra0\<close>.
\<close>

definition others_same :: "'p record_key \<Rightarrow> 'p reassembler \<Rightarrow> 'p reassembler \<Rightarrow> bool" where
  "others_same key ra0 ra \<longleftrightarrow>
     (\<forall>k. k \<noteq> key \<longrightarrow> hm_get (ra_records ra) k = hm_get (ra_records ra0) k)"

definition transfer_holds ::
  "(bytes \<Rightarrow> 'r option) \<Rightarrow> 'p reassembler \<Rightarrow> 'p record_key \<Rightarrow> bytes \<Rightarrow> 'r \<Rightarrow> nat set \<Rightarrow> 'p reassembler \<Rightarrow> bool" where
  "transfer_holds deser ra0 key bytes r S ra \<longleftrightarrow>
     ra_wf ra \<and> payload_ok bytes \<and> deser bytes = Some r \<and> others_same key ra0 ra
     \<and> (\<exists>rec. hm_get (ra_records ra) key = Some rec \<and> pr_total_len rec = length bytes
          \<and> slots_hold (history_slices bytes) S (pr_chunks rec))"

definition transfer_gone :: "'p reassembler \<Rightarrow> 'p record_key \<Rightarrow> 'p reassembler \<Rightarrow> bool" where
  "transfer_gone ra0 key ra \<longleftrightarrow>
     ra_wf ra \<and> others_same key ra0 ra \<and> hm_get (ra_records ra) key = None"

lemma history_receive_slice:
  "history_receive deser p ra (t, HistoryRecordChunk rq rc i d) =
     (case ra_chunk deser ra p rq rc i d of
        (ra', Inr (Some r)) \<Rightarrow> (ra', Some r) | (ra', _) \<Rightarrow> (ra', None))"
  by (simp add: history_receive_def)

text \<open>One slice of the payload at a pending transfer.\<close>

lemma transfer_step:
  fixes t :: nat
  assumes h: "transfer_holds deser ra0 (p, rq, rc) bytes r S ra"
    and i: "i < length (history_slices bytes)"
  defines "e \<equiv> (t, HistoryRecordChunk rq rc (word_of_nat i) (history_slices bytes ! i))"
  shows "i \<in> S \<Longrightarrow> history_receive deser p ra e = (ra, None)"
    and "i \<notin> S \<Longrightarrow> insert i S \<noteq> {..<length (history_slices bytes)} \<Longrightarrow>
      \<exists>ra'. history_receive deser p ra e = (ra', None)
        \<and> transfer_holds deser ra0 (p, rq, rc) bytes r (insert i S) ra'"
    and "i \<notin> S \<Longrightarrow> insert i S = {..<length (history_slices bytes)} \<Longrightarrow>
      \<exists>ra'. history_receive deser p ra e = (ra', Some r) \<and> transfer_gone ra0 (p, rq, rc) ra'"
proof -
  let ?ps = "history_slices bytes"
  from h obtain rec where wf: "ra_wf ra" and ok: "payload_ok bytes" and de: "deser bytes = Some r"
    and get: "hm_get (ra_records ra) (p, rq, rc) = Some rec" and tot: "pr_total_len rec = length bytes"
    and same: "others_same (p, rq, rc) ra0 ra" and slots: "slots_hold ?ps S (pr_chunks rec)"
    by (auto simp: transfer_holds_def)
  have hmok: "hm_ok (ra_records ra)" using wf by (simp add: ra_wf_def)
  have prwf: "pr_wf rec" using wf get by (auto simp: ra_wf_def dest: hm.every_get)
  have w: "unat (word_of_nat i :: u32) = i" using ok i by (rule slice_word)
  note len = slots_hold_length [OF slots]
  have d: "length (?ps ! i) = min MAX_HISTORY_CHUNK_SIZE (length bytes - i * MAX_HISTORY_CHUNK_SIZE)"
    using length_nth_chunks_of [OF chunk_size_pos i] .
  note step = ra_chunk_pending [OF wf get, where index = "word_of_nat i" and data = "?ps ! i" and deser = deser, unfolded w tot d len]
  let ?slots = "(pr_chunks rec)[i := Some (?ps ! i)]"
  let ?rec = "rec\<lparr>pr_chunks := ?slots, pr_received := pr_received rec + 1\<rparr>"
  have upd: "slots_hold ?ps (insert i S) ?slots" using slots i by (rule slots_hold_update)
  show "history_receive deser p ra e = (ra, None)" if "i \<in> S"
    using that i slots_hold_nth [OF slots i] step by (simp add: e_def history_receive_slice)
  have none: "pr_chunks rec ! i = None" if "i \<notin> S" using that slots_hold_nth [OF slots i] by simp
  have full: "pr_received rec + 1 = length ?ps \<longleftrightarrow> insert i S = {..<length ?ps}" if "i \<notin> S"
    using none [OF that] i prwf len count_some_update [of i "pr_chunks rec" "?ps ! i"]
      count_some_full [of ?slots] slots_hold_all_Some [OF upd]
    by (simp add: pr_wf_def)
  show "\<exists>ra'. history_receive deser p ra e = (ra', None)
        \<and> transfer_holds deser ra0 (p, rq, rc) bytes r (insert i S) ra'"
    if "i \<notin> S" and "insert i S \<noteq> {..<length ?ps}"
  proof -
    let ?ra = "ra\<lparr>ra_records := hm_insert (p, rq, rc) ?rec (ra_records ra)\<rparr>"
    have "history_receive deser p ra e = (?ra, None)"
      using that none full i step by (simp add: e_def history_receive_slice)
    moreover have "pr_wf ?rec"
      using pr_store_wf [OF prwf, of i "?ps ! i"] that none full i d len tot by simp
    then have "ra_wf ?ra" using wf get by (rule_tac ra_replace_wf) auto
    then have "transfer_holds deser ra0 (p, rq, rc) bytes r (insert i S) ?ra"
      using ok de same upd tot by (auto simp: transfer_holds_def others_same_def hash_map)
    ultimately show ?thesis by blast
  qed
  show "\<exists>ra'. history_receive deser p ra e = (ra', Some r) \<and> transfer_gone ra0 (p, rq, rc) ra'"
    if "i \<notin> S" and "insert i S = {..<length ?ps}"
  proof -
    have "?slots = map Some ?ps" using upd that(2) by (simp add: slots_hold_full)
    then have "concat (map the ?slots) = bytes"
      by (simp add: comp_def concat_chunks_of chunk_size_pos)
    then have "history_receive deser p ra e = (ra_forget ra (p, rq, rc) rec, Some r)"
      using that none full i step de by (simp add: e_def history_receive_slice)
    moreover have "transfer_gone ra0 (p, rq, rc) (ra_forget ra (p, rq, rc) rec)"
      using ra_forget_wf [OF wf get] same hmok
      by (simp add: transfer_gone_def others_same_def ra_forget_def hash_map)
    ultimately show ?thesis by blast
  qed
qed

interpretation history: slice_receiver
  "history_receive deser p" slice_index
  "\<lambda>a. payload_ok bytes \<and> snd a \<in> set (record_slices rq rc bytes)"
  "length (history_slices bytes)"
  "transfer_holds deser ra0 (p, rq, rc) bytes r"
  "transfer_gone ra0 (p, rq, rc)" "Some r" "\<lambda>out. out = None"
proof
  fix S ra and a :: "nat \<times> proto_event"
  assume h: "transfer_holds deser ra0 (p, rq, rc) bytes r S ra"
    and a: "payload_ok bytes \<and> snd a \<in> set (record_slices rq rc bytes)"
  from a obtain i where i: "i < length (history_slices bytes)"
    and e: "a = (fst a, HistoryRecordChunk rq rc (word_of_nat i) (history_slices bytes ! i))"
    by (cases a) (auto simp: record_slices_iff)
  have idx: "slice_index a = i"
    using slice_word [of bytes i] a i by (subst e) (simp add: slice_index_def)
  note step = transfer_step [OF h i, of "fst a", folded e]
  show "slice_index a \<in> S \<Longrightarrow> \<exists>s' q. history_receive deser p ra a = (s', q) \<and> q = None \<and>
      transfer_holds deser ra0 (p, rq, rc) bytes r S s'"
    using step(1) h idx by auto
  show "slice_index a < length (history_slices bytes) \<Longrightarrow> slice_index a \<notin> S \<Longrightarrow>
      insert (slice_index a) S \<noteq> {..<length (history_slices bytes)} \<Longrightarrow>
      \<exists>s' q. history_receive deser p ra a = (s', q) \<and> q = None \<and>
        transfer_holds deser ra0 (p, rq, rc) bytes r (insert (slice_index a) S) s'"
    using step(2) idx by auto
  show "slice_index a < length (history_slices bytes) \<Longrightarrow> slice_index a \<notin> S \<Longrightarrow>
      insert (slice_index a) S = {..<length (history_slices bytes)} \<Longrightarrow>
      \<exists>s'. history_receive deser p ra a = (s', Some r) \<and> transfer_gone ra0 (p, rq, rc) s'"
    using step(3) idx by auto
next
  fix ra and a :: "nat \<times> proto_event"
  assume g: "transfer_gone ra0 (p, rq, rc) ra"
    and "payload_ok bytes \<and> snd a \<in> set (record_slices rq rc bytes)"
  then obtain i d where "a = (fst a, HistoryRecordChunk rq rc i d)"
    by (cases a) (auto simp: record_slices_iff)
  with g have "history_receive deser p ra a = (ra, None)"
    by (metis (no_types, lifting) history_receive_slice ra_chunk_def option.simps(4) prod.case
        sum.case(2) transfer_gone_def)
  with g show "\<exists>s' q. history_receive deser p ra a = (s', q) \<and> q = None \<and> transfer_gone ra0 (p, rq, rc) s'"
    by auto
qed simp

lemma history_receive_all_run:
  "history_receive_all deser p ra as =
     (let (ra', outs) = history.run deser p ra as in (ra', List.map_filter (\<lambda>x. x) outs))"
  by (induction as arbitrary: ra)
    (auto simp: history.run.simps map_filter_simps split: prod.splits option.splits)

lemma map_filter_one:
  "filter (\<lambda>x. x \<noteq> None) outs = [Some r] \<Longrightarrow> List.map_filter (\<lambda>x. x) outs = [r]"
  by (auto simp: List.map_filter_def comp_def)

text \<open>A start message that finds room opens an empty transfer.\<close>

lemma ra_start_opens:
  assumes wf: "ra_wf ra" and ok: "payload_ok bytes" and de: "deser bytes = Some r"
    and new: "hm_get (ra_records ra) (p, rq, rc) = None"
    and room: "length (ra_records ra) < MAX_PENDING_RECORDS"
      "ra_pending_bytes ra + length bytes \<le> MAX_PENDING_BYTES"
  shows "transfer_holds deser ra (p, rq, rc) bytes r {}
           (fst (ra_start ra now p rq rc (word_of_nat (length bytes))
              (word_of_nat (div_ceil (length bytes) MAX_HISTORY_CHUNK_SIZE))))"
    (is "transfer_holds _ _ _ _ _ _ (fst ?res)")
proof -
  have len: "unat (word_of_nat (length bytes) :: u32) = length bytes"
    using ok by (simp add: payload_ok_def unat_of_nat const_defs)
  have cnt: "unat (word_of_nat (div_ceil (length bytes) MAX_HISTORY_CHUNK_SIZE) :: u32)
      = length (history_slices bytes)"
    using ok by (simp add: payload_ok_def unat_expected length_history_slices)
  let ?rec = "\<lparr>pr_received = 0, pr_total_len = length bytes,
      pr_chunks = replicate (length (history_slices bytes)) None, pr_started = now\<rparr>"
  have "fst ?res = ra\<lparr>ra_pending_bytes := ra_pending_bytes ra + length bytes,
      ra_records := hm_insert (p, rq, rc) ?rec (ra_records ra)\<rparr>"
    using ok new room budget_test
    by (simp add: ra_start_def Let_def len cnt payload_ok_def del: min_less_iff_conj)
  moreover have "ra_wf (fst ?res)" using wf by (rule ra_start_wf)
  ultimately show ?thesis
    using ok de by (auto simp: transfer_holds_def others_same_def hash_map slots_hold_empty)
qed

lemma arrivals_cover:
  assumes ok: "payload_ok bytes" and arrive: "snd ` set arrivals = set (record_slices rq rc bytes)"
  defines "N \<equiv> length (history_slices bytes)"
  shows "\<forall>a \<in> set arrivals. (payload_ok bytes \<and> snd a \<in> set (record_slices rq rc bytes))
           \<and> slice_index a < N"
    and "{} \<union> slice_index ` set arrivals = {..<N}"
proof -
  have sl: "set (record_slices rq rc bytes) =
      (\<lambda>i. HistoryRecordChunk rq rc (word_of_nat i) (history_slices bytes ! i)) ` {..<N}"
    by (auto simp: record_slices_iff N_def)
  have "slice_index ` set arrivals =
      (\<lambda>e. case e of HistoryRecordChunk rq rc i d \<Rightarrow> unat i | _ \<Rightarrow> 0) ` (snd ` set arrivals)"
    by (simp add: slice_index_def image_image)
  then show img: "{} \<union> slice_index ` set arrivals = {..<N}"
    using ok by (simp add: arrive sl image_image slice_word N_def)
  show "\<forall>a \<in> set arrivals. (payload_ok bytes \<and> snd a \<in> set (record_slices rq rc bytes))
      \<and> slice_index a < N"
    using ok arrive img by blast
qed

section \<open>Properties of the reassembler\<close>

datatype 'p ra_op =
    RaStart nat 'p u64 u64 u32 u32
  | RaChunk 'p u64 u64 u32 bytes
  | RaPeerLost 'p
  | RaFinish 'p u64
  | RaExpire nat

fun ra_step :: "(bytes \<Rightarrow> 'r option) \<Rightarrow> 'p reassembler \<Rightarrow> 'p ra_op \<Rightarrow> 'p reassembler" where
  "ra_step deser ra (RaStart now p rq rc n c) = fst (ra_start ra now p rq rc n c)"
| "ra_step deser ra (RaChunk p rq rc i d) = fst (ra_chunk deser ra p rq rc i d)"
| "ra_step deser ra (RaPeerLost p) = ra_peer_lost ra p"
| "ra_step deser ra (RaFinish p rq) = fst (ra_finish_request ra p rq)"
| "ra_step deser ra (RaExpire now) = fst (ra_expire ra now)"

lemma ra_step_wf: "ra_wf ra \<Longrightarrow> ra_wf (ra_step deser ra op)"
  by (cases op) (simp_all add: ra_op_wf ra_peer_lost_def ra_finish_request_def ra_expire_def)

text \<open>C39: the memory of the history reassembler is bounded and its accounting exact. After any sequence
  of starts, slices (with any content), lost peers, finished requests and expirations, at most eight
  records are pending, the byte counter is the sum of their announced lengths and at most 48 MiB,
  and every pending record has a slot per expected slice, counts its filled slots and is
  incomplete, with every stored slice of its proper length.\<close>

theorem history_budget:
  "let ra = foldl (ra_step deser) ra_default ops in
     length (ra_records ra) \<le> 8 \<and> ra_pending_bytes ra = hm_sum pr_total_len (ra_records ra)
     \<and> ra_pending_bytes ra \<le> 48 * 1024 * 1024 \<and> hm.every (\<lambda>k r. pr_wf r) (ra_records ra)"
proof -
  have "ra_wf (foldl (ra_step deser) ra ops)" if "ra_wf ra" for ra
    using that by (induction ops arbitrary: ra) (simp_all add: ra_step_wf)
  then have "ra_wf (foldl (ra_step deser) ra_default ops)" using ra_default_wf by blast
  then show ?thesis by (simp add: ra_wf_def const_defs Let_def)
qed

text \<open>C15: the slices of a record, arriving in any order and with any duplicates, are reassembled exactly
  once. If the record is sent as \<open>record_events\<close> says, the serialiser inverts itself and the
  receiver has room for it, then after the start message any sequence of its slices that contains
  each of them imports the record exactly once, leaves no pending transfer behind and every other
  pending record as it was.\<close>

theorem history_record_delivered:
  assumes codec: "\<And>b. ser r = Inr b \<Longrightarrow> deser b = Some r"
    and sent: "record_events ser rq rc r = Inr (HistoryRecordStart rq rc n c # slices)"
    and wf: "ra_wf ra" and new: "hm_get (ra_records ra) (p, rq, rc) = None"
    and room: "length (ra_records ra) < MAX_PENDING_RECORDS"
      "ra_pending_bytes ra + unat n \<le> MAX_PENDING_BYTES"
    and arrive: "snd ` set arrivals = set slices"
  shows "\<exists>ra'. history_receive_all deser p ra ((now, HistoryRecordStart rq rc n c) # arrivals) = (ra', [r])
     \<and> ra_wf ra' \<and> hm_get (ra_records ra') (p, rq, rc) = None
     \<and> (\<forall>k. k \<noteq> (p, rq, rc) \<longrightarrow> hm_get (ra_records ra') k = hm_get (ra_records ra) k)"
proof -
  from sent obtain bytes where ser: "ser r = Inr bytes" and ok: "payload_ok bytes"
    and n: "n = word_of_nat (length bytes)"
    and c: "c = word_of_nat (div_ceil (length bytes) MAX_HISTORY_CHUNK_SIZE)"
    and slices: "slices = record_slices rq rc bytes"
    by (auto simp: record_events_def rbind_eq_Inr_iff payload_ok_def record_slices_def
        split: if_splits)
  let ?ra = "fst (ra_start ra now p rq rc n c)"
  let ?N = "length (history_slices bytes)"
  have "unat n = length bytes" using ok n by (simp add: payload_ok_def unat_of_nat const_defs)
  then have h: "transfer_holds deser ra (p, rq, rc) bytes r {} ?ra"
    using ra_start_opens [OF wf ok, of deser, OF codec [OF ser] new room(1)] room(2) n c by simp
  have "0 < ?N" using ok expected_chunks_pos by (simp add: payload_ok_def length_history_slices)
  then have ne: "{} \<noteq> {..<?N}" by (metis lessThan_iff empty_iff)
  note cover = arrivals_cover [OF ok arrive [unfolded slices]]
  from history.any_order_any_duplicates [OF h ne cover] obtain ra' outs where
    run: "history.run deser p ?ra arrivals = (ra', outs)" "transfer_gone ra (p, rq, rc) ra'"
    "filter (\<lambda>q. q \<noteq> None) outs = [Some r]"
    by auto
  then have "history_receive_all deser p ?ra arrivals = (ra', [r])"
    by (simp add: history_receive_all_run map_filter_one)
  with run(2) show ?thesis
    by (auto simp: history_receive_def transfer_gone_def others_same_def)
qed

theorem history_record_delivered_witness:
  "\<exists>ra'. history_receive_all Some (1::nat) ra_default
     [(0, HistoryRecordStart 3 4 2 1), (5, HistoryRecordChunk 3 4 0 [7, 8]),
      (6, HistoryRecordChunk 3 4 0 [7, 8])] = (ra', [[7, 8]])
   \<and> ra_wf ra' \<and> hm_get (ra_records ra') (1, 3, 4) = None"
proof -
  have chunks: "chunks_of 1179 [7, 8 :: u8] = [[7, 8]]"
    by (simp add: chunks_of.simps)
  have "record_events Inr 3 4 [7, 8 :: u8] =
      Inr (HistoryRecordStart 3 4 2 1 # [HistoryRecordChunk 3 4 0 [7, 8]])"
    by (simp add: record_events_def const_defs div_ceil_def chunks)
  from history_record_delivered [where ser = Inr and deser = Some, OF _ this ra_default_wf,
      where p = "1 :: nat" and now = 0
      and arrivals = "[(5, HistoryRecordChunk 3 4 0 [7, 8]), (6, HistoryRecordChunk 3 4 0 [7, 8])]"]
  show ?thesis by (auto simp: ra_default_def hash_map const_defs)
qed

end
