(* ===== verification/History_Clear.thy ===== *)
theory History_Clear
  imports History_Sync "HOL-Library.List_Lexorder"
begin

text \<open>
  The coordinated clearing of the history on all devices, from
  \<open>crates/syntra-core/src/history_sync.rs\<close>: clear boundaries (the highest sequence number per
  originating device, a \<open>BTreeMap\<close>), their wire form and union, and \<open>ClearCoordinator\<close>, the
  two-phase protocol that first collects the boundary of every participant and then its
  acknowledgement. The order of strings is the lexicographic order of their bytes.
\<close>

type_synonym clear_boundary = "(rstring, u64) hash_map"

definition boundary_to_wire :: "clear_boundary \<Rightarrow> (rstring \<times> u64) list" where
  "boundary_to_wire boundary = map (\<lambda>(origin, sequence). (origin, sequence)) boundary"

text \<open>\<open>entry(origin).and_modify(max).or_insert(sequence)\<close>.\<close>

definition boundary_entry :: "clear_boundary \<Rightarrow> rstring \<times> u64 \<Rightarrow> clear_boundary" where
  "boundary_entry m entry = (case entry of (origin, sequence) \<Rightarrow>
     (case hm_get m origin of
        Some known \<Rightarrow> bt_insert origin (max known sequence) m
      | None \<Rightarrow> bt_insert origin sequence m))"

definition boundary_from_wire :: "(rstring \<times> u64) list \<Rightarrow> clear_boundary" where
  "boundary_from_wire entries = foldl boundary_entry [] entries"

definition union_boundary :: "clear_boundary \<Rightarrow> clear_boundary \<Rightarrow> clear_boundary" where
  "union_boundary target source = foldl boundary_entry target source"

section \<open>The lattice of boundaries\<close>

text \<open>The union is the pointwise maximum, with no entry below every number.\<close>

definition omax :: "u64 option \<Rightarrow> u64 option \<Rightarrow> u64 option" where
  "omax a b = (case a of None \<Rightarrow> b
     | Some x \<Rightarrow> (case b of None \<Rightarrow> a | Some y \<Rightarrow> Some (max x y)))"

lemma omax_simps [simp]:
  "omax None b = b" "omax a None = a" "omax (Some x) (Some y) = Some (max x y)"
  by (auto simp: omax_def split: option.splits)

lemma omax_assoc: "omax (omax a b) c = omax a (omax b c)"
  by (cases a; cases b; cases c) (auto simp: max.assoc)

lemma omax_commute: "omax a b = omax b a"
  by (cases a; cases b) (auto simp: max.commute)

lemma omax_idem: "omax a a = a"
  by (cases a) auto

lemma boundary_entry_ok [simp]: "bt_ok m \<Longrightarrow> bt_ok (boundary_entry m e)"
  by (auto simp: boundary_entry_def split: prod.splits option.splits)

lemma boundary_entry_get:
  "bt_ok m \<Longrightarrow> hm_get (boundary_entry m (origin, sequence)) k =
     (if k = origin then omax (hm_get m k) (Some sequence) else hm_get m k)"
  by (auto simp: boundary_entry_def hash_map split: option.splits)

lemma union_boundary_ok [simp]: "bt_ok t \<Longrightarrow> bt_ok (union_boundary t s)"
  unfolding union_boundary_def by (induction s arbitrary: t) auto

lemma union_boundary_get:
  "bt_ok t \<Longrightarrow> hm_ok s \<Longrightarrow> hm_get (union_boundary t s) k = omax (hm_get t k) (hm_get s k)"
proof (induction s arbitrary: t)
  case Nil
  then show ?case by (simp add: union_boundary_def hash_map)
next
  case (Cons e s)
  obtain origin sequence where e: "e = (origin, sequence)" by (cases e)
  have "hm_get s origin = None" using Cons.prems(2) e by (auto simp: hm_ok_def hm_get_None)
  moreover have "hm_ok s" using Cons.prems(2) by (simp add: hm_ok_def)
  moreover have "hm_get (union_boundary t (e # s)) k =
      hm_get (union_boundary (boundary_entry t e) s) k"
    by (simp add: union_boundary_def)
  ultimately show ?case
    using Cons.IH [of "boundary_entry t e"] Cons.prems(1) e
    by (auto simp: boundary_entry_get hm_get_Cons)
qed

lemma boundary_from_wire_ok: "bt_ok (boundary_from_wire entries)"
  using union_boundary_ok [of "[]" entries] by (simp add: boundary_from_wire_def union_boundary_def)

lemma boundary_roundtrip: "bt_ok b \<Longrightarrow> boundary_from_wire (boundary_to_wire b) = b"
proof (rule bt_eqI)
  fix k assume b: "bt_ok b"
  have w: "boundary_to_wire b = b" by (simp add: boundary_to_wire_def)
  show "hm_get (boundary_from_wire (boundary_to_wire b)) k = hm_get b k"
    using union_boundary_get [of "[]" b k] b
    by (simp add: boundary_from_wire_def union_boundary_def w bt_ok_hm_ok hash_map)
qed (simp_all add: boundary_from_wire_ok)

section \<open>ClearCoordinator\<close>

record 'p clear_coordinator =
  cc_operation_id :: bytes
  cc_boundary :: clear_boundary
  cc_awaiting_boundaries :: "'p set"
  cc_peer_count :: nat
  cc_participants :: "'p set"
  cc_awaiting_acks :: "'p set"
  cc_affected :: u64
  cc_errors :: "rstring list"
  cc_deadline :: nat
  cc_applying :: bool

definition cc_new :: "nat \<Rightarrow> bytes \<Rightarrow> 'p set \<Rightarrow> clear_boundary \<Rightarrow> 'p clear_coordinator" where
  "cc_new now operation_id peers boundary =
     \<lparr>cc_operation_id = operation_id, cc_boundary = boundary, cc_awaiting_boundaries = peers,
      cc_peer_count = card peers, cc_participants = peers, cc_awaiting_acks = {},
      cc_affected = 0, cc_errors = [], cc_deadline = now + CLEAR_TIMEOUT,
      cc_applying = False\<rparr>"

definition cc_add_boundary ::
  "'p clear_coordinator \<Rightarrow> 'p \<Rightarrow> clear_boundary \<Rightarrow> 'p clear_coordinator \<times> bool" where
  "cc_add_boundary cc peer boundary =
     (if peer \<notin> cc_awaiting_boundaries cc then (cc, False)
      else let cc' = cc\<lparr>cc_awaiting_boundaries := cc_awaiting_boundaries cc - {peer},
                        cc_boundary := union_boundary (cc_boundary cc) boundary\<rparr>
           in (cc', cc_awaiting_boundaries cc' = {}))"

definition cc_begin_apply :: "nat \<Rightarrow> 'p clear_coordinator \<Rightarrow> 'p set \<Rightarrow> u64 \<Rightarrow> 'p clear_coordinator" where
  "cc_begin_apply now cc peers local_affected =
     cc\<lparr>cc_applying := True, cc_awaiting_acks := peers, cc_affected := local_affected,
        cc_deadline := now + CLEAR_TIMEOUT\<rparr>"

definition cc_add_ack ::
  "'p clear_coordinator \<Rightarrow> 'p \<Rightarrow> u64 \<Rightarrow> rstring option \<Rightarrow> 'p clear_coordinator \<times> bool" where
  "cc_add_ack cc peer affected error =
     (if peer \<notin> cc_awaiting_acks cc then (cc, False)
      else let cc' = cc\<lparr>cc_awaiting_acks := cc_awaiting_acks cc - {peer},
                        cc_affected := saturating_add (cc_affected cc) affected,
                        cc_errors := cc_errors cc @ (case error of None \<Rightarrow> [] | Some e \<Rightarrow> [e])\<rparr>
           in (cc', cc_awaiting_acks cc' = {}))"

text \<open>
  \<open>||\<close> evaluates its right side only when the left one is false, so a peer that is still awaited
  for its boundary is not removed from the awaited acknowledgements.
\<close>

definition cc_peer_lost :: "'p clear_coordinator \<Rightarrow> 'p \<Rightarrow> 'p clear_coordinator" where
  "cc_peer_lost cc peer =
     (let msg = lit ''peer disconnected during global clear'' in
      if peer \<in> cc_awaiting_boundaries cc
      then cc\<lparr>cc_awaiting_boundaries := cc_awaiting_boundaries cc - {peer},
              cc_errors := cc_errors cc @ [msg]\<rparr>
      else if peer \<in> cc_awaiting_acks cc
      then cc\<lparr>cc_awaiting_acks := cc_awaiting_acks cc - {peer},
              cc_errors := cc_errors cc @ [msg]\<rparr>
      else cc)"

section \<open>The boundary phase\<close>

text \<open>The answers of the peers in their order of arrival, and which of them reported completion.\<close>

primrec cc_boundaries ::
  "'p clear_coordinator \<Rightarrow> ('p \<times> clear_boundary) list \<Rightarrow> 'p clear_coordinator \<times> bool list" where
  "cc_boundaries cc [] = (cc, [])"
| "cc_boundaries cc (a # as) =
     (case cc_add_boundary cc (fst a) (snd a) of (cc', ready) \<Rightarrow>
      (case cc_boundaries cc' as of (cc'', readies) \<Rightarrow> (cc'', ready # readies)))"

text \<open>The largest sequence number of an origin among a set of boundaries.\<close>

definition boundary_sup :: "clear_boundary \<Rightarrow> clear_boundary set \<Rightarrow> rstring \<Rightarrow> u64 option" where
  "boundary_sup local others k =
     (let vals = {v. hm_get local k = Some v \<or> (\<exists>b \<in> others. hm_get b k = Some v)}
      in if vals = {} then None else Some (Max vals))"

lemma boundary_sup_empty: "boundary_sup local {} k = hm_get local k"
  by (cases "hm_get local k") (auto simp: boundary_sup_def)

lemma boundary_sup_insert:
  assumes "finite others"
  shows "boundary_sup local (insert b others) k = omax (boundary_sup local others k) (hm_get b k)"
proof -
  let ?vals = "\<lambda>os. {v. hm_get local k = Some v \<or> (\<exists>b \<in> os. hm_get b k = Some v)}"
  have "?vals os \<subseteq> the ` ((\<lambda>b. hm_get b k) ` insert local os)" for os by force
  then have fin: "finite (?vals others)" using assms by (meson finite_imageI finite_insert finite_subset)
  show ?thesis
  proof (cases "hm_get b k")
    case None
    then have "?vals (insert b others) = ?vals others" by auto
    with None show ?thesis by (simp add: boundary_sup_def)
  next
    case (Some v)
    then have "?vals (insert b others) = insert v (?vals others)" by auto
    with Some fin show ?thesis
      by (simp add: boundary_sup_def Let_def max.commute)
  qed
qed

lemma union_boundary_sup:
  assumes "bt_ok t" and "hm_ok s" and "finite others"
    and "\<And>k. hm_get t k = boundary_sup local others k"
  shows "hm_get (union_boundary t s) k = boundary_sup local (insert s others) k"
  using assms by (simp add: union_boundary_get boundary_sup_insert)

text \<open>
  While boundaries arrive: the answers of the peers \<open>D\<close> are in, those of the others are awaited.
\<close>

definition cc_collecting :: "clear_boundary \<Rightarrow> ('p \<Rightarrow> clear_boundary) \<Rightarrow> 'p set \<Rightarrow> 'p set \<Rightarrow>
    'p clear_coordinator \<Rightarrow> bool" where
  "cc_collecting local b peers D cc \<longleftrightarrow> D \<subseteq> peers \<and> finite peers
     \<and> cc_awaiting_boundaries cc = peers - D \<and> bt_ok (cc_boundary cc)
     \<and> (\<forall>k. hm_get (cc_boundary cc) k = boundary_sup local (b ` D) k)"

lemma cc_add_boundary_collecting:
  assumes "cc_collecting local b peers D cc" and "hm_ok (b p)"
  shows "p \<in> peers - D \<Longrightarrow> \<exists>cc'. cc_add_boundary cc p (b p) = (cc', insert p D = peers)
            \<and> cc_collecting local b peers (insert p D) cc'"
    and "p \<notin> peers - D \<Longrightarrow> cc_add_boundary cc p (b p) = (cc, False)"
proof -
  have fin: "finite (b ` D)" using assms(1) by (meson cc_collecting_def finite_imageI finite_subset)
  let ?cc = "cc\<lparr>cc_awaiting_boundaries := cc_awaiting_boundaries cc - {p},
                cc_boundary := union_boundary (cc_boundary cc) (b p)\<rparr>"
  show "\<exists>cc'. cc_add_boundary cc p (b p) = (cc', insert p D = peers)
      \<and> cc_collecting local b peers (insert p D) cc'" if p: "p \<in> peers - D"
  proof (intro exI conjI)
    have "cc_awaiting_boundaries cc - {p} = {} \<longleftrightarrow> insert p D = peers"
      using assms(1) p by (auto simp: cc_collecting_def)
    then show "cc_add_boundary cc p (b p) = (?cc, insert p D = peers)"
      using assms(1) p by (simp add: cc_add_boundary_def cc_collecting_def Let_def)
    show "cc_collecting local b peers (insert p D) ?cc"
      using assms p fin union_boundary_sup [of "cc_boundary cc" "b p" "b ` D" local]
      by (auto simp: cc_collecting_def)
  qed
  show "cc_add_boundary cc p (b p) = (cc, False)" if "p \<notin> peers - D"
    using assms(1) that by (auto simp: cc_add_boundary_def cc_collecting_def)
qed

lemma cc_boundaries_collecting:
  assumes "cc_collecting local b peers D cc" and "\<forall>p. hm_ok (b p)"
  shows "\<exists>cc' readies. cc_boundaries cc (map (\<lambda>p. (p, b p)) ps) = (cc', readies)
    \<and> cc_collecting local b peers (D \<union> (set ps \<inter> peers)) cc'
    \<and> length (filter (\<lambda>r. r) readies) = (if D \<noteq> peers \<and> peers \<subseteq> D \<union> set ps then 1 else 0)"
  using assms
proof (induction ps arbitrary: D cc)
  case Nil
  then show ?case by (auto simp: cc_collecting_def)
next
  case (Cons p ps)
  show ?case
  proof (cases "p \<in> peers - D")
    case True
    from cc_add_boundary_collecting(1) [OF Cons.prems(1) _ True] Cons.prems(2) obtain cc1
      where a: "cc_add_boundary cc p (b p) = (cc1, insert p D = peers)"
      and c: "cc_collecting local b peers (insert p D) cc1" by auto
    from Cons.IH [OF c Cons.prems(2)] obtain cc' rs
      where r: "cc_boundaries cc1 (map (\<lambda>p. (p, b p)) ps) = (cc', rs)"
      "cc_collecting local b peers (insert p D \<union> (set ps \<inter> peers)) cc'"
      and n: "length (filter (\<lambda>r. r) rs) =
        (if insert p D \<noteq> peers \<and> peers \<subseteq> insert p D \<union> set ps then 1 else 0)" by auto
    have D: "insert p D \<union> (set ps \<inter> peers) = D \<union> (set (p # ps) \<inter> peers)" "D \<noteq> peers"
      "insert p D = peers \<Longrightarrow> peers \<subseteq> insert p (D \<union> set ps)" using True by auto
    have "cc_boundaries cc (map (\<lambda>p. (p, b p)) (p # ps)) = (cc', (insert p D = peers) # rs)"
      using a r by simp
    moreover have "length (filter (\<lambda>r. r) ((insert p D = peers) # rs)) =
        (if D \<noteq> peers \<and> peers \<subseteq> D \<union> set (p # ps) then 1 else 0)"
      using n D(2,3) by (cases "insert p D = peers") simp_all
    ultimately show ?thesis using r(2) D(1) by metis
  next
    case False
    with cc_add_boundary_collecting(2) [OF Cons.prems(1) _ False] Cons.prems(2)
    have a: "cc_add_boundary cc p (b p) = (cc, False)" by auto
    have "D \<subseteq> peers" using Cons.prems(1) by (simp add: cc_collecting_def)
    with False have eq: "D \<union> (set (p # ps) \<inter> peers) = D \<union> (set ps \<inter> peers)"
      "peers \<subseteq> D \<union> set (p # ps) \<longleftrightarrow> peers \<subseteq> D \<union> set ps" by auto
    from Cons.IH [OF Cons.prems] obtain cc' rs
      where r: "cc_boundaries cc (map (\<lambda>p. (p, b p)) ps) = (cc', rs)"
      "cc_collecting local b peers (D \<union> (set ps \<inter> peers)) cc'"
      "length (filter (\<lambda>r. r) rs) = (if D \<noteq> peers \<and> peers \<subseteq> D \<union> set ps then 1 else 0)" by auto
    moreover from r a have "cc_boundaries cc (map (\<lambda>p. (p, b p)) (p # ps)) = (cc', False # rs)" by simp
    moreover have "filter (\<lambda>r. r) (False # rs) = filter (\<lambda>r. r) rs" by simp
    ultimately show ?thesis unfolding eq by metis
  qed
qed

lemma cc_new_collecting:
  "finite peers \<Longrightarrow> bt_ok local \<Longrightarrow> cc_collecting local b peers {} (cc_new now op peers local)"
  by (simp add: cc_collecting_def cc_new_def boundary_sup_empty)

section \<open>The acknowledgement phase\<close>

text \<open>What can happen while acknowledgements are awaited.\<close>

datatype 'p clear_event = ClearAck 'p u64 "rstring option" | ClearLost 'p

fun cc_event :: "'p clear_coordinator \<Rightarrow> 'p clear_event \<Rightarrow> 'p clear_coordinator \<times> bool" where
  "cc_event cc (ClearAck p n e) = cc_add_ack cc p n e"
| "cc_event cc (ClearLost p) = (cc_peer_lost cc p, False)"

primrec cc_events ::
  "'p clear_coordinator \<Rightarrow> 'p clear_event list \<Rightarrow> 'p clear_coordinator \<times> bool list" where
  "cc_events cc [] = (cc, [])"
| "cc_events cc (a # as) = (case cc_event cc a of (cc', d) \<Rightarrow>
     (case cc_events cc' as of (cc'', ds) \<Rightarrow> (cc'', d # ds)))"

fun clear_peer :: "'p clear_event \<Rightarrow> 'p" where
  "clear_peer (ClearAck p n e) = p"
| "clear_peer (ClearLost p) = p"

text \<open>The first event of every awaited peer counts, the others are ignored.\<close>

fun counted :: "'p set \<Rightarrow> 'p clear_event list \<Rightarrow> 'p clear_event list" where
  "counted A [] = []"
| "counted A (a # as) =
     (if clear_peer a \<in> A then a # counted (A - {clear_peer a}) as else counted A as)"

fun event_affected :: "'p clear_event \<Rightarrow> nat" where
  "event_affected (ClearAck p n e) = unat n"
| "event_affected (ClearLost p) = 0"

fun event_errors :: "'p clear_event \<Rightarrow> rstring list" where
  "event_errors (ClearAck p n e) = (case e of None \<Rightarrow> [] | Some m \<Rightarrow> [m])"
| "event_errors (ClearLost p) = [lit ''peer disconnected during global clear'']"

fun is_ack :: "'p clear_event \<Rightarrow> bool" where
  "is_ack (ClearAck p n e) = True"
| "is_ack (ClearLost p) = False"

text \<open>Whether the coordinator reports completion: an acknowledgement was the last event awaited.\<close>

definition acks_done :: "'p set \<Rightarrow> 'p clear_event list \<Rightarrow> bool" where
  "acks_done A as \<longleftrightarrow> A \<noteq> {} \<and> A \<subseteq> clear_peer ` set as \<and> is_ack (last (counted A as))"

lemma counted_empty [simp]: "counted {} as = []"
  by (induction as) auto

lemma counted_nonempty: "A \<inter> clear_peer ` set as \<noteq> {} \<Longrightarrow> counted A as \<noteq> []"
  by (induction as arbitrary: A) auto

lemma acks_done_Cons:
  assumes "clear_peer a \<in> A"
  shows "acks_done A (a # as) \<longleftrightarrow>
    (if A - {clear_peer a} = {} then is_ack a else acks_done (A - {clear_peer a}) as)"
proof (cases "A - {clear_peer a} = {}")
  case True
  with assms have A: "A = {clear_peer a}" by auto
  show ?thesis unfolding acks_done_def A by simp
next
  case False
  have "counted (A - {clear_peer a}) as \<noteq> []" if "A - {clear_peer a} \<subseteq> clear_peer ` set as"
    using that False by (intro counted_nonempty) auto
  with assms False show ?thesis by (auto simp: acks_done_def)
qed

lemma min_plus_cap: "min (min a c + b) c = min (a + b) (c :: nat)"
  by (simp add: min_def)

lemma cc_event_counted:
  assumes "cc_awaiting_boundaries cc = {}"
  shows "clear_peer a \<notin> cc_awaiting_acks cc \<Longrightarrow> cc_event cc a = (cc, False)"
    and "clear_peer a \<in> cc_awaiting_acks cc \<Longrightarrow>
      \<exists>cc'. cc_event cc a = (cc', is_ack a \<and> cc_awaiting_acks cc - {clear_peer a} = {})
      \<and> cc_awaiting_boundaries cc' = {} \<and> cc_awaiting_acks cc' = cc_awaiting_acks cc - {clear_peer a}
      \<and> cc_errors cc' = cc_errors cc @ event_errors a
      \<and> unat (cc_affected cc') = min (unat (cc_affected cc) + event_affected a) (2 ^ 64 - 1)"
  using assms unsigned_less [of "cc_affected cc", where 'a = nat]
  by (cases a; auto simp: cc_add_ack_def cc_peer_lost_def Let_def unat_saturating_add
        simp del: lit_Cons)+

text \<open>The state after a sequence of events, from the state \<open>cc\<close>.\<close>

definition acks_result ::
  "'p clear_coordinator \<Rightarrow> 'p clear_event list \<Rightarrow> 'p clear_coordinator \<Rightarrow> bool list \<Rightarrow> bool" where
  "acks_result cc as cc' ds \<longleftrightarrow>
     cc_awaiting_acks cc' = cc_awaiting_acks cc - clear_peer ` set as
   \<and> cc_errors cc' = cc_errors cc @ concat (map event_errors (counted (cc_awaiting_acks cc) as))
   \<and> unat (cc_affected cc') = min (unat (cc_affected cc)
       + sum_list (map event_affected (counted (cc_awaiting_acks cc) as))) (2 ^ 64 - 1)
   \<and> length (filter (\<lambda>d. d) ds) = (if acks_done (cc_awaiting_acks cc) as then 1 else 0)"

lemma cc_events_result:
  "cc_awaiting_boundaries cc = {} \<Longrightarrow> \<exists>cc' ds. cc_events cc as = (cc', ds) \<and> acks_result cc as cc' ds"
proof (induction as arbitrary: cc)
  case Nil
  then show ?case using unsigned_less [of "cc_affected cc", where 'a = nat]
    by (simp add: acks_result_def acks_done_def)
next
  case (Cons a as)
  show ?case
  proof (cases "clear_peer a \<in> cc_awaiting_acks cc")
    case False
    then have "acks_done (cc_awaiting_acks cc) (a # as) = acks_done (cc_awaiting_acks cc) as"
      by (auto simp: acks_done_def)
    with cc_event_counted(1) [OF Cons.prems False] Cons.IH [OF Cons.prems] False show ?thesis
      by (auto simp: acks_result_def)
  next
    case True
    let ?A = "cc_awaiting_acks cc"
    let ?d = "is_ack a \<and> ?A - {clear_peer a} = {}"
    from cc_event_counted(2) [OF Cons.prems True] obtain cc1 where e: "cc_event cc a = (cc1, ?d)"
      "cc_awaiting_boundaries cc1 = {}" "cc_awaiting_acks cc1 = ?A - {clear_peer a}"
      "cc_errors cc1 = cc_errors cc @ event_errors a"
      "unat (cc_affected cc1) = min (unat (cc_affected cc) + event_affected a) (2 ^ 64 - 1)" by blast
    from Cons.IH [OF e(2)] obtain cc' ds where r: "cc_events cc1 as = (cc', ds)"
      "acks_result cc1 as cc' ds" by blast
    have cap: "min (unat (cc_affected cc1) + n) (2 ^ 64 - 1)
        = min (unat (cc_affected cc) + event_affected a + n) (2 ^ 64 - 1)" for n
      unfolding e(5) by (rule min_plus_cap)
    have "length (filter (\<lambda>d. d) (?d # ds)) = (if acks_done ?A (a # as) then 1 else 0)"
      using r(2) acks_done_Cons [OF True, of as] e(3)
      by (cases "?A - {clear_peer a} = {}") (simp_all add: acks_result_def acks_done_def)
    moreover have "?A - {clear_peer a} - clear_peer ` set as = ?A - clear_peer ` set (a # as)" by auto
    ultimately have "acks_result cc (a # as) cc' (?d # ds)"
      using r(2) e(3,4) True unfolding acks_result_def cap by (simp add: add.assoc)
    with e(1) r(1) show ?thesis by auto
  qed
qed

section \<open>Properties of the global clear\<close>

text \<open>A boundary survives the wire: sending it as a list of entries and collecting the entries with
  their maxima gives the same ordered map.\<close>

theorem clear_boundary_wire_roundtrip:
  assumes "bt_ok b"
  shows "boundary_from_wire (boundary_to_wire b) = b"
  using assms by (rule boundary_roundtrip)

theorem clear_boundary_wire_roundtrip_witness:
  "boundary_from_wire (boundary_to_wire [(lit ''a'', 2), (lit ''b'', 7)]) = [(lit ''a'', 2), (lit ''b'', 7)]"
proof -
  have "bt_ok [(lit ''a'', 2 :: u64), (lit ''b'', 7)]"
    by (simp add: bt_ok_def list_less_def)
  then show ?thesis by (rule clear_boundary_wire_roundtrip)
qed

text \<open>The boundary phase of a global clear. Whatever peers answer in whatever order and however often
  (each with its own boundary \<open>b p\<close>), only the participants count; \<open>add_boundary\<close> reports
  completion exactly once if every participant has answered and never otherwise; and then the
  boundary to apply holds, for every originating device, the largest sequence number that the
  initiator or any participant knows, so it does not depend on the order of the answers.\<close>

theorem clear_boundary_phase:
  assumes "finite peers" and "peers \<noteq> {}" and "bt_ok local" and "\<forall>p. bt_ok (b p)"
  shows "\<exists>cc readies. cc_boundaries (cc_new now op peers local) (map (\<lambda>p. (p, b p)) answers) = (cc, readies)
    \<and> cc_awaiting_boundaries cc = peers - set answers
    \<and> length (filter (\<lambda>r. r) readies) = (if peers \<subseteq> set answers then 1 else 0)
    \<and> (\<forall>k. hm_get (cc_boundary cc) k = boundary_sup local (b ` (set answers \<inter> peers)) k)"
proof -
  have "\<forall>p. hm_ok (b p)" using assms(4) by (simp add: bt_ok_hm_ok)
  from cc_boundaries_collecting [OF cc_new_collecting [OF assms(1,3)] this, of now op answers] assms(2)
  obtain cc rs where r: "cc_boundaries (cc_new now op peers local) (map (\<lambda>p. (p, b p)) answers) = (cc, rs)"
    "cc_collecting local b peers (set answers \<inter> peers) cc"
    "length (filter (\<lambda>r. r) rs) = (if peers \<subseteq> set answers then 1 else 0)"
    by (auto simp del: length_0_conv)
  moreover have "cc_awaiting_boundaries cc = peers - set answers"
    using r(2) by (auto simp: cc_collecting_def)
  ultimately show ?thesis unfolding cc_collecting_def by blast
qed

theorem clear_boundary_phase_witness:
  "\<exists>cc readies. cc_boundaries (cc_new 0 [] {1, 2 :: nat} [(lit ''a'', 2)])
      (map (\<lambda>p. (p, if p = 2 then [(lit ''a'', 9)] else [])) [3, 2, 2, 1]) = (cc, readies)
    \<and> cc_awaiting_boundaries cc = {} \<and> length (filter (\<lambda>r. r) readies) = 1
    \<and> hm_get (cc_boundary cc) (lit ''a'') = Some 9"
proof -
  let ?b = "\<lambda>p :: nat. if p = 2 then [(lit ''a'', 9 :: u64)] else []"
  have "boundary_sup [(lit ''a'', 2)] (?b ` (set [3, 2, 2, 1] \<inter> {1, 2})) (lit ''a'') = Some 9"
    by (simp add: boundary_sup_insert boundary_sup_empty hm_get_def max_def)
  moreover have "set [3, 2, 2, 1 :: nat] \<supseteq> {1, 2}" and "{1, 2} - set [3, 2, 2, 1 :: nat] = {}" by auto
  moreover have "\<forall>p. bt_ok (?b p)" "bt_ok [(lit ''a'', 2 :: u64)]" by (simp_all add: bt_ok_def)
  ultimately show ?thesis
    using clear_boundary_phase [of "{1, 2 :: nat}" "[(lit ''a'', 2)]" ?b 0 "[]" "[3, 2, 2, 1]"]
    by (metis (no_types, lifting) finite.emptyI finite.insertI insert_not_empty)
qed

text \<open>The acknowledgement phase. From \<open>begin_apply\<close> on, whatever acknowledgements and losses of peers
  arrive, exactly the first event of each awaited peer counts: the coordinator then awaits the
  participants that have sent nothing, its number of affected records is the saturating sum of the
  local one and the acknowledged ones, its errors are the reported ones in their order with one entry
  per lost peer, and completion is reported once if an acknowledgement was the last event awaited
  and never otherwise (a lost last peer leaves the operation to its deadline).\<close>

theorem clear_ack_phase:
  assumes "cc_awaiting_boundaries cc = {}"
  shows "\<exists>cc' ds. cc_events (cc_begin_apply now cc (cc_participants cc) local_affected) events = (cc', ds)
    \<and> cc_awaiting_acks cc' = cc_participants cc - clear_peer ` set events
    \<and> cc_errors cc' = cc_errors cc @ concat (map event_errors (counted (cc_participants cc) events))
    \<and> unat (cc_affected cc') = min (unat local_affected
        + sum_list (map event_affected (counted (cc_participants cc) events))) (2 ^ 64 - 1)
    \<and> length (filter (\<lambda>d. d) ds) = (if acks_done (cc_participants cc) events then 1 else 0)"
proof -
  let ?cc = "cc_begin_apply now cc (cc_participants cc) local_affected"
  have "cc_awaiting_boundaries ?cc = {}" using assms by (simp add: cc_begin_apply_def)
  from cc_events_result [OF this, of events] show ?thesis
    by (auto simp: acks_result_def cc_begin_apply_def)
qed

theorem clear_ack_phase_witness:
  "\<exists>cc' ds. cc_events (cc_begin_apply 0 ((cc_new 0 [] {1, 2 :: nat} [])\<lparr>cc_awaiting_boundaries := {}\<rparr>) {1, 2} 5)
      [ClearAck 1 2 None, ClearAck 1 9 None, ClearAck 2 1 (Some (lit ''e''))] = (cc', ds)
    \<and> unat (cc_affected cc') = 8 \<and> cc_errors cc' = [lit ''e''] \<and> length (filter (\<lambda>d. d) ds) = 1"
  using clear_ack_phase [of "(cc_new 0 [] {1, 2 :: nat} [])\<lparr>cc_awaiting_boundaries := {}\<rparr>" 0 5
      "[ClearAck 1 2 None, ClearAck 1 9 None, ClearAck 2 1 (Some (lit ''e''))]"]
  by (auto simp: cc_new_def acks_done_def insert_Diff_if)

end
