(* ===== verification/Peer_Profile.thy ===== *)
theory Peer_Profile
  imports Proto_Roundtrip Hash_Map Chunking
begin

text \<open>
  Device profiles: \<open>DeviceProfile\<close> of \<open>crates/syntra-api/src/lib.rs\<close> with its validation, and
  \<open>crates/syntra-core/src/peer_profile.rs\<close>, which sends a profile as a header and slices of its
  avatar and reassembles it per peer (\<open>Reassembler\<close>, at most eight partial profiles, each for
  five seconds). The on-disk cache of the module is file I/O and is not modelled.

  Points in time are milliseconds, given as arguments; \<open>saturating_duration_since\<close> is the
  subtraction of naturals.
\<close>

definition MAX_DEVICE_PROFILE_NAME_BYTES :: nat where
  [const_defs]: "MAX_DEVICE_PROFILE_NAME_BYTES = 128"
definition MAX_PEER_AVATAR_DIMENSION :: u32 where
  [const_defs]: "MAX_PEER_AVATAR_DIMENSION = 128"
definition MAX_PARTIALS :: nat where [const_defs]: "MAX_PARTIALS = 8"
definition PROFILE_TTL :: nat where [const_defs]: "PROFILE_TTL = 5000"

record peer_avatar =
  av_width :: u32
  av_height :: u32
  av_rgba :: bytes

record device_profile =
  dp_display_name :: rstring
  dp_avatar :: "peer_avatar option"

definition profile_validate :: "device_profile \<Rightarrow> string + unit" where
  "profile_validate p =
     (if length (dp_display_name p) > MAX_DEVICE_PROFILE_NAME_BYTES
      then Inl ''device profile display name exceeds 128 UTF-8 bytes''
      else case dp_avatar p of
        None \<Rightarrow> Inr ()
      | Some a \<Rightarrow>
          if av_width a = 0 \<or> av_height a = 0
             \<or> av_width a > MAX_PEER_AVATAR_DIMENSION \<or> av_height a > MAX_PEER_AVATAR_DIMENSION
          then Inl ''device profile avatar exceeds 128x128 pixels''
          else case Option.bind (checked_mul (ucast (av_width a) :: u64) (ucast (av_height a)))
                      (\<lambda>pixels. checked_mul pixels 4) of
            None \<Rightarrow> Inl ''device profile avatar dimensions overflow''
          | Some expected \<Rightarrow>
              if length (av_rgba a) \<noteq> unat expected
              then Inl ''device profile avatar RGBA length does not match dimensions''
              else Inr ())"

section \<open>Sending\<close>

datatype profile_error = ProfileText string | ProfileProtocol protocol_error

definition encode_profile :: "u64 \<Rightarrow> device_profile \<Rightarrow> profile_error + proto_event list" where
  "encode_profile request_id profile =
     (case profile_validate profile of
        Inl e \<Rightarrow> Inl (ProfileText e)
      | Inr _ \<Rightarrow>
          let (width, height, rgba) = (case dp_avatar profile of
                Some a \<Rightarrow> (av_width a, av_height a, av_rgba a) | None \<Rightarrow> (0, 0, []));
              total_len = word_of_nat (length rgba);
              chunks = word_of_nat (div_ceil (length rgba) MAX_PROFILE_CHUNK_SIZE);
              start = ProfileStart request_id width height total_len chunks (dp_display_name profile)
          in case encode start of
               Inl e \<Rightarrow> Inl (ProfileProtocol e)
             | Inr _ \<Rightarrow>
                 Inr (start # map (\<lambda>(index, data). ProfileChunk request_id (word_of_nat index) data)
                   (enumerate 0 (chunks_of MAX_PROFILE_CHUNK_SIZE rgba))))"

section \<open>Reassembler\<close>

record partial_profile =
  pp_request_id :: u64
  pp_width :: u32
  pp_height :: u32
  pp_chunks :: "bytes option list"
  pp_name :: rstring
  pp_touched :: nat

type_synonym profile_reassembler = "(rstring, partial_profile) hash_map"

record profile_header =
  ph_width :: u32
  ph_height :: u32
  ph_total_len :: u32
  ph_chunks :: u32
  ph_display_name :: rstring

definition pf_expire :: "profile_reassembler \<Rightarrow> nat \<Rightarrow> profile_reassembler" where
  "pf_expire peers now = hm_retain (\<lambda>_ p. now - pp_touched p < PROFILE_TTL) peers"

definition pf_remove_peer :: "profile_reassembler \<Rightarrow> rstring \<Rightarrow> profile_reassembler" where
  "pf_remove_peer peers fingerprint = hm_remove fingerprint peers"

definition pf_start ::
  "profile_reassembler \<Rightarrow> nat \<Rightarrow> rstring \<Rightarrow> u64 \<Rightarrow> profile_header \<Rightarrow>
     profile_reassembler \<times> (string + device_profile option)" where
  "pf_start peers0 now fingerprint request_id h =
     (let width = ph_width h; height = ph_height h; total_len = ph_total_len h;
          chunks = ph_chunks h; name = ph_display_name h;
          peers = pf_expire peers0 now in
      if request_id = 0 \<or> length name > 128 \<or> width > 128 \<or> height > 128
      then (peers, Inl ''invalid profile metadata'')
      else if total_len = 0 then
        if width \<noteq> 0 \<or> height \<noteq> 0 \<or> chunks \<noteq> 0 then (peers, Inl ''invalid empty avatar'')
        else (hm_remove fingerprint peers,
              Inr (Some \<lparr>dp_display_name = name, dp_avatar = None\<rparr>))
      else if width = 0 \<or> height = 0 \<or> width * height * 4 \<noteq> total_len
         \<or> unat chunks \<noteq> div_ceil (unat total_len) MAX_PROFILE_CHUNK_SIZE
      then (peers, Inl ''invalid avatar dimensions or chunk count'')
      else let fresh = (hm_insert fingerprint
                 \<lparr>pp_request_id = request_id, pp_width = width, pp_height = height,
                  pp_chunks = replicate (unat chunks) None, pp_name = name, pp_touched = now\<rparr> peers,
               Inr None) in
      case hm_get peers fingerprint of
        Some old \<Rightarrow>
          if pp_request_id old = request_id then
            (peers, if pp_width old = width \<and> pp_height old = height \<and> pp_name old = name
                    then Inr None else Inl ''conflicting profile start'')
          else fresh
      | None \<Rightarrow>
          if length peers \<ge> MAX_PARTIALS then (peers, Inl ''too many partial profiles'')
          else fresh)"

definition pf_chunk ::
  "profile_reassembler \<Rightarrow> nat \<Rightarrow> rstring \<Rightarrow> u64 \<Rightarrow> u32 \<Rightarrow> bytes \<Rightarrow>
     profile_reassembler \<times> (string + device_profile option)" where
  "pf_chunk peers0 now fingerprint request_id index data =
     (let peers = pf_expire peers0 now in
      case hm_get peers fingerprint of
        None \<Rightarrow> (peers, Inl ''unknown profile transfer'')
      | Some partial \<Rightarrow>
          if pp_request_id partial \<noteq> request_id then (peers, Inl ''profile generation mismatch'')
          else let total_len = unat (pp_width partial * pp_height partial * 4); i = unat index in
          case checked_mul (word_of_nat i :: u64) (word_of_nat MAX_PROFILE_CHUNK_SIZE) of
            None \<Rightarrow> (peers, Inl ''invalid profile index'')
          | Some offset \<Rightarrow>
              if unat offset \<ge> total_len
                 \<or> length data \<noteq> min MAX_PROFILE_CHUNK_SIZE (total_len - unat offset)
              then (peers, Inl ''invalid profile chunk size'')
              else if i \<ge> length (pp_chunks partial)
              then (peers, Inl ''invalid profile chunk index'')
              else case pp_chunks partial ! i of
                Some existing \<Rightarrow>
                  (peers, if existing = data then Inr None else Inl ''conflicting profile chunk'')
              | None \<Rightarrow>
                  let partial' = partial\<lparr>pp_chunks := (pp_chunks partial)[i := Some data]\<rparr>;
                      peers' = hm_insert fingerprint partial' peers in
                  if None \<in> set (pp_chunks partial') then (peers', Inr None)
                  else (hm_remove fingerprint peers',
                        Inr (Some \<lparr>dp_display_name = pp_name partial',
                                   dp_avatar = Some \<lparr>av_width = pp_width partial',
                                     av_height = pp_height partial',
                                     av_rgba = concat (map the (pp_chunks partial'))\<rparr>\<rparr>)))"

section \<open>Bounds\<close>

text \<open>What a partial profile looks like: valid dimensions, a slot per slice, at least one empty.\<close>

definition avatar_len :: "u32 \<Rightarrow> u32 \<Rightarrow> nat" where
  "avatar_len w h = unat w * unat h * 4"

definition pp_wf :: "partial_profile \<Rightarrow> bool" where
  "pp_wf p \<longleftrightarrow> pp_request_id p \<noteq> 0 \<and> length (pp_name p) \<le> 128
     \<and> 0 < unat (pp_width p) \<and> unat (pp_width p) \<le> 128
     \<and> 0 < unat (pp_height p) \<and> unat (pp_height p) \<le> 128
     \<and> length (pp_chunks p) = div_ceil (avatar_len (pp_width p) (pp_height p)) MAX_PROFILE_CHUNK_SIZE
     \<and> None \<in> set (pp_chunks p)
     \<and> (\<forall>i d. i < length (pp_chunks p) \<longrightarrow> pp_chunks p ! i = Some d \<longrightarrow>
          length d = min MAX_PROFILE_CHUNK_SIZE
            (avatar_len (pp_width p) (pp_height p) - i * MAX_PROFILE_CHUNK_SIZE))"

definition pf_wf :: "profile_reassembler \<Rightarrow> bool" where
  "pf_wf peers \<longleftrightarrow> hm_ok peers \<and> length peers \<le> MAX_PARTIALS \<and> hm.every (\<lambda>_ p. pp_wf p) peers"

lemma profile_chunk_pos: "0 < MAX_PROFILE_CHUNK_SIZE"
  by (simp add: const_defs)

lemma avatar_bound: "unat w \<le> 128 \<Longrightarrow> unat h \<le> 128 \<Longrightarrow> avatar_len w h \<le> 65536"
proof -
  assume "unat w \<le> 128" "unat h \<le> 128"
  then have "unat w * unat h \<le> 128 * 128" by (rule mult_le_mono)
  then show ?thesis by (simp add: avatar_len_def mult.commute)
qed

lemma unat_avatar:
  assumes "unat w \<le> 128" and "unat h \<le> 128"
  shows "unat (w * h * 4 :: u32) = avatar_len w h"
  using avatar_bound [OF assms] by (simp add: avatar_len_def unat_word_ariths mod_simps)

lemma u32_le_128: "(w :: u32) \<le> 128 \<longleftrightarrow> unat w \<le> 128"
  by (simp add: word_le_nat_alt)

lemma u32_gt_128: "128 < (w :: u32) \<longleftrightarrow> 128 < unat w"
  by (simp add: word_less_nat_alt)

lemma u32_neq_0: "(w :: u32) \<noteq> 0 \<longleftrightarrow> 0 < unat w"
  by (simp add: unat_gt_0)

text \<open>\<open>checked_mul\<close> of a 32-bit index cannot overflow 64 bits.\<close>

lemma chunk_offset:
  fixes index :: u32
  shows "checked_mul (word_of_nat (unat index) :: u64) (word_of_nat MAX_PROFILE_CHUNK_SIZE)
     = Some (word_of_nat (unat index * MAX_PROFILE_CHUNK_SIZE))"
    and "unat (word_of_nat (unat index * MAX_PROFILE_CHUNK_SIZE) :: u64) = unat index * MAX_PROFILE_CHUNK_SIZE"
proof -
  have i: "unat index < 2 ^ 32" using unsigned_less [of index, where 'a = nat] by simp
  then have "unat index * MAX_PROFILE_CHUNK_SIZE < 2 ^ 64" by (simp add: const_defs)
  then show "unat (word_of_nat (unat index * MAX_PROFILE_CHUNK_SIZE) :: u64)
      = unat index * MAX_PROFILE_CHUNK_SIZE" by (subst unat_of_nat) simp
  have "unat (word_of_nat (unat index) :: u64) = unat index" using i by (subst unat_of_nat) simp
  moreover have "unat (word_of_nat MAX_PROFILE_CHUNK_SIZE :: u64) = MAX_PROFILE_CHUNK_SIZE"
    by (simp add: unat_of_nat const_defs)
  ultimately show "checked_mul (word_of_nat (unat index) :: u64) (word_of_nat MAX_PROFILE_CHUNK_SIZE)
     = Some (word_of_nat (unat index * MAX_PROFILE_CHUNK_SIZE))"
    using \<open>unat index * MAX_PROFILE_CHUNK_SIZE < 2 ^ 64\<close> by (simp add: checked_mul_def)
qed

lemma pf_expire_wf: "pf_wf peers \<Longrightarrow> pf_wf (pf_expire peers now)"
  using length_hm_retain [of "\<lambda>_ p. now - pp_touched p < PROFILE_TTL" peers]
  by (auto simp: pf_wf_def pf_expire_def hm_every_retain)

lemma pf_remove_wf: "pf_wf peers \<Longrightarrow> pf_wf (hm_remove k peers)"
  using length_hm_remove [of k peers] by (auto simp: pf_wf_def intro: hm.every_del)

lemma pf_insert_wf:
  "pf_wf peers \<Longrightarrow> pp_wf p \<Longrightarrow> length peers < MAX_PARTIALS \<or> hm_get peers k \<noteq> None \<Longrightarrow>
   pf_wf (hm_insert k p peers)"
  by (auto simp: pf_wf_def length_hm_insert intro: hm.every_put)

lemma pp_new_wf:
  assumes "rq \<noteq> 0" "length name \<le> 128" "0 < unat w" "unat w \<le> 128" "0 < unat h" "unat h \<le> 128"
  shows "pp_wf \<lparr>pp_request_id = rq, pp_width = w, pp_height = h,
     pp_chunks = replicate (div_ceil (avatar_len w h) MAX_PROFILE_CHUNK_SIZE) None,
     pp_name = name, pp_touched = t\<rparr>"
proof -
  have "0 < avatar_len w h" using assms by (simp add: avatar_len_def)
  then have "0 < div_ceil (avatar_len w h) MAX_PROFILE_CHUNK_SIZE"
    using div_ceil_bounds(3) [OF profile_chunk_pos] by (simp add: neq0_conv [symmetric] del: neq0_conv)
  with assms show ?thesis by (simp add: pp_wf_def)
qed

text \<open>What \<open>pf_chunk\<close> does for a partial profile that is live, branch by branch.\<close>

lemma pf_chunk_live:
  fixes index :: u32
  assumes "pf_wf peers0" and "hm_get (pf_expire peers0 now) fp = Some p"
  defines "n \<equiv> avatar_len (pp_width p) (pp_height p)" and "i \<equiv> unat index"
    and "peers \<equiv> pf_expire peers0 now"
  shows "pf_chunk peers0 now fp rq index data =
    (if pp_request_id p \<noteq> rq then (peers, Inl ''profile generation mismatch'')
     else if i \<ge> length (pp_chunks p)
        \<or> length data \<noteq> min MAX_PROFILE_CHUNK_SIZE (n - i * MAX_PROFILE_CHUNK_SIZE)
     then (peers, Inl ''invalid profile chunk size'')
     else case pp_chunks p ! i of
        Some existing \<Rightarrow>
          (peers, if existing = data then Inr None else Inl ''conflicting profile chunk'')
      | None \<Rightarrow>
          let p' = p\<lparr>pp_chunks := (pp_chunks p)[i := Some data]\<rparr> in
          if None \<in> set (pp_chunks p') then (hm_insert fp p' peers, Inr None)
          else (hm_remove fp peers,
                Inr (Some \<lparr>dp_display_name = pp_name p,
                   dp_avatar = Some \<lparr>av_width = pp_width p, av_height = pp_height p,
                     av_rgba = concat (map the (pp_chunks p'))\<rparr>\<rparr>)))"
proof -
  have p: "pp_wf p" using pf_expire_wf [OF assms(1)] assms(2)
    by (auto simp: pf_wf_def dest: hm.every_get)
  then have wh: "unat (pp_width p * pp_height p * 4) = n"
    unfolding n_def by (intro unat_avatar) (auto simp: pp_wf_def)
  have cs: "length (pp_chunks p) = div_ceil n MAX_PROFILE_CHUNK_SIZE" using p
    by (simp add: pp_wf_def n_def)
  have "i \<ge> length (pp_chunks p) \<longleftrightarrow> i * MAX_PROFILE_CHUNK_SIZE \<ge> n"
    unfolding cs using div_ceil_le_iff [OF profile_chunk_pos] by simp
  moreover have get: "hm_get peers fp = Some p" using assms(2) by (simp add: peers_def)
  moreover note chunk_offset [of index, folded i_def]
  ultimately show ?thesis
    unfolding pf_chunk_def Let_def i_def [symmetric] peers_def [symmetric]
    by (simp add: wh hm_remove_insert del: of_nat_mult split: option.split)
qed

lemma pp_store_wf:
  assumes "pp_wf p" and "i < length (pp_chunks p)"
    and "length d = min MAX_PROFILE_CHUNK_SIZE
           (avatar_len (pp_width p) (pp_height p) - i * MAX_PROFILE_CHUNK_SIZE)"
    and "None \<in> set ((pp_chunks p)[i := Some d])"
  shows "pp_wf (p\<lparr>pp_chunks := (pp_chunks p)[i := Some d]\<rparr>)"
  using assms by (auto simp: pp_wf_def nth_list_update)

lemma pf_chunk_wf: "pf_wf peers \<Longrightarrow> pf_wf (fst (pf_chunk peers now fp rq index data))"
proof (cases "hm_get (pf_expire peers now) fp")
  case None
  assume "pf_wf peers"
  with None show ?thesis by (simp add: pf_chunk_def pf_expire_wf)
next
  case (Some p)
  assume wf: "pf_wf peers"
  note e = pf_expire_wf [OF wf, of now]
  have "pp_wf p" using e Some by (auto simp: pf_wf_def dest: hm.every_get)
  with e Some show ?thesis
    unfolding pf_chunk_live [OF wf Some]
    by (auto simp: Let_def intro!: pf_insert_wf pf_remove_wf pp_store_wf split: option.split)
qed

lemma pf_start_wf:
  assumes "pf_wf peers"
  shows "pf_wf (fst (pf_start peers now fp rq h))"
proof -
  note e = pf_expire_wf [OF assms, of now]
  show ?thesis
  proof (cases "rq = 0 \<or> length (ph_display_name h) > 128 \<or> ph_width h > 128 \<or> ph_height h > 128
        \<or> ph_width h = 0 \<or> ph_height h = 0")
    case True
    with e show ?thesis by (auto simp: pf_start_def Let_def pf_remove_wf)
  next
    case False
    then have wh: "unat (ph_width h) \<le> 128" "unat (ph_height h) \<le> 128" "0 < unat (ph_width h)"
      "0 < unat (ph_height h)" by (auto simp: not_less u32_le_128 u32_neq_0 [symmetric])
    have new: "pf_wf (hm_insert fp
        \<lparr>pp_request_id = rq, pp_width = ph_width h, pp_height = ph_height h,
         pp_chunks = replicate (unat (ph_chunks h)) None, pp_name = ph_display_name h,
         pp_touched = now\<rparr> (pf_expire peers now))"
      if "unat (ph_chunks h) = div_ceil (avatar_len (ph_width h) (ph_height h)) MAX_PROFILE_CHUNK_SIZE"
        "length (pf_expire peers now) < MAX_PARTIALS \<or> hm_get (pf_expire peers now) fp \<noteq> None"
      unfolding that(1) using e that(2) False wh by (intro pf_insert_wf pp_new_wf) auto
    show ?thesis
      using e False new unat_avatar [OF wh(1,2)]
      by (auto simp: pf_start_def Let_def pf_remove_wf split: option.split)
  qed
qed

section \<open>Reassembly\<close>

text \<open>How the service hands the two profile messages of a peer to the reassembler, once it has seen that the peer was asked for its
  profile under this request id (\<open>profile_requested\<close> of \<open>Service_Peers\<close>).\<close>

definition pf_receive ::
  "rstring \<Rightarrow> profile_reassembler \<Rightarrow> nat \<times> proto_event \<Rightarrow>
     profile_reassembler \<times> (string + device_profile option)" where
  "pf_receive fp peers a = (case snd a of
     ProfileStart rq w h n c name \<Rightarrow>
       pf_start peers (fst a) fp rq \<lparr>ph_width = w, ph_height = h, ph_total_len = n, ph_chunks = c,
                                    ph_display_name = name\<rparr>
   | ProfileChunk rq i d \<Rightarrow> pf_chunk peers (fst a) fp rq i d
   | _ \<Rightarrow> (peers, Inr None))"

abbreviation avatar_slices :: "bytes \<Rightarrow> bytes list" where
  "avatar_slices rgba \<equiv> chunks_of MAX_PROFILE_CHUNK_SIZE rgba"

definition profile_slices :: "u64 \<Rightarrow> bytes \<Rightarrow> proto_event list" where
  "profile_slices rq rgba =
     map (\<lambda>(index, data). ProfileChunk rq (word_of_nat index) data) (enumerate 0 (avatar_slices rgba))"

definition profile_index :: "nat \<times> proto_event \<Rightarrow> nat" where
  "profile_index a = (case snd a of ProfileChunk rq i d \<Rightarrow> unat i | _ \<Rightarrow> 0)"

definition avatar_ok :: "peer_avatar \<Rightarrow> bool" where
  "avatar_ok a \<longleftrightarrow> 0 < unat (av_width a) \<and> unat (av_width a) \<le> 128
     \<and> 0 < unat (av_height a) \<and> unat (av_height a) \<le> 128
     \<and> length (av_rgba a) = avatar_len (av_width a) (av_height a)"

lemma length_avatar_slices:
  "length (avatar_slices rgba) = div_ceil (length rgba) MAX_PROFILE_CHUNK_SIZE"
  by (simp add: length_chunks_of profile_chunk_pos)

lemma avatar_slice_word:
  assumes "avatar_ok a" and "i < length (avatar_slices (av_rgba a))"
  shows "unat (word_of_nat i :: u32) = i"
proof -
  have "length (av_rgba a) \<le> 65536" using assms(1) avatar_bound by (simp add: avatar_ok_def)
  moreover have "length (avatar_slices (av_rgba a)) \<le> length (av_rgba a)"
    unfolding length_avatar_slices using profile_chunk_pos by (rule div_ceil_le)
  ultimately have "i \<le> 65536" using assms(2) by linarith
  then show ?thesis by (simp add: unat_of_nat)
qed

lemma profile_slices_iff:
  "e \<in> set (profile_slices rq rgba) \<longleftrightarrow> (\<exists>i < length (avatar_slices rgba).
     e = ProfileChunk rq (word_of_nat i) (avatar_slices rgba ! i))"
  by (auto simp: profile_slices_def set_enumerate image_image)

definition profile_holds ::
  "rstring \<Rightarrow> u64 \<Rightarrow> nat \<Rightarrow> rstring \<Rightarrow> peer_avatar \<Rightarrow> nat set \<Rightarrow> profile_reassembler \<Rightarrow> bool" where
  "profile_holds fp rq t0 name a S peers \<longleftrightarrow> pf_wf peers \<and> avatar_ok a
     \<and> (\<exists>p. hm_get peers fp = Some p \<and> pp_request_id p = rq \<and> pp_touched p = t0
          \<and> pp_name p = name \<and> pp_width p = av_width a \<and> pp_height p = av_height a
          \<and> slots_hold (avatar_slices (av_rgba a)) S (pp_chunks p))"

definition profile_gone :: "rstring \<Rightarrow> profile_reassembler \<Rightarrow> bool" where
  "profile_gone fp peers \<longleftrightarrow> pf_wf peers \<and> hm_get peers fp = None"

lemma pf_expire_get:
  "pf_wf peers \<Longrightarrow> hm_get (pf_expire peers now) fp =
     (case hm_get peers fp of None \<Rightarrow> None
      | Some p \<Rightarrow> if now - pp_touched p < PROFILE_TTL then Some p else None)"
  by (simp add: pf_expire_def pf_wf_def hash_map)

text \<open>One slice of the avatar at a partial profile that has not expired.\<close>

lemma profile_step:
  fixes t :: nat
  assumes h: "profile_holds fp rq t0 name a S peers" and t: "t - t0 < PROFILE_TTL"
    and i: "i < length (avatar_slices (av_rgba a))"
  defines "e \<equiv> (t, ProfileChunk rq (word_of_nat i) (avatar_slices (av_rgba a) ! i))"
    and "N \<equiv> length (avatar_slices (av_rgba a))"
  shows "i \<in> S \<Longrightarrow> \<exists>peers'. pf_receive fp peers e = (peers', Inr None)
           \<and> profile_holds fp rq t0 name a S peers'"
    and "i \<notin> S \<Longrightarrow> insert i S \<noteq> {..<N} \<Longrightarrow> \<exists>peers'. pf_receive fp peers e = (peers', Inr None)
           \<and> profile_holds fp rq t0 name a (insert i S) peers'"
    and "i \<notin> S \<Longrightarrow> insert i S = {..<N} \<Longrightarrow> \<exists>peers'. pf_receive fp peers e =
           (peers', Inr (Some \<lparr>dp_display_name = name, dp_avatar = Some a\<rparr>)) \<and> profile_gone fp peers'"
proof -
  let ?ps = "avatar_slices (av_rgba a)" and ?peers = "pf_expire peers t"
  from h obtain p where wf: "pf_wf peers" and a: "avatar_ok a" and get: "hm_get peers fp = Some p"
    and p: "pp_request_id p = rq" "pp_touched p = t0" "pp_name p = name" "pp_width p = av_width a"
      "pp_height p = av_height a" and slots: "slots_hold ?ps S (pp_chunks p)"
    by (auto simp: profile_holds_def)
  have live: "hm_get ?peers fp = Some p" using pf_expire_get [OF wf] get t p(2) by simp
  have ewf: "pf_wf ?peers" using wf by (rule pf_expire_wf)
  have w: "unat (word_of_nat i :: u32) = i" using a i by (rule avatar_slice_word)
  have len: "avatar_len (av_width a) (av_height a) = length (av_rgba a)" using a by (simp add: avatar_ok_def)
  have d: "length (?ps ! i) = min MAX_PROFILE_CHUNK_SIZE (length (av_rgba a) - i * MAX_PROFILE_CHUNK_SIZE)"
    using length_nth_chunks_of [OF profile_chunk_pos i] .
  note step = pf_chunk_live [OF wf live, where index = "word_of_nat i" and data = "?ps ! i" and rq = rq,
      unfolded w p len slots_hold_length [OF slots] d]
  let ?slots = "(pp_chunks p)[i := Some (?ps ! i)]"
  let ?p = "p\<lparr>pp_chunks := ?slots\<rparr>"
  have upd: "slots_hold ?ps (insert i S) ?slots" using slots i by (rule slots_hold_update)
  have none: "i \<notin> S \<Longrightarrow> pp_chunks p ! i = None" using slots_hold_nth [OF slots i] by simp
  show "\<exists>peers'. pf_receive fp peers e = (peers', Inr None) \<and> profile_holds fp rq t0 name a S peers'"
    if "i \<in> S"
    using that i slots_hold_nth [OF slots i] step ewf a live p slots
    by (auto simp: e_def pf_receive_def profile_holds_def)
  show "\<exists>peers'. pf_receive fp peers e = (peers', Inr None)
      \<and> profile_holds fp rq t0 name a (insert i S) peers'" if "i \<notin> S" "insert i S \<noteq> {..<N}"
  proof (intro exI conjI)
    have some: "None \<in> set ?slots" using slots_hold_all_Some [OF upd] that(2) by (auto simp: N_def)
    show "pf_receive fp peers e = (hm_insert fp ?p ?peers, Inr None)"
      using that(1) none i step some by (simp add: e_def pf_receive_def Let_def)
    have "pp_wf p" using ewf live by (auto simp: pf_wf_def dest: hm.every_get)
    then have "pp_wf ?p" using i d len p some slots_hold_length [OF slots] by (intro pp_store_wf) auto
    then have "pf_wf (hm_insert fp ?p ?peers)" using ewf live by (intro pf_insert_wf) auto
    then show "profile_holds fp rq t0 name a (insert i S) (hm_insert fp ?p ?peers)"
      using a p upd by (auto simp: profile_holds_def hash_map)
  qed
  show "\<exists>peers'. pf_receive fp peers e =
      (peers', Inr (Some \<lparr>dp_display_name = name, dp_avatar = Some a\<rparr>)) \<and> profile_gone fp peers'"
    if "i \<notin> S" "insert i S = {..<N}"
  proof (intro exI conjI)
    have full: "?slots = map Some ?ps" using upd that(2) by (simp add: slots_hold_full N_def)
    then have "concat (map the ?slots) = av_rgba a"
      by (simp add: comp_def concat_chunks_of profile_chunk_pos)
    moreover have "None \<notin> set ?slots" using full by auto
    ultimately show "pf_receive fp peers e =
        (hm_remove fp ?peers, Inr (Some \<lparr>dp_display_name = name, dp_avatar = Some a\<rparr>))"
      using that(1) none i step by (simp add: e_def pf_receive_def Let_def)
    show "profile_gone fp (hm_remove fp ?peers)"
      using pf_remove_wf [OF ewf, of fp] ewf by (simp add: profile_gone_def pf_wf_def hash_map)
  qed
qed

interpretation profile: slice_receiver
  "pf_receive fp" profile_index
  "\<lambda>x. avatar_ok a \<and> snd x \<in> set (profile_slices rq (av_rgba a)) \<and> fst x - t0 < PROFILE_TTL"
  "length (avatar_slices (av_rgba a))"
  "profile_holds fp rq t0 name a" "profile_gone fp"
  "Inr (Some \<lparr>dp_display_name = name, dp_avatar = Some a\<rparr>)"
  "\<lambda>out. \<forall>p. out \<noteq> Inr (Some p)"
proof
  fix S peers and x :: "nat \<times> proto_event"
  assume h: "profile_holds fp rq t0 name a S peers"
    and x: "avatar_ok a \<and> snd x \<in> set (profile_slices rq (av_rgba a)) \<and> fst x - t0 < PROFILE_TTL"
  from x obtain i where i: "i < length (avatar_slices (av_rgba a))"
    and e: "x = (fst x, ProfileChunk rq (word_of_nat i) (avatar_slices (av_rgba a) ! i))"
    by (cases x) (auto simp: profile_slices_iff)
  have idx: "profile_index x = i"
    using avatar_slice_word [of a i] x i by (subst e) (simp add: profile_index_def)
  note step = profile_step [OF h _ i, of "fst x", folded e]
  show "profile_index x \<in> S \<Longrightarrow> \<exists>s' q. pf_receive fp peers x = (s', q) \<and> (\<forall>p. q \<noteq> Inr (Some p)) \<and>
      profile_holds fp rq t0 name a S s'"
    using step(1) x idx by fastforce
  show "profile_index x < length (avatar_slices (av_rgba a)) \<Longrightarrow> profile_index x \<notin> S \<Longrightarrow>
      insert (profile_index x) S \<noteq> {..<length (avatar_slices (av_rgba a))} \<Longrightarrow>
      \<exists>s' q. pf_receive fp peers x = (s', q) \<and> (\<forall>p. q \<noteq> Inr (Some p)) \<and>
        profile_holds fp rq t0 name a (insert (profile_index x) S) s'"
    using step(2) x idx by fastforce
  show "profile_index x < length (avatar_slices (av_rgba a)) \<Longrightarrow> profile_index x \<notin> S \<Longrightarrow>
      insert (profile_index x) S = {..<length (avatar_slices (av_rgba a))} \<Longrightarrow>
      \<exists>s'. pf_receive fp peers x = (s', Inr (Some \<lparr>dp_display_name = name, dp_avatar = Some a\<rparr>))
        \<and> profile_gone fp s'"
    using step(3) x idx by auto
next
  fix peers and x :: "nat \<times> proto_event"
  assume g: "profile_gone fp peers"
    and "avatar_ok a \<and> snd x \<in> set (profile_slices rq (av_rgba a)) \<and> fst x - t0 < PROFILE_TTL"
  then obtain i d where x: "snd x = ProfileChunk rq i d" by (auto simp: profile_slices_iff)
  have "hm_get (pf_expire peers (fst x)) fp = None" using g by (simp add: profile_gone_def pf_expire_get)
  moreover have "pf_wf (pf_expire peers (fst x))" using g by (simp add: profile_gone_def pf_expire_wf)
  ultimately show "\<exists>s' q. pf_receive fp peers x = (s', q) \<and> (\<forall>p. q \<noteq> Inr (Some p)) \<and> profile_gone fp s'"
    by (simp add: pf_receive_def x pf_chunk_def profile_gone_def)
qed simp

text \<open>The outputs of a sequence of arriving messages.\<close>

primrec pf_receive_all ::
  "rstring \<Rightarrow> profile_reassembler \<Rightarrow> (nat \<times> proto_event) list \<Rightarrow>
     profile_reassembler \<times> (string + device_profile option) list" where
  "pf_receive_all fp peers [] = (peers, [])"
| "pf_receive_all fp peers (x # xs) = (case pf_receive fp peers x of (peers', out) \<Rightarrow>
     (case pf_receive_all fp peers' xs of (peers'', outs) \<Rightarrow> (peers'', out # outs)))"

lemma pf_receive_all_run: "pf_receive_all fp peers xs = profile.run fp peers xs"
  by (induction xs arbitrary: peers) (auto simp: profile.run.simps split: prod.splits)

definition profiles_of :: "(string + device_profile option) list \<Rightarrow> device_profile list" where
  "profiles_of outs = List.map_filter (\<lambda>out. case out of Inr (Some p) \<Rightarrow> Some p | _ \<Rightarrow> None) outs"

lemma profiles_of_Nil [simp]: "profiles_of [] = []"
  by (simp add: profiles_of_def map_filter_simps)

lemma profiles_of_Cons:
  "profiles_of (out # outs) =
     (case out of Inr (Some p) \<Rightarrow> p # profiles_of outs | _ \<Rightarrow> profiles_of outs)"
  by (auto simp: profiles_of_def map_filter_simps split: sum.splits option.splits)

lemma profiles_of_filter:
  "profiles_of (filter (\<lambda>q. \<not> (\<forall>p. q \<noteq> Inr (Some p))) outs) = profiles_of outs"
  by (induction outs) (auto simp: profiles_of_Cons split: sum.splits option.splits)

text \<open>The pixel count of bounded dimensions, computed with 64-bit checked multiplications.\<close>

lemma pixels_checked:
  assumes "unat w \<le> 128" and "unat h \<le> 128"
  shows "\<exists>n. Option.bind (checked_mul (ucast w :: u64) (ucast h)) (\<lambda>v. checked_mul v 4) = Some n
     \<and> unat n = avatar_len w h"
proof -
  have wh: "unat w * unat h \<le> 128 * 128" using assms by (rule mult_le_mono)
  then have m: "checked_mul (ucast w :: u64) (ucast h) = Some (ucast w * ucast h)"
    and pix: "unat (ucast w * ucast h :: u64) = unat w * unat h"
    by (simp_all add: checked_mul_def unat_word_ariths unat_u32_u64)
  have "unat w * unat h * 4 \<le> 65536" using wh by linarith
  then have n: "unat w * unat h * 4 < 2 ^ 64" by simp
  then have "unat (ucast w * ucast h * 4 :: u64) = avatar_len w h"
    unfolding avatar_len_def unat_word_ariths(2) [of _ 4] pix by simp
  moreover have "checked_mul (ucast w * ucast h :: u64) 4 = Some (ucast w * ucast h * 4)"
    using n unfolding checked_mul_def pix by simp
  ultimately show ?thesis using m by simp
qed

lemma profile_validate_ok:
  "profile_validate p = Inr () \<longleftrightarrow> length (dp_display_name p) \<le> 128
     \<and> (\<forall>a. dp_avatar p = Some a \<longrightarrow> avatar_ok a)"
proof (cases "dp_avatar p")
  case None
  then show ?thesis by (simp add: profile_validate_def const_defs)
next
  case (Some a)
  show ?thesis
  proof (cases "unat (av_width a) \<le> 128 \<and> unat (av_height a) \<le> 128")
    case True
    with pixels_checked [of "av_width a" "av_height a"] obtain n where
      "Option.bind (checked_mul (ucast (av_width a) :: u64) (ucast (av_height a)))
         (\<lambda>v. checked_mul v 4) = Some n" "unat n = avatar_len (av_width a) (av_height a)" by blast
    with Some True show ?thesis
      by (auto simp: profile_validate_def const_defs(1) MAX_DEVICE_PROFILE_NAME_BYTES_def
          MAX_PEER_AVATAR_DIMENSION_def avatar_ok_def u32_gt_128 unat_gt_0)
  next
    case False
    with Some show ?thesis
      by (auto simp: profile_validate_def MAX_PEER_AVATAR_DIMENSION_def avatar_ok_def u32_gt_128)
  qed
qed

text \<open>The header of a valid profile encodes.\<close>

lemma profile_start_encodes:
  assumes name: "length name \<le> 128" and rq: "rq \<noteq> 0"
    and av: "rgba = [] \<and> w = 0 \<and> h = 0 \<or> avatar_ok \<lparr>av_width = w, av_height = h, av_rgba = rgba\<rparr>"
  shows "is_ok (encode (ProfileStart rq w h (word_of_nat (length rgba))
           (word_of_nat (div_ceil (length rgba) MAX_PROFILE_CHUNK_SIZE)) name))"
proof -
  let ?n = "word_of_nat (length rgba) :: u32"
  let ?c = "word_of_nat (div_ceil (length rgba) MAX_PROFILE_CHUNK_SIZE) :: u32"
  have "\<not> profile_metadata_invalid w h ?n ?c (length name)"
  proof (cases "rgba = []")
    case True
    then have "w = 0" "h = 0" using av by (auto simp: avatar_ok_def avatar_len_def)
    with True name show ?thesis
      by (simp add: profile_metadata_invalid_def const_defs div_ceil_def checked_mul_def)
  next
    case False
    then have ok: "avatar_ok \<lparr>av_width = w, av_height = h, av_rgba = rgba\<rparr>" using av by simp
    then have wh: "unat w \<le> 128" "unat h \<le> 128" and len: "length rgba = avatar_len w h"
      by (auto simp: avatar_ok_def)
    have n: "unat ?n = avatar_len w h" "avatar_len w h \<le> 65536"
      using avatar_bound [OF wh] by (simp_all add: len unat_of_nat)
    from pixels_checked [OF wh] obtain px where px: "Option.bind (checked_mul (ucast w :: u64) (ucast h))
        (\<lambda>v. checked_mul v 4) = Some px" "unat px = avatar_len w h" by blast
    have "px = ucast ?n" using n px by (simp add: word_unat_eq_iff unat_u32_u64)
    moreover have "?c \<noteq> 0"
    proof -
      have "0 < div_ceil (length rgba) MAX_PROFILE_CHUNK_SIZE"
        using False div_ceil_bounds(3) [OF profile_chunk_pos, of "length rgba"] by simp
      moreover have "div_ceil (length rgba) MAX_PROFILE_CHUNK_SIZE \<le> 65536"
        using div_ceil_le [OF profile_chunk_pos, of "length rgba"] n(2) len by simp
      ultimately have "unat ?c \<noteq> 0" by (simp add: unat_of_nat)
      then show ?thesis by (metis unat_0)
    qed
    ultimately show ?thesis
      using px wh name n False by (auto simp: profile_metadata_invalid_def const_defs u32_gt_128)
  qed
  with rq name show ?thesis
    by (simp add: encode_def codec_defs const_defs(1) MAX_DATAGRAM_SIZE_def)
qed

text \<open>A start message that finds room opens a partial profile without slices.\<close>

lemma pf_start_opens:
  assumes wf: "pf_wf peers" and name: "length name \<le> 128" and rq: "rq \<noteq> 0" and a: "avatar_ok a"
    and new: "hm_get peers fp = None" and room: "length peers < MAX_PARTIALS"
  shows "\<exists>peers'. pf_start peers t fp rq \<lparr>ph_width = av_width a, ph_height = av_height a,
      ph_total_len = word_of_nat (length (av_rgba a)),
      ph_chunks = word_of_nat (div_ceil (length (av_rgba a)) MAX_PROFILE_CHUNK_SIZE),
      ph_display_name = name\<rparr> = (peers', Inr None) \<and> profile_holds fp rq t name a {} peers'"
    (is "\<exists>peers'. pf_start _ _ _ _ ?h = _ \<and> _")
proof -
  have wh: "unat (av_width a) \<le> 128" "unat (av_height a) \<le> 128" "0 < unat (av_width a)"
    "0 < unat (av_height a)" and len: "length (av_rgba a) = avatar_len (av_width a) (av_height a)"
    using a by (auto simp: avatar_ok_def)
  note bound = avatar_bound [OF wh(1,2)]
  have n: "unat (ph_total_len ?h) = length (av_rgba a)" using bound by (simp add: len unat_of_nat)
  have "0 < length (av_rgba a)" using wh by (simp add: len avatar_len_def)
  then have n0: "ph_total_len ?h \<noteq> 0" using n by (simp only: u32_neq_0)
  have tot: "av_width a * av_height a * 4 = ph_total_len ?h"
    using unat_avatar [OF wh(1,2)] n len by (simp only: word_unat_eq_iff)
  have "div_ceil (length (av_rgba a)) MAX_PROFILE_CHUNK_SIZE \<le> 65536"
    using div_ceil_le [OF profile_chunk_pos, of "length (av_rgba a)"] bound len by simp
  then have c: "unat (ph_chunks ?h) = div_ceil (length (av_rgba a)) MAX_PROFILE_CHUNK_SIZE"
    by (simp add: unat_of_nat)
  have e: "hm_get (pf_expire peers t) fp = None" using new by (simp add: pf_expire_get [OF wf])
  have l: "length (pf_expire peers t) < MAX_PARTIALS"
    using room length_hm_retain [of "\<lambda>_ p. t - pp_touched p < PROFILE_TTL" peers]
    by (simp add: pf_expire_def)
  let ?p = "\<lparr>pp_request_id = rq, pp_width = av_width a, pp_height = av_height a,
      pp_chunks = replicate (unat (ph_chunks ?h)) None, pp_name = name, pp_touched = t\<rparr>"
  have start: "pf_start peers t fp rq ?h = (hm_insert fp ?p (pf_expire peers t), Inr None)"
    using rq name wh n n0 tot c e l
    by (simp add: pf_start_def Let_def u32_gt_128 unat_gt_0 del: of_nat_0_eq_iff)
  have "pf_wf (fst (pf_start peers t fp rq ?h))" using wf by (rule pf_start_wf)
  then have "profile_holds fp rq t name a {} (hm_insert fp ?p (pf_expire peers t))"
    using a slots_hold_empty [of "avatar_slices (av_rgba a)"] c start
    by (simp add: profile_holds_def hash_map length_avatar_slices)
  with start show ?thesis by blast
qed

lemma profile_arrivals_cover:
  assumes ok: "avatar_ok a" and arrive: "snd ` set xs = set (profile_slices rq (av_rgba a))"
    and time: "\<forall>x \<in> set xs. fst x - t0 < PROFILE_TTL"
  defines "N \<equiv> length (avatar_slices (av_rgba a))"
  shows "\<forall>x \<in> set xs. (avatar_ok a \<and> snd x \<in> set (profile_slices rq (av_rgba a))
           \<and> fst x - t0 < PROFILE_TTL) \<and> profile_index x < N"
    and "{} \<union> profile_index ` set xs = {..<N}"
proof -
  have sl: "set (profile_slices rq (av_rgba a)) =
      (\<lambda>i. ProfileChunk rq (word_of_nat i) (avatar_slices (av_rgba a) ! i)) ` {..<N}"
    by (auto simp: profile_slices_iff N_def)
  have "profile_index ` set xs =
      (\<lambda>e. case e of ProfileChunk rq i d \<Rightarrow> unat i | _ \<Rightarrow> 0) ` (snd ` set xs)"
    by (simp add: profile_index_def image_image)
  then show img: "{} \<union> profile_index ` set xs = {..<N}"
    using ok by (simp add: arrive sl image_image avatar_slice_word N_def)
  show "\<forall>x \<in> set xs. (avatar_ok a \<and> snd x \<in> set (profile_slices rq (av_rgba a))
      \<and> fst x - t0 < PROFILE_TTL) \<and> profile_index x < N"
    using ok arrive time img by blast
qed

lemma profile_run_delivers:
  assumes wf: "pf_wf peers" and name: "length (dp_display_name p) \<le> 128" and rq: "rq \<noteq> 0"
    and a: "avatar_ok a" and new: "hm_get peers fp = None" and room: "length peers < MAX_PARTIALS"
    and xs: "snd ` set xs = set (profile_slices rq (av_rgba a))"
      "\<forall>x \<in> set xs. fst x - now < PROFILE_TTL"
  shows "profiles_of (snd (pf_receive_all fp peers ((now,
      ProfileStart rq (av_width a) (av_height a) (word_of_nat (length (av_rgba a)))
        (word_of_nat (div_ceil (length (av_rgba a)) MAX_PROFILE_CHUNK_SIZE)) (dp_display_name p)) # xs)))
    = [\<lparr>dp_display_name = dp_display_name p, dp_avatar = Some a\<rparr>]"
proof -
  let ?p = "\<lparr>dp_display_name = dp_display_name p, dp_avatar = Some a\<rparr>"
  from pf_start_opens [OF wf name rq a new room, of now] obtain peers1
    where s: "pf_start peers now fp rq \<lparr>ph_width = av_width a, ph_height = av_height a,
      ph_total_len = word_of_nat (length (av_rgba a)),
      ph_chunks = word_of_nat (div_ceil (length (av_rgba a)) MAX_PROFILE_CHUNK_SIZE),
      ph_display_name = dp_display_name p\<rparr> = (peers1, Inr None)"
    and h: "profile_holds fp rq now (dp_display_name p) a {} peers1" by blast
  have "0 < length (av_rgba a)" using a by (simp add: avatar_ok_def avatar_len_def)
  then have "0 < length (avatar_slices (av_rgba a))"
    using div_ceil_bounds(3) [OF profile_chunk_pos, of "length (av_rgba a)"]
    by (simp add: length_avatar_slices)
  then have ne: "{} \<noteq> {..<length (avatar_slices (av_rgba a))}" by (metis lessThan_iff empty_iff)
  from profile.any_order_any_duplicates [OF h ne profile_arrivals_cover [OF a xs]] obtain peers2 outs
    where "profile.run fp peers1 xs = (peers2, outs)"
    "filter (\<lambda>q. \<not> (\<forall>p. q \<noteq> Inr (Some p))) outs = [Inr (Some ?p)]" by blast
  moreover from this(2) have "profiles_of outs = [?p]"
    using profiles_of_filter [of outs] by (simp add: profiles_of_Cons)
  ultimately show ?thesis
    using s by (simp add: pf_receive_def pf_receive_all_run profiles_of_Cons)
qed

section \<open>Properties of the profile exchange\<close>

datatype pf_op =
    PfStart nat rstring u64 profile_header
  | PfChunk nat rstring u64 u32 bytes
  | PfExpire nat
  | PfRemove rstring

fun pf_op_step :: "profile_reassembler \<Rightarrow> pf_op \<Rightarrow> profile_reassembler" where
  "pf_op_step peers (PfStart now fp rq h) = fst (pf_start peers now fp rq h)"
| "pf_op_step peers (PfChunk now fp rq i d) = fst (pf_chunk peers now fp rq i d)"
| "pf_op_step peers (PfExpire now) = pf_expire peers now"
| "pf_op_step peers (PfRemove fp) = pf_remove_peer peers fp"

lemma pf_op_step_wf: "pf_wf peers \<Longrightarrow> pf_wf (pf_op_step peers op)"
  by (cases op) (simp_all add: pf_start_wf pf_chunk_wf pf_expire_wf pf_remove_peer_def pf_remove_wf)

definition stored_bytes :: "partial_profile \<Rightarrow> nat" where
  "stored_bytes p = sum_list (map (\<lambda>s. case s of None \<Rightarrow> 0 | Some d \<Rightarrow> length d) (pp_chunks p))"

lemma sum_min_slices: "(\<Sum>i<k. min m (n - i * m)) \<le> min (k * m) (n :: nat)"
proof (induction k)
  case (Suc k)
  have "min x n + min m (n - x) \<le> min (m + x) n" for x by arith
  then have "min (k * m) n + min m (n - k * m) \<le> min (Suc k * m) n" by simp
  with Suc show ?case unfolding sum.lessThan_Suc by linarith
qed simp

lemma stored_bytes_le: "pp_wf p \<Longrightarrow> stored_bytes p \<le> 65536"
proof -
  assume wf: "pp_wf p"
  let ?n = "avatar_len (pp_width p) (pp_height p)"
  let ?len = "\<lambda>s :: bytes option. case s of None \<Rightarrow> 0 | Some d \<Rightarrow> length d"
  have "stored_bytes p = (\<Sum>i<length (pp_chunks p). ?len (pp_chunks p ! i))"
    by (simp add: stored_bytes_def sum_list_sum_nth atLeast0LessThan)
  also have "\<dots> \<le> (\<Sum>i<length (pp_chunks p). min MAX_PROFILE_CHUNK_SIZE (?n - i * MAX_PROFILE_CHUNK_SIZE))"
    using wf by (intro sum_mono) (auto simp: pp_wf_def split: option.split)
  also have "\<dots> \<le> min (length (pp_chunks p) * MAX_PROFILE_CHUNK_SIZE) ?n" by (rule sum_min_slices)
  also have "\<dots> \<le> 65536" using wf avatar_bound [of "pp_width p" "pp_height p"] by (auto simp: pp_wf_def)
  finally show ?thesis .
qed

lemma hm_sum_le: "\<forall>(k, v) \<in> set m. f v \<le> c \<Longrightarrow> hm_sum f m \<le> length m * c"
  by (induction m) auto

text \<open>The profile reassembler holds at most eight partial profiles, whatever start messages, slices,
  expirations and removals arrive: each is of valid dimensions, so that all slots together hold at
  most 8 * 128 * 128 * 4 bytes, has a slot per slice, and stores only slices of their proper length.\<close>

theorem profile_partials_bounded:
  "let peers = foldl pf_op_step [] ops in
     length peers \<le> 8 \<and> hm.every (\<lambda>_ p. pp_wf p) peers \<and> hm_sum stored_bytes peers \<le> 8 * 128 * 128 * 4"
proof -
  have "pf_wf (foldl pf_op_step peers ops)" if "pf_wf peers" for peers
    using that by (induction ops arbitrary: peers) (simp_all add: pf_op_step_wf)
  then have wf: "pf_wf (foldl pf_op_step [] ops)" (is "pf_wf ?peers") by (simp add: pf_wf_def)
  then have "\<forall>(k, p) \<in> set ?peers. stored_bytes p \<le> 65536"
    by (auto simp: pf_wf_def hm_get_set dest!: hm.every_get intro: stored_bytes_le)
  then have "hm_sum stored_bytes ?peers \<le> length ?peers * 65536" by (rule hm_sum_le)
  moreover have "length ?peers \<le> 8" using wf by (simp add: pf_wf_def const_defs)
  ultimately show ?thesis using wf by (simp add: pf_wf_def Let_def)
qed

text \<open>C26: a valid profile is delivered. Every valid profile can be sent under a nonzero request id, and when
  its messages reach a receiver with room, the start message first and then all slices in any order
  and with any duplicates within the five seconds a partial profile lives, the receiver obtains
  exactly this profile, exactly once.\<close>

theorem profile_delivered:
  assumes valid: "profile_validate p = Inr ()" and rq: "rq \<noteq> 0"
    and wf: "pf_wf peers" and new: "hm_get peers fp = None" and room: "length peers < MAX_PARTIALS"
  shows "\<exists>start slices. encode_profile rq p = Inr (start # slices)
     \<and> (\<forall>arrivals. snd ` set arrivals = set slices
           \<and> (\<forall>x \<in> set arrivals. fst x - now < PROFILE_TTL) \<longrightarrow>
          profiles_of (snd (pf_receive_all fp peers ((now, start) # arrivals))) = [p])"
proof (cases "dp_avatar p")
  case None
  let ?start = "ProfileStart rq 0 0 0 0 (dp_display_name p)"
  have name: "length (dp_display_name p) \<le> 128" using valid by (simp add: profile_validate_ok)
  have enc: "encode_profile rq p = Inr [?start]"
    using profile_start_encodes [OF name rq, of "[]" 0 0] None valid
    by (auto simp: encode_profile_def is_ok_def div_ceil_def Let_def split: sum.splits)
  have "pf_receive fp peers (now, ?start) = (hm_remove fp (pf_expire peers now), Inr (Some p))"
    using rq name None by (simp add: pf_receive_def pf_start_def)
  then have "profiles_of (snd (pf_receive_all fp peers [(now, ?start)])) = [p]"
    by (simp add: profiles_of_Cons)
  with enc show ?thesis by auto
next
  case (Some a)
  have name: "length (dp_display_name p) \<le> 128" and a: "avatar_ok a"
    using valid Some by (auto simp: profile_validate_ok)
  let ?start = "ProfileStart rq (av_width a) (av_height a) (word_of_nat (length (av_rgba a)))
      (word_of_nat (div_ceil (length (av_rgba a)) MAX_PROFILE_CHUNK_SIZE)) (dp_display_name p)"
  have "avatar_ok \<lparr>av_width = av_width a, av_height = av_height a, av_rgba = av_rgba a\<rparr>" using a by (simp add: avatar_ok_def)
  then have "is_ok (encode ?start)" by (intro profile_start_encodes [OF name rq disjI2])
  then have enc: "encode_profile rq p = Inr (?start # profile_slices rq (av_rgba a))"
    using Some valid
    by (auto simp: encode_profile_def is_ok_def Let_def profile_slices_def split: sum.splits)
  have "profiles_of (snd (pf_receive_all fp peers ((now, ?start) # xs))) = [p]"
    if xs: "snd ` set xs = set (profile_slices rq (av_rgba a))"
      "\<forall>x \<in> set xs. fst x - now < PROFILE_TTL" for xs
    using profile_run_delivers [OF wf name rq a new room xs] Some by simp
  with enc show ?thesis by blast
qed

theorem profile_delivered_witness:
  "let p = \<lparr>dp_display_name = lit ''HP'',
             dp_avatar = Some \<lparr>av_width = 1, av_height = 1, av_rgba = [1, 2, 3, 4]\<rparr>\<rparr> in
   \<exists>start slices. encode_profile 7 p = Inr (start # slices)
     \<and> profiles_of (snd (pf_receive_all (lit ''f'') []
          ((0, start) # map (\<lambda>e. (1, e)) (slices @ rev slices)))) = [p]"
proof -
  let ?p = "\<lparr>dp_display_name = lit ''HP'',
             dp_avatar = Some \<lparr>av_width = 1, av_height = 1, av_rgba = [1, 2, 3, 4]\<rparr>\<rparr>"
  have "profile_validate ?p = Inr ()"
    by (simp add: profile_validate_ok avatar_ok_def avatar_len_def)
  moreover have "pf_wf []" "hm_get ([] :: profile_reassembler) (lit ''f'') = None"
    "length ([] :: profile_reassembler) < MAX_PARTIALS"
    by (simp_all add: pf_wf_def hash_map const_defs)
  ultimately obtain start slices where "encode_profile 7 ?p = Inr (start # slices)"
    and all: "\<forall>arrivals. snd ` set arrivals = set slices
           \<and> (\<forall>x \<in> set arrivals. fst x - 0 < PROFILE_TTL) \<longrightarrow>
          profiles_of (snd (pf_receive_all (lit ''f'') [] ((0, start) # arrivals))) = [?p]"
    using profile_delivered [of ?p 7 "[]" "lit ''f''" 0] by auto
  moreover have "profiles_of (snd (pf_receive_all (lit ''f'') []
          ((0, start) # map (\<lambda>e. (1, e)) (slices @ rev slices)))) = [?p]"
    by (rule all [rule_format]) (auto simp: const_defs image_image image_Un)
  ultimately show ?thesis unfolding Let_def by blast
qed

end
