(* ===== verification/Clipboard.thy ===== *)
theory Clipboard
  imports Syntra_Prelude
begin

text \<open>
  The shared desktop clipboard of \<open>crates/syntra-core/src/clipboard.rs\<close>. \<open>ClipboardState\<close>
  decides whether content read from the desktop is new; a read worker and a write worker serve the
  service through channels of capacity one. The desktop lock serialises the two workers, but the
  user can copy, and the service can queue a remote write, between any two steps of a worker.

  The system is a step relation over the state that the workers, the service and the desktop
  share. \<open>desk_remote\<close> and the flag of a sent content are ghosts: they record whether the
  desktop holds what a peer wrote there.
\<close>

datatype clipboard_content = ClipText rstring | ClipImage u32 u32 bytes

datatype observation = ObsLocal | ObsRemote | ObsUnchanged

record clipboard_state =
  cs_last :: "clipboard_content option"
  cs_remote_origin :: bool

definition cs_default :: clipboard_state where
  "cs_default = \<lparr>cs_last = None, cs_remote_origin = False\<rparr>"

definition cs_observe :: "clipboard_state \<Rightarrow> clipboard_content \<Rightarrow> clipboard_state \<times> observation" where
  "cs_observe st content =
     (if cs_last st = Some content
      then (st, if cs_remote_origin st then ObsRemote else ObsUnchanged)
      else (st\<lparr>cs_last := Some content, cs_remote_origin := False\<rparr>, ObsLocal))"

record queued_remote =
  qr_baseline :: "clipboard_content option"
  qr_content :: clipboard_content

definition cs_queue_remote :: "clipboard_state \<Rightarrow> clipboard_content \<Rightarrow> queued_remote" where
  "cs_queue_remote st content = \<lparr>qr_baseline = cs_last st, qr_content = content\<rparr>"

definition cs_commit_remote ::
  "clipboard_state \<Rightarrow> queued_remote \<Rightarrow> clipboard_content option \<Rightarrow> clipboard_state \<times> bool" where
  "cs_commit_remote st queued current =
     (if qr_baseline queued \<noteq> None \<and> qr_baseline queued \<noteq> current then (st, False)
      else (st\<lparr>cs_last := Some (qr_content queued), cs_remote_origin := True\<rparr>, True))"

section \<open>The workers\<close>

text \<open>
  The write worker: waiting for a request, after reading the desktop (the value is \<open>None\<close> when
  the read failed or there is no text or image), and after committing.
\<close>

datatype write_worker =
    WIdle
  | WRead queued_remote "clipboard_content option"
  | WCommitted queued_remote "clipboard_content option"

record clip_sys =
  sys_state :: clipboard_state
  sys_desktop :: "clipboard_content option"
  sys_desk_remote :: bool
  sys_read_request :: bool
  sys_write_queue :: "queued_remote option"
  sys_writer :: write_worker
  sys_shared :: "(clipboard_content \<times> bool) list"

definition sys_init :: "clipboard_content option \<Rightarrow> clip_sys" where
  "sys_init desktop = \<lparr>sys_state = cs_default, sys_desktop = desktop, sys_desk_remote = False,
     sys_read_request = False, sys_write_queue = None, sys_writer = WIdle, sys_shared = []\<rparr>"

text \<open>\<open>Clipboard::write\<close>: a full channel drops the request.\<close>

definition sys_write :: "clip_sys \<Rightarrow> clipboard_content \<Rightarrow> clip_sys" where
  "sys_write s content = (case sys_write_queue s of
     None \<Rightarrow> s\<lparr>sys_write_queue := Some (cs_queue_remote (sys_state s) content)\<rparr>
   | Some _ \<Rightarrow> s)"

text \<open>\<open>Clipboard::read_once\<close>.\<close>

definition sys_read_once :: "clip_sys \<Rightarrow> clip_sys" where
  "sys_read_once s = s\<lparr>sys_read_request := True\<rparr>"

text \<open>One round of the read worker whose desktop read returns \<open>result\<close>.\<close>

definition sys_read_round :: "clip_sys \<Rightarrow> clipboard_content option \<Rightarrow> clip_sys" where
  "sys_read_round s result = (case result of
     None \<Rightarrow> s\<lparr>sys_read_request := False\<rparr>
   | Some content \<Rightarrow>
       let (st, obs) = cs_observe (sys_state s) content in
       s\<lparr>sys_read_request := False, sys_state := st,
         sys_shared := sys_shared s @ (if obs = ObsLocal then [(content, sys_desk_remote s)] else [])\<rparr>)"

definition sys_commit :: "clip_sys \<Rightarrow> queued_remote \<Rightarrow> clipboard_content option \<Rightarrow> clip_sys" where
  "sys_commit s queued current =
     (let (st, ok) = cs_commit_remote (sys_state s) queued current in
      s\<lparr>sys_state := st, sys_writer := (if ok then WCommitted queued current else WIdle)\<rparr>)"

definition sys_set_ok :: "clip_sys \<Rightarrow> queued_remote \<Rightarrow> clip_sys" where
  "sys_set_ok s queued =
     s\<lparr>sys_desktop := Some (qr_content queued), sys_desk_remote := True, sys_writer := WIdle\<rparr>"

definition sys_set_failed :: "clip_sys \<Rightarrow> clipboard_content option \<Rightarrow> clip_sys" where
  "sys_set_failed s current =
     s\<lparr>sys_state := (sys_state s)\<lparr>cs_last := current, cs_remote_origin := False\<rparr>,
       sys_writer := WIdle\<rparr>"

text \<open>
  \<open>clip_step reliable\<close>: with \<open>reliable\<close>, reading the desktop returns what it holds; without it, a
  read may also fail.
\<close>

inductive clip_step :: "bool \<Rightarrow> clip_sys \<Rightarrow> clip_sys \<Rightarrow> bool" for reliable where
  user_copy: "clip_step reliable s (s\<lparr>sys_desktop := c, sys_desk_remote := False\<rparr>)"
| service_write: "clip_step reliable s (sys_write s c)"
| service_read: "clip_step reliable s (sys_read_once s)"
| read_round: "sys_read_request s \<Longrightarrow> sys_writer s = WIdle \<Longrightarrow>
    result = sys_desktop s \<or> \<not> reliable \<and> result = None \<Longrightarrow>
    clip_step reliable s (sys_read_round s result)"
| write_open_failed: "sys_writer s = WIdle \<Longrightarrow> sys_write_queue s = Some q \<Longrightarrow>
    clip_step reliable s (s\<lparr>sys_write_queue := None\<rparr>)"
| write_begin: "sys_writer s = WIdle \<Longrightarrow> sys_write_queue s = Some q \<Longrightarrow>
    current = sys_desktop s \<or> \<not> reliable \<and> current = None \<Longrightarrow>
    clip_step reliable s (s\<lparr>sys_write_queue := None, sys_writer := WRead q current\<rparr>)"
| write_commit: "sys_writer s = WRead q current \<Longrightarrow> clip_step reliable s (sys_commit s q current)"
| write_set: "sys_writer s = WCommitted q current \<Longrightarrow> clip_step reliable s (sys_set_ok s q)"
| write_failed: "sys_writer s = WCommitted q current \<Longrightarrow> clip_step reliable s (sys_set_failed s current)"

text \<open>The steps as an executable function, for concrete schedules; the flag is a failing read.\<close>

datatype clip_action =
    UserCopy "clipboard_content option" | ServiceWrite clipboard_content | ServiceRead
  | ReadRound bool | WriteOpenFailed | WriteBegin bool | WriteCommit | WriteSet | WriteFailed

fun clip_exec :: "clip_sys \<Rightarrow> clip_action \<Rightarrow> clip_sys option" where
  "clip_exec s (UserCopy c) = Some (s\<lparr>sys_desktop := c, sys_desk_remote := False\<rparr>)"
| "clip_exec s (ServiceWrite c) = Some (sys_write s c)"
| "clip_exec s ServiceRead = Some (sys_read_once s)"
| "clip_exec s (ReadRound fails) =
     (if sys_read_request s \<and> sys_writer s = WIdle
      then Some (sys_read_round s (if fails then None else sys_desktop s)) else None)"
| "clip_exec s WriteOpenFailed =
     (if sys_writer s = WIdle \<and> sys_write_queue s \<noteq> None
      then Some (s\<lparr>sys_write_queue := None\<rparr>) else None)"
| "clip_exec s (WriteBegin fails) = (case (sys_writer s, sys_write_queue s) of
     (WIdle, Some q) \<Rightarrow> Some (s\<lparr>sys_write_queue := None,
        sys_writer := WRead q (if fails then None else sys_desktop s)\<rparr>)
   | _ \<Rightarrow> None)"
| "clip_exec s WriteCommit = (case sys_writer s of
     WRead q current \<Rightarrow> Some (sys_commit s q current) | _ \<Rightarrow> None)"
| "clip_exec s WriteSet = (case sys_writer s of
     WCommitted q current \<Rightarrow> Some (sys_set_ok s q) | _ \<Rightarrow> None)"
| "clip_exec s WriteFailed = (case sys_writer s of
     WCommitted q current \<Rightarrow> Some (sys_set_failed s current) | _ \<Rightarrow> None)"

fun clip_trace :: "clip_sys \<Rightarrow> clip_action list \<Rightarrow> clip_sys option" where
  "clip_trace s [] = Some s"
| "clip_trace s (a # as) = Option.bind (clip_exec s a) (\<lambda>s'. clip_trace s' as)"

text \<open>Whether a schedule has no failing read.\<close>

definition reads_succeed :: "clip_action list \<Rightarrow> bool" where
  "reads_succeed as \<longleftrightarrow> ReadRound True \<notin> set as \<and> WriteBegin True \<notin> set as"

lemma clip_exec_step:
  "clip_exec s a = Some s' \<Longrightarrow> a \<noteq> ReadRound True \<and> a \<noteq> WriteBegin True \<or> \<not> reliable \<Longrightarrow>
   clip_step reliable s s'"
  by (cases a) (auto intro: clip_step.intros split: if_splits write_worker.splits option.splits)

lemma clip_trace_reachable:
  "clip_trace s as = Some s' \<Longrightarrow> reads_succeed as \<or> \<not> reliable \<Longrightarrow> (clip_step reliable)\<^sup>*\<^sup>* s s'"
proof (induction as arbitrary: s)
  case (Cons a as)
  then obtain s1 where e: "clip_exec s a = Some s1" and t: "clip_trace s1 as = Some s'"
    by (auto simp: bind_eq_Some_conv)
  have "clip_step reliable s s1"
    using clip_exec_step [OF e] Cons.prems(2) by (auto simp: reads_succeed_def)
  moreover have "(clip_step reliable)\<^sup>*\<^sup>* s1 s'"
    using Cons.IH [OF t] Cons.prems(2) by (auto simp: reads_succeed_def)
  ultimately show ?case by (rule converse_rtranclp_into_rtranclp)
qed simp

section \<open>No echo\<close>

text \<open>
  While the desktop holds what a peer wrote, \<open>last\<close> is that content, so that a read cannot take it
  for new; a writer that has committed remembers it to restore it.
\<close>

definition clip_inv :: "clip_sys \<Rightarrow> bool" where
  "clip_inv s \<longleftrightarrow>
     (sys_desk_remote s \<longrightarrow>
        (case sys_writer s of
           WIdle \<Rightarrow> cs_last (sys_state s) = sys_desktop s \<and> sys_desktop s \<noteq> None
         | WRead q current \<Rightarrow> cs_last (sys_state s) = sys_desktop s \<and> sys_desktop s \<noteq> None
         | WCommitted q current \<Rightarrow> current = sys_desktop s \<and> sys_desktop s \<noteq> None))
     \<and> (\<forall>q current. sys_writer s = WCommitted q current \<longrightarrow>
          cs_last (sys_state s) = Some (qr_content q))
     \<and> (\<forall>q current. sys_writer s = WRead q current \<longrightarrow> sys_desk_remote s \<longrightarrow> current = sys_desktop s)
     \<and> (\<forall>x \<in> set (sys_shared s). \<not> snd x)"

lemma clip_inv_init: "clip_inv (sys_init d)"
  by (simp add: clip_inv_def sys_init_def)

lemma clip_inv_step: "clip_step True s s' \<Longrightarrow> clip_inv s \<Longrightarrow> clip_inv s'"
proof (induction rule: clip_step.induct)
  case (read_round s result)
  then show ?case
    by (auto simp: clip_inv_def sys_read_round_def cs_observe_def split: option.split)
next
  case (write_commit s q current)
  then show ?case
    by (auto simp: clip_inv_def sys_commit_def cs_commit_remote_def Let_def)
qed (auto simp: clip_inv_def sys_write_def sys_read_once_def sys_set_ok_def sys_set_failed_def
    split: option.split write_worker.splits)

lemma clip_inv_reachable: "(clip_step True)\<^sup>*\<^sup>* s s' \<Longrightarrow> clip_inv s \<Longrightarrow> clip_inv s'"
  by (induction rule: rtranclp_induct) (auto intro: clip_inv_step)

section \<open>Properties of the clipboard\<close>

text \<open>C18: no echo. As long as reading the desktop returns what it holds, in every reachable state of the
  clipboard system (any interleaving of the user, the service and the two workers, failed opens and
  failed writes included) every content that was shared with the peers was on the desktop because
  the user put it there: what a peer wrote is never sent back.\<close>

theorem clipboard_no_echo:
  assumes "(clip_step True)\<^sup>*\<^sup>* (sys_init desktop) s" and "(content, remote) \<in> set (sys_shared s)"
  shows "\<not> remote"
proof -
  have "clip_inv s" using assms(1) clip_inv_init by (rule clip_inv_reachable)
  with assms(2) show ?thesis by (auto simp: clip_inv_def)
qed

theorem clipboard_no_echo_witness:
  "\<exists>s. (clip_step True)\<^sup>*\<^sup>* (sys_init None) s \<and> (ClipText [104], False) \<in> set (sys_shared s)
     \<and> (ClipText [104], True) \<notin> set (sys_shared s)"
proof -
  let ?as = "[UserCopy (Some (ClipText [104])), ServiceRead, ReadRound False]"
  obtain s where t: "clip_trace (sys_init None) ?as = Some s"
    and shared: "(ClipText [104], False) \<in> set (sys_shared s)"
    by (simp add: sys_read_round_def sys_read_once_def sys_init_def cs_observe_def cs_default_def)
  have "(clip_step True)\<^sup>*\<^sup>* (sys_init None) s"
    using t by (rule clip_trace_reachable) (simp add: reads_succeed_def)
  with shared clipboard_no_echo show ?thesis by blast
qed

text \<open>A stale remote write yields to the user. If the user copied something other than the baseline of a
  queued remote write before the write worker looks at the desktop, the write is dropped with the
  state unchanged, and if that copy is not the content observed last, the next read shares it.\<close>

theorem stale_remote_write_dropped:
  assumes "qr_baseline q = Some b" and "current = Some user_copy" and "user_copy \<noteq> b"
    and "cs_last st = Some b"
  shows "cs_commit_remote st q current = (st, False)
     \<and> snd (cs_observe (fst (cs_commit_remote st q current)) user_copy) = ObsLocal
     \<and> snd (cs_observe (fst (cs_observe st user_copy)) user_copy) = ObsUnchanged"
  using assms by (auto simp: cs_commit_remote_def cs_observe_def)

theorem stale_remote_write_dropped_witness:
  "let st = \<lparr>cs_last = Some (ClipText [1]), cs_remote_origin = False\<rparr>;
       q = cs_queue_remote st (ClipText [2])
   in cs_commit_remote st q (Some (ClipText [3])) = (st, False)"
  using stale_remote_write_dropped [of "cs_queue_remote \<lparr>cs_last = Some (ClipText [1]),
      cs_remote_origin = False\<rparr> (ClipText [2])" "ClipText [1]" "Some (ClipText [3])" "ClipText [3]"
      "\<lparr>cs_last = Some (ClipText [1]), cs_remote_origin = False\<rparr>"]
  by (simp add: cs_queue_remote_def)

text \<open>When reading the desktop can fail, the guarantee can be lost. On a desktop that was empty at the start, a remote write whose
  desktop read and whose setting of the clipboard both fail makes the state forget the earlier remote content that is still
  on the desktop, and the next read shares it back.\<close>

theorem clipboard_echo_after_failed_io:
  "\<exists>s c. (clip_step False)\<^sup>*\<^sup>* (sys_init None) s \<and> (c, True) \<in> set (sys_shared s)"
proof -
  let ?as = "[ServiceWrite (ClipText [1]), WriteBegin False, ServiceWrite (ClipText [2]), WriteCommit,
      WriteSet, WriteBegin True, WriteCommit, WriteFailed, ServiceRead, ReadRound False]"
  obtain s where t: "clip_trace (sys_init None) ?as = Some s"
    and echo: "(ClipText [1], True) \<in> set (sys_shared s)"
    by (simp add: sys_write_def sys_commit_def sys_set_ok_def sys_set_failed_def sys_read_once_def
        sys_read_round_def sys_init_def cs_queue_remote_def cs_commit_remote_def cs_observe_def
        cs_default_def)
  have "(clip_step False)\<^sup>*\<^sup>* (sys_init None) s" using t by (rule clip_trace_reachable) simp
  with echo show ?thesis by blast
qed

end
