(* ===== verification/Chunk_Validator.thy ===== *)
theory Chunk_Validator
  imports Proto_Validate
begin

text \<open>
  \<open>ClipboardFileChunkValidator\<close> of \<open>crates/syntra-proto/src/lib.rs\<close>: the receiver of one
  requested range of a file admits at most one chunk, inside the range, and at most one
  completion. A rejected message leaves the validator as it was (the Rust methods return before
  they assign), so a method is a function that returns the error or the new validator.
\<close>

record chunk_validator =
  cv_transfer_id :: u64
  cv_file_id :: u64
  cv_request_id :: u64
  cv_offset :: u64
  cv_length :: u64
  cv_chunk_received :: bool
  cv_chunk_end :: "u64 option"
  cv_eof :: bool
  cv_complete :: bool

definition cv_new ::
  "u64 \<Rightarrow> u64 \<Rightarrow> u64 \<Rightarrow> u64 \<Rightarrow> u64 \<Rightarrow> protocol_error + chunk_validator" where
  "cv_new transfer_id file_id request_id offset len =
     (if file_id = 0 then Inl (InvalidFileChunk ''zero file id'')
      else rbind (validate_request offset len) (\<lambda>_.
        if request_id = 0 then Inl (InvalidFileChunk ''zero request id'')
        else Inr \<lparr>cv_transfer_id = transfer_id, cv_file_id = file_id, cv_request_id = request_id,
                  cv_offset = offset, cv_length = len, cv_chunk_received = False,
                  cv_chunk_end = None, cv_eof = False, cv_complete = False\<rparr>))"

definition cv_identity :: "chunk_validator \<Rightarrow> u64 \<times> u64 \<times> u64" where
  "cv_identity v = (cv_transfer_id v, cv_file_id v, cv_request_id v)"

definition cv_validate_chunk ::
  "chunk_validator \<Rightarrow> u64 \<Rightarrow> u64 \<Rightarrow> u64 \<Rightarrow> u64 \<Rightarrow> nat \<Rightarrow> protocol_error + chunk_validator" where
  "cv_validate_chunk v transfer_id file_id request_id offset data_len =
     (if cv_complete v \<or> cv_chunk_received v then Inl (InvalidFileChunk ''duplicate chunk'')
      else if (transfer_id, file_id, request_id) \<noteq> cv_identity v
      then Inl (InvalidFileChunk ''unexpected transfer identity'')
      else if offset \<noteq> cv_offset v then Inl (InvalidFileChunk ''unexpected offset'')
      else rbind (validate_file_chunk offset data_len) (\<lambda>_.
        if data_len > unat (cv_length v)
        then Inl (InvalidFileChunk ''chunk exceeds requested length'')
        else case checked_add offset (word_of_nat data_len) of
            None \<Rightarrow> Inl LengthOverflow
          | Some chunk_end \<Rightarrow>
              Inr (v\<lparr>cv_chunk_received := True, cv_chunk_end := Some chunk_end,
                     cv_eof := (data_len < unat (cv_length v))\<rparr>)))"

definition cv_validate_complete ::
  "chunk_validator \<Rightarrow> u64 \<Rightarrow> u64 \<Rightarrow> u64 \<Rightarrow> u64 \<Rightarrow> protocol_error + chunk_validator" where
  "cv_validate_complete v transfer_id file_id request_id sz =
     (if cv_complete v then Inl (InvalidFileChunk ''duplicate completion'')
      else if (transfer_id, file_id, request_id) \<noteq> cv_identity v
      then Inl (InvalidFileChunk ''unexpected transfer identity'')
      else if cv_chunk_received v \<and> (\<not> cv_eof v \<or> cv_chunk_end v \<noteq> Some sz)
      then Inl (InvalidFileChunk ''inconsistent completion size'')
      else if \<not> cv_chunk_received v \<and> sz \<noteq> cv_offset v
      then Inl (InvalidFileChunk ''completion before end of file'')
      else rbind (validate_file_position sz) (\<lambda>_. Inr (v\<lparr>cv_complete := True\<rparr>)))"

section \<open>Invariant\<close>

text \<open>
  The range lies within the size limit; a received chunk ends inside it, and it is short exactly
  when the end of the file has been seen.
\<close>

definition cv_wf :: "chunk_validator \<Rightarrow> bool" where
  "cv_wf v \<longleftrightarrow> cv_file_id v \<noteq> 0 \<and> cv_request_id v \<noteq> 0
     \<and> 0 < unat (cv_length v) \<and> unat (cv_length v) \<le> MAX_CLIPBOARD_FILE_CHUNK_SIZE
     \<and> unat (cv_offset v) + unat (cv_length v) \<le> MAX_CLIPBOARD_SIZE
     \<and> (case cv_chunk_end v of
          None \<Rightarrow> \<not> cv_chunk_received v \<and> \<not> cv_eof v
        | Some end \<Rightarrow> cv_chunk_received v \<and> unat (cv_offset v) < unat end
            \<and> unat end \<le> unat (cv_offset v) + unat (cv_length v)
            \<and> (cv_eof v \<longleftrightarrow> unat end < unat (cv_offset v) + unat (cv_length v)))"

lemma cv_new_wf: "cv_new t f r x l = Inr v \<Longrightarrow> cv_wf v"
  by (auto simp: cv_new_def rbind_eq_Inr_iff validate_request_ok cv_wf_def split: if_splits)

lemma cv_validate_chunk_Inr:
  assumes "cv_wf v" and "cv_validate_chunk v t f r x n = Inr v'"
  shows "cv_wf v'" and "\<not> cv_complete v" and "\<not> cv_chunk_received v" and "cv_chunk_received v'"
    and "(t, f, r) = cv_identity v" and "x = cv_offset v" and "0 < n" and "n \<le> unat (cv_length v)"
    and "cv_identity v' = cv_identity v" and "cv_complete v' = cv_complete v"
    and "cv_chunk_end v' = Some (x + word_of_nat n)" and "unat (x + word_of_nat n) = unat x + n"
proof -
  from assms(2) obtain c where ok: "\<not> cv_complete v" "\<not> cv_chunk_received v"
    "(t, f, r) = cv_identity v" "x = cv_offset v" "n \<le> unat (cv_length v)"
    and chunk: "validate_file_chunk x n = Inr ()"
    and c: "checked_add x (word_of_nat n) = Some c"
    and v': "v' = v\<lparr>cv_chunk_received := True, cv_chunk_end := Some c,
                    cv_eof := (n < unat (cv_length v))\<rparr>"
    by (auto simp: cv_validate_chunk_def rbind_eq_Inr_iff split: if_splits option.splits)
  have n: "0 < n" "unat x + n \<le> MAX_CLIPBOARD_SIZE" using chunk by (auto simp: validate_file_chunk_ok)
  then have "unat (word_of_nat n :: u64) = n" by (simp add: unat_of_nat const_defs)
  with c have "unat c = unat x + n" by (simp add: checked_add_Some_iff)
  moreover from c have "c = x + word_of_nat n" by (simp add: checked_add_def split: if_splits)
  ultimately show "cv_wf v'" and "\<not> cv_complete v" and "\<not> cv_chunk_received v"
    and "cv_chunk_received v'" and "(t, f, r) = cv_identity v" and "x = cv_offset v" and "0 < n"
    and "n \<le> unat (cv_length v)" and "cv_identity v' = cv_identity v"
    and "cv_complete v' = cv_complete v" and "cv_chunk_end v' = Some (x + word_of_nat n)"
    and "unat (x + word_of_nat n) = unat x + n"
    using assms(1) ok n v' by (auto simp: cv_wf_def cv_identity_def split: option.splits)
qed

lemma cv_validate_complete_Inr:
  assumes "cv_validate_complete v t f r sz = Inr v'"
  shows "v' = v\<lparr>cv_complete := True\<rparr>" and "\<not> cv_complete v" and "(t, f, r) = cv_identity v"
    and "cv_chunk_received v \<Longrightarrow> cv_eof v \<and> cv_chunk_end v = Some sz"
    and "\<not> cv_chunk_received v \<Longrightarrow> sz = cv_offset v"
  using assms by (auto simp: cv_validate_complete_def rbind_eq_Inr_iff split: if_splits)

lemma cv_validate_complete_wf: "cv_wf v \<Longrightarrow> cv_validate_complete v t f r sz = Inr v' \<Longrightarrow> cv_wf v'"
  by (auto dest!: cv_validate_complete_Inr(1) simp: cv_wf_def split: option.splits)

section \<open>Sequences of messages\<close>

datatype cv_message = CvChunk u64 u64 u64 u64 nat | CvComplete u64 u64 u64 u64

fun cv_receive :: "chunk_validator \<Rightarrow> cv_message \<Rightarrow> protocol_error + chunk_validator" where
  "cv_receive v (CvChunk t f r x n) = cv_validate_chunk v t f r x n"
| "cv_receive v (CvComplete t f r sz) = cv_validate_complete v t f r sz"

text \<open>The messages of a sequence that the validator accepts, in order.\<close>

fun cv_accepted :: "chunk_validator \<Rightarrow> cv_message list \<Rightarrow> cv_message list" where
  "cv_accepted v [] = []"
| "cv_accepted v (m # ms) =
     (case cv_receive v m of Inl e \<Rightarrow> cv_accepted v ms | Inr v' \<Rightarrow> m # cv_accepted v' ms)"

lemma cv_accepted_complete: "cv_complete v \<Longrightarrow> cv_accepted v ms = []"
proof (induction ms)
  case (Cons m ms)
  then show ?case
    by (cases m) (auto simp: cv_validate_chunk_def cv_validate_complete_def)
qed simp

lemma cv_accepted_after_chunk:
  assumes "cv_wf v" and "cv_chunk_received v"
  shows "cv_accepted v ms = [] \<or> (\<exists>t f r sz. (t, f, r) = cv_identity v \<and> cv_eof v
           \<and> cv_chunk_end v = Some sz \<and> cv_accepted v ms = [CvComplete t f r sz])"
  using assms
proof (induction ms)
  case (Cons m ms)
  show ?case
  proof (cases m)
    case (CvChunk t f r x n)
    then have "cv_receive v m = Inl (InvalidFileChunk ''duplicate chunk'')"
      using Cons.prems by (simp add: cv_validate_chunk_def)
    with Cons show ?thesis by simp
  next
    case (CvComplete t f r sz)
    show ?thesis
    proof (cases "cv_receive v m")
      case (Inl e)
      with Cons show ?thesis by simp
    next
      case (Inr v')
      with CvComplete have "cv_validate_complete v t f r sz = Inr v'" by simp
      note d = cv_validate_complete_Inr [OF this]
      have "cv_complete v'" using d(1) by simp
      then have "cv_accepted v (m # ms) = [CvComplete t f r sz]"
        using Inr CvComplete by (simp add: cv_accepted_complete)
      with d Cons.prems(2) show ?thesis by blast
    qed
  qed
qed simp

lemma cv_accepted_fresh:
  assumes "cv_wf v" and "\<not> cv_chunk_received v" and "\<not> cv_complete v"
    and id: "cv_identity v = (t, f, r)"
  shows "cv_accepted v ms = [] \<or> cv_accepted v ms = [CvComplete t f r (cv_offset v)]
    \<or> (\<exists>n. 0 < n \<and> n \<le> unat (cv_length v)
         \<and> (cv_accepted v ms = [CvChunk t f r (cv_offset v) n]
            \<or> n < unat (cv_length v) \<and> cv_accepted v ms =
                [CvChunk t f r (cv_offset v) n, CvComplete t f r (cv_offset v + word_of_nat n)]))"
  using assms
proof (induction ms)
  case (Cons m ms)
  show ?case
  proof (cases "cv_receive v m")
    case (Inl e)
    with Cons show ?thesis by simp
  next
    case (Inr v')
    show ?thesis
    proof (cases m)
      case (CvComplete t' f' r' sz)
      with Inr have "cv_validate_complete v t' f' r' sz = Inr v'" by simp
      note d = cv_validate_complete_Inr [OF this]
      have "cv_complete v'" using d(1) by simp
      then show ?thesis using Inr CvComplete d Cons.prems by (simp add: cv_accepted_complete)
    next
      case (CvChunk t' f' r' x n)
      with Inr have "cv_validate_chunk v t' f' r' x n = Inr v'" by simp
      note d = cv_validate_chunk_Inr [OF Cons.prems(1) this]
      have eof: "cv_eof v' \<Longrightarrow> n < unat (cv_length v)"
        using \<open>cv_validate_chunk v t' f' r' x n = Inr v'\<close>
        by (auto simp: cv_validate_chunk_def rbind_eq_Inr_iff split: if_splits option.splits)
      from cv_accepted_after_chunk [OF d(1) d(4), of ms] d eof Inr CvChunk Cons.prems show ?thesis
        by auto
    qed
  qed
qed simp

section \<open>Properties of the validator\<close>

text \<open>Whatever messages arrive for a requested range, in whatever order and however often, the
  validator accepts at most one chunk, which starts at the requested offset and is not longer than
  the request, followed by at most one completion; a completion is accepted without a chunk only at
  the requested offset, and after a chunk only when the chunk was shorter than requested and
  the announced size is where it ended.\<close>

theorem validator_accepts_one_chunk:
  assumes "cv_new t f r x l = Inr v"
  shows "cv_accepted v ms = [] \<or> cv_accepted v ms = [CvComplete t f r x]
    \<or> (\<exists>n. 0 < n \<and> n \<le> unat l \<and> unat x + n \<le> MAX_CLIPBOARD_SIZE
         \<and> (cv_accepted v ms = [CvChunk t f r x n]
            \<or> n < unat l \<and> cv_accepted v ms =
                [CvChunk t f r x n, CvComplete t f r (x + word_of_nat n)]))"
proof -
  have wf: "cv_wf v" using assms by (rule cv_new_wf)
  have v: "\<not> cv_chunk_received v" "\<not> cv_complete v" "cv_identity v = (t, f, r)" "cv_offset v = x"
    "cv_length v = l"
    using assms by (auto simp: cv_new_def rbind_eq_Inr_iff cv_identity_def split: if_splits)
  have "unat x + unat l \<le> MAX_CLIPBOARD_SIZE" using wf v by (simp add: cv_wf_def)
  with cv_accepted_fresh [OF wf v(1,2,3), of ms] v show ?thesis by fastforce
qed

theorem validator_accepts_one_chunk_witness:
  "\<exists>v. cv_new 7 1 9 100 50 = Inr v \<and>
     cv_accepted v [CvChunk 7 1 8 100 20, CvChunk 7 1 9 100 20, CvChunk 7 1 9 100 20,
       CvComplete 7 1 9 150, CvComplete 7 1 9 120] = [CvChunk 7 1 9 100 20, CvComplete 7 1 9 120]
   \<and> (\<forall>ms. length (cv_accepted v ms) \<le> 2)"
proof -
  obtain v where v: "cv_new 7 1 9 100 50 = Inr v"
    by (simp add: cv_new_def validate_request_def validate_file_position_def checked_add_def
        const_defs)
  have "length (cv_accepted v ms) \<le> 2" for ms
    using validator_accepts_one_chunk [OF v, of ms] by auto
  moreover have "cv_accepted v [CvChunk 7 1 8 100 20, CvChunk 7 1 9 100 20, CvChunk 7 1 9 100 20,
       CvComplete 7 1 9 150, CvComplete 7 1 9 120] = [CvChunk 7 1 9 100 20, CvComplete 7 1 9 120]"
    using v by (auto simp: cv_new_def validate_request_def validate_file_position_def checked_add_def
        const_defs cv_validate_chunk_def cv_validate_complete_def cv_identity_def
        validate_file_chunk_def)
  ultimately show ?thesis using v by blast
qed

text \<open>After a chunk of exactly the requested length no completion is accepted, whatever size it
  announces: a file whose last chunk fills its request cannot be completed through
  \<open>validate_complete\<close>.\<close>

theorem full_chunk_blocks_completion:
  assumes "cv_wf v" and "cv_validate_chunk v t f r x n = Inr v'" and "n = unat (cv_length v)"
  shows "cv_validate_complete v' t f r sz = Inl (InvalidFileChunk ''inconsistent completion size'')"
proof -
  note d = cv_validate_chunk_Inr [OF assms(1,2)]
  have "\<not> cv_eof v'" using assms(2,3)
    by (auto simp: cv_validate_chunk_def rbind_eq_Inr_iff split: if_splits option.splits)
  with d show ?thesis by (simp add: cv_validate_complete_def)
qed

theorem full_chunk_blocks_completion_witness:
  "\<exists>v v'. cv_new 7 1 9 100 50 = Inr v \<and> cv_validate_chunk v 7 1 9 100 50 = Inr v'
    \<and> cv_validate_complete v' 7 1 9 150 = Inl (InvalidFileChunk ''inconsistent completion size'')"
proof -
  obtain v where v: "cv_new 7 1 9 100 50 = Inr v"
    by (simp add: cv_new_def validate_request_def validate_file_position_def checked_add_def
        const_defs)
  then obtain v' where v': "cv_validate_chunk v 7 1 9 100 50 = Inr v'"
    by (auto simp: cv_new_def validate_request_def validate_file_position_def checked_add_def
        const_defs cv_validate_chunk_def cv_identity_def validate_file_chunk_def)
  have "unat (cv_length v) = 50" using v
    by (auto simp: cv_new_def rbind_eq_Inr_iff split: if_splits)
  with full_chunk_blocks_completion [OF cv_new_wf [OF v] v'] v v' show ?thesis by fastforce
qed

end
