(* ===== verification/Transfer_State.thy ===== *)
theory Transfer_State
  imports Chunk_Validator Hash_Map
begin

text \<open>
  \<open>TransferState\<close> of \<open>crates/syntra-core/src/transfer_manager.rs\<close>: the state machine of the
  clipboard file transfers. It keeps the local offers served to peers, the remote offers published
  to the adapter plugins, the pending range requests of both sides, and the indices from adapter
  transfers and from user-interface ids to owners. Its operations return the actions that the
  service executes: messages to peers, messages to adapters, events for the frontend, reads of
  source files.

  An operation returns the new state together with its result, because some of them have changed
  the state when they report an error. The plugin messages are those of
  \<open>crates/syntra-plugin-api/src/lib.rs\<close> that this module sends. Code outside the repository is a
  parameter: \<open>sha256\<close> (the digest of the bytes hashed so far; a hasher is the bytes it has been
  fed) and \<open>b64\<close> (Base64). The sources of an offer and an open file belong to
  \<open>file_transfer.rs\<close> and are opaque here (the type variable \<open>'s\<close>).

  A \<open>HashSet\<close> of owners is a list without duplicates in order of insertion; Rust leaves its
  order of iteration open, and no theorem depends on it.
\<close>

section \<open>Data\<close>

record 'p transfer_owner =
  ow_peer :: 'p
  ow_wire_id :: u64

datatype operation = OpCopy | OpMove

record 's file_offer =
  fo_transfer_id :: u64
  fo_entries :: "clipboard_manifest_entry list"
  fo_sources :: 's

record 's outgoing_file =
  of_file_id :: u64
  of_handle :: 's

record 'p pending_range_key =
  pk_owner :: "'p transfer_owner"
  pk_file_id :: u64
  pk_request_id :: u64
  pk_offset :: u64
  pk_length :: u64

record remote_entry =
  re_entry_id :: u64
  re_path :: rstring
  re_kind :: clipboard_entry_kind
  re_size :: "u64 option"

datatype adapter_message =
    MsgRemoteManifest rstring operation "remote_entry list"
  | MsgRangeResponse rstring u64 u64 rstring bool "rstring option"
  | MsgPublishFileClipboard rstring operation "rstring list"
  | MsgUnmounted rstring bool "rstring option"
  | MsgCancel rstring

datatype frontend_event =
    FeProgress u64 u64 u64
  | FeCompleted u64 "u64 option" u64 u64
  | FeCancelled u64 "u64 option" u64 u64
  | FeFailed u64 "u64 option" u64 u64 rstring

datatype (plugins only: code) ('p, 's) transfer_action =
    ActPeer 'p proto_event
  | ActAdapter rstring adapter_message
  | ActFrontend frontend_event
  | ActReadSource "'p transfer_owner" u64 u64 u64 u64 "'s file_offer"

datatype (plugins only: code) 'p transfer_error =
    UnknownOwner "'p transfer_owner"
  | UnknownAdapterTransfer rstring rstring
  | DuplicateOwner "'p transfer_owner"
  | DuplicateAdapterTransfer rstring rstring
  | DuplicateUiId u64
  | UiIdExhausted
  | UnknownFile "'p transfer_owner" u64
  | UnknownRequest "'p transfer_owner" u64 u64
  | DuplicateRequest "'p transfer_owner" u64 u64
  | TsInvalidManifest string
  | InvalidRange string
  | TsProtocol protocol_error
  | DigestMismatch "'p transfer_owner" u64
  | UnsupportedProtocolEvent

record 's local_transfer =
  lt_ui_id :: u64
  lt_adapter_id :: rstring
  lt_adapter_transfer_id :: rstring
  lt_offer :: "'s file_offer"
  lt_outgoing :: "(u64 \<times> u64, 's outgoing_file) hash_map"
  lt_announced :: bool
  lt_transferred_by_file :: "(u64, u64) hash_map"

record remote_transfer =
  rt_ui_id :: u64
  rt_adapter_id :: rstring
  rt_adapter_transfer_id :: rstring
  rt_operation :: operation
  rt_entries :: "(u64, clipboard_manifest_entry) hash_map"
  rt_announced :: bool
  rt_transferred_by_file :: "(u64, u64) hash_map"

record 'p pending_range =
  pg_key :: "'p pending_range_key"
  pg_validator :: chunk_validator
  pg_received :: u64
  pg_hasher :: bytes
  pg_chunk :: bytes

type_synonym 'p request_index = "'p transfer_owner \<times> u64 \<times> u64"

record ('p, 's) transfer_state =
  ts_next_ui_id :: u64
  ts_local :: "('p transfer_owner, 's local_transfer) hash_map"
  ts_remote :: "('p transfer_owner, remote_transfer) hash_map"
  ts_pending :: "('p request_index, 'p pending_range) hash_map"
  ts_adapter_to_owner :: "(rstring \<times> rstring, 'p transfer_owner list) hash_map"
  ts_source_pending :: "('p request_index, u64 \<times> u64) hash_map"
  ts_ui_to_owner :: "(u64, 'p transfer_owner) hash_map"
  ts_file_clipboard_adapter :: rstring

type_synonym ('p, 's) ts_result =
  "('p, 's) transfer_state \<times> ('p transfer_error + ('p, 's) transfer_action list)"

definition ts_default :: "('p, 's) transfer_state" where
  "ts_default = \<lparr>ts_next_ui_id = 1, ts_local = [], ts_remote = [], ts_pending = [],
     ts_adapter_to_owner = [], ts_source_pending = [], ts_ui_to_owner = [],
     ts_file_clipboard_adapter = []\<rparr>"

definition ts_set_file_clipboard_adapter ::
  "('p, 's) transfer_state \<Rightarrow> rstring \<Rightarrow> ('p, 's) transfer_state" where
  "ts_set_file_clipboard_adapter s adapter_id = s\<lparr>ts_file_clipboard_adapter := adapter_id\<rparr>"

section \<open>Validation\<close>

text \<open>The message of the last range error also names the numbers, which the model leaves out.\<close>

definition ts_validate_range :: "u64 \<Rightarrow> u64 \<Rightarrow> u64 \<Rightarrow> 'p transfer_error + unit" where
  "ts_validate_range sz offset len =
     (if len = 0 \<or> unat len > MAX_CLIPBOARD_FILE_CHUNK_SIZE
      then Inl (InvalidRange ''length is zero or exceeds one wire chunk'')
      else case checked_add offset len of
        None \<Rightarrow> Inl (InvalidRange ''range overflows u64'')
      | Some end \<Rightarrow>
          if offset > sz \<or> end > sz then Inl (InvalidRange ''range exceeds file size'')
          else Inr ())"

fun validate_wire_entries ::
  "u64 set \<Rightarrow> rstring set \<Rightarrow> u64 \<Rightarrow> clipboard_manifest_entry list \<Rightarrow> 'p transfer_error + unit" where
  "validate_wire_entries ids paths tot [] = Inr ()"
| "validate_wire_entries ids paths tot (e # es) =
     (if me_file_id e = 0 \<or> me_file_id e \<in> ids
      then Inl (TsInvalidManifest ''zero or duplicate file id'')
      else if me_path e = [] \<or> length (me_path e) > MAX_CLIPBOARD_PATH_SIZE \<or> me_path e \<in> paths
      then Inl (TsInvalidManifest ''empty, oversized, or duplicate path'')
      else if starts_with_byte 0x2F (me_path e)
         \<or> list_ex (\<lambda>part. part = [] \<or> part = lit ''.'' \<or> part = lit ''..'')
              (split_on 0x2F (me_path e))
      then Inl (TsInvalidManifest ''unsafe relative path'')
      else if me_kind e = Directory \<and> me_size e \<noteq> 0
      then Inl (TsInvalidManifest ''directory has non-zero size'')
      else case checked_add tot (me_size e) of
        None \<Rightarrow> Inl (TsInvalidManifest ''manifest size overflow'')
      | Some tot' \<Rightarrow>
          if unat tot' > MAX_CLIPBOARD_SIZE
          then Inl (TsInvalidManifest ''manifest exceeds transfer size limit'')
          else validate_wire_entries (insert (me_file_id e) ids) (insert (me_path e) paths) tot' es)"

definition validate_wire_manifest :: "clipboard_manifest_entry list \<Rightarrow> 'p transfer_error + unit" where
  "validate_wire_manifest entries =
     (if entries = [] \<or> length entries > MAX_CLIPBOARD_MANIFEST_ENTRIES
      then Inl (TsInvalidManifest ''invalid entry count'')
      else validate_wire_entries {} {} 0 entries)"

definition ts_ensure_owner_available ::
  "('p, 's) transfer_state \<Rightarrow> 'p transfer_owner \<Rightarrow> 'p transfer_error + unit" where
  "ts_ensure_owner_available s owner =
     (if hm_get (ts_local s) owner \<noteq> None \<or> hm_get (ts_remote s) owner \<noteq> None
      then Inl (DuplicateOwner owner) else Inr ())"

definition ts_ensure_ids_available ::
  "('p, 's) transfer_state \<Rightarrow> 'p transfer_owner \<Rightarrow> rstring \<Rightarrow> rstring \<Rightarrow> 'p transfer_error + unit" where
  "ts_ensure_ids_available s owner adapter_id transfer_id =
     rbind (ts_ensure_owner_available s owner) (\<lambda>_.
       if hm_get (ts_adapter_to_owner s) (adapter_id, transfer_id) \<noteq> None
       then Inl (DuplicateAdapterTransfer adapter_id transfer_id) else Inr ())"

section \<open>Indices\<close>

definition ts_owners_for_adapter ::
  "('p, 's) transfer_state \<Rightarrow> rstring \<Rightarrow> rstring \<Rightarrow> 'p transfer_owner list" where
  "ts_owners_for_adapter s adapter_id transfer_id =
     (case hm_get (ts_adapter_to_owner s) (adapter_id, transfer_id) of
        None \<Rightarrow> [] | Some owners \<Rightarrow> owners)"

text \<open>
  \<open>allocate_ui_id\<close>: the loop tries the ids after the last one, from the largest back to 1, until
  it finds one that is not in use. It ends after at most one more round than ids are in use, which
  the fuel allows for; that it then returns an id is \<open>allocate_ui_id_ok\<close>.
\<close>

definition next_id :: "u64 \<Rightarrow> u64" where
  "next_id ui = (case checked_add ui 1 of None \<Rightarrow> 1 | Some n \<Rightarrow> n)"

fun allocate_loop ::
  "nat \<Rightarrow> u64 \<Rightarrow> (u64, 'o) hash_map \<Rightarrow> u64 \<Rightarrow> u64 \<times> ('p transfer_error + u64)" where
  "allocate_loop 0 start used next = (next, Inl UiIdExhausted)"
| "allocate_loop (Suc fuel) start used next =
     (let ui = next; next' = next_id next in
      if ui \<noteq> 0 \<and> hm_get used ui = None then (next', Inr ui)
      else if next' = start then (next', Inl UiIdExhausted)
      else allocate_loop fuel start used next')"

definition ts_allocate_ui_id ::
  "('p, 's) transfer_state \<Rightarrow> ('p, 's) transfer_state \<times> ('p transfer_error + u64)" where
  "ts_allocate_ui_id s =
     (let (n, r) = allocate_loop (Suc (length (ts_ui_to_owner s))) (ts_next_ui_id s)
                     (ts_ui_to_owner s) (ts_next_ui_id s)
      in (s\<lparr>ts_next_ui_id := n\<rparr>, r))"

definition ts_insert_mapping ::
  "('p, 's) transfer_state \<Rightarrow> u64 \<Rightarrow> 'p transfer_owner \<Rightarrow> rstring \<Rightarrow> rstring \<Rightarrow> ('p, 's) transfer_state" where
  "ts_insert_mapping s ui_id owner adapter_id transfer_id =
     (let owners = ts_owners_for_adapter s adapter_id transfer_id in
      s\<lparr>ts_ui_to_owner := hm_insert ui_id owner (ts_ui_to_owner s),
        ts_adapter_to_owner := hm_insert (adapter_id, transfer_id)
          (if owner \<in> set owners then owners else owners @ [owner]) (ts_adapter_to_owner s)\<rparr>)"

definition ts_transfer_totals ::
  "('p, 's) transfer_state \<Rightarrow> 'p transfer_owner \<Rightarrow> u64 \<times> u64" where
  "ts_transfer_totals s owner = (case hm_get (ts_local s) owner of
     Some t \<Rightarrow> (sum_list (map snd (lt_transferred_by_file t)),
                sum_list (map me_size (fo_entries (lt_offer t))))
   | None \<Rightarrow> (case hm_get (ts_remote s) owner of
       Some t \<Rightarrow> (sum_list (map snd (rt_transferred_by_file t)),
                  sum_list (map (\<lambda>e. me_size (snd e)) (rt_entries t)))
     | None \<Rightarrow> (0, 0)))"

definition ts_transfer_ui_id ::
  "('p, 's) transfer_state \<Rightarrow> 'p transfer_owner \<Rightarrow> u64 option" where
  "ts_transfer_ui_id s owner = (case hm_get (ts_local s) owner of
     Some t \<Rightarrow> Some (lt_ui_id t)
   | None \<Rightarrow> map_option rt_ui_id (hm_get (ts_remote s) owner))"

definition ts_remove_owner ::
  "('p, 's) transfer_state \<Rightarrow> 'p transfer_owner \<Rightarrow> ('p, 's) transfer_state" where
  "ts_remove_owner s owner =
     (let ui_id = ts_transfer_ui_id s owner;
          in_local = (hm_get (ts_local s) owner \<noteq> None) in
      s\<lparr>ts_local := hm_remove owner (ts_local s),
        ts_remote := (if in_local then ts_remote s else hm_remove owner (ts_remote s)),
        ts_ui_to_owner := (case ui_id of None \<Rightarrow> ts_ui_to_owner s
           | Some u \<Rightarrow> hm_remove u (ts_ui_to_owner s)),
        ts_adapter_to_owner :=
          hm_retain (\<lambda>_ owners. owners \<noteq> [])
            (map (\<lambda>(k, owners). (k, filter (\<lambda>o'. o' \<noteq> owner) owners)) (ts_adapter_to_owner s)),
        ts_pending := hm_retain (\<lambda>(candidate, _, _) _. candidate \<noteq> owner) (ts_pending s),
        ts_source_pending :=
          hm_retain (\<lambda>(candidate, _, _) _. candidate \<noteq> owner) (ts_source_pending s)\<rparr>)"

section \<open>Cancelling\<close>

definition ts_announced :: "('p, 's) transfer_state \<Rightarrow> 'p transfer_owner \<Rightarrow> bool" where
  "ts_announced s owner = (case hm_get (ts_local s) owner of
     Some t \<Rightarrow> lt_announced t
   | None \<Rightarrow> (case hm_get (ts_remote s) owner of Some t \<Rightarrow> rt_announced t | None \<Rightarrow> False))"

definition ts_adapter_ids ::
  "('p, 's) transfer_state \<Rightarrow> 'p transfer_owner \<Rightarrow> (u64 \<times> rstring \<times> rstring) option" where
  "ts_adapter_ids s owner = (case hm_get (ts_local s) owner of
     Some t \<Rightarrow> Some (lt_ui_id t, lt_adapter_id t, lt_adapter_transfer_id t)
   | None \<Rightarrow> (case hm_get (ts_remote s) owner of
       Some t \<Rightarrow> Some (rt_ui_id t, rt_adapter_id t, rt_adapter_transfer_id t)
     | None \<Rightarrow> None))"

definition ts_file_known :: "('p, 's) transfer_state \<Rightarrow> 'p transfer_owner \<Rightarrow> u64 \<Rightarrow> bool" where
  "ts_file_known s owner file_id = (case hm_get (ts_local s) owner of
     Some t \<Rightarrow> list_ex (\<lambda>e. me_file_id e = file_id) (fo_entries (lt_offer t))
   | None \<Rightarrow> (case hm_get (ts_remote s) owner of
       Some t \<Rightarrow> hm_get (rt_entries t) file_id \<noteq> None | None \<Rightarrow> False))"

definition ts_drop_file ::
  "('p, 's) transfer_state \<Rightarrow> 'p transfer_owner \<Rightarrow> u64 \<Rightarrow> ('p, 's) transfer_state" where
  "ts_drop_file s owner file_id =
     (let keep = (\<lambda>(candidate, candidate_file, _) _. candidate \<noteq> owner \<or> candidate_file \<noteq> file_id) in
      s\<lparr>ts_pending := hm_retain keep (ts_pending s),
        ts_source_pending :=
          hm_retain (\<lambda>(candidate, candidate_file, _) _. candidate \<noteq> owner \<or> candidate_file \<noteq> file_id)
            (ts_source_pending s),
        ts_local := (case hm_get (ts_local s) owner of
            None \<Rightarrow> ts_local s
          | Some t \<Rightarrow> hm_insert owner (t\<lparr>lt_outgoing :=
              hm_retain (\<lambda>(candidate_file, _) _. candidate_file \<noteq> file_id) (lt_outgoing t)\<rparr>)
              (ts_local s))\<rparr>)"

definition ts_cancel_owner ::
  "('p, 's) transfer_state \<Rightarrow> 'p transfer_owner \<Rightarrow> u64 option \<Rightarrow> clipboard_cancel_reason \<Rightarrow> bool \<Rightarrow>
     ('p, 's) ts_result" where
  "ts_cancel_owner s owner file_id reason notify_peer =
     (case ts_adapter_ids s owner of
        None \<Rightarrow> (s, Inl (UnknownOwner owner))
      | Some (ui_id, adapter_id, adapter_transfer_id) \<Rightarrow>
          let announced = ts_announced s owner;
              (completed, tot) = ts_transfer_totals s owner;
              actions =
                (if notify_peer
                 then [ActPeer (ow_peer owner)
                         (ClipboardTransferCancel (ow_wire_id owner) file_id reason)] else [])
                @ [ActAdapter adapter_id (MsgCancel adapter_transfer_id)]
                @ (if announced then [ActFrontend (FeCancelled ui_id file_id completed tot)] else [])
          in case file_id of
               Some f \<Rightarrow>
                 if \<not> ts_file_known s owner f then (s, Inl (UnknownFile owner f))
                 else (ts_drop_file s owner f, Inr actions)
             | None \<Rightarrow> (ts_remove_owner s owner, Inr actions))"

text \<open>\<open>cancel_owner(..).unwrap_or_default()\<close> over a list of owners, collecting the actions.\<close>

fun ts_cancel_owners ::
  "('p, 's) transfer_state \<Rightarrow> 'p transfer_owner list \<Rightarrow> clipboard_cancel_reason \<Rightarrow> bool \<Rightarrow>
     ('p, 's) transfer_state \<times> ('p, 's) transfer_action list" where
  "ts_cancel_owners s [] reason notify_peer = (s, [])"
| "ts_cancel_owners s (o' # os) reason notify_peer =
     (let (s', r) = ts_cancel_owner s o' None reason notify_peer;
          (s'', as) = ts_cancel_owners s' os reason notify_peer
      in (s'', (case r of Inl _ \<Rightarrow> [] | Inr a \<Rightarrow> a) @ as))"

definition ts_inbound_cancel ::
  "('p, 's) transfer_state \<Rightarrow> 'p \<Rightarrow> u64 \<Rightarrow> u64 option \<Rightarrow> clipboard_cancel_reason \<Rightarrow> ('p, 's) ts_result" where
  "ts_inbound_cancel s peer wire_id file_id reason =
     ts_cancel_owner s \<lparr>ow_peer = peer, ow_wire_id = wire_id\<rparr> file_id reason False"

definition ts_cancel_ui ::
  "('p, 's) transfer_state \<Rightarrow> u64 \<Rightarrow> u64 option \<Rightarrow> clipboard_cancel_reason \<Rightarrow> ('p, 's) ts_result" where
  "ts_cancel_ui s ui_id file_id reason = (case hm_get (ts_ui_to_owner s) ui_id of
     None \<Rightarrow> (s, Inl (DuplicateUiId ui_id))
   | Some owner \<Rightarrow> ts_cancel_owner s owner file_id reason True)"

definition ts_peer_lost ::
  "('p, 's) transfer_state \<Rightarrow> 'p \<Rightarrow> ('p, 's) transfer_state \<times> ('p, 's) transfer_action list" where
  "ts_peer_lost s peer =
     ts_cancel_owners s
       (remdups (filter (\<lambda>o'. ow_peer o' = peer) (map fst (ts_local s) @ map fst (ts_remote s))))
       IoError False"

definition ts_adapter_lost ::
  "('p, 's) transfer_state \<Rightarrow> rstring \<Rightarrow> ('p, 's) transfer_state \<times> ('p, 's) transfer_action list" where
  "ts_adapter_lost s adapter_id =
     ts_cancel_owners s
       (remdups (concat (map snd (filter (\<lambda>((aid, _), _). aid = adapter_id) (ts_adapter_to_owner s)))))
       IoError True"

section \<open>Offers\<close>

definition ts_local_copy_manifest ::
  "('p, 's) transfer_state \<Rightarrow> 'p \<Rightarrow> u64 \<Rightarrow> rstring \<Rightarrow> rstring \<Rightarrow> operation \<Rightarrow> 's file_offer \<Rightarrow>
     ('p, 's) ts_result" where
  "ts_local_copy_manifest s peer wire_id adapter_id manifest_transfer_id operation offer =
     (let owner = \<lparr>ow_peer = peer, ow_wire_id = wire_id\<rparr> in
      case rbind (ts_ensure_owner_available s owner) (\<lambda>_.
             if fo_transfer_id offer \<noteq> wire_id
             then Inl (TsInvalidManifest ''file offer transfer id differs from wire id'')
             else rbind (validate_wire_manifest (fo_entries offer)) (\<lambda>_.
               if operation = OpMove
               then Inl (TsInvalidManifest
                      ''move clipboard transfers are not supported by the wire manifest'')
               else Inr ())) of
        Inl e \<Rightarrow> (s, Inl e)
      | Inr _ \<Rightarrow>
          let superseded = map fst (filter (\<lambda>(candidate, t). ow_peer candidate = peer \<and> \<not> lt_announced t)
                             (ts_local s));
              (s1, stale) = ts_cancel_owners s superseded User True;
              (s2, r) = ts_allocate_ui_id s1
          in case r of
               Inl e \<Rightarrow> (s2, Inl e)
             | Inr ui_id \<Rightarrow>
                 let s3 = ts_insert_mapping s2 ui_id owner adapter_id manifest_transfer_id in
                 (s3\<lparr>ts_local := hm_insert owner
                      \<lparr>lt_ui_id = ui_id, lt_adapter_id = adapter_id,
                       lt_adapter_transfer_id = manifest_transfer_id, lt_offer = offer,
                       lt_outgoing = [], lt_announced = False, lt_transferred_by_file = []\<rparr>
                      (ts_local s3)\<rparr>,
                  Inr (stale @ [ActPeer peer (ClipboardManifest wire_id (fo_entries offer))])))"

definition ts_announce_local ::
  "('p, 's) transfer_state \<Rightarrow> 'p transfer_owner \<Rightarrow> ('p, 's) transfer_state" where
  "ts_announce_local s owner = (case hm_get (ts_local s) owner of
     None \<Rightarrow> s
   | Some t \<Rightarrow> s\<lparr>ts_local := hm_insert owner (t\<lparr>lt_announced := True\<rparr>) (ts_local s)\<rparr>)"

definition remote_entry_of :: "clipboard_manifest_entry \<Rightarrow> remote_entry" where
  "remote_entry_of e = \<lparr>re_entry_id = me_file_id e, re_path = me_path e, re_kind = me_kind e,
     re_size = (if me_kind e = File then Some (me_size e) else None)\<rparr>"

definition ts_inbound_manifest ::
  "('p, 's) transfer_state \<Rightarrow> 'p \<Rightarrow> rstring \<Rightarrow> rstring \<Rightarrow> u64 \<Rightarrow> operation \<Rightarrow>
     clipboard_manifest_entry list \<Rightarrow> ('p, 's) ts_result" where
  "ts_inbound_manifest s peer adapter_id adapter_transfer_id wire_id operation entries =
     (let owner = \<lparr>ow_peer = peer, ow_wire_id = wire_id\<rparr> in
      case (if operation = OpMove
            then Inl (TsInvalidManifest
                   ''move clipboard transfers are not supported by the wire manifest'')
            else rbind (ts_ensure_ids_available s owner adapter_id adapter_transfer_id) (\<lambda>_.
              validate_wire_manifest entries)) of
        Inl e \<Rightarrow> (s, Inl e)
      | Inr _ \<Rightarrow>
          let superseded = filter (\<lambda>candidate. ow_peer candidate = peer) (map fst (ts_remote s));
              (s1, stale) = ts_cancel_owners s superseded User False;
              (s2, r) = ts_allocate_ui_id s1
          in case r of
               Inl e \<Rightarrow> (s2, Inl e)
             | Inr ui_id \<Rightarrow>
                 let by_id = foldl (\<lambda>m e. hm_insert (me_file_id e) e m) [] entries;
                     s3 = ts_insert_mapping s2 ui_id owner adapter_id adapter_transfer_id in
                 (s3\<lparr>ts_remote := hm_insert owner
                      \<lparr>rt_ui_id = ui_id, rt_adapter_id = adapter_id,
                       rt_adapter_transfer_id = adapter_transfer_id, rt_operation = operation,
                       rt_entries = by_id, rt_announced = False, rt_transferred_by_file = []\<rparr>
                      (ts_remote s3)\<rparr>,
                  Inr (stale @ [ActAdapter adapter_id (MsgRemoteManifest adapter_transfer_id operation
                         (map remote_entry_of entries))])))"

definition ts_announce_remote ::
  "('p, 's) transfer_state \<Rightarrow> 'p transfer_owner \<Rightarrow> ('p, 's) transfer_state" where
  "ts_announce_remote s owner = (case hm_get (ts_remote s) owner of
     None \<Rightarrow> s
   | Some t \<Rightarrow> s\<lparr>ts_remote := hm_insert owner (t\<lparr>rt_announced := True\<rparr>) (ts_remote s)\<rparr>)"

section \<open>Requests of the adapters\<close>

definition ts_adapter_range_request ::
  "('p, 's) transfer_state \<Rightarrow> rstring \<Rightarrow> rstring \<Rightarrow> u64 \<Rightarrow> u64 \<Rightarrow> u64 \<Rightarrow> u32 \<Rightarrow> ('p, 's) ts_result" where
  "ts_adapter_range_request s adapter_id transfer_id request_id entry_id offset len32 =
     (case ts_owners_for_adapter s adapter_id transfer_id of
        [] \<Rightarrow> (s, Inl (UnknownAdapterTransfer adapter_id transfer_id))
      | owner # _ \<Rightarrow>
     (case hm_get (ts_remote s) owner of
        None \<Rightarrow> (s, Inl (UnknownOwner owner))
      | Some t \<Rightarrow>
        if rt_adapter_id t \<noteq> adapter_id \<or> rt_adapter_transfer_id t \<noteq> transfer_id
        then (s, Inl (UnknownAdapterTransfer adapter_id transfer_id))
        else
     (case hm_get (rt_entries t) entry_id of
        None \<Rightarrow> (s, Inl (UnknownFile owner entry_id))
      | Some entry \<Rightarrow>
        if me_kind entry \<noteq> File then (s, Inl (InvalidRange ''directory range requested''))
        else let len = ucast len32 :: u64 in
     (case ts_validate_range (me_size entry) offset len of
        Inl e \<Rightarrow> (s, Inl e)
      | Inr _ \<Rightarrow>
        let index = (owner, entry_id, request_id) in
        if hm_get (ts_pending s) index \<noteq> None
        then (s, Inl (DuplicateRequest owner entry_id request_id))
        else
     (case cv_new (ow_wire_id owner) entry_id request_id offset len of
        Inl e \<Rightarrow> (s, Inl (TsProtocol e))
      | Inr v \<Rightarrow>
        let s1 = s\<lparr>ts_pending := hm_insert index
              \<lparr>pg_key = \<lparr>pk_owner = owner, pk_file_id = entry_id, pk_request_id = request_id,
                         pk_offset = offset, pk_length = len\<rparr>,
               pg_validator = v, pg_received = 0, pg_hasher = [], pg_chunk = []\<rparr>
              (ts_pending s)\<rparr> in
        (ts_announce_remote s1 owner,
         Inr [ActPeer (ow_peer owner)
                (ClipboardFileRequest (ow_wire_id owner) entry_id request_id offset len)]))))))"

definition ts_adapter_mount_ready ::
  "('p, 's) transfer_state \<Rightarrow> rstring \<Rightarrow> rstring \<Rightarrow> rstring list \<Rightarrow> ('p, 's) ts_result" where
  "ts_adapter_mount_ready s fuse_adapter_id transfer_id uris =
     (case ts_owners_for_adapter s fuse_adapter_id transfer_id of
        [] \<Rightarrow> (s, Inl (UnknownAdapterTransfer fuse_adapter_id transfer_id))
      | owner # _ \<Rightarrow> (case hm_get (ts_remote s) owner of
            None \<Rightarrow> (s, Inl (UnknownOwner owner))
          | Some t \<Rightarrow> (s, Inr [ActAdapter (ts_file_clipboard_adapter s)
                (MsgPublishFileClipboard transfer_id (rt_operation t) uris)])))"

definition ts_record_progress ::
  "u64 \<Rightarrow> ('p, 's) transfer_state \<Rightarrow> 'p transfer_owner \<Rightarrow> ('p, 's) transfer_state" where
  "ts_record_progress completed s owner =
     s\<lparr>ts_local := (case hm_get (ts_local s) owner of
         None \<Rightarrow> ts_local s
       | Some t \<Rightarrow> hm_insert owner (t\<lparr>lt_transferred_by_file :=
           hm_insert 0 completed (lt_transferred_by_file t)\<rparr>) (ts_local s)),
       ts_remote := (case hm_get (ts_remote s) owner of
         None \<Rightarrow> ts_remote s
       | Some t \<Rightarrow> hm_insert owner (t\<lparr>rt_transferred_by_file :=
           hm_insert 0 completed (rt_transferred_by_file t)\<rparr>) (ts_remote s))\<rparr>"

definition ts_adapter_progress ::
  "('p, 's) transfer_state \<Rightarrow> rstring \<Rightarrow> rstring \<Rightarrow> u64 option \<Rightarrow> u64 option \<Rightarrow> ('p, 's) ts_result" where
  "ts_adapter_progress s adapter_id transfer_id completed_bytes total_bytes =
     (case ts_owners_for_adapter s adapter_id transfer_id of
        [] \<Rightarrow> (s, Inl (UnknownAdapterTransfer adapter_id transfer_id))
      | owner # rest \<Rightarrow>
     (case completed_bytes of
        None \<Rightarrow> (s, Inl (InvalidRange ''adapter progress lacks byte accounting''))
      | Some completed \<Rightarrow>
        let tot = snd (ts_transfer_totals s owner) in
        if (case total_bytes of None \<Rightarrow> False | Some reported \<Rightarrow> reported \<noteq> tot)
        then (s, Inl (InvalidRange ''adapter progress total differs from manifest''))
        else if completed > tot then (s, Inl (InvalidRange ''adapter progress exceeds total''))
        else let s1 = foldl (ts_record_progress completed) s (owner # rest) in
          (s1, Inr (List.map_filter (\<lambda>o'. map_option
                 (\<lambda>ui_id. ActFrontend (FeProgress ui_id completed tot)) (ts_transfer_ui_id s1 o'))
               (owner # rest)))))"

text \<open>
  The loops of \<open>adapter_completed\<close>, \<open>adapter_cancelled\<close> and \<open>adapter_unmounted\<close>: every owner gives
  its actions and is removed; an owner without a transfer stops the loop with an error.
\<close>

fun ts_finish_owners ::
  "('p transfer_owner \<Rightarrow> u64 \<Rightarrow> u64 \<Rightarrow> u64 \<Rightarrow> ('p, 's) transfer_action list) \<Rightarrow>
     ('p, 's) transfer_state \<Rightarrow> 'p transfer_owner list \<Rightarrow> ('p, 's) ts_result" where
  "ts_finish_owners mk s [] = (s, Inr [])"
| "ts_finish_owners mk s (o' # os) = (case ts_transfer_ui_id s o' of
     None \<Rightarrow> (s, Inl (UnknownOwner o'))
   | Some ui_id \<Rightarrow>
       let (completed, tot) = ts_transfer_totals s o';
           (s', r) = ts_finish_owners mk (ts_remove_owner s o') os
       in (s', rbind r (\<lambda>as. Inr (mk o' ui_id completed tot @ as))))"

definition ts_finish_adapter ::
  "('p transfer_owner \<Rightarrow> u64 \<Rightarrow> u64 \<Rightarrow> u64 \<Rightarrow> ('p, 's) transfer_action list) \<Rightarrow>
     ('p, 's) transfer_state \<Rightarrow> rstring \<Rightarrow> rstring \<Rightarrow> ('p, 's) ts_result" where
  "ts_finish_adapter mk s adapter_id transfer_id =
     (case ts_owners_for_adapter s adapter_id transfer_id of
        [] \<Rightarrow> (s, Inl (UnknownAdapterTransfer adapter_id transfer_id))
      | owners \<Rightarrow> ts_finish_owners mk s owners)"

definition ts_adapter_completed ::
  "('p, 's) transfer_state \<Rightarrow> rstring \<Rightarrow> rstring \<Rightarrow> bool \<Rightarrow> rstring option \<Rightarrow> ('p, 's) ts_result" where
  "ts_adapter_completed s adapter_id transfer_id success error =
     ts_finish_adapter (\<lambda>o' ui_id completed tot.
       [ActFrontend (if success then FeCompleted ui_id None completed tot
          else FeFailed ui_id None completed tot
                 (case error of None \<Rightarrow> lit ''adapter transfer failed'' | Some e \<Rightarrow> e))])
       s adapter_id transfer_id"

definition ts_cancel_notice ::
  "'p transfer_owner \<Rightarrow> u64 \<Rightarrow> u64 \<Rightarrow> u64 \<Rightarrow> ('p, 's) transfer_action list" where
  "ts_cancel_notice owner ui_id completed tot =
     [ActPeer (ow_peer owner) (ClipboardTransferCancel (ow_wire_id owner) None User),
      ActFrontend (FeCancelled ui_id None completed tot)]"

definition ts_adapter_cancelled ::
  "('p, 's) transfer_state \<Rightarrow> rstring \<Rightarrow> rstring \<Rightarrow> ('p, 's) ts_result" where
  "ts_adapter_cancelled s adapter_id transfer_id =
     ts_finish_adapter ts_cancel_notice s adapter_id transfer_id"

definition ts_adapter_unmounted ::
  "('p, 's) transfer_state \<Rightarrow> rstring \<Rightarrow> rstring \<Rightarrow> bool \<Rightarrow> rstring option \<Rightarrow> ('p, 's) ts_result" where
  "ts_adapter_unmounted s adapter_id transfer_id success error =
     ts_finish_adapter (\<lambda>o' ui_id completed tot.
       [ActFrontend (if success then FeCancelled ui_id None completed tot
          else FeFailed ui_id None completed tot
                 (case error of None \<Rightarrow> lit ''adapter unmount failed'' | Some e \<Rightarrow> e))])
       s adapter_id transfer_id"

fun ts_release_owners ::
  "('p, 's) transfer_state \<Rightarrow> 'p transfer_owner list \<Rightarrow>
     ('p, 's) transfer_state \<times> ('p, 's) transfer_action list" where
  "ts_release_owners s [] = (s, [])"
| "ts_release_owners s (o' # os) = (case hm_get (ts_remote s) o' of
     Some t \<Rightarrow>
       (let (s', as) = ts_release_owners s os in
        (s', ActAdapter (rt_adapter_id t) (MsgUnmounted (rt_adapter_transfer_id t) True None) # as))
   | None \<Rightarrow> (case hm_get (ts_local s) o' of
       None \<Rightarrow> ts_release_owners s os
     | Some t \<Rightarrow>
         (let (completed, tot) = ts_transfer_totals s o';
              (s', as) = ts_release_owners (ts_remove_owner s o') os in
          (s', ts_cancel_notice o' (lt_ui_id t) completed tot @ as))))"

definition ts_adapter_released ::
  "('p, 's) transfer_state \<Rightarrow> rstring \<Rightarrow> rstring \<Rightarrow> ('p, 's) ts_result" where
  "ts_adapter_released s adapter_id transfer_id =
     (case hm_get (ts_adapter_to_owner s) (adapter_id, transfer_id) of
        None \<Rightarrow> (s, Inl (UnknownAdapterTransfer adapter_id transfer_id))
      | Some owners \<Rightarrow>
          let s1 = s\<lparr>ts_adapter_to_owner :=
                hm_remove (adapter_id, transfer_id) (ts_adapter_to_owner s)\<rparr>;
              (s2, as) = ts_release_owners s1 owners
          in (s2, Inr as))"

section \<open>Serving local files\<close>

definition ts_source_file_request ::
  "('p, 's) transfer_state \<Rightarrow> 'p \<Rightarrow> u64 \<Rightarrow> u64 \<Rightarrow> u64 \<Rightarrow> u64 \<Rightarrow> u64 \<Rightarrow> ('p, 's) ts_result" where
  "ts_source_file_request s peer wire_id file_id request_id offset len =
     (let owner = \<lparr>ow_peer = peer, ow_wire_id = wire_id\<rparr> in
      case hm_get (ts_local s) owner of
        None \<Rightarrow> (s, Inl (UnknownOwner owner))
      | Some t \<Rightarrow>
     (case find (\<lambda>e. me_file_id e = file_id) (fo_entries (lt_offer t)) of
        None \<Rightarrow> (s, Inl (UnknownFile owner file_id))
      | Some entry \<Rightarrow>
        if me_kind entry \<noteq> File then (s, Inl (InvalidRange ''directory range requested''))
        else
     (case ts_validate_range (me_size entry) offset len of
        Inl e \<Rightarrow> (s, Inl e)
      | Inr _ \<Rightarrow>
        let key = (owner, file_id, request_id) in
        if hm_get (ts_source_pending s) key \<noteq> None
        then (s, Inl (DuplicateRequest owner file_id request_id))
        else let s1 = s\<lparr>ts_source_pending := hm_insert key (offset, len) (ts_source_pending s)\<rparr> in
          (ts_announce_local s1 owner,
           Inr [ActReadSource owner file_id request_id offset len (lt_offer t)]))))"

definition ts_insert_outgoing_file ::
  "('p, 's) transfer_state \<Rightarrow> 'p transfer_owner \<Rightarrow> u64 \<Rightarrow> u64 \<Rightarrow> u64 \<Rightarrow> u64 \<Rightarrow> 's outgoing_file \<Rightarrow>
     ('p, 's) transfer_state \<times> ('p transfer_error + unit)" where
  "ts_insert_outgoing_file s owner file_id request_id expected_offset expected_length file =
     (case hm_get (ts_local s) owner of
        None \<Rightarrow> (s, Inl (UnknownOwner owner))
      | Some t \<Rightarrow>
        if of_file_id file \<noteq> file_id then (s, Inl (UnknownFile owner file_id))
        else if hm_get (lt_outgoing t) (file_id, request_id) \<noteq> None
        then (s, Inl (DuplicateRequest owner file_id request_id))
        else case hm_get (ts_source_pending s) (owner, file_id, request_id) of
          None \<Rightarrow> (s, Inl (UnknownRequest owner file_id request_id))
        | Some reservation \<Rightarrow>
            if reservation \<noteq> (expected_offset, expected_length)
            then (s, Inl (InvalidRange ''source reservation mismatch''))
            else (s\<lparr>ts_local := hm_insert owner (t\<lparr>lt_outgoing :=
                     hm_insert (file_id, request_id) file (lt_outgoing t)\<rparr>) (ts_local s)\<rparr>, Inr ()))"

definition ts_source_chunk ::
  "('p, 's) transfer_state \<Rightarrow> 'p transfer_owner \<Rightarrow> u64 \<Rightarrow> u64 \<Rightarrow> u64 \<Rightarrow> bytes \<Rightarrow>
     'p transfer_error + ('p, 's) transfer_action list" where
  "ts_source_chunk s owner file_id request_id offset data =
     (case hm_get (ts_local s) owner of
        None \<Rightarrow> Inl (UnknownOwner owner)
      | Some t \<Rightarrow>
        if hm_get (lt_outgoing t) (file_id, request_id) = None
        then Inl (UnknownRequest owner file_id request_id)
        else case hm_get (ts_source_pending s) (owner, file_id, request_id) of
          None \<Rightarrow> Inl (UnknownRequest owner file_id request_id)
        | Some (r_offset, r_length) \<Rightarrow>
            if offset \<noteq> r_offset \<or> length data > unat r_length \<or> data = []
               \<or> length data > MAX_CLIPBOARD_FILE_CHUNK_SIZE
            then Inl (InvalidRange ''source chunk outside reservation'')
            else Inr [ActPeer (ow_peer owner)
                   (ClipboardFileChunk (ow_wire_id owner) file_id request_id offset data)])"

definition ts_source_range_served ::
  "('p, 's) transfer_state \<Rightarrow> 'p transfer_owner \<Rightarrow> u64 \<Rightarrow> u64 \<Rightarrow> ('p, 's) transfer_state" where
  "ts_source_range_served s owner file_id request_id =
     s\<lparr>ts_local := (case hm_get (ts_local s) owner of
         None \<Rightarrow> ts_local s
       | Some t \<Rightarrow> hm_insert owner (t\<lparr>lt_outgoing := hm_remove (file_id, request_id) (lt_outgoing t)\<rparr>)
           (ts_local s)),
       ts_source_pending := hm_remove (owner, file_id, request_id) (ts_source_pending s)\<rparr>"

definition ts_source_complete ::
  "('p, 's) transfer_state \<Rightarrow> 'p transfer_owner \<Rightarrow> u64 \<Rightarrow> u64 \<Rightarrow> u64 \<Rightarrow> bytes \<Rightarrow> ('p, 's) ts_result" where
  "ts_source_complete s owner file_id request_id sz digest =
     (case hm_get (ts_local s) owner of
        None \<Rightarrow> (s, Inl (UnknownOwner owner))
      | Some t \<Rightarrow>
        if hm_get (lt_outgoing t) (file_id, request_id) = None
        then (s, Inl (UnknownRequest owner file_id request_id))
        else (ts_source_range_served s owner file_id request_id,
              Inr [ActPeer (ow_peer owner)
                     (ClipboardFileComplete (ow_wire_id owner) file_id request_id sz digest)]))"

section \<open>Receiving remote files\<close>

text \<open>
  \<open>inbound_chunk\<close> stores the slice in the pending request before it looks at the transfer, so the
  error branches after that point keep it.
\<close>

definition ts_inbound_chunk ::
  "(bytes \<Rightarrow> rstring) \<Rightarrow> ('p, 's) transfer_state \<Rightarrow> 'p \<Rightarrow> u64 \<Rightarrow> u64 \<Rightarrow> u64 \<Rightarrow> u64 \<Rightarrow> bytes \<Rightarrow>
     ('p, 's) ts_result" where
  "ts_inbound_chunk b64 s peer wire_id file_id request_id offset data =
     (let owner = \<lparr>ow_peer = peer, ow_wire_id = wire_id\<rparr>; index = (owner, file_id, request_id) in
      case hm_get (ts_pending s) index of
        None \<Rightarrow> (s, Inl (UnknownRequest owner file_id request_id))
      | Some pend \<Rightarrow>
     (case cv_validate_chunk (pg_validator pend) wire_id file_id request_id offset (length data) of
        Inl e \<Rightarrow> (s, Inl (TsProtocol e))
      | Inr v \<Rightarrow>
        let received = word_of_nat (length data);
            pend' = pend\<lparr>pg_validator := v, pg_received := received,
                         pg_hasher := pg_hasher pend @ data, pg_chunk := data\<rparr>;
            s1 = s\<lparr>ts_pending := hm_insert index pend' (ts_pending s)\<rparr> in
     (case hm_get (ts_remote s1) owner of
        None \<Rightarrow> (s1, Inl (UnknownOwner owner))
      | Some t \<Rightarrow>
     (case hm_get (rt_entries t) file_id of
        None \<Rightarrow> (s1, Inl (UnknownFile owner file_id))
      | Some entry \<Rightarrow>
     (case checked_add offset received of
        None \<Rightarrow> (s1, Inl (TsProtocol LengthOverflow))
      | Some end \<Rightarrow>
        let progress = ActFrontend (FeProgress (rt_ui_id t) end (me_size entry)) in
        if end = me_size entry then (s1, Inr [progress])
        else if received \<noteq> pk_length (pg_key pend)
        then (s1, Inl (TsProtocol (InvalidFileChunk ''short non-EOF chunk'')))
        else (s1\<lparr>ts_pending := hm_remove index (ts_pending s1)\<rparr>,
              Inr [ActAdapter (rt_adapter_id t)
                     (MsgRangeResponse (rt_adapter_transfer_id t) request_id offset (b64 data)
                        False None),
                   progress]))))))"

definition ts_inbound_progress ::
  "('p, 's) transfer_state \<Rightarrow> 'p \<Rightarrow> u64 \<Rightarrow> u64 \<Rightarrow> u64 \<Rightarrow> u64 \<Rightarrow>
     'p transfer_error + ('p, 's) transfer_action list" where
  "ts_inbound_progress s peer wire_id file_id completed tot =
     (if completed > tot then Inl (InvalidRange ''progress exceeds total'')
      else let owner = \<lparr>ow_peer = peer, ow_wire_id = wire_id\<rparr> in
      case hm_get (ts_local s) owner of
        None \<Rightarrow> Inl (UnknownOwner owner)
      | Some t \<Rightarrow>
          if \<not> list_ex (\<lambda>e. me_file_id e = file_id \<and> me_size e = tot) (fo_entries (lt_offer t))
          then Inl (UnknownFile owner file_id)
          else Inr [ActFrontend (FeProgress (lt_ui_id t) completed tot)])"

definition ts_inbound_complete ::
  "(bytes \<Rightarrow> bytes) \<Rightarrow> (bytes \<Rightarrow> rstring) \<Rightarrow> ('p, 's) transfer_state \<Rightarrow> 'p \<Rightarrow> u64 \<Rightarrow> u64 \<Rightarrow> u64 \<Rightarrow> u64 \<Rightarrow>
     bytes \<Rightarrow> ('p, 's) ts_result" where
  "ts_inbound_complete sha256 b64 s peer wire_id file_id request_id sz digest =
     (let owner = \<lparr>ow_peer = peer, ow_wire_id = wire_id\<rparr>; index = (owner, file_id, request_id) in
      case Option.bind (hm_get (ts_remote s) owner)
             (\<lambda>t. map_option (\<lambda>e. (t, e)) (hm_get (rt_entries t) file_id)) of
        None \<Rightarrow> (s, Inl (UnknownFile owner file_id))
      | Some (t, entry) \<Rightarrow>
     (case hm_get (ts_pending s) index of
        None \<Rightarrow> (s, Inl (UnknownRequest owner file_id request_id))
      | Some pend \<Rightarrow>
     (case checked_add (pk_offset (pg_key pend)) (pg_received pend) of
        None \<Rightarrow> (s, Inl (TsProtocol LengthOverflow))
      | Some received_end \<Rightarrow>
        if pg_received pend = 0 \<or> received_end \<noteq> me_size entry
        then (s, Inl (TsProtocol (InvalidFileChunk
               ''completion does not cover the requested file range'')))
        else if sz \<noteq> me_size entry
        then (s, Inl (TsProtocol (InvalidFileChunk ''completion size differs from manifest'')))
        else if sha256 (pg_hasher pend) \<noteq> digest then (s, Inl (DigestMismatch owner file_id))
        else let s1 = s\<lparr>ts_pending := hm_remove index (ts_pending s)\<rparr>;
                 key = pg_key pend in
     (case hm_get (ts_remote s1) (pk_owner key) of
        None \<Rightarrow> (s1, Inl (UnknownOwner (pk_owner key)))
      | Some t' \<Rightarrow>
        (s1, Inr [ActAdapter (rt_adapter_id t')
               (MsgRangeResponse (rt_adapter_transfer_id t') request_id (pk_offset key)
                  (b64 (pg_chunk pend)) True None),
             ActFrontend (FeProgress (rt_ui_id t') (pg_received pend)
               (case hm_get (rt_entries t') file_id of
                  Some e \<Rightarrow> me_size e | None \<Rightarrow> pg_received pend))])))))"

definition ts_handle_protocol ::
  "(bytes \<Rightarrow> bytes) \<Rightarrow> (bytes \<Rightarrow> rstring) \<Rightarrow> ('p, 's) transfer_state \<Rightarrow> 'p \<Rightarrow> proto_event \<Rightarrow>
     ('p, 's) ts_result" where
  "ts_handle_protocol sha256 b64 s peer event = (case event of
     ClipboardFileChunk t f r x d \<Rightarrow> ts_inbound_chunk b64 s peer t f r x d
   | ClipboardFileComplete t f r sz d \<Rightarrow> ts_inbound_complete sha256 b64 s peer t f r sz d
   | ClipboardFileRequest t f r x l \<Rightarrow> ts_source_file_request s peer t f r x l
   | ClipboardTransferCancel t f reason \<Rightarrow> ts_inbound_cancel s peer t f reason
   | ClipboardTransferProgress t f c n \<Rightarrow> (s, ts_inbound_progress s peer t f c n)
   | ClipboardManifest t es \<Rightarrow>
       (s, Inl (TsInvalidManifest ''manifest requires an explicit adapter and operation''))
   | _ \<Rightarrow> (s, Inl UnsupportedProtocolEvent))"

end
