(* ===== verification/Transfer_Invariant.thy ===== *)
theory Transfer_Invariant
  imports Transfer_State
begin

text \<open>
  The invariant of the file-transfer state machine and what follows from it: the indices agree with
  the transfers, pending requests belong to live transfers and stay inside their files, and an open
  source file has a reservation. Every operation preserves it.
\<close>

section \<open>Identifiers for the user interface\<close>

lemma next_id_nonzero: "next_id w \<noteq> 0"
proof (cases "checked_add w 1")
  case None
  then show ?thesis by (simp add: next_id_def)
next
  case (Some n)
  then have "unat n = unat w + 1" by (simp add: checked_add_Some_iff)
  then show ?thesis using Some by (auto simp: next_id_def)
qed

abbreviation IDS :: nat where "IDS \<equiv> 2 ^ 64 - 1"

lemma unat_next_id: "w \<noteq> 0 \<Longrightarrow> unat (next_id w) = (unat w - 1 + 1) mod IDS + 1"
proof -
  assume w: "w \<noteq> 0"
  then have pos: "0 < unat w" by (simp add: unat_gt_0)
  have "unat w < 2 ^ 64" using unsigned_less [of w, where 'a = nat] by simp
  then consider "unat w = IDS" | "unat w < IDS" by fastforce
  then show ?thesis
  proof cases
    case 1
    then have "checked_add w 1 = None" by (simp add: checked_add_def)
    with 1 show ?thesis by (simp add: next_id_def)
  next
    case 2
    then have c: "checked_add w 1 = Some (w + 1)" by (simp add: checked_add_def)
    then have "unat (w + 1) = unat w + 1" by (simp add: checked_add_Some_iff)
    with 2 pos c show ?thesis by (simp add: next_id_def)
  qed
qed

lemma next_id_iter:
  assumes "w \<noteq> 0"
  shows "(next_id ^^ k) w \<noteq> 0" and "unat ((next_id ^^ k) w) = (unat w - 1 + k) mod IDS + 1"
proof -
  have pos: "0 < unat w" using assms by (simp add: unat_gt_0)
  have bound: "unat w - 1 < IDS" using unsigned_less [of w, where 'a = nat] by simp
  have "(next_id ^^ k) w \<noteq> 0 \<and> unat ((next_id ^^ k) w) = (unat w - 1 + k) mod IDS + 1"
  proof (induction k)
    case 0
    then show ?case using assms pos bound by simp
  next
    case (Suc k)
    then have "unat (next_id ((next_id ^^ k) w)) = ((unat w - 1 + k) mod IDS + 1) mod IDS + 1"
      using unat_next_id [of "(next_id ^^ k) w"] by simp
    also have "\<dots> = (unat w - 1 + Suc k) mod IDS + 1" by (simp add: mod_Suc_eq)
    finally show ?case by (simp add: next_id_nonzero)
  qed
  then show "(next_id ^^ k) w \<noteq> 0" and "unat ((next_id ^^ k) w) = (unat w - 1 + k) mod IDS + 1"
    by auto
qed

lemma next_id_inj:
  assumes "w \<noteq> 0" and "j < IDS" and "k < IDS" and "(next_id ^^ j) w = (next_id ^^ k) w"
  shows "j = k"
proof -
  have "(unat w - 1 + j) mod IDS = (unat w - 1 + k) mod IDS"
    using next_id_iter(2) [OF assms(1), of j] next_id_iter(2) [OF assms(1), of k] assms(4) by simp
  then have "j mod IDS = k mod IDS" by (simp add: nat_mod_eq_iff)
  with assms(2,3) show ?thesis by simp
qed

lemma allocate_loop_finds:
  assumes "next \<noteq> 0" and "k < fuel" and "hm_get used ((next_id ^^ k) next) = None"
    and "\<And>j. 0 < j \<Longrightarrow> j \<le> k \<Longrightarrow> (next_id ^^ j) next \<noteq> start"
  shows "\<exists>n u. allocate_loop fuel start used next = (n, Inr u) \<and> n \<noteq> 0 \<and> u \<noteq> 0 \<and> hm_get used u = None"
    (is "?ok fuel next")
  using assms
proof (induction fuel arbitrary: k "next")
  case (Suc fuel)
  show ?case
  proof (cases "hm_get used next = None")
    case True
    with Suc.prems(1) show ?thesis by (simp add: Let_def next_id_nonzero)
  next
    case False
    then obtain j where k: "k = Suc j" using Suc.prems(3) by (cases k) auto
    have "next_id next \<noteq> start" using Suc.prems(4) [of 1] k by simp
    moreover have "?ok fuel (next_id next)"
    proof (rule Suc.IH [where k = j])
      show "hm_get used ((next_id ^^ j) (next_id next)) = None"
        using Suc.prems(3) k by (simp add: funpow_swap1)
      show "(next_id ^^ i) (next_id next) \<noteq> start" if "0 < i" "i \<le> j" for i
        using Suc.prems(4) [of "Suc i"] that k by (simp add: funpow_swap1)
    qed (use Suc.prems(2) k in \<open>simp_all add: next_id_nonzero\<close>)
    ultimately show ?thesis using False by (auto simp: Let_def)
  qed
qed simp

text \<open>
  By the pigeonhole principle one of the first \<open>n + 1\<close> ids is free when \<open>n\<close> are in use.
\<close>

lemma allocate_ui_id_ok:
  fixes s :: "('p, 's) transfer_state"
  assumes "ts_next_ui_id s \<noteq> 0" and "length (ts_ui_to_owner s) < IDS"
  shows "\<exists>n u. ts_allocate_ui_id s = (s\<lparr>ts_next_ui_id := n\<rparr>, Inr u) \<and> n \<noteq> 0 \<and> u \<noteq> 0
     \<and> hm_get (ts_ui_to_owner s) u = None"
proof -
  let ?w = "ts_next_ui_id s" and ?used = "ts_ui_to_owner s"
  let ?tried = "(\<lambda>k. (next_id ^^ k) ?w) ` {..length ?used}"
  have "inj_on (\<lambda>k. (next_id ^^ k) ?w) {..length ?used}"
    using next_id_inj [OF assms(1)] assms(2) by (auto simp: inj_on_def)
  then have "card ?tried = Suc (length ?used)" by (simp add: card_image)
  moreover have "card (fst ` set ?used) \<le> length ?used"
    using card_length [of "map fst ?used"] by simp
  ultimately have "\<not> ?tried \<subseteq> fst ` set ?used" by (metis List.finite_set card_mono finite_imageI not_less_eq_eq)
  then obtain k where k: "k \<le> length ?used" "hm_get ?used ((next_id ^^ k) ?w) = None"
    by (auto simp: hm_get_None)
  have "\<exists>n u. allocate_loop (Suc (length ?used)) ?w ?used ?w = (n, Inr u :: 'p transfer_error + u64) \<and> n \<noteq> 0 \<and> u \<noteq> 0
      \<and> hm_get ?used u = None"
  proof (rule allocate_loop_finds [OF assms(1) _ k(2)])
    show "(next_id ^^ j) ?w \<noteq> ?w" if "0 < j" "j \<le> k" for j
      using next_id_inj [OF assms(1), of j 0] that k(1) assms(2) by auto
  qed (use k(1) in simp)
  then show ?thesis unfolding ts_allocate_ui_id_def by (auto simp del: allocate_loop.simps)
qed

section \<open>The invariant\<close>

text \<open>A pending request of the receiving side: it asks for a part of a file of the transfer.\<close>

definition pending_ok ::
  "remote_transfer \<Rightarrow> 'p transfer_owner \<Rightarrow> u64 \<Rightarrow> u64 \<Rightarrow> 'p pending_range \<Rightarrow> bool" where
  "pending_ok t owner f r pg \<longleftrightarrow>
     (let key = pg_key pg; v = pg_validator pg in
      pk_owner key = owner \<and> pk_file_id key = f \<and> pk_request_id key = r
      \<and> cv_wf v \<and> cv_identity v = (ow_wire_id owner, f, r)
      \<and> cv_offset v = pk_offset key \<and> cv_length v = pk_length key
      \<and> pg_received pg = word_of_nat (length (pg_chunk pg)) \<and> pg_hasher pg = pg_chunk pg
      \<and> length (pg_chunk pg) \<le> unat (pk_length key)
      \<and> (cv_chunk_received v \<longleftrightarrow> pg_chunk pg \<noteq> [])
      \<and> (\<exists>e. hm_get (rt_entries t) f = Some e \<and> me_kind e = File
           \<and> unat (pk_offset key) + unat (pk_length key) \<le> unat (me_size e)))"

text \<open>A reservation of the serving side asks for a part of an offered file.\<close>

definition reserved_ok :: "'s local_transfer \<Rightarrow> u64 \<Rightarrow> u64 \<times> u64 \<Rightarrow> bool" where
  "reserved_ok t f rng \<longleftrightarrow> (\<exists>e. find (\<lambda>e. me_file_id e = f) (fo_entries (lt_offer t)) = Some e
     \<and> me_kind e = File \<and> 0 < unat (snd rng) \<and> unat (snd rng) \<le> MAX_CLIPBOARD_FILE_CHUNK_SIZE
     \<and> unat (fst rng) + unat (snd rng) \<le> unat (me_size e))"

definition ts_maps_ok :: "('p, 's) transfer_state \<Rightarrow> bool" where
  "ts_maps_ok s \<longleftrightarrow> hm_ok (ts_local s) \<and> hm_ok (ts_remote s) \<and> hm_ok (ts_pending s)
     \<and> hm_ok (ts_adapter_to_owner s) \<and> hm_ok (ts_source_pending s) \<and> hm_ok (ts_ui_to_owner s)
     \<and> ts_next_ui_id s \<noteq> 0"

definition ts_disjoint :: "('p, 's) transfer_state \<Rightarrow> bool" where
  "ts_disjoint s \<longleftrightarrow> (\<forall>o'. hm_get (ts_local s) o' = None \<or> hm_get (ts_remote s) o' = None)"

text \<open>The two indices: ui ids are those of the transfers, adapter entries name live transfers.\<close>

definition ts_ui_ok :: "('p, 's) transfer_state \<Rightarrow> bool" where
  "ts_ui_ok s \<longleftrightarrow> (\<forall>u o'. hm_get (ts_ui_to_owner s) u = Some o' \<longleftrightarrow> ts_transfer_ui_id s o' = Some u)"

definition ts_adapter_ok :: "('p, 's) transfer_state \<Rightarrow> bool" where
  "ts_adapter_ok s \<longleftrightarrow> (\<forall>k os. hm_get (ts_adapter_to_owner s) k = Some os \<longrightarrow>
     os \<noteq> [] \<and> distinct os \<and> (\<forall>o' \<in> set os. map_option snd (ts_adapter_ids s o') = Some k))"

definition ts_pending_ok :: "('p, 's) transfer_state \<Rightarrow> bool" where
  "ts_pending_ok s \<longleftrightarrow> (\<forall>o' f r pg. hm_get (ts_pending s) (o', f, r) = Some pg \<longrightarrow>
     (\<exists>t. hm_get (ts_remote s) o' = Some t \<and> pending_ok t o' f r pg))"

definition ts_source_ok :: "('p, 's) transfer_state \<Rightarrow> bool" where
  "ts_source_ok s \<longleftrightarrow> (\<forall>o' f r rng. hm_get (ts_source_pending s) (o', f, r) = Some rng \<longrightarrow>
     (\<exists>t. hm_get (ts_local s) o' = Some t \<and> reserved_ok t f rng))"

text \<open>An open source file has a reservation, so that no file handle outlives its range.\<close>

definition ts_outgoing_ok :: "('p, 's) transfer_state \<Rightarrow> bool" where
  "ts_outgoing_ok s \<longleftrightarrow> (\<forall>o' t. hm_get (ts_local s) o' = Some t \<longrightarrow> hm_ok (lt_outgoing t)
     \<and> (\<forall>f r file. hm_get (lt_outgoing t) (f, r) = Some file \<longrightarrow>
          of_file_id file = f \<and> hm_get (ts_source_pending s) (o', f, r) \<noteq> None))"

named_theorems ts_parts \<open>the conjuncts of the invariant\<close>

declare ts_maps_ok_def [ts_parts] ts_disjoint_def [ts_parts] ts_ui_ok_def [ts_parts]
  ts_adapter_ok_def [ts_parts] ts_pending_ok_def [ts_parts] ts_source_ok_def [ts_parts]
  ts_outgoing_ok_def [ts_parts]

definition ts_wf :: "('p, 's) transfer_state \<Rightarrow> bool" where
  "ts_wf s \<longleftrightarrow> ts_maps_ok s \<and> ts_disjoint s \<and> ts_ui_ok s \<and> ts_adapter_ok s \<and> ts_pending_ok s
     \<and> ts_source_ok s \<and> ts_outgoing_ok s"

lemma ts_default_wf: "ts_wf ts_default"
  by (simp add: ts_wf_def ts_parts ts_default_def hash_map ts_transfer_ui_id_def)

lemma hm_get_map: "hm_get (map (\<lambda>(k, v). (k, f v)) m) a = map_option f (hm_get m a)"
  by (induction m) (auto simp: hm_get_def)

lemma hm_ok_map [simp]: "hm_ok (map (\<lambda>(k, v). (k, f v)) m) = hm_ok m"
  by (simp add: hm_ok_def comp_def case_prod_beta')

lemma ts_ui_inj:
  "ts_ui_ok s \<Longrightarrow> ts_transfer_ui_id s o1 = Some u \<Longrightarrow> ts_transfer_ui_id s o2 = Some u \<Longrightarrow> o1 = o2"
  by (metis option.inject ts_ui_ok_def)

section \<open>Removing an owner\<close>

lemma ts_remove_owner_lookup:
  fixes owner :: "'p transfer_owner"
  assumes "ts_wf s"
  defines "s' \<equiv> ts_remove_owner s owner"
  shows "hm_get (ts_local s') o' = (if o' = owner then None else hm_get (ts_local s) o')"
    and "hm_get (ts_remote s') o' = (if o' = owner then None else hm_get (ts_remote s) o')"
    and "hm_get (ts_pending s') (o', f, r) = (if o' = owner then None else hm_get (ts_pending s) (o', f, r))"
    and "hm_get (ts_source_pending s') (o', f, r) =
           (if o' = owner then None else hm_get (ts_source_pending s) (o', f, r))"
    and "hm_get (ts_ui_to_owner s') u =
           (if hm_get (ts_ui_to_owner s) u = Some owner then None else hm_get (ts_ui_to_owner s) u)"
    and "hm_get (ts_adapter_to_owner s') k = (case hm_get (ts_adapter_to_owner s) k of
           None \<Rightarrow> None
         | Some os \<Rightarrow> let os' = filter (\<lambda>x. x \<noteq> owner) os in if os' = [] then None else Some os')"
    and "ts_maps_ok s'"
proof -
  have m: "ts_maps_ok s" and d: "ts_disjoint s" and ui: "ts_ui_ok s" using assms(1) by (auto simp: ts_wf_def)
  have ok: "hm_ok (ts_local s)" "hm_ok (ts_remote s)" "hm_ok (ts_pending s)"
    "hm_ok (ts_adapter_to_owner s)" "hm_ok (ts_source_pending s)" "hm_ok (ts_ui_to_owner s)"
    using m by (auto simp: ts_maps_ok_def)
  show "hm_get (ts_local s') o' = (if o' = owner then None else hm_get (ts_local s) o')"
    using ok by (simp add: s'_def ts_remove_owner_def Let_def hash_map)
  show "hm_get (ts_remote s') o' = (if o' = owner then None else hm_get (ts_remote s) o')"
    using ok d [unfolded ts_disjoint_def, rule_format, of owner]
    by (auto simp: s'_def ts_remove_owner_def Let_def hash_map)
  show "hm_get (ts_pending s') (o', f, r) = (if o' = owner then None else hm_get (ts_pending s) (o', f, r))"
    and "hm_get (ts_source_pending s') (o', f, r) =
           (if o' = owner then None else hm_get (ts_source_pending s) (o', f, r))"
    using ok by (auto simp: s'_def ts_remove_owner_def Let_def hash_map split: option.splits)
  show "hm_get (ts_ui_to_owner s') u =
      (if hm_get (ts_ui_to_owner s) u = Some owner then None else hm_get (ts_ui_to_owner s) u)"
    using ok ui by (auto simp: s'_def ts_remove_owner_def Let_def hash_map ts_ui_ok_def split: option.splits)
  show "hm_get (ts_adapter_to_owner s') k = (case hm_get (ts_adapter_to_owner s) k of
           None \<Rightarrow> None
         | Some os \<Rightarrow> let os' = filter (\<lambda>x. x \<noteq> owner) os in if os' = [] then None else Some os')"
    using ok by (auto simp: s'_def ts_remove_owner_def Let_def hm_get_retain hm_get_map split: option.splits)
  show "ts_maps_ok s'"
    using m by (auto simp: s'_def ts_remove_owner_def Let_def ts_maps_ok_def split: option.splits)
qed

lemma ts_remove_owner_ids:
  assumes "ts_wf s"
  shows "ts_transfer_ui_id (ts_remove_owner s owner) o' =
           (if o' = owner then None else ts_transfer_ui_id s o')"
    and "ts_adapter_ids (ts_remove_owner s owner) o' =
           (if o' = owner then None else ts_adapter_ids s o')"
  by (auto simp: ts_transfer_ui_id_def ts_adapter_ids_def ts_remove_owner_lookup [OF assms]
      split: option.split)

lemma ts_remove_owner_wf:
  assumes "ts_wf s"
  shows "ts_wf (ts_remove_owner s owner)"
proof -
  note l = ts_remove_owner_lookup [OF assms] and i = ts_remove_owner_ids [OF assms]
  have "ts_disjoint (ts_remove_owner s owner)" using assms by (auto simp: ts_wf_def ts_disjoint_def l)
  moreover have "ts_ui_ok (ts_remove_owner s owner)"
    using assms ts_ui_inj [of s] by (auto simp: ts_wf_def ts_ui_ok_def l i)
  moreover have "ts_adapter_ok (ts_remove_owner s owner)"
    using assms by (auto simp: ts_wf_def ts_adapter_ok_def l i Let_def split: option.splits if_splits)
  moreover have "ts_pending_ok (ts_remove_owner s owner)"
    using assms by (auto simp: ts_wf_def ts_pending_ok_def l split: if_splits)
  moreover have "ts_source_ok (ts_remove_owner s owner)"
    using assms by (auto simp: ts_wf_def ts_source_ok_def l split: if_splits)
  moreover have "ts_outgoing_ok (ts_remove_owner s owner)"
    using assms by (fastforce simp: ts_wf_def ts_outgoing_ok_def l split: if_splits)
  ultimately show ?thesis using l(7) by (simp add: ts_wf_def)
qed

section \<open>Changes that keep the transfers\<close>

definition same_local :: "'s local_transfer \<Rightarrow> 's local_transfer \<Rightarrow> bool" where
  "same_local t t' \<longleftrightarrow> lt_ui_id t' = lt_ui_id t \<and> lt_adapter_id t' = lt_adapter_id t
     \<and> lt_adapter_transfer_id t' = lt_adapter_transfer_id t \<and> lt_offer t' = lt_offer t"

definition same_remote :: "remote_transfer \<Rightarrow> remote_transfer \<Rightarrow> bool" where
  "same_remote t t' \<longleftrightarrow> rt_ui_id t' = rt_ui_id t \<and> rt_adapter_id t' = rt_adapter_id t
     \<and> rt_adapter_transfer_id t' = rt_adapter_transfer_id t \<and> rt_entries t' = rt_entries t"

lemma same_refl [simp]: "same_local t t" "same_remote t' t'"
  by (simp_all add: same_local_def same_remote_def)

lemma pending_ok_same: "same_remote t t' \<Longrightarrow> pending_ok t' = pending_ok t"
  by (simp add: same_remote_def pending_ok_def fun_eq_iff)

lemma reserved_ok_same: "same_local t t' \<Longrightarrow> reserved_ok t' = reserved_ok t"
  by (simp add: same_local_def reserved_ok_def fun_eq_iff)

text \<open>
  The frame rule: an operation that keeps the identity, the offer and the entries of every transfer
  preserves the invariant if the requests it adds are good and the open files stay reserved.
\<close>

lemma ts_wf_frame:
  assumes wf: "ts_wf s" and maps: "ts_maps_ok s'"
    and loc: "\<And>x. rel_option same_local (hm_get (ts_local s) x) (hm_get (ts_local s') x)"
    and rem: "\<And>x. rel_option same_remote (hm_get (ts_remote s) x) (hm_get (ts_remote s') x)"
    and ui: "ts_ui_to_owner s' = ts_ui_to_owner s"
    and ad: "\<And>k os. hm_get (ts_adapter_to_owner s') k = Some os \<Longrightarrow>
      hm_get (ts_adapter_to_owner s) k = Some os"
    and pend: "\<And>x f r pg. hm_get (ts_pending s') (x, f, r) = Some pg \<Longrightarrow>
      hm_get (ts_pending s) (x, f, r) = Some pg
      \<or> (\<exists>t. hm_get (ts_remote s) x = Some t \<and> pending_ok t x f r pg)"
    and src: "\<And>x f r rng. hm_get (ts_source_pending s') (x, f, r) = Some rng \<Longrightarrow>
      hm_get (ts_source_pending s) (x, f, r) = Some rng
      \<or> (\<exists>t. hm_get (ts_local s) x = Some t \<and> reserved_ok t f rng)"
    and out: "ts_outgoing_ok s'"
  shows "ts_wf s'"
proof -
  have ids: "ts_transfer_ui_id s' x = ts_transfer_ui_id s x" "ts_adapter_ids s' x = ts_adapter_ids s x" for x
    using loc [of x] rem [of x]
    by (auto simp: ts_transfer_ui_id_def ts_adapter_ids_def same_local_def same_remote_def
        elim!: option.rel_cases)
  have "ts_disjoint s'" unfolding ts_disjoint_def
  proof
    fix x
    have "hm_get (ts_local s) x = None \<or> hm_get (ts_remote s) x = None"
      using wf by (simp add: ts_wf_def ts_disjoint_def)
    then show "hm_get (ts_local s') x = None \<or> hm_get (ts_remote s') x = None"
      using loc [of x] rem [of x] by (auto elim: option.rel_cases)
  qed
  moreover have "ts_ui_ok s'" using wf by (simp add: ts_wf_def ts_ui_ok_def ui ids)
  moreover have "ts_adapter_ok s'"
    using wf ad unfolding ts_wf_def ts_adapter_ok_def ids by blast
  moreover have "ts_pending_ok s'" unfolding ts_pending_ok_def
  proof (intro allI impI)
    fix x f r pg assume "hm_get (ts_pending s') (x, f, r) = Some pg"
    then obtain t where t: "hm_get (ts_remote s) x = Some t" "pending_ok t x f r pg"
      using pend wf unfolding ts_wf_def ts_pending_ok_def by blast
    then show "\<exists>t. hm_get (ts_remote s') x = Some t \<and> pending_ok t x f r pg"
      using rem [of x] by (auto simp: pending_ok_same elim: option.rel_cases)
  qed
  moreover have "ts_source_ok s'" unfolding ts_source_ok_def
  proof (intro allI impI)
    fix x f r rng assume "hm_get (ts_source_pending s') (x, f, r) = Some rng"
    then obtain t where t: "hm_get (ts_local s) x = Some t" "reserved_ok t f rng"
      using src wf unfolding ts_wf_def ts_source_ok_def by blast
    then show "\<exists>t. hm_get (ts_local s') x = Some t \<and> reserved_ok t f rng"
      using loc [of x] by (auto simp: reserved_ok_same elim: option.rel_cases)
  qed
  ultimately show ?thesis using maps out by (simp add: ts_wf_def)
qed

lemma rel_option_same [simp]: "rel_option same_local x x" "rel_option same_remote y y"
  by (cases x; simp) (cases y; simp)

lemma ts_wf_maps:
  "ts_wf s \<Longrightarrow> hm_ok (ts_local s)" "ts_wf s \<Longrightarrow> hm_ok (ts_remote s)" "ts_wf s \<Longrightarrow> hm_ok (ts_pending s)"
  "ts_wf s \<Longrightarrow> hm_ok (ts_adapter_to_owner s)" "ts_wf s \<Longrightarrow> hm_ok (ts_source_pending s)"
  "ts_wf s \<Longrightarrow> hm_ok (ts_ui_to_owner s)" "ts_wf s \<Longrightarrow> ts_next_ui_id s \<noteq> 0"
  by (simp_all add: ts_wf_def ts_maps_ok_def)

lemma ts_drop_file_lookup:
  assumes "ts_wf s"
  shows "hm_get (ts_local (ts_drop_file s owner file_id)) x =
      (if x = owner then map_option (\<lambda>t. t\<lparr>lt_outgoing :=
         hm_retain (\<lambda>(candidate, _) _. candidate \<noteq> file_id) (lt_outgoing t)\<rparr>) (hm_get (ts_local s) x)
       else hm_get (ts_local s) x)"
    and "hm_get (ts_source_pending (ts_drop_file s owner file_id)) (x, f, r) =
      (if x = owner \<and> f = file_id then None else hm_get (ts_source_pending s) (x, f, r))"
    and "hm_get (ts_pending (ts_drop_file s owner file_id)) (x, f, r) =
      (if x = owner \<and> f = file_id then None else hm_get (ts_pending s) (x, f, r))"
  using ts_wf_maps [OF assms]
  by (auto simp: ts_drop_file_def Let_def hash_map split: option.split)

lemma ts_outgoingD:
  "ts_wf s \<Longrightarrow> hm_get (ts_local s) x = Some t \<Longrightarrow> hm_ok (lt_outgoing t)"
  "ts_wf s \<Longrightarrow> hm_get (ts_local s) x = Some t \<Longrightarrow> hm_get (lt_outgoing t) (f, r) = Some file \<Longrightarrow>
     of_file_id file = f \<and> hm_get (ts_source_pending s) (x, f, r) \<noteq> None"
  by (auto simp: ts_wf_def ts_outgoing_ok_def)

lemma ts_drop_file_wf:
  assumes "ts_wf s"
  shows "ts_wf (ts_drop_file s owner file_id)"
  using assms
proof (rule ts_wf_frame)
  show "ts_maps_ok (ts_drop_file s owner file_id)"
    using ts_wf_maps [OF assms]
    by (auto simp: ts_maps_ok_def ts_drop_file_def Let_def split: option.split)
  show "ts_outgoing_ok (ts_drop_file s owner file_id)"
    using ts_outgoingD [OF assms]
    by (auto simp: ts_outgoing_ok_def ts_drop_file_lookup [OF assms] hash_map split: if_splits option.splits)
qed (use ts_wf_maps [OF assms] in \<open>auto simp: ts_drop_file_def Let_def hash_map same_local_def
      split: option.splits if_splits\<close>)

lemma ts_cancel_owner_wf: "ts_wf s \<Longrightarrow> ts_wf (fst (ts_cancel_owner s owner file_id reason notify))"
  by (auto simp: ts_cancel_owner_def Let_def ts_remove_owner_wf ts_drop_file_wf
      split: option.split prod.split)

lemma ts_cancel_owners_wf: "ts_wf s \<Longrightarrow> ts_wf (fst (ts_cancel_owners s os reason notify))"
proof (induction os arbitrary: s)
  case (Cons x os)
  obtain s1 r where c: "ts_cancel_owner s x None reason notify = (s1, r)" by (rule prod.exhaust)
  then have "ts_wf s1" using ts_cancel_owner_wf [OF Cons.prems, of x None reason notify] by simp
  from Cons.IH [OF this] c show ?case by (simp add: Let_def case_prod_beta)
qed simp

section \<open>Adding a transfer\<close>

lemma allocate_loop_result:
  "next \<noteq> 0 \<Longrightarrow> fst (allocate_loop fuel start used next) \<noteq> 0"
  "snd (allocate_loop fuel start used next) = Inr u \<Longrightarrow> u \<noteq> 0 \<and> hm_get used u = None"
  by (induction fuel arbitrary: "next") (auto simp: Let_def next_id_nonzero split: if_splits)

lemma ts_allocate_ui_id_shape:
  fixes s :: "('p, 's) transfer_state"
  assumes "ts_wf s" and "ts_allocate_ui_id s = (s', r)"
  shows "\<exists>n. n \<noteq> 0 \<and> s' = s\<lparr>ts_next_ui_id := n\<rparr>"
    and "r = Inr u \<Longrightarrow> u \<noteq> 0 \<and> hm_get (ts_ui_to_owner s) u = None"
proof -
  let ?l = "allocate_loop (Suc (length (ts_ui_to_owner s))) (ts_next_ui_id s) (ts_ui_to_owner s)
      (ts_next_ui_id s) :: u64 \<times> ('p transfer_error + u64)"
  have l: "s' = s\<lparr>ts_next_ui_id := fst ?l\<rparr>" "r = snd ?l"
    using assms(2) by (simp_all add: ts_allocate_ui_id_def case_prod_beta Let_def del: allocate_loop.simps)
  have "fst ?l \<noteq> 0" using ts_wf_maps(7) [OF assms(1)] by (rule allocate_loop_result(1))
  with l(1) show "\<exists>n. n \<noteq> 0 \<and> s' = s\<lparr>ts_next_ui_id := n\<rparr>" by blast
  show "u \<noteq> 0 \<and> hm_get (ts_ui_to_owner s) u = None" if "r = Inr u"
  proof -
    have "snd ?l = Inr u" using l(2) that by (simp only:)
    then show ?thesis by (rule allocate_loop_result(2))
  qed
qed

lemma ts_next_id_wf: "ts_wf s \<Longrightarrow> n \<noteq> 0 \<Longrightarrow> ts_wf (s\<lparr>ts_next_ui_id := n\<rparr>)"
  by (rule ts_wf_frame [of s]) (auto simp: ts_wf_def ts_maps_ok_def ts_outgoing_ok_def)

lemma ts_adapter_ids_None:
  "ts_adapter_ids s x = None \<longleftrightarrow> hm_get (ts_local s) x = None \<and> hm_get (ts_remote s) x = None"
  "ts_transfer_ui_id s x = None \<longleftrightarrow> hm_get (ts_local s) x = None \<and> hm_get (ts_remote s) x = None"
  by (auto simp: ts_adapter_ids_def ts_transfer_ui_id_def split: option.splits)

text \<open>The owners an adapter transfer has after \<open>insert_mapping\<close>.\<close>

lemma ts_insert_mapping_adapter:
  assumes "ts_wf s" and "ts_adapter_ids s owner = None"
  shows "hm_get (ts_adapter_to_owner (ts_insert_mapping s u owner a t)) k =
    (if k = (a, t) then Some (ts_owners_for_adapter s a t @ [owner])
     else hm_get (ts_adapter_to_owner s) k)"
    and "distinct (ts_owners_for_adapter s a t @ [owner])"
    and "\<forall>x \<in> set (ts_owners_for_adapter s a t). map_option snd (ts_adapter_ids s x) = Some (a, t)"
proof -
  have ad: "ts_adapter_ok s" using assms(1) by (simp add: ts_wf_def)
  show *: "\<forall>x \<in> set (ts_owners_for_adapter s a t). map_option snd (ts_adapter_ids s x) = Some (a, t)"
    using ad by (cases "hm_get (ts_adapter_to_owner s) (a, t)")
      (auto simp: ts_adapter_ok_def ts_owners_for_adapter_def)
  then have "owner \<notin> set (ts_owners_for_adapter s a t)" using assms(2) by auto
  moreover have "distinct (ts_owners_for_adapter s a t)"
    using ad by (cases "hm_get (ts_adapter_to_owner s) (a, t)")
      (auto simp: ts_adapter_ok_def ts_owners_for_adapter_def)
  ultimately show "hm_get (ts_adapter_to_owner (ts_insert_mapping s u owner a t)) k =
      (if k = (a, t) then Some (ts_owners_for_adapter s a t @ [owner])
       else hm_get (ts_adapter_to_owner s) k)"
    and "distinct (ts_owners_for_adapter s a t @ [owner])"
    using ts_wf_maps [OF assms(1)] by (auto simp: ts_insert_mapping_def Let_def hash_map)
qed

definition ts_add_local ::
  "('p, 's) transfer_state \<Rightarrow> 'p transfer_owner \<Rightarrow> 's local_transfer \<Rightarrow> ('p, 's) transfer_state" where
  "ts_add_local s owner t =
     (let s3 = ts_insert_mapping s (lt_ui_id t) owner (lt_adapter_id t) (lt_adapter_transfer_id t)
      in s3\<lparr>ts_local := hm_insert owner t (ts_local s3)\<rparr>)"

definition ts_add_remote ::
  "('p, 's) transfer_state \<Rightarrow> 'p transfer_owner \<Rightarrow> remote_transfer \<Rightarrow> ('p, 's) transfer_state" where
  "ts_add_remote s owner t =
     (let s3 = ts_insert_mapping s (rt_ui_id t) owner (rt_adapter_id t) (rt_adapter_transfer_id t)
      in s3\<lparr>ts_remote := hm_insert owner t (ts_remote s3)\<rparr>)"

text \<open>What an added transfer leaves alone, and what it must not collide with.\<close>

lemma ts_add_parts:
  assumes wf: "ts_wf s" and new: "ts_adapter_ids s owner = None"
    and fresh: "hm_get (ts_ui_to_owner s) u = None"
    and ids: "\<And>x. ts_adapter_ids s' x = (if x = owner then Some (u, a, t) else ts_adapter_ids s x)"
    and uis: "\<And>x. ts_transfer_ui_id s' x = (if x = owner then Some u else ts_transfer_ui_id s x)"
    and s': "ts_ui_to_owner s' = hm_insert u owner (ts_ui_to_owner s)"
      "ts_adapter_to_owner s' = ts_adapter_to_owner (ts_insert_mapping s u owner a t)"
  shows "ts_ui_ok s'" and "ts_adapter_ok s'"
proof -
  have ui: "ts_ui_ok s" and ad: "ts_adapter_ok s" using wf by (auto simp: ts_wf_def)
  have no_owner: "hm_get (ts_ui_to_owner s) v \<noteq> Some owner" for v
    using ui new by (auto simp: ts_ui_ok_def ts_adapter_ids_None ts_transfer_ui_id_def)
  have no_u: "ts_transfer_ui_id s x \<noteq> Some u" for x using ui fresh by (metis ts_ui_ok_def option.distinct(1))
  show "ts_ui_ok s'" unfolding ts_ui_ok_def
  proof (intro allI)
    fix v x
    show "hm_get (ts_ui_to_owner s') v = Some x \<longleftrightarrow> ts_transfer_ui_id s' x = Some v"
      using ui no_u [of x] no_owner by (auto simp: s' uis hash_map ts_ui_ok_def)
  qed
  note m = ts_insert_mapping_adapter [OF wf new, where a = a and t = t]
  show "ts_adapter_ok s'" unfolding ts_adapter_ok_def
  proof (intro allI impI)
    fix k os assume k: "hm_get (ts_adapter_to_owner s') k = Some os"
    show "os \<noteq> [] \<and> distinct os \<and> (\<forall>x \<in> set os. map_option snd (ts_adapter_ids s' x) = Some k)"
    proof (cases "k = (a, t)")
      case True
      then have "os = ts_owners_for_adapter s a t @ [owner]" using k m(1) by (simp add: s')
      then show ?thesis using m(2,3) True by (auto simp: ids)
    next
      case False
      then have "hm_get (ts_adapter_to_owner s) k = Some os" using k m(1) by (simp add: s')
      then have "os \<noteq> [] \<and> distinct os \<and> (\<forall>x \<in> set os. map_option snd (ts_adapter_ids s x) = Some k)"
        using ad unfolding ts_adapter_ok_def by blast
      then show ?thesis using new by (auto simp: ids)
    qed
  qed
qed

lemma ts_add_local_wf:
  assumes wf: "ts_wf s" and new: "ts_adapter_ids s owner = None"
    and fresh: "hm_get (ts_ui_to_owner s) (lt_ui_id t) = None" and out: "lt_outgoing t = []"
  shows "ts_wf (ts_add_local s owner t)" (is "ts_wf ?s")
proof -
  have new': "hm_get (ts_local s) owner = None" "hm_get (ts_remote s) owner = None"
    using new by (auto simp: ts_adapter_ids_None)
  have loc: "hm_get (ts_local ?s) x = (if x = owner then Some t else hm_get (ts_local s) x)"
    and rem: "ts_remote ?s = ts_remote s" "ts_pending ?s = ts_pending s"
      "ts_source_pending ?s = ts_source_pending s" for x
    by (simp_all add: ts_add_local_def ts_insert_mapping_def Let_def hash_map)
  have ids: "ts_adapter_ids ?s x = (if x = owner then Some (lt_ui_id t, lt_adapter_id t,
        lt_adapter_transfer_id t) else ts_adapter_ids s x)"
    and uis: "ts_transfer_ui_id ?s x = (if x = owner then Some (lt_ui_id t) else ts_transfer_ui_id s x)"
    for x by (auto simp: ts_adapter_ids_def ts_transfer_ui_id_def loc rem(1) split: option.split)
  have idx: "ts_ui_to_owner ?s = hm_insert (lt_ui_id t) owner (ts_ui_to_owner s)"
    "ts_adapter_to_owner ?s = ts_adapter_to_owner (ts_insert_mapping s (lt_ui_id t) owner
       (lt_adapter_id t) (lt_adapter_transfer_id t))"
    by (simp_all add: ts_add_local_def ts_insert_mapping_def Let_def)
  note parts = ts_add_parts [OF wf new fresh ids uis idx]
  have "ts_maps_ok ?s"
    using ts_wf_maps [OF wf] by (simp add: ts_maps_ok_def ts_add_local_def ts_insert_mapping_def Let_def)
  moreover have "ts_disjoint ?s" using wf new' by (auto simp: ts_wf_def ts_disjoint_def loc rem)
  moreover have "ts_pending_ok ?s" using wf by (simp add: ts_wf_def ts_pending_ok_def rem)
  moreover have "ts_source_ok ?s"
    using wf new' unfolding ts_wf_def ts_source_ok_def loc rem by (metis option.distinct(1))
  moreover have "ts_outgoing_ok ?s"
    using wf out by (auto simp: ts_wf_def ts_outgoing_ok_def loc rem hash_map)
  ultimately show ?thesis using parts by (simp add: ts_wf_def)
qed

lemma ts_add_remote_wf:
  assumes wf: "ts_wf s" and new: "ts_adapter_ids s owner = None"
    and fresh: "hm_get (ts_ui_to_owner s) (rt_ui_id t) = None"
  shows "ts_wf (ts_add_remote s owner t)" (is "ts_wf ?s")
proof -
  have new': "hm_get (ts_local s) owner = None" "hm_get (ts_remote s) owner = None"
    using new by (auto simp: ts_adapter_ids_None)
  have rem: "hm_get (ts_remote ?s) x = (if x = owner then Some t else hm_get (ts_remote s) x)"
    and loc: "ts_local ?s = ts_local s" "ts_pending ?s = ts_pending s"
      "ts_source_pending ?s = ts_source_pending s" for x
    by (simp_all add: ts_add_remote_def ts_insert_mapping_def Let_def hash_map)
  have ids: "ts_adapter_ids ?s x = (if x = owner then Some (rt_ui_id t, rt_adapter_id t,
        rt_adapter_transfer_id t) else ts_adapter_ids s x)"
    and uis: "ts_transfer_ui_id ?s x = (if x = owner then Some (rt_ui_id t) else ts_transfer_ui_id s x)"
    for x using new' by (auto simp: ts_adapter_ids_def ts_transfer_ui_id_def loc(1) rem split: option.split)
  have idx: "ts_ui_to_owner ?s = hm_insert (rt_ui_id t) owner (ts_ui_to_owner s)"
    "ts_adapter_to_owner ?s = ts_adapter_to_owner (ts_insert_mapping s (rt_ui_id t) owner
       (rt_adapter_id t) (rt_adapter_transfer_id t))"
    by (simp_all add: ts_add_remote_def ts_insert_mapping_def Let_def)
  note parts = ts_add_parts [OF wf new fresh ids uis idx]
  have "ts_maps_ok ?s"
    using ts_wf_maps [OF wf] by (simp add: ts_maps_ok_def ts_add_remote_def ts_insert_mapping_def Let_def)
  moreover have "ts_disjoint ?s" using wf new' by (auto simp: ts_wf_def ts_disjoint_def loc rem)
  moreover have "ts_source_ok ?s" "ts_outgoing_ok ?s"
    using wf by (auto simp: ts_wf_def ts_source_ok_def ts_outgoing_ok_def loc)
  moreover have "ts_pending_ok ?s"
    using wf new' unfolding ts_wf_def ts_pending_ok_def loc rem by (metis option.distinct(1))
  ultimately show ?thesis using parts by (simp add: ts_wf_def)
qed

text \<open>Cancelling never brings an owner or an adapter transfer back.\<close>

lemma ts_cancel_owner_absent:
  assumes "ts_wf s" and "ts_adapter_ids s owner = None"
  shows "ts_adapter_ids (fst (ts_cancel_owner s x None reason notify)) owner = None"
  using assms ts_remove_owner_ids [OF assms(1), of x owner]
  by (auto simp: ts_cancel_owner_def Let_def split: option.split prod.split)

lemma ts_cancel_owners_absent:
  "ts_wf s \<Longrightarrow> ts_adapter_ids s owner = None \<Longrightarrow>
   ts_adapter_ids (fst (ts_cancel_owners s os reason notify)) owner = None"
proof (induction os arbitrary: s)
  case (Cons x os)
  obtain s1 r where c: "ts_cancel_owner s x None reason notify = (s1, r)" by (rule prod.exhaust)
  then have "ts_wf s1" "ts_adapter_ids s1 owner = None"
    using ts_cancel_owner_wf [OF Cons.prems(1), of x None reason notify]
      ts_cancel_owner_absent [OF Cons.prems, of x reason notify] by simp_all
  from Cons.IH [OF this] c show ?case by (simp add: Let_def case_prod_beta)
qed simp

section \<open>Every operation preserves the invariant\<close>

text \<open>Superseding old offers and allocating an id, as both kinds of new offers do.\<close>

lemma ts_make_room:
  assumes wf: "ts_wf s" and c: "ts_cancel_owners s os reason notify = (s1, stale)"
    and al: "ts_allocate_ui_id s1 = (s2, r)"
  shows "ts_wf s2" and "ts_adapter_ids s owner = None \<Longrightarrow> ts_adapter_ids s2 owner = None"
    and "r = Inr u \<Longrightarrow> hm_get (ts_ui_to_owner s2) u = None"
proof -
  have wf1: "ts_wf s1" using ts_cancel_owners_wf [OF wf, of os reason notify] c by simp
  from ts_allocate_ui_id_shape [OF wf1 al] obtain n where n: "n \<noteq> 0" "s2 = s1\<lparr>ts_next_ui_id := n\<rparr>"
    and fresh: "r = Inr u \<Longrightarrow> hm_get (ts_ui_to_owner s1) u = None" by auto
  show "ts_wf s2" using ts_next_id_wf [OF wf1 n(1)] n(2) by simp
  show "r = Inr u \<Longrightarrow> hm_get (ts_ui_to_owner s2) u = None" using fresh n(2) by simp
  show "ts_adapter_ids s2 owner = None" if "ts_adapter_ids s owner = None"
    using ts_cancel_owners_absent [OF wf that, of os reason notify] c n(2)
    by (simp add: ts_adapter_ids_None)
qed

lemma ts_local_copy_manifest_wf:
  assumes wf: "ts_wf s"
  shows "ts_wf (fst (ts_local_copy_manifest s peer wire_id aid mtid operation offer))"
proof -
  let ?o = "\<lparr>ow_peer = peer, ow_wire_id = wire_id\<rparr>"
  let ?sup = "map fst (filter (\<lambda>(c, t). ow_peer c = peer \<and> \<not> lt_announced t) (ts_local s))"
  obtain s1 stale where c: "ts_cancel_owners s ?sup User True = (s1, stale)" by (rule prod.exhaust)
  obtain s2 r where al: "ts_allocate_ui_id s1 = (s2, r)" by (rule prod.exhaust)
  note room = ts_make_room [OF wf c al]
  show ?thesis
  proof (cases "ts_adapter_ids s ?o")
    case (Some x)
    then have "ts_ensure_owner_available s ?o = Inl (DuplicateOwner ?o)"
      by (auto simp: ts_ensure_owner_available_def ts_adapter_ids_def split: option.splits)
    with wf show ?thesis by (simp add: ts_local_copy_manifest_def Let_def)
  next
    case None
    have "ts_wf (ts_add_local s2 ?o \<lparr>lt_ui_id = u, lt_adapter_id = aid, lt_adapter_transfer_id = mtid,
        lt_offer = offer, lt_outgoing = [], lt_announced = False, lt_transferred_by_file = []\<rparr>)"
      if "r = Inr u" for u
      using room(3) [OF that] by (intro ts_add_local_wf [OF room(1) room(2) [OF None]]) simp_all
    with wf c al room(1) show ?thesis
      by (auto simp: ts_local_copy_manifest_def Let_def ts_add_local_def split: sum.split)
  qed
qed

lemma ts_inbound_manifest_wf:
  assumes wf: "ts_wf s"
  shows "ts_wf (fst (ts_inbound_manifest s peer aid atid wire_id operation entries))"
proof -
  let ?o = "\<lparr>ow_peer = peer, ow_wire_id = wire_id\<rparr>"
  let ?sup = "filter (\<lambda>candidate. ow_peer candidate = peer) (map fst (ts_remote s))"
  obtain s1 stale where c: "ts_cancel_owners s ?sup User False = (s1, stale)" by (rule prod.exhaust)
  obtain s2 r where al: "ts_allocate_ui_id s1 = (s2, r)" by (rule prod.exhaust)
  note room = ts_make_room [OF wf c al]
  show ?thesis
  proof (cases "ts_adapter_ids s ?o")
    case (Some x)
    then have "ts_ensure_owner_available s ?o = Inl (DuplicateOwner ?o)"
      by (auto simp: ts_ensure_owner_available_def ts_adapter_ids_def split: option.splits)
    with wf show ?thesis by (simp add: ts_inbound_manifest_def ts_ensure_ids_available_def Let_def)
  next
    case None
    have "ts_wf (ts_add_remote s2 ?o \<lparr>rt_ui_id = u, rt_adapter_id = aid, rt_adapter_transfer_id = atid,
        rt_operation = operation, rt_entries = foldl (\<lambda>m e. hm_insert (me_file_id e) e m) [] entries,
        rt_announced = False, rt_transferred_by_file = []\<rparr>)" if "r = Inr u" for u
      using room(3) [OF that] by (intro ts_add_remote_wf [OF room(1) room(2) [OF None]]) simp_all
    with wf c al room(1) show ?thesis
      by (auto simp: ts_inbound_manifest_def Let_def ts_add_remote_def split: sum.split)
  qed
qed

text \<open>The elementary updates of the other operations.\<close>

lemma ts_put_local_wf:
  assumes wf: "ts_wf s" and t: "hm_get (ts_local s) x = Some t" and same: "same_local t t'"
    and out: "hm_ok (lt_outgoing t')"
      "\<And>f r file. hm_get (lt_outgoing t') (f, r) = Some file \<Longrightarrow>
         of_file_id file = f \<and> hm_get (ts_source_pending s) (x, f, r) \<noteq> None"
  shows "ts_wf (s\<lparr>ts_local := hm_insert x t' (ts_local s)\<rparr>)"
  using wf
proof (rule ts_wf_frame)
  show "ts_outgoing_ok (s\<lparr>ts_local := hm_insert x t' (ts_local s)\<rparr>)"
    using ts_outgoingD [OF wf] out by (auto simp: ts_outgoing_ok_def hash_map)
qed (use ts_wf_maps [OF wf] t same in \<open>auto simp: ts_maps_ok_def hash_map\<close>)

lemma ts_put_remote_wf:
  assumes wf: "ts_wf s" and t: "hm_get (ts_remote s) x = Some t" and same: "same_remote t t'"
  shows "ts_wf (s\<lparr>ts_remote := hm_insert x t' (ts_remote s)\<rparr>)"
  using wf
proof (rule ts_wf_frame)
  show "ts_outgoing_ok (s\<lparr>ts_remote := hm_insert x t' (ts_remote s)\<rparr>)"
    using wf by (simp add: ts_wf_def ts_outgoing_ok_def)
qed (use ts_wf_maps [OF wf] t same in \<open>auto simp: ts_maps_ok_def hash_map\<close>)

lemma ts_put_pending_wf:
  assumes wf: "ts_wf s" and t: "hm_get (ts_remote s) x = Some t" and pg: "pending_ok t x f r pg"
  shows "ts_wf (s\<lparr>ts_pending := hm_insert (x, f, r) pg (ts_pending s)\<rparr>)"
  using wf
proof (rule ts_wf_frame)
  show "ts_outgoing_ok (s\<lparr>ts_pending := hm_insert (x, f, r) pg (ts_pending s)\<rparr>)"
    using wf by (simp add: ts_wf_def ts_outgoing_ok_def)
qed (use ts_wf_maps [OF wf] t pg in \<open>auto simp: ts_maps_ok_def hash_map split: if_splits\<close>)

lemma ts_del_pending_wf:
  assumes wf: "ts_wf s"
  shows "ts_wf (s\<lparr>ts_pending := hm_remove i (ts_pending s)\<rparr>)"
  using wf
proof (rule ts_wf_frame)
  show "ts_outgoing_ok (s\<lparr>ts_pending := hm_remove i (ts_pending s)\<rparr>)"
    using wf by (simp add: ts_wf_def ts_outgoing_ok_def)
qed (use ts_wf_maps [OF wf] in \<open>auto simp: ts_maps_ok_def hash_map split: if_splits\<close>)

lemma ts_put_source_wf:
  assumes wf: "ts_wf s" and t: "hm_get (ts_local s) x = Some t" and rng: "reserved_ok t f rng"
  shows "ts_wf (s\<lparr>ts_source_pending := hm_insert (x, f, r) rng (ts_source_pending s)\<rparr>)"
  using wf
proof (rule ts_wf_frame)
  show "ts_outgoing_ok (s\<lparr>ts_source_pending := hm_insert (x, f, r) rng (ts_source_pending s)\<rparr>)"
    using ts_outgoingD [OF wf] by (auto simp: ts_outgoing_ok_def hash_map)
qed (use ts_wf_maps [OF wf] t rng in \<open>auto simp: ts_maps_ok_def hash_map split: if_splits\<close>)

lemma ts_del_adapter_wf:
  assumes wf: "ts_wf s"
  shows "ts_wf (s\<lparr>ts_adapter_to_owner := hm_remove k (ts_adapter_to_owner s)\<rparr>)"
  using wf
proof (rule ts_wf_frame)
  show "ts_outgoing_ok (s\<lparr>ts_adapter_to_owner := hm_remove k (ts_adapter_to_owner s)\<rparr>)"
    using wf by (simp add: ts_wf_def ts_outgoing_ok_def)
qed (use ts_wf_maps [OF wf] in \<open>auto simp: ts_maps_ok_def hash_map split: if_splits\<close>)

lemma ts_announce_local_wf: "ts_wf s \<Longrightarrow> ts_wf (ts_announce_local s owner)"
  by (auto simp: ts_announce_local_def same_local_def ts_outgoingD
      intro!: ts_put_local_wf dest: ts_outgoingD split: option.split)

lemma ts_announce_remote_wf: "ts_wf s \<Longrightarrow> ts_wf (ts_announce_remote s owner)"
  by (auto simp: ts_announce_remote_def same_remote_def intro!: ts_put_remote_wf split: option.split)

lemma ts_source_range_served_wf:
  assumes wf: "ts_wf s"
  shows "ts_wf (ts_source_range_served s owner f r)"
  using wf
proof (rule ts_wf_frame)
  show "ts_outgoing_ok (ts_source_range_served s owner f r)"
    using ts_outgoingD [OF wf] ts_wf_maps [OF wf]
    by (auto simp: ts_outgoing_ok_def ts_source_range_served_def hash_map split: option.splits if_splits)
qed (use ts_wf_maps [OF wf] in \<open>auto simp: ts_maps_ok_def ts_source_range_served_def hash_map
      same_local_def split: option.splits if_splits\<close>)

lemma ts_validate_range_ok:
  "ts_validate_range sz x l = Inr () \<longleftrightarrow>
     0 < unat l \<and> unat l \<le> MAX_CLIPBOARD_FILE_CHUNK_SIZE \<and> unat x + unat l \<le> unat sz"
proof (cases "checked_add x l")
  case None
  then have "2 ^ 64 \<le> unat x + unat l" by (simp add: checked_add_def split: if_splits)
  moreover have "unat sz < 2 ^ 64" using unsigned_less [of sz, where 'a = nat] by simp
  ultimately have "\<not> unat x + unat l \<le> unat sz" by linarith
  with None show ?thesis by (simp add: ts_validate_range_def)
next
  case (Some e)
  then have "unat e = unat x + unat l" by (simp add: checked_add_Some_iff)
  with Some show ?thesis
    by (auto simp: ts_validate_range_def unat_gt_0 not_less word_less_nat_alt)
qed

end
