(* ===== verification/Transfer_Steps.thy ===== *)
theory Transfer_Steps
  imports Transfer_Invariant
begin

text \<open>
  The file-transfer state machine as a sequence of operations: every operation preserves the
  invariant of \<open>Transfer_Invariant\<close>, so it holds in every reachable state; a lost peer leaves
  nothing behind; an adapter gets one answer for a range request, with the bytes of that range.
\<close>

section \<open>The remaining operations preserve the invariant\<close>

lemma pending_ok_new:
  assumes "cv_new (ow_wire_id owner) f r x l = Inr v" and "hm_get (rt_entries t) f = Some e"
    and "me_kind e = File" and "ts_validate_range (me_size e) x l = (Inr () :: 'p transfer_error + unit)"
  shows "pending_ok t (owner :: 'p transfer_owner) f r
    \<lparr>pg_key = \<lparr>pk_owner = owner, pk_file_id = f, pk_request_id = r, pk_offset = x, pk_length = l\<rparr>,
     pg_validator = v, pg_received = 0, pg_hasher = [], pg_chunk = []\<rparr>"
  using assms cv_new_wf [OF assms(1)]
  by (auto simp: pending_ok_def ts_validate_range_ok cv_new_def rbind_eq_Inr_iff cv_identity_def
      split: if_splits)

lemma pending_ok_chunk:
  assumes pg: "pending_ok t owner f r pg"
    and c: "cv_validate_chunk (pg_validator pg) (ow_wire_id owner) f r x (length data) = Inr v"
  shows "pending_ok t owner f r (pg\<lparr>pg_validator := v, pg_received := word_of_nat (length data),
      pg_hasher := pg_hasher pg @ data, pg_chunk := data\<rparr>)"
    and "pg_chunk pg = []" and "x = pk_offset (pg_key pg)" and "data \<noteq> []"
proof -
  have wf: "cv_wf (pg_validator pg)" using pg by (simp add: pending_ok_def Let_def)
  note k = cv_validate_chunk_Inr [OF wf c]
  have same: "cv_offset v = cv_offset (pg_validator pg)" "cv_length v = cv_length (pg_validator pg)"
    using c by (auto simp: cv_validate_chunk_def rbind_eq_Inr_iff split: if_splits option.splits)
  show "pg_chunk pg = []" using k(3) pg by (auto simp: pending_ok_def Let_def)
  show "x = pk_offset (pg_key pg)" using k(6) pg by (simp add: pending_ok_def Let_def)
  show "data \<noteq> []" using k(7) by auto
  with pg k same \<open>pg_chunk pg = []\<close> show "pending_ok t owner f r (pg\<lparr>pg_validator := v,
      pg_received := word_of_nat (length data), pg_hasher := pg_hasher pg @ data, pg_chunk := data\<rparr>)"
    by (auto simp: pending_ok_def Let_def)
qed

lemma ts_pendingD:
  assumes "ts_wf s" and "hm_get (ts_pending s) (x, f, r) = Some pg"
  obtains t where "hm_get (ts_remote s) x = Some t" and "pending_ok t x f r pg"
  using assms unfolding ts_wf_def ts_pending_ok_def by blast

lemma ts_adapter_range_request_wf:
  fixes s :: "('p, 's) transfer_state"
  assumes wf: "ts_wf s"
  shows "ts_wf (fst (ts_adapter_range_request s aid tid rid eid x len32))"
proof -
  have "ts_wf (ts_announce_remote (s\<lparr>ts_pending := hm_insert (owner, eid, rid)
      \<lparr>pg_key = \<lparr>pk_owner = owner, pk_file_id = eid, pk_request_id = rid, pk_offset = x,
         pk_length = ucast len32\<rparr>, pg_validator = v, pg_received = 0, pg_hasher = [], pg_chunk = []\<rparr>
      (ts_pending s)\<rparr>) owner)"
    if "hm_get (ts_remote s) owner = Some t" "hm_get (rt_entries t) eid = Some e" "me_kind e = File"
      "ts_validate_range (me_size e) x (ucast len32) = (Inr () :: 'p transfer_error + unit)"
      "cv_new (ow_wire_id owner) eid rid x (ucast len32) = Inr v" for owner t e v
    using ts_put_pending_wf [OF wf that(1) pending_ok_new [OF that(5,2,3,4)]] by (rule ts_announce_remote_wf)
  with wf show ?thesis
    by (simp add: ts_adapter_range_request_def Let_def split: list.split option.split sum.split)
qed

lemma ts_record_progress_wf:
  assumes wf: "ts_wf s"
  shows "ts_wf (ts_record_progress n s owner)"
  using wf
proof (rule ts_wf_frame)
  show "ts_outgoing_ok (ts_record_progress n s owner)"
    using ts_outgoingD [OF wf]
    by (auto simp: ts_outgoing_ok_def ts_record_progress_def hash_map split: option.splits if_splits)
qed (use ts_wf_maps [OF wf] in \<open>auto simp: ts_maps_ok_def ts_record_progress_def hash_map
      same_local_def same_remote_def split: option.splits if_splits\<close>)

lemma foldl_record_progress_wf: "ts_wf s \<Longrightarrow> ts_wf (foldl (ts_record_progress n) s os)"
  by (induction os arbitrary: s) (simp_all add: ts_record_progress_wf)

lemma ts_adapter_progress_wf: "ts_wf s \<Longrightarrow> ts_wf (fst (ts_adapter_progress s aid tid c n))"
  using foldl_record_progress_wf [of s]
  by (auto simp: ts_adapter_progress_def Let_def ts_record_progress_wf foldl_record_progress_wf
      split: list.split option.split)

lemma ts_finish_owners_wf: "ts_wf s \<Longrightarrow> ts_wf (fst (ts_finish_owners mk s os))"
  by (induction os arbitrary: s)
    (auto simp: Let_def case_prod_beta ts_remove_owner_wf split: option.split)

lemma ts_finish_adapter_wf: "ts_wf s \<Longrightarrow> ts_wf (fst (ts_finish_adapter mk s aid tid))"
  using ts_finish_owners_wf [of s mk]
  by (simp add: ts_finish_adapter_def del: ts_finish_owners.simps split: list.split)

lemma ts_release_owners_wf: "ts_wf s \<Longrightarrow> ts_wf (fst (ts_release_owners s os))"
  by (induction os arbitrary: s)
    (auto simp: Let_def case_prod_beta ts_remove_owner_wf split: option.split)

lemma ts_adapter_released_wf: "ts_wf s \<Longrightarrow> ts_wf (fst (ts_adapter_released s aid tid))"
  by (auto simp: ts_adapter_released_def Let_def case_prod_beta ts_release_owners_wf ts_del_adapter_wf
      split: option.split)

lemma ts_source_file_request_wf:
  fixes s :: "('p, 's) transfer_state"
  assumes wf: "ts_wf s"
  shows "ts_wf (fst (ts_source_file_request s peer w f r x l))"
proof -
  let ?o = "\<lparr>ow_peer = peer, ow_wire_id = w\<rparr>"
  have "ts_wf (ts_announce_local (s\<lparr>ts_source_pending :=
      hm_insert (?o, f, r) (x, l) (ts_source_pending s)\<rparr>) ?o)"
    if "hm_get (ts_local s) ?o = Some t" "find (\<lambda>e. me_file_id e = f) (fo_entries (lt_offer t)) = Some e"
      "me_kind e = File" "ts_validate_range (me_size e) x l = (Inr () :: 'p transfer_error + unit)" for t e
    using that(2-) by (intro ts_announce_local_wf ts_put_source_wf [OF wf that(1)])
      (auto simp: reserved_ok_def ts_validate_range_ok)
  with wf show ?thesis
    by (simp add: ts_source_file_request_def Let_def split: option.split sum.split)
qed

lemma ts_insert_outgoing_file_wf:
  assumes wf: "ts_wf s"
  shows "ts_wf (fst (ts_insert_outgoing_file s owner f r x l file))"
proof -
  have "ts_wf (s\<lparr>ts_local := hm_insert owner (t\<lparr>lt_outgoing :=
      hm_insert (of_file_id file, r) file (lt_outgoing t)\<rparr>) (ts_local s)\<rparr>)"
    if "hm_get (ts_local s) owner = Some t"
      "hm_get (ts_source_pending s) (owner, of_file_id file, r) \<noteq> None" for t
    using that ts_outgoingD [OF wf that(1)]
    by (intro ts_put_local_wf [OF wf that(1)])
      (auto simp: same_local_def hash_map split: if_splits)
  with wf show ?thesis
    by (auto simp: ts_insert_outgoing_file_def split: option.split)
qed

lemma ts_source_complete_wf: "ts_wf s \<Longrightarrow> ts_wf (fst (ts_source_complete s owner f r sz d))"
  by (auto simp: ts_source_complete_def ts_source_range_served_wf split: option.split)

lemma ts_inbound_chunk_wf:
  assumes wf: "ts_wf s"
  shows "ts_wf (fst (ts_inbound_chunk b64 s peer w f r x data))"
proof -
  let ?o = "\<lparr>ow_peer = peer, ow_wire_id = w\<rparr>"
  have put: "ts_wf (s\<lparr>ts_pending := hm_insert (?o, f, r)
      (pg\<lparr>pg_validator := v, pg_received := word_of_nat (length data),
         pg_hasher := pg_hasher pg @ data, pg_chunk := data\<rparr>) (ts_pending s)\<rparr>)"
    if pg: "hm_get (ts_pending s) (?o, f, r) = Some pg"
      and c: "cv_validate_chunk (pg_validator pg) w f r x (length data) = Inr v" for pg v
  proof -
    from ts_pendingD [OF wf pg] obtain t where t: "hm_get (ts_remote s) ?o = Some t"
      "pending_ok t ?o f r pg" .
    from pending_ok_chunk(1) [OF t(2), of x data v] c show ?thesis
      by (intro ts_put_pending_wf [OF wf t(1)]) simp
  qed
  show ?thesis
    using wf put ts_del_pending_wf [OF put]
    by (auto simp: ts_inbound_chunk_def Let_def split: option.split sum.split)
qed

lemma ts_inbound_complete_wf:
  "ts_wf s \<Longrightarrow> ts_wf (fst (ts_inbound_complete sha b64 s peer w f r sz d))"
  using ts_del_pending_wf [of s]
  by (auto simp: ts_inbound_complete_def Let_def split: option.split)

lemma ts_handle_protocol_wf: "ts_wf s \<Longrightarrow> ts_wf (fst (ts_handle_protocol sha b64 s peer e))"
  by (cases e) (simp_all add: ts_handle_protocol_def ts_inbound_chunk_wf ts_inbound_complete_wf
      ts_source_file_request_wf ts_inbound_cancel_def ts_cancel_owner_wf)

section \<open>Runs\<close>

text \<open>The operations of the state machine, with the arguments of the methods.\<close>

datatype (plugins only: code) ('p, 's) ts_op =
    DoSetFileClipboardAdapter rstring
  | DoLocalCopyManifest 'p u64 rstring rstring operation "'s file_offer"
  | DoAnnounceLocal "'p transfer_owner"
  | DoInboundManifest 'p rstring rstring u64 operation "clipboard_manifest_entry list"
  | DoAnnounceRemote "'p transfer_owner"
  | DoAdapterRangeRequest rstring rstring u64 u64 u64 u32
  | DoAdapterMountReady rstring rstring "rstring list"
  | DoAdapterProgress rstring rstring "u64 option" "u64 option"
  | DoAdapterCompleted rstring rstring bool "rstring option"
  | DoAdapterCancelled rstring rstring
  | DoAdapterReleased rstring rstring
  | DoAdapterUnmounted rstring rstring bool "rstring option"
  | DoInsertOutgoingFile "'p transfer_owner" u64 u64 u64 u64 "'s outgoing_file"
  | DoSourceChunk "'p transfer_owner" u64 u64 u64 bytes
  | DoSourceRangeServed "'p transfer_owner" u64 u64
  | DoSourceComplete "'p transfer_owner" u64 u64 u64 bytes
  | DoHandleProtocol 'p proto_event
  | DoCancelUi u64 "u64 option" clipboard_cancel_reason
  | DoPeerLost 'p
  | DoAdapterLost rstring

definition ts_ok :: "('p, 's) transfer_state \<times> ('p, 's) transfer_action list \<Rightarrow> ('p, 's) ts_result" where
  "ts_ok r = (fst r, Inr (snd r))"

fun ts_apply ::
  "(bytes \<Rightarrow> bytes) \<Rightarrow> (bytes \<Rightarrow> rstring) \<Rightarrow> ('p, 's) transfer_state \<Rightarrow> ('p, 's) ts_op \<Rightarrow> ('p, 's) ts_result" where
  "ts_apply sha b64 s (DoSetFileClipboardAdapter a) = (ts_set_file_clipboard_adapter s a, Inr [])"
| "ts_apply sha b64 s (DoLocalCopyManifest p w a t x fo) = ts_local_copy_manifest s p w a t x fo"
| "ts_apply sha b64 s (DoAnnounceLocal owner) = (ts_announce_local s owner, Inr [])"
| "ts_apply sha b64 s (DoInboundManifest p a t w x es) = ts_inbound_manifest s p a t w x es"
| "ts_apply sha b64 s (DoAnnounceRemote owner) = (ts_announce_remote s owner, Inr [])"
| "ts_apply sha b64 s (DoAdapterRangeRequest a t r e x l) = ts_adapter_range_request s a t r e x l"
| "ts_apply sha b64 s (DoAdapterMountReady a t uris) = ts_adapter_mount_ready s a t uris"
| "ts_apply sha b64 s (DoAdapterProgress a t c n) = ts_adapter_progress s a t c n"
| "ts_apply sha b64 s (DoAdapterCompleted a t ok e) = ts_adapter_completed s a t ok e"
| "ts_apply sha b64 s (DoAdapterCancelled a t) = ts_adapter_cancelled s a t"
| "ts_apply sha b64 s (DoAdapterReleased a t) = ts_adapter_released s a t"
| "ts_apply sha b64 s (DoAdapterUnmounted a t ok e) = ts_adapter_unmounted s a t ok e"
| "ts_apply sha b64 s (DoInsertOutgoingFile owner f r x l file) =
     (let (s', res) = ts_insert_outgoing_file s owner f r x l file in (s', rbind res (\<lambda>_. Inr [])))"
| "ts_apply sha b64 s (DoSourceChunk owner f r x d) = (s, ts_source_chunk s owner f r x d)"
| "ts_apply sha b64 s (DoSourceRangeServed owner f r) = (ts_source_range_served s owner f r, Inr [])"
| "ts_apply sha b64 s (DoSourceComplete owner f r sz d) = ts_source_complete s owner f r sz d"
| "ts_apply sha b64 s (DoHandleProtocol p e) = ts_handle_protocol sha b64 s p e"
| "ts_apply sha b64 s (DoCancelUi u f reason) = ts_cancel_ui s u f reason"
| "ts_apply sha b64 s (DoPeerLost p) = ts_ok (ts_peer_lost s p)"
| "ts_apply sha b64 s (DoAdapterLost a) = ts_ok (ts_adapter_lost s a)"

inductive ts_reachable :: "(bytes \<Rightarrow> bytes) \<Rightarrow> (bytes \<Rightarrow> rstring) \<Rightarrow> ('p, 's) transfer_state \<Rightarrow> bool"
  for sha b64 where
  start: "ts_reachable sha b64 ts_default"
| step: "ts_reachable sha b64 s \<Longrightarrow> ts_reachable sha b64 (fst (ts_apply sha b64 s op))"

lemmas ts_wf_ops =
  ts_local_copy_manifest_wf ts_announce_local_wf ts_inbound_manifest_wf ts_announce_remote_wf
  ts_adapter_range_request_wf ts_adapter_progress_wf ts_finish_adapter_wf ts_adapter_released_wf
  ts_insert_outgoing_file_wf ts_source_range_served_wf ts_source_complete_wf ts_handle_protocol_wf
  ts_cancel_owner_wf ts_cancel_owners_wf

lemma ts_set_adapter_wf: "ts_wf s \<Longrightarrow> ts_wf (ts_set_file_clipboard_adapter s a)"
  by (rule ts_wf_frame [of s])
    (auto simp: ts_set_file_clipboard_adapter_def ts_wf_def ts_maps_ok_def ts_outgoing_ok_def)

lemma ts_apply_wf: "ts_wf s \<Longrightarrow> ts_wf (fst (ts_apply sha b64 s op))"
  by (cases op)
    (auto simp: ts_wf_ops ts_set_adapter_wf ts_adapter_mount_ready_def ts_adapter_completed_def
      ts_adapter_cancelled_def ts_adapter_unmounted_def ts_cancel_ui_def ts_peer_lost_def
      ts_adapter_lost_def ts_ok_def case_prod_beta Let_def split: list.split option.split)

lemma ts_reachable_wf: "ts_reachable sha b64 s \<Longrightarrow> ts_wf s"
  by (induction rule: ts_reachable.induct) (simp_all add: ts_default_wf ts_apply_wf)

text \<open>Cancelling a list of owners removes these and keeps the others.\<close>

lemma ts_cancel_owner_lookup:
  fixes x :: "'p transfer_owner" and reason notify
  assumes "ts_wf s"
  defines "s' \<equiv> fst (ts_cancel_owner s x None reason notify)"
  shows "hm_get (ts_local s') y = (if y = x then None else hm_get (ts_local s) y)"
    and "hm_get (ts_remote s') y = (if y = x then None else hm_get (ts_remote s) y)"
    and "hm_get (ts_pending s') (y, f, r) = (if y = x then None else hm_get (ts_pending s) (y, f, r))"
    and "hm_get (ts_source_pending s') (y, f, r) =
           (if y = x then None else hm_get (ts_source_pending s) (y, f, r))"
proof -
  note l = ts_remove_owner_lookup [OF assms(1)]
  have none: "hm_get (ts_pending s) (x, f, r) = None \<and> hm_get (ts_source_pending s) (x, f, r) = None"
    if "hm_get (ts_local s) x = None" "hm_get (ts_remote s) x = None"
    using assms(1) that unfolding ts_wf_def ts_pending_ok_def ts_source_ok_def
    by (metis not_Some_eq option.distinct(1))
  have "ts_adapter_ids s x = None \<Longrightarrow> s' = s" "ts_adapter_ids s x \<noteq> None \<Longrightarrow> s' = ts_remove_owner s x"
    by (auto simp: s'_def ts_cancel_owner_def case_prod_beta Let_def)
  with l none show "hm_get (ts_local s') y = (if y = x then None else hm_get (ts_local s) y)"
    and "hm_get (ts_remote s') y = (if y = x then None else hm_get (ts_remote s) y)"
    and "hm_get (ts_pending s') (y, f, r) = (if y = x then None else hm_get (ts_pending s) (y, f, r))"
    and "hm_get (ts_source_pending s') (y, f, r) =
           (if y = x then None else hm_get (ts_source_pending s) (y, f, r))"
    by (cases "ts_adapter_ids s x = None"; auto simp: ts_adapter_ids_None)+
qed

definition without_owners ::
  "'p transfer_owner set \<Rightarrow> ('p, 's) transfer_state \<Rightarrow> ('p, 's) transfer_state \<Rightarrow> bool" where
  "without_owners gone s s' \<longleftrightarrow> (\<forall>y.
     hm_get (ts_local s') y = (if y \<in> gone then None else hm_get (ts_local s) y)
   \<and> hm_get (ts_remote s') y = (if y \<in> gone then None else hm_get (ts_remote s) y)
   \<and> (\<forall>f r. hm_get (ts_pending s') (y, f, r) =
           (if y \<in> gone then None else hm_get (ts_pending s) (y, f, r))
         \<and> hm_get (ts_source_pending s') (y, f, r) =
           (if y \<in> gone then None else hm_get (ts_source_pending s) (y, f, r))))"

lemma ts_cancel_owners_without:
  "ts_wf s \<Longrightarrow> without_owners (set os) s (fst (ts_cancel_owners s os reason notify))"
proof (induction os arbitrary: s)
  case (Cons x os)
  let ?s = "fst (ts_cancel_owner s x None reason notify)"
  have "without_owners (set os) ?s (fst (ts_cancel_owners ?s os reason notify))"
    using Cons.IH ts_cancel_owner_wf [OF Cons.prems] by blast
  moreover have "fst (ts_cancel_owners s (x # os) reason notify) = fst (ts_cancel_owners ?s os reason notify)"
    by (simp add: case_prod_beta Let_def)
  ultimately show ?case
    using ts_cancel_owner_lookup [OF Cons.prems, of x reason notify]
    by (simp add: without_owners_def)
qed (simp add: without_owners_def)

lemma ts_adapter_ids_without:
  "without_owners gone s s' \<Longrightarrow> ts_adapter_ids s' y = (if y \<in> gone then None else ts_adapter_ids s y)"
  by (auto simp: without_owners_def ts_adapter_ids_def split: option.split)

section \<open>Answers to adapters\<close>

lemma unat_len_u64: "length (xs :: 'a list) \<le> unat (l :: u64) \<Longrightarrow> unat (word_of_nat (length xs) :: u64) = length xs"
  using unsigned_less [of l, where 'a = nat] by (simp add: unat_of_nat)

text \<open>What the state machine knows when a chunk passes the validator of its request.\<close>

lemma chunk_accepted:
  fixes data :: bytes
  assumes "ts_wf s" and pg: "hm_get (ts_pending s) (y, f, r) = Some pg"
    and c: "cv_validate_chunk (pg_validator pg) (ow_wire_id y) f r x (length data) = Inr v"
    and t: "hm_get (ts_remote s) y = Some t" and e: "hm_get (rt_entries t) f = Some e"
  shows "x = pk_offset (pg_key pg)" and "0 < length data" and "length data \<le> unat (pk_length (pg_key pg))"
    and "checked_add x (word_of_nat (length data)) = Some (x + word_of_nat (length data))"
    and "unat (x + word_of_nat (length data)) = unat x + length data"
    and "unat (word_of_nat (length data) :: u64) = length data"
proof -
  have ok: "pending_ok t y f r pg" using ts_pendingD [OF assms(1) pg] t by (metis option.inject)
  note k = cv_validate_chunk_Inr [OF _ c]
  have wf: "cv_wf (pg_validator pg)" using ok by (simp add: pending_ok_def Let_def)
  show x: "x = pk_offset (pg_key pg)" and "0 < length data"
    using pending_ok_chunk(3,4) [OF ok c] by auto
  show len: "length data \<le> unat (pk_length (pg_key pg))"
    using k(8) [OF wf] ok by (simp add: pending_ok_def Let_def)
  show "unat (x + word_of_nat (length data)) = unat x + length data" by (rule k(12) [OF wf])
  show "unat (word_of_nat (length data) :: u64) = length data" by (rule unat_len_u64 [OF len])
  show "checked_add x (word_of_nat (length data)) = Some (x + word_of_nat (length data))"
    using c by (auto simp: cv_validate_chunk_def rbind_eq_Inr_iff checked_add_def split: if_splits)
qed

lemma ts_inbound_chunk_response:
  assumes wf: "ts_wf s" and r: "ts_inbound_chunk b64 s peer w f r x data = (s', Inr as)"
    and a: "ActAdapter a m \<in> set as"
  shows "\<exists>pg t e. hm_get (ts_pending s) (\<lparr>ow_peer = peer, ow_wire_id = w\<rparr>, f, r) = Some pg
    \<and> hm_get (ts_pending s') (\<lparr>ow_peer = peer, ow_wire_id = w\<rparr>, f, r) = None
    \<and> hm_get (ts_remote s) \<lparr>ow_peer = peer, ow_wire_id = w\<rparr> = Some t
    \<and> hm_get (rt_entries t) f = Some e \<and> a = rt_adapter_id t
    \<and> m = MsgRangeResponse (rt_adapter_transfer_id t) r x (b64 data) False None
    \<and> x = pk_offset (pg_key pg) \<and> 0 < length data
    \<and> length data = unat (pk_length (pg_key pg)) \<and> unat x + length data \<le> unat (me_size e)"
proof -
  let ?o = "\<lparr>ow_peer = peer, ow_wire_id = w\<rparr>"
  from r obtain pg v where pg: "hm_get (ts_pending s) (?o, f, r) = Some pg"
    and v: "cv_validate_chunk (pg_validator pg) (ow_wire_id ?o) f r x (length data) = Inr v"
    by (auto simp: ts_inbound_chunk_def Let_def split: option.splits sum.splits)
  from ts_pendingD [OF wf pg] obtain t where t: "hm_get (ts_remote s) ?o = Some t" "pending_ok t ?o f r pg" .
  then obtain e where e: "hm_get (rt_entries t) f = Some e"
    and fit: "unat (pk_offset (pg_key pg)) + unat (pk_length (pg_key pg)) \<le> unat (me_size e)"
    by (auto simp: pending_ok_def Let_def)
  note k = chunk_accepted [OF wf pg v t(1) e]
  from r a pg v t(1) e k(4) have
    full: "word_of_nat (length data) = pk_length (pg_key pg)"
    and s': "hm_get (ts_pending s') (?o, f, r) = None"
    and m: "a = rt_adapter_id t" "m = MsgRangeResponse (rt_adapter_transfer_id t) r x (b64 data) False None"
    by (auto simp: ts_inbound_chunk_def Let_def hash_map ts_wf_maps [OF wf] split: if_splits)
  have "length data = unat (pk_length (pg_key pg))" using full k(6) by simp
  with pg t(1) e s' m k(1,2) fit show ?thesis by auto
qed

lemma ts_inbound_complete_response:
  assumes wf: "ts_wf s" and r: "ts_inbound_complete sha b64 s peer w f r sz d = (s', Inr as)"
    and a: "ActAdapter a m \<in> set as"
  shows "\<exists>pg t e. hm_get (ts_pending s) (\<lparr>ow_peer = peer, ow_wire_id = w\<rparr>, f, r) = Some pg
    \<and> hm_get (ts_pending s') (\<lparr>ow_peer = peer, ow_wire_id = w\<rparr>, f, r) = None
    \<and> hm_get (ts_remote s) \<lparr>ow_peer = peer, ow_wire_id = w\<rparr> = Some t
    \<and> hm_get (rt_entries t) f = Some e \<and> a = rt_adapter_id t
    \<and> m = MsgRangeResponse (rt_adapter_transfer_id t) r (pk_offset (pg_key pg)) (b64 (pg_chunk pg)) True None
    \<and> 0 < length (pg_chunk pg) \<and> length (pg_chunk pg) \<le> unat (pk_length (pg_key pg))
    \<and> unat (pk_offset (pg_key pg)) + length (pg_chunk pg) = unat (me_size e)
    \<and> sz = me_size e \<and> d = sha (pg_chunk pg)"
proof -
  let ?o = "\<lparr>ow_peer = peer, ow_wire_id = w\<rparr>"
  from r obtain pg t e en where pg: "hm_get (ts_pending s) (?o, f, r) = Some pg"
    and t: "hm_get (ts_remote s) ?o = Some t" and e: "hm_get (rt_entries t) f = Some e"
    and en: "checked_add (pk_offset (pg_key pg)) (pg_received pg) = Some en"
    and g: "pg_received pg \<noteq> 0" "en = me_size e" "sz = me_size e" "sha (pg_hasher pg) = d"
    by (auto simp: ts_inbound_complete_def Let_def split: option.splits if_splits bind_splits)
  have ok: "pending_ok t ?o f r pg" using ts_pendingD [OF wf pg] t by (metis option.inject)
  then have key: "pk_owner (pg_key pg) = ?o" and hash: "pg_hasher pg = pg_chunk pg"
    and len: "length (pg_chunk pg) \<le> unat (pk_length (pg_key pg))"
    and rec: "pg_received pg = word_of_nat (length (pg_chunk pg))" by (auto simp: pending_ok_def Let_def)
  from rec have "unat (pg_received pg) = length (pg_chunk pg)" using unat_len_u64 [OF len] by simp
  then have "unat (pk_offset (pg_key pg)) + length (pg_chunk pg) = unat (me_size e)"
    using en g(2) by (simp add: checked_add_Some_iff)
  moreover have "pg_chunk pg \<noteq> []" using g(1) rec by auto
  moreover from r a pg t e en g key hash have "hm_get (ts_pending s') (?o, f, r) = None"
    "a = rt_adapter_id t" "m = MsgRangeResponse (rt_adapter_transfer_id t) r (pk_offset (pg_key pg))
       (b64 (pg_chunk pg)) True None"
    by (auto simp: ts_inbound_complete_def Let_def hash_map ts_wf_maps [OF wf])
  ultimately show ?thesis using pg t e g hash len by auto
qed

lemma ts_cancel_owner_messages:
  "ts_cancel_owner s y f reason notify = (s', Inr as) \<Longrightarrow> ActAdapter a m \<in> set as \<Longrightarrow> \<exists>t. m = MsgCancel t"
  by (auto simp: ts_cancel_owner_def Let_def split: option.splits prod.splits if_splits)

section \<open>Serving and receiving one range\<close>

lemma range_served:
  fixes S :: "('p, 's) transfer_state"
  assumes "hm_get (ts_local S) z = Some lt" and "z = \<lparr>ow_peer = client, ow_wire_id = w\<rparr>"
    and "find (\<lambda>e. me_file_id e = f) (fo_entries (lt_offer lt)) = Some e" and "me_kind e = File"
    and "ts_validate_range (me_size e) x l = (Inr () :: 'p transfer_error + unit)"
    and "hm_get (ts_source_pending S) (z, f, r) = None" and wf: "ts_wf S"
    and "length data = unat l" and "of_file_id file = f"
  shows "\<exists>S1 S2 S3. ts_source_file_request S client w f r x l =
      (S1, Inr [ActReadSource z f r x l (lt_offer lt)])
    \<and> ts_insert_outgoing_file S1 z f r x l file = (S2, Inr ())
    \<and> ts_source_chunk S2 z f r x data = Inr [ActPeer client (ClipboardFileChunk w f r x data)]
    \<and> ts_source_complete S2 z f r sz d = (S3, Inr [ActPeer client (ClipboardFileComplete w f r sz d)])"
proof -
  let ?S0 = "S\<lparr>ts_source_pending := hm_insert (z, f, r) (x, l) (ts_source_pending S)\<rparr>"
  let ?t = "lt\<lparr>lt_announced := True\<rparr>"
  let ?S1 = "?S0\<lparr>ts_local := hm_insert z ?t (ts_local S)\<rparr>"
  let ?S2 = "?S1\<lparr>ts_local := hm_insert z (?t\<lparr>lt_outgoing := hm_insert (f, r) file (lt_outgoing ?t)\<rparr>)
      (ts_local ?S1)\<rparr>"
  have closed: "hm_get (lt_outgoing lt) (f, r) = None"
    using ts_outgoingD(2) [OF wf assms(1), of f r] assms(6) by (cases "hm_get (lt_outgoing lt) (f, r)") auto
  have range: "data \<noteq> []" "length data \<le> MAX_CLIPBOARD_FILE_CHUNK_SIZE"
    using assms(5,8) by (auto simp: ts_validate_range_ok)
  have "ts_source_file_request S client w f r x l = (?S1, Inr [ActReadSource z f r x l (lt_offer lt)])"
    using assms(1-6) by (simp add: ts_source_file_request_def ts_announce_local_def Let_def)
  moreover have "ts_insert_outgoing_file ?S1 z f r x l file = (?S2, Inr ())"
    using assms(9) closed by (simp add: ts_insert_outgoing_file_def hash_map)
  moreover have "ts_source_chunk ?S2 z f r x data = Inr [ActPeer client (ClipboardFileChunk w f r x data)]"
    using range assms(2,8) by (simp add: ts_source_chunk_def hash_map)
  moreover have "ts_source_complete ?S2 z f r sz d =
      (ts_source_range_served ?S2 z f r, Inr [ActPeer client (ClipboardFileComplete w f r sz d)])"
    using assms(2) by (simp add: ts_source_complete_def hash_map)
  ultimately show ?thesis by blast
qed

lemma ts_adapter_range_request_Inr:
  fixes R :: "('p, 's) transfer_state"
  assumes "ts_owners_for_adapter R aid tid = y # rest" and "hm_get (ts_remote R) y = Some t"
    and "hm_get (rt_entries t) f = Some e"
    and "ts_adapter_range_request R aid tid rid f x len = (R1, Inr acts)"
  shows "rt_adapter_id t = aid" and "rt_adapter_transfer_id t = tid" and "me_kind e = File"
    and "ts_validate_range (me_size e) x (ucast len) = (Inr () :: 'p transfer_error + unit)"
    and "acts = [ActPeer (ow_peer y) (ClipboardFileRequest (ow_wire_id y) f rid x (ucast len))]"
    and "hm_get (ts_remote R1) y = Some (t\<lparr>rt_announced := True\<rparr>)"
    and "\<exists>v. cv_new (ow_wire_id y) f rid x (ucast len) = Inr v \<and> hm_get (ts_pending R1) (y, f, rid) =
      Some \<lparr>pg_key = \<lparr>pk_owner = y, pk_file_id = f, pk_request_id = rid, pk_offset = x,
              pk_length = ucast len\<rparr>,
            pg_validator = v, pg_received = 0, pg_hasher = [], pg_chunk = []\<rparr>"
  using assms
  by (auto simp: ts_adapter_range_request_def Let_def ts_announce_remote_def hash_map
      split: if_splits sum.splits)

lemma cv_new_validate_chunk:
  assumes "cv_new w f r x l = Inr v" and "length (data :: bytes) = unat l"
  shows "\<exists>v'. cv_validate_chunk v w f r x (length data) = Inr v'"
proof -
  have ok: "validate_request x l = Inr ()" and v: "\<not> cv_complete v" "\<not> cv_chunk_received v"
    "cv_identity v = (w, f, r)" "cv_offset v = x" "cv_length v = l"
    using assms(1) by (auto simp: cv_new_def rbind_eq_Inr_iff cv_identity_def split: if_splits)
  then have "0 < unat l" "unat l \<le> MAX_CLIPBOARD_FILE_CHUNK_SIZE" "unat x + unat l \<le> MAX_CLIPBOARD_SIZE"
    by (auto simp: validate_request_ok)
  then have "validate_file_chunk x (length data) = Inr ()"
    using assms(2) by (simp add: validate_file_chunk_ok)
  moreover have "checked_add x l \<noteq> None"
    using \<open>unat x + unat l \<le> MAX_CLIPBOARD_SIZE\<close> by (simp add: checked_add_def const_defs)
  moreover have "word_of_nat (length data) = l" using assms(2) by simp
  ultimately show ?thesis using v assms(2) by (auto simp: cv_validate_chunk_def split: option.split)
qed

lemma range_received:
  fixes data :: bytes and l x :: u64
  assumes t: "hm_get (ts_remote R) y = Some t" "y = \<lparr>ow_peer = server, ow_wire_id = w\<rparr>"
      "hm_get (rt_entries t) f = Some e"
    and pg: "hm_get (ts_pending R) (y, f, r) = Some \<lparr>pg_key = \<lparr>pk_owner = y, pk_file_id = f,
        pk_request_id = r, pk_offset = x, pk_length = l\<rparr>,
      pg_validator = v, pg_received = 0, pg_hasher = [], pg_chunk = []\<rparr>"
    and v: "cv_new w f r x l = Inr v" and data: "length data = unat l"
  shows "\<exists>R2 R3 p. let progress = ActFrontend (FeProgress (rt_ui_id t) (x + l) (me_size e)) in
     if x + l \<noteq> me_size e
     then ts_inbound_chunk b64 R server w f r x data =
       (R2, Inr [ActAdapter (rt_adapter_id t)
          (MsgRangeResponse (rt_adapter_transfer_id t) r x (b64 data) False None), progress])
     else ts_inbound_chunk b64 R server w f r x data = (R3, Inr [progress])
       \<and> ts_inbound_complete sha b64 R3 server w f r (me_size e) (sha data) =
         (R2, Inr [ActAdapter (rt_adapter_id t)
            (MsgRangeResponse (rt_adapter_transfer_id t) r x (b64 data) True None), p])"
proof -
  from cv_new_validate_chunk [OF v data] obtain v'
    where v': "cv_validate_chunk v w f r x (length data) = Inr v'" ..
  then have add: "checked_add x (word_of_nat (length data)) = Some (x + word_of_nat (length data))"
    by (auto simp: cv_validate_chunk_def rbind_eq_Inr_iff checked_add_def split: if_splits)
  have len: "word_of_nat (length data) = l" using data by simp
  have pos: "l \<noteq> 0" using v by (auto simp: cv_new_def rbind_eq_Inr_iff validate_request_ok split: if_splits)
  let ?R3 = "R\<lparr>ts_pending := hm_insert (y, f, r) \<lparr>pg_key = \<lparr>pk_owner = y, pk_file_id = f,
        pk_request_id = r, pk_offset = x, pk_length = l\<rparr>,
      pg_validator = v', pg_received = l, pg_hasher = data, pg_chunk = data\<rparr> (ts_pending R)\<rparr>"
  show ?thesis
  proof (cases "x + l = me_size e")
    case False
    with t pg v' add len show ?thesis by (auto simp: ts_inbound_chunk_def Let_def)
  next
    case True
    with t pg v' add len have "ts_inbound_chunk b64 R server w f r x data =
        (?R3, Inr [ActFrontend (FeProgress (rt_ui_id t) (x + l) (me_size e))])"
      by (simp add: ts_inbound_chunk_def Let_def)
    moreover have "\<exists>R2 p. ts_inbound_complete sha b64 ?R3 server w f r (me_size e) (sha data) =
        (R2, Inr [ActAdapter (rt_adapter_id t)
          (MsgRangeResponse (rt_adapter_transfer_id t) r x (b64 data) True None), p])"
      using t add len pos True by (auto simp: ts_inbound_complete_def Let_def hash_map)
    ultimately show ?thesis using True by (auto simp: Let_def)
  qed
qed

section \<open>A new offer of a peer\<close>

lemma validate_wire_entries_ids:
  "validate_wire_entries ids paths n es = Inr () \<Longrightarrow>
     distinct (map me_file_id es) \<and> set (map me_file_id es) \<inter> insert 0 ids = {}"
  by (induction es arbitrary: ids paths n) (force split: if_splits option.splits)+

lemma validate_wire_manifest_ids: "validate_wire_manifest es = Inr () \<Longrightarrow> distinct (map me_file_id es)"
  by (auto simp: validate_wire_manifest_def dest: validate_wire_entries_ids split: if_splits)

lemma hm_get_by_id:
  "distinct (map k es) \<Longrightarrow> hm_get (foldl (\<lambda>m e. hm_insert (k e) e m) m es) f =
     (case find (\<lambda>e. k e = f) es of Some e \<Rightarrow> Some e | None \<Rightarrow> hm_get m f)"
proof (induction es arbitrary: m)
  case (Cons a es)
  have "find (\<lambda>e. k e = f) es = None" if "k a = f"
    using Cons.prems that by (auto simp: find_None_iff image_iff)
  with Cons show ?case by (auto simp: hash_map split: option.split)
qed simp

lemma ts_inbound_manifest_Inr:
  fixes s :: "('p, 's) transfer_state"
  assumes wf: "ts_wf s" and r: "ts_inbound_manifest s peer aid tid w operation es = (s', Inr as)"
  defines "owner \<equiv> \<lparr>ow_peer = peer, ow_wire_id = w\<rparr>"
  shows "operation = OpCopy" and "validate_wire_manifest es = (Inr () :: 'p transfer_error + unit)"
    and "ts_adapter_ids s owner = None"
    and "\<exists>s1 stale s2 u. ts_cancel_owners s (filter (\<lambda>c. ow_peer c = peer) (map fst (ts_remote s))) User False
           = (s1, stale)
       \<and> ts_allocate_ui_id s1 = (s2, Inr u)
       \<and> s' = ts_add_remote s2 owner \<lparr>rt_ui_id = u, rt_adapter_id = aid, rt_adapter_transfer_id = tid,
            rt_operation = operation, rt_entries = foldl (\<lambda>m e. hm_insert (me_file_id e) e m) [] es,
            rt_announced = False, rt_transferred_by_file = []\<rparr>
       \<and> as = stale @ [ActAdapter aid (MsgRemoteManifest tid operation (map remote_entry_of es))]"
  using r unfolding owner_def
  by (auto simp: ts_inbound_manifest_def ts_ensure_ids_available_def ts_ensure_owner_available_def
      ts_add_remote_def ts_adapter_ids_None Let_def rbind_eq_Inr_iff
      split: if_splits sum.splits prod.splits intro: operation.exhaust)

section \<open>Properties\<close>

text \<open>C4: Whatever operations run, in whatever order and with whatever results: the
  user-interface ids are exactly those of the transfers, an adapter entry names live transfers of
  that adapter, an owner is not local and remote at once, a pending request asks for a part of a
  file of a live remote transfer, a reservation for a part of an offered file, and every open
  source file has a reservation.\<close>

theorem transfer_state_invariant:
  assumes "ts_reachable sha b64 s"
  shows "(\<forall>u y. hm_get (ts_ui_to_owner s) u = Some y \<longleftrightarrow> ts_transfer_ui_id s y = Some u)
    \<and> (\<forall>y. hm_get (ts_local s) y = None \<or> hm_get (ts_remote s) y = None)
    \<and> (\<forall>k os y. hm_get (ts_adapter_to_owner s) k = Some os \<and> y \<in> set os \<longrightarrow>
         map_option snd (ts_adapter_ids s y) = Some k)
    \<and> (\<forall>y f r pg. hm_get (ts_pending s) (y, f, r) = Some pg \<longrightarrow>
         (\<exists>t. hm_get (ts_remote s) y = Some t \<and> pending_ok t y f r pg))
    \<and> (\<forall>y f r rng. hm_get (ts_source_pending s) (y, f, r) = Some rng \<longrightarrow>
         (\<exists>t. hm_get (ts_local s) y = Some t \<and> reserved_ok t f rng))
    \<and> (\<forall>y t f r file. hm_get (ts_local s) y = Some t \<and> hm_get (lt_outgoing t) (f, r) = Some file \<longrightarrow>
         of_file_id file = f \<and> hm_get (ts_source_pending s) (y, f, r) \<noteq> None)"
  using ts_reachable_wf [OF assms]
  unfolding ts_wf_def ts_ui_ok_def ts_disjoint_def ts_adapter_ok_def ts_pending_ok_def ts_source_ok_def
    ts_outgoing_ok_def
  by (elim conjE, intro conjI) (assumption | metis)+

text \<open>C20: When a peer is lost, nothing of its transfers remains: no offer in either direction, no
  pending request or reservation, no user-interface id and no adapter entry that leads to one of
  its owners. The transfers of the other peers are untouched.\<close>

theorem peer_lost_leaves_nothing:
  assumes "ts_reachable sha b64 s" and s': "s' = fst (ts_peer_lost s peer)"
  shows "without_owners {y. ow_peer y = peer} s s'
    \<and> (\<forall>u y. hm_get (ts_ui_to_owner s') u = Some y \<longrightarrow> ow_peer y \<noteq> peer)
    \<and> (\<forall>k os y. hm_get (ts_adapter_to_owner s') k = Some os \<and> y \<in> set os \<longrightarrow> ow_peer y \<noteq> peer)"
proof -
  have wf: "ts_wf s" by (rule ts_reachable_wf [OF assms(1)])
  let ?gone = "set (remdups (filter (\<lambda>o'. ow_peer o' = peer) (map fst (ts_local s) @ map fst (ts_remote s))))"
  have w: "without_owners ?gone s s'" and wf': "ts_wf s'"
    using ts_cancel_owners_without [OF wf] ts_cancel_owners_wf [OF wf] by (simp_all only: s' ts_peer_lost_def)
  have gone: "y \<in> ?gone \<longleftrightarrow> ow_peer y = peer \<and> ts_adapter_ids s y \<noteq> None" for y
    by (auto simp: ts_adapter_ids_None hm_get_None)
  have none: "ts_adapter_ids s' y = None" if "ow_peer y = peer" for y
    using ts_adapter_ids_without [OF w, of y] gone [of y] that by presburger
  have "hm_get (ts_pending s') (y, f, r) = None" "hm_get (ts_source_pending s') (y, f, r) = None"
    if "ow_peer y = peer" for y f r
    using wf' none [OF that] unfolding ts_wf_def ts_pending_ok_def ts_source_ok_def ts_adapter_ids_None
    by (metis not_Some_eq option.distinct(1))+
  then have "without_owners {y. ow_peer y = peer} s s'"
    using w gone none unfolding without_owners_def ts_adapter_ids_None by (smt (verit) mem_Collect_eq)
  moreover have "ow_peer y \<noteq> peer" if "hm_get (ts_ui_to_owner s') u = Some y" for u y
    using wf' that none [of y] by (auto simp: ts_wf_def ts_ui_ok_def ts_adapter_ids_None
        simp flip: ts_adapter_ids_None(2))
  moreover have "ow_peer y \<noteq> peer" if "hm_get (ts_adapter_to_owner s') k = Some os" "y \<in> set os" for k os y
    using wf' that none [of y] by (cases k) (force simp: ts_wf_def ts_adapter_ok_def)
  ultimately show ?thesis by blast
qed

text \<open>C2: A range response given to an adapter answers a request of that adapter's transfer that was
  pending and no longer is, so no request is answered twice; its offset is the requested one; without
  the end-of-file mark it carries exactly the requested number of bytes, with the mark its bytes end
  where the file ends and have the digest that the sender announced. The bytes come from the peer
  that made the offer.\<close>

theorem range_response_answers_request:
  assumes "ts_reachable sha b64 s"
    and "ts_handle_protocol sha b64 s peer event = (s', Inr as)"
    and "ActAdapter a (MsgRangeResponse tid rid x enc eof err) \<in> set as"
  shows "\<exists>w f pg t e data. hm_get (ts_pending s) (\<lparr>ow_peer = peer, ow_wire_id = w\<rparr>, f, rid) = Some pg
    \<and> hm_get (ts_pending s') (\<lparr>ow_peer = peer, ow_wire_id = w\<rparr>, f, rid) = None
    \<and> hm_get (ts_remote s) \<lparr>ow_peer = peer, ow_wire_id = w\<rparr> = Some t
    \<and> hm_get (rt_entries t) f = Some e \<and> a = rt_adapter_id t \<and> tid = rt_adapter_transfer_id t
    \<and> x = pk_offset (pg_key pg) \<and> enc = b64 data \<and> err = None \<and> data \<noteq> []
    \<and> (if eof then unat x + length data = unat (me_size e)
                    \<and> event = ClipboardFileComplete w f rid (me_size e) (sha data)
       else length data = unat (pk_length (pg_key pg)) \<and> unat x + length data \<le> unat (me_size e)
            \<and> event = ClipboardFileChunk w f rid x data)"
proof -
  have wf: "ts_wf s" by (rule ts_reachable_wf [OF assms(1)])
  show ?thesis
  proof (cases event)
    case (ClipboardFileChunk w f r y d)
    then have "ts_inbound_chunk b64 s peer w f r y d = (s', Inr as)"
      using assms(2) by (simp add: ts_handle_protocol_def)
    from ts_inbound_chunk_response [OF wf this assms(3)] ClipboardFileChunk show ?thesis
      by (intro exI [of _ w] exI [of _ f]) force
  next
    case (ClipboardFileComplete w f r sz d)
    then have "ts_inbound_complete sha b64 s peer w f r sz d = (s', Inr as)"
      using assms(2) by (simp add: ts_handle_protocol_def)
    from ts_inbound_complete_response [OF wf this assms(3)] ClipboardFileComplete show ?thesis
      by (intro exI [of _ w] exI [of _ f]) force
  next
    case (ClipboardTransferCancel w f reason)
    then have "\<exists>t. MsgRangeResponse tid rid x enc eof err = MsgCancel t"
      using assms(2,3) by (auto simp: ts_handle_protocol_def ts_inbound_cancel_def dest: ts_cancel_owner_messages)
    then show ?thesis by simp
  qed (use assms(2,3) in \<open>auto simp: ts_handle_protocol_def ts_source_file_request_def Let_def
        ts_inbound_progress_def split: option.splits sum.splits if_splits\<close>)
qed

text \<open>C1: A range request reaches the adapter with the file's bytes. When the receiving side accepts an
  adapter's request and the serving side offers the same entry under the same wire id and has no read reserved
  under the same request id, the request is served: the serving side asks for the read, takes the opened file, sends the bytes that were
  read as one chunk, and the receiving side hands exactly these bytes to the adapter; a range that
  ends the file is handed over, marked as end of file, once the completion with the matching digest
  has arrived.\<close>

theorem range_delivered:
  fixes R S :: "('p, 's) transfer_state" and len :: u32 and data :: bytes
  assumes R: "ts_reachable sha b64 R" "hm_get (ts_remote R) \<lparr>ow_peer = server, ow_wire_id = w\<rparr> = Some t"
      "hm_get (rt_entries t) f = Some e"
      "ts_owners_for_adapter R aid tid = \<lparr>ow_peer = server, ow_wire_id = w\<rparr> # rest"
      "ts_adapter_range_request R aid tid rid f x len = (R1, Inr acts)"
    and S: "ts_reachable sha b64 S" "hm_get (ts_local S) \<lparr>ow_peer = client, ow_wire_id = w\<rparr> = Some lt"
      "find (\<lambda>e. me_file_id e = f) (fo_entries (lt_offer lt)) = Some e"
      "hm_get (ts_source_pending S) (\<lparr>ow_peer = client, ow_wire_id = w\<rparr>, f, rid) = None"
    and data: "length data = unat len" and opened: "of_file_id file = f"
  shows "\<exists>S1 S2 R2. acts = [ActPeer server (ClipboardFileRequest w f rid x (ucast len))]
    \<and> ts_handle_protocol sha b64 S client (ClipboardFileRequest w f rid x (ucast len)) =
        (S1, Inr [ActReadSource \<lparr>ow_peer = client, ow_wire_id = w\<rparr> f rid x (ucast len) (lt_offer lt)])
    \<and> ts_insert_outgoing_file S1 \<lparr>ow_peer = client, ow_wire_id = w\<rparr> f rid x (ucast len) file = (S2, Inr ())
    \<and> ts_source_chunk S2 \<lparr>ow_peer = client, ow_wire_id = w\<rparr> f rid x data =
        Inr [ActPeer client (ClipboardFileChunk w f rid x data)]
    \<and> (let progress = ActFrontend (FeProgress (rt_ui_id t) (x + ucast len) (me_size e)) in
       if x + ucast len \<noteq> me_size e
       then ts_handle_protocol sha b64 R1 server (ClipboardFileChunk w f rid x data) =
          (R2, Inr [ActAdapter aid (MsgRangeResponse tid rid x (b64 data) False None), progress])
       else \<exists>S3 R3 p. ts_handle_protocol sha b64 R1 server (ClipboardFileChunk w f rid x data) =
             (R3, Inr [progress])
         \<and> ts_source_complete S2 \<lparr>ow_peer = client, ow_wire_id = w\<rparr> f rid (me_size e) (sha data) =
             (S3, Inr [ActPeer client (ClipboardFileComplete w f rid (me_size e) (sha data))])
         \<and> ts_handle_protocol sha b64 R3 server (ClipboardFileComplete w f rid (me_size e) (sha data)) =
             (R2, Inr [ActAdapter aid (MsgRangeResponse tid rid x (b64 data) True None), p]))"
proof -
  let ?y = "\<lparr>ow_peer = server, ow_wire_id = w\<rparr>" and ?z = "\<lparr>ow_peer = client, ow_wire_id = w\<rparr>"
  let ?l = "ucast len :: u64"
  note q = ts_adapter_range_request_Inr [OF R(4,2,3,5)]
  have data': "length data = unat ?l" using data by (simp add: unat_u32_u64)
  from q(7) obtain v where v: "cv_new w f rid x ?l = Inr v"
    and pg: "hm_get (ts_pending R1) (?y, f, rid) = Some \<lparr>pg_key = \<lparr>pk_owner = ?y, pk_file_id = f,
        pk_request_id = rid, pk_offset = x, pk_length = ?l\<rparr>,
      pg_validator = v, pg_received = 0, pg_hasher = [], pg_chunk = []\<rparr>" by auto
  have srv: "\<exists>S1 S2 S3. ts_source_file_request S client w f rid x ?l =
      (S1, Inr [ActReadSource ?z f rid x ?l (lt_offer lt)])
    \<and> ts_insert_outgoing_file S1 ?z f rid x ?l file = (S2, Inr ())
    \<and> ts_source_chunk S2 ?z f rid x data = Inr [ActPeer client (ClipboardFileChunk w f rid x data)]
    \<and> ts_source_complete S2 ?z f rid (me_size e) (sha data) =
        (S3, Inr [ActPeer client (ClipboardFileComplete w f rid (me_size e) (sha data))])"
    by (rule range_served [OF S(2) refl S(3) q(3,4) S(4) ts_reachable_wf [OF S(1)] data' opened])
  have e: "hm_get (rt_entries (t\<lparr>rt_announced := True\<rparr>)) f = Some e" using R(3) by simp
  note rcv = range_received [OF q(6) refl e pg v data', of b64 sha]
  show ?thesis
  proof (cases "x + ?l = me_size e")
    case True
    with srv rcv q(1,2,5) show ?thesis by (auto simp: ts_handle_protocol_def Let_def)
  next
    case False
    with srv rcv q(1,2,5) show ?thesis by (auto simp: ts_handle_protocol_def Let_def)
  qed
qed

text \<open>An accepted manifest replaces the earlier offers of that peer: afterwards the peer has exactly
  the new remote transfer, with the entries of the manifest under their ids and a user-interface id
  that leads to it. Transfers of other peers and the local offers to this one are untouched.\<close>

theorem manifest_supersedes:
  fixes s :: "('p, 's) transfer_state"
  assumes "ts_reachable sha b64 s"
    and r: "ts_inbound_manifest s peer aid tid w operation es = (s', Inr as)"
  shows "\<exists>t. (\<forall>y. ow_peer y = peer \<longrightarrow>
        hm_get (ts_remote s') y = (if y = \<lparr>ow_peer = peer, ow_wire_id = w\<rparr> then Some t else None))
    \<and> (\<forall>f. hm_get (rt_entries t) f = find (\<lambda>e. me_file_id e = f) es)
    \<and> rt_adapter_id t = aid \<and> rt_adapter_transfer_id t = tid
    \<and> hm_get (ts_ui_to_owner s') (rt_ui_id t) = Some \<lparr>ow_peer = peer, ow_wire_id = w\<rparr>
    \<and> (\<forall>y. ow_peer y \<noteq> peer \<longrightarrow> hm_get (ts_remote s') y = hm_get (ts_remote s) y)
    \<and> (\<forall>y. hm_get (ts_local s') y = hm_get (ts_local s) y)"
proof -
  let ?o = "\<lparr>ow_peer = peer, ow_wire_id = w\<rparr>" and ?old = "filter (\<lambda>c. ow_peer c = peer) (map fst (ts_remote s))"
  let ?es = "foldl (\<lambda>m e. hm_insert (me_file_id e) e m) [] es"
  have wf: "ts_wf s" by (rule ts_reachable_wf [OF assms(1)])
  note i = ts_inbound_manifest_Inr [OF wf r]
  from i(4) obtain s1 stale s2 u where c: "ts_cancel_owners s ?old User False = (s1, stale)"
    and al: "ts_allocate_ui_id s1 = (s2, Inr u)"
    and s': "s' = ts_add_remote s2 ?o \<lparr>rt_ui_id = u, rt_adapter_id = aid, rt_adapter_transfer_id = tid,
      rt_operation = operation, rt_entries = ?es, rt_announced = False, rt_transferred_by_file = []\<rparr>"
    (is "_ = ts_add_remote s2 ?o ?t") by blast
  have w: "without_owners (set ?old) s s1" using ts_cancel_owners_without [OF wf, of ?old User False] c by simp
  have wf1: "ts_wf s1" using ts_cancel_owners_wf [OF wf, of ?old User False] c by simp
  obtain n where s2: "s2 = s1\<lparr>ts_next_ui_id := n\<rparr>" using ts_allocate_ui_id_shape(1) [OF wf1 al] by blast
  have rem: "hm_get (ts_remote s') y = (if y = ?o then Some ?t else if y \<in> set ?old then None else hm_get (ts_remote s) y)"
    and loc: "hm_get (ts_local s') y = (if y \<in> set ?old then None else hm_get (ts_local s) y)"
    and ui: "hm_get (ts_ui_to_owner s') u = Some ?o" for y
    using w s2 by (simp_all add: s' ts_add_remote_def ts_insert_mapping_def Let_def hash_map without_owners_def)
  have old: "y \<in> set ?old \<longleftrightarrow> ow_peer y = peer \<and> hm_get (ts_remote s) y \<noteq> None" for y
    by (auto simp: hm_get_None simp flip: not_None_eq)
  have "hm_get (ts_local s') y = hm_get (ts_local s) y" for y
    using wf loc [of y] old [of y] unfolding ts_wf_def ts_disjoint_def by metis
  moreover have "hm_get (rt_entries ?t) f = find (\<lambda>e. me_file_id e = f) es" for f
    using validate_wire_manifest_ids [OF i(2)] by (simp add: hm_get_by_id hash_map split: option.split)
  ultimately show ?thesis using rem ui old by (intro exI [of _ ?t]) auto
qed

text \<open>A released remote transfer cannot be finished by its adapter any more: the release removes the
  adapter's entry and keeps the transfer, so the completion, the cancellation and the unmount that
  the adapter reports next are refused as unknown, and the transfer stays.\<close>

theorem released_remote_transfer_stays:
  assumes "ts_reachable sha b64 s" and "hm_get (ts_remote s) y = Some t"
    and "ts_owners_for_adapter s (rt_adapter_id t) (rt_adapter_transfer_id t) = [y]"
    and "s' = fst (ts_adapter_released s (rt_adapter_id t) (rt_adapter_transfer_id t))"
  shows "hm_get (ts_remote s') y = Some t
    \<and> ts_adapter_unmounted s' (rt_adapter_id t) (rt_adapter_transfer_id t) ok err =
        (s', Inl (UnknownAdapterTransfer (rt_adapter_id t) (rt_adapter_transfer_id t)))
    \<and> ts_adapter_completed s' (rt_adapter_id t) (rt_adapter_transfer_id t) ok err =
        (s', Inl (UnknownAdapterTransfer (rt_adapter_id t) (rt_adapter_transfer_id t)))
    \<and> ts_adapter_cancelled s' (rt_adapter_id t) (rt_adapter_transfer_id t) =
        (s', Inl (UnknownAdapterTransfer (rt_adapter_id t) (rt_adapter_transfer_id t)))"
proof -
  let ?k = "(rt_adapter_id t, rt_adapter_transfer_id t)"
  have m: "hm_ok (ts_adapter_to_owner s)" using ts_reachable_wf [OF assms(1)] by (rule ts_wf_maps)
  have s': "s' = s\<lparr>ts_adapter_to_owner := hm_remove ?k (ts_adapter_to_owner s)\<rparr>"
    using assms(2-4) by (auto simp: ts_adapter_released_def ts_owners_for_adapter_def split: option.splits)
  then have "ts_owners_for_adapter s' (rt_adapter_id t) (rt_adapter_transfer_id t) = []"
    using m by (simp add: ts_owners_for_adapter_def hash_map)
  with s' assms(2) show ?thesis
    by (simp add: ts_adapter_unmounted_def ts_adapter_completed_def ts_adapter_cancelled_def
        ts_finish_adapter_def)
qed

text \<open>C40: As long as fewer than \<open>2^64 - 1\<close> transfers are alive, the search for a user-interface id
  ends with an id that is not zero and not in use.\<close>

theorem ui_id_always_found:
  fixes s :: "('p, 's) transfer_state"
  assumes "ts_reachable sha b64 s" and "length (ts_ui_to_owner s) < 2 ^ 64 - 1"
  shows "\<exists>n u. ts_allocate_ui_id s = (s\<lparr>ts_next_ui_id := n\<rparr>, Inr u) \<and> n \<noteq> 0 \<and> u \<noteq> 0
     \<and> hm_get (ts_ui_to_owner s) u = None"
  using allocate_ui_id_ok [OF ts_wf_maps(7) [OF ts_reachable_wf [OF assms(1)]] assms(2)] .

section \<open>A concrete exchange\<close>

text \<open>
  Peer 7 offers a file of three bytes to peer 3: the receiving state after the manifest, the same
  after a request for the first two bytes, and the serving state.
\<close>

definition demo_entry :: clipboard_manifest_entry where
  "demo_entry = \<lparr>me_file_id = 1, me_path = lit ''a'', me_kind = File, me_size = 3\<rparr>"

definition demo_receiver :: "(nat, unit) transfer_state" where
  "demo_receiver = fst (ts_apply id id ts_default
     (DoInboundManifest 7 (lit ''fuse'') (lit ''t'') 5 OpCopy [demo_entry]))"

definition demo_waiting :: "(nat, unit) transfer_state" where
  "demo_waiting = fst (ts_apply id id demo_receiver
     (DoAdapterRangeRequest (lit ''fuse'') (lit ''t'') 9 1 0 2))"

definition demo_server :: "(nat, unit) transfer_state" where
  "demo_server = fst (ts_apply id id ts_default
     (DoLocalCopyManifest 3 5 (lit ''clip'') (lit ''m'') OpCopy
       \<lparr>fo_transfer_id = 5, fo_entries = [demo_entry], fo_sources = ()\<rparr>))"

lemma demo_reachable:
  "ts_reachable id id demo_receiver" "ts_reachable id id demo_waiting" "ts_reachable id id demo_server"
  unfolding demo_waiting_def demo_receiver_def demo_server_def by (intro ts_reachable.intros)+

lemmas demo_eval = demo_entry_def ts_default_def ts_ensure_ids_available_def
  ts_ensure_owner_available_def validate_wire_manifest_def Let_def checked_add_def const_defs
  hm_get_def hm_retain_def hm_remove_def
  lit_def starts_with_byte_def ts_allocate_ui_id_def next_id_def ts_insert_mapping_def
  ts_owners_for_adapter_def ts_inbound_manifest_def ts_local_copy_manifest_def

lemma demo_receiver_eval:
  "demo_receiver = \<lparr>ts_next_ui_id = 2, ts_local = [],
     ts_remote = [(\<lparr>ow_peer = 7, ow_wire_id = 5\<rparr>,
        \<lparr>rt_ui_id = 1, rt_adapter_id = lit ''fuse'', rt_adapter_transfer_id = lit ''t'',
         rt_operation = OpCopy, rt_entries = [(1, demo_entry)], rt_announced = False,
         rt_transferred_by_file = []\<rparr>)],
     ts_pending = [],
     ts_adapter_to_owner = [((lit ''fuse'', lit ''t''), [\<lparr>ow_peer = 7, ow_wire_id = 5\<rparr>])],
     ts_source_pending = [], ts_ui_to_owner = [(1, \<lparr>ow_peer = 7, ow_wire_id = 5\<rparr>)],
     ts_file_clipboard_adapter = []\<rparr>"
  by (simp add: demo_receiver_def demo_eval)

lemma demo_server_eval:
  "demo_server = \<lparr>ts_next_ui_id = 2,
     ts_local = [(\<lparr>ow_peer = 3, ow_wire_id = 5\<rparr>,
        \<lparr>lt_ui_id = 1, lt_adapter_id = lit ''clip'', lt_adapter_transfer_id = lit ''m'',
         lt_offer = \<lparr>fo_transfer_id = 5, fo_entries = [demo_entry], fo_sources = ()\<rparr>,
         lt_outgoing = [], lt_announced = False, lt_transferred_by_file = []\<rparr>)],
     ts_remote = [], ts_pending = [],
     ts_adapter_to_owner = [((lit ''clip'', lit ''m''), [\<lparr>ow_peer = 3, ow_wire_id = 5\<rparr>])],
     ts_source_pending = [], ts_ui_to_owner = [(1, \<lparr>ow_peer = 3, ow_wire_id = 5\<rparr>)],
     ts_file_clipboard_adapter = []\<rparr>"
  by (simp add: demo_server_def demo_eval)

lemma demo_request:
  "ts_adapter_range_request demo_receiver (lit ''fuse'') (lit ''t'') 9 1 0 2 =
     (demo_waiting, Inr [ActPeer 7 (ClipboardFileRequest 5 1 9 0 2)])"
  unfolding demo_waiting_def demo_receiver_eval
  by (simp add: ts_adapter_range_request_def ts_validate_range_def cv_new_def validate_request_def
      validate_file_position_def demo_eval)

lemma demo_chunk:
  "\<exists>s'. ts_handle_protocol id id demo_waiting 7 (ClipboardFileChunk 5 1 9 0 [1, 2]) =
     (s', Inr [ActAdapter (lit ''fuse'') (MsgRangeResponse (lit ''t'') 9 0 [1, 2] False None),
       ActFrontend (FeProgress 1 2 3)])"
  unfolding demo_waiting_def demo_receiver_eval
  by (simp add: ts_adapter_range_request_def ts_validate_range_def cv_new_def validate_request_def
      validate_file_position_def ts_announce_remote_def ts_handle_protocol_def ts_inbound_chunk_def
      cv_validate_chunk_def cv_identity_def validate_file_chunk_def demo_eval)

theorem transfer_state_invariant_witness:
  "ts_reachable id id demo_waiting \<and> ts_transfer_ui_id demo_waiting \<lparr>ow_peer = 7, ow_wire_id = 5\<rparr> = Some 1
   \<and> hm_get (ts_ui_to_owner demo_waiting) 1 = Some \<lparr>ow_peer = 7, ow_wire_id = 5\<rparr>"
proof -
  have "ts_transfer_ui_id demo_waiting \<lparr>ow_peer = 7, ow_wire_id = 5\<rparr> = Some 1"
    unfolding demo_waiting_def demo_receiver_eval
    by (simp add: ts_adapter_range_request_def ts_validate_range_def cv_new_def validate_request_def
        validate_file_position_def ts_announce_remote_def ts_transfer_ui_id_def demo_eval)
  with transfer_state_invariant [OF demo_reachable(2)] demo_reachable(2) show ?thesis by blast
qed

theorem peer_lost_leaves_nothing_witness:
  "hm_get (ts_remote demo_receiver) \<lparr>ow_peer = 7, ow_wire_id = 5\<rparr> \<noteq> None
   \<and> hm_get (ts_remote (fst (ts_peer_lost demo_receiver 7))) \<lparr>ow_peer = 7, ow_wire_id = 5\<rparr> = None"
proof
  show "hm_get (ts_remote demo_receiver) \<lparr>ow_peer = 7, ow_wire_id = 5\<rparr> \<noteq> None"
    by (simp add: demo_receiver_eval hm_get_def)
  show "hm_get (ts_remote (fst (ts_peer_lost demo_receiver 7))) \<lparr>ow_peer = 7, ow_wire_id = 5\<rparr> = None"
    using peer_lost_leaves_nothing [OF demo_reachable(1) refl, of 7] by (simp add: without_owners_def)
qed

theorem range_response_answers_request_witness:
  "\<exists>w f pg. hm_get (ts_pending demo_waiting) (\<lparr>ow_peer = 7, ow_wire_id = w\<rparr>, f, 9) = Some pg
     \<and> pk_offset (pg_key pg) = 0 \<and> unat (pk_length (pg_key pg)) = 2"
proof -
  from demo_chunk obtain s' where s': "ts_handle_protocol id id demo_waiting 7
      (ClipboardFileChunk 5 1 9 0 [1, 2]) = (s', Inr [ActAdapter (lit ''fuse'')
         (MsgRangeResponse (lit ''t'') 9 0 [1, 2] False None), ActFrontend (FeProgress 1 2 3)])" ..
  show ?thesis
    using range_response_answers_request [OF demo_reachable(2) s',
        of "lit ''fuse''" "lit ''t''" 9 0 "[1, 2]" False None]
    by fastforce
qed

theorem range_delivered_witness:
  "\<exists>S1. ts_handle_protocol id id demo_server 3 (ClipboardFileRequest 5 1 9 0 (ucast (2 :: u32))) =
     (S1, Inr [ActReadSource \<lparr>ow_peer = 3, ow_wire_id = 5\<rparr> 1 9 0 (ucast (2 :: u32))
        \<lparr>fo_transfer_id = 5, fo_entries = [demo_entry], fo_sources = ()\<rparr>])"
proof -
  obtain t where t: "hm_get (ts_remote demo_receiver) \<lparr>ow_peer = 7, ow_wire_id = 5\<rparr> = Some t"
    "hm_get (rt_entries t) 1 = Some demo_entry" by (simp add: demo_receiver_eval hm_get_def)
  have o: "ts_owners_for_adapter demo_receiver (lit ''fuse'') (lit ''t'') = [\<lparr>ow_peer = 7, ow_wire_id = 5\<rparr>]"
    by (simp add: demo_receiver_eval ts_owners_for_adapter_def hm_get_def)
  obtain l where l: "hm_get (ts_local demo_server) \<lparr>ow_peer = 3, ow_wire_id = 5\<rparr> = Some l"
    and off: "lt_offer l = \<lparr>fo_transfer_id = 5, fo_entries = [demo_entry], fo_sources = ()\<rparr>"
    by (simp add: demo_server_eval hm_get_def)
  have d: "find (\<lambda>e. me_file_id e = 1) (fo_entries (lt_offer l)) = Some demo_entry"
    by (simp add: off demo_entry_def)
  have n: "hm_get (ts_source_pending demo_server) (\<lparr>ow_peer = 3, ow_wire_id = 5\<rparr>, 1, 9) = None"
    by (simp add: demo_server_eval hm_get_def)
  have len: "length ([1, 2] :: bytes) = unat (2 :: u32)" by simp
  from range_delivered [OF demo_reachable(1) t o demo_request demo_reachable(3) l d n len,
      of "\<lparr>of_file_id = 1, of_handle = ()\<rparr>"] off
  show ?thesis by auto
qed

theorem manifest_supersedes_witness:
  "\<exists>s' as. ts_inbound_manifest demo_receiver 7 (lit ''fuse'') (lit ''u'') 6 OpCopy [demo_entry] = (s', Inr as)
   \<and> hm_get (ts_remote s') \<lparr>ow_peer = 7, ow_wire_id = 5\<rparr> = None
   \<and> hm_get (ts_remote s') \<lparr>ow_peer = 7, ow_wire_id = 6\<rparr> \<noteq> None"
proof -
  obtain s' as where r: "ts_inbound_manifest demo_receiver 7 (lit ''fuse'') (lit ''u'') 6 OpCopy [demo_entry] =
      (s', Inr as)"
    unfolding demo_receiver_eval
    by (simp add: demo_eval ts_cancel_owner_def ts_adapter_ids_def ts_transfer_totals_def
        ts_remove_owner_def ts_transfer_ui_id_def)
  from manifest_supersedes [OF demo_reachable(1) r] show ?thesis using r by auto
qed

theorem released_remote_transfer_stays_witness:
  "\<exists>s'. s' = fst (ts_adapter_released demo_receiver (lit ''fuse'') (lit ''t''))
     \<and> hm_get (ts_remote s') \<lparr>ow_peer = 7, ow_wire_id = 5\<rparr> \<noteq> None
     \<and> ts_adapter_cancelled s' (lit ''fuse'') (lit ''t'') =
         (s', Inl (UnknownAdapterTransfer (lit ''fuse'') (lit ''t'')))"
proof -
  obtain t where t: "hm_get (ts_remote demo_receiver) \<lparr>ow_peer = 7, ow_wire_id = 5\<rparr> = Some t"
    "rt_adapter_id t = lit ''fuse''" "rt_adapter_transfer_id t = lit ''t''"
    by (simp add: demo_receiver_eval hm_get_def)
  have o: "ts_owners_for_adapter demo_receiver (rt_adapter_id t) (rt_adapter_transfer_id t) =
      [\<lparr>ow_peer = 7, ow_wire_id = 5\<rparr>]"
    by (simp add: t demo_receiver_eval ts_owners_for_adapter_def hm_get_def)
  from released_remote_transfer_stays [OF demo_reachable(1) t(1) o refl] t show ?thesis by auto
qed

theorem ui_id_always_found_witness:
  "\<exists>n u. ts_allocate_ui_id demo_receiver = (demo_receiver\<lparr>ts_next_ui_id := n\<rparr>, Inr u) \<and> u \<noteq> 0 \<and> u \<noteq> 1"
proof -
  have "length (ts_ui_to_owner demo_receiver) < 2 ^ 64 - 1"
    and u: "hm_get (ts_ui_to_owner demo_receiver) 1 \<noteq> None"
    by (simp_all add: demo_receiver_eval hm_get_def)
  from ui_id_always_found [OF demo_reachable(1) this(1)] u show ?thesis by metis
qed

end
