(* ===== verification/Source_Files.thy ===== *)
theory Source_Files
  imports Transfer_State Proto_Codec "HOL-Library.List_Lexorder" "HOL-Library.Multiset"
begin

text \<open>
  The offers of \<open>crates/syntra-core/src/file_transfer.rs\<close>: turning a URI list from the clipboard or a
  chosen file into a manifest. A path is the list of its bytes (the Unix representation of
  \<open>OsString\<close>); the part of the file system that an offer walks over is a tree whose nodes say what
  \<open>symlink_metadata\<close> and \<open>read_dir\<close> answer, taken as one snapshot.
\<close>

section \<open>Errors and metadata\<close>

datatype io_kind = IoAlreadyExists | IoNotFound | IoInvalidInput | IoOther

record io_error =
  io_kind :: io_kind
  io_message :: rstring

datatype transfer_fault =
    TfIo io_error
  | TfInvalidUri rstring
  | TfUnsafePath rstring
  | TfUnsupportedEntry rstring
  | TfTooManyEntries
  | TfTooLarge
  | TfStaleTransfer u64
  | TfUnknownFile u64 u64
  | TfUnexpectedOffset u64 u64 u64
  | TfSizeMismatch u64 u64 u64
  | TfDigestMismatch u64
  | TfCancelled
  | TfSourceChanged u64

record metadata =
  md_len :: u64
  md_modified :: "nat option"
  md_dev :: u64
  md_ino :: u64

record source_identity =
  si_len :: u64
  si_modified :: "nat option"
  si_dev :: u64
  si_ino :: u64

definition identity_from_metadata :: "metadata \<Rightarrow> source_identity" where
  "identity_from_metadata m = \<lparr>si_len = md_len m, si_modified = md_modified m, si_dev = md_dev m,
     si_ino = md_ino m\<rparr>"

definition identity_matches :: "source_identity \<Rightarrow> metadata \<Rightarrow> bool" where
  "identity_matches i m =
     (if si_len i \<noteq> md_len m \<or> si_modified i = None \<or> md_modified m = None
         \<or> si_modified i \<noteq> md_modified m
      then False else si_dev i = md_dev m \<and> si_ino i = md_ino m)"

section \<open>Paths\<close>

text \<open>\<open>Path::components\<close> on Unix.\<close>

datatype path_component = RootDir | CurDir | ParentDir | NormalComp rstring

definition path_component :: "rstring \<Rightarrow> path_component" where
  "path_component part = (if part = lit ''..'' then ParentDir else NormalComp part)"

definition path_components :: "rstring \<Rightarrow> path_component list" where
  "path_components p =
     (let parts = split_on 0x2F p in
      (if starts_with_byte 0x2F p then [RootDir] else if hd parts = lit ''.'' then [CurDir] else [])
      @ map path_component (filter (\<lambda>part. part \<noteq> [] \<and> part \<noteq> lit ''.'') parts))"

definition is_normal :: "path_component \<Rightarrow> bool" where
  "is_normal c = (case c of NormalComp _ \<Rightarrow> True | _ \<Rightarrow> False)"

text \<open>\<open>file_name().and_then(OsStr::to_str)\<close>.\<close>

definition path_file_name :: "rstring \<Rightarrow> rstring option" where
  "path_file_name p = (case rev (path_components p) of
     NormalComp name # _ \<Rightarrow> if utf8_valid name then Some name else None
   | _ \<Rightarrow> None)"

definition path_join :: "rstring \<Rightarrow> rstring \<Rightarrow> rstring" where
  "path_join base name =
     (if base = [] \<or> ends_with_byte 0x2F base then base @ name else base @ 0x2F # name)"

definition validate_relative_path :: "rstring \<Rightarrow> transfer_fault + unit" where
  "validate_relative_path p =
     (if \<not> utf8_valid p then Inl (TfUnsafePath p)
      else if p = [] \<or> length p > MAX_CLIPBOARD_PATH_SIZE \<or> 0x5C \<in> set p \<or> 0 \<in> set p
      then Inl (TfUnsafePath p)
      else if list_ex (\<lambda>c. \<not> is_normal c) (path_components p) then Inl (TfUnsafePath p)
      else Inr ())"

section \<open>File URIs\<close>

definition hex :: "u8 \<Rightarrow> u8 option" where
  "hex v = (if 0x30 \<le> v \<and> v \<le> 0x39 then Some (v - 0x30)
            else if 0x61 \<le> v \<and> v \<le> 0x66 then Some (v - 0x61 + 10)
            else if 0x41 \<le> v \<and> v \<le> 0x46 then Some (v - 0x41 + 10)
            else None)"

text \<open>The decoding loop; \<open>None\<close> is the error, whose payload is the whole URI.\<close>

fun percent_decode :: "bytes \<Rightarrow> bytes option" where
  "percent_decode [] = Some []"
| "percent_decode (b # bs) =
     (if b = 0x25 then (case bs of
          h # l # rest \<Rightarrow> (case hex h of None \<Rightarrow> None
            | Some high \<Rightarrow> (case hex l of None \<Rightarrow> None
              | Some low \<Rightarrow> map_option (\<lambda>ds. (push_bit 4 high OR low) # ds) (percent_decode rest)))
        | _ \<Rightarrow> None)
      else map_option (\<lambda>ds. b # ds) (percent_decode bs))"

definition strip_prefix :: "bytes \<Rightarrow> bytes \<Rightarrow> bytes option" where
  "strip_prefix pre s = (if take (length pre) s = pre then Some (drop (length pre) s) else None)"

definition file_uri_to_path :: "rstring \<Rightarrow> transfer_fault + rstring" where
  "file_uri_to_path uri = (case strip_prefix (lit ''file://'') uri of
     None \<Rightarrow> Inl (TfInvalidUri uri)
   | Some encoded \<Rightarrow>
     (case (case strip_prefix (lit ''localhost/'') encoded of
              Some path \<Rightarrow> Some (0x2F # path)
            | None \<Rightarrow> if starts_with_byte 0x2F encoded then Some encoded else None) of
        None \<Rightarrow> Inl (TfInvalidUri uri)
      | Some encoded' \<Rightarrow>
     (case percent_decode encoded' of
        None \<Rightarrow> Inl (TfInvalidUri uri)
      | Some decoded \<Rightarrow>
          if 0 \<in> set decoded then Inl (TfInvalidUri uri)
          else if \<not> starts_with_byte 0x2F decoded then Inl (TfInvalidUri uri)
          else Inr decoded)))"

text \<open>\<open>str::lines\<close> and \<open>str::trim\<close>.\<close>

definition strip_cr :: "rstring \<Rightarrow> rstring" where
  "strip_cr l = (if ends_with_byte 0x0D l then butlast l else l)"

definition str_lines :: "rstring \<Rightarrow> rstring list" where
  "str_lines text =
     (let parts = split_on 0x0A text in
      map strip_cr (if last parts = [] then butlast parts else parts))"

definition whitespace_chars :: "bytes list" where
  "whitespace_chars = [[0x09], [0x0A], [0x0B], [0x0C], [0x0D], [0x20], [0xC2, 0x85], [0xC2, 0xA0],
     [0xE1, 0x9A, 0x80]] @ map (\<lambda>b. [0xE2, 0x80, b])
       [0x80, 0x81, 0x82, 0x83, 0x84, 0x85, 0x86, 0x87, 0x88, 0x89, 0x8A, 0xA8, 0xA9, 0xAF]
     @ [[0xE2, 0x81, 0x9F], [0xE3, 0x80, 0x80]]"

function trim_start :: "rstring \<Rightarrow> rstring" where
  "trim_start s = (case find (\<lambda>w. take (length w) s = w) whitespace_chars of
     None \<Rightarrow> s | Some w \<Rightarrow> trim_start (drop (length w) s))"
  by auto
termination
proof (relation "measure length")
  fix s w assume "find (\<lambda>w. take (length w) s = w) whitespace_chars = Some w"
  then have "w \<in> set whitespace_chars" and t: "take (length w) s = w"
    by (auto simp: find_Some_iff in_set_conv_nth)
  then have "w \<noteq> []" by (auto simp: whitespace_chars_def)
  then show "(drop (length w) s, s) \<in> measure length"
    using t by (cases s) auto
qed simp

function trim_end :: "rstring \<Rightarrow> rstring" where
  "trim_end s = (case find (\<lambda>w. drop (length s - length w) s = w) whitespace_chars of
     None \<Rightarrow> s | Some w \<Rightarrow> trim_end (take (length s - length w) s))"
  by auto
termination
proof (relation "measure length")
  fix s w assume "find (\<lambda>w. drop (length s - length w) s = w) whitespace_chars = Some w"
  then have "w \<in> set whitespace_chars" and t: "drop (length s - length w) s = w"
    by (auto simp: find_Some_iff in_set_conv_nth)
  then have "w \<noteq> []" by (auto simp: whitespace_chars_def)
  then show "(take (length s - length w) s, s) \<in> measure length"
    using t by (cases s) auto
qed simp

declare trim_start.simps [simp del] trim_end.simps [simp del]

definition trim_end_cr :: "rstring \<Rightarrow> rstring" where
  "trim_end_cr s = rev (dropWhile (\<lambda>b. b = 0x0D) (rev s))"

fun uri_roots :: "rstring list \<Rightarrow> transfer_fault + rstring list" where
  "uri_roots [] = Inr []"
| "uri_roots (l # ls) =
     (let line = trim_end (trim_start (trim_end_cr l)) in
      if line = [] \<or> starts_with_byte 0x23 line then uri_roots ls
      else rbind (file_uri_to_path line) (\<lambda>p. rbind (uri_roots ls) (\<lambda>ps. Inr (p # ps))))"

section \<open>Collecting entries\<close>

datatype fs_node =
    FsFile metadata
  | FsDir "(rstring \<times> fs_node) list"
  | FsUnreadableDir io_error
  | FsSymlink
  | FsOther
  | FsStatError io_error

type_synonym source_map = "(u64, rstring \<times> source_identity) hash_map"

record collected =
  cl_next_id :: u64
  cl_total :: u64
  cl_entries :: "clipboard_manifest_entry list"
  cl_sources :: source_map

definition collect_push ::
  "clipboard_entry_kind \<Rightarrow> rstring \<Rightarrow> u64 \<Rightarrow> u64 \<Rightarrow> collected \<Rightarrow> collected" where
  "collect_push kind path sz n st =
     st\<lparr>cl_next_id := n,
        cl_entries := cl_entries st @ [\<lparr>me_file_id = cl_next_id st, me_path = path, me_kind = kind, me_size = sz\<rparr>]\<rparr>"

text \<open>The part of \<open>collect_entry\<close> before it looks at the kind of the entry.\<close>

definition collect_check :: "rstring \<Rightarrow> rstring \<Rightarrow> fs_node \<Rightarrow> collected \<Rightarrow> transfer_fault + u64" where
  "collect_check source relative node st =
     (if length (cl_entries st) \<ge> MAX_CLIPBOARD_MANIFEST_ENTRIES then Inl TfTooManyEntries
      else rbind (validate_relative_path relative) (\<lambda>_.
        case node of
          FsStatError e \<Rightarrow> Inl (TfIo e)
        | FsSymlink \<Rightarrow> Inl (TfUnsupportedEntry source)
        | _ \<Rightarrow> (case checked_add (cl_next_id st) 1 of
            None \<Rightarrow> Inl TfTooManyEntries | Some n \<Rightarrow> Inr n)))"

definition collect_file ::
  "rstring \<Rightarrow> rstring \<Rightarrow> metadata \<Rightarrow> u64 \<Rightarrow> collected \<Rightarrow> transfer_fault + collected" where
  "collect_file source relative m n st = (case checked_add (cl_total st) (md_len m) of
     None \<Rightarrow> Inl TfTooLarge
   | Some tot \<Rightarrow>
       if unat tot > MAX_CLIPBOARD_SIZE then Inl TfTooLarge
       else Inr ((collect_push File relative (md_len m) n st)
              \<lparr>cl_total := tot,
               cl_sources := hm_insert (cl_next_id st) (source, identity_from_metadata m) (cl_sources st)\<rparr>))"

lemma size_list_sort: "size_list f (sort_key k xs) = size_list f xs"
proof -
  have "size_list f ys = sum_list (map (\<lambda>y. Suc (f y)) ys)" for ys by (induction ys) auto
  moreover have "sum_mset (mset (map (\<lambda>y. Suc (f y)) (sort_key k xs))) =
      sum_mset (mset (map (\<lambda>y. Suc (f y)) xs))" by simp
  then have "sum_list (map (\<lambda>y. Suc (f y)) (sort_key k xs)) = sum_list (map (\<lambda>y. Suc (f y)) xs)"
    by (simp only: sum_mset_sum_list)
  ultimately show ?thesis by simp
qed

function (sequential) collect_entry ::
    "rstring \<Rightarrow> rstring \<Rightarrow> fs_node \<Rightarrow> collected \<Rightarrow> transfer_fault + collected"
  and collect_children ::
    "rstring \<Rightarrow> rstring \<Rightarrow> (rstring \<times> fs_node) list \<Rightarrow> collected \<Rightarrow> transfer_fault + collected" where
  "collect_entry source relative node st =
     rbind (collect_check source relative node st) (\<lambda>n. case node of
       FsFile m \<Rightarrow> collect_file source relative m n st
     | FsDir children \<Rightarrow>
         collect_children source relative (sort_key fst children) (collect_push Directory relative 0 n st)
     | FsUnreadableDir e \<Rightarrow> Inl (TfIo e)
     | _ \<Rightarrow> Inl (TfUnsupportedEntry source))"
| "collect_children source relative [] st = Inr st"
| "collect_children source relative ((name, node) # rest) st =
     rbind (collect_entry (path_join source name) (path_join relative name) node st)
       (collect_children source relative rest)"
  by pat_completeness auto
termination
  by (relation "measure (\<lambda>x. case x of Inl (_, _, node, _) \<Rightarrow> size node
        | Inr (_, _, ch, _) \<Rightarrow> size_list (size_prod (\<lambda>_. 0) size) ch)")
    (auto simp: size_list_sort)

text \<open>The loop of \<open>from_paths\<close> over the roots, with the root names seen so far.\<close>

fun collect_roots ::
  "(rstring \<Rightarrow> fs_node) \<Rightarrow> rstring list \<Rightarrow> rstring list \<Rightarrow> collected \<Rightarrow> transfer_fault + collected" where
  "collect_roots fs names [] st = Inr st"
| "collect_roots fs names (root # roots) st =
     (case fs root of
        FsStatError e \<Rightarrow> Inl (TfIo e)
      | FsSymlink \<Rightarrow> Inl (TfUnsupportedEntry root)
      | node \<Rightarrow> (case path_file_name root of
          None \<Rightarrow> Inl (TfUnsafePath root)
        | Some base \<Rightarrow> rbind (validate_relative_path base) (\<lambda>_.
            if base \<in> set names then Inl (TfUnsafePath (lit ''duplicate root name '' @ base))
            else rbind (collect_entry root base node st) (collect_roots fs (base # names) roots))))"

definition from_paths ::
  "(rstring \<Rightarrow> fs_node) \<Rightarrow> u64 \<Rightarrow> rstring list \<Rightarrow> transfer_fault + source_map file_offer" where
  "from_paths fs transfer_id roots =
     rbind (collect_roots fs [] roots \<lparr>cl_next_id = 1, cl_total = 0, cl_entries = [], cl_sources = []\<rparr>)
       (\<lambda>st. Inr \<lparr>fo_transfer_id = transfer_id, fo_entries = cl_entries st, fo_sources = cl_sources st\<rparr>)"

definition from_uri_list ::
  "(rstring \<Rightarrow> fs_node) \<Rightarrow> u64 \<Rightarrow> rstring \<Rightarrow> transfer_fault + source_map file_offer" where
  "from_uri_list fs transfer_id text = rbind (uri_roots (str_lines text)) (\<lambda>roots.
     if roots = [] then Inl (TfInvalidUri (lit ''empty URI list'')) else from_paths fs transfer_id roots)"

definition from_regular_file ::
  "(rstring \<Rightarrow> fs_node) \<Rightarrow> u64 \<Rightarrow> rstring \<Rightarrow> transfer_fault + source_map file_offer" where
  "from_regular_file fs transfer_id path =
     (if transfer_id = 0 then Inl (TfStaleTransfer transfer_id)
      else case fs path of
        FsStatError e \<Rightarrow> Inl (TfIo e)
      | FsFile m \<Rightarrow> (case path_file_name path of
          None \<Rightarrow> Inl (TfUnsafePath (lit ''invalid file name''))
        | Some name \<Rightarrow> (case validate_manual_file_name name of
            Inl _ \<Rightarrow> Inl (TfUnsafePath (lit ''invalid file name''))
          | Inr _ \<Rightarrow> Inr \<lparr>fo_transfer_id = transfer_id,
              fo_entries = [\<lparr>me_file_id = 1, me_path = name, me_kind = File, me_size = md_len m\<rparr>],
              fo_sources = [(1, (path, identity_from_metadata m))]\<rparr>))
      | _ \<Rightarrow> Inl (TfUnsupportedEntry path))"

section \<open>Percent encoding\<close>

definition unreserved :: "u8 \<Rightarrow> bool" where
  "unreserved b \<longleftrightarrow> 0x30 \<le> b \<and> b \<le> 0x39 \<or> 0x41 \<le> b \<and> b \<le> 0x5A \<or> 0x61 \<le> b \<and> b \<le> 0x7A
     \<or> b = 0x2D \<or> b = 0x2E \<or> b = 0x5F \<or> b = 0x7E \<or> b = 0x2F"

definition hex_digit :: "u8 \<Rightarrow> u8" where
  "hex_digit n = (if n < 10 then n + 0x30 else n - 10 + 0x41)"

text \<open>The way desktop programs write file URIs (RFC 3986).\<close>

definition percent_encode :: "bytes \<Rightarrow> bytes" where
  "percent_encode p = concat (map (\<lambda>b. if unreserved b then [b]
     else [0x25, hex_digit (drop_bit 4 b), hex_digit (b AND 0xF)]) p)"

definition file_uri :: "rstring \<Rightarrow> rstring" where
  "file_uri p = lit ''file://'' @ percent_encode p"

definition uri_list :: "rstring list \<Rightarrow> rstring" where
  "uri_list ps = concat (map (\<lambda>p. file_uri p @ [0x0D, 0x0A]) ps)"

lemma hex_hex_digit: "n < 16 \<Longrightarrow> hex (hex_digit n) = Some n"
proof -
  assume "n < 16"
  then have "unat n \<in> set [0..<16]" by (simp add: word_less_nat_alt)
  moreover have "\<forall>k \<in> set [0..<16]. hex (hex_digit (word_of_nat k)) = Some (word_of_nat k)" by code_simp
  ultimately have "hex (hex_digit (word_of_nat (unat n))) = Some (word_of_nat (unat n))" by blast
  then show ?thesis by simp
qed

lemma nibbles: "push_bit 4 (drop_bit 4 b) OR (b AND 0xF) = (b :: u8)"
proof (rule bit_eqI)
  fix n assume n: "possible_bit TYPE(u8) n"
  have "(0xF :: u8) = mask 4" by (simp add: mask_eq_exp_minus_1)
  then have "bit (0xF :: u8) n = (n < 4)" using n by (simp only: bit_mask_iff) simp
  then show "bit (push_bit 4 (drop_bit 4 b) OR (b AND 0xF)) n = bit b n"
    using n by (cases "n < 4") (simp_all add: bit_or_iff bit_and_iff bit_push_bit_iff bit_drop_bit_eq)
qed

lemma nibble_bounds: "drop_bit 4 (b :: u8) < 16" "b AND 0xF < (16 :: u8)"
proof -
  have "drop_bit 4 b = b div 16" by (simp add: drop_bit_eq_div)
  moreover have "unat (b div 16) = unat b div 16" by (simp add: unat_div)
  moreover have "unat b < 256" using unsigned_less [of b, where 'a = nat] by simp
  ultimately show "drop_bit 4 b < 16" by (simp add: word_less_nat_alt)
  have "b AND 0xF \<le> 0xF" by (rule word_and_le1)
  then show "b AND 0xF < 16" by (simp add: word_le_nat_alt word_less_nat_alt)
qed

lemma percent_decode_encode: "percent_decode (percent_encode p) = Some p"
  by (induction p) (auto simp: percent_encode_def unreserved_def hex_hex_digit nibble_bounds nibbles)

text \<open>The bytes of a URI as written by \<open>file_uri\<close> are printable ASCII other than the hash sign.\<close>

definition uri_byte :: "u8 \<Rightarrow> bool" where
  "uri_byte b \<longleftrightarrow> 0x24 \<le> b \<and> b < 0x7F"

lemma hex_digit_uri: "n < 16 \<Longrightarrow> uri_byte (hex_digit n)"
proof -
  assume "n < 16"
  then have "unat n \<in> set [0..<16]" by (simp add: word_less_nat_alt)
  moreover have "\<forall>k \<in> set [0..<16]. uri_byte (hex_digit (word_of_nat k))" by code_simp
  ultimately have "uri_byte (hex_digit (word_of_nat (unat n)))" by blast
  then show ?thesis by simp
qed

lemma unreserved_uri: "unreserved b \<Longrightarrow> uri_byte b"
  by (auto simp: unreserved_def uri_byte_def word_le_nat_alt word_less_nat_alt)

lemma percent_encode_uri: "b \<in> set (percent_encode p) \<Longrightarrow> uri_byte b"
  by (auto simp: percent_encode_def unreserved_uri hex_digit_uri nibble_bounds split: if_splits)
    (simp_all add: uri_byte_def)

lemma file_uri_bytes: "b \<in> set (file_uri p) \<Longrightarrow> uri_byte b"
  by (auto simp: file_uri_def dest: percent_encode_uri) (simp_all add: uri_byte_def)

lemma file_uri_to_path_uri:
  assumes "starts_with_byte 0x2F p" and "0 \<notin> set p"
  shows "file_uri_to_path (file_uri p) = Inr p"
proof -
  obtain q where p: "p = 0x2F # q" using assms(1) by (cases p) (auto simp: starts_with_byte_def)
  have "percent_encode p = 0x2F # percent_encode q" by (simp add: p percent_encode_def unreserved_def)
  then have "strip_prefix (lit ''localhost/'') (percent_encode p) = None"
    by (simp add: strip_prefix_def)
  moreover have "strip_prefix (lit ''file://'') (file_uri p) = Some (percent_encode p)"
    by (simp add: strip_prefix_def file_uri_def)
  moreover have "starts_with_byte 0x2F (percent_encode p)"
    using \<open>percent_encode p = 0x2F # percent_encode q\<close> by (simp add: starts_with_byte_def)
  ultimately show ?thesis using assms by (simp add: file_uri_to_path_def percent_decode_encode)
qed

lemma split_on_append: "c \<notin> set xs \<Longrightarrow> split_on c (xs @ c # ys) = xs # split_on c ys"
  by (induction xs) auto

lemma whitespace_not_uri: "w \<in> set whitespace_chars \<Longrightarrow> \<not> uri_byte (hd w) \<and> \<not> uri_byte (last w) \<and> w \<noteq> []"
proof -
  have "\<forall>w \<in> set whitespace_chars. \<not> uri_byte (hd w) \<and> \<not> uri_byte (last w) \<and> w \<noteq> []" by code_simp
  then show "w \<in> set whitespace_chars \<Longrightarrow> \<not> uri_byte (hd w) \<and> \<not> uri_byte (last w) \<and> w \<noteq> []" by blast
qed

lemma trim_uri:
  assumes "\<forall>b \<in> set u. uri_byte b" and "u \<noteq> []"
  shows "trim_start u = u" and "trim_end u = u" and "trim_end_cr u = u"
proof -
  have ends: "uri_byte (hd u)" "uri_byte (last u)" using assms by simp_all
  have "take (length w) u \<noteq> w" "drop (length u - length w) u \<noteq> w" if "w \<in> set whitespace_chars" for w
  proof -
    have w: "\<not> uri_byte (hd w)" "\<not> uri_byte (last w)" "w \<noteq> []" using whitespace_not_uri [OF that] by auto
    show "take (length w) u \<noteq> w"
    proof
      assume "take (length w) u = w"
      then have "hd w = hd u" using w(3) assms(2) by (metis hd_take length_greater_0_conv)
      with w(1) ends(1) show False by simp
    qed
    show "drop (length u - length w) u \<noteq> w"
    proof
      assume d: "drop (length u - length w) u = w"
      then have "last w = last u" using w(3) by (metis drop_eq_Nil last_drop not_le)
      with w(2) ends(2) show False by simp
    qed
  qed
  then have "find (\<lambda>w. take (length w) u = w) whitespace_chars = None"
    "find (\<lambda>w. drop (length u - length w) u = w) whitespace_chars = None"
    by (simp_all add: find_None_iff)
  then show "trim_start u = u" "trim_end u = u" by (simp_all add: trim_start.simps [of u] trim_end.simps [of u])
  have "last u \<noteq> 0x0D" using ends(2) by (auto simp: uri_byte_def)
  then show "trim_end_cr u = u" using assms(2)
    by (cases u rule: rev_cases) (simp_all add: trim_end_cr_def)
qed

lemma file_uri_line:
  "file_uri p \<noteq> []" "\<not> starts_with_byte 0x23 (file_uri p)" "0x0A \<notin> set (file_uri p)"
  by (auto simp: file_uri_def starts_with_byte_def dest: file_uri_bytes [unfolded file_uri_def, simplified])
    (auto dest!: percent_encode_uri simp: uri_byte_def)

lemma str_lines_uri_list: "str_lines (uri_list ps) = map file_uri ps"
proof -
  have "split_on 0x0A (uri_list ps) = map (\<lambda>p. file_uri p @ [0x0D]) ps @ [[]]"
  proof (induction ps)
    case (Cons p ps)
    have "uri_list (p # ps) = (file_uri p @ [0x0D]) @ 0x0A # uri_list ps" by (simp add: uri_list_def)
    then show ?case
      using Cons split_on_append [of "0x0A" "file_uri p @ [0x0D]" "uri_list ps"] file_uri_line(3) by simp
  qed (simp add: uri_list_def)
  then show ?thesis by (simp add: str_lines_def strip_cr_def ends_with_byte_def comp_def)
qed

section \<open>What an offer contains\<close>

text \<open>Names as a file system has them, and paths made of such names.\<close>

definition name_ok :: "rstring \<Rightarrow> bool" where
  "name_ok n \<longleftrightarrow> n \<noteq> [] \<and> 0x2F \<notin> set n \<and> n \<noteq> lit ''.'' \<and> n \<noteq> lit ''..''"

fun fs_ok :: "fs_node \<Rightarrow> bool" where
  "fs_ok (FsDir ch) \<longleftrightarrow> distinct (map fst ch) \<and> (\<forall>(n, node) \<in> set ch. name_ok n \<and> fs_ok node)"
| "fs_ok _ \<longleftrightarrow> True"

definition parts_ok :: "rstring \<Rightarrow> bool" where
  "parts_ok p \<longleftrightarrow> (\<forall>part \<in> set (split_on 0x2F p). part \<noteq> [] \<and> part \<noteq> lit ''.'' \<and> part \<noteq> lit ''..'')"

lemma split_on_join: "split_on c (xs @ c # ys) = split_on c xs @ split_on c ys"
proof (induction xs)
  case (Cons x xs)
  then show ?case by (cases "split_on c xs") auto
qed simp

lemma split_on_single: "c \<notin> set xs \<Longrightarrow> split_on c xs = [xs]"
  by (induction xs) auto

lemma name_parts_ok: "name_ok n \<Longrightarrow> parts_ok n"
  by (simp add: name_ok_def parts_ok_def split_on_single)

lemma last_split_on: "xs \<noteq> [] \<Longrightarrow> last xs = c \<Longrightarrow> [] \<in> set (split_on c xs)"
proof -
  assume "xs \<noteq> []" "last xs = c"
  then obtain ys where "xs = ys @ [c]" by (metis append_butlast_last_id)
  then show ?thesis by (simp add: split_on_join)
qed

lemma parts_ok_join:
  assumes "parts_ok r" and "name_ok n"
  shows "path_join r n = r @ 0x2F # n" and "parts_ok (path_join r n)"
proof -
  have "\<not> parts_ok []" by (simp add: parts_ok_def)
  then have "r \<noteq> []" using assms(1) by blast
  moreover have "\<not> ends_with_byte 0x2F r"
  proof
    assume "ends_with_byte 0x2F r"
    then have "[] \<in> set (split_on 0x2F r)" using last_split_on by (auto simp: ends_with_byte_def)
    with assms(1) show False by (auto simp: parts_ok_def)
  qed
  ultimately show j: "path_join r n = r @ 0x2F # n" by (simp add: path_join_def)
  show "parts_ok (path_join r n)"
    using assms name_parts_ok [OF assms(2)] unfolding j parts_ok_def split_on_join by (simp add: ball_Un)
qed

definition under :: "rstring \<Rightarrow> rstring \<Rightarrow> bool" where
  "under r p \<longleftrightarrow> p = r \<or> (\<exists>q. p = r @ 0x2F # q)"

lemma under_join: "under (r @ 0x2F # n) p \<Longrightarrow> under r p \<and> p \<noteq> r"
  by (auto simp: under_def)

lemma under_disjoint:
  assumes "0x2F \<notin> set a" and "0x2F \<notin> set b" and "under (r @ 0x2F # a) p" and "under (r @ 0x2F # b) p"
  shows "a = b"
proof -
  have "takeWhile (\<lambda>x. x \<noteq> 0x2F) (drop (length r + 1) p) = c"
    if "0x2F \<notin> set c" "under (r @ 0x2F # c) p" for c
    using that by (auto simp: under_def takeWhile_append takeWhile_eq_all_conv [THEN iffD2])
  with assms show ?thesis by metis
qed

lemma under_disjoint_root:
  assumes "0x2F \<notin> set a" and "0x2F \<notin> set b" and "under a p" and "under b p"
  shows "a = b"
proof -
  have "takeWhile (\<lambda>x. x \<noteq> 0x2F) p = c" if "0x2F \<notin> set c" "under c p" for c
    using that by (auto simp: under_def takeWhile_append takeWhile_eq_all_conv [THEN iffD2])
  with assms show ?thesis by metis
qed

text \<open>The counters of the walk, and the entries it has added.\<close>

definition entry_ok :: "clipboard_manifest_entry \<Rightarrow> bool" where
  "entry_ok e \<longleftrightarrow> me_path e \<noteq> [] \<and> length (me_path e) \<le> MAX_CLIPBOARD_PATH_SIZE \<and> parts_ok (me_path e)
     \<and> (me_kind e = Directory \<longrightarrow> me_size e = 0)"

definition collected_ok :: "collected \<Rightarrow> bool" where
  "collected_ok st \<longleftrightarrow>
     (let es = cl_entries st in
      length es \<le> MAX_CLIPBOARD_MANIFEST_ENTRIES
      \<and> unat (cl_next_id st) = Suc (length es) \<and> map (unat \<circ> me_file_id) es = [1..<Suc (length es)]
      \<and> unat (cl_total st) = sum_list (map (unat \<circ> me_size) es) \<and> unat (cl_total st) \<le> MAX_CLIPBOARD_SIZE
      \<and> list_all entry_ok es
      \<and> (\<forall>f. hm_get (cl_sources st) f \<noteq> None \<longleftrightarrow> (\<exists>e \<in> set es. me_file_id e = f \<and> me_kind e = File)))"

definition adds :: "(rstring \<Rightarrow> bool) \<Rightarrow> collected \<Rightarrow> collected \<Rightarrow> bool" where
  "adds P st st' \<longleftrightarrow> collected_ok st' \<and> (\<exists>new. cl_entries st' = cl_entries st @ new
     \<and> distinct (map me_path new) \<and> (\<forall>e \<in> set new. P (me_path e)))"

lemma adds_refl: "collected_ok st \<Longrightarrow> adds P st st"
  by (simp add: adds_def)

lemma adds_trans:
  assumes "adds P st st1" and "adds Q st1 st2" and "\<And>p. P p \<Longrightarrow> Q p \<Longrightarrow> False"
    and "\<And>p. P p \<Longrightarrow> R p" and "\<And>p. Q p \<Longrightarrow> R p"
  shows "adds R st st2"
proof -
  from assms(1) obtain a where a: "cl_entries st1 = cl_entries st @ a" "distinct (map me_path a)"
    "\<forall>e \<in> set a. P (me_path e)" by (auto simp: adds_def)
  from assms(2) obtain b where b: "cl_entries st2 = cl_entries st1 @ b" "distinct (map me_path b)"
    "\<forall>e \<in> set b. Q (me_path e)" and ok: "collected_ok st2" by (auto simp: adds_def)
  have "distinct (map me_path (a @ b))" using a(2,3) b(2,3) assms(3) by fastforce
  moreover have "\<forall>e \<in> set (a @ b). R (me_path e)" using a(3) b(3) assms(4,5) by auto
  ultimately show ?thesis unfolding adds_def using a(1) b(1) ok by (metis append.assoc)
qed

lemma collect_check_Inr:
  assumes "collect_check source r node st = Inr n" and "collected_ok st"
  shows "length (cl_entries st) < MAX_CLIPBOARD_MANIFEST_ENTRIES" and "validate_relative_path r = Inr ()"
    and "unat n = Suc (unat (cl_next_id st))"
  using assms by (auto simp: collect_check_def rbind_eq_Inr_iff checked_add_Some_iff
      split: if_splits fs_node.splits option.splits)

lemma collected_ok_push:
  assumes ok: "collected_ok st" and room: "length (cl_entries st) < MAX_CLIPBOARD_MANIFEST_ENTRIES"
    and n: "unat n = Suc (unat (cl_next_id st))"
    and e: "entry_ok \<lparr>me_file_id = cl_next_id st, me_path = r, me_kind = k, me_size = sz\<rparr>"
    and tot: "unat tot = unat (cl_total st) + unat sz" "unat tot \<le> MAX_CLIPBOARD_SIZE"
    and src: "\<And>f. hm_get src f \<noteq> None \<longleftrightarrow> hm_get (cl_sources st) f \<noteq> None \<or> f = cl_next_id st \<and> k = File"
  shows "collected_ok ((collect_push k r sz n st)\<lparr>cl_total := tot, cl_sources := src\<rparr>)"
  using assms by (auto simp: collected_ok_def collect_push_def Let_def)

lemma collect_file_adds:
  assumes ok: "collected_ok st" and c: "collect_check source r (FsFile m) st = Inr n"
    and r: "parts_ok r" and f: "collect_file source r m n st = Inr st'"
  shows "adds (\<lambda>p. p = r) st st'"
proof -
  note k = collect_check_Inr [OF c ok]
  from f obtain tot where tot: "checked_add (cl_total st) (md_len m) = Some tot"
    "unat tot \<le> MAX_CLIPBOARD_SIZE"
    and st': "st' = (collect_push File r (md_len m) n st) \<lparr>cl_total := tot, cl_sources :=
       hm_insert (cl_next_id st) (source, identity_from_metadata m) (cl_sources st)\<rparr>"
    by (auto simp: collect_file_def split: option.splits if_splits)
  have "collected_ok st'" unfolding st'
    using k r tot by (intro collected_ok_push [OF ok k(1,3)])
      (auto simp: entry_ok_def validate_relative_path_def checked_add_Some_iff hash_map split: if_splits)
  then show ?thesis by (auto simp: adds_def st' collect_push_def)
qed

lemma collect_push_adds:
  assumes ok: "collected_ok st" and c: "collect_check source r node st = Inr n" and r: "parts_ok r"
  shows "adds (\<lambda>p. p = r) st (collect_push Directory r 0 n st)"
proof -
  note k = collect_check_Inr [OF c ok]
  have "collected_ok ((collect_push Directory r 0 n st)
      \<lparr>cl_total := cl_total st, cl_sources := cl_sources st\<rparr>)"
    using k r ok by (intro collected_ok_push [OF ok k(1,3)])
      (auto simp: entry_ok_def validate_relative_path_def collected_ok_def Let_def split: if_splits)
  then show ?thesis by (simp add: adds_def collect_push_def)
qed

lemma collect_adds:
  "collect_entry source r node st = Inr st' \<Longrightarrow> collected_ok st \<Longrightarrow> fs_ok node \<Longrightarrow> parts_ok r \<Longrightarrow>
     adds (under r) st st'"
  "collect_children source r ch st = Inr st' \<Longrightarrow> collected_ok st \<Longrightarrow>
     distinct (map fst ch) \<Longrightarrow> (\<forall>(n, node) \<in> set ch. name_ok n \<and> fs_ok node) \<Longrightarrow> parts_ok r \<Longrightarrow>
     adds (\<lambda>p. \<exists>n \<in> fst ` set ch. under (r @ 0x2F # n) p) st st'"
proof (induction source r node st and source r ch st arbitrary: st' and st'
    rule: collect_entry_collect_children.induct)
  case (1 source r node st)
  from "1.prems"(1) obtain n where n: "collect_check source r node st = Inr n"
    by (auto simp: rbind_eq_Inr_iff)
  show ?case
  proof (cases node)
    case (FsFile m)
    with "1.prems" n have "collect_file source r m n st = Inr st'" by simp
    with FsFile n "1.prems" have "adds (\<lambda>p. p = r) st st'" by (intro collect_file_adds) auto
    then show ?thesis by (auto simp: adds_def under_def)
  next
    case (FsDir ch)
    let ?st1 = "collect_push Directory r 0 n st"
    have c: "collect_children source r (sort_key fst ch) ?st1 = Inr st'"
      using "1.prems"(1) n FsDir by simp
    have a1: "adds (\<lambda>p. p = r) st ?st1" by (rule collect_push_adds [OF "1.prems"(2) n "1.prems"(4)])
    have "adds (\<lambda>p. \<exists>n \<in> fst ` set (sort_key fst ch). under (r @ 0x2F # n) p) ?st1 st'"
      using a1 "1.prems" FsDir
      by (intro "1.IH" [OF FsDir c]) (auto simp: adds_def distinct_map inj_on_def)
    with a1 show ?thesis by (rule adds_trans) (auto simp: under_def)
  qed (use "1.prems"(1) n in auto)
next
  case (2 source r st)
  then show ?case by (simp add: adds_refl)
next
  case (3 source r name node rest st)
  from "3.prems"(1) obtain st1 where
    e: "collect_entry (path_join source name) (path_join r name) node st = Inr st1"
    and c: "collect_children source r rest st1 = Inr st'" by (auto simp: rbind_eq_Inr_iff)
  have nm: "name_ok name" "fs_ok node" using "3.prems"(4) by auto
  note j = parts_ok_join [OF "3.prems"(5) nm(1)]
  have a1: "adds (under (r @ 0x2F # name)) st st1"
    using "3.IH"(1) [OF e "3.prems"(2) nm(2) j(2)] by (simp add: j(1))
  have a2: "adds (\<lambda>p. \<exists>n \<in> fst ` set rest. under (r @ 0x2F # n) p) st1 st'"
    using a1 "3.prems" by (intro "3.IH"(2) [OF c]) (auto simp: adds_def)
  show ?case
  proof (rule adds_trans [OF a1 a2])
    fix p assume p: "under (r @ 0x2F # name) p" and "\<exists>n \<in> fst ` set rest. under (r @ 0x2F # n) p"
    then obtain n where n: "n \<in> fst ` set rest" "under (r @ 0x2F # n) p" by blast
    then have "name_ok n" "n \<noteq> name" using "3.prems"(3,4) by auto
    with under_disjoint [OF _ _ p n(2)] nm(1) show False by (simp add: name_ok_def)
  qed auto
qed

lemma path_file_name_ok: "path_file_name root = Some base \<Longrightarrow> name_ok base \<and> utf8_valid base"
proof -
  assume "path_file_name root = Some base"
  then obtain cs where cs: "rev (path_components root) = NormalComp base # cs" and u: "utf8_valid base"
    by (auto simp: path_file_name_def split: list.splits path_component.splits if_splits)
  then have "NormalComp base \<in> set (path_components root)" by (metis list.set_intros(1) set_rev)
  then have "base \<in> set (split_on 0x2F root)" "base \<noteq> []" "base \<noteq> lit ''.''" "base \<noteq> lit ''..''"
    by (auto simp: path_components_def path_component_def Let_def split: if_splits)
  with u show ?thesis by (auto simp: name_ok_def dest: split_on_no_sep)
qed

lemma collect_roots_step:
  assumes "collect_roots fs names (root # roots) st = Inr st'"
  obtains base st1 where "path_file_name root = Some base" "base \<notin> set names"
    "collect_entry root base (fs root) st = Inr st1" "collect_roots fs (base # names) roots st1 = Inr st'"
  using assms by (auto simp: rbind_eq_Inr_iff split: fs_node.splits option.splits if_splits)

lemma collect_roots_adds:
  "collect_roots fs names roots st = Inr st' \<Longrightarrow> collected_ok st \<Longrightarrow> \<forall>root \<in> set roots. fs_ok (fs root) \<Longrightarrow>
     \<forall>n \<in> set names. name_ok n \<Longrightarrow>
     adds (\<lambda>p. \<exists>base. base \<notin> set names \<and> name_ok base \<and> under base p) st st'"
proof (induction roots arbitrary: names st)
  case (Cons root roots)
  from Cons.prems(1) obtain base st1 where b: "path_file_name root = Some base" "base \<notin> set names"
    and e: "collect_entry root base (fs root) st = Inr st1"
    and c: "collect_roots fs (base # names) roots st1 = Inr st'" by (rule collect_roots_step)
  have nb: "name_ok base" using path_file_name_ok [OF b(1)] by blast
  have a1: "adds (under base) st st1"
    using collect_adds(1) [OF e Cons.prems(2) _ name_parts_ok [OF nb]] Cons.prems(3) by simp
  have a2: "adds (\<lambda>p. \<exists>b'. b' \<notin> set (base # names) \<and> name_ok b' \<and> under b' p) st1 st'"
    using Cons.IH [OF c] a1 nb Cons.prems by (auto simp: adds_def)
  show ?case
  proof (rule adds_trans [OF a1 a2])
    fix p assume p: "under base p" and "\<exists>b'. b' \<notin> set (base # names) \<and> name_ok b' \<and> under b' p"
    then obtain b' where "b' \<noteq> base" "name_ok b'" "under b' p" by auto
    with under_disjoint_root [OF _ _ p, of b'] nb show False by (auto simp: name_ok_def)
  qed (use b nb in auto)
qed (simp add: adds_refl)

lemma collect_grows:
  "collect_entry source r node st = Inr st' \<Longrightarrow> length (cl_entries st) < length (cl_entries st')"
  "collect_children source r ch st = Inr st' \<Longrightarrow> length (cl_entries st) \<le> length (cl_entries st')"
proof (induction source r node st and source r ch st arbitrary: st' and st'
    rule: collect_entry_collect_children.induct)
  case (1 source r node st)
  from "1.prems" obtain n where n: "collect_check source r node st = Inr n"
    by (auto simp: rbind_eq_Inr_iff)
  show ?case
  proof (cases node)
    case (FsFile m)
    with "1.prems" n have "collect_file source r m n st = Inr st'" by simp
    then show ?thesis by (auto simp: collect_file_def collect_push_def split: option.splits if_splits)
  next
    case (FsDir ch)
    with "1.prems" n have "collect_children source r (sort_key fst ch) (collect_push Directory r 0 n st) = Inr st'"
      by simp
    from "1.IH" [OF FsDir this] show ?thesis by (simp add: collect_push_def)
  qed (use "1.prems" n in auto)
next
  case (3 source r name node rest st)
  then obtain st1 where "collect_entry (path_join source name) (path_join r name) node st = Inr st1"
    "collect_children source r rest st1 = Inr st'" by (auto simp: rbind_eq_Inr_iff)
  from "3.IH"(1) [OF this(1)] "3.IH"(2) [OF this(2)] show ?case by simp
qed simp

lemma collect_roots_grows:
  "collect_roots fs names roots st = Inr st' \<Longrightarrow> length (cl_entries st) \<le> length (cl_entries st')"
proof (induction roots arbitrary: names st)
  case (Cons root roots)
  from Cons.prems obtain base st1 where "collect_entry root base (fs root) st = Inr st1"
    "collect_roots fs (base # names) roots st1 = Inr st'" by (rule collect_roots_step)
  from collect_grows(1) [OF this(1)] Cons.IH [OF this(2)] show ?case by simp
qed simp

lemma validate_wire_entries_ok:
  assumes "list_all entry_ok es" and "distinct (map me_file_id es)" and "distinct (map me_path es)"
    and "0 \<notin> set (map me_file_id es)" and "set (map me_file_id es) \<inter> ids = {}"
    and "set (map me_path es) \<inter> paths = {}"
    and "unat tot + sum_list (map (unat \<circ> me_size) es) \<le> MAX_CLIPBOARD_SIZE"
  shows "validate_wire_entries ids paths tot es = (Inr () :: 'p transfer_error + unit)"
  using assms
proof (induction es arbitrary: ids paths tot)
  case (Cons e es)
  have ok: "entry_ok e" using Cons.prems(1) by simp
  have "unat tot + unat (me_size e) \<le> MAX_CLIPBOARD_SIZE" using Cons.prems(7) by simp
  then have add: "checked_add tot (me_size e) = Some (tot + me_size e)"
    "unat (tot + me_size e) = unat tot + unat (me_size e)"
    by (simp_all add: checked_add_def const_defs unat_word_ariths)
  have "starts_with_byte 0x2F p \<Longrightarrow> [] \<in> set (split_on 0x2F p)" for p
    by (cases p) (simp_all add: starts_with_byte_def)
  then have "\<not> starts_with_byte 0x2F (me_path e)" using ok unfolding entry_ok_def parts_ok_def by blast
  moreover have "\<not> list_ex (\<lambda>part. part = [] \<or> part = lit ''.'' \<or> part = lit ''..'') (split_on 0x2F (me_path e))"
    using ok by (auto simp: entry_ok_def parts_ok_def list_ex_iff)
  moreover have "validate_wire_entries (insert (me_file_id e) ids) (insert (me_path e) paths)
      (tot + me_size e) es = (Inr () :: 'p transfer_error + unit)"
    using Cons.prems add(2) by (intro Cons.IH) auto
  ultimately show ?case
    using ok Cons.prems add by (auto simp: entry_ok_def)
qed simp

section \<open>Properties\<close>

text \<open>A URI list as file managers put it on the clipboard, one percent-encoded file URI per line,
  is read back as exactly the paths it names, whatever bytes other than NUL they contain.\<close>

theorem uri_list_roundtrip:
  assumes "\<forall>p \<in> set ps. starts_with_byte 0x2F p \<and> 0 \<notin> set p"
  shows "uri_roots (str_lines (uri_list ps)) = Inr ps"
  using assms unfolding str_lines_uri_list
proof (induction ps)
  case (Cons p ps)
  have "trim_end (trim_start (trim_end_cr (file_uri p))) = file_uri p"
    using trim_uri [of "file_uri p"] file_uri_bytes file_uri_line(1) by simp
  then show ?case using Cons by (simp add: file_uri_line file_uri_to_path_uri)
qed simp

theorem uri_list_roundtrip_witness:
  "uri_roots (str_lines (uri_list [lit ''/a b'', [0x2F, 0xFF]])) = Inr [lit ''/a b'', [0x2F, 0xFF]]"
  by (rule uri_list_roundtrip) (simp add: starts_with_byte_def)

text \<open>An offer built from the file system is one that a receiver accepts: if the walk over the
  roots succeeds, its manifest passes \<open>validate_wire_manifest\<close>, its file ids are 1, 2, ... in order,
  and exactly its regular files have a source to read from. The file system is assumed to have
  nonempty, distinct names without a slash in each directory.\<close>

theorem offer_manifest_valid:
  assumes roots: "roots \<noteq> []" and fs: "\<forall>root \<in> set roots. fs_ok (fs root)"
    and offer: "from_paths fs transfer_id roots = Inr offer"
  shows "validate_wire_manifest (fo_entries offer) = (Inr () :: 'p transfer_error + unit)
    \<and> map (unat \<circ> me_file_id) (fo_entries offer) = [1..<Suc (length (fo_entries offer))]
    \<and> (\<forall>f. hm_get (fo_sources offer) f \<noteq> None \<longleftrightarrow>
          (\<exists>e \<in> set (fo_entries offer). me_file_id e = f \<and> me_kind e = File))"
proof -
  let ?st0 = "\<lparr>cl_next_id = 1, cl_total = 0, cl_entries = [], cl_sources = []\<rparr>"
  from offer obtain st where c: "collect_roots fs [] roots ?st0 = Inr st"
    and o: "fo_entries offer = cl_entries st" "fo_sources offer = cl_sources st"
    by (auto simp: from_paths_def rbind_eq_Inr_iff)
  have "collected_ok ?st0" by (simp add: collected_ok_def hash_map)
  from collect_roots_adds [OF c this fs] have ok: "collected_ok st" and d: "distinct (map me_path (cl_entries st))"
    by (auto simp: adds_def)
  have ne: "cl_entries st \<noteq> []"
  proof -
    obtain r rs where "roots = r # rs" using roots by (cases roots) auto
    with c obtain base st1 where e: "collect_entry r base (fs r) ?st0 = Inr st1"
      and rs: "collect_roots fs [base] rs st1 = Inr st" by (metis collect_roots_step)
    from collect_grows(1) [OF e] collect_roots_grows [OF rs] show ?thesis by auto
  qed
  have ids: "map (unat \<circ> me_file_id) (cl_entries st) = [1..<Suc (length (cl_entries st))]"
    using ok by (simp add: collected_ok_def Let_def)
  have "distinct (map me_file_id (cl_entries st))" "0 \<notin> set (map me_file_id (cl_entries st))"
  proof -
    have "distinct (map unat (map me_file_id (cl_entries st)))" using ids by (simp only: map_map) simp
    then show "distinct (map me_file_id (cl_entries st))" using distinct_map by blast
    have "0 \<notin> unat ` set (map me_file_id (cl_entries st))"
      using arg_cong [OF ids, of set] by (auto simp: image_image)
    then show "0 \<notin> set (map me_file_id (cl_entries st))" by (metis image_eqI unsigned_0)
  qed
  then have "validate_wire_entries {} {} 0 (cl_entries st) = (Inr () :: 'p transfer_error + unit)"
    using ok d by (intro validate_wire_entries_ok) (auto simp: collected_ok_def Let_def)
  then show ?thesis using ok ne ids by (simp add: o validate_wire_manifest_def collected_ok_def Let_def)
qed

text \<open>A small tree: a directory with a file and an empty directory, listed in another order.\<close>

definition demo_meta :: metadata where
  "demo_meta = \<lparr>md_len = 3, md_modified = Some 1, md_dev = 1, md_ino = 9\<rparr>"

definition demo_fs :: "rstring \<Rightarrow> fs_node" where
  "demo_fs p = (if p = lit ''/d'' then FsDir [(lit ''f'', FsFile demo_meta), (lit ''e'', FsDir [])]
     else FsFile demo_meta)"

lemma demo_from_paths:
  "from_paths demo_fs 5 [lit ''/d''] = Inr \<lparr>fo_transfer_id = 5, fo_entries =
     [\<lparr>me_file_id = 1, me_path = lit ''d'', me_kind = Directory, me_size = 0\<rparr>,
      \<lparr>me_file_id = 2, me_path = lit ''d/e'', me_kind = Directory, me_size = 0\<rparr>,
      \<lparr>me_file_id = 3, me_path = lit ''d/f'', me_kind = File, me_size = 3\<rparr>],
     fo_sources = [(3, (lit ''/d/f'', identity_from_metadata demo_meta))]\<rparr>"
  by (simp add: from_paths_def demo_fs_def path_file_name_def path_components_def path_component_def
      starts_with_byte_def ends_with_byte_def validate_relative_path_def is_normal_def lit_def const_defs
      collect_check_def collect_push_def collect_file_def checked_add_def path_join_def demo_meta_def Let_def)

theorem offer_manifest_valid_witness:
  "\<exists>offer. from_paths demo_fs 5 [lit ''/d''] = Inr offer
     \<and> validate_wire_manifest (fo_entries offer) = (Inr () :: nat transfer_error + unit)
     \<and> length (fo_entries offer) = 3"
proof -
  obtain offer where o: "from_paths demo_fs 5 [lit ''/d''] = Inr offer" "length (fo_entries offer) = 3"
    by (rule that [OF demo_from_paths]) simp
  have "\<forall>root \<in> set [lit ''/d'']. fs_ok (demo_fs root)" by (simp add: demo_fs_def name_ok_def)
  from offer_manifest_valid [OF _ this o(1), where 'p = nat] o show ?thesis by blast
qed

text \<open>The limits of the walk and of the wire differ: here a file whose name contains a colon is offered
  and its manifest passes \<open>validate_wire_manifest\<close>, but the manifest cannot be encoded.\<close>

theorem colon_offer_not_encodable:
  "\<exists>offer. from_paths demo_fs 5 [lit ''/a:b''] = Inr offer
     \<and> validate_wire_manifest (fo_entries offer) = (Inr () :: nat transfer_error + unit)
     \<and> encode (ClipboardManifest 5 (fo_entries offer)) = Inl (InvalidPath (lit ''a:b''))"
  by (simp add: from_paths_def demo_fs_def path_file_name_def path_components_def path_component_def
      starts_with_byte_def ends_with_byte_def validate_relative_path_def is_normal_def lit_def const_defs
      collect_check_def collect_push_def collect_file_def checked_add_def path_join_def demo_meta_def Let_def
      validate_wire_manifest_def encode_def encode_manifest_def validate_path_def)

end
