(* ===== verification/File_Io.thy ===== *)
theory File_Io
  imports Source_Files "HOL-Library.Sublist"
begin

text \<open>
  Reading source files and writing received ones, from \<open>crates/syntra-core/src/file_transfer.rs\<close>.
  What the operating system answers to a call is an argument of the call (an \<open>env\<close> record), so that
  the theorems cover every failure; a disk is the map from absolute paths, as lists of components,
  to what is there. A hasher is the bytes it has been fed and \<open>sha256\<close> a parameter. The content of the files on the disk is
  not part of it: what a write that failed half-way left in a file is not seen, only the bytes of the writes that succeeded
  are, in the hasher.
\<close>

section \<open>Outgoing files\<close>

record outgoing =
  og_file_id :: u64
  og_offset :: u64
  og_size :: u64
  og_identity :: source_identity
  og_hasher :: bytes
  og_cancelled :: bool

text \<open>What opening a source answers: the open itself, its metadata with \<open>is_file\<close>, and the seek.\<close>

record open_env =
  oe_open :: "io_error option"
  oe_meta :: "io_error + bool \<times> metadata"
  oe_seek :: "io_error option"

definition offer_open ::
  "source_map file_offer \<Rightarrow> u64 \<Rightarrow> u64 \<Rightarrow> open_env \<Rightarrow> transfer_fault + outgoing" where
  "offer_open offer file_id offset env =
     (case find (\<lambda>e. me_file_id e = file_id) (fo_entries offer) of
        None \<Rightarrow> Inl (TfUnknownFile (fo_transfer_id offer) file_id)
      | Some entry \<Rightarrow>
        if me_kind entry \<noteq> File \<or> offset > me_size entry
        then Inl (TfUnexpectedOffset file_id (me_size entry) offset)
        else (case hm_get (fo_sources offer) file_id of
        None \<Rightarrow> Inl (TfUnknownFile (fo_transfer_id offer) file_id)
      | Some (path, identity) \<Rightarrow>
     (case oe_open env of
        Some e \<Rightarrow> Inl (TfIo e)
      | None \<Rightarrow>
     (case oe_meta env of
        Inl e \<Rightarrow> Inl (TfIo e)
      | Inr (is_file, m) \<Rightarrow>
        if \<not> is_file \<or> \<not> identity_matches identity m then Inl (TfSourceChanged file_id)
        else (case oe_seek env of
        Some e \<Rightarrow> Inl (TfIo e)
      | None \<Rightarrow> Inr \<lparr>og_file_id = file_id, og_offset = offset, og_size = me_size entry,
                     og_identity = identity, og_hasher = [], og_cancelled = False\<rparr>)))))"

text \<open>One round of the read loop: the metadata before, what \<open>read\<close> returns, the metadata after.\<close>

record read_step =
  rd_before :: "io_error + metadata"
  rd_result :: "io_error + bytes"
  rd_after :: "io_error + metadata"

record read_env =
  re_meta :: "io_error + metadata"
  re_reads :: "nat \<Rightarrow> read_step"

definition check_identity :: "u64 \<Rightarrow> source_identity \<Rightarrow> io_error + metadata \<Rightarrow> transfer_fault + unit" where
  "check_identity file_id identity answer = (case answer of
     Inl e \<Rightarrow> Inl (TfIo e)
   | Inr m \<Rightarrow> if identity_matches identity m then Inr () else Inl (TfSourceChanged file_id))"

function read_loop ::
  "u64 \<Rightarrow> source_identity \<Rightarrow> (nat \<Rightarrow> read_step) \<Rightarrow> nat \<Rightarrow> nat \<Rightarrow> bytes \<Rightarrow> transfer_fault + bytes" where
  "read_loop file_id identity reads k requested acc =
     (if length acc \<ge> requested then Inr acc
      else rbind (check_identity file_id identity (rd_before (reads k))) (\<lambda>_.
        case rd_result (reads k) of
          Inl e \<Rightarrow> Inl (TfIo e)
        | Inr got \<Rightarrow>
            let got' = take (requested - length acc) got in
            if got' = [] then Inl (TfSourceChanged file_id)
            else rbind (check_identity file_id identity (rd_after (reads k))) (\<lambda>_.
              read_loop file_id identity reads (Suc k) requested (acc @ got'))))"
  by pat_completeness auto
termination
  by (relation "measure (\<lambda>(_, _, _, _, requested, acc). requested - length acc)")
    (auto simp: min_def simp flip: length_greater_0_conv)

declare read_loop.simps [simp del]

definition MAX_READ :: nat where
  "MAX_READ = max MAX_CLIPBOARD_FILE_CHUNK_SIZE MAX_MANUAL_FILE_CHUNK_SIZE"

definition chunk_request :: "outgoing \<Rightarrow> nat \<Rightarrow> nat" where
  "chunk_request og max_len = unat (min (og_size og - og_offset og) (word_of_nat max_len))"

definition next_chunk_bounded ::
  "outgoing \<Rightarrow> nat \<Rightarrow> read_env \<Rightarrow> outgoing \<times> (transfer_fault + (u64 \<times> bytes) option)" where
  "next_chunk_bounded og max_len env =
     (if og_cancelled og then (og, Inl TfCancelled)
      else if og_offset og = og_size og then (og, Inr None)
      else if max_len = 0 \<or> max_len > MAX_READ
      then (og, Inl (TfUnexpectedOffset (og_file_id og) (og_offset og) (og_offset og)))
      else case check_identity (og_file_id og) (og_identity og) (re_meta env) of
        Inl e \<Rightarrow> (og, Inl e)
      | Inr _ \<Rightarrow>
     (case read_loop (og_file_id og) (og_identity og) (re_reads env) 0 (chunk_request og max_len) [] of
        Inl e \<Rightarrow> (og, Inl e)
      | Inr data \<Rightarrow>
     (case checked_add (og_offset og) (word_of_nat (length data)) of
        None \<Rightarrow> (og, Inl TfTooLarge)
      | Some offset' \<Rightarrow>
          (og\<lparr>og_offset := offset', og_hasher := og_hasher og @ data\<rparr>,
           Inr (Some (og_offset og, data))))))"

definition finalize_digest ::
  "(bytes \<Rightarrow> bytes) \<Rightarrow> outgoing \<Rightarrow> io_error + metadata \<Rightarrow> transfer_fault + bytes" where
  "finalize_digest sha256 og answer =
     (if og_offset og \<noteq> og_size og
      then Inl (TfSizeMismatch (og_file_id og) (og_size og) (og_offset og))
      else rbind (check_identity (og_file_id og) (og_identity og) answer)
        (\<lambda>_. Inr (sha256 (og_hasher og))))"

section \<open>The disk\<close>

type_synonym disk_path = "rstring list"

datatype disk_entry = DiskFile nat | DiskDir | DiskLink | DiskOther

type_synonym disk = "(disk_path, disk_entry) hash_map"

definition path_display :: "disk_path \<Rightarrow> rstring" where
  "path_display p = (if p = [] then lit ''/'' else concat (map (\<lambda>c. 0x2F # c) p))"

text \<open>
  The answers of the calls that can fail for reasons the disk does not show: \<open>fe_stat\<close>, \<open>fe_mkdir\<close>
  and \<open>fe_create\<close> are errors of these calls on a path, \<open>fe_clone\<close> an error of duplicating the handle of the created file,
  \<open>fe_identity\<close> one of reading its identity and \<open>fe_identity_again\<close> one of reading it through the duplicate, \<open>fe_kept\<close> that the path
  cannot be removed, or that the check that comes before its removal fails, \<open>fe_inode\<close> the inode of a created file.
\<close>

record fs_env =
  fe_stat :: "disk_path \<Rightarrow> io_error option"
  fe_mkdir :: "disk_path \<Rightarrow> io_error option"
  fe_create :: "disk_path \<Rightarrow> io_error option"
  fe_clone :: "disk_path \<Rightarrow> io_error option"
  fe_identity :: "disk_path \<Rightarrow> io_error option"
  fe_identity_again :: "disk_path \<Rightarrow> io_error option"
  fe_kept :: "disk_path \<Rightarrow> bool"
  fe_inode :: "disk_path \<Rightarrow> nat"

definition already_exists :: io_error where
  "already_exists = \<lparr>io_kind = IoAlreadyExists, io_message = lit ''File exists (os error 17)''\<rparr>"

definition disk_create_new :: "fs_env \<Rightarrow> disk \<Rightarrow> disk_path \<Rightarrow> io_error + disk" where
  "disk_create_new env d p = (if hm_get d p \<noteq> None then Inl already_exists
     else case fe_create env p of Some e \<Rightarrow> Inl e
       | None \<Rightarrow> Inr (hm_insert p (DiskFile (fe_inode env p)) d))"

definition disk_mkdir :: "fs_env \<Rightarrow> disk \<Rightarrow> disk_path \<Rightarrow> io_error + disk" where
  "disk_mkdir env d p = (if hm_get d p \<noteq> None then Inl already_exists
     else case fe_mkdir env p of Some e \<Rightarrow> Inl e | None \<Rightarrow> Inr (hm_insert p DiskDir d))"

text \<open>\<open>remove_file\<close> guarded by \<open>owns_created_file\<close>, and \<open>remove_dir\<close>, which needs an empty directory; the errors of
  both are ignored.\<close>

definition disk_remove_owned :: "fs_env \<Rightarrow> disk \<Rightarrow> disk_path \<times> nat \<Rightarrow> disk" where
  "disk_remove_owned env d = (\<lambda>(p, inode).
     if hm_get d p = Some (DiskFile inode) \<and> \<not> fe_kept env p then hm_remove p d else d)"

definition disk_remove_dir :: "fs_env \<Rightarrow> disk \<Rightarrow> disk_path \<Rightarrow> disk" where
  "disk_remove_dir env d p =
     (if hm_get d p = Some DiskDir \<and> list_all (\<lambda>(q, _). q = [] \<or> butlast q \<noteq> p) d \<and> \<not> fe_kept env p
      then hm_remove p d else d)"

section \<open>Incoming transfers\<close>

record incoming_file =
  if_expected :: u64
  if_offset :: u64
  if_hasher :: bytes

record incoming =
  in_transfer_id :: u64
  in_destination :: disk_path
  in_entries :: "(u64, clipboard_manifest_entry) hash_map"
  in_files :: "(u64, incoming_file) hash_map"
  in_created_files :: "(disk_path, nat) hash_map"
  in_created_dirs :: "disk_path list"
  in_cancelled :: bool
  in_finished :: bool

fun check_incoming_entries ::
  "u64 option \<Rightarrow> rstring list \<Rightarrow> u64 \<Rightarrow> u64 \<Rightarrow> (u64, clipboard_manifest_entry) hash_map \<Rightarrow>
     clipboard_manifest_entry list \<Rightarrow> transfer_fault + (u64, clipboard_manifest_entry) hash_map" where
  "check_incoming_entries limit paths previous tot by_id [] = Inr by_id"
| "check_incoming_entries limit paths previous tot by_id (e # es) =
     (if me_file_id e = 0 \<or> me_file_id e \<le> previous \<or> me_path e \<in> set paths
      then Inl (TfUnsafePath (me_path e))
      else rbind (validate_relative_path (me_path e)) (\<lambda>_.
        if me_kind e = Directory \<and> me_size e \<noteq> 0
        then Inl (TfSizeMismatch (me_file_id e) 0 (me_size e))
        else case checked_add tot (me_size e) of
          None \<Rightarrow> Inl TfTooLarge
        | Some tot' \<Rightarrow>
            if (case limit of None \<Rightarrow> False | Some mx \<Rightarrow> tot' > mx) then Inl TfTooLarge
            else check_incoming_entries limit (me_path e # paths) (me_file_id e) tot'
                   (hm_insert (me_file_id e) e by_id) es))"

definition incoming_new ::
  "u64 \<Rightarrow> clipboard_manifest_entry list \<Rightarrow> io_error + disk_path \<Rightarrow> u64 option \<Rightarrow> transfer_fault + incoming" where
  "incoming_new transfer_id entries canonical limit =
     (if entries = [] \<or> length entries > MAX_CLIPBOARD_MANIFEST_ENTRIES then Inl TfTooManyEntries
      else case canonical of
        Inl e \<Rightarrow> Inl (TfIo e)
      | Inr destination \<Rightarrow> rbind (check_incoming_entries limit [] 0 0 [] entries) (\<lambda>by_id.
          Inr \<lparr>in_transfer_id = transfer_id, in_destination = destination, in_entries = by_id,
               in_files = [], in_created_files = [], in_created_dirs = [],
               in_cancelled = False, in_finished = False\<rparr>))"

definition normal_names :: "rstring \<Rightarrow> rstring list" where
  "normal_names p = List.map_filter
     (\<lambda>c. case c of NormalComp n \<Rightarrow> Some n | _ \<Rightarrow> None) (path_components p)"

text \<open>\<open>create_parents\<close>: the loop over the components below the destination.\<close>

fun create_parents ::
  "fs_env \<Rightarrow> disk \<Rightarrow> incoming \<Rightarrow> disk_path \<Rightarrow> rstring list \<Rightarrow> disk \<times> incoming \<times> (transfer_fault + unit)" where
  "create_parents env d inc current [] = (d, inc, Inr ())"
| "create_parents env d inc current (c # cs) =
     (let cur = current @ [c] in
      case fe_stat env cur of
        Some e \<Rightarrow> (d, inc, Inl (TfIo e))
      | None \<Rightarrow> (case hm_get d cur of
          Some DiskDir \<Rightarrow> create_parents env d inc cur cs
        | Some _ \<Rightarrow> (d, inc, Inl (TfUnsafePath (path_display cur)))
        | None \<Rightarrow> (case disk_mkdir env d cur of
            Inl e \<Rightarrow> (d, inc, Inl (TfIo e))
          | Inr d' \<Rightarrow> create_parents env d'
              (inc\<lparr>in_created_dirs := in_created_dirs inc @ [cur]\<rparr>) cur cs)))"

text \<open>What goes wrong after a file was created, and whether its identity is known then: only if it is, the file is removed
  again.\<close>

definition setup_failure :: "fs_env \<Rightarrow> disk_path \<Rightarrow> (io_error \<times> bool) option" where
  "setup_failure env p = (case fe_clone env p of
     Some e \<Rightarrow> Some (e, fe_identity env p = None)
   | None \<Rightarrow> (case fe_identity env p of
       Some e \<Rightarrow> Some (e, fe_identity_again env p = None)
     | None \<Rightarrow> None))"

definition prepare_file ::
  "fs_env \<Rightarrow> disk \<Rightarrow> incoming \<Rightarrow> clipboard_manifest_entry \<Rightarrow> disk_path \<Rightarrow>
     disk \<times> incoming \<times> (transfer_fault + unit)" where
  "prepare_file env d inc e target =
     (case create_parents env d inc (in_destination inc)
             (butlast (drop (length (in_destination inc)) target)) of
        (d1, inc1, Inl f) \<Rightarrow> (d1, inc1, Inl f)
      | (d1, inc1, Inr _) \<Rightarrow>
     (case disk_create_new env d1 target of
        Inl f \<Rightarrow> (d1, inc1, Inl (TfIo f))
      | Inr d2 \<Rightarrow>
     (case setup_failure env target of
        Some (f, known) \<Rightarrow>
          (if known then disk_remove_owned env d2 (target, fe_inode env target) else d2, inc1, Inl (TfIo f))
      | None \<Rightarrow>
          (d2, inc1\<lparr>in_created_files := hm_insert target (fe_inode env target) (in_created_files inc1),
                    in_files := hm_insert (me_file_id e)
                      \<lparr>if_expected = me_size e, if_offset = 0, if_hasher = []\<rparr> (in_files inc1)\<rparr>,
           Inr ()))))"

fun prepare_entries ::
  "fs_env \<Rightarrow> disk \<Rightarrow> incoming \<Rightarrow> clipboard_manifest_entry list \<Rightarrow>
     disk \<times> incoming \<times> (transfer_fault + (u64 \<times> u64) list)" where
  "prepare_entries env d inc [] = (d, inc, Inr [])"
| "prepare_entries env d inc (e # es) =
     (let target = in_destination inc @ normal_names (me_path e) in
      if target = in_destination inc then (d, inc, Inl (TfUnsafePath (path_display target)))
      else
        let (d1, inc1, r) =
              (case me_kind e of
                 Directory \<Rightarrow> create_parents env d inc (in_destination inc) (normal_names (me_path e))
               | File \<Rightarrow> prepare_file env d inc e target)
        in case r of
             Inl f \<Rightarrow> (d1, inc1, Inl f)
           | Inr _ \<Rightarrow>
               let (d2, inc2, r2) = prepare_entries env d1 inc1 es in
               (d2, inc2, rbind r2 (\<lambda>rs. Inr ((if me_kind e = File then [(me_file_id e, 0)] else []) @ rs))))"

definition incoming_prepare ::
  "fs_env \<Rightarrow> disk \<Rightarrow> incoming \<Rightarrow> disk \<times> incoming \<times> (transfer_fault + (u64 \<times> u64) list)" where
  "incoming_prepare env d inc =
     (if in_cancelled inc then (d, inc, Inl TfCancelled)
      else prepare_entries env d inc (sort_key me_file_id (map snd (in_entries inc))))"

definition incoming_write_chunk ::
  "incoming \<Rightarrow> u64 \<Rightarrow> u64 \<Rightarrow> bytes \<Rightarrow> io_error option \<Rightarrow> incoming \<times> (transfer_fault + unit)" where
  "incoming_write_chunk inc file_id offset data write_error =
     (if in_cancelled inc then (inc, Inl TfCancelled)
      else if data = [] \<or> length data > MAX_READ
      then (inc, Inl (TfUnexpectedOffset file_id offset offset))
      else case hm_get (in_files inc) file_id of
        None \<Rightarrow> (inc, Inl (TfUnknownFile (in_transfer_id inc) file_id))
      | Some f \<Rightarrow>
        if offset \<noteq> if_offset f then (inc, Inl (TfUnexpectedOffset file_id (if_offset f) offset))
        else case checked_add offset (word_of_nat (length data)) of
          None \<Rightarrow> (inc, Inl TfTooLarge)
        | Some nxt \<Rightarrow>
            if nxt > if_expected f then (inc, Inl (TfSizeMismatch file_id (if_expected f) nxt))
            else case write_error of
              Some e \<Rightarrow> (inc, Inl (TfIo e))
            | None \<Rightarrow> (inc\<lparr>in_files := hm_insert file_id
                  (f\<lparr>if_offset := nxt, if_hasher := if_hasher f @ data\<rparr>) (in_files inc)\<rparr>, Inr ()))"

definition incoming_finish :: "incoming \<Rightarrow> incoming \<times> (transfer_fault + unit)" where
  "incoming_finish inc =
     (if in_cancelled inc then (inc, Inl TfCancelled)
      else if in_files inc \<noteq> [] then (inc, Inl TfCancelled)
      else (inc\<lparr>in_finished := True\<rparr>, Inr ()))"

definition incoming_finalize_file ::
  "(bytes \<Rightarrow> bytes) \<Rightarrow> incoming \<Rightarrow> u64 \<Rightarrow> u64 \<Rightarrow> bytes \<Rightarrow> io_error option \<Rightarrow>
     incoming \<times> (transfer_fault + unit)" where
  "incoming_finalize_file sha256 inc file_id sz digest flush_error =
     (if in_cancelled inc then (inc, Inl TfCancelled)
      else case hm_get (in_files inc) file_id of
        None \<Rightarrow> (inc, Inl (TfUnknownFile (in_transfer_id inc) file_id))
      | Some f \<Rightarrow>
        if sz \<noteq> if_expected f \<or> if_offset f \<noteq> if_expected f
        then (inc, Inl (TfSizeMismatch file_id sz (if_offset f)))
        else case flush_error of
          Some e \<Rightarrow> (inc, Inl (TfIo e))
        | None \<Rightarrow>
            if sha256 (if_hasher f) \<noteq> digest then (inc, Inl (TfDigestMismatch file_id))
            else (inc\<lparr>in_files := hm_remove file_id (in_files inc)\<rparr>, Inr ()))"

text \<open>\<open>Drop\<close>: an unfinished transfer removes the files it still owns and then its directories, deepest
  first.\<close>

definition incoming_drop :: "fs_env \<Rightarrow> disk \<Rightarrow> incoming \<Rightarrow> disk" where
  "incoming_drop env d inc =
     (if in_finished inc then d
      else foldl (disk_remove_dir env) (foldl (disk_remove_owned env) d (in_created_files inc))
             (sort_key (\<lambda>p. - int (length p)) (in_created_dirs inc)))"

section \<open>Reading\<close>

lemma read_loop_length:
  "read_loop f i reads k n acc = Inr data \<Longrightarrow> length acc \<le> n \<Longrightarrow> length data = n \<and> take (length acc) data = acc"
proof (induction f i reads k n acc rule: read_loop.induct)
  case (1 f i reads k n acc)
  show ?case
  proof (cases "n \<le> length acc")
    case True
    with 1 show ?thesis by (simp add: read_loop.simps)
  next
    case False
    with "1.prems"(1) obtain got where got: "rd_result (reads k) = Inr got" "take (n - length acc) got \<noteq> []"
      "check_identity f i (rd_before (reads k)) = Inr ()" "check_identity f i (rd_after (reads k)) = Inr ()"
      and r: "read_loop f i reads (Suc k) n (acc @ take (n - length acc) got) = Inr data"
      by (subst (asm) read_loop.simps) (auto simp: rbind_eq_Inr_iff Let_def split: if_splits sum.splits)
    from "1.IH" [OF False got(1) refl got(2) r] False
    have "length data = n \<and> take (length (acc @ take (n - length acc) got)) data = acc @ take (n - length acc) got"
      by auto
    then show ?thesis by (metis append_eq_conv_conj append_take_drop_id append.assoc)
  qed
qed

lemma next_chunk_boundedE:
  assumes r: "next_chunk_bounded og n env = (og', Inr (Some (x, data)))"
  shows "og_offset og \<noteq> og_size og \<and> 0 < n \<and> n \<le> MAX_READ
    \<and> read_loop (og_file_id og) (og_identity og) (re_reads env) 0 (chunk_request og n) [] = Inr data
    \<and> (\<exists>off. checked_add (og_offset og) (word_of_nat (length data)) = Some off
        \<and> x = og_offset og \<and> og' = og\<lparr>og_offset := off, og_hasher := og_hasher og @ data\<rparr>)"
proof -
  have c: "\<not> og_cancelled og"
    using r by (cases "og_cancelled og") (simp add: next_chunk_bounded_def, simp)
  have ne: "og_offset og \<noteq> og_size og"
    using r c by (cases "og_offset og = og_size og") (simp add: next_chunk_bounded_def, simp)
  have n: "\<not> (n = 0 \<or> n > MAX_READ)"
    using r c ne by (cases "n = 0 \<or> n > MAX_READ") (simp add: next_chunk_bounded_def, simp)
  have m: "check_identity (og_file_id og) (og_identity og) (re_meta env) = Inr ()"
    using r c ne n by (cases "check_identity (og_file_id og) (og_identity og) (re_meta env)")
      (simp add: next_chunk_bounded_def, simp)
  obtain d where d: "read_loop (og_file_id og) (og_identity og) (re_reads env) 0 (chunk_request og n) [] = Inr d"
    using r c ne n m
    by (cases "read_loop (og_file_id og) (og_identity og) (re_reads env) 0 (chunk_request og n) []")
      (simp add: next_chunk_bounded_def, simp)
  obtain off where off: "checked_add (og_offset og) (word_of_nat (length d)) = Some off"
    using r c ne n m d by (cases "checked_add (og_offset og) (word_of_nat (length d))")
      (simp_all add: next_chunk_bounded_def)
  have "next_chunk_bounded og n env =
      (og\<lparr>og_offset := off, og_hasher := og_hasher og @ d\<rparr>, Inr (Some (og_offset og, d)))"
    using c ne n m d off by (simp add: next_chunk_bounded_def)
  then have "og' = og\<lparr>og_offset := off, og_hasher := og_hasher og @ d\<rparr>" "x = og_offset og" "data = d"
    unfolding r by blast+
  with ne n d off show ?thesis by auto
qed

text \<open>A successful read returns the bytes at the current offset: as many as asked for, or all that are
  left.\<close>

lemma next_chunk_bounded_Inr:
  assumes r: "next_chunk_bounded og n env = (og', Inr (Some (x, data)))" and le: "og_offset og \<le> og_size og"
  shows "x = og_offset og" and "length data = min (unat (og_size og) - unat (og_offset og)) n" and "data \<noteq> []"
    and "og' = og\<lparr>og_offset := og_offset og + word_of_nat (length data), og_hasher := og_hasher og @ data\<rparr>"
    and "unat (og_offset og') = unat (og_offset og) + length data" and "og_offset og' \<le> og_size og"
    and "read_loop (og_file_id og) (og_identity og) (re_reads env) 0 (length data) [] = Inr data"
proof -
  let ?req = "chunk_request og n"
  obtain off where ne: "og_offset og \<noteq> og_size og" and n: "0 < n" "n \<le> MAX_READ"
    and l: "read_loop (og_file_id og) (og_identity og) (re_reads env) 0 ?req [] = Inr data"
    and add: "checked_add (og_offset og) (word_of_nat (length data)) = Some off"
    and x: "x = og_offset og" and og': "og' = og\<lparr>og_offset := off, og_hasher := og_hasher og @ data\<rparr>"
    using next_chunk_boundedE [OF r] by blast
  have "unat (word_of_nat n :: u64) = n" using n(2) by (simp add: MAX_READ_def const_defs unat_of_nat)
  moreover have "unat (og_size og - og_offset og) = unat (og_size og) - unat (og_offset og)"
    using le by (rule unat_sub)
  ultimately have req: "?req = min (unat (og_size og) - unat (og_offset og)) n"
    by (simp add: chunk_request_def min_def word_le_nat_alt)
  have len: "length data = ?req" using read_loop_length [OF l] by simp
  show "x = og_offset og" by (rule x)
  show len': "length data = min (unat (og_size og) - unat (og_offset og)) n" using len req by simp
  have lt: "unat (og_offset og) < unat (og_size og)" using ne le by (simp add: word_le_nat_alt word_unat_eq_iff)
  then show "data \<noteq> []" using len' n(1) by auto
  have small: "length data < 2 ^ 64" using len' n(2) by (simp add: MAX_READ_def const_defs)
  have off: "off = og_offset og + word_of_nat (length data)" "unat off = unat (og_offset og) + length data"
    using add small by (simp add: checked_add_def split: if_splits)
      (use add small in \<open>simp add: checked_add_Some_iff unat_of_nat\<close>)
  then show "og' = og\<lparr>og_offset := og_offset og + word_of_nat (length data), og_hasher := og_hasher og @ data\<rparr>"
    and "unat (og_offset og') = unat (og_offset og) + length data" by (simp_all add: og')
  then show "og_offset og' \<le> og_size og" using len' lt by (simp add: word_le_nat_alt)
  show "read_loop (og_file_id og) (og_identity og) (re_reads env) 0 (length data) [] = Inr data"
    using l len by simp
qed

section \<open>Writing\<close>

text \<open>A list of chunks for one file, each with the offset it claims and the answer of the write.\<close>

fun write_all_chunks ::
  "incoming \<Rightarrow> u64 \<Rightarrow> (u64 \<times> bytes \<times> io_error option) list \<Rightarrow> incoming \<times> bytes list" where
  "write_all_chunks inc f [] = (inc, [])"
| "write_all_chunks inc f ((x, data, err) # ws) =
     (let (inc', r) = incoming_write_chunk inc f x data err;
          (inc'', rest) = write_all_chunks inc' f ws
      in (inc'', (case r of Inl _ \<Rightarrow> rest | Inr _ \<Rightarrow> data # rest)))"

definition file_holds :: "incoming \<Rightarrow> u64 \<Rightarrow> u64 \<Rightarrow> bytes \<Rightarrow> bool" where
  "file_holds inc f expected content \<longleftrightarrow> hm_get (in_files inc) f = Some
     \<lparr>if_expected = expected, if_offset = word_of_nat (length content), if_hasher = content\<rparr>
     \<and> length content \<le> unat expected"

lemma incoming_write_chunk_holds:
  assumes h: "file_holds inc f n content" and w: "incoming_write_chunk inc f x data err = (inc', r)"
  shows "case r of Inl _ \<Rightarrow> inc' = inc
    | Inr _ \<Rightarrow> x = word_of_nat (length content) \<and> file_holds inc' f n (content @ data)"
proof (cases r)
  case (Inl e)
  with w show ?thesis
    by (auto simp: incoming_write_chunk_def split: if_splits option.splits)
next
  case (Inr u)
  have small: "length content < 2 ^ 64" using h unsigned_less [of n, where 'a = nat]
    by (simp add: file_holds_def)
  from w Inr h obtain nxt where data: "length data \<le> MAX_READ" and x: "x = word_of_nat (length content)"
    and nxt: "checked_add x (word_of_nat (length data)) = Some nxt" "nxt \<le> n"
    and inc': "inc' = inc\<lparr>in_files := hm_insert f \<lparr>if_expected = n, if_offset = nxt,
        if_hasher = content @ data\<rparr> (in_files inc)\<rparr>"
    by (auto simp: incoming_write_chunk_def file_holds_def not_less split: if_splits option.splits)
  have "unat nxt = length content + length data"
    using nxt(1) x small data by (simp add: checked_add_Some_iff unat_of_nat MAX_READ_def const_defs)
  then have "nxt = word_of_nat (length (content @ data))" "length (content @ data) \<le> unat n"
    using nxt(2) by (auto simp: word_le_nat_alt word_unat_eq_iff unat_of_nat simp flip: of_nat_add
        dest: order_le_less_trans [OF _ unsigned_less])
  then show ?thesis using Inr x inc' by (simp add: file_holds_def hash_map)
qed

lemma write_all_chunks_holds:
  "file_holds inc f n content \<Longrightarrow> write_all_chunks inc f ws = (inc', acc) \<Longrightarrow>
     file_holds inc' f n (content @ concat acc)"
proof (induction ws arbitrary: inc content acc)
  case (Cons w ws)
  obtain x data err where w: "w = (x, data, err)" by (cases w) auto
  obtain inc1 r where s: "incoming_write_chunk inc f x data err = (inc1, r)" by (rule prod.exhaust)
  obtain inc2 rest where t: "write_all_chunks inc1 f ws = (inc2, rest)" by (rule prod.exhaust)
  note h = incoming_write_chunk_holds [OF Cons.prems(1) s]
  show ?case
  proof (cases r)
    case (Inl e)
    with h t have t': "write_all_chunks inc f ws = (inc2, rest)" by simp
    from Inl Cons.prems w s t h have "inc' = inc2" "acc = rest" by simp_all
    with Cons.IH [OF Cons.prems(1)] t' show ?thesis by simp
  next
    case (Inr u)
    with h have "file_holds inc1 f n (content @ data)" by simp
    moreover from Inr Cons.prems w s t have "inc' = inc2" "acc = data # rest" by simp_all
    ultimately show ?thesis using Cons.IH [of inc1 "content @ data" rest] t by simp
  qed
qed simp

section \<open>What a transfer creates\<close>

text \<open>The disk \<open>d\<close> is the disk \<open>d0\<close> with what the transfer has created, all of it below its
  destination.\<close>

definition created :: "disk \<Rightarrow> disk \<Rightarrow> incoming \<Rightarrow> bool" where
  "created d0 d inc \<longleftrightarrow> hm_ok d \<and> hm_ok (in_created_files inc) \<and> distinct (in_created_dirs inc)
     \<and> set (in_created_dirs inc) \<inter> fst ` set (in_created_files inc) = {}
     \<and> (\<forall>p. hm_get d p = (if p \<in> set (in_created_dirs inc) then Some DiskDir
          else case hm_get (in_created_files inc) p of Some i \<Rightarrow> Some (DiskFile i) | None \<Rightarrow> hm_get d0 p))
     \<and> (\<forall>p \<in> set (in_created_dirs inc) \<union> fst ` set (in_created_files inc).
          hm_get d0 p = None \<and> strict_prefix (in_destination inc) p)"

lemma created_get:
  "created d0 d inc \<Longrightarrow> hm_get d p = (if p \<in> set (in_created_dirs inc) then Some DiskDir
     else case hm_get (in_created_files inc) p of Some i \<Rightarrow> Some (DiskFile i) | None \<Rightarrow> hm_get d0 p)"
  by (simp add: created_def)

lemma created_absent:
  "created d0 d inc \<Longrightarrow> hm_get d p = None \<Longrightarrow>
     p \<notin> set (in_created_dirs inc) \<and> hm_get (in_created_files inc) p = None \<and> hm_get d0 p = None"
  using created_get [of d0 d inc p] by (auto split: if_splits option.splits)

lemma created_fresh:
  "created d0 d inc \<Longrightarrow> p \<in> set (in_created_dirs inc) \<union> fst ` set (in_created_files inc) \<Longrightarrow>
     hm_get d0 p = None \<and> strict_prefix (in_destination inc) p"
  by (simp only: created_def)

lemma created_dir:
  assumes c: "created d0 d inc" and n: "hm_get d p = None" and p: "strict_prefix (in_destination inc) p"
  shows "created d0 (hm_insert p DiskDir d) (inc\<lparr>in_created_dirs := in_created_dirs inc @ [p]\<rparr>)"
proof -
  have "p \<notin> set (in_created_dirs inc)" "hm_get (in_created_files inc) p = None" "hm_get d0 p = None"
    using created_absent [OF c n] by auto
  then show ?thesis using c p by (auto simp: created_def hash_map hm_get_None split: option.split)
qed

lemma created_file:
  assumes c: "created d0 d inc" and n: "hm_get d p = None" and p: "strict_prefix (in_destination inc) p"
  shows "created d0 (hm_insert p (DiskFile i) d)
    (inc\<lparr>in_created_files := hm_insert p i (in_created_files inc), in_files := fs\<rparr>)"
proof -
  have "p \<notin> set (in_created_dirs inc)" "hm_get (in_created_files inc) p = None" "hm_get d0 p = None"
    using created_absent [OF c n] by auto
  then show ?thesis using c p by (auto simp: created_def hash_map fst_hm_insert split: option.split)
qed

lemma create_parents_created:
  "create_parents env d inc cur cs = (d', inc', r) \<Longrightarrow> created d0 d inc \<Longrightarrow>
     prefix (in_destination inc) cur \<Longrightarrow>
     created d0 d' inc' \<and> in_destination inc' = in_destination inc \<and> in_finished inc' = in_finished inc"
proof (induction env d inc cur cs rule: create_parents.induct)
  case (2 env d inc cur c cs)
  let ?p = "cur @ [c]"
  have pre: "strict_prefix (in_destination inc) ?p" "prefix (in_destination inc) ?p"
    using "2.prems"(3) by (auto simp: strict_prefix_def)
  show ?case
  proof (cases "fe_stat env ?p")
    case (Some e)
    with "2.prems" show ?thesis by simp
  next
    case stat: None
    show ?thesis
    proof (cases "hm_get d ?p")
      case None
      show ?thesis
      proof (cases "disk_mkdir env d ?p")
        case (Inl e)
        with "2.prems" stat None show ?thesis by simp
      next
        case (Inr d1)
        then have d1: "d1 = hm_insert ?p DiskDir d"
          by (auto simp: disk_mkdir_def split: if_splits option.splits)
        let ?inc = "inc\<lparr>in_created_dirs := in_created_dirs inc @ [?p]\<rparr>"
        have r: "create_parents env d1 ?inc ?p cs = (d', inc', r)" using "2.prems"(1) stat None Inr by (simp add: Let_def)
        from "2.IH"(1) [OF refl stat None Inr r] created_dir [OF "2.prems"(2) None pre(1)] pre(2) d1
        show ?thesis by simp
      qed
    next
      case (Some x)
      show ?thesis
      proof (cases "x = DiskDir")
        case True
        with "2.prems" stat Some "2.IH"(2) [OF refl stat, of x] pre(2) show ?thesis by simp
      next
        case False
        with "2.prems" stat Some show ?thesis by (cases x) simp_all
      qed
    qed
  qed
qed simp

lemma disk_remove_created: "hm_get d p = None \<Longrightarrow> hm_ok d \<Longrightarrow> \<not> fe_kept env p \<Longrightarrow>
    disk_remove_owned env (hm_insert p (DiskFile i) d) (p, i) = d"
  by (simp add: disk_remove_owned_def hash_map hm_remove_insert hm_remove_absent)

text \<open>A file that was created and then neither registered nor removed.\<close>

definition left_behind :: "fs_env \<Rightarrow> disk_path \<Rightarrow> bool" where
  "left_behind env p \<longleftrightarrow> (case setup_failure env p of None \<Rightarrow> False | Some (_, known) \<Rightarrow> known \<longrightarrow> fe_kept env p)"

definition with_file :: "disk_path \<Rightarrow> nat \<Rightarrow> incoming \<Rightarrow> incoming" where
  "with_file p i inc = inc\<lparr>in_created_files := hm_insert p i (in_created_files inc)\<rparr>"

lemma with_file_fields [simp]:
  "in_created_files (with_file p i inc) = hm_insert p i (in_created_files inc)"
  "in_created_dirs (with_file p i inc) = in_created_dirs inc" "in_destination (with_file p i inc) = in_destination inc"
  by (simp_all add: with_file_def)

definition accounted :: "fs_env \<Rightarrow> disk \<Rightarrow> disk \<Rightarrow> incoming \<Rightarrow> bool" where
  "accounted env d0 d inc \<longleftrightarrow> created d0 d inc
     \<or> (\<exists>p i. left_behind env p \<and> hm_get (in_created_files inc) p = None \<and> created d0 d (with_file p i inc))"

lemma prepare_file_created:
  assumes r: "prepare_file env d inc e target = (d', inc', r)" and c: "created d0 d inc"
    and t: "strict_prefix (in_destination inc) target"
  shows "accounted env d0 d' inc' \<and> (is_ok r \<longrightarrow> created d0 d' inc')
    \<and> in_destination inc' = in_destination inc \<and> in_finished inc' = in_finished inc"
proof -
  obtain d1 inc1 r1 where p: "create_parents env d inc (in_destination inc)
      (butlast (drop (length (in_destination inc)) target)) = (d1, inc1, r1)" by (metis prod.exhaust)
  have c1: "created d0 d1 inc1" "in_destination inc1 = in_destination inc" "in_finished inc1 = in_finished inc"
    using create_parents_created [OF p c] by auto
  show ?thesis
  proof (cases "r1 = Inr () \<and> is_ok (disk_create_new env d1 target)")
    case False
    with r p have "d' = d1 \<and> inc' = inc1" by (cases r1; cases "disk_create_new env d1 target") (auto simp: prepare_file_def)
    with c1 show ?thesis by (simp add: accounted_def)
  next
    case True
    then obtain d2 where new: "disk_create_new env d1 target = Inr d2" by (cases "disk_create_new env d1 target") auto
    let ?i = "fe_inode env target"
    have n: "hm_get d1 target = None" and d2: "d2 = hm_insert target (DiskFile ?i) d1"
      using new by (auto simp: disk_create_new_def split: if_splits option.splits)
    have ok: "hm_ok d1" using c1(1) by (simp add: created_def)
    have st: "strict_prefix (in_destination inc1) target" using t c1(2) by simp
    note new_file = created_file [OF c1(1) n st, of ?i]
    show ?thesis
    proof (cases "setup_failure env target")
      case None
      with r p True new c1 new_file d2 show ?thesis by (auto simp: prepare_file_def accounted_def)
    next
      case (Some fk)
      obtain f known where fk: "fk = (f, known)" by (cases fk)
      have d': "d' = (if known then disk_remove_owned env d2 (target, ?i) else d2)" "inc' = inc1" "r = Inl (TfIo f)"
        using r p True new Some fk by (auto simp: prepare_file_def)
      show ?thesis
      proof (cases "known \<and> \<not> fe_kept env target")
        case True
        with d' d2 disk_remove_created [OF n ok] have "d' = d1" by simp
        with d' c1 show ?thesis by (simp add: accounted_def)
      next
        case False
        then have "left_behind env target" using Some fk by (simp add: left_behind_def)
        moreover have "d' = d2" using d' False by (auto simp: disk_remove_owned_def)
        moreover have "hm_get (in_created_files inc1) target = None" using created_absent [OF c1(1) n] by simp
        moreover have "created d0 d2 (with_file target ?i inc1)"
          using new_file [of "in_files inc1"] d2 by (simp add: with_file_def)
        ultimately show ?thesis using d' c1 by (auto simp: accounted_def)
      qed
    qed
  qed
qed

lemma prepare_entries_created:
  "prepare_entries env d inc es = (d', inc', r) \<Longrightarrow> created d0 d inc \<Longrightarrow>
     accounted env d0 d' inc' \<and> in_destination inc' = in_destination inc \<and> in_finished inc' = in_finished inc"
proof (induction es arbitrary: d inc r d' inc')
  case Nil
  then show ?case by (simp add: accounted_def)
next
  case (Cons e es)
  let ?n = "normal_names (me_path e)"
  let ?t = "in_destination inc @ ?n"
  obtain d1 inc1 r1 where s: "(case me_kind e of
      Directory \<Rightarrow> create_parents env d inc (in_destination inc) ?n
    | File \<Rightarrow> prepare_file env d inc e ?t) = (d1, inc1, r1)" by (metis prod.exhaust)
  show ?case
  proof (cases "?n = []")
    case True
    with Cons.prems show ?thesis by (simp add: accounted_def)
  next
    case False
    then have t: "strict_prefix (in_destination inc) ?t" by (simp add: strict_prefix_def)
    have c1: "accounted env d0 d1 inc1" "is_ok r1 \<Longrightarrow> created d0 d1 inc1" "in_destination inc1 = in_destination inc" "in_finished inc1 = in_finished inc"
      using s prepare_file_created [OF _ Cons.prems(2) t, of env e d1 inc1 r1]
        create_parents_created [OF _ Cons.prems(2), of env "in_destination inc" ?n d1 inc1 r1]
      by (auto simp: accounted_def split: clipboard_entry_kind.splits)
    show ?thesis
    proof (cases r1)
      case (Inl f)
      with Cons.prems False s c1 show ?thesis by (simp add: Let_def)
    next
      case (Inr u)
      obtain d2 inc2 r2 where p: "prepare_entries env d1 inc1 es = (d2, inc2, r2)" by (metis prod.exhaust)
      with Cons.prems False s Inr have "d' = d2" "inc' = inc2" by (simp_all add: Let_def)
      with Cons.IH [OF p c1(2)] c1 Inr show ?thesis by simp
    qed
  qed
qed

text \<open>A disk in which everything lies in a directory.\<close>

definition disk_ok :: "disk \<Rightarrow> bool" where
  "disk_ok d \<longleftrightarrow> hm_ok d \<and> (\<forall>p. p \<noteq> [] \<and> hm_get d p \<noteq> None \<longrightarrow> hm_get d (butlast p) = Some DiskDir)"

text \<open>Removing directories, deepest first: one that remains was refused or still holds something.\<close>

lemma remove_dirs:
  "hm_ok d \<Longrightarrow> sorted_wrt (\<lambda>p q. length q \<le> length p) ps \<Longrightarrow> distinct ps \<Longrightarrow> \<forall>p \<in> set ps. hm_get d p = Some DiskDir \<Longrightarrow>
     (\<forall>q. q \<notin> set ps \<longrightarrow> hm_get (foldl (disk_remove_dir env) d ps) q = hm_get d q)
     \<and> (\<forall>p \<in> set ps. hm_get (foldl (disk_remove_dir env) d ps) p \<noteq> None \<longrightarrow>
          fe_kept env p \<or> (\<exists>q. q \<noteq> [] \<and> butlast q = p \<and> hm_get (foldl (disk_remove_dir env) d ps) q \<noteq> None))"
proof (induction ps arbitrary: d)
  case (Cons p ps)
  let ?d = "disk_remove_dir env d p" and ?D = "foldl (disk_remove_dir env) (disk_remove_dir env d p) ps"
  have ok: "hm_ok ?d" using Cons.prems(1) by (simp add: disk_remove_dir_def hash_map)
  have other: "hm_get ?d q = hm_get d q" if "q \<noteq> p" for q using that Cons.prems(1) by (simp add: disk_remove_dir_def hash_map)
  have p: "p \<notin> set ps" using Cons.prems(3) by simp
  have "\<forall>q \<in> set ps. hm_get ?d q = Some DiskDir"
  proof
    fix q assume "q \<in> set ps"
    then show "hm_get ?d q = Some DiskDir" using other [of q] p Cons.prems(4) by auto
  qed
  note ih = Cons.IH [OF ok _ _ this]
  have keep: "hm_get ?D q = hm_get ?d q" if "q \<notin> set ps" for q using ih Cons.prems(2,3) that by simp
  have "fe_kept env p \<or> (\<exists>q. q \<noteq> [] \<and> butlast q = p \<and> hm_get ?D q \<noteq> None)" if left: "hm_get ?D p \<noteq> None"
  proof (cases "fe_kept env p")
    case False
    have "hm_get ?d p \<noteq> None" using keep [OF p] left by simp
    then have "\<not> list_all (\<lambda>(q, _). q = [] \<or> butlast q \<noteq> p) d"
      using False Cons.prems(1,4) by (auto simp: disk_remove_dir_def hash_map split: if_splits)
    then obtain q x where q: "(q, x) \<in> set d" "q \<noteq> []" "butlast q = p" by (auto simp: list_all_iff)
    then have "length q = Suc (length p)" by auto
    then have "q \<notin> set (p # ps)" using Cons.prems(2) by auto
    moreover have "hm_get d q \<noteq> None" using q(1) Cons.prems(1) by (simp add: hm_get_set)
    ultimately have "hm_get ?D q \<noteq> None" using keep [of q] other [of q] by simp
    with q show ?thesis by blast
  qed simp
  with ih Cons.prems(2,3) keep other show ?case by auto
qed simp

lemma remove_files:
  "hm_ok d \<Longrightarrow> distinct (map fst ps) \<Longrightarrow> (\<forall>(p, i) \<in> set ps. hm_get d p = Some (DiskFile i)) \<Longrightarrow>
     hm_ok (foldl (disk_remove_owned env) d ps)
     \<and> hm_get (foldl (disk_remove_owned env) d ps) q = (if q \<in> fst ` set ps \<and> \<not> fe_kept env q then None else hm_get d q)"
proof (induction ps arbitrary: d)
  case (Cons e ps)
  obtain p i where e: "e = (p, i)" by (cases e)
  let ?d = "disk_remove_owned env d e"
  have rm: "?d = (if fe_kept env p then d else hm_remove p d)" using Cons.prems e by (simp add: disk_remove_owned_def)
  have ok: "hm_ok ?d" and dist: "distinct (map fst ps)" and p: "p \<notin> fst ` set ps"
    using Cons.prems e rm by (simp_all add: hash_map)
  have "hm_get ?d p' = Some (DiskFile i')" if m: "(p', i') \<in> set ps" for p' i'
  proof -
    have "p' \<noteq> p" using p m by force
    then show ?thesis using Cons.prems(1,3) m rm by (auto simp: hash_map)
  qed
  then have "\<forall>(p', i') \<in> set ps. hm_get ?d p' = Some (DiskFile i')" by blast
  note ih = Cons.IH [OF ok dist this]
  show ?case using ih rm p e Cons.prems(1) by (simp add: hash_map)
qed simp

text \<open>Dropping a transfer \<open>inc\<close> that created what \<open>full\<close> lists, where \<open>inc\<close> may have lost track of some of the files.\<close>

lemma incoming_drop_created:
  assumes d0: "disk_ok d0" and c: "created d0 d full" and f: "\<not> in_finished inc"
    and dirs: "in_created_dirs full = in_created_dirs inc" and ok: "hm_ok (in_created_files inc)"
    and sub: "\<And>p i. hm_get (in_created_files inc) p = Some i \<Longrightarrow> hm_get (in_created_files full) p = Some i"
  shows "hm_get d0 q \<noteq> None \<or> \<not> strict_prefix (in_destination full) q \<Longrightarrow> hm_get (incoming_drop env d inc) q = hm_get d0 q"
    and "hm_get (incoming_drop env d inc) q \<noteq> hm_get d0 q \<Longrightarrow> \<exists>p. prefix q p \<and> hm_get (incoming_drop env d inc) p \<noteq> None
      \<and> (fe_kept env p \<or> hm_get (in_created_files full) p \<noteq> None \<and> hm_get (in_created_files inc) p = None)"
proof -
  let ?fs = "in_created_files inc" and ?ds = "in_created_dirs inc"
  let ?d = "foldl (disk_remove_owned env) d ?fs" and ?ps = "sort_key (\<lambda>p. - int (length p)) ?ds"
  define D where "D = incoming_drop env d inc"
  have D: "D = foldl (disk_remove_dir env) ?d ?ps" using f by (simp add: D_def incoming_drop_def)
  have get: "hm_get d p = (if p \<in> set ?ds then Some DiskDir
      else case hm_get (in_created_files full) p of Some i \<Rightarrow> Some (DiskFile i) | None \<Rightarrow> hm_get d0 p)" for p
    using created_get [OF c] by (simp add: dirs)
  have files: "p \<notin> set ?ds" if "hm_get ?fs p = Some i" for p i
  proof -
    have "p \<in> fst ` set (in_created_files full)" using sub [OF that] by (metis hm_get_None option.distinct(1))
    then show ?thesis using c dirs by (auto simp: created_def)
  qed
  have "\<forall>(p, i) \<in> set ?fs. hm_get d p = Some (DiskFile i)"
    using files sub by (auto simp: get hm_get_set [OF ok, symmetric])
  from remove_files [OF _ _ this] ok c have rm: "hm_ok ?d"
    "hm_get ?d p = (if p \<in> fst ` set ?fs \<and> \<not> fe_kept env p then None else hm_get d p)" for p
    by (simp_all add: created_def hm_ok_def)
  have in_ds: "hm_get ?d p = Some DiskDir" if "p \<in> set ?ds" for p
  proof -
    have "hm_get ?fs p = None" using files [of p] that by (cases "hm_get ?fs p") auto
    then show ?thesis using rm(2) [of p] that get [of p] by (simp add: hm_get_None)
  qed
  have "sorted_wrt (\<lambda>p q. - int (length p) \<le> - int (length q)) ?ps"
    using sorted_sort_key [of "\<lambda>p. - int (length p)" ?ds] by (simp add: sorted_map)
  then have "sorted_wrt (\<lambda>p q. length q \<le> length p) ?ps" by simp
  from remove_dirs [OF rm(1) this, of env] c dirs in_ds
  have rest: "q \<notin> set ?ds \<Longrightarrow> hm_get D q = hm_get ?d q"
    and held: "q \<in> set ?ds \<Longrightarrow> hm_get D q \<noteq> None \<Longrightarrow> fe_kept env q \<or> (\<exists>p. p \<noteq> [] \<and> butlast p = q \<and> hm_get D p \<noteq> None)" for q
    unfolding D by (auto simp: created_def)
  have fresh: "hm_get d0 p = None \<and> strict_prefix (in_destination full) p" if "p \<in> set ?ds \<or> hm_get (in_created_files full) p \<noteq> None" for p
    using created_fresh [OF c, of p] that dirs by (auto simp: hm_get_None)
  have old: "hm_get D p = hm_get d0 p" if "hm_get d0 p \<noteq> None \<or> \<not> strict_prefix (in_destination full) p" for p
  proof -
    have p: "p \<notin> set ?ds" "hm_get (in_created_files full) p = None" using fresh [of p] that by blast+
    moreover have "hm_get ?fs p = None" using p(2) sub [of p] by (cases "hm_get ?fs p") auto
    ultimately have "p \<notin> fst ` set ?fs" "hm_get d p = hm_get d0 p" using get [of p] by (simp_all add: hm_get_None [symmetric])
    then show ?thesis using rest [OF p(1)] rm(2) [of p] by simp
  qed
  then show "hm_get d0 q \<noteq> None \<or> \<not> strict_prefix (in_destination full) q \<Longrightarrow> hm_get (incoming_drop env d inc) q = hm_get d0 q"
    by (simp add: D_def)
  let ?lost = "\<lambda>p. fe_kept env p \<or> hm_get (in_created_files full) p \<noteq> None \<and> hm_get ?fs p = None"
  have one: "?lost p \<or> (\<exists>q. q \<noteq> [] \<and> butlast q = p \<and> hm_get D q \<noteq> None \<and> hm_get d0 q = None)"
    if p: "hm_get D p \<noteq> None" "hm_get d0 p = None" for p
  proof (cases "p \<in> set ?ds")
    case True
    have "hm_get d0 q = None" if "q \<noteq> []" "butlast q = p" for q using d0 p(2) that by (auto simp: disk_ok_def)
    with held [OF True p(1)] show ?thesis by blast
  next
    case False
    then have "hm_get ?d p \<noteq> None" using rest p(1) by simp
    then have "hm_get d p \<noteq> None" "p \<notin> fst ` set ?fs \<or> fe_kept env p" using rm(2) [of p] by (auto split: if_splits)
    moreover from this(1) have "hm_get (in_created_files full) p \<noteq> None" using get [of p] False p(2) by (auto split: option.splits)
    ultimately show ?thesis by (simp only: hm_get_None [of ?fs]) blast
  qed
  define B where "B = Max (insert 0 ((\<lambda>(p, _). length p) ` set D))"
  have bound: "length p \<le> B" if p: "hm_get D p \<noteq> None" for p
  proof -
    have "p \<in> fst ` set D" using p by (simp add: hm_get_None)
    then show ?thesis unfolding B_def by (intro Max_ge) force+
  qed
  have "hm_get D p \<noteq> None \<Longrightarrow> hm_get d0 p = None \<Longrightarrow> \<exists>q. prefix p q \<and> hm_get D q \<noteq> None \<and> ?lost q" for p
  proof (induction "B - length p" arbitrary: p rule: less_induct)
    case less
    show ?case
    proof (cases "?lost p")
      case True
      with less.prems show ?thesis by blast
    next
      case False
      with one [OF less.prems] obtain q where q: "q \<noteq> []" "butlast q = p" "hm_get D q \<noteq> None" "hm_get d0 q = None" by blast
      then have len: "length q = Suc (length p)" and pre: "prefix p q" by (auto simp: prefixeq_butlast)
      have "B - length q < B - length p" using len bound [OF q(3)] by simp
      from less.hyps [OF this q(3,4)] pre show ?thesis using prefix_order.trans by blast
    qed
  qed
  moreover have "hm_get D q \<noteq> None \<and> hm_get d0 q = None" if "hm_get D q \<noteq> hm_get d0 q"
    using old [of q] that by (cases "hm_get d0 q"; cases "hm_get D q"; simp)
  ultimately show "hm_get (incoming_drop env d inc) q \<noteq> hm_get d0 q \<Longrightarrow> \<exists>p. prefix q p \<and> hm_get (incoming_drop env d inc) p \<noteq> None \<and> ?lost p"
    unfolding D_def [symmetric] by blast
qed

lemma created_initial:
  "disk_ok d0 \<Longrightarrow> incoming_new t es (Inr dest) limit = Inr inc \<Longrightarrow>
     created d0 d0 inc \<and> in_destination inc = dest \<and> \<not> in_finished inc \<and> \<not> in_cancelled inc"
  by (auto simp: incoming_new_def created_def disk_ok_def hash_map hm_ok_def rbind_eq_Inr_iff split: if_splits)

lemma incoming_prepare_created:
  "incoming_prepare env d inc = (d', inc', r) \<Longrightarrow> created d0 d inc \<Longrightarrow>
     accounted env d0 d' inc' \<and> in_destination inc' = in_destination inc \<and> in_finished inc' = in_finished inc"
  using prepare_entries_created [of env d inc _ d' inc' r d0]
  by (auto simp: incoming_prepare_def accounted_def split: if_splits)

text \<open>All a transfer has created, with the file it may have lost track of.\<close>

lemma accounted_full:
  assumes "accounted env d0 d inc"
  shows "\<exists>full. created d0 d full \<and> in_destination full = in_destination inc \<and> in_created_dirs full = in_created_dirs inc
    \<and> hm_ok (in_created_files inc)
    \<and> (\<forall>p i. hm_get (in_created_files inc) p = Some i \<longrightarrow> hm_get (in_created_files full) p = Some i)
    \<and> (\<forall>p. hm_get (in_created_files full) p \<noteq> None \<longrightarrow> hm_get (in_created_files inc) p = None \<longrightarrow> left_behind env p)"
proof (cases "created d0 d inc")
  case True
  then have "hm_ok (in_created_files inc)" by (simp add: created_def)
  with True show ?thesis by blast
next
  case False
  with assms obtain p i where p: "left_behind env p" "hm_get (in_created_files inc) p = None" "created d0 d (with_file p i inc)"
    by (auto simp: accounted_def)
  then have "hm_ok (hm_remove p (hm_insert p i (in_created_files inc)))" by (simp add: created_def)
  then have "hm_ok (in_created_files inc)" using p(2) by (simp add: hm_remove_insert hm_remove_absent)
  with p show ?thesis by (intro exI [of _ "with_file p i inc"]) (auto simp: hash_map)
qed

section \<open>What preparing opens\<close>

lemma create_parents_files:
  "create_parents env d inc cur cs = (d', inc', r) \<Longrightarrow> in_files inc' = in_files inc \<and> in_cancelled inc' = in_cancelled inc"
proof (induction env d inc cur cs rule: create_parents.induct)
  case (2 env d inc cur c cs)
  show ?case
  proof (cases "fe_stat env (cur @ [c])")
    case (Some e)
    with "2.prems" show ?thesis by simp
  next
    case stat: None
    show ?thesis
    proof (cases "hm_get d (cur @ [c])")
      case None
      show ?thesis
      proof (cases "disk_mkdir env d (cur @ [c])")
        case (Inl e)
        with "2.prems" stat None show ?thesis by simp
      next
        case (Inr d1)
        with "2.prems" stat None have "create_parents env d1 (inc\<lparr>in_created_dirs := in_created_dirs inc @ [cur @ [c]]\<rparr>)
          (cur @ [c]) cs = (d', inc', r)" by (simp add: Let_def)
        from "2.IH"(1) [OF refl stat None Inr this] show ?thesis by simp
      qed
    next
      case (Some x)
      show ?thesis
      proof (cases "x = DiskDir")
        case True
        with "2.prems" stat Some "2.IH"(2) [OF refl stat, of x] show ?thesis by simp
      next
        case False
        with "2.prems" stat Some show ?thesis by (cases x) simp_all
      qed
    qed
  qed
qed simp

lemma prepare_file_files:
  assumes r: "prepare_file env d inc e target = (d', inc', Inr u)"
  shows "in_files inc' = hm_insert (me_file_id e) \<lparr>if_expected = me_size e, if_offset = 0, if_hasher = []\<rparr> (in_files inc)
    \<and> in_cancelled inc' = in_cancelled inc"
proof -
  obtain d1 inc1 r1 where p: "create_parents env d inc (in_destination inc)
      (butlast (drop (length (in_destination inc)) target)) = (d1, inc1, r1)" by (metis prod.exhaust)
  show ?thesis using r p create_parents_files [OF p]
    by (auto simp: prepare_file_def split: sum.splits option.splits)
qed

lemma prepare_entries_files:
  "prepare_entries env d inc es = (d', inc', Inr reqs) \<Longrightarrow> distinct (map me_file_id es) \<Longrightarrow>
     reqs = map (\<lambda>e. (me_file_id e, 0)) (filter (\<lambda>e. me_kind e = File) es)
     \<and> in_cancelled inc' = in_cancelled inc
     \<and> (\<forall>f. f \<notin> me_file_id ` set es \<longrightarrow> hm_get (in_files inc') f = hm_get (in_files inc) f)
     \<and> (\<forall>e \<in> set es. me_kind e = File \<longrightarrow> file_holds inc' (me_file_id e) (me_size e) [])"
proof (induction es arbitrary: d inc reqs)
  case (Cons e es)
  let ?n = "normal_names (me_path e)"
  let ?t = "in_destination inc @ ?n"
  obtain d1 inc1 r1 where s: "(case me_kind e of
      Directory \<Rightarrow> create_parents env d inc (in_destination inc) ?n
    | File \<Rightarrow> prepare_file env d inc e ?t) = (d1, inc1, r1)" by (metis prod.exhaust)
  obtain d2 inc2 r2 where p: "prepare_entries env d1 inc1 es = (d2, inc2, r2)" by (metis prod.exhaust)
  have n: "?n \<noteq> []" using Cons.prems(1) by (cases "?n = []") simp_all
  obtain u where u: "r1 = Inr u" using Cons.prems(1) s n by (cases r1) (simp_all add: Let_def)
  obtain rs where rs: "r2 = Inr rs" "d2 = d'" "inc2 = inc'"
    "reqs = (if me_kind e = File then [(me_file_id e, 0)] else []) @ rs"
    using Cons.prems(1) s n u p by (cases r2) (simp_all add: Let_def)
  have ih: "rs = map (\<lambda>e. (me_file_id e, 0)) (filter (\<lambda>e. me_kind e = File) es)"
     "in_cancelled inc' = in_cancelled inc1"
     "\<And>f. f \<notin> me_file_id ` set es \<Longrightarrow> hm_get (in_files inc') f = hm_get (in_files inc1) f"
     "\<And>e. e \<in> set es \<Longrightarrow> me_kind e = File \<Longrightarrow> file_holds inc' (me_file_id e) (me_size e) []"
    using Cons.IH [of d1 inc1 rs] Cons.prems(2) p rs by auto
  have new: "me_file_id e \<notin> me_file_id ` set es" using Cons.prems(2) by simp
  show ?case
  proof (cases "me_kind e")
    case File
    with s u have "prepare_file env d inc e ?t = (d1, inc1, Inr u)" by simp
    note f = prepare_file_files [OF this]
    have "file_holds inc' (me_file_id e) (me_size e) []"
      using ih(3) [OF new] f by (simp add: file_holds_def hash_map)
    with ih f rs(4) File show ?thesis by (auto simp: hash_map)
  next
    case Directory
    with s u create_parents_files [of env d inc "in_destination inc" ?n d1 inc1 "Inr u"] ih rs(4)
    show ?thesis by auto
  qed
qed simp

lemma check_incoming_entries_Inr:
  "check_incoming_entries limit paths prev tot by_id es = Inr m \<Longrightarrow> (\<forall>k \<in> fst ` set by_id. k \<le> prev) \<Longrightarrow>
     m = by_id @ map (\<lambda>e. (me_file_id e, e)) es \<and> sorted_wrt (<) (map me_file_id es)
     \<and> (\<forall>e \<in> set es. prev < me_file_id e)"
proof (induction es arbitrary: paths prev tot by_id)
  case (Cons e es)
  from Cons.prems(1) obtain paths' tot' where gt: "prev < me_file_id e"
    and r: "check_incoming_entries limit paths' (me_file_id e) tot' (hm_insert (me_file_id e) e by_id) es = Inr m"
    by (auto simp: rbind_eq_Inr_iff not_le split: if_splits option.splits)
  have "me_file_id e \<notin> fst ` set by_id" using Cons.prems(2) gt by (auto simp: not_le [symmetric])
  then have ins: "hm_insert (me_file_id e) e by_id = by_id @ [(me_file_id e, e)]"
    by (induction by_id) auto
  with Cons.prems(2) gt have "\<forall>k \<in> fst ` set (hm_insert (me_file_id e) e by_id). k \<le> me_file_id e" by fastforce
  from Cons.IH [OF r this] ins gt show ?case by fastforce
qed simp

lemma incoming_new_entries:
  assumes "incoming_new t es (Inr dest) limit = Inr inc"
  shows "in_entries inc = map (\<lambda>e. (me_file_id e, e)) es" and "distinct (map me_file_id es)"
    and "sort_key me_file_id (map snd (in_entries inc)) = es"
proof -
  from assms have "check_incoming_entries limit [] 0 0 [] es = Inr (in_entries inc)"
    by (auto simp: incoming_new_def rbind_eq_Inr_iff split: if_splits)
  from check_incoming_entries_Inr [OF this] have m: "in_entries inc = map (\<lambda>e. (me_file_id e, e)) es"
    and s: "sorted_wrt (<) (map me_file_id es)" by auto
  show "in_entries inc = map (\<lambda>e. (me_file_id e, e)) es" by (rule m)
  show "distinct (map me_file_id es)" using s by (simp add: strict_sorted_iff)
  show "sort_key me_file_id (map snd (in_entries inc)) = es"
    using s by (simp add: m comp_def sort_key_id_if_sorted strict_sorted_iff)
qed

lemma incoming_prepare_holds:
  assumes "incoming_new t es (Inr dest) limit = Inr inc" and "incoming_prepare env d inc = (d', inc', Inr reqs)"
    and "e \<in> set es" and "me_kind e = File"
  shows "file_holds inc' (me_file_id e) (me_size e) [] \<and> \<not> in_cancelled inc'"
  using assms incoming_new_entries [OF assms(1)] prepare_entries_files [of env d inc es d' inc' reqs]
  by (auto simp: incoming_prepare_def split: if_splits)

lemma incoming_write_chunk_cancelled:
  "incoming_write_chunk inc f x data err = (inc', r) \<Longrightarrow> in_cancelled inc' = in_cancelled inc"
  by (auto simp: incoming_write_chunk_def split: if_splits option.splits)

lemma find_distinct: "distinct (map f xs) \<Longrightarrow> x \<in> set xs \<Longrightarrow> find (\<lambda>y. f y = f x) xs = Some x"
  by (induction xs) auto

lemma finalize_holds:
  assumes h: "file_holds inc f n content"
    and r: "incoming_finalize_file sha256 inc f sz digest err = (inc', Inr u)"
  shows "sz = n \<and> length content = unat n \<and> sha256 content = digest \<and> hm_get (in_files inc) f \<noteq> None"
proof -
  have "length content < 2 ^ 64" using h unsigned_less [of n, where 'a = nat] by (simp add: file_holds_def)
  then show ?thesis using h r
    by (auto simp: incoming_finalize_file_def file_holds_def unat_of_nat split: if_splits option.splits)
qed

section \<open>From the source to the disk\<close>

text \<open>Sending one file: read a chunk of at most \<open>n\<close> bytes, write it at the receiver, until the source
  has no more.\<close>

fun copy_file :: "nat \<Rightarrow> nat \<Rightarrow> (u64 \<Rightarrow> read_env) \<Rightarrow> outgoing \<Rightarrow> incoming \<Rightarrow>
    (outgoing \<times> incoming \<times> (transfer_fault + unit)) option" where
  "copy_file 0 n envs og inc = None"
| "copy_file (Suc fuel) n envs og inc =
     (case next_chunk_bounded og n (envs (og_offset og)) of
        (og', Inl e) \<Rightarrow> Some (og', inc, Inl e)
      | (og', Inr None) \<Rightarrow> Some (og', inc, Inr ())
      | (og', Inr (Some (x, data))) \<Rightarrow>
          (case incoming_write_chunk inc (og_file_id og) x data None of
             (inc', Inl e) \<Rightarrow> Some (og', inc', Inl e)
           | (inc', Inr _) \<Rightarrow> copy_file fuel n envs og' inc'))"

text \<open>A file that keeps its identity and holds \<open>content\<close>; the \<open>k\<close>-th read returns at most
  \<open>cuts k\<close> bytes.\<close>

definition steady_reads :: "metadata \<Rightarrow> bytes \<Rightarrow> (nat \<Rightarrow> nat) \<Rightarrow> u64 \<Rightarrow> read_env" where
  "steady_reads m content cuts off = \<lparr>re_meta = Inr m, re_reads = (\<lambda>k. \<lparr>rd_before = Inr m,
     rd_result = Inr (take (cuts k) (drop (unat off + sum cuts {..<k}) content)), rd_after = Inr m\<rparr>)\<rparr>"

lemma read_loop_steady:
  assumes m: "identity_matches i m" and pos: "\<And>k. 0 < cuts k"
    and len: "unat off + n \<le> length content"
  shows "length acc \<le> n \<Longrightarrow> acc = take (length acc) (drop (unat off) content) \<Longrightarrow>
    (length acc < n \<longrightarrow> length acc = sum cuts {..<k}) \<Longrightarrow>
    read_loop f i (re_reads (steady_reads m content cuts off)) k n acc = Inr (take n (drop (unat off) content))"
proof (induction "n - length acc" arbitrary: k acc rule: less_induct)
  case less
  show ?case
  proof (cases "n \<le> length acc")
    case True
    with less.prems show ?thesis by (simp add: read_loop.simps)
  next
    case False
    let ?got = "take (n - length acc) (take (cuts k) (drop (unat off + sum cuts {..<k}) content))"
    have acc: "length acc = sum cuts {..<k}" using False less.prems(3) by simp
    have lg: "length ?got = min (n - length acc) (cuts k)" using acc len by simp
    have ne: "?got \<noteq> []" using lg pos [of k] False by auto
    have got: "?got = take (length ?got) (drop (length acc) (drop (unat off) content))"
      using acc lg by (simp add: add.commute min_def)
    have pre: "acc @ ?got = take (length (acc @ ?got)) (drop (unat off) content)"
      by (subst less.prems(2), subst got) (simp add: take_add)
    have "read_loop f i (re_reads (steady_reads m content cuts off)) (Suc k) n (acc @ ?got)
      = Inr (take n (drop (unat off) content))"
    proof (rule less.hyps)
      show "n - length (acc @ ?got) < n - length acc"
        using lg pos [of k] False unfolding length_append by linarith
      show "length (acc @ ?got) \<le> n" using lg False by simp
      show "acc @ ?got = take (length (acc @ ?got)) (drop (unat off) content)" by (rule pre)
      show "length (acc @ ?got) < n \<longrightarrow> length (acc @ ?got) = sum cuts {..<Suc k}"
        using lg acc by (auto simp: min_def)
    qed
    with False m ne show ?thesis
      by (subst read_loop.simps) (simp add: steady_reads_def check_identity_def Let_def)
  qed
qed

text \<open>Both ends of a file of which \<open>content\<close> up to the offset has been sent.\<close>

definition in_step :: "outgoing \<Rightarrow> incoming \<Rightarrow> bytes \<Rightarrow> bool" where
  "in_step og inc content \<longleftrightarrow> \<not> og_cancelled og \<and> \<not> in_cancelled inc \<and> unat (og_size og) = length content
     \<and> og_offset og \<le> og_size og \<and> og_hasher og = take (unat (og_offset og)) content
     \<and> file_holds inc (og_file_id og) (og_size og) (og_hasher og)"

lemma next_chunk_steady:
  assumes st: "in_step og inc content" and n: "0 < n" "n \<le> MAX_READ" and lt: "og_offset og \<noteq> og_size og"
    and m: "identity_matches (og_identity og) m" and pos: "\<And>k. 0 < cuts k"
  obtains data where
    "next_chunk_bounded og n (steady_reads m content cuts (og_offset og)) =
       (og\<lparr>og_offset := og_offset og + word_of_nat (length data), og_hasher := og_hasher og @ data\<rparr>,
        Inr (Some (og_offset og, data)))"
    and "data = take (length data) (drop (unat (og_offset og)) content)" and "data \<noteq> []"
    and "length data \<le> MAX_READ" and "unat (og_offset og) + length data \<le> length content"
proof -
  let ?off = "unat (og_offset og)" and ?env = "steady_reads m content cuts (og_offset og)"
  let ?req = "chunk_request og n"
  have off: "?off < length content" "unat (og_size og) = length content" and le: "og_offset og \<le> og_size og"
    using st lt by (auto simp: in_step_def word_le_nat_alt word_unat_eq_iff)
  have "unat (word_of_nat n :: u64) = n" using n(2) by (simp add: MAX_READ_def const_defs unat_of_nat)
  moreover have "unat (og_size og - og_offset og) = length content - ?off"
    using le off by (simp add: unat_sub)
  ultimately have req: "?req = min (length content - ?off) n"
    by (simp add: chunk_request_def min_def word_le_nat_alt)
  let ?data = "take ?req (drop ?off content)"
  have len: "length ?data = ?req" using req by simp
  have l: "read_loop (og_file_id og) (og_identity og) (re_reads ?env) 0 ?req [] = Inr ?data"
    by (rule read_loop_steady [OF m pos]) (use req off in auto)
  have sz: "length content < 2 ^ 64" using off unsigned_less [of "og_size og", where 'a = nat] by simp
  have add: "checked_add (og_offset og) (word_of_nat (length ?data)) = Some (og_offset og + word_of_nat (length ?data))"
    unfolding len using req off sz by (simp add: checked_add_def unat_of_nat)
  have meta: "check_identity (og_file_id og) (og_identity og) (re_meta ?env) = Inr ()"
    using m by (simp add: check_identity_def steady_reads_def)
  have c: "\<not> og_cancelled og" using st by (simp add: in_step_def)
  have max: "\<not> (n = 0 \<or> n > MAX_READ)" using n by simp
  show ?thesis
  proof (rule that [of ?data])
    show "next_chunk_bounded og n ?env = (og\<lparr>og_offset := og_offset og + word_of_nat (length ?data),
        og_hasher := og_hasher og @ ?data\<rparr>, Inr (Some (og_offset og, ?data)))"
      unfolding next_chunk_bounded_def using c lt max meta by (simp only: if_False l add sum.case option.case)
    show "?data = take (length ?data) (drop ?off content)" unfolding len ..
    show "?data \<noteq> []" using req off n by (auto simp: min_def)
    show "length ?data \<le> MAX_READ" "?off + length ?data \<le> length content" unfolding len using req n off by auto
  qed
qed

lemma copy_file_steady:
  assumes n: "0 < n" "n \<le> MAX_READ" and m: "identity_matches (og_identity og) m" and pos: "\<And>k. 0 < cuts k"
  shows "in_step og inc content \<Longrightarrow> length content - unat (og_offset og) < fuel \<Longrightarrow>
    \<exists>og' inc'. copy_file fuel n (steady_reads m content cuts) og inc = Some (og', inc', Inr ())
      \<and> in_step og' inc' content \<and> og_offset og' = og_size og' \<and> og_hasher og' = content
      \<and> og_size og' = og_size og \<and> og_file_id og' = og_file_id og \<and> og_identity og' = og_identity og"
  using m
proof (induction fuel arbitrary: og inc)
  case (Suc fuel)
  show ?case
  proof (cases "og_offset og = og_size og")
    case True
    with Suc.prems(1) show ?thesis by (auto simp: in_step_def next_chunk_bounded_def)
  next
    case False
    obtain data where r: "next_chunk_bounded og n (steady_reads m content cuts (og_offset og)) =
       (og\<lparr>og_offset := og_offset og + word_of_nat (length data), og_hasher := og_hasher og @ data\<rparr>,
        Inr (Some (og_offset og, data)))"
      and d: "data = take (length data) (drop (unat (og_offset og)) content)" "data \<noteq> []"
        "length data \<le> MAX_READ" "unat (og_offset og) + length data \<le> length content"
      by (rule next_chunk_steady [OF Suc.prems(1) n False Suc.prems(3) pos])
    let ?og = "og\<lparr>og_offset := og_offset og + word_of_nat (length data), og_hasher := og_hasher og @ data\<rparr>"
    let ?inc = "inc\<lparr>in_files := hm_insert (og_file_id og) \<lparr>if_expected = og_size og,
      if_offset = og_offset og + word_of_nat (length data), if_hasher = og_hasher og @ data\<rparr> (in_files inc)\<rparr>"
    have sz: "unat (og_size og) = length content" "length content < 2 ^ 64" and h: "og_hasher og = take (unat (og_offset og)) content"
      and f: "file_holds inc (og_file_id og) (og_size og) (og_hasher og)"
      using Suc.prems(1) unsigned_less [of "og_size og", where 'a = nat] by (auto simp: in_step_def)
    have len: "length (og_hasher og) = unat (og_offset og)" using h d(4) by simp
    have off: "unat (og_offset og + word_of_nat (length data)) = unat (og_offset og) + length data"
      using d(4) sz by (simp add: unat_word_ariths unat_of_nat)
    have ifo: "hm_get (in_files inc) (og_file_id og) = Some \<lparr>if_expected = og_size og, if_offset = og_offset og,
        if_hasher = og_hasher og\<rparr>" using f len by (simp add: file_holds_def)
    have add: "checked_add (og_offset og) (word_of_nat (length data)) = Some (og_offset og + word_of_nat (length data))"
      using off d(4) sz by (simp add: checked_add_Some_iff unat_of_nat)
    have fits: "\<not> og_size og < og_offset og + word_of_nat (length data)"
      using off d(4) sz by (simp add: word_less_nat_alt)
    have w: "incoming_write_chunk inc (og_file_id og) (og_offset og) data None = (?inc, Inr ())"
      using Suc.prems(1) d(2,3) ifo add fits by (simp add: incoming_write_chunk_def in_step_def)
    have hd: "og_hasher og @ data = take (unat (og_offset og) + length data) content"
      using h d(1) by (metis take_add)
    have st: "in_step ?og ?inc content" using Suc.prems(1) off hd d(4) sz len
      by (auto simp: in_step_def file_holds_def hash_map word_le_nat_alt)
    from Suc.IH [OF st] Suc.prems(2,3) off d r w show ?thesis by (auto simp flip: length_greater_0_conv)
  qed
qed simp

section \<open>Properties\<close>

text \<open>C17: a failed transfer leaves nothing but what could not be removed. Whatever calls fail while a received manifest is prepared
  and when the unfinished transfer is dropped, nothing outside the destination and nothing that was there before
  is changed; and what is on the disk after the drop and was not there before leads to a path, the same or one
  below it, that the drop could not remove, or to a created file that was set up in vain and then not removed, because
  its identity could not be read again or the removal failed. If no removal fails and no identity is lost the
  disk is the one the transfer started from.\<close>

theorem unfinished_transfer_leaves_disk:
  assumes d0: "disk_ok d0" and n: "incoming_new transfer_id entries (Inr dest) limit = Inr inc"
    and r: "incoming_prepare env d0 inc = (d, inc', r)"
  shows "(\<forall>q. \<not> strict_prefix dest q \<or> hm_get d0 q \<noteq> None \<longrightarrow>
        hm_get d q = hm_get d0 q \<and> hm_get (incoming_drop env' d inc') q = hm_get d0 q)
    \<and> (\<forall>q. hm_get (incoming_drop env' d inc') q \<noteq> hm_get d0 q \<longrightarrow>
        (\<exists>p. prefix q p \<and> hm_get (incoming_drop env' d inc') p \<noteq> None \<and> (fe_kept env' p \<or> left_behind env p)))"
proof -
  note init = created_initial [OF d0 n]
  have acc: "accounted env d0 d inc'" and inc': "in_destination inc' = dest" "\<not> in_finished inc'"
    using incoming_prepare_created [OF r, of d0] init by auto
  from acc obtain full where c: "created d0 d full" and full: "in_destination full = dest" "in_created_dirs full = in_created_dirs inc'"
      "hm_ok (in_created_files inc')" "\<And>p i. hm_get (in_created_files inc') p = Some i \<Longrightarrow> hm_get (in_created_files full) p = Some i"
      "\<And>p. hm_get (in_created_files full) p \<noteq> None \<Longrightarrow> hm_get (in_created_files inc') p = None \<Longrightarrow> left_behind env p"
    using accounted_full [OF acc] inc' by metis
  have "hm_get d q = hm_get d0 q" if "\<not> strict_prefix dest q \<or> hm_get d0 q \<noteq> None" for q
  proof -
    have "q \<notin> set (in_created_dirs full) \<union> fst ` set (in_created_files full)"
      using created_fresh [OF c, of q] full(1) that by blast
    then show ?thesis using created_get [OF c, of q] by (simp add: hm_get_None [symmetric])
  qed
  moreover note incoming_drop_created [OF d0 c inc'(2) full(2-4), where env = env']
  ultimately show ?thesis using full(1,5) by blast
qed

text \<open>What a receiver accepts is what the sender announced: \<open>finalize_file\<close> succeeds only if the chunks that were accepted are
  together as long as the manifest says and have the announced digest.\<close>

theorem received_file_verified:
  assumes n: "incoming_new transfer_id entries (Inr dest) limit = Inr inc0"
    and p: "incoming_prepare env d0 inc0 = (d, inc, Inr reqs)"
    and e: "e \<in> set entries" "me_kind e = File"
    and w: "write_all_chunks inc (me_file_id e) ws = (inc', accepted)"
    and f: "incoming_finalize_file sha256 inc' (me_file_id e) sz digest err = (inc'', Inr ())"
  shows "sz = me_size e \<and> length (concat accepted) = unat (me_size e) \<and> sha256 (concat accepted) = digest"
proof -
  have "file_holds inc (me_file_id e) (me_size e) []" using incoming_prepare_holds [OF n p e] by simp
  from write_all_chunks_holds [OF this w] have "file_holds inc' (me_file_id e) (me_size e) (concat accepted)" by simp
  from finalize_holds [OF this f] show ?thesis by simp
qed

text \<open>C16: a file arrives. If the source keeps its identity while it is read, in reads as short as the
  operating system likes, then sending it chunk by chunk to a receiver that prepared the same manifest
  ends after at most one round per byte and one more, both digests are taken of the whole content and
  the receiver accepts the file.\<close>

theorem file_delivered:
  assumes n: "incoming_new transfer_id (fo_entries offer) (Inr dest) limit = Inr inc0"
    and p: "incoming_prepare env d0 inc0 = (d, inc, Inr reqs)"
    and e: "e \<in> set (fo_entries offer)" "me_kind e = File"
    and og: "offer_open offer (me_file_id e) 0 oe = Inr og"
    and len: "length content = unat (me_size e)" and m: "identity_matches (og_identity og) m"
    and cuts: "\<forall>k. 0 < cuts k" and max_len: "0 < max_len" "max_len \<le> MAX_READ"
  shows "\<exists>og' inc' inc''.
    copy_file (Suc (length content)) max_len (steady_reads m content cuts) og inc = Some (og', inc', Inr ())
    \<and> finalize_digest sha256 og' (Inr m) = Inr (sha256 content)
    \<and> incoming_finalize_file sha256 inc' (me_file_id e) (me_size e) (sha256 content) None = (inc'', Inr ())"
proof -
  have "find (\<lambda>e'. me_file_id e' = me_file_id e) (fo_entries offer) = Some e"
    using incoming_new_entries(2) [OF n] e(1) by (rule find_distinct)
  then have o: "og_file_id og = me_file_id e" "og_size og = me_size e" "og_offset og = 0" "og_hasher og = []"
    "\<not> og_cancelled og"
    using og e(2) by (auto simp: offer_open_def split: if_splits option.splits sum.splits)
  have st: "in_step og inc content"
    using incoming_prepare_holds [OF n p e] o len by (simp add: in_step_def)
  have "\<exists>og' inc'. copy_file (Suc (length content)) max_len (steady_reads m content cuts) og inc = Some (og', inc', Inr ())
      \<and> in_step og' inc' content \<and> og_offset og' = og_size og' \<and> og_hasher og' = content
      \<and> og_size og' = og_size og \<and> og_file_id og' = og_file_id og \<and> og_identity og' = og_identity og"
    by (rule copy_file_steady [OF max_len m _ st]) (use cuts in simp_all)
  with o obtain og' inc' where
    r: "copy_file (Suc (length content)) max_len (steady_reads m content cuts) og inc = Some (og', inc', Inr ())"
    and s: "in_step og' inc' content" "og_offset og' = og_size og'" "og_hasher og' = content"
      "og_size og' = me_size e" "og_file_id og' = me_file_id e" "og_identity og' = og_identity og"
    by metis
  have "finalize_digest sha256 og' (Inr m) = Inr (sha256 content)"
    using s m by (simp add: finalize_digest_def check_identity_def)
  moreover have "\<exists>inc''. incoming_finalize_file sha256 inc' (me_file_id e) (me_size e) (sha256 content) None = (inc'', Inr ())"
    using s len by (auto simp: incoming_finalize_file_def in_step_def file_holds_def)
  ultimately show ?thesis using r by blast
qed

section \<open>Witnesses\<close>

definition demo_entries :: "clipboard_manifest_entry list" where
  "demo_entries = [\<lparr>me_file_id = 1, me_path = lit ''d'', me_kind = Directory, me_size = 0\<rparr>,
     \<lparr>me_file_id = 2, me_path = lit ''d/f'', me_kind = File, me_size = 3\<rparr>]"

definition demo_disk :: disk where
  "demo_disk = [([], DiskDir), ([lit ''t''], DiskDir), ([lit ''t'', lit ''g''], DiskFile 1)]"

definition demo_env :: "io_error option \<Rightarrow> fs_env" where
  "demo_env err = \<lparr>fe_stat = (\<lambda>_. None), fe_mkdir = (\<lambda>_. None), fe_create = (\<lambda>_. err),
     fe_clone = (\<lambda>_. None), fe_identity = (\<lambda>_. None), fe_identity_again = (\<lambda>_. None), fe_kept = (\<lambda>_. False),
     fe_inode = (\<lambda>_. 7)\<rparr>"

definition demo_incoming :: incoming where
  "demo_incoming = \<lparr>in_transfer_id = 9, in_destination = [lit ''t''],
     in_entries = map (\<lambda>e. (me_file_id e, e)) demo_entries, in_files = [],
     in_created_files = [], in_created_dirs = [], in_cancelled = False, in_finished = False\<rparr>"

lemmas demo_defs = demo_entries_def demo_disk_def demo_env_def demo_incoming_def lit_def const_defs
  path_components_def path_component_def starts_with_byte_def ends_with_byte_def

lemma demo_new: "incoming_new 9 demo_entries (Inr [lit ''t'']) None = Inr demo_incoming"
  by (simp add: incoming_new_def demo_defs validate_relative_path_def is_normal_def checked_add_def word_le_nat_alt)

lemma demo_disk_ok: "disk_ok demo_disk"
  by (auto simp: disk_ok_def demo_disk_def hm_ok_def hm_get_def lit_def split: if_splits)

lemma demo_prepare_ok:
  "incoming_prepare (demo_env None) demo_disk demo_incoming =
     (demo_disk @ [([lit ''t'', lit ''d''], DiskDir), ([lit ''t'', lit ''d'', lit ''f''], DiskFile 7)],
      demo_incoming\<lparr>in_created_dirs := [[lit ''t'', lit ''d'']],
        in_created_files := [([lit ''t'', lit ''d'', lit ''f''], 7)],
        in_files := [(2, \<lparr>if_expected = 3, if_offset = 0, if_hasher = []\<rparr>)]\<rparr>, Inr [(2, 0)])"
  by (simp add: incoming_prepare_def demo_defs normal_names_def map_filter_simps prepare_file_def setup_failure_def
      disk_mkdir_def disk_create_new_def hm_get_def Let_def)

lemma demo_prepare_fails:
  "\<exists>d inc. incoming_prepare (demo_env (Some already_exists)) demo_disk demo_incoming =
     (d, inc, Inl (TfIo already_exists)) \<and> hm_get d [lit ''t'', lit ''d''] = Some DiskDir"
  by (simp add: incoming_prepare_def demo_defs normal_names_def map_filter_simps prepare_file_def setup_failure_def
      disk_mkdir_def disk_create_new_def hm_get_def Let_def)

theorem unfinished_transfer_leaves_disk_witness:
  "\<exists>d inc. incoming_prepare (demo_env (Some already_exists)) demo_disk demo_incoming =
       (d, inc, Inl (TfIo already_exists)) \<and> hm_get d [lit ''t'', lit ''d''] = Some DiskDir
     \<and> hm_get (incoming_drop (demo_env None) d inc) [lit ''t'', lit ''d''] = None"
proof -
  obtain d inc where r: "incoming_prepare (demo_env (Some already_exists)) demo_disk demo_incoming =
      (d, inc, Inl (TfIo already_exists))" "hm_get d [lit ''t'', lit ''d''] = Some DiskDir"
    using demo_prepare_fails by blast
  have "hm_get demo_disk [lit ''t'', lit ''d''] = None" by (simp add: demo_disk_def hm_get_def lit_def)
  moreover have "\<not> fe_kept (demo_env None) p" "\<not> left_behind (demo_env (Some already_exists)) p" for p
    by (simp_all add: demo_env_def left_behind_def setup_failure_def)
  ultimately have "hm_get (incoming_drop (demo_env None) d inc) [lit ''t'', lit ''d''] = None"
    using unfinished_transfer_leaves_disk [OF demo_disk_ok demo_new r(1), of "demo_env None"] by metis
  with r show ?thesis by blast
qed

theorem received_file_verified_witness:
  "\<exists>inc'. write_all_chunks
       (demo_incoming\<lparr>in_created_dirs := [[lit ''t'', lit ''d'']],
        in_created_files := [([lit ''t'', lit ''d'', lit ''f''], 7)],
        in_files := [(2, \<lparr>if_expected = 3, if_offset = 0, if_hasher = []\<rparr>)]\<rparr>) 2
       [(0, [5, 6], None), (1, [4], None), (2, [7], None)] = (inc', [[5, 6], [7]])
     \<and> (\<exists>inc''. incoming_finalize_file rev inc' 2 3 [7, 6, 5] None = (inc'', Inr ()))
     \<and> rev (concat [[5, 6], [7]]) = [7, 6, 5 :: u8]"
proof -
  let ?inc = "demo_incoming\<lparr>in_created_dirs := [[lit ''t'', lit ''d'']],
        in_created_files := [([lit ''t'', lit ''d'', lit ''f''], 7)],
        in_files := [(2, \<lparr>if_expected = 3, if_offset = 0, if_hasher = []\<rparr>)]\<rparr>"
  let ?e = "\<lparr>me_file_id = 2, me_path = lit ''d/f'', me_kind = File, me_size = 3\<rparr>"
  let ?inc' = "?inc\<lparr>in_files := [(2, \<lparr>if_expected = 3, if_offset = 3, if_hasher = [5, 6, 7]\<rparr>)]\<rparr>"
  have w: "write_all_chunks ?inc 2 [(0, [5, 6], None), (1, [4], None), (2, [7], None)] = (?inc', [[5, 6], [7]])"
    by (simp add: incoming_write_chunk_def demo_incoming_def MAX_READ_def const_defs hm_get_def checked_add_def)
  have f: "incoming_finalize_file rev ?inc' 2 3 [7, 6, 5] None = (?inc'\<lparr>in_files := []\<rparr>, Inr ())"
    by (simp add: incoming_finalize_file_def demo_incoming_def hm_get_def hm_remove_def hm_retain_def)
  have e: "?e \<in> set demo_entries" "me_kind ?e = File" by (simp_all add: demo_entries_def)
  from received_file_verified [OF demo_new demo_prepare_ok e,
      of "[(0, [5, 6], None), (1, [4], None), (2, [7], None)]" ?inc' "[[5, 6], [7]]" rev 3 "[7, 6, 5]" None] w f
  show ?thesis by auto
qed

definition demo_offer :: "source_map file_offer" where
  "demo_offer = \<lparr>fo_transfer_id = 9, fo_entries = demo_entries,
     fo_sources = [(2, (lit ''/s/d/f'', identity_from_metadata demo_meta))]\<rparr>"

theorem file_delivered_witness:
  "\<exists>og og' inc inc' inc''. offer_open demo_offer 2 0 \<lparr>oe_open = None, oe_meta = Inr (True, demo_meta), oe_seek = None\<rparr> = Inr og
     \<and> copy_file 4 2 (steady_reads demo_meta [5, 6, 7] (\<lambda>_. 1)) og inc = Some (og', inc', Inr ())
     \<and> incoming_finalize_file rev inc' 2 3 [7, 6, 5] None = (inc'', Inr ())"
proof -
  let ?e = "\<lparr>me_file_id = 2, me_path = lit ''d/f'', me_kind = File, me_size = 3\<rparr>"
  let ?oe = "\<lparr>oe_open = None, oe_meta = Inr (True, demo_meta), oe_seek = None\<rparr>"
  have n: "incoming_new 9 (fo_entries demo_offer) (Inr [lit ''t'']) None = Inr demo_incoming"
    using demo_new by (simp add: demo_offer_def)
  have e: "?e \<in> set (fo_entries demo_offer)" "me_kind ?e = File" by (simp_all add: demo_offer_def demo_entries_def)
  have m: "identity_matches (identity_from_metadata demo_meta) demo_meta"
    by (simp add: identity_matches_def identity_from_metadata_def demo_meta_def)
  let ?og = "\<lparr>og_file_id = 2, og_offset = 0, og_size = 3,
    og_identity = identity_from_metadata demo_meta, og_hasher = [], og_cancelled = False\<rparr>"
  have o: "offer_open demo_offer (me_file_id ?e) 0 ?oe = Inr ?og"
    using m by (simp add: offer_open_def demo_offer_def demo_entries_def hm_get_def)
  have max: "2 \<le> MAX_READ" by (simp add: MAX_READ_def const_defs)
  have fuel: "Suc (length [5, 6, 7 :: u8]) = 4" by simp
  obtain og' inc' inc'' where "copy_file 4 2 (steady_reads demo_meta [5, 6, 7] (\<lambda>_. 1)) ?og
      (demo_incoming\<lparr>in_created_dirs := [[lit ''t'', lit ''d'']],
        in_created_files := [([lit ''t'', lit ''d'', lit ''f''], 7)],
        in_files := [(2, \<lparr>if_expected = 3, if_offset = 0, if_hasher = []\<rparr>)]\<rparr>) = Some (og', inc', Inr ())"
    and "incoming_finalize_file rev inc' 2 3 [7, 6, 5] None = (inc'', Inr ())"
    using file_delivered [OF n demo_prepare_ok e o, of "[5, 6, 7]" demo_meta "\<lambda>_. 1" 2 rev] max m
    unfolding fuel by (auto simp del: copy_file.simps)
  with o show ?thesis by (auto simp del: copy_file.simps)
qed

end
