(* ===== verification/Manual_Transfer.thy ===== *)
theory Manual_Transfer
  imports File_Io
begin

text \<open>
  Manual file transfers, from \<open>crates/syntra-core/src/manual_transfer.rs\<close>: the records of the files
  this device offers or receives, keyed by the peer's certificate fingerprint and the transfer id, and
  the operations on them. Time is a number of milliseconds. What the operating system answers during an
  operation (random numbers, file calls) is an argument of the operation. The files themselves are the
  ones of \<open>File_Io\<close>.
\<close>

definition FILE_ID :: u64 where "FILE_ID = 1"
definition MAX_RECORDS :: nat where "MAX_RECORDS = 32"
definition MAX_TERMINAL :: nat where "MAX_TERMINAL = 100"
definition MAX_RETRIES :: nat where "MAX_RETRIES = 3"
definition APPROVAL_TIMEOUT :: nat where "APPROVAL_TIMEOUT = 600 * 1000"
definition RETRY_TIMEOUT :: nat where "RETRY_TIMEOUT = 5 * 1000"
definition PROGRESS_INTERVAL :: nat where "PROGRESS_INTERVAL = 100"

lemmas manual_consts = FILE_ID_def MAX_RECORDS_def MAX_TERMINAL_def MAX_RETRIES_def APPROVAL_TIMEOUT_def
  RETRY_TIMEOUT_def PROGRESS_INTERVAL_def

definition REMOTE_PREPARATION_ERROR :: rstring where
  "REMOTE_PREPARATION_ERROR = lit ''destination unavailable''"
definition REMOTE_TRANSFER_ERROR :: rstring where
  "REMOTE_TRANSFER_ERROR = lit ''file transfer failed''"
definition REMOTE_NOT_ACCEPTED_ERROR :: rstring where
  "REMOTE_NOT_ACCEPTED_ERROR = lit ''transfer not accepted''"

section \<open>Data\<close>

datatype transfer_direction = Sending | Receiving

datatype manual_state =
    MtOffering | MtAwaitingAcceptance | MtTransferring | MtCompleted | MtDeclined | MtCancelled | MtFailed

record manual_status =
  st_peer_fingerprint :: rstring
  st_transfer_id :: u64
  st_file_name :: rstring
  st_size :: u64
  st_transferred :: u64
  st_direction :: transfer_direction
  st_state :: manual_state
  st_destination :: "rstring option"
  st_error :: "rstring option"

record incoming_file_offer =
  io_peer_fingerprint :: rstring
  io_transfer_id :: u64
  io_file_name :: rstring
  io_size :: u64
  io_suggested_directory :: rstring

record file_receive_settings =
  rs_auto_accept :: bool
  rs_download_directory :: rstring

datatype frontend_event =
    ManualTransferError rstring
  | ManualTransferStatus manual_status
  | IncomingFileOffer incoming_file_offer

datatype 'p manual_action = MtSend 'p proto_event | MtNotify frontend_event

type_synonym record_key = "rstring \<times> u64"

record 'p manual_record =
  mr_peer :: 'p
  mr_fingerprint :: rstring
  mr_id :: u64
  mr_name :: rstring
  mr_size :: u64
  mr_transferred :: u64
  mr_direction :: transfer_direction
  mr_state :: manual_state
  mr_destination :: "rstring option"
  mr_error :: "rstring option"
  mr_offer :: "source_map file_offer option"
  mr_outgoing :: "outgoing option"
  mr_incoming :: "incoming option"
  mr_replacement :: "(rstring \<times> rstring) option"
  mr_last_activity :: nat
  mr_last_notification :: nat
  mr_approval_deadline :: nat
  mr_retries :: nat
  mr_cached_request :: "(u64 \<times> u32) option"
  mr_cached_response :: "proto_event option"
  mr_retry_event :: "proto_event option"
  mr_final_digest :: "bytes option"
  mr_early_digest :: "bytes option"
  mr_final_result :: "(bool \<times> rstring option) option"

record 'p manual_transfers =
  mt_records :: "(record_key, 'p manual_record) hash_map"
  mt_terminal :: "record_key list"

definition mt_new :: "'p manual_transfers" where
  "mt_new = \<lparr>mt_records = [], mt_terminal = []\<rparr>"

text \<open>The answers of the operating system: to choosing an id and preparing a source, to preparing a
  destination, and to reading or writing a file.\<close>

record send_env =
  se_random :: "nat \<Rightarrow> u64 option"
  se_join :: "rstring option"
  se_fs :: "rstring \<Rightarrow> fs_node"

record prepare_env =
  pe_staging :: "io_error + rstring"
  pe_create_dir_all :: "io_error option"
  pe_canonical :: "io_error + disk_path"
  pe_fs :: fs_env
  pe_disk :: disk
  pe_target_exists :: bool

record file_env =
  xe_open :: open_env
  xe_read :: read_env
  xe_meta :: "io_error + metadata"
  xe_write :: "io_error option"
  xe_flush :: "io_error option"
  xe_rename :: "io_error option"

section \<open>Messages and errors\<close>

definition manual_request :: "u64 \<Rightarrow> u64 \<Rightarrow> proto_event" where
  "manual_request transfer_id offset =
     ManualFileRequest transfer_id offset (word_of_nat MAX_MANUAL_FILE_CHUNK_SIZE)"

definition peer_failure :: "'p \<Rightarrow> u64 \<Rightarrow> rstring \<Rightarrow> 'p manual_action" where
  "peer_failure peer transfer_id err = MtSend peer (ManualFileResult transfer_id False (Some err))"

fun is_terminal :: "manual_state \<Rightarrow> bool" where
  "is_terminal MtCompleted = True"
| "is_terminal MtDeclined = True"
| "is_terminal MtCancelled = True"
| "is_terminal MtFailed = True"
| "is_terminal _ = False"

text \<open>\<open>Display\<close> of numbers and of \<open>TransferError\<close>.\<close>

fun dec_digits :: "nat \<Rightarrow> rstring" where
  "dec_digits n = (if n < 10 then [word_of_nat (0x30 + n)]
     else dec_digits (n div 10) @ [word_of_nat (0x30 + n mod 10)])"

declare dec_digits.simps [simp del]

definition dec_u64 :: "u64 \<Rightarrow> rstring" where
  "dec_u64 n = dec_digits (unat n)"

fun fault_to_string :: "transfer_fault \<Rightarrow> rstring" where
  "fault_to_string (TfIo e) = io_message e"
| "fault_to_string (TfInvalidUri s) = lit ''invalid file URI: '' @ s"
| "fault_to_string (TfUnsafePath s) = lit ''unsafe transfer path: '' @ s"
| "fault_to_string (TfUnsupportedEntry p) = lit ''unsupported filesystem entry: '' @ p"
| "fault_to_string TfTooManyEntries = lit ''manifest contains too many entries''"
| "fault_to_string TfTooLarge = lit ''manifest is larger than the clipboard transfer limit''"
| "fault_to_string (TfStaleTransfer t) = lit ''unknown or stale transfer '' @ dec_u64 t"
| "fault_to_string (TfUnknownFile t f) =
     lit ''unknown file '' @ dec_u64 f @ lit '' in transfer '' @ dec_u64 t"
| "fault_to_string (TfUnexpectedOffset f expected actual) = lit ''unexpected offset for file '' @ dec_u64 f
     @ lit '': expected '' @ dec_u64 expected @ lit '', got '' @ dec_u64 actual"
| "fault_to_string (TfSizeMismatch f expected actual) = lit ''size mismatch for file '' @ dec_u64 f
     @ lit '': expected '' @ dec_u64 expected @ lit '', got '' @ dec_u64 actual"
| "fault_to_string (TfDigestMismatch f) = lit ''digest mismatch for file '' @ dec_u64 f"
| "fault_to_string TfCancelled = lit ''transfer was cancelled''"
| "fault_to_string (TfSourceChanged f) = lit ''source changed during transfer''"

definition local_source_error :: "transfer_fault \<Rightarrow> rstring" where
  "local_source_error e = (case e of
     TfUnsupportedEntry _ \<Rightarrow> lit ''only regular files can be sent''
   | TfUnsafePath _ \<Rightarrow> lit ''the file name is not portable''
   | _ \<Rightarrow> fault_to_string e)"

definition fault_already_exists :: "transfer_fault \<Rightarrow> bool" where
  "fault_already_exists e = (case e of TfIo x \<Rightarrow> io_kind x = IoAlreadyExists | _ \<Rightarrow> False)"

definition local_receive_error :: "transfer_fault \<Rightarrow> rstring" where
  "local_receive_error e =
     (if fault_already_exists e then lit ''a file with this name already exists'' else fault_to_string e)"

definition sanitize_remote_error :: "rstring option \<Rightarrow> rstring" where
  "sanitize_remote_error e = (case e of
     Some m \<Rightarrow> if m \<noteq> [] then m else lit ''remote peer rejected the file''
   | None \<Rightarrow> lit ''remote peer rejected the file'')"

section \<open>Helpers on one record\<close>

definition mr_key :: "'p manual_record \<Rightarrow> record_key" where
  "mr_key r = (mr_fingerprint r, mr_id r)"

definition mr_status :: "'p manual_record \<Rightarrow> manual_status" where
  "mr_status r = \<lparr>st_peer_fingerprint = mr_fingerprint r, st_transfer_id = mr_id r, st_file_name = mr_name r,
     st_size = mr_size r, st_transferred = mr_transferred r, st_direction = mr_direction r,
     st_state = mr_state r, st_destination = mr_destination r, st_error = mr_error r\<rparr>"

definition mr_notify :: "'p manual_record \<Rightarrow> 'p manual_action" where
  "mr_notify r = MtNotify (ManualTransferStatus (mr_status r))"

definition mr_send :: "'p manual_record \<Rightarrow> proto_event \<Rightarrow> 'p manual_action" where
  "mr_send r event = MtSend (mr_peer r) event"

definition offer_snapshot :: "'p manual_record \<Rightarrow> incoming_file_offer" where
  "offer_snapshot r = \<lparr>io_peer_fingerprint = mr_fingerprint r, io_transfer_id = mr_id r,
     io_file_name = mr_name r, io_size = mr_size r,
     io_suggested_directory = (case mr_destination r of None \<Rightarrow> [] | Some d \<Rightarrow> d)\<rparr>"

definition offer_response :: "'p manual_record \<Rightarrow> proto_event" where
  "offer_response r = (case mr_state r of
     MtAwaitingAcceptance \<Rightarrow> ManualFileDecision (mr_id r) Pending
   | MtTransferring \<Rightarrow> ManualFileDecision (mr_id r) Accepted
   | MtDeclined \<Rightarrow> ManualFileDecision (mr_id r) Declined
   | MtCancelled \<Rightarrow> ManualFileCancel (mr_id r)
   | _ \<Rightarrow> (let (success, err) = (case mr_final_result r of
              None \<Rightarrow> (False, Some REMOTE_TRANSFER_ERROR) | Some x \<Rightarrow> x)
           in ManualFileResult (mr_id r) success err))"

definition mr_progress ::
  "'p manual_record \<Rightarrow> nat \<Rightarrow> 'p manual_record \<times> 'p manual_action list" where
  "mr_progress r now =
     (if mr_transferred r = mr_size r \<or> now - mr_last_notification r \<ge> PROGRESS_INTERVAL
      then let r' = r\<lparr>mr_last_notification := now\<rparr> in (r', [mr_notify r'])
      else (r, []))"

definition mr_terminal ::
  "'p manual_record \<Rightarrow> manual_state \<Rightarrow> rstring option \<Rightarrow> nat \<Rightarrow> 'p manual_record" where
  "mr_terminal r state err now =
     r\<lparr>mr_state := state, mr_error := err, mr_retries := 0, mr_last_activity := now,
       mr_cached_response := None, mr_outgoing := None, mr_offer := None, mr_incoming := None,
       mr_replacement := None,
       mr_retry_event := (case state of
           MtDeclined \<Rightarrow> Some (ManualFileDecision (mr_id r) Declined)
         | MtCancelled \<Rightarrow> Some (ManualFileCancel (mr_id r))
         | _ \<Rightarrow> None)\<rparr>"

definition mr_fail ::
  "'p manual_record \<Rightarrow> rstring \<Rightarrow> bool \<Rightarrow> nat \<Rightarrow> 'p manual_record \<times> 'p manual_action list" where
  "mr_fail r err report_peer now =
     (let r1 = mr_terminal r MtFailed (Some err) now;
          r2 = r1\<lparr>mr_retry_event := Some (offer_response r1)\<rparr>
      in (r2, mr_notify r2 #
            (if report_peer then [peer_failure (mr_peer r2) (mr_id r2) REMOTE_TRANSFER_ERROR] else [])))"

section \<open>The receiver prepares\<close>

definition absolute_path :: "rstring \<Rightarrow> bool" where
  "absolute_path p = starts_with_byte 0x2F p"

definition not_absolute :: io_error where
  "not_absolute = \<lparr>io_kind = IoInvalidInput, io_message = lit ''destination must be an absolute directory''\<rparr>"

text \<open>The \<open>async\<close> block of \<open>prepare_receiver\<close>.\<close>

definition receiver_preparation ::
  "'p manual_record \<Rightarrow> rstring \<Rightarrow> prepare_env \<Rightarrow> transfer_fault + incoming" where
  "receiver_preparation r directory env =
     (if \<not> absolute_path directory then Inl (TfIo not_absolute)
      else case pe_create_dir_all env of
        Some e \<Rightarrow> Inl (TfIo e)
      | None \<Rightarrow> rbind (incoming_new (mr_id r)
            [\<lparr>me_file_id = FILE_ID, me_path = mr_name r, me_kind = File, me_size = mr_size r\<rparr>]
            (pe_canonical env) None) (\<lambda>inc.
          let (_, inc', res) = incoming_prepare (pe_fs env) (pe_disk env) inc
          in rbind res (\<lambda>_. Inr inc')))"

definition receiver_prepared ::
  "'p manual_record \<Rightarrow> incoming \<Rightarrow> nat \<Rightarrow> 'p manual_record \<times> 'p manual_action list" where
  "receiver_prepared r inc now =
     (let accepted = ManualFileDecision (mr_id r) Accepted;
          r' = r\<lparr>mr_destination := Some (path_join (path_display (in_destination inc)) (mr_name r)),
                 mr_incoming := Some inc, mr_state := MtTransferring, mr_error := None,
                 mr_last_activity := now, mr_last_notification := now, mr_retries := 0,
                 mr_retry_event := Some accepted\<rparr>
      in (r', [mr_send r' accepted, mr_notify r']))"

definition prepare_receiver ::
  "'p manual_record \<Rightarrow> rstring \<Rightarrow> nat \<Rightarrow> bool \<Rightarrow> prepare_env \<Rightarrow> 'p manual_record \<times> 'p manual_action list" where
  "prepare_receiver r directory now automatic env =
     (if mr_direction r \<noteq> Receiving \<or> mr_state r \<noteq> MtAwaitingAcceptance then (r, [])
      else if now \<ge> mr_approval_deadline r then mr_fail r (lit ''file offer expired'') True now
      else case receiver_preparation r directory env of
        Inr inc \<Rightarrow> receiver_prepared r inc now
      | Inl e \<Rightarrow>
          let message = local_receive_error e in
          if automatic \<and> fault_already_exists e \<and> pe_target_exists env
          then let r' = r\<lparr>mr_error := Some message, mr_destination := Some directory\<rparr>
               in (r', [mr_send r' (ManualFileDecision (mr_id r) Pending), mr_notify r',
                        MtNotify (IncomingFileOffer (offer_snapshot r'))])
          else if automatic
          then let r1 = mr_terminal r MtFailed (Some message) now;
                   r2 = r1\<lparr>mr_final_result := Some (False, Some REMOTE_PREPARATION_ERROR)\<rparr>;
                   r3 = r2\<lparr>mr_retry_event := Some (offer_response r2)\<rparr>
               in (r3, [peer_failure (mr_peer r3) (mr_id r3) REMOTE_PREPARATION_ERROR, mr_notify r3])
          else let r' = r\<lparr>mr_error := Some message\<rparr> in (r', [mr_notify r']))"

section \<open>Decisions\<close>

fun is_decision :: "proto_event option \<Rightarrow> bool" where
  "is_decision (Some (ManualFileDecision _ _)) = True"
| "is_decision _ = False"

definition mr_decision ::
  "'p manual_record \<Rightarrow> manual_decision \<Rightarrow> nat \<Rightarrow> 'p manual_record \<times> 'p manual_action list" where
  "mr_decision r decision now =
     (if is_terminal (mr_state r) then (r, [])
      else case (mr_direction r, decision) of
        (Sending, Pending) \<Rightarrow>
          (if mr_state r \<noteq> MtOffering then (r, [])
           else let r' = r\<lparr>mr_state := MtAwaitingAcceptance, mr_retry_event := None, mr_retries := 0\<rparr>
                in (r', [mr_notify r']))
      | (Sending, Accepted) \<Rightarrow>
          (if now \<ge> mr_approval_deadline r \<and> mr_state r \<noteq> MtTransferring
           then mr_fail r (lit ''file offer expired'') True now
           else if mr_state r \<noteq> MtTransferring
           then let r' = r\<lparr>mr_state := MtTransferring, mr_retry_event := None, mr_last_activity := now,
                         mr_retries := 0, mr_error := None\<rparr>
                in (r', [mr_send r' (ManualFileDecision (mr_id r') Accepted), mr_notify r'])
           else (r, [mr_send r (ManualFileDecision (mr_id r) Accepted)]))
      | (Receiving, Accepted) \<Rightarrow>
          (if mr_state r \<noteq> MtTransferring then (r, [])
           else let pull = manual_request (mr_id r) (mr_transferred r);
                    r1 = r\<lparr>mr_retry_event := Some pull\<rparr>;
                    r2 = (if is_decision (mr_retry_event r)
                          then r1\<lparr>mr_last_activity := now, mr_retries := 0\<rparr> else r1)
                in (r2, [mr_send r2 pull]))
      | (Sending, Declined) \<Rightarrow>
          (let r' = mr_terminal r MtDeclined None now in (r', [mr_notify r']))
      | _ \<Rightarrow> (r, []))"

section \<open>The sender answers requests\<close>

text \<open>Opening the source on the first request.\<close>

definition sender_open :: "'p manual_record \<Rightarrow> open_env \<Rightarrow> rstring + outgoing" where
  "sender_open r env = (case mr_outgoing r of
     Some og \<Rightarrow> Inr og
   | None \<Rightarrow> (case mr_offer r of
       None \<Rightarrow> Inl (lit ''file source unavailable'')
     | Some offer \<Rightarrow> (case offer_open offer FILE_ID 0 env of
         Inl e \<Rightarrow> Inl (local_source_error e)
       | Inr og \<Rightarrow> Inr og)))"

definition sender_read ::
  "(bytes \<Rightarrow> bytes) \<Rightarrow> 'p manual_record \<Rightarrow> outgoing \<Rightarrow> u64 \<Rightarrow> u32 \<Rightarrow> file_env \<Rightarrow>
     'p manual_record \<times> (transfer_fault + proto_event)" where
  "sender_read sha256 r og offset len env =
     (if offset = mr_size r
      then (case finalize_digest sha256 og (xe_meta env) of
          Inl e \<Rightarrow> (r\<lparr>mr_outgoing := Some og\<rparr>, Inl e)
        | Inr digest \<Rightarrow> (r\<lparr>mr_outgoing := Some og, mr_final_digest := Some digest\<rparr>,
                        Inr (ManualFileComplete (mr_id r) digest)))
      else (case next_chunk_bounded og (unat len) (xe_read env) of
          (og', Inl e) \<Rightarrow> (r\<lparr>mr_outgoing := Some og'\<rparr>, Inl e)
        | (og', Inr None) \<Rightarrow> (r\<lparr>mr_outgoing := Some og'\<rparr>, Inl (TfSourceChanged FILE_ID))
        | (og', Inr (Some (chunk_offset, data))) \<Rightarrow>
            if chunk_offset = offset \<and> data \<noteq> []
            then (r\<lparr>mr_outgoing := Some og', mr_transferred := offset + word_of_nat (length data)\<rparr>,
                  Inr (ManualFileChunk (mr_id r) offset data))
            else (r\<lparr>mr_outgoing := Some og'\<rparr>, Inl (TfSourceChanged FILE_ID))))"

fun is_complete :: "proto_event \<Rightarrow> bool" where
  "is_complete (ManualFileComplete _ _) = True"
| "is_complete _ = False"

definition sender_respond ::
  "'p manual_record \<Rightarrow> u64 \<Rightarrow> u32 \<Rightarrow> proto_event \<Rightarrow> nat \<Rightarrow> 'p manual_record \<times> 'p manual_action list" where
  "sender_respond r offset len response now =
     (let r1 = r\<lparr>mr_cached_request := Some (offset, len), mr_cached_response := Some response,
               mr_retry_event := (if is_complete response then Some response else None),
               mr_last_activity := now, mr_retries := 0\<rparr>;
          (r2, ps) = mr_progress r1 now
      in (r2, mr_send r1 response # ps))"

definition mr_send_chunk ::
  "(bytes \<Rightarrow> bytes) \<Rightarrow> 'p manual_record \<Rightarrow> u64 \<Rightarrow> u32 \<Rightarrow> nat \<Rightarrow> file_env \<Rightarrow>
     'p manual_record \<times> 'p manual_action list" where
  "mr_send_chunk sha256 r offset len now env =
     (if is_terminal (mr_state r) then (r, [])
      else if mr_direction r \<noteq> Sending \<or> mr_state r \<noteq> MtTransferring
      then (r, [peer_failure (mr_peer r) (mr_id r) REMOTE_NOT_ACCEPTED_ERROR])
      else if len = 0 \<or> unat len > MAX_MANUAL_FILE_CHUNK_SIZE \<or> offset > mr_size r
      then mr_fail r (lit ''invalid file request'') True now
      else case (mr_cached_request r = Some (offset, len), mr_cached_response r) of
        (True, Some response) \<Rightarrow>
          (r\<lparr>mr_last_activity := now, mr_retries := 0\<rparr>, [mr_send r response])
      | _ \<Rightarrow>
        if offset < mr_transferred r then (r, [])
        else if offset \<noteq> mr_transferred r then mr_fail r (lit ''unexpected file offset'') True now
        else case sender_open r (xe_open env) of
          Inl e \<Rightarrow> mr_fail r e True now
        | Inr og \<Rightarrow>
            (case sender_read sha256 r og offset len env of
               (r1, Inl e) \<Rightarrow> mr_fail r1 (local_source_error e) True now
             | (r1, Inr response) \<Rightarrow> sender_respond r1 offset len response now))"

section \<open>The receiver writes\<close>

definition finish_receiver ::
  "(bytes \<Rightarrow> bytes) \<Rightarrow> 'p manual_record \<Rightarrow> incoming \<Rightarrow> bytes \<Rightarrow> nat \<Rightarrow> file_env \<Rightarrow>
     'p manual_record \<times> 'p manual_action list" where
  "finish_receiver sha256 r inc digest now env =
     (let (inc1, res1) = incoming_finalize_file sha256 inc FILE_ID (mr_size r) digest (xe_flush env);
          (inc2, res) = (case res1 of Inl e \<Rightarrow> (inc1, Inl e) | Inr _ \<Rightarrow> incoming_finish inc1);
          r1 = r\<lparr>mr_incoming := Some inc2\<rparr>
      in case res of
           Inl e \<Rightarrow> mr_fail r1 (local_receive_error e) True now
         | Inr _ \<Rightarrow>
             (case (mr_replacement r1, xe_rename env) of
                (Some _, Some e) \<Rightarrow> mr_fail r1 (io_message e) True now
              | _ \<Rightarrow>
                let r2 = (mr_terminal r1 MtCompleted None now)\<lparr>mr_final_result := Some (True, None)\<rparr>;
                    r3 = r2\<lparr>mr_retry_event := Some (offer_response r2)\<rparr>
                in (r3, [mr_send r3 (ManualFileResult (mr_id r3) True None), mr_notify r3])))"

text \<open>The end of \<open>write_chunk\<close>, once the data has been written.\<close>

definition chunk_written ::
  "(bytes \<Rightarrow> bytes) \<Rightarrow> 'p manual_record \<Rightarrow> incoming \<Rightarrow> u64 \<Rightarrow> nat \<Rightarrow> file_env \<Rightarrow>
     'p manual_record \<times> 'p manual_action list" where
  "chunk_written sha256 r inc fin now env =
     (let r1 = r\<lparr>mr_incoming := Some inc, mr_transferred := fin, mr_last_activity := now, mr_retries := 0\<rparr>
      in case (fin = mr_size r, mr_early_digest r) of
           (True, Some digest) \<Rightarrow> finish_receiver sha256 (r1\<lparr>mr_early_digest := None\<rparr>) inc digest now env
         | _ \<Rightarrow>
           let pull = manual_request (mr_id r1) (mr_transferred r1);
               r2 = r1\<lparr>mr_retry_event := Some pull\<rparr>;
               (r3, ps) = mr_progress r2 now
           in (r3, mr_send r2 pull # ps))"

definition mr_write_chunk ::
  "(bytes \<Rightarrow> bytes) \<Rightarrow> 'p manual_record \<Rightarrow> u64 \<Rightarrow> bytes \<Rightarrow> nat \<Rightarrow> file_env \<Rightarrow>
     'p manual_record \<times> 'p manual_action list" where
  "mr_write_chunk sha256 r offset data now env =
     (if mr_direction r \<noteq> Receiving then (r, [])
      else if is_terminal (mr_state r)
      then (r, (case mr_final_result r of None \<Rightarrow> [] | Some _ \<Rightarrow> [mr_send r (offer_response r)]))
      else case mr_incoming r of
        None \<Rightarrow> (r, [peer_failure (mr_peer r) (mr_id r) REMOTE_NOT_ACCEPTED_ERROR])
      | Some inc \<Rightarrow>
        if mr_state r \<noteq> MtTransferring
        then (r, [peer_failure (mr_peer r) (mr_id r) REMOTE_NOT_ACCEPTED_ERROR])
        else case checked_add offset (word_of_nat (length data)) of
          None \<Rightarrow> mr_fail r (lit ''invalid file chunk'') True now
        | Some fin \<Rightarrow>
            if data = [] \<or> length data > MAX_MANUAL_FILE_CHUNK_SIZE \<or> fin > mr_size r
            then mr_fail r (lit ''invalid file chunk'') True now
            else if offset \<noteq> mr_transferred r
            then (if offset < mr_transferred r \<and> fin > mr_transferred r
                  then mr_fail r (lit ''overlapping file chunk'') True now
                  else (r, [mr_send r (manual_request (mr_id r) (mr_transferred r))]))
            else (case incoming_write_chunk inc FILE_ID offset data (xe_write env) of
                    (inc', Inl e) \<Rightarrow> mr_fail (r\<lparr>mr_incoming := Some inc'\<rparr>) (local_receive_error e) True now
                  | (inc', Inr _) \<Rightarrow> chunk_written sha256 r inc' fin now env))"

definition complete_receiver ::
  "(bytes \<Rightarrow> bytes) \<Rightarrow> 'p manual_record \<Rightarrow> bytes \<Rightarrow> nat \<Rightarrow> file_env \<Rightarrow>
     'p manual_record \<times> 'p manual_action list" where
  "complete_receiver sha256 r digest now env =
     (if mr_direction r \<noteq> Receiving then (r, [])
      else if is_terminal (mr_state r) then (r, [mr_send r (offer_response r)])
      else case mr_incoming r of
        None \<Rightarrow> (r, [peer_failure (mr_peer r) (mr_id r) REMOTE_NOT_ACCEPTED_ERROR])
      | Some inc \<Rightarrow>
        if mr_state r \<noteq> MtTransferring
        then (r, [peer_failure (mr_peer r) (mr_id r) REMOTE_NOT_ACCEPTED_ERROR])
        else if mr_transferred r \<noteq> mr_size r
        then (if mr_early_digest r \<noteq> None \<and> mr_early_digest r \<noteq> Some digest
              then mr_fail r (lit ''conflicting file digest'') True now
              else let r' = r\<lparr>mr_early_digest := Some digest\<rparr>
                   in (r', [mr_send r' (manual_request (mr_id r') (mr_transferred r'))]))
        else finish_receiver sha256 r inc digest now env)"

definition receive_result ::
  "'p manual_record \<Rightarrow> bool \<Rightarrow> rstring option \<Rightarrow> nat \<Rightarrow> 'p manual_record \<times> 'p manual_action list" where
  "receive_result r success err now =
     (if is_terminal (mr_state r) then (r, [])
      else if \<not> success
      then let r1 = mr_terminal r MtFailed (Some (sanitize_remote_error err)) now;
               r2 = r1\<lparr>mr_retry_event := Some (offer_response r1)\<rparr>
           in (r2, [mr_notify r2])
      else if mr_direction r = Sending \<and> mr_state r = MtTransferring
           \<and> mr_transferred r = mr_size r \<and> mr_final_digest r \<noteq> None
      then let r1 = (mr_terminal r MtCompleted None now)\<lparr>mr_final_result := Some (True, None)\<rparr>;
               r2 = r1\<lparr>mr_retry_event := Some (offer_response r1)\<rparr>
           in (r2, [mr_notify r2])
      else (r, []))"

section \<open>The table of transfers\<close>

definition active_count :: "'p manual_transfers \<Rightarrow> nat" where
  "active_count s = length (filter (\<lambda>(_, r). \<not> is_terminal (mr_state r)) (mt_records s))"

text \<open>\<open>next_transfer_id\<close>: at most sixteen draws.\<close>

fun next_transfer_id_loop ::
  "'p manual_transfers \<Rightarrow> (nat \<Rightarrow> u64 option) \<Rightarrow> nat \<Rightarrow> nat \<Rightarrow> u64 option" where
  "next_transfer_id_loop s random i 0 = None"
| "next_transfer_id_loop s random i (Suc n) =
     (case random i of
        None \<Rightarrow> None
      | Some t \<Rightarrow> if t \<noteq> 0 \<and> \<not> list_ex (\<lambda>(k, _). snd k = t) (mt_records s) then Some t
                 else next_transfer_id_loop s random (Suc i) n)"

definition next_transfer_id :: "'p manual_transfers \<Rightarrow> (nat \<Rightarrow> u64 option) \<Rightarrow> u64 option" where
  "next_transfer_id s random = next_transfer_id_loop s random 0 16"

fun mt_evict ::
  "(record_key, 'p manual_record) hash_map \<Rightarrow> record_key list \<Rightarrow> 'p manual_transfers" where
  "mt_evict records [] = \<lparr>mt_records = records, mt_terminal = []\<rparr>"
| "mt_evict records (oldest # ks) =
     (if length (oldest # ks) > MAX_TERMINAL then mt_evict (hm_remove oldest records) ks
      else \<lparr>mt_records = records, mt_terminal = oldest # ks\<rparr>)"

definition mt_store :: "'p manual_transfers \<Rightarrow> 'p manual_record \<Rightarrow> 'p manual_transfers" where
  "mt_store s r =
     mt_evict (hm_insert (mr_key r) r (mt_records s))
       (if is_terminal (mr_state r) \<and> mr_key r \<notin> set (mt_terminal s)
        then mt_terminal s @ [mr_key r] else mt_terminal s)"

text \<open>The pattern of every operation on one record: take it out of the table, change it, store it.\<close>

definition mt_update ::
  "('p manual_record \<Rightarrow> 'p manual_record \<times> 'p manual_action list) \<Rightarrow> record_key \<Rightarrow> 'p manual_transfers \<Rightarrow>
     'p manual_transfers \<times> 'p manual_action list" where
  "mt_update h key s = (case hm_get (mt_records s) key of
     None \<Rightarrow> (s, [])
   | Some r \<Rightarrow>
       let (r', actions) = h r
       in (mt_store (s\<lparr>mt_records := hm_remove key (mt_records s)\<rparr>) r', actions))"

fun mt_update_all ::
  "('p manual_record \<Rightarrow> 'p manual_record \<times> 'p manual_action list) \<Rightarrow> record_key list \<Rightarrow>
     'p manual_transfers \<Rightarrow> 'p manual_transfers \<times> 'p manual_action list" where
  "mt_update_all h [] s = (s, [])"
| "mt_update_all h (key # keys) s =
     (let (s1, as) = mt_update h key s; (s2, bs) = mt_update_all h keys s1 in (s2, as @ bs))"

section \<open>Offering files\<close>

definition sender_record ::
  "'p \<Rightarrow> rstring \<Rightarrow> u64 \<Rightarrow> source_map file_offer \<Rightarrow> nat \<Rightarrow> 'p manual_record" where
  "sender_record peer fingerprint t offer now =
     (let entry = hd (fo_entries offer) in
      \<lparr>mr_peer = peer, mr_fingerprint = fingerprint, mr_id = t, mr_name = me_path entry,
       mr_size = me_size entry, mr_transferred = 0, mr_direction = Sending, mr_state = MtOffering,
       mr_destination = None, mr_error = None, mr_offer = Some offer, mr_outgoing = None,
       mr_incoming = None, mr_replacement = None, mr_last_activity = now, mr_last_notification = now,
       mr_approval_deadline = now + APPROVAL_TIMEOUT, mr_retries = 0, mr_cached_request = None,
       mr_cached_response = None, mr_retry_event = Some (ManualFileOffer t (me_path entry) (me_size entry)),
       mr_final_digest = None, mr_early_digest = None, mr_final_result = None\<rparr>)"

fun mt_send_files ::
  "'p manual_transfers \<Rightarrow> 'p \<Rightarrow> rstring \<Rightarrow> (rstring \<times> send_env) list \<Rightarrow> nat \<Rightarrow>
     'p manual_transfers \<times> 'p manual_action list" where
  "mt_send_files s peer fingerprint [] now = (s, [])"
| "mt_send_files s peer fingerprint ((path, env) # rest) now =
     (if active_count s \<ge> MAX_RECORDS
      then (s, [MtNotify (ManualTransferError (lit ''too many active file transfers''))])
      else case next_transfer_id s (se_random env) of
        None \<Rightarrow> (s, [MtNotify (ManualTransferError (lit ''could not create a file transfer identifier''))])
      | Some t \<Rightarrow>
        (case se_join env of
           Some e \<Rightarrow>
             (let (s', as) = mt_send_files s peer fingerprint rest now
              in (s', MtNotify (ManualTransferError (lit ''file source preparation failed: '' @ e)) # as))
         | None \<Rightarrow>
        (case from_regular_file (se_fs env) t path of
           Inl e \<Rightarrow>
             (let (s', as) = mt_send_files s peer fingerprint rest now
              in (s', MtNotify (ManualTransferError (local_source_error e)) # as))
         | Inr offer \<Rightarrow>
             (let r = sender_record peer fingerprint t offer now;
                  (s', as) = mt_send_files (mt_store s r) peer fingerprint rest now
              in (s', MtSend peer (ManualFileOffer t (mr_name r) (mr_size r)) # mr_notify r # as)))))"

section \<open>Receiving offers\<close>

definition receiver_record ::
  "'p \<Rightarrow> rstring \<Rightarrow> u64 \<Rightarrow> rstring \<Rightarrow> u64 \<Rightarrow> rstring \<Rightarrow> nat \<Rightarrow> 'p manual_record" where
  "receiver_record peer fingerprint t name sz directory now =
     \<lparr>mr_peer = peer, mr_fingerprint = fingerprint, mr_id = t, mr_name = name, mr_size = sz,
      mr_transferred = 0, mr_direction = Receiving, mr_state = MtAwaitingAcceptance,
      mr_destination = Some directory, mr_error = None, mr_offer = None, mr_outgoing = None,
      mr_incoming = None, mr_replacement = None, mr_last_activity = now, mr_last_notification = now,
      mr_approval_deadline = now + APPROVAL_TIMEOUT, mr_retries = 0, mr_cached_request = None,
      mr_cached_response = None, mr_retry_event = None, mr_final_digest = None,
      mr_early_digest = None, mr_final_result = None\<rparr>"

definition mt_receive_offer ::
  "'p manual_transfers \<Rightarrow> 'p \<Rightarrow> rstring \<Rightarrow> u64 \<Rightarrow> rstring \<Rightarrow> u64 \<Rightarrow> file_receive_settings \<Rightarrow> nat \<Rightarrow>
     prepare_env \<Rightarrow> 'p manual_transfers \<times> 'p manual_action list" where
  "mt_receive_offer s peer fingerprint t name sz settings now env =
     (if t = 0 \<or> \<not> is_ok (validate_manual_file_name name)
      then (s, [peer_failure peer t (lit ''invalid file offer'')])
      else case hm_get (mt_records s) (fingerprint, t) of
        Some r \<Rightarrow>
          if mr_direction r \<noteq> Receiving \<or> mr_name r \<noteq> name \<or> mr_size r \<noteq> sz
          then (s, [peer_failure peer t (lit ''conflicting file offer'')])
          else let r' = r\<lparr>mr_peer := peer\<rparr>
               in (s\<lparr>mt_records := hm_insert (fingerprint, t) r' (mt_records s)\<rparr>,
                   [mr_send r' (offer_response r')])
      | None \<Rightarrow>
        if active_count s \<ge> MAX_RECORDS
        then (s, [peer_failure peer t (lit ''too many active file transfers'')])
        else
          let r = receiver_record peer fingerprint t name sz (rs_download_directory settings) now;
              (r', as) = (if rs_auto_accept settings
                then prepare_receiver r (rs_download_directory settings) now True env
                else (r, [mr_send r (ManualFileDecision t Pending), mr_notify r,
                          MtNotify (IncomingFileOffer (offer_snapshot r))]))
          in (mt_store s r', if as = [] then [mr_notify r'] else as))"

definition mt_accept ::
  "'p manual_transfers \<Rightarrow> rstring \<Rightarrow> u64 \<Rightarrow> rstring \<Rightarrow> nat \<Rightarrow> prepare_env \<Rightarrow>
     'p manual_transfers \<times> 'p manual_action list" where
  "mt_accept s fingerprint t directory now env =
     mt_update (\<lambda>r. prepare_receiver r directory now False env) (fingerprint, t) s"

fun set_destination :: "rstring \<Rightarrow> 'p manual_action \<Rightarrow> 'p manual_action" where
  "set_destination directory (MtNotify (ManualTransferStatus st)) =
     MtNotify (ManualTransferStatus (st\<lparr>st_destination := Some directory\<rparr>))"
| "set_destination directory a = a"

definition mr_overwrite ::
  "'p manual_record \<Rightarrow> rstring \<Rightarrow> nat \<Rightarrow> prepare_env \<Rightarrow> 'p manual_record \<times> 'p manual_action list" where
  "mr_overwrite r directory now env =
     (if mr_direction r \<noteq> Receiving \<or> mr_state r \<noteq> MtAwaitingAcceptance then (r, [])
      else case (if absolute_path directory then pe_staging env else Inl not_absolute) of
        Inl e \<Rightarrow> (let r' = r\<lparr>mr_error := Some (io_message e)\<rparr> in (r', [mr_notify r']))
      | Inr staging \<Rightarrow>
          (let (r1, as) = prepare_receiver r staging now False env in
           if mr_state r1 = MtTransferring
           then (r1\<lparr>mr_destination := Some directory,
                    mr_replacement := Some (staging, path_join directory (mr_name r))\<rparr>,
                 map (set_destination directory) as)
           else (r1, as)))"

definition mt_overwrite ::
  "'p manual_transfers \<Rightarrow> rstring \<Rightarrow> u64 \<Rightarrow> rstring \<Rightarrow> nat \<Rightarrow> prepare_env \<Rightarrow>
     'p manual_transfers \<times> 'p manual_action list" where
  "mt_overwrite s fingerprint t directory now env =
     mt_update (\<lambda>r. mr_overwrite r directory now env) (fingerprint, t) s"

section \<open>Protocol messages\<close>

fun manual_event_id :: "proto_event \<Rightarrow> u64 option" where
  "manual_event_id (ManualFileDecision t _) = Some t"
| "manual_event_id (ManualFileRequest t _ _) = Some t"
| "manual_event_id (ManualFileChunk t _ _) = Some t"
| "manual_event_id (ManualFileComplete t _) = Some t"
| "manual_event_id (ManualFileResult t _ _) = Some t"
| "manual_event_id (ManualFileCancel t) = Some t"
| "manual_event_id _ = None"

definition unknown_record_answer :: "'p \<Rightarrow> proto_event \<Rightarrow> 'p manual_action list" where
  "unknown_record_answer peer event = (case event of
     ManualFileRequest t _ _ \<Rightarrow> [peer_failure peer t REMOTE_NOT_ACCEPTED_ERROR]
   | ManualFileChunk t _ _ \<Rightarrow> [peer_failure peer t REMOTE_NOT_ACCEPTED_ERROR]
   | ManualFileComplete t _ \<Rightarrow> [peer_failure peer t REMOTE_NOT_ACCEPTED_ERROR]
   | ManualFileDecision t Accepted \<Rightarrow> [MtSend peer (ManualFileCancel t)]
   | _ \<Rightarrow> [])"

definition mr_handle ::
  "(bytes \<Rightarrow> bytes) \<Rightarrow> 'p manual_record \<Rightarrow> proto_event \<Rightarrow> nat \<Rightarrow> file_env \<Rightarrow>
     'p manual_record \<times> 'p manual_action list" where
  "mr_handle sha256 r event now env = (case event of
     ManualFileDecision _ decision \<Rightarrow> mr_decision r decision now
   | ManualFileRequest _ offset len \<Rightarrow> mr_send_chunk sha256 r offset len now env
   | ManualFileChunk _ offset data \<Rightarrow> mr_write_chunk sha256 r offset data now env
   | ManualFileComplete _ digest \<Rightarrow> complete_receiver sha256 r digest now env
   | ManualFileResult _ success err \<Rightarrow> receive_result r success err now
   | ManualFileCancel _ \<Rightarrow>
       (if is_terminal (mr_state r) then (r, [])
        else let r' = mr_terminal r MtCancelled None now in (r', [mr_notify r']))
   | _ \<Rightarrow> (r, []))"

definition mt_handle_protocol ::
  "(bytes \<Rightarrow> bytes) \<Rightarrow> 'p manual_transfers \<Rightarrow> 'p \<Rightarrow> rstring \<Rightarrow> proto_event \<Rightarrow> file_receive_settings \<Rightarrow>
     nat \<Rightarrow> prepare_env \<Rightarrow> file_env \<Rightarrow> 'p manual_transfers \<times> 'p manual_action list" where
  "mt_handle_protocol sha256 s peer fingerprint event settings now penv env = (case event of
     ManualFileOffer t name sz \<Rightarrow> mt_receive_offer s peer fingerprint t name sz settings now penv
   | _ \<Rightarrow> (case manual_event_id event of
       None \<Rightarrow> (s, [])
     | Some t \<Rightarrow>
         if hm_get (mt_records s) (fingerprint, t) = None then (s, unknown_record_answer peer event)
         else mt_update (\<lambda>r. mr_handle sha256 (r\<lparr>mr_peer := peer\<rparr>) event now env) (fingerprint, t) s))"

section \<open>User decisions, timers and routes\<close>

definition mr_decline :: "'p manual_record \<Rightarrow> nat \<Rightarrow> 'p manual_record \<times> 'p manual_action list" where
  "mr_decline r now =
     (if mr_direction r = Receiving \<and> mr_state r = MtAwaitingAcceptance
      then let r' = mr_terminal r MtDeclined None now
           in (r', [mr_send r' (ManualFileDecision (mr_id r) Declined), mr_notify r'])
      else (r, []))"

definition mt_decline ::
  "'p manual_transfers \<Rightarrow> rstring \<Rightarrow> u64 \<Rightarrow> nat \<Rightarrow> 'p manual_transfers \<times> 'p manual_action list" where
  "mt_decline s fingerprint t now = mt_update (\<lambda>r. mr_decline r now) (fingerprint, t) s"

definition mr_cancel :: "'p manual_record \<Rightarrow> nat \<Rightarrow> 'p manual_record \<times> 'p manual_action list" where
  "mr_cancel r now =
     (if \<not> is_terminal (mr_state r)
      then let r' = mr_terminal r MtCancelled None now
           in (r', [mr_send r' (ManualFileCancel (mr_id r)), mr_notify r'])
      else (r, []))"

definition mt_cancel ::
  "'p manual_transfers \<Rightarrow> rstring \<Rightarrow> u64 \<Rightarrow> nat \<Rightarrow> 'p manual_transfers \<times> 'p manual_action list" where
  "mt_cancel s fingerprint t now = mt_update (\<lambda>r. mr_cancel r now) (fingerprint, t) s"

definition mr_retry :: "'p manual_record \<Rightarrow> nat \<Rightarrow> 'p manual_record \<times> 'p manual_action list" where
  "mr_retry r now =
     (let r' = r\<lparr>mr_retries := mr_retries r + 1, mr_last_activity := now\<rparr>
      in (r', (case mr_retry_event r of None \<Rightarrow> [] | Some event \<Rightarrow> [mr_send r' event])))"

definition mr_expire ::
  "'p manual_record \<Rightarrow> rstring \<Rightarrow> nat \<Rightarrow> 'p manual_record \<times> 'p manual_action list" where
  "mr_expire r err now =
     (let r' = mr_terminal r MtFailed (Some err) now
      in (r', [mr_send r (ManualFileCancel (mr_id r)), mr_notify r']))"

definition mr_tick :: "'p manual_record \<Rightarrow> nat \<Rightarrow> 'p manual_record \<times> 'p manual_action list" where
  "mr_tick r now =
     (if is_terminal (mr_state r)
      then (if mr_retries r < MAX_RETRIES \<and> now - mr_last_activity r \<ge> RETRY_TIMEOUT
            then mr_retry r now else (r, []))
      else if (mr_state r = MtOffering \<or> mr_state r = MtAwaitingAcceptance) \<and> now \<ge> mr_approval_deadline r
      then mr_expire r (lit ''file offer expired'') now
      else if mr_state r \<noteq> MtAwaitingAcceptance \<and> now - mr_last_activity r \<ge> RETRY_TIMEOUT
      then (if mr_retries r \<ge> MAX_RETRIES then mr_expire r (lit ''file transfer timed out'') now
            else mr_retry r now)
      else (r, []))"

definition mt_tick :: "'p manual_transfers \<Rightarrow> nat \<Rightarrow> 'p manual_transfers \<times> 'p manual_action list" where
  "mt_tick s now = mt_update_all (\<lambda>r. mr_tick r now) (map fst (mt_records s)) s"

definition mr_refresh ::
  "(rstring, 'p) hash_map \<Rightarrow> nat \<Rightarrow> 'p manual_record \<Rightarrow> 'p manual_record \<times> 'p manual_action list" where
  "mr_refresh routes now r = (case hm_get routes (mr_fingerprint r) of
     Some peer \<Rightarrow> (r\<lparr>mr_peer := peer\<rparr>, [])
   | None \<Rightarrow>
       if \<not> is_terminal (mr_state r)
       then let r' = mr_terminal r MtFailed (Some (lit ''peer disconnected'')) now in (r', [mr_notify r'])
       else (r, []))"

definition mt_refresh_routes ::
  "'p manual_transfers \<Rightarrow> (rstring, 'p) hash_map \<Rightarrow> nat \<Rightarrow> 'p manual_transfers \<times> 'p manual_action list" where
  "mt_refresh_routes s routes now = mt_update_all (mr_refresh routes now) (map fst (mt_records s)) s"

section \<open>Views\<close>

definition mt_snapshot :: "'p manual_transfers \<Rightarrow> manual_status list" where
  "mt_snapshot s = map mr_status (sort_key mr_approval_deadline (map snd (mt_records s)))"

definition mt_pending_offers :: "'p manual_transfers \<Rightarrow> incoming_file_offer list" where
  "mt_pending_offers s = map offer_snapshot (sort_key mr_approval_deadline
     (filter (\<lambda>r. mr_direction r = Receiving \<and> mr_state r = MtAwaitingAcceptance)
        (map snd (mt_records s))))"

end
