(* ===== verification/Manual_Invariant.thy ===== *)
theory Manual_Invariant
  imports Manual_Transfer
begin

text \<open>
  What every operation on a record of a manual transfer keeps: the fields that identify the transfer,
  the end of a finished one, and the agreement of the record with the file it reads or writes. An
  operation with these laws is a \<open>record_operation\<close>; the table of transfers relies on nothing else.
\<close>

section \<open>Records\<close>

definition source_ok :: "'p manual_record \<Rightarrow> outgoing \<Rightarrow> bool" where
  "source_ok r og \<longleftrightarrow> og_file_id og = FILE_ID \<and> og_size og = mr_size r \<and> og_offset og = mr_transferred r
     \<and> \<not> og_cancelled og \<and> length (og_hasher og) = unat (mr_transferred r)"

definition target_ok :: "'p manual_record \<Rightarrow> incoming \<Rightarrow> bool" where
  "target_ok r inc \<longleftrightarrow> \<not> in_cancelled inc
     \<and> (\<exists>content. file_holds inc FILE_ID (mr_size r) content \<and> length content = unat (mr_transferred r))"

definition rec_ok :: "'p manual_record \<Rightarrow> bool" where
  "rec_ok r \<longleftrightarrow> mr_retries r \<le> MAX_RETRIES \<and> mr_transferred r \<le> mr_size r
     \<and> (is_terminal (mr_state r) \<longrightarrow>
          mr_offer r = None \<and> mr_outgoing r = None \<and> mr_incoming r = None \<and> mr_replacement r = None)
     \<and> (mr_direction r = Receiving \<longrightarrow> mr_state r \<noteq> MtOffering \<and> mr_offer r = None \<and> mr_outgoing r = None
          \<and> (mr_state r = MtTransferring \<longleftrightarrow> mr_incoming r \<noteq> None)
          \<and> (mr_state r = MtAwaitingAcceptance \<longrightarrow> mr_transferred r = 0)
          \<and> (\<forall>inc. mr_incoming r = Some inc \<longrightarrow> target_ok r inc))
     \<and> (mr_direction r = Sending \<longrightarrow> mr_incoming r = None \<and> mr_replacement r = None
          \<and> (\<not> is_terminal (mr_state r) \<longrightarrow> mr_offer r \<noteq> None)
          \<and> (\<forall>offer. mr_offer r = Some offer \<longrightarrow> fo_entries offer =
               [\<lparr>me_file_id = FILE_ID, me_path = mr_name r, me_kind = File, me_size = mr_size r\<rparr>])
          \<and> (\<forall>og. mr_outgoing r = Some og \<longrightarrow> source_ok r og)
          \<and> (mr_outgoing r = None \<and> \<not> is_terminal (mr_state r) \<longrightarrow> mr_transferred r = 0))"

definition rec_step :: "'p manual_record \<Rightarrow> 'p manual_record \<Rightarrow> bool" where
  "rec_step r r' \<longleftrightarrow> mr_key r' = mr_key r \<and> mr_name r' = mr_name r \<and> mr_size r' = mr_size r
     \<and> mr_direction r' = mr_direction r \<and> mr_approval_deadline r' = mr_approval_deadline r
     \<and> (is_terminal (mr_state r) \<longrightarrow> mr_state r' = mr_state r \<and> mr_error r' = mr_error r
          \<and> mr_transferred r' = mr_transferred r \<and> mr_final_result r' = mr_final_result r)"

definition rec_keeps :: "'p manual_record \<Rightarrow> 'p manual_record \<Rightarrow> bool" where
  "rec_keeps r r' \<longleftrightarrow> rec_ok r' \<and> rec_step r r'"

lemma is_terminal_iff: "is_terminal st \<longleftrightarrow> st \<in> {MtCompleted, MtDeclined, MtCancelled, MtFailed}"
  by (cases st) auto

lemma rec_step_refl [simp]: "rec_step r r"
  by (simp add: rec_step_def)

lemma rec_keeps_refl [simp]: "rec_keeps r r \<longleftrightarrow> rec_ok r"
  by (simp add: rec_keeps_def)

text \<open>Changes of the fields that only timers, caches and views use.\<close>

lemma rec_ok_minor [simp]:
  "rec_ok (r\<lparr>mr_peer := x_peer\<rparr>) = rec_ok r"
  "rec_ok (r\<lparr>mr_retry_event := x_retry_event\<rparr>) = rec_ok r"
  "rec_ok (r\<lparr>mr_last_activity := x_last_activity\<rparr>) = rec_ok r"
  "rec_ok (r\<lparr>mr_last_notification := x_last_notification\<rparr>) = rec_ok r"
  "rec_ok (r\<lparr>mr_cached_request := x_cached_request\<rparr>) = rec_ok r"
  "rec_ok (r\<lparr>mr_cached_response := x_cached_response\<rparr>) = rec_ok r"
  "rec_ok (r\<lparr>mr_final_digest := x_final_digest\<rparr>) = rec_ok r"
  "rec_ok (r\<lparr>mr_early_digest := x_early_digest\<rparr>) = rec_ok r"
  "rec_ok (r\<lparr>mr_destination := x_destination\<rparr>) = rec_ok r"
  "rec_ok (r\<lparr>mr_error := x_error\<rparr>) = rec_ok r"
  "rec_ok (r\<lparr>mr_final_result := x_final_result\<rparr>) = rec_ok r"
  "rec_ok r \<Longrightarrow> n \<le> MAX_RETRIES \<Longrightarrow> rec_ok (r\<lparr>mr_retries := n\<rparr>)"
  by (simp_all add: rec_ok_def source_ok_def target_ok_def)

lemma rec_step_minor [simp]:
  "rec_step q (r\<lparr>mr_peer := x_peer\<rparr>) = rec_step q r"
  "rec_step q (r\<lparr>mr_retry_event := x_retry_event\<rparr>) = rec_step q r"
  "rec_step q (r\<lparr>mr_last_activity := x_last_activity\<rparr>) = rec_step q r"
  "rec_step q (r\<lparr>mr_last_notification := x_last_notification\<rparr>) = rec_step q r"
  "rec_step q (r\<lparr>mr_cached_request := x_cached_request\<rparr>) = rec_step q r"
  "rec_step q (r\<lparr>mr_cached_response := x_cached_response\<rparr>) = rec_step q r"
  "rec_step q (r\<lparr>mr_final_digest := x_final_digest\<rparr>) = rec_step q r"
  "rec_step q (r\<lparr>mr_early_digest := x_early_digest\<rparr>) = rec_step q r"
  "rec_step q (r\<lparr>mr_destination := x_destination\<rparr>) = rec_step q r"
  "rec_step q (r\<lparr>mr_retries := x_retries\<rparr>) = rec_step q r"
  "rec_step q (r\<lparr>mr_replacement := x_replacement\<rparr>) = rec_step q r"
  "\<not> is_terminal (mr_state q) \<Longrightarrow> rec_step q (r\<lparr>mr_error := e\<rparr>) = rec_step q r"
  "\<not> is_terminal (mr_state q) \<Longrightarrow> rec_step q (r\<lparr>mr_final_result := fr\<rparr>) = rec_step q r"
  "\<not> is_terminal (mr_state q) \<Longrightarrow> rec_step q (r\<lparr>mr_state := st\<rparr>) = rec_step q r"
  by (simp_all add: rec_step_def mr_key_def)

lemma rec_keeps_minor:
  "rec_keeps q r \<Longrightarrow> rec_keeps q (r\<lparr>mr_peer := x_peer\<rparr>)"
  "rec_keeps q r \<Longrightarrow> rec_keeps q (r\<lparr>mr_retry_event := x_retry_event\<rparr>)"
  "rec_keeps q r \<Longrightarrow> rec_keeps q (r\<lparr>mr_last_activity := x_last_activity\<rparr>)"
  "rec_keeps q r \<Longrightarrow> rec_keeps q (r\<lparr>mr_last_notification := x_last_notification\<rparr>)"
  "rec_keeps q r \<Longrightarrow> rec_keeps q (r\<lparr>mr_cached_request := x_cached_request\<rparr>)"
  "rec_keeps q r \<Longrightarrow> rec_keeps q (r\<lparr>mr_cached_response := x_cached_response\<rparr>)"
  "rec_keeps q r \<Longrightarrow> rec_keeps q (r\<lparr>mr_final_digest := x_final_digest\<rparr>)"
  "rec_keeps q r \<Longrightarrow> rec_keeps q (r\<lparr>mr_early_digest := x_early_digest\<rparr>)"
  "rec_keeps q r \<Longrightarrow> rec_keeps q (r\<lparr>mr_destination := x_destination\<rparr>)"
  "rec_keeps q r \<Longrightarrow> n \<le> MAX_RETRIES \<Longrightarrow> rec_keeps q (r\<lparr>mr_retries := n\<rparr>)"
  "rec_keeps q r \<Longrightarrow> \<not> is_terminal (mr_state q) \<Longrightarrow> rec_keeps q (r\<lparr>mr_error := e\<rparr>)"
  "rec_keeps q r \<Longrightarrow> \<not> is_terminal (mr_state q) \<Longrightarrow> rec_keeps q (r\<lparr>mr_final_result := fr\<rparr>)"
  by (simp_all add: rec_keeps_def)

lemma sender_state_keeps:
  "rec_keeps q r \<Longrightarrow> \<not> is_terminal (mr_state q) \<Longrightarrow> mr_direction r = Sending \<Longrightarrow> \<not> is_terminal (mr_state r) \<Longrightarrow>
     \<not> is_terminal st \<Longrightarrow> rec_keeps q (r\<lparr>mr_state := st\<rparr>)"
  by (simp add: rec_keeps_def rec_ok_def source_ok_def)

lemma mr_terminal_keeps:
  "rec_keeps r r' \<Longrightarrow> \<not> is_terminal (mr_state r) \<Longrightarrow> is_terminal st \<Longrightarrow> rec_keeps r (mr_terminal r' st e now)"
  by (cases st) (auto simp: rec_keeps_def rec_ok_def rec_step_def mr_key_def mr_terminal_def)

lemma mr_fail_keeps:
  "rec_keeps r r' \<Longrightarrow> \<not> is_terminal (mr_state r) \<Longrightarrow> rec_keeps r (fst (mr_fail r' e b now))"
  by (simp add: mr_fail_def Let_def rec_keeps_minor mr_terminal_keeps)

lemma mr_progress_keeps: "rec_keeps r r' \<Longrightarrow> rec_keeps r (fst (mr_progress r' now))"
  by (simp add: mr_progress_def Let_def rec_keeps_minor)

lemmas keeps_intros = rec_keeps_minor mr_terminal_keeps mr_fail_keeps mr_progress_keeps

section \<open>The receiver prepares\<close>

lemma receiver_preparation_Inr:
  assumes "receiver_preparation r directory env = Inr inc"
  shows "file_holds inc FILE_ID (mr_size r) [] \<and> \<not> in_cancelled inc"
proof -
  let ?e = "\<lparr>me_file_id = FILE_ID, me_path = mr_name r, me_kind = File, me_size = mr_size r\<rparr>"
  from assms obtain inc0 where n: "incoming_new (mr_id r) [?e] (pe_canonical env) None = Inr inc0"
    and q: "(case incoming_prepare (pe_fs env) (pe_disk env) inc0 of (_, inc', res) \<Rightarrow> rbind res (\<lambda>_. Inr inc')) = Inr inc"
    by (simp add: receiver_preparation_def rbind_eq_Inr_iff Let_def split: if_splits option.splits) blast
  obtain d' reqs where p: "incoming_prepare (pe_fs env) (pe_disk env) inc0 = (d', inc, Inr reqs)"
    using q by (cases "incoming_prepare (pe_fs env) (pe_disk env) inc0") (auto simp: rbind_eq_Inr_iff)
  from n obtain dest where "pe_canonical env = Inr dest" by (auto simp: incoming_new_def split: sum.splits if_splits)
  with n have "incoming_new (mr_id r) [?e] (Inr dest) None = Inr inc0" by simp
  from incoming_prepare_holds [OF this p, of ?e] show ?thesis by simp
qed

lemma receiver_prepared_keeps:
  assumes "rec_ok r" "mr_direction r = Receiving" "mr_state r = MtAwaitingAcceptance"
    "receiver_preparation r directory env = Inr inc"
  shows "rec_keeps r (fst (receiver_prepared r inc now))"
  using assms receiver_preparation_Inr [OF assms(4)]
  by (auto simp: receiver_prepared_def Let_def rec_keeps_def rec_ok_def rec_step_def mr_key_def target_ok_def)

lemma prepare_receiver_keeps: "rec_ok r \<Longrightarrow> rec_keeps r (fst (prepare_receiver r directory now automatic env))"
proof (cases "mr_direction r \<noteq> Receiving \<or> mr_state r \<noteq> MtAwaitingAcceptance \<or> now \<ge> mr_approval_deadline r")
  case True
  assume "rec_ok r"
  with True show ?thesis by (auto simp: prepare_receiver_def intro!: mr_fail_keeps)
next
  case False
  assume ok: "rec_ok r"
  show ?thesis
  proof (cases "receiver_preparation r directory env")
    case (Inl e)
    with False ok show ?thesis
      by (auto simp: prepare_receiver_def Let_def intro!: keeps_intros)
  next
    case (Inr inc)
    with False ok receiver_prepared_keeps [OF ok _ _ Inr] show ?thesis by (simp add: prepare_receiver_def)
  qed
qed

lemma mr_overwrite_keeps: "rec_ok r \<Longrightarrow> rec_keeps r (fst (mr_overwrite r directory now env))"
proof -
  assume ok: "rec_ok r"
  have *: "rec_keeps r (r'\<lparr>mr_destination := d, mr_replacement := Some x\<rparr>)"
    if "rec_keeps r r'" "mr_state r' = MtTransferring" "mr_direction r = Receiving" for r' d x
    using that by (auto simp: rec_keeps_def rec_ok_def rec_step_def mr_key_def source_ok_def target_ok_def)
  show ?thesis
    using ok prepare_receiver_keeps [OF ok]
    by (auto simp: mr_overwrite_def Let_def split: sum.split prod.split intro!: * keeps_intros)
      (metis fst_conv)+
qed

section \<open>The sender\<close>

lemma mr_decision_keeps: "rec_ok r \<Longrightarrow> rec_keeps r (fst (mr_decision r decision now))"
proof -
  assume ok: "rec_ok r"
  show ?thesis using ok
    by (auto simp: mr_decision_def Let_def split: transfer_direction.split manual_decision.split
        intro!: keeps_intros sender_state_keeps)
qed

lemma sender_open_ok:
  assumes ok: "rec_ok r" and d: "mr_direction r = Sending" and nt: "\<not> is_terminal (mr_state r)"
    and o: "sender_open r env = Inr og"
  shows "source_ok r og"
proof (cases "mr_outgoing r")
  case None
  with ok d nt obtain offer where offer: "mr_offer r = Some offer" and z: "mr_transferred r = 0"
    and e: "fo_entries offer = [\<lparr>me_file_id = FILE_ID, me_path = mr_name r, me_kind = File, me_size = mr_size r\<rparr>]"
    by (auto simp: rec_ok_def)
  from o None offer have "offer_open offer FILE_ID 0 env = Inr og" by (simp add: sender_open_def split: sum.splits)
  with e z show ?thesis
    by (auto simp: offer_open_def source_ok_def split: option.splits sum.splits if_splits)
next
  case (Some og')
  with ok d o show ?thesis by (auto simp: sender_open_def rec_ok_def)
qed

lemma sender_read_Inl:
  "sender_read sha256 r og offset len env = (r', Inl e) \<Longrightarrow> \<exists>x. r' = r\<lparr>mr_outgoing := x\<rparr>"
  by (auto simp: sender_read_def split: if_splits sum.splits prod.splits option.splits)

lemma sender_read_keeps:
  assumes ok: "rec_ok r" and d: "mr_direction r = Sending" and nt: "\<not> is_terminal (mr_state r)"
    and og: "source_ok r og" and off: "offset = mr_transferred r"
    and s: "sender_read sha256 r og offset len env = (r', Inr response)"
  shows "rec_keeps r r'"
proof (cases "offset = mr_size r")
  case True
  with s obtain digest where "r' = r\<lparr>mr_outgoing := Some og, mr_final_digest := Some digest\<rparr>"
    by (auto simp: sender_read_def split: sum.splits)
  with ok d nt og show ?thesis by (auto simp: rec_keeps_def rec_ok_def rec_step_def mr_key_def source_ok_def)
next
  case False
  obtain og' res where n: "next_chunk_bounded og (unat len) (xe_read env) = (og', res)" by (rule prod.exhaust)
  with s False obtain x data where res: "res = Inr (Some (x, data))"
    and r': "r' = r\<lparr>mr_outgoing := Some og', mr_transferred := offset + word_of_nat (length data)\<rparr>"
    by (auto simp: sender_read_def split: sum.splits option.splits if_splits)
  have le: "og_offset og \<le> og_size og" using ok og by (simp add: rec_ok_def source_ok_def)
  note c = next_chunk_bounded_Inr [OF n [unfolded res] le]
  have "source_ok r' og'" "mr_transferred r' \<le> mr_size r'"
    using c(4-6) og off r' by (simp_all add: source_ok_def)
  with ok d nt r' show ?thesis by (auto simp: rec_keeps_def rec_ok_def rec_step_def mr_key_def)
qed

lemma sender_respond_keeps: "rec_keeps q r \<Longrightarrow> rec_keeps q (fst (sender_respond r offset len response now))"
  by (auto simp: sender_respond_def Let_def case_prod_unfold intro!: keeps_intros)

lemma mr_terminal_cleared [simp]:
  "mr_terminal (r\<lparr>mr_outgoing := x\<rparr>) st e now = mr_terminal r st e now"
  "mr_terminal (r\<lparr>mr_incoming := y\<rparr>) st e now = mr_terminal r st e now"
  by (cases st; simp add: mr_terminal_def)+

lemma mr_fail_cleared [simp]:
  "mr_fail (r\<lparr>mr_outgoing := x\<rparr>) e b now = mr_fail r e b now"
  "mr_fail (r\<lparr>mr_incoming := y\<rparr>) e b now = mr_fail r e b now"
  by (simp_all add: mr_fail_def)

lemma pair_case_miss: "\<not> (b \<and> x \<noteq> None) \<Longrightarrow> (case (b, x) of (True, Some y) \<Rightarrow> f y | _ \<Rightarrow> z) = z"
  by (cases b; cases x) auto

lemma mr_send_chunk_keeps: "rec_ok r \<Longrightarrow> rec_keeps r (fst (mr_send_chunk sha256 r offset len now env))"
proof -
  assume ok: "rec_ok r"
  let ?sent = "if offset < mr_transferred r then (r, [])
    else if offset \<noteq> mr_transferred r then mr_fail r (lit ''unexpected file offset'') True now
    else case sender_open r (xe_open env) of Inl e \<Rightarrow> mr_fail r e True now
      | Inr og \<Rightarrow> (case sender_read sha256 r og offset len env of
           (r1, Inl e) \<Rightarrow> mr_fail r1 (local_source_error e) True now
         | (r1, Inr response) \<Rightarrow> sender_respond r1 offset len response now)"
  have sent: "rec_keeps r (fst ?sent)" if d: "mr_direction r = Sending" and nt: "\<not> is_terminal (mr_state r)"
  proof (cases "offset = mr_transferred r")
    case False
    with ok nt show ?thesis by (auto intro!: mr_fail_keeps)
  next
    case True
    show ?thesis
    proof (cases "sender_open r (xe_open env)")
      case (Inl e)
      with True ok nt show ?thesis by (simp add: mr_fail_keeps)
    next
      case (Inr og)
      note og = sender_open_ok [OF ok d nt Inr]
      obtain r1 res where s: "sender_read sha256 r og offset len env = (r1, res)" by (rule prod.exhaust)
      show ?thesis
      proof (cases res)
        case (Inl e)
        with sender_read_Inl [OF s [unfolded Inl]] True \<open>sender_open r _ = _\<close> s ok nt show ?thesis
          by (auto simp: mr_fail_keeps)
      next
        case (Inr response)
        with sender_read_keeps [OF ok d nt og True s [unfolded Inr]] True \<open>sender_open r _ = _\<close> s
        show ?thesis by (simp add: sender_respond_keeps)
      qed
    qed
  qed
  have cached: "rec_keeps r (r\<lparr>mr_last_activity := now, mr_retries := 0\<rparr>)" using ok by (auto intro!: keeps_intros)
  show ?thesis
  proof (cases "is_terminal (mr_state r) \<or> mr_direction r \<noteq> Sending \<or> mr_state r \<noteq> MtTransferring
      \<or> len = 0 \<or> unat len > MAX_MANUAL_FILE_CHUNK_SIZE \<or> offset > mr_size r")
    case True
    with ok show ?thesis by (auto simp: mr_send_chunk_def intro!: mr_fail_keeps)
  next
    case False
    then have eq: "mr_send_chunk sha256 r offset len now env =
      (case (mr_cached_request r = Some (offset, len), mr_cached_response r) of
        (True, Some response) \<Rightarrow> (r\<lparr>mr_last_activity := now, mr_retries := 0\<rparr>, [mr_send r response])
      | _ \<Rightarrow> ?sent)" by (simp add: mr_send_chunk_def)
    show ?thesis
    proof (cases "mr_cached_request r = Some (offset, len) \<and> mr_cached_response r \<noteq> None")
      case True
      with eq cached show ?thesis by auto
    next
      case False
      then have "mr_send_chunk sha256 r offset len now env = ?sent"
        unfolding eq by (rule pair_case_miss)
      with sent \<open>\<not> (is_terminal _ \<or> _)\<close> show ?thesis by auto
    qed
  qed
qed

section \<open>The receiver writes\<close>

lemma target_step:
  assumes ok: "rec_ok r" and d: "mr_direction r = Receiving" and st: "mr_state r = MtTransferring"
    and inc: "mr_incoming r = Some inc" and off: "offset = mr_transferred r"
    and fin: "checked_add offset (word_of_nat (length data)) = Some fin" "fin \<le> mr_size r"
    and w: "incoming_write_chunk inc FILE_ID offset data err = (inc', Inr u)"
    and len: "length data \<le> MAX_MANUAL_FILE_CHUNK_SIZE"
  shows "rec_ok (r\<lparr>mr_incoming := Some inc', mr_transferred := fin\<rparr>)"
proof -
  from ok d inc obtain content where h: "file_holds inc FILE_ID (mr_size r) content"
    and l: "length content = unat (mr_transferred r)" and c: "\<not> in_cancelled inc"
    by (auto simp: rec_ok_def target_ok_def)
  from incoming_write_chunk_holds [OF h w] have "file_holds inc' FILE_ID (mr_size r) (content @ data)" by simp
  moreover have "unat fin = length (content @ data)"
    using fin(1) l off len by (simp add: checked_add_Some_iff unat_of_nat const_defs)
  moreover have "\<not> in_cancelled inc'" using incoming_write_chunk_cancelled [OF w] c by simp
  ultimately show ?thesis using ok d st fin(2) by (auto simp: rec_ok_def target_ok_def)
qed

lemma finish_receiver_keeps:
  "rec_keeps q r \<Longrightarrow> \<not> is_terminal (mr_state q) \<Longrightarrow> rec_keeps q (fst (finish_receiver sha256 r inc digest now env))"
  by (auto simp: finish_receiver_def Let_def case_prod_unfold split: sum.split option.split intro!: keeps_intros)

lemma chunk_written_keeps:
  assumes ok: "rec_ok (r\<lparr>mr_incoming := Some inc, mr_transferred := fin\<rparr>)"
    and nt: "\<not> is_terminal (mr_state r)"
  shows "rec_keeps r (fst (chunk_written sha256 r inc fin now env))"
proof -
  have "rec_keeps r (r\<lparr>mr_incoming := Some inc, mr_transferred := fin\<rparr>)"
    using ok nt by (simp add: rec_keeps_def rec_step_def mr_key_def)
  with nt show ?thesis
    by (auto simp: chunk_written_def Let_def case_prod_unfold split: bool.split option.split
        intro!: finish_receiver_keeps keeps_intros)
qed

lemma mr_write_chunk_keeps: "rec_ok r \<Longrightarrow> rec_keeps r (fst (mr_write_chunk sha256 r offset data now env))"
proof -
  assume ok: "rec_ok r"
  show ?thesis
  proof (cases "mr_direction r = Receiving \<and> mr_state r = MtTransferring")
    case False
    with ok show ?thesis
      by (auto simp: mr_write_chunk_def split: option.split intro!: mr_fail_keeps)
  next
    case True
    with ok obtain inc where inc: "mr_incoming r = Some inc" by (auto simp: rec_ok_def)
    have nt: "\<not> is_terminal (mr_state r)" using True by simp
    have fail: "rec_keeps r (fst (mr_fail r e b now))" for e b using ok nt by (simp add: mr_fail_keeps)
    show ?thesis
    proof (cases "checked_add offset (word_of_nat (length data))")
      case None
      with True inc fail show ?thesis by (simp add: mr_write_chunk_def)
    next
      case (Some fin)
      show ?thesis
      proof (cases "data = [] \<or> length data > MAX_MANUAL_FILE_CHUNK_SIZE \<or> fin > mr_size r \<or> offset \<noteq> mr_transferred r")
        case bad: True
        with True inc fail Some ok show ?thesis by (auto simp: mr_write_chunk_def)
      next
        case False
        obtain inc' res where w: "incoming_write_chunk inc FILE_ID offset data (xe_write env) = (inc', res)"
          by (rule prod.exhaust)
        show ?thesis
        proof (cases res)
          case (Inl e)
          with True inc fail Some False w show ?thesis by (simp add: mr_write_chunk_def)
        next
          case (Inr u)
          have "rec_ok (r\<lparr>mr_incoming := Some inc', mr_transferred := fin\<rparr>)"
            using target_step [OF ok _ _ inc _ Some _ w [unfolded Inr]] True False by (simp add: not_less)
          from chunk_written_keeps [OF this nt] True inc Some False w Inr show ?thesis
            by (simp add: mr_write_chunk_def)
        qed
      qed
    qed
  qed
qed

lemma complete_receiver_keeps: "rec_ok r \<Longrightarrow> rec_keeps r (fst (complete_receiver sha256 r digest now env))"
  by (auto simp: complete_receiver_def Let_def split: option.split intro!: finish_receiver_keeps keeps_intros)

lemma receive_result_keeps: "rec_ok r \<Longrightarrow> rec_keeps r (fst (receive_result r success err now))"
  by (auto simp: receive_result_def Let_def intro!: keeps_intros)

lemma mr_handle_keeps: "rec_ok r \<Longrightarrow> rec_keeps r (fst (mr_handle sha256 (r\<lparr>mr_peer := p\<rparr>) event now env))"
proof -
  assume ok: "rec_ok r"
  let ?r = "r\<lparr>mr_peer := p\<rparr>"
  have "rec_ok ?r" using ok by simp
  then have "rec_keeps ?r (fst (mr_handle sha256 ?r event now env))"
    by (cases event) (auto simp: mr_handle_def Let_def mr_decision_keeps mr_send_chunk_keeps mr_write_chunk_keeps
        complete_receiver_keeps receive_result_keeps intro!: mr_terminal_keeps)
  then show ?thesis by (simp add: rec_keeps_def rec_step_def mr_key_def)
qed

section \<open>Decisions of the user, timers and routes\<close>

lemma mr_decline_keeps: "rec_ok r \<Longrightarrow> rec_keeps r (fst (mr_decline r now))"
  by (auto simp: mr_decline_def Let_def intro!: mr_terminal_keeps)

lemma mr_cancel_keeps: "rec_ok r \<Longrightarrow> rec_keeps r (fst (mr_cancel r now))"
  by (auto simp: mr_cancel_def Let_def intro!: mr_terminal_keeps)

lemma mr_tick_keeps: "rec_ok r \<Longrightarrow> rec_keeps r (fst (mr_tick r now))"
  by (auto simp: mr_tick_def mr_retry_def mr_expire_def Let_def intro!: keeps_intros)

lemma mr_refresh_keeps: "rec_ok r \<Longrightarrow> rec_keeps r (fst (mr_refresh routes now r))"
  by (auto simp: mr_refresh_def Let_def split: option.split intro!: keeps_intros)

section \<open>The table\<close>

declare split_paired_All [simp del] split_paired_Ex [simp del]

abbreviation active_rec :: "record_key \<times> 'p manual_record \<Rightarrow> bool" where
  "active_rec \<equiv> \<lambda>(_, r). \<not> is_terminal (mr_state r)"

definition records_ok :: "(record_key, 'p manual_record) hash_map \<Rightarrow> bool" where
  "records_ok recs \<longleftrightarrow> hm_ok recs \<and> (\<forall>k r. hm_get recs k = Some r \<longrightarrow> mr_key r = k \<and> rec_ok r)"

definition table_ok :: "(record_key, 'p manual_record) hash_map \<Rightarrow> record_key list \<Rightarrow> bool" where
  "table_ok recs ended \<longleftrightarrow> records_ok recs \<and> distinct ended
     \<and> (\<forall>k. k \<in> set ended \<longleftrightarrow> (\<exists>r. hm_get recs k = Some r \<and> is_terminal (mr_state r)))
     \<and> length (filter active_rec recs) \<le> MAX_RECORDS"

definition mt_ok :: "'p manual_transfers \<Rightarrow> bool" where
  "mt_ok s \<longleftrightarrow> table_ok (mt_records s) (mt_terminal s) \<and> length (mt_terminal s) \<le> MAX_TERMINAL"

lemma count_remove:
  "hm_ok m \<Longrightarrow> hm_get m k = Some v \<Longrightarrow>
     length (filter P m) = length (filter P (hm_remove k m)) + (if P (k, v) then 1 else 0)"
proof (induction m)
  case (Cons e m)
  obtain a b where e: "e = (a, b)" by (cases e)
  show ?case
  proof (cases "a = k")
    case True
    have "hm_get m k = None" using Cons.prems(1) e True by (simp add: hm_ok_def hm_get_None)
    then have "hm_remove k m = m" by (rule hm_remove_absent)
    with True Cons.prems e show ?thesis by (auto simp: hm_remove_def hm_retain_def hm_get_Cons)
  next
    case False
    with Cons e have "length (filter P m) = length (filter P (hm_remove k m)) + (if P (k, v) then 1 else 0)"
      by (auto simp: hm_ok_def hm_get_Cons)
    with False e show ?thesis by (auto simp: hm_remove_def hm_retain_def)
  qed
qed (simp add: hm_get_def)

lemma count_remove_le: "length (filter P (hm_remove k m)) \<le> length (filter P m)"
  by (induction m) (auto simp: hm_remove_def hm_retain_def)

lemma hm_insert_fresh: "hm_get m k = None \<Longrightarrow> hm_insert k v m = m @ [(k, v)]"
  by (induction m) (auto simp: hm_get_def split: if_splits)

lemma table_ok_remove:
  assumes "table_ok recs (k # ended)"
  shows "table_ok (hm_remove k recs) ended"
  using assms count_remove_le [of active_rec k recs]
  by (auto simp: table_ok_def records_ok_def hash_map)

lemma mt_evict_ok: "table_ok recs ended \<Longrightarrow> mt_ok (mt_evict recs ended)"
  by (induction recs ended rule: mt_evict.induct)
    (auto simp: mt_ok_def dest: table_ok_remove)

lemma mt_evict_get:
  "hm_ok recs \<Longrightarrow> hm_get (mt_records (mt_evict recs ended)) k = Some r \<Longrightarrow> hm_get recs k = Some r"
  by (induction recs ended rule: mt_evict.induct) (auto simp: hash_map split: if_splits)

text \<open>A record taken out of the table, or not yet in it, and stored.\<close>

definition without :: "'p manual_transfers \<Rightarrow> record_key \<Rightarrow> nat \<Rightarrow> bool" where
  "without s k n \<longleftrightarrow> records_ok (mt_records s) \<and> hm_get (mt_records s) k = None \<and> distinct (mt_terminal s)
     \<and> (\<forall>j. j \<noteq> k \<longrightarrow> j \<in> set (mt_terminal s) \<longleftrightarrow>
          (\<exists>r. hm_get (mt_records s) j = Some r \<and> is_terminal (mr_state r)))
     \<and> length (filter active_rec (mt_records s)) = n"

lemma mt_store_ok:
  assumes w: "without s (mr_key r) n" and ok: "rec_ok r"
    and n: "n + (if is_terminal (mr_state r) then 0 else 1) \<le> MAX_RECORDS"
    and t: "mr_key r \<in> set (mt_terminal s) \<longrightarrow> is_terminal (mr_state r)"
  shows "mt_ok (mt_store s r)"
proof -
  let ?ended = "if is_terminal (mr_state r) \<and> mr_key r \<notin> set (mt_terminal s)
    then mt_terminal s @ [mr_key r] else mt_terminal s"
  let ?recs = "hm_insert (mr_key r) r (mt_records s)"
  have "records_ok ?recs" using w ok by (auto simp: without_def records_ok_def hash_map)
  moreover have "k \<in> set ?ended \<longleftrightarrow> (\<exists>r. hm_get ?recs k = Some r \<and> is_terminal (mr_state r))" for k
    using w t by (cases "k = mr_key r") (auto simp: without_def hash_map)
  moreover have "length (filter active_rec ?recs) \<le> MAX_RECORDS"
    using w n by (auto simp: without_def hm_insert_fresh split: if_splits)
  ultimately have "table_ok ?recs ?ended" using w by (auto simp: table_ok_def without_def)
  then show ?thesis unfolding mt_store_def by (rule mt_evict_ok)
qed

lemma mt_store_get:
  "hm_ok (mt_records s) \<Longrightarrow> hm_get (mt_records (mt_store s r)) k = Some r' \<Longrightarrow>
     (if k = mr_key r then r' = r else hm_get (mt_records s) k = Some r')"
  by (auto simp: mt_store_def hash_map dest!: mt_evict_get [rotated] split: if_splits)

lemma without_removed:
  assumes ok: "mt_ok s" and r: "hm_get (mt_records s) k = Some r"
  shows "without (s\<lparr>mt_records := hm_remove k (mt_records s)\<rparr>) k
    (length (filter active_rec (mt_records s)) - (if is_terminal (mr_state r) then 0 else 1))"
  using ok count_remove [of "mt_records s" k r active_rec] r
  by (auto simp: without_def mt_ok_def table_ok_def records_ok_def hash_map)

section \<open>Operations on one record\<close>

lemma mt_ok_hm [simp]: "mt_ok s \<Longrightarrow> hm_ok (mt_records s)"
  by (simp add: mt_ok_def table_ok_def records_ok_def)

lemma distinct_keys: "mt_ok s \<Longrightarrow> distinct (map fst (mt_records s))"
  using mt_ok_hm by (auto simp: hm_ok_def)

lemma get_key_set: "hm_get m k = Some r \<Longrightarrow> k \<in> set (map fst m)"
  by (metis hm_get_None list.set_map option.distinct(1))

locale record_operation =
  fixes h :: "'p manual_record \<Rightarrow> 'p manual_record \<times> 'p manual_action list"
  assumes keeps: "rec_ok r \<Longrightarrow> rec_keeps r (fst (h r))"
begin

lemma update_ok:
  assumes ok: "mt_ok s"
  shows "mt_ok (fst (mt_update h k s))"
proof (cases "hm_get (mt_records s) k")
  case None
  with ok show ?thesis by (simp add: mt_update_def)
next
  case (Some r)
  let ?r = "fst (h r)" and ?s = "s\<lparr>mt_records := hm_remove k (mt_records s)\<rparr>"
  have r: "mr_key r = k" "rec_ok r" and t: "k \<in> set (mt_terminal s) \<longleftrightarrow> is_terminal (mr_state r)"
    and n: "length (filter active_rec (mt_records s)) \<le> MAX_RECORDS"
    using ok Some by (auto simp: mt_ok_def table_ok_def records_ok_def)
  have pos: "\<not> is_terminal (mr_state r) \<Longrightarrow> 0 < length (filter active_rec (mt_records s))"
    using count_remove [OF mt_ok_hm [OF ok] Some, of active_rec] by simp
  have kp: "rec_ok ?r" "mr_key ?r = k" "is_terminal (mr_state r) \<longrightarrow> is_terminal (mr_state ?r)"
    using keeps [OF r(2)] r(1) by (auto simp: rec_keeps_def rec_step_def)
  have "mt_ok (mt_store ?s ?r)"
  proof (rule mt_store_ok)
    show "without ?s (mr_key ?r) (length (filter active_rec (mt_records s)) - (if is_terminal (mr_state r) then 0 else 1))"
      using without_removed [OF ok Some] kp(2) by simp
    show "length (filter active_rec (mt_records s)) - (if is_terminal (mr_state r) then 0 else 1)
        + (if is_terminal (mr_state ?r) then 0 else 1) \<le> MAX_RECORDS"
      using n pos kp(3) by (cases "is_terminal (mr_state r)") auto
    show "mr_key ?r \<in> set (mt_terminal ?s) \<longrightarrow> is_terminal (mr_state ?r)" using t kp by simp
  qed (rule kp)
  with Some show ?thesis by (simp add: mt_update_def case_prod_unfold Let_def)
qed

lemma update_get:
  assumes ok: "mt_ok s" and g: "hm_get (mt_records (fst (mt_update h k s))) j = Some r'"
  shows "\<exists>r. hm_get (mt_records s) j = Some r \<and> r' = (if j = k then fst (h r) else r)"
proof (cases "hm_get (mt_records s) k")
  case None
  with g show ?thesis by (auto simp: mt_update_def)
next
  case (Some r)
  let ?s = "s\<lparr>mt_records := hm_remove k (mt_records s)\<rparr>"
  have hm: "hm_ok (mt_records s)" and r: "mr_key r = k" "rec_ok r"
    using ok Some by (auto simp: mt_ok_def table_ok_def records_ok_def)
  have key: "mr_key (fst (h r)) = k" using keeps [OF r(2)] r(1) by (simp add: rec_keeps_def rec_step_def)
  from Some g have "hm_get (mt_records (mt_store ?s (fst (h r)))) j = Some r'"
    by (simp add: mt_update_def case_prod_unfold Let_def)
  from mt_store_get [OF _ this] hm key Some show ?thesis by (auto simp: hash_map split: if_splits)
qed

lemma update_all_ok: "mt_ok s \<Longrightarrow> mt_ok (fst (mt_update_all h ks s))"
  by (induction ks arbitrary: s) (auto simp: case_prod_unfold Let_def update_ok)

lemma update_all_get:
  "mt_ok s \<Longrightarrow> distinct ks \<Longrightarrow> hm_get (mt_records (fst (mt_update_all h ks s))) j = Some r' \<Longrightarrow>
     \<exists>r. hm_get (mt_records s) j = Some r \<and> r' = (if j \<in> set ks then fst (h r) else r)"
proof (induction ks arbitrary: s)
  case (Cons k ks)
  let ?s = "fst (mt_update h k s)"
  have "hm_get (mt_records (fst (mt_update_all h ks ?s))) j = Some r'"
    using Cons.prems(3) by (simp add: case_prod_unfold Let_def)
  from Cons.IH [OF update_ok [OF Cons.prems(1)] _ this] Cons.prems(2) obtain r1 where
    r1: "hm_get (mt_records ?s) j = Some r1" "r' = (if j \<in> set ks then fst (h r1) else r1)" by auto
  from update_get [OF Cons.prems(1) r1(1)] r1(2) Cons.prems(2) show ?case by auto
qed simp

lemma update_every_get:
  assumes ok: "mt_ok s" and g: "hm_get (mt_records (fst (mt_update_all h (map fst (mt_records s)) s))) j = Some r'"
  shows "\<exists>r. hm_get (mt_records s) j = Some r \<and> r' = fst (h r)"
proof -
  obtain r where r: "hm_get (mt_records s) j = Some r"
    "r' = (if j \<in> set (map fst (mt_records s)) then fst (h r) else r)"
    using update_all_get [OF ok distinct_keys [OF ok] g] by blast
  with get_key_set [OF r(1)] show ?thesis by simp
qed

lemma update_actions:
  "a \<in> set (snd (mt_update h k s)) \<Longrightarrow> \<exists>r. hm_get (mt_records s) k = Some r \<and> a \<in> set (snd (h r))"
  by (auto simp: mt_update_def case_prod_unfold Let_def split: option.splits)

lemma update_all_actions:
  "mt_ok s \<Longrightarrow> distinct ks \<Longrightarrow> a \<in> set (snd (mt_update_all h ks s)) \<Longrightarrow>
     \<exists>k \<in> set ks. \<exists>r. hm_get (mt_records s) k = Some r \<and> a \<in> set (snd (h r))"
proof (induction ks arbitrary: s)
  case (Cons k ks)
  let ?s = "fst (mt_update h k s)"
  consider "a \<in> set (snd (mt_update h k s))" | "a \<in> set (snd (mt_update_all h ks ?s))"
    using Cons.prems(3) by (auto simp: case_prod_unfold Let_def)
  then show ?case
  proof cases
    case 1
    from update_actions [OF this] show ?thesis by auto
  next
    case 2
    from Cons.IH [OF update_ok [OF Cons.prems(1)] _ 2] Cons.prems(2) obtain j r where
      j: "j \<in> set ks" "hm_get (mt_records ?s) j = Some r" "a \<in> set (snd (h r))" by auto
    have "j \<noteq> k" using j(1) Cons.prems(2) by auto
    with update_get [OF Cons.prems(1) j(2)] have "hm_get (mt_records s) j = Some r" by simp
    with j show ?thesis by auto
  qed
qed simp

end

interpretation accept: record_operation "\<lambda>r. prepare_receiver r directory now automatic env"
  for directory now automatic env by unfold_locales (rule prepare_receiver_keeps)

interpretation overwrite: record_operation "\<lambda>r. mr_overwrite r directory now env"
  for directory now env by unfold_locales (rule mr_overwrite_keeps)

interpretation protocol: record_operation "\<lambda>r. mr_handle sha256 (r\<lparr>mr_peer := p\<rparr>) event now env"
  for sha256 p event now env by unfold_locales (rule mr_handle_keeps)

interpretation decline: record_operation "\<lambda>r. mr_decline r now"
  for now by unfold_locales (rule mr_decline_keeps)

interpretation cancel: record_operation "\<lambda>r. mr_cancel r now"
  for now by unfold_locales (rule mr_cancel_keeps)

interpretation tick: record_operation "\<lambda>r. mr_tick r now"
  for now by unfold_locales (rule mr_tick_keeps)

interpretation refresh: record_operation "mr_refresh routes now"
  for routes now by unfold_locales (rule mr_refresh_keeps)

end
