(* ===== verification/Manual_Steps.thy ===== *)
theory Manual_Steps
  imports Manual_Invariant
begin

text \<open>
  The table of manual transfers as a state machine: the operations of \<open>ManualTransfers\<close> in any order and
  at any times, and what holds of every state they reach.
\<close>

section \<open>Operations\<close>

datatype 'p mt_op =
    OpSendFiles 'p rstring "(rstring \<times> send_env) list"
  | OpProtocol 'p rstring proto_event file_receive_settings prepare_env file_env
  | OpAccept rstring u64 rstring prepare_env
  | OpOverwrite rstring u64 rstring prepare_env
  | OpDecline rstring u64
  | OpCancel rstring u64
  | OpTick
  | OpRefreshRoutes "(rstring, 'p) hash_map"

fun mt_apply ::
  "(bytes \<Rightarrow> bytes) \<Rightarrow> 'p manual_transfers \<Rightarrow> nat \<Rightarrow> 'p mt_op \<Rightarrow> 'p manual_transfers \<times> 'p manual_action list" where
  "mt_apply sha256 s now (OpSendFiles p fp paths) = mt_send_files s p fp paths now"
| "mt_apply sha256 s now (OpProtocol p fp ev settings penv env) =
     mt_handle_protocol sha256 s p fp ev settings now penv env"
| "mt_apply sha256 s now (OpAccept fp t dir penv) = mt_accept s fp t dir now penv"
| "mt_apply sha256 s now (OpOverwrite fp t dir penv) = mt_overwrite s fp t dir now penv"
| "mt_apply sha256 s now (OpDecline fp t) = mt_decline s fp t now"
| "mt_apply sha256 s now (OpCancel fp t) = mt_cancel s fp t now"
| "mt_apply sha256 s now OpTick = mt_tick s now"
| "mt_apply sha256 s now (OpRefreshRoutes routes) = mt_refresh_routes s routes now"

inductive mt_reach :: "(bytes \<Rightarrow> bytes) \<Rightarrow> (nat \<times> 'p mt_op) list \<Rightarrow> 'p manual_transfers \<Rightarrow> bool"
  for sha256 where
  init: "mt_reach sha256 [] mt_new"
| step: "mt_reach sha256 ops s \<Longrightarrow> mt_apply sha256 s now op = (s', as) \<Longrightarrow> mt_reach sha256 (ops @ [(now, op)]) s'"

section \<open>New records\<close>

lemma mt_okD:
  assumes "mt_ok s" and "hm_get (mt_records s) k = Some r"
  shows "mr_key r = k" and "rec_ok r" and "k \<in> set (mt_terminal s) \<longleftrightarrow> is_terminal (mr_state r)"
  using assms by (auto simp: mt_ok_def table_ok_def records_ok_def)

lemma mt_ok_absent: "mt_ok s \<Longrightarrow> hm_get (mt_records s) k = None \<Longrightarrow> k \<notin> set (mt_terminal s)"
  by (auto simp: mt_ok_def table_ok_def)

lemma mt_ok_new [simp]: "mt_ok mt_new"
  by (simp add: mt_ok_def mt_new_def table_ok_def records_ok_def hash_map hm_ok_def)

lemma store_new_ok:
  assumes ok: "mt_ok s" and k: "hm_get (mt_records s) (mr_key r) = None" and n: "\<not> MAX_RECORDS \<le> active_count s"
    and r: "rec_ok r"
  shows "mt_ok (mt_store s r)"
proof (rule mt_store_ok [OF _ r])
  show "without s (mr_key r) (active_count s)"
    using ok k by (auto simp: without_def mt_ok_def table_ok_def active_count_def)
  show "active_count s + (if is_terminal (mr_state r) then 0 else 1) \<le> MAX_RECORDS" using n by simp
  show "mr_key r \<in> set (mt_terminal s) \<longrightarrow> is_terminal (mr_state r)" using mt_ok_absent [OF ok k] by simp
qed

lemma next_transfer_id_loop_fresh:
  "next_transfer_id_loop s random i n = Some t \<Longrightarrow> t \<noteq> 0 \<and> hm_get (mt_records s) (fp, t) = None"
  by (induction s random i n rule: next_transfer_id_loop.induct)
    (auto simp: list_ex_iff hm_get_None split: option.splits if_splits)

lemma sender_record_ok:
  "from_regular_file fs t path = Inr offer \<Longrightarrow> rec_ok (sender_record p fp t offer now)"
  by (auto simp: from_regular_file_def sender_record_def rec_ok_def Let_def FILE_ID_def
      split: if_splits fs_node.splits option.splits sum.splits)

lemma sender_record_key [simp]: "mr_key (sender_record p fp t offer now) = (fp, t)"
  by (simp add: sender_record_def mr_key_def Let_def)

lemma receiver_record_ok [simp]: "rec_ok (receiver_record p fp t name sz dir now)"
  by (simp add: receiver_record_def rec_ok_def)

lemma receiver_record_key [simp]: "mr_key (receiver_record p fp t name sz dir now) = (fp, t)"
  by (simp add: receiver_record_def mr_key_def)

lemma mt_evict_id: "length ended \<le> MAX_TERMINAL \<Longrightarrow> mt_evict recs ended = \<lparr>mt_records = recs, mt_terminal = ended\<rparr>"
  by (cases ended) auto

lemma mt_store_active:
  "mt_ok s \<Longrightarrow> \<not> is_terminal (mr_state r) \<Longrightarrow>
     mt_store s r = s\<lparr>mt_records := hm_insert (mr_key r) r (mt_records s)\<rparr>"
  by (simp add: mt_store_def mt_ok_def mt_evict_id)

lemma mt_send_files_induct:
  assumes new: "\<And>s t offer path fs. mt_ok s \<Longrightarrow> P s \<Longrightarrow> hm_get (mt_records s) (fp, t) = None \<Longrightarrow>
      from_regular_file fs t path = Inr offer \<Longrightarrow>
      P (s\<lparr>mt_records := hm_insert (fp, t) (sender_record p fp t offer now) (mt_records s)\<rparr>)"
  shows "mt_ok s \<Longrightarrow> P s \<Longrightarrow> mt_ok (fst (mt_send_files s p fp paths now)) \<and> P (fst (mt_send_files s p fp paths now))"
proof (induction paths arbitrary: s)
  case (Cons pe rest)
  obtain path env where pe: "pe = (path, env)" by (cases pe)
  show ?case
  proof (cases "MAX_RECORDS \<le> active_count s \<or> next_transfer_id s (se_random env) = None")
    case True
    with Cons.prems pe show ?thesis by auto
  next
    case False
    then obtain t where t: "next_transfer_id s (se_random env) = Some t" and n: "\<not> MAX_RECORDS \<le> active_count s" by auto
    note ih = Cons.IH [OF Cons.prems]
    show ?thesis
    proof (cases "\<exists>offer. se_join env = None \<and> from_regular_file (se_fs env) t path = Inr offer")
      case False
      with ih t n pe show ?thesis
        by (cases "se_join env"; cases "from_regular_file (se_fs env) t path") (simp_all add: case_prod_unfold Let_def)
    next
      case True
      then obtain offer where o: "se_join env = None" "from_regular_file (se_fs env) t path = Inr offer" by blast
      let ?r = "sender_record p fp t offer now"
      have fresh: "hm_get (mt_records s) (fp, t) = None"
        using next_transfer_id_loop_fresh [of s _ 0 16 t fp] t by (simp add: next_transfer_id_def)
      have ok: "mt_ok (mt_store s ?r)"
        using fresh by (intro store_new_ok [OF Cons.prems(1) _ n] sender_record_ok [OF o(2)]) simp
      have "\<not> is_terminal (mr_state ?r)" by (simp add: sender_record_def Let_def)
      then have "P (mt_store s ?r)"
        using new [OF Cons.prems fresh o(2)] mt_store_active [OF Cons.prems(1)] by simp
      from Cons.IH [OF ok this] t n o pe show ?thesis by (simp add: case_prod_unfold Let_def)
    qed
  qed
qed simp

lemma mt_send_files_get:
  assumes ok: "mt_ok s" and g: "hm_get (mt_records (fst (mt_send_files s p fp paths now))) k = Some r"
  shows "hm_get (mt_records s) k = Some r
     \<or> hm_get (mt_records s) k = None \<and> (\<exists>t offer. r = sender_record p fp t offer now)"
proof -
  have "mt_ok (fst (mt_send_files s p fp paths now)) \<and>
    (\<forall>k r. hm_get (mt_records s) k = Some r \<longrightarrow> hm_get (mt_records (fst (mt_send_files s p fp paths now))) k = Some r) \<and>
    (\<forall>k r. hm_get (mt_records (fst (mt_send_files s p fp paths now))) k = Some r \<longrightarrow> hm_get (mt_records s) k = Some r
      \<or> hm_get (mt_records s) k = None \<and> (\<exists>t offer. r = sender_record p fp t offer now))"
    by (rule mt_send_files_induct [OF _ ok]) (auto simp: hash_map split: if_splits, metis option.exhaust)
  with g show ?thesis by blast
qed

lemma count_replace:
  "hm_get m k = Some v \<Longrightarrow> P (k, v) = P (k, v') \<Longrightarrow> length (filter P (hm_insert k v' m)) = length (filter P m)"
  by (induction m) (auto simp: hm_get_def split: if_splits)

lemma mt_ok_replace:
  assumes ok: "mt_ok s" and g: "hm_get (mt_records s) k = Some r" and r': "rec_ok r'" "mr_key r' = k"
    and st: "mr_state r' = mr_state r"
  shows "mt_ok (s\<lparr>mt_records := hm_insert k r' (mt_records s)\<rparr>)"
proof -
  have "length (filter active_rec (hm_insert k r' (mt_records s))) = length (filter active_rec (mt_records s))"
    using g st by (intro count_replace) auto
  then show ?thesis using ok g r' st
    by (auto simp: mt_ok_def table_ok_def records_ok_def hash_map)
qed

definition auto_prepared :: "'p manual_record \<Rightarrow> file_receive_settings \<Rightarrow> nat \<Rightarrow> prepare_env \<Rightarrow> 'p manual_record" where
  "auto_prepared r settings now env =
     (if rs_auto_accept settings then fst (prepare_receiver r (rs_download_directory settings) now True env) else r)"

lemma auto_prepared_keeps: "rec_ok r \<Longrightarrow> rec_keeps r (auto_prepared r settings now env)"
  by (simp add: auto_prepared_def prepare_receiver_keeps)

lemma mt_receive_offer_fst:
  "fst (mt_receive_offer s p fp t name sz settings now env) =
     (if t = 0 \<or> \<not> is_ok (validate_manual_file_name name) then s
      else case hm_get (mt_records s) (fp, t) of
        Some r \<Rightarrow> if mr_direction r \<noteq> Receiving \<or> mr_name r \<noteq> name \<or> mr_size r \<noteq> sz then s
          else s\<lparr>mt_records := hm_insert (fp, t) (r\<lparr>mr_peer := p\<rparr>) (mt_records s)\<rparr>
      | None \<Rightarrow> if active_count s \<ge> MAX_RECORDS then s
          else mt_store s (auto_prepared (receiver_record p fp t name sz (rs_download_directory settings) now) settings now env))"
  by (auto simp: mt_receive_offer_def auto_prepared_def Let_def case_prod_unfold split: option.split)

lemma mt_receive_offer_ok:
  assumes ok: "mt_ok s"
  shows "mt_ok (fst (mt_receive_offer s p fp t name sz settings now env))"
proof (cases "hm_get (mt_records s) (fp, t)")
  case None
  let ?r = "auto_prepared (receiver_record p fp t name sz (rs_download_directory settings) now) settings now env"
  have "rec_keeps (receiver_record p fp t name sz (rs_download_directory settings) now) ?r"
    by (simp add: auto_prepared_keeps)
  then have "mt_ok (mt_store s ?r)" if "\<not> MAX_RECORDS \<le> active_count s"
    using None by (intro store_new_ok [OF ok _ that]) (simp_all add: rec_keeps_def rec_step_def)
  with ok None show ?thesis by (auto simp: mt_receive_offer_fst)
next
  case (Some r)
  have "mt_ok (s\<lparr>mt_records := hm_insert (fp, t) (r\<lparr>mr_peer := p\<rparr>) (mt_records s)\<rparr>)"
    using mt_okD [OF ok Some] by (intro mt_ok_replace [OF ok Some]) (simp_all add: mr_key_def)
  with ok Some show ?thesis by (auto simp: mt_receive_offer_fst)
qed

section \<open>One operation, record by record\<close>

text \<open>What an operation does to the record \<open>r\<close> with key \<open>k\<close>.\<close>

fun op_record :: "(bytes \<Rightarrow> bytes) \<Rightarrow> nat \<Rightarrow> 'p mt_op \<Rightarrow> record_key \<Rightarrow> 'p manual_record \<Rightarrow>
    'p manual_record \<times> 'p manual_action list" where
  "op_record sha256 now (OpSendFiles p fp paths) k r = (r, [])"
| "op_record sha256 now (OpProtocol p fp ev settings penv env) k r = (case ev of
     ManualFileOffer t name sz \<Rightarrow>
       (if k = (fp, t) \<and> t \<noteq> 0 \<and> is_ok (validate_manual_file_name name)
           \<and> mr_direction r = Receiving \<and> mr_name r = name \<and> mr_size r = sz
        then (r\<lparr>mr_peer := p\<rparr>, [mr_send (r\<lparr>mr_peer := p\<rparr>) (offer_response (r\<lparr>mr_peer := p\<rparr>))]) else (r, []))
   | _ \<Rightarrow> (if manual_event_id ev \<noteq> None \<and> k = (fp, the (manual_event_id ev))
            then mr_handle sha256 (r\<lparr>mr_peer := p\<rparr>) ev now env else (r, [])))"
| "op_record sha256 now (OpAccept fp t dir penv) k r =
     (if k = (fp, t) then prepare_receiver r dir now False penv else (r, []))"
| "op_record sha256 now (OpOverwrite fp t dir penv) k r =
     (if k = (fp, t) then mr_overwrite r dir now penv else (r, []))"
| "op_record sha256 now (OpDecline fp t) k r = (if k = (fp, t) then mr_decline r now else (r, []))"
| "op_record sha256 now (OpCancel fp t) k r = (if k = (fp, t) then mr_cancel r now else (r, []))"
| "op_record sha256 now OpTick k r = mr_tick r now"
| "op_record sha256 now (OpRefreshRoutes routes) k r = mr_refresh routes now r"

text \<open>The records an operation may create.\<close>

fun op_creates :: "nat \<Rightarrow> 'p mt_op \<Rightarrow> record_key \<Rightarrow> 'p manual_record \<Rightarrow> bool" where
  "op_creates now (OpSendFiles p fp paths) k r \<longleftrightarrow> (\<exists>t offer. r = sender_record p fp t offer now)"
| "op_creates now (OpProtocol p fp ev settings penv env) k r \<longleftrightarrow> (\<exists>t name sz. ev = ManualFileOffer t name sz \<and>
     k = (fp, t) \<and>
     r = auto_prepared (receiver_record p fp t name sz (rs_download_directory settings) now) settings now penv)"
| "op_creates _ _ _ _ \<longleftrightarrow> False"

lemma op_record_keeps: "rec_ok r \<Longrightarrow> rec_keeps r (fst (op_record sha256 now op k r))"
proof (cases op)
  case (OpProtocol p fp ev settings penv env)
  assume ok: "rec_ok r"
  have m: "rec_keeps r (r\<lparr>mr_peer := p\<rparr>)" using ok by (auto intro: keeps_intros)
  show ?thesis using ok m OpProtocol mr_handle_keeps [OF ok, of sha256 p ev now env]
    by (cases ev) auto
qed (simp_all add: prepare_receiver_keeps mr_overwrite_keeps mr_decline_keeps mr_cancel_keeps mr_tick_keeps mr_refresh_keeps)

lemma mt_handle_ok:
  "mt_ok s \<Longrightarrow> mt_ok (fst (mt_handle_protocol sha256 s p fp ev settings now penv env))"
  by (cases ev) (auto simp: mt_handle_protocol_def mt_receive_offer_ok protocol.update_ok)

lemma mt_apply_ok: "mt_ok s \<Longrightarrow> mt_ok (fst (mt_apply sha256 s now op))"
proof (cases op)
  case (OpSendFiles p fp paths)
  assume "mt_ok s"
  with OpSendFiles mt_send_files_induct [of "\<lambda>_. True" fp p now s paths] show ?thesis by simp
qed (simp_all add: mt_handle_ok mt_accept_def mt_overwrite_def mt_decline_def mt_cancel_def mt_tick_def
      mt_refresh_routes_def accept.update_ok overwrite.update_ok decline.update_ok cancel.update_ok
      tick.update_all_ok refresh.update_all_ok)

lemma mt_handle_get:
  assumes ok: "mt_ok s"
    and g: "hm_get (mt_records (fst (mt_handle_protocol sha256 s p fp ev settings now penv env))) k = Some r'"
  shows "(\<exists>r. hm_get (mt_records s) k = Some r \<and> r' = fst (op_record sha256 now (OpProtocol p fp ev settings penv env) k r))
    \<or> hm_get (mt_records s) k = None \<and> op_creates now (OpProtocol p fp ev settings penv env) k r'"
proof (cases "\<exists>t name sz. ev = ManualFileOffer t name sz")
  case True
  then obtain t name sz where ev: "ev = ManualFileOffer t name sz" by blast
  let ?r = "auto_prepared (receiver_record p fp t name sz (rs_download_directory settings) now) settings now penv"
  have key: "mr_key ?r = (fp, t)"
    using auto_prepared_keeps [OF receiver_record_ok, of p fp t name sz "rs_download_directory settings" now settings now penv]
    by (simp add: rec_keeps_def rec_step_def)
  have g': "hm_get (mt_records (fst (mt_receive_offer s p fp t name sz settings now penv))) k = Some r'"
    using g by (simp add: ev mt_handle_protocol_def)
  show ?thesis
  proof (cases "hm_get (mt_records s) (fp, t)")
    case None
    show ?thesis
    proof (cases "t = 0 \<or> \<not> is_ok (validate_manual_file_name name) \<or> active_count s \<ge> MAX_RECORDS")
      case True
      then have "fst (mt_receive_offer s p fp t name sz settings now penv) = s"
        using None by (auto simp: mt_receive_offer_fst)
      with g' have "hm_get (mt_records s) k = Some r'" by simp
      with None ev show ?thesis by auto
    next
      case False
      with g' None have "hm_get (mt_records (mt_store s ?r)) k = Some r'" by (simp add: mt_receive_offer_fst)
      from mt_store_get [OF _ this] ok key None ev show ?thesis by (auto split: if_splits)
    qed
  next
    case (Some r)
    let ?same = "t \<noteq> 0 \<and> is_ok (validate_manual_file_name name) \<and> mr_direction r = Receiving \<and> mr_name r = name \<and> mr_size r = sz"
    have "fst (mt_receive_offer s p fp t name sz settings now penv) =
        (if ?same then s\<lparr>mt_records := hm_insert (fp, t) (r\<lparr>mr_peer := p\<rparr>) (mt_records s)\<rparr> else s)"
      unfolding mt_receive_offer_fst using Some by auto
    with g' have g'': "(if ?same \<and> k = (fp, t) then Some (r\<lparr>mr_peer := p\<rparr>) else hm_get (mt_records s) k) = Some r'"
      by (auto simp: hash_map split: if_splits)
    show ?thesis
    proof (cases "k = (fp, t)")
      case True
      with g'' Some ev show ?thesis by (cases ?same) auto
    next
      case False
      with g'' ev show ?thesis by simp
    qed
  qed
next
  case False
  show ?thesis
  proof (cases "manual_event_id ev")
    case None
    with False g show ?thesis by (cases ev) (auto simp: mt_handle_protocol_def)
  next
    case (Some t)
    let ?h = "\<lambda>r. mr_handle sha256 (r\<lparr>mr_peer := p\<rparr>) ev now env"
    have rec: "op_record sha256 now (OpProtocol p fp ev settings penv env) k r =
        (if k = (fp, t) then ?h r else (r, []))" for r
      using False Some by (cases ev) auto
    have "mt_handle_protocol sha256 s p fp ev settings now penv env =
        (if hm_get (mt_records s) (fp, t) = None then (s, unknown_record_answer p ev) else mt_update ?h (fp, t) s)"
      using False Some by (cases ev) (auto simp: mt_handle_protocol_def)
    moreover have "\<exists>r. hm_get (mt_records s) k = Some r \<and> r' = (if k = (fp, t) then fst (?h r) else r)"
      if "hm_get (mt_records (fst (mt_update ?h (fp, t) s))) k = Some r'"
      by (rule protocol.update_get [OF ok that])
    ultimately show ?thesis using g rec by (cases "hm_get (mt_records s) (fp, t)") (auto split: if_splits)
  qed
qed

lemma mt_apply_get:
  assumes ok: "mt_ok s" and g: "hm_get (mt_records (fst (mt_apply sha256 s now op))) k = Some r'"
  shows "(\<exists>r. hm_get (mt_records s) k = Some r \<and> r' = fst (op_record sha256 now op k r))
    \<or> hm_get (mt_records s) k = None \<and> op_creates now op k r'"
proof (cases op)
  case (OpSendFiles p fp paths)
  with mt_send_files_get [OF ok] g show ?thesis by auto
next
  case (OpProtocol p fp ev settings penv env)
  with mt_handle_get [OF ok] g show ?thesis by simp
next
  case (OpAccept fp t dir penv)
  with accept.update_get [OF ok] g show ?thesis by (fastforce simp: mt_accept_def split: if_splits)
next
  case (OpOverwrite fp t dir penv)
  with overwrite.update_get [OF ok] g show ?thesis by (fastforce simp: mt_overwrite_def split: if_splits)
next
  case (OpDecline fp t)
  with decline.update_get [OF ok] g show ?thesis by (fastforce simp: mt_decline_def split: if_splits)
next
  case (OpCancel fp t)
  with cancel.update_get [OF ok] g show ?thesis by (fastforce simp: mt_cancel_def split: if_splits)
next
  case OpTick
  with tick.update_every_get [OF ok, of now k r'] g show ?thesis by (simp add: mt_tick_def)
next
  case (OpRefreshRoutes routes)
  with refresh.update_every_get [OF ok, of routes now k r'] g show ?thesis by (simp add: mt_refresh_routes_def)
qed

section \<open>Reachable states\<close>

lemma mt_reach_ok: "mt_reach sha256 ops s \<Longrightarrow> mt_ok s"
proof (induction rule: mt_reach.induct)
  case (step ops s now op s' as)
  with mt_apply_ok [OF step.IH, of sha256 now op] show ?case by simp
qed simp

text \<open>Messages a record keeps for sending again.\<close>

definition is_chunk :: "proto_event \<Rightarrow> bool" where
  "is_chunk ev \<longleftrightarrow> (\<exists>t x data. ev = ManualFileChunk t x data)"

definition messages_ok :: "'p manual_record \<Rightarrow> bool" where
  "messages_ok r \<longleftrightarrow> (\<forall>ev. mr_retry_event r = Some ev \<longrightarrow> \<not> is_chunk ev)
     \<and> (\<forall>t x data. mr_cached_response r = Some (ManualFileChunk t x data) \<longrightarrow> t = mr_id r)"

lemma not_chunk [simp]:
  "\<not> is_chunk (offer_response r)" "\<not> is_chunk (ManualFileDecision t d)" "\<not> is_chunk (ManualFileCancel t)"
  "\<not> is_chunk (manual_request t x)" "\<not> is_chunk (ManualFileResult t b e)" "\<not> is_chunk (ManualFileComplete t dg)"
  "\<not> is_chunk (ManualFileOffer t n z)"
  by (auto simp: is_chunk_def offer_response_def manual_request_def split: manual_state.splits prod.splits)

lemma messages_ok_minor [simp]:
  "messages_ok (r\<lparr>mr_peer := p\<rparr>) = messages_ok r"
  "messages_ok (r\<lparr>mr_last_activity := t\<rparr>) = messages_ok r"
  "messages_ok (r\<lparr>mr_last_notification := t\<rparr>) = messages_ok r"
  "messages_ok (r\<lparr>mr_cached_request := cq\<rparr>) = messages_ok r"
  "messages_ok (r\<lparr>mr_final_digest := fd\<rparr>) = messages_ok r"
  "messages_ok (r\<lparr>mr_early_digest := ed\<rparr>) = messages_ok r"
  "messages_ok (r\<lparr>mr_destination := d\<rparr>) = messages_ok r"
  "messages_ok (r\<lparr>mr_retries := n\<rparr>) = messages_ok r"
  "messages_ok (r\<lparr>mr_error := err\<rparr>) = messages_ok r"
  "messages_ok (r\<lparr>mr_final_result := fr\<rparr>) = messages_ok r"
  "messages_ok (r\<lparr>mr_state := st\<rparr>) = messages_ok r"
  "messages_ok (r\<lparr>mr_incoming := inc\<rparr>) = messages_ok r"
  "messages_ok (r\<lparr>mr_outgoing := og\<rparr>) = messages_ok r"
  "messages_ok (r\<lparr>mr_transferred := x\<rparr>) = messages_ok r"
  "messages_ok (r\<lparr>mr_replacement := rp\<rparr>) = messages_ok r"
  "messages_ok r \<Longrightarrow> messages_ok (r\<lparr>mr_retry_event := None\<rparr>)"
  "messages_ok r \<Longrightarrow> \<not> is_chunk ev \<Longrightarrow> messages_ok (r\<lparr>mr_retry_event := Some ev\<rparr>)"
  by (auto simp: messages_ok_def)

lemma mr_terminal_messages [simp]: "messages_ok (mr_terminal r st e now)"
  by (auto simp: messages_ok_def mr_terminal_def split: manual_state.splits)

lemma mr_fail_messages [simp]: "messages_ok (fst (mr_fail r e b now))"
  by (simp add: mr_fail_def Let_def)

lemma mr_progress_messages [simp]: "messages_ok (fst (mr_progress r now)) = messages_ok r"
  by (simp add: mr_progress_def Let_def)

lemma finish_receiver_messages [simp]: "messages_ok (fst (finish_receiver sha256 r inc digest now env))"
  by (auto simp: finish_receiver_def Let_def case_prod_unfold split: sum.split option.split)

lemma prepare_receiver_messages [simp]:
  "messages_ok r \<Longrightarrow> messages_ok (fst (prepare_receiver r dir now automatic env))"
  by (auto simp: prepare_receiver_def receiver_prepared_def Let_def split: sum.split)

lemma mr_overwrite_messages [simp]: "messages_ok r \<Longrightarrow> messages_ok (fst (mr_overwrite r dir now env))"
  by (auto simp: mr_overwrite_def Let_def case_prod_unfold split: sum.split)

lemma mr_decision_messages [simp]: "messages_ok r \<Longrightarrow> messages_ok (fst (mr_decision r decision now))"
  by (auto simp: mr_decision_def Let_def split: transfer_direction.split manual_decision.split)

lemma mr_write_chunk_messages [simp]:
  "messages_ok r \<Longrightarrow> messages_ok (fst (mr_write_chunk sha256 r x data now env))"
  by (auto simp: mr_write_chunk_def chunk_written_def Let_def case_prod_unfold split: option.split prod.split sum.split bool.split)

lemma sender_read_event:
  "sender_read sha256 r og x len env = (r', Inr ev) \<Longrightarrow> messages_ok r \<Longrightarrow>
     messages_ok r' \<and> mr_id r' = mr_id r \<and> (\<exists>data dg. ev = ManualFileChunk (mr_id r) x data \<or> ev = ManualFileComplete (mr_id r) dg)"
  by (auto simp: sender_read_def split: if_splits sum.splits prod.splits option.splits)

lemma sender_respond_messages:
  "messages_ok r \<Longrightarrow> ev = ManualFileChunk (mr_id r) x data \<or> ev = ManualFileComplete (mr_id r) dg \<Longrightarrow>
     messages_ok (fst (sender_respond r x len ev now))"
  by (auto simp: sender_respond_def Let_def case_prod_unfold) (auto simp: messages_ok_def)

text \<open>Case analysis of \<open>send_chunk\<close>: a failure, the record kept, the cached answer, or a fresh read.\<close>

lemma mr_send_chunk_cases:
  obtains (fail) e q where "mr_send_chunk sha256 r x len now env = mr_fail q e True now" and "mr_direction r = Sending"
      and "mr_state r = MtTransferring" and "\<exists>og. q = r\<lparr>mr_outgoing := og\<rparr>"
  | (kept) as where "mr_send_chunk sha256 r x len now env = (r, as)"
      and "as = [] \<or> as = [peer_failure (mr_peer r) (mr_id r) REMOTE_NOT_ACCEPTED_ERROR]"
  | (cached) ev where "mr_send_chunk sha256 r x len now env = (r\<lparr>mr_last_activity := now, mr_retries := 0\<rparr>, [mr_send r ev])"
      and "mr_cached_response r = Some ev" and "mr_direction r = Sending" and "mr_state r = MtTransferring"
  | (read) og r1 ev where "mr_send_chunk sha256 r x len now env = sender_respond r1 x len ev now"
      and "sender_open r (xe_open env) = Inr og" and "sender_read sha256 r og x len env = (r1, Inr ev)"
      and "x = mr_transferred r" and "mr_direction r = Sending" and "mr_state r = MtTransferring"
proof (cases "is_terminal (mr_state r) \<or> mr_direction r \<noteq> Sending \<or> mr_state r \<noteq> MtTransferring")
  case True
  then show ?thesis
    by (intro kept [of "if is_terminal (mr_state r) then [] else [peer_failure (mr_peer r) (mr_id r) REMOTE_NOT_ACCEPTED_ERROR]"])
      (auto simp: mr_send_chunk_def)
next
  case False
  then have d: "mr_direction r = Sending" "mr_state r = MtTransferring" "\<not> is_terminal (mr_state r)" by auto
  have self: "\<exists>og. r = r\<lparr>mr_outgoing := og\<rparr>" by (rule exI [of _ "mr_outgoing r"]) simp
  show ?thesis
  proof (cases "len = 0 \<or> unat len > MAX_MANUAL_FILE_CHUNK_SIZE \<or> x > mr_size r")
    case True
    with d show ?thesis by (intro fail [of r, OF _ d(1,2) self]) (auto simp: mr_send_chunk_def)
  next
    case ok: False
    show ?thesis
    proof (cases "mr_cached_request r = Some (x, len) \<and> mr_cached_response r \<noteq> None")
      case True
      then obtain ev where "mr_cached_response r = Some ev" by auto
      with True d ok show ?thesis by (intro cached) (auto simp: mr_send_chunk_def)
    next
      case False
      let ?sent = "if x < mr_transferred r then (r, [])
           else if x \<noteq> mr_transferred r then mr_fail r (lit ''unexpected file offset'') True now
           else case sender_open r (xe_open env) of Inl e \<Rightarrow> mr_fail r e True now
             | Inr og \<Rightarrow> (case sender_read sha256 r og x len env of
                  (r1, Inl e) \<Rightarrow> mr_fail r1 (local_source_error e) True now
                | (r1, Inr ev) \<Rightarrow> sender_respond r1 x len ev now)"
      have "mr_send_chunk sha256 r x len now env =
          (case (mr_cached_request r = Some (x, len), mr_cached_response r) of
            (True, Some ev) \<Rightarrow> (r\<lparr>mr_last_activity := now, mr_retries := 0\<rparr>, [mr_send r ev])
          | _ \<Rightarrow> ?sent)" using d ok by (simp add: mr_send_chunk_def)
      also have "\<dots> = ?sent" by (rule pair_case_miss [OF False])
      finally have eq: "mr_send_chunk sha256 r x len now env = ?sent" .
      show ?thesis
      proof (cases "x = mr_transferred r")
        case False
        then show ?thesis
          by (cases "x < mr_transferred r") (auto simp: eq intro: kept fail [of r, OF _ d(1,2) self] simp del: lit_Cons)
      next
        case x: True
        show ?thesis
        proof (cases "sender_open r (xe_open env)")
          case (Inl e)
          with x eq show ?thesis by (intro fail [of r, OF _ d(1,2) self]) simp
        next
          case (Inr og)
          obtain r1 res where s: "sender_read sha256 r og x len env = (r1, res)" by (rule prod.exhaust)
          show ?thesis
          proof (cases res)
            case (Inl e)
            with x eq s \<open>sender_open r _ = _\<close> sender_read_Inl [OF s [unfolded Inl]] d show ?thesis
              by (intro fail [of r1]) auto
          next
            case ev: (Inr ev)
            with x eq s Inr d show ?thesis by (intro read [of r1 ev og]) auto
          qed
        qed
      qed
    qed
  qed
qed

lemma mr_send_chunk_messages [simp]:
  "messages_ok r \<Longrightarrow> messages_ok (fst (mr_send_chunk sha256 r x len now env))"
proof (cases rule: mr_send_chunk_cases [of sha256 r x len now env])
  case (read og r1 ev)
  assume "messages_ok r"
  with sender_read_event [OF read(3)] sender_respond_messages [of r1 ev x] read(1) show ?thesis by metis
qed auto

lemma complete_receiver_messages [simp]: "messages_ok r \<Longrightarrow> messages_ok (fst (complete_receiver sha256 r digest now env))"
  by (auto simp: complete_receiver_def Let_def split: option.split)

lemma receive_result_messages [simp]: "messages_ok r \<Longrightarrow> messages_ok (fst (receive_result r success err now))"
  by (auto simp: receive_result_def Let_def)

lemma op_record_messages: "messages_ok r \<Longrightarrow> messages_ok (fst (op_record sha256 now op k r))"
proof (cases op)
  case (OpProtocol p fp ev settings penv env)
  assume "messages_ok r"
  with OpProtocol show ?thesis by (cases ev) (auto simp: mr_handle_def Let_def)
qed (auto simp: mr_decline_def mr_cancel_def mr_tick_def mr_retry_def mr_expire_def mr_refresh_def Let_def
    split: option.split)

lemma new_record_messages [simp]:
  "messages_ok (sender_record p fp t offer now)" "messages_ok (receiver_record p fp t name sz dir now)"
  by (simp_all add: messages_ok_def sender_record_def receiver_record_def Let_def)

lemma op_creates_messages: "op_creates now op k r \<Longrightarrow> messages_ok r"
  by (cases op) (auto simp: auto_prepared_def)

section \<open>Who starts a transfer\<close>

fun peer_accepts :: "'p mt_op \<Rightarrow> record_key \<Rightarrow> bool" where
  "peer_accepts (OpProtocol _ fp (ManualFileDecision t Accepted) _ _ _) k = (k = (fp, t))"
| "peer_accepts _ k = False"

fun accepted_here :: "'p mt_op \<Rightarrow> record_key \<Rightarrow> bool" where
  "accepted_here (OpAccept fp t _ _) k = (k = (fp, t))"
| "accepted_here (OpOverwrite fp t _ _) k = (k = (fp, t))"
| "accepted_here (OpProtocol _ fp (ManualFileOffer t _ _) settings _ _) k = (k = (fp, t) \<and> rs_auto_accept settings)"
| "accepted_here _ k = False"

definition consented :: "(nat \<times> 'p mt_op) list \<Rightarrow> record_key \<Rightarrow> 'p manual_record \<Rightarrow> bool" where
  "consented ops k r \<longleftrightarrow> (\<exists>(now, op) \<in> set ops. now < mr_approval_deadline r
     \<and> (case mr_direction r of Sending \<Rightarrow> peer_accepts op k | Receiving \<Rightarrow> accepted_here op k))"

lemma mr_terminal_state [simp]: "mr_state (mr_terminal r st e now) = st"
  by (simp add: mr_terminal_def)

lemma mr_fail_state [simp]: "mr_state (fst (mr_fail r e b now)) = MtFailed"
  by (simp add: mr_fail_def Let_def)

lemma prepare_receiver_starts:
  "mr_state (fst (prepare_receiver r dir now automatic env)) = MtTransferring \<Longrightarrow> mr_state r \<noteq> MtTransferring \<Longrightarrow>
     mr_direction r = Receiving \<and> now < mr_approval_deadline r"
  by (auto simp: prepare_receiver_def Let_def split: if_splits sum.splits)

lemma mr_overwrite_starts:
  "mr_state (fst (mr_overwrite r dir now env)) = MtTransferring \<Longrightarrow> mr_state r \<noteq> MtTransferring \<Longrightarrow>
     mr_direction r = Receiving \<and> now < mr_approval_deadline r"
  by (auto simp: mr_overwrite_def Let_def case_prod_unfold split: if_splits sum.splits dest: prepare_receiver_starts)

lemma mr_handle_starts:
  "mr_state (fst (mr_handle sha256 r ev now env)) = MtTransferring \<Longrightarrow> mr_state r \<noteq> MtTransferring \<Longrightarrow>
     mr_direction r = Sending \<and> now < mr_approval_deadline r \<and> (\<exists>t. ev = ManualFileDecision t Accepted)"
  by (cases ev) (auto simp: mr_handle_def mr_decision_def mr_send_chunk_def mr_write_chunk_def complete_receiver_def
      receive_result_def Let_def
      split: if_splits option.splits transfer_direction.splits manual_decision.splits)

lemma op_record_starts:
  assumes "mr_state (fst (op_record sha256 now op k r)) = MtTransferring" and "mr_state r \<noteq> MtTransferring"
  shows "consented [(now, op)] k r"
proof (cases op)
  case (OpProtocol p fp ev settings penv env)
  show ?thesis
  proof (cases "\<exists>t. ev = ManualFileDecision t Accepted \<and> k = (fp, t)")
    case True
    with assms OpProtocol mr_handle_starts [of sha256 "r\<lparr>mr_peer := p\<rparr>" ev now env] show ?thesis
      by (auto simp: consented_def)
  next
    case False
    with assms OpProtocol mr_handle_starts [of sha256 "r\<lparr>mr_peer := p\<rparr>" ev now env] show ?thesis
      by (cases ev) (auto split: if_splits)
  qed
qed (use assms in \<open>auto simp: consented_def mr_decline_def mr_cancel_def mr_tick_def mr_retry_def mr_expire_def
    mr_refresh_def Let_def split: if_splits option.splits dest: prepare_receiver_starts mr_overwrite_starts\<close>)

lemma consented_mono: "consented ops k r \<Longrightarrow> set ops \<subseteq> set ops' \<Longrightarrow> rec_step r r' \<Longrightarrow> consented ops' k r'"
  by (fastforce simp: consented_def rec_step_def)

lemma op_creates_starts:
  "op_creates now op k r \<Longrightarrow> mr_state r = MtTransferring \<Longrightarrow> consented [(now, op)] k r"
proof (cases op)
  case (OpProtocol p fp ev settings penv env)
  assume c: "op_creates now op k r" and st: "mr_state r = MtTransferring"
  from c OpProtocol obtain t name sz where ev: "ev = ManualFileOffer t name sz" "k = (fp, t)"
    and r: "r = auto_prepared (receiver_record p fp t name sz (rs_download_directory settings) now) settings now penv" by auto
  have "rec_step (receiver_record p fp t name sz (rs_download_directory settings) now) r"
    unfolding r by (rule auto_prepared_keeps [OF receiver_record_ok, unfolded rec_keeps_def, THEN conjunct2])
  then have "mr_direction r = Receiving" "mr_approval_deadline r = now + APPROVAL_TIMEOUT"
    by (simp_all add: rec_step_def receiver_record_def)
  moreover have "rs_auto_accept settings" using st r by (auto simp: auto_prepared_def receiver_record_def split: if_splits)
  ultimately show ?thesis using OpProtocol ev by (simp add: consented_def manual_consts)
qed (auto simp: sender_record_def Let_def)

lemma mt_reach_consent:
  "mt_reach sha256 ops s \<Longrightarrow> hm_get (mt_records s) k = Some r \<Longrightarrow>
     messages_ok r \<and> (mr_state r = MtTransferring \<longrightarrow> consented ops k r)"
proof (induction arbitrary: k r rule: mt_reach.induct)
  case init
  then show ?case by (simp add: mt_new_def hash_map)
next
  case (step ops s now op s' as)
  note ok = mt_reach_ok [OF step.hyps(1)]
  have "hm_get (mt_records (fst (mt_apply sha256 s now op))) k = Some r" using step by simp
  from mt_apply_get [OF ok this] show ?case
  proof (elim disjE exE conjE)
    fix r0 assume r0: "hm_get (mt_records s) k = Some r0" "r = fst (op_record sha256 now op k r0)"
    note ih = step.IH [OF r0(1)]
    have rs: "rec_step r0 r" using op_record_keeps [OF mt_okD(2) [OF ok r0(1)]] r0(2) by (simp add: rec_keeps_def)
    have "consented (ops @ [(now, op)]) k r" if "mr_state r = MtTransferring"
    proof (cases "mr_state r0 = MtTransferring")
      case True
      with ih show ?thesis using consented_mono [OF _ _ rs, of ops k "ops @ [(now, op)]"] by auto
    next
      case False
      with op_record_starts [of sha256 now op k r0] that r0(2) show ?thesis
        using consented_mono [OF _ _ rs, of "[(now, op)]" k "ops @ [(now, op)]"] by auto
    qed
    with ih op_record_messages r0(2) show ?thesis by blast
  next
    assume "op_creates now op k r"
    with op_creates_messages op_creates_starts [of now op k r] consented_mono [of "[(now, op)]" k r "ops @ [(now, op)]" r]
    show ?thesis by simp blast
  qed
qed

section \<open>Who sends data\<close>

fun no_chunk :: "'p manual_action \<Rightarrow> bool" where
  "no_chunk (MtSend _ ev) = (\<not> is_chunk ev)"
| "no_chunk (MtNotify _) = True"

lemma no_chunk_simps [simp]:
  "no_chunk (mr_notify r)" "no_chunk (peer_failure p t e)" "no_chunk (mr_send r ev) = (\<not> is_chunk ev)"
  by (simp_all add: mr_notify_def peer_failure_def mr_send_def)

lemma mr_fail_no_chunk [simp]: "list_all no_chunk (snd (mr_fail r e b now))"
  by (simp add: mr_fail_def Let_def)

lemma mr_progress_no_chunk [simp]: "list_all no_chunk (snd (mr_progress r now))"
  by (simp add: mr_progress_def Let_def)

lemma finish_receiver_no_chunk [simp]: "list_all no_chunk (snd (finish_receiver sha256 r inc digest now env))"
  by (auto simp: finish_receiver_def Let_def case_prod_unfold split: sum.split option.split)

lemma prepare_receiver_no_chunk [simp]: "list_all no_chunk (snd (prepare_receiver r dir now automatic env))"
  by (auto simp: prepare_receiver_def receiver_prepared_def Let_def split: sum.split)

lemma set_destination_no_chunk [simp]: "no_chunk (set_destination dir a) = no_chunk a"
  by (cases "(dir, a)" rule: set_destination.cases) auto

lemma mr_overwrite_no_chunk [simp]: "list_all no_chunk (snd (mr_overwrite r dir now env))"
  using prepare_receiver_no_chunk
  by (auto simp: mr_overwrite_def Let_def case_prod_unfold list.pred_map comp_def split: sum.split)

lemma mr_write_chunk_no_chunk [simp]: "list_all no_chunk (snd (mr_write_chunk sha256 r x data now env))"
  by (auto simp: mr_write_chunk_def chunk_written_def Let_def case_prod_unfold
      split: option.split prod.split sum.split bool.split)

lemma mr_decision_no_chunk [simp]: "list_all no_chunk (snd (mr_decision r decision now))"
  by (auto simp: mr_decision_def Let_def split: transfer_direction.split manual_decision.split)

lemma mr_send_chunk_source:
  assumes "\<not> list_all no_chunk (snd (mr_send_chunk sha256 r x len now env))"
  shows "mr_direction r = Sending \<and> mr_state r = MtTransferring"
proof (cases rule: mr_send_chunk_cases [of sha256 r x len now env])
  case (kept as)
  with assms show ?thesis by auto
qed (use assms in auto)

lemma mr_handle_source:
  assumes "\<not> list_all no_chunk (snd (mr_handle sha256 r ev now env))"
  shows "mr_direction r = Sending \<and> mr_state r = MtTransferring"
  using assms mr_send_chunk_source [of sha256 r _ _ now env]
  by (cases ev) (auto simp: mr_handle_def complete_receiver_def receive_result_def Let_def split: if_splits option.splits)

lemma op_record_source:
  assumes m: "messages_ok r" and c: "\<not> list_all no_chunk (snd (op_record sha256 now op k r))"
  shows "mr_direction r = Sending \<and> mr_state r = MtTransferring"
proof (cases op)
  case (OpProtocol p fp ev settings penv env)
  with c mr_handle_source [of sha256 "r\<lparr>mr_peer := p\<rparr>" ev now env] show ?thesis
    by (cases ev) (auto split: if_splits)
qed (use m c in \<open>auto simp: mr_decline_def mr_cancel_def mr_tick_def mr_retry_def mr_expire_def mr_refresh_def
    messages_ok_def Let_def split: if_splits option.splits\<close>)

text \<open>The id in a chunk is that of the record.\<close>

lemma sender_respond_sends:
  "MtSend q (ManualFileChunk t y data) \<in> set (snd (sender_respond r x len ev now)) \<Longrightarrow> ev = ManualFileChunk t y data"
  by (auto simp: sender_respond_def mr_progress_def mr_send_def mr_notify_def Let_def split: if_splits)

lemma no_chunk_member: "list_all no_chunk as \<Longrightarrow> MtSend q (ManualFileChunk t y data) \<in> set as \<Longrightarrow> False"
  by (auto simp: list_all_iff is_chunk_def)

lemma mr_send_chunk_id:
  assumes a: "MtSend q (ManualFileChunk t y data) \<in> set (snd (mr_send_chunk sha256 r x len now env))" and m: "messages_ok r"
  shows "t = mr_id r"
proof (cases rule: mr_send_chunk_cases [of sha256 r x len now env])
  case (fail e q)
  with a show ?thesis by (auto dest: no_chunk_member [OF mr_fail_no_chunk])
next
  case (kept as)
  with a show ?thesis by (auto simp: peer_failure_def)
next
  case (cached ev)
  with a m show ?thesis by (auto simp: mr_send_def messages_ok_def)
next
  case (read og r1 ev)
  from a read(1) have "ev = ManualFileChunk t y data" by (auto dest: sender_respond_sends)
  with sender_read_event [OF read(3) m] show ?thesis by auto
qed

lemma mr_handle_id:
  assumes a: "MtSend q (ManualFileChunk t y data) \<in> set (snd (mr_handle sha256 r ev now env))" and m: "messages_ok r"
  shows "t = mr_id r"
proof (cases "\<exists>i x len. ev = ManualFileRequest i x len")
  case True
  with a m mr_send_chunk_id show ?thesis by (auto simp: mr_handle_def)
next
  case False
  then have "list_all no_chunk (snd (mr_handle sha256 r ev now env))"
    by (cases ev) (auto simp: mr_handle_def complete_receiver_def receive_result_def Let_def split: option.splits)
  from no_chunk_member [OF this a] show ?thesis ..
qed

lemma op_record_id:
  assumes a: "MtSend q (ManualFileChunk t y data) \<in> set (snd (op_record sha256 now op k r))" and m: "messages_ok r"
  shows "t = mr_id r"
proof (cases op)
  case (OpProtocol p fp ev settings penv env)
  from m have m': "messages_ok (r\<lparr>mr_peer := p\<rparr>)" by simp
  show ?thesis
  proof (cases "\<exists>i n z. ev = ManualFileOffer i n z")
    case True
    with a OpProtocol not_chunk(1) [of "r\<lparr>mr_peer := p\<rparr>"] show ?thesis
      by (auto simp: mr_send_def is_chunk_def split: if_splits) metis
  next
    case False
    then have "op_record sha256 now op k r = (if manual_event_id ev \<noteq> None \<and> k = (fp, the (manual_event_id ev))
            then mr_handle sha256 (r\<lparr>mr_peer := p\<rparr>) ev now env else (r, []))"
      using OpProtocol by (cases ev) auto
    with a mr_handle_id [OF _ m'] show ?thesis by (auto split: if_splits)
  qed
next
  case OpTick
  have "mr_retry_event r \<noteq> Some (ManualFileChunk t y data)" using m by (auto simp: messages_ok_def is_chunk_def)
  with a OpTick show ?thesis
    by (auto simp: mr_tick_def mr_retry_def mr_expire_def mr_send_def mr_notify_def Let_def split: if_splits option.splits)
qed (use a m in \<open>auto simp: mr_decline_def mr_cancel_def mr_refresh_def mr_send_def mr_notify_def Let_def
    split: if_splits option.splits
    dest: no_chunk_member [OF prepare_receiver_no_chunk] no_chunk_member [OF mr_overwrite_no_chunk]\<close>)

lemma mr_decline_no_chunk: "list_all no_chunk (snd (mr_decline r now))"
  by (simp add: mr_decline_def Let_def)

lemma mr_cancel_no_chunk: "list_all no_chunk (snd (mr_cancel r now))"
  by (simp add: mr_cancel_def Let_def)

lemma mt_send_files_no_chunk: "list_all no_chunk (snd (mt_send_files s p fp paths now))"
  by (induction s p fp paths now rule: mt_send_files.induct)
    (auto simp: case_prod_unfold Let_def split: option.split sum.split)

lemma mt_receive_offer_no_chunk: "list_all no_chunk (snd (mt_receive_offer s p fp t name sz settings now env))"
  using prepare_receiver_no_chunk
  by (auto simp: mt_receive_offer_def case_prod_unfold Let_def split: option.split)

lemma unknown_record_no_chunk: "list_all no_chunk (unknown_record_answer p ev)"
  by (auto simp: unknown_record_answer_def split: proto_event.split manual_decision.split)

lemma mt_handle_chunk:
  assumes "MtSend q (ManualFileChunk t y data) \<in> set (snd (mt_handle_protocol sha256 s p fp ev settings now penv env))"
  shows "\<exists>k r. hm_get (mt_records s) k = Some r
    \<and> MtSend q (ManualFileChunk t y data) \<in> set (snd (op_record sha256 now (OpProtocol p fp ev settings penv env) k r))"
proof (cases "\<exists>i n z. ev = ManualFileOffer i n z")
  case True
  with assms show ?thesis
    by (auto simp: mt_handle_protocol_def dest: no_chunk_member [OF mt_receive_offer_no_chunk])
next
  case False
  show ?thesis
  proof (cases "manual_event_id ev")
    case None
    with False assms show ?thesis by (cases ev) (auto simp: mt_handle_protocol_def)
  next
    case (Some i)
    let ?h = "\<lambda>r. mr_handle sha256 (r\<lparr>mr_peer := p\<rparr>) ev now env"
    have rec: "op_record sha256 now (OpProtocol p fp ev settings penv env) (fp, i) r = ?h r" for r
      using False Some by (cases ev) auto
    have "mt_handle_protocol sha256 s p fp ev settings now penv env =
        (if hm_get (mt_records s) (fp, i) = None then (s, unknown_record_answer p ev) else mt_update ?h (fp, i) s)"
      using False Some by (cases ev) (auto simp: mt_handle_protocol_def)
    with assms have "MtSend q (ManualFileChunk t y data) \<in> set (snd (mt_update ?h (fp, i) s))"
      by (auto split: if_splits dest: no_chunk_member [OF unknown_record_no_chunk])
    from protocol.update_actions [OF this] rec show ?thesis by metis
  qed
qed

lemma mt_apply_chunk:
  assumes ok: "mt_ok s" and a: "MtSend q (ManualFileChunk t y data) \<in> set (snd (mt_apply sha256 s now op))"
  shows "\<exists>k r. hm_get (mt_records s) k = Some r
    \<and> MtSend q (ManualFileChunk t y data) \<in> set (snd (op_record sha256 now op k r))"
proof (cases op)
  case (OpSendFiles p fp paths)
  with a show ?thesis by (auto dest: no_chunk_member [OF mt_send_files_no_chunk])
next
  case (OpProtocol p fp ev settings penv env)
  show ?thesis using a unfolding OpProtocol mt_apply.simps by (rule mt_handle_chunk)
next
  case (OpAccept fp i dir penv)
  with a show ?thesis by (auto simp: mt_accept_def dest!: accept.update_actions no_chunk_member [OF prepare_receiver_no_chunk])
next
  case (OpOverwrite fp i dir penv)
  with a show ?thesis by (auto simp: mt_overwrite_def dest!: overwrite.update_actions no_chunk_member [OF mr_overwrite_no_chunk])
next
  case (OpDecline fp i)
  with a show ?thesis
    by (auto simp: mt_decline_def dest!: decline.update_actions no_chunk_member [OF mr_decline_no_chunk])
next
  case (OpCancel fp i)
  with a show ?thesis
    by (auto simp: mt_cancel_def dest!: cancel.update_actions no_chunk_member [OF mr_cancel_no_chunk])
next
  case OpTick
  with a have "MtSend q (ManualFileChunk t y data) \<in> set (snd (mt_update_all (\<lambda>r. mr_tick r now) (map fst (mt_records s)) s))"
    by (simp add: mt_tick_def)
  from tick.update_all_actions [OF ok distinct_keys [OF ok] this] OpTick show ?thesis by auto
next
  case (OpRefreshRoutes routes)
  with a have "MtSend q (ManualFileChunk t y data) \<in> set (snd (mt_update_all (mr_refresh routes now) (map fst (mt_records s)) s))"
    by (simp add: mt_refresh_routes_def)
  from refresh.update_all_actions [OF ok distinct_keys [OF ok] this] OpRefreshRoutes show ?thesis by auto
qed

section \<open>Properties\<close>

text \<open>C6: in every state the table can reach, whatever peers, user and timers do, at most 32 transfers are
  active and at most 100 finished ones are remembered, the queue of finished transfers holds exactly the
  keys of the finished records, and every record agrees with the file it reads or writes.\<close>

theorem manual_transfers_invariant:
  assumes "mt_reach sha256 ops s"
  shows "active_count s \<le> 32 \<and> length (mt_terminal s) \<le> 100 \<and> length (mt_records s) \<le> 132
    \<and> (\<forall>k. k \<in> set (mt_terminal s) \<longleftrightarrow> (\<exists>r. hm_get (mt_records s) k = Some r \<and> is_terminal (mr_state r)))
    \<and> (\<forall>k r. hm_get (mt_records s) k = Some r \<longrightarrow> mr_key r = k \<and> rec_ok r)"
proof -
  have ok: "mt_ok s" using assms by (rule mt_reach_ok)
  let ?ended = "filter (\<lambda>e. \<not> active_rec e) (mt_records s)"
  have "set (map fst ?ended) \<subseteq> set (mt_terminal s)"
  proof
    fix k assume "k \<in> set (map fst ?ended)"
    then obtain r where "(k, r) \<in> set (mt_records s)" "is_terminal (mr_state r)" by auto
    then have "hm_get (mt_records s) k = Some r" using hm_get_set [OF mt_ok_hm [OF ok]] by simp
    from mt_okD(3) [OF ok this] \<open>is_terminal _\<close> show "k \<in> set (mt_terminal s)" by simp
  qed
  then have "card (set (map fst ?ended)) \<le> card (set (mt_terminal s))" by (intro card_mono) simp_all
  moreover have "card (set (map fst ?ended)) = length ?ended"
    using distinct_card [OF distinct_map_filter [OF distinct_keys [OF ok]]] by (metis length_map)
  ultimately have "length ?ended \<le> length (mt_terminal s)" using card_length [of "mt_terminal s"] by linarith
  then have "length (mt_records s) \<le> active_count s + length (mt_terminal s)"
    using sum_length_filter_compl [of active_rec "mt_records s"] by (simp add: active_count_def)
  with ok show ?thesis by (auto simp: mt_ok_def table_ok_def records_ok_def active_count_def manual_consts)
qed

text \<open>C25: a transfer keeps its identity and its end. No operation changes the peer fingerprint, id, name,
  size, direction or approval deadline of a record that stays in the table (a repeated offer in particular
  does not extend the deadline), and a completed, declined, cancelled or failed transfer never changes
  its state, its error or the bytes it reports again.\<close>

theorem manual_transfer_end_is_final:
  assumes "mt_reach sha256 ops s" and "mt_apply sha256 s now op = (s', as)"
    and "hm_get (mt_records s) k = Some r" and "hm_get (mt_records s') k = Some r'"
  shows "rec_step r r'"
proof -
  note ok = mt_reach_ok [OF assms(1)]
  from mt_apply_get [OF ok, of sha256 now op k r'] assms have "r' = fst (op_record sha256 now op k r)" by auto
  with op_record_keeps [OF mt_okD(2) [OF ok assms(3)]] show ?thesis by (simp add: rec_keeps_def)
qed

text \<open>C5: no data without consent. If an operation sends a chunk of transfer \<open>t\<close>, then the table has a
  sending record with that id whose peer had accepted the offer, before the approval deadline, in an
  earlier operation. And a file is open for receiving only if the offer was accepted before its deadline:
  by the user, or because the settings accept offers automatically when it arrived.\<close>

theorem manual_transfer_consent:
  assumes reach: "mt_reach sha256 ops s"
  shows "(MtSend q (ManualFileChunk t y data) \<in> set (snd (mt_apply sha256 s now op)) \<longrightarrow>
      (\<exists>fp r. hm_get (mt_records s) (fp, t) = Some r \<and> mr_direction r = Sending
         \<and> (\<exists>(now', op') \<in> set ops. now' < mr_approval_deadline r \<and> peer_accepts op' (fp, t))))
    \<and> (\<forall>k r. hm_get (mt_records s) k = Some r \<and> mr_incoming r \<noteq> None \<longrightarrow>
         (\<exists>(now', op') \<in> set ops. now' < mr_approval_deadline r \<and> accepted_here op' k))"
proof (intro conjI impI allI)
  note ok = mt_reach_ok [OF reach]
  assume "MtSend q (ManualFileChunk t y data) \<in> set (snd (mt_apply sha256 s now op))"
  from mt_apply_chunk [OF ok this] obtain k r where r: "hm_get (mt_records s) k = Some r"
    and a: "MtSend q (ManualFileChunk t y data) \<in> set (snd (op_record sha256 now op k r))" by blast
  note c = mt_reach_consent [OF reach r]
  have d: "mr_direction r = Sending" "mr_state r = MtTransferring"
    using op_record_source [of r sha256 now op k] c no_chunk_member [OF _ a] by blast+
  have "k = (fst k, t)" using op_record_id [OF a] c mt_okD(1) [OF ok r] by (auto simp: mr_key_def)
  with c d r show "\<exists>fp r. hm_get (mt_records s) (fp, t) = Some r \<and> mr_direction r = Sending
         \<and> (\<exists>(now', op') \<in> set ops. now' < mr_approval_deadline r \<and> peer_accepts op' (fp, t))"
    by (auto simp: consented_def intro!: exI [of _ "fst k"] exI [of _ r])
next
  fix k r assume r: "hm_get (mt_records s) k = Some r \<and> mr_incoming r \<noteq> None"
  have "rec_ok r" using mt_okD(2) [OF mt_reach_ok [OF reach]] r by blast
  then have "mr_direction r = Receiving" "mr_state r = MtTransferring"
    using r by (cases "mr_direction r"; auto simp: rec_ok_def)+
  with mt_reach_consent [OF reach, of k r] r
  show "\<exists>(now', op') \<in> set ops. now' < mr_approval_deadline r \<and> accepted_here op' k" by (simp add: consented_def)
qed

section \<open>Witnesses\<close>

definition demo_send_env :: send_env where
  "demo_send_env = \<lparr>se_random = (\<lambda>_. Some 7), se_join = None, se_fs = demo_fs\<rparr>"

definition demo_prepare :: prepare_env where
  "demo_prepare = \<lparr>pe_staging = Inr (lit ''/t/s''), pe_create_dir_all = None, pe_canonical = Inr [lit ''t''],
     pe_fs = demo_env None, pe_disk = demo_disk, pe_target_exists = False\<rparr>"

definition demo_file :: file_env where
  "demo_file = \<lparr>xe_open = \<lparr>oe_open = None, oe_meta = Inr (True, demo_meta), oe_seek = None\<rparr>,
     xe_read = steady_reads demo_meta [5, 6, 7] (\<lambda>_. 4) 0, xe_meta = Inr demo_meta,
     xe_write = None, xe_flush = None, xe_rename = None\<rparr>"

definition demo_settings :: file_receive_settings where
  "demo_settings = \<lparr>rs_auto_accept = True, rs_download_directory = lit ''/t''\<rparr>"

definition demo_send :: "nat mt_op" where
  "demo_send = OpSendFiles 1 (lit ''p'') [(lit ''/a'', demo_send_env)]"

definition demo_message :: "proto_event \<Rightarrow> nat mt_op" where
  "demo_message ev = OpProtocol 1 (lit ''p'') ev demo_settings demo_prepare demo_file"

definition demo_file_offer :: "source_map file_offer" where
  "demo_file_offer = \<lparr>fo_transfer_id = 7,
     fo_entries = [\<lparr>me_file_id = 1, me_path = lit ''a'', me_kind = File, me_size = 3\<rparr>],
     fo_sources = [(1, (lit ''/a'', identity_from_metadata demo_meta))]\<rparr>"

definition demo_sender :: "nat manual_record" where
  "demo_sender = sender_record 1 (lit ''p'') 7 demo_file_offer 0"

definition demo_accepted :: "nat manual_record" where
  "demo_accepted = demo_sender\<lparr>mr_state := MtTransferring, mr_retry_event := None, mr_last_activity := 1\<rparr>"

lemma demo_regular_file: "from_regular_file demo_fs 7 (lit ''/a'') = Inr demo_file_offer"
proof -
  have "validate_manual_file_name (lit ''a'') = Inr ()" by code_simp
  then show ?thesis
    by (simp add: from_regular_file_def demo_fs_def demo_file_offer_def path_file_name_def path_components_def
        path_component_def starts_with_byte_def lit_def demo_meta_def)
qed

lemma demo_transfer_id: "next_transfer_id mt_new (\<lambda>_. Some 7) = Some 7"
proof -
  have "next_transfer_id_loop mt_new (\<lambda>_. Some 7) 0 (Suc n) = Some 7" for n by (simp add: mt_new_def)
  from this [of 15] show ?thesis by (simp add: next_transfer_id_def)
qed

lemma demo_send_result:
  "fst (mt_apply rev mt_new 0 demo_send) = \<lparr>mt_records = [((lit ''p'', 7), demo_sender)], mt_terminal = []\<rparr>"
proof -
  have "active_count (mt_new :: nat manual_transfers) = 0" by (simp add: mt_new_def active_count_def)
  then show ?thesis
    by (simp add: demo_transfer_id demo_regular_file [simplified] demo_send_def demo_send_env_def manual_consts Let_def mt_store_def)
      (simp add: mt_new_def demo_sender_def sender_record_def mr_key_def Let_def)
qed

lemma demo_accept_result:
  "fst (mt_apply rev \<lparr>mt_records = [((lit ''p'', 7), demo_sender)], mt_terminal = []\<rparr> 1
       (demo_message (ManualFileDecision 7 Accepted)))
   = \<lparr>mt_records = [((lit ''p'', 7), demo_accepted)], mt_terminal = []\<rparr>"
  by (simp add: demo_message_def mt_handle_protocol_def mt_update_def hm_get_def hm_remove_def hm_retain_def
      mr_handle_def mr_decision_def demo_sender_def sender_record_def demo_accepted_def mt_store_def mr_key_def
      manual_consts Let_def)

lemma demo_chunk_sent:
  "MtSend 1 (ManualFileChunk 7 0 [5, 6, 7]) \<in> set (snd (mt_apply rev
     \<lparr>mt_records = [((lit ''p'', 7), demo_accepted)], mt_terminal = []\<rparr> 2 (demo_message (ManualFileRequest 7 0 4))))"
proof -
  have "identity_matches (identity_from_metadata demo_meta) demo_meta"
    by (simp add: identity_matches_def identity_from_metadata_def demo_meta_def)
  then show ?thesis
    by (simp add: demo_message_def mt_handle_protocol_def mt_update_def hm_get_def hm_remove_def hm_retain_def
      mr_handle_def mr_send_chunk_def demo_sender_def sender_record_def demo_accepted_def mt_store_def mr_key_def
      manual_consts Let_def sender_open_def offer_open_def demo_file_def sender_read_def next_chunk_bounded_def
      steady_reads_def check_identity_def chunk_request_def MAX_READ_def const_defs read_loop.simps checked_add_def
      demo_file_offer_def sender_respond_def mr_progress_def mr_send_def)
qed

lemma demo_reach:
  "mt_reach rev [(0, demo_send)] \<lparr>mt_records = [((lit ''p'', 7), demo_sender)], mt_terminal = []\<rparr>"
  "mt_reach rev [(0, demo_send), (1, demo_message (ManualFileDecision 7 Accepted))]
     \<lparr>mt_records = [((lit ''p'', 7), demo_accepted)], mt_terminal = []\<rparr>"
proof -
  show 1: "mt_reach rev [(0, demo_send)] \<lparr>mt_records = [((lit ''p'', 7), demo_sender)], mt_terminal = []\<rparr>"
    using mt_reach.step [OF mt_reach.init, of rev 0 demo_send] demo_send_result by (metis append_Nil surjective_pairing)
  show "mt_reach rev [(0, demo_send), (1, demo_message (ManualFileDecision 7 Accepted))]
     \<lparr>mt_records = [((lit ''p'', 7), demo_accepted)], mt_terminal = []\<rparr>"
    using mt_reach.step [OF 1, of 1 "demo_message (ManualFileDecision 7 Accepted)"] demo_accept_result
    by (metis append.simps surjective_pairing)
qed

theorem manual_transfers_invariant_witness:
  "active_count \<lparr>mt_records = [((lit ''p'', 7), demo_accepted)], mt_terminal = []\<rparr> \<le> 32 \<and> rec_ok demo_accepted"
  using manual_transfers_invariant [OF demo_reach(2)] by (auto simp: hm_get_def)

theorem manual_transfer_end_is_final_witness:
  "rec_step demo_sender demo_accepted"
proof -
  obtain as where "mt_apply rev \<lparr>mt_records = [((lit ''p'', 7), demo_sender)], mt_terminal = []\<rparr> 1
       (demo_message (ManualFileDecision 7 Accepted))
     = (\<lparr>mt_records = [((lit ''p'', 7), demo_accepted)], mt_terminal = []\<rparr>, as)"
    using demo_accept_result by (metis surjective_pairing)
  from manual_transfer_end_is_final [OF demo_reach(1) this, of "(lit ''p'', 7)"] show ?thesis by (simp add: hm_get_def)
qed

theorem manual_transfer_consent_witness:
  "\<exists>(now, op) \<in> {(0, demo_send), (1, demo_message (ManualFileDecision 7 Accepted))}.
     now < mr_approval_deadline demo_accepted \<and> peer_accepts op (lit ''p'', 7)"
proof -
  from manual_transfer_consent [OF demo_reach(2), of 1 7 0 "[5, 6, 7]" 2 "demo_message (ManualFileRequest 7 0 4)"]
    demo_chunk_sent
  show ?thesis by (auto simp: hm_get_def split: if_splits)
qed

end
