(* ===== verification/Manual_Progress.thy ===== *)
theory Manual_Progress
  imports Manual_Steps
begin

text \<open>
  The ends of manual transfers: a completed file is the file whose digest the peer announced, and a
  transfer whose peer is silent does not stay active.
\<close>

section \<open>Completion\<close>

lemma finish_receiver_completed:
  assumes h: "file_holds inc FILE_ID (mr_size r) content"
    and c: "mr_state (fst (finish_receiver sha256 r inc digest now env)) = MtCompleted"
  shows "length content = unat (mr_size r) \<and> sha256 content = digest"
proof -
  obtain inc1 res where f: "incoming_finalize_file sha256 inc FILE_ID (mr_size r) digest (xe_flush env) = (inc1, res)"
    by (rule prod.exhaust)
  show ?thesis
  proof (cases res)
    case (Inl e)
    with c f show ?thesis by (simp add: finish_receiver_def)
  next
    case (Inr u)
    from finalize_holds [OF h f [unfolded Inr]] show ?thesis by simp
  qed
qed

text \<open>How a receiving record completes: by the digest that arrives last, or by the last chunk when the
  digest came early.\<close>

definition verified_by :: "(bytes \<Rightarrow> bytes) \<Rightarrow> 'p manual_record \<Rightarrow> proto_event \<Rightarrow> bool" where
  "verified_by sha256 r ev \<longleftrightarrow> (\<exists>inc content digest. mr_incoming r = Some inc
     \<and> file_holds inc FILE_ID (mr_size r) content
     \<and> (ev = ManualFileComplete (mr_id r) digest
          \<and> length content = unat (mr_size r) \<and> sha256 content = digest
        \<or> (\<exists>data. ev = ManualFileChunk (mr_id r) (word_of_nat (length content)) data \<and> mr_early_digest r = Some digest
          \<and> length (content @ data) = unat (mr_size r) \<and> sha256 (content @ data) = digest)))"

lemma target_content:
  "rec_ok r \<Longrightarrow> mr_direction r = Receiving \<Longrightarrow> mr_incoming r = Some inc \<Longrightarrow>
     \<exists>content. file_holds inc FILE_ID (mr_size r) content \<and> length content = unat (mr_transferred r)"
  by (auto simp: rec_ok_def target_ok_def)

lemma complete_receiver_completed:
  assumes ok: "rec_ok r" and d: "mr_direction r = Receiving" and nt: "\<not> is_terminal (mr_state r)"
    and c: "mr_state (fst (complete_receiver sha256 r digest now env)) = MtCompleted"
  shows "verified_by sha256 r (ManualFileComplete (mr_id r) digest)"
proof -
  from d nt c obtain inc where inc: "mr_incoming r = Some inc"
    and f: "mr_state (fst (finish_receiver sha256 r inc digest now env)) = MtCompleted"
    by (auto simp: complete_receiver_def Let_def split: option.splits if_splits)
  from target_content [OF ok d inc] obtain content where "file_holds inc FILE_ID (mr_size r) content" by blast
  with finish_receiver_completed [OF this f] inc show ?thesis by (auto simp: verified_by_def)
qed

lemma mr_progress_state [simp]: "mr_state (fst (mr_progress r now)) = mr_state r"
  by (simp add: mr_progress_def Let_def)

lemma mr_write_chunk_completed:
  assumes ok: "rec_ok r" and d: "mr_direction r = Receiving" and nt: "\<not> is_terminal (mr_state r)"
    and c: "mr_state (fst (mr_write_chunk sha256 r x data now env)) = MtCompleted"
  shows "verified_by sha256 r (ManualFileChunk (mr_id r) x data)"
proof -
  have st: "mr_state r \<noteq> MtCompleted" using nt by auto
  obtain inc where inc: "mr_incoming r = Some inc"
    using d nt c st by (cases "mr_incoming r") (auto simp: mr_write_chunk_def)
  obtain fin where fin: "checked_add x (word_of_nat (length data)) = Some fin"
    using d nt c st inc by (cases "checked_add x (word_of_nat (length data))") (auto simp: mr_write_chunk_def split: if_splits)
  have good: "\<not> (data = [] \<or> length data > MAX_MANUAL_FILE_CHUNK_SIZE \<or> fin > mr_size r)" "x = mr_transferred r"
    "mr_state r = MtTransferring"
    using d nt c st inc fin by (auto simp: mr_write_chunk_def split: if_splits)
  obtain inc' res where w: "incoming_write_chunk inc FILE_ID x data (xe_write env) = (inc', res)" by (rule prod.exhaust)
  obtain u where u: "res = Inr u" using d nt c st inc fin good w by (cases res) (auto simp: mr_write_chunk_def)
  have cw: "mr_state (fst (chunk_written sha256 r inc' fin now env)) = MtCompleted"
    using d nt c inc fin good w u by (simp add: mr_write_chunk_def)
  then obtain digest where e: "fin = mr_size r" "mr_early_digest r = Some digest"
    and f: "mr_state (fst (finish_receiver sha256 (r\<lparr>mr_incoming := Some inc', mr_transferred := fin, mr_last_activity := now,
        mr_retries := 0, mr_early_digest := None\<rparr>) inc' digest now env)) = MtCompleted"
    using good(3) by (auto simp: chunk_written_def Let_def case_prod_unfold split: bool.splits option.splits)
  from target_content [OF ok d inc] obtain content where h: "file_holds inc FILE_ID (mr_size r) content"
    and l: "length content = unat (mr_transferred r)" by blast
  from incoming_write_chunk_holds [OF h w] u have h': "file_holds inc' FILE_ID (mr_size r) (content @ data)" by simp
  have "x = word_of_nat (length content)" using l good(2) by simp
  with finish_receiver_completed [OF _ f, of "content @ data"] h h' e inc show ?thesis
    by (auto simp: verified_by_def)
qed

lemma prepare_receiver_state:
  "mr_state (fst (prepare_receiver r dir now automatic env)) = MtCompleted \<Longrightarrow> mr_state r = MtCompleted"
  by (auto simp: prepare_receiver_def receiver_prepared_def Let_def split: if_splits sum.splits)

lemma mr_overwrite_state:
  "mr_state (fst (mr_overwrite r dir now env)) = MtCompleted \<Longrightarrow> mr_state r = MtCompleted"
  by (auto simp: mr_overwrite_def Let_def case_prod_unfold split: if_splits sum.splits dest: prepare_receiver_state)

lemma mr_handle_completed:
  assumes ok: "rec_ok r" and d: "mr_direction r = Receiving" and nt: "\<not> is_terminal (mr_state r)"
    and id: "manual_event_id ev = Some (mr_id r)"
    and c: "mr_state (fst (mr_handle sha256 r ev now env)) = MtCompleted"
  shows "verified_by sha256 r ev"
  using assms complete_receiver_completed [OF ok d nt] mr_write_chunk_completed [OF ok d nt]
  by (cases ev) (auto simp: mr_handle_def mr_decision_def mr_send_chunk_def receive_result_def Let_def
      split: if_splits manual_decision.splits)

text \<open>C7: a received file is complete only when it is whole. If an operation completes a receiving
  transfer, it is a message of that transfer from its peer, and the bytes written to the file, in order,
  are as many as offered and have the digest the peer sent with its completion message.\<close>

theorem manual_completed_is_verified:
  assumes reach: "mt_reach sha256 ops s" and op: "mt_apply sha256 s now op = (s', as)"
    and r: "hm_get (mt_records s) (fp, t) = Some r" and r': "hm_get (mt_records s') (fp, t) = Some r'"
    and d: "mr_direction r = Receiving" and st: "mr_state r \<noteq> MtCompleted" "mr_state r' = MtCompleted"
  shows "\<exists>p ev settings penv env. op = OpProtocol p fp ev settings penv env \<and> manual_event_id ev = Some t
    \<and> verified_by sha256 r ev"
proof -
  note ok = mt_reach_ok [OF reach]
  have rok: "rec_ok r" and key: "mr_id r = t" using mt_okD [OF ok r] by (auto simp: mr_key_def)
  have eq: "r' = fst (op_record sha256 now op (fp, t) r)"
    using mt_apply_get [OF ok, of sha256 now op "(fp, t)" r'] op r r' by auto
  have nt: "\<not> is_terminal (mr_state r)"
    using op_record_keeps [OF rok, of sha256 now op "(fp, t)"] eq st by (auto simp: rec_keeps_def rec_step_def)
  show ?thesis
  proof (cases op)
    case (OpProtocol p fp' ev settings penv env)
    have "manual_event_id ev = Some t \<and> fp' = fp \<and> mr_state (fst (mr_handle sha256 (r\<lparr>mr_peer := p\<rparr>) ev now env)) = MtCompleted"
      using eq st OpProtocol by (cases ev) (auto split: if_splits)
    with mr_handle_completed [of "r\<lparr>mr_peer := p\<rparr>" ev sha256 now env] rok d nt key OpProtocol show ?thesis
      by (auto simp: verified_by_def)
  qed (use eq st nt in \<open>auto simp: mr_decline_def mr_cancel_def mr_tick_def mr_retry_def mr_expire_def mr_refresh_def
      Let_def split: if_splits option.splits dest: prepare_receiver_state mr_overwrite_state\<close>)
qed

section \<open>Silence\<close>

fun mt_ticks :: "'p manual_transfers \<Rightarrow> nat list \<Rightarrow> 'p manual_transfers" where
  "mt_ticks s [] = s"
| "mt_ticks s (now # ts) = mt_ticks (fst (mt_tick s now)) ts"

fun mr_ticks :: "'p manual_record \<Rightarrow> nat list \<Rightarrow> 'p manual_record" where
  "mr_ticks r [] = r"
| "mr_ticks r (now # ts) = mr_ticks (fst (mr_tick r now)) ts"

lemma mt_ticks_get:
  "mt_ok s \<Longrightarrow> hm_get (mt_records (mt_ticks s ts)) k = Some r' \<Longrightarrow>
     \<exists>r. hm_get (mt_records s) k = Some r \<and> r' = mr_ticks r ts"
proof (induction ts arbitrary: s)
  case (Cons now ts)
  have "mt_ok (fst (mt_tick s now))" using Cons.prems(1) by (simp add: mt_tick_def tick.update_all_ok)
  from Cons.IH [OF this] Cons.prems(2) obtain r1 where
    r1: "hm_get (mt_records (fst (mt_tick s now))) k = Some r1" "r' = mr_ticks r1 ts" by auto
  from tick.update_every_get [OF Cons.prems(1), of now k r1] r1 show ?case by (auto simp: mt_tick_def)
qed simp

definition waits_for_peer :: "'p manual_record \<Rightarrow> bool" where
  "waits_for_peer r \<longleftrightarrow> mr_state r = MtOffering \<or> mr_state r = MtTransferring"

lemma mr_tick_waits:
  assumes "rec_ok r" "mr_last_activity r + RETRY_TIMEOUT \<le> now" "waits_for_peer (fst (mr_tick r now))"
  shows "waits_for_peer r \<and> mr_retries (fst (mr_tick r now)) = Suc (mr_retries r)
    \<and> mr_last_activity (fst (mr_tick r now)) = now"
proof -
  have "RETRY_TIMEOUT \<le> now - mr_last_activity r" using assms(2) by linarith
  then show ?thesis using assms(3)
    by (cases "mr_state r") (auto simp: mr_tick_def mr_retry_def mr_expire_def waits_for_peer_def Let_def split: if_splits)
qed

lemma mr_ticks_waits:
  "rec_ok r \<Longrightarrow> successively (\<lambda>a b. a + RETRY_TIMEOUT \<le> b) ts \<Longrightarrow>
     (ts \<noteq> [] \<longrightarrow> mr_last_activity r + RETRY_TIMEOUT \<le> hd ts) \<Longrightarrow> waits_for_peer (mr_ticks r ts) \<Longrightarrow>
     mr_retries r + length ts \<le> MAX_RETRIES"
proof (induction ts arbitrary: r)
  case Nil
  then show ?case by (simp add: rec_ok_def)
next
  case (Cons now ts)
  let ?r = "fst (mr_tick r now)"
  have rok: "rec_ok ?r" using mr_tick_keeps [OF Cons.prems(1)] by (simp add: rec_keeps_def)
  have act: "mr_last_activity r + RETRY_TIMEOUT \<le> now" using Cons.prems(3) by simp
  have still: "waits_for_peer ?r"
  proof (rule ccontr)
    assume n: "\<not> waits_for_peer ?r"
    have "\<not> waits_for_peer q \<Longrightarrow> \<not> waits_for_peer (mr_ticks q us)" for q :: "'a manual_record" and us
      by (induction us arbitrary: q)
        (auto simp: waits_for_peer_def mr_tick_def mr_retry_def mr_expire_def Let_def)
    with n Cons.prems(4) show False by simp
  qed
  note s = mr_tick_waits [OF Cons.prems(1) act still]
  have "mr_retries ?r + length ts \<le> MAX_RETRIES"
  proof (rule Cons.IH [OF rok])
    show "successively (\<lambda>a b. a + RETRY_TIMEOUT \<le> b) ts" using Cons.prems(2) by (cases ts) auto
    show "ts \<noteq> [] \<longrightarrow> mr_last_activity ?r + RETRY_TIMEOUT \<le> hd ts" using Cons.prems(2) s by (cases ts) auto
    show "waits_for_peer (mr_ticks ?r ts)" using Cons.prems(4) by simp
  qed
  with s show ?case by simp
qed

lemma mr_ticks_append: "mr_ticks r (ts @ [now]) = fst (mr_tick (mr_ticks r ts) now)"
  by (induction ts arbitrary: r) auto

lemma mr_tick_deadline:
  "mr_state (fst (mr_tick r now)) = MtAwaitingAcceptance \<Longrightarrow> now < mr_approval_deadline (fst (mr_tick r now))"
  by (auto simp: mr_tick_def mr_retry_def mr_expire_def Let_def split: if_splits)

text \<open>C21: a silent peer does not hold a transfer. After four ticks five seconds apart without a message, no
  transfer waits for its peer any more, neither one still offering nor one transferring; what is left
  active are offers that wait for the user, and only those whose approval deadline has not passed.\<close>

theorem manual_silence_ends_transfers:
  assumes reach: "mt_reach sha256 ops s"
    and gaps: "successively (\<lambda>a b. a + 5000 \<le> b) ts" and four: "4 \<le> length ts"
    and quiet: "\<forall>k r. hm_get (mt_records s) k = Some r \<longrightarrow> mr_last_activity r + 5000 \<le> hd ts"
    and r: "hm_get (mt_records (mt_ticks s ts)) k = Some r'"
  shows "is_terminal (mr_state r') \<or> mr_state r' = MtAwaitingAcceptance \<and> last ts < mr_approval_deadline r'"
proof -
  note ok = mt_reach_ok [OF reach]
  from mt_ticks_get [OF ok r] obtain r0 where r0: "hm_get (mt_records s) k = Some r0" "r' = mr_ticks r0 ts" by blast
  have "\<not> waits_for_peer r'"
    using mr_ticks_waits [OF mt_okD(2) [OF ok r0(1)], of ts] gaps four quiet r0
    by (auto simp: manual_consts)
  moreover have "last ts < mr_approval_deadline r'" if "mr_state r' = MtAwaitingAcceptance"
  proof -
    have "ts = butlast ts @ [last ts]" using four by (cases ts rule: rev_cases) auto
    then have "r' = fst (mr_tick (mr_ticks r0 (butlast ts)) (last ts))" using r0(2) mr_ticks_append by metis
    with mr_tick_deadline that show ?thesis by metis
  qed
  ultimately show ?thesis by (cases "mr_state r'") (auto simp: waits_for_peer_def)
qed

section \<open>Witnesses\<close>

lemma demo_ticks:
  "mt_ticks \<lparr>mt_records = [((lit ''p'', 7), demo_sender)], mt_terminal = []\<rparr> [5000, 10000, 15000, 20000] =
     \<lparr>mt_records = [((lit ''p'', 7), mr_ticks demo_sender [5000, 10000, 15000, 20000])], mt_terminal = [(lit ''p'', 7)]\<rparr>"
  by (simp add: mt_tick_def mt_update_def mt_store_def mr_key_def mr_tick_def mr_retry_def mr_expire_def mr_terminal_def
      demo_sender_def sender_record_def manual_consts hm_get_def hm_remove_def hm_retain_def Let_def)

theorem manual_silence_ends_transfers_witness:
  "\<exists>r. hm_get (mt_records (mt_ticks \<lparr>mt_records = [((lit ''p'', 7), demo_sender)], mt_terminal = []\<rparr>
         [5000, 10000, 15000, 20000])) (lit ''p'', 7) = Some r
     \<and> (is_terminal (mr_state r) \<or> mr_state r = MtAwaitingAcceptance \<and> 20000 < mr_approval_deadline r)"
proof -
  have "\<forall>k r. hm_get (mt_records \<lparr>mt_records = [((lit ''p'', 7), demo_sender)], mt_terminal = []\<rparr>) k = Some r \<longrightarrow>
      mr_last_activity r + 5000 \<le> hd [5000, 10000, 15000, 20000 :: nat]"
    by (auto simp: hm_get_def demo_sender_def sender_record_def Let_def split: if_splits)
  with manual_silence_ends_transfers [OF demo_reach(1), of "[5000, 10000, 15000, 20000]" "(lit ''p'', 7)"]
  show ?thesis unfolding demo_ticks by (simp add: hm_get_def del: mr_ticks.simps)
qed

definition demo_receiver :: "nat manual_record" where
  "demo_receiver = fst (receiver_prepared (receiver_record 1 (lit ''p'') 7 (lit ''a'') 3 (lit ''/t'') 0)
     \<lparr>in_transfer_id = 7, in_destination = [lit ''t''],
      in_entries = [(1, \<lparr>me_file_id = 1, me_path = lit ''a'', me_kind = File, me_size = 3\<rparr>)],
      in_files = [(1, \<lparr>if_expected = 3, if_offset = 0, if_hasher = []\<rparr>)],
      in_created_files = [([lit ''t'', lit ''a''], 7)], in_created_dirs = [], in_cancelled = False, in_finished = False\<rparr> 0)"

lemma demo_preparation:
  "prepare_receiver (receiver_record 1 (lit ''p'') 7 (lit ''a'') 3 (lit ''/t'') 0) (lit ''/t'') 0 True demo_prepare =
     receiver_prepared (receiver_record 1 (lit ''p'') 7 (lit ''a'') 3 (lit ''/t'') 0)
     \<lparr>in_transfer_id = 7, in_destination = [lit ''t''],
      in_entries = [(1, \<lparr>me_file_id = 1, me_path = lit ''a'', me_kind = File, me_size = 3\<rparr>)],
      in_files = [(1, \<lparr>if_expected = 3, if_offset = 0, if_hasher = []\<rparr>)],
      in_created_files = [([lit ''t'', lit ''a''], 7)], in_created_dirs = [], in_cancelled = False, in_finished = False\<rparr> 0"
  by (simp add: prepare_receiver_def receiver_record_def receiver_preparation_def demo_prepare_def demo_defs
      incoming_new_def validate_relative_path_def is_normal_def checked_add_def incoming_prepare_def normal_names_def
      map_filter_simps prepare_file_def setup_failure_def disk_create_new_def hm_get_def manual_consts absolute_path_def Let_def)

definition demo_written :: "nat manual_record" where
  "demo_written = fst (mr_write_chunk rev demo_receiver 0 [5, 6, 7] 1 demo_file)"

lemma demo_offer_result:
  "fst (mt_apply rev mt_new 0 (demo_message (ManualFileOffer 7 (lit ''a'') 3)))
   = \<lparr>mt_records = [((lit ''p'', 7), demo_receiver)], mt_terminal = []\<rparr>"
proof -
  have "validate_manual_file_name (lit ''a'') = Inr ()" by code_simp
  moreover have "auto_prepared (receiver_record 1 (lit ''p'') 7 (lit ''a'') 3 (lit ''/t'') 0) demo_settings 0 demo_prepare = demo_receiver"
    by (simp only: auto_prepared_def demo_settings_def file_receive_settings.simps if_True demo_preparation demo_receiver_def)
  moreover have "mr_state demo_receiver = MtTransferring" "mr_key demo_receiver = (lit ''p'', 7)"
    by (simp_all add: demo_receiver_def receiver_prepared_def receiver_record_def mr_key_def Let_def)
  moreover have "rs_download_directory demo_settings = lit ''/t''" by (simp add: demo_settings_def)
  ultimately show ?thesis
    by (simp add: demo_message_def mt_handle_protocol_def mt_receive_offer_fst mt_new_def active_count_def
        hm_get_def mt_store_def manual_consts del: lit_Cons)
qed

lemma demo_written_fields:
  "demo_written = demo_receiver\<lparr>mr_incoming := Some \<lparr>in_transfer_id = 7, in_destination = [lit ''t''],
      in_entries = [(1, \<lparr>me_file_id = 1, me_path = lit ''a'', me_kind = File, me_size = 3\<rparr>)],
      in_files = [(1, \<lparr>if_expected = 3, if_offset = 3, if_hasher = [5, 6, 7]\<rparr>)],
      in_created_files = [([lit ''t'', lit ''a''], 7)], in_created_dirs = [], in_cancelled = False, in_finished = False\<rparr>,
      mr_transferred := 3, mr_last_activity := 1, mr_last_notification := 1,
      mr_retry_event := Some (manual_request 7 3)\<rparr>"
  by (simp add: demo_written_def demo_receiver_def receiver_prepared_def receiver_record_def mr_write_chunk_def
      checked_add_def const_defs incoming_write_chunk_def manual_consts MAX_READ_def hm_get_def demo_file_def
      chunk_written_def mr_progress_def Let_def)

lemma demo_chunk_result:
  "fst (mt_apply rev \<lparr>mt_records = [((lit ''p'', 7), demo_receiver)], mt_terminal = []\<rparr> 1
       (demo_message (ManualFileChunk 7 0 [5, 6, 7])))
   = \<lparr>mt_records = [((lit ''p'', 7), demo_written)], mt_terminal = []\<rparr>"
proof -
  have "demo_receiver\<lparr>mr_peer := 1\<rparr> = demo_receiver"
    by (simp add: demo_receiver_def receiver_prepared_def receiver_record_def Let_def)
  moreover have "mr_state demo_written = MtTransferring" "mr_key demo_written = (lit ''p'', 7)"
    by (simp_all add: demo_written_fields demo_receiver_def receiver_prepared_def receiver_record_def mr_key_def Let_def)
  moreover have "fst (mr_write_chunk rev demo_receiver 0 [5, 6, 7] (Suc 0) demo_file) = demo_written"
    by (simp add: demo_written_def)
  ultimately show ?thesis
    by (simp add: demo_message_def mt_handle_protocol_def mt_update_def mr_handle_def hm_get_def hm_remove_def
        hm_retain_def mt_store_def manual_consts case_prod_unfold Let_def del: lit_Cons)
qed

lemma demo_complete_result:
  "\<exists>r. fst (mt_apply rev \<lparr>mt_records = [((lit ''p'', 7), demo_written)], mt_terminal = []\<rparr> 2
       (demo_message (ManualFileComplete 7 [7, 6, 5])))
     = \<lparr>mt_records = [((lit ''p'', 7), r)], mt_terminal = [(lit ''p'', 7)]\<rparr> \<and> mr_state r = MtCompleted"
  by (simp add: demo_message_def mt_handle_protocol_def mt_update_def mr_handle_def hm_get_def hm_remove_def
      hm_retain_def mt_store_def demo_written_fields complete_receiver_def finish_receiver_def demo_receiver_def
      receiver_prepared_def receiver_record_def incoming_finalize_file_def incoming_finish_def demo_file_def
      manual_consts mr_terminal_def mr_key_def Let_def)

theorem manual_completed_is_verified_witness:
  "verified_by rev demo_written (ManualFileComplete 7 [7, 6, 5])"
proof -
  let ?op = "\<lambda>ev. demo_message ev"
  have 1: "mt_reach rev [(0, ?op (ManualFileOffer 7 (lit ''a'') 3))] \<lparr>mt_records = [((lit ''p'', 7), demo_receiver)], mt_terminal = []\<rparr>"
    using mt_reach.step [OF mt_reach.init, of rev 0 "?op (ManualFileOffer 7 (lit ''a'') 3)"] demo_offer_result
    by (metis append_Nil surjective_pairing)
  have 2: "mt_reach rev [(0, ?op (ManualFileOffer 7 (lit ''a'') 3)), (1, ?op (ManualFileChunk 7 0 [5, 6, 7]))]
      \<lparr>mt_records = [((lit ''p'', 7), demo_written)], mt_terminal = []\<rparr>"
    using mt_reach.step [OF 1, of 1 "?op (ManualFileChunk 7 0 [5, 6, 7])"] demo_chunk_result
    by (metis append.simps surjective_pairing)
  obtain r as where 3: "mt_apply rev \<lparr>mt_records = [((lit ''p'', 7), demo_written)], mt_terminal = []\<rparr> 2
       (demo_message (ManualFileComplete 7 [7, 6, 5]))
     = (\<lparr>mt_records = [((lit ''p'', 7), r)], mt_terminal = [(lit ''p'', 7)]\<rparr>, as)" "mr_state r = MtCompleted"
    using demo_complete_result by (metis surjective_pairing)
  have "mr_direction demo_written = Receiving" "mr_state demo_written \<noteq> MtCompleted"
    by (simp_all add: demo_written_fields demo_receiver_def receiver_prepared_def receiver_record_def Let_def)
  with manual_completed_is_verified [OF 2 3(1), of "lit ''p''" 7 demo_written r] 3(2) show ?thesis
    by (auto simp: hm_get_def demo_message_def)
qed

end
