(* ===== verification/Ieee_Float.thy ===== *)
theory Ieee_Float
  imports Syntra_Prelude
begin

text \<open>
  The binary floating-point arithmetic of Rust's \<open>f64\<close> and \<open>f32\<close> (IEEE 754, round to nearest,
  ties to even). A finite number is a sign and a magnitude in units of \<open>2^-1074\<close>, the least positive
  \<open>f64\<close>: every \<open>f64\<close> and every \<open>f32\<close> is such a multiple, so sums and quotients are computed
  exactly on naturals and rounded once to the width of the result.
\<close>

datatype fp = NaN | Infinite bool | Finite bool nat

definition fp_unit :: nat where
  "fp_unit = 2 ^ 1074"

definition f64_of_bits :: "f64_bits \<Rightarrow> fp" where
  "f64_of_bits b =
     (let s = unat b div 2 ^ 63 = 1; e = unat b div 2 ^ 52 mod 2048; m = unat b mod 2 ^ 52 in
      if e = 2047 then (if m = 0 then Infinite s else NaN)
      else if e = 0 then Finite s m
      else Finite s ((2 ^ 52 + m) * 2 ^ (e - 1)))"

section \<open>Rounding\<close>

fun bit_length :: "nat \<Rightarrow> nat" where
  "bit_length n = (if n = 0 then 0 else Suc (bit_length (n div 2)))"

definition round_quotient :: "nat \<Rightarrow> nat \<Rightarrow> nat" where
  "round_quotient num den =
     (let q = num div den; r = num mod den in
      if 2 * r < den \<or> 2 * r = den \<and> even q then q else Suc q)"

text \<open>\<open>prec\<close> significant bits, magnitudes that are multiples of \<open>2^quantum\<close> units, overflow at
  \<open>2^limit\<close> units.\<close>

definition fp_round :: "nat \<Rightarrow> nat \<Rightarrow> nat \<Rightarrow> bool \<Rightarrow> nat \<Rightarrow> nat \<Rightarrow> fp" where
  "fp_round prec quantum limit s num den =
     (let e = max quantum (bit_length (num div den) - prec);
          v = round_quotient num (den * 2 ^ e) * 2 ^ e in
      if v \<ge> 2 ^ limit then Infinite s else Finite s v)"

definition round_f64 :: "bool \<Rightarrow> nat \<Rightarrow> nat \<Rightarrow> fp" where
  "round_f64 = fp_round 53 0 2098"

definition round_f32 :: "bool \<Rightarrow> nat \<Rightarrow> nat \<Rightarrow> fp" where
  "round_f32 = fp_round 24 925 1202"

section \<open>Operations\<close>

definition fp_zero :: fp where "fp_zero = Finite False 0"
definition fp_one :: fp where "fp_one = Finite False fp_unit"

definition fp_is_finite :: "fp \<Rightarrow> bool" where
  "fp_is_finite x = (case x of Finite _ _ \<Rightarrow> True | _ \<Rightarrow> False)"

definition fp_neg :: "fp \<Rightarrow> fp" where
  "fp_neg x = (case x of NaN \<Rightarrow> NaN | Infinite s \<Rightarrow> Infinite (\<not> s) | Finite s m \<Rightarrow> Finite (\<not> s) m)"

definition fp_abs :: "fp \<Rightarrow> fp" where
  "fp_abs x = (case x of NaN \<Rightarrow> NaN | Infinite _ \<Rightarrow> Infinite False | Finite _ m \<Rightarrow> Finite False m)"

definition signed_int :: "bool \<Rightarrow> nat \<Rightarrow> int" where
  "signed_int s m = (if s then - int m else int m)"

definition fp_add :: "(bool \<Rightarrow> nat \<Rightarrow> nat \<Rightarrow> fp) \<Rightarrow> fp \<Rightarrow> fp \<Rightarrow> fp" where
  "fp_add rnd x y = (case (x, y) of
     (Finite s m, Finite t n) \<Rightarrow>
       (let z = signed_int s m + signed_int t n in
        if z = 0 then Finite (s \<and> t) 0 else rnd (z < 0) (nat \<bar>z\<bar>) 1)
   | (Infinite s, Infinite t) \<Rightarrow> (if s = t then Infinite s else NaN)
   | (Infinite s, Finite _ _) \<Rightarrow> Infinite s
   | (Finite _ _, Infinite t) \<Rightarrow> Infinite t
   | _ \<Rightarrow> NaN)"

definition fp_sub :: "(bool \<Rightarrow> nat \<Rightarrow> nat \<Rightarrow> fp) \<Rightarrow> fp \<Rightarrow> fp \<Rightarrow> fp" where
  "fp_sub rnd x y = fp_add rnd x (fp_neg y)"

definition fp_mul :: "(bool \<Rightarrow> nat \<Rightarrow> nat \<Rightarrow> fp) \<Rightarrow> fp \<Rightarrow> fp \<Rightarrow> fp" where
  "fp_mul rnd x y = (case (x, y) of
     (Finite s m, Finite t n) \<Rightarrow> rnd (s \<noteq> t) (m * n) fp_unit
   | (Infinite s, Infinite t) \<Rightarrow> Infinite (s \<noteq> t)
   | (Infinite s, Finite t n) \<Rightarrow> (if n = 0 then NaN else Infinite (s \<noteq> t))
   | (Finite s m, Infinite t) \<Rightarrow> (if m = 0 then NaN else Infinite (s \<noteq> t))
   | _ \<Rightarrow> NaN)"

definition fp_div :: "(bool \<Rightarrow> nat \<Rightarrow> nat \<Rightarrow> fp) \<Rightarrow> fp \<Rightarrow> fp \<Rightarrow> fp" where
  "fp_div rnd x y = (case (x, y) of
     (Finite s m, Finite t n) \<Rightarrow>
       (if n = 0 then (if m = 0 then NaN else Infinite (s \<noteq> t))
        else rnd (s \<noteq> t) (m * fp_unit) n)
   | (Infinite s, Finite t _) \<Rightarrow> Infinite (s \<noteq> t)
   | (Finite s _, Infinite t) \<Rightarrow> Finite (s \<noteq> t) 0
   | _ \<Rightarrow> NaN)"

definition fp_lt :: "fp \<Rightarrow> fp \<Rightarrow> bool" where
  "fp_lt x y = (case (x, y) of
     (Finite s m, Finite t n) \<Rightarrow> signed_int s m < signed_int t n
   | (Infinite s, Infinite t) \<Rightarrow> s \<and> \<not> t
   | (Infinite s, Finite _ _) \<Rightarrow> s
   | (Finite _ _, Infinite t) \<Rightarrow> \<not> t
   | _ \<Rightarrow> False)"

definition fp_le :: "fp \<Rightarrow> fp \<Rightarrow> bool" where
  "fp_le x y = (case (x, y) of
     (Finite s m, Finite t n) \<Rightarrow> signed_int s m \<le> signed_int t n
   | (Infinite s, Infinite t) \<Rightarrow> s \<or> \<not> t
   | (Infinite s, Finite _ _) \<Rightarrow> s
   | (Finite _ _, Infinite t) \<Rightarrow> \<not> t
   | _ \<Rightarrow> False)"

definition fp_max :: "fp \<Rightarrow> fp \<Rightarrow> fp" where
  "fp_max x y = (if x = NaN then y else if y = NaN then x else if fp_lt x y then y else x)"

definition fp_clamp :: "fp \<Rightarrow> fp \<Rightarrow> fp \<Rightarrow> fp" where
  "fp_clamp x lo hi = (if fp_lt x lo then lo else if fp_lt hi x then hi else x)"

definition fp_as_f32 :: "fp \<Rightarrow> fp" where
  "fp_as_f32 x = (case x of Finite s m \<Rightarrow> round_f32 s m 1 | _ \<Rightarrow> x)"

definition f64_of_nat :: "nat \<Rightarrow> fp" where
  "f64_of_nat n = round_f64 False (n * fp_unit) 1"

text \<open>\<open>Duration::as_secs_f64\<close> of a duration in milliseconds: the whole seconds plus the nanoseconds over
  a billion.\<close>

definition as_secs_f64 :: "nat \<Rightarrow> fp" where
  "as_secs_f64 ms = fp_add round_f64 (f64_of_nat (ms div 1000))
     (fp_div round_f64 (f64_of_nat (ms mod 1000 * 1000000)) (f64_of_nat 1000000000))"

section \<open>Bounds\<close>

lemma round_quotient_le: "num \<le> k * den \<Longrightarrow> den > 0 \<Longrightarrow> round_quotient num den \<le> k"
proof -
  assume le: "num \<le> k * den" and den: "den > 0"
  show ?thesis
  proof (cases "num div den = k")
    case True
    then have "num mod den = 0"
      using le mult_div_mod_eq [of den num] by (simp add: mult.commute)
    with True den show ?thesis by (simp add: round_quotient_def)
  next
    case False
    moreover have "num div den \<le> k" using le den by (simp add: div_le_mono2 less_mult_imp_div_less div_le_mono order.trans [OF div_le_mono [OF le]])
    ultimately show ?thesis by (simp add: round_quotient_def Let_def)
  qed
qed

lemma bit_length_le: "n < 2 ^ k \<Longrightarrow> bit_length n \<le> k"
proof (induction n arbitrary: k rule: bit_length.induct)
  case (1 n)
  show ?case
  proof (cases "n = 0")
    case False
    then obtain j where k: "k = Suc j" using 1(2) by (cases k) auto
    then have "n div 2 < 2 ^ j" using 1(2) by simp
    with 1(1) [OF False] k False show ?thesis by (subst bit_length.simps) simp
  qed simp
qed

declare bit_length.simps [simp del]

text \<open>Rounding to \<open>f32\<close> keeps a magnitude of at most one at most one.\<close>

lemma as_f32_unit:
  assumes "m \<le> fp_unit" shows "\<exists>n \<le> fp_unit. fp_as_f32 (Finite s m) = Finite s n"
proof -
  define e where "e = max 925 (bit_length m - 24)"
  have "m < 2 ^ 1075" using assms by (simp add: fp_unit_def)
  then have e: "e \<le> 1074" using bit_length_le [of m 1075] by (simp add: e_def)
  have "m \<le> 2 ^ (1074 - e) * 2 ^ e" using assms e by (simp add: fp_unit_def flip: power_add)
  then have "round_quotient m (2 ^ e) \<le> 2 ^ (1074 - e)" by (rule round_quotient_le) simp
  then have le: "round_quotient m (2 ^ e) * 2 ^ e \<le> fp_unit"
    using e mult_right_mono [of "round_quotient m (2 ^ e)" "2 ^ (1074 - e)" "2 ^ e"]
    by (simp add: fp_unit_def flip: power_add)
  also have "fp_unit < 2 ^ 1202" unfolding fp_unit_def by (rule power_strict_increasing) simp_all
  finally show ?thesis
    using le by (simp add: fp_as_f32_def round_f32_def fp_round_def e_def [symmetric] Let_def)
qed

text \<open>The amount of a push is a share between nought and one.\<close>

definition is_share :: "fp \<Rightarrow> bool" where
  "is_share x = (case x of Finite s m \<Rightarrow> m \<le> fp_unit \<and> (s \<longrightarrow> m = 0) | _ \<Rightarrow> False)"

lemma is_share_zero [simp]: "is_share fp_zero"
  by (simp add: is_share_def fp_zero_def)

lemma clamp_share:
  assumes "x \<noteq> NaN" shows "is_share (fp_as_f32 (fp_clamp x fp_zero fp_one))"
proof -
  have "\<exists>s m. fp_clamp x fp_zero fp_one = Finite s m \<and> m \<le> fp_unit \<and> (s \<longrightarrow> m = 0)"
    using assms by (cases x) (auto simp: fp_clamp_def fp_lt_def fp_zero_def fp_one_def signed_int_def)
  then obtain s m where c: "fp_clamp x fp_zero fp_one = Finite s m" "m \<le> fp_unit" "s \<longrightarrow> m = 0" by blast
  have "s \<Longrightarrow> fp_as_f32 (Finite s m) = Finite s 0"
    using c(3) by (simp add: fp_as_f32_def round_f32_def fp_round_def round_quotient_def Let_def)
  with as_f32_unit [OF c(2), of s] c show ?thesis by (auto simp: is_share_def)
qed

lemma div_not_NaN:
  assumes "x = Finite s m" and "fp_lt fp_zero y" shows "fp_div round_f64 x y \<noteq> NaN"
  using assms by (cases y)
    (auto simp: fp_div_def fp_lt_def fp_zero_def signed_int_def round_f64_def fp_round_def Let_def split: if_splits)

section \<open>Integers\<close>

text \<open>\<open>i as f64\<close> for a 32-bit integer, which is exact, and \<open>x as i32\<close>, which truncates, saturates and
  sends NaN to nought.\<close>

definition f64_bits_of_int :: "int \<Rightarrow> f64_bits" where
  "f64_bits_of_int i =
     (if i = 0 then 0
      else let m = nat \<bar>i\<bar>; e = bit_length m - 1 in
        word_of_nat ((if i < 0 then 2 ^ 63 else 0) + (e + 1023) * 2 ^ 52 + (m * 2 ^ (52 - e) - 2 ^ 52)))"

definition f64_to_i32 :: "fp \<Rightarrow> int" where
  "f64_to_i32 x = (case x of
     NaN \<Rightarrow> 0
   | Infinite s \<Rightarrow> if s then - (2 ^ 31) else 2 ^ 31 - 1
   | Finite s m \<Rightarrow> max (- (2 ^ 31)) (min (2 ^ 31 - 1) (signed_int s (m div fp_unit))))"

lemma bit_length_bounds: "0 < n \<Longrightarrow> 2 ^ (bit_length n - 1) \<le> n \<and> n < 2 ^ bit_length n \<and> 0 < bit_length n"
proof (induction n rule: bit_length.induct)
  case (1 n)
  then have len: "bit_length n = Suc (bit_length (n div 2))" by (simp add: bit_length.simps)
  show ?case
  proof (cases "n div 2 = 0")
    case True
    then have "n = 1" using 1(2) by simp
    then show ?thesis by (simp add: bit_length.simps)
  next
    case False
    then have ih: "2 ^ (bit_length (n div 2) - 1) \<le> n div 2" "n div 2 < 2 ^ bit_length (n div 2)"
      "0 < bit_length (n div 2)"
      using 1 by auto
    obtain k where k: "bit_length (n div 2) = Suc k" using ih(3) by (cases "bit_length (n div 2)") auto
    have "n = 2 * (n div 2) + n mod 2" "n mod 2 < 2" by simp_all
    then show ?thesis using ih k len by auto
  qed
qed

lemma f64_int_exact:
  assumes "\<bar>i\<bar> \<le> 2 ^ 31"
  shows "f64_of_bits (f64_bits_of_int i) = Finite (i < 0) (nat \<bar>i\<bar> * fp_unit)"
proof (cases "i = 0")
  case True
  then show ?thesis by (simp add: f64_of_bits_def f64_bits_of_int_def)
next
  case False
  define m where "m = nat \<bar>i\<bar>"
  define e where "e = bit_length m - 1"
  have m: "0 < m" "m \<le> 2 ^ 31" using False assms by (auto simp: m_def)
  have b: "2 ^ e \<le> m" "m < 2 ^ Suc e"
    using bit_length_bounds [OF m(1)] by (auto simp: e_def)
  have e: "e \<le> 31"
  proof (rule ccontr)
    assume "\<not> e \<le> 31"
    then have "(2 :: nat) ^ 32 \<le> 2 ^ e" by (intro power_increasing) simp_all
    with b(1) m(2) show False by simp
  qed
  define f where "f = m * 2 ^ (52 - e) - 2 ^ 52"
  have pow: "(2 :: nat) ^ e * 2 ^ (52 - e) = 2 ^ 52" using e by (simp flip: power_add)
  have lo: "2 ^ 52 \<le> m * 2 ^ (52 - e)" using mult_right_mono [OF b(1), of "2 ^ (52 - e)"] pow by simp
  have "m * 2 ^ (52 - e) < 2 ^ Suc e * 2 ^ (52 - e)" using b(2) by (intro mult_strict_right_mono) simp_all
  then have hi: "m * 2 ^ (52 - e) < 2 * 2 ^ 52" unfolding power_Suc mult.assoc pow .
  have f: "f < 2 ^ 52" "2 ^ 52 + f = m * 2 ^ (52 - e)" using lo hi by (auto simp: f_def)
  define B where "B = (if i < 0 then 2 ^ 63 else 0) + (e + 1023) * 2 ^ 52 + f"
  have "f64_bits_of_int i = word_of_nat B"
    using False by (simp add: f64_bits_of_int_def B_def f_def e_def m_def Let_def)
  moreover have "B < 2 ^ 64" using f(1) e by (auto simp: B_def)
  ultimately have ub: "unat (f64_bits_of_int i) = B" by (simp add: unat_of_nat)
  define k where "k = (if i < 0 then 2048 else 0) + (e + 1023)"
  have B: "B = k * 2 ^ 52 + f" by (simp add: B_def k_def)
  have s: "(B div 2 ^ 63 = 1) = (i < 0)" using f(1) e by (auto simp: B_def)
  have fm: "B mod 2 ^ 52 = f" unfolding B using f(1) by (simp only: mod_mult_self3 mod_less)
  have "B div 2 ^ 52 = k" unfolding B using f(1) by simp
  moreover have "(2048 + (e + 1023)) mod 2048 = e + 1023" unfolding mod_add_self1 using e by simp
  ultimately have fe: "B div 2 ^ 52 mod 2048 = e + 1023" using e by (auto simp: k_def)
  have "(2 ^ 52 + f) * 2 ^ (e + 1023 - 1) = m * (2 ^ (52 - e) * 2 ^ (e + 1022))" using f(2) by simp
  also have "(2 :: nat) ^ (52 - e) * 2 ^ (e + 1022) = 2 ^ 1074" using e by (simp flip: power_add)
  finally show ?thesis
    using ub s fm fe e by (simp add: f64_of_bits_def fp_unit_def m_def Let_def)
qed

lemma i32_roundtrip:
  assumes "- (2 ^ 31) \<le> i" and "i < 2 ^ 31"
  shows "f64_to_i32 (f64_of_bits (f64_bits_of_int i)) = i"
proof -
  have "0 < fp_unit" by (simp add: fp_unit_def)
  then show ?thesis
    using assms f64_int_exact [of i] by (auto simp: f64_to_i32_def signed_int_def)
qed

end
