(* ===== verification/Capture_Types.thy ===== *)
theory Capture_Types
  imports Proto_Types Ieee_Float
begin

text \<open>
  The types that the capture crate (\<open>crates/syntra-input-capture/src/lib.rs\<close>) and the capture task
  (\<open>crates/syntra-core/src/capture.rs\<close>) share: edges of the screen, capture events, what the capture
  task tells the service, and the outcome of a fallible operation. An operation of the sources either
  succeeds, returns a \<open>CaptureError\<close> (the session ends) or panics; \<open>and_then\<close> is the \<open>?\<close>
  operator. What an operation does to the world (calls of the backend, messages to peers,
  notifications) is appended to a trace of \<open>effect\<close>s, in order.
\<close>

type_synonym capture_handle = u64

datatype edge = LeftEdge | RightEdge | TopEdge | BottomEdge

definition opposite :: "edge \<Rightarrow> edge" where
  "opposite pos = (case pos of LeftEdge \<Rightarrow> RightEdge | RightEdge \<Rightarrow> LeftEdge
     | TopEdge \<Rightarrow> BottomEdge | BottomEdge \<Rightarrow> TopEdge)"

definition to_proto_pos :: "edge \<Rightarrow> position" where
  "to_proto_pos pos = (case pos of LeftEdge \<Rightarrow> Left | RightEdge \<Rightarrow> Right
     | TopEdge \<Rightarrow> Top | BottomEdge \<Rightarrow> Bottom)"

datatype capture_event =
    Begin
  | Entry f32_bits
  | CaptureInput input_event
  | CaptureClipboard rstring bytes

datatype capture_backend =
    InputCapturePortal | LayerShell | X11 | WindowsBackend | MacOs | Touchpad | Dummy

datatype capture_type = DefaultCapture | EnterOnly

datatype icapture_event =
    StepInside edge
  | PlacePointer edge
  | HandOn rstring rstring position "f32_bits option"
  | ClipboardReceived capture_handle rstring proto_event
  | PeerAuthenticated capture_handle rstring
  | FileClipboard capture_handle rstring rstring
  | PeerLost capture_handle
  | PeerStateChanged capture_handle
  | CaptureBegin capture_handle "f32_bits option"
  | CaptureDisabled
  | CaptureEnabled capture_backend
  | ClientEntered capture_handle
  | PointerLeft edge "f32_bits option"
  | PointerReturned edge "f32_bits option"
  | EdgePressure edge fp "f32_bits option"

datatype effect =
    BackendCreate edge
  | BackendDestroy edge
  | BackendRelease
  | BackendReleaseAt edge "f32_bits option"
  | Received capture_handle proto_event
  | Sent capture_handle proto_event
  | Told icapture_event
  | Connected capture_handle
  | StreamStarted capture_handle u64 bytes "(u32 \<times> u32) option"
  | StreamAborted capture_handle

section \<open>Outcomes\<close>

datatype 'a outcome = Done 'a | Failed | Panicked

definition and_then :: "'s \<times> 'a outcome \<Rightarrow> ('a \<Rightarrow> 's \<Rightarrow> 's \<times> 'b outcome) \<Rightarrow> 's \<times> 'b outcome" where
  "and_then r f = (case r of
     (s, Done a) \<Rightarrow> f a s
   | (s, Failed) \<Rightarrow> (s, Failed)
   | (s, Panicked) \<Rightarrow> (s, Panicked))"

lemma and_then_simps [simp]:
  "and_then (s, Done a) f = f a s"
  "and_then (s, Failed) f = (s, Failed)"
  "and_then (s, Panicked) f = (s, Panicked)"
  by (simp_all add: and_then_def)

lemma and_then_panics: "snd r = Panicked \<Longrightarrow> snd (and_then r f) = Panicked"
  by (cases r) simp

text \<open>The contract of an operation: it does not panic, its state satisfies \<open>P\<close> when it succeeds and \<open>Q\<close>
  when it fails.\<close>

definition leaves :: "('s \<Rightarrow> bool) \<Rightarrow> ('s \<Rightarrow> bool) \<Rightarrow> 's \<times> 'a outcome \<Rightarrow> bool" where
  "leaves P Q r = (case r of (s, Done _) \<Rightarrow> P s | (s, Failed) \<Rightarrow> Q s | (s, Panicked) \<Rightarrow> False)"

lemma leaves_simps [simp]:
  "leaves P Q (s, Done a) \<longleftrightarrow> P s"
  "leaves P Q (s, Failed) \<longleftrightarrow> Q s"
  "\<not> leaves P Q (s, Panicked)"
  by (simp_all add: leaves_def)

lemma leaves_and_then:
  assumes "leaves P Q r" and "\<And>s a. r = (s, Done a) \<Longrightarrow> P s \<Longrightarrow> leaves P' Q (f a s)"
  shows "leaves P' Q (and_then r f)"
proof -
  obtain s a where r: "r = (s, a)" by (cases r)
  with assms show ?thesis by (cases a) auto
qed

lemma leaves_mono:
  "leaves P Q r \<Longrightarrow> (\<And>s. P s \<Longrightarrow> P' s) \<Longrightarrow> (\<And>s. Q s \<Longrightarrow> Q' s) \<Longrightarrow> leaves P' Q' r"
  by (auto simp: leaves_def split: prod.splits outcome.splits)

lemma leaves_fst: "leaves P Q r \<Longrightarrow> (\<And>s. P s \<Longrightarrow> Q s) \<Longrightarrow> Q (fst r)"
  by (auto simp: leaves_def split: prod.splits outcome.splits)

lemma leaves_no_panic: "leaves P Q r \<Longrightarrow> snd r \<noteq> Panicked"
  by (auto simp: leaves_def split: prod.splits outcome.splits)

lemma to_proto_pos_inject [simp]: "to_proto_pos a = to_proto_pos b \<longleftrightarrow> a = b"
  by (cases a; cases b) (simp_all add: to_proto_pos_def)

lemma opposite_opposite [simp]: "opposite (opposite pos) = pos"
  by (cases pos) (simp_all add: opposite_def)

end
