(* ===== verification/Scancode.thy ===== *)
theory Scancode
  imports Syntra_Prelude
begin

text \<open>
  The scan codes of Linux and Windows, from \<open>crates/syntra-input-event/src/scancode.rs\<close>. A scan code
  is the discriminant of its enumeration; the variant names are the comments of the tables. The
  conversions are the two \<open>TryFrom\<close> matches, row by row.
\<close>

section \<open>Codes\<close>

definition linux_codes :: "nat list" where
  "linux_codes = [
     0,         \<comment> \<open>KeyReserved\<close>
     1,         \<comment> \<open>KeyEsc\<close>
     2,         \<comment> \<open>Key1\<close>
     3,         \<comment> \<open>Key2\<close>
     4,         \<comment> \<open>Key3\<close>
     5,         \<comment> \<open>Key4\<close>
     6,         \<comment> \<open>Key5\<close>
     7,         \<comment> \<open>Key6\<close>
     8,         \<comment> \<open>Key7\<close>
     9,         \<comment> \<open>Key8\<close>
     10,        \<comment> \<open>Key9\<close>
     11,        \<comment> \<open>Key0\<close>
     12,        \<comment> \<open>KeyMinus\<close>
     13,        \<comment> \<open>KeyEqual\<close>
     14,        \<comment> \<open>KeyBackspace\<close>
     15,        \<comment> \<open>KeyTab\<close>
     16,        \<comment> \<open>KeyQ\<close>
     17,        \<comment> \<open>KeyW\<close>
     18,        \<comment> \<open>KeyE\<close>
     19,        \<comment> \<open>KeyR\<close>
     20,        \<comment> \<open>KeyT\<close>
     21,        \<comment> \<open>KeyY\<close>
     22,        \<comment> \<open>KeyU\<close>
     23,        \<comment> \<open>KeyI\<close>
     24,        \<comment> \<open>KeyO\<close>
     25,        \<comment> \<open>KeyP\<close>
     26,        \<comment> \<open>KeyLeftbrace\<close>
     27,        \<comment> \<open>KeyRightbrace\<close>
     28,        \<comment> \<open>KeyEnter\<close>
     29,        \<comment> \<open>KeyLeftCtrl\<close>
     30,        \<comment> \<open>KeyA\<close>
     31,        \<comment> \<open>KeyS\<close>
     32,        \<comment> \<open>KeyD\<close>
     33,        \<comment> \<open>KeyF\<close>
     34,        \<comment> \<open>KeyG\<close>
     35,        \<comment> \<open>KeyH\<close>
     36,        \<comment> \<open>KeyJ\<close>
     37,        \<comment> \<open>KeyK\<close>
     38,        \<comment> \<open>KeyL\<close>
     39,        \<comment> \<open>KeySemicolon\<close>
     40,        \<comment> \<open>KeyApostrophe\<close>
     41,        \<comment> \<open>KeyGrave\<close>
     42,        \<comment> \<open>KeyLeftShift\<close>
     43,        \<comment> \<open>KeyBackslash\<close>
     44,        \<comment> \<open>KeyZ\<close>
     45,        \<comment> \<open>KeyX\<close>
     46,        \<comment> \<open>KeyC\<close>
     47,        \<comment> \<open>KeyV\<close>
     48,        \<comment> \<open>KeyB\<close>
     49,        \<comment> \<open>KeyN\<close>
     50,        \<comment> \<open>KeyM\<close>
     51,        \<comment> \<open>KeyComma\<close>
     52,        \<comment> \<open>KeyDot\<close>
     53,        \<comment> \<open>KeySlash\<close>
     54,        \<comment> \<open>KeyRightShift\<close>
     55,        \<comment> \<open>KeyKpAsterisk\<close>
     56,        \<comment> \<open>KeyLeftAlt\<close>
     57,        \<comment> \<open>KeySpace\<close>
     58,        \<comment> \<open>KeyCapsLock\<close>
     59,        \<comment> \<open>KeyF1\<close>
     60,        \<comment> \<open>KeyF2\<close>
     61,        \<comment> \<open>KeyF3\<close>
     62,        \<comment> \<open>KeyF4\<close>
     63,        \<comment> \<open>KeyF5\<close>
     64,        \<comment> \<open>KeyF6\<close>
     65,        \<comment> \<open>KeyF7\<close>
     66,        \<comment> \<open>KeyF8\<close>
     67,        \<comment> \<open>KeyF9\<close>
     68,        \<comment> \<open>KeyF10\<close>
     69,        \<comment> \<open>KeyNumlock\<close>
     70,        \<comment> \<open>KeyScrollLock\<close>
     71,        \<comment> \<open>KeyKp7\<close>
     72,        \<comment> \<open>KeyKp8\<close>
     73,        \<comment> \<open>KeyKp9\<close>
     74,        \<comment> \<open>KeyKpMinus\<close>
     75,        \<comment> \<open>KeyKp4\<close>
     76,        \<comment> \<open>KeyKp5\<close>
     77,        \<comment> \<open>KeyKp6\<close>
     78,        \<comment> \<open>KeyKpplus\<close>
     79,        \<comment> \<open>KeyKp1\<close>
     80,        \<comment> \<open>KeyKp2\<close>
     81,        \<comment> \<open>KeyKp3\<close>
     82,        \<comment> \<open>KeyKp0\<close>
     83,        \<comment> \<open>KeyKpDot\<close>
     84,        \<comment> \<open>Invalid\<close>
     85,        \<comment> \<open>KeyZenkakuhankaku\<close>
     86,        \<comment> \<open>Key102nd\<close>
     87,        \<comment> \<open>KeyF11\<close>
     88,        \<comment> \<open>KeyF12\<close>
     89,        \<comment> \<open>KeyRo\<close>
     90,        \<comment> \<open>KeyKatakana\<close>
     91,        \<comment> \<open>KeyHiragana\<close>
     92,        \<comment> \<open>KeyHenkan\<close>
     93,        \<comment> \<open>KeyKatakanahiragana\<close>
     94,        \<comment> \<open>KeyMuhenkan\<close>
     95,        \<comment> \<open>KeyKpJpComma\<close>
     96,        \<comment> \<open>KeyKpEnter\<close>
     97,        \<comment> \<open>KeyRightCtrl\<close>
     98,        \<comment> \<open>KeyKpslash\<close>
     99,        \<comment> \<open>KeySysrq\<close>
     100,       \<comment> \<open>KeyRightalt\<close>
     101,       \<comment> \<open>KeyLinefeed\<close>
     102,       \<comment> \<open>KeyHome\<close>
     103,       \<comment> \<open>KeyUp\<close>
     104,       \<comment> \<open>KeyPageup\<close>
     105,       \<comment> \<open>KeyLeft\<close>
     106,       \<comment> \<open>KeyRight\<close>
     107,       \<comment> \<open>KeyEnd\<close>
     108,       \<comment> \<open>KeyDown\<close>
     109,       \<comment> \<open>KeyPagedown\<close>
     110,       \<comment> \<open>KeyInsert\<close>
     111,       \<comment> \<open>KeyDelete\<close>
     112,       \<comment> \<open>KeyMacro\<close>
     113,       \<comment> \<open>KeyMute\<close>
     114,       \<comment> \<open>KeyVolumeDown\<close>
     115,       \<comment> \<open>KeyVolumeUp\<close>
     116,       \<comment> \<open>KeyPower\<close>
     117,       \<comment> \<open>KeyKpequal\<close>
     118,       \<comment> \<open>KeyKpplusminus\<close>
     119,       \<comment> \<open>KeyPause\<close>
     120,       \<comment> \<open>KeyScale\<close>
     121,       \<comment> \<open>KeyKpcomma\<close>
     122,       \<comment> \<open>KeyHanguel\<close>
     123,       \<comment> \<open>KeyHanja\<close>
     124,       \<comment> \<open>KeyYen\<close>
     125,       \<comment> \<open>KeyLeftMeta\<close>
     126,       \<comment> \<open>KeyRightmeta\<close>
     127,       \<comment> \<open>KeyCompose\<close>
     128,       \<comment> \<open>KeyStop\<close>
     129,       \<comment> \<open>KeyAgain\<close>
     130,       \<comment> \<open>KeyProps\<close>
     131,       \<comment> \<open>KeyUndo\<close>
     132,       \<comment> \<open>KeyFront\<close>
     133,       \<comment> \<open>KeyCopy\<close>
     134,       \<comment> \<open>KeyOpen\<close>
     135,       \<comment> \<open>KeyPaste\<close>
     136,       \<comment> \<open>KeyFind\<close>
     137,       \<comment> \<open>KeyCut\<close>
     138,       \<comment> \<open>KeyHelp\<close>
     139,       \<comment> \<open>KeyMenu\<close>
     140,       \<comment> \<open>KeyCalc\<close>
     141,       \<comment> \<open>KeySetup\<close>
     142,       \<comment> \<open>KeySleep\<close>
     143,       \<comment> \<open>KeyWakeup\<close>
     144,       \<comment> \<open>KeyFile\<close>
     145,       \<comment> \<open>KeySendfile\<close>
     146,       \<comment> \<open>KeyDeletefile\<close>
     147,       \<comment> \<open>KeyXfer\<close>
     148,       \<comment> \<open>KeyProg1\<close>
     149,       \<comment> \<open>KeyProg2\<close>
     150,       \<comment> \<open>KeyWww\<close>
     151,       \<comment> \<open>KeyMsdos\<close>
     152,       \<comment> \<open>KeyCoffee\<close>
     153,       \<comment> \<open>KeyRotateDisplay\<close>
     154,       \<comment> \<open>KeyCyclewindows\<close>
     155,       \<comment> \<open>KeyMail\<close>
     156,       \<comment> \<open>KeyBookmarks\<close>
     157,       \<comment> \<open>KeyComputer\<close>
     158,       \<comment> \<open>KeyBack\<close>
     159,       \<comment> \<open>KeyForward\<close>
     160,       \<comment> \<open>KeyClosecd\<close>
     161,       \<comment> \<open>KeyEjectcd\<close>
     162,       \<comment> \<open>KeyEjectclosecd\<close>
     163,       \<comment> \<open>KeyNextsong\<close>
     164,       \<comment> \<open>KeyPlaypause\<close>
     165,       \<comment> \<open>KeyPrevioussong\<close>
     166,       \<comment> \<open>KeyStopcd\<close>
     167,       \<comment> \<open>KeyRecord\<close>
     168,       \<comment> \<open>KeyRewind\<close>
     169,       \<comment> \<open>KeyPhone\<close>
     170,       \<comment> \<open>KeyIso\<close>
     171,       \<comment> \<open>KeyConfig\<close>
     172,       \<comment> \<open>KeyHomepage\<close>
     173,       \<comment> \<open>KeyRefresh\<close>
     174,       \<comment> \<open>KeyExit\<close>
     175,       \<comment> \<open>KeyMove\<close>
     176,       \<comment> \<open>KeyEdit\<close>
     177,       \<comment> \<open>KeyScrollup\<close>
     178,       \<comment> \<open>KeyScrolldown\<close>
     179,       \<comment> \<open>KeyKpleftparen\<close>
     180,       \<comment> \<open>KeyKprightparen\<close>
     181,       \<comment> \<open>KeyNew\<close>
     182,       \<comment> \<open>KeyRedo\<close>
     183,       \<comment> \<open>KeyF13\<close>
     184,       \<comment> \<open>KeyF14\<close>
     185,       \<comment> \<open>KeyF15\<close>
     186,       \<comment> \<open>KeyF16\<close>
     187,       \<comment> \<open>KeyF17\<close>
     188,       \<comment> \<open>KeyF18\<close>
     189,       \<comment> \<open>KeyF19\<close>
     190,       \<comment> \<open>KeyF20\<close>
     191,       \<comment> \<open>KeyF21\<close>
     192,       \<comment> \<open>KeyF22\<close>
     193,       \<comment> \<open>KeyF23\<close>
     194,       \<comment> \<open>KeyF24\<close>
     195,       \<comment> \<open>Invalid1\<close>
     196,       \<comment> \<open>Invalid2\<close>
     197,       \<comment> \<open>Invalid3\<close>
     198,       \<comment> \<open>Invalid4\<close>
     199,       \<comment> \<open>Invalid5\<close>
     200,       \<comment> \<open>KeyPlaycd\<close>
     201,       \<comment> \<open>KeyPausecd\<close>
     202,       \<comment> \<open>KeyProg3\<close>
     203,       \<comment> \<open>KeyProg4\<close>
     204,       \<comment> \<open>KeyAllApplications\<close>
     205,       \<comment> \<open>KeySuspend\<close>
     206,       \<comment> \<open>KeyClose\<close>
     207,       \<comment> \<open>KeyPlay\<close>
     208,       \<comment> \<open>KeyFastforward\<close>
     209,       \<comment> \<open>KeyBassboost\<close>
     210,       \<comment> \<open>KeyPrint\<close>
     211,       \<comment> \<open>KeyHp\<close>
     212,       \<comment> \<open>KeyCamera\<close>
     213,       \<comment> \<open>KeySound\<close>
     214,       \<comment> \<open>KeyQuestion\<close>
     215,       \<comment> \<open>KeyEmail\<close>
     216,       \<comment> \<open>KeyChat\<close>
     217,       \<comment> \<open>KeySearch\<close>
     218,       \<comment> \<open>KeyConnect\<close>
     219,       \<comment> \<open>KeyFinance\<close>
     220,       \<comment> \<open>KeySport\<close>
     221,       \<comment> \<open>KeyShop\<close>
     222,       \<comment> \<open>KeyAlterase\<close>
     223,       \<comment> \<open>KeyCancel\<close>
     224,       \<comment> \<open>KeyBrightnessdown\<close>
     225,       \<comment> \<open>KeyBrightnessup\<close>
     226,       \<comment> \<open>KeyMedia\<close>
     227,       \<comment> \<open>KeySwitchvideomode\<close>
     228,       \<comment> \<open>KeyKbdillumtoggle\<close>
     229,       \<comment> \<open>KeyKbdillumdown\<close>
     230,       \<comment> \<open>KeyKbdillumup\<close>
     231,       \<comment> \<open>KeySend\<close>
     232,       \<comment> \<open>KeyReply\<close>
     233,       \<comment> \<open>KeyForwardmail\<close>
     234,       \<comment> \<open>KeySave\<close>
     235,       \<comment> \<open>KeyDocuments\<close>
     236,       \<comment> \<open>KeyBattery\<close>
     237,       \<comment> \<open>KeyBluetooth\<close>
     238,       \<comment> \<open>KeyWlan\<close>
     239,       \<comment> \<open>KeyUwb\<close>
     240,       \<comment> \<open>KeyUnknown\<close>
     241,       \<comment> \<open>KeyVideoNext\<close>
     242,       \<comment> \<open>KeyVideoPrev\<close>
     243,       \<comment> \<open>KeyBrightnessCycle\<close>
     244,       \<comment> \<open>KeyBrightnessAuto\<close>
     245,       \<comment> \<open>KeyDisplayOff\<close>
     246,       \<comment> \<open>KeyWwan\<close>
     247,       \<comment> \<open>KeyRfkill\<close>
     248,       \<comment> \<open>KeyMicmute\<close>
     249]       \<comment> \<open>KeyCount\<close>"

definition linux_try_from :: "u32 \<Rightarrow> nat option" where
  "linux_try_from code = (if unat code \<in> set linux_codes then Some (unat code) else None)"

definition windows_codes :: "nat list" where
  "windows_codes = [
     0xE05E,    \<comment> \<open>Shutdown\<close>
     0xE05F,    \<comment> \<open>SystemSleep\<close>
     0xE063,    \<comment> \<open>SystemWakeUp\<close>
     0xFF,      \<comment> \<open>ErrorRollOver\<close>
     0x1E,      \<comment> \<open>KeyA\<close>
     0x30,      \<comment> \<open>KeyB\<close>
     0x2E,      \<comment> \<open>KeyC\<close>
     0x20,      \<comment> \<open>KeyD\<close>
     0x12,      \<comment> \<open>KeyE\<close>
     0x21,      \<comment> \<open>KeyF\<close>
     0x22,      \<comment> \<open>KeyG\<close>
     0x23,      \<comment> \<open>KeyH\<close>
     0x17,      \<comment> \<open>KeyI\<close>
     0x24,      \<comment> \<open>KeyJ\<close>
     0x25,      \<comment> \<open>KeyK\<close>
     0x26,      \<comment> \<open>KeyL\<close>
     0x32,      \<comment> \<open>KeyM\<close>
     0x31,      \<comment> \<open>KeyN\<close>
     0x18,      \<comment> \<open>KeyO\<close>
     0x19,      \<comment> \<open>KeyP\<close>
     0x10,      \<comment> \<open>KeyQ\<close>
     0x13,      \<comment> \<open>KeyR\<close>
     0x1F,      \<comment> \<open>KeyS\<close>
     0x14,      \<comment> \<open>KeyT\<close>
     0x16,      \<comment> \<open>KeyU\<close>
     0x2F,      \<comment> \<open>KeyV\<close>
     0x11,      \<comment> \<open>KeyW\<close>
     0x2D,      \<comment> \<open>KeyX\<close>
     0x15,      \<comment> \<open>KeyY\<close>
     0x2C,      \<comment> \<open>KeyZ\<close>
     0x2,       \<comment> \<open>Key1\<close>
     0x3,       \<comment> \<open>Key2\<close>
     0x4,       \<comment> \<open>Key3\<close>
     0x5,       \<comment> \<open>Key4\<close>
     0x6,       \<comment> \<open>Key5\<close>
     0x7,       \<comment> \<open>Key6\<close>
     0x8,       \<comment> \<open>Key7\<close>
     0x9,       \<comment> \<open>Key8\<close>
     0xA,       \<comment> \<open>Key9\<close>
     0xB,       \<comment> \<open>Key0\<close>
     0x1C,      \<comment> \<open>KeyEnter\<close>
     0x1,       \<comment> \<open>KeyEsc\<close>
     0xE,       \<comment> \<open>KeyDelete\<close>
     0xF,       \<comment> \<open>KeyTab\<close>
     0x39,      \<comment> \<open>KeySpace\<close>
     0xC,       \<comment> \<open>KeyMinus\<close>
     0xD,       \<comment> \<open>KeyEqual\<close>
     0x1A,      \<comment> \<open>KeyLeftBrace\<close>
     0x1B,      \<comment> \<open>KeyRightBrace\<close>
     0x2B,      \<comment> \<open>KeyBackslash\<close>
     0x27,      \<comment> \<open>KeySemiColon\<close>
     0x28,      \<comment> \<open>KeyApostrophe\<close>
     0x29,      \<comment> \<open>KeyGrave\<close>
     0x33,      \<comment> \<open>KeyComma\<close>
     0x34,      \<comment> \<open>KeyDot\<close>
     0x35,      \<comment> \<open>KeySlash\<close>
     0x3A,      \<comment> \<open>KeyCapsLock\<close>
     0x3B,      \<comment> \<open>KeyF1\<close>
     0x3C,      \<comment> \<open>KeyF2\<close>
     0x3D,      \<comment> \<open>KeyF3\<close>
     0x3E,      \<comment> \<open>KeyF4\<close>
     0x3F,      \<comment> \<open>KeyF5\<close>
     0x40,      \<comment> \<open>KeyF6\<close>
     0x41,      \<comment> \<open>KeyF7\<close>
     0x42,      \<comment> \<open>KeyF8\<close>
     0x43,      \<comment> \<open>KeyF9\<close>
     0x44,      \<comment> \<open>KeyF10\<close>
     0x57,      \<comment> \<open>KeyF11\<close>
     0x58,      \<comment> \<open>KeyF12\<close>
     0xE037,    \<comment> \<open>KeyPrintScreen\<close>
     0x46,      \<comment> \<open>KeyScrollLock\<close>
     0xE11D45,  \<comment> \<open>KeyPause\<close>
     0xE052,    \<comment> \<open>KeyInsert\<close>
     0xE047,    \<comment> \<open>KeyHome\<close>
     0xE049,    \<comment> \<open>KeyPageUp\<close>
     0xE053,    \<comment> \<open>KeyDeleteForward\<close>
     0xE04F,    \<comment> \<open>KeyEnd\<close>
     0xE051,    \<comment> \<open>KeyPageDown\<close>
     0xE04D,    \<comment> \<open>KeyRight\<close>
     0xE04B,    \<comment> \<open>KeyLeft\<close>
     0xE050,    \<comment> \<open>KeyDown\<close>
     0xE048,    \<comment> \<open>KeyUp\<close>
     0x45,      \<comment> \<open>KeypadNumLock\<close>
     0xE035,    \<comment> \<open>KeypadSlash\<close>
     0x37,      \<comment> \<open>KeypadStar\<close>
     0x4A,      \<comment> \<open>KeypadDash\<close>
     0x4E,      \<comment> \<open>KeypadPlus\<close>
     0xE01C,    \<comment> \<open>KeypadEnter\<close>
     0x4F,      \<comment> \<open>Keypad1End\<close>
     0x50,      \<comment> \<open>Keypad2DownArrow\<close>
     0x51,      \<comment> \<open>Keypad3PageDn\<close>
     0x4B,      \<comment> \<open>Keypad4LeftArrow\<close>
     0x4C,      \<comment> \<open>Keypad5\<close>
     0x4D,      \<comment> \<open>Keypad6RightArrow\<close>
     0x47,      \<comment> \<open>Keypad7Home\<close>
     0x48,      \<comment> \<open>Keypad8UpArrow\<close>
     0x49,      \<comment> \<open>Keypad9PageUp\<close>
     0x52,      \<comment> \<open>Keypad0Insert\<close>
     0x53,      \<comment> \<open>KeypadDot\<close>
     0x56,      \<comment> \<open>KeyNonUSSlashBar\<close>
     0xE05D,    \<comment> \<open>KeyApplication\<close>
     0x59,      \<comment> \<open>KeypadEquals\<close>
     0x64,      \<comment> \<open>KeyF13\<close>
     0x65,      \<comment> \<open>KeyF14\<close>
     0x66,      \<comment> \<open>KeyF15\<close>
     0x67,      \<comment> \<open>KeyF16\<close>
     0x68,      \<comment> \<open>KeyF17\<close>
     0x69,      \<comment> \<open>KeyF18\<close>
     0x6A,      \<comment> \<open>KeyF19\<close>
     0x6B,      \<comment> \<open>KeyF20\<close>
     0x6C,      \<comment> \<open>KeyF21\<close>
     0x6D,      \<comment> \<open>KeyF22\<close>
     0x6E,      \<comment> \<open>KeyF23\<close>
     0x76,      \<comment> \<open>KeyF24\<close>
     0x7E,      \<comment> \<open>KeypadComma\<close>
     0x73,      \<comment> \<open>KeyInternational1\<close>
     0x70,      \<comment> \<open>KeyInternational2\<close>
     0x7D,      \<comment> \<open>KeyInternational3\<close>
     0x79,      \<comment> \<open>KeyInternational4\<close>
     0x7B,      \<comment> \<open>KeyInternational5\<close>
     0x72,      \<comment> \<open>KeyLANG1\<close>
     0x71,      \<comment> \<open>KeyLANG2\<close>
     0x78,      \<comment> \<open>KeyLANG3\<close>
     0x77,      \<comment> \<open>KeyLANG4\<close>
     0x1D,      \<comment> \<open>KeyLeftCtrl\<close>
     0x2A,      \<comment> \<open>KeyLeftShift\<close>
     0x38,      \<comment> \<open>KeyLeftAlt\<close>
     0xE05B,    \<comment> \<open>KeyLeftGUI\<close>
     0xE01D,    \<comment> \<open>KeyRightCtrl\<close>
     0x36,      \<comment> \<open>KeyRightShift\<close>
     0xE036,    \<comment> \<open>KeyFakeRightShift\<close>
     0xE038,    \<comment> \<open>KeyRightAlt\<close>
     0xE05C,    \<comment> \<open>KeyRightGUI\<close>
     0xE019,    \<comment> \<open>KeyScanNextTrack\<close>
     0xE010,    \<comment> \<open>KeyScanPreviousTrack\<close>
     0xE024,    \<comment> \<open>KeyStop\<close>
     0xE022,    \<comment> \<open>KeyPlayPause\<close>
     0xE020,    \<comment> \<open>KeyMute\<close>
     0xE030,    \<comment> \<open>KeyVolumeUp\<close>
     0xE02E,    \<comment> \<open>KeyVolumeDown\<close>
     0xE06D,    \<comment> \<open>ALConsumerControlConfiguration\<close>
     0xE06C,    \<comment> \<open>ALEmailReader\<close>
     0xE021,    \<comment> \<open>ALCalculator\<close>
     0xE06B,    \<comment> \<open>ALLocalMachineBrowser\<close>
     0xE065,    \<comment> \<open>ACSearch\<close>
     0xE032,    \<comment> \<open>ACHome\<close>
     0xE06A,    \<comment> \<open>ACBack\<close>
     0xE069,    \<comment> \<open>ACForward\<close>
     0xE068,    \<comment> \<open>ACStop\<close>
     0xE067,    \<comment> \<open>ACRefresh\<close>
     0xE066]    \<comment> \<open>ACBookmarks\<close>"

definition windows_try_from :: "u32 \<Rightarrow> nat option" where
  "windows_try_from code = (if unat code \<in> set windows_codes then Some (unat code) else None)"

section \<open>Conversions\<close>

definition windows_of_linux :: "nat \<Rightarrow> nat option" where
  "windows_of_linux code =
     (if code = 0 then None                     \<comment> \<open>KeyReserved to nothing\<close>
      else if code = 1 then Some 0x1            \<comment> \<open>KeyEsc to KeyEsc\<close>
      else if code = 2 then Some 0x2            \<comment> \<open>Key1 to Key1\<close>
      else if code = 3 then Some 0x3            \<comment> \<open>Key2 to Key2\<close>
      else if code = 4 then Some 0x4            \<comment> \<open>Key3 to Key3\<close>
      else if code = 5 then Some 0x5            \<comment> \<open>Key4 to Key4\<close>
      else if code = 6 then Some 0x6            \<comment> \<open>Key5 to Key5\<close>
      else if code = 7 then Some 0x7            \<comment> \<open>Key6 to Key6\<close>
      else if code = 8 then Some 0x8            \<comment> \<open>Key7 to Key7\<close>
      else if code = 9 then Some 0x9            \<comment> \<open>Key8 to Key8\<close>
      else if code = 10 then Some 0xA           \<comment> \<open>Key9 to Key9\<close>
      else if code = 11 then Some 0xB           \<comment> \<open>Key0 to Key0\<close>
      else if code = 12 then Some 0xC           \<comment> \<open>KeyMinus to KeyMinus\<close>
      else if code = 13 then Some 0xD           \<comment> \<open>KeyEqual to KeyEqual\<close>
      else if code = 14 then Some 0xE           \<comment> \<open>KeyBackspace to KeyDelete\<close>
      else if code = 15 then Some 0xF           \<comment> \<open>KeyTab to KeyTab\<close>
      else if code = 16 then Some 0x10          \<comment> \<open>KeyQ to KeyQ\<close>
      else if code = 17 then Some 0x11          \<comment> \<open>KeyW to KeyW\<close>
      else if code = 18 then Some 0x12          \<comment> \<open>KeyE to KeyE\<close>
      else if code = 19 then Some 0x13          \<comment> \<open>KeyR to KeyR\<close>
      else if code = 20 then Some 0x14          \<comment> \<open>KeyT to KeyT\<close>
      else if code = 21 then Some 0x15          \<comment> \<open>KeyY to KeyY\<close>
      else if code = 22 then Some 0x16          \<comment> \<open>KeyU to KeyU\<close>
      else if code = 23 then Some 0x17          \<comment> \<open>KeyI to KeyI\<close>
      else if code = 24 then Some 0x18          \<comment> \<open>KeyO to KeyO\<close>
      else if code = 25 then Some 0x19          \<comment> \<open>KeyP to KeyP\<close>
      else if code = 26 then Some 0x1A          \<comment> \<open>KeyLeftbrace to KeyLeftBrace\<close>
      else if code = 27 then Some 0x1B          \<comment> \<open>KeyRightbrace to KeyRightBrace\<close>
      else if code = 28 then Some 0x1C          \<comment> \<open>KeyEnter to KeyEnter\<close>
      else if code = 29 then Some 0x1D          \<comment> \<open>KeyLeftCtrl to KeyLeftCtrl\<close>
      else if code = 30 then Some 0x1E          \<comment> \<open>KeyA to KeyA\<close>
      else if code = 31 then Some 0x1F          \<comment> \<open>KeyS to KeyS\<close>
      else if code = 32 then Some 0x20          \<comment> \<open>KeyD to KeyD\<close>
      else if code = 33 then Some 0x21          \<comment> \<open>KeyF to KeyF\<close>
      else if code = 34 then Some 0x22          \<comment> \<open>KeyG to KeyG\<close>
      else if code = 35 then Some 0x23          \<comment> \<open>KeyH to KeyH\<close>
      else if code = 36 then Some 0x24          \<comment> \<open>KeyJ to KeyJ\<close>
      else if code = 37 then Some 0x25          \<comment> \<open>KeyK to KeyK\<close>
      else if code = 38 then Some 0x26          \<comment> \<open>KeyL to KeyL\<close>
      else if code = 39 then Some 0x27          \<comment> \<open>KeySemicolon to KeySemiColon\<close>
      else if code = 40 then Some 0x28          \<comment> \<open>KeyApostrophe to KeyApostrophe\<close>
      else if code = 41 then Some 0x29          \<comment> \<open>KeyGrave to KeyGrave\<close>
      else if code = 42 then Some 0x2A          \<comment> \<open>KeyLeftShift to KeyLeftShift\<close>
      else if code = 43 then Some 0x2B          \<comment> \<open>KeyBackslash to KeyBackslash\<close>
      else if code = 44 then Some 0x2C          \<comment> \<open>KeyZ to KeyZ\<close>
      else if code = 45 then Some 0x2D          \<comment> \<open>KeyX to KeyX\<close>
      else if code = 46 then Some 0x2E          \<comment> \<open>KeyC to KeyC\<close>
      else if code = 47 then Some 0x2F          \<comment> \<open>KeyV to KeyV\<close>
      else if code = 48 then Some 0x30          \<comment> \<open>KeyB to KeyB\<close>
      else if code = 49 then Some 0x31          \<comment> \<open>KeyN to KeyN\<close>
      else if code = 50 then Some 0x32          \<comment> \<open>KeyM to KeyM\<close>
      else if code = 51 then Some 0x33          \<comment> \<open>KeyComma to KeyComma\<close>
      else if code = 52 then Some 0x34          \<comment> \<open>KeyDot to KeyDot\<close>
      else if code = 53 then Some 0x35          \<comment> \<open>KeySlash to KeySlash\<close>
      else if code = 54 then Some 0x36          \<comment> \<open>KeyRightShift to KeyRightShift\<close>
      else if code = 55 then Some 0x37          \<comment> \<open>KeyKpAsterisk to KeypadStar\<close>
      else if code = 56 then Some 0x38          \<comment> \<open>KeyLeftAlt to KeyLeftAlt\<close>
      else if code = 57 then Some 0x39          \<comment> \<open>KeySpace to KeySpace\<close>
      else if code = 58 then Some 0x3A          \<comment> \<open>KeyCapsLock to KeyCapsLock\<close>
      else if code = 59 then Some 0x3B          \<comment> \<open>KeyF1 to KeyF1\<close>
      else if code = 60 then Some 0x3C          \<comment> \<open>KeyF2 to KeyF2\<close>
      else if code = 61 then Some 0x3D          \<comment> \<open>KeyF3 to KeyF3\<close>
      else if code = 62 then Some 0x3E          \<comment> \<open>KeyF4 to KeyF4\<close>
      else if code = 63 then Some 0x3F          \<comment> \<open>KeyF5 to KeyF5\<close>
      else if code = 64 then Some 0x40          \<comment> \<open>KeyF6 to KeyF6\<close>
      else if code = 65 then Some 0x41          \<comment> \<open>KeyF7 to KeyF7\<close>
      else if code = 66 then Some 0x42          \<comment> \<open>KeyF8 to KeyF8\<close>
      else if code = 67 then Some 0x43          \<comment> \<open>KeyF9 to KeyF9\<close>
      else if code = 68 then Some 0x44          \<comment> \<open>KeyF10 to KeyF10\<close>
      else if code = 69 then Some 0x45          \<comment> \<open>KeyNumlock to KeypadNumLock\<close>
      else if code = 70 then Some 0x46          \<comment> \<open>KeyScrollLock to KeyScrollLock\<close>
      else if code = 71 then Some 0x47          \<comment> \<open>KeyKp7 to Keypad7Home\<close>
      else if code = 72 then Some 0x48          \<comment> \<open>KeyKp8 to Keypad8UpArrow\<close>
      else if code = 73 then Some 0x49          \<comment> \<open>KeyKp9 to Keypad9PageUp\<close>
      else if code = 74 then Some 0x4A          \<comment> \<open>KeyKpMinus to KeypadDash\<close>
      else if code = 75 then Some 0x4B          \<comment> \<open>KeyKp4 to Keypad4LeftArrow\<close>
      else if code = 76 then Some 0x4C          \<comment> \<open>KeyKp5 to Keypad5\<close>
      else if code = 77 then Some 0x4D          \<comment> \<open>KeyKp6 to Keypad6RightArrow\<close>
      else if code = 78 then Some 0x4E          \<comment> \<open>KeyKpplus to KeypadPlus\<close>
      else if code = 79 then Some 0x4F          \<comment> \<open>KeyKp1 to Keypad1End\<close>
      else if code = 80 then Some 0x50          \<comment> \<open>KeyKp2 to Keypad2DownArrow\<close>
      else if code = 81 then Some 0x51          \<comment> \<open>KeyKp3 to Keypad3PageDn\<close>
      else if code = 82 then Some 0x52          \<comment> \<open>KeyKp0 to Keypad0Insert\<close>
      else if code = 83 then Some 0x53          \<comment> \<open>KeyKpDot to KeypadDot\<close>
      else if code = 85 then Some 0x76          \<comment> \<open>KeyZenkakuhankaku to KeyF24\<close>
      else if code = 86 then Some 0x56          \<comment> \<open>Key102nd to KeyNonUSSlashBar\<close>
      else if code = 87 then Some 0x57          \<comment> \<open>KeyF11 to KeyF11\<close>
      else if code = 88 then Some 0x58          \<comment> \<open>KeyF12 to KeyF12\<close>
      else if code = 89 then Some 0x73          \<comment> \<open>KeyRo to KeyInternational1\<close>
      else if code = 90 then Some 0x78          \<comment> \<open>KeyKatakana to KeyLANG3\<close>
      else if code = 91 then Some 0x77          \<comment> \<open>KeyHiragana to KeyLANG4\<close>
      else if code = 92 then Some 0x79          \<comment> \<open>KeyHenkan to KeyInternational4\<close>
      else if code = 93 then Some 0x70          \<comment> \<open>KeyKatakanahiragana to KeyInternational2\<close>
      else if code = 94 then Some 0x7B          \<comment> \<open>KeyMuhenkan to KeyInternational5\<close>
      else if code = 95 then Some 0x7E          \<comment> \<open>KeyKpJpComma to KeypadComma\<close>
      else if code = 96 then Some 0xE01C        \<comment> \<open>KeyKpEnter to KeypadEnter\<close>
      else if code = 97 then Some 0xE01D        \<comment> \<open>KeyRightCtrl to KeyRightCtrl\<close>
      else if code = 98 then Some 0xE035        \<comment> \<open>KeyKpslash to KeypadSlash\<close>
      else if code = 99 then Some 0xE037        \<comment> \<open>KeySysrq to KeyPrintScreen\<close>
      else if code = 100 then Some 0xE038       \<comment> \<open>KeyRightalt to KeyRightAlt\<close>
      else if code = 101 then Some 0x1C         \<comment> \<open>KeyLinefeed to KeyEnter\<close>
      else if code = 102 then Some 0xE047       \<comment> \<open>KeyHome to KeyHome\<close>
      else if code = 103 then Some 0xE048       \<comment> \<open>KeyUp to KeyUp\<close>
      else if code = 104 then Some 0xE049       \<comment> \<open>KeyPageup to KeyPageUp\<close>
      else if code = 105 then Some 0xE04B       \<comment> \<open>KeyLeft to KeyLeft\<close>
      else if code = 106 then Some 0xE04D       \<comment> \<open>KeyRight to KeyRight\<close>
      else if code = 107 then Some 0xE04F       \<comment> \<open>KeyEnd to KeyEnd\<close>
      else if code = 108 then Some 0xE050       \<comment> \<open>KeyDown to KeyDown\<close>
      else if code = 109 then Some 0xE051       \<comment> \<open>KeyPagedown to KeyPageDown\<close>
      else if code = 110 then Some 0xE052       \<comment> \<open>KeyInsert to KeyInsert\<close>
      else if code = 111 then Some 0xE053       \<comment> \<open>KeyDelete to KeyDeleteForward\<close>
      else if code = 112 then None              \<comment> \<open>KeyMacro to nothing\<close>
      else if code = 113 then Some 0xE020       \<comment> \<open>KeyMute to KeyMute\<close>
      else if code = 114 then Some 0xE02E       \<comment> \<open>KeyVolumeDown to KeyVolumeDown\<close>
      else if code = 115 then Some 0xE030       \<comment> \<open>KeyVolumeUp to KeyVolumeUp\<close>
      else if code = 116 then Some 0xE05E       \<comment> \<open>KeyPower to Shutdown\<close>
      else if code = 117 then Some 0x59         \<comment> \<open>KeyKpequal to KeypadEquals\<close>
      else if code = 118 then Some 0x4E         \<comment> \<open>KeyKpplusminus to KeypadPlus\<close>
      else if code = 119 then Some 0xE11D45     \<comment> \<open>KeyPause to KeyPause\<close>
      else if code = 120 then None              \<comment> \<open>KeyScale to nothing\<close>
      else if code = 121 then Some 0x7E         \<comment> \<open>KeyKpcomma to KeypadComma\<close>
      else if code = 122 then Some 0x72         \<comment> \<open>KeyHanguel to KeyLANG1\<close>
      else if code = 123 then Some 0x71         \<comment> \<open>KeyHanja to KeyLANG2\<close>
      else if code = 124 then Some 0x7D         \<comment> \<open>KeyYen to KeyInternational3\<close>
      else if code = 125 then Some 0xE05B       \<comment> \<open>KeyLeftMeta to KeyLeftGUI\<close>
      else if code = 126 then Some 0xE05C       \<comment> \<open>KeyRightmeta to KeyRightGUI\<close>
      else if code = 127 then Some 0xE05D       \<comment> \<open>KeyCompose to KeyApplication\<close>
      else if code = 128 then Some 0xE068       \<comment> \<open>KeyStop to ACStop\<close>
      else if code = 129 then None              \<comment> \<open>KeyAgain to nothing\<close>
      else if code = 130 then None              \<comment> \<open>KeyProps to nothing\<close>
      else if code = 131 then None              \<comment> \<open>KeyUndo to nothing\<close>
      else if code = 132 then None              \<comment> \<open>KeyFront to nothing\<close>
      else if code = 133 then None              \<comment> \<open>KeyCopy to nothing\<close>
      else if code = 134 then None              \<comment> \<open>KeyOpen to nothing\<close>
      else if code = 135 then None              \<comment> \<open>KeyPaste to nothing\<close>
      else if code = 136 then Some 0xE065       \<comment> \<open>KeyFind to ACSearch\<close>
      else if code = 137 then None              \<comment> \<open>KeyCut to nothing\<close>
      else if code = 138 then Some 0x3B         \<comment> \<open>KeyHelp to KeyF1\<close>
      else if code = 139 then Some 0xE05D       \<comment> \<open>KeyMenu to KeyApplication\<close>
      else if code = 140 then Some 0xE021       \<comment> \<open>KeyCalc to ALCalculator\<close>
      else if code = 141 then None              \<comment> \<open>KeySetup to nothing\<close>
      else if code = 142 then Some 0xE05F       \<comment> \<open>KeySleep to SystemSleep\<close>
      else if code = 143 then Some 0xE063       \<comment> \<open>KeyWakeup to SystemWakeUp\<close>
      else if code = 144 then Some 0xE06B       \<comment> \<open>KeyFile to ALLocalMachineBrowser\<close>
      else if code = 145 then None              \<comment> \<open>KeySendfile to nothing\<close>
      else if code = 146 then None              \<comment> \<open>KeyDeletefile to nothing\<close>
      else if code = 147 then None              \<comment> \<open>KeyXfer to nothing\<close>
      else if code = 148 then None              \<comment> \<open>KeyProg1 to nothing\<close>
      else if code = 149 then None              \<comment> \<open>KeyProg2 to nothing\<close>
      else if code = 150 then Some 0xE065       \<comment> \<open>KeyWww to ACSearch\<close>
      else if code = 151 then None              \<comment> \<open>KeyMsdos to nothing\<close>
      else if code = 152 then None              \<comment> \<open>KeyCoffee to nothing\<close>
      else if code = 153 then None              \<comment> \<open>KeyRotateDisplay to nothing\<close>
      else if code = 154 then None              \<comment> \<open>KeyCyclewindows to nothing\<close>
      else if code = 155 then Some 0xE06C       \<comment> \<open>KeyMail to ALEmailReader\<close>
      else if code = 156 then Some 0xE066       \<comment> \<open>KeyBookmarks to ACBookmarks\<close>
      else if code = 157 then Some 0xE032       \<comment> \<open>KeyComputer to ACHome\<close>
      else if code = 158 then Some 0xE06A       \<comment> \<open>KeyBack to ACBack\<close>
      else if code = 159 then Some 0xE069       \<comment> \<open>KeyForward to ACForward\<close>
      else if code = 160 then None              \<comment> \<open>KeyClosecd to nothing\<close>
      else if code = 161 then None              \<comment> \<open>KeyEjectcd to nothing\<close>
      else if code = 162 then None              \<comment> \<open>KeyEjectclosecd to nothing\<close>
      else if code = 163 then Some 0xE019       \<comment> \<open>KeyNextsong to KeyScanNextTrack\<close>
      else if code = 164 then Some 0xE022       \<comment> \<open>KeyPlaypause to KeyPlayPause\<close>
      else if code = 165 then Some 0xE010       \<comment> \<open>KeyPrevioussong to KeyScanPreviousTrack\<close>
      else if code = 166 then Some 0xE024       \<comment> \<open>KeyStopcd to KeyStop\<close>
      else if code = 167 then None              \<comment> \<open>KeyRecord to nothing\<close>
      else if code = 168 then None              \<comment> \<open>KeyRewind to nothing\<close>
      else if code = 169 then None              \<comment> \<open>KeyPhone to nothing\<close>
      else if code = 170 then None              \<comment> \<open>KeyIso to nothing\<close>
      else if code = 171 then None              \<comment> \<open>KeyConfig to nothing\<close>
      else if code = 172 then Some 0xE032       \<comment> \<open>KeyHomepage to ACHome\<close>
      else if code = 173 then Some 0xE067       \<comment> \<open>KeyRefresh to ACRefresh\<close>
      else if code = 174 then None              \<comment> \<open>KeyExit to nothing\<close>
      else if code = 175 then None              \<comment> \<open>KeyMove to nothing\<close>
      else if code = 176 then None              \<comment> \<open>KeyEdit to nothing\<close>
      else if code = 177 then None              \<comment> \<open>KeyScrollup to nothing\<close>
      else if code = 178 then None              \<comment> \<open>KeyScrolldown to nothing\<close>
      else if code = 179 then None              \<comment> \<open>KeyKpleftparen to nothing\<close>
      else if code = 180 then None              \<comment> \<open>KeyKprightparen to nothing\<close>
      else if code = 181 then None              \<comment> \<open>KeyNew to nothing\<close>
      else if code = 182 then None              \<comment> \<open>KeyRedo to nothing\<close>
      else if code = 183 then Some 0x64         \<comment> \<open>KeyF13 to KeyF13\<close>
      else if code = 184 then Some 0x65         \<comment> \<open>KeyF14 to KeyF14\<close>
      else if code = 185 then Some 0x66         \<comment> \<open>KeyF15 to KeyF15\<close>
      else if code = 186 then Some 0x67         \<comment> \<open>KeyF16 to KeyF16\<close>
      else if code = 187 then Some 0x68         \<comment> \<open>KeyF17 to KeyF17\<close>
      else if code = 188 then Some 0x69         \<comment> \<open>KeyF18 to KeyF18\<close>
      else if code = 189 then Some 0x6A         \<comment> \<open>KeyF19 to KeyF19\<close>
      else if code = 190 then Some 0x6B         \<comment> \<open>KeyF20 to KeyF20\<close>
      else if code = 191 then Some 0x6C         \<comment> \<open>KeyF21 to KeyF21\<close>
      else if code = 192 then Some 0x6D         \<comment> \<open>KeyF22 to KeyF22\<close>
      else if code = 193 then Some 0x6E         \<comment> \<open>KeyF23 to KeyF23\<close>
      else if code = 194 then Some 0x76         \<comment> \<open>KeyF24 to KeyF24\<close>
      else if code = 200 then None              \<comment> \<open>KeyPlaycd to nothing\<close>
      else if code = 201 then None              \<comment> \<open>KeyPausecd to nothing\<close>
      else if code = 202 then None              \<comment> \<open>KeyProg3 to nothing\<close>
      else if code = 203 then None              \<comment> \<open>KeyProg4 to nothing\<close>
      else if code = 204 then None              \<comment> \<open>KeyAllApplications to nothing\<close>
      else if code = 205 then None              \<comment> \<open>KeySuspend to nothing\<close>
      else if code = 206 then None              \<comment> \<open>KeyClose to nothing\<close>
      else if code = 207 then None              \<comment> \<open>KeyPlay to nothing\<close>
      else if code = 208 then None              \<comment> \<open>KeyFastforward to nothing\<close>
      else if code = 209 then None              \<comment> \<open>KeyBassboost to nothing\<close>
      else if code = 210 then None              \<comment> \<open>KeyPrint to nothing\<close>
      else if code = 211 then None              \<comment> \<open>KeyHp to nothing\<close>
      else if code = 212 then None              \<comment> \<open>KeyCamera to nothing\<close>
      else if code = 213 then None              \<comment> \<open>KeySound to nothing\<close>
      else if code = 214 then None              \<comment> \<open>KeyQuestion to nothing\<close>
      else if code = 215 then None              \<comment> \<open>KeyEmail to nothing\<close>
      else if code = 216 then None              \<comment> \<open>KeyChat to nothing\<close>
      else if code = 217 then None              \<comment> \<open>KeySearch to nothing\<close>
      else if code = 218 then None              \<comment> \<open>KeyConnect to nothing\<close>
      else if code = 219 then None              \<comment> \<open>KeyFinance to nothing\<close>
      else if code = 220 then None              \<comment> \<open>KeySport to nothing\<close>
      else if code = 221 then None              \<comment> \<open>KeyShop to nothing\<close>
      else if code = 222 then None              \<comment> \<open>KeyAlterase to nothing\<close>
      else if code = 223 then None              \<comment> \<open>KeyCancel to nothing\<close>
      else if code = 224 then None              \<comment> \<open>KeyBrightnessdown to nothing\<close>
      else if code = 225 then None              \<comment> \<open>KeyBrightnessup to nothing\<close>
      else if code = 226 then None              \<comment> \<open>KeyMedia to nothing\<close>
      else if code = 227 then None              \<comment> \<open>KeySwitchvideomode to nothing\<close>
      else if code = 228 then None              \<comment> \<open>KeyKbdillumtoggle to nothing\<close>
      else if code = 229 then None              \<comment> \<open>KeyKbdillumdown to nothing\<close>
      else if code = 230 then None              \<comment> \<open>KeyKbdillumup to nothing\<close>
      else if code = 231 then None              \<comment> \<open>KeySend to nothing\<close>
      else if code = 232 then None              \<comment> \<open>KeyReply to nothing\<close>
      else if code = 233 then None              \<comment> \<open>KeyForwardmail to nothing\<close>
      else if code = 234 then None              \<comment> \<open>KeySave to nothing\<close>
      else if code = 235 then None              \<comment> \<open>KeyDocuments to nothing\<close>
      else if code = 236 then None              \<comment> \<open>KeyBattery to nothing\<close>
      else if code = 237 then None              \<comment> \<open>KeyBluetooth to nothing\<close>
      else if code = 238 then None              \<comment> \<open>KeyWlan to nothing\<close>
      else if code = 239 then None              \<comment> \<open>KeyUwb to nothing\<close>
      else if code = 240 then None              \<comment> \<open>KeyUnknown to nothing\<close>
      else if code = 241 then None              \<comment> \<open>KeyVideoNext to nothing\<close>
      else if code = 242 then None              \<comment> \<open>KeyVideoPrev to nothing\<close>
      else if code = 243 then None              \<comment> \<open>KeyBrightnessCycle to nothing\<close>
      else if code = 244 then None              \<comment> \<open>KeyBrightnessAuto to nothing\<close>
      else if code = 245 then None              \<comment> \<open>KeyDisplayOff to nothing\<close>
      else if code = 246 then None              \<comment> \<open>KeyWwan to nothing\<close>
      else if code = 247 then None              \<comment> \<open>KeyRfkill to nothing\<close>
      else if code = 248 then None              \<comment> \<open>KeyMicmute to nothing\<close>
      else if code = 249 then None              \<comment> \<open>KeyCount to nothing\<close>
      else if code = 84 then None               \<comment> \<open>Invalid to nothing\<close>
      else if code = 195 then None              \<comment> \<open>Invalid1 to nothing\<close>
      else if code = 196 then None              \<comment> \<open>Invalid2 to nothing\<close>
      else if code = 197 then None              \<comment> \<open>Invalid3 to nothing\<close>
      else if code = 198 then None              \<comment> \<open>Invalid4 to nothing\<close>
      else if code = 199 then None              \<comment> \<open>Invalid5 to nothing\<close>
      else None)"

definition linux_of_windows :: "nat \<Rightarrow> nat option" where
  "linux_of_windows code =
     (if code = 0xE05E then Some 116            \<comment> \<open>Shutdown to KeyPower\<close>
      else if code = 0xE05F then Some 142       \<comment> \<open>SystemSleep to KeySleep\<close>
      else if code = 0xE063 then Some 143       \<comment> \<open>SystemWakeUp to KeyWakeup\<close>
      else if code = 0xFF then Some 89          \<comment> \<open>ErrorRollOver to KeyRo\<close>
      else if code = 0x1E then Some 30          \<comment> \<open>KeyA to KeyA\<close>
      else if code = 0x30 then Some 48          \<comment> \<open>KeyB to KeyB\<close>
      else if code = 0x2E then Some 46          \<comment> \<open>KeyC to KeyC\<close>
      else if code = 0x20 then Some 32          \<comment> \<open>KeyD to KeyD\<close>
      else if code = 0x12 then Some 18          \<comment> \<open>KeyE to KeyE\<close>
      else if code = 0x21 then Some 33          \<comment> \<open>KeyF to KeyF\<close>
      else if code = 0x22 then Some 34          \<comment> \<open>KeyG to KeyG\<close>
      else if code = 0x23 then Some 35          \<comment> \<open>KeyH to KeyH\<close>
      else if code = 0x17 then Some 23          \<comment> \<open>KeyI to KeyI\<close>
      else if code = 0x24 then Some 36          \<comment> \<open>KeyJ to KeyJ\<close>
      else if code = 0x25 then Some 37          \<comment> \<open>KeyK to KeyK\<close>
      else if code = 0x26 then Some 38          \<comment> \<open>KeyL to KeyL\<close>
      else if code = 0x32 then Some 50          \<comment> \<open>KeyM to KeyM\<close>
      else if code = 0x31 then Some 49          \<comment> \<open>KeyN to KeyN\<close>
      else if code = 0x18 then Some 24          \<comment> \<open>KeyO to KeyO\<close>
      else if code = 0x19 then Some 25          \<comment> \<open>KeyP to KeyP\<close>
      else if code = 0x10 then Some 16          \<comment> \<open>KeyQ to KeyQ\<close>
      else if code = 0x13 then Some 19          \<comment> \<open>KeyR to KeyR\<close>
      else if code = 0x1F then Some 31          \<comment> \<open>KeyS to KeyS\<close>
      else if code = 0x14 then Some 20          \<comment> \<open>KeyT to KeyT\<close>
      else if code = 0x16 then Some 22          \<comment> \<open>KeyU to KeyU\<close>
      else if code = 0x2F then Some 47          \<comment> \<open>KeyV to KeyV\<close>
      else if code = 0x11 then Some 17          \<comment> \<open>KeyW to KeyW\<close>
      else if code = 0x2D then Some 45          \<comment> \<open>KeyX to KeyX\<close>
      else if code = 0x15 then Some 21          \<comment> \<open>KeyY to KeyY\<close>
      else if code = 0x2C then Some 44          \<comment> \<open>KeyZ to KeyZ\<close>
      else if code = 0x2 then Some 2            \<comment> \<open>Key1 to Key1\<close>
      else if code = 0x3 then Some 3            \<comment> \<open>Key2 to Key2\<close>
      else if code = 0x4 then Some 4            \<comment> \<open>Key3 to Key3\<close>
      else if code = 0x5 then Some 5            \<comment> \<open>Key4 to Key4\<close>
      else if code = 0x6 then Some 6            \<comment> \<open>Key5 to Key5\<close>
      else if code = 0x7 then Some 7            \<comment> \<open>Key6 to Key6\<close>
      else if code = 0x8 then Some 8            \<comment> \<open>Key7 to Key7\<close>
      else if code = 0x9 then Some 9            \<comment> \<open>Key8 to Key8\<close>
      else if code = 0xA then Some 10           \<comment> \<open>Key9 to Key9\<close>
      else if code = 0xB then Some 11           \<comment> \<open>Key0 to Key0\<close>
      else if code = 0x1C then Some 28          \<comment> \<open>KeyEnter to KeyEnter\<close>
      else if code = 0x1 then Some 1            \<comment> \<open>KeyEsc to KeyEsc\<close>
      else if code = 0xE then Some 14           \<comment> \<open>KeyDelete to KeyBackspace\<close>
      else if code = 0xF then Some 15           \<comment> \<open>KeyTab to KeyTab\<close>
      else if code = 0x39 then Some 57          \<comment> \<open>KeySpace to KeySpace\<close>
      else if code = 0xC then Some 12           \<comment> \<open>KeyMinus to KeyMinus\<close>
      else if code = 0xD then Some 13           \<comment> \<open>KeyEqual to KeyEqual\<close>
      else if code = 0x1A then Some 26          \<comment> \<open>KeyLeftBrace to KeyLeftbrace\<close>
      else if code = 0x1B then Some 27          \<comment> \<open>KeyRightBrace to KeyRightbrace\<close>
      else if code = 0x2B then Some 43          \<comment> \<open>KeyBackslash to KeyBackslash\<close>
      else if code = 0x27 then Some 39          \<comment> \<open>KeySemiColon to KeySemicolon\<close>
      else if code = 0x28 then Some 40          \<comment> \<open>KeyApostrophe to KeyApostrophe\<close>
      else if code = 0x29 then Some 41          \<comment> \<open>KeyGrave to KeyGrave\<close>
      else if code = 0x33 then Some 51          \<comment> \<open>KeyComma to KeyComma\<close>
      else if code = 0x34 then Some 52          \<comment> \<open>KeyDot to KeyDot\<close>
      else if code = 0x35 then Some 53          \<comment> \<open>KeySlash to KeySlash\<close>
      else if code = 0x3A then Some 58          \<comment> \<open>KeyCapsLock to KeyCapsLock\<close>
      else if code = 0x3B then Some 59          \<comment> \<open>KeyF1 to KeyF1\<close>
      else if code = 0x3C then Some 60          \<comment> \<open>KeyF2 to KeyF2\<close>
      else if code = 0x3D then Some 61          \<comment> \<open>KeyF3 to KeyF3\<close>
      else if code = 0x3E then Some 62          \<comment> \<open>KeyF4 to KeyF4\<close>
      else if code = 0x3F then Some 63          \<comment> \<open>KeyF5 to KeyF5\<close>
      else if code = 0x40 then Some 64          \<comment> \<open>KeyF6 to KeyF6\<close>
      else if code = 0x41 then Some 65          \<comment> \<open>KeyF7 to KeyF7\<close>
      else if code = 0x42 then Some 66          \<comment> \<open>KeyF8 to KeyF8\<close>
      else if code = 0x43 then Some 67          \<comment> \<open>KeyF9 to KeyF9\<close>
      else if code = 0x44 then Some 68          \<comment> \<open>KeyF10 to KeyF10\<close>
      else if code = 0x57 then Some 87          \<comment> \<open>KeyF11 to KeyF11\<close>
      else if code = 0x58 then Some 88          \<comment> \<open>KeyF12 to KeyF12\<close>
      else if code = 0xE037 then Some 99        \<comment> \<open>KeyPrintScreen to KeySysrq\<close>
      else if code = 0x46 then Some 70          \<comment> \<open>KeyScrollLock to KeyScrollLock\<close>
      else if code = 0xE11D45 then Some 119     \<comment> \<open>KeyPause to KeyPause\<close>
      else if code = 0xE052 then Some 110       \<comment> \<open>KeyInsert to KeyInsert\<close>
      else if code = 0xE047 then Some 102       \<comment> \<open>KeyHome to KeyHome\<close>
      else if code = 0xE049 then Some 104       \<comment> \<open>KeyPageUp to KeyPageup\<close>
      else if code = 0xE053 then Some 111       \<comment> \<open>KeyDeleteForward to KeyDelete\<close>
      else if code = 0xE04F then Some 107       \<comment> \<open>KeyEnd to KeyEnd\<close>
      else if code = 0xE051 then Some 109       \<comment> \<open>KeyPageDown to KeyPagedown\<close>
      else if code = 0xE04D then Some 106       \<comment> \<open>KeyRight to KeyRight\<close>
      else if code = 0xE04B then Some 105       \<comment> \<open>KeyLeft to KeyLeft\<close>
      else if code = 0xE050 then Some 108       \<comment> \<open>KeyDown to KeyDown\<close>
      else if code = 0xE048 then Some 103       \<comment> \<open>KeyUp to KeyUp\<close>
      else if code = 0x45 then Some 69          \<comment> \<open>KeypadNumLock to KeyNumlock\<close>
      else if code = 0xE035 then Some 98        \<comment> \<open>KeypadSlash to KeyKpslash\<close>
      else if code = 0x37 then Some 55          \<comment> \<open>KeypadStar to KeyKpAsterisk\<close>
      else if code = 0x4A then Some 74          \<comment> \<open>KeypadDash to KeyKpMinus\<close>
      else if code = 0x4E then Some 78          \<comment> \<open>KeypadPlus to KeyKpplus\<close>
      else if code = 0xE01C then Some 96        \<comment> \<open>KeypadEnter to KeyKpEnter\<close>
      else if code = 0x4F then Some 79          \<comment> \<open>Keypad1End to KeyKp1\<close>
      else if code = 0x50 then Some 80          \<comment> \<open>Keypad2DownArrow to KeyKp2\<close>
      else if code = 0x51 then Some 81          \<comment> \<open>Keypad3PageDn to KeyKp3\<close>
      else if code = 0x4B then Some 75          \<comment> \<open>Keypad4LeftArrow to KeyKp4\<close>
      else if code = 0x4C then Some 76          \<comment> \<open>Keypad5 to KeyKp5\<close>
      else if code = 0x4D then Some 77          \<comment> \<open>Keypad6RightArrow to KeyKp6\<close>
      else if code = 0x47 then Some 71          \<comment> \<open>Keypad7Home to KeyKp7\<close>
      else if code = 0x48 then Some 72          \<comment> \<open>Keypad8UpArrow to KeyKp8\<close>
      else if code = 0x49 then Some 73          \<comment> \<open>Keypad9PageUp to KeyKp9\<close>
      else if code = 0x52 then Some 82          \<comment> \<open>Keypad0Insert to KeyKp0\<close>
      else if code = 0x53 then Some 83          \<comment> \<open>KeypadDot to KeyKpDot\<close>
      else if code = 0x56 then Some 86          \<comment> \<open>KeyNonUSSlashBar to Key102nd\<close>
      else if code = 0xE05D then Some 139       \<comment> \<open>KeyApplication to KeyMenu\<close>
      else if code = 0x59 then Some 117         \<comment> \<open>KeypadEquals to KeyKpequal\<close>
      else if code = 0x64 then Some 183         \<comment> \<open>KeyF13 to KeyF13\<close>
      else if code = 0x65 then Some 184         \<comment> \<open>KeyF14 to KeyF14\<close>
      else if code = 0x66 then Some 185         \<comment> \<open>KeyF15 to KeyF15\<close>
      else if code = 0x67 then Some 186         \<comment> \<open>KeyF16 to KeyF16\<close>
      else if code = 0x68 then Some 187         \<comment> \<open>KeyF17 to KeyF17\<close>
      else if code = 0x69 then Some 188         \<comment> \<open>KeyF18 to KeyF18\<close>
      else if code = 0x6A then Some 189         \<comment> \<open>KeyF19 to KeyF19\<close>
      else if code = 0x6B then Some 190         \<comment> \<open>KeyF20 to KeyF20\<close>
      else if code = 0x6C then Some 191         \<comment> \<open>KeyF21 to KeyF21\<close>
      else if code = 0x6D then Some 192         \<comment> \<open>KeyF22 to KeyF22\<close>
      else if code = 0x6E then Some 193         \<comment> \<open>KeyF23 to KeyF23\<close>
      else if code = 0x76 then Some 194         \<comment> \<open>KeyF24 to KeyF24\<close>
      else if code = 0x7E then Some 121         \<comment> \<open>KeypadComma to KeyKpcomma\<close>
      else if code = 0x73 then Some 89          \<comment> \<open>KeyInternational1 to KeyRo\<close>
      else if code = 0x70 then Some 93          \<comment> \<open>KeyInternational2 to KeyKatakanahiragana\<close>
      else if code = 0x7D then Some 124         \<comment> \<open>KeyInternational3 to KeyYen\<close>
      else if code = 0x79 then Some 92          \<comment> \<open>KeyInternational4 to KeyHenkan\<close>
      else if code = 0x7B then Some 94          \<comment> \<open>KeyInternational5 to KeyMuhenkan\<close>
      else if code = 0x72 then Some 122         \<comment> \<open>KeyLANG1 to KeyHanguel\<close>
      else if code = 0x71 then Some 123         \<comment> \<open>KeyLANG2 to KeyHanja\<close>
      else if code = 0x78 then Some 90          \<comment> \<open>KeyLANG3 to KeyKatakana\<close>
      else if code = 0x77 then Some 91          \<comment> \<open>KeyLANG4 to KeyHiragana\<close>
      else if code = 0x1D then Some 29          \<comment> \<open>KeyLeftCtrl to KeyLeftCtrl\<close>
      else if code = 0x2A then Some 42          \<comment> \<open>KeyLeftShift to KeyLeftShift\<close>
      else if code = 0x38 then Some 56          \<comment> \<open>KeyLeftAlt to KeyLeftAlt\<close>
      else if code = 0xE05B then Some 125       \<comment> \<open>KeyLeftGUI to KeyLeftMeta\<close>
      else if code = 0xE01D then Some 97        \<comment> \<open>KeyRightCtrl to KeyRightCtrl\<close>
      else if code = 0x36 then Some 54          \<comment> \<open>KeyRightShift to KeyRightShift\<close>
      else if code = 0xE036 then Some 54        \<comment> \<open>KeyFakeRightShift to KeyRightShift\<close>
      else if code = 0xE038 then Some 100       \<comment> \<open>KeyRightAlt to KeyRightalt\<close>
      else if code = 0xE05C then Some 126       \<comment> \<open>KeyRightGUI to KeyRightmeta\<close>
      else if code = 0xE019 then Some 163       \<comment> \<open>KeyScanNextTrack to KeyNextsong\<close>
      else if code = 0xE010 then Some 165       \<comment> \<open>KeyScanPreviousTrack to KeyPrevioussong\<close>
      else if code = 0xE024 then Some 166       \<comment> \<open>KeyStop to KeyStopcd\<close>
      else if code = 0xE022 then Some 164       \<comment> \<open>KeyPlayPause to KeyPlaypause\<close>
      else if code = 0xE020 then Some 113       \<comment> \<open>KeyMute to KeyMute\<close>
      else if code = 0xE030 then Some 115       \<comment> \<open>KeyVolumeUp to KeyVolumeUp\<close>
      else if code = 0xE02E then Some 114       \<comment> \<open>KeyVolumeDown to KeyVolumeDown\<close>
      else if code = 0xE06D then None           \<comment> \<open>ALConsumerControlConfiguration to nothing\<close>
      else if code = 0xE06C then Some 155       \<comment> \<open>ALEmailReader to KeyMail\<close>
      else if code = 0xE021 then Some 140       \<comment> \<open>ALCalculator to KeyCalc\<close>
      else if code = 0xE06B then Some 144       \<comment> \<open>ALLocalMachineBrowser to KeyFile\<close>
      else if code = 0xE065 then Some 150       \<comment> \<open>ACSearch to KeyWww\<close>
      else if code = 0xE032 then Some 172       \<comment> \<open>ACHome to KeyHomepage\<close>
      else if code = 0xE06A then Some 158       \<comment> \<open>ACBack to KeyBack\<close>
      else if code = 0xE069 then Some 159       \<comment> \<open>ACForward to KeyForward\<close>
      else if code = 0xE068 then Some 128       \<comment> \<open>ACStop to KeyStop\<close>
      else if code = 0xE067 then Some 173       \<comment> \<open>ACRefresh to KeyRefresh\<close>
      else if code = 0xE066 then Some 156       \<comment> \<open>ACBookmarks to KeyBookmarks\<close>
      else None)"

section \<open>Round trips\<close>

text \<open>Every Windows code but three converts to a Linux code that converts back to it. The three are
  the error code, the fake right shift and the consumer control code, which have no Linux code of
  their own.\<close>

lemma windows_roundtrip_codes:
  "list_all (\<lambda>w. w \<in> {0xFF, 0xE036, 0xE06D} \<or>
     (case linux_of_windows w of None \<Rightarrow> False | Some l \<Rightarrow> l < 250 \<and> windows_of_linux l = Some w)) windows_codes"
  unfolding windows_codes_def list.pred_inject
  by (simp add: windows_of_linux_def linux_of_windows_def)

text \<open>Eight Linux codes share their Windows code with another key and come back as that key.\<close>

lemma linux_roundtrip_codes:
  "list_all (\<lambda>l. l \<in> {85, 95, 101, 118, 127, 136, 138, 157} \<or>
     (case windows_of_linux l of None \<Rightarrow> True | Some w \<Rightarrow> linux_of_windows w = Some l)) linux_codes"
  unfolding linux_codes_def list.pred_inject
  by (simp add: windows_of_linux_def linux_of_windows_def)

lemma linux_codes_all: "linux_codes = [0..<250]"
  by code_simp

lemma linux_try_from_code [simp]:
  assumes "l < 250" shows "linux_try_from (word_of_nat l) = Some l"
  using assms by (simp add: linux_try_from_def linux_codes_all unat_of_nat)

lemma linux_try_from_SomeD:
  assumes "linux_try_from key = Some l" shows "l < 250" "l = unat key"
  using assms by (auto simp: linux_try_from_def linux_codes_all split: if_splits)

lemma windows_try_from_SomeD:
  assumes "windows_try_from code = Some w" shows "w \<in> set windows_codes" "w = unat code"
  using assms by (auto simp: windows_try_from_def split: if_splits)

lemma windows_roundtrip:
  assumes "w \<in> set windows_codes" and "w \<notin> {0xFF, 0xE036, 0xE06D}"
  obtains l where "linux_of_windows w = Some l" and "l < 250" and "windows_of_linux l = Some w"
  using assms windows_roundtrip_codes by (force simp: list_all_iff split: option.splits)

lemma linux_roundtrip:
  assumes "l < 250" and "l \<notin> {85, 95, 101, 118, 127, 136, 138, 157}" and "windows_of_linux l = Some w"
  shows "linux_of_windows w = Some l"
  using assms linux_roundtrip_codes by (force simp: list_all_iff linux_codes_all)

section \<open>Extended codes\<close>

text \<open>The prefix \<open>0xE000\<close> of an extended key does not overlap a one-byte scan code, and the low byte of
  the prefixed code is the scan code again.\<close>

lemma extended_code:
  assumes "sc < (0x100 :: u32)"
  shows "unat (or sc 0xE000) = unat sc + 0xE000"
proof -
  have "sc = take_bit 8 sc"
    using assms by (simp add: take_bit_eq_mod word_unat_eq_iff unat_mod word_less_nat_alt)
  then have "and sc 0xE000 = and sc (and (mask 8) 0xE000)"
    by (metis and.assoc take_bit_eq_mask)
  also have "and (mask 8) 0xE000 = (0 :: u32)"
    by (simp add: mask_eq_exp_minus_1)
  finally have "or sc 0xE000 = sc + 0xE000"
    by (simp add: disjunctive_add_eq_or)
  then show ?thesis
    using assms by (simp add: unat_word_ariths word_less_nat_alt)
qed

lemma low_byte: "and (w :: u16) 0xFF = word_of_nat (unat w mod 256)"
proof -
  have "and w 0xFF = take_bit 8 w"
    by (simp add: take_bit_eq_mask mask_eq_exp_minus_1)
  then show ?thesis
    by (simp add: take_bit_eq_mod word_unat_eq_iff unat_mod unat_of_nat)
qed

end
