(* ===== verification/Input_Capture.thy ===== *)
theory Input_Capture
  imports Capture_Types Hash_Map Scancode
begin

text \<open>
  \<open>InputCapture\<close> of \<open>crates/syntra-input-capture/src/lib.rs\<close>: the registered barriers (several
  handles may share an edge), the keys and buttons pressed while capture is active, and the queue that
  gives an event of an edge to every handle on it. The answers of the platform backend are
  arguments: whether \<open>create\<close>, \<open>destroy\<close> and \<open>release\<close> succeed, and what its stream
  yields when it is polled. The key and button sets are lists without duplicates.
\<close>

record input_capture =
  ic_pressed_buttons :: "u32 list"
  ic_pressed_keys :: "nat list"
  ic_position_map :: "(edge, capture_handle list) hash_map"
  ic_id_map :: "(capture_handle, edge) hash_map"
  ic_pending :: "(capture_handle \<times> capture_event) list"
  ic_trace :: "effect list"

definition emit :: "effect \<Rightarrow> 'a input_capture_scheme \<Rightarrow> 'a input_capture_scheme" where
  "emit e ic = ic\<lparr>ic_trace := ic_trace ic @ [e]\<rparr>"

definition backend_answer :: "bool \<Rightarrow> unit outcome" where
  "backend_answer ok = (if ok then Done () else Failed)"

definition ic_new :: input_capture where
  "ic_new = \<lparr>ic_pressed_buttons = [], ic_pressed_keys = [], ic_position_map = [], ic_id_map = [],
     ic_pending = [], ic_trace = []\<rparr>"

definition ic_create ::
  "bool \<Rightarrow> capture_handle \<Rightarrow> edge \<Rightarrow> 'a input_capture_scheme \<Rightarrow> 'a input_capture_scheme \<times> unit outcome" where
  "ic_create ok i pos ic =
     (if hm_get (ic_id_map ic) i \<noteq> None then (ic, Panicked)
      else let ic = ic\<lparr>ic_id_map := hm_insert i pos (ic_id_map ic)\<rparr> in
        case hm_get (ic_position_map ic) pos of
          Some v \<Rightarrow> (ic\<lparr>ic_position_map := hm_insert pos (v @ [i]) (ic_position_map ic)\<rparr>, Done ())
        | None \<Rightarrow> (emit (BackendCreate pos)
                    (ic\<lparr>ic_position_map := hm_insert pos [i] (ic_position_map ic)\<rparr>), backend_answer ok))"

definition ic_destroy ::
  "bool \<Rightarrow> capture_handle \<Rightarrow> 'a input_capture_scheme \<Rightarrow> 'a input_capture_scheme \<times> unit outcome" where
  "ic_destroy ok i ic =
     (case hm_get (ic_id_map ic) i of
        None \<Rightarrow> (ic, Panicked)
      | Some pos \<Rightarrow>
          let ic = ic\<lparr>ic_id_map := hm_remove i (ic_id_map ic)\<rparr> in
          case hm_get (ic_position_map ic) pos of
            None \<Rightarrow> (ic, Panicked)
          | Some ids \<Rightarrow>
              let remaining = filter (\<lambda>j. j \<noteq> i) ids in
              if remaining = []
              then (emit (BackendDestroy pos)
                     (ic\<lparr>ic_position_map := hm_remove pos (ic_position_map ic)\<rparr>), backend_answer ok)
              else (ic\<lparr>ic_position_map := hm_insert pos remaining (ic_position_map ic)\<rparr>, Done ()))"

definition ic_release :: "bool \<Rightarrow> 'a input_capture_scheme \<Rightarrow> 'a input_capture_scheme \<times> unit outcome" where
  "ic_release ok ic =
     (emit BackendRelease (ic\<lparr>ic_pressed_keys := [], ic_pressed_buttons := []\<rparr>), backend_answer ok)"

text \<open>The answer of the backend is whether it placed the pointer, \<open>None\<close> an error.\<close>

definition ic_release_at_along ::
  "bool option \<Rightarrow> edge \<Rightarrow> f32_bits option \<Rightarrow> 'a input_capture_scheme \<Rightarrow> 'a input_capture_scheme \<times> bool outcome" where
  "ic_release_at_along answer landing along ic =
     (emit (BackendReleaseAt landing along) (ic\<lparr>ic_pressed_keys := [], ic_pressed_buttons := []\<rparr>),
      case answer of None \<Rightarrow> Failed | Some placed \<Rightarrow> Done placed)"

definition ic_take_pressed_buttons :: "'a input_capture_scheme \<Rightarrow> u32 list \<times> 'a input_capture_scheme" where
  "ic_take_pressed_buttons ic = (ic_pressed_buttons ic, ic\<lparr>ic_pressed_buttons := []\<rparr>)"

definition ic_take_pressed_keys :: "'a input_capture_scheme \<Rightarrow> nat list \<times> 'a input_capture_scheme" where
  "ic_take_pressed_keys ic = (ic_pressed_keys ic, ic\<lparr>ic_pressed_keys := []\<rparr>)"

definition keys_pressed :: "nat list \<Rightarrow> 'a input_capture_scheme \<Rightarrow> bool" where
  "keys_pressed keys ic \<longleftrightarrow> list_all (\<lambda>k. k \<in> set (ic_pressed_keys ic)) keys"

definition update_pressed_keys :: "u32 \<Rightarrow> u8 \<Rightarrow> 'a input_capture_scheme \<Rightarrow> 'a input_capture_scheme" where
  "update_pressed_keys key state ic = (case linux_try_from key of
     None \<Rightarrow> ic
   | Some scancode \<Rightarrow>
       ic\<lparr>ic_pressed_keys := (if state = 1 then List.insert scancode (ic_pressed_keys ic)
                              else removeAll scancode (ic_pressed_keys ic))\<rparr>)"

section \<open>The stream of events\<close>

datatype backend_poll = BackendPending | BackendClosed | BackendError | BackendEvent edge capture_event

datatype poll = PollPending | PollClosed | PollError | PollEvent capture_handle capture_event

definition track_pressed :: "capture_event \<Rightarrow> 'a input_capture_scheme \<Rightarrow> 'a input_capture_scheme" where
  "track_pressed event ic = (case event of
     CaptureInput (Keyboard (Key _ key state)) \<Rightarrow> update_pressed_keys key state ic
   | CaptureInput (Pointer (Button _ button state)) \<Rightarrow>
       ic\<lparr>ic_pressed_buttons := (if state = 1 then List.insert button (ic_pressed_buttons ic)
                                 else removeAll button (ic_pressed_buttons ic))\<rparr>
   | _ \<Rightarrow> ic)"

definition poll_next :: "backend_poll \<Rightarrow> 'a input_capture_scheme \<Rightarrow> 'a input_capture_scheme \<times> poll" where
  "poll_next backend ic =
     (case ic_pending ic of
        (i, event) # rest \<Rightarrow> (ic\<lparr>ic_pending := rest\<rparr>, PollEvent i event)
      | [] \<Rightarrow>
         (case backend of
            BackendPending \<Rightarrow> (ic, PollPending)
          | BackendClosed \<Rightarrow> (ic, PollClosed)
          | BackendError \<Rightarrow> (ic, PollError)
          | BackendEvent pos event \<Rightarrow>
              let ic = track_pressed event ic in
              case hm_get (ic_position_map ic) pos of
                None \<Rightarrow> (ic, PollPending)
              | Some [] \<Rightarrow> (ic, PollPending)
              | Some [i] \<Rightarrow> (ic, PollEvent i event)
              | Some (i # ids) \<Rightarrow>
                  (ic\<lparr>ic_pending := map (\<lambda>j. (j, event)) ids\<rparr>, PollEvent i event)))"

section \<open>The registered barriers\<close>

text \<open>The two maps describe the same barriers: a handle is listed once, at its own edge, and no edge
  keeps an empty list.\<close>

definition slot_ok :: "(capture_handle \<Rightarrow> edge option) \<Rightarrow> edge \<Rightarrow> capture_handle list option \<Rightarrow> bool" where
  "slot_ok edge_of pos slot \<longleftrightarrow> (case slot of
     None \<Rightarrow> (\<forall>i. edge_of i \<noteq> Some pos)
   | Some ids \<Rightarrow> ids \<noteq> [] \<and> distinct ids \<and> (\<forall>i. i \<in> set ids \<longleftrightarrow> edge_of i = Some pos))"

definition ic_wf :: "'a input_capture_scheme \<Rightarrow> bool" where
  "ic_wf ic \<longleftrightarrow> hm_ok (ic_id_map ic) \<and> hm_ok (ic_position_map ic)
     \<and> (\<forall>pos. slot_ok (hm_get (ic_id_map ic)) pos (hm_get (ic_position_map ic) pos))"

lemma ic_wf_new [simp]: "ic_wf ic_new"
  by (simp add: ic_wf_def ic_new_def slot_ok_def hash_map)

lemma ic_wf_slot: "ic_wf ic \<Longrightarrow> slot_ok (hm_get (ic_id_map ic)) pos (hm_get (ic_position_map ic) pos)"
  by (simp add: ic_wf_def)

lemma ic_wf_cong:
  "ic_id_map ic' = ic_id_map ic \<Longrightarrow> ic_position_map ic' = ic_position_map ic \<Longrightarrow> ic_wf ic' \<longleftrightarrow> ic_wf ic"
  by (simp add: ic_wf_def)

text \<open>A slot after a handle is added to its edge or taken from it; the other edges are unchanged.\<close>

lemma slot_ok_add:
  assumes "slot_ok e pos slot" and "e i = None"
  shows "slot_ok (e(i \<mapsto> pos)) pos (Some (case slot of None \<Rightarrow> [i] | Some ids \<Rightarrow> ids @ [i]))"
  using assms by (auto simp: slot_ok_def split: option.splits)

lemma slot_ok_other:
  "slot_ok e p slot \<Longrightarrow> e i \<noteq> Some p \<Longrightarrow> v \<noteq> Some p \<Longrightarrow> slot_ok (e(i := v)) p slot"
  by (cases slot) (auto simp: slot_ok_def)

lemma slot_ok_del:
  assumes "slot_ok e pos (Some ids)"
  shows "slot_ok (e(i := None)) pos
    (if filter (\<lambda>j. j \<noteq> i) ids = [] then None else Some (filter (\<lambda>j. j \<noteq> i) ids))"
  using assms by (auto simp: slot_ok_def filter_empty_conv)

lemma get_insert_fun: "hm_get (hm_insert k v m) = (hm_get m)(k \<mapsto> v)"
  by (simp add: fun_eq_iff hash_map)

lemma get_remove_fun: "hm_ok m \<Longrightarrow> hm_get (hm_remove k m) = (hm_get m)(k := None)"
  by (simp add: fun_eq_iff hash_map)

lemma ic_wf_update:
  assumes "ic_wf ic" and "hm_ok ids'" and "hm_ok map'"
    and "hm_get ids' = (hm_get (ic_id_map ic))(i := v)" and "hm_get map' = (hm_get (ic_position_map ic))(pos := slot)"
    and "slot_ok ((hm_get (ic_id_map ic))(i := v)) pos slot"
    and "\<And>p. p \<noteq> pos \<Longrightarrow> hm_get (ic_id_map ic) i \<noteq> Some p \<and> v \<noteq> Some p"
    and "ic_id_map ic' = ids'" and "ic_position_map ic' = map'"
  shows "ic_wf ic'"
  unfolding ic_wf_def
proof (intro conjI allI)
  fix p
  show "slot_ok (hm_get (ic_id_map ic')) p (hm_get (ic_position_map ic') p)"
    using assms ic_wf_slot [OF assms(1), of p] by (cases "p = pos") (auto simp: slot_ok_other)
qed (use assms in simp_all)

lemma ic_create_wf:
  assumes wf: "ic_wf ic" and new: "hm_get (ic_id_map ic) i = None"
  shows "ic_wf (fst (ic_create ok i pos ic)) \<and> snd (ic_create ok i pos ic) \<noteq> Panicked
    \<and> hm_get (ic_id_map (fst (ic_create ok i pos ic))) = (hm_get (ic_id_map ic))(i \<mapsto> pos)"
proof -
  let ?slot = "Some (case hm_get (ic_position_map ic) pos of None \<Rightarrow> [i] | Some ids \<Rightarrow> ids @ [i])"
  have maps: "ic_id_map (fst (ic_create ok i pos ic)) = hm_insert i pos (ic_id_map ic)"
    "ic_position_map (fst (ic_create ok i pos ic)) = hm_insert pos (the ?slot) (ic_position_map ic)"
    "snd (ic_create ok i pos ic) \<noteq> Panicked"
    using new by (auto simp: ic_create_def emit_def backend_answer_def Let_def split: option.splits)
  have "ic_wf (fst (ic_create ok i pos ic))"
  proof (rule ic_wf_update [OF wf, of _ _ i "Some pos" pos ?slot, OF _ _ _ _ _ _ maps(1,2)])
    show "slot_ok ((hm_get (ic_id_map ic))(i \<mapsto> pos)) pos ?slot"
      by (rule slot_ok_add [OF ic_wf_slot [OF wf] new])
  qed (use wf new in \<open>auto simp: get_insert_fun ic_wf_def\<close>)
  with maps show ?thesis by (simp add: get_insert_fun)
qed

lemma ic_destroy_wf:
  assumes wf: "ic_wf ic" and old: "hm_get (ic_id_map ic) i = Some pos"
  shows "ic_wf (fst (ic_destroy ok i ic)) \<and> snd (ic_destroy ok i ic) \<noteq> Panicked
    \<and> hm_get (ic_id_map (fst (ic_destroy ok i ic))) = (hm_get (ic_id_map ic))(i := None)"
proof -
  obtain ids where ids: "hm_get (ic_position_map ic) pos = Some ids"
    using ic_wf_slot [OF wf, of pos] old by (auto simp: slot_ok_def split: option.splits)
  let ?slot = "if filter (\<lambda>j. j \<noteq> i) ids = [] then None else Some (filter (\<lambda>j. j \<noteq> i) ids)"
  let ?map = "if filter (\<lambda>j. j \<noteq> i) ids = [] then hm_remove pos (ic_position_map ic)
    else hm_insert pos (filter (\<lambda>j. j \<noteq> i) ids) (ic_position_map ic)"
  have maps: "ic_id_map (fst (ic_destroy ok i ic)) = hm_remove i (ic_id_map ic)"
    "ic_position_map (fst (ic_destroy ok i ic)) = ?map" "snd (ic_destroy ok i ic) \<noteq> Panicked"
    using old ids by (auto simp: ic_destroy_def emit_def backend_answer_def Let_def)
  have "ic_wf (fst (ic_destroy ok i ic))"
  proof (rule ic_wf_update [OF wf, of _ _ i None pos ?slot, OF _ _ _ _ _ _ maps(1,2)])
    show "slot_ok ((hm_get (ic_id_map ic))(i := None)) pos ?slot"
      using slot_ok_del ic_wf_slot [OF wf, of pos] ids by metis
  qed (use wf old in \<open>auto simp: get_insert_fun get_remove_fun ic_wf_def\<close>)
  moreover have "hm_ok (ic_id_map ic)" using wf by (simp add: ic_wf_def)
  ultimately show ?thesis using maps by (simp add: get_remove_fun)
qed

section \<open>Delivery\<close>

text \<open>Polling \<open>n\<close> times while the backend has nothing new, and serving a backend event: polling until its
  queue is empty again.\<close>

primrec poll_times :: "nat \<Rightarrow> 'a input_capture_scheme \<Rightarrow> 'a input_capture_scheme \<times> poll list" where
  "poll_times 0 ic = (ic, [])"
| "poll_times (Suc n) ic =
     (let (ic, p) = poll_next BackendPending ic; (ic, ps) = poll_times n ic in (ic, p # ps))"

lemma poll_times_pending:
  "n \<le> length (ic_pending ic) \<Longrightarrow> poll_times n ic
     = (ic\<lparr>ic_pending := drop n (ic_pending ic)\<rparr>, map (\<lambda>(i, e). PollEvent i e) (take n (ic_pending ic)))"
proof (induction n arbitrary: ic)
  case (Suc n)
  then obtain i e rest where "ic_pending ic = (i, e) # rest"
    by (cases "ic_pending ic") auto
  with Suc show ?case by (simp add: poll_next_def)
qed simp

definition serve :: "edge \<times> capture_event \<Rightarrow> 'a input_capture_scheme \<Rightarrow> 'a input_capture_scheme \<times> poll list" where
  "serve backend_event ic =
     (let (ic, p) = poll_next (BackendEvent (fst backend_event) (snd backend_event)) ic;
          (ic, ps) = poll_times (length (ic_pending ic)) ic in (ic, p # ps))"

definition serve_all :: "(edge \<times> capture_event) list \<Rightarrow> 'a input_capture_scheme \<Rightarrow> 'a input_capture_scheme" where
  "serve_all events ic = fold (\<lambda>e ic. fst (serve e ic)) events ic"

lemma track_pressed_maps [simp]:
  "ic_position_map (track_pressed event ic) = ic_position_map ic"
  "ic_id_map (track_pressed event ic) = ic_id_map ic"
  "ic_pending (track_pressed event ic) = ic_pending ic"
  by (auto simp: track_pressed_def update_pressed_keys_def
      split: capture_event.splits input_event.splits keyboard_event.splits pointer_event.splits option.splits)

lemma serve_delivers:
  assumes "ic_pending ic = []" and "hm_get (ic_position_map ic) pos = Some ids" and "ids \<noteq> []"
  shows "serve (pos, event) ic = (track_pressed event ic, map (\<lambda>i. PollEvent i event) ids)"
proof -
  obtain i rest where ids: "ids = i # rest" using assms(3) by (cases ids) auto
  have "(track_pressed event ic)\<lparr>ic_pending := []\<rparr> = track_pressed event ic"
    using track_pressed_maps(3) [of event ic] assms(1) by simp
  then show ?thesis
    using assms ids by (cases rest) (simp_all add: serve_def poll_next_def poll_times_pending)
qed

lemma serve_tracks:
  assumes "ic_pending ic = []"
  shows "fst (serve (pos, event) ic) = track_pressed event ic"
proof (cases "hm_get (ic_position_map ic) pos")
  case None
  then show ?thesis using assms by (simp add: serve_def poll_next_def)
next
  case (Some ids)
  then show ?thesis
  proof (cases "ids = []")
    case True
    then show ?thesis using assms Some by (simp add: serve_def poll_next_def)
  next
    case False
    then show ?thesis using serve_delivers [OF assms Some] by simp
  qed
qed

section \<open>Pressed keys\<close>

text \<open>The reference: a key is down when the last event the backend reported for it was a press.\<close>

definition key_event_of :: "capture_event \<Rightarrow> (nat \<times> bool) option" where
  "key_event_of event = (case event of
     CaptureInput (Keyboard (Key _ key state)) \<Rightarrow>
       (case linux_try_from key of None \<Rightarrow> None | Some k \<Rightarrow> Some (k, state = 1))
   | _ \<Rightarrow> None)"

definition down_after :: "capture_event list \<Rightarrow> nat \<Rightarrow> bool" where
  "down_after events k \<longleftrightarrow>
     (case filter (\<lambda>(j, _). j = k) (List.map_filter key_event_of (rev events)) of
        [] \<Rightarrow> False | (_, down) # _ \<Rightarrow> down)"

lemma track_pressed_keys:
  "set (ic_pressed_keys (track_pressed event ic)) = (case key_event_of event of
     None \<Rightarrow> set (ic_pressed_keys ic)
   | Some (k, down) \<Rightarrow> if down then insert k (set (ic_pressed_keys ic)) else set (ic_pressed_keys ic) - {k})"
  by (auto simp: track_pressed_def key_event_of_def update_pressed_keys_def
      split: capture_event.splits input_event.splits keyboard_event.splits pointer_event.splits option.splits)

lemma serve_all_snoc: "serve_all (events @ [e]) ic = fst (serve e (serve_all events ic))"
  by (simp add: serve_all_def)

lemma serve_all_pending: "ic_pending ic = [] \<Longrightarrow> ic_pending (serve_all events ic) = []"
  by (induction events rule: rev_induct) (auto simp: serve_all_snoc serve_tracks serve_all_def)

lemma serve_all_down:
  assumes "ic_pending ic = []" and "ic_pressed_keys ic = []"
  shows "k \<in> set (ic_pressed_keys (serve_all events ic)) \<longleftrightarrow> down_after (map snd events) k"
proof (induction events rule: rev_induct)
  case Nil
  then show ?case using assms by (simp add: serve_all_def down_after_def map_filter_simps)
next
  case (snoc e events)
  have "serve_all (events @ [e]) ic = track_pressed (snd e) (serve_all events ic)"
    using serve_tracks [OF serve_all_pending [OF assms(1)], of "fst e" "snd e"] by (simp add: serve_all_snoc)
  then show ?case
    using snoc by (cases "key_event_of (snd e)")
      (auto simp: track_pressed_keys down_after_def map_filter_simps split: if_splits)
qed

text \<open>An event that the backend reports at an edge reaches every handle registered at that edge, each
  exactly once and in the order of registration, and leaves nothing queued behind.\<close>

theorem barrier_event_reaches_every_handle:
  assumes "ic_wf ic" and "ic_pending ic = []" and "hm_get (ic_position_map ic) pos = Some ids"
  shows "snd (serve (pos, event) ic) = map (\<lambda>i. PollEvent i event) ids
    \<and> ic_pending (fst (serve (pos, event) ic)) = []
    \<and> distinct ids \<and> set ids = {i. hm_get (ic_id_map ic) i = Some pos}"
  using ic_wf_slot [OF assms(1), of pos] serve_delivers [OF assms(2,3)] assms(2,3)
  by (auto simp: slot_ok_def)

theorem barrier_event_reaches_every_handle_witness:
  "snd (serve (LeftEdge, Begin) (fst (ic_create True 2 LeftEdge (fst (ic_create True 1 LeftEdge ic_new)))))
     = [PollEvent 1 Begin, PollEvent 2 Begin]"
proof -
  let ?one = "fst (ic_create True 1 LeftEdge ic_new)" and ?two = "fst (ic_create True 2 LeftEdge (fst (ic_create True 1 LeftEdge ic_new)))"
  have "hm_get (ic_id_map ic_new) 1 = None" by code_simp
  then have one: "ic_wf ?one" using ic_create_wf [OF ic_wf_new] by simp
  have "hm_get (ic_id_map ?one) 2 = None" by code_simp
  then have two: "ic_wf ?two" using ic_create_wf [OF one] by simp
  have "ic_pending ?two = []" and "hm_get (ic_position_map ?two) LeftEdge = Some [1, 2]" by code_simp+
  from barrier_event_reaches_every_handle [OF two this, of Begin] show ?thesis by simp
qed

text \<open>C32: the tracked keys agree with the reference. Whatever barriers are registered, none, one or several at an edge, an
  \<open>InputCapture\<close> that starts with no key pressed and nothing queued takes, after any sequence of backend events at any edges, each
  polled until its queue is empty, exactly those keys for pressed whose last reported event was a press; and the
  events left in the queue are none.\<close>

theorem pressed_keys_equivalence:
  assumes "ic_pending ic = []" and "ic_pressed_keys ic = []"
  shows "keys_pressed keys (serve_all events ic) = list_all (down_after (map snd events)) keys
    \<and> ic_pending (serve_all events ic) = []"
  using serve_all_down [OF assms] serve_all_pending [OF assms(1)] by (simp add: keys_pressed_def list_all_iff)

text \<open>Two devices share the left edge: the key is tracked once, not once for each.\<close>

theorem pressed_keys_equivalence_witness:
  "\<exists>ic :: input_capture. hm_get (ic_position_map ic) LeftEdge = Some [1, 2]
    \<and> (\<forall>keys. keys_pressed keys (serve_all [(LeftEdge, Begin), (LeftEdge, CaptureInput (Keyboard (Key 0 30 1))),
          (LeftEdge, CaptureInput (Keyboard (Key 0 29 1))), (LeftEdge, CaptureInput (Keyboard (Key 0 30 0)))] ic) =
        list_all (\<lambda>k. k = 29) keys)"
proof -
  define ic where "ic = fst (ic_create True 2 LeftEdge (fst (ic_create True 1 LeftEdge ic_new)))"
  let ?events = "[(LeftEdge, Begin), (LeftEdge, CaptureInput (Keyboard (Key 0 30 1))),
      (LeftEdge, CaptureInput (Keyboard (Key 0 29 1))), (LeftEdge, CaptureInput (Keyboard (Key 0 30 0)))]"
  have "ic_pending ic = []" "ic_pressed_keys ic = []" unfolding ic_def by code_simp+
  note * = pressed_keys_equivalence [OF this, of _ ?events]
  have "linux_try_from 30 = Some 30" "linux_try_from 29 = Some 29" using linux_try_from_code [of 30] linux_try_from_code [of 29] by simp_all
  then have "down_after (map snd ?events) = (\<lambda>k. k = 29)"
    by (auto simp: down_after_def key_event_of_def map_filter_simps fun_eq_iff)
  with * have "\<forall>keys. keys_pressed keys (serve_all ?events ic) = list_all (\<lambda>k. k = 29) keys" by simp
  moreover have "hm_get (ic_position_map ic) LeftEdge = Some [1, 2]" unfolding ic_def by code_simp
  ultimately show ?thesis by blast
qed

end
