(* ===== verification/Capture_Task.thy ===== *)
theory Capture_Task
  imports Input_Capture Wire Chunking
begin

text \<open>
  The capture task of \<open>crates/syntra-core/src/capture.rs\<close>: which device the local pointer has been
  sent to, the entry handshake, the push against an edge, hand-offs between devices and the release
  of the capture. The task owns the \<open>InputCapture\<close> of its session, so its record extends it.

  What the connection and the capture backend answer during one step is an argument, the record
  \<open>cap_env\<close>; \<open>ce_now\<close> is the clock in milliseconds, \<open>ce_cleanup\<close> the number of cleanup
  messages that were sent before \<open>REMOTE_RELEASE_TIMEOUT\<close> cut the rest off. The model is that of
  the desktop platforms: \<open>is_touchpad\<close> is false.
\<close>

section \<open>State\<close>

datatype cap_state = WaitingForAck | Sending

record capture_task = input_capture +
  ct_active_client :: "capture_handle option"
  ct_ack_deadline :: "nat option"
  ct_controller :: "(rstring \<times> edge) option"
  ct_last_entry :: "(edge \<times> nat) option"
  ct_multi_hop :: bool
  ct_separate_peer_pointers :: bool
  ct_edge_pressure :: fp
  ct_pressure :: "(capture_handle \<times> fp \<times> nat) option"
  ct_last_pressure_report :: "nat option"
  ct_last_pressure_amount :: fp
  ct_last_pass :: "(edge \<times> nat) option"
  ct_last_return :: "(edge \<times> nat) option"
  ct_entering_via :: "rstring option"
  ct_entry_along :: "f32_bits option"
  ct_legacy_entry :: bool
  ct_local_departure :: "(edge \<times> f32_bits option) option"
  ct_landing_along :: "f32_bits option"
  ct_held_until_ack :: "input_event list"
  ct_backend :: "capture_backend option"
  ct_restart_now :: bool
  ct_enabled_captures :: "capture_handle list"
  ct_captures :: "(capture_handle \<times> edge \<times> capture_type) list"
  ct_clipboard_sends :: "capture_handle list"
  ct_release_bind :: "nat list"
  ct_input_sharing :: bool
  ct_state :: cap_state

record cap_env =
  ce_now :: nat
  ce_remote_ready :: "capture_handle \<Rightarrow> bool"
  ce_peer_connected :: "capture_handle \<Rightarrow> bool"
  ce_client_fingerprint :: "capture_handle \<Rightarrow> rstring option"
  ce_own_fingerprint :: rstring
  ce_send_ok :: "capture_handle \<Rightarrow> proto_event \<Rightarrow> bool"
  ce_cleanup :: nat
  ce_send_finished :: "capture_handle \<Rightarrow> bool"
  ce_create_ok :: bool
  ce_destroy_ok :: bool
  ce_release_ok :: bool
  ce_release_at :: "bool option"

definition ENTRY_GRACE :: nat where "ENTRY_GRACE = 400"
definition ACK_TIMEOUT :: nat where "ACK_TIMEOUT = 750"
definition DUPLICATE_TOUCH :: nat where "DUPLICATE_TOUCH = 50"
definition PRESSURE_REPORT_INTERVAL :: nat where "PRESSURE_REPORT_INTERVAL = 33"
definition MAX_HELD_UNTIL_ACK :: nat where "MAX_HELD_UNTIL_ACK = 64"

definition PRESSURE_BACK_SLACK :: fp where "PRESSURE_BACK_SLACK = Finite False (40 * fp_unit)"
definition PRESSURE_LEAK_PER_SECOND :: fp where "PRESSURE_LEAK_PER_SECOND = Finite False (100 * fp_unit)"

text \<open>\<open>0.08f32\<close>, which is 10737418 times \<open>2^-27\<close>.\<close>

definition PRESSURE_REPORT_STEP :: fp where "PRESSURE_REPORT_STEP = Finite False (10737418 * 2 ^ 1047)"

lemmas capture_consts = ENTRY_GRACE_def ACK_TIMEOUT_def DUPLICATE_TOUCH_def PRESSURE_REPORT_INTERVAL_def
  MAX_HELD_UNTIL_ACK_def

definition ct_new :: "capture_backend option \<Rightarrow> nat list \<Rightarrow> capture_task" where
  "ct_new backend release_bind = \<lparr>
     ic_pressed_buttons = [], ic_pressed_keys = [], ic_position_map = [], ic_id_map = [], ic_pending = [], ic_trace = [],
     ct_active_client = None, ct_ack_deadline = None, ct_controller = None, ct_last_entry = None,
     ct_multi_hop = False, ct_separate_peer_pointers = False, ct_edge_pressure = fp_zero, ct_pressure = None,
     ct_last_pressure_report = None, ct_last_pressure_amount = fp_zero, ct_last_pass = None, ct_last_return = None,
     ct_entering_via = None, ct_entry_along = None, ct_legacy_entry = False, ct_local_departure = None,
     ct_landing_along = None, ct_held_until_ack = [], ct_backend = backend, ct_restart_now = False,
     ct_enabled_captures = [], ct_captures = [], ct_clipboard_sends = [], ct_release_bind = release_bind,
     ct_input_sharing = True, ct_state = WaitingForAck\<rparr>"

definition tell :: "icapture_event \<Rightarrow> capture_task \<Rightarrow> capture_task" where
  "tell e ct = emit (Told e) ct"

definition send :: "cap_env \<Rightarrow> capture_handle \<Rightarrow> proto_event \<Rightarrow> capture_task \<Rightarrow> capture_task \<times> bool" where
  "send env h event ct =
     (if ce_send_ok env h event then (emit (Sent h event) ct, True) else (ct, False))"

primrec send_all :: "cap_env \<Rightarrow> capture_handle \<Rightarrow> proto_event list \<Rightarrow> capture_task \<Rightarrow> capture_task" where
  "send_all env h [] ct = ct"
| "send_all env h (e # es) ct = send_all env h es (fst (send env h e ct))"

section \<open>Captures\<close>

definition add_capture :: "capture_handle \<Rightarrow> edge \<Rightarrow> capture_type \<Rightarrow> capture_task \<Rightarrow> capture_task" where
  "add_capture h pos kind ct = ct\<lparr>ct_captures := ct_captures ct @ [(h, pos, kind)]\<rparr>"

definition remove_capture :: "capture_handle \<Rightarrow> capture_task \<Rightarrow> capture_task" where
  "remove_capture h ct = ct\<lparr>ct_captures := filter (\<lambda>(h', _). h \<noteq> h') (ct_captures ct)\<rparr>"

definition get_capture :: "capture_handle \<Rightarrow> capture_task \<Rightarrow> (edge \<times> capture_type) option" where
  "get_capture h ct = map_of (ct_captures ct) h"

definition get_pos :: "capture_handle \<Rightarrow> capture_task \<Rightarrow> edge option" where
  "get_pos h ct = map_option fst (get_capture h ct)"

definition get_type :: "capture_handle \<Rightarrow> capture_task \<Rightarrow> capture_type option" where
  "get_type h ct = map_option snd (get_capture h ct)"

definition is_default_capture_at :: "edge \<Rightarrow> capture_task \<Rightarrow> bool" where
  "is_default_capture_at pos ct \<longleftrightarrow> list_ex (\<lambda>(_, p, t). p = pos \<and> t = DefaultCapture) (ct_captures ct)"

text \<open>\<open>expect("no such capture")\<close>.\<close>

definition with_pos ::
  "capture_handle \<Rightarrow> capture_task \<Rightarrow> (edge \<Rightarrow> capture_task \<times> 'a outcome) \<Rightarrow> capture_task \<times> 'a outcome" where
  "with_pos h ct f = (case get_pos h ct of None \<Rightarrow> (ct, Panicked) | Some pos \<Rightarrow> f pos)"

definition input_target :: "capture_handle \<Rightarrow> bool \<Rightarrow> capture_task \<Rightarrow> capture_handle option" where
  "input_target h begin_event ct = (case ct_active_client ct of
     Some active \<Rightarrow> Some active
   | None \<Rightarrow> if begin_event then Some h else None)"

definition within_grace :: "cap_env \<Rightarrow> nat \<Rightarrow> bool" where
  "within_grace env at \<longleftrightarrow> ce_now env - at < ENTRY_GRACE"

definition just_entered :: "cap_env \<Rightarrow> capture_task \<Rightarrow> bool" where
  "just_entered env ct = (case ct_last_entry ct of Some (_, at) \<Rightarrow> within_grace env at | None \<Rightarrow> False)"

definition passed_on_just_now :: "cap_env \<Rightarrow> edge \<Rightarrow> capture_task \<Rightarrow> bool" where
  "passed_on_just_now env pos ct =
     (case ct_last_pass ct of Some (edge, at) \<Rightarrow> edge = pos \<and> within_grace env at | None \<Rightarrow> False)"

definition returned_just_now :: "cap_env \<Rightarrow> edge \<Rightarrow> capture_task \<Rightarrow> bool" where
  "returned_just_now env pos ct =
     (case ct_last_return ct of Some (edge, at) \<Rightarrow> edge = pos \<and> within_grace env at | None \<Rightarrow> False)"

text \<open>\<open>None\<close>: the handle is unknown and the lookup panics.\<close>

definition returns_to_controller :: "cap_env \<Rightarrow> capture_handle \<Rightarrow> capture_task \<Rightarrow> bool option" where
  "returns_to_controller env h ct =
     (if ct_separate_peer_pointers ct then Some False
      else case ct_controller ct of
        None \<Rightarrow> Some False
      | Some (controller, entered) \<Rightarrow>
          if ct_active_client ct \<noteq> None then Some False
          else if ce_client_fingerprint env h = Some controller then Some True
          else map_option (\<lambda>(pos, kind). kind = EnterOnly \<and> pos = entered) (get_capture h ct))"

definition defer_to_handoff :: "cap_env \<Rightarrow> capture_handle \<Rightarrow> capture_task \<Rightarrow> bool" where
  "defer_to_handoff env h ct =
     (if ct_separate_peer_pointers ct then False
      else case ct_controller ct of
        None \<Rightarrow> False
      | Some (controller, _) \<Rightarrow>
          ct_multi_hop ct \<and> ct_active_client ct = None
          \<and> (case ce_client_fingerprint env h of Some fingerprint \<Rightarrow> fingerprint \<noteq> controller | None \<Rightarrow> False))"

definition send_proto_event :: "cap_env \<Rightarrow> capture_handle \<Rightarrow> proto_event \<Rightarrow> capture_task \<Rightarrow> capture_task" where
  "send_proto_event env h event ct =
     (if \<not> ce_peer_connected env h then ct else fst (send env h event ct))"

definition reconnect_lost_peers :: "cap_env \<Rightarrow> capture_task \<Rightarrow> capture_task" where
  "reconnect_lost_peers env ct =
     fold (\<lambda>(h, _, kind) ct. if kind = DefaultCapture \<and> \<not> ce_peer_connected env h
                              then emit (Connected h) ct else ct) (ct_captures ct) ct"

section \<open>Edge pressure\<close>

datatype pressure = Building fp | Reached | Backed

definition should_report_pressure :: "nat option \<Rightarrow> fp \<Rightarrow> fp \<Rightarrow> bool" where
  "should_report_pressure since_last last_amount amount = (case since_last of
     None \<Rightarrow> True
   | Some gap \<Rightarrow> gap \<ge> PRESSURE_REPORT_INTERVAL
       \<or> fp_le PRESSURE_REPORT_STEP (fp_abs (fp_sub round_f32 amount last_amount)))"

definition advance_pressure :: "fp \<Rightarrow> nat \<Rightarrow> edge \<Rightarrow> fp \<Rightarrow> fp \<Rightarrow> fp \<Rightarrow> pressure" where
  "advance_pressure so_far idle edge dx dy needed =
     (let push = (case edge of LeftEdge \<Rightarrow> fp_neg dx | RightEdge \<Rightarrow> dx | TopEdge \<Rightarrow> fp_neg dy | BottomEdge \<Rightarrow> dy);
          so_far = (if fp_lt fp_zero so_far \<and> fp_le push fp_zero
                    then fp_max (fp_sub round_f64 so_far
                                  (fp_mul round_f64 PRESSURE_LEAK_PER_SECOND (as_secs_f64 idle))) fp_zero
                    else so_far) in
      if \<not> fp_is_finite push then Building so_far
      else let total = fp_max (fp_add round_f64 so_far push) (fp_neg PRESSURE_BACK_SLACK) in
        if fp_le needed total then Reached
        else if fp_le total (fp_neg PRESSURE_BACK_SLACK) then Backed
        else Building total)"

definition report_pressure ::
  "cap_env \<Rightarrow> capture_handle \<Rightarrow> fp \<Rightarrow> bool \<Rightarrow> capture_task \<Rightarrow> capture_task \<times> unit outcome" where
  "report_pressure env h so_far force ct =
     (let now = ce_now env; need = ct_edge_pressure ct;
          amount = (if fp_lt fp_zero need
                    then fp_as_f32 (fp_clamp (fp_div round_f64 so_far need) fp_zero fp_one) else fp_zero);
          since_last = map_option (\<lambda>last. now - last) (ct_last_pressure_report ct) in
      if \<not> force \<and> \<not> should_report_pressure since_last (ct_last_pressure_amount ct) amount
      then (ct, Done ())
      else let ct = ct\<lparr>ct_last_pressure_report := Some now, ct_last_pressure_amount := amount\<rparr> in
        with_pos h ct (\<lambda>edge. (tell (EdgePressure edge amount (ct_entry_along ct)) ct, Done ())))"

definition report_pressure_peak :: "cap_env \<Rightarrow> capture_handle \<Rightarrow> capture_task \<Rightarrow> capture_task \<times> unit outcome" where
  "report_pressure_peak env h ct = report_pressure env h (ct_edge_pressure ct) True ct"

definition clear_pressure :: "cap_env \<Rightarrow> capture_task \<Rightarrow> capture_task \<times> unit outcome" where
  "clear_pressure env ct = (case ct_pressure ct of
     None \<Rightarrow> (ct, Done ())
   | Some (h, _) \<Rightarrow> report_pressure env h fp_zero True (ct\<lparr>ct_pressure := None\<rparr>))"

section \<open>Release\<close>

definition release_with ::
  "cap_env \<Rightarrow> edge option \<Rightarrow> f32_bits option \<Rightarrow> capture_task \<Rightarrow> capture_task \<times> bool outcome" where
  "release_with env landing along ct = (case landing of
     Some edge \<Rightarrow> ic_release_at_along (ce_release_at env) edge along ct
   | None \<Rightarrow> and_then (ic_release (ce_release_ok env) ct) (\<lambda>_ ct. (ct, Done False)))"

definition release_events :: "nat list \<Rightarrow> u32 list \<Rightarrow> proto_event list" where
  "release_events keys buttons =
     map (\<lambda>key. Input (Keyboard (Key 0 (word_of_nat key) 0))) keys
     @ map (\<lambda>button. Input (Pointer (Button 0 button 0))) buttons
     @ [Input (Keyboard (Modifiers 0 0 0 0)), Leave 0]"

definition release_capture_at :: "cap_env \<Rightarrow> edge option \<Rightarrow> capture_task \<Rightarrow> capture_task \<times> bool outcome" where
  "release_capture_at env landing ct =
     (let along = ct_landing_along ct;
          ct = ct\<lparr>ct_landing_along := None, ct_local_departure := None, ct_ack_deadline := None,
                  ct_held_until_ack := [], ct_state := WaitingForAck\<rparr> in
      case ct_active_client ct of
        None \<Rightarrow> release_with env landing along ct
      | Some h \<Rightarrow>
          let (keys, ct) = ic_take_pressed_keys (ct\<lparr>ct_active_client := None\<rparr>);
              (buttons, ct) = ic_take_pressed_buttons ct;
              (ct, released) = release_with env landing along ct;
              ct = (case (released, landing) of
                      (Done _, Some edge) \<Rightarrow> tell (PointerReturned edge along) ct
                    | _ \<Rightarrow> ct) in
          (send_all env h (take (ce_cleanup env) (release_events keys buttons)) ct, released))"

definition release_capture :: "cap_env \<Rightarrow> capture_task \<Rightarrow> capture_task \<times> unit outcome" where
  "release_capture env ct =
     and_then (clear_pressure env ct) (\<lambda>_ ct.
     and_then (release_capture_at env None ct) (\<lambda>_ ct. (ct, Done ())))"

definition return_local_pointer ::
  "cap_env \<Rightarrow> f32_bits option \<Rightarrow> capture_task \<Rightarrow> capture_task \<times> unit outcome" where
  "return_local_pointer env exit_along ct =
     (case (if ct_state ct = Sending then ct_local_departure ct else None) of
        Some (edge, old_along) \<Rightarrow>
          and_then
            (case exit_along of
               Some along \<Rightarrow>
                 and_then (clear_pressure env ct) (\<lambda>_ ct.
                 and_then (release_capture_at env (Some edge) (ct\<lparr>ct_landing_along := Some along\<rparr>))
                   (\<lambda>_ ct. (ct, Done ())))
             | None \<Rightarrow>
                 and_then (release_capture env ct)
                   (\<lambda>_ ct. (tell (PointerReturned edge old_along) ct, Done ())))
            (\<lambda>_ ct. (ct\<lparr>ct_last_return := Some (edge, ce_now env)\<rparr>, Done ()))
      | None \<Rightarrow> release_capture env ct)"

section \<open>Entering a device\<close>

definition enter_event :: "position \<Rightarrow> capture_task \<Rightarrow> proto_event" where
  "enter_event side ct = (case (ct_entering_via ct, ct_entry_along ct) of
     (Some via, _) \<Rightarrow> EnterVia side via
   | (None, Some along) \<Rightarrow> if \<not> ct_legacy_entry ct then EnterAt side along else Enter side
   | (None, None) \<Rightarrow> Enter side)"

definition legacy_entry_retry ::
  "cap_env \<Rightarrow> capture_task \<Rightarrow> capture_task \<times> (capture_handle \<times> proto_event) option outcome" where
  "legacy_entry_retry env ct = (case ct_active_client ct of
     None \<Rightarrow> (ct, Done None)
   | Some h \<Rightarrow>
       if ct_state ct \<noteq> WaitingForAck \<or> ct_entering_via ct \<noteq> None \<or> ct_entry_along ct = None
          \<or> ct_legacy_entry ct
       then (ct, Done None)
       else let ct = ct\<lparr>ct_legacy_entry := True, ct_ack_deadline := Some (ce_now env + ACK_TIMEOUT)\<rparr> in
         with_pos h ct (\<lambda>pos. (ct, Done (Some (h, enter_event (to_proto_pos (opposite pos)) ct)))))"

definition send_enter :: "cap_env \<Rightarrow> capture_handle \<Rightarrow> position \<Rightarrow> capture_task \<Rightarrow> capture_task" where
  "send_enter env h side ct = fst (send env h (enter_event side ct) ct)"

definition handoff_next :: "cap_env \<Rightarrow> capture_handle \<Rightarrow> rstring \<Rightarrow> capture_task \<Rightarrow> capture_handle option" where
  "handoff_next env from target ct =
     map_option fst (find (\<lambda>(h, _, kind). kind = DefaultCapture \<and> h \<noteq> from
       \<and> ce_client_fingerprint env h = Some target) (ct_captures ct))"

definition handoff ::
  "cap_env \<Rightarrow> capture_handle \<Rightarrow> rstring \<Rightarrow> position \<Rightarrow> capture_task \<Rightarrow> capture_task \<times> unit outcome" where
  "handoff env from target side ct =
     (if target = ce_own_fingerprint env
      then with_pos from ct (\<lambda>edge.
        and_then (release_capture_at env (Some edge) (ct\<lparr>ct_last_entry := Some (edge, ce_now env)\<rparr>))
          (\<lambda>placed ct. (if placed then ct else tell (PlacePointer edge) ct, Done ())))
      else case handoff_next env from target ct of
        None \<Rightarrow> (fst (send env from (Handoff target side) ct), Done ())
      | Some next_handle \<Rightarrow>
          if \<not> ce_remote_ready env next_handle
          then (fst (send env from (Handoff target side) ct), Done ())
          else with_pos from ct (\<lambda>_. with_pos next_handle ct (\<lambda>pos.
            let ct = fst (send env from (Leave 0) ct);
                ct = ct\<lparr>ct_state := WaitingForAck, ct_ack_deadline := Some (ce_now env + ACK_TIMEOUT),
                        ct_held_until_ack := [], ct_active_client := Some next_handle\<rparr>;
                ct = tell (ClientEntered next_handle) ct;
                ct = ct\<lparr>ct_entering_via := ce_client_fingerprint env from\<rparr> in
            (send_enter env next_handle (to_proto_pos (opposite pos)) ct, Done ()))))"

section \<open>Capture events\<close>

text \<open>\<open>handle_capture_event\<close> in the order of the source. Its parts return \<open>Done None\<close> where the
  source returns early. First the events that are not input, the barriers that are gone and the release
  bind.\<close>

definition stop_after :: "capture_task \<times> 'a outcome \<Rightarrow> capture_task \<times> 'b option outcome" where
  "stop_after r = and_then r (\<lambda>_ ct. (ct, Done None))"

definition hce_pressure ::
  "cap_env \<Rightarrow> capture_handle \<Rightarrow> capture_event \<Rightarrow> capture_task \<Rightarrow> capture_task \<times> (capture_event \<times> bool) option outcome" where
  "hce_pressure env h event ct = (case ct_pressure ct of
     None \<Rightarrow> (ct, Done (Some (event, False)))
   | Some (pending, so_far, since) \<Rightarrow>
       if pending \<noteq> h then
         (if get_capture pending ct \<noteq> None \<and> get_pos h ct = get_pos pending ct then (ct, Done None)
          else stop_after (release_capture env ct))
       else (case event of
         CaptureInput (Pointer (Motion _ dx dy)) \<Rightarrow>
           with_pos h ct (\<lambda>pos.
           (case advance_pressure so_far (ce_now env - since) pos (f64_of_bits dx) (f64_of_bits dy)
                   (ct_edge_pressure ct) of
              Building amount \<Rightarrow>
                stop_after (report_pressure env h amount False (ct\<lparr>ct_pressure := Some (h, amount, ce_now env)\<rparr>))
            | Reached \<Rightarrow>
                and_then (report_pressure_peak env h ct) (\<lambda>_ ct.
                and_then (clear_pressure env ct) (\<lambda>_ ct. (ct, Done (Some (Begin, True)))))
            | Backed \<Rightarrow>
                and_then (clear_pressure env ct) (\<lambda>_ ct. stop_after (ic_release (ce_release_ok env) ct))))
       | _ \<Rightarrow>
           if event = Begin \<and> ce_now env - since \<ge> DUPLICATE_TOUCH
           then and_then (clear_pressure env ct) (\<lambda>_ ct. (ct, Done (Some (event, False))))
           else (ct, Done None)))"

definition hce_screen ::
  "cap_env \<Rightarrow> capture_handle \<Rightarrow> capture_event \<Rightarrow> capture_task \<Rightarrow> capture_task \<times> (capture_event \<times> bool) option outcome" where
  "hce_screen env h event ct = (case event of
     Entry along \<Rightarrow> (ct\<lparr>ct_entry_along := Some along\<rparr>, Done None)
   | CaptureClipboard mime_type data \<Rightarrow>
       (if utf8_valid data then tell (FileClipboard h mime_type data) ct else ct, Done None)
   | _ \<Rightarrow>
       if get_capture h ct = None
       then (if event = Begin then stop_after (ic_release (ce_release_ok env) ct) else (ct, Done None))
       else if keys_pressed (ct_release_bind ct) ct then stop_after (release_capture env ct)
       else hce_pressure env h event ct)"

text \<open>A touch of an edge: refused, ignored, measured, returned to its owner, or announced. \<open>Done (Some ())\<close>
  goes on.\<close>

definition hce_touch ::
  "cap_env \<Rightarrow> capture_handle \<Rightarrow> edge \<Rightarrow> capture_type \<Rightarrow> bool \<Rightarrow> bool \<Rightarrow> capture_task \<Rightarrow> capture_task \<times> unit option outcome" where
  "hce_touch env h pos kind returning pressure_met ct =
     (if kind = DefaultCapture \<and> \<not> ce_remote_ready env h \<and> \<not> returning
      then stop_after (ic_release (ce_release_ok env) ct)
      else if just_entered env ct
      then let landing = map_option fst (ct_last_entry ct) in
        and_then (release_capture_at env landing ct) (\<lambda>placed ct.
          (case landing of Some edge \<Rightarrow> if placed then ct else tell (PlacePointer edge) ct | None \<Rightarrow> ct,
           Done None))
      else if returned_just_now env pos ct then stop_after (ic_release (ce_release_ok env) ct)
      else if passed_on_just_now env pos ct then stop_after (ic_release (ce_release_ok env) ct)
      else if \<not> pressure_met \<and> fp_lt fp_zero (ct_edge_pressure ct) \<and> (kind = DefaultCapture \<or> returning)
      then (ct\<lparr>ct_pressure := Some (h, fp_zero, ce_now env)\<rparr>, Done None)
      else if returning
      then and_then (ic_release (ce_release_ok env) (ct\<lparr>ct_last_pass := Some (pos, ce_now env)\<rparr>)) (\<lambda>_ ct.
        (case ct_controller ct of
           Some (controller, _) \<Rightarrow> tell (HandOn controller controller (to_proto_pos pos) (ct_entry_along ct)) ct
         | None \<Rightarrow> ct, Done None))
      else (tell (CaptureBegin h (ct_entry_along ct)) ct, Done (Some ())))"

definition hce_enter ::
  "cap_env \<Rightarrow> capture_handle \<Rightarrow> edge \<Rightarrow> capture_task \<Rightarrow> capture_task \<times> unit option outcome" where
  "hce_enter env h pos ct =
     (if defer_to_handoff env h ct
      then and_then (ic_release (ce_release_ok env) (ct\<lparr>ct_last_pass := Some (pos, ce_now env)\<rparr>)) (\<lambda>_ ct.
        (case (ct_controller ct, ce_client_fingerprint env h) of
           (Some (controller, _), Some target) \<Rightarrow>
             tell (StepInside pos) (tell (HandOn controller target (to_proto_pos pos) (ct_entry_along ct)) ct)
         | _ \<Rightarrow> ct, Done None))
      else if ct_active_client ct \<noteq> Some h
      then (tell (ClientEntered h)
              (ct\<lparr>ct_state := WaitingForAck, ct_legacy_entry := False,
                  ct_ack_deadline := Some (ce_now env + ACK_TIMEOUT),
                  ct_local_departure := Some (pos, ct_entry_along ct), ct_active_client := Some h\<rparr>),
            Done (Some ()))
      else (ct, Done (Some ())))"

text \<open>Clicks and keys wait for the acknowledgement, at most \<open>MAX_HELD_UNTIL_ACK\<close> of them.\<close>

definition is_press :: "input_event \<Rightarrow> bool" where
  "is_press e = (case e of Pointer (Button _ _ _) \<Rightarrow> True | Keyboard (Key _ _ _) \<Rightarrow> True | _ \<Rightarrow> False)"

definition hold_until_ack :: "input_event \<Rightarrow> capture_task \<Rightarrow> capture_task" where
  "hold_until_ack e ct =
     (if is_press e \<and> length (ct_held_until_ack ct) < MAX_HELD_UNTIL_ACK
      then ct\<lparr>ct_held_until_ack := ct_held_until_ack ct @ [e]\<rparr> else ct)"

definition send_or_release ::
  "cap_env \<Rightarrow> capture_handle \<Rightarrow> proto_event \<Rightarrow> capture_task \<Rightarrow> capture_task \<times> unit outcome" where
  "send_or_release env h event ct =
     (case send env h event ct of (ct, ok) \<Rightarrow> if ok then (ct, Done ()) else release_capture env ct)"

definition hce_forward ::
  "cap_env \<Rightarrow> capture_handle \<Rightarrow> capture_event \<Rightarrow> capture_task \<Rightarrow> capture_task \<times> unit outcome" where
  "hce_forward env h event ct = (case input_target h (event = Begin) ct of
     None \<Rightarrow> (ct, Done ())
   | Some target \<Rightarrow> with_pos target ct (\<lambda>pos.
       let side = to_proto_pos (opposite pos) in
       case event of
         Begin \<Rightarrow> let ct = ct\<lparr>ct_entering_via := None\<rparr> in send_or_release env target (enter_event side ct) ct
       | CaptureInput e \<Rightarrow>
           (case ct_state ct of
              WaitingForAck \<Rightarrow> let ct = hold_until_ack e ct in send_or_release env target (enter_event side ct) ct
            | Sending \<Rightarrow> send_or_release env target (Input e) ct)
       | _ \<Rightarrow> (ct, Panicked)))"

text \<open>The part after the measured push, for a barrier that exists.\<close>

definition hce_route ::
  "cap_env \<Rightarrow> capture_handle \<Rightarrow> edge \<Rightarrow> capture_type \<Rightarrow> capture_event \<Rightarrow> bool \<Rightarrow> capture_task \<Rightarrow> capture_task \<times> unit outcome" where
  "hce_route env h pos kind event pressure_met ct =
     (case returns_to_controller env h ct of
        None \<Rightarrow> (ct, Panicked)
      | Some returning \<Rightarrow>
          and_then (if event = Begin then hce_touch env h pos kind returning pressure_met ct else (ct, Done (Some ())))
            (\<lambda>go ct. if go = None then (ct, Done ())
              else if kind = EnterOnly
              then (if \<not> is_default_capture_at pos ct then ic_release (ce_release_ok env) ct else (ct, Done ()))
              else and_then (if event = Begin then hce_enter env h pos ct else (ct, Done (Some ())))
                (\<lambda>go ct. if go = None then (ct, Done ()) else hce_forward env h event ct)))"

definition handle_capture_event ::
  "cap_env \<Rightarrow> capture_handle \<Rightarrow> capture_event \<Rightarrow> capture_task \<Rightarrow> capture_task \<times> unit outcome" where
  "handle_capture_event env h event ct =
     and_then (hce_screen env h event ct) (\<lambda>next_event ct. case next_event of
       None \<Rightarrow> (ct, Done ())
     | Some (event, pressure_met) \<Rightarrow>
         (case get_capture h ct of
            None \<Rightarrow> (ct, Panicked)
          | Some (pos, kind) \<Rightarrow> hce_route env h pos kind event pressure_met ct))"

section \<open>The session\<close>

definition sync_one ::
  "cap_env \<Rightarrow> capture_handle \<times> edge \<times> capture_type \<Rightarrow> capture_task \<Rightarrow> capture_task \<times> unit outcome" where
  "sync_one env c ct = (case c of (h, pos, _) \<Rightarrow>
     if ct_input_sharing ct \<and> h \<notin> set (ct_enabled_captures ct) then
       (case ic_create (ce_create_ok env) h pos (ct\<lparr>ct_enabled_captures := ct_enabled_captures ct @ [h]\<rparr>) of
          (ct, Failed) \<Rightarrow> (ct\<lparr>ct_enabled_captures := removeAll h (ct_enabled_captures ct)\<rparr>, Failed)
        | r \<Rightarrow> r)
     else if \<not> ct_input_sharing ct \<and> h \<in> set (ct_enabled_captures ct) then
       and_then (if ct_active_client ct = Some h then release_capture env ct else (ct, Done ())) (\<lambda>_ ct.
         ic_destroy (ce_destroy_ok env) h (ct\<lparr>ct_enabled_captures := removeAll h (ct_enabled_captures ct)\<rparr>))
     else (ct, Done ()))"

primrec sync_list ::
  "cap_env \<Rightarrow> (capture_handle \<times> edge \<times> capture_type) list \<Rightarrow> capture_task \<Rightarrow> capture_task \<times> unit outcome" where
  "sync_list env [] ct = (ct, Done ())"
| "sync_list env (c # cs) ct = and_then (sync_one env c ct) (\<lambda>_ ct. sync_list env cs ct)"

definition sync_captures :: "cap_env \<Rightarrow> capture_task \<Rightarrow> capture_task \<times> unit outcome" where
  "sync_captures env ct = sync_list env (ct_captures ct) ct"

definition is_forwarded_protocol :: "proto_event \<Rightarrow> bool" where
  "is_forwarded_protocol event = (case event of
     ClipboardStart _ _ _ \<Rightarrow> True | ClipboardImageStart _ _ _ _ _ \<Rightarrow> True | ClipboardChunk _ _ _ \<Rightarrow> True
   | ClipboardCapabilities _ \<Rightarrow> True | ClipboardManifest _ _ \<Rightarrow> True | ClipboardFileRequest _ _ _ _ _ \<Rightarrow> True
   | ClipboardFileChunk _ _ _ _ _ \<Rightarrow> True | ClipboardFileComplete _ _ _ _ _ \<Rightarrow> True
   | ClipboardTransferCancel _ _ _ \<Rightarrow> True | ClipboardTransferProgress _ _ _ _ \<Rightarrow> True
   | ManualFileOffer _ _ _ \<Rightarrow> True | ManualFileDecision _ _ \<Rightarrow> True | ManualFileRequest _ _ _ \<Rightarrow> True
   | ManualFileChunk _ _ _ \<Rightarrow> True | ManualFileComplete _ _ \<Rightarrow> True | ManualFileResult _ _ _ \<Rightarrow> True
   | ManualFileCancel _ \<Rightarrow> True | HistorySyncRequest _ _ \<Rightarrow> True | HistoryRecordStart _ _ _ _ \<Rightarrow> True
   | HistoryRecordChunk _ _ _ _ \<Rightarrow> True | HistorySyncPageEnd _ _ \<Rightarrow> True
   | HistoryClearBoundaryRequest _ \<Rightarrow> True | HistoryClearBoundary _ _ \<Rightarrow> True | HistoryClearApply _ _ \<Rightarrow> True
   | HistoryClearAck _ _ _ \<Rightarrow> True | ProfileStart _ _ _ _ _ _ \<Rightarrow> True | ProfileChunk _ _ _ \<Rightarrow> True
   | ProfileRequest _ \<Rightarrow> True | ProfileChanged \<Rightarrow> True | _ \<Rightarrow> False)"

definition acknowledged :: "cap_env \<Rightarrow> capture_handle \<Rightarrow> capture_task \<Rightarrow> capture_task" where
  "acknowledged env h ct =
     (let ct = (case (ct_entering_via ct, ct_local_departure ct) of
                  (None, Some (edge, along)) \<Rightarrow> tell (PointerLeft edge along) ct
                | _ \<Rightarrow> ct);
          held = ct_held_until_ack ct in
      send_all env h (map Input held)
        (ct\<lparr>ct_entering_via := None, ct_entry_along := None, ct_state := Sending, ct_ack_deadline := None,
            ct_held_until_ack := []\<rparr>))"

text \<open>A message of the device the pointer is on.\<close>

definition active_message ::
  "cap_env \<Rightarrow> capture_handle \<Rightarrow> proto_event \<Rightarrow> capture_task \<Rightarrow> capture_task \<times> unit outcome" where
  "active_message env h event ct = (case event of
     Ack _ \<Rightarrow> (if ct_state ct = WaitingForAck then (acknowledged env h ct, Done ()) else (ct, Done ()))
   | Leave _ \<Rightarrow> return_local_pointer env None ct
   | LeaveAt along \<Rightarrow> return_local_pointer env (Some along) ct
   | Pong False \<Rightarrow> release_capture env ct
   | Handoff target side \<Rightarrow>
       (if ct_state ct = Sending then handoff env h target side ct
        else with_pos h ct (\<lambda>edge. and_then (release_capture env ct)
               (\<lambda>_ ct. (tell (StepInside edge) ct, Done ()))))
   | _ \<Rightarrow> (ct, Done ()))"

definition cap_recv ::
  "cap_env \<Rightarrow> capture_handle \<Rightarrow> rstring \<Rightarrow> proto_event \<Rightarrow> capture_task \<Rightarrow> capture_task \<times> unit outcome" where
  "cap_recv env h fingerprint event ct =
     (let ct = tell (PeerAuthenticated h fingerprint) (emit (Received h event) ct) in
      if is_forwarded_protocol event then (tell (ClipboardReceived h fingerprint event) ct, Done ())
      else let ct = (case event of Pong _ \<Rightarrow> tell (PeerStateChanged h) ct | _ \<Rightarrow> ct);
               ct = (if event = Pong False \<and> \<not> ce_peer_connected env h then tell (PeerLost h) ct else ct) in
        if ct_active_client ct \<noteq> Some h then sync_captures env ct
        else and_then (active_message env h event ct) (\<lambda>_ ct. sync_captures env ct))"

definition cap_deadline :: "cap_env \<Rightarrow> capture_task \<Rightarrow> capture_task \<times> unit outcome" where
  "cap_deadline env ct =
     and_then (legacy_entry_retry env ct) (\<lambda>retry ct. case retry of
       Some (h, event) \<Rightarrow> (fst (send env h event ct), Done ())
     | None \<Rightarrow> release_capture env ct)"

datatype capture_request =
    Release
  | SetController "(rstring \<times> edge) option"
  | SetMultiHop bool
  | SetSeparatePeerPointers bool
  | SetEdgePressure fp
  | Create capture_handle edge capture_type
  | Destroy capture_handle
  | Reenable
  | SetBackend "capture_backend option"
  | SetInputSharing bool
  | SetReleaseBind "nat list"
  | SendProto capture_handle proto_event
  | SendClipboard capture_handle u64 bytes "(u32 \<times> u32) option"

definition send_clipboard_transfer ::
  "cap_env \<Rightarrow> capture_handle \<Rightarrow> u64 \<Rightarrow> bytes \<Rightarrow> (u32 \<times> u32) option \<Rightarrow> capture_task \<Rightarrow> capture_task" where
  "send_clipboard_transfer env h transfer_id data image_dimensions ct =
     (let running = filter (\<lambda>j. \<not> ce_send_finished env j) (ct_clipboard_sends ct);
          ct = (if h \<in> set running then emit (StreamAborted h) ct else ct) in
      emit (StreamStarted h transfer_id data image_dimensions)
        (ct\<lparr>ct_clipboard_sends := removeAll h running @ [h]\<rparr>))"

definition cap_release_request :: "cap_env \<Rightarrow> capture_task \<Rightarrow> capture_task \<times> unit outcome" where
  "cap_release_request env ct =
     (let was_sending = ct_active_client ct \<noteq> None;
          landing = (case ct_last_entry ct of
                       Some (edge, at) \<Rightarrow> if within_grace env at then Some edge else None
                     | None \<Rightarrow> None) in
      and_then (clear_pressure env ct) (\<lambda>_ ct.
      and_then (release_capture_at env landing ct) (\<lambda>placed ct.
        (case landing of
           Some edge \<Rightarrow>
             let ct = ct\<lparr>ct_last_entry := Some (edge, ce_now env)\<rparr> in
             if was_sending \<or> \<not> placed then tell (PlacePointer edge) ct else ct
         | None \<Rightarrow> ct, Done ()))))"

definition cap_destroy :: "cap_env \<Rightarrow> capture_handle \<Rightarrow> capture_task \<Rightarrow> capture_task \<times> unit outcome" where
  "cap_destroy env h ct =
     (let ct = remove_capture h ct in
      if h \<in> set (ct_enabled_captures ct)
      then and_then (if ct_active_client ct = Some h then release_capture env ct else (ct, Done ())) (\<lambda>_ ct.
        ic_destroy (ce_destroy_ok env) h (ct\<lparr>ct_enabled_captures := removeAll h (ct_enabled_captures ct)\<rparr>))
      else (ct, Done ()))"

text \<open>The requests of a running session; \<open>Done True\<close> ends it.\<close>

definition go_on :: "capture_task \<times> unit outcome \<Rightarrow> capture_task \<times> bool outcome" where
  "go_on r = and_then r (\<lambda>_ ct. (ct, Done False))"

definition cap_request :: "cap_env \<Rightarrow> capture_request \<Rightarrow> capture_task \<Rightarrow> capture_task \<times> bool outcome" where
  "cap_request env request ct = (case request of
     Reenable \<Rightarrow> (ct, Done False)
   | SetBackend backend \<Rightarrow>
       and_then (release_capture env (ct\<lparr>ct_backend := backend, ct_restart_now := True\<rparr>)) (\<lambda>_ ct. (ct, Done True))
   | Release \<Rightarrow> go_on (cap_release_request env ct)
   | SetController controller \<Rightarrow>
       (let changed = map_option fst controller \<noteq> map_option fst (ct_controller ct);
            ct = ct\<lparr>ct_controller := controller\<rparr> in
        if changed \<and> ct_pressure ct \<noteq> None then go_on (release_capture env ct) else (ct, Done False))
   | SetMultiHop enabled \<Rightarrow> (ct\<lparr>ct_multi_hop := enabled\<rparr>, Done False)
   | SetSeparatePeerPointers enabled \<Rightarrow> (ct\<lparr>ct_separate_peer_pointers := enabled\<rparr>, Done False)
   | SetEdgePressure amount \<Rightarrow> (ct\<lparr>ct_edge_pressure := amount\<rparr>, Done False)
   | SetInputSharing enabled \<Rightarrow>
       go_on (and_then (if \<not> enabled then release_capture env (ct\<lparr>ct_input_sharing := enabled\<rparr>)
                        else (ct\<lparr>ct_input_sharing := enabled\<rparr>, Done ()))
                (\<lambda>_ ct. sync_captures env ct))
   | Create h pos kind \<Rightarrow>
       (let ct = add_capture h pos kind ct;
            ct = (if kind = DefaultCapture then emit (Connected h) ct else ct) in
        go_on (sync_captures env ct))
   | Destroy h \<Rightarrow> go_on (cap_destroy env h ct)
   | SetReleaseBind bind \<Rightarrow> (ct\<lparr>ct_release_bind := bind\<rparr>, Done False)
   | SendProto h event \<Rightarrow> (send_proto_event env h event ct, Done False)
   | SendClipboard h transfer_id data image_dimensions \<Rightarrow>
       (send_clipboard_transfer env h transfer_id data image_dimensions ct, Done False))"

section \<open>Between sessions\<close>

definition handle_inactive_request ::
  "cap_env \<Rightarrow> capture_request \<Rightarrow> capture_task \<Rightarrow> capture_task \<times> bool outcome" where
  "handle_inactive_request env request ct = (case request of
     Reenable \<Rightarrow> (ct, Done True)
   | SetBackend backend \<Rightarrow> (ct\<lparr>ct_backend := backend, ct_restart_now := True\<rparr>, Done True)
   | Create h pos kind \<Rightarrow>
       (let ct = add_capture h pos kind ct in
        (if kind = DefaultCapture then emit (Connected h) ct else ct, Done False))
   | Destroy h \<Rightarrow> (remove_capture h ct, Done False)
   | Release \<Rightarrow> (ct, Done False)
   | SetController controller \<Rightarrow> go_on (clear_pressure env (ct\<lparr>ct_controller := controller\<rparr>))
   | SetMultiHop enabled \<Rightarrow> (ct\<lparr>ct_multi_hop := enabled\<rparr>, Done False)
   | SetSeparatePeerPointers enabled \<Rightarrow> (ct\<lparr>ct_separate_peer_pointers := enabled\<rparr>, Done False)
   | SetEdgePressure amount \<Rightarrow> (ct\<lparr>ct_edge_pressure := amount\<rparr>, Done False)
   | SetInputSharing enabled \<Rightarrow> (ct\<lparr>ct_input_sharing := enabled\<rparr>, Done False)
   | SetReleaseBind bind \<Rightarrow> (ct\<lparr>ct_release_bind := bind\<rparr>, Done False)
   | SendProto h event \<Rightarrow> (send_proto_event env h event ct, Done False)
   | SendClipboard h transfer_id data image_dimensions \<Rightarrow>
       (send_clipboard_transfer env h transfer_id data image_dimensions ct, Done False))"

definition handle_inactive_event ::
  "cap_env \<Rightarrow> capture_handle \<Rightarrow> rstring \<Rightarrow> proto_event \<Rightarrow> capture_task \<Rightarrow> capture_task" where
  "handle_inactive_event env h fingerprint event ct =
     (let ct = tell (PeerAuthenticated h fingerprint) (emit (Received h event) ct) in
      if is_forwarded_protocol event then tell (ClipboardReceived h fingerprint event) ct
      else case event of
        Pong alive \<Rightarrow>
          let ct = tell (PeerStateChanged h) ct in
          if \<not> alive \<and> \<not> ce_peer_connected env h then tell (PeerLost h) ct else ct
      | _ \<Rightarrow> ct)"

text \<open>\<open>do_capture\<close> starts a session with a fresh \<open>InputCapture\<close> of the selected backend.\<close>

definition session_start :: "cap_env \<Rightarrow> capture_backend \<Rightarrow> capture_task \<Rightarrow> capture_task \<times> unit outcome" where
  "session_start env selected ct =
     sync_captures env (tell (CaptureEnabled selected)
       (ct\<lparr>ic_pressed_buttons := [], ic_pressed_keys := [], ic_position_map := [], ic_id_map := [],
           ic_pending := [], ct_enabled_captures := []\<rparr>))"

end
