(* ===== verification/Capture_Invariant.thy ===== *)
theory Capture_Invariant
  imports Capture_Task
begin

text \<open>
  The invariant of the capture task. The trace says which device was entered last and whether it has
  acknowledged (\<open>entry_of\<close>); input other than the releases of a cleanup is only ever sent to a
  device that has (\<open>input_safe\<close>). The handshake fields agree with the trace, every barrier the state
  names exists, and the barriers of the session are those of the \<open>InputCapture\<close>.
\<close>

section \<open>The entered device\<close>

definition entry_step :: "effect \<Rightarrow> (capture_handle \<times> bool) option \<Rightarrow> (capture_handle \<times> bool) option" where
  "entry_step e entry = (case e of
     Told (ClientEntered h) \<Rightarrow> Some (h, False)
   | Received h (Ack _) \<Rightarrow> (case entry of Some (h', _) \<Rightarrow> if h' = h then Some (h, True) else entry | None \<Rightarrow> None)
   | _ \<Rightarrow> entry)"

definition entry_of :: "effect list \<Rightarrow> (capture_handle \<times> bool) option" where
  "entry_of tr = fold entry_step tr None"

definition is_release_input :: "input_event \<Rightarrow> bool" where
  "is_release_input e = (case e of
     Keyboard (Key _ _ state) \<Rightarrow> state = 0
   | Keyboard (Modifiers a b c d) \<Rightarrow> a = 0 \<and> b = 0 \<and> c = 0 \<and> d = 0
   | Pointer (Button _ _ state) \<Rightarrow> state = 0
   | _ \<Rightarrow> False)"

definition input_safe :: "effect list \<Rightarrow> bool" where
  "input_safe tr \<longleftrightarrow> (\<forall>pre h e post. tr = pre @ Sent h (Input e) # post \<longrightarrow>
     (\<exists>acked. entry_of pre = Some (h, acked) \<and> (acked \<or> is_release_input e)))"

lemma entry_of_Nil [simp]: "entry_of [] = None"
  by (simp add: entry_of_def)

lemma entry_of_snoc [simp]: "entry_of (tr @ [e]) = entry_step e (entry_of tr)"
  by (simp add: entry_of_def)

lemma entry_step_simps [simp]:
  "entry_step (Sent h p) entry = entry"
  "entry_step (Told (ClientEntered h)) entry = Some (h, False)"
  "entry_step BackendRelease entry = entry"
  "entry_step (BackendReleaseAt edge along) entry = entry"
  "entry_step (BackendCreate edge) entry = entry"
  "entry_step (BackendDestroy edge) entry = entry"
  "entry_step (Connected h) entry = entry"
  "entry_step (StreamStarted h t d i) entry = entry"
  "entry_step (StreamAborted h) entry = entry"
  by (simp_all add: entry_step_def)

lemma entry_step_told: "\<forall>h. n \<noteq> ClientEntered h \<Longrightarrow> entry_step (Told n) entry = entry"
  by (cases n) (simp_all add: entry_step_def)

lemma entry_step_received_same: "entry_step (Received h p) entry = entry \<or> (\<exists>u. p = Ack u)"
  by (cases p) (simp_all add: entry_step_def)

lemma input_safe_Nil [simp]: "input_safe []"
  by (simp add: input_safe_def)

lemma input_safe_snoc:
  "input_safe (tr @ [x]) \<longleftrightarrow> input_safe tr \<and> (\<forall>h e. x = Sent h (Input e) \<longrightarrow>
     (\<exists>acked. entry_of tr = Some (h, acked) \<and> (acked \<or> is_release_input e)))"
  (is "?L \<longleftrightarrow> ?R")
proof
  assume L: ?L
  have "input_safe tr"
    unfolding input_safe_def
  proof (intro allI impI)
    fix pre h e post assume "tr = pre @ Sent h (Input e) # post"
    then have "tr @ [x] = pre @ Sent h (Input e) # (post @ [x])" by simp
    with L show "\<exists>acked. entry_of pre = Some (h, acked) \<and> (acked \<or> is_release_input e)"
      unfolding input_safe_def by blast
  qed
  with L show ?R unfolding input_safe_def by blast
next
  assume R: ?R
  show ?L
    unfolding input_safe_def
  proof (intro allI impI)
    fix pre h e post assume eq: "tr @ [x] = pre @ Sent h (Input e) # post"
    show "\<exists>acked. entry_of pre = Some (h, acked) \<and> (acked \<or> is_release_input e)"
    proof (cases post rule: rev_cases)
      case Nil
      with eq have "tr = pre" "x = Sent h (Input e)" by simp_all
      with R show ?thesis by blast
    next
      case (snoc ys y)
      with eq have "tr = pre @ Sent h (Input e) # ys" by simp
      with R show ?thesis unfolding input_safe_def by blast
    qed
  qed
qed

lemma input_safe_emit [simp]:
  "input_safe (tr @ [Told n]) \<longleftrightarrow> input_safe tr"
  "input_safe (tr @ [Received h p]) \<longleftrightarrow> input_safe tr"
  "input_safe (tr @ [BackendRelease]) \<longleftrightarrow> input_safe tr"
  "input_safe (tr @ [BackendReleaseAt edge along]) \<longleftrightarrow> input_safe tr"
  "input_safe (tr @ [BackendCreate edge]) \<longleftrightarrow> input_safe tr"
  "input_safe (tr @ [BackendDestroy edge]) \<longleftrightarrow> input_safe tr"
  "input_safe (tr @ [Connected h]) \<longleftrightarrow> input_safe tr"
  "input_safe (tr @ [StreamStarted h t d i]) \<longleftrightarrow> input_safe tr"
  "input_safe (tr @ [StreamAborted h]) \<longleftrightarrow> input_safe tr"
  by (simp_all add: input_safe_snoc)

section \<open>The invariant\<close>

definition handshake_ok :: "capture_task \<Rightarrow> bool" where
  "handshake_ok ct \<longleftrightarrow> length (ct_held_until_ack ct) \<le> MAX_HELD_UNTIL_ACK \<and>
     (case ct_active_client ct of
        None \<Rightarrow> ct_state ct = WaitingForAck \<and> ct_ack_deadline ct = None \<and> ct_held_until_ack ct = []
          \<and> ct_local_departure ct = None
      | Some h \<Rightarrow> get_capture h ct \<noteq> None \<and>
          (\<exists>acked. entry_of (ic_trace ct) = Some (h, acked) \<and>
             (ct_state ct = Sending \<longrightarrow> acked \<and> ct_ack_deadline ct = None \<and> ct_held_until_ack ct = [])) \<and>
          (ct_state ct = WaitingForAck \<longrightarrow> ct_ack_deadline ct \<noteq> None))"

definition push_ok :: "capture_task \<Rightarrow> bool" where
  "push_ok ct \<longleftrightarrow> (\<forall>h x at. ct_pressure ct = Some (h, x, at) \<longrightarrow> get_capture h ct \<noteq> None)"

definition barriers_ok :: "capture_task \<Rightarrow> bool" where
  "barriers_ok ct \<longleftrightarrow> ic_wf ct
     \<and> (\<forall>h. h \<in> set (ct_enabled_captures ct) \<longleftrightarrow> hm_get (ic_id_map ct) h \<noteq> None)"

definition cap_core :: "capture_task \<Rightarrow> bool" where
  "cap_core ct \<longleftrightarrow> handshake_ok ct \<and> push_ok ct \<and> input_safe (ic_trace ct)"

definition cap_inv :: "capture_task \<Rightarrow> bool" where
  "cap_inv ct \<longleftrightarrow> cap_core ct \<and> barriers_ok ct"

lemmas cap_inv_defs = cap_inv_def cap_core_def handshake_ok_def push_ok_def barriers_ok_def
  get_capture_def

text \<open>The contract of the operations of the task: they keep the invariant and the configured captures and do
  not panic; when the backend fails, the session ends with the part of the invariant that does not concern its barriers.\<close>

abbreviation keeps ::
  "(capture_handle \<times> edge \<times> capture_type) list \<Rightarrow> capture_task \<times> 'a outcome \<Rightarrow> bool" where
  "keeps cs \<equiv> leaves (\<lambda>ct. cap_inv ct \<and> ct_captures ct = cs) cap_core"

section \<open>The fields the invariant reads\<close>

definition inv_view where
  "inv_view ct = (ct_active_client ct, ct_ack_deadline ct, ct_state ct, ct_held_until_ack ct, ct_local_departure ct,
     ct_captures ct, ct_pressure ct, ct_enabled_captures ct, ic_id_map ct, ic_position_map ct,
     entry_of (ic_trace ct), input_safe (ic_trace ct))"

lemma cap_inv_core: "cap_inv ct \<Longrightarrow> cap_core ct"
  by (simp add: cap_inv_def)

lemma barriers_ok_cong:
  assumes "ic_id_map ct' = ic_id_map ct" and "ic_position_map ct' = ic_position_map ct"
    and "ct_enabled_captures ct' = ct_enabled_captures ct"
  shows "barriers_ok ct' \<longleftrightarrow> barriers_ok ct"
  unfolding barriers_ok_def ic_wf_def assms by (rule refl)

lemma view_captures: "inv_view ct' = inv_view ct \<Longrightarrow> ct_captures ct' = ct_captures ct"
  by (simp add: inv_view_def)

lemma view_core:
  assumes "inv_view ct' = inv_view ct" shows "cap_core ct' \<longleftrightarrow> cap_core ct"
proof -
  have "ct_active_client ct' = ct_active_client ct" "ct_ack_deadline ct' = ct_ack_deadline ct"
    "ct_state ct' = ct_state ct" "ct_held_until_ack ct' = ct_held_until_ack ct"
    "ct_local_departure ct' = ct_local_departure ct" "ct_captures ct' = ct_captures ct"
    "ct_pressure ct' = ct_pressure ct" "entry_of (ic_trace ct') = entry_of (ic_trace ct)"
    "input_safe (ic_trace ct') = input_safe (ic_trace ct)"
    using assms by (simp_all add: inv_view_def)
  then show ?thesis unfolding cap_core_def handshake_ok_def push_ok_def get_capture_def by (simp only:)
qed

lemma view_barriers:
  assumes "inv_view ct' = inv_view ct" shows "barriers_ok ct' \<longleftrightarrow> barriers_ok ct"
  by (rule barriers_ok_cong) (use assms in \<open>simp_all add: inv_view_def\<close>)

lemma view_inv: "inv_view ct' = inv_view ct \<Longrightarrow> cap_inv ct' \<longleftrightarrow> cap_inv ct"
  using view_core [of ct' ct] view_barriers [of ct' ct] by (simp add: cap_inv_def)

lemma view_get_capture: "inv_view ct' = inv_view ct \<Longrightarrow> get_capture h ct' = get_capture h ct"
  by (simp add: inv_view_def get_capture_def)

lemma view_updates [simp]:
  "inv_view (ct\<lparr>ct_controller := c\<rparr>) = inv_view ct"
  "inv_view (ct\<lparr>ct_last_entry := e\<rparr>) = inv_view ct"
  "inv_view (ct\<lparr>ct_multi_hop := b\<rparr>) = inv_view ct"
  "inv_view (ct\<lparr>ct_separate_peer_pointers := b\<rparr>) = inv_view ct"
  "inv_view (ct\<lparr>ct_edge_pressure := x\<rparr>) = inv_view ct"
  "inv_view (ct\<lparr>ct_last_pressure_report := t\<rparr>) = inv_view ct"
  "inv_view (ct\<lparr>ct_last_pressure_amount := x\<rparr>) = inv_view ct"
  "inv_view (ct\<lparr>ct_last_pass := p\<rparr>) = inv_view ct"
  "inv_view (ct\<lparr>ct_last_return := p\<rparr>) = inv_view ct"
  "inv_view (ct\<lparr>ct_entering_via := v\<rparr>) = inv_view ct"
  "inv_view (ct\<lparr>ct_entry_along := along\<rparr>) = inv_view ct"
  "inv_view (ct\<lparr>ct_legacy_entry := b\<rparr>) = inv_view ct"
  "inv_view (ct\<lparr>ct_landing_along := along\<rparr>) = inv_view ct"
  "inv_view (ct\<lparr>ct_backend := backend\<rparr>) = inv_view ct"
  "inv_view (ct\<lparr>ct_restart_now := b\<rparr>) = inv_view ct"
  "inv_view (ct\<lparr>ct_clipboard_sends := hs\<rparr>) = inv_view ct"
  "inv_view (ct\<lparr>ct_release_bind := bind\<rparr>) = inv_view ct"
  "inv_view (ct\<lparr>ct_input_sharing := b\<rparr>) = inv_view ct"
  "inv_view (ct\<lparr>ic_pressed_keys := ks\<rparr>) = inv_view ct"
  "inv_view (ct\<lparr>ic_pressed_buttons := bs\<rparr>) = inv_view ct"
  "inv_view (ct\<lparr>ic_pending := ps\<rparr>) = inv_view ct"
  by (simp_all add: inv_view_def)

lemma view_tell: "\<forall>h. n \<noteq> ClientEntered h \<Longrightarrow> inv_view (tell n ct) = inv_view ct"
  by (simp add: tell_def emit_def inv_view_def entry_step_told)

lemma view_tell_simps [simp]:
  "inv_view (tell (StepInside edge) ct) = inv_view ct"
  "inv_view (tell (PlacePointer edge) ct) = inv_view ct"
  "inv_view (tell (HandOn c t side along) ct) = inv_view ct"
  "inv_view (tell (ClipboardReceived h f p) ct) = inv_view ct"
  "inv_view (tell (PeerAuthenticated h f) ct) = inv_view ct"
  "inv_view (tell (FileClipboard h f v) ct) = inv_view ct"
  "inv_view (tell (PeerLost h) ct) = inv_view ct"
  "inv_view (tell (PeerStateChanged h) ct) = inv_view ct"
  "inv_view (tell (CaptureBegin h along) ct) = inv_view ct"
  "inv_view (tell (CaptureEnabled backend) ct) = inv_view ct"
  "inv_view (tell (PointerLeft edge along) ct) = inv_view ct"
  "inv_view (tell (PointerReturned edge along) ct) = inv_view ct"
  "inv_view (tell (EdgePressure edge x along) ct) = inv_view ct"
  by (simp_all add: view_tell)

lemma view_emit_simps [simp]:
  "inv_view (emit BackendRelease ct) = inv_view ct"
  "inv_view (emit (BackendReleaseAt edge along) ct) = inv_view ct"
  "inv_view (emit (BackendCreate edge) ct) = inv_view ct"
  "inv_view (emit (BackendDestroy edge) ct) = inv_view ct"
  "inv_view (emit (Connected h) ct) = inv_view ct"
  "inv_view (emit (StreamStarted h t d i) ct) = inv_view ct"
  "inv_view (emit (StreamAborted h) ct) = inv_view ct"
  by (simp_all add: emit_def inv_view_def)

lemma tell_fields [simp]:
  "ct_active_client (tell n ct) = ct_active_client ct"
  "ct_captures (tell n ct) = ct_captures ct"
  "ct_state (tell n ct) = ct_state ct"
  by (simp_all add: tell_def emit_def)

text \<open>Messages that are not input leave the view alone; so does input to the device entered last, once it has
  acknowledged or when it is a release.\<close>

definition sendable :: "capture_handle \<Rightarrow> proto_event \<Rightarrow> capture_task \<Rightarrow> bool" where
  "sendable h p ct \<longleftrightarrow> (\<forall>e. p = Input e \<longrightarrow>
     (\<exists>acked. entry_of (ic_trace ct) = Some (h, acked) \<and> (acked \<or> is_release_input e)))"

lemma view_send: "sendable h p ct \<Longrightarrow> inv_view (fst (send env h p ct)) = inv_view ct"
  by (auto simp: send_def emit_def inv_view_def sendable_def input_safe_snoc)

lemma sendable_view: "inv_view ct' = inv_view ct \<Longrightarrow> sendable h p ct' = sendable h p ct"
  by (simp add: sendable_def inv_view_def)

lemma view_send_all: "\<forall>p \<in> set ps. sendable h p ct \<Longrightarrow> inv_view (send_all env h ps ct) = inv_view ct"
proof (induction ps arbitrary: ct)
  case (Cons p ps)
  then have v: "inv_view (fst (send env h p ct)) = inv_view ct" by (simp add: view_send)
  with Cons.prems have "\<forall>q \<in> set ps. sendable h q (fst (send env h p ct))"
    using sendable_view [OF v] by simp
  from Cons.IH [OF this] v show ?case by simp
qed simp

lemma sendable_other [simp]:
  "sendable h (Leave x) ct" "sendable h (Handoff t s) ct" "sendable h (enter_event s ct') ct"
  by (auto simp: sendable_def enter_event_def split: option.splits if_splits)

section \<open>Pressure\<close>

lemma report_pressure_view:
  assumes "get_capture h ct \<noteq> None"
  shows "\<exists>ct'. report_pressure env h x force ct = (ct', Done ()) \<and> inv_view ct' = inv_view ct"
  using assms by (auto simp: report_pressure_def with_pos_def get_pos_def get_capture_def Let_def)

lemma report_pressure_peak_view:
  assumes "get_capture h ct \<noteq> None"
  shows "\<exists>ct'. report_pressure_peak env h ct = (ct', Done ()) \<and> inv_view ct' = inv_view ct"
  unfolding report_pressure_peak_def by (rule report_pressure_view [OF assms])

lemma clear_pressure_view:
  assumes "push_ok ct"
  shows "\<exists>ct'. clear_pressure env ct = (ct', Done ()) \<and> inv_view ct' = inv_view (ct\<lparr>ct_pressure := None\<rparr>)"
proof (cases "ct_pressure ct")
  case None
  then show ?thesis by (simp add: clear_pressure_def inv_view_def)
next
  case (Some p)
  then obtain h x at where p: "ct_pressure ct = Some (h, x, at)" by (cases p) auto
  with assms have "get_capture h (ct\<lparr>ct_pressure := None\<rparr>) \<noteq> None" by (simp add: push_ok_def get_capture_def)
  from report_pressure_view [OF this] p show ?thesis by (simp add: clear_pressure_def)
qed

lemma clear_pressure_keeps:
  assumes "cap_core ct"
  shows "\<exists>ct'. clear_pressure env ct = (ct', Done ()) \<and> inv_view ct' = inv_view (ct\<lparr>ct_pressure := None\<rparr>)"
  by (rule clear_pressure_view) (use assms in \<open>simp add: cap_core_def\<close>)

lemma core_no_push: "cap_core ct \<Longrightarrow> cap_core (ct\<lparr>ct_pressure := None\<rparr>)"
  unfolding cap_core_def handshake_ok_def push_ok_def get_capture_def
  by (cases "ct_active_client ct") simp_all

lemma inv_no_push: "cap_inv ct \<Longrightarrow> cap_inv (ct\<lparr>ct_pressure := None\<rparr>)"
  using barriers_ok_cong [of "ct\<lparr>ct_pressure := None\<rparr>" ct] by (simp add: cap_inv_def core_no_push)

section \<open>Release\<close>

definition idle :: "capture_task \<Rightarrow> capture_task" where
  "idle ct = ct\<lparr>ct_local_departure := None, ct_ack_deadline := None, ct_held_until_ack := [],
     ct_state := WaitingForAck, ct_active_client := None\<rparr>"

lemma idle_core: "cap_core ct \<Longrightarrow> cap_core (idle ct)"
  by (simp add: cap_inv_defs idle_def)

lemma idle_inv: "cap_inv ct \<Longrightarrow> cap_inv (idle ct)"
  using barriers_ok_cong [of "idle ct" ct] by (simp add: cap_inv_def idle_core) (simp add: idle_def)

lemma ic_release_view [simp]: "inv_view (fst (ic_release ok ct)) = inv_view ct" "snd (ic_release ok ct) \<noteq> Panicked"
  by (simp_all add: ic_release_def backend_answer_def)

lemma release_with_view:
  "inv_view (fst (release_with env landing along ct)) = inv_view ct \<and> snd (release_with env landing along ct) \<noteq> Panicked"
  by (auto simp: release_with_def ic_release_at_along_def ic_release_def backend_answer_def split: option.splits)

lemma release_events_releases: "Input e \<in> set (release_events keys buttons) \<Longrightarrow> is_release_input e"
  by (auto simp: release_events_def is_release_input_def)

definition entry_known :: "capture_task \<Rightarrow> bool" where
  "entry_known ct \<longleftrightarrow> (\<forall>h. ct_active_client ct = Some h \<longrightarrow> (\<exists>acked. entry_of (ic_trace ct) = Some (h, acked)))"

lemma core_entry_known: "cap_core ct \<Longrightarrow> entry_known ct"
  by (auto simp: cap_core_def handshake_ok_def entry_known_def)

lemma release_capture_at_view:
  assumes "entry_known ct"
  shows "inv_view (fst (release_capture_at env landing ct)) = inv_view (idle ct)
    \<and> snd (release_capture_at env landing ct) \<noteq> Panicked"
proof (cases "ct_active_client ct")
  case None
  then have "inv_view (ct\<lparr>ct_landing_along := None, ct_local_departure := None, ct_ack_deadline := None,
      ct_held_until_ack := [], ct_state := WaitingForAck\<rparr>) = inv_view (idle ct)"
    by (simp add: inv_view_def idle_def)
  with None show ?thesis by (simp add: release_capture_at_def release_with_view)
next
  case (Some h)
  define ct1 where "ct1 = ct\<lparr>ct_landing_along := None, ct_local_departure := None, ct_ack_deadline := None,
    ct_held_until_ack := [], ct_state := WaitingForAck, ct_active_client := None, ic_pressed_keys := [],
    ic_pressed_buttons := []\<rparr>"
  obtain ct2 released where r: "release_with env landing (ct_landing_along ct) ct1 = (ct2, released)"
    by (cases "release_with env landing (ct_landing_along ct) ct1")
  define ct3 where "ct3 = (case (released, landing) of
    (Done _, Some edge) \<Rightarrow> tell (PointerReturned edge (ct_landing_along ct)) ct2 | _ \<Rightarrow> ct2)"
  let ?es = "take (ce_cleanup env) (release_events (ic_pressed_keys ct) (ic_pressed_buttons ct))"
  have v1: "inv_view ct1 = inv_view (idle ct)" by (simp add: ct1_def inv_view_def idle_def)
  have v2: "inv_view ct2 = inv_view ct1" "released \<noteq> Panicked"
    using release_with_view [of env landing "ct_landing_along ct" ct1] r by auto
  have v3: "inv_view ct3 = inv_view ct2"
    by (simp add: ct3_def split: outcome.splits option.splits)
  obtain a where entry: "entry_of (ic_trace ct) = Some (h, a)"
    using assms Some by (auto simp: entry_known_def)
  then have "entry_of (ic_trace ct3) = Some (h, a)"
    using v1 v2 v3 by (simp add: inv_view_def idle_def)
  then have "\<forall>p \<in> set ?es. sendable h p ct3"
    by (auto simp: sendable_def dest!: in_set_takeD intro: release_events_releases)
  then have "inv_view (send_all env h ?es ct3) = inv_view ct3" by (rule view_send_all)
  moreover have "release_capture_at env landing ct = (send_all env h ?es ct3, released)"
    using Some r by (simp add: release_capture_at_def ic_take_pressed_keys_def ic_take_pressed_buttons_def
        ct1_def ct3_def Let_def)
  ultimately show ?thesis using v1 v2 v3 by simp
qed

lemma release_capture_view:
  assumes "entry_known ct" and "push_ok ct"
  shows "inv_view (fst (release_capture env ct)) = inv_view (idle (ct\<lparr>ct_pressure := None\<rparr>))
    \<and> snd (release_capture env ct) \<noteq> Panicked"
proof -
  obtain ct1 where c: "clear_pressure env ct = (ct1, Done ())" "inv_view ct1 = inv_view (ct\<lparr>ct_pressure := None\<rparr>)"
    using clear_pressure_view [OF assms(2)] by blast
  have core: "entry_known ct1" using c(2) assms(1) by (simp add: inv_view_def entry_known_def)
  obtain ct2 r where r: "release_capture_at env None ct1 = (ct2, r)"
    by (cases "release_capture_at env None ct1")
  have "inv_view ct2 = inv_view (idle ct1)" "r \<noteq> Panicked"
    using release_capture_at_view [OF core, of env None] r by auto
  moreover have "inv_view (idle ct1) = inv_view (idle (ct\<lparr>ct_pressure := None\<rparr>))"
    using c(2) by (simp add: inv_view_def idle_def)
  ultimately show ?thesis using c(1) r by (cases r) (simp_all add: release_capture_def)
qed

text \<open>From a view to the contract.\<close>

lemma keeps_view:
  assumes "inv_view (fst r) = inv_view ct" and "snd r \<noteq> Panicked" and "cap_inv ct" and "ct_captures ct = cs"
  shows "keeps cs r"
proof -
  obtain s a where r: "r = (s, a)" by (cases r)
  with assms view_inv [of s ct] view_core [of s ct] view_captures [of s ct] show ?thesis
    by (cases a) (auto dest: cap_inv_core)
qed

lemma keeps_Done:
  assumes "inv_view ct' = inv_view ct" and "cap_inv ct" and "ct_captures ct = cs"
  shows "keeps cs (ct', Done a)"
  by (rule keeps_view [of _ ct]) (use assms in simp_all)

lemma keeps_tail:
  assumes "keeps cs r" and "\<And>a s. inv_view (g a s) = inv_view s"
  shows "keeps cs (and_then r (\<lambda>a s. (g a s, Done (v a s))))"
  by (rule leaves_and_then [OF assms(1)]) (use keeps_Done [OF assms(2)] in auto)

lemma idle_captures [simp]: "ct_captures (idle ct) = ct_captures ct"
  by (simp add: idle_def)

lemma release_capture_at_keeps:
  "cap_inv ct \<Longrightarrow> ct_captures ct = cs \<Longrightarrow> keeps cs (release_capture_at env landing ct)"
  using release_capture_at_view [OF core_entry_known, of ct env landing] keeps_view [of "release_capture_at env landing ct" "idle ct" cs]
  by (simp add: cap_inv_core idle_inv)

lemma release_capture_keeps: "cap_inv ct \<Longrightarrow> ct_captures ct = cs \<Longrightarrow> keeps cs (release_capture env ct)"
  using release_capture_view [OF core_entry_known, of ct env]
    keeps_view [of "release_capture env ct" "idle (ct\<lparr>ct_pressure := None\<rparr>)" cs]
  by (simp add: cap_inv_core idle_inv inv_no_push) (simp add: cap_inv_def cap_core_def)

lemma clear_pressure_keep:
  assumes "cap_inv ct" and "ct_captures ct = cs" shows "keeps cs (clear_pressure env ct)"
  using clear_pressure_keeps [OF cap_inv_core [OF assms(1)], of env] assms
    keeps_Done [OF _ inv_no_push [OF assms(1)]] by auto

lemma ic_release_keeps: "cap_inv ct \<Longrightarrow> ct_captures ct = cs \<Longrightarrow> keeps cs (ic_release ok ct)"
  by (rule keeps_view [of _ ct]) simp_all

lemma stop_after_keeps: "keeps cs r \<Longrightarrow> keeps cs (stop_after r)"
  unfolding stop_after_def by (erule leaves_and_then) simp

lemma inv_view_update: "inv_view ct' = inv_view ct \<Longrightarrow> cap_inv ct \<Longrightarrow> cap_inv ct'"
  using view_inv by blast

lemma return_local_pointer_keeps:
  assumes "cap_inv ct" and "ct_captures ct = cs" shows "keeps cs (return_local_pointer env exit_along ct)"
proof -
  have home: "keeps cs (and_then (clear_pressure env ct) (\<lambda>_ ct.
      and_then (release_capture_at env (Some edge) (ct\<lparr>ct_landing_along := Some along\<rparr>)) (\<lambda>_ ct. (ct, Done ()))))"
    for edge along
    by (rule leaves_and_then [OF clear_pressure_keep [OF assms]], rule keeps_tail, rule release_capture_at_keeps)
      (auto elim!: inv_view_update [rotated])
  have plain: "keeps cs (and_then (release_capture env ct) (\<lambda>_ ct. (tell (PointerReturned edge along) ct, Done ())))"
    for edge along
    by (rule keeps_tail [OF release_capture_keeps [OF assms]]) simp
  show ?thesis
    unfolding return_local_pointer_def
    by (auto simp: release_capture_keeps [OF assms] split: option.split
        intro!: keeps_tail [OF home] keeps_tail [OF plain])
qed

section \<open>Entering\<close>

lemma send_or_release_keeps:
  assumes "cap_inv ct" and "ct_captures ct = cs" and "sendable h p ct"
  shows "keeps cs (send_or_release env h p ct)"
  using assms view_send [OF assms(3), of env] keeps_Done [of _ ct]
  by (auto simp: send_or_release_def send_def release_capture_keeps)

lemma active_known: "cap_inv ct \<Longrightarrow> ct_active_client ct = Some h \<Longrightarrow> get_capture h ct \<noteq> None"
  by (simp add: cap_inv_def cap_core_def handshake_ok_def)

lemma active_entry:
  assumes "cap_inv ct" and "ct_active_client ct = Some h"
  obtains acked where "entry_of (ic_trace ct) = Some (h, acked)" and "ct_state ct = Sending \<Longrightarrow> acked"
  using assms by (auto simp: cap_inv_def cap_core_def handshake_ok_def)

lemma with_pos_known:
  assumes "get_capture h ct \<noteq> None" obtains pos where "get_pos h ct = Some pos" and "with_pos h ct f = f pos"
  using assms by (auto simp: with_pos_def get_pos_def)

lemma legacy_entry_retry_keeps:
  assumes "cap_inv ct" and "ct_captures ct = cs"
  shows "keeps cs (legacy_entry_retry env ct)"
    and "snd (legacy_entry_retry env ct) = Done (Some (h, p)) \<Longrightarrow> \<exists>s ct'. p = enter_event s ct'"
proof -
  let ?ct = "ct\<lparr>ct_legacy_entry := True, ct_ack_deadline := Some (ce_now env + ACK_TIMEOUT)\<rparr>"
  have inv: "cap_inv ?ct" if "ct_active_client ct = Some k" and "ct_state ct = WaitingForAck" for k
    using assms(1) that barriers_ok_cong [of ?ct ct]
    by (auto simp: cap_inv_def cap_core_def handshake_ok_def push_ok_def get_capture_def)
  have known: "get_capture k ?ct \<noteq> None" if "ct_active_client ct = Some k" for k
    using active_known [OF assms(1) that] by (simp add: get_capture_def)
  show "keeps cs (legacy_entry_retry env ct)"
    using assms inv known by (auto simp: legacy_entry_retry_def with_pos_def get_pos_def Let_def
        split: option.split if_splits)
  show "snd (legacy_entry_retry env ct) = Done (Some (h, p)) \<Longrightarrow> \<exists>s ct'. p = enter_event s ct'"
    by (auto simp: legacy_entry_retry_def with_pos_def Let_def split: option.splits if_splits)
qed

lemma cap_deadline_keeps:
  assumes "cap_inv ct" and "ct_captures ct = cs" shows "keeps cs (cap_deadline env ct)"
  unfolding cap_deadline_def
proof (rule leaves_and_then [OF legacy_entry_retry_keeps(1) [OF assms]])
  fix s a assume r: "legacy_entry_retry env ct = (s, Done a)" and s: "cap_inv s \<and> ct_captures s = cs"
  show "keeps cs (case a of None \<Rightarrow> release_capture env s | Some (h, event) \<Rightarrow> (fst (send env h event s), Done ()))"
  proof (cases a)
    case None
    then show ?thesis using s by (simp add: release_capture_keeps)
  next
    case (Some hp)
    obtain h p where hp: "hp = (h, p)" by (cases hp)
    with Some r obtain side ct' where "p = enter_event side ct'"
      using legacy_entry_retry_keeps(2) [OF assms, of env h p] by auto
    then show ?thesis using s Some hp keeps_Done [OF view_send [of h p s env]] by simp
  qed
qed

text \<open>A device that has just been entered and not acknowledged.\<close>

definition entering :: "cap_env \<Rightarrow> capture_handle \<Rightarrow> capture_task \<Rightarrow> bool" where
  "entering env h ct \<longleftrightarrow> ct_state ct = WaitingForAck \<and> ct_active_client ct = Some h
     \<and> ct_ack_deadline ct = Some (ce_now env + ACK_TIMEOUT)"

lemma enter_inv:
  assumes "cap_inv ct" and "get_capture h ct \<noteq> None" and "entering env h ct'" and "ct_captures ct' = ct_captures ct"
    and "ic_trace ct' = ic_trace ct @ [Told (ClientEntered h)]"
    and "length (ct_held_until_ack ct') \<le> length (ct_held_until_ack ct)" and "ct_pressure ct' = ct_pressure ct"
    and "ic_id_map ct' = ic_id_map ct" and "ic_position_map ct' = ic_position_map ct"
    and "ct_enabled_captures ct' = ct_enabled_captures ct"
  shows "cap_inv ct'"
  using assms barriers_ok_cong [of ct' ct]
  by (auto simp: cap_inv_def cap_core_def handshake_ok_def push_ok_def get_capture_def entering_def)

lemma handoff_keeps:
  assumes inv: "cap_inv ct" and cs: "ct_captures ct = cs" and src: "get_capture from ct \<noteq> None"
  shows "keeps cs (handoff env from target side ct)"
proof -
  have refuse: "keeps cs (fst (send env from (Handoff target side) ct), Done a)" for a :: unit
    by (rule keeps_Done [OF view_send inv cs]) simp
  obtain edge where edge: "get_pos from ct = Some edge" using src by (auto simp: get_pos_def)
  have home: "keeps cs (and_then (release_capture_at env (Some edge) (ct\<lparr>ct_last_entry := Some (edge, ce_now env)\<rparr>))
      (\<lambda>placed ct. (if placed then ct else tell (PlacePointer edge) ct, Done ())))"
    by (rule keeps_tail [OF release_capture_at_keeps]) (use inv cs in \<open>auto elim!: inv_view_update [rotated]\<close>)
  show ?thesis
  proof (cases "target = ce_own_fingerprint env")
    case True
    then show ?thesis using home edge by (simp add: handoff_def with_pos_def)
  next
    case False
    show ?thesis
    proof (cases "handoff_next env from target ct")
      case None
      then show ?thesis using False refuse by (simp add: handoff_def)
    next
      case (Some n)
      then obtain pos kind where "(n, pos, kind) \<in> set (ct_captures ct)"
        by (force simp: handoff_next_def find_Some_iff in_set_conv_nth)
      then have known: "get_capture n ct \<noteq> None"
        by (metis get_capture_def map_of_eq_None_iff fst_conv image_eqI)
      then obtain p where p: "get_pos n ct = Some p" by (auto simp: get_pos_def)
      define ct1 where "ct1 = fst (send env from (Leave 0) ct)"
      define ct2 where "ct2 = tell (ClientEntered n) (ct1\<lparr>ct_state := WaitingForAck,
        ct_ack_deadline := Some (ce_now env + ACK_TIMEOUT), ct_held_until_ack := [], ct_active_client := Some n\<rparr>)"
      define ct3 where "ct3 = ct2\<lparr>ct_entering_via := ce_client_fingerprint env from\<rparr>"
      have v1: "inv_view ct1 = inv_view ct" by (simp add: ct1_def view_send)
      have inv2: "cap_inv ct2"
        by (rule enter_inv [of ct1 n env])
          (use v1 inv known view_get_capture [OF v1] in
            \<open>auto simp: ct2_def entering_def tell_def emit_def intro: inv_view_update\<close>)
      have "keeps cs (send_enter env n (to_proto_pos (opposite p)) ct3, Done ())"
        unfolding send_enter_def
      proof (rule keeps_Done [OF _ inv2])
        show "inv_view (fst (send env n (enter_event (to_proto_pos (opposite p)) ct3) ct3)) = inv_view ct2"
          by (simp add: view_send ct3_def)
        show "ct_captures ct2 = cs" using view_captures [OF v1] cs by (simp add: ct2_def)
      qed
      then show ?thesis
        using False Some refuse edge p
        by (simp add: handoff_def with_pos_def ct1_def ct2_def ct3_def Let_def)
    qed
  qed
qed

section \<open>Capture events\<close>

lemma building_inv:
  assumes "cap_inv ct" and "get_capture h ct \<noteq> None"
  shows "cap_inv (ct\<lparr>ct_pressure := Some (h, x, at)\<rparr>)"
  using assms barriers_ok_cong [of "ct\<lparr>ct_pressure := Some (h, x, at)\<rparr>" ct]
  by (cases "ct_active_client ct")
    (auto simp: cap_inv_def cap_core_def handshake_ok_def push_ok_def get_capture_def)

lemma report_pressure_keeps:
  assumes "cap_inv ct" and "ct_captures ct = cs" and "get_capture h ct \<noteq> None"
  shows "keeps cs (report_pressure env h x force ct)"
  using report_pressure_view [OF assms(3), of env x force] keeps_Done [OF _ assms(1,2)] by auto

lemma hce_pressure_keeps:
  assumes inv: "cap_inv ct" and cs: "ct_captures ct = cs" and h: "get_capture h ct \<noteq> None"
  shows "keeps cs (hce_pressure env h event ct)"
proof -
  have build: "keeps cs (stop_after (report_pressure env h x False (ct\<lparr>ct_pressure := Some (h, x, at)\<rparr>)))" for x at
    by (rule stop_after_keeps, rule report_pressure_keeps)
      (use cs h building_inv [OF inv h] in \<open>auto simp: get_capture_def\<close>)
  have reach: "keeps cs (and_then (report_pressure_peak env h ct) (\<lambda>_ ct.
      and_then (clear_pressure env ct) (\<lambda>_ ct. (ct, Done v))))" for v :: "(capture_event \<times> bool) option"
    unfolding report_pressure_peak_def
    by (rule leaves_and_then [OF report_pressure_keeps [OF inv cs h]], rule keeps_tail)
      (auto intro: clear_pressure_keep)
  have backed: "keeps cs (and_then (clear_pressure env ct) (\<lambda>_ ct. stop_after (ic_release ok ct)))" for ok
    by (rule leaves_and_then [OF clear_pressure_keep [OF inv cs]]) (auto intro: stop_after_keeps ic_release_keeps)
  have fresh: "keeps cs (and_then (clear_pressure env ct) (\<lambda>_ ct. (ct, Done v)))" for v :: "(capture_event \<times> bool) option"
    by (rule keeps_tail [OF clear_pressure_keep [OF inv cs]]) simp
  have gone_away: "keeps cs (stop_after (release_capture env ct))"
    by (rule stop_after_keeps [OF release_capture_keeps [OF inv cs]])
  obtain pos where pos: "get_pos h ct = Some pos" using h by (auto simp: get_pos_def)
  show ?thesis
    unfolding hce_pressure_def with_pos_def pos option.case
    using inv cs build reach backed fresh gone_away
    by (auto split: option.split capture_event.split input_event.split pointer_event.split pressure.split)
qed

lemma hce_screen_keeps:
  assumes inv: "cap_inv ct" and cs: "ct_captures ct = cs"
  shows "keeps cs (hce_screen env h event ct)"
proof -
  have r: "keeps cs (stop_after (ic_release ok ct))" for ok
    by (rule stop_after_keeps [OF ic_release_keeps [OF inv cs]])
  have g: "keeps cs (stop_after (release_capture env ct))"
    by (rule stop_after_keeps [OF release_capture_keeps [OF inv cs]])
  have e: "keeps cs (ct\<lparr>ct_entry_along := x\<rparr>, Done v)" "keeps cs (tell (FileClipboard h m d) ct, Done v)"
    for x m d and v :: "(capture_event \<times> bool) option"
    by (rule keeps_Done [OF _ inv cs], simp)+
  show ?thesis
    unfolding hce_screen_def
    using inv cs r g e hce_pressure_keeps [OF inv cs]
    by (auto split: capture_event.split)
qed

lemma hce_touch_keeps:
  assumes inv: "cap_inv ct" and cs: "ct_captures ct = cs" and h: "get_capture h ct \<noteq> None"
  shows "keeps cs (hce_touch env h pos kind returning met ct)"
proof -
  have r: "keeps cs (stop_after (ic_release ok ct) :: capture_task \<times> unit option outcome)" for ok
    by (rule stop_after_keeps [OF ic_release_keeps [OF inv cs]])
  have landed: "keeps cs (and_then (release_capture_at env landing ct) (\<lambda>placed ct.
      (case landing of Some edge \<Rightarrow> if placed then ct else tell (PlacePointer edge) ct | None \<Rightarrow> ct, Done v)))"
    for landing and v :: "unit option"
    by (rule keeps_tail [OF release_capture_at_keeps [OF inv cs]]) (simp split: option.split)
  have armed: "keeps cs (ct\<lparr>ct_pressure := Some (h, x, at)\<rparr>, Done v)" for x at and v :: "unit option"
    using building_inv [OF inv h] cs by simp
  have passed: "keeps cs (and_then (ic_release ok (ct\<lparr>ct_last_pass := p\<rparr>)) (\<lambda>_ ct.
      (case ct_controller ct of
         Some (controller, _) \<Rightarrow> tell (HandOn controller controller side (ct_entry_along ct)) ct
       | None \<Rightarrow> ct, Done v)))" for ok p side and v :: "unit option"
    by (rule keeps_tail [OF ic_release_keeps])
      (use inv cs in \<open>auto split: option.split elim!: inv_view_update [rotated]\<close>)
  have told: "keeps cs (tell (CaptureBegin h along) ct, Done v)" for along and v :: "unit option"
    by (rule keeps_Done [OF _ inv cs]) simp
  show ?thesis
    unfolding hce_touch_def Let_def by (simp only: r landed armed passed told simp_thms split: if_split)
qed

lemma hce_enter_keeps:
  assumes inv: "cap_inv ct" and cs: "ct_captures ct = cs" and h: "get_capture h ct \<noteq> None"
  shows "keeps cs (hce_enter env h pos ct)"
proof -
  have passed: "keeps cs (and_then (ic_release ok (ct\<lparr>ct_last_pass := p\<rparr>)) (\<lambda>_ ct.
      (case (ct_controller ct, fingerprint) of
         (Some (controller, _), Some target) \<Rightarrow>
           tell (StepInside pos) (tell (HandOn controller target side (ct_entry_along ct)) ct)
       | _ \<Rightarrow> ct, Done v)))" for ok p side fingerprint and v :: "unit option"
    by (rule keeps_tail [OF ic_release_keeps])
      (use inv cs in \<open>auto split: option.split elim!: inv_view_update [rotated]\<close>)
  let ?ct = "tell (ClientEntered h)
    (ct\<lparr>ct_state := WaitingForAck, ct_legacy_entry := False, ct_ack_deadline := Some (ce_now env + ACK_TIMEOUT),
        ct_local_departure := Some (pos, ct_entry_along ct), ct_active_client := Some h\<rparr>)"
  have "cap_inv ?ct"
    by (rule enter_inv [OF inv h, of env]) (simp_all add: entering_def tell_def emit_def)
  then show ?thesis
    unfolding hce_enter_def using inv cs passed by simp
qed

lemma hold_until_ack_inv:
  assumes "cap_inv ct" and "ct_active_client ct = Some h" and "ct_state ct = WaitingForAck"
  shows "cap_inv (hold_until_ack e ct)"
  using assms barriers_ok_cong [of "hold_until_ack e ct" ct]
  by (auto simp: cap_inv_def cap_core_def handshake_ok_def push_ok_def get_capture_def hold_until_ack_def)

lemma hce_forward_keeps:
  assumes inv: "cap_inv ct" and cs: "ct_captures ct = cs" and h: "get_capture h ct \<noteq> None"
    and event: "event = Begin \<or> (\<exists>e. event = CaptureInput e)"
  shows "keeps cs (hce_forward env h event ct)"
proof (cases "input_target h (event = Begin) ct")
  case None
  then show ?thesis using inv cs by (simp add: hce_forward_def)
next
  case (Some target)
  then have known: "get_capture target ct \<noteq> None" and act: "event \<noteq> Begin \<Longrightarrow> ct_active_client ct = Some target"
    using h active_known [OF inv] by (auto simp: input_target_def split: option.splits if_splits)
  then obtain pos where pos: "get_pos target ct = Some pos" by (auto simp: get_pos_def)
  show ?thesis
  proof (cases "event = Begin")
    case True
    have "keeps cs (send_or_release env target (enter_event side (ct\<lparr>ct_entering_via := None\<rparr>)) (ct\<lparr>ct_entering_via := None\<rparr>))"
      for side
      by (rule send_or_release_keeps) (use inv cs in \<open>auto elim!: inv_view_update [rotated]\<close>)
    then show ?thesis using Some True pos by (simp add: hce_forward_def with_pos_def Let_def)
  next
    case False
    with event obtain e where e: "event = CaptureInput e" by blast
    have active: "ct_active_client ct = Some target" by (rule act [OF False])
    show ?thesis
    proof (cases "ct_state ct")
      case WaitingForAck
      have "keeps cs (send_or_release env target (enter_event side (hold_until_ack e ct)) (hold_until_ack e ct))" for side
        by (rule send_or_release_keeps)
          (use hold_until_ack_inv [OF inv active WaitingForAck] cs in \<open>auto simp: hold_until_ack_def\<close>)
      then show ?thesis using Some e pos WaitingForAck by (simp add: hce_forward_def with_pos_def Let_def)
    next
      case Sending
      then have "sendable target (Input e) ct"
        using active_entry [OF inv active] by (auto simp: sendable_def)
      then show ?thesis
        using Some e pos Sending send_or_release_keeps [OF inv cs] by (simp add: hce_forward_def with_pos_def Let_def)
    qed
  qed
qed

lemma same_capture: "ct_captures ct' = ct_captures ct \<Longrightarrow> get_capture h ct' = get_capture h ct"
  by (simp add: get_capture_def)

lemma hce_route_keeps:
  assumes inv: "cap_inv ct" and cs: "ct_captures ct = cs" and h: "get_capture h ct = Some (pos, kind)"
    and event: "event = Begin \<or> (\<exists>e. event = CaptureInput e)"
  shows "keeps cs (hce_route env h pos kind event met ct)"
proof -
  have "returns_to_controller env h ct \<noteq> None"
    using h by (simp add: returns_to_controller_def del: not_None_eq split: option.split)
  then obtain returning where r: "returns_to_controller env h ct = Some returning" by blast
  have known: "get_capture h s \<noteq> None" if "ct_captures s = cs" for s
    using h that cs by (simp add: get_capture_def)
  have forward: "keeps cs (and_then (if event = Begin then hce_enter env h pos s else (s, Done (Some ())))
      (\<lambda>go ct. if go = None then (ct, Done ()) else hce_forward env h event ct))"
    if s: "cap_inv s" "ct_captures s = cs" for s
  proof (rule leaves_and_then)
    show "keeps cs (if event = Begin then hce_enter env h pos s else (s, Done (Some ())))"
      using s known by (simp add: hce_enter_keeps)
    fix t a assume "cap_inv t \<and> ct_captures t = cs"
    then show "keeps cs (if a = None then (t, Done ()) else hce_forward env h event t)"
      using hce_forward_keeps [OF _ _ known event] by simp
  qed
  show ?thesis
    unfolding hce_route_def r option.case
  proof (rule leaves_and_then)
    show "keeps cs (if event = Begin then hce_touch env h pos kind returning met ct else (ct, Done (Some ())))"
      using inv cs known by (simp add: hce_touch_keeps)
    fix t a assume "cap_inv t \<and> ct_captures t = cs"
    then show "keeps cs (if a = None then (t, Done ())
      else if kind = EnterOnly
      then (if \<not> is_default_capture_at pos t then ic_release (ce_release_ok env) t else (t, Done ()))
      else and_then (if event = Begin then hce_enter env h pos t else (t, Done (Some ())))
        (\<lambda>go ct. if go = None then (ct, Done ()) else hce_forward env h event ct))"
      by (simp add: forward ic_release_keeps)
  qed
qed

lemma stop_after_stops [simp]: "snd (stop_after r) = Done (Some v) \<longleftrightarrow> False"
proof -
  obtain s a where "r = (s, a)" by (cases r)
  then show ?thesis by (cases a) (auto simp: stop_after_def)
qed

lemma hce_screen_event:
  assumes "snd (hce_screen env h event ct) = Done (Some (event', met))"
  shows "(event' = Begin \<or> (\<exists>e. event' = CaptureInput e)) \<and> get_capture h ct \<noteq> None"
proof (cases "\<exists>along. event = Entry along \<or> (\<exists>m d. event = CaptureClipboard m d)")
  case True
  then show ?thesis using assms by (auto simp: hce_screen_def)
next
  case False
  have "event = Begin \<or> (\<exists>e. event = CaptureInput e)" using False by (cases event) auto
  moreover have "event' = event \<or> event' = Begin" if "snd (hce_pressure env h event ct) = Done (Some (event', met))"
    using that
    by (auto simp: hce_pressure_def with_pos_def and_then_def
        split: option.splits if_splits capture_event.splits input_event.splits pointer_event.splits pressure.splits
          outcome.splits prod.splits)
  ultimately show ?thesis
    using assms by (auto simp: hce_screen_def split: capture_event.splits if_splits)
qed

lemma handle_capture_event_keeps:
  assumes inv: "cap_inv ct" and cs: "ct_captures ct = cs"
  shows "keeps cs (handle_capture_event env h event ct)"
  unfolding handle_capture_event_def
proof (rule leaves_and_then [OF hce_screen_keeps [OF inv cs]])
  fix s a assume r: "hce_screen env h event ct = (s, Done a)" and s: "cap_inv s \<and> ct_captures s = cs"
  show "keeps cs (case a of None \<Rightarrow> (s, Done ()) | Some (event, met) \<Rightarrow>
    (case get_capture h s of None \<Rightarrow> (s, Panicked) | Some (pos, kind) \<Rightarrow> hce_route env h pos kind event met s))"
  proof (cases a)
    case None
    then show ?thesis using s by simp
  next
    case (Some em)
    obtain event' met where em: "em = (event', met)" by (cases em)
    then have ev: "event' = Begin \<or> (\<exists>e. event' = CaptureInput e)" and "get_capture h ct \<noteq> None"
      using hce_screen_event [of env h event ct event' met] r Some by auto
    then obtain pos kind where "get_capture h s = Some (pos, kind)"
      using s cs by (auto simp: get_capture_def)
    with Some em s ev show ?thesis by (simp add: hce_route_keeps)
  qed
qed

end
