(* ===== verification/Capture_Steps.thy ===== *)
theory Capture_Steps
  imports Capture_Invariant
begin

text \<open>
  The capture task as a transition system: the arms of the \<open>select!\<close> loop of
  \<open>do_capture_session\<close> and of the loop of \<open>run\<close> between sessions, every reachable state, and the
  properties of the task.
\<close>

section \<open>Barriers\<close>

lemma core_cong:
  assumes "ct_active_client ct' = ct_active_client ct" "ct_ack_deadline ct' = ct_ack_deadline ct"
    "ct_state ct' = ct_state ct" "ct_held_until_ack ct' = ct_held_until_ack ct"
    "ct_local_departure ct' = ct_local_departure ct" "ct_captures ct' = ct_captures ct"
    "ct_pressure ct' = ct_pressure ct" "entry_of (ic_trace ct') = entry_of (ic_trace ct)"
    "input_safe (ic_trace ct') = input_safe (ic_trace ct)"
  shows "cap_core ct' \<longleftrightarrow> cap_core ct"
  unfolding cap_core_def handshake_ok_def push_ok_def get_capture_def using assms by (simp only:)

lemma ic_create_task:
  "ct_captures (fst (ic_create ok h pos ct)) = ct_captures ct"
  "ct_enabled_captures (fst (ic_create ok h pos ct)) = ct_enabled_captures ct"
  by (simp_all add: ic_create_def emit_def Let_def split: option.split)

lemma ic_create_core: "cap_core (fst (ic_create ok h pos ct)) = cap_core ct"
  by (rule core_cong) (simp_all add: ic_create_def emit_def Let_def split: option.split)

lemma ic_destroy_task:
  "ct_captures (fst (ic_destroy ok h ct)) = ct_captures ct"
  "ct_enabled_captures (fst (ic_destroy ok h ct)) = ct_enabled_captures ct"
  by (simp_all add: ic_destroy_def emit_def Let_def split: option.split)

lemma ic_destroy_core: "cap_core (fst (ic_destroy ok h ct)) = cap_core ct"
  by (rule core_cong) (simp_all add: ic_destroy_def emit_def Let_def split: option.split)

lemma enabled_core [simp]: "cap_core (ct\<lparr>ct_enabled_captures := hs\<rparr>) = cap_core ct"
  by (rule core_cong) simp_all

lemma create_barrier_keeps:
  assumes inv: "cap_inv ct" and new: "h \<notin> set (ct_enabled_captures ct)" and cs: "ct_captures ct = cs"
    and r: "ic_create ok h pos (ct\<lparr>ct_enabled_captures := ct_enabled_captures ct @ [h]\<rparr>) = (ct', a)"
  shows "cap_core ct' \<and> ct_captures ct' = cs \<and> a \<noteq> Panicked \<and> (a = Done () \<longrightarrow> cap_inv ct')"
proof -
  let ?ct = "ct\<lparr>ct_enabled_captures := ct_enabled_captures ct @ [h]\<rparr>"
  have wf: "ic_wf ?ct" and none: "hm_get (ic_id_map ?ct) h = None"
    using inv new by (auto simp: cap_inv_def barriers_ok_def ic_wf_def)
  have "ic_wf ct'" "a \<noteq> Panicked" "hm_get (ic_id_map ct') = (hm_get (ic_id_map ct))(h \<mapsto> pos)"
    using ic_create_wf [OF wf none, of ok pos] r by simp_all
  moreover have "cap_core ct'" "ct_captures ct' = cs" "ct_enabled_captures ct' = ct_enabled_captures ct @ [h]"
    using ic_create_task [of ok h pos ?ct] ic_create_core [of ok h pos ?ct] r inv cs by (auto simp: cap_inv_def)
  moreover have "\<forall>k. k \<in> set (ct_enabled_captures ct) \<longleftrightarrow> hm_get (ic_id_map ct) k \<noteq> None"
    using inv by (simp add: cap_inv_def barriers_ok_def)
  ultimately show ?thesis by (auto simp: cap_inv_def barriers_ok_def)
qed

lemma destroy_barrier_keeps:
  assumes inv: "cap_inv ct" and old: "h \<in> set (ct_enabled_captures ct)" and cs: "ct_captures ct = cs"
  shows "keeps cs (ic_destroy ok h (ct\<lparr>ct_enabled_captures := removeAll h (ct_enabled_captures ct)\<rparr>))"
proof -
  let ?ct = "ct\<lparr>ct_enabled_captures := removeAll h (ct_enabled_captures ct)\<rparr>"
  obtain ct' a where r: "ic_destroy ok h ?ct = (ct', a)" by (cases "ic_destroy ok h ?ct")
  obtain pos where wf: "ic_wf ?ct" and some: "hm_get (ic_id_map ?ct) h = Some pos"
    using inv old by (auto simp: cap_inv_def barriers_ok_def ic_wf_def)
  have "ic_wf ct'" "a \<noteq> Panicked" "hm_get (ic_id_map ct') = (hm_get (ic_id_map ct))(h := None)"
    using ic_destroy_wf [OF wf some, of ok] r by simp_all
  moreover have "cap_core ct'" "ct_captures ct' = cs" "ct_enabled_captures ct' = removeAll h (ct_enabled_captures ct)"
    using ic_destroy_task [of ok h ?ct] ic_destroy_core [of ok h ?ct] r inv cs by (auto simp: cap_inv_def)
  moreover have "\<forall>k. k \<in> set (ct_enabled_captures ct) \<longleftrightarrow> hm_get (ic_id_map ct) k \<noteq> None"
    using inv by (simp add: cap_inv_def barriers_ok_def)
  ultimately have "cap_inv ct'" by (auto simp: cap_inv_def barriers_ok_def)
  with \<open>a \<noteq> Panicked\<close> \<open>cap_core ct'\<close> \<open>ct_captures ct' = cs\<close> r show ?thesis by (cases a) simp_all
qed

lemma view_enabled: "inv_view ct' = inv_view ct \<Longrightarrow> ct_enabled_captures ct' = ct_enabled_captures ct"
  by (simp add: inv_view_def)

lemma release_capture_enabled:
  assumes "cap_core ct" shows "ct_enabled_captures (fst (release_capture env ct)) = ct_enabled_captures ct"
proof -
  have "inv_view (fst (release_capture env ct)) = inv_view (idle (ct\<lparr>ct_pressure := None\<rparr>))"
    using assms release_capture_view [OF core_entry_known [OF assms], of env] by (simp add: cap_core_def)
  from view_enabled [OF this] show ?thesis by (simp add: idle_def)
qed

lemma release_then_destroy_keeps:
  assumes inv: "cap_inv ct" and cs: "ct_captures ct = cs" and old: "h \<in> set (ct_enabled_captures ct)"
  shows "keeps cs (and_then (if active then release_capture env ct else (ct, Done ())) (\<lambda>_ ct.
    ic_destroy ok h (ct\<lparr>ct_enabled_captures := removeAll h (ct_enabled_captures ct)\<rparr>)))"
proof (rule leaves_and_then)
  show "keeps cs (if active then release_capture env ct else (ct, Done ()))"
    using inv cs by (simp add: release_capture_keeps)
  fix s a assume r: "(if active then release_capture env ct else (ct, Done ())) = (s, Done a)"
    and s: "cap_inv s \<and> ct_captures s = cs"
  have "h \<in> set (ct_enabled_captures s)"
    using r old release_capture_enabled [OF cap_inv_core [OF inv], of env] by (auto split: if_splits)
  with s show "keeps cs (ic_destroy ok h (s\<lparr>ct_enabled_captures := removeAll h (ct_enabled_captures s)\<rparr>))"
    by (simp add: destroy_barrier_keeps)
qed

lemma sync_one_keeps:
  assumes inv: "cap_inv ct" and cs: "ct_captures ct = cs"
  shows "keeps cs (sync_one env c ct)"
proof -
  obtain h pos kind where c: "c = (h, pos, kind)" by (cases c) auto
  show ?thesis
  proof (cases "ct_input_sharing ct \<and> h \<notin> set (ct_enabled_captures ct)")
    case True
    let ?ct = "ct\<lparr>ct_enabled_captures := ct_enabled_captures ct @ [h]\<rparr>"
    obtain ct' a where r: "ic_create (ce_create_ok env) h pos ?ct = (ct', a)"
      by (cases "ic_create (ce_create_ok env) h pos ?ct")
    from create_barrier_keeps [OF inv _ cs r] True show ?thesis
      using r c by (cases a) (simp_all add: sync_one_def)
  next
    case False
    then show ?thesis
      using c inv cs release_then_destroy_keeps [OF inv cs, of h "ct_active_client ct = Some h" env "ce_destroy_ok env"]
      by (auto simp: sync_one_def)
  qed
qed

lemma sync_list_keeps: "cap_inv ct \<Longrightarrow> ct_captures ct = cs \<Longrightarrow> keeps cs (sync_list env l ct)"
proof (induction l arbitrary: ct)
  case (Cons c l)
  show ?case
    unfolding sync_list.simps
    by (rule leaves_and_then [OF sync_one_keeps [OF Cons.prems]]) (use Cons.IH in simp)
qed simp

lemma sync_captures_keeps: "cap_inv ct \<Longrightarrow> ct_captures ct = cs \<Longrightarrow> keeps cs (sync_captures env ct)"
  by (simp add: sync_captures_def sync_list_keeps)

section \<open>Messages\<close>

lemma view_received: "\<forall>u. p \<noteq> Ack u \<Longrightarrow> inv_view (emit (Received h p) ct) = inv_view ct"
  using entry_step_received_same [of h p] by (auto simp: emit_def inv_view_def)

text \<open>An acknowledgement does not disturb the invariant, and from the active device it counts.\<close>

lemma received_inv:
  assumes "cap_inv ct" shows "cap_inv (emit (Received h p) ct)"
    and "ct_active_client ct = Some h \<Longrightarrow> p = Ack u \<Longrightarrow> entry_of (ic_trace (emit (Received h p) ct)) = Some (h, True)"
proof -
  have "cap_inv (emit (Received h (Ack u)) ct)" for u
    using assms barriers_ok_cong [of "emit (Received h (Ack u)) ct" ct]
    by (auto simp: cap_inv_def cap_core_def handshake_ok_def push_ok_def get_capture_def emit_def entry_step_def
        split: option.splits)
  then show "cap_inv (emit (Received h p) ct)"
    using view_received [of p h ct] assms by (cases "\<exists>u. p = Ack u") (auto intro: inv_view_update)
  show "ct_active_client ct = Some h \<Longrightarrow> p = Ack u \<Longrightarrow> entry_of (ic_trace (emit (Received h p) ct)) = Some (h, True)"
    using assms by (auto simp: cap_inv_def cap_core_def handshake_ok_def emit_def entry_step_def)
qed

lemma acknowledged_inv:
  assumes inv: "cap_inv ct" and act: "ct_active_client ct = Some h" and entry: "entry_of (ic_trace ct) = Some (h, True)"
  shows "cap_inv (acknowledged env h ct)" "ct_captures (acknowledged env h ct) = ct_captures ct"
proof -
  define ct1 where "ct1 = (case (ct_entering_via ct, ct_local_departure ct) of
    (None, Some (edge, along)) \<Rightarrow> tell (PointerLeft edge along) ct | _ \<Rightarrow> ct)"
  define ct2 where "ct2 = ct1\<lparr>ct_entering_via := None, ct_entry_along := None, ct_state := Sending,
    ct_ack_deadline := None, ct_held_until_ack := []\<rparr>"
  have v1: "inv_view ct1 = inv_view ct" by (auto simp: ct1_def split: option.split)
  have e2: "entry_of (ic_trace ct2) = Some (h, True)" "ct_active_client ct2 = Some h"
    using v1 entry act by (simp_all add: ct2_def inv_view_def)
  have inv2: "cap_inv ct2"
    using inv_view_update [OF v1 inv] e2 barriers_ok_cong [of ct2 ct1]
    by (auto simp: ct2_def cap_inv_def cap_core_def handshake_ok_def push_ok_def get_capture_def)
  have "\<forall>p \<in> set (map Input (ct_held_until_ack ct1)). sendable h p ct2"
    using e2 by (auto simp: sendable_def)
  then have "inv_view (send_all env h (map Input (ct_held_until_ack ct1)) ct2) = inv_view ct2" by (rule view_send_all)
  moreover have "acknowledged env h ct = send_all env h (map Input (ct_held_until_ack ct1)) ct2"
    by (simp add: acknowledged_def ct1_def ct2_def Let_def)
  ultimately have v: "inv_view (acknowledged env h ct) = inv_view ct2" by simp
  show "cap_inv (acknowledged env h ct)" by (rule inv_view_update [OF v inv2])
  show "ct_captures (acknowledged env h ct) = ct_captures ct"
    using view_captures [OF v] view_captures [OF v1] by (simp add: ct2_def)
qed

lemma active_message_keeps:
  assumes inv: "cap_inv ct" and cs: "ct_captures ct = cs" and act: "ct_active_client ct = Some h"
    and ack: "\<And>u. p = Ack u \<Longrightarrow> entry_of (ic_trace ct) = Some (h, True)"
  shows "keeps cs (active_message env h p ct)"
proof -
  have known: "get_capture h ct \<noteq> None" by (rule active_known [OF inv act])
  then obtain edge where edge: "get_pos h ct = Some edge" by (auto simp: get_pos_def)
  have refused: "keeps cs (and_then (release_capture env ct) (\<lambda>_ ct. (tell (StepInside edge) ct, Done ())))"
    by (rule keeps_tail [OF release_capture_keeps [OF inv cs]]) simp
  show ?thesis
  proof (cases p)
    case (Ack u)
    then show ?thesis using acknowledged_inv [OF inv act ack] inv cs by (simp add: active_message_def)
  next
    case (Handoff target side)
    then show ?thesis using handoff_keeps [OF inv cs known] refused edge by (simp add: active_message_def with_pos_def)
  next
    case (Pong b)
    then show ?thesis using inv cs by (cases b) (simp_all add: active_message_def release_capture_keeps)
  qed (use inv cs in \<open>simp_all add: active_message_def return_local_pointer_keeps\<close>)
qed

lemma cap_recv_keeps:
  assumes inv: "cap_inv ct" and cs: "ct_captures ct = cs"
  shows "keeps cs (cap_recv env h fingerprint p ct)"
proof -
  define ct1 where "ct1 = tell (PeerAuthenticated h fingerprint) (emit (Received h p) ct)"
  define ct2 where "ct2 = (case p of Pong _ \<Rightarrow> tell (PeerStateChanged h) ct1 | _ \<Rightarrow> ct1)"
  define ct3 where "ct3 = (if p = Pong False \<and> \<not> ce_peer_connected env h then tell (PeerLost h) ct2 else ct2)"
  have v: "inv_view ct1 = inv_view (emit (Received h p) ct)" "inv_view ct2 = inv_view ct1" "inv_view ct3 = inv_view ct2"
    by (simp_all add: ct1_def ct2_def ct3_def split: proto_event.split)
  have inv1: "cap_inv ct1" by (rule inv_view_update [OF v(1) received_inv(1) [OF inv]])
  then have inv3: "cap_inv ct3" using inv_view_update v by blast
  have cs1: "ct_captures ct1 = cs" using cs by (simp add: ct1_def emit_def)
  then have cs3: "ct_captures ct3 = cs" using view_captures [OF v(2)] view_captures [OF v(3)] by simp
  have same: "ct_active_client ct3 = ct_active_client ct" "entry_of (ic_trace ct3) = entry_of (ic_trace (emit (Received h p) ct))"
    using v by (simp_all add: inv_view_def emit_def)
  have forwarded: "keeps cs (tell (ClipboardReceived h fingerprint p) ct1, Done ())"
    by (rule keeps_Done [OF _ inv1 cs1]) simp
  have message: "keeps cs (and_then (active_message env h p ct3) (\<lambda>_ ct. sync_captures env ct))"
    if "ct_active_client ct3 = Some h"
    by (rule leaves_and_then [OF active_message_keeps [OF inv3 cs3 that]])
      (use same that received_inv(2) [OF inv, of h p] in \<open>auto simp: sync_captures_keeps\<close>)
  have "cap_recv env h fingerprint p ct =
    (if is_forwarded_protocol p then (tell (ClipboardReceived h fingerprint p) ct1, Done ())
     else if ct_active_client ct3 \<noteq> Some h then sync_captures env ct3
     else and_then (active_message env h p ct3) (\<lambda>_ ct. sync_captures env ct))"
    unfolding cap_recv_def ct1_def ct2_def ct3_def Let_def ..
  then show ?thesis
    using forwarded message sync_captures_keeps [OF inv3 cs3] by simp
qed

section \<open>Requests\<close>

lemma map_of_filter_other: "k \<noteq> h \<Longrightarrow> map_of (filter (\<lambda>(h', _). h \<noteq> h') l) k = map_of l k"
  by (induction l) auto

lemma removed_lookup: "k \<noteq> h \<Longrightarrow> get_capture k (remove_capture h ct) = get_capture k ct"
  by (simp add: remove_capture_def get_capture_def map_of_filter_other)

lemma removed_fields:
  "ct_active_client (remove_capture h ct) = ct_active_client ct" "ct_state (remove_capture h ct) = ct_state ct"
  "ct_pressure (remove_capture h ct) = ct_pressure ct" "ic_trace (remove_capture h ct) = ic_trace ct"
  "ct_held_until_ack (remove_capture h ct) = ct_held_until_ack ct"
  "ct_ack_deadline (remove_capture h ct) = ct_ack_deadline ct"
  "ct_local_departure (remove_capture h ct) = ct_local_departure ct"
  "ct_enabled_captures (remove_capture h ct) = ct_enabled_captures ct"
  "ic_id_map (remove_capture h ct) = ic_id_map ct" "ic_position_map (remove_capture h ct) = ic_position_map ct"
  by (simp_all add: remove_capture_def)

lemma removed_core:
  assumes "cap_core ct" and "\<forall>x at. ct_pressure ct \<noteq> Some (h, x, at)" and "ct_active_client ct \<noteq> Some h"
  shows "cap_core (remove_capture h ct)"
  using assms removed_lookup [of _ h ct]
  by (auto simp: cap_core_def handshake_ok_def push_ok_def removed_fields split: option.splits)

lemma removed_barriers: "barriers_ok (remove_capture h ct) = barriers_ok ct"
  by (rule barriers_ok_cong) (simp_all add: removed_fields)

lemma removed_release_core:
  assumes "cap_core ct" and "\<forall>x at. ct_pressure ct \<noteq> Some (h, x, at)"
  shows "cap_core (idle ((remove_capture h ct)\<lparr>ct_pressure := None\<rparr>))"
  using assms by (simp add: cap_core_def handshake_ok_def push_ok_def idle_def removed_fields)

lemma removed_release_keeps:
  assumes inv: "cap_inv ct" and push: "\<forall>x at. ct_pressure ct \<noteq> Some (h, x, at)"
  shows "leaves cap_inv cap_core (release_capture env (remove_capture h ct))"
    and "ct_enabled_captures (fst (release_capture env (remove_capture h ct))) = ct_enabled_captures ct"
proof -
  let ?ct = "remove_capture h ct"
  have "push_ok ?ct" and "entry_known ?ct"
    using inv push removed_lookup [of _ h ct] core_entry_known [OF cap_inv_core [OF inv]]
    by (auto simp: cap_inv_def cap_core_def push_ok_def entry_known_def removed_fields)
  then have v: "inv_view (fst (release_capture env ?ct)) = inv_view (idle (?ct\<lparr>ct_pressure := None\<rparr>))"
    and np: "snd (release_capture env ?ct) \<noteq> Panicked"
    using release_capture_view by blast+
  have "cap_inv (idle (?ct\<lparr>ct_pressure := None\<rparr>))"
    using removed_release_core [OF cap_inv_core [OF inv] push] inv removed_barriers [of h ct]
      barriers_ok_cong [of "idle (?ct\<lparr>ct_pressure := None\<rparr>)" ?ct] by (simp add: cap_inv_def idle_def)
  from keeps_view [OF v np this refl]
  show "leaves cap_inv cap_core (release_capture env ?ct)" by (rule leaves_mono) simp_all
  show "ct_enabled_captures (fst (release_capture env ?ct)) = ct_enabled_captures ct"
    using view_enabled [OF v] by (simp add: idle_def removed_fields)
qed

text \<open>The requests that are left out. Destroying the barrier on which a push is being measured, or the device that has the
  pointer while the session does not have its barrier (between sessions, or with input sharing off), leaves a handle in the
  state that is looked up later with \<open>expect\<close>: the code panics then (\<open>destroyed_push_panics\<close> of \<open>Capture_Properties\<close>). And a
  \<open>SendProto\<close> request is not to carry input: the service makes none, the capture task would send it as it is.\<close>

definition request_ok :: "bool \<Rightarrow> capture_request \<Rightarrow> capture_task \<Rightarrow> bool" where
  "request_ok running request ct = (case request of
     Destroy h \<Rightarrow> (case ct_pressure ct of None \<Rightarrow> True | Some (k, _) \<Rightarrow> k \<noteq> h)
       \<and> (ct_active_client ct = Some h \<longrightarrow> running \<and> h \<in> set (ct_enabled_captures ct))
   | SendProto h event \<Rightarrow> (case event of Input _ \<Rightarrow> False | _ \<Rightarrow> True)
   | _ \<Rightarrow> True)"

lemma cap_destroy_keeps:
  assumes inv: "cap_inv ct" and ok: "request_ok True (Destroy h) ct"
  shows "leaves cap_inv cap_core (cap_destroy env h ct)"
proof -
  have push: "\<forall>x at. ct_pressure ct \<noteq> Some (h, x, at)"
    using ok by (auto simp: request_ok_def split: option.splits)
  let ?ct = "remove_capture h ct"
  show ?thesis
  proof (cases "ct_active_client ct = Some h")
    case True
    then have en: "h \<in> set (ct_enabled_captures ct)" using ok by (simp add: request_ok_def)
    have "leaves cap_inv cap_core (and_then (release_capture env ?ct) (\<lambda>_ ct.
      ic_destroy (ce_destroy_ok env) h (ct\<lparr>ct_enabled_captures := removeAll h (ct_enabled_captures ct)\<rparr>)))"
    proof (rule leaves_and_then [OF removed_release_keeps(1) [OF inv push]])
      fix s a assume "release_capture env ?ct = (s, Done a)" and s: "cap_inv s"
      then have "h \<in> set (ct_enabled_captures s)"
        using removed_release_keeps(2) [OF inv push, of env] en by simp
      from destroy_barrier_keeps [OF s this refl]
      show "leaves cap_inv cap_core
        (ic_destroy (ce_destroy_ok env) h (s\<lparr>ct_enabled_captures := removeAll h (ct_enabled_captures s)\<rparr>))"
        by (rule leaves_mono) simp_all
    qed
    then show ?thesis using True en by (simp add: cap_destroy_def removed_fields)
  next
    case False
    have inv': "cap_inv ?ct"
      using removed_core [OF cap_inv_core [OF inv] push False] inv removed_barriers [of h ct] by (simp add: cap_inv_def)
    have "leaves cap_inv cap_core
        (ic_destroy (ce_destroy_ok env) h (?ct\<lparr>ct_enabled_captures := removeAll h (ct_enabled_captures ?ct)\<rparr>))"
      if "h \<in> set (ct_enabled_captures ?ct)"
      using destroy_barrier_keeps [OF inv' that refl] by (rule leaves_mono) simp_all
    then show ?thesis using False inv' by (simp add: cap_destroy_def removed_fields Let_def)
  qed
qed

lemma added_fields:
  "ct_active_client (add_capture h pos kind ct) = ct_active_client ct" "ct_state (add_capture h pos kind ct) = ct_state ct"
  "ct_pressure (add_capture h pos kind ct) = ct_pressure ct" "ic_trace (add_capture h pos kind ct) = ic_trace ct"
  "ct_held_until_ack (add_capture h pos kind ct) = ct_held_until_ack ct"
  "ct_ack_deadline (add_capture h pos kind ct) = ct_ack_deadline ct"
  "ct_local_departure (add_capture h pos kind ct) = ct_local_departure ct"
  by (simp_all add: add_capture_def)

lemma added_core:
  assumes "cap_core ct" shows "cap_core (add_capture h pos kind ct)"
proof -
  have look: "get_capture k (add_capture h pos kind ct) \<noteq> None" if "get_capture k ct \<noteq> None" for k
    using that by (auto simp: add_capture_def get_capture_def map_add_def split: option.split)
  then have "push_ok (add_capture h pos kind ct)"
    using assms by (auto simp: cap_core_def push_ok_def added_fields)
  moreover have "handshake_ok (add_capture h pos kind ct)"
    using assms look by (cases "ct_active_client ct") (simp_all add: cap_core_def handshake_ok_def added_fields)
  ultimately show ?thesis using assms by (simp add: cap_core_def added_fields)
qed

lemma added_inv: "cap_inv ct \<Longrightarrow> cap_inv (add_capture h pos kind ct)"
  using added_core [of ct h pos kind] barriers_ok_cong [of "add_capture h pos kind ct" ct]
  by (simp add: cap_inv_def add_capture_def)

lemma go_on_keeps: "leaves cap_inv cap_core r \<Longrightarrow> leaves cap_inv cap_core (go_on r)"
  unfolding go_on_def by (erule leaves_and_then) simp

lemma keeps_leaves: "keeps cs r \<Longrightarrow> leaves cap_inv cap_core r"
  by (erule leaves_mono) simp_all

lemma send_proto_view: "(case event of Input _ \<Rightarrow> False | _ \<Rightarrow> True) \<Longrightarrow> inv_view (send_proto_event env h event ct) = inv_view ct"
  by (auto simp: send_proto_event_def sendable_def intro!: view_send)

lemma send_clipboard_view: "inv_view (send_clipboard_transfer env h t d i ct) = inv_view ct"
  by (simp add: send_clipboard_transfer_def Let_def)

lemma cap_release_request_keeps: "cap_inv ct \<Longrightarrow> leaves cap_inv cap_core (cap_release_request env ct)"
  unfolding cap_release_request_def Let_def
  by (rule keeps_leaves [of "ct_captures ct"], rule leaves_and_then, erule clear_pressure_keep, rule refl,
      rule keeps_tail, rule release_capture_at_keeps)
    (auto split: option.split)

lemma set_controller_keeps:
  assumes "cap_inv ct" shows "leaves cap_inv cap_core (cap_request env (SetController controller) ct)"
proof -
  have "cap_inv (ct\<lparr>ct_controller := controller\<rparr>)" by (rule inv_view_update [OF _ assms]) simp
  then show ?thesis
    by (simp add: cap_request_def Let_def go_on_keeps keeps_leaves [OF release_capture_keeps [OF _ refl]])
qed

lemma set_sharing_keeps:
  assumes "cap_inv ct" shows "leaves cap_inv cap_core (cap_request env (SetInputSharing b) ct)"
proof -
  let ?ct = "ct\<lparr>ct_input_sharing := b\<rparr>"
  have inv: "cap_inv ?ct" by (rule inv_view_update [OF _ assms]) simp
  have "keeps (ct_captures ?ct) (and_then (if \<not> b then release_capture env ?ct else (?ct, Done ()))
    (\<lambda>_ ct. sync_captures env ct))"
    by (rule leaves_and_then [where P = "\<lambda>s. cap_inv s \<and> ct_captures s = ct_captures ?ct"])
      (use inv in \<open>cases b; simp add: release_capture_keeps sync_captures_keeps\<close>)+
  from go_on_keeps [OF keeps_leaves [OF this]] show ?thesis by (simp add: cap_request_def)
qed

lemma create_keeps:
  assumes "cap_inv ct" shows "leaves cap_inv cap_core (cap_request env (Create h pos kind) ct)"
proof -
  let ?ct = "if kind = DefaultCapture then emit (Connected h) (add_capture h pos kind ct) else add_capture h pos kind ct"
  have "cap_inv ?ct" using added_inv [OF assms, of h pos kind] by (auto intro: inv_view_update)
  from go_on_keeps [OF keeps_leaves [OF sync_captures_keeps [OF this refl]]]
  show ?thesis by (simp add: cap_request_def Let_def)
qed

lemma set_backend_keeps:
  assumes "cap_inv ct" shows "leaves cap_inv cap_core (cap_request env (SetBackend backend) ct)"
proof -
  have "cap_inv (ct\<lparr>ct_backend := backend, ct_restart_now := True\<rparr>)" by (rule inv_view_update [OF _ assms]) simp
  then show ?thesis
    unfolding cap_request_def capture_request.case
    by (intro keeps_leaves [OF keeps_tail [OF release_capture_keeps [OF _ refl]]]) simp_all
qed

lemma cap_request_keeps:
  assumes inv: "cap_inv ct" and ok: "request_ok True request ct"
  shows "leaves cap_inv cap_core (cap_request env request ct)"
proof (cases request)
  case Release
  then show ?thesis using go_on_keeps [OF cap_release_request_keeps [OF inv]] by (simp add: cap_request_def)
next
  case (SetController c)
  then show ?thesis by (simp add: set_controller_keeps [OF inv])
next
  case (SetInputSharing b)
  then show ?thesis by (simp add: set_sharing_keeps [OF inv])
next
  case (Create h pos kind)
  then show ?thesis by (simp add: create_keeps [OF inv])
next
  case (SetBackend b)
  then show ?thesis by (simp add: set_backend_keeps [OF inv])
next
  case (Destroy h)
  then show ?thesis using cap_destroy_keeps [OF inv] ok by (simp add: cap_request_def go_on_keeps)
next
  case (SendProto h event)
  then have "inv_view (send_proto_event env h event ct) = inv_view ct"
    using ok by (intro send_proto_view) (simp add: request_ok_def)
  then show ?thesis using SendProto inv by (simp add: cap_request_def inv_view_update)
next
  case (SendClipboard h t d i)
  then show ?thesis using inv send_clipboard_view [of env h t d i ct] by (simp add: cap_request_def inv_view_update)
qed (use inv in \<open>auto simp: cap_request_def intro: inv_view_update\<close>)

section \<open>Between sessions\<close>

lemma core_view_update: "inv_view ct' = inv_view ct \<Longrightarrow> cap_core ct \<Longrightarrow> cap_core ct'"
  using view_core by blast

lemma handle_inactive_request_keeps:
  assumes core: "cap_core ct" and ok: "request_ok False request ct"
  shows "leaves cap_core cap_core (handle_inactive_request env request ct)"
proof (cases request)
  case (Create h pos kind)
  then show ?thesis
    using added_core [OF core, of h pos kind] by (auto simp: handle_inactive_request_def Let_def intro: core_view_update)
next
  case (Destroy h)
  then show ?thesis using removed_core [OF core] ok
    by (auto simp: handle_inactive_request_def request_ok_def split: option.splits)
next
  case (SetController c)
  have c: "cap_core (ct\<lparr>ct_controller := c\<rparr>)" by (rule core_view_update [OF _ core]) simp
  obtain ct' where "clear_pressure env (ct\<lparr>ct_controller := c\<rparr>) = (ct', Done ())"
    and v: "inv_view ct' = inv_view (ct\<lparr>ct_controller := c, ct_pressure := None\<rparr>)"
    using clear_pressure_keeps [OF c] by blast
  with SetController core_view_update [OF v core_no_push [OF c]]
  show ?thesis by (simp add: handle_inactive_request_def go_on_def)
next
  case (SendProto h event)
  then have "inv_view (send_proto_event env h event ct) = inv_view ct"
    using ok by (intro send_proto_view) (simp add: request_ok_def)
  then show ?thesis using SendProto core by (simp add: handle_inactive_request_def core_view_update)
next
  case (SendClipboard h t d i)
  then show ?thesis
    using core send_clipboard_view [of env h t d i ct] by (simp add: handle_inactive_request_def core_view_update)
qed (use core in \<open>auto simp: handle_inactive_request_def intro: core_view_update\<close>)

lemma received_core:
  assumes "cap_core ct" shows "cap_core (emit (Received h p) ct)"
proof -
  have "cap_core (emit (Received h (Ack u)) ct)" for u
    using assms by (auto simp: cap_core_def handshake_ok_def push_ok_def get_capture_def emit_def entry_step_def
        split: option.splits)
  then show ?thesis
    using view_received [of p h ct] assms by (cases "\<exists>u. p = Ack u") (auto intro: core_view_update)
qed

lemma handle_inactive_event_view:
  "inv_view (handle_inactive_event env h fingerprint p ct) = inv_view (emit (Received h p) ct)"
proof -
  define ct1 where "ct1 = tell (PeerAuthenticated h fingerprint) (emit (Received h p) ct)"
  have v: "inv_view ct1 = inv_view (emit (Received h p) ct)" by (simp add: ct1_def)
  have "handle_inactive_event env h fingerprint p ct =
    (if is_forwarded_protocol p then tell (ClipboardReceived h fingerprint p) ct1
     else case p of
       Pong alive \<Rightarrow>
         (if \<not> alive \<and> \<not> ce_peer_connected env h then tell (PeerLost h) (tell (PeerStateChanged h) ct1)
          else tell (PeerStateChanged h) ct1)
     | _ \<Rightarrow> ct1)"
    unfolding handle_inactive_event_def ct1_def Let_def ..
  then show ?thesis unfolding v [symmetric] by (simp split: proto_event.split)
qed

lemma handle_inactive_event_core:
  assumes "cap_core ct" shows "cap_core (handle_inactive_event env h fingerprint p ct)"
  by (rule core_view_update [OF handle_inactive_event_view received_core [OF assms]])

lemma fold_view:
  assumes "\<And>x ct. inv_view (f x ct) = inv_view ct" shows "inv_view (fold f l ct) = inv_view ct"
  by (induction l arbitrary: ct) (simp_all add: assms)

lemma reconnect_view: "inv_view (reconnect_lost_peers env ct) = inv_view ct"
  unfolding reconnect_lost_peers_def by (rule fold_view) (simp split: prod.split)

lemma session_start_keeps:
  assumes "cap_core ct" shows "leaves cap_inv cap_core (session_start env selected ct)"
proof -
  let ?ct = "ct\<lparr>ic_pressed_buttons := [], ic_pressed_keys := [], ic_position_map := [], ic_id_map := [],
    ic_pending := [], ct_enabled_captures := []\<rparr>"
  have "cap_core ?ct" using core_cong [of ?ct ct] assms by simp
  moreover have "barriers_ok ?ct" by (simp add: barriers_ok_def ic_wf_def slot_ok_def hash_map)
  ultimately have "cap_inv ?ct" unfolding cap_inv_def by (rule conjI)
  then have "cap_inv (tell (CaptureEnabled selected) ?ct)" by (rule inv_view_update [OF view_tell_simps(10)])
  from keeps_leaves [OF sync_captures_keeps [OF this refl]] show ?thesis by (simp add: session_start_def)
qed

end
