(* ===== verification/Capture_Properties.thy ===== *)
theory Capture_Properties
  imports Capture_Steps
begin

text \<open>
  Every behaviour of the capture task, session after session, and its properties: the invariant and
  the absence of panics, that input reaches only a device that has acknowledged its entry, that what
  was pressed before the acknowledgement is replayed, that an unacknowledged entry is given up, that a
  release lifts whatever is pressed, and two ways in which the code departs from its intent.
\<close>

section \<open>The transition system\<close>

datatype cap_op =
    OpPoll backend_poll
  | OpRecv capture_handle rstring proto_event
  | OpReconnect
  | OpDeadline
  | OpRequest capture_request
  | OpCancel

definition cap_poll :: "cap_env \<Rightarrow> backend_poll \<Rightarrow> capture_task \<Rightarrow> capture_task \<times> bool outcome" where
  "cap_poll env backend ct = (case poll_next backend ct of
     (ct, PollEvent h event) \<Rightarrow> go_on (handle_capture_event env h event ct)
   | (ct, PollClosed) \<Rightarrow> (ct, Done True)
   | (ct, PollError) \<Rightarrow> (ct, Failed)
   | (ct, PollPending) \<Rightarrow> (ct, Done False))"

text \<open>One arm of the \<open>select!\<close>; \<open>Done True\<close> ends the session.\<close>

definition session_step :: "cap_env \<Rightarrow> cap_op \<Rightarrow> capture_task \<Rightarrow> capture_task \<times> bool outcome" where
  "session_step env op ct = (case op of
     OpPoll backend \<Rightarrow> cap_poll env backend ct
   | OpRecv h fingerprint event \<Rightarrow> go_on (cap_recv env h fingerprint event ct)
   | OpReconnect \<Rightarrow> (reconnect_lost_peers env ct, Done False)
   | OpDeadline \<Rightarrow> go_on (cap_deadline env ct)
   | OpRequest request \<Rightarrow> cap_request env request ct
   | OpCancel \<Rightarrow> and_then (release_capture env ct) (\<lambda>_ ct. (ct, Done True)))"

definition op_ok :: "cap_env \<Rightarrow> cap_op \<Rightarrow> capture_task \<Rightarrow> bool" where
  "op_ok env op ct = (case op of
     OpRequest request \<Rightarrow> request_ok True request ct
   | OpDeadline \<Rightarrow> (case ct_ack_deadline ct of Some deadline \<Rightarrow> deadline \<le> ce_now env | None \<Rightarrow> False)
   | _ \<Rightarrow> True)"

text \<open>The guard of a session tells the service that capture is off when the session ends, however it ends.\<close>

definition session_end :: "capture_task \<Rightarrow> capture_task" where
  "session_end ct = tell CaptureDisabled ct"

text \<open>The steps. The last is a write of the emulation task, when a peer enters, to the two cells it shares with this task; the
  requests are those of \<open>request_ok\<close>.\<close>

inductive cap_reach :: "bool \<Rightarrow> capture_task \<Rightarrow> bool" where
  init: "cap_reach False (ct_new backend release_bind)"
| start: "cap_reach False ct \<Longrightarrow> session_start env selected ct = (ct', r)
    \<Longrightarrow> cap_reach (r = Done ()) (if r = Done () then ct' else session_end ct')"
| step: "cap_reach True ct \<Longrightarrow> op_ok env op ct \<Longrightarrow> session_step env op ct = (ct', r)
    \<Longrightarrow> cap_reach (r = Done False) (if r = Done False then ct' else session_end ct')"
| waiting_request: "cap_reach False ct \<Longrightarrow> request_ok False request ct
    \<Longrightarrow> handle_inactive_request env request ct = (ct', r) \<Longrightarrow> cap_reach False ct'"
| waiting_event: "cap_reach False ct \<Longrightarrow> cap_reach False (handle_inactive_event env h fingerprint event ct)"
| waiting_tick: "cap_reach False ct \<Longrightarrow> cap_reach False (reconnect_lost_peers env ct)"
| peer_enters: "cap_reach running ct \<Longrightarrow> cap_reach running (ct\<lparr>ct_last_entry := entry, ct_landing_along := along\<rparr>)"

lemma session_end_view: "inv_view (session_end ct) = inv_view ct"
  by (simp add: session_end_def view_tell)

lemma session_end_core: "cap_core ct \<Longrightarrow> cap_core (session_end ct)"
  by (rule core_view_update [OF session_end_view])

lemma track_pressed_view: "inv_view (track_pressed event ct) = inv_view ct"
  by (auto simp: track_pressed_def update_pressed_keys_def
      split: capture_event.split input_event.split keyboard_event.split pointer_event.split option.split)

lemma poll_next_view: "inv_view (fst (poll_next backend ct)) = inv_view ct"
  by (auto simp: poll_next_def Let_def track_pressed_view
      split: list.split backend_poll.split option.split prod.split)

lemma cap_poll_keeps:
  assumes "cap_inv ct" shows "leaves cap_inv cap_core (cap_poll env backend ct)"
proof -
  obtain ct' p where r: "poll_next backend ct = (ct', p)" by (cases "poll_next backend ct")
  have inv: "cap_inv ct'" using poll_next_view [of backend ct] r assms by (auto intro: inv_view_update)
  show ?thesis
    using r inv go_on_keeps [OF keeps_leaves [OF handle_capture_event_keeps [OF inv refl]]]
    by (cases p) (simp_all add: cap_poll_def cap_inv_core)
qed

lemma session_step_keeps:
  assumes "cap_inv ct" and "op_ok env op ct" shows "leaves cap_inv cap_core (session_step env op ct)"
proof (cases op)
  case OpReconnect
  then show ?thesis using inv_view_update [OF reconnect_view assms(1)] by (simp add: session_step_def)
next
  case OpCancel
  have "keeps (ct_captures ct) (and_then (release_capture env ct) (\<lambda>_ ct. (ct, Done True)))"
    by (rule keeps_tail [OF release_capture_keeps [OF assms(1) refl]]) simp
  from keeps_leaves [OF this] OpCancel show ?thesis by (simp add: session_step_def)
qed (use assms in \<open>simp_all add: session_step_def op_ok_def cap_poll_keeps cap_request_keeps
      go_on_keeps [OF keeps_leaves [OF cap_recv_keeps [OF _ refl]]]
      go_on_keeps [OF keeps_leaves [OF cap_deadline_keeps [OF _ refl]]]\<close>)

lemma ct_new_core: "cap_core (ct_new backend release_bind)"
  by (simp add: cap_core_def handshake_ok_def push_ok_def ct_new_def)

lemma reach_invariant: "cap_reach running ct \<Longrightarrow> cap_core ct \<and> (running \<longrightarrow> cap_inv ct)"
proof (induction rule: cap_reach.induct)
  case init
  then show ?case by (simp add: ct_new_core)
next
  case (start ct env selected ct' r)
  then show ?case
    using session_start_keeps [of ct env selected] by (cases r) (auto dest: cap_inv_core intro: session_end_core)
next
  case (step ct env op ct' r)
  then show ?case
    using session_step_keeps [of ct env op] by (cases r) (auto dest: cap_inv_core intro: session_end_core)
next
  case (waiting_request ct request env ct' r)
  then show ?case using handle_inactive_request_keeps [of ct request env] by (cases r) auto
next
  case waiting_event
  then show ?case by (simp add: handle_inactive_event_core)
next
  case waiting_tick
  then show ?case using core_view_update [OF reconnect_view] by simp
next
  case (peer_enters running ct along entry)
  have "inv_view (ct\<lparr>ct_last_entry := entry, ct_landing_along := along\<rparr>) = inv_view ct" by simp
  with peer_enters show ?case using core_view_update inv_view_update by blast
qed

text \<open>C9: as long as no request destroys the barrier on which a push is being measured or destroys the device that has the
  pointer while its barrier is not set up (the code can panic after either), and none sends input as a protocol message:
  in every reachable state the handshake fields agree with each other and with the trace (a device has
  the pointer exactly while the entry is pending or acknowledged, at most 64 presses are held, a pending entry has a deadline), every
  barrier the state names is configured, a running session has exactly the barriers it takes for
  enabled, and no step of the session that meets these conditions panics.\<close>

theorem capture_task_invariant:
  assumes "cap_reach running ct"
  shows "handshake_ok ct \<and> push_ok ct
    \<and> (running \<longrightarrow> barriers_ok ct \<and> (\<forall>env op. op_ok env op ct \<longrightarrow> snd (session_step env op ct) \<noteq> Panicked))"
  using reach_invariant [OF assms] leaves_no_panic [OF session_step_keeps]
  by (auto simp: cap_inv_def cap_core_def)

text \<open>C8: input is sent to a device only after that device was the last to be entered and has acknowledged the
  entry; before its acknowledgement it is sent at most the releases of a cleanup.\<close>

theorem input_only_after_ack:
  assumes "cap_reach running ct" and "ic_trace ct = pre @ Sent h (Input e) # post"
  shows "\<exists>acked. entry_of pre = Some (h, acked) \<and> (acked \<or> is_release_input e)"
  using reach_invariant [OF assms(1)] assms(2) unfolding cap_core_def input_safe_def by blast

section \<open>Presses before the acknowledgement\<close>

text \<open>An input event of a configured device reaches \<open>hce_forward\<close> while no push is measured and the release
  bind is not pressed.\<close>

definition open_route :: "capture_handle \<Rightarrow> capture_task \<Rightarrow> bool" where
  "open_route h ct \<longleftrightarrow> (\<exists>pos. get_capture h ct = Some (pos, DefaultCapture))
     \<and> \<not> keys_pressed (ct_release_bind ct) ct \<and> ct_pressure ct = None"

lemma input_forwarded:
  assumes "open_route h ct"
  shows "handle_capture_event env h (CaptureInput e) ct = hce_forward env h (CaptureInput e) ct"
proof -
  obtain pos where pos: "get_capture h ct = Some (pos, DefaultCapture)" using assms by (auto simp: open_route_def)
  then have "returns_to_controller env h ct \<noteq> None"
    by (simp add: returns_to_controller_def del: not_None_eq split: option.split)
  then obtain returning where "returns_to_controller env h ct = Some returning" by blast
  with assms pos show ?thesis
    by (simp add: open_route_def handle_capture_event_def hce_screen_def hce_pressure_def hce_route_def)
qed

definition entering_device :: "capture_handle \<Rightarrow> capture_task \<Rightarrow> bool" where
  "entering_device h ct \<longleftrightarrow> ct_active_client ct = Some h \<and> ct_state ct = WaitingForAck \<and> open_route h ct"

text \<open>The part of the state that matters while presses are held.\<close>

definition wait_view where
  "wait_view ct = (ct_local_departure ct, ct_entering_via ct, ic_pressed_keys ct, ct_release_bind ct)"

text \<open>The device is being entered and its barrier is the only one at the edge the input comes from; nothing is queued.\<close>

definition typing_at :: "edge \<Rightarrow> capture_handle \<Rightarrow> capture_task \<Rightarrow> bool" where
  "typing_at edge h ct \<longleftrightarrow> entering_device h ct \<and> ic_pending ct = [] \<and> hm_get (ic_position_map ct) edge = Some [h]"

lemma held_while_waiting:
  assumes "typing_at edge h ct" and "\<And>p. ce_send_ok env h p"
  shows "snd (handle_capture_event env h (CaptureInput e) ct) = Done ()
    \<and> typing_at edge h (fst (handle_capture_event env h (CaptureInput e) ct))
    \<and> ct_held_until_ack (fst (handle_capture_event env h (CaptureInput e) ct)) = ct_held_until_ack (hold_until_ack e ct)
    \<and> wait_view (fst (handle_capture_event env h (CaptureInput e) ct)) = wait_view ct"
proof -
  obtain pos where "get_capture h ct = Some (pos, DefaultCapture)"
    using assms(1) by (auto simp: typing_at_def entering_device_def open_route_def)
  then show ?thesis
    using assms input_forwarded [of h ct env e]
    by (auto simp: typing_at_def entering_device_def open_route_def hce_forward_def input_target_def with_pos_def get_pos_def
        send_or_release_def send_def emit_def hold_until_ack_def keys_pressed_def get_capture_def wait_view_def Let_def)
qed

text \<open>Typing: each event comes from the backend at the edge and goes through the poll of the session, which tracks the pressed
  keys. \<open>chord_free\<close>: the release bind is never pressed meanwhile.\<close>

definition type_while_waiting :: "edge \<Rightarrow> (cap_env \<times> input_event) list \<Rightarrow> capture_task \<Rightarrow> capture_task" where
  "type_while_waiting edge inputs ct =
     fold (\<lambda>(env, e) ct. fst (session_step env (OpPoll (BackendEvent edge (CaptureInput e))) ct)) inputs ct"

fun chord_free :: "input_event list \<Rightarrow> capture_task \<Rightarrow> bool" where
  "chord_free [] ct = True"
| "chord_free (e # es) ct \<longleftrightarrow> \<not> keys_pressed (ct_release_bind ct) (track_pressed (CaptureInput e) ct)
     \<and> chord_free es (track_pressed (CaptureInput e) ct)"

lemma track_pressed_view_fields:
  "ct_active_client (track_pressed event ct) = ct_active_client ct" "ct_state (track_pressed event ct) = ct_state ct"
  "ct_captures (track_pressed event ct) = ct_captures ct" "ct_pressure (track_pressed event ct) = ct_pressure ct"
  "ct_release_bind (track_pressed event ct) = ct_release_bind ct" "ct_held_until_ack (track_pressed event ct) = ct_held_until_ack ct"
  "ct_local_departure (track_pressed event ct) = ct_local_departure ct" "ct_entering_via (track_pressed event ct) = ct_entering_via ct"
  by (auto simp: track_pressed_def update_pressed_keys_def
      split: capture_event.split input_event.split keyboard_event.split pointer_event.split option.split)

lemma track_pressed_keys_cong:
  fixes ct ct' :: capture_task
  assumes "ic_pressed_keys ct' = ic_pressed_keys ct"
  shows "ic_pressed_keys (track_pressed event ct') = ic_pressed_keys (track_pressed event ct)"
  using assms by (auto simp: track_pressed_def update_pressed_keys_def
      split: capture_event.split input_event.split keyboard_event.split pointer_event.split option.split)

lemma chord_free_cong:
  "ic_pressed_keys ct' = ic_pressed_keys ct \<Longrightarrow> ct_release_bind ct' = ct_release_bind ct \<Longrightarrow> chord_free es ct' = chord_free es ct"
proof (induction es arbitrary: ct ct')
  case (Cons e es)
  note keys = track_pressed_keys_cong [OF Cons.prems(1), of "CaptureInput e"]
  have "chord_free es (track_pressed (CaptureInput e) ct') = chord_free es (track_pressed (CaptureInput e) ct)"
    by (rule Cons.IH [OF keys]) (simp add: track_pressed_view_fields Cons.prems(2))
  then show ?case using keys Cons.prems(2) by (simp add: keys_pressed_def)
qed simp

lemma typed_step:
  assumes typing: "typing_at edge h ct" and sends: "\<And>p. ce_send_ok env h p"
    and free: "\<not> keys_pressed (ct_release_bind ct) (track_pressed (CaptureInput e) ct)"
  defines "ct' \<equiv> fst (session_step env (OpPoll (BackendEvent edge (CaptureInput e))) ct)"
  shows "typing_at edge h ct'" and "ct_held_until_ack ct' = ct_held_until_ack (hold_until_ack e ct)"
    and "wait_view ct' = wait_view (track_pressed (CaptureInput e) ct)"
proof -
  let ?ct = "track_pressed (CaptureInput e) ct"
  have poll: "poll_next (BackendEvent edge (CaptureInput e)) ct = (?ct, PollEvent h (CaptureInput e))"
    using typing by (simp add: poll_next_def typing_at_def)
  have "typing_at edge h ?ct"
    using typing free
    by (simp add: typing_at_def entering_device_def open_route_def get_capture_def track_pressed_view_fields)
  note held = held_while_waiting [OF this sends, of e]
  have "ct' = fst (handle_capture_event env h (CaptureInput e) ?ct)"
    using held by (cases "handle_capture_event env h (CaptureInput e) ?ct") (simp add: ct'_def session_step_def cap_poll_def poll go_on_def)
  moreover have "ct_held_until_ack (hold_until_ack e ?ct) = ct_held_until_ack (hold_until_ack e ct)"
    by (simp add: hold_until_ack_def track_pressed_view_fields)
  ultimately show "typing_at edge h ct'" and "ct_held_until_ack ct' = ct_held_until_ack (hold_until_ack e ct)"
    and "wait_view ct' = wait_view ?ct"
    using held by simp_all
qed

lemma type_while_waiting_holds:
  assumes "typing_at edge h ct" and "\<forall>(env, e) \<in> set inputs. \<forall>p. ce_send_ok env h p"
    and "chord_free (map snd inputs) ct" and "ct_held_until_ack ct = take MAX_HELD_UNTIL_ACK past"
  shows "typing_at edge h (type_while_waiting edge inputs ct)
    \<and> ct_held_until_ack (type_while_waiting edge inputs ct) = take MAX_HELD_UNTIL_ACK (past @ filter is_press (map snd inputs))
    \<and> ct_local_departure (type_while_waiting edge inputs ct) = ct_local_departure ct
    \<and> ct_entering_via (type_while_waiting edge inputs ct) = ct_entering_via ct"
  using assms
proof (induction inputs arbitrary: ct past)
  case Nil
  then show ?case by (simp add: type_while_waiting_def)
next
  case (Cons x inputs)
  obtain env e where x: "x = (env, e)" by (cases x)
  let ?ct = "fst (session_step env (OpPoll (BackendEvent edge (CaptureInput e))) ct)"
  have sends: "\<And>p. ce_send_ok env h p" and free: "\<not> keys_pressed (ct_release_bind ct) (track_pressed (CaptureInput e) ct)"
    and rest: "chord_free (map snd inputs) (track_pressed (CaptureInput e) ct)"
    using Cons.prems(2,3) x by auto
  note s = typed_step [OF Cons.prems(1) sends free]
  have free': "chord_free (map snd inputs) ?ct"
    using rest chord_free_cong [of ?ct "track_pressed (CaptureInput e) ct"] s(3) by (simp add: wait_view_def)
  have held: "ct_held_until_ack ?ct = take MAX_HELD_UNTIL_ACK (past @ (if is_press e then [e] else []))"
    using s(2) Cons.prems(4) by (auto simp: hold_until_ack_def)
  have same: "ct_local_departure ?ct = ct_local_departure ct" "ct_entering_via ?ct = ct_entering_via ct"
    using s(3) by (simp_all add: wait_view_def track_pressed_view_fields)
  from Cons.IH [OF s(1) _ free' held] Cons.prems(2) same x show ?case
    by (cases "is_press e") (simp_all add: type_while_waiting_def)
qed

lemma send_all_trace:
  "(\<And>p. ce_send_ok env h p) \<Longrightarrow> ic_trace (send_all env h ps ct) = ic_trace ct @ map (Sent h) ps"
  by (induction ps arbitrary: ct) (simp_all add: send_def emit_def)

lemma send_all_fields [simp]:
  "ct_state (send_all env h ps ct) = ct_state ct" "ct_held_until_ack (send_all env h ps ct) = ct_held_until_ack ct"
  "ct_active_client (send_all env h ps ct) = ct_active_client ct" "ct_ack_deadline (send_all env h ps ct) = ct_ack_deadline ct"
  "ic_pressed_keys (send_all env h ps ct) = ic_pressed_keys ct" "ic_pressed_buttons (send_all env h ps ct) = ic_pressed_buttons ct"
  by (induction ps arbitrary: ct) (simp_all add: send_def emit_def)

text \<open>C27: clicks and keys pressed before the peer acknowledges its entry are not lost. Whatever is typed meanwhile at the edge of the
  device, through the polls of the session that track the pressed keys, as long as the release bind is never pressed, the
  messages to the device can be sent and its barrier is the only one at the edge: on the acknowledgement the first 64
  presses and releases of keys and buttons are sent to it, in the order they happened, and the task starts sending.\<close>

theorem presses_before_ack_are_replayed:
  assumes waiting: "typing_at edge h ct" and held: "ct_held_until_ack ct = []"
    and free: "chord_free (map snd inputs) ct"
    and sends: "\<forall>(env, e) \<in> set inputs. \<forall>p. ce_send_ok env h p" and ack: "\<forall>p. ce_send_ok env' h p"
  shows "let typed = type_while_waiting edge inputs ct; acked = fst (active_message env' h (Ack u) typed) in
    ct_state acked = Sending \<and> ct_held_until_ack acked = [] \<and> ct_ack_deadline acked = None \<and>
    ic_trace acked = ic_trace typed
      @ (case (ct_entering_via ct, ct_local_departure ct) of
           (None, Some (edge, along)) \<Rightarrow> [Told (PointerLeft edge along)] | _ \<Rightarrow> [])
      @ map (\<lambda>e. Sent h (Input e)) (take 64 (filter is_press (map snd inputs)))"
proof -
  have t: "typing_at edge h (type_while_waiting edge inputs ct)"
    "ct_held_until_ack (type_while_waiting edge inputs ct) = take 64 (filter is_press (map snd inputs))"
    "ct_local_departure (type_while_waiting edge inputs ct) = ct_local_departure ct"
    "ct_entering_via (type_while_waiting edge inputs ct) = ct_entering_via ct"
    using type_while_waiting_holds [OF waiting sends free, of "[]"] held by (simp_all add: MAX_HELD_UNTIL_ACK_def)
  show ?thesis
    using t ack by (auto simp: active_message_def acknowledged_def typing_at_def entering_device_def send_all_trace tell_def emit_def
        Let_def comp_def split: option.split)
qed

section \<open>Giving up\<close>

lemma cap_deadline_gives_up:
  assumes core: "cap_core ct" and final: "ct_state ct \<noteq> WaitingForAck \<or> ct_entering_via ct \<noteq> None
    \<or> ct_entry_along ct = None \<or> ct_legacy_entry ct \<or> ct_active_client ct = None"
  shows "ct_active_client (fst (cap_deadline env ct)) = None \<and> ct_ack_deadline (fst (cap_deadline env ct)) = None"
proof -
  have "legacy_entry_retry env ct = (ct, Done None)"
    using final by (auto simp: legacy_entry_retry_def split: option.split)
  moreover have "inv_view (fst (release_capture env ct)) = inv_view (idle (ct\<lparr>ct_pressure := None\<rparr>))"
    using release_capture_view [OF core_entry_known [OF core]] core by (simp add: cap_core_def)
  ultimately show ?thesis by (simp add: cap_deadline_def inv_view_def idle_def)
qed

lemma cap_deadline_retries:
  assumes core: "cap_core ct" and act: "ct_active_client ct = Some h" and retry: "ct_state ct = WaitingForAck"
    "ct_entering_via ct = None" "ct_entry_along ct \<noteq> None" "\<not> ct_legacy_entry ct"
  shows "\<exists>pos. get_pos h ct = Some pos \<and> cap_deadline env ct = (fst (send env h (Enter (to_proto_pos (opposite pos)))
    (ct\<lparr>ct_legacy_entry := True, ct_ack_deadline := Some (ce_now env + ACK_TIMEOUT)\<rparr>)), Done ())"
proof -
  obtain pos where pos: "get_pos h ct = Some pos"
    using core act by (auto simp: cap_core_def handshake_ok_def get_pos_def)
  then show ?thesis
    using act retry
    by (auto simp: cap_deadline_def legacy_entry_retry_def with_pos_def get_pos_def get_capture_def enter_event_def Let_def)
qed

text \<open>C29: a device that does not acknowledge its entry does not keep the pointer. In a session whose requests meet the conditions of
  \<open>request_ok\<close>, when the deadline of a pending entry passes, the device is asked once more, with the plain entry message for
  its side and a new deadline 750 ms later, exactly if it was entered by the local pointer at a known place along the edge and
  was not asked so before; otherwise the pointer is taken back at once. The next deadline takes it back in any case.\<close>

theorem unacknowledged_entry_is_given_up:
  assumes "cap_reach True ct" and "ct_active_client ct = Some h" and "ct_state ct = WaitingForAck"
  shows "let ct1 = fst (cap_deadline env1 ct); ct2 = fst (cap_deadline env2 ct1) in
    (if ct_entering_via ct = None \<and> ct_entry_along ct \<noteq> None \<and> \<not> ct_legacy_entry ct
     then \<exists>pos. get_pos h ct = Some pos \<and> cap_deadline env1 ct = (fst (send env1 h (Enter (to_proto_pos (opposite pos)))
            (ct\<lparr>ct_legacy_entry := True, ct_ack_deadline := Some (ce_now env1 + 750)\<rparr>)), Done ())
     else ct_active_client ct1 = None \<and> ct_ack_deadline ct1 = None)
    \<and> ct_active_client ct2 = None \<and> ct_ack_deadline ct2 = None"
proof -
  have inv: "cap_inv ct" and core: "cap_core ct" using reach_invariant [OF assms(1)] by simp_all
  have core1: "cap_core (fst (cap_deadline env1 ct))"
    using leaves_fst [OF cap_deadline_keeps [OF inv refl]] cap_inv_core by blast
  show ?thesis
  proof (cases "ct_entering_via ct = None \<and> ct_entry_along ct \<noteq> None \<and> \<not> ct_legacy_entry ct")
    case True
    then obtain pos where d: "get_pos h ct = Some pos" "cap_deadline env1 ct = (fst (send env1 h (Enter (to_proto_pos (opposite pos)))
        (ct\<lparr>ct_legacy_entry := True, ct_ack_deadline := Some (ce_now env1 + ACK_TIMEOUT)\<rparr>)), Done ())"
      using cap_deadline_retries [OF core assms(2,3)] by blast
    then have "ct_legacy_entry (fst (cap_deadline env1 ct))" by (simp add: send_def emit_def)
    with cap_deadline_gives_up [OF core1, of env2] d True show ?thesis by (simp add: Let_def ACK_TIMEOUT_def)
  next
    case False
    then have one: "ct_active_client (fst (cap_deadline env1 ct)) = None" "ct_ack_deadline (fst (cap_deadline env1 ct)) = None"
      using cap_deadline_gives_up [OF core] by auto
    with cap_deadline_gives_up [OF core1, of env2] False show ?thesis by (auto simp: Let_def)
  qed
qed

text \<open>C28: when the pointer is taken back from a device, the local capture is let go first and then, unless the
  cleanup is cut off, the device is told to lift every key and button that is held, to reset its modifiers and
  that the pointer has left; afterwards nothing counts as pressed.\<close>

theorem release_lifts_everything:
  assumes active: "ct_active_client ct = Some h" and sends: "\<forall>p. ce_send_ok env h p"
    and time: "length (ic_pressed_keys ct) + length (ic_pressed_buttons ct) + 2 \<le> ce_cleanup env"
  shows "let ct' = fst (release_capture_at env landing ct) in
    ct_active_client ct' = None \<and> ic_pressed_keys ct' = [] \<and> ic_pressed_buttons ct' = [] \<and>
    ic_trace ct' = ic_trace ct
      @ (case landing of
           None \<Rightarrow> [BackendRelease]
         | Some edge \<Rightarrow> BackendReleaseAt edge (ct_landing_along ct)
             # (if ce_release_at env = None then [] else [Told (PointerReturned edge (ct_landing_along ct))]))
      @ map (\<lambda>k. Sent h (Input (Keyboard (Key 0 (word_of_nat k) 0)))) (ic_pressed_keys ct)
      @ map (\<lambda>b. Sent h (Input (Pointer (Button 0 b 0)))) (ic_pressed_buttons ct)
      @ [Sent h (Input (Keyboard (Modifiers 0 0 0 0))), Sent h (Leave 0)]"
proof -
  have "take (ce_cleanup env) (release_events (ic_pressed_keys ct) (ic_pressed_buttons ct))
    = release_events (ic_pressed_keys ct) (ic_pressed_buttons ct)"
    using time by (simp add: release_events_def)
  then show ?thesis
    using active sends
    by (auto simp: release_capture_at_def ic_take_pressed_keys_def ic_take_pressed_buttons_def release_with_def
        ic_release_def ic_release_at_along_def backend_answer_def tell_def emit_def send_all_trace release_events_def
        Let_def comp_def split: option.split)
qed

section \<open>Departures from the intent\<close>

text \<open>The comment of the measured push says that the capture held for it is let go when \<^emph>\<open>the measured barrier
  is gone\<close>. But ending the push reports it at the position of that barrier, and looking it up panics.\<close>

theorem destroyed_push_panics:
  assumes push: "ct_pressure ct = Some (h, x, at)" and act: "ct_active_client ct \<noteq> Some h"
    and other: "get_capture k ct \<noteq> None" "k \<noteq> h" and bind: "\<not> keys_pressed (ct_release_bind ct) ct"
  shows "snd (handle_capture_event env' k Begin (fst (cap_destroy env h ct))) = Panicked"
proof -
  let ?ct = "fst (cap_destroy env h ct)"
  have same: "ct_pressure ?ct = ct_pressure ct" "ct_release_bind ?ct = ct_release_bind ct"
    "ic_pressed_keys ?ct = ic_pressed_keys ct" "ct_captures ?ct = ct_captures (remove_capture h ct)"
    using act by (auto simp: cap_destroy_def ic_destroy_def remove_capture_def emit_def Let_def split: option.split)
  have gone: "get_capture h ?ct = None"
    by (simp add: get_capture_def same(4) remove_capture_def map_of_eq_None_iff)
      (auto simp: image_iff)
  have there: "get_capture k ?ct \<noteq> None"
    using removed_lookup [OF other(2), of ct] other(1) by (simp add: get_capture_def same(4))
  have "snd (release_capture env' ?ct) = Panicked"
    using push gone
    by (simp add: release_capture_def clear_pressure_def same(1) report_pressure_def with_pos_def get_pos_def
        get_capture_def Let_def)
  then have "snd (stop_after (release_capture env' ?ct) :: capture_task \<times> (capture_event \<times> bool) option outcome) = Panicked"
    by (simp add: stop_after_def and_then_panics)
  moreover have "hce_screen env' k Begin ?ct = stop_after (release_capture env' ?ct)"
    using push gone there bind other(2)
    by (auto simp: hce_screen_def hce_pressure_def same keys_pressed_def)
  ultimately show ?thesis by (simp add: handle_capture_event_def and_then_panics)
qed

text \<open>An empty release bind counts as pressed, so that with it no device can be entered.\<close>

theorem empty_release_bind_blocks_entry:
  assumes "cap_reach True ct" and "ct_active_client ct = None" and "ct_release_bind ct = []"
  shows "ct_active_client (fst (handle_capture_event env h Begin ct)) = None"
proof -
  have core: "cap_core ct" using reach_invariant [OF assms(1)] by simp
  have rel: "ct_active_client (fst (release_capture env ct)) = None"
    using release_capture_view [OF core_entry_known [OF core]] core by (simp add: cap_core_def inv_view_def idle_def)
  have stop: "fst (handle_capture_event env h Begin ct) = fst r"
    if "hce_screen env h Begin ct = stop_after r" for r :: "capture_task \<times> 'z outcome"
    using that by (cases r; cases "snd r") (auto simp: handle_capture_event_def stop_after_def)
  show ?thesis
  proof (cases "get_capture h ct")
    case None
    then have "hce_screen env h Begin ct = stop_after (ic_release (ce_release_ok env) ct)" by (simp add: hce_screen_def)
    from stop [OF this] assms(2) show ?thesis by (simp add: ic_release_def emit_def)
  next
    case Some
    then have "hce_screen env h Begin ct = stop_after (release_capture env ct)"
      using assms(3) by (simp add: hce_screen_def keys_pressed_def)
    from stop [OF this] rel show ?thesis by simp
  qed
qed

section \<open>A run\<close>

definition demo_cap_env :: cap_env where
  "demo_cap_env = \<lparr>ce_now = 1000, ce_remote_ready = (\<lambda>_. True), ce_peer_connected = (\<lambda>_. True),
     ce_client_fingerprint = (\<lambda>_. None), ce_own_fingerprint = [], ce_send_ok = (\<lambda>_ _. True), ce_cleanup = 100,
     ce_send_finished = (\<lambda>_. False), ce_create_ok = True, ce_destroy_ok = True, ce_release_ok = True,
     ce_release_at = Some True\<rparr>"

primrec cap_run :: "cap_op list \<Rightarrow> capture_task \<Rightarrow> capture_task" where
  "cap_run [] ct = ct"
| "cap_run (op # ops) ct = cap_run ops (fst (session_step demo_cap_env op ct))"

primrec cap_run_ok :: "cap_op list \<Rightarrow> capture_task \<Rightarrow> bool" where
  "cap_run_ok [] ct = True"
| "cap_run_ok (op # ops) ct = (op_ok demo_cap_env op ct \<and> snd (session_step demo_cap_env op ct) = Done False
     \<and> cap_run_ok ops (fst (session_step demo_cap_env op ct)))"

definition demo_session :: capture_task where
  "demo_session = fst (session_start demo_cap_env Dummy (ct_new None [29]))"

lemma cap_run_reach: "cap_reach True ct \<Longrightarrow> cap_run_ok ops ct \<Longrightarrow> cap_reach True (cap_run ops ct)"
proof (induction ops arbitrary: ct)
  case (Cons op ops)
  then have "cap_reach True (fst (session_step demo_cap_env op ct))"
    using cap_reach.step [OF Cons.prems(1), of demo_cap_env op "fst (session_step demo_cap_env op ct)" "Done False"]
    by (simp add: prod_eq_iff)
  with Cons show ?case by simp
qed simp

lemma demo_session_reach: "cap_reach True demo_session"
proof -
  have "session_start demo_cap_env Dummy (ct_new None [29]) = (demo_session, Done ())"
    by (simp add: demo_session_def session_start_def sync_captures_def ct_new_def tell_def emit_def)
  from cap_reach.start [OF cap_reach.init this] show ?thesis by simp
qed

definition demo_entry :: "cap_op list" where
  "demo_entry = [OpRequest (Create 1 LeftEdge DefaultCapture), OpPoll (BackendEvent LeftEdge Begin)]"

lemma demo_entry_ok: "cap_run_ok demo_entry demo_session"
  by code_simp

definition demo_waiting :: capture_task where
  "demo_waiting = cap_run demo_entry demo_session"

lemma demo_waiting_reach: "cap_reach True demo_waiting"
  unfolding demo_waiting_def by (rule cap_run_reach [OF demo_session_reach demo_entry_ok])

lemma demo_waiting_state:
  "ct_active_client demo_waiting = Some 1" "ct_state demo_waiting = WaitingForAck" "ct_held_until_ack demo_waiting = []"
  "ct_ack_deadline demo_waiting = Some 1750"
  by code_simp+

lemma demo_waiting_entering: "typing_at LeftEdge 1 demo_waiting"
proof -
  have "get_capture 1 demo_waiting = Some (LeftEdge, DefaultCapture)" by code_simp
  moreover have "\<not> keys_pressed (ct_release_bind demo_waiting) demo_waiting" by code_simp
  moreover have "ct_pressure demo_waiting = None" by code_simp
  moreover have "ic_pending demo_waiting = []" "hm_get (ic_position_map demo_waiting) LeftEdge = Some [1]" by code_simp+
  ultimately show ?thesis by (simp add: typing_at_def entering_device_def open_route_def demo_waiting_state)
qed

theorem capture_task_invariant_witness:
  "handshake_ok demo_waiting \<and> push_ok demo_waiting \<and> barriers_ok demo_waiting
    \<and> snd (session_step demo_cap_env OpCancel demo_waiting) \<noteq> Panicked"
  using capture_task_invariant [OF demo_waiting_reach] by (simp add: op_ok_def)

text \<open>The device acknowledges and a key is typed.\<close>

definition demo_typing :: "cap_op list" where
  "demo_typing = [OpRecv 1 [] (Ack 0), OpPoll (BackendEvent LeftEdge (CaptureInput (Keyboard (Key 0 30 1))))]"

definition demo_typed :: capture_task where
  "demo_typed = cap_run demo_typing demo_waiting"

lemma demo_typed_reach: "cap_reach True demo_typed"
proof -
  have "cap_run_ok demo_typing demo_waiting" by code_simp
  then show ?thesis unfolding demo_typed_def by (rule cap_run_reach [OF demo_waiting_reach])
qed

lemma demo_typed_trace: "ic_trace demo_typed =
  [Told (CaptureEnabled Dummy), Connected 1, BackendCreate LeftEdge, Told (CaptureBegin 1 None), Told (ClientEntered 1),
   Sent 1 (Enter Right), Received 1 (Ack 0), Told (PeerAuthenticated 1 []), Told (PointerLeft LeftEdge None)]
  @ Sent 1 (Input (Keyboard (Key 0 30 1))) # []"
  by code_simp

theorem input_only_after_ack_witness:
  "entry_of [Told (CaptureEnabled Dummy), Connected 1, BackendCreate LeftEdge, Told (CaptureBegin 1 None),
     Told (ClientEntered 1), Sent 1 (Enter Right), Received 1 (Ack 0), Told (PeerAuthenticated 1 []),
     Told (PointerLeft LeftEdge None)] = Some (1, True)"
  using input_only_after_ack [OF demo_typed_reach demo_typed_trace] by (auto simp: is_release_input_def)

theorem presses_before_ack_are_replayed_witness:
  "\<exists>more. ic_trace (fst (active_message demo_cap_env 1 (Ack 0)
     (type_while_waiting LeftEdge [(demo_cap_env, Keyboard (Key 0 30 1)), (demo_cap_env, Keyboard (Key 0 30 0))] demo_waiting)))
   = more @ [Sent 1 (Input (Keyboard (Key 0 30 1))), Sent 1 (Input (Keyboard (Key 0 30 0)))]"
proof -
  have "chord_free [Keyboard (Key 0 30 1), Keyboard (Key 0 30 0)] demo_waiting" by code_simp
  then show ?thesis
    using presses_before_ack_are_replayed [OF demo_waiting_entering demo_waiting_state(3),
        of "[(demo_cap_env, Keyboard (Key 0 30 1)), (demo_cap_env, Keyboard (Key 0 30 0))]" demo_cap_env 0]
    by (auto simp: demo_cap_env_def is_press_def Let_def simp del: chord_free.simps)
qed

text \<open>A device that is entered at a known place is asked again, and then given up.\<close>

definition demo_entry_at :: "cap_op list" where
  "demo_entry_at = [OpRequest (Create 1 LeftEdge DefaultCapture), OpPoll (BackendEvent LeftEdge (Entry 1056964608)),
     OpPoll (BackendEvent LeftEdge Begin)]"

definition demo_waiting_at :: capture_task where
  "demo_waiting_at = cap_run demo_entry_at demo_session"

lemma demo_waiting_at_reach: "cap_reach True demo_waiting_at"
proof -
  have "cap_run_ok demo_entry_at demo_session" by code_simp
  then show ?thesis unfolding demo_waiting_at_def by (rule cap_run_reach [OF demo_session_reach])
qed

theorem unacknowledged_entry_is_given_up_witness:
  "(\<exists>pos. get_pos 1 demo_waiting_at = Some pos
      \<and> ct_active_client (fst (cap_deadline demo_cap_env demo_waiting_at)) = Some 1)
    \<and> ct_active_client (fst (cap_deadline demo_cap_env (fst (cap_deadline demo_cap_env demo_waiting_at)))) = None"
proof -
  have "ct_active_client demo_waiting_at = Some 1" "ct_state demo_waiting_at = WaitingForAck" by code_simp+
  moreover have "ct_entering_via demo_waiting_at = None \<and> ct_entry_along demo_waiting_at \<noteq> None \<and> \<not> ct_legacy_entry demo_waiting_at"
    by code_simp
  ultimately show ?thesis
    using unacknowledged_entry_is_given_up [OF demo_waiting_at_reach, of 1 demo_cap_env demo_cap_env]
    by (auto simp: Let_def send_def emit_def)
qed

theorem release_lifts_everything_witness:
  "ic_pressed_keys demo_typed = [30] \<and> ic_pressed_keys (fst (release_capture_at demo_cap_env None demo_typed)) = []
   \<and> Sent 1 (Input (Keyboard (Key 0 30 0))) \<in> set (ic_trace (fst (release_capture_at demo_cap_env None demo_typed)))"
proof -
  have "ct_active_client demo_typed = Some 1" by code_simp
  moreover have keys: "ic_pressed_keys demo_typed = [30]" "ic_pressed_buttons demo_typed = []" by code_simp+
  ultimately show ?thesis
    using release_lifts_everything [of demo_typed 1 demo_cap_env None]
    by (simp add: demo_cap_env_def Let_def)
qed

text \<open>A push is measured on the left edge when its barrier is destroyed.\<close>

definition demo_push :: "cap_op list" where
  "demo_push = [OpRequest (SetEdgePressure (Finite False 1)), OpRequest (Create 1 LeftEdge DefaultCapture),
     OpRequest (Create 2 RightEdge DefaultCapture), OpPoll (BackendEvent LeftEdge Begin)]"

definition demo_pushing :: capture_task where
  "demo_pushing = cap_run demo_push demo_session"

theorem destroyed_push_panics_witness:
  "snd (handle_capture_event demo_cap_env 2 Begin (fst (cap_destroy demo_cap_env 1 demo_pushing))) = Panicked"
proof -
  have "ct_pressure demo_pushing = Some (1, fp_zero, 1000)" by code_simp
  moreover have "ct_active_client demo_pushing \<noteq> Some 1" by code_simp
  moreover have "get_capture 2 demo_pushing \<noteq> None" by code_simp
  moreover have "\<not> keys_pressed (ct_release_bind demo_pushing) demo_pushing" by code_simp
  ultimately show ?thesis using destroyed_push_panics [of demo_pushing 1 fp_zero 1000 2] by simp
qed

theorem empty_release_bind_blocks_entry_witness:
  "ct_active_client (fst (handle_capture_event demo_cap_env 1 Begin
     (cap_run [OpRequest (SetReleaseBind []), OpRequest (Create 1 LeftEdge DefaultCapture)] demo_session))) = None"
proof -
  let ?ct = "cap_run [OpRequest (SetReleaseBind []), OpRequest (Create 1 LeftEdge DefaultCapture)] demo_session"
  have "cap_run_ok [OpRequest (SetReleaseBind []), OpRequest (Create 1 LeftEdge DefaultCapture)] demo_session"
    by code_simp
  then have "cap_reach True ?ct" by (rule cap_run_reach [OF demo_session_reach])
  moreover have "ct_active_client ?ct = None" by code_simp
  moreover have "ct_release_bind ?ct = []" by code_simp
  ultimately show ?thesis by (rule empty_release_bind_blocks_entry)
qed

text \<open>Input sharing is turned off between the two deliveries of one touch, to the incoming and to the outgoing
  barrier of the edge: the second delivery still enters the device, although no barrier is left.\<close>

theorem sharing_off_still_enters:
  "let ct = cap_run [OpRequest (Create 2 LeftEdge EnterOnly), OpRequest (Create 1 LeftEdge DefaultCapture),
        OpPoll (BackendEvent LeftEdge Begin), OpRequest (SetInputSharing False), OpPoll BackendPending] demo_session in
   \<not> ct_input_sharing ct \<and> ct_enabled_captures ct = [] \<and> ct_active_client ct = Some 1
   \<and> Sent 1 (Enter Right) \<in> set (ic_trace ct)"
  by code_simp

end
