(* ===== verification/Pointer_Owner.thy ===== *)
theory Pointer_Owner
  imports Capture_Properties
begin

text \<open>
  The capture task as a refinement of an abstract automaton: the pointer is at home, is entering a
  device, or is on a device. The automaton says who may move it: only a capture event (the user at the
  keyboard and mouse) starts an entry, only the acknowledgement of the entered device completes it, only the
  device that has the pointer may hand it on, and anything else can at most bring it home.
\<close>

datatype owner = Home | Entering capture_handle | On capture_handle

fun owner_at :: "capture_handle option \<Rightarrow> cap_state \<Rightarrow> owner" where
  "owner_at None state = Home"
| "owner_at (Some h) Sending = On h"
| "owner_at (Some h) WaitingForAck = Entering h"

definition owner_of :: "capture_task \<Rightarrow> owner" where
  "owner_of ct = owner_at (ct_active_client ct) (ct_state ct)"

inductive own_step :: "cap_op \<Rightarrow> owner \<Rightarrow> owner \<Rightarrow> bool" where
  stay: "own_step op owner owner"
| home: "own_step op owner Home"
| enter: "own_step (OpPoll backend) owner (Entering h)"
| ack: "own_step (OpRecv h fingerprint (Ack u)) (Entering h) (On h)"
| hand_on: "own_step (OpRecv h fingerprint (Handoff target side)) (On h) (Entering k)"

inductive_cases own_step_onE: "own_step op owner (On h)"

section \<open>Two relations between states\<close>

text \<open>\<open>quiet\<close>: the owner stays or the pointer goes home; \<open>touched\<close>: besides, an entry may begin. Both are
  kept along \<open>and_then\<close>.\<close>

definition quiet :: "capture_task \<Rightarrow> capture_task \<Rightarrow> bool" where
  "quiet ct ct' \<longleftrightarrow> owner_of ct' = owner_of ct \<or> owner_of ct' = Home"

definition touched :: "capture_task \<Rightarrow> capture_task \<Rightarrow> bool" where
  "touched ct ct' \<longleftrightarrow> owner_of ct' = owner_of ct \<or> owner_of ct' = Home \<or> (\<exists>h. owner_of ct' = Entering h)"

locale owner_relation =
  fixes R :: "capture_task \<Rightarrow> capture_task \<Rightarrow> bool"
  assumes refl: "owner_of ct' = owner_of ct \<Longrightarrow> R ct ct'"
    and homeward: "owner_of ct' = Home \<Longrightarrow> R ct ct'"
    and trans: "R ct ct' \<Longrightarrow> R ct' ct'' \<Longrightarrow> R ct ct''"
begin

lemma then_step:
  assumes "R ct (fst r)" and "\<And>s a. r = (s, Done a) \<Longrightarrow> R s (fst (f a s))"
  shows "R ct (fst (and_then r f))"
proof -
  obtain s a where r: "r = (s, a)" by (cases r)
  show ?thesis
  proof (cases a)
    case (Done x)
    then show ?thesis using assms r trans by auto
  qed (use assms r in simp_all)
qed

lemma view_step: "inv_view ct' = inv_view ct \<Longrightarrow> R ct ct'"
  by (rule refl) (simp add: owner_of_def inv_view_def)

lemma stop_step: "R ct (fst r) \<Longrightarrow> R ct (fst (stop_after r))"
  unfolding stop_after_def by (rule then_step) (simp_all add: refl)

lemma go_on_step: "R ct (fst r) \<Longrightarrow> R ct (fst (go_on r))"
  unfolding go_on_def by (rule then_step) (simp_all add: refl)

lemma send_step: "R ct (fst (send env h p ct))"
  by (rule refl) (simp add: owner_of_def send_def emit_def)

lemma release_step: "R ct (fst (ic_release ok ct'))" if "R ct ct'"
  by (rule trans [OF that view_step]) simp

lemma report_step: "R ct (fst (report_pressure env h x force ct'))" if "R ct ct'"
  by (rule trans [OF that refl])
    (simp add: report_pressure_def with_pos_def tell_def emit_def owner_of_def Let_def split: option.split)

lemma clear_step: "R ct (fst (clear_pressure env ct))"
  by (auto simp: clear_pressure_def refl owner_of_def split: option.split intro!: report_step)

lemma release_at_step: "R ct (fst (release_capture_at env landing ct'))"
proof (rule homeward)
  have w: "ct_active_client (fst (release_with env l along s)) = ct_active_client s" for l along s
    by (simp add: release_with_def ic_release_at_along_def ic_release_def emit_def backend_answer_def split: option.split)
  show "owner_of (fst (release_capture_at env landing ct')) = Home"
    by (auto simp: release_capture_at_def owner_of_def Let_def ic_take_pressed_keys_def ic_take_pressed_buttons_def w
        tell_def emit_def case_prod_unfold split: option.split outcome.split)
qed

lemma release_capture_step: "R ct (fst (release_capture env ct))"
  unfolding release_capture_def
  by (rule then_step [OF clear_step], rule then_step [OF release_at_step]) (simp add: refl)

lemma create_step: "R ct (fst (ic_create ok h pos ct'))" if "owner_of ct' = owner_of ct"
  by (rule refl) (use that in \<open>simp add: ic_create_def emit_def owner_of_def Let_def split: option.split\<close>)

lemma destroy_step: "R ct (fst (ic_destroy ok h ct'))" if "owner_of ct' = owner_of ct"
  by (rule refl) (use that in \<open>simp add: ic_destroy_def emit_def owner_of_def Let_def split: option.split\<close>)

lemma release_destroy_step:
  "R ct (fst (and_then (if active then release_capture env ct else (ct, Done ())) (\<lambda>_ ct.
    ic_destroy ok h (ct\<lparr>ct_enabled_captures := removeAll h (ct_enabled_captures ct)\<rparr>))))"
  by (rule then_step) (simp_all add: release_capture_step refl destroy_step owner_of_def)

end

context owner_relation
begin

lemma sync_one_step: "R ct (fst (sync_one env c ct))"
proof -
  obtain h pos kind where c: "c = (h, pos, kind)" by (cases c) auto
  let ?ct = "ct\<lparr>ct_enabled_captures := ct_enabled_captures ct @ [h]\<rparr>"
  obtain s a where r: "ic_create (ce_create_ok env) h pos ?ct = (s, a)" by (cases "ic_create (ce_create_ok env) h pos ?ct")
  have "R ct s" using create_step [of ?ct ct "ce_create_ok env" h pos] r by (simp add: owner_of_def)
  moreover have "R ct (s\<lparr>ct_enabled_captures := removeAll h (ct_enabled_captures s)\<rparr>)"
    by (rule trans [OF calculation refl]) (simp add: owner_of_def)
  ultimately show ?thesis
    using c r release_destroy_step [of ct "ct_active_client ct = Some h" env "ce_destroy_ok env" h]
    by (cases a) (simp_all add: sync_one_def refl)
qed

lemma sync_step: "R ct (fst (sync_captures env ct))"
proof -
  have "R ct (fst (sync_list env cs ct))" for cs ct
    by (induction cs arbitrary: ct) (simp_all add: refl then_step [OF sync_one_step])
  then show ?thesis by (simp add: sync_captures_def)
qed

lemma tail_step:
  assumes "R ct (fst r)" and "\<And>a s. inv_view (g a s) = inv_view s"
  shows "R ct (fst (and_then r (\<lambda>a s. (g a s, Done (v a s)))))"
  by (rule then_step [OF assms(1)]) (simp add: view_step assms(2))

lemma return_step: "R ct (fst (return_local_pointer env exit_along ct))"
proof -
  have home: "R ct (fst (and_then (clear_pressure env ct) (\<lambda>_ ct.
      and_then (release_capture_at env (Some edge) (ct\<lparr>ct_landing_along := Some along\<rparr>)) (\<lambda>_ ct. (ct, Done ())))))"
    for edge along
    by (rule then_step [OF clear_step], rule then_step [OF release_at_step]) (simp add: refl)
  have plain: "R ct (fst (and_then (release_capture env ct) (\<lambda>_ ct. (tell (PointerReturned edge along) ct, Done ()))))"
    for edge along
    by (rule then_step [OF release_capture_step]) (simp add: view_step)
  show ?thesis
    by (auto simp: return_local_pointer_def release_capture_step split: option.split
        intro!: tail_step [OF home] tail_step [OF plain])
qed

lemma deadline_step: "R ct (fst (cap_deadline env ct))"
proof -
  have "R ct (fst (legacy_entry_retry env ct))"
    by (rule refl) (simp add: legacy_entry_retry_def with_pos_def owner_of_def Let_def split: option.split)
  then show ?thesis
    unfolding cap_deadline_def
    by (rule then_step) (auto simp: send_step release_capture_step split: option.split)
qed

lemma request_step: "R ct (fst (cap_request env request ct))"
proof (cases request)
  case Release
  have "R ct (fst (cap_release_request env ct))"
    unfolding cap_release_request_def Let_def
    by (rule then_step [OF clear_step], rule then_step [OF release_at_step])
      (auto simp: owner_of_def tell_def emit_def split: option.split intro!: refl)
  then show ?thesis using Release by (simp add: cap_request_def go_on_step)
next
  case (SetController c)
  have "R ct (fst (release_capture env (ct\<lparr>ct_controller := c\<rparr>)))"
    by (rule trans [OF refl release_capture_step]) (simp add: owner_of_def)
  then show ?thesis using SetController by (simp add: cap_request_def go_on_step Let_def view_step)
next
  case (SetInputSharing b)
  have "R ct (fst (and_then (if \<not> b then release_capture env (ct\<lparr>ct_input_sharing := b\<rparr>)
      else (ct\<lparr>ct_input_sharing := b\<rparr>, Done ())) (\<lambda>_ ct. sync_captures env ct)))"
    by (rule then_step [OF _ sync_step])
      (simp add: view_step trans [OF view_step release_capture_step])
  then show ?thesis using SetInputSharing by (simp add: cap_request_def go_on_step)
next
  case (Create h pos kind)
  let ?ct = "if kind = DefaultCapture then emit (Connected h) (add_capture h pos kind ct) else add_capture h pos kind ct"
  have "R ct ?ct" by (rule refl) (simp add: owner_of_def emit_def add_capture_def)
  then have "R ct (fst (sync_captures env ?ct))" by (rule trans [OF _ sync_step])
  then show ?thesis using Create by (simp add: cap_request_def Let_def go_on_step)
next
  case (SetBackend b)
  have "R ct (fst (release_capture env (ct\<lparr>ct_backend := b, ct_restart_now := True\<rparr>)))"
    by (rule trans [OF view_step release_capture_step]) simp
  then have "R ct (fst (and_then (release_capture env (ct\<lparr>ct_backend := b, ct_restart_now := True\<rparr>)) (\<lambda>_ ct. (ct, Done True))))"
    by (rule then_step) (simp add: refl)
  then show ?thesis using SetBackend by (simp add: cap_request_def)
next
  case (Destroy h)
  let ?ct = "remove_capture h ct"
  have "R ct ?ct" by (rule refl) (simp add: owner_of_def removed_fields)
  moreover have "R ?ct (fst (and_then (if ct_active_client ?ct = Some h then release_capture env ?ct else (?ct, Done ())) (\<lambda>_ ct.
    ic_destroy (ce_destroy_ok env) h (ct\<lparr>ct_enabled_captures := removeAll h (ct_enabled_captures ct)\<rparr>))))"
    by (rule release_destroy_step)
  ultimately have "R ct (fst (cap_destroy env h ct))"
    unfolding cap_destroy_def Let_def by (auto intro: trans)
  then show ?thesis using Destroy by (simp add: cap_request_def go_on_step)
next
  case (SendProto h p)
  then show ?thesis by (simp add: cap_request_def send_proto_event_def send_step refl)
next
  case (SendClipboard h t d i)
  then show ?thesis by (simp add: cap_request_def view_step send_clipboard_view)
qed (simp_all add: cap_request_def refl view_step)

end

interpretation quiet: owner_relation quiet
  by unfold_locales (auto simp: quiet_def)

interpretation touched: owner_relation touched
  by unfold_locales (auto simp: touched_def)

section \<open>Capture events\<close>

lemma touched_entering: "ct_state ct' = WaitingForAck \<Longrightarrow> touched ct ct'"
  by (cases "ct_active_client ct'") (simp_all add: touched_def owner_of_def)

lemma screen_touched: "touched ct (fst (hce_screen env h event ct))"
proof -
  have peak: "touched ct (fst (and_then (report_pressure_peak env h ct) (\<lambda>_ ct.
      and_then (clear_pressure env ct) (\<lambda>_ ct. (ct, Done v)))))" for v :: "(capture_event \<times> bool) option"
    unfolding report_pressure_peak_def
    by (rule touched.then_step [OF touched.report_step [OF touched.refl]], rule HOL.refl,
        rule touched.then_step [OF touched.clear_step]) (simp add: touched.refl)
  have backed: "touched ct (fst (and_then (clear_pressure env ct) (\<lambda>_ ct. stop_after (ic_release ok ct))
      :: capture_task \<times> (capture_event \<times> bool) option outcome))" for ok
    by (rule touched.then_step [OF touched.clear_step], rule touched.stop_step, rule touched.release_step,
        rule touched.refl) simp
  have fresh: "touched ct (fst (and_then (clear_pressure env ct) (\<lambda>_ ct. (ct, Done v))))"
    for v :: "(capture_event \<times> bool) option"
    by (rule touched.then_step [OF touched.clear_step]) (simp add: touched.refl)
  have build: "touched ct (fst (stop_after (report_pressure env h x False (ct\<lparr>ct_pressure := p\<rparr>))
      :: capture_task \<times> (capture_event \<times> bool) option outcome))" for x p
    by (rule touched.stop_step, rule touched.report_step, rule touched.refl) (simp add: owner_of_def)
  have gone_away: "touched ct (fst (stop_after (release_capture env ct) :: capture_task \<times> (capture_event \<times> bool) option outcome))"
    by (rule touched.stop_step [OF touched.release_capture_step])
  have let_go: "touched ct (fst (stop_after (ic_release ok ct) :: capture_task \<times> (capture_event \<times> bool) option outcome))" for ok
    by (rule touched.stop_step, rule touched.release_step, rule touched.refl) simp
  have same: "touched ct ct" by (rule touched.refl) (rule HOL.refl)
  have motion: "touched ct (fst (with_pos h ct (\<lambda>pos. case pressure_at pos of
      Building amount \<Rightarrow> stop_after (report_pressure env h amount False (ct\<lparr>ct_pressure := p amount\<rparr>))
    | Reached \<Rightarrow> and_then (report_pressure_peak env h ct) (\<lambda>_ ct.
        and_then (clear_pressure env ct) (\<lambda>_ ct. (ct, Done v)))
    | Backed \<Rightarrow> and_then (clear_pressure env ct) (\<lambda>_ ct. stop_after (ic_release ok ct)))))"
    for pressure_at p ok and v :: "(capture_event \<times> bool) option"
    unfolding with_pos_def by (simp add: same peak backed build split: option.split pressure.split)
  have "touched ct (fst (hce_pressure env h event ct))"
  proof (cases "ct_pressure ct")
    case None
    then show ?thesis by (simp add: hce_pressure_def same)
  next
    case (Some p)
    obtain pending so_far since where p: "p = (pending, so_far, since)" by (cases p) auto
    show ?thesis
    proof (cases "pending = h \<and> (\<exists>t dx dy. event = CaptureInput (Pointer (Motion t dx dy)))")
      case True
      then show ?thesis using Some p motion by (auto simp: hce_pressure_def)
    next
      case False
      then show ?thesis
        using Some p by (auto simp: hce_pressure_def same gone_away fresh
            split: capture_event.split input_event.split pointer_event.split)
    qed
  qed
  moreover have "touched ct (ct\<lparr>ct_entry_along := x\<rparr>)" "touched ct (tell (FileClipboard h m d) ct)" for x m d
    by (rule touched.view_step, simp)+
  ultimately show ?thesis
    unfolding hce_screen_def by (cases event) (simp_all add: same gone_away let_go)
qed

lemma touch_touched: "touched ct (fst (hce_touch env h pos kind returning met ct))"
proof -
  have let_go: "touched ct (fst (stop_after (ic_release ok ct) :: capture_task \<times> unit option outcome))" for ok
    by (rule touched.stop_step, rule touched.release_step, rule touched.refl) simp
  have landed: "touched ct (fst (and_then (release_capture_at env landing ct) (\<lambda>placed ct.
      (case landing of Some edge \<Rightarrow> if placed then ct else tell (PlacePointer edge) ct | None \<Rightarrow> ct, Done v))))"
    for landing and v :: "unit option"
    by (rule touched.tail_step [OF touched.release_at_step]) (simp split: option.split)
  have passed: "touched ct (fst (and_then (ic_release ok (ct\<lparr>ct_last_pass := p\<rparr>)) (\<lambda>_ ct.
      (case ct_controller ct of
         Some (controller, _) \<Rightarrow> tell (HandOn controller controller side (ct_entry_along ct)) ct
       | None \<Rightarrow> ct, Done v))))" for ok p side and v :: "unit option"
    by (rule touched.tail_step [OF touched.release_step [OF touched.view_step]]) (simp_all split: option.split)
  have armed: "touched ct (ct\<lparr>ct_pressure := p\<rparr>)" for p
    by (rule touched.refl) (simp add: owner_of_def)
  have told: "touched ct (tell (CaptureBegin h along) ct)" for along
    by (rule touched.view_step) simp
  show ?thesis
    unfolding hce_touch_def Let_def by (simp only: let_go landed armed passed told simp_thms fst_conv split: if_split)
qed

lemma enter_touched: "touched ct (fst (hce_enter env h pos ct))"
proof -
  have passed: "touched ct (fst (and_then (ic_release ok (ct\<lparr>ct_last_pass := p\<rparr>)) (\<lambda>_ ct.
      (case (ct_controller ct, fingerprint) of
         (Some (controller, _), Some target) \<Rightarrow>
           tell (StepInside pos) (tell (HandOn controller target side (ct_entry_along ct)) ct)
       | _ \<Rightarrow> ct, Done v))))" for ok p side fingerprint and v :: "unit option"
    by (rule touched.tail_step [OF touched.release_step [OF touched.view_step]]) (auto split: option.split)
  show ?thesis
    unfolding hce_enter_def using passed by (simp add: touched.refl touched_entering)
qed

lemma send_or_release_touched:
  assumes "touched ct ct'" shows "touched ct (fst (send_or_release env h p ct'))"
  using touched.trans [OF assms touched.release_capture_step [of ct' env]] touched.trans [OF assms touched.send_step [of ct' env h p]]
  by (auto simp: send_or_release_def send_def)

lemma forward_touched: "touched ct (fst (hce_forward env h event ct))"
proof -
  have "touched ct (ct\<lparr>ct_entering_via := None\<rparr>)" by (rule touched.view_step) simp
  moreover have "touched ct (hold_until_ack e ct)" for e
    by (rule touched.refl) (simp add: hold_until_ack_def owner_of_def)
  ultimately show ?thesis
    by (auto simp: hce_forward_def with_pos_def touched.refl send_or_release_touched Let_def
        split: option.split capture_event.split cap_state.split)
qed

lemma route_touched: "touched ct (fst (hce_route env h pos kind event met ct))"
proof -
  have "touched s (fst (if \<not> is_default_capture_at pos s then ic_release ok s else (s, Done ())))" for s ok
    by (simp add: touched.refl touched.release_step)
  moreover have "touched s (fst (and_then (if event = Begin then hce_enter env h pos s else (s, Done (Some ())))
      (\<lambda>go ct. if go = None then (ct, Done ()) else hce_forward env h event ct)))" for s
    by (rule touched.then_step) (simp_all add: enter_touched touched.refl forward_touched)
  ultimately show ?thesis
    unfolding hce_route_def
    by (auto simp: touched.refl touch_touched split: option.split intro!: touched.then_step)
qed

lemma event_touched: "touched ct (fst (handle_capture_event env h event ct))"
  unfolding handle_capture_event_def
  by (rule touched.then_step [OF screen_touched]) (auto simp: touched.refl route_touched split: option.split)

lemma poll_touched: "touched ct (fst (cap_poll env backend ct))"
proof -
  obtain ct' p where r: "poll_next backend ct = (ct', p)" by (cases "poll_next backend ct")
  have "touched ct ct'" by (rule touched.view_step) (use poll_next_view [of backend ct] r in simp)
  moreover have "touched ct (fst (handle_capture_event env h e ct'))" for h e
    by (rule touched.trans [OF calculation event_touched])
  ultimately show ?thesis using r by (cases p) (simp_all add: cap_poll_def touched.go_on_step)
qed

section \<open>Messages\<close>

lemma quiet_same: "quiet ct ct"
  by (simp add: quiet_def)

lemma handoff_owner:
  "quiet ct (fst (handoff env from target side ct)) \<or> (\<exists>k. owner_of (fst (handoff env from target side ct)) = Entering k)"
proof -
  have home: "quiet ct (fst (and_then (release_capture_at env (Some edge) ct') (\<lambda>placed ct.
      (if placed then ct else tell (PlacePointer edge) ct, Done ()))))" for edge ct'
    by (rule quiet.tail_step [OF quiet.release_at_step]) simp
  have refused: "quiet ct (ct\<lparr>ic_trace := tr\<rparr>)" for tr by (rule quiet.refl) (simp add: owner_of_def)
  show ?thesis
    by (auto simp: handoff_def with_pos_def home refused quiet_same Let_def send_enter_def send_def emit_def tell_def
        owner_of_def split: option.split)
qed

lemma active_message_owner:
  assumes "ct_active_client ct = Some h"
  shows "quiet ct (fst (active_message env h p ct))
    \<or> (\<exists>u. p = Ack u) \<and> owner_of ct = Entering h \<and> owner_of (fst (active_message env h p ct)) = On h
    \<or> (\<exists>t s k. p = Handoff t s \<and> owner_of ct = On h \<and> owner_of (fst (active_message env h p ct)) = Entering k)"
proof (cases p)
  case (Ack u)
  have "owner_of (acknowledged env h ct) = On h"
    using assms by (auto simp: acknowledged_def owner_of_def tell_def emit_def Let_def split: option.split)
  then show ?thesis
    using Ack assms by (cases "ct_state ct") (simp_all add: active_message_def owner_of_def quiet_same)
next
  case (Handoff t s)
  have refused: "quiet ct (fst (with_pos h ct (\<lambda>edge. and_then (release_capture env ct)
      (\<lambda>_ ct. (tell (StepInside edge) ct, Done ())))))"
    unfolding with_pos_def
    by (auto simp: quiet_same split: option.split intro!: quiet.tail_step quiet.release_capture_step)
  show ?thesis
    using Handoff assms handoff_owner [of ct env h t s] refused
    by (cases "ct_state ct") (auto simp: active_message_def owner_of_def)
next
  case (Pong b)
  then show ?thesis by (cases b) (simp_all add: active_message_def quiet.release_capture_step quiet_same)
qed (simp_all add: active_message_def quiet.return_step quiet_same)

lemma recv_owner:
  "own_step (OpRecv h fingerprint p) (owner_of ct) (owner_of (fst (cap_recv env h fingerprint p ct)))"
proof -
  define ct1 where "ct1 = tell (PeerAuthenticated h fingerprint) (emit (Received h p) ct)"
  define ct2 where "ct2 = (case p of Pong _ \<Rightarrow> tell (PeerStateChanged h) ct1 | _ \<Rightarrow> ct1)"
  define ct3 where "ct3 = (if p = Pong False \<and> \<not> ce_peer_connected env h then tell (PeerLost h) ct2 else ct2)"
  have o1: "owner_of ct1 = owner_of ct" by (simp add: ct1_def owner_of_def tell_def emit_def)
  have "owner_of ct2 = owner_of ct1" by (simp add: ct2_def owner_of_def split: proto_event.split)
  then have o3: "owner_of ct3 = owner_of ct" using o1 by (simp add: ct3_def owner_of_def)
  have sync: "owner_of (fst (sync_captures env s)) = owner_of s \<or> owner_of (fst (sync_captures env s)) = Home" for s
    using quiet.sync_step [of s env] by (simp add: quiet_def)
  have body: "cap_recv env h fingerprint p ct =
    (if is_forwarded_protocol p then (tell (ClipboardReceived h fingerprint p) ct1, Done ())
     else if ct_active_client ct3 \<noteq> Some h then sync_captures env ct3
     else and_then (active_message env h p ct3) (\<lambda>_ ct. sync_captures env ct))"
    unfolding cap_recv_def ct1_def ct2_def ct3_def Let_def ..
  have after: "owner_of (fst (and_then (active_message env h p ct3) (\<lambda>_ ct. sync_captures env ct)))
    \<in> {owner_of (fst (active_message env h p ct3)), Home}"
    using sync by (cases "active_message env h p ct3"; cases "snd (active_message env h p ct3)") auto
  have message: "own_step (OpRecv h fingerprint p) (owner_of ct) (owner_of (fst (active_message env h p ct3)))"
    if "ct_active_client ct3 = Some h"
    using active_message_owner [OF that, of env p] o3
    by (auto simp: quiet_def intro: own_step.intros)
  show ?thesis
    using body after message o1 o3 sync [of ct3]
    by (auto simp: owner_of_def intro: own_step.intros)
qed

text \<open>C10: the capture task refines the automaton of the pointer's owner: every step of a session is a step of the
  automaton between the owners before and after.\<close>

theorem pointer_owner_refinement:
  "own_step op (owner_of ct) (owner_of (fst (session_step env op ct)))"
proof (cases op)
  case (OpPoll backend)
  then show ?thesis
    using poll_touched [of ct env backend] by (auto simp: session_step_def touched_def intro: own_step.intros)
next
  case (OpRecv h fingerprint p)
  have "fst (go_on (cap_recv env h fingerprint p ct)) = fst (cap_recv env h fingerprint p ct)"
    by (cases "cap_recv env h fingerprint p ct"; cases "snd (cap_recv env h fingerprint p ct)") (auto simp: go_on_def)
  then show ?thesis using OpRecv recv_owner by (simp add: session_step_def)
next
  case OpReconnect
  then show ?thesis using quiet.view_step [OF reconnect_view [of env ct]]
    by (auto simp: session_step_def quiet_def intro: own_step.intros)
next
  case OpDeadline
  then show ?thesis using quiet.go_on_step [OF quiet.deadline_step [of ct env]]
    by (auto simp: session_step_def quiet_def intro: own_step.intros)
next
  case (OpRequest request)
  then show ?thesis using quiet.request_step [of ct env request]
    by (auto simp: session_step_def quiet_def intro: own_step.intros)
next
  case OpCancel
  have "quiet ct (fst (and_then (release_capture env ct) (\<lambda>_ ct. (ct, Done True))))"
    by (rule quiet.tail_step [OF quiet.release_capture_step]) simp
  then show ?thesis using OpCancel by (auto simp: session_step_def quiet_def intro: own_step.intros)
qed

end
