(* ===== verification/Windows_Input.thy ===== *)
theory Windows_Input
  imports Capture_Types Scancode
begin

text \<open>
  The Windows platform: the low-level hooks of the capture thread
  (\<open>crates/syntra-input-capture/src/windows/event_thread.rs\<close>, \<open>display_util.rs\<close>) and the injection
  of received events (\<open>crates/syntra-input-emulation/src/windows.rs\<close>). A hook message is what its
  \<open>WPARAM\<close> compares equal to; coordinates are integers, since the code computes with \<open>i32\<close> values
  that do not overflow but for the displacement, whose wrap-around is written out (as in a release build; a debug build
  panics there). What \<open>EnumDisplaySettingsW\<close> reports and the state of the event channel (it has room, is full, or its receiver
  is gone) are arguments.
\<close>

section \<open>Displays\<close>

record rect =
  r_left :: int
  r_right :: int
  r_top :: int
  r_bottom :: int

type_synonym point = "int \<times> int"

definition is_within_dp_boundary :: "point \<Rightarrow> rect \<Rightarrow> edge \<Rightarrow> bool" where
  "is_within_dp_boundary p display pos = (case (p, pos) of
     ((x, y), LeftEdge) \<Rightarrow> r_left display \<le> x
   | ((x, y), RightEdge) \<Rightarrow> r_right display > x
   | ((x, y), TopEdge) \<Rightarrow> r_top display \<le> y
   | ((x, y), BottomEdge) \<Rightarrow> r_bottom display > y)"

definition all_edges :: "edge list" where
  "all_edges = [LeftEdge, RightEdge, TopEdge, BottomEdge]"

definition is_within_dp_region :: "point \<Rightarrow> rect \<Rightarrow> bool" where
  "is_within_dp_region p display \<longleftrightarrow> list_all (is_within_dp_boundary p display) all_edges"

definition in_bounds :: "point \<Rightarrow> rect list \<Rightarrow> edge \<Rightarrow> bool" where
  "in_bounds p displays pos \<longleftrightarrow> list_ex (\<lambda>d. is_within_dp_boundary p d pos) displays"

definition in_display_region :: "point \<Rightarrow> rect list \<Rightarrow> bool" where
  "in_display_region p displays \<longleftrightarrow> list_ex (is_within_dp_region p) displays"

definition moved_across_boundary :: "point \<Rightarrow> point \<Rightarrow> rect list \<Rightarrow> edge \<Rightarrow> bool" where
  "moved_across_boundary prev_pos curr_pos displays pos \<longleftrightarrow>
     in_display_region prev_pos displays \<and> \<not> in_bounds curr_pos displays pos"

definition entered_barrier :: "point \<Rightarrow> point \<Rightarrow> rect list \<Rightarrow> edge option" where
  "entered_barrier prev_pos curr_pos displays = find (moved_across_boundary prev_pos curr_pos displays) all_edges"

text \<open>\<open>Ord::clamp\<close> panics when the bounds are in the wrong order, \<open>unwrap\<close> when no display is found.\<close>

definition int_clamp :: "int \<Rightarrow> int \<Rightarrow> int \<Rightarrow> int option" where
  "int_clamp x lo hi = (if hi < lo then None else Some (max lo (min hi x)))"

definition clamp_to_display_bounds :: "rect list \<Rightarrow> point \<Rightarrow> point \<Rightarrow> point option" where
  "clamp_to_display_bounds display_regions prev_point p =
     (case find (is_within_dp_region prev_point) display_regions of
        None \<Rightarrow> None
      | Some display \<Rightarrow>
          (case (int_clamp (fst p) (r_left display) (r_right display - 1),
                 int_clamp (snd p) (r_top display) (r_bottom display - 1)) of
             (Some x, Some y) \<Rightarrow> Some (x, y)
           | _ \<Rightarrow> None))"

section \<open>Hook events\<close>

datatype win_message =
    WmMouseMove | WmLButtonDown | WmLButtonUp | WmMButtonDown | WmMButtonUp | WmRButtonDown | WmRButtonUp
  | WmXButtonDown | WmXButtonUp | WmMouseWheel | WmMouseHWheel
  | WmKeyDown | WmKeyUp | WmSysKeyDown | WmSysKeyUp | WmOther

definition BTN_LEFT :: u32 where "BTN_LEFT = 0x110"
definition BTN_RIGHT :: u32 where "BTN_RIGHT = 0x111"
definition BTN_MIDDLE :: u32 where "BTN_MIDDLE = 0x112"
definition BTN_BACK :: u32 where "BTN_BACK = 0x113"
definition BTN_FORWARD :: u32 where "BTN_FORWARD = 0x114"

lemmas btn_defs = BTN_LEFT_def BTN_RIGHT_def BTN_MIDDLE_def BTN_BACK_def BTN_FORWARD_def

definition to_key_event :: "win_message \<Rightarrow> u32 \<Rightarrow> bool \<Rightarrow> keyboard_event option" where
  "to_key_event msg scan_code extended =
     (case windows_try_from (if extended then or scan_code 0xE000 else scan_code) of
        None \<Rightarrow> None
      | Some win_scan_code \<Rightarrow>
          (case linux_of_windows win_scan_code of
             None \<Rightarrow> None
           | Some linux_scan_code \<Rightarrow>
               (case msg of
                  WmKeyDown \<Rightarrow> Some (Key 0 (word_of_nat linux_scan_code) 1)
                | WmKeyUp \<Rightarrow> Some (Key 0 (word_of_nat linux_scan_code) 0)
                | WmSysKeyDown \<Rightarrow> Some (Key 0 (word_of_nat linux_scan_code) 1)
                | WmSysKeyUp \<Rightarrow> Some (Key 0 (word_of_nat linux_scan_code) 0)
                | _ \<Rightarrow> None)))"

text \<open>The difference of two \<open>i32\<close> coordinates, which wraps.\<close>

definition i32_diff :: "int \<Rightarrow> int \<Rightarrow> int" where
  "i32_diff a b = sint (word_of_int (a - b) :: i32)"

definition to_mouse_event :: "point \<Rightarrow> win_message \<Rightarrow> point \<Rightarrow> u32 \<Rightarrow> pointer_event option" where
  "to_mouse_event entry_point msg pt mouse_data = (case msg of
     WmLButtonDown \<Rightarrow> Some (Button 0 BTN_LEFT 1)
   | WmMButtonDown \<Rightarrow> Some (Button 0 BTN_MIDDLE 1)
   | WmRButtonDown \<Rightarrow> Some (Button 0 BTN_RIGHT 1)
   | WmLButtonUp \<Rightarrow> Some (Button 0 BTN_LEFT 0)
   | WmMButtonUp \<Rightarrow> Some (Button 0 BTN_MIDDLE 0)
   | WmRButtonUp \<Rightarrow> Some (Button 0 BTN_RIGHT 0)
   | WmMouseMove \<Rightarrow>
       Some (Motion 0 (f64_bits_of_int (i32_diff (fst pt) (fst entry_point)))
                      (f64_bits_of_int (i32_diff (snd pt) (snd entry_point))))
   | WmMouseWheel \<Rightarrow> Some (AxisDiscrete120 0 (- signed_drop_bit 16 mouse_data))
   | WmXButtonDown \<Rightarrow>
       (if drop_bit 16 mouse_data = 1 then Some (Button 0 BTN_BACK 1)
        else if drop_bit 16 mouse_data = 2 then Some (Button 0 BTN_FORWARD 1) else None)
   | WmXButtonUp \<Rightarrow>
       (if drop_bit 16 mouse_data = 1 then Some (Button 0 BTN_BACK 0)
        else if drop_bit 16 mouse_data = 2 then Some (Button 0 BTN_FORWARD 0) else None)
   | WmMouseHWheel \<Rightarrow> Some (AxisDiscrete120 1 (signed_drop_bit 16 mouse_data))
   | _ \<Rightarrow> None)"

section \<open>The capture thread\<close>

datatype client_update = UpdateCreate edge | UpdateDestroy edge

record win_thread =
  wt_clients :: "edge list"
  wt_active :: "edge option"
  wt_entry_point :: point
  wt_prev_pos :: "point option"
  wt_displays :: "rect list"
  wt_generation :: i32
  wt_global_generation :: i32
  wt_requests :: "client_update list"
  wt_sent :: "(edge \<times> capture_event) list"

definition wt_new :: win_thread where
  "wt_new = \<lparr>wt_clients = [], wt_active = None, wt_entry_point = (0, 0), wt_prev_pos = None, wt_displays = [],
     wt_generation = 0, wt_global_generation = 1, wt_requests = [], wt_sent = []\<rparr>"

definition update_display_regions :: "rect list \<Rightarrow> win_thread \<Rightarrow> win_thread" where
  "update_display_regions enumerated wt =
     (if wt_generation wt \<noteq> wt_global_generation wt
      then wt\<lparr>wt_displays := enumerated, wt_generation := wt_global_generation wt\<rparr> else wt)"

definition window_proc :: "bool \<Rightarrow> win_thread \<Rightarrow> win_thread" where
  "window_proc display_change wt =
     (if display_change then wt\<lparr>wt_global_generation := wt_global_generation wt + 1\<rparr> else wt)"

definition update_clients :: "client_update \<Rightarrow> win_thread \<Rightarrow> win_thread" where
  "update_clients request wt = (case request of
     UpdateCreate pos \<Rightarrow> wt\<lparr>wt_clients := List.insert pos (wt_clients wt)\<rparr>
   | UpdateDestroy pos \<Rightarrow>
       wt\<lparr>wt_active := (if wt_active wt = Some pos then None else wt_active wt),
          wt_clients := removeAll pos (wt_clients wt)\<rparr>)"

definition client_update :: "client_update \<Rightarrow> win_thread \<Rightarrow> win_thread" where
  "client_update request wt = wt\<lparr>wt_requests := wt_requests wt @ [request]\<rparr>"

text \<open>A message of the thread's queue: release, or apply the buffered requests.\<close>

definition thread_release :: "win_thread \<Rightarrow> win_thread" where
  "thread_release wt = wt\<lparr>wt_active := None\<rparr>"

definition thread_update :: "win_thread \<Rightarrow> win_thread" where
  "thread_update wt = fold update_clients (wt_requests wt) (wt\<lparr>wt_requests := []\<rparr>)"

text \<open>The event channel. A \<open>blocking_send\<close> waits for room; on a channel whose receiver is gone it fails and the \<open>unwrap\<close> panics.\<close>

datatype channel = HasRoom | IsFull | IsClosed

text \<open>\<open>None\<close>: the clamping panicked, or the \<open>Begin\<close> could not be sent.\<close>

definition check_client_activation ::
  "channel \<Rightarrow> rect list \<Rightarrow> win_message \<Rightarrow> point \<Rightarrow> win_thread \<Rightarrow> (win_thread \<times> bool) option" where
  "check_client_activation chan enumerated msg curr_pos wt =
     (if msg \<noteq> WmMouseMove then Some (wt, wt_active wt \<noteq> None)
      else let prev_pos = (case wt_prev_pos wt of None \<Rightarrow> curr_pos | Some p \<Rightarrow> p);
               wt = wt\<lparr>wt_prev_pos := Some curr_pos\<rparr> in
        if wt_active wt \<noteq> None then Some (wt, True)
        else let wt = update_display_regions enumerated wt in
          case entered_barrier prev_pos curr_pos (wt_displays wt) of
            None \<Rightarrow> Some (wt, False)
          | Some pos \<Rightarrow>
              if pos \<notin> set (wt_clients wt) then Some (wt, False)
              else (case clamp_to_display_bounds (wt_displays wt) prev_pos curr_pos of
                      None \<Rightarrow> None
                    | Some entry_point \<Rightarrow>
                        if chan = IsClosed then None else
                        Some (wt\<lparr>wt_active := Some pos, wt_entry_point := entry_point,
                                 wt_sent := wt_sent wt @ [(pos, Begin)]\<rparr>, False)))"

text \<open>A hook passes the event on to the applications or swallows it.\<close>

datatype hook_result = PassOn | Swallow

definition mouse_proc ::
  "channel \<Rightarrow> rect list \<Rightarrow> win_message \<Rightarrow> point \<Rightarrow> u32 \<Rightarrow> win_thread \<Rightarrow> (win_thread \<times> hook_result) option" where
  "mouse_proc chan enumerated msg pt mouse_data wt =
     (case check_client_activation chan enumerated msg pt wt of
        None \<Rightarrow> None
      | Some (wt, active) \<Rightarrow>
          if \<not> active then Some (wt, PassOn)
          else case wt_active wt of
            None \<Rightarrow> Some (wt, Swallow)
          | Some pos \<Rightarrow>
              (case to_mouse_event (wt_entry_point wt) msg pt mouse_data of
                 None \<Rightarrow> Some (wt, Swallow)
               | Some pointer_event \<Rightarrow>
                   Some (if chan = HasRoom then wt\<lparr>wt_sent := wt_sent wt @ [(pos, CaptureInput (Pointer pointer_event))]\<rparr> else wt,
                         Swallow)))"

definition kybrd_proc :: "channel \<Rightarrow> win_message \<Rightarrow> u32 \<Rightarrow> bool \<Rightarrow> win_thread \<Rightarrow> win_thread \<times> hook_result" where
  "kybrd_proc chan msg scan_code extended wt =
     (case wt_active wt of
        None \<Rightarrow> (wt, PassOn)
      | Some client \<Rightarrow>
          (case to_key_event msg scan_code extended of
             None \<Rightarrow> (wt, Swallow)
           | Some key_event \<Rightarrow>
               (if chan = HasRoom then wt\<lparr>wt_sent := wt_sent wt @ [(client, CaptureInput (Keyboard key_event))]\<rparr> else wt,
                Swallow)))"

section \<open>Injection\<close>

datatype mouse_flag =
    LeftDown | LeftUp | RightDown | RightUp | MiddleDown | MiddleUp | XDown | XUp | WheelFlag | HWheelFlag | MoveFlag

datatype injected =
    MouseInput int int u32 mouse_flag
  | KeyboardInput u16 bool bool

definition rel_mouse :: "int \<Rightarrow> int \<Rightarrow> injected" where
  "rel_mouse dx dy = MouseInput dx dy 0 MoveFlag"

definition mouse_button_flag :: "u32 \<Rightarrow> u32 \<Rightarrow> mouse_flag option" where
  "mouse_button_flag button state =
     (if state = 0 then
        (if button = BTN_LEFT then Some LeftUp else if button = BTN_RIGHT then Some RightUp
         else if button = BTN_MIDDLE then Some MiddleUp
         else if button = BTN_BACK then Some XUp else if button = BTN_FORWARD then Some XUp else None)
      else if state = 1 then
        (if button = BTN_LEFT then Some LeftDown else if button = BTN_RIGHT then Some RightDown
         else if button = BTN_MIDDLE then Some MiddleDown
         else if button = BTN_BACK then Some XDown else if button = BTN_FORWARD then Some XDown else None)
      else None)"

text \<open>\<open>XBUTTON1\<close> and \<open>XBUTTON2\<close> are constants of the Windows bindings.\<close>

definition mouse_button :: "u32 \<Rightarrow> u32 \<Rightarrow> u32 \<Rightarrow> u32 \<Rightarrow> injected option" where
  "mouse_button xbutton1 xbutton2 button state = (case mouse_button_flag button state of
     None \<Rightarrow> None
   | Some dw_flags \<Rightarrow>
       Some (MouseInput 0 0 (if button = BTN_BACK then xbutton1 else if button = BTN_FORWARD then xbutton2 else 0)
               dw_flags))"

definition scroll :: "u8 \<Rightarrow> i32 \<Rightarrow> injected option" where
  "scroll axis value =
     (if axis = 0 then Some (MouseInput 0 0 (- value) WheelFlag)
      else if axis = 1 then Some (MouseInput 0 0 (- value) HWheelFlag)
      else None)"

definition linux_keycode_to_windows_scancode :: "u32 \<Rightarrow> u16 option" where
  "linux_keycode_to_windows_scancode linux_keycode =
     (case linux_try_from linux_keycode of
        None \<Rightarrow> None
      | Some linux_scancode \<Rightarrow>
          (case windows_of_linux linux_scancode of
             None \<Rightarrow> None | Some windows_scancode \<Rightarrow> Some (word_of_nat windows_scancode)))"

definition key_event :: "u32 \<Rightarrow> u8 \<Rightarrow> injected option" where
  "key_event key state = (case linux_keycode_to_windows_scancode key of
     None \<Rightarrow> None
   | Some scancode \<Rightarrow> Some (KeyboardInput (and scancode 0xFF) (scancode > 0xFF) (state = 0)))"

text \<open>The emulation keeps the key that its repeat task types again, if any.\<close>

record win_emulation =
  we_repeat :: "u32 option"

definition kill_repeat_task :: "win_emulation \<Rightarrow> win_emulation" where
  "kill_repeat_task we = we\<lparr>we_repeat := None\<rparr>"

definition spawn_repeat_task :: "u32 \<Rightarrow> win_emulation \<Rightarrow> win_emulation" where
  "spawn_repeat_task key we = (kill_repeat_task we)\<lparr>we_repeat := Some key\<rparr>"

definition repeat_tick :: "win_emulation \<Rightarrow> injected option" where
  "repeat_tick we = (case we_repeat we of None \<Rightarrow> None | Some key \<Rightarrow> key_event key 1)"

definition consume :: "u32 \<Rightarrow> u32 \<Rightarrow> input_event \<Rightarrow> win_emulation \<Rightarrow> win_emulation \<times> injected option" where
  "consume xbutton1 xbutton2 event we = (case event of
     Pointer (Motion _ dx dy) \<Rightarrow>
       (we, Some (rel_mouse (f64_to_i32 (f64_of_bits dx)) (f64_to_i32 (f64_of_bits dy))))
   | Pointer (Button _ button state) \<Rightarrow> (we, mouse_button xbutton1 xbutton2 button state)
   | Pointer (Axis _ axis value) \<Rightarrow> (we, scroll axis (word_of_int (f64_to_i32 (f64_of_bits value))))
   | Pointer (AxisDiscrete120 axis value) \<Rightarrow> (we, scroll axis value)
   | Keyboard (Key _ key state) \<Rightarrow>
       (if state = 0 then kill_repeat_task we else if state = 1 then spawn_repeat_task key we else we,
        key_event key state)
   | Keyboard (Modifiers _ _ _ _) \<Rightarrow> (we, None))"

section \<open>Round trips\<close>

text \<open>C31: a key captured on one Windows device, with a scan code of one byte, is the key injected on another: the same scan code, with the same
  extended flag, pressed or released. The three codes without a Linux code of their own are left out.\<close>

theorem windows_key_roundtrip:
  assumes sc: "scan_code < 0x100" and key: "to_key_event msg scan_code extended = Some (Key t k state)"
    and own: "unat scan_code + (if extended then 0xE000 else 0) \<notin> {0xFF, 0xE036, 0xE06D}"
  shows "key_event k state = Some (KeyboardInput (word_of_nat (unat scan_code)) extended (state = 0))"
proof -
  let ?w = "unat scan_code + (if extended then 0xE000 else 0)"
  have small: "unat scan_code < 256" using sc by (simp add: word_less_nat_alt)
  obtain w l where w: "windows_try_from (if extended then or scan_code 0xE000 else scan_code) = Some w"
    and l: "linux_of_windows w = Some l" and k: "k = word_of_nat l"
    using key by (auto simp: to_key_event_def split: option.splits win_message.splits)
  have "w = ?w" using windows_try_from_SomeD [OF w] extended_code [OF sc] by auto
  then have "w \<in> set windows_codes" "w \<notin> {0xFF, 0xE036, 0xE06D}"
    using windows_try_from_SomeD [OF w] own by auto
  then obtain l' where "linux_of_windows w = Some l'" "l' < 250" "windows_of_linux l' = Some w"
    by (rule windows_roundtrip)
  with l have "l < 250" "windows_of_linux l = Some w" by auto
  then have code: "linux_keycode_to_windows_scancode k = Some (word_of_nat w)"
    using k by (simp add: linux_keycode_to_windows_scancode_def)
  have "w < 2 ^ 16" using \<open>w = ?w\<close> small by (auto split: if_splits)
  then have u: "unat (word_of_nat w :: u16) = w" by (simp add: unat_of_nat)
  have "w mod 256 = unat scan_code" using \<open>w = ?w\<close> small by (auto simp: mod_add_eq [symmetric])
  then have "and (word_of_nat w :: u16) 0xFF = word_of_nat (unat scan_code)" by (simp add: low_byte u)
  moreover have "(word_of_nat w > (0xFF :: u16)) = (255 < w)" by (simp add: word_less_nat_alt u)
  then have "(word_of_nat w > (0xFF :: u16)) = extended" using \<open>w = ?w\<close> small by (simp split: if_splits)
  ultimately show ?thesis using code by (simp add: key_event_def)
qed

text \<open>What injecting a captured mouse event should do: what the hook saw, with the wheel delta in the high
  word of its data.\<close>

definition same_input :: "point \<Rightarrow> win_message \<Rightarrow> point \<Rightarrow> u32 \<Rightarrow> injected option" where
  "same_input entry_point msg pt mouse_data = (case msg of
     WmMouseMove \<Rightarrow> Some (MouseInput (i32_diff (fst pt) (fst entry_point)) (i32_diff (snd pt) (snd entry_point)) 0 MoveFlag)
   | WmLButtonDown \<Rightarrow> Some (MouseInput 0 0 0 LeftDown)
   | WmLButtonUp \<Rightarrow> Some (MouseInput 0 0 0 LeftUp)
   | WmMButtonDown \<Rightarrow> Some (MouseInput 0 0 0 MiddleDown)
   | WmMButtonUp \<Rightarrow> Some (MouseInput 0 0 0 MiddleUp)
   | WmRButtonDown \<Rightarrow> Some (MouseInput 0 0 0 RightDown)
   | WmRButtonUp \<Rightarrow> Some (MouseInput 0 0 0 RightUp)
   | WmXButtonDown \<Rightarrow> Some (MouseInput 0 0 (drop_bit 16 mouse_data) XDown)
   | WmXButtonUp \<Rightarrow> Some (MouseInput 0 0 (drop_bit 16 mouse_data) XUp)
   | WmMouseWheel \<Rightarrow> Some (MouseInput 0 0 (signed_drop_bit 16 mouse_data) WheelFlag)
   | WmMouseHWheel \<Rightarrow> Some (MouseInput 0 0 (signed_drop_bit 16 mouse_data) HWheelFlag)
   | _ \<Rightarrow> None)"

lemma i32_diff_roundtrip: "f64_to_i32 (f64_of_bits (f64_bits_of_int (i32_diff a b))) = i32_diff a b"
proof (rule i32_roundtrip)
  show "- (2 ^ 31) \<le> i32_diff a b"
    using sint_greater_eq [of "word_of_int (a - b) :: i32"] by (simp add: i32_diff_def)
  show "i32_diff a b < 2 ^ 31"
    using sint_less [of "word_of_int (a - b) :: i32"] by (simp add: i32_diff_def)
qed

text \<open>A mouse event captured on one Windows device, other than of the horizontal wheel, is the event injected on
  another: the same button, the same displacement, the same turn of the wheel.\<close>

theorem windows_mouse_roundtrip:
  assumes captured: "to_mouse_event entry_point msg pt mouse_data = Some event" and "msg \<noteq> WmMouseHWheel"
    and xbuttons: "xbutton1 = 1" "xbutton2 = 2"
  shows "snd (consume xbutton1 xbutton2 (Pointer event) we) = same_input entry_point msg pt mouse_data"
  using assms
  by (cases msg)
    (auto simp: to_mouse_event_def same_input_def consume_def rel_mouse_def mouse_button_def mouse_button_flag_def
      scroll_def btn_defs i32_diff_roundtrip split: if_splits)

text \<open>The capture reports a turn to the right as positive, and Windows injects a positive turn as one to the right; the
  emulation negates it all the same.\<close>

theorem horizontal_wheel_reversed:
  assumes "to_mouse_event entry_point WmMouseHWheel pt mouse_data = Some event"
    and "signed_drop_bit 16 mouse_data = (120 :: i32)"
  shows "same_input entry_point WmMouseHWheel pt mouse_data = Some (MouseInput 0 0 120 HWheelFlag)
    \<and> snd (consume xbutton1 xbutton2 (Pointer event) we) = Some (MouseInput 0 0 (- 120) HWheelFlag)"
  using assms by (auto simp: to_mouse_event_def same_input_def consume_def scroll_def)

text \<open>The scan code of the pause key has three bytes, of which the emulation keeps two.\<close>

theorem pause_scancode_truncated:
  "windows_of_linux 119 = Some 0xE11D45 \<and> key_event 119 1 = Some (KeyboardInput 0x45 True False)
   \<and> 0x1D45 \<notin> set windows_codes"
proof -
  have w: "windows_of_linux 119 = Some 0xE11D45" unfolding windows_of_linux_def by simp
  moreover have "linux_try_from 119 = Some 119" using linux_try_from_code [of 119] by simp
  ultimately have "key_event 119 1 = Some (KeyboardInput 0x45 True False)"
    by (simp add: key_event_def linux_keycode_to_windows_scancode_def)
  moreover have "0x1D45 \<notin> set windows_codes" unfolding windows_codes_def list.set insert_iff by simp
  ultimately show ?thesis using w by simp
qed

section \<open>The hooks\<close>

lemma entered_barrier_region: "entered_barrier p q displays = Some pos \<Longrightarrow> in_display_region p displays"
  by (auto simp: entered_barrier_def moved_across_boundary_def all_edges_def split: if_splits)

lemma region_iff:
  "is_within_dp_region (x, y) d \<longleftrightarrow> r_left d \<le> x \<and> x < r_right d \<and> r_top d \<le> y \<and> y < r_bottom d"
  by (auto simp: is_within_dp_region_def is_within_dp_boundary_def all_edges_def)

lemma clamp_inside:
  assumes "in_display_region p displays"
  obtains e where "clamp_to_display_bounds displays p q = Some e" and "in_display_region e displays"
proof -
  obtain d where d: "find (is_within_dp_region p) displays = Some d"
    using assms by (cases "find (is_within_dp_region p) displays")
      (auto simp: in_display_region_def list_ex_iff find_None_iff)
  then have "is_within_dp_region p d" and mem: "d \<in> set displays"
    by (auto simp: find_Some_iff)
  then have bounds: "r_left d < r_right d" "r_top d < r_bottom d"
    by (cases p; auto simp: region_iff)+
  let ?e = "(max (r_left d) (min (r_right d - 1) (fst q)), max (r_top d) (min (r_bottom d - 1) (snd q)))"
  have "clamp_to_display_bounds displays p q = Some ?e"
    using d bounds by (simp add: clamp_to_display_bounds_def int_clamp_def)
  moreover have "in_display_region ?e displays"
    using mem bounds by (auto simp: in_display_region_def list_ex_iff region_iff intro!: bexI [of _ d])
  ultimately show thesis by (rule that)
qed

inductive wt_reach :: "win_thread \<Rightarrow> bool" where
  new: "wt_reach wt_new"
| mouse: "wt_reach wt \<Longrightarrow> mouse_proc chan enumerated msg pt mouse_data wt = Some (wt', r) \<Longrightarrow> wt_reach wt'"
| keyboard: "wt_reach wt \<Longrightarrow> kybrd_proc chan msg scan_code extended wt = (wt', r) \<Longrightarrow> wt_reach wt'"
| window: "wt_reach wt \<Longrightarrow> wt_reach (window_proc display_change wt)"
| request: "wt_reach wt \<Longrightarrow> wt_reach (client_update update wt)"
| updated: "wt_reach wt \<Longrightarrow> wt_reach (thread_update wt)"
| released: "wt_reach wt \<Longrightarrow> wt_reach (thread_release wt)"

text \<open>The edge of the last \<open>Begin\<close> that was sent.\<close>

definition last_begin :: "(edge \<times> capture_event) list \<Rightarrow> edge option" where
  "last_begin sent = map_option fst (find (\<lambda>(_, e). e = Begin) (rev sent))"

definition inputs_follow_begin :: "(edge \<times> capture_event) list \<Rightarrow> bool" where
  "inputs_follow_begin sent \<longleftrightarrow>
     (\<forall>pre pos e post. sent = pre @ (pos, CaptureInput e) # post \<longrightarrow> last_begin pre = Some pos)"

definition wt_inv :: "win_thread \<Rightarrow> bool" where
  "wt_inv wt \<longleftrightarrow> inputs_follow_begin (wt_sent wt) \<and>
     (\<forall>pos. wt_active wt = Some pos \<longrightarrow> pos \<in> set (wt_clients wt) \<and> last_begin (wt_sent wt) = Some pos)"

lemma last_begin_snoc [simp]:
  "last_begin (sent @ [(pos, Begin)]) = Some pos" "last_begin (sent @ [(pos, CaptureInput e)]) = last_begin sent"
  by (simp_all add: last_begin_def)

lemma inputs_follow_begin_snoc:
  assumes "inputs_follow_begin sent" and "\<And>e. snd x = CaptureInput e \<Longrightarrow> last_begin sent = Some (fst x)"
  shows "inputs_follow_begin (sent @ [x])"
  unfolding inputs_follow_begin_def
proof (intro allI impI)
  fix pre pos e post assume eq: "sent @ [x] = pre @ (pos, CaptureInput e) # post"
  show "last_begin pre = Some pos"
  proof (cases post rule: rev_cases)
    case Nil
    then show ?thesis using eq assms(2) by simp
  next
    case (snoc ys y)
    then have "sent = pre @ (pos, CaptureInput e) # ys" using eq by simp
    then show ?thesis using assms(1) unfolding inputs_follow_begin_def by blast
  qed
qed

lemma follow_begin: "inputs_follow_begin sent \<Longrightarrow> inputs_follow_begin (sent @ [(pos, Begin)])"
  by (rule inputs_follow_begin_snoc) simp_all

lemma follow_input:
  "inputs_follow_begin sent \<Longrightarrow> last_begin sent = Some pos \<Longrightarrow> inputs_follow_begin (sent @ [(pos, CaptureInput e)])"
  by (rule inputs_follow_begin_snoc) simp_all

text \<open>The registered barrier that a movement enters while no client is active.\<close>

definition enters :: "rect list \<Rightarrow> win_message \<Rightarrow> point \<Rightarrow> win_thread \<Rightarrow> edge option" where
  "enters enumerated msg pt wt =
     (if msg = WmMouseMove \<and> wt_active wt = None
      then (case entered_barrier (case wt_prev_pos wt of None \<Rightarrow> pt | Some p \<Rightarrow> p) pt
                   (wt_displays (update_display_regions enumerated wt)) of
              Some pos \<Rightarrow> if pos \<in> set (wt_clients wt) then Some pos else None
            | None \<Rightarrow> None)
      else None)"

text \<open>What activation does: nothing to the sent events, or a registered client becomes active and is told so, which panics
  exactly if the channel is closed.\<close>

lemma activation_idle:
  assumes "enters enumerated msg pt wt = None"
  shows "\<exists>wt'. check_client_activation chan enumerated msg pt wt = Some (wt', wt_active wt \<noteq> None)
    \<and> wt_clients wt' = wt_clients wt \<and> wt_active wt' = wt_active wt \<and> wt_sent wt' = wt_sent wt"
proof -
  have "wt_displays (update_display_regions enumerated (wt\<lparr>wt_prev_pos := Some pt\<rparr>)) = wt_displays (update_display_regions enumerated wt)"
    by (simp add: update_display_regions_def)
  then show ?thesis using assms
    by (auto simp: check_client_activation_def enters_def update_display_regions_def Let_def split: if_splits option.splits)
qed

lemma activation_enters:
  assumes "enters enumerated msg pt wt = Some pos"
  shows "wt_active wt = None \<and> pos \<in> set (wt_clients wt) \<and>
    (if chan = IsClosed then check_client_activation chan enumerated msg pt wt = None
     else \<exists>wt'. check_client_activation chan enumerated msg pt wt = Some (wt', False)
       \<and> wt_clients wt' = wt_clients wt \<and> wt_active wt' = Some pos \<and> wt_sent wt' = wt_sent wt @ [(pos, Begin)]
       \<and> in_display_region (wt_entry_point wt') (wt_displays wt'))"
proof -
  let ?prev = "case wt_prev_pos wt of None \<Rightarrow> pt | Some p \<Rightarrow> p"
  let ?wt = "update_display_regions enumerated (wt\<lparr>wt_prev_pos := Some pt\<rparr>)"
  have disp: "wt_displays ?wt = wt_displays (update_display_regions enumerated wt)" by (simp add: update_display_regions_def)
  have idle: "msg = WmMouseMove" "wt_active wt = None" and pos: "pos \<in> set (wt_clients wt)"
    and bar: "entered_barrier ?prev pt (wt_displays ?wt) = Some pos"
    using assms disp by (auto simp: enters_def split: if_splits option.splits)
  obtain e where e: "clamp_to_display_bounds (wt_displays ?wt) ?prev pt = Some e" "in_display_region e (wt_displays ?wt)"
    using clamp_inside [OF entered_barrier_region [OF bar]] .
  have same: "wt_clients ?wt = wt_clients wt" "wt_active ?wt = None" "wt_sent ?wt = wt_sent wt"
    using idle by (simp_all add: update_display_regions_def)
  have "check_client_activation chan enumerated msg pt wt = (if chan = IsClosed then None else
      Some (?wt\<lparr>wt_active := Some pos, wt_entry_point := e, wt_sent := wt_sent ?wt @ [(pos, Begin)]\<rparr>, False))"
    using idle same pos e bar by (simp add: check_client_activation_def Let_def)
  with idle pos same e(2) show ?thesis by (cases "chan = IsClosed") simp_all
qed

lemma mouse_proc_panics:
  "mouse_proc chan enumerated msg pt mouse_data wt = None \<longleftrightarrow> chan = IsClosed \<and> enters enumerated msg pt wt \<noteq> None"
proof (cases "enters enumerated msg pt wt")
  case None
  with activation_idle [OF None, of chan] show ?thesis
    by (auto simp: mouse_proc_def split: option.split)
next
  case (Some pos)
  with activation_enters [OF Some, of chan] show ?thesis by (auto simp: mouse_proc_def split: if_splits)
qed

lemma mouse_proc_step:
  assumes inv: "wt_inv wt" and step: "mouse_proc chan enumerated msg pt mouse_data wt = Some (wt', r)"
  shows "wt_inv wt' \<and> (r = PassOn \<longleftrightarrow> wt_active wt = None)"
proof (cases "enters enumerated msg pt wt")
  case (Some pos)
  then have "chan \<noteq> IsClosed" using step mouse_proc_panics [of chan enumerated msg pt mouse_data wt] by auto
  with activation_enters [OF Some, of chan] obtain w where w: "wt_active wt = None" "pos \<in> set (wt_clients wt)"
    "check_client_activation chan enumerated msg pt wt = Some (w, False)" "wt_clients w = wt_clients wt" "wt_active w = Some pos"
    "wt_sent w = wt_sent wt @ [(pos, Begin)]" by auto
  moreover have "wt' = w" "r = PassOn" using step w(3) by (simp_all add: mouse_proc_def)
  ultimately show ?thesis using inv by (auto simp: wt_inv_def follow_begin)
next
  case None
  with activation_idle [OF None, of chan] obtain w where w: "check_client_activation chan enumerated msg pt wt = Some (w, wt_active wt \<noteq> None)"
    "wt_clients w = wt_clients wt" "wt_active w = wt_active wt" "wt_sent w = wt_sent wt" by auto
  then have inv': "wt_inv w" using inv by (simp add: wt_inv_def)
  show ?thesis
  proof (cases "wt_active wt")
    case None
    with w step inv' show ?thesis by (simp add: mouse_proc_def)
  next
    case (Some pos)
    then have "wt_active w = Some pos" using w by simp
    with w step inv' Some show ?thesis
      by (auto simp: mouse_proc_def wt_inv_def follow_input split: option.splits if_splits)
  qed
qed

lemma kybrd_proc_inv: "wt_inv wt \<Longrightarrow> wt_inv (fst (kybrd_proc chan msg scan_code extended wt))"
  by (auto simp: kybrd_proc_def wt_inv_def follow_input split: option.split)

lemma update_clients_inv: "wt_inv wt \<Longrightarrow> wt_inv (update_clients u wt)"
  by (cases u) (auto simp: update_clients_def wt_inv_def)

lemma fold_update_clients_inv: "wt_inv wt \<Longrightarrow> wt_inv (fold update_clients us wt)"
  by (induction us arbitrary: wt) (simp_all add: update_clients_inv)

lemma wt_reach_inv: "wt_reach wt \<Longrightarrow> wt_inv wt"
proof (induction rule: wt_reach.induct)
  case new
  then show ?case by (simp add: wt_new_def wt_inv_def inputs_follow_begin_def)
next
  case (mouse wt chan enumerated msg pt mouse_data wt' r)
  then show ?case using mouse_proc_step by blast
next
  case (keyboard wt chan msg scan_code extended wt' r)
  then show ?case using kybrd_proc_inv [of wt chan msg scan_code extended] by simp
next
  case (updated wt)
  then have "wt_inv (wt\<lparr>wt_requests := []\<rparr>)" by (simp add: wt_inv_def)
  then show ?case by (simp add: thread_update_def fold_update_clients_inv)
qed (auto simp: window_proc_def client_update_def thread_release_def wt_inv_def)

text \<open>C30: the hooks of the capture thread, in every reachable state. The mouse hook panics exactly when a movement enters the
  barrier of a registered client while the receiver of the event channel is gone; otherwise both hooks hide an event from the local
  applications exactly when a client was active before it. Only a registered client is active, and input is reported
  only for the edge whose \<open>Begin\<close> was reported last.\<close>

theorem windows_capture_contract:
  assumes "wt_reach wt"
  shows "(mouse_proc chan enumerated msg pt mouse_data wt = None \<longleftrightarrow> chan = IsClosed \<and> enters enumerated msg pt wt \<noteq> None)
    \<and> (\<forall>wt' r. mouse_proc chan enumerated msg pt mouse_data wt = Some (wt', r) \<longrightarrow> (r = PassOn \<longleftrightarrow> wt_active wt = None))
    \<and> (snd (kybrd_proc chan msg scan_code extended wt) = PassOn \<longleftrightarrow> wt_active wt = None)
    \<and> (\<forall>pos. wt_active wt = Some pos \<longrightarrow> pos \<in> set (wt_clients wt))
    \<and> (\<forall>pre pos e post. wt_sent wt = pre @ (pos, CaptureInput e) # post \<longrightarrow> last_begin pre = Some pos)"
proof -
  have inv: "wt_inv wt" by (rule wt_reach_inv [OF assms])
  have mouse: "\<forall>wt' r. mouse_proc chan enumerated msg pt mouse_data wt = Some (wt', r) \<longrightarrow> (r = PassOn \<longleftrightarrow> wt_active wt = None)"
    using mouse_proc_step [OF inv] by blast
  have keys: "snd (kybrd_proc chan msg scan_code extended wt) = PassOn \<longleftrightarrow> wt_active wt = None"
    by (simp add: kybrd_proc_def split: option.split)
  have "\<forall>pos. wt_active wt = Some pos \<longrightarrow> pos \<in> set (wt_clients wt)" "inputs_follow_begin (wt_sent wt)"
    using inv by (simp_all add: wt_inv_def)
  then show ?thesis using mouse_proc_panics mouse keys unfolding inputs_follow_begin_def by (intro conjI)
qed

section \<open>A run\<close>

definition demo_screen :: rect where
  "demo_screen = \<lparr>r_left = 0, r_right = 1920, r_top = 0, r_bottom = 1080\<rparr>"

definition demo_hooks :: win_thread where
  "demo_hooks =
     (let wt = thread_update (client_update (UpdateCreate LeftEdge) wt_new);
          wt = fst (the (mouse_proc HasRoom [demo_screen] WmMouseMove (5, 500) 0 wt));
          wt = fst (the (mouse_proc HasRoom [demo_screen] WmMouseMove (- 3, 500) 0 wt)) in
      fst (kybrd_proc HasRoom WmKeyDown 0x1E False wt))"

lemma mouse_reach:
  assumes "wt_reach wt" shows "wt_reach (fst (the (mouse_proc HasRoom enumerated msg pt mouse_data wt)))"
proof -
  obtain wt' r where m: "mouse_proc HasRoom enumerated msg pt mouse_data wt = Some (wt', r)"
    using mouse_proc_panics [of HasRoom enumerated msg pt mouse_data wt] by auto
  from wt_reach.mouse [OF assms m] m show ?thesis by simp
qed

lemma demo_hooks_reach: "wt_reach demo_hooks"
  unfolding demo_hooks_def Let_def
  by (rule wt_reach.keyboard [OF mouse_reach [OF mouse_reach [OF wt_reach.updated [OF wt_reach.request [OF wt_reach.new]]]]],
      rule prod.collapse [symmetric])

lemma demo_codes: "linux_of_windows 0x1E = Some 30" "linux_of_windows 0xE01D = Some 97"
  unfolding linux_of_windows_def by simp_all

lemma demo_windows_codes: "0x1E \<in> set windows_codes" "0xE01D \<in> set windows_codes"
  unfolding windows_codes_def list.set insert_iff by simp_all

lemma demo_key:
  "to_key_event WmKeyDown 0x1E False = Some (Key 0 30 1)" "to_key_event WmKeyDown 0x1D True = Some (Key 0 97 1)"
  by (simp_all add: to_key_event_def windows_try_from_def demo_codes demo_windows_codes)

lemma demo_hooks_sent: "wt_sent demo_hooks = [(LeftEdge, Begin)] @ (LeftEdge, CaptureInput (Keyboard (Key 0 30 1))) # []"
  by (simp add: demo_hooks_def demo_key kybrd_proc_def mouse_proc_def check_client_activation_def thread_update_def
      client_update_def update_clients_def wt_new_def update_display_regions_def entered_barrier_def all_edges_def
      moved_across_boundary_def in_display_region_def region_iff in_bounds_def is_within_dp_boundary_def
      clamp_to_display_bounds_def int_clamp_def demo_screen_def Let_def)

theorem windows_capture_contract_witness:
  "(LeftEdge, CaptureInput (Keyboard (Key 0 30 1))) \<in> set (wt_sent demo_hooks) \<and> last_begin [(LeftEdge, Begin)] = Some LeftEdge"
  using windows_capture_contract [OF demo_hooks_reach, of IsFull "[]" WmOther "(0, 0)" 0 0 False] demo_hooks_sent by auto

theorem windows_key_roundtrip_witness:
  "to_key_event WmKeyDown 0x1D True = Some (Key 0 97 1) \<and> key_event 97 1 = Some (KeyboardInput 0x1D True False)"
  using windows_key_roundtrip [OF _ demo_key(2)] demo_key(2) by simp

theorem windows_mouse_roundtrip_witness:
  "snd (consume 1 2 (Pointer (Button 0 BTN_BACK 1)) \<lparr>we_repeat = None\<rparr>) = Some (MouseInput 0 0 1 XDown)"
proof -
  have d: "drop_bit 16 (0x10000 :: u32) = 1" by (simp add: drop_bit_eq_div)
  then have "to_mouse_event (0, 0) WmXButtonDown (0, 0) 0x10000 = Some (Button 0 BTN_BACK 1)"
    by (simp add: to_mouse_event_def)
  from windows_mouse_roundtrip [OF this, of 1 2 "\<lparr>we_repeat = None\<rparr>"] d show ?thesis by (simp add: same_input_def)
qed

end
