(* ===== verification/Clipboard_Stream.thy ===== *)
theory Clipboard_Stream
  imports Proto_Roundtrip Chunking
begin

text \<open>
  The stream of one clipboard content to a peer: \<open>stream_clipboard\<close> of
  \<open>crates/syntra-core/src/capture.rs\<close>. Whether the transport accepts a message is an argument; the stream
  stops at the first one it refuses.
\<close>

definition clipboard_start_event :: "u64 \<Rightarrow> u32 \<Rightarrow> u32 \<Rightarrow> (u32 \<times> u32) option \<Rightarrow> proto_event" where
  "clipboard_start_event transfer_id total_len chunks image_dimensions = (case image_dimensions of
     Some (width, height) \<Rightarrow> ClipboardImageStart transfer_id width height total_len chunks
   | None \<Rightarrow> ClipboardStart transfer_id total_len chunks)"

definition stream_events :: "u64 \<Rightarrow> bytes \<Rightarrow> (u32 \<times> u32) option \<Rightarrow> proto_event list" where
  "stream_events transfer_id data image_dimensions =
     (if length data \<ge> 2 ^ 32 then []
      else clipboard_start_event transfer_id (word_of_nat (length data))
             (word_of_nat (div_ceil (length data) MAX_CLIPBOARD_CHUNK_SIZE)) image_dimensions
           # map (\<lambda>(index, chunk). ClipboardChunk transfer_id (word_of_nat index) chunk)
               (enumerate 0 (chunks_of MAX_CLIPBOARD_CHUNK_SIZE data)))"

definition stream_clipboard :: "(proto_event \<Rightarrow> bool) \<Rightarrow> u64 \<Rightarrow> bytes \<Rightarrow> (u32 \<times> u32) option \<Rightarrow> proto_event list" where
  "stream_clipboard accepts transfer_id data image_dimensions =
     takeWhile accepts (stream_events transfer_id data image_dimensions)"

definition chunk_data :: "proto_event \<Rightarrow> bytes" where
  "chunk_data p = (case p of ClipboardChunk _ _ data \<Rightarrow> data | _ \<Rightarrow> [])"

text \<open>A content the protocol can carry: it fits the size limit and an image has four bytes per pixel.\<close>

definition streamable :: "bytes \<Rightarrow> (u32 \<times> u32) option \<Rightarrow> bool" where
  "streamable data image_dimensions \<longleftrightarrow> length data \<le> MAX_CLIPBOARD_SIZE \<and>
     (case image_dimensions of None \<Rightarrow> True | Some (width, height) \<Rightarrow> unat width * unat height * 4 = length data)"

lemma start_encodes:
  assumes "streamable data image_dimensions"
  shows "\<exists>bs. encode (clipboard_start_event transfer_id (word_of_nat (length data))
    (word_of_nat (div_ceil (length data) MAX_CLIPBOARD_CHUNK_SIZE)) image_dimensions) = Inr bs"
proof -
  let ?len = "word_of_nat (length data) :: u32" and ?n = "word_of_nat (div_ceil (length data) MAX_CLIPBOARD_CHUNK_SIZE) :: u32"
  have small: "length data \<le> 64 * 1024 * 1024" using assms by (simp add: streamable_def const_defs)
  then have len: "unat ?len = length data" by (simp add: unat_of_nat)
  then have "?len = 0 \<longleftrightarrow> length data = 0" by (metis unat_eq_zero)
  then have start: "validate_clipboard_start ?len ?n = Inr ()"
    using small len by (auto simp: validate_clipboard_start_def const_defs div_ceil_def Let_def)
  show ?thesis
  proof (cases image_dimensions)
    case None
    with start show ?thesis by (simp add: clipboard_start_event_def encode_def codec_defs MAX_DATAGRAM_SIZE_def)
  next
    case (Some wh)
    obtain w h where wh: "wh = (w, h)" by (cases wh)
    then have area: "unat w * unat h * 4 = length data" using assms Some by (simp add: streamable_def)
    then have "unat w * unat h < 2 ^ 64" "unat w * unat h * 4 < 2 ^ 64" using small by simp_all
    moreover have "unat ((ucast w :: u64) * ucast h) = unat w * unat h"
      using calculation(1) by (simp add: unat_word_ariths unat_u32_u64)
    ultimately have "validate_clipboard_image w h ?len ?n = Inr ()"
      using start area len by (simp add: validate_clipboard_image_def checked_mul_def unat_word_ariths unat_u32_u64)
    with Some wh show ?thesis by (simp add: clipboard_start_event_def encode_def codec_defs MAX_DATAGRAM_SIZE_def)
  qed
qed

lemma chunk_encodes:
  assumes "chunk \<in> set (chunks_of MAX_CLIPBOARD_CHUNK_SIZE data)"
  shows "\<exists>bs. encode (ClipboardChunk transfer_id index chunk) = Inr bs"
proof -
  obtain i where "i < length (chunks_of MAX_CLIPBOARD_CHUNK_SIZE data)" "chunk = chunks_of MAX_CLIPBOARD_CHUNK_SIZE data ! i"
    using assms by (auto simp: in_set_conv_nth)
  then have "length chunk \<le> MAX_CLIPBOARD_CHUNK_SIZE"
    using length_nth_chunks_of [of MAX_CLIPBOARD_CHUNK_SIZE i data] by (simp add: const_defs)
  then show ?thesis by (simp add: encode_def codec_defs const_defs)
qed

text \<open>C33: every message of a clipboard stream is a message of the protocol: for a content within the limits it
  encodes and decodes to itself, and the slices of the messages together are the content.\<close>

theorem clipboard_stream_typed:
  assumes ok: "streamable data image_dimensions" and all: "\<forall>p. accepts p"
  shows "(\<forall>p \<in> set (stream_clipboard accepts transfer_id data image_dimensions). \<exists>bs. encode p = Inr bs \<and> decode bs = Inr p)
    \<and> concat (map chunk_data (stream_clipboard accepts transfer_id data image_dimensions)) = data"
proof -
  let ?start = "clipboard_start_event transfer_id (word_of_nat (length data))
    (word_of_nat (div_ceil (length data) MAX_CLIPBOARD_CHUNK_SIZE)) image_dimensions"
  let ?chunks = "map (\<lambda>(index, chunk). ClipboardChunk transfer_id (word_of_nat index) chunk)
    (enumerate 0 (chunks_of MAX_CLIPBOARD_CHUNK_SIZE data))"
  have "length data < 2 ^ 32" using ok by (simp add: streamable_def const_defs)
  then have s: "stream_clipboard accepts transfer_id data image_dimensions = ?start # ?chunks"
    using all by (simp add: stream_clipboard_def stream_events_def takeWhile_eq_all_conv)
  have plain: "wf_event p \<and> delivered p = Inr p"
    if "(\<exists>t i c. p = ClipboardChunk t i c) \<or> (\<exists>t l n. p = ClipboardStart t l n) \<or> (\<exists>t w h l n. p = ClipboardImageStart t w h l n)"
    for p
    using that by (auto simp: wf_event_def delivered_def)
  have itself: "decode bs = Inr p" if "encode p = Inr bs" "wf_event p \<and> delivered p = Inr p" for p bs
    using decode_of_encode [of p bs] that by simp
  have "\<exists>bs. encode p = Inr bs \<and> decode bs = Inr p" if mem: "p \<in> set (?start # ?chunks)" for p
  proof (cases "p = ?start")
    case True
    then show ?thesis
      using start_encodes [OF ok, of transfer_id] itself plain [of p]
      by (auto simp: clipboard_start_event_def split: option.splits)
  next
    case False
    then obtain i c where p: "p = ClipboardChunk transfer_id (word_of_nat i) c"
      and "c \<in> set (chunks_of MAX_CLIPBOARD_CHUNK_SIZE data)"
      using mem by (auto simp: in_set_enumerate_eq)
    then show ?thesis using chunk_encodes itself plain [of p] by blast
  qed
  moreover have "concat (map chunk_data (?start # ?chunks)) = data"
  proof -
    have "map chunk_data ?chunks = chunks_of MAX_CLIPBOARD_CHUNK_SIZE data"
      by (rule nth_equalityI) (auto simp: chunk_data_def nth_enumerate_eq)
    moreover have "chunk_data ?start = []"
      by (simp add: chunk_data_def clipboard_start_event_def split: option.split)
    ultimately show ?thesis using concat_chunks_of [of MAX_CLIPBOARD_CHUNK_SIZE data] by (simp add: const_defs)
  qed
  ultimately show ?thesis unfolding s by blast
qed

theorem clipboard_stream_typed_witness:
  "\<exists>bs. encode (ClipboardImageStart 7 1 1 4 1) = Inr bs \<and> decode bs = Inr (ClipboardImageStart 7 1 1 4 1)"
proof -
  have "streamable [1, 2, 3, 4] (Some (1, 1))" by (simp add: streamable_def const_defs)
  from clipboard_stream_typed [OF this, of "\<lambda>_. True" 7] show ?thesis
    by (simp add: stream_clipboard_def stream_events_def clipboard_start_event_def div_ceil_def const_defs)
qed

end
