(* ===== verification/Input_Emulation.thy ===== *)
theory Input_Emulation
  imports Capture_Types Hash_Map
begin

text \<open>
  \<open>InputEmulation\<close> of \<open>crates/syntra-input-emulation/src/lib.rs\<close>: the virtual devices of the peers
  and the keys each holds down, so that a key is pressed and released once and nothing stays down when a
  peer leaves. The platform backend is behind the trait \<open>Emulation\<close>; the calls it receives are recorded in
  order in \<open>ie_calls\<close>, and whether it accepts an event is a function \<open>accepts\<close> of the calls so far.
  The sets of handles and keys are lists without duplicates. \<open>PointerEdge\<close> is \<open>edge\<close>.
\<close>

type_synonym emulation_handle = u64

datatype backend_call =
    CallCreate emulation_handle
  | CallConsume input_event emulation_handle
  | CallDestroy emulation_handle
  | CallTerminate
  | CallIndependentPointers bool
  | CallStepInside edge
  | CallHidePointer
  | CallPlacePointer edge "f32_bits option"
  | CallFileClipboard "(rstring \<times> bytes) list"

record input_emulation =
  ie_handles :: "emulation_handle list"
  ie_pressed_keys :: "(emulation_handle, u32 list) hash_map"
  ie_calls :: "backend_call list"

definition call :: "backend_call \<Rightarrow> 'a input_emulation_scheme \<Rightarrow> 'a input_emulation_scheme" where
  "call c ie = ie\<lparr>ie_calls := ie_calls ie @ [c]\<rparr>"

section \<open>Choosing a backend\<close>

datatype emulation_backend =
    EmUinput | EmAndroid | EmWlroots | EmLibei | EmXdp | EmX11 | EmWindows | EmMacOs | EmDummy

definition backend_name :: "emulation_backend \<Rightarrow> rstring" where
  "backend_name b = (case b of
     EmUinput \<Rightarrow> lit ''uinput'' | EmAndroid \<Rightarrow> lit ''android-accessibility'' | EmWlroots \<Rightarrow> lit ''wlroots''
   | EmLibei \<Rightarrow> lit ''libei'' | EmXdp \<Rightarrow> lit ''xdg-desktop-portal'' | EmX11 \<Rightarrow> lit ''X11''
   | EmWindows \<Rightarrow> lit ''windows'' | EmMacOs \<Rightarrow> lit ''macos'' | EmDummy \<Rightarrow> lit ''dummy'')"

datatype creation = Created | CancelledByUser | CreationFailed

text \<open>The backends that are built in are an argument, \<open>built\<close>; the order is that of the source.\<close>

definition backend_order :: "(emulation_backend \<Rightarrow> bool) \<Rightarrow> emulation_backend list" where
  "backend_order built = filter built [EmUinput, EmWlroots, EmLibei, EmXdp, EmX11, EmWindows, EmMacOs, EmAndroid, EmDummy]"

datatype creation_result = Selected emulation_backend | NotCreated creation | NoAvailableBackend

primrec first_backend :: "(emulation_backend \<Rightarrow> creation) \<Rightarrow> emulation_backend list \<Rightarrow> creation_result" where
  "first_backend create [] = NoAvailableBackend"
| "first_backend create (b # bs) = (case create b of
     Created \<Rightarrow> Selected b
   | CancelledByUser \<Rightarrow> NotCreated CancelledByUser
   | CreationFailed \<Rightarrow> first_backend create bs)"

definition choose_backend ::
  "(emulation_backend \<Rightarrow> bool) \<Rightarrow> (emulation_backend \<Rightarrow> creation) \<Rightarrow> emulation_backend option \<Rightarrow> creation_result" where
  "choose_backend built create backend = (case backend of
     Some b \<Rightarrow> (case create b of Created \<Rightarrow> Selected b | e \<Rightarrow> NotCreated e)
   | None \<Rightarrow> first_backend create (backend_order built))"

section \<open>Operations\<close>

definition ie_new :: input_emulation where
  "ie_new = \<lparr>ie_handles = [], ie_pressed_keys = [], ie_calls = []\<rparr>"

text \<open>\<open>emulation.consume(event, handle).await\<close> of the backend.\<close>

definition backend_consume ::
  "(backend_call list \<Rightarrow> bool) \<Rightarrow> input_event \<Rightarrow> emulation_handle \<Rightarrow> 'a input_emulation_scheme
     \<Rightarrow> 'a input_emulation_scheme \<times> bool" where
  "backend_consume accepts event h ie =
     (let ie = call (CallConsume event h) ie in (ie, accepts (ie_calls ie)))"

definition ie_update_pressed_keys ::
  "emulation_handle \<Rightarrow> u32 \<Rightarrow> u8 \<Rightarrow> 'a input_emulation_scheme \<Rightarrow> 'a input_emulation_scheme \<times> bool" where
  "ie_update_pressed_keys h key state ie = (case hm_get (ie_pressed_keys ie) h of
     None \<Rightarrow> (ie, False)
   | Some keys \<Rightarrow>
       if state = 0
       then (ie\<lparr>ie_pressed_keys := hm_insert h (removeAll key keys) (ie_pressed_keys ie)\<rparr>, key \<in> set keys)
       else (ie\<lparr>ie_pressed_keys := hm_insert h (List.insert key keys) (ie_pressed_keys ie)\<rparr>, key \<notin> set keys))"

definition ie_consume ::
  "(backend_call list \<Rightarrow> bool) \<Rightarrow> input_event \<Rightarrow> emulation_handle \<Rightarrow> 'a input_emulation_scheme
     \<Rightarrow> 'a input_emulation_scheme \<times> bool" where
  "ie_consume accepts event h ie = (case event of
     Keyboard (Key _ key state) \<Rightarrow>
       (let (ie, process) = ie_update_pressed_keys h key state ie in
        if process then backend_consume accepts event h ie else (ie, True))
   | _ \<Rightarrow> backend_consume accepts event h ie)"

definition ie_create :: "emulation_handle \<Rightarrow> 'a input_emulation_scheme \<Rightarrow> 'a input_emulation_scheme \<times> bool" where
  "ie_create h ie =
     (if h \<notin> set (ie_handles ie)
      then (call (CallCreate h) (ie\<lparr>ie_handles := ie_handles ie @ [h],
              ie_pressed_keys := hm_insert h [] (ie_pressed_keys ie)\<rparr>), True)
      else (ie, False))"

text \<open>The loop over the drained keys; the flag is whether every call so far succeeded.\<close>

primrec release_loop ::
  "(backend_call list \<Rightarrow> bool) \<Rightarrow> emulation_handle \<Rightarrow> u32 list \<Rightarrow> 'a input_emulation_scheme \<times> bool
     \<Rightarrow> 'a input_emulation_scheme \<times> bool" where
  "release_loop accepts h [] r = r"
| "release_loop accepts h (key # keys) r =
     (let (ie, ok) = backend_consume accepts (Keyboard (Key 0 key 0)) h (fst r) in
      release_loop accepts h keys (ie, snd r \<and> ok))"

definition ie_release_keys ::
  "(backend_call list \<Rightarrow> bool) \<Rightarrow> emulation_handle \<Rightarrow> 'a input_emulation_scheme \<Rightarrow> 'a input_emulation_scheme \<times> bool" where
  "ie_release_keys accepts h ie =
     (let (ie, ok) = (case hm_get (ie_pressed_keys ie) h of
            None \<Rightarrow> (ie, True)
          | Some keys \<Rightarrow> release_loop accepts h keys
              (ie\<lparr>ie_pressed_keys := hm_insert h [] (ie_pressed_keys ie)\<rparr>, True));
          (ie, modifiers_ok) = backend_consume accepts (Keyboard (Modifiers 0 0 0 0)) h ie in
      (ie, ok \<and> modifiers_ok))"

definition ie_destroy ::
  "(backend_call list \<Rightarrow> bool) \<Rightarrow> emulation_handle \<Rightarrow> 'a input_emulation_scheme \<Rightarrow> 'a input_emulation_scheme" where
  "ie_destroy accepts h ie =
     (let ie = fst (ie_release_keys accepts h ie) in
      if h \<in> set (ie_handles ie)
      then call (CallDestroy h) (ie\<lparr>ie_handles := removeAll h (ie_handles ie),
             ie_pressed_keys := hm_remove h (ie_pressed_keys ie)\<rparr>)
      else ie)"

definition ie_terminate ::
  "(backend_call list \<Rightarrow> bool) \<Rightarrow> 'a input_emulation_scheme \<Rightarrow> 'a input_emulation_scheme" where
  "ie_terminate accepts ie =
     call CallTerminate (fold (ie_destroy accepts) (ie_handles ie) ie)"

definition ie_has_pressed_keys :: "emulation_handle \<Rightarrow> 'a input_emulation_scheme \<Rightarrow> bool" where
  "ie_has_pressed_keys h ie = (case hm_get (ie_pressed_keys ie) h of None \<Rightarrow> False | Some p \<Rightarrow> p \<noteq> [])"

definition ie_set_file_clipboard ::
  "(backend_call list \<Rightarrow> bool) \<Rightarrow> (rstring \<times> bytes) list \<Rightarrow> 'a input_emulation_scheme
     \<Rightarrow> 'a input_emulation_scheme \<times> bool" where
  "ie_set_file_clipboard accepts contents ie =
     (let ie = call (CallFileClipboard contents) ie in (ie, accepts (ie_calls ie)))"

section \<open>Pushing against an edge\<close>

definition PUSH_LEAK_PER_SECOND :: fp where "PUSH_LEAK_PER_SECOND = Finite False (100 * fp_unit)"

definition push_against_edge :: "fp \<Rightarrow> nat \<Rightarrow> edge \<Rightarrow> fp \<Rightarrow> fp \<Rightarrow> fp \<Rightarrow> fp \<times> bool" where
  "push_against_edge so_far idle edge dx dy needed =
     (let outward = (case edge of LeftEdge \<Rightarrow> fp_neg dx | RightEdge \<Rightarrow> dx | TopEdge \<Rightarrow> fp_neg dy | BottomEdge \<Rightarrow> dy);
          leaked = (if fp_le outward fp_zero
                    then fp_max (fp_sub round_f64 so_far
                                  (fp_mul round_f64 PUSH_LEAK_PER_SECOND (as_secs_f64 idle))) fp_zero
                    else so_far);
          total = fp_max (fp_add round_f64 leaked outward) fp_zero in
      (total, fp_le needed total))"

section \<open>What the backend is asked to hold down\<close>

text \<open>The keys that a device is asked to hold down after a sequence of calls, from the calls alone; what it holds when it
  refuses some of them is the subject of \<open>Backend_Answers\<close>.\<close>

definition key_step :: "emulation_handle \<Rightarrow> u32 set \<Rightarrow> backend_call \<Rightarrow> u32 set" where
  "key_step h held c = (case c of
     CallConsume (Keyboard (Key _ key state)) h' \<Rightarrow>
       if h' = h then if state = 0 then held - {key} else insert key held else held
   | _ \<Rightarrow> held)"

definition held_keys :: "backend_call list \<Rightarrow> emulation_handle \<Rightarrow> u32 set" where
  "held_keys calls h = foldl (key_step h) {} calls"

definition button_step :: "emulation_handle \<Rightarrow> u32 set \<Rightarrow> backend_call \<Rightarrow> u32 set" where
  "button_step h held c = (case c of
     CallConsume (Pointer (Button _ button state)) h' \<Rightarrow>
       if h' = h then if state = 0 then held - {button} else insert button held else held
   | _ \<Rightarrow> held)"

definition held_buttons :: "backend_call list \<Rightarrow> emulation_handle \<Rightarrow> u32 set" where
  "held_buttons calls h = foldl (button_step h) {} calls"

text \<open>A key event the backend should not see: the press of a key it was asked to hold, or the release of one it was not.\<close>

definition redundant :: "backend_call list \<Rightarrow> backend_call \<Rightarrow> bool" where
  "redundant calls c = (case c of
     CallConsume (Keyboard (Key _ key state)) h \<Rightarrow> (state = 0) = (key \<notin> held_keys calls h)
   | _ \<Rightarrow> False)"

fun clean :: "backend_call list \<Rightarrow> backend_call list \<Rightarrow> bool" where
  "clean before [] = True"
| "clean before (c # cs) \<longleftrightarrow> \<not> redundant before c \<and> clean (before @ [c]) cs"

lemma held_keys_Nil [simp]: "held_keys [] h = {}"
  by (simp add: held_keys_def)

lemma held_keys_snoc [simp]: "held_keys (calls @ [c]) h = key_step h (held_keys calls h) c"
  by (simp add: held_keys_def)

lemma held_buttons_Nil [simp]: "held_buttons [] h = {}"
  by (simp add: held_buttons_def)

lemma held_buttons_snoc [simp]: "held_buttons (calls @ [c]) h = button_step h (held_buttons calls h) c"
  by (simp add: held_buttons_def)

lemma clean_snoc: "clean before (cs @ [c]) \<longleftrightarrow> clean before cs \<and> \<not> redundant (before @ cs) c"
  by (induction cs arbitrary: before) auto

lemma ie_calls_call [simp]: "ie_calls (call c ie) = ie_calls ie @ [c]"
  by (simp add: call_def)

lemma call_fields [simp]:
  "ie_handles (call c ie) = ie_handles ie" "ie_pressed_keys (call c ie) = ie_pressed_keys ie"
  "input_emulation.more (call c ie) = input_emulation.more ie"
  by (simp_all add: call_def)

section \<open>The invariant\<close>

definition keys_of :: "'a input_emulation_scheme \<Rightarrow> emulation_handle \<Rightarrow> u32 set" where
  "keys_of ie h = (case hm_get (ie_pressed_keys ie) h of None \<Rightarrow> {} | Some keys \<Rightarrow> set keys)"

definition ie_inv :: "'a input_emulation_scheme \<Rightarrow> bool" where
  "ie_inv ie \<longleftrightarrow> hm_ok (ie_pressed_keys ie) \<and> distinct (ie_handles ie)
     \<and> (\<forall>h. h \<in> set (ie_handles ie) \<longleftrightarrow> hm_get (ie_pressed_keys ie) h \<noteq> None)
     \<and> (\<forall>h keys. hm_get (ie_pressed_keys ie) h = Some keys \<longrightarrow> distinct keys)
     \<and> (\<forall>h. held_keys (ie_calls ie) h = keys_of ie h) \<and> clean [] (ie_calls ie)"

lemma backend_consume_simps [simp]:
  "fst (backend_consume accepts event h ie) = call (CallConsume event h) ie"
  "snd (backend_consume accepts event h ie) = accepts (ie_calls ie @ [CallConsume event h])"
  by (simp_all add: backend_consume_def Let_def)

lemma ie_inv_new [simp]: "ie_inv ie_new"
  by (simp add: ie_inv_def ie_new_def keys_of_def hash_map)

text \<open>A call that is no key event.\<close>

definition keyless :: "backend_call \<Rightarrow> bool" where
  "keyless c = (case c of CallConsume (Keyboard (Key _ _ _)) _ \<Rightarrow> False | _ \<Rightarrow> True)"

lemma keyless_step: "keyless c \<Longrightarrow> key_step h held c = held \<and> \<not> redundant calls c"
  by (auto simp: keyless_def key_step_def redundant_def split: backend_call.splits input_event.splits keyboard_event.splits)

lemma keyless_simps [simp]:
  "keyless (CallCreate h)" "keyless (CallDestroy h)" "keyless CallTerminate" "keyless (CallConsume (Pointer p) h)"
  "keyless (CallConsume (Keyboard (Modifiers a b c d)) h)" "keyless (CallIndependentPointers e)" "keyless (CallStepInside pos)"
  "keyless CallHidePointer" "keyless (CallPlacePointer pos along)" "keyless (CallFileClipboard contents)"
  "\<not> keyless (CallConsume (Keyboard (Key t k s)) h)"
  by (simp_all add: keyless_def)

lemma ie_inv_call:
  assumes "ie_inv ie" and "keyless c" shows "ie_inv (call c ie)"
  using assms keyless_step [OF assms(2)] by (simp add: ie_inv_def keys_of_def clean_snoc)

lemma ie_inv_consume:
  assumes inv: "ie_inv ie" shows "ie_inv (fst (ie_consume accepts event h ie))"
proof (cases "\<exists>t key state. event = Keyboard (Key t key state)")
  case True
  then obtain t key state where e: "event = Keyboard (Key t key state)" by blast
  show ?thesis
  proof (cases "hm_get (ie_pressed_keys ie) h")
    case None
    then show ?thesis using inv e by (simp add: ie_consume_def ie_update_pressed_keys_def)
  next
    case (Some keys)
    moreover have "hm_ok (ie_pressed_keys ie)" using inv by (simp add: ie_inv_def)
    moreover have "held_keys (ie_calls ie) h = set keys" using inv Some by (simp add: ie_inv_def keys_of_def)
    moreover have "distinct keys" using inv Some by (simp add: ie_inv_def)
    ultimately show ?thesis using inv e
      by (auto simp: ie_consume_def ie_update_pressed_keys_def ie_inv_def keys_of_def clean_snoc hash_map
          key_step_def redundant_def insert_absorb distinct_removeAll)
  qed
next
  case False
  then have "ie_consume accepts event h ie = backend_consume accepts event h ie" and "keyless (CallConsume event h)"
    by (auto simp: ie_consume_def keyless_def split: input_event.splits keyboard_event.splits)
  then show ?thesis using ie_inv_call [OF inv] by simp
qed

lemma ie_inv_create:
  assumes "ie_inv ie" shows "ie_inv (fst (ie_create h ie))"
proof (cases "h \<in> set (ie_handles ie)")
  case False
  then have "hm_get (ie_pressed_keys ie) h = None" using assms by (simp add: ie_inv_def)
  with False assms have "ie_inv (ie\<lparr>ie_handles := ie_handles ie @ [h], ie_pressed_keys := hm_insert h [] (ie_pressed_keys ie)\<rparr>)"
    by (auto simp: ie_inv_def keys_of_def hash_map)
  with False show ?thesis by (simp add: ie_create_def ie_inv_call)
qed (simp add: ie_create_def assms)

text \<open>The loop that releases the keys of a device.\<close>

lemma release_loop_fields [simp]:
  "ie_handles (fst (release_loop accepts h keys r)) = ie_handles (fst r)"
  "ie_pressed_keys (fst (release_loop accepts h keys r)) = ie_pressed_keys (fst r)"
  "input_emulation.more (fst (release_loop accepts h keys r)) = input_emulation.more (fst r)"
  by (induction keys arbitrary: r) (simp_all add: case_prod_unfold Let_def)

lemma release_loop_calls:
  "ie_calls (fst (release_loop accepts h keys r)) = ie_calls (fst r) @ map (\<lambda>key. CallConsume (Keyboard (Key 0 key 0)) h) keys"
  by (induction keys arbitrary: r) (simp_all add: case_prod_unfold Let_def)

lemma held_keys_releases:
  "held_keys (calls @ map (\<lambda>key. CallConsume (Keyboard (Key 0 key 0)) h) keys) h' =
     (if h' = h then held_keys calls h' - set keys else held_keys calls h')"
proof (induction keys arbitrary: calls)
  case (Cons key keys)
  from Cons [of "calls @ [CallConsume (Keyboard (Key 0 key 0)) h]"] show ?case
    by (auto simp: key_step_def)
qed simp

lemma clean_releases:
  assumes "clean before calls" and "distinct keys" and "set keys \<subseteq> held_keys (before @ calls) h"
  shows "clean before (calls @ map (\<lambda>key. CallConsume (Keyboard (Key 0 key 0)) h) keys)"
  using assms
proof (induction keys arbitrary: calls)
  case (Cons key keys)
  let ?c = "CallConsume (Keyboard (Key 0 key 0)) h"
  have "clean before (calls @ [?c])" using Cons.prems by (simp add: clean_snoc redundant_def)
  moreover have "held_keys (before @ calls @ [?c]) h = held_keys (before @ calls) h - {key}"
    using held_keys_snoc [of "before @ calls" ?c h] by (simp add: key_step_def)
  ultimately show ?case using Cons.IH [of "calls @ [?c]"] Cons.prems by auto
qed simp

lemma held_buttons_keys [simp]:
  "held_buttons (calls @ map (\<lambda>key. CallConsume (Keyboard (Key 0 key 0)) h) keys) h' = held_buttons calls h'"
proof (induction keys arbitrary: calls)
  case (Cons key keys)
  from Cons [of "calls @ [CallConsume (Keyboard (Key 0 key 0)) h]"] show ?case by (simp add: button_step_def)
qed simp

text \<open>What releasing the keys of a device does: the backend is asked to release each of them and then to clear the
  modifiers, whatever it answers.\<close>

definition device_keys :: "'a input_emulation_scheme \<Rightarrow> emulation_handle \<Rightarrow> u32 list" where
  "device_keys ie h = (case hm_get (ie_pressed_keys ie) h of None \<Rightarrow> [] | Some keys \<Rightarrow> keys)"

lemma ie_release_keys_fields [simp]:
  "ie_handles (fst (ie_release_keys accepts h ie)) = ie_handles ie"
  "input_emulation.more (fst (ie_release_keys accepts h ie)) = input_emulation.more ie"
  "ie_pressed_keys (fst (ie_release_keys accepts h ie)) =
     (if hm_get (ie_pressed_keys ie) h = None then ie_pressed_keys ie else hm_insert h [] (ie_pressed_keys ie))"
  by (simp_all add: ie_release_keys_def case_prod_unfold Let_def split: option.split)

lemma ie_release_keys_calls:
  "ie_calls (fst (ie_release_keys accepts h ie)) = ie_calls ie
     @ map (\<lambda>key. CallConsume (Keyboard (Key 0 key 0)) h) (device_keys ie h) @ [CallConsume (Keyboard (Modifiers 0 0 0 0)) h]"
  by (simp add: ie_release_keys_def case_prod_unfold Let_def release_loop_calls device_keys_def split: option.split)

lemma set_device_keys [simp]: "set (device_keys ie h) = keys_of ie h"
  by (simp add: device_keys_def keys_of_def split: option.split)

lemma distinct_device_keys: "ie_inv ie \<Longrightarrow> distinct (device_keys ie h)"
  by (auto simp: ie_inv_def device_keys_def split: option.split)

lemma held_keys_after_release:
  "held_keys (ie_calls (fst (ie_release_keys accepts h ie))) h' =
     (if h' = h then held_keys (ie_calls ie) h' - keys_of ie h else held_keys (ie_calls ie) h')"
  using held_keys_snoc [of "ie_calls ie @ map (\<lambda>key. CallConsume (Keyboard (Key 0 key 0)) h) (device_keys ie h)"
      "CallConsume (Keyboard (Modifiers 0 0 0 0)) h" h']
  by (simp add: ie_release_keys_calls held_keys_releases keyless_step)

lemma held_buttons_after_release [simp]:
  "held_buttons (ie_calls (fst (ie_release_keys accepts h ie))) h' = held_buttons (ie_calls ie) h'"
  using held_buttons_snoc [of "ie_calls ie @ map (\<lambda>key. CallConsume (Keyboard (Key 0 key 0)) h) (device_keys ie h)"
      "CallConsume (Keyboard (Modifiers 0 0 0 0)) h" h']
  by (simp add: ie_release_keys_calls button_step_def)

lemma keys_of_after_release:
  "keys_of (fst (ie_release_keys accepts h ie)) h' = (if h' = h then {} else keys_of ie h')"
  by (auto simp: keys_of_def hash_map split: option.split)

lemma ie_inv_release_keys:
  assumes inv: "ie_inv ie" shows "ie_inv (fst (ie_release_keys accepts h ie))"
proof -
  have "clean [] (ie_calls ie @ map (\<lambda>key. CallConsume (Keyboard (Key 0 key 0)) h) (device_keys ie h))"
    by (rule clean_releases) (use inv distinct_device_keys [OF inv] in \<open>simp_all add: ie_inv_def\<close>)
  then have "clean [] (ie_calls (fst (ie_release_keys accepts h ie)))"
    using clean_snoc [of "[]" "ie_calls ie @ map (\<lambda>key. CallConsume (Keyboard (Key 0 key 0)) h) (device_keys ie h)"
        "CallConsume (Keyboard (Modifiers 0 0 0 0)) h"]
    by (simp add: ie_release_keys_calls keyless_step)
  moreover have "held_keys (ie_calls (fst (ie_release_keys accepts h ie))) h' = keys_of (fst (ie_release_keys accepts h ie)) h'" for h'
    using inv by (auto simp: held_keys_after_release keys_of_after_release ie_inv_def)
  ultimately show ?thesis using inv by (auto simp: ie_inv_def hash_map split: if_splits)
qed

lemma ie_inv_destroy:
  assumes inv: "ie_inv ie" shows "ie_inv (ie_destroy accepts h ie)"
proof -
  let ?ie = "fst (ie_release_keys accepts h ie)"
  have inv': "ie_inv ?ie" by (rule ie_inv_release_keys [OF inv])
  show ?thesis
  proof (cases "h \<in> set (ie_handles ?ie)")
    case True
    have "keys_of ?ie h = {}" by (simp add: keys_of_after_release)
    then have "ie_inv (?ie\<lparr>ie_handles := removeAll h (ie_handles ?ie), ie_pressed_keys := hm_remove h (ie_pressed_keys ?ie)\<rparr>)"
      using inv' unfolding ie_inv_def keys_of_def by (auto simp: hash_map distinct_removeAll split: if_splits)
    with True show ?thesis by (simp add: ie_destroy_def Let_def ie_inv_call)
  next
    case False
    with inv' show ?thesis by (simp add: ie_destroy_def Let_def)
  qed
qed

lemma ie_destroy_handles [simp]: "set (ie_handles (ie_destroy accepts h ie)) = set (ie_handles ie) - {h}"
  by (auto simp: ie_destroy_def Let_def)

lemma ie_destroy_more [simp]: "input_emulation.more (ie_destroy accepts h ie) = input_emulation.more ie"
  by (simp add: ie_destroy_def Let_def)

lemma held_keys_destroy:
  "held_keys (ie_calls (ie_destroy accepts h ie)) h' =
     (if h' = h then held_keys (ie_calls ie) h' - keys_of ie h else held_keys (ie_calls ie) h')"
  by (simp add: ie_destroy_def Let_def held_keys_after_release keyless_step)

lemma held_buttons_destroy [simp]: "held_buttons (ie_calls (ie_destroy accepts h ie)) h' = held_buttons (ie_calls ie) h'"
  by (simp add: ie_destroy_def Let_def button_step_def)

lemma ie_fold_destroy:
  "ie_inv ie \<Longrightarrow> ie_inv (fold (ie_destroy accepts) hs ie)"
  "set (ie_handles (fold (ie_destroy accepts) hs ie)) = set (ie_handles ie) - set hs"
  "input_emulation.more (fold (ie_destroy accepts) hs ie) = input_emulation.more ie"
  by (induction hs arbitrary: ie) (auto simp: ie_inv_destroy)

lemma ie_inv_terminate: "ie_inv ie \<Longrightarrow> ie_inv (ie_terminate accepts ie)"
  by (simp add: ie_terminate_def ie_inv_call ie_fold_destroy)

lemma ie_terminate_fields [simp]:
  "ie_handles (ie_terminate accepts ie) = []" "input_emulation.more (ie_terminate accepts ie) = input_emulation.more ie"
  using ie_fold_destroy(2,3) [of accepts "ie_handles ie" ie] by (simp_all add: ie_terminate_def)

text \<open>A device that does not exist is asked to hold no key.\<close>

lemma held_keys_absent: "ie_inv ie \<Longrightarrow> h \<notin> set (ie_handles ie) \<Longrightarrow> held_keys (ie_calls ie) h = {}"
  by (simp add: ie_inv_def keys_of_def)

section \<open>The backend against a reference\<close>

datatype ie_op =
    OpConsume input_event emulation_handle
  | OpCreate emulation_handle
  | OpReleaseKeys emulation_handle
  | OpDestroy emulation_handle
  | OpTerminate

definition ie_step :: "(backend_call list \<Rightarrow> bool) \<Rightarrow> ie_op \<Rightarrow> 'a input_emulation_scheme \<Rightarrow> 'a input_emulation_scheme" where
  "ie_step accepts op ie = (case op of
     OpConsume event h \<Rightarrow> fst (ie_consume accepts event h ie)
   | OpCreate h \<Rightarrow> fst (ie_create h ie)
   | OpReleaseKeys h \<Rightarrow> fst (ie_release_keys accepts h ie)
   | OpDestroy h \<Rightarrow> ie_destroy accepts h ie
   | OpTerminate \<Rightarrow> ie_terminate accepts ie)"

text \<open>The reference: a device that exists holds a key from its press to its release; \<open>None\<close> is no device.\<close>

definition device_step :: "emulation_handle \<Rightarrow> u32 set option \<Rightarrow> ie_op \<Rightarrow> u32 set option" where
  "device_step h device op = (case op of
     OpConsume (Keyboard (Key _ key state)) h' \<Rightarrow>
       if h' = h then map_option (\<lambda>held. if state = 0 then held - {key} else insert key held) device else device
   | OpConsume _ _ \<Rightarrow> device
   | OpCreate h' \<Rightarrow> if h' = h \<and> device = None then Some {} else device
   | OpReleaseKeys h' \<Rightarrow> if h' = h then map_option (\<lambda>_. {}) device else device
   | OpDestroy h' \<Rightarrow> if h' = h then None else device
   | OpTerminate \<Rightarrow> None)"

definition device :: "'a input_emulation_scheme \<Rightarrow> emulation_handle \<Rightarrow> u32 set option" where
  "device ie h = map_option set (hm_get (ie_pressed_keys ie) h)"

lemma device_call [simp]: "device (call c ie) = device ie"
  by (simp add: device_def fun_eq_iff)

lemma device_release_keys [simp]:
  "device (fst (ie_release_keys accepts h' ie)) h = (if h' = h then map_option (\<lambda>_. {}) (device ie h) else device ie h)"
  by (auto simp: device_def hash_map)

lemma device_destroy:
  assumes "ie_inv ie" shows "device (ie_destroy accepts h' ie) h = (if h' = h then None else device ie h)"
proof -
  let ?ie = "fst (ie_release_keys accepts h' ie)"
  have "hm_ok (ie_pressed_keys ?ie)" and "h' \<in> set (ie_handles ?ie) \<longleftrightarrow> hm_get (ie_pressed_keys ?ie) h' \<noteq> None"
    using ie_inv_release_keys [OF assms, of accepts h'] unfolding ie_inv_def by blast+
  moreover have "device ?ie h = (if h' = h then map_option (\<lambda>_. {}) (device ie h) else device ie h)" by simp
  ultimately show ?thesis
    unfolding ie_destroy_def Let_def device_def by (auto simp del: ie_release_keys_fields simp: hash_map)
qed

lemma device_absent: "ie_inv ie \<Longrightarrow> ie_handles ie = [] \<Longrightarrow> device ie h = None"
  by (simp add: ie_inv_def device_def)

lemma device_ie_step:
  assumes inv: "ie_inv ie" shows "device (ie_step accepts op ie) h = device_step h (device ie h) op"
proof (cases op)
  case (OpConsume event h')
  show ?thesis
  proof (cases "\<exists>t key state. event = Keyboard (Key t key state)")
    case True
    with OpConsume show ?thesis
      by (auto simp: ie_step_def device_step_def ie_consume_def ie_update_pressed_keys_def device_def hash_map
          split: option.split)
  next
    case False
    with OpConsume show ?thesis
      by (auto simp: ie_step_def device_step_def ie_consume_def split: input_event.splits keyboard_event.splits)
  qed
next
  case (OpCreate h')
  have "h' \<in> set (ie_handles ie) \<longleftrightarrow> hm_get (ie_pressed_keys ie) h' \<noteq> None" using inv by (simp add: ie_inv_def)
  with OpCreate show ?thesis by (auto simp: ie_step_def device_step_def ie_create_def device_def hash_map)
next
  case OpTerminate
  then show ?thesis using device_absent [OF ie_inv_terminate [OF inv]] by (simp add: ie_step_def device_step_def)
qed (simp_all add: ie_step_def device_step_def device_destroy [OF inv])

lemma ie_inv_step: "ie_inv ie \<Longrightarrow> ie_inv (ie_step accepts op ie)"
  by (cases op) (simp_all add: ie_step_def ie_inv_consume ie_inv_create ie_inv_release_keys ie_inv_destroy ie_inv_terminate)

lemma ie_run:
  "ie_inv ie \<Longrightarrow> ie_inv (fold (ie_step accepts) ops ie)
     \<and> device (fold (ie_step accepts) ops ie) h = foldl (device_step h) (device ie h) ops"
  by (induction ops arbitrary: ie) (simp_all add: ie_inv_step device_ie_step)

text \<open>The backend accepts all calls of a list that come after the first \<open>k\<close>.\<close>

definition accepts_from :: "(backend_call list \<Rightarrow> bool) \<Rightarrow> nat \<Rightarrow> backend_call list \<Rightarrow> bool" where
  "accepts_from accepts k calls \<longleftrightarrow> list_all (\<lambda>n. accepts (take n calls)) [Suc k..<Suc (length calls)]"

lemma accepts_from_snoc:
  "k \<le> length calls \<Longrightarrow> accepts_from accepts k (calls @ [c]) \<longleftrightarrow> accepts_from accepts k calls \<and> accepts (calls @ [c])"
  by (auto simp: accepts_from_def list_all_iff)

lemma accepts_from_self [simp]: "accepts_from accepts (length calls) calls"
  by (simp add: accepts_from_def)

lemma release_loop_result:
  "k \<le> length (ie_calls (fst r)) \<Longrightarrow> snd r = accepts_from accepts k (ie_calls (fst r)) \<Longrightarrow>
     snd (release_loop accepts h keys r) = accepts_from accepts k (ie_calls (fst (release_loop accepts h keys r)))"
proof (induction keys arbitrary: r)
  case (Cons key keys)
  let ?c = "CallConsume (Keyboard (Key 0 key 0)) h"
  let ?r = "(call ?c (fst r), snd r \<and> accepts (ie_calls (fst r) @ [?c]))"
  have "release_loop accepts h (key # keys) r = release_loop accepts h keys ?r"
    by (simp add: case_prod_unfold Let_def)
  moreover have "snd ?r = accepts_from accepts k (ie_calls (fst ?r))"
    using Cons.prems by (simp add: accepts_from_snoc)
  ultimately show ?case using Cons.IH [of ?r] Cons.prems(1) by simp
qed simp

lemma ie_release_keys_result:
  "snd (ie_release_keys accepts h ie) =
     accepts_from accepts (length (ie_calls ie)) (ie_calls (fst (ie_release_keys accepts h ie)))"
proof -
  define r where "r = (case hm_get (ie_pressed_keys ie) h of
      None \<Rightarrow> (ie, True)
    | Some keys \<Rightarrow> release_loop accepts h keys (ie\<lparr>ie_pressed_keys := hm_insert h [] (ie_pressed_keys ie)\<rparr>, True))"
  have r: "snd r = accepts_from accepts (length (ie_calls ie)) (ie_calls (fst r))"
    unfolding r_def using release_loop_result
      [of "length (ie_calls ie)" "(ie\<lparr>ie_pressed_keys := hm_insert h [] (ie_pressed_keys ie)\<rparr>, True)" accepts h]
    by (simp split: option.split)
  have "length (ie_calls ie) \<le> length (ie_calls (fst r))"
    by (simp add: r_def release_loop_calls split: option.split)
  then show ?thesis using r
    by (simp add: ie_release_keys_def r_def [symmetric] case_prod_unfold Let_def accepts_from_snoc)
qed

text \<open>Letting a device's keys go reaches all of them. The backend is asked to release every key the
  device holds and then to clear the modifiers, also after it has refused one of the calls, and the
  operation fails exactly when it refused some.\<close>

theorem release_attempts_every_key:
  assumes "ie_inv ie"
  shows "(\<exists>keys. set keys = held_keys (ie_calls ie) h \<and> distinct keys
      \<and> ie_calls (fst (ie_release_keys accepts h ie)) = ie_calls ie
          @ map (\<lambda>key. CallConsume (Keyboard (Key 0 key 0)) h) keys @ [CallConsume (Keyboard (Modifiers 0 0 0 0)) h])
    \<and> held_keys (ie_calls (fst (ie_release_keys accepts h ie))) h = {}
    \<and> snd (ie_release_keys accepts h ie) =
        accepts_from accepts (length (ie_calls ie)) (ie_calls (fst (ie_release_keys accepts h ie)))"
proof -
  have held: "held_keys (ie_calls ie) h = keys_of ie h" using assms by (simp add: ie_inv_def)
  with distinct_device_keys [OF assms] ie_release_keys_calls [of accepts h ie] set_device_keys [of ie h]
  have "\<exists>keys. set keys = held_keys (ie_calls ie) h \<and> distinct keys
      \<and> ie_calls (fst (ie_release_keys accepts h ie)) = ie_calls ie
          @ map (\<lambda>key. CallConsume (Keyboard (Key 0 key 0)) h) keys @ [CallConsume (Keyboard (Modifiers 0 0 0 0)) h]"
    by blast
  moreover have "held_keys (ie_calls (fst (ie_release_keys accepts h ie))) h = {}"
    using held by (simp add: held_keys_after_release)
  ultimately show ?thesis using ie_release_keys_result [of accepts h ie] by blast
qed

theorem release_attempts_every_key_witness:
  "\<exists>ie :: input_emulation. ie_inv ie \<and> held_keys (ie_calls ie) 1 = {29, 42}
    \<and> held_keys (ie_calls (fst (ie_release_keys (\<lambda>calls. length calls \<noteq> 4) 1 ie))) 1 = {}
    \<and> \<not> snd (ie_release_keys (\<lambda>calls. length calls \<noteq> 4) 1 ie)"
proof -
  let ?accepts = "\<lambda>calls :: backend_call list. length calls \<noteq> 4"
  define ie where "ie = fold (ie_step ?accepts)
    [OpCreate 1, OpConsume (Keyboard (Key 5 29 1)) 1, OpConsume (Keyboard (Key 6 42 1)) 1] ie_new"
  have inv: "ie_inv ie" using ie_run [OF ie_inv_new] unfolding ie_def by blast
  have "ie_calls ie = [CallCreate 1, CallConsume (Keyboard (Key 5 29 1)) 1, CallConsume (Keyboard (Key 6 42 1)) 1]"
    unfolding ie_def by code_simp
  then have "held_keys (ie_calls ie) 1 = {29, 42}" by (auto simp: held_keys_def key_step_def)
  moreover have "\<not> snd (ie_release_keys ?accepts 1 ie)" unfolding ie_def by code_simp
  ultimately show ?thesis using inv release_attempts_every_key [OF inv, of 1 ?accepts] by blast
qed

end
