(* ===== verification/Emulation_Task.thy ===== *)
theory Emulation_Task
  imports Input_Emulation Clipboard Transfer_State
begin

text \<open>
  The emulation task of \<open>crates/syntra-core/src/emulation.rs\<close> and its proxy: requests of the listen
  task wait in a channel until the task takes them; the task runs one session after another, each with
  a backend of its own, and keeps the devices of the peers and the buttons they hold across sessions.
  The record extends the \<open>InputEmulation\<close> of the current session; the cells the two tasks share
  (\<open>emulation_ready\<close>, \<open>input_sharing\<close>, \<open>independent_pointers\<close>, \<open>exit_requested\<close>) are fields. What the
  backend and the image decoder answer is the argument \<open>emu_env\<close>. The model is that of the desktop
  platforms (\<open>target_os = "android"\<close> is false).
\<close>

type_synonym ip_addr = bytes
type_synonym socket_addr = "ip_addr \<times> u16"

definition to_ipc_pos :: "position \<Rightarrow> edge" where
  "to_ipc_pos pos = (case pos of Left \<Rightarrow> LeftEdge | Right \<Rightarrow> RightEdge | Top \<Rightarrow> TopEdge | Bottom \<Rightarrow> BottomEdge)"

datatype clipboard_fallback =
    FallbackAdapter rstring operation "rstring list"
  | FallbackLocal clipboard_content

datatype emulation_event =
    NoLongerControlled
  | PeerLeft socket_addr "edge option" "f32_bits option"
  | PeerConnected socket_addr rstring
  | ConnectionAttempt rstring
  | PeerEntered socket_addr edge rstring bool bool "f32_bits option"
  | PeerDisconnected socket_addr
  | PortChanged "u16 option"
  | EmulationDisabled
  | EmulationEnabled rstring
  | ReleaseNotify
  | PointerEdgeEvent socket_addr edge "f32_bits option"
  | PeerHello socket_addr bytes
  | RemoteClipboard clipboard_content
  | NativeFileClipboard rstring rstring
  | PublicationFallback clipboard_fallback
  | NativeClipboard clipboard_content
  | ClipboardProtocol socket_addr proto_event

datatype proxy_request =
    PrInput input_event socket_addr
  | PrPlacePointer position "f32_bits option"
  | PrHidePointer
  | PrStepInside edge
  | PrRemove socket_addr
  | PrTerminate
  | PrReenable
  | PrSetBackend "emulation_backend option"
  | PrSetInputSharing bool
  | PrSetIndependentPointers bool
  | PrPublishFileClipboard "(rstring \<times> bytes) list"

datatype emu_phase = Starting | Running bool | Inactive | Stopped

record emulation_task = input_emulation +
  et_backend :: "emulation_backend option"
  et_emulation_ready :: bool
  et_input_sharing :: bool
  et_independent_pointers :: bool
  et_exit_requested :: bool
  et_restart_now :: bool
  et_requests :: "proxy_request list"
  et_events :: "emulation_event list"
  et_handles :: "(socket_addr, emulation_handle) hash_map"
  et_pressed_buttons :: "(socket_addr, u32 list) hash_map"
  et_next_id :: u64
  et_phase :: emu_phase
  et_reply :: "bool option"

record emu_env =
  ee_built :: "emulation_backend \<Rightarrow> bool"
  ee_create :: "emulation_backend \<Rightarrow> creation"
  ee_accepts :: "backend_call list \<Rightarrow> bool"
  ee_pointer_exit :: "emulation_handle \<Rightarrow> (edge \<times> f32_bits option) option"
  ee_swallow :: "emulation_handle \<Rightarrow> nat"
  ee_created :: "emulation_handle \<Rightarrow> bool"
  ee_decode_image :: "bool \<Rightarrow> bytes \<Rightarrow> (u32 \<times> u32 \<times> bytes) option"

definition post :: "emulation_event \<Rightarrow> 'a emulation_task_scheme \<Rightarrow> 'a emulation_task_scheme" where
  "post e et = et\<lparr>et_events := et_events et @ [e]\<rparr>"

section \<open>The devices of a session\<close>

text \<open>The flag is whether the backend accepted every release.\<close>

primrec release_buttons ::
  "emu_env \<Rightarrow> emulation_handle \<Rightarrow> u32 list \<Rightarrow> 'a emulation_task_scheme \<times> bool \<Rightarrow> 'a emulation_task_scheme \<times> bool" where
  "release_buttons env h [] r = r"
| "release_buttons env h (button # buttons) r =
     (let (et, ok) = ie_consume (ee_accepts env) (Pointer (Button 0 button 0)) h (fst r) in
      release_buttons env h buttons (et, snd r \<and> ok))"

definition release_client :: "emu_env \<Rightarrow> socket_addr \<Rightarrow> 'a emulation_task_scheme \<Rightarrow> 'a emulation_task_scheme \<times> bool" where
  "release_client env addr et = (case hm_get (et_handles et) addr of
     None \<Rightarrow> (et\<lparr>et_pressed_buttons := hm_remove addr (et_pressed_buttons et)\<rparr>, True)
   | Some h \<Rightarrow>
       let buttons = (case hm_get (et_pressed_buttons et) addr of None \<Rightarrow> [] | Some bs \<Rightarrow> bs);
           et = et\<lparr>et_handles := hm_remove addr (et_handles et),
                   et_pressed_buttons := hm_remove addr (et_pressed_buttons et)\<rparr>;
           (et, ok) = release_buttons env h buttons (et, True) in
       (ie_destroy (ee_accepts env) h et, ok))"

primrec release_clients ::
  "emu_env \<Rightarrow> socket_addr list \<Rightarrow> 'a emulation_task_scheme \<times> bool \<Rightarrow> 'a emulation_task_scheme \<times> bool" where
  "release_clients env [] r = r"
| "release_clients env (addr # addrs) r =
     (let (et, ok) = release_client env addr (fst r) in release_clients env addrs (et, snd r \<and> ok))"

definition client_handle :: "socket_addr \<Rightarrow> 'a emulation_task_scheme \<Rightarrow> 'a emulation_task_scheme \<times> emulation_handle" where
  "client_handle addr et = (case hm_get (et_handles et) addr of
     Some h \<Rightarrow> (et, h)
   | None \<Rightarrow>
       let h = et_next_id et;
           et = fst (ie_create h (et\<lparr>et_next_id := et_next_id et + 1\<rparr>)) in
       (et\<lparr>et_handles := hm_insert addr h (et_handles et)\<rparr>, h))"

definition track_button :: "input_event \<Rightarrow> socket_addr \<Rightarrow> 'a emulation_task_scheme \<Rightarrow> 'a emulation_task_scheme" where
  "track_button event addr et = (case event of
     Pointer (Button _ button state) \<Rightarrow>
       let buttons = (case hm_get (et_pressed_buttons et) addr of None \<Rightarrow> [] | Some bs \<Rightarrow> bs) in
       et\<lparr>et_pressed_buttons := hm_insert addr
            (if state = 0 then removeAll button buttons else List.insert button buttons) (et_pressed_buttons et)\<rparr>
   | _ \<Rightarrow> et)"

definition session_input ::
  "emu_env \<Rightarrow> input_event \<Rightarrow> socket_addr \<Rightarrow> 'a emulation_task_scheme \<Rightarrow> 'a emulation_task_scheme \<times> bool" where
  "session_input env event addr et =
     (if \<not> et_input_sharing et then (et, True)
      else let (et, h) = client_handle addr et;
               et = track_button event addr et;
               (et, ok) = ie_consume (ee_accepts env) event h et in
        if \<not> ok then (et, False)
        else case ee_pointer_exit env h of
          Some (edge, along) \<Rightarrow> (post (PointerEdgeEvent addr edge along) et, True)
        | None \<Rightarrow> (et, True))"

section \<open>Requests during a session\<close>

datatype session_result = Go | Break

definition session_request ::
  "emu_env \<Rightarrow> proxy_request \<Rightarrow> 'a emulation_task_scheme \<Rightarrow> 'a emulation_task_scheme \<times> session_result" where
  "session_request env request et =
     (let go_on = (\<lambda>(et, ok). (et, if ok then Go else Break)) in
      case request of
        PrInput event addr \<Rightarrow> go_on (session_input env event addr et)
      | PrRemove addr \<Rightarrow> go_on (release_client env addr et)
      | PrSetIndependentPointers enabled \<Rightarrow> (call (CallIndependentPointers enabled) et, Go)
      | PrStepInside edge \<Rightarrow> (call (CallStepInside edge) et, Go)
      | PrHidePointer \<Rightarrow> (call CallHidePointer et, Go)
      | PrPlacePointer side along \<Rightarrow> (call (CallPlacePointer (to_ipc_pos side) along) et, Go)
      | PrSetInputSharing enabled \<Rightarrow>
          if enabled then (et, Go) else go_on (release_clients env (map fst (et_handles et)) (et, True))
      | PrTerminate \<Rightarrow> (et, Break)
      | PrReenable \<Rightarrow> (et, Go)
      | PrSetBackend backend \<Rightarrow> (et\<lparr>et_backend := backend, et_restart_now := True\<rparr>, Break)
      | PrPublishFileClipboard contents \<Rightarrow>
          let (et, ok) = ie_set_file_clipboard (ee_accepts env) contents et in
          (et\<lparr>et_reply := Some ok\<rparr>, Go))"

section \<open>The native clipboard\<close>

definition MAX_HISTORY_IMAGE_BYTES :: nat where "MAX_HISTORY_IMAGE_BYTES = 32 * 1024 * 1024"

text \<open>\<open>decoded\<close> is what the image library makes of the data: the dimensions and the pixels.\<close>

definition decode_native_image :: "(u32 \<times> u32 \<times> bytes) option \<Rightarrow> (u32 \<times> u32 \<times> bytes) option" where
  "decode_native_image decoded = (case decoded of
     None \<Rightarrow> None
   | Some (width, height, rgba) \<Rightarrow>
       (case checked_mul (ucast width :: u64) (ucast height) of
          None \<Rightarrow> None
        | Some pixels \<Rightarrow>
            (case checked_mul pixels 4 of
               None \<Rightarrow> None
             | Some rgba_bytes \<Rightarrow>
                 if unat rgba_bytes > MAX_HISTORY_IMAGE_BYTES then None else Some (width, height, rgba))))"

definition native_event :: "emu_env \<Rightarrow> rstring \<Rightarrow> bytes \<Rightarrow> emulation_event option" where
  "native_event env mime_type data =
     (if mime_type = lit ''image/png'' \<or> mime_type = lit ''image/jpeg'' \<or> mime_type = lit ''image/jpg''
      then if length data > 64 * 1024 * 1024 then None
        else map_option (\<lambda>(width, height, rgba). NativeClipboard (ClipImage width height rgba))
          (decode_native_image (ee_decode_image env (mime_type = lit ''image/png'') data))
      else if mime_type = lit ''text/plain;charset=utf-8'' \<or> mime_type = lit ''text/plain'' \<or> mime_type = lit ''UTF8_STRING''
      then if utf8_valid data then Some (NativeClipboard (ClipText data)) else None
      else if utf8_valid data then Some (NativeFileClipboard mime_type data) else None)"

definition native_clipboard ::
  "emu_env \<Rightarrow> rstring \<Rightarrow> bytes \<Rightarrow> 'a emulation_task_scheme \<Rightarrow> 'a emulation_task_scheme" where
  "native_clipboard env mime_type data et = (case native_event env mime_type data of
     Some event \<Rightarrow> post event et | None \<Rightarrow> et)"

section \<open>Sessions\<close>

text \<open>What \<open>run\<close> does after \<open>do_emulation\<close> returned.\<close>

definition after_session :: "'a emulation_task_scheme \<Rightarrow> 'a emulation_task_scheme" where
  "after_session et =
     (if et_exit_requested et then et\<lparr>et_phase := Stopped\<rparr>
      else if et_restart_now et then et\<lparr>et_restart_now := False, et_phase := Starting\<rparr>
      else et\<lparr>et_phase := Inactive\<rparr>)"

text \<open>\<open>terminate\<close> of the backend, then the drop of the guard.\<close>

definition end_session :: "emu_env \<Rightarrow> 'a emulation_task_scheme \<Rightarrow> 'a emulation_task_scheme" where
  "end_session env et =
     (let et = ie_terminate (ee_accepts env) et in
      after_session (post EmulationDisabled (et\<lparr>et_emulation_ready := False\<rparr>)))"

text \<open>\<open>wait_for_termination\<close> for at most \<open>n\<close> requests: it takes and drops every request until the one to terminate.\<close>

primrec wait_for_termination :: "nat \<Rightarrow> 'a emulation_task_scheme \<Rightarrow> 'a emulation_task_scheme \<times> bool" where
  "wait_for_termination 0 et = (et, False)"
| "wait_for_termination (Suc n) et = (case et_requests et of
     [] \<Rightarrow> (et, False)
   | request # rest \<Rightarrow>
       let et = et\<lparr>et_requests := rest\<rparr> in
       (case request of
          PrTerminate \<Rightarrow> (et, True)
        | PrPublishFileClipboard _ \<Rightarrow> wait_for_termination n (et\<lparr>et_reply := Some False\<rparr>)
        | _ \<Rightarrow> wait_for_termination n et))"

primrec create_clients_loop :: "emu_env \<Rightarrow> emulation_handle list \<Rightarrow> 'a emulation_task_scheme \<Rightarrow> 'a emulation_task_scheme" where
  "create_clients_loop env [] et = et"
| "create_clients_loop env (h # hs) et =
     (let (et, terminated) = wait_for_termination (ee_swallow env h) et in
      if terminated then (if ee_created env h then fst (ie_create h et) else et)
      else create_clients_loop env hs (fst (ie_create h et)))"

definition create_clients :: "emu_env \<Rightarrow> 'a emulation_task_scheme \<Rightarrow> 'a emulation_task_scheme" where
  "create_clients env et =
     (if \<not> et_input_sharing et then et\<lparr>et_handles := [], et_pressed_buttons := []\<rparr>
      else create_clients_loop env (map snd (et_handles et)) et)"

definition start_session :: "emu_env \<Rightarrow> emulation_backend \<Rightarrow> 'a emulation_task_scheme \<Rightarrow> 'a emulation_task_scheme" where
  "start_session env b et =
     (let et = et\<lparr>ie_handles := [], ie_pressed_keys := [], ie_calls := []\<rparr>;
          et = call (CallIndependentPointers (et_independent_pointers et)) et;
          et = post (EmulationEnabled (backend_name b)) (et\<lparr>et_emulation_ready := True\<rparr>) in
      (create_clients env et)\<lparr>et_phase := Running True\<rparr>)"

text \<open>The end of the initialization: a backend, an error, or nothing before the deadline.\<close>

definition initialized :: "emu_env \<Rightarrow> 'a emulation_task_scheme \<Rightarrow> 'a emulation_task_scheme" where
  "initialized env et = (case choose_backend (ee_built env) (ee_create env) (et_backend et) of
     Selected b \<Rightarrow> start_session env b et
   | _ \<Rightarrow> after_session et)"

definition initialization_timed_out :: "'a emulation_task_scheme \<Rightarrow> 'a emulation_task_scheme" where
  "initialization_timed_out et = after_session et"

definition starting_request :: "proxy_request \<Rightarrow> 'a emulation_task_scheme \<Rightarrow> 'a emulation_task_scheme" where
  "starting_request request et = (case request of
     PrSetBackend backend \<Rightarrow> after_session (et\<lparr>et_backend := backend, et_restart_now := True\<rparr>)
   | PrReenable \<Rightarrow> et
   | PrTerminate \<Rightarrow> after_session (et\<lparr>et_exit_requested := True\<rparr>)
   | PrSetInputSharing enabled \<Rightarrow>
       (let et = et\<lparr>et_input_sharing := enabled\<rparr> in
        if enabled then et else et\<lparr>et_handles := [], et_pressed_buttons := []\<rparr>)
   | PrRemove addr \<Rightarrow>
       et\<lparr>et_handles := hm_remove addr (et_handles et), et_pressed_buttons := hm_remove addr (et_pressed_buttons et)\<rparr>
   | PrPublishFileClipboard _ \<Rightarrow> et\<lparr>et_reply := Some False\<rparr>
   | _ \<Rightarrow> et)"

text \<open>The loop of \<open>run\<close> that waits to be enabled again.\<close>

definition inactive_request :: "proxy_request \<Rightarrow> 'a emulation_task_scheme \<Rightarrow> 'a emulation_task_scheme" where
  "inactive_request request et = (case request of
     PrReenable \<Rightarrow> et\<lparr>et_phase := Starting\<rparr>
   | PrSetBackend backend \<Rightarrow> et\<lparr>et_backend := backend, et_phase := Starting\<rparr>
   | PrTerminate \<Rightarrow> et\<lparr>et_phase := Stopped\<rparr>
   | PrSetInputSharing enabled \<Rightarrow> if enabled then et else et\<lparr>et_handles := [], et_pressed_buttons := []\<rparr>
   | PrPublishFileClipboard _ \<Rightarrow> et\<lparr>et_reply := Some False\<rparr>
   | _ \<Rightarrow> et)"

section \<open>Steps of the task\<close>

definition running_request :: "emu_env \<Rightarrow> proxy_request \<Rightarrow> 'a emulation_task_scheme \<Rightarrow> 'a emulation_task_scheme" where
  "running_request env request et = (case session_request env request et of
     (et, Go) \<Rightarrow> et
   | (et, Break) \<Rightarrow> end_session env et)"

definition clipboard_event ::
  "emu_env \<Rightarrow> (rstring \<times> bytes) option \<Rightarrow> 'a emulation_task_scheme \<Rightarrow> 'a emulation_task_scheme" where
  "clipboard_event env clipboard et = (case clipboard of
     None \<Rightarrow> et\<lparr>et_phase := Running False\<rparr>
   | Some (mime_type, data) \<Rightarrow> native_clipboard env mime_type data et)"

datatype emu_step = Initialized | TimedOut | TakeRequest | NativeClipboardEvent "(rstring \<times> bytes) option" | HealthCheck bool

definition take_request :: "emu_env \<Rightarrow> 'a emulation_task_scheme \<Rightarrow> 'a emulation_task_scheme option" where
  "take_request env et = (case et_requests et of
     [] \<Rightarrow> None
   | request # rest \<Rightarrow>
       let et = et\<lparr>et_requests := rest\<rparr> in
       (case et_phase et of
          Starting \<Rightarrow> Some (starting_request request et)
        | Running _ \<Rightarrow> Some (running_request env request et)
        | Inactive \<Rightarrow> Some (inactive_request request et)
        | Stopped \<Rightarrow> None))"

definition emu_exec :: "emu_env \<Rightarrow> emu_step \<Rightarrow> 'a emulation_task_scheme \<Rightarrow> 'a emulation_task_scheme option" where
  "emu_exec env step et = (case step of
     Initialized \<Rightarrow> if et_phase et = Starting then Some (initialized env et) else None
   | TimedOut \<Rightarrow> if et_phase et = Starting then Some (initialization_timed_out et) else None
   | TakeRequest \<Rightarrow> take_request env et
   | NativeClipboardEvent clipboard \<Rightarrow>
       if et_phase et = Running True then Some (clipboard_event env clipboard et) else None
   | HealthCheck healthy \<Rightarrow>
       (case et_phase et of
          Running _ \<Rightarrow> Some (if healthy then et else end_session env et)
        | _ \<Rightarrow> None))"

end
