(* ===== verification/Listen_Task.thy ===== *)
theory Listen_Task
  imports Emulation_Task Proto_Codec
begin

text \<open>
  The listen task of \<open>crates/syntra-core/src/emulation.rs\<close>: which peers' pointers are on this screen, through
  which edge each entered, when a pointer goes back or is handed on, and the reassembly of the
  clipboards peers send. It shares channels and cells with the emulation task, so its record extends that
  one; the local variables of \<open>run\<close> are fields too. \<open>lt_trace\<close> is what the task received, answered,
  asked of the emulation task and told the service, in order.
\<close>

datatype emulation_request =
    ReqReenable
  | ReqSetBackend "emulation_backend option"
  | ReqRelease socket_addr "f32_bits option"
  | ReqChangePort u16
  | ReqCaptureReady bool
  | ReqSetInputSharing bool
  | ReqSetIndependentPointers bool
  | ReqSetHopBypass bool
  | ReqSetMultiHop bool
  | ReqStepInside edge
  | ReqPlacePointer edge
  | ReqHidePointer
  | ReqSetPeerSides "(ip_addr, position) hash_map" "(position, rstring) hash_map"
  | ReqSetUnavailablePeers "rstring list"
  | ReqSendProto socket_addr proto_event
  | ReqPublishFileClipboard "(rstring \<times> bytes) list" clipboard_fallback
  | ReqTerminate

datatype listen_effect =
    Got socket_addr proto_event
  | Requested emulation_request
  | Replied socket_addr proto_event
  | Notified emulation_event
  | Asked proxy_request
  | PortRequested u16
  | ListenerClosed

datatype clipboard_transfer_kind = TransferText | TransferImage u32 u32

record clipboard_transfer =
  cx_kind :: clipboard_transfer_kind
  cx_next :: u32
  cx_chunks :: u32
  cx_total_len :: nat
  cx_bytes :: bytes
  cx_started :: nat

record listen_task = emulation_task +
  ep_emulation_active :: bool
  lt_capture_ready :: bool
  lt_independent_pointers :: bool
  lt_input_sharing :: bool
  lt_active_inputs :: "socket_addr list"
  lt_return_position_peers :: "socket_addr list"
  lt_entered_from :: "(socket_addr, position) hash_map"
  lt_peer_sides :: "(ip_addr, position) hash_map"
  lt_peer_beyond :: "(position, rstring) hash_map"
  lt_hop_bypass :: bool
  lt_multi_hop :: bool
  lt_peer_fingerprints :: "(socket_addr, rstring) hash_map"
  lt_last_entry :: "(edge \<times> nat) option"
  lt_entry_along :: "f32_bits option"
  lt_unavailable_peers :: "rstring list"
  lt_handoff_cooldown :: "(position, nat) hash_map"
  lt_last_response :: "(socket_addr, nat) hash_map"
  lt_clipboard_transfers :: "(socket_addr \<times> u64, clipboard_transfer) hash_map"
  lt_rejected_connections :: "(rstring, nat) hash_map"
  lt_stale_leaves :: "(socket_addr, nat) hash_map"
  lt_publishing :: "clipboard_fallback option"
  lt_running :: bool
  lt_trace :: "listen_effect list"

record listen_env =
  le_now :: nat
  le_fingerprint :: "socket_addr \<Rightarrow> rstring option"
  le_local_commit :: bytes
  le_port_changed :: "u16 \<Rightarrow> u16 option"

definition PEER_SILENCE_TIMEOUT :: nat where "PEER_SILENCE_TIMEOUT = 3000"
definition HANDOFF_COOLDOWN :: nat where "HANDOFF_COOLDOWN = 3000"
definition CLIPBOARD_TRANSFER_TIMEOUT :: nat where "CLIPBOARD_TRANSFER_TIMEOUT = 30000"

lemmas listen_consts = PEER_SILENCE_TIMEOUT_def HANDOFF_COOLDOWN_def CLIPBOARD_TRANSFER_TIMEOUT_def

definition lt_new :: "emulation_backend option \<Rightarrow> listen_task" where
  "lt_new backend = \<lparr>
     ie_handles = [], ie_pressed_keys = [], ie_calls = [],
     et_backend = backend, et_emulation_ready = False, et_input_sharing = True, et_independent_pointers = False,
     et_exit_requested = False, et_restart_now = False, et_requests = [], et_events = [], et_handles = [],
     et_pressed_buttons = [], et_next_id = 0, et_phase = Starting, et_reply = None,
     ep_emulation_active = False, lt_capture_ready = False, lt_independent_pointers = False, lt_input_sharing = True,
     lt_active_inputs = [], lt_return_position_peers = [], lt_entered_from = [], lt_peer_sides = [], lt_peer_beyond = [],
     lt_hop_bypass = False, lt_multi_hop = True, lt_peer_fingerprints = [], lt_last_entry = None, lt_entry_along = None,
     lt_unavailable_peers = [], lt_handoff_cooldown = [], lt_last_response = [], lt_clipboard_transfers = [],
     lt_rejected_connections = [], lt_stale_leaves = [], lt_publishing = None, lt_running = True, lt_trace = []\<rparr>"

definition log_effect :: "listen_effect \<Rightarrow> listen_task \<Rightarrow> listen_task" where
  "log_effect e lt = lt\<lparr>lt_trace := lt_trace lt @ [e]\<rparr>"

definition reply :: "socket_addr \<Rightarrow> proto_event \<Rightarrow> listen_task \<Rightarrow> listen_task" where
  "reply addr event lt = log_effect (Replied addr event) lt"

definition notify :: "emulation_event \<Rightarrow> listen_task \<Rightarrow> listen_task" where
  "notify event lt = log_effect (Notified event) lt"

section \<open>The proxy\<close>

definition ask :: "proxy_request \<Rightarrow> listen_task \<Rightarrow> listen_task" where
  "ask request lt = log_effect (Asked request) (lt\<lparr>et_requests := et_requests lt @ [request]\<rparr>)"

definition ep_consume :: "input_event \<Rightarrow> socket_addr \<Rightarrow> listen_task \<Rightarrow> listen_task" where
  "ep_consume event addr lt =
     (if ep_emulation_active lt \<and> et_input_sharing lt then ask (PrInput event addr) lt else lt)"

definition ep_remove :: "socket_addr \<Rightarrow> listen_task \<Rightarrow> listen_task" where
  "ep_remove addr lt = ask (PrRemove addr) lt"

definition ep_place_pointer_along :: "position \<Rightarrow> f32_bits option \<Rightarrow> listen_task \<Rightarrow> listen_task" where
  "ep_place_pointer_along side along lt = ask (PrPlacePointer side along) lt"

definition ep_set_independent_pointers :: "bool \<Rightarrow> listen_task \<Rightarrow> listen_task" where
  "ep_set_independent_pointers enabled lt =
     ask (PrSetIndependentPointers enabled) (lt\<lparr>et_independent_pointers := enabled\<rparr>)"

definition ep_set_input_sharing :: "bool \<Rightarrow> listen_task \<Rightarrow> listen_task" where
  "ep_set_input_sharing enabled lt = ask (PrSetInputSharing enabled) (lt\<lparr>et_input_sharing := enabled\<rparr>)"

definition ep_terminate :: "listen_task \<Rightarrow> listen_task" where
  "ep_terminate lt = ask PrTerminate (lt\<lparr>et_exit_requested := True\<rparr>)"

text \<open>\<open>event\<close>: the next event of the emulation task.\<close>

definition ep_event :: "emulation_event \<Rightarrow> listen_task \<Rightarrow> listen_task" where
  "ep_event event lt = (case event of
     EmulationEnabled _ \<Rightarrow> lt\<lparr>ep_emulation_active := True\<rparr>
   | EmulationDisabled \<Rightarrow> lt\<lparr>ep_emulation_active := False\<rparr>
   | _ \<Rightarrow> lt)"

section \<open>Control of this screen\<close>

definition edge_matches :: "position \<Rightarrow> edge \<Rightarrow> bool" where
  "edge_matches entered edge \<longleftrightarrow> (entered, edge) \<in> {(Left, LeftEdge), (Right, RightEdge), (Top, TopEdge), (Bottom, BottomEdge)}"

definition handoff_allowed :: "rstring list \<Rightarrow> (position, nat) hash_map \<Rightarrow> rstring \<Rightarrow> position \<Rightarrow> nat \<Rightarrow> bool" where
  "handoff_allowed unavailable cooldown target side now \<longleftrightarrow>
     target \<notin> set unavailable \<and> (case hm_get cooldown side of None \<Rightarrow> True | Some until \<Rightarrow> now \<ge> until)"

definition input_accepted :: "bool \<Rightarrow> bool \<Rightarrow> bool \<Rightarrow> bool \<Rightarrow> bool" where
  "input_accepted sharing emulation_ready capture_ready independent \<longleftrightarrow>
     sharing \<and> emulation_ready \<and> (capture_ready \<or> independent)"

definition accepts_input :: "listen_task \<Rightarrow> bool" where
  "accepts_input lt = input_accepted (lt_input_sharing lt) (et_emulation_ready lt) (lt_capture_ready lt)
     (lt_independent_pointers lt)"

definition f32_is_finite :: "f32_bits \<Rightarrow> bool" where
  "f32_is_finite bits \<longleftrightarrow> drop_bit 23 bits AND 0xFF \<noteq> 0xFF"

definition return_pointer :: "socket_addr \<Rightarrow> f32_bits option \<Rightarrow> listen_task \<Rightarrow> listen_task" where
  "return_pointer addr along lt =
     reply addr (case along of
       Some a \<Rightarrow> if f32_is_finite a \<and> addr \<in> set (lt_return_position_peers lt) then LeaveAt a else Leave 0
     | None \<Rightarrow> Leave 0) lt"

definition end_control_at :: "socket_addr \<Rightarrow> f32_bits option \<Rightarrow> listen_task \<Rightarrow> listen_task" where
  "end_control_at addr along lt =
     (let was_active = addr \<in> set (lt_active_inputs lt);
          lt = lt\<lparr>lt_active_inputs := removeAll addr (lt_active_inputs lt)\<rparr>;
          lt = (if was_active
                then notify (PeerLeft addr (map_option to_ipc_pos (hm_get (lt_entered_from lt) addr)) along) lt else lt) in
      if was_active \<and> lt_active_inputs lt = [] then notify NoLongerControlled lt else lt)"

definition end_control :: "socket_addr \<Rightarrow> listen_task \<Rightarrow> listen_task" where
  "end_control addr lt = end_control_at addr None lt"

definition side_of :: "rstring \<Rightarrow> (position, rstring) hash_map \<Rightarrow> position option" where
  "side_of fingerprint beyond = map_option fst (find (\<lambda>(_, f). f = fingerprint) beyond)"

definition entry_side :: "position \<Rightarrow> position option \<Rightarrow> rstring \<Rightarrow> socket_addr \<Rightarrow> listen_task \<Rightarrow> position" where
  "entry_side pos through fingerprint addr lt =
     (let layout_side = (case side_of fingerprint (lt_peer_beyond lt) of
            Some side \<Rightarrow> Some side | None \<Rightarrow> hm_get (lt_peer_sides lt) (fst addr)) in
      case through of
        Some side \<Rightarrow> side
      | None \<Rightarrow> (case layout_side of Some side \<Rightarrow> side | None \<Rightarrow> pos))"

definition handle_enter ::
  "listen_env \<Rightarrow> socket_addr \<Rightarrow> position \<Rightarrow> position option \<Rightarrow> f32_bits option \<Rightarrow> listen_task \<Rightarrow> listen_task" where
  "handle_enter env addr pos through along lt =
     (if \<not> accepts_input lt then reply addr (Leave 0) (ep_remove addr lt)
      else case le_fingerprint env addr of
        None \<Rightarrow> reply addr (Leave 0) lt
      | Some fingerprint \<Rightarrow>
          let side = entry_side pos through fingerprint addr lt;
              first_enter = addr \<notin> set (lt_active_inputs lt);
              lt = lt\<lparr>lt_active_inputs := List.insert addr (lt_active_inputs lt),
                      lt_entered_from := hm_insert addr side (lt_entered_from lt)\<rparr>;
              places = first_enter \<and> lt_multi_hop lt;
              lt = (if places then lt\<lparr>lt_last_entry := Some (to_ipc_pos side, le_now env)\<rparr> else lt);
              lt = (if first_enter then lt\<lparr>lt_entry_along := along\<rparr> else lt);
              lt = notify ReleaseNotify lt;
              lt = notify (PeerEntered addr (to_ipc_pos side) fingerprint first_enter (through \<noteq> None) along) lt;
              lt = (if places then ep_place_pointer_along side along lt else lt) in
          reply addr (Ack 0) lt)"

definition position_of_edge :: "edge \<Rightarrow> position" where
  "position_of_edge edge = (case edge of LeftEdge \<Rightarrow> Left | RightEdge \<Rightarrow> Right | TopEdge \<Rightarrow> Top | BottomEdge \<Rightarrow> Bottom)"

text \<open>The guards of \<open>start_handoff\<close>: the certificate of the device the pointer of \<open>addr\<close> may be handed to.\<close>

definition handoff_target :: "listen_env \<Rightarrow> socket_addr \<Rightarrow> edge \<Rightarrow> listen_task \<Rightarrow> rstring option" where
  "handoff_target env addr edge lt =
     (let side = position_of_edge edge in
      if \<not> lt_multi_hop lt \<or> addr \<notin> set (lt_active_inputs lt) then None
      else case hm_get (lt_peer_beyond lt) side of
        None \<Rightarrow> None
      | Some target \<Rightarrow>
          if \<not> handoff_allowed (lt_unavailable_peers lt) (lt_handoff_cooldown lt) target side (le_now env) then None
          else if hm_get (lt_peer_fingerprints lt) addr = Some target
            \<and> (case hm_get (lt_entered_from lt) addr of Some pos \<Rightarrow> edge_matches pos edge | None \<Rightarrow> False) then None
          else Some target)"

definition start_handoff :: "listen_env \<Rightarrow> socket_addr \<Rightarrow> edge \<Rightarrow> listen_task \<Rightarrow> listen_task \<times> bool" where
  "start_handoff env addr edge lt = (case handoff_target env addr edge lt of
     None \<Rightarrow> (lt, False)
   | Some target \<Rightarrow>
       let lt = end_control addr lt;
           lt = lt\<lparr>lt_entered_from := hm_remove addr (lt_entered_from lt)\<rparr>;
           lt = ep_remove addr lt in
       (reply addr (Handoff target (position_of_edge edge)) lt, True))"

definition handoff_refused :: "listen_env \<Rightarrow> socket_addr \<Rightarrow> position \<Rightarrow> listen_task \<Rightarrow> listen_task" where
  "handoff_refused env addr side lt =
     (let lt = lt\<lparr>lt_handoff_cooldown := hm_insert side (le_now env + HANDOFF_COOLDOWN) (lt_handoff_cooldown lt),
                  lt_active_inputs := List.insert addr (lt_active_inputs lt),
                  lt_entered_from := hm_insert addr
                    (case hm_get (lt_peer_sides lt) (fst addr) of Some pos \<Rightarrow> pos | None \<Rightarrow> side) (lt_entered_from lt)\<rparr> in
      ep_place_pointer_along side None lt)"

section \<open>Clipboards\<close>

definition cx_new :: "listen_env \<Rightarrow> clipboard_transfer_kind \<Rightarrow> u32 \<Rightarrow> u32 \<Rightarrow> clipboard_transfer" where
  "cx_new env kind total_len chunks =
     \<lparr>cx_kind = kind, cx_next = 0, cx_chunks = chunks, cx_total_len = unat total_len, cx_bytes = [], cx_started = le_now env\<rparr>"

definition start_clipboard_transfer :: "socket_addr \<Rightarrow> u64 \<Rightarrow> clipboard_transfer \<Rightarrow>
    (socket_addr \<times> u64, clipboard_transfer) hash_map \<Rightarrow> (socket_addr \<times> u64, clipboard_transfer) hash_map" where
  "start_clipboard_transfer addr transfer_id transfer transfers =
     hm_insert (addr, transfer_id) transfer (hm_retain (\<lambda>(peer, _) _. peer \<noteq> addr) transfers)"

definition clipboard_content_of :: "clipboard_transfer \<Rightarrow> clipboard_content option" where
  "clipboard_content_of transfer = (case cx_kind transfer of
     TransferText \<Rightarrow> if utf8_valid (cx_bytes transfer) then Some (ClipText (cx_bytes transfer)) else None
   | TransferImage width height \<Rightarrow> Some (ClipImage width height (cx_bytes transfer)))"

definition clipboard_chunk :: "socket_addr \<Rightarrow> u64 \<Rightarrow> u32 \<Rightarrow> bytes \<Rightarrow> listen_task \<Rightarrow> listen_task" where
  "clipboard_chunk addr transfer_id index data lt =
     (let key = (addr, transfer_id) in
      case hm_get (lt_clipboard_transfers lt) key of
        None \<Rightarrow> lt
      | Some transfer \<Rightarrow>
          if index = cx_next transfer \<and> length data \<le> MAX_CLIPBOARD_CHUNK_SIZE
             \<and> length (cx_bytes transfer) + length data \<le> cx_total_len transfer
          then let transfer = transfer\<lparr>cx_bytes := cx_bytes transfer @ data, cx_next := cx_next transfer + 1\<rparr>;
                   complete = (cx_next transfer = cx_chunks transfer \<and> length (cx_bytes transfer) = cx_total_len transfer) in
            if complete
            then let lt = lt\<lparr>lt_clipboard_transfers := hm_remove key (lt_clipboard_transfers lt)\<rparr> in
              (case clipboard_content_of transfer of Some content \<Rightarrow> notify (RemoteClipboard content) lt | None \<Rightarrow> lt)
            else if cx_next transfer = cx_chunks transfer
            then lt\<lparr>lt_clipboard_transfers := hm_remove key (lt_clipboard_transfers lt)\<rparr>
            else lt\<lparr>lt_clipboard_transfers := hm_insert key transfer (lt_clipboard_transfers lt)\<rparr>
          else lt\<lparr>lt_clipboard_transfers := hm_remove key (lt_clipboard_transfers lt)\<rparr>)"

section \<open>Messages of peers\<close>

definition listen_input :: "listen_env \<Rightarrow> socket_addr \<Rightarrow> input_event \<Rightarrow> listen_task \<Rightarrow> listen_task" where
  "listen_input env addr event lt =
     (if lt_input_sharing lt \<and> addr \<in> set (lt_active_inputs lt) then ep_consume event addr lt
      else if addr \<in> set (lt_active_inputs lt) then lt
      else let last = hm_get (lt_stale_leaves lt) addr;
               lt = lt\<lparr>lt_stale_leaves := hm_insert addr (le_now env) (lt_stale_leaves lt)\<rparr> in
        if (case last of None \<Rightarrow> True | Some i \<Rightarrow> le_now env - i \<ge> 500) then reply addr (Leave 0) lt else lt)"

definition is_service_event :: "proto_event \<Rightarrow> bool" where
  "is_service_event event = (case event of
     ClipboardCapabilities _ \<Rightarrow> True | ClipboardManifest _ _ \<Rightarrow> True | ClipboardFileRequest _ _ _ _ _ \<Rightarrow> True
   | ClipboardFileChunk _ _ _ _ _ \<Rightarrow> True | ClipboardFileComplete _ _ _ _ _ \<Rightarrow> True | ClipboardTransferCancel _ _ _ \<Rightarrow> True
   | ClipboardTransferProgress _ _ _ _ \<Rightarrow> True | ManualFileOffer _ _ _ \<Rightarrow> True | ManualFileDecision _ _ \<Rightarrow> True
   | ManualFileRequest _ _ _ \<Rightarrow> True | ManualFileChunk _ _ _ \<Rightarrow> True | ManualFileComplete _ _ \<Rightarrow> True
   | ManualFileResult _ _ _ \<Rightarrow> True | ManualFileCancel _ \<Rightarrow> True | HistorySyncRequest _ _ \<Rightarrow> True
   | HistoryRecordStart _ _ _ _ \<Rightarrow> True | HistoryRecordChunk _ _ _ _ \<Rightarrow> True | HistorySyncPageEnd _ _ \<Rightarrow> True
   | HistoryClearBoundaryRequest _ \<Rightarrow> True | HistoryClearBoundary _ _ \<Rightarrow> True | HistoryClearApply _ _ \<Rightarrow> True
   | HistoryClearAck _ _ _ \<Rightarrow> True | ProfileStart _ _ _ _ _ _ \<Rightarrow> True | ProfileChunk _ _ _ \<Rightarrow> True
   | ProfileRequest _ \<Rightarrow> True | ProfileChanged \<Rightarrow> True
   | _ \<Rightarrow> False)"

definition listen_dispatch :: "listen_env \<Rightarrow> socket_addr \<Rightarrow> proto_event \<Rightarrow> listen_task \<Rightarrow> listen_task" where
  "listen_dispatch env addr event lt = (case event of
     InputCapabilities bits \<Rightarrow>
       lt\<lparr>lt_return_position_peers :=
            (if bits AND CAP_RETURN_POSITION \<noteq> 0 then List.insert addr (lt_return_position_peers lt)
             else removeAll addr (lt_return_position_peers lt))\<rparr>
   | EnterVia side via \<Rightarrow> handle_enter env addr side (side_of via (lt_peer_beyond lt)) None lt
   | Enter pos \<Rightarrow> handle_enter env addr pos None None lt
   | EnterAt side along \<Rightarrow> handle_enter env addr side None (Some along) lt
   | Leave _ \<Rightarrow> reply addr (Ack 0) (ep_remove addr (end_control addr lt))
   | Input e \<Rightarrow> listen_input env addr e lt
   | Handoff target side \<Rightarrow> handoff_refused env addr side lt
   | Ping \<Rightarrow> reply addr (Pong (accepts_input lt)) lt
   | Hello commit \<Rightarrow> notify (PeerHello addr commit) (reply addr (Hello (le_local_commit env)) lt)
   | ClipboardStart transfer_id total_len chunks \<Rightarrow>
       lt\<lparr>lt_clipboard_transfers := start_clipboard_transfer addr transfer_id
            (cx_new env TransferText total_len chunks) (lt_clipboard_transfers lt)\<rparr>
   | ClipboardImageStart transfer_id width height total_len chunks \<Rightarrow>
       lt\<lparr>lt_clipboard_transfers := start_clipboard_transfer addr transfer_id
            (cx_new env (TransferImage width height) total_len chunks) (lt_clipboard_transfers lt)\<rparr>
   | ClipboardChunk transfer_id index data \<Rightarrow> clipboard_chunk addr transfer_id index data lt
   | _ \<Rightarrow> if is_service_event event then notify (ClipboardProtocol addr event) lt else lt)"

definition listen_message :: "listen_env \<Rightarrow> socket_addr \<Rightarrow> proto_event \<Rightarrow> listen_task \<Rightarrow> listen_task" where
  "listen_message env addr event lt =
     listen_dispatch env addr event
       (log_effect (Got addr event) (lt\<lparr>lt_last_response := hm_insert addr (le_now env) (lt_last_response lt)\<rparr>))"

definition listen_accept :: "listen_env \<Rightarrow> socket_addr \<Rightarrow> rstring \<Rightarrow> listen_task \<Rightarrow> listen_task" where
  "listen_accept env addr fingerprint lt =
     notify (PeerConnected addr fingerprint)
       (lt\<lparr>lt_return_position_peers := removeAll addr (lt_return_position_peers lt),
           lt_last_response := hm_insert addr (le_now env) (lt_last_response lt),
           lt_peer_fingerprints := hm_insert addr fingerprint (lt_peer_fingerprints lt)\<rparr>)"

definition listen_rejected :: "listen_env \<Rightarrow> rstring \<Rightarrow> listen_task \<Rightarrow> listen_task" where
  "listen_rejected env fingerprint lt =
     (let last = hm_get (lt_rejected_connections lt) fingerprint;
          lt = lt\<lparr>lt_rejected_connections := hm_insert fingerprint (le_now env) (lt_rejected_connections lt)\<rparr> in
      if (case last of None \<Rightarrow> True | Some i \<Rightarrow> le_now env - i \<ge> 2000)
      then notify (ConnectionAttempt fingerprint) lt else lt)"

section \<open>Events of the emulation task\<close>

definition pointer_edge :: "listen_env \<Rightarrow> socket_addr \<Rightarrow> edge \<Rightarrow> f32_bits option \<Rightarrow> listen_task \<Rightarrow> listen_task" where
  "pointer_edge env addr edge along lt =
     (let (lt, handed_on) = start_handoff env addr edge lt in
      if handed_on then lt
      else if addr \<in> set (lt_active_inputs lt)
        \<and> (case hm_get (lt_entered_from lt) addr of Some pos \<Rightarrow> edge_matches pos edge | None \<Rightarrow> False)
      then return_pointer addr along (ep_remove addr (end_control_at addr along lt))
      else lt)"

definition listen_proxy_event :: "listen_env \<Rightarrow> emulation_event \<Rightarrow> listen_task \<Rightarrow> listen_task" where
  "listen_proxy_event env event lt =
     (let lt = ep_event event lt in
      case event of
        PointerEdgeEvent addr edge along \<Rightarrow> pointer_edge env addr edge along lt
      | _ \<Rightarrow> notify event lt)"

section \<open>Requests of the service\<close>

primrec sharing_off :: "socket_addr list \<Rightarrow> listen_task \<Rightarrow> listen_task" where
  "sharing_off [] lt = lt"
| "sharing_off (addr # addrs) lt = sharing_off addrs (reply addr (Leave 0) (ep_remove addr lt))"

definition set_input_sharing :: "bool \<Rightarrow> listen_task \<Rightarrow> listen_task" where
  "set_input_sharing enabled lt =
     (let lt = ep_set_input_sharing enabled (lt\<lparr>lt_input_sharing := enabled\<rparr>) in
      if enabled then lt else sharing_off (lt_active_inputs lt) (lt\<lparr>lt_active_inputs := []\<rparr>))"

definition listen_request :: "listen_env \<Rightarrow> emulation_request \<Rightarrow> listen_task \<Rightarrow> listen_task" where
  "listen_request env request lt0 =
     (let lt = log_effect (Requested request) lt0 in
      case request of
        ReqReenable \<Rightarrow> ask PrReenable lt
      | ReqSetBackend backend \<Rightarrow> ask (PrSetBackend backend) lt
      | ReqRelease addr along \<Rightarrow> return_pointer addr along lt
      | ReqChangePort port \<Rightarrow> notify (PortChanged (le_port_changed env port)) (log_effect (PortRequested port) lt)
      | ReqCaptureReady ready \<Rightarrow> lt\<lparr>lt_capture_ready := ready\<rparr>
      | ReqSetIndependentPointers enabled \<Rightarrow>
          ep_set_independent_pointers enabled (lt\<lparr>lt_independent_pointers := enabled\<rparr>)
      | ReqSetHopBypass enabled \<Rightarrow> lt\<lparr>lt_hop_bypass := enabled\<rparr>
      | ReqSetMultiHop enabled \<Rightarrow> lt\<lparr>lt_multi_hop := enabled\<rparr>
      | ReqStepInside edge \<Rightarrow> ask (PrStepInside edge) lt
      | ReqHidePointer \<Rightarrow> ask PrHidePointer lt
      | ReqPlacePointer edge \<Rightarrow> ep_place_pointer_along (position_of_edge edge) None lt
      | ReqSetPeerSides sides beyond \<Rightarrow> lt\<lparr>lt_peer_sides := sides, lt_peer_beyond := beyond\<rparr>
      | ReqSetUnavailablePeers unavailable \<Rightarrow> lt\<lparr>lt_unavailable_peers := unavailable\<rparr>
      | ReqSetInputSharing enabled \<Rightarrow> set_input_sharing enabled lt
      | ReqSendProto addr event \<Rightarrow> reply addr event lt
      | ReqPublishFileClipboard contents fallback \<Rightarrow>
          (ask (PrPublishFileClipboard contents) lt)\<lparr>lt_publishing := Some fallback, et_reply := None\<rparr>
      | ReqTerminate \<Rightarrow> (ep_terminate (log_effect ListenerClosed lt))\<lparr>lt_running := False\<rparr>)"

text \<open>The task waits for the answer to a publication before anything else.\<close>

definition listen_published :: "bool \<Rightarrow> clipboard_fallback \<Rightarrow> listen_task \<Rightarrow> listen_task" where
  "listen_published ok fallback lt =
     (let lt = lt\<lparr>lt_publishing := None, et_reply := None\<rparr> in
      if ok then lt else notify (PublicationFallback fallback) lt)"

section \<open>Silent peers\<close>

definition expire_peer :: "socket_addr \<Rightarrow> listen_task \<Rightarrow> listen_task" where
  "expire_peer addr lt =
     (let was_active = addr \<in> set (lt_active_inputs lt);
          lt = end_control addr lt;
          lt = lt\<lparr>lt_entered_from := hm_remove addr (lt_entered_from lt),
                  lt_peer_fingerprints := hm_remove addr (lt_peer_fingerprints lt),
                  lt_return_position_peers := removeAll addr (lt_return_position_peers lt)\<rparr>;
          lt = notify (PeerDisconnected addr) (ep_remove addr lt) in
      if was_active then reply addr (Leave 0) lt else lt)"

definition peer_alive :: "listen_env \<Rightarrow> nat \<Rightarrow> bool" where
  "peer_alive env instant \<longleftrightarrow> le_now env - instant \<le> PEER_SILENCE_TIMEOUT"

definition listen_tick :: "listen_env \<Rightarrow> listen_task \<Rightarrow> listen_task" where
  "listen_tick env lt =
     (let expired = map fst (filter (\<lambda>(_, instant). \<not> peer_alive env instant) (lt_last_response lt));
          lt = lt\<lparr>lt_last_response := hm_retain (\<lambda>_ instant. peer_alive env instant) (lt_last_response lt)\<rparr>;
          lt = fold expire_peer expired lt in
      lt\<lparr>lt_clipboard_transfers := hm_retain (\<lambda>_ transfer. le_now env - cx_started transfer < CLIPBOARD_TRANSFER_TIMEOUT)
           (lt_clipboard_transfers lt)\<rparr>)"

section \<open>The two tasks together\<close>

datatype listen_step =
    ListenMessage socket_addr proto_event
  | ListenAccept socket_addr rstring
  | ListenRejected rstring
  | ListenClosed
  | ListenProxyEvent
  | ListenRequest emulation_request
  | ListenTick
  | ListenPublished
  | EmuStep emu_env emu_step

definition listen_exec :: "listen_env \<Rightarrow> listen_step \<Rightarrow> listen_task \<Rightarrow> listen_task option" where
  "listen_exec env step lt =
     (let free = lt_running lt \<and> lt_publishing lt = None in
      case step of
        ListenMessage addr event \<Rightarrow> if free then Some (listen_message env addr event lt) else None
      | ListenAccept addr fingerprint \<Rightarrow> if free then Some (listen_accept env addr fingerprint lt) else None
      | ListenRejected fingerprint \<Rightarrow> if free then Some (listen_rejected env fingerprint lt) else None
      | ListenClosed \<Rightarrow> if free then Some ((ep_terminate (log_effect ListenerClosed lt))\<lparr>lt_running := False\<rparr>) else None
      | ListenProxyEvent \<Rightarrow>
          (case et_events lt of
             [] \<Rightarrow> None
           | event # rest \<Rightarrow> if free then Some (listen_proxy_event env event (lt\<lparr>et_events := rest\<rparr>)) else None)
      | ListenRequest request \<Rightarrow> if free then Some (listen_request env request lt) else None
      | ListenTick \<Rightarrow> if free then Some (listen_tick env lt) else None
      | ListenPublished \<Rightarrow>
          (case (lt_publishing lt, et_reply lt) of
             (Some fallback, Some ok) \<Rightarrow> Some (listen_published ok fallback lt)
           | (Some fallback, None) \<Rightarrow> if et_phase lt = Stopped then Some (listen_published False fallback lt) else None
           | (None, _) \<Rightarrow> None)
      | EmuStep eenv estep \<Rightarrow> emu_exec eenv estep lt)"

text \<open>The messages of peers are datagrams that decode.\<close>

definition listen_step_ok :: "listen_step \<Rightarrow> bool" where
  "listen_step_ok step = (case step of ListenMessage _ event \<Rightarrow> \<exists>bs. decode bs = Inr event | _ \<Rightarrow> True)"

inductive lt_reach :: "emulation_backend option \<Rightarrow> listen_task \<Rightarrow> bool" for backend where
  start: "lt_reach backend (lt_new backend)"
| step: "lt_reach backend lt \<Longrightarrow> listen_step_ok step \<Longrightarrow> listen_exec env step lt = Some lt' \<Longrightarrow> lt_reach backend lt'"

end
