(* ===== verification/Emulation_Invariant.thy ===== *)
theory Emulation_Invariant
  imports Emulation_Task
begin

text \<open>
  The invariant of the emulation task: during a session every device belongs to a peer, and what the
  backend holds down is what the task knows to be pressed, the keys by device and the buttons by
  peer. It holds through every request, failure, restart and change of backend.
\<close>

lemma et_more:
  assumes "input_emulation.more et' = input_emulation.more et"
  shows "et_handles et' = et_handles et" "et_pressed_buttons et' = et_pressed_buttons et" "et_next_id et' = et_next_id et"
    "et_phase et' = et_phase et" "et_emulation_ready et' = et_emulation_ready et" "et_requests et' = et_requests et"
    "et_events et' = et_events et" "et_input_sharing et' = et_input_sharing et" "et_exit_requested et' = et_exit_requested et"
    "et_restart_now et' = et_restart_now et" "et_reply et' = et_reply et" "et_backend et' = et_backend et"
    "et_independent_pointers et' = et_independent_pointers et" "emulation_task.more et' = emulation_task.more et"
  using assms by (cases et; cases et'; simp)+

lemma ie_consume_more [simp]: "input_emulation.more (fst (ie_consume accepts event h ie)) = input_emulation.more ie"
  by (simp add: ie_consume_def ie_update_pressed_keys_def Let_def split: input_event.split keyboard_event.split option.split)

lemma ie_create_more [simp]: "input_emulation.more (fst (ie_create h ie)) = input_emulation.more ie"
  by (simp add: ie_create_def)

lemma ie_consume_handles [simp]: "ie_handles (fst (ie_consume accepts event h ie)) = ie_handles ie"
  by (simp add: ie_consume_def ie_update_pressed_keys_def Let_def split: input_event.split keyboard_event.split option.split)

lemma ie_create_handles: "set (ie_handles (fst (ie_create h ie))) = insert h (set (ie_handles ie))"
  by (auto simp: ie_create_def)

lemmas call_more [simp] = et_more [OF call_fields(3)]
lemmas consume_more [simp] = et_more [OF ie_consume_more]
lemmas create_more [simp] = et_more [OF ie_create_more]
lemmas destroy_more [simp] = et_more [OF ie_destroy_more]
lemmas terminate_more [simp] = et_more [OF ie_terminate_fields(2)]

section \<open>Buttons\<close>

definition peer_buttons :: "'a emulation_task_scheme \<Rightarrow> emulation_handle \<Rightarrow> u32 set" where
  "peer_buttons et h = {b. \<exists>addr bs. hm_get (et_handles et) addr = Some h \<and> hm_get (et_pressed_buttons et) addr = Some bs \<and> b \<in> set bs}"

declare split_paired_Ex [simp del] split_paired_All [simp del]

lemma peer_buttonsI:
  "hm_get (et_handles et) addr = Some h \<Longrightarrow> hm_get (et_pressed_buttons et) addr = Some bs \<Longrightarrow> b \<in> set bs \<Longrightarrow> b \<in> peer_buttons et h"
  by (auto simp: peer_buttons_def)

lemma peer_buttonsE:
  assumes "b \<in> peer_buttons et h"
  obtains addr bs where "hm_get (et_handles et) addr = Some h" "hm_get (et_pressed_buttons et) addr = Some bs" "b \<in> set bs"
  using assms by (auto simp: peer_buttons_def)

definition buttonless :: "input_event \<Rightarrow> bool" where
  "buttonless event = (case event of Pointer (Button _ _ _) \<Rightarrow> False | _ \<Rightarrow> True)"

lemma held_buttons_consume:
  "buttonless event \<Longrightarrow> held_buttons (ie_calls (fst (ie_consume accepts event h ie))) h' = held_buttons (ie_calls ie) h'"
  "held_buttons (ie_calls (fst (ie_consume accepts (Pointer (Button t b s)) h ie))) h' =
     button_step h' (held_buttons (ie_calls ie) h') (CallConsume (Pointer (Button t b s)) h)"
  by (auto simp: ie_consume_def ie_update_pressed_keys_def buttonless_def button_step_def Let_def
      split: input_event.split keyboard_event.split option.split pointer_event.splits)

lemma held_buttons_create [simp]: "held_buttons (ie_calls (fst (ie_create h ie))) h' = held_buttons (ie_calls ie) h'"
  by (simp add: ie_create_def button_step_def)

lemma held_buttons_fold_destroy [simp]:
  "held_buttons (ie_calls (fold (ie_destroy accepts) hs ie)) h = held_buttons (ie_calls ie) h"
  by (induction hs arbitrary: ie) simp_all

lemma held_buttons_terminate [simp]: "held_buttons (ie_calls (ie_terminate accepts ie)) h = held_buttons (ie_calls ie) h"
  by (simp add: ie_terminate_def button_step_def)

section \<open>The invariant\<close>

definition is_running :: "emu_phase \<Rightarrow> bool" where
  "is_running p = (case p of Running _ \<Rightarrow> True | _ \<Rightarrow> False)"

lemma is_running_simps [simp]: "is_running (Running c)" "\<not> is_running Starting" "\<not> is_running Inactive" "\<not> is_running Stopped"
  by (simp_all add: is_running_def)

text \<open>The part that concerns the devices, and the whole.\<close>

definition devices_ok :: "'a emulation_task_scheme \<Rightarrow> bool" where
  "devices_ok et \<longleftrightarrow> ie_inv et \<and> hm_ok (et_handles et) \<and> hm_ok (et_pressed_buttons et)
     \<and> (\<forall>h \<in> set (ie_handles et). \<exists>addr. hm_get (et_handles et) addr = Some h)
     \<and> (\<forall>h. held_buttons (ie_calls et) h \<subseteq> peer_buttons et h)"

definition et_inv :: "'a emulation_task_scheme \<Rightarrow> bool" where
  "et_inv et \<longleftrightarrow> ie_inv et \<and> hm_ok (et_handles et) \<and> hm_ok (et_pressed_buttons et)
     \<and> et_emulation_ready et = is_running (et_phase et)
     \<and> (if is_running (et_phase et) then devices_ok et else ie_handles et = [])"

lemma ie_inv_cong:
  "ie_handles et' = ie_handles et \<Longrightarrow> ie_pressed_keys et' = ie_pressed_keys et \<Longrightarrow> ie_calls et' = ie_calls et \<Longrightarrow>
     ie_inv et' \<longleftrightarrow> ie_inv et"
  by (simp add: ie_inv_def keys_of_def)

definition dev_view :: "'a emulation_task_scheme \<Rightarrow> _" where
  "dev_view et = (ie_handles et, ie_pressed_keys et, ie_calls et, et_handles et, et_pressed_buttons et)"

lemma devices_ok_cong: "dev_view et' = dev_view et \<Longrightarrow> devices_ok et' \<longleftrightarrow> devices_ok et"
  using ie_inv_cong [of et' et] by (simp add: dev_view_def devices_ok_def peer_buttons_def)

lemma et_inv_cong:
  "dev_view et' = dev_view et \<Longrightarrow> et_emulation_ready et' = et_emulation_ready et \<Longrightarrow>
     is_running (et_phase et') = is_running (et_phase et) \<Longrightarrow> et_inv et' \<longleftrightarrow> et_inv et"
  using ie_inv_cong [of et' et] devices_ok_cong [of et' et] by (simp add: dev_view_def et_inv_def)

lemma et_inv_update [simp]:
  "et_inv (et\<lparr>et_backend := b\<rparr>) = et_inv et" "et_inv (et\<lparr>et_reply := r\<rparr>) = et_inv et"
  "et_inv (et\<lparr>et_requests := q\<rparr>) = et_inv et" "et_inv (et\<lparr>et_restart_now := now\<rparr>) = et_inv et"
  "et_inv (et\<lparr>et_exit_requested := exit\<rparr>) = et_inv et" "et_inv (et\<lparr>et_input_sharing := sharing\<rparr>) = et_inv et"
  "et_inv (et\<lparr>et_independent_pointers := pointers\<rparr>) = et_inv et" "et_inv (et\<lparr>et_events := events\<rparr>) = et_inv et"
  by (rule et_inv_cong; simp add: dev_view_def)+

lemma et_inv_phase:
  "et_inv et \<Longrightarrow> \<not> is_running p \<Longrightarrow> \<not> is_running (et_phase et) \<Longrightarrow> et_inv (et\<lparr>et_phase := p\<rparr>)"
  using et_inv_cong [of "et\<lparr>et_phase := p\<rparr>" et] by (simp add: dev_view_def)

lemma devices_ok_call:
  assumes "devices_ok et" and "keyless c" and "\<And>h. button_step h (held_buttons (ie_calls et) h) c = held_buttons (ie_calls et) h"
  shows "devices_ok (call c et)"
  using assms ie_inv_call [of et c] by (simp add: devices_ok_def peer_buttons_def)

section \<open>Input\<close>

lemma devices_ok_client_handle:
  assumes "devices_ok et" and "client_handle addr et = (et', h)"
  shows "devices_ok et'" and "hm_get (et_handles et') addr = Some h"
proof -
  have "devices_ok et' \<and> hm_get (et_handles et') addr = Some h"
  proof (cases "hm_get (et_handles et) addr")
    case None
    let ?et = "fst (ie_create (et_next_id et) (et\<lparr>et_next_id := et_next_id et + 1\<rparr>))"
    have et': "et' = ?et\<lparr>et_handles := hm_insert addr (et_next_id et) (et_handles et)\<rparr>" and h: "h = et_next_id et"
      using assms(2) None by (auto simp: client_handle_def Let_def)
    have "ie_inv (et\<lparr>et_next_id := et_next_id et + 1\<rparr>)" using assms(1) ie_inv_cong [of "et\<lparr>et_next_id := _\<rparr>" et] by (simp add: devices_ok_def)
    then have "ie_inv ?et" by (rule ie_inv_create)
    then have "ie_inv et'" using ie_inv_cong [of et' ?et] by (simp add: et')
    moreover have "peer_buttons et g \<subseteq> peer_buttons et' g" for g
    proof
      fix b assume "b \<in> peer_buttons et g"
      then obtain a bs where "hm_get (et_handles et) a = Some g" "hm_get (et_pressed_buttons et) a = Some bs" "b \<in> set bs"
        by (rule peer_buttonsE)
      moreover from this have "a \<noteq> addr" using None by auto
      ultimately show "b \<in> peer_buttons et' g" by (intro peer_buttonsI [of _ a _ bs]) (simp_all add: et' hash_map)
    qed
    moreover have "\<exists>a. hm_get (et_handles et') a = Some g" if "g \<in> set (ie_handles et')" for g
    proof (cases "g = h")
      case False
      with that have "g \<in> set (ie_handles et)" by (simp add: et' ie_create_handles h)
      then obtain a where "hm_get (et_handles et) a = Some g" using assms(1) by (auto simp: devices_ok_def)
      then show ?thesis using None by (auto simp: et' hash_map intro!: exI [of _ a])
    qed (auto simp: et' h hash_map)
    ultimately show ?thesis using assms(1) by (fastforce simp: devices_ok_def et' h hash_map)
  qed (use assms in \<open>auto simp: client_handle_def\<close>)
  then show "devices_ok et'" and "hm_get (et_handles et') addr = Some h" by simp_all
qed

lemma track_button_fields [simp]:
  "ie_handles (track_button event addr et) = ie_handles et" "ie_calls (track_button event addr et) = ie_calls et"
  "ie_pressed_keys (track_button event addr et) = ie_pressed_keys et" "et_handles (track_button event addr et) = et_handles et"
  "et_phase (track_button event addr et) = et_phase et" "et_emulation_ready (track_button event addr et) = et_emulation_ready et"
  by (simp_all add: track_button_def Let_def split: input_event.split pointer_event.split)

lemma track_button_buttonless: "buttonless event \<Longrightarrow> track_button event addr et = et"
  by (simp add: track_button_def buttonless_def split: input_event.splits pointer_event.splits)

lemma peer_buttons_track:
  assumes "hm_get (et_handles et) addr = Some h"
  shows "button_step g (peer_buttons et g) (CallConsume (Pointer (Button t b s)) h)
    \<subseteq> peer_buttons (track_button (Pointer (Button t b s)) addr et) g"
proof
  let ?tr = "track_button (Pointer (Button t b s)) addr et"
  define old where "old = (case hm_get (et_pressed_buttons et) addr of None \<Rightarrow> [] | Some bs \<Rightarrow> bs)"
  have buttons: "hm_get (et_pressed_buttons ?tr) a =
      (if a = addr then Some (if s = 0 then removeAll b old else List.insert b old) else hm_get (et_pressed_buttons et) a)" for a
    by (simp add: track_button_def old_def hash_map)
  have handle: "hm_get (et_handles ?tr) addr = Some h" using assms by simp
  fix x assume x: "x \<in> button_step g (peer_buttons et g) (CallConsume (Pointer (Button t b s)) h)"
  show "x \<in> peer_buttons ?tr g"
  proof (cases "h = g \<and> s \<noteq> 0 \<and> x = b")
    case True
    with handle buttons [of addr] show ?thesis by (intro peer_buttonsI [of _ addr _ "List.insert b old"]) auto
  next
    case False
    with x have "x \<in> peer_buttons et g" and released: "h = g \<Longrightarrow> s = 0 \<Longrightarrow> x \<noteq> b"
      by (auto simp: button_step_def split: if_splits)
    then obtain a bs where a: "hm_get (et_handles et) a = Some g" "hm_get (et_pressed_buttons et) a = Some bs" "x \<in> set bs"
      by (blast elim: peer_buttonsE)
    show ?thesis
    proof (cases "a = addr")
      case True
      with a assms have "h = g" and "old = bs" by (auto simp: old_def)
      with a True released show ?thesis
        by (intro peer_buttonsI [of _ addr _ "if s = 0 then removeAll b old else List.insert b old"]) (auto simp: buttons)
    next
      case False
      with a show ?thesis by (intro peer_buttonsI [of _ a _ bs]) (simp_all add: buttons)
    qed
  qed
qed

lemma devices_ok_track_consume:
  assumes ok: "devices_ok et" and h: "hm_get (et_handles et) addr = Some h"
  shows "devices_ok (fst (ie_consume accepts event h (track_button event addr et)))"
proof -
  let ?tr = "track_button event addr et"
  let ?et = "fst (ie_consume accepts event h ?tr)"
  have "ie_inv ?tr" using ok ie_inv_cong [of ?tr et] by (simp add: devices_ok_def)
  then have "ie_inv ?et" by (rule ie_inv_consume)
  moreover have "hm_ok (et_pressed_buttons ?tr)"
    using ok by (simp add: devices_ok_def track_button_def Let_def split: input_event.split pointer_event.split)
  moreover have "held_buttons (ie_calls ?et) g \<subseteq> peer_buttons ?tr g" for g
  proof (cases "buttonless event")
    case True
    then show ?thesis using ok by (simp add: held_buttons_consume track_button_buttonless devices_ok_def)
  next
    case False
    then obtain t b s where e: "event = Pointer (Button t b s)"
      by (auto simp: buttonless_def split: input_event.splits pointer_event.splits)
    have "held_buttons (ie_calls ?et) g = button_step g (held_buttons (ie_calls et) g) (CallConsume event h)"
      unfolding e held_buttons_consume(2) by simp
    also have "\<dots> \<subseteq> button_step g (peer_buttons et g) (CallConsume event h)"
      using ok unfolding e button_step_def by (auto simp: devices_ok_def)
    also have "\<dots> \<subseteq> peer_buttons ?tr g" unfolding e by (rule peer_buttons_track [OF h])
    finally show ?thesis .
  qed
  ultimately show ?thesis using ok by (simp add: devices_ok_def peer_buttons_def)
qed

lemma post_fields [simp]:
  "dev_view (post e et) = dev_view et" "et_phase (post e et) = et_phase et" "et_emulation_ready (post e et) = et_emulation_ready et"
  "et_handles (post e et) = et_handles et" "et_pressed_buttons (post e et) = et_pressed_buttons et" "ie_calls (post e et) = ie_calls et"
  "ie_handles (post e et) = ie_handles et" "et_requests (post e et) = et_requests et"
  by (simp_all add: post_def dev_view_def)

lemma session_input_ok:
  assumes "devices_ok et" shows "devices_ok (fst (session_input env event addr et))"
proof (cases "et_input_sharing et")
  case True
  obtain et1 h where ch: "client_handle addr et = (et1, h)" by (cases "client_handle addr et")
  note c = devices_ok_client_handle [OF assms ch]
  let ?r = "ie_consume (ee_accepts env) event h (track_button event addr et1)"
  have "devices_ok (fst ?r)" by (rule devices_ok_track_consume [OF c])
  moreover have "dev_view (fst (session_input env event addr et)) = dev_view (fst ?r)"
    using True ch by (simp add: session_input_def case_prod_unfold Let_def split: option.split)
  ultimately show ?thesis using devices_ok_cong by blast
qed (use assms in \<open>simp add: session_input_def\<close>)

lemma session_input_phase [simp]:
  "et_phase (fst (session_input env event addr et)) = et_phase et"
  "et_emulation_ready (fst (session_input env event addr et)) = et_emulation_ready et"
  by (simp_all add: session_input_def client_handle_def case_prod_unfold Let_def split: option.split)

section \<open>Releasing a peer\<close>

lemma release_buttons_more [simp]:
  "input_emulation.more (fst (release_buttons env h buttons r)) = input_emulation.more (fst r)"
  "ie_handles (fst (release_buttons env h buttons r)) = ie_handles (fst r)"
  by (induction buttons arbitrary: r) (simp_all add: case_prod_unfold Let_def)

lemmas release_buttons_et [simp] = et_more [OF release_buttons_more(1)]

lemma release_buttons_inv: "ie_inv (fst r) \<Longrightarrow> ie_inv (fst (release_buttons env h buttons r))"
  by (induction buttons arbitrary: r) (simp_all add: case_prod_unfold Let_def ie_inv_consume)

lemma release_buttons_held:
  "held_buttons (ie_calls (fst (release_buttons env h buttons r))) g =
     (if g = h then held_buttons (ie_calls (fst r)) g - set buttons else held_buttons (ie_calls (fst r)) g)"
proof (induction buttons arbitrary: r)
  case (Cons b bs)
  from Cons show ?case
    by (auto simp: case_prod_unfold Let_def held_buttons_consume button_step_def)
qed simp

lemma release_client_devices:
  assumes "devices_ok et"
  shows "devices_ok (fst (release_client env addr et))"
proof (cases "hm_get (et_handles et) addr")
  case None
  let ?et = "et\<lparr>et_pressed_buttons := hm_remove addr (et_pressed_buttons et)\<rparr>"
  have "hm_ok (et_pressed_buttons et)" using assms by (simp add: devices_ok_def)
  then have "peer_buttons et g \<subseteq> peer_buttons ?et g" for g
    using None by (force elim!: peer_buttonsE intro: peer_buttonsI simp: hash_map)
  with assms None show ?thesis using ie_inv_cong [of ?et et]
    by (fastforce simp: release_client_def devices_ok_def)
next
  case (Some h)
  define old where "old = (case hm_get (et_pressed_buttons et) addr of None \<Rightarrow> [] | Some bs \<Rightarrow> bs)"
  let ?et1 = "et\<lparr>et_handles := hm_remove addr (et_handles et), et_pressed_buttons := hm_remove addr (et_pressed_buttons et)\<rparr>"
  let ?et2 = "fst (release_buttons env h old (?et1, True))"
  have r: "fst (release_client env addr et) = ie_destroy (ee_accepts env) h ?et2"
    using Some by (simp add: release_client_def old_def Let_def case_prod_unfold)
  have oks: "hm_ok (et_handles et)" "hm_ok (et_pressed_buttons et)" using assms by (simp_all add: devices_ok_def)
  have "ie_inv ?et1" using assms ie_inv_cong [of ?et1 et] by (simp add: devices_ok_def)
  then have "ie_inv ?et2" by (intro release_buttons_inv) simp
  moreover have "held_buttons (ie_calls ?et2) g \<subseteq> peer_buttons ?et1 g" for g
  proof
    fix b assume b: "b \<in> held_buttons (ie_calls ?et2) g"
    then have "b \<in> peer_buttons et g" and new: "g = h \<Longrightarrow> b \<notin> set old"
      using assms by (auto simp: release_buttons_held devices_ok_def split: if_splits)
    then obtain a bs where a: "hm_get (et_handles et) a = Some g" "hm_get (et_pressed_buttons et) a = Some bs" "b \<in> set bs"
      by (blast elim: peer_buttonsE)
    moreover have "a \<noteq> addr" using a new Some by (auto simp: old_def)
    ultimately show "b \<in> peer_buttons ?et1 g" using oks by (intro peer_buttonsI [of _ a _ bs]) (simp_all add: hash_map)
  qed
  moreover have "\<exists>a. hm_get (hm_remove addr (et_handles et)) a = Some g" if "g \<in> set (ie_handles et) - {h}" for g
  proof -
    have "\<forall>h \<in> set (ie_handles et). \<exists>a. hm_get (et_handles et) a = Some h" using assms by (simp add: devices_ok_def)
    with that obtain a where a: "hm_get (et_handles et) a = Some g" by blast
    then show ?thesis using that oks Some by (intro exI [of _ a]) (auto simp: hash_map)
  qed
  ultimately show ?thesis unfolding r using oks
    by (simp add: devices_ok_def peer_buttons_def ie_inv_destroy)
qed

lemma release_client_fields [simp]:
  "et_phase (fst (release_client env addr et)) = et_phase et"
  "et_emulation_ready (fst (release_client env addr et)) = et_emulation_ready et"
  "et_handles (fst (release_client env addr et)) = hm_remove addr (et_handles et)"
  by (simp_all add: release_client_def case_prod_unfold Let_def hm_remove_absent split: option.split)

lemma release_clients_devices:
  "devices_ok (fst r) \<Longrightarrow> devices_ok (fst (release_clients env addrs r))"
  by (induction addrs arbitrary: r) (simp_all add: case_prod_unfold Let_def release_client_devices)

lemma release_clients_fields [simp]:
  "et_phase (fst (release_clients env addrs r)) = et_phase (fst r)"
  "et_emulation_ready (fst (release_clients env addrs r)) = et_emulation_ready (fst r)"
  "et_handles (fst (release_clients env addrs r)) = fold hm_remove addrs (et_handles (fst r))"
  by (induction addrs arbitrary: r) (simp_all add: case_prod_unfold Let_def)

lemma hm_get_fold_remove:
  "hm_ok m \<Longrightarrow> hm_ok (fold hm_remove ks m) \<and> hm_get (fold hm_remove ks m) k = (if k \<in> set ks then None else hm_get m k)"
  by (induction ks arbitrary: m) (auto simp: hash_map)

lemma set_fold_remove: "set (fold hm_remove ks m) \<subseteq> {e \<in> set m. fst e \<notin> set ks}"
proof (induction ks arbitrary: m)
  case (Cons k ks)
  from Cons [of "hm_remove k m"] show ?case by (auto simp: hm_remove_def set_hm_retain)
qed simp

lemma fold_remove_all: "fold hm_remove (map fst m) m = []"
proof -
  have "{e \<in> set m. fst e \<notin> set (map fst m)} = {}" by auto
  then have "set (fold hm_remove (map fst m) m) = {}" using set_fold_remove [of "map fst m" m] by (metis subset_empty)
  then show ?thesis by simp
qed

text \<open>What is held down belongs to a device of a peer.\<close>

lemma devices_ok_unassigned:
  assumes "devices_ok et" and "\<And>addr. hm_get (et_handles et) addr \<noteq> Some h"
  shows "held_keys (ie_calls et) h = {}" and "held_buttons (ie_calls et) h = {}"
proof -
  have "h \<notin> set (ie_handles et)" using assms by (auto simp: devices_ok_def)
  then show "held_keys (ie_calls et) h = {}" using held_keys_absent assms(1) by (auto simp: devices_ok_def)
  have "peer_buttons et h = {}" using assms(2) by (auto elim: peer_buttonsE)
  then show "held_buttons (ie_calls et) h = {}" using assms(1) by (auto simp: devices_ok_def)
qed

section \<open>Sessions\<close>

lemma session_request_ok:
  assumes ok: "devices_ok et" shows "devices_ok (fst (session_request env request et))"
proof -
  have c: "devices_ok (call c et)" if "keyless c" "\<And>h held. button_step h held c = held" for c
    using devices_ok_call [OF ok] that by simp
  show ?thesis
  proof (cases request)
    case (PrPublishFileClipboard contents)
    let ?et = "call (CallFileClipboard contents) et"
    have "dev_view (?et\<lparr>et_reply := x\<rparr>) = dev_view ?et" for x by (simp add: dev_view_def)
    then show ?thesis using devices_ok_cong c [of "CallFileClipboard contents"] PrPublishFileClipboard
      by (force simp: session_request_def ie_set_file_clipboard_def Let_def button_step_def)
  next
    case (PrSetBackend backend)
    have "dev_view (et\<lparr>et_backend := backend, et_restart_now := True\<rparr>) = dev_view et" by (simp add: dev_view_def)
    then show ?thesis using devices_ok_cong ok PrSetBackend by (force simp: session_request_def)
  qed (simp_all add: session_request_def ok c case_prod_unfold Let_def session_input_ok release_client_devices
      release_clients_devices button_step_def)
qed

lemma session_request_fields [simp]:
  "et_phase (fst (session_request env request et)) = et_phase et"
  "et_emulation_ready (fst (session_request env request et)) = et_emulation_ready et"
  by (simp_all add: session_request_def ie_set_file_clipboard_def case_prod_unfold Let_def split: proxy_request.split)

lemma after_session_fields [simp]:
  "dev_view (after_session et) = dev_view et" "et_emulation_ready (after_session et) = et_emulation_ready et"
  "\<not> is_running (et_phase (after_session et))" "ie_calls (after_session et) = ie_calls et" "et_handles (after_session et) = et_handles et"
  by (simp_all add: after_session_def dev_view_def)

lemma after_session_inv: "et_inv et \<Longrightarrow> \<not> is_running (et_phase et) \<Longrightarrow> et_inv (after_session et)"
  using et_inv_cong [of "after_session et" et] by simp

lemma end_session_inv:
  assumes "devices_ok et" shows "et_inv (end_session env et)"
proof -
  let ?t = "ie_terminate (ee_accepts env) et"
  let ?p = "(post EmulationDisabled (?t\<lparr>et_emulation_ready := False\<rparr>))\<lparr>et_phase := Inactive\<rparr>"
  have "ie_inv ?t" using assms by (simp add: devices_ok_def ie_inv_terminate)
  then have "ie_inv ?p" using ie_inv_cong [of ?p ?t] by (simp add: post_def)
  then have "et_inv ?p" using assms by (simp add: et_inv_def devices_ok_def post_def)
  moreover have "dev_view (end_session env et) = dev_view ?p"
    by (simp add: end_session_def Let_def) (simp add: dev_view_def post_def)
  ultimately show ?thesis using et_inv_cong [of "end_session env et" ?p] by (simp add: end_session_def Let_def post_def)
qed

lemma wait_for_termination_fields [simp]:
  "dev_view (fst (wait_for_termination n et)) = dev_view et"
  "et_emulation_ready (fst (wait_for_termination n et)) = et_emulation_ready et"
  by (induction n arbitrary: et) (simp_all add: dev_view_def Let_def split: list.split proxy_request.split)

lemma create_devices:
  assumes "devices_ok et" and "hm_get (et_handles et) addr = Some h" shows "devices_ok (fst (ie_create h et))"
  using assms ie_inv_create [of et h] by (auto simp: devices_ok_def ie_create_handles peer_buttons_def)

lemma create_clients_loop_devices:
  "devices_ok et \<Longrightarrow> (\<And>h. h \<in> set hs \<Longrightarrow> \<exists>addr. hm_get (et_handles et) addr = Some h) \<Longrightarrow>
     devices_ok (create_clients_loop env hs et) \<and> et_emulation_ready (create_clients_loop env hs et) = et_emulation_ready et"
proof (induction hs arbitrary: et)
  case (Cons h hs)
  let ?w = "wait_for_termination (ee_swallow env h) et"
  have view: "dev_view (fst ?w) = dev_view et" and ready: "et_emulation_ready (fst ?w) = et_emulation_ready et" by simp_all
  then have w: "devices_ok (fst ?w)" and handles: "et_handles (fst ?w) = et_handles et"
    using Cons.prems(1) devices_ok_cong [OF view] by (simp_all add: dev_view_def)
  obtain addr where "hm_get (et_handles (fst ?w)) addr = Some h"
    using Cons.prems(2) [OF list.set_intros(1)] unfolding handles by blast
  then have c: "devices_ok (fst (ie_create h (fst ?w)))" by (rule create_devices [OF w])
  moreover have "devices_ok (create_clients_loop env hs (fst (ie_create h (fst ?w))))
      \<and> et_emulation_ready (create_clients_loop env hs (fst (ie_create h (fst ?w)))) = et_emulation_ready et"
    using Cons.IH [OF c] Cons.prems(2) handles ready by simp
  ultimately show ?case using w ready by (simp add: case_prod_unfold Let_def)
qed simp

lemma start_session_inv:
  assumes "et_inv et" shows "et_inv (start_session env b et)"
proof -
  let ?fresh = "et\<lparr>ie_handles := [], ie_pressed_keys := [], ie_calls := []\<rparr>"
  let ?told = "call (CallIndependentPointers (et_independent_pointers ?fresh)) ?fresh"
  let ?e = "post (EmulationEnabled (backend_name b)) (?told\<lparr>et_emulation_ready := True\<rparr>)"
  have "ie_inv ?fresh" unfolding ie_inv_def keys_of_def by (simp add: hash_map)
  then have "devices_ok ?fresh" using assms by (simp add: devices_ok_def et_inv_def)
  then have "devices_ok ?told" by (rule devices_ok_call) (simp_all add: button_step_def)
  moreover have "dev_view ?e = dev_view ?told" by (simp add: dev_view_def post_def)
  ultimately have e: "devices_ok ?e" and ready: "et_emulation_ready ?e" using devices_ok_cong by (blast, simp)
  have "devices_ok (create_clients env ?e) \<and> et_emulation_ready (create_clients env ?e)"
  proof (cases "et_input_sharing ?e")
    case True
    have "\<exists>addr. hm_get (et_handles ?e) addr = Some h" if mem: "h \<in> set (map snd (et_handles ?e))" for h
    proof -
      obtain x where "x \<in> set (et_handles ?e)" "h = snd x" using mem unfolding set_map by blast
      then have "(fst x, h) \<in> set (et_handles ?e)" by simp
      moreover have "hm_ok (et_handles ?e)" using e by (simp add: devices_ok_def)
      ultimately have "hm_get (et_handles ?e) (fst x) = Some h" using hm_get_set [of "et_handles ?e" "fst x" h] by simp
      then show ?thesis by (rule exI)
    qed
    then show ?thesis using True create_clients_loop_devices [OF e, of "map snd (et_handles ?e)" env] ready
      by (simp add: create_clients_def)
  next
    case False
    let ?f = "?e\<lparr>et_handles := [], et_pressed_buttons := []\<rparr>"
    have "ie_inv ?f" using e ie_inv_cong [of ?f ?e] by (simp add: devices_ok_def)
    then have "devices_ok ?f" by (simp add: devices_ok_def button_step_def post_def held_buttons_def)
    with False ready show ?thesis by (simp add: create_clients_def)
  qed
  moreover have "start_session env b et = (create_clients env ?e)\<lparr>et_phase := Running True\<rparr>"
    by (simp add: start_session_def Let_def)
  moreover have "dev_view (create_clients env ?e\<lparr>et_phase := Running True\<rparr>) = dev_view (create_clients env ?e)"
    by (simp add: dev_view_def)
  ultimately have "devices_ok (start_session env b et)" and "et_emulation_ready (start_session env b et)"
    and "et_phase (start_session env b et) = Running True"
    using devices_ok_cong [of "start_session env b et" "create_clients env ?e"] by simp_all
  then show ?thesis by (simp add: et_inv_def devices_ok_def)
qed

lemma native_clipboard_fields [simp]:
  "dev_view (native_clipboard env mime_type data et) = dev_view et" "et_phase (native_clipboard env mime_type data et) = et_phase et"
  "et_emulation_ready (native_clipboard env mime_type data et) = et_emulation_ready et"
  by (simp_all add: native_clipboard_def split: option.split)

lemma et_inv_handles:
  "et_inv et \<Longrightarrow> \<not> is_running (et_phase et) \<Longrightarrow> hm_ok hs \<Longrightarrow> hm_ok bs \<Longrightarrow> et_inv (et\<lparr>et_handles := hs, et_pressed_buttons := bs\<rparr>)"
  using ie_inv_cong [of "et\<lparr>et_handles := hs, et_pressed_buttons := bs\<rparr>" et] by (simp add: et_inv_def)

lemma starting_request_inv:
  assumes "et_inv et" and "et_phase et = Starting" shows "et_inv (starting_request request et)"
proof (cases request)
  case (PrSetInputSharing enabled)
  let ?e = "et\<lparr>et_input_sharing := enabled\<rparr>"
  have "et_inv ?e" using assms et_inv_cong [of ?e et] by (simp add: dev_view_def)
  with assms PrSetInputSharing et_inv_handles [of ?e "[]" "[]"] show ?thesis by (simp add: starting_request_def Let_def) (cases enabled; simp)
next
  case (PrRemove addr)
  with assms et_inv_handles [of et "hm_remove addr (et_handles et)" "hm_remove addr (et_pressed_buttons et)"] show ?thesis
    by (simp add: starting_request_def et_inv_def)
qed (use assms in \<open>simp_all add: starting_request_def after_session_inv\<close>)

lemma inactive_request_inv:
  assumes "et_inv et" and "et_phase et = Inactive" shows "et_inv (inactive_request request et)"
proof (cases request)
  case (PrSetInputSharing enabled)
  with assms et_inv_handles [of et "[]" "[]"] show ?thesis by (simp add: inactive_request_def)
qed (use assms in \<open>simp_all add: inactive_request_def et_inv_phase\<close>)

lemma running_request_inv:
  assumes "et_inv et" and "is_running (et_phase et)" shows "et_inv (running_request env request et)"
proof -
  have ok: "devices_ok (fst (session_request env request et))" using assms session_request_ok by (auto simp: et_inv_def)
  show ?thesis
  proof (cases "snd (session_request env request et)")
    case Go
    moreover have "et_inv (fst (session_request env request et))" using ok assms by (simp add: et_inv_def devices_ok_def)
    ultimately show ?thesis by (simp add: running_request_def case_prod_unfold)
  next
    case Break
    with end_session_inv [OF ok] show ?thesis by (simp add: running_request_def case_prod_unfold)
  qed
qed

lemma take_request_inv:
  assumes "et_inv et" and "take_request env et = Some et'" shows "et_inv et'"
proof -
  obtain request rest where q: "et_requests et = request # rest" using assms(2) by (cases "et_requests et") (auto simp: take_request_def)
  let ?e = "et\<lparr>et_requests := rest\<rparr>"
  have "et_inv ?e" using assms(1) et_inv_cong [of ?e et] by (simp add: dev_view_def)
  with assms(2) q show ?thesis
    by (auto simp: take_request_def Let_def starting_request_inv inactive_request_inv running_request_inv split: emu_phase.splits)
qed

lemma emu_exec_inv:
  assumes inv: "et_inv et" and step: "emu_exec env step et = Some et'" shows "et_inv et'"
proof (cases step)
  case Initialized
  with step inv show ?thesis
    by (auto simp: emu_exec_def initialized_def start_session_inv after_session_inv split: creation_result.splits if_splits)
next
  case TimedOut
  with step inv show ?thesis by (auto simp: emu_exec_def initialization_timed_out_def after_session_inv split: if_splits)
next
  case TakeRequest
  with step inv show ?thesis by (simp add: emu_exec_def take_request_inv)
next
  case (NativeClipboardEvent c)
  then have "et_phase et = Running True" and et': "et' = clipboard_event env c et" using step by (auto simp: emu_exec_def split: if_splits)
  then have "dev_view et' = dev_view et \<and> et_emulation_ready et' = et_emulation_ready et \<and> is_running (et_phase et')"
    by (cases c) (auto simp: clipboard_event_def, simp add: dev_view_def)
  then show ?thesis using inv \<open>et_phase et = Running True\<close> et_inv_cong [of et' et] by simp
next
  case (HealthCheck healthy)
  then have "is_running (et_phase et)" and et': "et' = (if healthy then et else end_session env et)"
    using step by (auto simp: emu_exec_def split: emu_phase.splits)
  with inv have "devices_ok et" by (simp add: et_inv_def)
  with inv et' end_session_inv show ?thesis by auto
qed

end
