(* ===== verification/Listen_Invariant.thy ===== *)
theory Listen_Invariant
  imports Listen_Task Emulation_Invariant Proto_Roundtrip
begin

text \<open>
  The invariant of the two tasks together. Who controls this screen can be read off the trace: a peer takes control
  when it enters or sends a \<open>Handoff\<close> message, and loses it when it leaves or when input
  sharing is turned off. A peer that was asked to hand the pointer on and could not answers with \<open>Handoff\<close>; the code takes
  every such message for that answer and does not check that it had asked. The active peers of the listen task are exactly these, and input is passed on only while
  its sender has control. Clipboard reassembly keeps one bounded buffer per peer.
\<close>

section \<open>Control, from the trace\<close>

type_synonym control = "socket_addr set \<times> bool"

definition ctl_step :: "control \<Rightarrow> listen_effect \<Rightarrow> control" where
  "ctl_step c e = (case e of
     Notified (PeerEntered a _ _ _ _ _) \<Rightarrow> (insert a (fst c), snd c)
   | Got a (Handoff _ _) \<Rightarrow> (insert a (fst c), snd c)
   | Notified (PeerLeft a _ _) \<Rightarrow> (fst c - {a}, snd c)
   | Requested (ReqSetInputSharing enabled) \<Rightarrow> (if enabled then fst c else {}, enabled)
   | _ \<Rightarrow> c)"

definition ctl_allows :: "control \<Rightarrow> listen_effect \<Rightarrow> bool" where
  "ctl_allows c e = (case e of
     Asked (PrInput _ a) \<Rightarrow> snd c \<and> a \<in> fst c
   | Notified (PeerEntered a _ _ _ _ _) \<Rightarrow> snd c
   | _ \<Rightarrow> True)"

definition ctl_of :: "listen_effect list \<Rightarrow> control" where
  "ctl_of trace = foldl ctl_step ({}, True) trace"

fun ctl_legal :: "control \<Rightarrow> listen_effect list \<Rightarrow> bool" where
  "ctl_legal c [] = True"
| "ctl_legal c (e # es) \<longleftrightarrow> ctl_allows c e \<and> ctl_legal (ctl_step c e) es"

lemma ctl_legal_snoc: "ctl_legal c (es @ [e]) \<longleftrightarrow> ctl_legal c es \<and> ctl_allows (foldl ctl_step c es) e"
  by (induction es arbitrary: c) simp_all

definition ctl_ok :: "listen_task \<Rightarrow> bool" where
  "ctl_ok lt \<longleftrightarrow> ctl_legal ({}, True) (lt_trace lt) \<and> ctl_of (lt_trace lt) = (set (lt_active_inputs lt), lt_input_sharing lt)"

text \<open>Effects that do not concern control.\<close>

definition neutral :: "listen_effect \<Rightarrow> bool" where
  "neutral e = (case e of
     Notified (PeerEntered _ _ _ _ _ _) \<Rightarrow> False | Notified (PeerLeft _ _ _) \<Rightarrow> False
   | Got _ (Handoff _ _) \<Rightarrow> False | Requested (ReqSetInputSharing _) \<Rightarrow> False | Asked (PrInput _ _) \<Rightarrow> False | _ \<Rightarrow> True)"

lemma neutral_step: "neutral e \<Longrightarrow> ctl_step c e = c \<and> ctl_allows c e"
  by (auto simp: neutral_def ctl_step_def ctl_allows_def
      split: listen_effect.splits emulation_event.splits proto_event.splits emulation_request.splits proxy_request.splits)

section \<open>Clipboard buffers\<close>

definition transfer_ok :: "clipboard_transfer \<Rightarrow> bool" where
  "transfer_ok x \<longleftrightarrow> length (cx_bytes x) \<le> cx_total_len x \<and> cx_total_len x \<le> MAX_CLIPBOARD_SIZE"

definition transfers_ok :: "(socket_addr \<times> u64, clipboard_transfer) hash_map \<Rightarrow> bool" where
  "transfers_ok ts \<longleftrightarrow> hm_ok ts \<and> distinct (map (\<lambda>((a, _), _). a) ts) \<and> list_all (\<lambda>(_, x). transfer_ok x) ts"

section \<open>The invariant\<close>

text \<open>The emulation task itself never announces that a peer entered or left.\<close>

definition task_event :: "emulation_event \<Rightarrow> bool" where
  "task_event e = (case e of PeerEntered _ _ _ _ _ _ \<Rightarrow> False | PeerLeft _ _ _ \<Rightarrow> False | _ \<Rightarrow> True)"

definition lt_inv :: "listen_task \<Rightarrow> bool" where
  "lt_inv lt \<longleftrightarrow> et_inv lt \<and> ctl_ok lt \<and> transfers_ok (lt_clipboard_transfers lt) \<and> hm_ok (lt_last_response lt)
     \<and> list_all task_event (et_events lt)"

lemma lt_inv_cong:
  assumes "dev_view lt' = dev_view lt" and "et_emulation_ready lt' = et_emulation_ready lt"
    and "et_phase lt' = et_phase lt" and "lt_trace lt' = lt_trace lt" and "lt_active_inputs lt' = lt_active_inputs lt"
    and "lt_input_sharing lt' = lt_input_sharing lt" and "lt_clipboard_transfers lt' = lt_clipboard_transfers lt"
    and "lt_last_response lt' = lt_last_response lt" and "et_events lt' = et_events lt"
  shows "lt_inv lt' \<longleftrightarrow> lt_inv lt"
  using assms et_inv_cong [of lt' lt] by (simp add: lt_inv_def ctl_ok_def)

lemma inv_et_requests: "lt_inv (lt\<lparr>et_requests := q\<rparr>) = lt_inv lt"
  by (rule lt_inv_cong; simp add: dev_view_def)

lemma inv_et_independent_pointers: "lt_inv (lt\<lparr>et_independent_pointers := b\<rparr>) = lt_inv lt"
  by (rule lt_inv_cong; simp add: dev_view_def)

lemma inv_et_input_sharing: "lt_inv (lt\<lparr>et_input_sharing := b\<rparr>) = lt_inv lt"
  by (rule lt_inv_cong; simp add: dev_view_def)

lemma inv_et_exit_requested: "lt_inv (lt\<lparr>et_exit_requested := b\<rparr>) = lt_inv lt"
  by (rule lt_inv_cong; simp add: dev_view_def)

lemma inv_et_reply: "lt_inv (lt\<lparr>et_reply := r\<rparr>) = lt_inv lt"
  by (rule lt_inv_cong; simp add: dev_view_def)

lemma inv_ep_emulation_active: "lt_inv (lt\<lparr>ep_emulation_active := b\<rparr>) = lt_inv lt"
  by (rule lt_inv_cong; simp add: dev_view_def)

lemma inv_lt_capture_ready: "lt_inv (lt\<lparr>lt_capture_ready := b\<rparr>) = lt_inv lt"
  by (rule lt_inv_cong; simp add: dev_view_def)

lemma inv_lt_independent_pointers: "lt_inv (lt\<lparr>lt_independent_pointers := b\<rparr>) = lt_inv lt"
  by (rule lt_inv_cong; simp add: dev_view_def)

lemma inv_lt_return_position_peers: "lt_inv (lt\<lparr>lt_return_position_peers := ps\<rparr>) = lt_inv lt"
  by (rule lt_inv_cong; simp add: dev_view_def)

lemma inv_lt_entered_from: "lt_inv (lt\<lparr>lt_entered_from := f\<rparr>) = lt_inv lt"
  by (rule lt_inv_cong; simp add: dev_view_def)

lemma inv_lt_peer_sides: "lt_inv (lt\<lparr>lt_peer_sides := sides\<rparr>) = lt_inv lt"
  by (rule lt_inv_cong; simp add: dev_view_def)

lemma inv_lt_peer_beyond: "lt_inv (lt\<lparr>lt_peer_beyond := beyond\<rparr>) = lt_inv lt"
  by (rule lt_inv_cong; simp add: dev_view_def)

lemma inv_lt_hop_bypass: "lt_inv (lt\<lparr>lt_hop_bypass := b\<rparr>) = lt_inv lt"
  by (rule lt_inv_cong; simp add: dev_view_def)

lemma inv_lt_multi_hop: "lt_inv (lt\<lparr>lt_multi_hop := b\<rparr>) = lt_inv lt"
  by (rule lt_inv_cong; simp add: dev_view_def)

lemma inv_lt_peer_fingerprints: "lt_inv (lt\<lparr>lt_peer_fingerprints := fs\<rparr>) = lt_inv lt"
  by (rule lt_inv_cong; simp add: dev_view_def)

lemma inv_lt_last_entry: "lt_inv (lt\<lparr>lt_last_entry := le\<rparr>) = lt_inv lt"
  by (rule lt_inv_cong; simp add: dev_view_def)

lemma inv_lt_entry_along: "lt_inv (lt\<lparr>lt_entry_along := al\<rparr>) = lt_inv lt"
  by (rule lt_inv_cong; simp add: dev_view_def)

lemma inv_lt_unavailable_peers: "lt_inv (lt\<lparr>lt_unavailable_peers := us\<rparr>) = lt_inv lt"
  by (rule lt_inv_cong; simp add: dev_view_def)

lemma inv_lt_handoff_cooldown: "lt_inv (lt\<lparr>lt_handoff_cooldown := cd\<rparr>) = lt_inv lt"
  by (rule lt_inv_cong; simp add: dev_view_def)

lemma inv_lt_rejected_connections: "lt_inv (lt\<lparr>lt_rejected_connections := rc\<rparr>) = lt_inv lt"
  by (rule lt_inv_cong; simp add: dev_view_def)

lemma inv_lt_stale_leaves: "lt_inv (lt\<lparr>lt_stale_leaves := sl\<rparr>) = lt_inv lt"
  by (rule lt_inv_cong; simp add: dev_view_def)

lemma inv_lt_publishing: "lt_inv (lt\<lparr>lt_publishing := pb\<rparr>) = lt_inv lt"
  by (rule lt_inv_cong; simp add: dev_view_def)

lemma inv_lt_running: "lt_inv (lt\<lparr>lt_running := b\<rparr>) = lt_inv lt"
  by (rule lt_inv_cong; simp add: dev_view_def)

lemmas lt_inv_update [simp] =
  inv_et_requests inv_et_independent_pointers inv_et_input_sharing inv_et_exit_requested inv_et_reply
  inv_ep_emulation_active inv_lt_capture_ready inv_lt_independent_pointers inv_lt_return_position_peers inv_lt_entered_from inv_lt_peer_sides
  inv_lt_peer_beyond inv_lt_hop_bypass inv_lt_multi_hop inv_lt_peer_fingerprints inv_lt_last_entry inv_lt_entry_along
  inv_lt_unavailable_peers inv_lt_handoff_cooldown inv_lt_rejected_connections inv_lt_stale_leaves inv_lt_publishing inv_lt_running

lemma log_fields [simp]:
  "lt_trace (log_effect e lt) = lt_trace lt @ [e]" "lt_active_inputs (log_effect e lt) = lt_active_inputs lt"
  "lt_input_sharing (log_effect e lt) = lt_input_sharing lt" "dev_view (log_effect e lt) = dev_view lt"
  "et_phase (log_effect e lt) = et_phase lt" "et_emulation_ready (log_effect e lt) = et_emulation_ready lt"
  "lt_clipboard_transfers (log_effect e lt) = lt_clipboard_transfers lt" "lt_last_response (log_effect e lt) = lt_last_response lt"
  "et_requests (log_effect e lt) = et_requests lt" "et_input_sharing (log_effect e lt) = et_input_sharing lt"
  "lt_entered_from (log_effect e lt) = lt_entered_from lt" "et_events (log_effect e lt) = et_events lt" "lt_peer_beyond (log_effect e lt) = lt_peer_beyond lt"
  by (simp_all add: log_effect_def dev_view_def)

lemma ctl_of_snoc: "ctl_of (trace @ [e]) = ctl_step (ctl_of trace) e"
  by (simp add: ctl_of_def)

lemma ctl_ok_log:
  "ctl_ok lt \<Longrightarrow> ctl_allows (set (lt_active_inputs lt), lt_input_sharing lt) e \<Longrightarrow>
     lt_active_inputs lt' = active \<Longrightarrow> lt_trace lt' = lt_trace lt @ [e] \<Longrightarrow>
     ctl_step (set (lt_active_inputs lt), lt_input_sharing lt) e = (set active, lt_input_sharing lt') \<Longrightarrow> ctl_ok lt'"
  by (simp add: ctl_ok_def ctl_legal_snoc ctl_of_snoc ctl_of_def)

lemma lt_inv_log:
  assumes "lt_inv lt" and "neutral e" shows "lt_inv (log_effect e lt)"
proof -
  have "ctl_ok (log_effect e lt)"
    by (rule ctl_ok_log [of lt e]) (use assms neutral_step [OF assms(2)] in \<open>simp_all add: lt_inv_def\<close>)
  then show ?thesis using assms(1) et_inv_cong [of "log_effect e lt" lt] by (simp add: lt_inv_def)
qed

lemma neutral_simps [simp]:
  "neutral (Replied a p)" "neutral (PortRequested port)" "neutral ListenerClosed"
  "neutral (Asked r) \<longleftrightarrow> (case r of PrInput _ _ \<Rightarrow> False | _ \<Rightarrow> True)"
  "neutral (Notified n) \<longleftrightarrow> (case n of PeerEntered _ _ _ _ _ _ \<Rightarrow> False | PeerLeft _ _ _ \<Rightarrow> False | _ \<Rightarrow> True)"
  by (simp_all add: neutral_def split: proxy_request.split emulation_event.split)

lemma lt_inv_reply [simp]: "lt_inv lt \<Longrightarrow> lt_inv (reply a p lt)"
  by (simp add: reply_def lt_inv_log)

lemma lt_inv_notify [simp]: "lt_inv lt \<Longrightarrow> neutral (Notified n) \<Longrightarrow> lt_inv (notify n lt)"
  by (simp add: notify_def lt_inv_log)

lemma lt_inv_ask [simp]: "lt_inv lt \<Longrightarrow> neutral (Asked r) \<Longrightarrow> lt_inv (ask r lt)"
  by (simp add: ask_def lt_inv_log)

lemma lt_inv_proxy [simp]:
  "lt_inv lt \<Longrightarrow> lt_inv (ep_remove a lt)" "lt_inv lt \<Longrightarrow> lt_inv (ep_place_pointer_along side along lt)"
  "lt_inv lt \<Longrightarrow> lt_inv (ep_set_independent_pointers b lt)" "lt_inv lt \<Longrightarrow> lt_inv (ep_set_input_sharing b lt)"
  "lt_inv lt \<Longrightarrow> lt_inv (ep_terminate lt)" "lt_inv lt \<Longrightarrow> lt_inv (ep_event e lt)"
  by (simp_all add: ep_remove_def ep_place_pointer_along_def ep_set_independent_pointers_def ep_set_input_sharing_def
      ep_terminate_def ep_event_def split: emulation_event.split)

lemma lt_inv_return_pointer [simp]: "lt_inv lt \<Longrightarrow> lt_inv (return_pointer a along lt)"
  by (simp add: return_pointer_def)

section \<open>Taking and losing control\<close>

text \<open>A change of the active peers together with the effect that records it.\<close>

lemma lt_inv_ctl:
  assumes inv: "lt_inv lt" and allow: "ctl_allows (set (lt_active_inputs lt), lt_input_sharing lt) e"
    and step: "ctl_step (set (lt_active_inputs lt), lt_input_sharing lt) e = (set active, sharing)"
  shows "lt_inv (log_effect e (lt\<lparr>lt_active_inputs := active, lt_input_sharing := sharing\<rparr>))"
proof -
  let ?lt = "log_effect e (lt\<lparr>lt_active_inputs := active, lt_input_sharing := sharing\<rparr>)"
  have "ctl_ok ?lt" 
    by (rule ctl_ok_log [of lt e]) (use inv allow step in \<open>simp_all add: lt_inv_def log_effect_def\<close>)
  moreover have "et_inv ?lt" using inv et_inv_cong [of ?lt lt] by (simp add: lt_inv_def dev_view_def log_effect_def)
  ultimately show ?thesis using inv by (simp add: lt_inv_def)
qed

lemma lt_inv_active:
  assumes "lt_inv lt" and "ctl_allows (set (lt_active_inputs lt), lt_input_sharing lt) e"
    and "ctl_step (set (lt_active_inputs lt), lt_input_sharing lt) e = (set active, lt_input_sharing lt)"
  shows "lt_inv (log_effect e (lt\<lparr>lt_active_inputs := active\<rparr>))"
  using lt_inv_ctl [OF assms] by simp

lemma lt_inv_end_control_at [simp]:
  assumes "lt_inv lt" shows "lt_inv (end_control_at a along lt)"
proof (cases "a \<in> set (lt_active_inputs lt)")
  case True
  let ?left = "PeerLeft a (map_option to_ipc_pos (hm_get (lt_entered_from lt) a)) along"
  have "lt_inv (notify ?left (lt\<lparr>lt_active_inputs := removeAll a (lt_active_inputs lt)\<rparr>))"
    unfolding notify_def using assms by (rule lt_inv_active) (simp_all add: ctl_allows_def ctl_step_def set_removeAll)
  then show ?thesis using True by (simp add: end_control_at_def Let_def)
next
  case False
  then show ?thesis using assms by (simp add: end_control_at_def Let_def)
qed

lemma lt_inv_end_control [simp]: "lt_inv lt \<Longrightarrow> lt_inv (end_control a lt)"
  by (simp add: end_control_def)

lemma accepts_input_sharing: "accepts_input lt \<Longrightarrow> lt_input_sharing lt"
  by (simp add: accepts_input_def input_accepted_def)

lemma lt_inv_handle_enter:
  assumes inv: "lt_inv lt" shows "lt_inv (handle_enter env a pos through along lt)"
proof (cases "accepts_input lt \<and> le_fingerprint env a \<noteq> None")
  case True
  then obtain fp where fp: "le_fingerprint env a = Some fp" by auto
  define side where "side = entry_side pos through fp a lt"
  define first where "first = (a \<notin> set (lt_active_inputs lt))"
  define places where "places = (first \<and> lt_multi_hop lt)"
  define entry where "entry = PeerEntered a (to_ipc_pos side) fp first (through \<noteq> None) along"
  define marked where "marked = lt\<lparr>lt_active_inputs := List.insert a (lt_active_inputs lt), lt_entered_from := hm_insert a side (lt_entered_from lt)\<rparr>"
  define placed where "placed = (if places then marked\<lparr>lt_last_entry := Some (to_ipc_pos side, le_now env)\<rparr> else marked)"
  define entered where "entered = notify entry (notify ReleaseNotify (if first then placed\<lparr>lt_entry_along := along\<rparr> else placed))"
  have eq: "handle_enter env a pos through along lt =
      reply a (Ack 0) (if places then ep_place_pointer_along side along entered else entered)"
    unfolding handle_enter_def entered_def placed_def marked_def entry_def places_def first_def side_def Let_def
    using True fp by simp
  let ?spec = "notify entry ((notify ReleaseNotify lt)\<lparr>lt_active_inputs := List.insert a (lt_active_inputs lt)\<rparr>)"
  have rel: "lt_inv (notify ReleaseNotify lt)" "lt_active_inputs (notify ReleaseNotify lt) = lt_active_inputs lt"
      "lt_input_sharing (notify ReleaseNotify lt)"
    using inv True accepts_input_sharing by (auto simp: notify_def lt_inv_log)
  have "lt_inv ?spec" unfolding notify_def [of entry] using rel(1)
    by (rule lt_inv_active) (simp_all add: rel entry_def ctl_allows_def ctl_step_def)
  moreover have "lt_inv entered \<longleftrightarrow> lt_inv ?spec"
    by (rule lt_inv_cong) (simp_all add: entered_def placed_def marked_def notify_def log_effect_def dev_view_def)
  ultimately show ?thesis unfolding eq by simp
next
  case False
  then show ?thesis using inv by (auto simp: handle_enter_def)
qed

lemma lt_inv_start_handoff: "lt_inv lt \<Longrightarrow> lt_inv (fst (start_handoff env a edge lt))"
  by (simp add: start_handoff_def Let_def split: option.split)

text \<open>A refused hand-off gives control back; its message is the last effect.\<close>

lemma lt_inv_handoff_refused:
  assumes "lt_inv lt" shows "lt_inv (handoff_refused env a side (log_effect (Got a (Handoff target s)) lt))"
proof -
  let ?got = "log_effect (Got a (Handoff target s)) (lt\<lparr>lt_active_inputs := List.insert a (lt_active_inputs lt)\<rparr>)"
  have "lt_inv ?got" using assms by (rule lt_inv_active) (simp_all add: ctl_allows_def ctl_step_def)
  moreover define after where "after = (log_effect (Got a (Handoff target s)) lt)
    \<lparr>lt_handoff_cooldown := hm_insert side (le_now env + HANDOFF_COOLDOWN) (lt_handoff_cooldown lt),
     lt_active_inputs := List.insert a (lt_active_inputs lt),
     lt_entered_from := hm_insert a (case hm_get (lt_peer_sides lt) (fst a) of Some pos \<Rightarrow> pos | None \<Rightarrow> side) (lt_entered_from lt)\<rparr>"
  have "handoff_refused env a side (log_effect (Got a (Handoff target s)) lt) = ep_place_pointer_along side None after"
    by (simp add: handoff_refused_def after_def Let_def log_effect_def)
  moreover have "lt_inv after \<longleftrightarrow> lt_inv ?got" by (rule lt_inv_cong) (simp_all add: after_def dev_view_def log_effect_def)
  ultimately show ?thesis by simp
qed

lemma lt_inv_consume:
  assumes "lt_inv lt" and "a \<in> set (lt_active_inputs lt)" and "lt_input_sharing lt"
  shows "lt_inv (ep_consume event a lt)"
proof -
  have "lt_inv (log_effect (Asked (PrInput event a)) ((lt\<lparr>et_requests := et_requests lt @ [PrInput event a]\<rparr>)\<lparr>lt_active_inputs := lt_active_inputs lt\<rparr>))"
    by (rule lt_inv_active) (use assms in \<open>simp_all add: ctl_allows_def ctl_step_def\<close>)
  then show ?thesis using assms(1) by (simp add: ep_consume_def ask_def log_effect_def)
qed

lemma lt_inv_listen_input: "lt_inv lt \<Longrightarrow> lt_inv (listen_input env a event lt)"
  by (auto simp: listen_input_def Let_def lt_inv_consume)

lemma lt_inv_pointer_edge: "lt_inv lt \<Longrightarrow> lt_inv (pointer_edge env a edge along lt)"
  using lt_inv_start_handoff [of lt env a edge] by (auto simp: pointer_edge_def Let_def case_prod_unfold)

lemma lt_inv_proxy_event:
  assumes "lt_inv lt" and "task_event event" shows "lt_inv (listen_proxy_event env event lt)"
  using assms lt_inv_proxy(6) [OF assms(1), of event]
  by (cases event) (simp_all add: listen_proxy_event_def Let_def lt_inv_pointer_edge task_event_def)

section \<open>Clipboards\<close>

lemma transfers_ok_retain: "transfers_ok ts \<Longrightarrow> transfers_ok (hm_retain P ts)"
  by (auto simp: transfers_ok_def hm_retain_def list_all_iff intro!: distinct_map_filter)
     (simp flip: hm_retain_def)

lemma transfers_ok_remove: "transfers_ok ts \<Longrightarrow> transfers_ok (hm_remove k ts)"
  by (simp add: hm_remove_def transfers_ok_retain)

lemma transfers_ok_get: "transfers_ok ts \<Longrightarrow> hm_get ts k = Some x \<Longrightarrow> transfer_ok x"
  using hm_get_set [of ts k x] by (auto simp: transfers_ok_def list_all_iff)

lemma hm_insert_present: "hm_get m k = Some w \<Longrightarrow> map fst (hm_insert k v m) = map fst m"
  by (induction m) (auto simp: hm_get_def)

lemma transfers_ok_replace:
  assumes "transfers_ok ts" and "hm_get ts k = Some w" and "transfer_ok x" shows "transfers_ok (hm_insert k x ts)"
proof -
  have "map (\<lambda>((a, _), _). a) m = map (fst \<circ> fst) m" for m :: "((socket_addr \<times> u64) \<times> clipboard_transfer) list"
    by (simp add: case_prod_unfold comp_def)
  then have "map (\<lambda>((a, _), _). a) (hm_insert k x ts) = map (\<lambda>((a, _), _). a) ts"
    using hm_insert_present [OF assms(2), of x] by (metis map_map)
  moreover have "list_all (\<lambda>(_, x). transfer_ok x) (hm_insert k x ts)"
    using assms set_hm_insert_subset [of k x ts] by (fastforce simp: transfers_ok_def list_all_iff)
  ultimately show ?thesis using assms(1) by (simp add: transfers_ok_def)
qed

lemma hm_insert_absent: "hm_get m k = None \<Longrightarrow> hm_insert k v m = m @ [(k, v)]"
  by (induction m) (auto simp: hm_get_def)

lemma transfers_ok_start:
  assumes ok: "transfers_ok ts" and x: "transfer_ok x" shows "transfers_ok (start_clipboard_transfer a t x ts)"
proof -
  let ?ts = "hm_retain (\<lambda>(peer, _) _. peer \<noteq> a) ts"
  have r: "transfers_ok ?ts" by (rule transfers_ok_retain [OF ok])
  have "a \<notin> (\<lambda>((b, _), _). b) ` set ?ts" by (auto simp: set_hm_retain)
  moreover from this have "hm_get ?ts (a, t) = None" by (force simp: hm_get_None)
  moreover have "hm_ok (hm_insert (a, t) x ?ts)" using r by (simp add: transfers_ok_def)
  ultimately show ?thesis using r x
    by (simp add: start_clipboard_transfer_def hm_insert_absent transfers_ok_def list_all_iff)
qed

lemma lt_inv_transfers: "lt_inv lt \<Longrightarrow> transfers_ok ts \<Longrightarrow> lt_inv (lt\<lparr>lt_clipboard_transfers := ts\<rparr>)"
  using et_inv_cong [of "lt\<lparr>lt_clipboard_transfers := ts\<rparr>" lt] by (simp add: lt_inv_def ctl_ok_def dev_view_def)

lemma lt_inv_last_response: "lt_inv lt \<Longrightarrow> hm_ok rs \<Longrightarrow> lt_inv (lt\<lparr>lt_last_response := rs\<rparr>)"
  using et_inv_cong [of "lt\<lparr>lt_last_response := rs\<rparr>" lt] by (simp add: lt_inv_def ctl_ok_def dev_view_def)

lemma lt_inv_clipboard_chunk:
  assumes inv: "lt_inv lt" shows "lt_inv (clipboard_chunk a t index data lt)"
proof (cases "hm_get (lt_clipboard_transfers lt) (a, t)")
  case (Some x)
  have ts: "transfers_ok (lt_clipboard_transfers lt)" using inv by (simp add: lt_inv_def)
  have "transfer_ok x" by (rule transfers_ok_get [OF ts Some])
  then have "length (cx_bytes x) + length data \<le> cx_total_len x \<Longrightarrow>
      transfer_ok (x\<lparr>cx_bytes := cx_bytes x @ data, cx_next := cx_next x + 1\<rparr>)" by (simp add: transfer_ok_def)
  with Some ts inv show ?thesis
    by (auto simp: clipboard_chunk_def Let_def lt_inv_transfers transfers_ok_remove transfers_ok_replace split: option.split)
qed (use inv in \<open>simp add: clipboard_chunk_def\<close>)

text \<open>What decodes is within the limits of the protocol.\<close>

lemma decoded_start:
  assumes "decode bs = Inr (ClipboardStart t len chunks) \<or> decode bs = Inr (ClipboardImageStart t w h len chunks)"
  shows "unat len \<le> MAX_CLIPBOARD_SIZE"
proof -
  have "\<exists>buf. encode (ClipboardStart t len chunks) = Inr buf \<or> encode (ClipboardImageStart t w h len chunks) = Inr buf"
    using assms encode_decode by blast
  then show ?thesis
    by (auto simp: encode_def codec_defs rbind_eq_Inr_iff validate_clipboard_image_def validate_clipboard_start_def
        split: if_splits option.splits)
qed

section \<open>Messages\<close>

lemma lt_inv_dispatch:
  assumes inv: "lt_inv lt" and ok: "decode bs = Inr event" and plain: "\<And>target s. event \<noteq> Handoff target s"
  shows "lt_inv (listen_dispatch env a event lt)"
proof -
  have ts: "transfers_ok (lt_clipboard_transfers lt)" using inv by (simp add: lt_inv_def)
  have start: "transfer_ok (cx_new env kind len chunks)"
    if "event = ClipboardStart t len chunks \<or> event = ClipboardImageStart t w h len chunks" for kind t w h len chunks
    using decoded_start [of bs t len chunks w h] ok that by (auto simp: transfer_ok_def cx_new_def)
  show ?thesis
  proof (cases event)
    case (ClipboardStart t len chunks)
    then show ?thesis using inv lt_inv_transfers transfers_ok_start [OF ts start] by (simp add: listen_dispatch_def)
  next
    case (ClipboardImageStart t w h len chunks)
    then show ?thesis using inv lt_inv_transfers transfers_ok_start [OF ts start] by (simp add: listen_dispatch_def)
  qed (use inv plain in \<open>simp_all add: listen_dispatch_def lt_inv_handle_enter lt_inv_listen_input lt_inv_clipboard_chunk
      is_service_event_def\<close>)
qed

lemma lt_inv_message:
  assumes inv: "lt_inv lt" and ok: "decode bs = Inr event" shows "lt_inv (listen_message env a event lt)"
proof -
  let ?lt = "lt\<lparr>lt_last_response := hm_insert a (le_now env) (lt_last_response lt)\<rparr>"
  have l: "lt_inv ?lt" using inv by (intro lt_inv_last_response) (simp_all add: lt_inv_def)
  show ?thesis
  proof (cases "\<exists>target s. event = Handoff target s")
    case True
    then show ?thesis using lt_inv_handoff_refused [OF l, of env a] by (auto simp: listen_message_def listen_dispatch_def)
  next
    case False
    then have "neutral (Got a event)" by (cases event) (auto simp: neutral_def)
    with False show ?thesis using lt_inv_dispatch [OF lt_inv_log [OF l] ok] by (simp add: listen_message_def)
  qed
qed

lemma lt_inv_accept: "lt_inv lt \<Longrightarrow> lt_inv (listen_accept env a fingerprint lt)"
  unfolding listen_accept_def using lt_inv_last_response [of "lt\<lparr>lt_return_position_peers := removeAll a (lt_return_position_peers lt)\<rparr>"]
  by (simp add: lt_inv_def [of lt])

lemma lt_inv_rejected: "lt_inv lt \<Longrightarrow> lt_inv (listen_rejected env fingerprint lt)"
  by (simp add: listen_rejected_def Let_def)

section \<open>Requests and time\<close>

lemma lt_inv_sharing_off: "lt_inv lt \<Longrightarrow> lt_inv (sharing_off addrs lt)"
  by (induction addrs arbitrary: lt) simp_all

lemma lt_inv_set_input_sharing:
  assumes inv: "lt_inv lt" shows "lt_inv (set_input_sharing enabled (log_effect (Requested (ReqSetInputSharing enabled)) lt))"
proof -
  let ?req = "Requested (ReqSetInputSharing enabled)"
  let ?active = "if enabled then lt_active_inputs lt else []"
  let ?spec = "log_effect ?req (lt\<lparr>lt_active_inputs := ?active, lt_input_sharing := enabled\<rparr>)"
  have spec: "lt_inv ?spec" using inv by (rule lt_inv_ctl) (simp_all add: ctl_allows_def ctl_step_def)
  define set where "set = ep_set_input_sharing enabled ((log_effect ?req lt)\<lparr>lt_input_sharing := enabled\<rparr>)"
  define after where "after = (if enabled then set else set\<lparr>lt_active_inputs := []\<rparr>)"
  have "lt_inv after \<longleftrightarrow> lt_inv (ep_set_input_sharing enabled ?spec)"
    by (rule lt_inv_cong) (simp_all add: after_def set_def ep_set_input_sharing_def ask_def log_effect_def dev_view_def)
  then have "lt_inv after" using spec by simp
  moreover have "set_input_sharing enabled (log_effect ?req lt) = (if enabled then after else sharing_off (lt_active_inputs set) after)"
    by (simp add: set_input_sharing_def after_def set_def Let_def)
  ultimately show ?thesis by (simp add: lt_inv_sharing_off)
qed

lemma lt_inv_request:
  assumes inv: "lt_inv lt" shows "lt_inv (listen_request env request lt)"
proof (cases "\<exists>enabled. request = ReqSetInputSharing enabled")
  case True
  then show ?thesis using lt_inv_set_input_sharing [OF inv] by (auto simp: listen_request_def Let_def)
next
  case False
  then have "lt_inv (log_effect (Requested request) lt)"
    by (intro lt_inv_log [OF inv]) (cases request, auto simp: neutral_def)
  with False show ?thesis by (cases request) (simp_all add: listen_request_def Let_def lt_inv_log)
qed

lemma lt_inv_published: "lt_inv lt \<Longrightarrow> lt_inv (listen_published ok fallback lt)"
  by (simp add: listen_published_def Let_def)

lemma lt_inv_expire: "lt_inv lt \<Longrightarrow> lt_inv (expire_peer a lt)"
  by (simp add: expire_peer_def Let_def)

lemma lt_inv_expire_all: "lt_inv lt \<Longrightarrow> lt_inv (fold expire_peer as lt)"
  by (induction as arbitrary: lt) (simp_all add: lt_inv_expire)

lemma lt_inv_tick:
  assumes inv: "lt_inv lt" shows "lt_inv (listen_tick env lt)"
proof -
  have "lt_inv (lt\<lparr>lt_last_response := hm_retain P (lt_last_response lt)\<rparr>)" for P
    using inv by (intro lt_inv_last_response) (simp_all add: lt_inv_def)
  then have e: "lt_inv (fold expire_peer as (lt\<lparr>lt_last_response := hm_retain P (lt_last_response lt)\<rparr>))" for as P
    by (rule lt_inv_expire_all)
  then show ?thesis unfolding listen_tick_def Let_def
    by (intro lt_inv_transfers transfers_ok_retain) (simp_all add: lt_inv_def)
qed

section \<open>Steps of the emulation task\<close>

text \<open>They leave the fields of the listen task alone and post no event about peers.\<close>

definition task_only :: "'a emulation_task_scheme \<Rightarrow> 'a emulation_task_scheme \<Rightarrow> bool" where
  "task_only et et' \<longleftrightarrow> emulation_task.more et' = emulation_task.more et \<and> (list_all task_event (et_events et) \<longrightarrow> list_all task_event (et_events et'))"

lemma task_only_refl [simp]: "task_only et et"
  by (simp add: task_only_def)

lemma task_only_trans: "task_only et et' \<Longrightarrow> task_only et' et'' \<Longrightarrow> task_only et et''"
  by (simp add: task_only_def)

lemma task_only_same: "emulation_task.more et' = emulation_task.more et \<Longrightarrow> et_events et' = et_events et \<Longrightarrow> task_only et et'"
  by (simp add: task_only_def)

lemma task_only_ie: "input_emulation.more et' = input_emulation.more et \<Longrightarrow> task_only et et'"
  using et_more(7,14) [of et' et] by (simp add: task_only_same)

lemma task_only_post: "task_only et et' \<Longrightarrow> task_event e \<Longrightarrow> task_only et (post e et')"
  by (simp add: task_only_def post_def)

lemma task_only_update [simp]:
  "task_only et (et'\<lparr>et_handles := hs\<rparr>) = task_only et et'" "task_only et (et'\<lparr>et_pressed_buttons := bs\<rparr>) = task_only et et'"
  "task_only et (et'\<lparr>et_reply := r\<rparr>) = task_only et et'" "task_only et (et'\<lparr>et_requests := q\<rparr>) = task_only et et'"
  "task_only et (et'\<lparr>et_backend := b\<rparr>) = task_only et et'" "task_only et (et'\<lparr>et_restart_now := n\<rparr>) = task_only et et'"
  "task_only et (et'\<lparr>et_phase := p\<rparr>) = task_only et et'" "task_only et (et'\<lparr>et_exit_requested := n\<rparr>) = task_only et et'"
  "task_only et (et'\<lparr>et_emulation_ready := n\<rparr>) = task_only et et'" "task_only et (et'\<lparr>et_input_sharing := n\<rparr>) = task_only et et'"
  "task_only et (et'\<lparr>et_next_id := i\<rparr>) = task_only et et'"
  by (simp_all add: task_only_def)

lemma task_only_release_client: "task_only et (fst (release_client env a et))"
proof (cases "hm_get (et_handles et) a")
  case (Some h)
  then show ?thesis by (auto simp: release_client_def Let_def case_prod_unfold task_only_def)
qed (simp add: release_client_def)

lemma task_only_release_clients: "task_only et (fst (release_clients env as (et, ok)))"
proof (induction as arbitrary: et ok)
  case (Cons a as)
  from task_only_trans [OF task_only_release_client Cons] show ?case by (simp add: case_prod_unfold Let_def)
qed simp

lemma task_only_session_input: "task_only et (fst (session_input env event a et))"
proof (cases "et_input_sharing et")
  case True
  obtain et1 h where ch: "client_handle a et = (et1, h)" by (cases "client_handle a et")
  have "task_only et et1"
    using ch by (auto simp: client_handle_def Let_def task_only_def split: option.splits)
  then have "task_only et (track_button event a et1)"
    by (simp add: track_button_def Let_def split: input_event.split pointer_event.split)
  then have "task_only et (fst (ie_consume (ee_accepts env) event h (track_button event a et1)))"
    by (rule task_only_trans) (simp add: task_only_ie)
  with True ch show ?thesis
    by (auto simp: session_input_def case_prod_unfold Let_def task_only_post task_event_def split: option.split)
qed (simp add: session_input_def)

lemma task_only_session_request: "task_only et (fst (session_request env request et))"
  by (cases request) (simp_all add: session_request_def case_prod_unfold Let_def task_only_session_input task_only_release_client
      task_only_release_clients task_only_ie ie_set_file_clipboard_def)

lemma task_only_after_session: "task_only et et' \<Longrightarrow> task_only et (after_session et')"
  by (simp add: after_session_def)

lemma task_only_end_session: "task_only et (end_session env et)"
proof -
  have "task_only et (ie_terminate (ee_accepts env) et)" by (simp add: task_only_ie)
  then show ?thesis unfolding end_session_def Let_def
    by (intro task_only_after_session task_only_post) (simp_all add: task_event_def)
qed

lemma task_only_wait: "task_only et (fst (wait_for_termination n et))"
proof (induction n arbitrary: et)
  case (Suc n)
  have "task_only et (fst (wait_for_termination n et'))" if "task_only et et'" for et' using task_only_trans [OF that Suc] .
  then show ?case by (auto simp: Let_def split: list.split proxy_request.split)
qed simp

lemma task_only_create_loop: "task_only et (create_clients_loop env hs et)"
proof (induction hs arbitrary: et)
  case (Cons h hs)
  have c: "task_only et (fst (ie_create h et'))" if "task_only et et'" for et'
    using that by (rule task_only_trans) (simp add: task_only_ie)
  show ?case using task_only_wait [of et "ee_swallow env h"] c task_only_trans [OF c Cons]
    by (auto simp: case_prod_unfold Let_def)
qed simp

lemma task_only_start_session: "task_only et (start_session env b et)"
proof -
  define et1 where "et1 = post (EmulationEnabled (backend_name b))
    ((call (CallIndependentPointers (et_independent_pointers et)) (et\<lparr>ie_handles := [], ie_pressed_keys := [], ie_calls := []\<rparr>))\<lparr>et_emulation_ready := True\<rparr>)"
  have "task_only et et1" unfolding et1_def by (intro task_only_post) (simp_all add: task_only_ie task_event_def)
  then have "task_only et (create_clients env et1)"
    using task_only_trans [OF _ task_only_create_loop, of et et1] by (simp add: create_clients_def)
  then show ?thesis by (simp add: start_session_def Let_def et1_def)
qed

lemma task_only_native: "task_only et (native_clipboard env mime data et)"
proof -
  have "task_event e" if "native_event env mime data = Some e" for e
    using that by (auto simp: native_event_def task_event_def simp del: lit_Cons split: if_splits)
  then show ?thesis by (auto simp: native_clipboard_def task_only_post split: option.split)
qed

lemma task_only_exec:
  assumes "emu_exec env step et = Some et'" shows "task_only et et'"
proof (cases step)
  case Initialized
  with assms show ?thesis
    by (auto simp: emu_exec_def initialized_def task_only_start_session task_only_after_session split: creation_result.splits if_splits)
next
  case TimedOut
  with assms show ?thesis by (auto simp: emu_exec_def initialization_timed_out_def task_only_after_session split: if_splits)
next
  case TakeRequest
  then obtain request rest where q: "et_requests et = request # rest"
    using assms by (cases "et_requests et") (auto simp: emu_exec_def take_request_def)
  let ?et = "et\<lparr>et_requests := rest\<rparr>"
  have "task_only ?et (starting_request request ?et)" "task_only ?et (inactive_request request ?et)"
    by (cases request; simp add: starting_request_def inactive_request_def task_only_after_session Let_def)+
  moreover have "task_only ?et (running_request env request ?et)"
    using task_only_session_request [of ?et env request] task_only_trans [OF task_only_session_request [of ?et env request] task_only_end_session]
    by (simp add: running_request_def case_prod_unfold split: session_result.split)
  moreover have "task_only et x" if "task_only ?et x" for x using that by (simp add: task_only_def)
  ultimately show ?thesis using assms TakeRequest q
    by (auto simp: emu_exec_def take_request_def Let_def split: emu_phase.splits)
next
  case (NativeClipboardEvent c)
  with assms show ?thesis by (auto simp: emu_exec_def clipboard_event_def task_only_native split: if_splits option.splits)
next
  case (HealthCheck healthy)
  with assms show ?thesis by (auto simp: emu_exec_def task_only_end_session split: emu_phase.splits if_splits)
qed

lemma lt_more:
  fixes lt lt' :: listen_task
  assumes "emulation_task.more lt' = emulation_task.more lt"
  shows "lt_trace lt' = lt_trace lt" "lt_active_inputs lt' = lt_active_inputs lt" "lt_input_sharing lt' = lt_input_sharing lt"
    "lt_clipboard_transfers lt' = lt_clipboard_transfers lt" "lt_last_response lt' = lt_last_response lt"
  using assms by (cases lt; cases lt'; simp)+

lemma lt_inv_emu:
  assumes inv: "lt_inv lt" and step: "emu_exec env step lt = Some lt'" shows "lt_inv lt'"
proof -
  have "emulation_task.more lt' = emulation_task.more lt" and "list_all task_event (et_events lt')"
    using task_only_exec [OF step] inv by (simp_all add: task_only_def lt_inv_def)
  moreover have "et_inv lt'" using emu_exec_inv [OF _ step] inv by (simp add: lt_inv_def)
  ultimately show ?thesis using inv lt_more [of lt' lt] by (simp add: lt_inv_def ctl_ok_def)
qed

section \<open>Every reachable state\<close>

lemma lt_inv_new: "lt_inv (lt_new backend)"
proof -
  have "ie_inv (lt_new backend)" using ie_inv_cong [of "lt_new backend" "lt_new backend"]
    by (simp add: ie_inv_def keys_of_def lt_new_def hash_map)
  then show ?thesis by (simp add: lt_inv_def et_inv_def ctl_ok_def ctl_of_def transfers_ok_def) (simp add: lt_new_def)
qed

lemma lt_inv_exec:
  assumes inv: "lt_inv lt" and ok: "listen_step_ok step" and exec: "listen_exec env step lt = Some lt'"
  shows "lt_inv lt'"
proof (cases step)
  case ListenProxyEvent
  then obtain event rest where e: "et_events lt = event # rest" and lt': "lt' = listen_proxy_event env event (lt\<lparr>et_events := rest\<rparr>)"
    using exec by (auto simp: listen_exec_def Let_def split: list.splits if_splits)
  have "lt_inv (lt\<lparr>et_events := rest\<rparr>)"
    using inv e et_inv_cong [of "lt\<lparr>et_events := rest\<rparr>" lt] by (simp add: lt_inv_def ctl_ok_def dev_view_def)
  moreover have "task_event event" using inv e by (simp add: lt_inv_def)
  ultimately show ?thesis unfolding lt' by (rule lt_inv_proxy_event)
qed (use exec ok inv in \<open>auto simp: listen_exec_def listen_step_ok_def Let_def lt_inv_message lt_inv_accept lt_inv_rejected
    lt_inv_request lt_inv_tick lt_inv_published lt_inv_emu lt_inv_log split: if_splits option.splits\<close>)

lemma lt_reach_inv: "lt_reach backend lt \<Longrightarrow> lt_inv lt"
  by (induction rule: lt_reach.induct) (auto intro: lt_inv_new lt_inv_exec)

end
