(* ===== verification/Backend_Answers.thy ===== *)
theory Backend_Answers
  imports Input_Emulation
begin

text \<open>
  What a backend that refuses calls really holds down. \<open>held_keys\<close> and \<open>held_buttons\<close> of \<open>Input_Emulation\<close> are what the backend was
  asked to hold; here an answer pattern \<open>ok\<close> says for each call, by its number, whether the backend took it, and only the
  calls it took have an effect.
\<close>

section \<open>The calls the backend took\<close>

definition accepted :: "(nat \<Rightarrow> bool) \<Rightarrow> backend_call list \<Rightarrow> backend_call list" where
  "accepted ok calls = map snd (filter (\<lambda>(n, _). ok n) (enumerate 0 calls))"

text \<open>The last call that satisfies a predicate, with its number.\<close>

definition last_call :: "(backend_call \<Rightarrow> bool) \<Rightarrow> backend_call list \<Rightarrow> (nat \<times> backend_call) option" where
  "last_call P calls = (case filter (\<lambda>(_, c). P c) (rev (enumerate 0 calls)) of [] \<Rightarrow> None | x # _ \<Rightarrow> Some x)"

definition key_call :: "emulation_handle \<Rightarrow> u32 \<Rightarrow> backend_call \<Rightarrow> bool" where
  "key_call h key c = (case c of CallConsume (Keyboard (Key _ key' _)) h' \<Rightarrow> h' = h \<and> key' = key | _ \<Rightarrow> False)"

definition button_call :: "emulation_handle \<Rightarrow> u32 \<Rightarrow> backend_call \<Rightarrow> bool" where
  "button_call h button c = (case c of CallConsume (Pointer (Button _ button' _)) h' \<Rightarrow> h' = h \<and> button' = button | _ \<Rightarrow> False)"

definition lifts :: "backend_call \<Rightarrow> bool" where
  "lifts c = (case c of CallConsume (Keyboard (Key _ _ state)) _ \<Rightarrow> state = 0
                      | CallConsume (Pointer (Button _ _ state)) _ \<Rightarrow> state = 0 | _ \<Rightarrow> False)"

text \<open>The last event of the key, or of the button, on this device was refused; and it was a release.\<close>

definition key_refused :: "(nat \<Rightarrow> bool) \<Rightarrow> backend_call list \<Rightarrow> emulation_handle \<Rightarrow> u32 \<Rightarrow> bool" where
  "key_refused ok calls h key = (case last_call (key_call h key) calls of None \<Rightarrow> False | Some (n, _) \<Rightarrow> \<not> ok n)"

definition key_stuck :: "(nat \<Rightarrow> bool) \<Rightarrow> backend_call list \<Rightarrow> emulation_handle \<Rightarrow> u32 \<Rightarrow> bool" where
  "key_stuck ok calls h key = (case last_call (key_call h key) calls of None \<Rightarrow> False | Some (n, c) \<Rightarrow> \<not> ok n \<and> lifts c)"

definition button_stuck :: "(nat \<Rightarrow> bool) \<Rightarrow> backend_call list \<Rightarrow> emulation_handle \<Rightarrow> u32 \<Rightarrow> bool" where
  "button_stuck ok calls h button =
     (case last_call (button_call h button) calls of None \<Rightarrow> False | Some (n, c) \<Rightarrow> \<not> ok n \<and> lifts c)"

lemma accepted_Nil [simp]: "accepted ok [] = []"
  by (simp add: accepted_def)

lemma accepted_snoc [simp]:
  "accepted ok (calls @ [c]) = accepted ok calls @ (if ok (length calls) then [c] else [])"
  by (simp add: accepted_def enumerate_append_eq)

lemma last_call_Nil [simp]: "last_call P [] = None"
  by (simp add: last_call_def)

lemma last_call_snoc [simp]:
  "last_call P (calls @ [c]) = (if P c then Some (length calls, c) else last_call P calls)"
  by (simp add: last_call_def enumerate_append_eq)

lemma accepted_all:
  "(\<And>n. n < length calls \<Longrightarrow> ok n) \<Longrightarrow> accepted ok calls = calls"
  by (induction calls rule: rev_induct) simp_all

section \<open>What is really down\<close>

lemma key_step_other: "\<not> key_call h key c \<Longrightarrow> key \<in> key_step h held c \<longleftrightarrow> key \<in> held"
  by (auto simp: key_call_def key_step_def split: backend_call.splits input_event.splits keyboard_event.splits if_splits)

lemma key_step_this: "key_call h key c \<Longrightarrow> key \<in> key_step h held c \<longleftrightarrow> \<not> lifts c"
  by (auto simp: key_call_def key_step_def lifts_def split: backend_call.splits input_event.splits keyboard_event.splits if_splits)

lemma button_step_other: "\<not> button_call h button c \<Longrightarrow> button \<in> button_step h held c \<longleftrightarrow> button \<in> held"
  by (auto simp: button_call_def button_step_def split: backend_call.splits input_event.splits pointer_event.splits if_splits)

lemma button_step_this: "button_call h button c \<Longrightarrow> button \<in> button_step h held c \<longleftrightarrow> \<not> lifts c"
  by (auto simp: button_call_def button_step_def lifts_def split: backend_call.splits input_event.splits pointer_event.splits if_splits)

lemma held_keys_accepted:
  "\<not> key_refused ok calls h key \<Longrightarrow> key \<in> held_keys (accepted ok calls) h \<longleftrightarrow> key \<in> held_keys calls h"
  by (induction calls rule: rev_induct)
     (auto simp: key_refused_def key_step_other key_step_this split: if_splits)

text \<open>A key that is really down although it was asked to be up is stuck, and so is a button.\<close>

lemma held_keys_stuck:
  "key \<in> held_keys (accepted ok calls) h \<Longrightarrow> key \<notin> held_keys calls h \<Longrightarrow> key_stuck ok calls h key"
  by (induction calls rule: rev_induct)
     (auto simp: key_stuck_def key_step_other key_step_this split: if_splits)

lemma held_buttons_stuck:
  "button \<in> held_buttons (accepted ok calls) h \<Longrightarrow> button \<notin> held_buttons calls h \<Longrightarrow> button_stuck ok calls h button"
  by (induction calls rule: rev_induct)
     (auto simp: button_stuck_def button_step_other button_step_this split: if_splits)

section \<open>The backend against the reference\<close>

text \<open>The calls of a run, and those of them that a backend that answers by \<open>accepts\<close> took.\<close>

definition answers :: "(backend_call list \<Rightarrow> bool) \<Rightarrow> backend_call list \<Rightarrow> nat \<Rightarrow> bool" where
  "answers accepts calls n = accepts (take (Suc n) calls)"

definition run_calls :: "(backend_call list \<Rightarrow> bool) \<Rightarrow> ie_op list \<Rightarrow> backend_call list" where
  "run_calls accepts ops = ie_calls (fold (ie_step accepts) ops ie_new)"

definition taken_calls :: "(backend_call list \<Rightarrow> bool) \<Rightarrow> ie_op list \<Rightarrow> backend_call list" where
  "taken_calls accepts ops = accepted (answers accepts (run_calls accepts ops)) (run_calls accepts ops)"

definition reference_keys :: "ie_op list \<Rightarrow> emulation_handle \<Rightarrow> u32 set" where
  "reference_keys ops h = (case foldl (device_step h) None ops of None \<Rightarrow> {} | Some held \<Rightarrow> held)"

text \<open>C22: the keys the backend is asked to hold are those of the reference, and it holds them as far as it takes the calls. Whatever
  events, creations, releases and removals happen in whatever order and whatever the backend answers, the keys each device is
  asked to hold down are exactly those that were pressed and not released while the device existed, and the backend is asked
  neither to press a key twice in a row nor to release one that it was not asked to press. The keys that are
  really down, counting only the calls the backend took, are the same, for every key whose last press or release
  the backend did not refuse.\<close>

theorem emulated_keys_exact:
  "held_keys (run_calls accepts ops) h = reference_keys ops h \<and> clean [] (run_calls accepts ops)
    \<and> (\<forall>key. \<not> key_refused (answers accepts (run_calls accepts ops)) (run_calls accepts ops) h key \<longrightarrow>
          key \<in> held_keys (taken_calls accepts ops) h \<longleftrightarrow> key \<in> reference_keys ops h)"
proof -
  let ?ie = "fold (ie_step accepts) ops ie_new" and ?calls = "run_calls accepts ops"
  have "device ie_new h = None" by (simp add: device_def ie_new_def hash_map)
  then have "ie_inv ?ie" and "device ?ie h = foldl (device_step h) None ops"
    using ie_run [OF ie_inv_new, of accepts ops h] by simp_all
  moreover have "keys_of ?ie h = (case device ?ie h of None \<Rightarrow> {} | Some held \<Rightarrow> held)"
    by (simp add: keys_of_def device_def split: option.split)
  ultimately have "held_keys ?calls h = reference_keys ops h \<and> clean [] ?calls"
    by (simp add: ie_inv_def reference_keys_def run_calls_def)
  then show ?thesis using held_keys_accepted [of "answers accepts ?calls" ?calls h] by (simp add: taken_calls_def)
qed

text \<open>A device whose first release is refused: the key stays down, and one that is pressed and released later is not affected.\<close>

theorem emulated_keys_exact_witness:
  "\<exists>accepts ops. reference_keys ops 1 = {42} \<and> 29 \<in> held_keys (taken_calls accepts ops) 1
    \<and> \<not> key_refused (answers accepts (run_calls accepts ops)) (run_calls accepts ops) 1 42
    \<and> 42 \<in> held_keys (taken_calls accepts ops) 1"
proof -
  let ?accepts = "\<lambda>calls :: backend_call list. length calls \<noteq> 3"
  let ?ops = "[OpCreate 1, OpConsume (Keyboard (Key 5 29 1)) 1, OpConsume (Keyboard (Key 6 29 0)) 1, OpConsume (Keyboard (Key 7 42 1)) 1]"
  have "reference_keys ?ops 1 = {42}" by code_simp
  moreover have "29 \<in> held_keys (taken_calls ?accepts ?ops) 1" by code_simp
  moreover have "\<not> key_refused (answers ?accepts (run_calls ?accepts ?ops)) (run_calls ?accepts ?ops) 1 42" by code_simp
  ultimately show ?thesis using emulated_keys_exact [where accepts = ?accepts and ops = ?ops and h = 1]
    by (intro exI [of _ ?accepts] exI [of _ ?ops]) simp
qed

end
