(* ===== verification/Emulation_Properties.thy ===== *)
theory Emulation_Properties
  imports Listen_Invariant Clipboard_Stream Backend_Answers
begin

text \<open>
  What holds of the receiving side in every reachable state: who controls this screen, that nothing stays pressed for a
  peer that is gone, that a silent peer is let go, and that a clipboard arrives whole and in bounded memory; and
  some ways in which the code departs from its intent.
\<close>

section \<open>Control\<close>

text \<open>C12: who drives this screen can be read off the events. In every reachable state, the peers whose input is passed on are
  exactly those that entered or sent a \<open>Handoff\<close> message and have not left since, with nobody left when
  input sharing was turned off; every input passed to the emulation came from such a peer at that moment, and nobody
  entered and no input was passed on while sharing was off. A \<open>Handoff\<close> message counts whether or not this device had asked for
  one: the code takes it for the answer of a peer that could not hand the pointer on and does not check that it had
  asked.\<close>

theorem control_of_the_screen:
  assumes "lt_reach backend lt"
  shows "ctl_of (lt_trace lt) = (set (lt_active_inputs lt), lt_input_sharing lt) \<and> ctl_legal ({}, True) (lt_trace lt)"
  using lt_reach_inv [OF assms] by (simp add: lt_inv_def ctl_ok_def)

text \<open>A run of the two tasks, for examples.\<close>

fun lt_run :: "(listen_env \<times> listen_step) list \<Rightarrow> listen_task \<Rightarrow> listen_task option" where
  "lt_run [] lt = Some lt"
| "lt_run ((env, step) # steps) lt = (case listen_exec env step lt of None \<Rightarrow> None | Some lt' \<Rightarrow> lt_run steps lt')"

lemma lt_run_reach:
  "lt_reach backend lt \<Longrightarrow> list_all (\<lambda>(_, step). listen_step_ok step) steps \<Longrightarrow> lt_run steps lt = Some lt' \<Longrightarrow> lt_reach backend lt'"
proof (induction steps arbitrary: lt)
  case (Cons s steps)
  obtain env step where s: "s = (env, step)" by (cases s)
  with Cons.prems obtain lt1 where "listen_exec env step lt = Some lt1" "lt_run steps lt1 = Some lt'"
    by (auto split: option.splits)
  with Cons s show ?case by (auto intro: lt_reach.step)
qed simp

definition example_env :: listen_env where
  "example_env = \<lparr>le_now = 0, le_fingerprint = (\<lambda>_. Some (lit ''peer'')), le_local_commit = [], le_port_changed = Some\<rparr>"

definition example_emu :: emu_env where
  "example_emu = \<lparr>ee_built = (\<lambda>_. True), ee_create = (\<lambda>_. Created), ee_accepts = (\<lambda>_. True), ee_pointer_exit = (\<lambda>_. None),
     ee_swallow = (\<lambda>_. 0), ee_created = (\<lambda>_. True), ee_decode_image = (\<lambda>_ _. None)\<rparr>"

definition example_peer :: socket_addr where
  "example_peer = ([10, 0, 0, 1], 4242)"

text \<open>A backend starts, a peer enters, presses a key and a button; the two requests are taken.\<close>

definition example_steps :: "(listen_env \<times> listen_step) list" where
  "example_steps =
     [(example_env, EmuStep example_emu Initialized), (example_env, ListenProxyEvent),
      (example_env, ListenRequest (ReqCaptureReady True)), (example_env, ListenMessage example_peer (Enter Left)),
      (example_env, ListenMessage example_peer (Input (Keyboard (Key 1 30 1)))),
      (example_env, ListenMessage example_peer (Input (Pointer (Button 2 272 1)))),
      (example_env, EmuStep example_emu TakeRequest), (example_env, EmuStep example_emu TakeRequest),
      (example_env, EmuStep example_emu TakeRequest)]"

definition example_state :: listen_task where
  "example_state = the (lt_run example_steps (lt_new None))"

lemma example_messages:
  "\<exists>bs. decode bs = Inr (Enter Left)" "\<exists>bs. decode bs = Inr (Input (Keyboard (Key 1 30 1)))"
  "\<exists>bs. decode bs = Inr (Input (Pointer (Button 2 272 1)))"
proof -
  have itself: "\<exists>bs. decode bs = Inr p" if "is_ok (encode p)" "wf_event p" "delivered p = Inr p" for p
    using that decode_of_encode [of p] by (cases "encode p") auto
  have "is_ok (encode (Enter Left))" "is_ok (encode (Input (Keyboard (Key 1 30 1))))" "is_ok (encode (Input (Pointer (Button 2 272 1))))"
    by code_simp+
  then show "\<exists>bs. decode bs = Inr (Enter Left)" "\<exists>bs. decode bs = Inr (Input (Keyboard (Key 1 30 1)))"
    "\<exists>bs. decode bs = Inr (Input (Pointer (Button 2 272 1)))"
    by (intro itself; simp add: delivered_def)+
qed

lemma example_run: "lt_run example_steps (lt_new None) = Some example_state"
proof -
  have "lt_run example_steps (lt_new None) \<noteq> None" by code_simp
  then show ?thesis by (simp add: example_state_def)
qed

lemma example_reach: "lt_reach None example_state"
  by (rule lt_run_reach [OF lt_reach.start _ example_run])
     (simp add: example_steps_def listen_step_ok_def example_messages)

theorem control_of_the_screen_witness:
  "lt_active_inputs example_state = [example_peer] \<and> ctl_of (lt_trace example_state) = ({example_peer}, True)"
proof -
  have "lt_active_inputs example_state = [example_peer]" "lt_input_sharing example_state" by code_simp+
  with control_of_the_screen [OF example_reach] show ?thesis by simp
qed

section \<open>What is held down\<close>



text \<open>C24: turning input sharing off lets everything go that the backend agrees to release. When a running session takes
  that request, no peer has a device afterwards and the backend is asked to hold no key and no button; for every
  pattern \<open>ok\<close> of its answers, the keys and buttons that are really still down are only such whose last event on the device was a
  release that the backend refused.\<close>

theorem sharing_off_releases_everything:
  assumes "lt_reach backend lt" and "is_running (et_phase lt)" and "et_requests lt = PrSetInputSharing False # rest"
    and "take_request env lt = Some lt'"
  shows "et_handles lt' = [] \<and> held_keys (ie_calls lt') h = {} \<and> held_buttons (ie_calls lt') h = {}
    \<and> held_keys (accepted ok (ie_calls lt')) h \<subseteq> {key. key_stuck ok (ie_calls lt') h key}
    \<and> held_buttons (accepted ok (ie_calls lt')) h \<subseteq> {button. button_stuck ok (ie_calls lt') h button}"
proof -
  have "devices_ok lt" using lt_reach_inv [OF assms(1)] assms(2) by (simp add: lt_inv_def et_inv_def)
  then have dok: "devices_ok (lt\<lparr>et_requests := rest\<rparr>)" using devices_ok_cong [of "lt\<lparr>et_requests := rest\<rparr>" lt] by (simp add: dev_view_def)
  define r where "r = release_clients env (map fst (et_handles lt)) (lt\<lparr>et_requests := rest\<rparr>, True)"
  have dev: "devices_ok (fst r)" unfolding r_def by (rule release_clients_devices) (simp add: dok)
  have none: "et_handles (fst r) = []" by (simp add: r_def fold_remove_all)
  have held: "held_keys (ie_calls (fst r)) h = {}" "held_buttons (ie_calls (fst r)) h = {}"
    using devices_ok_unassigned [OF dev, of h] by (simp_all add: none hm_get_def)
  have "lt' = running_request env (PrSetInputSharing False) (lt\<lparr>et_requests := rest\<rparr>)"
    using assms(2-4) by (auto simp: take_request_def is_running_def Let_def split: emu_phase.splits)
  then have lt': "lt' = (if snd r then fst r else end_session env (fst r))"
    by (auto simp: running_request_def session_request_def case_prod_unfold Let_def r_def split: session_result.splits if_splits)
  have "et_inv (end_session env (fst r))" by (rule end_session_inv [OF dev])
  then have "held_keys (ie_calls (end_session env (fst r))) h = {}"
    by (intro held_keys_absent) (auto simp: et_inv_def end_session_def Let_def dev_view_def post_def after_session_def)
  moreover have "held_buttons (ie_calls (end_session env (fst r))) h = {}" "et_handles (end_session env (fst r)) = []"
    using held none by (simp_all add: end_session_def Let_def)
  ultimately have "et_handles lt' = [] \<and> held_keys (ie_calls lt') h = {} \<and> held_buttons (ie_calls lt') h = {}"
    using held none lt' by simp
  then show ?thesis using held_keys_stuck [of _ ok "ie_calls lt'" h] held_buttons_stuck [of _ ok "ie_calls lt'" h] by blast
qed

theorem sharing_off_releases_everything_witness:
  "\<exists>lt lt'. lt_run (example_steps @ [(example_env, ListenRequest (ReqSetInputSharing False))]) (lt_new None) = Some lt
    \<and> held_keys (ie_calls lt) 0 = {30} \<and> take_request example_emu lt = Some lt'
    \<and> held_keys (ie_calls lt') 0 = {} \<and> held_buttons (ie_calls lt') 0 = {}
    \<and> held_keys (accepted (\<lambda>n. n \<noteq> 4) (ie_calls lt')) 0 \<subseteq> {key. key_stuck (\<lambda>n. n \<noteq> 4) (ie_calls lt') 0 key}"
proof -
  let ?steps = "example_steps @ [(example_env, ListenRequest (ReqSetInputSharing False))]"
  define lt where "lt = the (lt_run ?steps (lt_new None))"
  have "lt_run ?steps (lt_new None) \<noteq> None" by code_simp
  then have run: "lt_run ?steps (lt_new None) = Some lt" by (simp add: lt_def)
  have reach: "lt_reach None lt"
    by (rule lt_run_reach [OF lt_reach.start _ run]) (simp add: example_steps_def listen_step_ok_def example_messages)
  have phase: "is_running (et_phase lt)" unfolding lt_def by code_simp
  have queue: "et_requests lt = PrSetInputSharing False # [PrRemove example_peer]" unfolding lt_def by code_simp
  have held: "held_keys (ie_calls lt) 0 = {30}" unfolding lt_def by code_simp
  have "take_request example_emu lt \<noteq> None" unfolding lt_def by code_simp
  then obtain lt' where t: "take_request example_emu lt = Some lt'" by blast
  show ?thesis using run held t sharing_off_releases_everything [OF reach phase queue t, of 0 "\<lambda>n. n \<noteq> 4"] by blast
qed

section \<open>Silent peers\<close>

text \<open>The emulation task takes requests one after another.\<close>

fun drain :: "emu_env list \<Rightarrow> 'a emulation_task_scheme \<Rightarrow> 'a emulation_task_scheme option" where
  "drain [] et = Some et"
| "drain (env # envs) et = (case take_request env et of None \<Rightarrow> None | Some et' \<Rightarrow> drain envs et')"

definition accepting :: "emu_env \<Rightarrow> bool" where
  "accepting env \<longleftrightarrow> (\<forall>calls. ee_accepts env calls)"

definition keeps_session :: "proxy_request \<Rightarrow> bool" where
  "keeps_session request = (case request of PrTerminate \<Rightarrow> False | PrSetBackend _ \<Rightarrow> False | _ \<Rightarrow> True)"

lemma accepting_consume: "accepting env \<Longrightarrow> snd (ie_consume (ee_accepts env) event h ie)"
  by (simp add: accepting_def ie_consume_def Let_def case_prod_unfold split: input_event.split keyboard_event.split)

lemma accepting_buttons: "accepting env \<Longrightarrow> snd r \<Longrightarrow> snd (release_buttons env h bs r)"
  by (induction bs arbitrary: r) (simp_all add: case_prod_unfold Let_def accepting_consume)

lemma accepting_release: "accepting env \<Longrightarrow> snd (release_client env a et)"
  by (auto simp: release_client_def Let_def case_prod_unfold accepting_buttons split: option.split)

lemma accepting_releases: "accepting env \<Longrightarrow> snd r \<Longrightarrow> snd (release_clients env as r)"
  by (induction as arbitrary: r) (simp_all add: case_prod_unfold Let_def accepting_release)

lemma accepting_input: "accepting env \<Longrightarrow> snd (session_input env event a et)"
  by (simp add: session_input_def case_prod_unfold Let_def accepting_consume split: option.split)

lemma accepting_request:
  "accepting env \<Longrightarrow> keeps_session request \<Longrightarrow> snd (session_request env request et) = Go"
  by (cases request) (simp_all add: keeps_session_def session_request_def case_prod_unfold Let_def accepting_input
      accepting_release accepting_releases)

text \<open>The devices after a request.\<close>

definition input_of :: "socket_addr \<Rightarrow> proxy_request \<Rightarrow> bool" where
  "input_of a request = (case request of PrInput _ b \<Rightarrow> b = a | _ \<Rightarrow> False)"

lemma session_input_handles:
  "et_handles (fst (session_input env event b et)) \<in> {et_handles et, hm_insert b (et_next_id et) (et_handles et)}"
proof -
  have "et_handles (post e x) = et_handles x" for e and x :: "'a emulation_task_scheme" by simp
  then show ?thesis
    by (auto simp: session_input_def client_handle_def case_prod_unfold Let_def split: option.split)
qed

lemma session_request_handles:
  assumes "hm_ok (et_handles et)" and "\<not> input_of a request" and "hm_get (et_handles et) a = None \<or> request = PrRemove a"
  shows "hm_get (et_handles (fst (session_request env request et))) a = None"
proof (cases request)
  case (PrInput event b)
  then show ?thesis using assms session_input_handles [of env event b et]
    by (auto simp: session_request_def case_prod_unfold input_of_def hash_map)
next
  case (PrRemove b)
  then show ?thesis using assms by (auto simp: session_request_def case_prod_unfold hash_map)
next
  case (PrSetInputSharing enabled)
  then show ?thesis using assms hm_get_fold_remove [OF assms(1)]
    by (auto simp: session_request_def case_prod_unfold)
qed (use assms in \<open>simp_all add: session_request_def Let_def ie_set_file_clipboard_def\<close>)

lemma requests_track [simp]: "et_requests (track_button event a et) = et_requests et"
  by (simp add: track_button_def Let_def split: input_event.split pointer_event.split)

lemma requests_input [simp]: "et_requests (fst (session_input env event a et)) = et_requests et"
  by (simp add: session_input_def client_handle_def case_prod_unfold Let_def split: option.split)

lemma requests_release [simp]: "et_requests (fst (release_client env a et)) = et_requests et"
  by (simp add: release_client_def case_prod_unfold Let_def split: option.split)

lemma requests_releases [simp]: "et_requests (fst (release_clients env as r)) = et_requests (fst r)"
  by (induction as arbitrary: r) (simp_all add: case_prod_unfold Let_def)

lemma requests_session [simp]: "et_requests (fst (session_request env request et)) = et_requests et"
  by (simp add: session_request_def ie_set_file_clipboard_def case_prod_unfold Let_def split: proxy_request.split)

lemma take_running:
  assumes "et_inv et" and "is_running (et_phase et)" and "et_requests et = request # rest"
    and "accepting env" and "keeps_session request"
  obtains et' where "take_request env et = Some et'" "et_inv et'" "is_running (et_phase et')" "et_requests et' = rest"
    "\<not> input_of a request \<Longrightarrow> hm_get (et_handles et) a = None \<or> request = PrRemove a \<Longrightarrow> hm_get (et_handles et') a = None"
proof -
  let ?et = "et\<lparr>et_requests := rest\<rparr>"
  let ?et' = "fst (session_request env request ?et)"
  have "running_request env request ?et = ?et'"
    using accepting_request [OF assms(4,5), of ?et] by (simp add: running_request_def case_prod_unfold)
  then have t: "take_request env et = Some ?et'"
    using assms(2,3) by (auto simp: take_request_def is_running_def Let_def split: emu_phase.splits)
  moreover have "et_inv ?et'" using take_request_inv [OF assms(1) t] .
  moreover have "is_running (et_phase ?et')" using assms(2) by simp
  moreover have "et_requests ?et' = rest" by simp
  moreover have "hm_ok (et_handles ?et)" using assms(1) by (simp add: et_inv_def)
  ultimately show ?thesis using that [of ?et'] session_request_handles [of ?et a request env] by simp
qed

lemma drain_running:
  assumes "et_inv et" and "is_running (et_phase et)" and "et_requests et = q"
    and "list_all keeps_session q" and "length envs = length q" and "list_all accepting envs"
  shows "\<exists>et'. drain envs et = Some et' \<and> et_inv et' \<and> is_running (et_phase et') \<and> et_requests et' = []
    \<and> (\<forall>before after. q = before @ PrRemove a # after \<longrightarrow> list_all (\<lambda>r. \<not> input_of a r) after \<longrightarrow> hm_get (et_handles et') a = None)
    \<and> (hm_get (et_handles et) a = None \<longrightarrow> list_all (\<lambda>r. \<not> input_of a r) q \<longrightarrow> hm_get (et_handles et') a = None)"
  using assms
proof (induction q arbitrary: et envs)
  case (Cons request q)
  obtain env rest where envs: "envs = env # rest" using Cons.prems(5) by (cases envs) auto
  then have "accepting env" "keeps_session request" using Cons.prems by auto
  from take_running [OF Cons.prems(1-3) this, of a] obtain et1 where t: "take_request env et = Some et1"
    and e1: "et_inv et1" "is_running (et_phase et1)" "et_requests et1 = q"
    and gone: "\<not> input_of a request \<Longrightarrow> hm_get (et_handles et) a = None \<or> request = PrRemove a \<Longrightarrow> hm_get (et_handles et1) a = None"
    by blast
  have "list_all keeps_session q" "length rest = length q" "list_all accepting rest" using Cons.prems(4-6) envs by auto
  from Cons.IH [OF e1 this] obtain et' where d: "drain rest et1 = Some et'" "et_inv et'" "is_running (et_phase et')" "et_requests et' = []"
    and later: "\<And>before after. q = before @ PrRemove a # after \<Longrightarrow> list_all (\<lambda>r. \<not> input_of a r) after \<Longrightarrow> hm_get (et_handles et') a = None"
    and stays: "hm_get (et_handles et1) a = None \<Longrightarrow> list_all (\<lambda>r. \<not> input_of a r) q \<Longrightarrow> hm_get (et_handles et') a = None"
    by auto
  have "hm_get (et_handles et') a = None"
    if q: "request # q = before @ PrRemove a # after" and after: "list_all (\<lambda>r. \<not> input_of a r) after" for before after
  proof (cases before)
    case Nil
    with q have "request = PrRemove a" "q = after" by auto
    then show ?thesis using stays gone after by (simp add: input_of_def)
  next
    case (Cons b bs)
    with q later [of bs after] after show ?thesis by simp
  qed
  moreover have "hm_get (et_handles et') a = None"
    if "hm_get (et_handles et) a = None" "list_all (\<lambda>r. \<not> input_of a r) (request # q)"
    using that stays gone by simp
  ultimately show ?case using t d envs by auto
qed simp

text \<open>A tick ends the control of the peers that have been silent for too long.\<close>

lemma expire_requests [simp]: "et_requests (expire_peer a lt) = et_requests lt @ [PrRemove a]"
  by (simp add: expire_peer_def end_control_def end_control_at_def ep_remove_def ask_def notify_def reply_def Let_def)

lemma fold_expire_requests: "et_requests (fold expire_peer as lt) = et_requests lt @ map PrRemove as"
  by (induction as arbitrary: lt) simp_all

lemma expire_active [simp]: "lt_active_inputs (expire_peer a lt) = removeAll a (lt_active_inputs lt)"
  by (simp add: expire_peer_def end_control_def end_control_at_def ep_remove_def ask_def notify_def reply_def Let_def)

lemma fold_expire_active: "set (lt_active_inputs (fold expire_peer as lt)) = set (lt_active_inputs lt) - set as"
  by (induction as arbitrary: lt) auto

lemma expire_phase [simp]: "et_phase (expire_peer a lt) = et_phase lt"
  by (simp add: expire_peer_def end_control_def end_control_at_def ep_remove_def ask_def notify_def reply_def log_effect_def Let_def)

lemma fold_expire_phase: "et_phase (fold expire_peer as lt) = et_phase lt"
  by (induction as arbitrary: lt) simp_all

text \<open>C14: a peer that vanishes leaves nothing pressed. When a peer has been silent for longer than three seconds, the
  next tick ends its control and asks for its removal; once the emulation task has taken the waiting requests,
  the peer has no device, and no key and no button is held by a device without a peer. This needs a running session
  whose backend accepts events and no request in the queue that ends the session.\<close>

theorem silent_peer_lets_go:
  assumes reach: "lt_reach backend lt" and run: "is_running (et_phase lt)" and keep: "list_all keeps_session (et_requests lt)"
    and silent: "hm_get (lt_last_response lt) a = Some t" "le_now env - t > PEER_SILENCE_TIMEOUT"
    and tick: "listen_exec env ListenTick lt = Some lt1"
    and envs: "length envs = length (et_requests lt1)" "list_all accepting envs"
  shows "a \<notin> set (lt_active_inputs lt1) \<and> (\<exists>lt2. drain envs lt1 = Some lt2 \<and> et_requests lt2 = [] \<and> hm_get (et_handles lt2) a = None
    \<and> (\<forall>h. (\<forall>b. hm_get (et_handles lt2) b \<noteq> Some h) \<longrightarrow> held_keys (ie_calls lt2) h = {} \<and> held_buttons (ie_calls lt2) h = {}))"
proof -
  define expired where "expired = map fst (filter (\<lambda>(_, instant). \<not> peer_alive env instant) (lt_last_response lt))"
  have lt1: "lt1 = listen_tick env lt" using tick by (simp add: listen_exec_def Let_def split: if_splits)
  have inv: "lt_inv lt" by (rule lt_reach_inv [OF reach])
  have inv1: "lt_inv lt1" unfolding lt1 by (rule lt_inv_tick [OF inv])
  have a: "a \<in> set expired"
  proof -
    have "(a, t) \<in> set (lt_last_response lt)" using silent(1) inv by (simp add: hm_get_set lt_inv_def)
    then show ?thesis using silent(2) by (force simp: expired_def peer_alive_def)
  qed
  have q: "et_requests lt1 = et_requests lt @ map PrRemove expired" and active: "a \<notin> set (lt_active_inputs lt1)"
    and run1: "is_running (et_phase lt1)"
    using a run by (simp_all add: lt1 listen_tick_def Let_def expired_def [symmetric] fold_expire_requests fold_expire_active fold_expire_phase)
  have et: "et_inv lt1" using inv1 by (simp add: lt_inv_def)
  have ks: "list_all keeps_session (et_requests lt1)" using keep by (auto simp: q list_all_iff keeps_session_def)
  obtain xs ys where "expired = xs @ a # ys" using split_list [OF a] by blast
  then have split: "et_requests lt1 = (et_requests lt @ map PrRemove xs) @ PrRemove a # map PrRemove ys" by (simp add: q)
  have none: "list_all (\<lambda>r. \<not> input_of a r) (map PrRemove ys)" by (simp add: list_all_iff input_of_def)
  from drain_running [OF et run1 refl ks envs, of a] obtain lt2 where lt2: "drain envs lt1 = Some lt2" "et_inv lt2"
      "is_running (et_phase lt2)" "et_requests lt2 = []"
    and gone: "\<And>before after. et_requests lt1 = before @ PrRemove a # after \<Longrightarrow> list_all (\<lambda>r. \<not> input_of a r) after \<Longrightarrow>
      hm_get (et_handles lt2) a = None"
    by blast
  have removed: "hm_get (et_handles lt2) a = None" by (rule gone [OF split none])
  from lt2 have "devices_ok lt2" by (simp add: et_inv_def)
  then show ?thesis using active lt2 removed devices_ok_unassigned [of lt2] by blast
qed

theorem silent_peer_lets_go_witness:
  "\<exists>lt1 lt2. listen_exec (example_env\<lparr>le_now := 5000\<rparr>) ListenTick example_state = Some lt1 \<and> drain [example_emu] lt1 = Some lt2
    \<and> example_peer \<notin> set (lt_active_inputs lt1) \<and> hm_get (et_handles lt2) example_peer = None
    \<and> held_keys (ie_calls lt2) 0 = {} \<and> held_buttons (ie_calls lt2) 0 = {}"
proof -
  let ?env = "example_env\<lparr>le_now := 5000\<rparr>"
  define lt1 where "lt1 = the (listen_exec ?env ListenTick example_state)"
  have "listen_exec ?env ListenTick example_state \<noteq> None" by code_simp
  then have tick: "listen_exec ?env ListenTick example_state = Some lt1" by (simp add: lt1_def)
  have run: "is_running (et_phase example_state)" by code_simp
  have keep: "list_all keeps_session (et_requests example_state)" by code_simp
  have resp: "hm_get (lt_last_response example_state) example_peer = Some 0" by code_simp
  have late: "le_now ?env - 0 > PEER_SILENCE_TIMEOUT" by (simp add: PEER_SILENCE_TIMEOUT_def)
  have len: "length [example_emu] = length (et_requests lt1)" unfolding lt1_def by code_simp
  have acc: "list_all accepting [example_emu]" by (simp add: accepting_def example_emu_def)
  from silent_peer_lets_go [OF example_reach run keep resp late tick len acc] obtain lt2 where
    d: "drain [example_emu] lt1 = Some lt2" and a: "example_peer \<notin> set (lt_active_inputs lt1)" "hm_get (et_handles lt2) example_peer = None"
    and held: "\<And>h. (\<And>b. hm_get (et_handles lt2) b \<noteq> Some h) \<Longrightarrow> held_keys (ie_calls lt2) h = {} \<and> held_buttons (ie_calls lt2) h = {}"
    by blast
  have "map_option et_handles (drain [example_emu] lt1) = Some []" unfolding lt1_def by code_simp
  then have "et_handles lt2 = []" using d by simp
  then show ?thesis using tick d a held [of 0] by (auto simp: hm_get_def)
qed

section \<open>Clipboards\<close>

text \<open>C34: reassembling clipboards takes bounded memory. In every reachable state there is at most one unfinished clipboard per
  peer, and it holds no more bytes than were announced, which is at most the limit of the protocol.\<close>

theorem clipboard_buffers_bounded:
  assumes "lt_reach backend lt"
  shows "distinct (map (\<lambda>((addr, _), _). addr) (lt_clipboard_transfers lt))
    \<and> list_all (\<lambda>(_, x). length (cx_bytes x) \<le> cx_total_len x \<and> cx_total_len x \<le> MAX_CLIPBOARD_SIZE) (lt_clipboard_transfers lt)"
  using lt_reach_inv [OF assms] by (simp add: lt_inv_def transfers_ok_def transfer_ok_def)

theorem clipboard_buffers_bounded_witness:
  "\<exists>lt x. lt_reach None lt \<and> lt_clipboard_transfers lt = [((example_peer, 7), x)] \<and> length (cx_bytes x) \<le> MAX_CLIPBOARD_SIZE"
proof -
  let ?step = "ListenMessage example_peer (ClipboardStart 7 3 1)"
  define lt where "lt = the (listen_exec example_env ?step example_state)"
  have "listen_exec example_env ?step example_state \<noteq> None" by code_simp
  then have step: "listen_exec example_env ?step example_state = Some lt" by (simp add: lt_def)
  have "streamable [1, 2, 3] None" by (simp add: streamable_def const_defs)
  from start_encodes [OF this, of 7] have "\<exists>bs. encode (ClipboardStart 7 3 1) = Inr bs"
    by (simp add: clipboard_start_event_def div_ceil_def const_defs)
  then have "\<exists>bs. decode bs = Inr (ClipboardStart 7 3 1)"
    using decode_of_encode [of "ClipboardStart 7 3 1"] by (auto simp: delivered_def)
  then have reach: "lt_reach None lt" using lt_reach.step [OF example_reach _ step] by (simp add: listen_step_ok_def)
  have "map fst (lt_clipboard_transfers lt) = [(example_peer, 7)]" unfolding lt_def by code_simp
  then obtain x where "lt_clipboard_transfers lt = [((example_peer, 7), x)]" by (cases "lt_clipboard_transfers lt") auto
  with reach clipboard_buffers_bounded [OF reach] show ?thesis by auto
qed

section \<open>Departures from the intent\<close>

text \<open>Turning sharing off ends the control of the active peer without the events that every other exit sends.\<close>

definition is_left :: "listen_effect \<Rightarrow> bool" where
  "is_left e = (case e of Notified (PeerLeft _ _ _) \<Rightarrow> True | Notified NoLongerControlled \<Rightarrow> True | _ \<Rightarrow> False)"

theorem sharing_off_sends_no_left:
  "\<exists>lt. listen_exec example_env (ListenRequest (ReqSetInputSharing False)) example_state = Some lt
    \<and> lt_active_inputs example_state = [example_peer] \<and> lt_active_inputs lt = [] \<and> \<not> list_ex is_left (lt_trace lt)"
proof -
  have "map_option (\<lambda>lt. lt_active_inputs lt = [] \<and> \<not> list_ex is_left (lt_trace lt))
      (listen_exec example_env (ListenRequest (ReqSetInputSharing False)) example_state) = Some True" by code_simp
  moreover have "lt_active_inputs example_state = [example_peer]" by code_simp
  ultimately show ?thesis by auto
qed

text \<open>A peer that answers a hand-off nobody started takes control without entering, even where entries are refused.\<close>

theorem handoff_answer_takes_control:
  "\<exists>lt. lt_run [(example_env, EmuStep example_emu Initialized), (example_env, ListenProxyEvent),
        (example_env, ListenMessage example_peer (Handoff [] Left)),
        (example_env, ListenMessage example_peer (Input (Keyboard (Key 1 30 1))))] (lt_new None) = Some lt
    \<and> \<not> accepts_input lt \<and> PrInput (Keyboard (Key 1 30 1)) example_peer \<in> set (et_requests lt)
    \<and> \<not> list_ex (\<lambda>e. case e of Notified (PeerEntered _ _ _ _ _ _) \<Rightarrow> True | _ \<Rightarrow> False) (lt_trace lt)"
proof -
  have "map_option (\<lambda>lt. \<not> accepts_input lt \<and> PrInput (Keyboard (Key 1 30 1)) example_peer \<in> set (et_requests lt)
      \<and> \<not> list_ex (\<lambda>e. case e of Notified (PeerEntered _ _ _ _ _ _) \<Rightarrow> True | _ \<Rightarrow> False) (lt_trace lt))
      (lt_run [(example_env, EmuStep example_emu Initialized), (example_env, ListenProxyEvent),
        (example_env, ListenMessage example_peer (Handoff [] Left)),
        (example_env, ListenMessage example_peer (Input (Keyboard (Key 1 30 1))))] (lt_new None)) = Some True" by code_simp
  then show ?thesis by auto
qed

text \<open>A peer that leaves while the emulation is inactive keeps its device, and the button it held stays pressed.\<close>

theorem inactive_removal_is_lost:
  "\<exists>lt. lt_run (example_steps @ [(example_env, EmuStep example_emu (HealthCheck False)),
        (example_env, ListenMessage example_peer (Leave 0)), (example_env, EmuStep example_emu TakeRequest)]) (lt_new None) = Some lt
    \<and> lt_active_inputs lt = [] \<and> et_requests lt = [] \<and> hm_get (et_handles lt) example_peer = Some 0
    \<and> held_keys (ie_calls lt) 0 = {} \<and> held_buttons (ie_calls lt) 0 = {272}"
proof -
  have "map_option (\<lambda>lt. lt_active_inputs lt = [] \<and> et_requests lt = [] \<and> hm_get (et_handles lt) example_peer = Some 0
      \<and> held_keys (ie_calls lt) 0 = {} \<and> held_buttons (ie_calls lt) 0 = {272})
      (lt_run (example_steps @ [(example_env, EmuStep example_emu (HealthCheck False)),
        (example_env, ListenMessage example_peer (Leave 0)), (example_env, EmuStep example_emu TakeRequest)]) (lt_new None)) = Some True"
    by code_simp
  then show ?thesis by auto
qed

text \<open>A request to terminate that arrives while the devices of a new session are created is dropped: the session goes on
  with nothing left in its queue.\<close>

theorem terminate_lost_while_creating:
  "\<exists>lt. lt_run (example_steps @ [(example_env, EmuStep example_emu (HealthCheck False)), (example_env, ListenRequest ReqReenable),
        (example_env, EmuStep example_emu TakeRequest), (example_env, ListenRequest ReqTerminate),
        (example_env, EmuStep (example_emu\<lparr>ee_swallow := (\<lambda>_. 1)\<rparr>) Initialized)]) (lt_new None) = Some lt
    \<and> et_exit_requested lt \<and> \<not> lt_running lt \<and> is_running (et_phase lt) \<and> et_requests lt = []"
proof -
  have "map_option (\<lambda>lt. et_exit_requested lt \<and> \<not> lt_running lt \<and> is_running (et_phase lt) \<and> et_requests lt = [])
      (lt_run (example_steps @ [(example_env, EmuStep example_emu (HealthCheck False)), (example_env, ListenRequest ReqReenable),
        (example_env, EmuStep example_emu TakeRequest), (example_env, ListenRequest ReqTerminate),
        (example_env, EmuStep (example_emu\<lparr>ee_swallow := (\<lambda>_. 1)\<rparr>) Initialized)]) (lt_new None)) = Some True"
    by code_simp
  then show ?thesis by auto
qed

end
