(* ===== verification/Clipboard_Delivery.thy ===== *)
theory Clipboard_Delivery
  imports Emulation_Properties
begin

text \<open>
  A clipboard sent by one device and reassembled by another: the messages of \<open>stream_clipboard\<close> on the sending side, in
  the order they were sent, make the listen task announce the content, with steps of every kind of the two tasks in
  between (messages of other peers and other messages of the sender, connections, requests of the service, ticks, steps of the
  emulation task), as long as no tick finds the transfer older than the limit of 30 seconds.
\<close>

definition is_clipboard :: "proto_event \<Rightarrow> bool" where
  "is_clipboard event = (case event of
     ClipboardStart _ _ _ \<Rightarrow> True | ClipboardImageStart _ _ _ _ _ \<Rightarrow> True | ClipboardChunk _ _ _ \<Rightarrow> True | _ \<Rightarrow> False)"

text \<open>The clipboard messages of a peer in a run.\<close>

definition clipboard_message :: "socket_addr \<Rightarrow> listen_step \<Rightarrow> proto_event list" where
  "clipboard_message a step = (case step of ListenMessage b event \<Rightarrow> if b = a \<and> is_clipboard event then [event] else [] | _ \<Rightarrow> [])"

definition clipboard_messages :: "socket_addr \<Rightarrow> (listen_env \<times> listen_step) list \<Rightarrow> proto_event list" where
  "clipboard_messages a steps = concat (map (clipboard_message a \<circ> snd) steps)"

text \<open>No tick of the run finds the transfer older than the limit; \<open>started\<close> is when it began, if it has.\<close>

definition begins :: "socket_addr \<Rightarrow> listen_step \<Rightarrow> bool" where
  "begins a step = (case step of
     ListenMessage b event \<Rightarrow> b = a \<and> is_clipboard event \<and> (case event of ClipboardChunk _ _ _ \<Rightarrow> False | _ \<Rightarrow> True) | _ \<Rightarrow> False)"

fun in_time :: "socket_addr \<Rightarrow> nat option \<Rightarrow> (listen_env \<times> listen_step) list \<Rightarrow> bool" where
  "in_time a started [] = True"
| "in_time a started ((env, step) # steps) \<longleftrightarrow>
     (step = ListenTick \<longrightarrow> (case started of None \<Rightarrow> True | Some t \<Rightarrow> le_now env - t < CLIPBOARD_TRANSFER_TIMEOUT))
     \<and> in_time a (if begins a step then Some (le_now env) else started) steps"

definition content_of :: "bytes \<Rightarrow> (u32 \<times> u32) option \<Rightarrow> clipboard_content" where
  "content_of data image_dimensions = (case image_dimensions of
     None \<Rightarrow> ClipText data | Some (width, height) \<Rightarrow> ClipImage width height data)"

section \<open>Other steps\<close>

text \<open>What a message does to the unfinished clipboards.\<close>

definition transfers_after ::
  "listen_env \<Rightarrow> socket_addr \<Rightarrow> proto_event \<Rightarrow> (socket_addr \<times> u64, clipboard_transfer) hash_map \<Rightarrow>
     (socket_addr \<times> u64, clipboard_transfer) hash_map" where
  "transfers_after env a event ts = (case event of
     ClipboardStart t len chunks \<Rightarrow> start_clipboard_transfer a t (cx_new env TransferText len chunks) ts
   | ClipboardImageStart t w h len chunks \<Rightarrow> start_clipboard_transfer a t (cx_new env (TransferImage w h) len chunks) ts
   | ClipboardChunk t index data \<Rightarrow> lt_clipboard_transfers (clipboard_chunk a t index data ((lt_new None)\<lparr>lt_clipboard_transfers := ts\<rparr>))
   | _ \<Rightarrow> ts)"

lemma transfers_fields [simp]:
  "lt_clipboard_transfers (reply a p lt) = lt_clipboard_transfers lt" "lt_clipboard_transfers (notify n lt) = lt_clipboard_transfers lt"
  "lt_clipboard_transfers (ask r lt) = lt_clipboard_transfers lt"
  by (simp_all add: reply_def notify_def ask_def)

lemma transfers_ops [simp]:
  "lt_clipboard_transfers (end_control_at a along lt) = lt_clipboard_transfers lt"
  "lt_clipboard_transfers (handle_enter env a pos through along lt) = lt_clipboard_transfers lt"
  "lt_clipboard_transfers (listen_input env a e lt) = lt_clipboard_transfers lt"
  "lt_clipboard_transfers (handoff_refused env a side lt) = lt_clipboard_transfers lt"
  by (simp_all add: end_control_at_def handle_enter_def listen_input_def handoff_refused_def ep_consume_def ep_remove_def
      ep_place_pointer_along_def Let_def split: option.split)

lemma chunk_transfers:
  "lt_clipboard_transfers (clipboard_chunk a t index data lt) =
     lt_clipboard_transfers (clipboard_chunk a t index data ((lt_new None)\<lparr>lt_clipboard_transfers := lt_clipboard_transfers lt\<rparr>))"
  by (simp add: clipboard_chunk_def Let_def split: option.split)

lemma listen_transfers:
  "lt_clipboard_transfers (listen_message env a event lt) = transfers_after env a event (lt_clipboard_transfers lt)"
proof -
  have "lt_clipboard_transfers (listen_dispatch env a event lt) = transfers_after env a event (lt_clipboard_transfers lt)" for lt
  proof (cases event)
    case (ClipboardChunk t index data)
    then show ?thesis using chunk_transfers [of a t index data lt] by (simp add: listen_dispatch_def transfers_after_def)
  qed (simp_all add: listen_dispatch_def transfers_after_def ep_remove_def end_control_def is_service_event_def)
  then show ?thesis by (simp add: listen_message_def)
qed

text \<open>The messages of another peer leave this peer's clipboard alone.\<close>

lemma transfers_after_ok: "hm_ok ts \<Longrightarrow> hm_ok (transfers_after env b event ts)"
  by (simp add: transfers_after_def start_clipboard_transfer_def clipboard_chunk_def Let_def split: proto_event.split option.split)

lemma transfers_after_other:
  assumes "hm_ok ts" and "b \<noteq> a"
  shows "hm_get (transfers_after env b event ts) (a, t) = hm_get ts (a, t)"
proof -
  have chunk: "hm_get (lt_clipboard_transfers (clipboard_chunk b i index data (l\<lparr>lt_clipboard_transfers := ts\<rparr>))) (a, t) = hm_get ts (a, t)"
    for i index data l
    using assms by (auto simp: clipboard_chunk_def Let_def hash_map split: option.split)
  then show ?thesis
    using assms
    by (auto simp: transfers_after_def start_clipboard_transfer_def hash_map split: proto_event.split option.split)
qed

text \<open>The trace only grows.\<close>

definition grows :: "listen_task \<Rightarrow> listen_task \<Rightarrow> bool" where
  "grows lt lt' \<longleftrightarrow> (\<exists>es. lt_trace lt' = lt_trace lt @ es)"

lemma grows_refl [simp]: "grows lt lt"
  by (simp add: grows_def)

lemma grows_trans: "grows lt lt' \<Longrightarrow> grows lt' lt'' \<Longrightarrow> grows lt lt''"
  by (auto simp: grows_def)

lemma grows_log [simp]: "grows lt lt' \<Longrightarrow> grows lt (log_effect e lt')"
  by (auto simp: grows_def)

lemma grows_ops [simp]:
  "grows lt lt' \<Longrightarrow> grows lt (reply a p lt')" "grows lt lt' \<Longrightarrow> grows lt (notify n lt')"
  by (simp_all add: reply_def notify_def)

lemma grows_same: "lt_trace lt' = lt_trace lt'' \<Longrightarrow> grows lt lt' \<longleftrightarrow> grows lt lt''"
  by (simp add: grows_def)

lemma grows_ask [simp]: "grows lt lt' \<Longrightarrow> grows lt (ask r lt')"
  unfolding ask_def by (rule grows_log) (simp add: grows_def)

lemma grows_end_control: "grows lt (end_control_at a along lt)"
  by (simp add: grows_def end_control_at_def notify_def log_effect_def Let_def)

lemma grows_enter: "grows lt (handle_enter env a pos through along lt)"
  by (simp add: grows_def handle_enter_def ep_remove_def ep_place_pointer_along_def ask_def reply_def notify_def log_effect_def
      Let_def split: option.split)

lemma grows_input: "grows lt (listen_input env a e lt)"
  by (simp add: grows_def listen_input_def ep_consume_def ask_def reply_def log_effect_def Let_def split: option.split)

lemma grows_handoff: "grows lt (handoff_refused env a side lt)"
  by (simp add: grows_def handoff_refused_def ep_place_pointer_along_def ask_def log_effect_def Let_def)

lemma grows_chunk: "grows lt (clipboard_chunk a t index data lt)"
  by (simp add: grows_def clipboard_chunk_def notify_def log_effect_def Let_def split: option.split)

lemma grows_message: "grows lt (listen_message env a event lt)"
proof -
  have "grows l (listen_dispatch env a event l)" for l
    by (cases event) (simp_all add: listen_dispatch_def grows_enter grows_input grows_handoff grows_chunk ep_remove_def
        end_control_def grows_end_control is_service_event_def, simp_all add: grows_def)
  moreover have "grows lt (log_effect (Got a event) (lt\<lparr>lt_last_response := r\<rparr>))" for r
    by (simp add: grows_def)
  ultimately show ?thesis unfolding listen_message_def using grows_trans by blast
qed

lemma grows_expire: "grows lt (fold expire_peer as lt) \<and> lt_clipboard_transfers (fold expire_peer as lt) = lt_clipboard_transfers lt"
proof (induction as arbitrary: lt)
  case (Cons a as)
  have "grows lt (expire_peer a lt)" "lt_clipboard_transfers (expire_peer a lt) = lt_clipboard_transfers lt"
    by (simp_all add: grows_def expire_peer_def end_control_def end_control_at_def notify_def reply_def ep_remove_def ask_def log_effect_def Let_def)
  with Cons [of "expire_peer a lt"] grows_trans show ?case by auto
qed simp

lemma grows_sharing_off:
  "grows lt (sharing_off as lt) \<and> lt_clipboard_transfers (sharing_off as lt) = lt_clipboard_transfers lt"
proof (induction as arbitrary: lt)
  case (Cons a as)
  have "grows lt (reply a (Leave 0) (ep_remove a lt))"
    "lt_clipboard_transfers (reply a (Leave 0) (ep_remove a lt)) = lt_clipboard_transfers lt"
    by (simp_all add: ep_remove_def)
  with Cons [of "reply a (Leave 0) (ep_remove a lt)"] grows_trans show ?case by auto
qed simp

text \<open>What a step does to the unfinished clipboards.\<close>

definition transfers_step ::
  "listen_env \<Rightarrow> listen_step \<Rightarrow> (socket_addr \<times> u64, clipboard_transfer) hash_map \<Rightarrow> (socket_addr \<times> u64, clipboard_transfer) hash_map" where
  "transfers_step env step ts = (case step of
     ListenMessage b event \<Rightarrow> transfers_after env b event ts
   | ListenTick \<Rightarrow> hm_retain (\<lambda>_ transfer. le_now env - cx_started transfer < CLIPBOARD_TRANSFER_TIMEOUT) ts
   | _ \<Rightarrow> ts)"

lemma request_frame:
  "grows lt (listen_request env request lt) \<and> lt_clipboard_transfers (listen_request env request lt) = lt_clipboard_transfers lt"
proof (cases "request = ReqSetInputSharing False")
  case True
  let ?lt = "ep_set_input_sharing False ((log_effect (Requested request) lt)\<lparr>lt_input_sharing := False\<rparr>)"
  have "grows lt (?lt\<lparr>lt_active_inputs := []\<rparr>)" "lt_clipboard_transfers (?lt\<lparr>lt_active_inputs := []\<rparr>) = lt_clipboard_transfers lt"
    by (simp_all add: grows_def ep_set_input_sharing_def ask_def log_effect_def)
  with grows_sharing_off [of "?lt\<lparr>lt_active_inputs := []\<rparr>" "lt_active_inputs ?lt"] grows_trans True show ?thesis
    by (auto simp: listen_request_def set_input_sharing_def Let_def)
next
  case False
  then show ?thesis
    by (cases request) (simp_all add: grows_def listen_request_def set_input_sharing_def return_pointer_def ep_set_input_sharing_def
        ep_set_independent_pointers_def ep_place_pointer_along_def ep_terminate_def ask_def reply_def notify_def log_effect_def Let_def)
qed

lemma proxy_frame:
  "grows lt (listen_proxy_event env event lt) \<and> lt_clipboard_transfers (listen_proxy_event env event lt) = lt_clipboard_transfers lt"
  by (cases event) (simp_all add: grows_def listen_proxy_event_def ep_event_def pointer_edge_def start_handoff_def return_pointer_def
      end_control_def end_control_at_def ep_remove_def ask_def reply_def notify_def log_effect_def Let_def split: option.split)

lemma exec_frame:
  assumes "listen_exec env step lt = Some lt'"
  shows "grows lt lt' \<and> lt_clipboard_transfers lt' = transfers_step env step (lt_clipboard_transfers lt)"
proof (cases step)
  case (ListenMessage b event)
  with assms have "lt' = listen_message env b event lt" by (simp add: listen_exec_def Let_def split: if_splits)
  with ListenMessage show ?thesis using grows_message [of lt env b event] listen_transfers [of env b event lt] by (simp add: transfers_step_def)
next
  case ListenTick
  define es where "es = map fst (filter (\<lambda>(_, instant). \<not> peer_alive env instant) (lt_last_response lt))"
  define lt1 where "lt1 = lt\<lparr>lt_last_response := hm_retain (\<lambda>_ instant. peer_alive env instant) (lt_last_response lt)\<rparr>"
  have "grows lt lt1" "lt_clipboard_transfers lt1 = lt_clipboard_transfers lt" by (simp_all add: lt1_def grows_def)
  with grows_expire [of lt1 es] grows_trans have g: "grows lt (fold expire_peer es lt1)"
    "lt_clipboard_transfers (fold expire_peer es lt1) = lt_clipboard_transfers lt" by auto
  with assms ListenTick show ?thesis
    by (auto simp: listen_exec_def listen_tick_def transfers_step_def Let_def es_def lt1_def grows_def split: if_splits)
next
  case (ListenRequest request)
  with assms request_frame show ?thesis by (auto simp: listen_exec_def transfers_step_def Let_def split: if_splits)
next
  case ListenProxyEvent
  then obtain event rest where "lt' = listen_proxy_event env event (lt\<lparr>et_events := rest\<rparr>)"
    using assms by (auto simp: listen_exec_def Let_def split: list.splits if_splits)
  with proxy_frame [of "lt\<lparr>et_events := rest\<rparr>" env event] ListenProxyEvent show ?thesis by (simp add: transfers_step_def grows_def)
next
  case (EmuStep eenv estep)
  with assms have "emu_exec eenv estep lt = Some lt'" by (simp add: listen_exec_def)
  from task_only_exec [OF this] have "emulation_task.more lt' = emulation_task.more lt" by (simp add: task_only_def)
  from lt_more [OF this] EmuStep show ?thesis by (simp add: transfers_step_def grows_def)
qed (use assms in \<open>auto simp: listen_exec_def transfers_step_def listen_accept_def listen_rejected_def listen_published_def
    ep_terminate_def ask_def notify_def log_effect_def grows_def Let_def split: if_splits option.splits\<close>)

lemma grows_run: "lt_run steps lt = Some lt' \<Longrightarrow> grows lt lt'"
proof (induction steps arbitrary: lt)
  case (Cons s steps)
  obtain env step where s: "s = (env, step)" by (cases s)
  with Cons.prems obtain lt1 where "listen_exec env step lt = Some lt1" "lt_run steps lt1 = Some lt'" by (auto split: option.splits)
  with Cons.IH exec_frame grows_trans show ?case by blast
qed simp

text \<open>A step that brings no clipboard message of this peer leaves a transfer of its alone that is young enough.\<close>

lemma transfers_step_ok: "hm_ok ts \<Longrightarrow> hm_ok (transfers_step env step ts)"
  by (simp add: transfers_step_def transfers_after_ok split: listen_step.split)

lemma transfers_step_other:
  assumes "hm_ok ts" and "clipboard_message a step = []" and "hm_get ts (a, t) = Some x"
    and "step = ListenTick \<Longrightarrow> le_now env - cx_started x < CLIPBOARD_TRANSFER_TIMEOUT"
  shows "hm_get (transfers_step env step ts) (a, t) = Some x"
proof (cases step)
  case (ListenMessage b event)
  show ?thesis
  proof (cases "b = a")
    case True
    with assms ListenMessage have "\<not> is_clipboard event" by (auto simp: clipboard_message_def split: if_splits)
    then have "transfers_after env b event ts = ts" by (cases event) (simp_all add: is_clipboard_def transfers_after_def)
    with assms ListenMessage show ?thesis by (simp add: transfers_step_def)
  next
    case False
    with assms ListenMessage show ?thesis by (simp add: transfers_step_def transfers_after_other)
  qed
next
  case ListenTick
  with assms show ?thesis by (simp add: transfers_step_def hash_map)
qed (use assms in \<open>simp_all add: transfers_step_def\<close>)

lemma clipboard_messages_simps [simp]:
  "clipboard_messages a [] = []" "clipboard_messages a ((env, step) # steps) = clipboard_message a step @ clipboard_messages a steps"
  by (simp_all add: clipboard_messages_def)

lemma clipboard_message_cases:
  obtains "clipboard_message a step = []" "\<not> begins a step"
  | event where "step = ListenMessage a event" "is_clipboard event" "clipboard_message a step = [event]"
proof (cases "\<exists>event. step = ListenMessage a event \<and> is_clipboard event")
  case True
  then show thesis using that(2) by (auto simp: clipboard_message_def)
next
  case False
  then show thesis using that(1) by (cases step) (auto simp: clipboard_message_def begins_def)
qed

section \<open>The chunks\<close>

lemma chunk_received:
  assumes "hm_get (lt_clipboard_transfers lt) (a, t) = Some x" and "index = cx_next x"
    and "length data \<le> MAX_CLIPBOARD_CHUNK_SIZE" and "length (cx_bytes x) + length data \<le> cx_total_len x"
  shows "cx_next x + 1 = cx_chunks x \<Longrightarrow> length (cx_bytes x) + length data = cx_total_len x \<Longrightarrow>
      clipboard_content_of (x\<lparr>cx_bytes := cx_bytes x @ data, cx_next := cx_next x + 1\<rparr>) = Some content \<Longrightarrow>
      Notified (RemoteClipboard content) \<in> set (drop (length (lt_trace lt)) (lt_trace (listen_message env a (ClipboardChunk t index data) lt)))"
    and "cx_next x + 1 \<noteq> cx_chunks x \<Longrightarrow> hm_get (lt_clipboard_transfers (listen_message env a (ClipboardChunk t index data) lt)) (a, t)
      = Some (x\<lparr>cx_bytes := cx_bytes x @ data, cx_next := cx_next x + 1\<rparr>)"
  using assms by (simp_all add: listen_message_def listen_dispatch_def clipboard_chunk_def notify_def Let_def hash_map)

definition transfer_kind :: "(u32 \<times> u32) option \<Rightarrow> clipboard_transfer_kind" where
  "transfer_kind image_dimensions = (case image_dimensions of None \<Rightarrow> TransferText | Some (w, h) \<Rightarrow> TransferImage w h)"

text \<open>The state of the reassembly after \<open>k\<close> chunks.\<close>

definition progress :: "bytes \<Rightarrow> (u32 \<times> u32) option \<Rightarrow> nat \<Rightarrow> clipboard_transfer \<Rightarrow> bool" where
  "progress data dims k x \<longleftrightarrow> cx_kind x = transfer_kind dims \<and> cx_next x = word_of_nat k
     \<and> cx_chunks x = word_of_nat (length (chunks_of MAX_CLIPBOARD_CHUNK_SIZE data)) \<and> cx_total_len x = length data
     \<and> cx_bytes x = concat (take k (chunks_of MAX_CLIPBOARD_CHUNK_SIZE data))"

lemma progress_step:
  assumes p: "progress data dims k x" and k: "k < length (chunks_of MAX_CLIPBOARD_CHUNK_SIZE data)"
  shows "length (chunks_of MAX_CLIPBOARD_CHUNK_SIZE data ! k) \<le> MAX_CLIPBOARD_CHUNK_SIZE"
    and "length (cx_bytes x) + length (chunks_of MAX_CLIPBOARD_CHUNK_SIZE data ! k) \<le> cx_total_len x"
    and "progress data dims (Suc k) (x\<lparr>cx_bytes := cx_bytes x @ chunks_of MAX_CLIPBOARD_CHUNK_SIZE data ! k, cx_next := cx_next x + 1\<rparr>)"
proof -
  let ?cs = "chunks_of MAX_CLIPBOARD_CHUNK_SIZE data"
  have pos: "0 < MAX_CLIPBOARD_CHUNK_SIZE" by (simp add: const_defs)
  show "length (?cs ! k) \<le> MAX_CLIPBOARD_CHUNK_SIZE" using length_nth_chunks_of [OF pos k] by simp
  have bytes: "cx_bytes x @ ?cs ! k = concat (take (Suc k) ?cs)"
    using p k by (simp add: progress_def take_Suc_conv_app_nth)
  have "data = concat (take (Suc k) ?cs) @ concat (drop (Suc k) ?cs)"
    using concat_chunks_of [OF pos, of data] by (metis append_take_drop_id concat_append)
  then have "length (cx_bytes x @ ?cs ! k) \<le> length data" unfolding bytes by (metis length_append le_add1)
  then show "length (cx_bytes x) + length (?cs ! k) \<le> cx_total_len x" using p by (simp add: progress_def)
  show "progress data dims (Suc k) (x\<lparr>cx_bytes := cx_bytes x @ ?cs ! k, cx_next := cx_next x + 1\<rparr>)"
    using p bytes by (simp add: progress_def)
qed

lemma progress_done:
  assumes "progress data dims (length (chunks_of MAX_CLIPBOARD_CHUNK_SIZE data)) x" and "dims = None \<longrightarrow> utf8_valid data"
  shows "clipboard_content_of x = Some (content_of data dims)" and "length (cx_bytes x) = cx_total_len x"
proof -
  have "0 < MAX_CLIPBOARD_CHUNK_SIZE" by (simp add: const_defs)
  then have "cx_bytes x = data" using assms(1) concat_chunks_of by (simp add: progress_def)
  then show "clipboard_content_of x = Some (content_of data dims)" "length (cx_bytes x) = cx_total_len x"
    using assms by (auto simp: progress_def clipboard_content_of_def content_of_def transfer_kind_def split: option.splits)
qed

lemma announced_later:
  assumes "grows lt lt1" and "grows lt1 lt2" and "e \<in> set (drop (length (lt_trace lt1)) (lt_trace lt2))"
  shows "e \<in> set (drop (length (lt_trace lt)) (lt_trace lt2))"
  using assms set_drop_subset_set_drop [of "length (lt_trace lt)" "length (lt_trace lt1)" "lt_trace lt2"] by (auto simp: grows_def)

lemma announced_earlier:
  assumes "e \<in> set (drop n (lt_trace lt1))" and "grows lt1 lt2" shows "e \<in> set (drop n (lt_trace lt2))"
  using assms by (auto simp: grows_def)

text \<open>The chunks from number \<open>k\<close> on, in a run that takes \<open>lt\<close> to \<open>lt'\<close>, announce the content.\<close>

definition chunk_events :: "u64 \<Rightarrow> bytes \<Rightarrow> nat \<Rightarrow> proto_event list" where
  "chunk_events t data k = map (\<lambda>i. ClipboardChunk t (word_of_nat i) (chunks_of MAX_CLIPBOARD_CHUNK_SIZE data ! i))
     [k..<length (chunks_of MAX_CLIPBOARD_CHUNK_SIZE data)]"

lemma chunk_step:
  assumes data: "dims = None \<longrightarrow> utf8_valid data" and n: "n = length (chunks_of MAX_CLIPBOARD_CHUNK_SIZE data)" "n < 2 ^ 32"
    and k: "k < n" and x: "hm_get (lt_clipboard_transfers lt) (a, t) = Some x" "progress data dims k x"
    and lt1_def: "lt1 = listen_message env a (ClipboardChunk t (word_of_nat k) (chunks_of MAX_CLIPBOARD_CHUNK_SIZE data ! k)) lt"
  shows "Suc k = n \<Longrightarrow> Notified (RemoteClipboard (content_of data dims)) \<in> set (drop (length (lt_trace lt)) (lt_trace lt1))"
    and "Suc k \<noteq> n \<Longrightarrow> \<exists>y. hm_get (lt_clipboard_transfers lt1) (a, t) = Some y \<and> progress data dims (Suc k) y \<and> cx_started y = cx_started x"
proof -
  let ?cs = "chunks_of MAX_CLIPBOARD_CHUNK_SIZE data"
  let ?x = "x\<lparr>cx_bytes := cx_bytes x @ ?cs ! k, cx_next := cx_next x + 1\<rparr>"
  have kk: "k < length ?cs" using k n by simp
  note step = progress_step [OF x(2) kk]
  have nxt: "word_of_nat k = cx_next x" and chunks: "cx_chunks x = word_of_nat n"
    using x(2) n by (simp_all add: progress_def)
  note last = chunk_received(1) [OF x(1) nxt step(1,2)] and more = chunk_received(2) [OF x(1) nxt step(1,2)]
  show "Notified (RemoteClipboard (content_of data dims)) \<in> set (drop (length (lt_trace lt)) (lt_trace lt1))" if "Suc k = n"
  proof -
    have "progress data dims (length ?cs) ?x" using step(3) n that by simp
    from progress_done [OF this data] have "clipboard_content_of ?x = Some (content_of data dims)"
      "length (cx_bytes x) + length (?cs ! k) = cx_total_len x" by simp_all
    moreover have "cx_next x + 1 = cx_chunks x" using that chunks by (simp flip: nxt) (metis of_nat_Suc add.commute)
    ultimately show ?thesis using last by (simp add: lt1_def)
  qed
  show "\<exists>y. hm_get (lt_clipboard_transfers lt1) (a, t) = Some y \<and> progress data dims (Suc k) y \<and> cx_started y = cx_started x" if "Suc k \<noteq> n"
  proof -
    have "(word_of_nat (Suc k) :: u32) \<noteq> word_of_nat n"
    proof
      assume "(word_of_nat (Suc k) :: u32) = word_of_nat n"
      then have "unat (word_of_nat (Suc k) :: u32) = unat (word_of_nat n :: u32)" by simp
      then show False using that k n by (simp add: unat_of_nat del: of_nat_Suc)
    qed
    then have "cx_next x + 1 \<noteq> cx_chunks x" using chunks by (simp flip: nxt) (simp add: add.commute)
    from more [OF this] step(3) show ?thesis by (simp add: lt1_def)
  qed
qed

lemma chunks_delivered:
  assumes data: "dims = None \<longrightarrow> utf8_valid data" and n: "length (chunks_of MAX_CLIPBOARD_CHUNK_SIZE data) < 2 ^ 32"
  shows "k < length (chunks_of MAX_CLIPBOARD_CHUNK_SIZE data) \<Longrightarrow> hm_ok (lt_clipboard_transfers lt) \<Longrightarrow>
    hm_get (lt_clipboard_transfers lt) (a, t) = Some x \<Longrightarrow> progress data dims k x \<Longrightarrow>
    clipboard_messages a steps = chunk_events t data k \<Longrightarrow> in_time a (Some (cx_started x)) steps \<Longrightarrow> lt_run steps lt = Some lt' \<Longrightarrow>
    Notified (RemoteClipboard (content_of data dims)) \<in> set (drop (length (lt_trace lt)) (lt_trace lt'))"
proof (induction steps arbitrary: lt k x)
  case (Cons s steps)
  obtain env step where s: "s = (env, step)" by (cases s)
  with Cons.prems(7) obtain lt1 where exec: "listen_exec env step lt = Some lt1" and run: "lt_run steps lt1 = Some lt'"
    by (auto split: option.splits)
  note frame = exec_frame [OF exec] and g = grows_run [OF run]
  have ok1: "hm_ok (lt_clipboard_transfers lt1)" using frame Cons.prems(2) transfers_step_ok by simp
  show ?case
  proof (cases rule: clipboard_message_cases [of a step])
    case 1
    have "hm_get (lt_clipboard_transfers lt1) (a, t) = Some x"
      using transfers_step_other [OF Cons.prems(2) 1(1) Cons.prems(3)] Cons.prems(6) frame by (simp add: s)
    moreover have "clipboard_messages a steps = chunk_events t data k" "in_time a (Some (cx_started x)) steps"
      using Cons.prems(5,6) 1 by (simp_all add: s)
    ultimately have "Notified (RemoteClipboard (content_of data dims)) \<in> set (drop (length (lt_trace lt1)) (lt_trace lt'))"
      using Cons.IH [OF Cons.prems(1) ok1 _ Cons.prems(4) _ _ run] by blast
    from announced_later [OF _ g this, of lt] frame show ?thesis by blast
  next
    case (2 event)
    have event: "event = ClipboardChunk t (word_of_nat k) (chunks_of MAX_CLIPBOARD_CHUNK_SIZE data ! k)"
      and rest: "clipboard_messages a steps = chunk_events t data (Suc k)"
      using Cons.prems(1,5) 2(3) by (simp_all add: s chunk_events_def upt_conv_Cons)
    have lt1: "lt1 = listen_message env a event lt" using exec 2(1) by (auto simp: listen_exec_def Let_def split: if_splits)
    note cs = chunk_step [OF data refl n Cons.prems(1,3,4) lt1 [unfolded event]]
    have time: "in_time a (Some (cx_started x)) steps" using Cons.prems(6) 2(1) event by (simp add: s begins_def)
    show ?thesis
    proof (cases "Suc k = length (chunks_of MAX_CLIPBOARD_CHUNK_SIZE data)")
      case True
      from announced_earlier [OF cs(1) [OF True] g] show ?thesis .
    next
      case False
      from cs(2) [OF False] obtain y where y: "hm_get (lt_clipboard_transfers lt1) (a, t) = Some y"
        "progress data dims (Suc k) y" "cx_started y = cx_started x" by blast
      have "Suc k < length (chunks_of MAX_CLIPBOARD_CHUNK_SIZE data)" using False Cons.prems(1) by simp
      from Cons.IH [OF this ok1 y(1,2) rest _ run] time y(3)
      have "Notified (RemoteClipboard (content_of data dims)) \<in> set (drop (length (lt_trace lt1)) (lt_trace lt'))" by simp
      from announced_later [OF _ g this, of lt] frame show ?thesis by blast
    qed
  qed
qed (simp add: chunk_events_def upt_conv_Cons)

lemma takeWhile_True: "takeWhile (\<lambda>_. True) xs = xs"
  by (simp add: takeWhile_eq_all_conv)

lemma stream_chunk_events:
  assumes "length data < 2 ^ 32"
  shows "stream_clipboard (\<lambda>_. True) t data dims =
    clipboard_start_event t (word_of_nat (length data)) (word_of_nat (div_ceil (length data) MAX_CLIPBOARD_CHUNK_SIZE)) dims
      # chunk_events t data 0"
proof -
  let ?cs = "chunks_of MAX_CLIPBOARD_CHUNK_SIZE data"
  have "map (\<lambda>(i, c). ClipboardChunk t (word_of_nat i) c) (enumerate 0 ?cs) = chunk_events t data 0"
    unfolding chunk_events_def by (rule nth_equalityI) (simp_all add: nth_enumerate_eq)
  moreover have "\<not> length data \<ge> 2 ^ 32" using assms by simp
  ultimately show ?thesis unfolding stream_clipboard_def stream_events_def by (simp only: takeWhile_True if_False)
qed

text \<open>The start of the stream, in a run that goes on with the chunks.\<close>

lemma start_delivered:
  assumes data: "data \<noteq> []" "dims = None \<longrightarrow> utf8_valid data" and limit: "length data \<le> 64 * 1024 * 1024"
  shows "clipboard_messages a steps =
      clipboard_start_event t (word_of_nat (length data)) (word_of_nat (length (chunks_of MAX_CLIPBOARD_CHUNK_SIZE data))) dims # chunk_events t data 0 \<Longrightarrow>
    hm_ok (lt_clipboard_transfers lt) \<Longrightarrow> in_time a started steps \<Longrightarrow> lt_run steps lt = Some lt' \<Longrightarrow>
    Notified (RemoteClipboard (content_of data dims)) \<in> set (drop (length (lt_trace lt)) (lt_trace lt'))"
proof (induction steps arbitrary: lt)
  case (Cons s steps)
  let ?cs = "chunks_of MAX_CLIPBOARD_CHUNK_SIZE data"
  have pos: "0 < MAX_CLIPBOARD_CHUNK_SIZE" by (simp add: const_defs)
  have len: "length ?cs = div_ceil (length data) MAX_CLIPBOARD_CHUNK_SIZE" by (rule length_chunks_of [OF pos])
  have n: "0 < length ?cs" using chunks_of_step [OF pos data(1)] by simp
  have small: "length ?cs < 2 ^ 32" unfolding len
    using limit div_le_dividend [of "length data" MAX_CLIPBOARD_CHUNK_SIZE] by (simp add: div_ceil_def del: div_le_dividend)
  obtain env step where s: "s = (env, step)" by (cases s)
  with Cons.prems(4) obtain lt1 where exec: "listen_exec env step lt = Some lt1" and run: "lt_run steps lt1 = Some lt'"
    by (auto split: option.splits)
  note frame = exec_frame [OF exec]
  have ok1: "hm_ok (lt_clipboard_transfers lt1)" using frame Cons.prems(2) transfers_step_ok by simp
  have "Notified (RemoteClipboard (content_of data dims)) \<in> set (drop (length (lt_trace lt1)) (lt_trace lt'))"
  proof (cases rule: clipboard_message_cases [of a step])
    case 1
    with Cons.IH [OF _ ok1 _ run] Cons.prems(1,3) show ?thesis by (simp add: s)
  next
    case (2 event)
    have event: "event = clipboard_start_event t (word_of_nat (length data)) (word_of_nat (length ?cs)) dims"
      and rest: "clipboard_messages a steps = chunk_events t data 0"
      using Cons.prems(1) 2(3) by (simp_all add: s)
    define x where "x = cx_new env (transfer_kind dims) (word_of_nat (length data)) (word_of_nat (length ?cs))"
    have x: "hm_get (lt_clipboard_transfers lt1) (a, t) = Some x"
      using frame Cons.prems(2) 2(1)
      by (auto simp: event transfers_step_def transfers_after_def clipboard_start_event_def start_clipboard_transfer_def
          x_def transfer_kind_def hash_map split: option.split)
    have "begins a step" using 2(1,2) event by (auto simp: begins_def clipboard_start_event_def split: option.split)
    then have "in_time a (Some (cx_started x)) steps" using Cons.prems(3) by (simp add: s x_def cx_new_def)
    moreover have "progress data dims 0 x" using limit by (simp add: progress_def x_def cx_new_def unat_of_nat)
    ultimately show ?thesis using chunks_delivered [OF data(2) small n ok1 x _ rest _ run] by blast
  qed
  then show ?case using announced_later [OF _ grows_run [OF run]] frame by blast
qed simp

text \<open>C23: a clipboard that arrives in time crosses whole. In every run of the two tasks in which the clipboard messages of a
  peer are those of a stream for a content within the limits that is not empty, in order, and no tick finds the
  transfer 30 seconds old or more, the listen task announces exactly that content, whatever else happens
  in between and whatever state it was in. (The sender waits a millisecond after each chunk and the ticks are five seconds apart, so a
  content of more than 35000 chunks cannot meet the condition on the ticks.)\<close>

theorem clipboard_delivered:
  assumes stream: "clipboard_messages a steps = stream_clipboard (\<lambda>_. True) t data dims" and ok: "streamable data dims"
    and data: "data \<noteq> []" "dims = None \<longrightarrow> utf8_valid data" and wf: "hm_ok (lt_clipboard_transfers lt)"
    and time: "in_time a None steps" and run: "lt_run steps lt = Some lt'"
  shows "Notified (RemoteClipboard (content_of data dims)) \<in> set (drop (length (lt_trace lt)) (lt_trace lt'))"
proof -
  have limit: "length data \<le> 64 * 1024 * 1024" using ok by (simp add: streamable_def const_defs)
  have pos: "0 < MAX_CLIPBOARD_CHUNK_SIZE" by (simp add: const_defs)
  have "clipboard_messages a steps = clipboard_start_event t (word_of_nat (length data))
      (word_of_nat (length (chunks_of MAX_CLIPBOARD_CHUNK_SIZE data))) dims # chunk_events t data 0"
    using stream limit by (simp add: stream_chunk_events length_chunks_of [OF pos])
  from start_delivered [OF data limit this wf time run] show ?thesis .
qed

theorem clipboard_delivered_witness:
  "\<exists>steps lt. length steps = 4 \<and> lt_run steps (lt_new None) = Some lt
     \<and> Notified (RemoteClipboard (ClipText (lit ''hi''))) \<in> set (lt_trace lt)"
proof -
  let ?env = "\<lambda>now. \<lparr>le_now = now, le_fingerprint = (\<lambda>_. None), le_local_commit = [], le_port_changed = Some\<rparr>"
  let ?a = "([10, 0, 0, 1], 4242) :: socket_addr" and ?b = "([10, 0, 0, 2], 4242) :: socket_addr"
  let ?steps = "[(?env 5, ListenMessage ?a (ClipboardStart 7 2 1)), (?env 7, ListenMessage ?b Ping), (?env 2000, ListenTick),
    (?env 2001, ListenMessage ?a (ClipboardChunk 7 0 (lit ''hi'')))]"
  define lt where "lt = the (lt_run ?steps (lt_new None))"
  have "lt_run ?steps (lt_new None) \<noteq> None" by code_simp
  then have run: "lt_run ?steps (lt_new None) = Some lt" by (simp add: lt_def)
  have stream: "clipboard_messages ?a ?steps = stream_clipboard (\<lambda>_. True) 7 (lit ''hi'') None"
    by (simp add: clipboard_message_def is_clipboard_def stream_clipboard_def stream_events_def clipboard_start_event_def div_ceil_def
        const_defs chunks_of.simps)
  have ok: "streamable (lit ''hi'') None" by (simp add: streamable_def const_defs)
  have time: "in_time ?a None ?steps" by (simp add: begins_def is_clipboard_def listen_consts)
  have "utf8_valid (lit ''hi'')" by code_simp
  then have "Notified (RemoteClipboard (content_of (lit ''hi'') None)) \<in> set (drop (length (lt_trace (lt_new None))) (lt_trace lt))"
    by (intro clipboard_delivered [OF stream ok _ _ _ time run]) (simp_all add: lt_new_def)
  then have "Notified (RemoteClipboard (ClipText (lit ''hi''))) \<in> set (lt_trace lt)"
    by (auto simp: content_of_def dest: in_set_dropD)
  with run show ?thesis by (intro exI [of _ ?steps] exI [of _ lt]) simp
qed

text \<open>An empty content is never announced: its stream has no chunk, and only a chunk completes a transfer.\<close>

lemma empty_clipboard_lost:
  "stream_clipboard (\<lambda>_. True) t [] None = [ClipboardStart t 0 0]"
  "Notified (RemoteClipboard content) \<in> set (lt_trace (listen_message env a (ClipboardStart t 0 0) lt)) \<Longrightarrow>
     Notified (RemoteClipboard content) \<in> set (lt_trace lt)"
  by (simp_all add: stream_clipboard_def stream_events_def clipboard_start_event_def div_ceil_def listen_message_def
      listen_dispatch_def)

end
