(* ===== verification/Client_Table.thy ===== *)
theory Client_Table
  imports Emulation_Task
begin

text \<open>
  The table of configured devices, \<open>crates/syntra-core/src/client.rs\<close> with the types of
  \<open>crates/syntra-api/src/lib.rs\<close>: \<open>ClientManager\<close> with every operation. The clones of a \<open>ClientManager\<close> share
  their cells, so its state is one record that the operations pass on. \<open>clients\<close> is a \<open>BTreeMap\<close>; a
  duration is a number of nanoseconds. \<open>add_client\<close> panics when the handles below
  \<open>ENTER_HANDLE_BEGIN\<close> are used up.
\<close>

section \<open>Data\<close>

type_synonym client_id = u64

definition DEFAULT_PORT :: u16 where "DEFAULT_PORT = 4242"

record client_config =
  cfg_hostname :: "rstring option"
  cfg_fix_ips :: "ip_addr list"
  cfg_port :: u16
  cfg_pos :: edge
  cfg_cmd :: "rstring option"

definition client_config_default :: client_config where
  "client_config_default = \<lparr>cfg_hostname = None, cfg_fix_ips = [], cfg_port = DEFAULT_PORT, cfg_pos = LeftEdge, cfg_cmd = None\<rparr>"

record client_state =
  cst_active :: bool
  cst_active_addr :: "socket_addr option"
  cst_alive :: bool
  cst_remote_ready :: bool
  cst_dns_ips :: "ip_addr list"
  cst_ips :: "ip_addr set"
  cst_has_pressed_keys :: bool
  cst_resolving :: bool
  cst_peer_commit :: "bytes option"
  cst_round_trip_us :: "u32 option"

definition client_state_default :: client_state where
  "client_state_default = \<lparr>cst_active = False, cst_active_addr = None, cst_alive = False, cst_remote_ready = False,
     cst_dns_ips = [], cst_ips = {}, cst_has_pressed_keys = False, cst_resolving = False, cst_peer_commit = None,
     cst_round_trip_us = None\<rparr>"

record config_client =
  kc_ips :: "ip_addr list"
  kc_hostname :: "rstring option"
  kc_port :: u16
  kc_pos :: edge
  kc_active :: bool
  kc_enter_hook :: "rstring option"
  kc_peer_fingerprint :: "rstring option"

record client_manager =
  cm_clients :: "(client_id, client_config \<times> client_state) hash_map"
  cm_next_handle :: client_id
  cm_peer_fingerprints :: "(client_id, rstring) hash_map"

definition cm_default :: client_manager where
  "cm_default = \<lparr>cm_clients = [], cm_next_handle = 0, cm_peer_fingerprints = []\<rparr>"

definition ENTER_HANDLE_BEGIN :: client_id where "ENTER_HANDLE_BEGIN = (- 1) div 2 + 1"

section \<open>Operations\<close>

text \<open>What every setter does: the entry found by \<open>get_mut\<close> is changed in place; a handle without an entry
  changes nothing.\<close>

definition cm_entry ::
  "client_id \<Rightarrow> (client_config \<times> client_state \<Rightarrow> client_config \<times> client_state) \<Rightarrow> client_manager \<Rightarrow> client_manager" where
  "cm_entry h f cm = (case hm_get (cm_clients cm) h of
     None \<Rightarrow> cm
   | Some e \<Rightarrow> cm\<lparr>cm_clients := bt_insert h (f e) (cm_clients cm)\<rparr>)"

definition cm_add_client :: "client_manager \<Rightarrow> client_manager \<times> client_id outcome" where
  "cm_add_client cm = (let handle = cm_next_handle cm in
     if handle \<ge> ENTER_HANDLE_BEGIN then (cm, Panicked)
     else if handle = - 1 then (cm, Panicked)
     else (cm\<lparr>cm_next_handle := handle + 1,
              cm_clients := bt_insert handle (client_config_default, client_state_default) (cm_clients cm)\<rparr>,
           Done handle))"

definition cm_contains :: "client_id \<Rightarrow> client_manager \<Rightarrow> bool" where
  "cm_contains h cm = (hm_get (cm_clients cm) h \<noteq> None)"

definition cm_set_config :: "client_id \<Rightarrow> client_config \<Rightarrow> client_manager \<Rightarrow> client_manager" where
  "cm_set_config h config = cm_entry h (\<lambda>(_, s). (config, s))"

definition cm_set_state :: "client_id \<Rightarrow> client_state \<Rightarrow> client_manager \<Rightarrow> client_manager" where
  "cm_set_state h state = cm_entry h (\<lambda>(c, _). (c, state))"

definition cm_set_peer_fingerprint :: "client_id \<Rightarrow> rstring \<Rightarrow> client_manager \<Rightarrow> client_manager" where
  "cm_set_peer_fingerprint h fingerprint cm =
     (if cm_contains h cm
      then cm\<lparr>cm_peer_fingerprints := hm_insert h fingerprint (cm_peer_fingerprints cm)\<rparr> else cm)"

definition cm_add_with_config :: "config_client \<Rightarrow> client_manager \<Rightarrow> client_manager \<times> client_id outcome" where
  "cm_add_with_config k cm =
     (let config = \<lparr>cfg_hostname = kc_hostname k, cfg_fix_ips = kc_ips k, cfg_port = kc_port k, cfg_pos = kc_pos k,
                    cfg_cmd = kc_enter_hook k\<rparr>;
          state = client_state_default\<lparr>cst_active := kc_active k, cst_ips := set (cfg_fix_ips config)\<rparr> in
      and_then (cm_add_client cm) (\<lambda>handle cm.
        let cm = cm_set_state handle state (cm_set_config handle config cm) in
        (case kc_peer_fingerprint k of None \<Rightarrow> cm | Some f \<Rightarrow> cm_set_peer_fingerprint handle f cm, Done handle)))"

definition cm_activate_client :: "client_id \<Rightarrow> client_manager \<Rightarrow> client_manager \<times> bool" where
  "cm_activate_client h cm = (case hm_get (cm_clients cm) h of
     Some (_, s) \<Rightarrow> if \<not> cst_active s then (cm_entry h (\<lambda>(c, s). (c, s\<lparr>cst_active := True\<rparr>)) cm, True) else (cm, False)
   | None \<Rightarrow> (cm, False))"

definition cm_deactivate_client :: "client_id \<Rightarrow> client_manager \<Rightarrow> client_manager \<times> bool" where
  "cm_deactivate_client h cm = (case hm_get (cm_clients cm) h of
     Some (_, s) \<Rightarrow> if cst_active s then (cm_entry h (\<lambda>(c, s). (c, s\<lparr>cst_active := False\<rparr>)) cm, True) else (cm, False)
   | None \<Rightarrow> (cm, False))"

definition cm_find :: "(client_config \<Rightarrow> client_state \<Rightarrow> bool) \<Rightarrow> client_manager \<Rightarrow> client_id option" where
  "cm_find P cm = map_option fst (find (\<lambda>(_, c, s). P c s) (cm_clients cm))"

definition cm_get_client :: "socket_addr \<Rightarrow> client_manager \<Rightarrow> client_id option" where
  "cm_get_client addr = cm_find (\<lambda>_ s. cst_active s \<and> fst addr \<in> cst_ips s)"

definition cm_client_at :: "edge \<Rightarrow> client_manager \<Rightarrow> client_id option" where
  "cm_client_at pos = cm_find (\<lambda>c s. cst_active s \<and> cfg_pos c = pos)"

definition cm_get_state :: "client_id \<Rightarrow> client_manager \<Rightarrow> (client_config \<times> client_state) option" where
  "cm_get_state h cm = hm_get (cm_clients cm) h"

definition cm_get_hostname :: "client_id \<Rightarrow> client_manager \<Rightarrow> rstring option" where
  "cm_get_hostname h cm = Option.bind (cm_get_state h cm) (\<lambda>(c, _). cfg_hostname c)"

definition cm_get_pos :: "client_id \<Rightarrow> client_manager \<Rightarrow> edge option" where
  "cm_get_pos h cm = map_option (\<lambda>(c, _). cfg_pos c) (cm_get_state h cm)"

definition cm_remove_client :: "client_id \<Rightarrow> client_manager \<Rightarrow> client_manager \<times> (client_config \<times> client_state) option" where
  "cm_remove_client h cm =
     (cm\<lparr>cm_peer_fingerprints := hm_remove h (cm_peer_fingerprints cm), cm_clients := hm_remove h (cm_clients cm)\<rparr>,
      hm_get (cm_clients cm) h)"

definition cm_peer_fingerprint :: "client_id \<Rightarrow> client_manager \<Rightarrow> rstring option" where
  "cm_peer_fingerprint h cm = hm_get (cm_peer_fingerprints cm) h"

definition cm_update_ips :: "client_id \<Rightarrow> client_manager \<Rightarrow> client_manager" where
  "cm_update_ips h = cm_entry h (\<lambda>(c, s). (c, s\<lparr>cst_ips := set (cfg_fix_ips c @ cst_dns_ips s)\<rparr>))"

definition cm_set_fix_ips :: "client_id \<Rightarrow> ip_addr list \<Rightarrow> client_manager \<Rightarrow> client_manager" where
  "cm_set_fix_ips h ips cm = cm_update_ips h (cm_entry h (\<lambda>(c, s). (c\<lparr>cfg_fix_ips := ips\<rparr>, s)) cm)"

definition cm_set_dns_ips :: "client_id \<Rightarrow> ip_addr list \<Rightarrow> client_manager \<Rightarrow> client_manager" where
  "cm_set_dns_ips h ips cm = cm_update_ips h (cm_entry h (\<lambda>(c, s). (c, s\<lparr>cst_dns_ips := ips\<rparr>)) cm)"

definition cm_set_hostname :: "client_id \<Rightarrow> rstring option \<Rightarrow> client_manager \<Rightarrow> client_manager \<times> bool" where
  "cm_set_hostname h hostname cm = (case hm_get (cm_clients cm) h of
     None \<Rightarrow> (cm, False)
   | Some (c, s) \<Rightarrow>
       if cfg_hostname c \<noteq> hostname
       then (cm_update_ips h (cm_entry h (\<lambda>(c, s). (c\<lparr>cfg_hostname := hostname\<rparr>,
               s\<lparr>cst_active_addr := None, cst_dns_ips := []\<rparr>)) cm), True)
       else (cm, False))"

definition cm_set_port :: "client_id \<Rightarrow> u16 \<Rightarrow> client_manager \<Rightarrow> client_manager" where
  "cm_set_port h port = cm_entry h (\<lambda>(c, s).
     if cfg_port c \<noteq> port
     then (c\<lparr>cfg_port := port\<rparr>, s\<lparr>cst_active_addr := map_option (\<lambda>a. (fst a, port)) (cst_active_addr s)\<rparr>)
     else (c, s))"

definition cm_set_pos :: "client_id \<Rightarrow> edge \<Rightarrow> client_manager \<Rightarrow> client_manager \<times> bool" where
  "cm_set_pos h pos cm = (case hm_get (cm_clients cm) h of
     Some (c, s) \<Rightarrow>
       if cfg_pos c \<noteq> pos then (cm_entry h (\<lambda>(c, s). (c\<lparr>cfg_pos := pos\<rparr>, s)) cm, cst_active s) else (cm, False)
   | None \<Rightarrow> (cm, False))"

definition cm_set_enter_hook :: "client_id \<Rightarrow> rstring option \<Rightarrow> client_manager \<Rightarrow> client_manager" where
  "cm_set_enter_hook h hook = cm_entry h (\<lambda>(c, s). (c\<lparr>cfg_cmd := hook\<rparr>, s))"

definition cm_set_resolving :: "client_id \<Rightarrow> bool \<Rightarrow> client_manager \<Rightarrow> client_manager" where
  "cm_set_resolving h status = cm_entry h (\<lambda>(c, s). (c, s\<lparr>cst_resolving := status\<rparr>))"

definition cm_get_enter_cmd :: "client_id \<Rightarrow> client_manager \<Rightarrow> rstring option" where
  "cm_get_enter_cmd h cm = Option.bind (cm_get_state h cm) (\<lambda>(c, _). cfg_cmd c)"

definition cm_get_client_states :: "client_manager \<Rightarrow> (client_id \<times> client_config \<times> client_state) list" where
  "cm_get_client_states cm = cm_clients cm"

definition cm_all_clients :: "client_manager \<Rightarrow> (client_config \<times> client_state) list" where
  "cm_all_clients cm = map snd (cm_clients cm)"

definition cm_registered_clients :: "client_manager \<Rightarrow> client_id list" where
  "cm_registered_clients cm = map fst (cm_clients cm)"

definition cm_active_clients :: "client_manager \<Rightarrow> client_id list" where
  "cm_active_clients cm = map fst (filter (\<lambda>(_, _, s). cst_active s) (cm_clients cm))"

definition cm_clipboard_clients :: "client_manager \<Rightarrow> client_id list" where
  "cm_clipboard_clients cm = map fst (filter (\<lambda>(_, _, s). cst_alive s \<and> cst_remote_ready s) (cm_clients cm))"

definition cm_set_active_addr :: "client_id \<Rightarrow> socket_addr option \<Rightarrow> client_manager \<Rightarrow> client_manager" where
  "cm_set_active_addr h addr = cm_entry h (\<lambda>(c, s). (c, s\<lparr>cst_active_addr := addr\<rparr>))"

definition cm_set_alive :: "client_id \<Rightarrow> bool \<Rightarrow> client_manager \<Rightarrow> client_manager" where
  "cm_set_alive h alive = cm_entry h (\<lambda>(c, s).
     (c, if alive then s\<lparr>cst_alive := alive\<rparr> else s\<lparr>cst_alive := alive, cst_round_trip_us := None\<rparr>))"

definition as_micros_u32 :: "nat \<Rightarrow> u32" where
  "as_micros_u32 ns = (let us = ns div 1000 in if us < 2 ^ 32 then word_of_nat us else - 1)"

definition smooth_round_trip :: "u32 option \<Rightarrow> nat \<Rightarrow> u32" where
  "smooth_round_trip previous sample =
     (let sample = as_micros_u32 sample in
      case previous of
        None \<Rightarrow> sample
      | Some previous \<Rightarrow>
          let blended = (ucast previous * 3 + ucast sample) div (4 :: u64) in
          if unat blended < 2 ^ 32 then ucast blended else - 1)"

definition cm_record_round_trip :: "client_id \<Rightarrow> nat \<Rightarrow> client_manager \<Rightarrow> client_manager" where
  "cm_record_round_trip h sample = cm_entry h (\<lambda>(c, s).
     (c, s\<lparr>cst_round_trip_us := Some (smooth_round_trip (cst_round_trip_us s) sample)\<rparr>))"

definition cm_round_trip_us :: "client_id \<Rightarrow> client_manager \<Rightarrow> u32 option" where
  "cm_round_trip_us h cm = Option.bind (cm_get_state h cm) (\<lambda>(_, s). cst_round_trip_us s)"

definition cm_set_remote_ready :: "client_id \<Rightarrow> bool \<Rightarrow> client_manager \<Rightarrow> client_manager" where
  "cm_set_remote_ready h ready = cm_entry h (\<lambda>(c, s). (c, s\<lparr>cst_remote_ready := ready\<rparr>))"

definition cm_set_peer_commit :: "client_id \<Rightarrow> bytes option \<Rightarrow> client_manager \<Rightarrow> client_manager" where
  "cm_set_peer_commit h commit = cm_entry h (\<lambda>(c, s). (c, s\<lparr>cst_peer_commit := commit\<rparr>))"

definition cm_active_addr :: "client_id \<Rightarrow> client_manager \<Rightarrow> socket_addr option" where
  "cm_active_addr h cm = Option.bind (cm_get_state h cm) (\<lambda>(_, s). cst_active_addr s)"

definition cm_alive :: "client_id \<Rightarrow> client_manager \<Rightarrow> bool" where
  "cm_alive h cm = (case cm_get_state h cm of None \<Rightarrow> False | Some (_, s) \<Rightarrow> cst_alive s)"

definition cm_remote_ready :: "client_id \<Rightarrow> client_manager \<Rightarrow> bool" where
  "cm_remote_ready h cm = (case cm_get_state h cm of None \<Rightarrow> False | Some (_, s) \<Rightarrow> cst_remote_ready s)"

definition cm_peer_commit :: "client_id \<Rightarrow> client_manager \<Rightarrow> bytes option" where
  "cm_peer_commit h cm = Option.bind (cm_get_state h cm) (\<lambda>(_, s). cst_peer_commit s)"

definition cm_get_port :: "client_id \<Rightarrow> client_manager \<Rightarrow> u16 option" where
  "cm_get_port h cm = map_option (\<lambda>(c, _). cfg_port c) (cm_get_state h cm)"

definition cm_get_ips :: "client_id \<Rightarrow> client_manager \<Rightarrow> ip_addr set option" where
  "cm_get_ips h cm = map_option (\<lambda>(_, s). cst_ips s) (cm_get_state h cm)"

section \<open>Runs\<close>

datatype client_op =
    AddClient
  | AddWithConfig config_client
  | SetConfig client_id client_config
  | SetState client_id client_state
  | ActivateClient client_id
  | DeactivateClient client_id
  | RemoveClient client_id
  | SetPeerFingerprint client_id rstring
  | SetFixIps client_id "ip_addr list"
  | SetDnsIps client_id "ip_addr list"
  | SetHostname client_id "rstring option"
  | SetPort client_id u16
  | SetPos client_id edge
  | SetEnterHook client_id "rstring option"
  | SetResolving client_id bool
  | SetActiveAddr client_id "socket_addr option"
  | SetAlive client_id bool
  | RecordRoundTrip client_id nat
  | SetRemoteReady client_id bool
  | SetPeerCommit client_id "bytes option"

text \<open>One operation: the new table and the handle it issued, \<open>None\<close> for those that issue none.\<close>

definition cm_op :: "client_op \<Rightarrow> client_manager \<Rightarrow> client_manager \<times> client_id option outcome" where
  "cm_op op cm = (case op of
     AddClient \<Rightarrow> and_then (cm_add_client cm) (\<lambda>h cm. (cm, Done (Some h)))
   | AddWithConfig k \<Rightarrow> and_then (cm_add_with_config k cm) (\<lambda>h cm. (cm, Done (Some h)))
   | SetConfig h c \<Rightarrow> (cm_set_config h c cm, Done None)
   | SetState h s \<Rightarrow> (cm_set_state h s cm, Done None)
   | ActivateClient h \<Rightarrow> (fst (cm_activate_client h cm), Done None)
   | DeactivateClient h \<Rightarrow> (fst (cm_deactivate_client h cm), Done None)
   | RemoveClient h \<Rightarrow> (fst (cm_remove_client h cm), Done None)
   | SetPeerFingerprint h f \<Rightarrow> (cm_set_peer_fingerprint h f cm, Done None)
   | SetFixIps h ips \<Rightarrow> (cm_set_fix_ips h ips cm, Done None)
   | SetDnsIps h ips \<Rightarrow> (cm_set_dns_ips h ips cm, Done None)
   | SetHostname h n \<Rightarrow> (fst (cm_set_hostname h n cm), Done None)
   | SetPort h p \<Rightarrow> (cm_set_port h p cm, Done None)
   | SetPos h p \<Rightarrow> (fst (cm_set_pos h p cm), Done None)
   | SetEnterHook h e \<Rightarrow> (cm_set_enter_hook h e cm, Done None)
   | SetResolving h b \<Rightarrow> (cm_set_resolving h b cm, Done None)
   | SetActiveAddr h a \<Rightarrow> (cm_set_active_addr h a cm, Done None)
   | SetAlive h b \<Rightarrow> (cm_set_alive h b cm, Done None)
   | RecordRoundTrip h d \<Rightarrow> (cm_record_round_trip h d cm, Done None)
   | SetRemoteReady h b \<Rightarrow> (cm_set_remote_ready h b cm, Done None)
   | SetPeerCommit h c \<Rightarrow> (cm_set_peer_commit h c cm, Done None))"

primrec cm_run :: "client_op list \<Rightarrow> client_manager \<Rightarrow> client_manager \<times> client_id list outcome" where
  "cm_run [] cm = (cm, Done [])"
| "cm_run (op # ops) cm = and_then (cm_op op cm) (\<lambda>new cm.
     and_then (cm_run ops cm) (\<lambda>hs cm. (cm, Done (case new of None \<Rightarrow> hs | Some h \<Rightarrow> h # hs))))"

section \<open>Handles\<close>

lemma enter_handle_begin: "ENTER_HANDLE_BEGIN = 2 ^ 63"
  by (simp add: ENTER_HANDLE_BEGIN_def)

definition cm_inv :: "client_manager \<Rightarrow> bool" where
  "cm_inv cm \<longleftrightarrow> bt_ok (cm_clients cm) \<and> hm_ok (cm_peer_fingerprints cm) \<and> cm_next_handle cm \<le> ENTER_HANDLE_BEGIN \<and>
     (\<forall>h. cm_contains h cm \<longrightarrow> h < cm_next_handle cm) \<and>
     (\<forall>h. cm_peer_fingerprint h cm \<noteq> None \<longrightarrow> cm_contains h cm)"

lemma cm_inv_bt [simp]: "cm_inv cm \<Longrightarrow> bt_ok (cm_clients cm)"
  by (simp add: cm_inv_def)

lemma cm_default_inv [simp]: "cm_inv cm_default"
  by (simp add: cm_inv_def cm_default_def cm_contains_def cm_peer_fingerprint_def hash_map)

lemma cm_entry_get:
  "bt_ok (cm_clients cm) \<Longrightarrow> hm_get (cm_clients (cm_entry h f cm)) k =
     (if k = h then map_option f (hm_get (cm_clients cm) h) else hm_get (cm_clients cm) k)"
  by (auto simp: cm_entry_def hash_map split: option.split)

lemma cm_entry_same [simp]:
  "cm_next_handle (cm_entry h f cm) = cm_next_handle cm"
  "cm_peer_fingerprints (cm_entry h f cm) = cm_peer_fingerprints cm"
  "bt_ok (cm_clients cm) \<Longrightarrow> bt_ok (cm_clients (cm_entry h f cm))"
  by (auto simp: cm_entry_def split: option.split)

lemma cm_entry_contains [simp]: "bt_ok (cm_clients cm) \<Longrightarrow> cm_contains k (cm_entry h f cm) = cm_contains k cm"
  by (cases "k = h") (simp_all add: cm_contains_def cm_entry_get del: not_None_eq)

text \<open>The operations that only change entries: the handles of the table stay as they are.\<close>

definition same_handles :: "client_manager \<Rightarrow> client_manager \<Rightarrow> bool" where
  "same_handles cm cm' \<longleftrightarrow> bt_ok (cm_clients cm') \<and> cm_next_handle cm' = cm_next_handle cm \<and>
     cm_peer_fingerprints cm' = cm_peer_fingerprints cm \<and> (\<forall>k. cm_contains k cm' = cm_contains k cm)"

lemma same_handles_refl: "cm_inv cm \<Longrightarrow> same_handles cm cm"
  by (simp add: same_handles_def)

lemma same_handles_entry: "same_handles cm cm' \<Longrightarrow> same_handles cm (cm_entry h f cm')"
  by (simp add: same_handles_def)

lemma same_handles_inv: "same_handles cm cm' \<Longrightarrow> cm_inv cm \<Longrightarrow> cm_inv cm'"
  by (simp add: same_handles_def cm_inv_def cm_peer_fingerprint_def)

lemmas setter_defs = cm_set_config_def cm_set_state_def cm_update_ips_def cm_set_fix_ips_def cm_set_dns_ips_def
  cm_set_port_def cm_set_enter_hook_def cm_set_resolving_def cm_set_active_addr_def cm_set_alive_def
  cm_record_round_trip_def cm_set_remote_ready_def cm_set_peer_commit_def

lemmas answer_defs = cm_activate_client_def cm_deactivate_client_def cm_set_hostname_def cm_set_pos_def

lemma answers_same_handles:
  assumes "cm_inv cm"
  shows "same_handles cm (fst (cm_activate_client h cm))" "same_handles cm (fst (cm_deactivate_client h cm))"
    "same_handles cm (fst (cm_set_hostname h n cm))" "same_handles cm (fst (cm_set_pos h p cm))"
  using assms
  by (auto simp: answer_defs setter_defs split: option.split intro!: same_handles_refl same_handles_entry)

lemma add_client_done:
  assumes "cm_inv cm" "cm_add_client cm = (cm', Done h)"
  shows "h = cm_next_handle cm" "cm_next_handle cm' = h + 1" "h < h + 1" "cm_inv cm'" "\<not> cm_contains h cm"
    "cm_clients cm' = bt_insert h (client_config_default, client_state_default) (cm_clients cm)"
    "cm_contains k cm' \<longleftrightarrow> k = h \<or> cm_contains k cm" "h < ENTER_HANDLE_BEGIN"
    "cm_peer_fingerprints cm' = cm_peer_fingerprints cm"
proof -
  have less: "cm_next_handle cm < ENTER_HANDLE_BEGIN"
    and h: "h = cm_next_handle cm" and cm': "cm' = cm\<lparr>cm_next_handle := h + 1,
      cm_clients := bt_insert h (client_config_default, client_state_default) (cm_clients cm)\<rparr>"
    using assms(2) by (auto simp: cm_add_client_def Let_def split: if_splits)
  have "unat h < 2 ^ 63" using less h by (simp add: enter_handle_begin word_less_nat_alt)
  then have suc: "unat (h + 1) = unat h + 1" by (simp add: unat_word_ariths)
  have bt: "bt_ok (cm_clients cm)" using assms(1) by simp
  have has: "cm_contains k cm' \<longleftrightarrow> k = h \<or> cm_contains k cm" for k
    using bt by (simp add: cm' cm_contains_def hash_map)
  show "h < h + 1" using suc by (simp add: word_less_nat_alt)
  show "\<not> cm_contains h cm" using assms(1) by (auto simp: cm_inv_def h)
  show "cm_contains k cm' \<longleftrightarrow> k = h \<or> cm_contains k cm" by (rule has)
  have "k < h + 1" if "cm_contains k cm'" for k
  proof -
    have "k \<le> h" using that has assms(1) by (auto simp: cm_inv_def h)
    with suc show ?thesis by (simp add: word_less_nat_alt word_le_nat_alt)
  qed
  moreover have "h + 1 \<le> ENTER_HANDLE_BEGIN"
    using \<open>unat h < 2 ^ 63\<close> suc by (simp add: enter_handle_begin word_le_nat_alt)
  moreover have "cm_contains k cm'" if "cm_peer_fingerprint k cm' \<noteq> None" for k
    using that assms(1) has by (simp add: cm_inv_def cm' cm_peer_fingerprint_def)
  moreover have "bt_ok (cm_clients cm')" "hm_ok (cm_peer_fingerprints cm')"
    using assms(1) by (simp_all add: cm' cm_inv_def)
  ultimately show "cm_inv cm'" by (simp add: cm_inv_def cm')
qed (use assms(2) in \<open>auto simp: cm_add_client_def Let_def split: if_splits\<close>)

lemma fingerprint_inv:
  assumes "cm_inv cm"
  shows "cm_inv (cm_set_peer_fingerprint h f cm)" "cm_clients (cm_set_peer_fingerprint h f cm) = cm_clients cm"
    "cm_next_handle (cm_set_peer_fingerprint h f cm) = cm_next_handle cm"
    "cm_contains k (cm_set_peer_fingerprint h f cm) = cm_contains k cm"
  using assms by (auto simp: cm_inv_def cm_set_peer_fingerprint_def cm_contains_def cm_peer_fingerprint_def hash_map
      split: if_splits)

lemma remove_inv:
  assumes "cm_inv cm"
  shows "cm_inv (fst (cm_remove_client h cm))" "cm_next_handle (fst (cm_remove_client h cm)) = cm_next_handle cm"
    "cm_contains k (fst (cm_remove_client h cm)) \<longleftrightarrow> k \<noteq> h \<and> cm_contains k cm"
  using assms by (auto simp: cm_inv_def cm_remove_client_def cm_contains_def cm_peer_fingerprint_def hash_map bt_ok_hm_ok
      split: if_splits)

lemma add_with_config_done:
  assumes "cm_inv cm" "cm_add_with_config k cm = (cm', Done h)"
  shows "h = cm_next_handle cm" "cm_next_handle cm' = h + 1" "h < h + 1" "cm_inv cm'" "\<not> cm_contains h cm"
    "cm_contains x cm' \<longleftrightarrow> x = h \<or> cm_contains x cm"
    "cm_get_state x cm' = (if x = h then Some (\<lparr>cfg_hostname = kc_hostname k, cfg_fix_ips = kc_ips k, cfg_port = kc_port k,
        cfg_pos = kc_pos k, cfg_cmd = kc_enter_hook k\<rparr>,
        client_state_default\<lparr>cst_active := kc_active k, cst_ips := set (kc_ips k)\<rparr>) else cm_get_state x cm)"
proof -
  obtain cm1 where add: "cm_add_client cm = (cm1, Done h)"
    using assms(2) by (cases "cm_add_client cm"; cases "snd (cm_add_client cm)") (auto simp: cm_add_with_config_def Let_def)
  let ?c = "\<lparr>cfg_hostname = kc_hostname k, cfg_fix_ips = kc_ips k, cfg_port = kc_port k, cfg_pos = kc_pos k, cfg_cmd = kc_enter_hook k\<rparr>"
  let ?s = "client_state_default\<lparr>cst_active := kc_active k, cst_ips := set (kc_ips k)\<rparr>"
  let ?cm2 = "cm_set_state h ?s (cm_set_config h ?c cm1)"
  have cm': "cm' = (case kc_peer_fingerprint k of None \<Rightarrow> ?cm2 | Some f \<Rightarrow> cm_set_peer_fingerprint h f ?cm2)"
    using assms(2) by (cases "kc_peer_fingerprint k") (simp_all add: cm_add_with_config_def Let_def add)
  note new = add_client_done [OF assms(1) add]
  have same: "same_handles cm1 ?cm2"
    by (auto simp: setter_defs intro!: same_handles_entry same_handles_refl new)
  have inv2: "cm_inv ?cm2" using same_handles_inv [OF same] new by blast
  show "h = cm_next_handle cm" "h < h + 1" "\<not> cm_contains h cm" using new by blast+
  show "cm_inv cm'" using inv2 fingerprint_inv by (auto simp: cm' split: option.split)
  have nexts: "cm_next_handle cm' = cm_next_handle cm1" "cm_clients cm' = cm_clients ?cm2"
    using inv2 same fingerprint_inv by (auto simp: cm' same_handles_def split: option.split)
  then show "cm_next_handle cm' = h + 1" using new by simp
  have "cm_contains x cm' = cm_contains x ?cm2" by (simp add: cm_contains_def nexts)
  with same new(7) show "cm_contains x cm' \<longleftrightarrow> x = h \<or> cm_contains x cm" by (simp add: same_handles_def)
  have "bt_ok (cm_clients cm1)" using new(4) by simp
  with assms(1) show "cm_get_state x cm' = (if x = h then Some (?c, ?s) else cm_get_state x cm)"
    by (simp add: cm_get_state_def nexts setter_defs cm_entry_get new hash_map)
qed

lemma cm_op_done:
  assumes "cm_inv cm" "cm_op op cm = (cm', Done new)"
  shows "cm_inv cm' \<and> cm_next_handle cm \<le> cm_next_handle cm' \<and>
    (case new of None \<Rightarrow> \<forall>k. cm_contains k cm' \<longrightarrow> cm_contains k cm
     | Some h \<Rightarrow> cm_next_handle cm \<le> h \<and> h < cm_next_handle cm' \<and>
         (\<forall>k. cm_contains k cm' \<longrightarrow> k = h \<or> cm_contains k cm))"
proof -
  have *: ?thesis if "same_handles cm cm'" "new = None"
    using that same_handles_inv [OF that(1) assms(1)] by (simp add: same_handles_def)
  note same = same_handles_refl [OF assms(1)]
  show ?thesis
  proof (cases op)
    case AddClient
    then obtain h where "cm_add_client cm = (cm', Done h)" "new = Some h"
      using assms(2) by (cases "cm_add_client cm"; cases "snd (cm_add_client cm)") (auto simp: cm_op_def)
    with add_client_done [OF assms(1) this(1)] show ?thesis by (auto simp: order.strict_implies_order)
  next
    case (AddWithConfig k)
    then obtain h where "cm_add_with_config k cm = (cm', Done h)" "new = Some h"
      using assms(2) by (cases "cm_add_with_config k cm"; cases "snd (cm_add_with_config k cm)") (auto simp: cm_op_def)
    with add_with_config_done [OF assms(1) this(1)] show ?thesis by (auto simp: order.strict_implies_order)
  next
    case (RemoveClient h)
    then show ?thesis using assms remove_inv [OF assms(1)] by (auto simp: cm_op_def)
  next
    case (SetPeerFingerprint h f)
    then show ?thesis using assms fingerprint_inv [OF assms(1)] by (auto simp: cm_op_def)
  qed (rule *; use assms(2) answers_same_handles [OF assms(1)] in
      \<open>clarsimp simp: cm_op_def setter_defs same_handles_entry same\<close>)+
qed

lemma cm_run_done:
  assumes "cm_inv cm" "cm_run ops cm = (cm', Done hs)"
  shows "cm_inv cm' \<and> cm_next_handle cm \<le> cm_next_handle cm' \<and> sorted_wrt (<) hs \<and>
    (\<forall>h \<in> set hs. cm_next_handle cm \<le> h \<and> h < cm_next_handle cm') \<and>
    (\<forall>k. cm_contains k cm' \<longrightarrow> k \<in> set hs \<or> cm_contains k cm)"
  using assms
proof (induction ops arbitrary: cm cm' hs)
  case (Cons op ops)
  obtain cm1 new where op: "cm_op op cm = (cm1, Done new)"
    using Cons.prems(2) by (cases "cm_op op cm"; cases "snd (cm_op op cm)") auto
  then obtain hs1 where run: "cm_run ops cm1 = (cm', Done hs1)" and hs: "hs = (case new of None \<Rightarrow> hs1 | Some h \<Rightarrow> h # hs1)"
    using Cons.prems(2) by (cases "cm_run ops cm1"; cases "snd (cm_run ops cm1)") auto
  note first = cm_op_done [OF Cons.prems(1) op]
  then have rest: "cm_inv cm' \<and> cm_next_handle cm1 \<le> cm_next_handle cm' \<and> sorted_wrt (<) hs1 \<and>
    (\<forall>h \<in> set hs1. cm_next_handle cm1 \<le> h \<and> h < cm_next_handle cm') \<and>
    (\<forall>k. cm_contains k cm' \<longrightarrow> k \<in> set hs1 \<or> cm_contains k cm1)" using Cons.IH run by blast
  have trans: "cm_next_handle cm \<le> cm_next_handle cm'" using first rest by auto
  show ?case
  proof (cases new)
    case None
    have "cm_next_handle cm \<le> h" if "h \<in> set hs1" for h using that first rest by (meson order_trans)
    with None first rest trans hs show ?thesis by auto
  next
    case (Some h)
    have "h < x \<and> cm_next_handle cm \<le> x" if "x \<in> set hs1" for x
      using that first rest Some by (auto intro: order.strict_trans2 order_trans)
    moreover have "h < cm_next_handle cm'" using first rest Some by (auto intro: order.strict_trans2)
    ultimately show ?thesis using Some first rest trans hs by auto
  qed
qed simp

text \<open>C38: Handles of devices are unique for the life of the daemon. In every run of the table's operations that does
  not use up the handle space, the handles issued are distinct and below the range of the incoming connections, and only
  issued handles are registered; once a device is removed, no later operation brings its handle back: it is not
  registered, has no configuration, state, address or certificate, and is not issued again. With the handle space used up,
  adding a device panics and leaves the table as it was.\<close>
theorem client_handles_never_reused:
  assumes "cm_run ops cm_default = (cm, Done hs)" and "cm_contains h cm"
    and "cm_run later (fst (cm_remove_client h cm)) = (cm', Done hs')"
  shows "distinct (hs @ hs') \<and> set (cm_registered_clients cm') \<subseteq> set (hs @ hs') - {h} \<and> h \<notin> set hs' \<and>
    \<not> cm_contains h cm' \<and> cm_get_state h cm' = None \<and> cm_active_addr h cm' = None \<and> cm_peer_fingerprint h cm' = None \<and>
    (\<exists>n. n = cm_next_handle cm' \<and> n \<le> ENTER_HANDLE_BEGIN \<and> list_all (\<lambda>x. x < n) (hs @ hs') \<and>
      cm_add_client cm' = (if n = ENTER_HANDLE_BEGIN then (cm', Panicked)
        else (cm'\<lparr>cm_next_handle := n + 1,
                  cm_clients := bt_insert n (client_config_default, client_state_default) (cm_clients cm')\<rparr>, Done n)))"
proof -
  note a = cm_run_done [OF cm_default_inv assms(1)]
  then have inv: "cm_inv cm" by blast
  note r = remove_inv [OF inv]
  note b = cm_run_done [OF r(1) assms(3)]
  have low: "x < cm_next_handle cm" if "x \<in> set hs" for x using a that by auto
  have high: "cm_next_handle cm \<le> x" if "x \<in> set hs'" for x using b that r(2) [of h] by auto
  have "distinct hs" "distinct hs'" using a b by (auto simp: strict_sorted_iff)
  moreover have "x \<notin> set hs'" if "x \<in> set hs" for x using low [OF that] high [of x] by (auto simp: not_less [symmetric])
  ultimately have d: "distinct (hs @ hs')" by auto
  have hs: "h \<in> set hs" using a assms(2) by (auto simp: cm_contains_def cm_default_def hash_map)
  have new: "h \<notin> set hs'" using low [OF hs] high [of h] by (auto simp: not_less [symmetric])
  then have gone: "\<not> cm_contains h cm'" using b r(3) by blast
  then have none: "cm_get_state h cm' = None" by (simp add: cm_get_state_def cm_contains_def del: not_None_eq)
  moreover have "cm_peer_fingerprint h cm' = None" using b gone by (auto simp: cm_inv_def)
  moreover have "cm_contains x cm" if "cm_contains x cm'" "x \<notin> set hs'" for x using b r(3) that by blast
  then have sub: "x \<in> set (hs @ hs') - {h}" if "cm_contains x cm'" for x
    using that a gone by (auto simp: cm_default_def cm_contains_def hash_map)
  have "set (cm_registered_clients cm') \<subseteq> set (hs @ hs') - {h}"
  proof
    fix x assume "x \<in> set (cm_registered_clients cm')"
    then have "cm_contains x cm'" by (simp add: cm_registered_clients_def cm_contains_def hm_get_None del: not_None_eq)
    then show "x \<in> set (hs @ hs') - {h}" by (rule sub)
  qed
  moreover have "x < cm_next_handle cm'" if "x \<in> set (hs @ hs')" for x
    using that low [of x] b r(2) [of h] by (auto intro: order.strict_trans2)
  moreover have "cm_next_handle cm' \<le> ENTER_HANDLE_BEGIN" using b by (simp add: cm_inv_def)
  moreover have "cm_next_handle cm' \<noteq> - 1"
    using \<open>cm_next_handle cm' \<le> ENTER_HANDLE_BEGIN\<close> by (auto simp: enter_handle_begin word_order.extremum_unique)
  ultimately show ?thesis using d new gone none
    by (auto simp: cm_active_addr_def cm_add_client_def Let_def list_all_iff)
qed

section \<open>Round trips\<close>

lemma smooth_round_trip_value:
  "unat (smooth_round_trip (Some p) ns) = (3 * unat p + unat (as_micros_u32 ns)) div 4"
proof -
  let ?s = "as_micros_u32 ns"
  have p: "unat p < 2 ^ 32" "unat ?s < 2 ^ 32"
    using unsigned_less [of p, where 'a = nat] unsigned_less [of ?s, where 'a = nat] by simp_all
  then have "unat ((ucast p * 3 + ucast ?s) :: u64) = 3 * unat p + unat ?s"
    by (simp add: unat_word_ariths unsigned_ucast_eq take_bit_nat_eq_self)
  then have v: "unat ((ucast p * 3 + ucast ?s) div 4 :: u64) = (3 * unat p + unat ?s) div 4"
    by (simp add: unat_div)
  have "(3 * unat p + unat ?s) div 4 < 2 ^ 32" using p by simp
  with v show ?thesis by (simp add: smooth_round_trip_def Let_def unsigned_ucast_eq take_bit_nat_eq_self)
qed

text \<open>The figure stays between what it was and the sample, and repeated equal samples bring it geometrically within three
  microseconds of them: its distance above three shrinks by a quarter with each.\<close>

definition rt_distance :: "u32 \<Rightarrow> nat \<Rightarrow> nat \<Rightarrow> int" where
  "rt_distance p ns n = \<bar>int (unat (((\<lambda>q. smooth_round_trip (Some q) ns) ^^ n) p)) - int (unat (as_micros_u32 ns))\<bar>"

lemma settle_int: "4 * \<bar>(3 * a + b) div 4 - b\<bar> \<le> 3 + 3 * \<bar>a - b\<bar>" for a b :: int
proof -
  define q r where "q = (3 * a + b) div 4" and "r = (3 * a + b) mod 4"
  have "4 * q + r = 3 * a + b" "0 \<le> r" "r < 4" by (simp_all add: q_def r_def)
  then have "4 * \<bar>q - b\<bar> \<le> 3 + 3 * \<bar>a - b\<bar>" by arith
  then show ?thesis by (simp add: q_def)
qed

theorem round_trip_settles:
  "min p (as_micros_u32 ns) \<le> smooth_round_trip (Some p) ns \<and> smooth_round_trip (Some p) ns \<le> max p (as_micros_u32 ns) \<and>
   4 ^ n * (rt_distance p ns n - 3) \<le> 3 ^ n * (rt_distance p ns 0 - 3)"
proof -
  have settle: "4 * (\<bar>int (unat (smooth_round_trip (Some q) ns)) - int (unat (as_micros_u32 ns))\<bar> - 3)
      \<le> 3 * (\<bar>int (unat q) - int (unat (as_micros_u32 ns))\<bar> - 3)" for q
    unfolding smooth_round_trip_value using settle_int by (simp add: zdiv_int)
  have "4 ^ n * (rt_distance p ns n - 3) \<le> 3 ^ n * (rt_distance p ns 0 - 3)"
  proof (induction n)
    case (Suc n)
    have "4 ^ Suc n * (rt_distance p ns (Suc n) - 3) \<le> 4 ^ n * (3 * (rt_distance p ns n - 3))"
      using mult_left_mono [OF settle [of "((\<lambda>q. smooth_round_trip (Some q) ns) ^^ n) p"], of "4 ^ n"]
      by (simp add: rt_distance_def algebra_simps)
    also have "\<dots> = 3 * (4 ^ n * (rt_distance p ns n - 3))" by simp
    also have "\<dots> \<le> 3 * (3 ^ n * (rt_distance p ns 0 - 3))" using Suc by linarith
    finally show ?case by simp
  qed simp
  moreover have "min p (as_micros_u32 ns) \<le> smooth_round_trip (Some p) ns \<and> smooth_round_trip (Some p) ns \<le> max p (as_micros_u32 ns)"
    by (auto simp: word_le_nat_alt smooth_round_trip_value min_def max_def)
  ultimately show ?thesis by blast
qed

theorem client_handles_never_reused_witness:
  "\<exists>cm cm' hs hs'. cm_run [AddClient, AddClient, SetAlive 0 True] cm_default = (cm, Done hs) \<and> hs = [0, 1] \<and> cm_contains 0 cm \<and>
     cm_run [AddClient, SetAlive 0 True] (fst (cm_remove_client 0 cm)) = (cm', Done hs') \<and> hs' = [2] \<and> distinct (hs @ hs') \<and>
     \<not> cm_contains 0 cm'"
proof -
  let ?cm = "fst (cm_run [AddClient, AddClient, SetAlive 0 True] cm_default)"
  let ?cm' = "fst (cm_run [AddClient, SetAlive 0 True] (fst (cm_remove_client 0 ?cm)))"
  have a: "cm_run [AddClient, AddClient, SetAlive 0 True] cm_default = (?cm, Done [0, 1])"
    by (rule prod_eqI) (simp_all, code_simp)
  have b: "cm_contains 0 ?cm" by code_simp
  have c: "cm_run [AddClient, SetAlive 0 True] (fst (cm_remove_client 0 ?cm)) = (?cm', Done [2])"
    by (rule prod_eqI) (simp_all del: cm_run.simps, code_simp)
  from client_handles_never_reused [OF a b c] a b c show ?thesis by blast
qed

end
