(* ===== verification/Service_State.thy ===== *)
theory Service_State
  imports Client_Table Listen_Task Capture_Task Manual_Transfer
    History_Clear Peer_Profile
begin

text \<open>
  The state of the service, \<open>crates/syntra-core/src/service/mod.rs\<close>, and what its handlers share: the
  effects it has on the other tasks, the sending of messages to a peer by either route, the execution of
  the actions of the two transfer components (\<open>service/transfers.rs\<close>) and what is published to the
  emulation (\<open>service/frontend.rs\<close>). The service owns the client table, the transfer components, the reassemblers
  and the clear coordinator, whose models it calls; the capture task, the emulation, the
  frontend, the plugins and the desktop clipboard run beside it and are told by
  \<open>service_effect\<close>s, in order; the channels to them are taken to be open (the code panics with \<open>channel closed\<close> when a task
  has ended). The history database, the plugin registry and the clocks answer as
  arguments of each step, \<open>service_env\<close>; \<open>'r\<close> is the type of a history record.
\<close>

section \<open>Data\<close>

datatype service_peer = CapturePeer client_id | EmulationPeer socket_addr

record incoming_peer =
  in_fingerprint :: rstring
  in_addr :: socket_addr
  in_pos :: edge

record pointer_passage =
  ps_edge :: edge
  ps_peer :: "socket_addr option"
  ps_fingerprint :: "rstring option"
  ps_relayed :: bool
  ps_along :: "f32_bits option"

datatype transfer_status = Transferring | TransferCompleted | TransferCancelled | TransferFailed rstring

datatype service_event =
    EvCreated client_id client_config client_state
  | EvDeleted client_id
  | EvState client_id client_config client_state
  | EvNoSuchClient client_id
  | EvPortChanged u16 bool
  | EvDeviceEntered rstring socket_addr edge
  | EvIncomingDisconnected socket_addr
  | EvDeviceConnected socket_addr rstring
  | EvConnectionAttempt rstring
  | EvPointerEntered pointer_passage
  | EvPointerLeft pointer_passage
  | EvEmulationStatus bool
  | EvCaptureStatus bool
  | EvDaemonInfo
  | EvClientFingerprint client_id rstring
  | EvPeerDeviceProfile rstring device_profile
  | EvProfileNotSaved
  | EvHistoryError rstring
  | EvHistoryClearResult rstring u64 u32 "rstring option"
  | EvTransferStatus u64 u64 u64 u64 transfer_status
  | EvManual Manual_Transfer.frontend_event
  | EvSnapshot

text \<open>Commands to the supervisor of the plugins.\<close>

datatype manager_command =
    PluginPointer rstring bool edge "f32_bits option" "socket_addr option"
  | PluginPressure rstring edge "f32_bits option" fp
  | PluginClipboardData rstring rstring rstring rstring
  | PluginPublish rstring rstring operation "rstring list"
  | StartTransfer rstring rstring operation "remote_entry list"
  | PluginRangeResponse rstring rstring u64 u64 rstring bool "rstring option"
  | PluginUnmounted rstring rstring bool "rstring option"
  | PluginCancel "rstring option" rstring rstring

datatype (plugins only: code) 'r service_effect =
    ToCapture capture_request
  | ToEmulation emulation_request
  | ToFrontend service_event
  | ToPlugin manager_command
  | ToResolver client_id rstring
  | SpawnHook rstring
  | WriteClipboard clipboard_content
  | ReadClipboard
  | ReadSource "service_peer transfer_owner" u64 u64 u64 u64 "source_map file_offer"
  | ImportRecord 'r
  | SaveConfig "config_client list" "(rstring, rstring) hash_map"

record 'r service =
  sv_clients :: client_manager
  sv_incoming_conns :: "socket_addr list"
  sv_incoming :: "(client_id, incoming_peer) hash_map"
  sv_next_trigger_handle :: u64
  sv_authorized_keys :: "(rstring, rstring) hash_map"
  sv_port :: u16
  sv_capture_enabled :: bool
  sv_emulation_enabled :: bool
  sv_input_sharing :: bool
  sv_share_text :: bool
  sv_share_image :: bool
  sv_peer_fingerprints :: "(socket_addr, rstring) hash_map"
  sv_capture_fingerprints :: "(client_id, rstring) hash_map"
  sv_local_profile :: device_profile
  sv_profile_reassembler :: profile_reassembler
  sv_peer_profiles :: "(rstring, device_profile) hash_map"
  sv_profile_requests :: "(rstring, u64 \<times> nat \<times> nat) hash_map"
  sv_history_reassembler :: "service_peer reassembler"
  sv_history_clear :: "rstring clear_coordinator option"
  sv_history_connected :: "service_peer list"
  sv_next_history_request :: u64
  sv_history_progress :: "(service_peer, u64 \<times> u64 \<times> nat) hash_map"
  sv_shown_round_trips :: "(client_id, u32) hash_map"
  sv_echoes :: "clipboard_content list"
  sv_legacy_clipboard :: bool
  sv_next_clipboard_transfer :: u64
  sv_transfers :: "(service_peer, source_map) transfer_state"
  sv_manual :: "service_peer manual_transfers"
  sv_receive_settings :: file_receive_settings
  sv_manifest_generation :: u64
  sv_transfer_providers :: "(rstring, rstring) hash_map"
  sv_announced :: "u64 list"
  sv_transfer_progress :: "(u64, u64 \<times> u64) hash_map"
  sv_last_file_clipboard :: "rstring option"
  sv_native_file_selection :: bool
  sv_trace :: "'r service_effect list"

record 'r service_env =
  se_now :: nat
  se_nanos :: nat
  se_own_fingerprint :: rstring
  se_sha256 :: "bytes \<Rightarrow> bytes"
  se_base64 :: "bytes \<Rightarrow> rstring"
  se_serialize :: "'r \<Rightarrow> string + bytes"
  se_deserialize :: "bytes \<Rightarrow> 'r option"
  se_record :: "clipboard_content \<Rightarrow> 'r option"
  se_export :: "u64 \<Rightarrow> ('r list \<times> u64 option) option"
  se_snapshot :: "rstring + clear_boundary"
  se_apply_clear :: "rstring \<Rightarrow> clear_boundary \<Rightarrow> rstring + u64"
  se_profile_saved :: bool
  se_prepare :: prepare_env
  se_file :: file_env
  se_manager :: bool
  se_clipboard_provider :: "rstring option"
  se_mount_provider :: "rstring option"
  se_pointer_plugins :: "rstring list"
  se_multi_hop :: bool
  se_ip_order :: "ip_addr set \<Rightarrow> ip_addr list"

definition emit_sv :: "'r service_effect \<Rightarrow> 'r service \<Rightarrow> 'r service" where
  "emit_sv e sv = sv\<lparr>sv_trace := sv_trace sv @ [e]\<rparr>"

definition notify_frontend :: "service_event \<Rightarrow> 'r service \<Rightarrow> 'r service" where
  "notify_frontend event = emit_sv (ToFrontend event)"

section \<open>Peers\<close>

definition send_peer :: "service_peer \<Rightarrow> proto_event \<Rightarrow> 'r service \<Rightarrow> 'r service" where
  "send_peer peer event = (case peer of
     CapturePeer h \<Rightarrow> emit_sv (ToCapture (SendProto h event))
   | EmulationPeer addr \<Rightarrow> emit_sv (ToEmulation (ReqSendProto addr event)))"

primrec send_peer_all :: "service_peer \<Rightarrow> proto_event list \<Rightarrow> 'r service \<Rightarrow> 'r service" where
  "send_peer_all peer [] sv = sv"
| "send_peer_all peer (event # events) sv = send_peer_all peer events (send_peer peer event sv)"

definition connected_authenticated_peers :: "'r service \<Rightarrow> (rstring, service_peer) hash_map" where
  "connected_authenticated_peers sv = deduplicate_routes
     (map (\<lambda>(h, f). (f, CapturePeer h)) (sv_capture_fingerprints sv)
      @ map (\<lambda>(addr, f). (f, EmulationPeer addr)) (sv_peer_fingerprints sv))"

definition peer_identity :: "service_peer \<Rightarrow> 'r service \<Rightarrow> rstring option" where
  "peer_identity peer sv = (case peer of
     CapturePeer h \<Rightarrow> hm_get (sv_capture_fingerprints sv) h
   | EmulationPeer addr \<Rightarrow> hm_get (sv_peer_fingerprints sv) addr)"

definition next_history_request_id :: "'r service \<Rightarrow> 'r service \<times> u64" where
  "next_history_request_id sv =
     (let id = sv_next_history_request sv + 1 in (sv\<lparr>sv_next_history_request := id\<rparr>, id))"

section \<open>Execution of actions\<close>

definition manual_act :: "service_peer manual_action \<Rightarrow> 'r service \<Rightarrow> 'r service" where
  "manual_act action = (case action of
     MtSend peer event \<Rightarrow> send_peer peer event
   | MtNotify event \<Rightarrow> notify_frontend (EvManual event))"

definition execute_manual_actions :: "service_peer manual_action list \<Rightarrow> 'r service \<Rightarrow> 'r service" where
  "execute_manual_actions actions sv = fold manual_act actions sv"

definition refresh_manual_routes :: "'r service_env \<Rightarrow> 'r service \<Rightarrow> 'r service" where
  "refresh_manual_routes env sv =
     (let (manual, actions) = mt_refresh_routes (sv_manual sv) (connected_authenticated_peers sv) (se_now env) in
      execute_manual_actions actions (sv\<lparr>sv_manual := manual\<rparr>))"

definition transfer_ended ::
  "u64 \<Rightarrow> u64 option \<Rightarrow> u64 \<Rightarrow> u64 \<Rightarrow> transfer_status \<Rightarrow> 'r service \<Rightarrow> 'r service" where
  "transfer_ended ui_id file_id completed tot status sv =
     (if ui_id \<in> set (sv_announced sv)
      then notify_frontend (EvTransferStatus ui_id (case file_id of None \<Rightarrow> 0 | Some f \<Rightarrow> f) completed tot status)
             (sv\<lparr>sv_announced := removeAll ui_id (sv_announced sv),
                 sv_transfer_progress := hm_remove ui_id (sv_transfer_progress sv)\<rparr>)
      else sv)"

definition notify_transfer_frontend :: "Transfer_State.frontend_event \<Rightarrow> 'r service \<Rightarrow> 'r service" where
  "notify_transfer_frontend event sv = (case event of
     FeProgress ui_id completed tot \<Rightarrow>
       notify_frontend (EvTransferStatus ui_id 0 completed tot Transferring)
         (sv\<lparr>sv_announced := List.insert ui_id (sv_announced sv),
             sv_transfer_progress := hm_insert ui_id (completed, tot) (sv_transfer_progress sv)\<rparr>)
   | FeCompleted ui_id file_id completed tot \<Rightarrow> transfer_ended ui_id file_id completed tot TransferCompleted sv
   | FeCancelled ui_id file_id completed tot \<Rightarrow> transfer_ended ui_id file_id completed tot TransferCancelled sv
   | FeFailed ui_id file_id completed tot error \<Rightarrow>
       transfer_ended ui_id file_id completed tot (TransferFailed error) sv)"

definition command_manager :: "'r service_env \<Rightarrow> manager_command \<Rightarrow> 'r service \<Rightarrow> 'r service" where
  "command_manager env command sv = (if se_manager env then emit_sv (ToPlugin command) sv else sv)"

text \<open>The plugin registry either names a provider it may launch or refuses.\<close>

definition start_mounted_receive ::
  "'r service_env \<Rightarrow> rstring \<Rightarrow> operation \<Rightarrow> remote_entry list \<Rightarrow> 'r service \<Rightarrow> 'r service \<times> bool" where
  "start_mounted_receive env transfer_id operation entries sv = (case se_mount_provider env of
     None \<Rightarrow> (sv, False)
   | Some provider \<Rightarrow>
       (command_manager env (StartTransfer provider transfer_id operation entries)
          (sv\<lparr>sv_transfer_providers := hm_insert transfer_id provider (sv_transfer_providers sv)\<rparr>), True))"

definition join_lines :: "rstring \<Rightarrow> rstring list \<Rightarrow> rstring" where
  "join_lines sep parts = (case parts of [] \<Rightarrow> [] | p # ps \<Rightarrow> p @ concat (map (\<lambda>q. sep @ q) ps))"

definition publication_values :: "operation \<Rightarrow> rstring list \<Rightarrow> (rstring \<times> bytes) list" where
  "publication_values operation uris =
     [(lit ''text/uri-list'', join_lines [0x0d, 0x0a] uris @ [0x0d, 0x0a]),
      (lit ''x-special/gnome-copied-files'',
       (if operation = OpMove then lit ''cut'' else lit ''copy'') @ [0x0a] @ join_lines [0x0a] uris)]"

definition adapter_act ::
  "'r service_env \<Rightarrow> rstring \<Rightarrow> adapter_message \<Rightarrow> 'r service \<Rightarrow> 'r service" where
  "adapter_act env adapter_id message sv = (case message of
     MsgRemoteManifest transfer_id operation entries \<Rightarrow> sv
   | MsgRangeResponse transfer_id request_id offset data eof error \<Rightarrow>
       (case hm_get (sv_transfer_providers sv) transfer_id of
          None \<Rightarrow> sv
        | Some plugin \<Rightarrow> command_manager env (PluginRangeResponse plugin transfer_id request_id offset data eof error) sv)
   | MsgPublishFileClipboard transfer_id operation uris \<Rightarrow>
       emit_sv (ToEmulation (ReqPublishFileClipboard (publication_values operation uris)
         (FallbackAdapter transfer_id operation uris))) sv
   | MsgUnmounted transfer_id unmounted error \<Rightarrow>
       (case hm_get (sv_transfer_providers sv) transfer_id of
          None \<Rightarrow> sv
        | Some plugin \<Rightarrow> command_manager env (PluginUnmounted plugin transfer_id unmounted error) sv)
   | MsgCancel transfer_id \<Rightarrow>
       command_manager env (PluginCancel (hm_get (sv_transfer_providers sv) adapter_id) adapter_id transfer_id) sv)"

text \<open>
  \<open>execute_transfer_actions\<close>: a manifest that no plugin can take is reported lost, which gives
  further actions to execute. None of those is a manifest, so the nesting ends after one level; the
  depth counts it.
\<close>

fun transfer_acts ::
  "nat \<Rightarrow> 'r service_env \<Rightarrow> (service_peer, source_map) transfer_action list \<Rightarrow> 'r service \<Rightarrow> 'r service" where
  "transfer_acts depth env [] sv = sv"
| "transfer_acts depth env (action # actions) sv = transfer_acts depth env actions (case action of
     ActPeer peer event \<Rightarrow> send_peer peer event sv
   | ActAdapter adapter_id message \<Rightarrow>
       (case message of
          MsgRemoteManifest transfer_id operation entries \<Rightarrow>
            (let (sv, started) = start_mounted_receive env transfer_id operation entries sv in
             if started then sv
             else let (ts, lost) = ts_adapter_lost (sv_transfers sv) transfer_id in
               (case depth of 0 \<Rightarrow> sv | Suc d \<Rightarrow> transfer_acts d env lost (sv\<lparr>sv_transfers := ts\<rparr>)))
        | _ \<Rightarrow> adapter_act env adapter_id message sv)
   | ActFrontend event \<Rightarrow> notify_transfer_frontend event sv
   | ActReadSource owner file_id request_id offset len offer \<Rightarrow>
       emit_sv (ReadSource owner file_id request_id offset len offer) sv)"

definition execute_transfer_actions ::
  "'r service_env \<Rightarrow> (service_peer, source_map) transfer_action list \<Rightarrow> 'r service \<Rightarrow> 'r service" where
  "execute_transfer_actions env = transfer_acts 1 env"

lemma cancel_owners_no_manifest: "ActAdapter a (MsgRemoteManifest t operation es) \<notin> set (snd (ts_cancel_owners s os reason n))"
proof (induction os arbitrary: s)
  case (Cons y ys)
  have "ActAdapter a (MsgRemoteManifest t operation es) \<notin> set as" if "ts_cancel_owner s y None reason n = (s', Inr as)" for s' as
    using that by (auto simp: ts_cancel_owner_def Let_def split: option.splits prod.splits if_splits)
  with Cons.IH show ?case by (auto simp: Let_def case_prod_beta split: sum.split) (metis prod.collapse)
qed simp

lemma transfer_acts_flat:
  assumes "\<And>a t operation es. ActAdapter a (MsgRemoteManifest t operation es) \<notin> set actions"
  shows "transfer_acts d env actions sv = transfer_acts d' env actions sv"
  using assms
proof (induction actions arbitrary: sv)
  case (Cons action actions)
  then have "transfer_acts d env actions sv = transfer_acts d' env actions sv" for sv by simp
  moreover have "action \<noteq> ActAdapter a (MsgRemoteManifest t operation es)" for a t operation es using Cons.prems by auto
  ultimately show ?case by (cases action) (auto split: adapter_message.split)
qed simp

lemma transfer_acts_depth: "transfer_acts (Suc d) env actions sv = execute_transfer_actions env actions sv"
proof (induction actions arbitrary: sv)
  case (Cons action actions)
  have "transfer_acts d env (snd (ts_adapter_lost ts t)) sv = transfer_acts 0 env (snd (ts_adapter_lost ts t)) sv" for ts t sv
    by (rule transfer_acts_flat) (simp add: ts_adapter_lost_def cancel_owners_no_manifest)
  with Cons.IH show ?case
    by (simp add: execute_transfer_actions_def case_prod_beta Let_def split: transfer_action.split adapter_message.split)
qed (simp add: execute_transfer_actions_def)

section \<open>What is published\<close>

definition publish_peer_availability :: "'r service \<Rightarrow> 'r service" where
  "publish_peer_availability sv = emit_sv (ToEmulation (ReqSetUnavailablePeers
     (List.map_filter (\<lambda>(h, _, s). if cst_alive s \<and> cst_remote_ready s then None else cm_peer_fingerprint h (sv_clients sv))
       (cm_get_client_states (sv_clients sv))))) sv"

text \<open>The addresses of a device are a \<open>HashSet\<close>, whose order of iteration is an argument.\<close>

definition peer_sides :: "(ip_addr set \<Rightarrow> ip_addr list) \<Rightarrow> client_manager \<Rightarrow> (ip_addr, position) hash_map" where
  "peer_sides order cm = fold (\<lambda>(_, c, s) m.
       fold (\<lambda>ip. hm_insert ip (to_proto_pos (cfg_pos c))) (cfg_fix_ips c @ order (cst_ips s)) m)
     (cm_get_client_states cm) []"

definition peers_beyond :: "client_manager \<Rightarrow> (position, rstring) hash_map" where
  "peers_beyond cm = fold (\<lambda>(h, c, _) m. case cm_peer_fingerprint h cm of
       None \<Rightarrow> m | Some f \<Rightarrow> hm_insert (to_proto_pos (cfg_pos c)) f m)
     (cm_get_client_states cm) []"

definition publish_peer_sides :: "'r service_env \<Rightarrow> 'r service \<Rightarrow> 'r service" where
  "publish_peer_sides env sv = publish_peer_availability (emit_sv (ToEmulation
     (ReqSetPeerSides (peer_sides (se_ip_order env) (sv_clients sv)) (peers_beyond (sv_clients sv)))) sv)"

definition saved_clients :: "client_manager \<Rightarrow> config_client list" where
  "saved_clients cm = map (\<lambda>(h, c, s).
     \<lparr>kc_ips = remdups (cfg_fix_ips c), kc_hostname = cfg_hostname c, kc_port = cfg_port c, kc_pos = cfg_pos c,
      kc_active = cst_active s, kc_enter_hook = cfg_cmd c, kc_peer_fingerprint = cm_peer_fingerprint h cm\<rparr>)
     (cm_get_client_states cm)"

definition save_config :: "'r service_env \<Rightarrow> 'r service \<Rightarrow> 'r service" where
  "save_config env sv = emit_sv (SaveConfig (saved_clients (sv_clients sv)) (sv_authorized_keys sv)) (publish_peer_sides env sv)"

definition forward_pointer_to_plugins :: "'r service_env \<Rightarrow> pointer_passage \<Rightarrow> bool \<Rightarrow> 'r service \<Rightarrow> 'r service" where
  "forward_pointer_to_plugins env passage entered sv =
     fold (\<lambda>id. command_manager env (PluginPointer id entered (ps_edge passage) (ps_along passage) (ps_peer passage)))
       (se_pointer_plugins env) sv"

definition forward_pressure_to_plugins ::
  "'r service_env \<Rightarrow> edge \<Rightarrow> f32_bits option \<Rightarrow> fp \<Rightarrow> 'r service \<Rightarrow> 'r service" where
  "forward_pressure_to_plugins env e along amount sv =
     fold (\<lambda>id. command_manager env (PluginPressure id e along amount)) (se_pointer_plugins env) sv"

end
