(* ===== verification/Service_Peers.thy ===== *)
theory Service_Peers
  imports Service_State
begin

text \<open>
  The protocol between authenticated peers, \<open>service/peers.rs\<close> and \<open>service/history_reconcile.rs\<close>: device profiles with
  their retries, the pages of the history, the clearing of the history on all devices, and the dispatch
  of the file transfers to their components. A peer is known by the fingerprint of its certificate; an
  event from a route without one is ignored. The handlers run one after the other in the service's
  loop, so each is a function of the state; what it awaits (the history database) answers through \<open>service_env\<close>.
\<close>

section \<open>Profiles\<close>

definition request_profile :: "'r service_env \<Rightarrow> rstring \<Rightarrow> service_peer \<Rightarrow> 'r service \<Rightarrow> 'r service" where
  "request_profile env fingerprint peer sv =
     (if hm_get (sv_profile_requests sv) fingerprint \<noteq> None then sv
      else let (sv, request_id) = next_history_request_id sv in
        send_peer peer (ProfileRequest request_id)
          (sv\<lparr>sv_profile_requests := hm_insert fingerprint (request_id, 0, se_now env) (sv_profile_requests sv)\<rparr>))"

definition retry_profile ::
  "'r service_env \<Rightarrow> (rstring, service_peer) hash_map \<Rightarrow> rstring \<times> nat \<Rightarrow> 'r service \<Rightarrow> 'r service" where
  "retry_profile env routes expired sv = (case expired of (fingerprint, retries) \<Rightarrow>
     let sv = sv\<lparr>sv_profile_requests := hm_remove fingerprint (sv_profile_requests sv),
                 sv_profile_reassembler := pf_remove_peer (sv_profile_reassembler sv) fingerprint\<rparr> in
     if retries \<ge> 3 then sv
     else case hm_get routes fingerprint of
       None \<Rightarrow> sv
     | Some peer \<Rightarrow>
         let (sv, request_id) = next_history_request_id sv in
         send_peer peer (ProfileRequest request_id)
           (sv\<lparr>sv_profile_requests := hm_insert fingerprint (request_id, retries + 1, se_now env) (sv_profile_requests sv)\<rparr>))"

definition retry_profiles :: "'r service_env \<Rightarrow> 'r service \<Rightarrow> 'r service" where
  "retry_profiles env sv =
     (let sv = sv\<lparr>sv_profile_reassembler := pf_expire (sv_profile_reassembler sv) (se_now env)\<rparr>;
          routes = connected_authenticated_peers sv;
          expired = map (\<lambda>(f, _, retries, _). (f, retries))
            (filter (\<lambda>(_, _, _, sent). se_now env - sent \<ge> 2000) (sv_profile_requests sv)) in
      fold (retry_profile env routes) expired sv)"

definition accept_profile :: "'r service_env \<Rightarrow> rstring \<Rightarrow> device_profile \<Rightarrow> 'r service \<Rightarrow> 'r service" where
  "accept_profile env fingerprint profile sv =
     (let sv = sv\<lparr>sv_profile_requests := hm_remove fingerprint (sv_profile_requests sv)\<rparr> in
      if hm_get (sv_peer_profiles sv) fingerprint = Some profile then sv
      else let sv = (if se_profile_saved env then sv else notify_frontend EvProfileNotSaved sv) in
        notify_frontend (EvPeerDeviceProfile fingerprint profile)
          (sv\<lparr>sv_peer_profiles := hm_insert fingerprint profile (sv_peer_profiles sv)\<rparr>))"

definition profile_requested :: "rstring \<Rightarrow> u64 \<Rightarrow> 'r service \<Rightarrow> bool" where
  "profile_requested identity request_id sv = (case hm_get (sv_profile_requests sv) identity of
     None \<Rightarrow> False | Some (requested, _, _) \<Rightarrow> requested = request_id)"

definition profile_result ::
  "'r service_env \<Rightarrow> rstring \<Rightarrow> profile_reassembler \<times> (string + device_profile option) \<Rightarrow> 'r service \<Rightarrow> 'r service" where
  "profile_result env identity result sv = (case result of (reassembler, answer) \<Rightarrow>
     let sv = sv\<lparr>sv_profile_reassembler := reassembler\<rparr> in
     case answer of Inr (Some profile) \<Rightarrow> accept_profile env identity profile sv | _ \<Rightarrow> sv)"

section \<open>History pages\<close>

definition request_history_sync :: "service_peer \<Rightarrow> u64 \<Rightarrow> 'r service \<Rightarrow> 'r service" where
  "request_history_sync peer offset sv =
     (let (sv, request_id) = next_history_request_id sv in
      send_peer peer (HistorySyncRequest request_id offset)
        (sv\<lparr>sv_history_progress := hm_insert peer (request_id, offset, 0) (sv_history_progress sv)\<rparr>))"

definition broadcast_history_record :: "'r service_env \<Rightarrow> 'r \<Rightarrow> 'r service \<Rightarrow> 'r service" where
  "broadcast_history_record env rec sv =
     (let (sv, request_id) = next_history_request_id sv in
      case record_events (se_serialize env) request_id 0 rec of
        Inl _ \<Rightarrow> sv
      | Inr events \<Rightarrow>
          fold (\<lambda>(_, peer) sv. send_peer peer (HistorySyncPageEnd request_id None) (send_peer_all peer events sv))
            (connected_authenticated_peers sv) sv)"

definition send_history_page :: "'r service_env \<Rightarrow> service_peer \<Rightarrow> u64 \<Rightarrow> u64 \<Rightarrow> 'r service \<Rightarrow> 'r service" where
  "send_history_page env peer request_id offset sv = (case se_export env offset of
     None \<Rightarrow> sv
   | Some (records, next_offset) \<Rightarrow>
       send_peer peer (HistorySyncPageEnd request_id next_offset)
         (fold (\<lambda>(record_id, rec) sv. case record_events (se_serialize env) request_id (word_of_nat record_id) rec of
             Inl _ \<Rightarrow> sv | Inr events \<Rightarrow> send_peer_all peer events sv)
           (enumerate 0 records) sv))"

definition history_page_end :: "service_peer \<Rightarrow> u64 \<Rightarrow> u64 option \<Rightarrow> 'r service \<Rightarrow> 'r service" where
  "history_page_end peer request_id next_offset sv =
     (let (ra, discarded) = ra_finish_request (sv_history_reassembler sv) peer request_id;
          sv = sv\<lparr>sv_history_reassembler := ra\<rparr> in
      case hm_get (sv_history_progress sv) peer of
        None \<Rightarrow> sv
      | Some (active_request, page_offset, retries) \<Rightarrow>
          if active_request \<noteq> request_id then sv
          else if discarded \<noteq> 0 then
            if retries \<ge> 3
            then notify_frontend (EvHistoryError
                   (lit ''History synchronization with a device stopped after repeated incomplete transfers (''
                    @ dec_digits discarded @ lit '' incomplete record(s)).''))
                   (sv\<lparr>sv_history_progress := hm_remove peer (sv_history_progress sv)\<rparr>)
            else let (sv, retry_request) = next_history_request_id sv in
              send_peer peer (HistorySyncRequest retry_request page_offset)
                (sv\<lparr>sv_history_progress := hm_insert peer (retry_request, page_offset, retries + 1) (sv_history_progress sv)\<rparr>)
          else case next_offset of
            Some offset \<Rightarrow>
              send_peer peer (HistorySyncRequest request_id offset)
                (sv\<lparr>sv_history_progress := hm_insert peer (request_id, offset, 0) (sv_history_progress sv)\<rparr>)
          | None \<Rightarrow> sv\<lparr>sv_history_progress := hm_remove peer (sv_history_progress sv)\<rparr>)"

section \<open>Clearing the history on all devices\<close>

definition hex_lower :: "nat \<Rightarrow> u8" where
  "hex_lower n = word_of_nat (if n < 10 then 0x30 + n else 0x57 + n)"

definition hex_operation :: "bytes \<Rightarrow> rstring" where
  "hex_operation operation_id = concat (map (\<lambda>b. [hex_lower (unat b div 16), hex_lower (unat b mod 16)]) operation_id)"

definition finish_local_only_clear :: "'r service_env \<Rightarrow> rstring clear_coordinator \<Rightarrow> 'r service \<Rightarrow> 'r service" where
  "finish_local_only_clear env clear sv =
     (let operation = hex_operation (cc_operation_id clear) in
      notify_frontend (case se_apply_clear env operation (cc_boundary clear) of
        Inr affected \<Rightarrow> EvHistoryClearResult operation affected 0 None
      | Inl error \<Rightarrow> EvHistoryClearResult operation 0 0 (Some error)) sv)"

definition start_global_history_clear :: "'r service_env \<Rightarrow> 'r service \<Rightarrow> 'r service" where
  "start_global_history_clear env sv =
     (if sv_history_clear sv \<noteq> None
      then notify_frontend (EvHistoryError (lit ''A global history clear is already in progress.'')) sv
      else case se_snapshot env of
        Inl error \<Rightarrow> notify_frontend (EvHistoryError error) sv
      | Inr boundary \<Rightarrow>
          let (sv, request_id) = next_history_request_id sv;
              digest = se_sha256 env (se_own_fingerprint env @ nat_be 16 (se_nanos env) @ put_u64 request_id);
              operation_id = take 16 digest;
              peers = connected_authenticated_peers sv;
              clear = cc_new (se_now env) operation_id (fst ` set peers) boundary in
          if peers = [] then finish_local_only_clear env clear sv
          else (fold (\<lambda>(_, peer). send_peer peer (HistoryClearBoundaryRequest operation_id)) peers sv)
                 \<lparr>sv_history_clear := Some clear\<rparr>)"

text \<open>The participants of a clear are a \<open>HashSet\<close>; \<open>connected_authenticated_peers\<close> decides who still has a
  route, so the messages go out along it.\<close>

definition clear_boundary_answer ::
  "'r service_env \<Rightarrow> rstring \<Rightarrow> bytes \<Rightarrow> (rstring \<times> u64) list \<Rightarrow> 'r service \<Rightarrow> 'r service" where
  "clear_boundary_answer env identity operation_id boundary sv = (case sv_history_clear sv of
     None \<Rightarrow> sv
   | Some clear0 \<Rightarrow>
       if cc_operation_id clear0 \<noteq> operation_id then sv
       else let (clear, ready) = cc_add_boundary clear0 identity (boundary_from_wire boundary);
                sv = sv\<lparr>sv_history_clear := Some clear\<rparr> in
         if \<not> ready then sv
         else let sv = sv\<lparr>sv_history_clear := None\<rparr> in
           case se_apply_clear env (hex_operation operation_id) (cc_boundary clear) of
             Inl error \<Rightarrow> notify_frontend (EvHistoryClearResult (hex_operation operation_id) 0 0 (Some error)) sv
           | Inr affected \<Rightarrow>
               let peers = cc_participants clear;
                   clear = cc_begin_apply (se_now env) clear peers affected;
                   wire = boundary_to_wire (cc_boundary clear);
                   sv = fold (\<lambda>(f, peer) sv. if f \<in> peers then send_peer peer (HistoryClearApply operation_id wire) sv else sv)
                          (connected_authenticated_peers sv) sv in
               sv\<lparr>sv_history_clear := Some clear\<rparr>)"

definition clear_ack_answer ::
  "rstring \<Rightarrow> bytes \<Rightarrow> u64 \<Rightarrow> rstring option \<Rightarrow> 'r service \<Rightarrow> 'r service" where
  "clear_ack_answer identity operation_id affected error sv = (case sv_history_clear sv of
     None \<Rightarrow> sv
   | Some clear0 \<Rightarrow>
       if cc_operation_id clear0 \<noteq> operation_id \<or> \<not> cc_applying clear0 then sv
       else let (clear, finished) = cc_add_ack clear0 identity affected error;
                sv = sv\<lparr>sv_history_clear := Some clear\<rparr> in
         if \<not> finished then sv
         else notify_frontend (EvHistoryClearResult (hex_operation operation_id) (cc_affected clear)
                (word_of_nat (cc_peer_count clear))
                (if cc_errors clear = [] then None else Some (join_lines (lit ''; '') (cc_errors clear))))
                (sv\<lparr>sv_history_clear := None\<rparr>))"

text \<open>The branch of the loop that the deadline of the clear wakes. Its message names the number of devices missing.\<close>

definition history_clear_deadline :: "'r service_env \<Rightarrow> 'r service \<Rightarrow> 'r service" where
  "history_clear_deadline env sv = (case sv_history_clear sv of
     None \<Rightarrow> sv
   | Some clear \<Rightarrow>
       if cc_deadline clear > se_now env then sv
       else let missing = max (if cc_applying clear then card (cc_awaiting_acks clear) else card (cc_awaiting_boundaries clear))
                  (length (cc_errors clear)) in
         notify_frontend (EvHistoryClearResult (hex_operation (cc_operation_id clear))
           (if cc_applying clear then cc_affected clear else 0) (word_of_nat (cc_peer_count clear - missing))
           (Some (lit ''Global history clear timed out waiting for '' @ dec_digits missing
              @ lit '' connected peer(s); not all devices were cleared.'')))
           (sv\<lparr>sv_history_clear := None\<rparr>))"

definition clear_retry :: "rstring \<Rightarrow> 'r service \<Rightarrow> proto_event option" where
  "clear_retry identity sv = (case sv_history_clear sv of
     None \<Rightarrow> None
   | Some clear \<Rightarrow>
       if identity \<in> cc_awaiting_boundaries clear then Some (HistoryClearBoundaryRequest (cc_operation_id clear))
       else if identity \<in> cc_awaiting_acks clear
       then Some (HistoryClearApply (cc_operation_id clear) (boundary_to_wire (cc_boundary clear))) else None)"

definition history_peer_lost :: "'r service_env \<Rightarrow> service_peer \<Rightarrow> 'r service \<Rightarrow> 'r service" where
  "history_peer_lost env peer sv =
     (let identity = peer_identity peer sv;
          sv = sv\<lparr>sv_history_connected := removeAll peer (sv_history_connected sv),
                  sv_history_reassembler := ra_peer_lost (sv_history_reassembler sv) peer,
                  sv_history_progress := hm_remove peer (sv_history_progress sv)\<rparr>;
          sv = (case peer of
                  CapturePeer h \<Rightarrow> sv\<lparr>sv_capture_fingerprints := hm_remove h (sv_capture_fingerprints sv)\<rparr>
                | EmulationPeer addr \<Rightarrow> sv\<lparr>sv_peer_fingerprints := hm_remove addr (sv_peer_fingerprints sv)\<rparr>);
          sv = refresh_manual_routes env sv in
      case identity of
        None \<Rightarrow> sv
      | Some identity \<Rightarrow>
          (case hm_get (connected_authenticated_peers sv) identity of
             Some route \<Rightarrow> (case clear_retry identity sv of None \<Rightarrow> sv | Some event \<Rightarrow> send_peer route event sv)
           | None \<Rightarrow> sv\<lparr>sv_history_clear := map_option (\<lambda>clear. cc_peer_lost clear identity) (sv_history_clear sv)\<rparr>))"

section \<open>Messages of peers\<close>

definition run_transfers ::
  "'r service_env \<Rightarrow> (service_peer, source_map) ts_result \<Rightarrow> 'r service \<Rightarrow> 'r service" where
  "run_transfers env result sv = (case result of (ts, answer) \<Rightarrow>
     let sv = sv\<lparr>sv_transfers := ts\<rparr> in
     case answer of Inl _ \<Rightarrow> sv | Inr actions \<Rightarrow> execute_transfer_actions env actions sv)"

definition handle_file_protocol :: "'r service_env \<Rightarrow> service_peer \<Rightarrow> proto_event \<Rightarrow> 'r service \<Rightarrow> 'r service" where
  "handle_file_protocol env peer event sv = (case event of
     ClipboardManifest transfer_id entries \<Rightarrow>
       run_transfers env (ts_inbound_manifest (sv_transfers sv) peer (dec_u64 transfer_id) (dec_u64 transfer_id)
         transfer_id OpCopy entries) sv
   | _ \<Rightarrow> run_transfers env (ts_handle_protocol (se_sha256 env) (se_base64 env) (sv_transfers sv) peer event) sv)"

definition manual_protocol :: "'r service_env \<Rightarrow> service_peer \<Rightarrow> rstring \<Rightarrow> proto_event \<Rightarrow> 'r service \<Rightarrow> 'r service" where
  "manual_protocol env peer identity event sv =
     (let (manual, actions) = mt_handle_protocol (se_sha256 env) (sv_manual sv) peer identity event
            (sv_receive_settings sv) (se_now env) (se_prepare env) (se_file env) in
      execute_manual_actions actions (sv\<lparr>sv_manual := manual\<rparr>))"

definition peer_message ::
  "'r service_env \<Rightarrow> service_peer \<Rightarrow> rstring \<Rightarrow> proto_event \<Rightarrow> 'r service \<Rightarrow> 'r service" where
  "peer_message env peer identity event sv = (case event of
     ManualFileOffer _ _ _ \<Rightarrow> manual_protocol env peer identity event sv
   | ManualFileDecision _ _ \<Rightarrow> manual_protocol env peer identity event sv
   | ManualFileRequest _ _ _ \<Rightarrow> manual_protocol env peer identity event sv
   | ManualFileChunk _ _ _ \<Rightarrow> manual_protocol env peer identity event sv
   | ManualFileComplete _ _ \<Rightarrow> manual_protocol env peer identity event sv
   | ManualFileResult _ _ _ \<Rightarrow> manual_protocol env peer identity event sv
   | ManualFileCancel _ \<Rightarrow> manual_protocol env peer identity event sv
   | ProfileChanged \<Rightarrow>
       request_profile env identity peer
         (sv\<lparr>sv_profile_requests := hm_remove identity (sv_profile_requests sv),
             sv_profile_reassembler := pf_remove_peer (sv_profile_reassembler sv) identity\<rparr>)
   | ProfileRequest request_id \<Rightarrow>
       (case encode_profile request_id (sv_local_profile sv) of
          Inl _ \<Rightarrow> sv | Inr events \<Rightarrow> send_peer_all peer events sv)
   | ProfileStart request_id width height total_len chunks display_name \<Rightarrow>
       if \<not> profile_requested identity request_id sv then sv
       else profile_result env identity (pf_start (sv_profile_reassembler sv) (se_now env) identity request_id
              \<lparr>ph_width = width, ph_height = height, ph_total_len = total_len, ph_chunks = chunks,
               ph_display_name = display_name\<rparr>) sv
   | ProfileChunk request_id index data \<Rightarrow>
       if \<not> profile_requested identity request_id sv then sv
       else profile_result env identity
              (pf_chunk (sv_profile_reassembler sv) (se_now env) identity request_id index data) sv
   | HistorySyncRequest request_id offset \<Rightarrow> send_history_page env peer request_id offset sv
   | HistoryRecordStart request_id record_id total_len chunks \<Rightarrow>
       sv\<lparr>sv_history_reassembler :=
            fst (ra_start (sv_history_reassembler sv) (se_now env) peer request_id record_id total_len chunks)\<rparr>
   | HistoryRecordChunk request_id record_id index data \<Rightarrow>
       (let (ra, answer) = ra_chunk (se_deserialize env) (sv_history_reassembler sv) peer request_id record_id index data;
            sv = sv\<lparr>sv_history_reassembler := ra\<rparr> in
        case answer of Inr (Some rec) \<Rightarrow> emit_sv (ImportRecord rec) sv | _ \<Rightarrow> sv)
   | HistorySyncPageEnd request_id next_offset \<Rightarrow> history_page_end peer request_id next_offset sv
   | HistoryClearBoundaryRequest operation_id \<Rightarrow>
       (case se_snapshot env of
          Inr boundary \<Rightarrow> send_peer peer (HistoryClearBoundary operation_id (boundary_to_wire boundary)) sv
        | Inl error \<Rightarrow> send_peer peer (HistoryClearAck operation_id 0 (Some error)) sv)
   | HistoryClearBoundary operation_id boundary \<Rightarrow> clear_boundary_answer env identity operation_id boundary sv
   | HistoryClearApply operation_id boundary \<Rightarrow>
       (case se_apply_clear env (hex_operation operation_id) (boundary_from_wire boundary) of
          Inr affected \<Rightarrow> send_peer peer (HistoryClearAck operation_id affected None) sv
        | Inl error \<Rightarrow> send_peer peer (HistoryClearAck operation_id 0 (Some error)) sv)
   | HistoryClearAck operation_id affected error \<Rightarrow> clear_ack_answer identity operation_id affected error sv
   | _ \<Rightarrow> handle_file_protocol env peer event sv)"

definition handle_peer_protocol :: "'r service_env \<Rightarrow> service_peer \<Rightarrow> proto_event \<Rightarrow> 'r service \<Rightarrow> 'r service" where
  "handle_peer_protocol env peer event sv = (case peer_identity peer sv of
     None \<Rightarrow> sv
   | Some identity \<Rightarrow> peer_message env peer identity event sv)"

end
