(* ===== verification/Service_Routes.thy ===== *)
theory Service_Routes
  imports Service_Peers
begin

text \<open>
  The routes of the service: configured devices and the connections that control this screen, from
  \<open>service/clients.rs\<close>, with the start of the loop and the reload of the configuration
  (\<open>service/mod.rs\<close>, \<open>service/frontend.rs\<close>). Every active device and every incoming connection has a barrier: the service asks the
  capture task for it when the route becomes active and takes it back when it ends. What an
  \<open>unwrap\<close> or \<open>expect\<close> of the source would abort is \<open>Panicked\<close>.
\<close>

section \<open>Configured devices\<close>

definition broadcast_client :: "client_id \<Rightarrow> 'r service \<Rightarrow> 'r service" where
  "broadcast_client h sv = notify_frontend (case cm_get_state h (sv_clients sv) of
     Some (c, s) \<Rightarrow> EvState h c s | None \<Rightarrow> EvNoSuchClient h) sv"

definition sv_resolve :: "client_id \<Rightarrow> 'r service \<Rightarrow> 'r service" where
  "sv_resolve h sv = (case cm_get_hostname h (sv_clients sv) of
     None \<Rightarrow> sv | Some hostname \<Rightarrow> emit_sv (ToResolver h hostname) sv)"

definition created :: "client_id \<Rightarrow> 'r service \<Rightarrow> 'r service \<times> unit outcome" where
  "created h sv = (case cm_get_state h (sv_clients sv) of
     None \<Rightarrow> (sv, Panicked) | Some (c, s) \<Rightarrow> (notify_frontend (EvCreated h c s) sv, Done ()))"

text \<open>An operation of the table inside the service.\<close>

definition with_clients ::
  "(client_manager \<Rightarrow> client_manager \<times> 'a outcome) \<Rightarrow> 'r service \<Rightarrow> 'r service \<times> 'a outcome" where
  "with_clients f sv = (case f (sv_clients sv) of (cm, r) \<Rightarrow> (sv\<lparr>sv_clients := cm\<rparr>, r))"

definition sv_add_client :: "'r service \<Rightarrow> 'r service \<times> unit outcome" where
  "sv_add_client sv = and_then (with_clients cm_add_client sv) created"

definition discovered_known :: "ip_addr list \<Rightarrow> client_manager \<Rightarrow> bool" where
  "discovered_known addresses cm = list_ex (\<lambda>(_, c, s). list_ex (\<lambda>a. a \<in> set (cfg_fix_ips c) \<or> a \<in> cst_ips s) addresses)
     (cm_get_client_states cm)"

definition add_discovered_client :: "ip_addr list \<Rightarrow> u16 \<Rightarrow> 'r service \<Rightarrow> 'r service \<times> unit outcome" where
  "add_discovered_client addresses port sv =
     (if addresses = [] \<or> port = 0 then (sv, Done ())
      else if discovered_known addresses (sv_clients sv) then (sv, Done ())
      else and_then (with_clients cm_add_client sv) (\<lambda>h sv.
        created h (sv\<lparr>sv_clients := cm_set_port h port (cm_set_fix_ips h addresses (sv_clients sv))\<rparr>)))"

definition sv_deactivate_client :: "client_id \<Rightarrow> 'r service \<Rightarrow> 'r service" where
  "sv_deactivate_client h sv =
     (let (cm, changed) = cm_deactivate_client h (sv_clients sv);
          sv = sv\<lparr>sv_clients := cm\<rparr> in
      if changed then broadcast_client h (emit_sv (ToCapture (Destroy h)) sv) else sv)"

definition sv_activate_client :: "client_id \<Rightarrow> 'r service \<Rightarrow> 'r service" where
  "sv_activate_client h sv =
     (let sv = sv_resolve h sv in
      case cm_get_pos h (sv_clients sv) of
        None \<Rightarrow> sv
      | Some pos \<Rightarrow>
          let sv = (case cm_client_at pos (sv_clients sv) of
                      Some other \<Rightarrow> if other \<noteq> h then sv_deactivate_client other sv else sv
                    | None \<Rightarrow> sv);
              (cm, changed) = cm_activate_client h (sv_clients sv);
              sv = sv\<lparr>sv_clients := cm\<rparr> in
          if changed then broadcast_client h (emit_sv (ToCapture (Create h pos DefaultCapture)) sv) else sv)"

definition set_client_active :: "client_id \<Rightarrow> bool \<Rightarrow> 'r service \<Rightarrow> 'r service" where
  "set_client_active h active = (if active then sv_activate_client h else sv_deactivate_client h)"

definition reenable_missing_backends :: "'r service \<Rightarrow> 'r service" where
  "reenable_missing_backends sv =
     (let sv = (if sv_capture_enabled sv then sv else emit_sv (ToCapture Reenable) sv) in
      if sv_emulation_enabled sv then sv else emit_sv (ToEmulation ReqReenable) sv)"

definition change_port :: "u16 \<Rightarrow> 'r service \<Rightarrow> 'r service" where
  "change_port port sv =
     (if sv_port sv \<noteq> port then emit_sv (ToEmulation (ReqChangePort port)) sv
      else notify_frontend (EvPortChanged (sv_port sv) True) sv)"

definition sv_remove_client :: "'r service_env \<Rightarrow> client_id \<Rightarrow> 'r service \<Rightarrow> 'r service" where
  "sv_remove_client env h sv =
     (let (cm, removed) = cm_remove_client h (sv_clients sv);
          sv = sv\<lparr>sv_clients := cm\<rparr>;
          sv = (case removed of
                  Some (_, s) \<Rightarrow> if cst_active s then emit_sv (ToCapture (Destroy h)) sv else sv
                | None \<Rightarrow> sv) in
      notify_frontend (EvDeleted h) (history_peer_lost env (CapturePeer h) sv))"

definition update_fix_ips :: "client_id \<Rightarrow> ip_addr list \<Rightarrow> 'r service \<Rightarrow> 'r service" where
  "update_fix_ips h ips sv = broadcast_client h (sv\<lparr>sv_clients := cm_set_fix_ips h ips (sv_clients sv)\<rparr>)"

definition update_hostname :: "client_id \<Rightarrow> rstring option \<Rightarrow> 'r service \<Rightarrow> 'r service" where
  "update_hostname h hostname sv =
     (let (cm, changed) = cm_set_hostname h hostname (sv_clients sv);
          sv = sv\<lparr>sv_clients := cm\<rparr> in
      broadcast_client h (if changed then sv_resolve h sv else sv))"

definition update_port :: "client_id \<Rightarrow> u16 \<Rightarrow> 'r service \<Rightarrow> 'r service" where
  "update_port h port sv = broadcast_client h (sv\<lparr>sv_clients := cm_set_port h port (sv_clients sv)\<rparr>)"

definition update_pos :: "client_id \<Rightarrow> edge \<Rightarrow> 'r service \<Rightarrow> 'r service" where
  "update_pos h pos sv =
     (let (cm, changed) = cm_set_pos h pos (sv_clients sv);
          sv = sv\<lparr>sv_clients := cm\<rparr> in
      broadcast_client h (if changed then sv_activate_client h (sv_deactivate_client h sv) else sv))"

definition update_enter_hook :: "client_id \<Rightarrow> rstring option \<Rightarrow> 'r service \<Rightarrow> 'r service" where
  "update_enter_hook h hook sv = broadcast_client h (sv\<lparr>sv_clients := cm_set_enter_hook h hook (sv_clients sv)\<rparr>)"

text \<open>The subtraction is absolute; the multiplication \<open>delta * 4\<close> wraps, as in a release build, where a debug build panics.\<close>

definition round_trip_moved :: "u32 option \<Rightarrow> u32 option \<Rightarrow> bool" where
  "round_trip_moved shown current = (case (shown, current) of
     (None, None) \<Rightarrow> False
   | (Some shown, Some current) \<Rightarrow>
       let delta = (if shown \<ge> current then shown - current else current - shown) in
       delta \<ge> 500 \<and> delta * 4 > shown
   | _ \<Rightarrow> True)"

definition publish_round_trip :: "client_id \<Rightarrow> 'r service \<Rightarrow> 'r service" where
  "publish_round_trip h sv =
     (let current = cm_round_trip_us h (sv_clients sv);
          shown = hm_get (sv_shown_round_trips sv) h in
      if \<not> round_trip_moved shown current then sv
      else broadcast_client h (sv\<lparr>sv_shown_round_trips := (case current of
             Some value \<Rightarrow> hm_insert h value (sv_shown_round_trips sv)
           | None \<Rightarrow> hm_remove h (sv_shown_round_trips sv))\<rparr>))"

definition publish_round_trips :: "'r service \<Rightarrow> 'r service" where
  "publish_round_trips sv = fold publish_round_trip (cm_registered_clients (sv_clients sv)) sv"

definition spawn_hook_command :: "client_id \<Rightarrow> 'r service \<Rightarrow> 'r service" where
  "spawn_hook_command h sv = (case cm_get_enter_cmd h (sv_clients sv) of
     None \<Rightarrow> sv | Some cmd \<Rightarrow> emit_sv (SpawnHook cmd) sv)"

datatype dns_event = Resolving client_id | Resolved client_id "ip_addr list option"

definition handle_resolver_event :: "'r service_env \<Rightarrow> dns_event \<Rightarrow> 'r service \<Rightarrow> 'r service" where
  "handle_resolver_event env event sv = (case event of
     Resolving h \<Rightarrow> broadcast_client h (sv\<lparr>sv_clients := cm_set_resolving h True (sv_clients sv)\<rparr>)
   | Resolved h ips \<Rightarrow>
       broadcast_client h (publish_peer_sides env
         (sv\<lparr>sv_clients := cm_set_dns_ips h (case ips of None \<Rightarrow> [] | Some ips \<Rightarrow> ips)
               (cm_set_resolving h False (sv_clients sv))\<rparr>)))"

section \<open>Incoming connections\<close>

definition capture_position :: "client_id \<Rightarrow> 'r service \<Rightarrow> edge option" where
  "capture_position h sv = map_option in_pos (hm_get (sv_incoming sv) h)"

definition fingerprint_at :: "edge \<Rightarrow> 'r service \<Rightarrow> rstring option" where
  "fingerprint_at pos sv =
     (case find (\<lambda>(_, c, _). cfg_pos c = pos) (cm_get_client_states (sv_clients sv)) of
        None \<Rightarrow> None
      | Some (h, _, _) \<Rightarrow> cm_peer_fingerprint h (sv_clients sv))"

definition add_incoming :: "socket_addr \<Rightarrow> edge \<Rightarrow> rstring \<Rightarrow> 'r service \<Rightarrow> 'r service" where
  "add_incoming addr pos fingerprint sv =
     (let h = ENTER_HANDLE_BEGIN + sv_next_trigger_handle sv;
          sv = emit_sv (ToCapture (Create h pos EnterOnly))
                 (sv\<lparr>sv_next_trigger_handle := sv_next_trigger_handle sv + 1\<rparr>) in
      sv\<lparr>sv_incoming_conns := List.insert addr (sv_incoming_conns sv),
         sv_incoming := hm_insert h \<lparr>in_fingerprint = fingerprint, in_addr = addr, in_pos = pos\<rparr> (sv_incoming sv)\<rparr>)"

definition remove_incoming :: "socket_addr \<Rightarrow> 'r service \<Rightarrow> 'r service \<times> socket_addr option" where
  "remove_incoming addr sv = (case find (\<lambda>(_, i). in_addr i = addr) (sv_incoming sv) of
     None \<Rightarrow> (sv, None)
   | Some (h, _) \<Rightarrow>
       let sv = emit_sv (ToCapture (Destroy h)) sv in
       (sv\<lparr>sv_incoming_conns := removeAll addr (sv_incoming_conns sv), sv_incoming := hm_remove h (sv_incoming sv)\<rparr>,
        map_option in_addr (hm_get (sv_incoming sv) h)))"

definition update_incoming :: "socket_addr \<Rightarrow> edge \<Rightarrow> rstring \<Rightarrow> 'r service \<Rightarrow> 'r service \<times> unit outcome" where
  "update_incoming addr pos fingerprint sv = (case find (\<lambda>(_, i). in_addr i = addr) (sv_incoming sv) of
     None \<Rightarrow> (sv, Panicked)
   | Some (h, i) \<Rightarrow>
       if in_fingerprint i \<noteq> fingerprint \<or> in_pos i \<noteq> pos then
         let sv = sv\<lparr>sv_incoming := hm_insert h (i\<lparr>in_fingerprint := fingerprint, in_pos := pos\<rparr>) (sv_incoming sv)\<rparr>;
             sv = add_incoming addr pos fingerprint (fst (remove_incoming addr sv)) in
         (notify_frontend (EvDeviceEntered fingerprint addr pos) (notify_frontend (EvIncomingDisconnected addr) sv), Done ())
       else (sv, Done ()))"

section \<open>Start and reload\<close>

text \<open>A new service, with the profiles its cache holds.\<close>

definition service_new ::
  "client_manager \<Rightarrow> (rstring, rstring) hash_map \<Rightarrow> u16 \<Rightarrow> bool \<times> bool \<Rightarrow> device_profile
     \<Rightarrow> (rstring, device_profile) hash_map \<Rightarrow> u64 \<Rightarrow> u64 \<Rightarrow> bool \<Rightarrow> file_receive_settings \<Rightarrow> 'r service" where
  "service_new cm keys port clipboard profile profiles history_id clipboard_id legacy receive =
     \<lparr>sv_clients = cm, sv_incoming_conns = [], sv_incoming = [], sv_next_trigger_handle = 0, sv_authorized_keys = keys,
      sv_port = port, sv_capture_enabled = False, sv_emulation_enabled = False, sv_input_sharing = True,
      sv_share_text = fst clipboard, sv_share_image = snd clipboard, sv_peer_fingerprints = [], sv_capture_fingerprints = [],
      sv_local_profile = profile, sv_profile_reassembler = [], sv_peer_profiles = profiles, sv_profile_requests = [],
      sv_history_reassembler = ra_default, sv_history_clear = None, sv_history_connected = [],
      sv_next_history_request = history_id, sv_history_progress = [], sv_shown_round_trips = [], sv_echoes = [],
      sv_legacy_clipboard = legacy, sv_next_clipboard_transfer = clipboard_id, sv_transfers = ts_default, sv_manual = mt_new,
      sv_receive_settings = receive, sv_manifest_generation = 0, sv_transfer_providers = [], sv_announced = [],
      sv_transfer_progress = [], sv_last_file_clipboard = None, sv_native_file_selection = False, sv_trace = []\<rparr>"

primrec load_clients :: "config_client list \<Rightarrow> client_manager \<Rightarrow> client_manager \<times> unit outcome" where
  "load_clients [] cm = (cm, Done ())"
| "load_clients (k # ks) cm = and_then (cm_add_with_config k cm) (\<lambda>_ cm. load_clients ks cm)"

text \<open>The start of the loop: the devices that the configuration has active are deactivated in the table and activated
  by the service, which creates their barriers.\<close>

definition start_routes :: "'r service_env \<Rightarrow> 'r service \<Rightarrow> 'r service" where
  "start_routes env sv =
     (let sv = publish_peer_sides env sv;
          active = cm_active_clients (sv_clients sv);
          sv = sv\<lparr>sv_clients := fold (\<lambda>h cm. fst (cm_deactivate_client h cm)) active (sv_clients sv)\<rparr> in
      fold sv_activate_client active sv)"

definition reload_client :: "config_client \<Rightarrow> 'r service \<Rightarrow> 'r service \<times> unit outcome" where
  "reload_client k sv = and_then (with_clients (cm_add_with_config k) sv) (\<lambda>h sv.
     case cm_get_state h (sv_clients sv) of
       None \<Rightarrow> (sv, Panicked)
     | Some (c, s) \<Rightarrow>
         let sv = (if cst_active s
                   then sv_activate_client h (sv\<lparr>sv_clients := fst (cm_deactivate_client h (sv_clients sv))\<rparr>) else sv) in
         (notify_frontend (EvCreated h c s) sv, Done ()))"

primrec reload_clients :: "config_client list \<Rightarrow> 'r service \<Rightarrow> 'r service \<times> unit outcome" where
  "reload_clients [] sv = (sv, Done ())"
| "reload_clients (k # ks) sv = and_then (reload_client k sv) (\<lambda>_ sv. reload_clients ks sv)"

text \<open>\<open>sync_frontend\<close> sends the frontend a snapshot of the state and changes none of it.\<close>

definition handle_config_change ::
  "'r service_env \<Rightarrow> config_client list \<Rightarrow> nat list \<Rightarrow> (rstring, rstring) hash_map \<Rightarrow> 'r service \<Rightarrow> 'r service \<times> unit outcome" where
  "handle_config_change env clients release_bind keys sv =
     and_then (reload_clients clients (fold (sv_remove_client env) (cm_registered_clients (sv_clients sv)) sv))
       (\<lambda>_ sv. (notify_frontend EvSnapshot
          ((emit_sv (ToCapture (SetReleaseBind release_bind)) sv)\<lparr>sv_authorized_keys := keys\<rparr>), Done ()))"

end
