(* ===== verification/Service_Input.thy ===== *)
theory Service_Input
  imports Service_Routes
begin

text \<open>
  What the service does with the events of the emulation and of the capture task, \<open>service/input.rs\<close>, with the
  clipboard of \<open>service/clipboard_sync.rs\<close>, the results of file reads and scans (\<open>service/transfers.rs\<close>) and the timer of the loop. A
  remote clipboard that was just written is remembered, at most eight of them, so that its echo from the
  desktop is not sent back. The history contents that \<open>history::text\<close> and \<open>history::image\<close> build from a
  clipboard content determine it, so the contents themselves are kept.
\<close>

section \<open>The clipboard\<close>

definition record_local_history :: "'r service_env \<Rightarrow> clipboard_content \<Rightarrow> 'r service \<Rightarrow> 'r service" where
  "record_local_history env content sv = (case se_record env content of
     None \<Rightarrow> sv | Some rec \<Rightarrow> broadcast_history_record env rec sv)"

definition content_payload :: "clipboard_content \<Rightarrow> bytes \<times> (u32 \<times> u32) option" where
  "content_payload content = (case content of
     ClipText text \<Rightarrow> (text, None) | ClipImage width height rgba \<Rightarrow> (rgba, Some (width, height)))"

definition share_with :: "clipboard_content \<Rightarrow> client_id \<Rightarrow> 'r service \<Rightarrow> 'r service" where
  "share_with content h sv =
     (let id = sv_next_clipboard_transfer sv + 1 in
      emit_sv (ToCapture (SendClipboard h id (fst (content_payload content)) (snd (content_payload content))))
        (sv\<lparr>sv_next_clipboard_transfer := id\<rparr>))"

definition share_clipboard :: "'r service_env \<Rightarrow> clipboard_content \<Rightarrow> 'r service \<Rightarrow> 'r service" where
  "share_clipboard env content sv =
     (let sv = record_local_history env content sv in
      fold (share_with content) (cm_clipboard_clients (sv_clients sv)) sv)"

definition shares :: "clipboard_content \<Rightarrow> 'r service \<Rightarrow> bool" where
  "shares content sv = (case content of ClipText _ \<Rightarrow> sv_share_text sv | ClipImage _ _ _ \<Rightarrow> sv_share_image sv)"

text \<open>A clipboard a peer sent.\<close>

definition remote_clipboard :: "clipboard_content \<Rightarrow> 'r service \<Rightarrow> 'r service" where
  "remote_clipboard content sv =
     (let echoes = sv_echoes sv @ [content];
          sv = sv\<lparr>sv_echoes := (if length echoes > 8 then tl echoes else echoes)\<rparr> in
      case content of
        ClipText text \<Rightarrow>
          if sv_share_text sv
          then emit_sv (ToEmulation (ReqPublishFileClipboard
                 [(lit ''text/plain;charset=utf-8'', text), (lit ''text/plain'', text)] (FallbackLocal content))) sv
          else emit_sv (WriteClipboard content) sv
      | ClipImage _ _ _ \<Rightarrow> emit_sv (WriteClipboard content) sv)"

text \<open>A clipboard the backend observed on this desktop.\<close>

definition native_clipboard :: "'r service_env \<Rightarrow> clipboard_content \<Rightarrow> 'r service \<Rightarrow> 'r service" where
  "native_clipboard env content sv =
     (let sv = sv\<lparr>sv_native_file_selection := False\<rparr> in
      if \<not> shares content sv then sv
      else if content \<in> set (sv_echoes sv) then sv\<lparr>sv_echoes := remove1 content (sv_echoes sv)\<rparr>
      else share_clipboard env content sv)"

text \<open>A clipboard the desktop clipboard's worker read; the branch of the loop is enabled with \<open>legacy_clipboard\<close>.\<close>

definition local_clipboard :: "'r service_env \<Rightarrow> clipboard_content \<Rightarrow> 'r service \<Rightarrow> 'r service" where
  "local_clipboard env content sv =
     (if shares content sv \<and> \<not> sv_native_file_selection sv then share_clipboard env content sv else sv)"

fun lines_of :: "rstring \<Rightarrow> rstring list" where
  "lines_of s = (if s = [] then []
     else let line = takeWhile (\<lambda>c. c \<noteq> 0x0a) s in
       (if line \<noteq> [] \<and> last line = 0x0d \<and> line \<noteq> s then butlast line else line)
       # lines_of (drop (Suc (length line)) s))"

declare lines_of.simps [simp del]

definition contains_str :: "rstring \<Rightarrow> rstring \<Rightarrow> bool" where
  "contains_str needle s = list_ex (\<lambda>i. take (length needle) (drop i s) = needle) [0..<Suc (length s)]"

definition starts_with :: "rstring \<Rightarrow> rstring \<Rightarrow> bool" where
  "starts_with p s = (take (length p) s = p)"

definition is_own_clipboard_mount :: "rstring \<Rightarrow> bool" where
  "is_own_clipboard_mount value =
     (let files = filter (starts_with (lit ''file://'')) (lines_of value) in
      list_all (\<lambda>line. contains_str (lit ''syntra/clipboard/'') line \<or> contains_str (lit ''lan%2Dmouse/clipboard/'') line) files
      \<and> files \<noteq> [])"

definition provide_clipboard_data :: "'r service_env \<Rightarrow> rstring \<Rightarrow> rstring \<Rightarrow> rstring \<Rightarrow> 'r service \<Rightarrow> 'r service" where
  "provide_clipboard_data env transfer_id mime_type value sv = (case se_clipboard_provider env of
     None \<Rightarrow> sv
   | Some provider \<Rightarrow> command_manager env (PluginClipboardData provider transfer_id mime_type value) sv)"

definition handle_native_file_clipboard :: "'r service_env \<Rightarrow> rstring \<Rightarrow> rstring \<Rightarrow> 'r service \<Rightarrow> 'r service" where
  "handle_native_file_clipboard env mime_type value sv =
     (if is_own_clipboard_mount value then sv
      else if sv_last_file_clipboard sv = Some value then sv
      else provide_clipboard_data env (lit ''remote-desktop'') mime_type value
             (sv\<lparr>sv_last_file_clipboard := Some value\<rparr>))"

section \<open>Events of the emulation\<close>

definition handle_emulation_event ::
  "'r service_env \<Rightarrow> emulation_event \<Rightarrow> 'r service \<Rightarrow> 'r service \<times> unit outcome" where
  "handle_emulation_event env event sv = (case event of
     ConnectionAttempt fingerprint \<Rightarrow> (notify_frontend (EvConnectionAttempt fingerprint) sv, Done ())
   | PeerLeft addr side along \<Rightarrow>
       (case side of
          None \<Rightarrow> sv
        | Some edge \<Rightarrow>
            let passage = \<lparr>ps_edge = edge, ps_peer = Some addr, ps_fingerprint = hm_get (sv_peer_fingerprints sv) addr,
                  ps_relayed = False, ps_along = along\<rparr> in
            notify_frontend (EvPointerLeft passage) (forward_pointer_to_plugins env passage False sv), Done ())
   | PeerEntered addr pos fingerprint first relayed along \<Rightarrow>
       if \<not> sv_input_sharing sv then (emit_sv (ToEmulation (ReqRelease addr None)) sv, Done ())
       else
         let sv = emit_sv (ToCapture (SetController (Some (fingerprint, pos)))) sv;
             passage = \<lparr>ps_edge = pos, ps_peer = Some addr, ps_fingerprint = Some fingerprint,
               ps_relayed = relayed, ps_along = along\<rparr>;
             sv = (if first then notify_frontend (EvPointerEntered passage) (forward_pointer_to_plugins env passage True sv)
                   else sv) in
         if addr \<notin> set (sv_incoming_conns sv)
         then (notify_frontend (EvDeviceEntered fingerprint addr pos) (add_incoming addr pos fingerprint sv), Done ())
         else update_incoming addr pos fingerprint sv
   | PeerDisconnected addr \<Rightarrow>
       (let (sv, removed) = remove_incoming addr (history_peer_lost env (EmulationPeer addr) sv) in
        (case removed of None \<Rightarrow> sv | Some addr \<Rightarrow> notify_frontend (EvIncomingDisconnected addr) sv, Done ()))
   | PortChanged (Some port) \<Rightarrow>
       (notify_frontend (EvPortChanged port True) (save_config env (sv\<lparr>sv_port := port\<rparr>)), Done ())
   | PortChanged None \<Rightarrow> (notify_frontend (EvPortChanged (sv_port sv) False) sv, Done ())
   | EmulationDisabled \<Rightarrow> (notify_frontend (EvEmulationStatus False) (sv\<lparr>sv_emulation_enabled := False\<rparr>), Done ())
   | EmulationEnabled backend \<Rightarrow>
       (notify_frontend (EvEmulationStatus True) (notify_frontend EvDaemonInfo (sv\<lparr>sv_emulation_enabled := True\<rparr>)), Done ())
   | ReleaseNotify \<Rightarrow> (emit_sv (ToCapture Release) sv, Done ())
   | NoLongerControlled \<Rightarrow> (emit_sv (ToCapture (SetController None)) sv, Done ())
   | PointerEdgeEvent _ _ _ \<Rightarrow> (sv, Done ())
   | PeerConnected addr fingerprint \<Rightarrow>
       (let sv = sv\<lparr>sv_peer_fingerprints := hm_insert addr fingerprint (sv_peer_fingerprints sv)\<rparr>;
            sv = refresh_manual_routes env sv;
            sv = sv\<lparr>sv_history_connected := List.insert (EmulationPeer addr) (sv_history_connected sv)\<rparr>;
            sv = notify_frontend (EvDeviceConnected addr fingerprint) sv;
            sv = request_profile env fingerprint (EmulationPeer addr) sv in
        (request_history_sync (EmulationPeer addr) 0 sv, Done ()))
   | PeerHello addr commit \<Rightarrow>
       (case cm_get_client addr (sv_clients sv) of
          None \<Rightarrow> sv
        | Some h \<Rightarrow> broadcast_client h (sv\<lparr>sv_clients := cm_set_peer_commit h (Some commit) (sv_clients sv)\<rparr>), Done ())
   | RemoteClipboard content \<Rightarrow> (remote_clipboard content sv, Done ())
   | NativeClipboard content \<Rightarrow> (native_clipboard env content sv, Done ())
   | NativeFileClipboard mime_type value \<Rightarrow>
       (handle_native_file_clipboard env mime_type value (sv\<lparr>sv_native_file_selection := True\<rparr>), Done ())
   | PublicationFallback (FallbackLocal content) \<Rightarrow> (emit_sv (WriteClipboard content) sv, Done ())
   | PublicationFallback (FallbackAdapter transfer_id operation uris) \<Rightarrow>
       (case se_clipboard_provider env of
          None \<Rightarrow> sv
        | Some provider \<Rightarrow> command_manager env (PluginPublish provider transfer_id operation uris) sv, Done ())
   | ClipboardProtocol addr event \<Rightarrow> (handle_peer_protocol env (EmulationPeer addr) event sv, Done ()))"

section \<open>Events of the capture task\<close>

definition configured_handle :: "icapture_event \<Rightarrow> client_id option" where
  "configured_handle event = (case event of
     ClipboardReceived h _ _ \<Rightarrow> Some h
   | PeerAuthenticated h _ \<Rightarrow> Some h
   | FileClipboard h _ _ \<Rightarrow> Some h
   | PeerStateChanged h \<Rightarrow> Some h
   | ClientEntered h \<Rightarrow> Some h
   | _ \<Rightarrow> None)"

definition peer_authenticated :: "'r service_env \<Rightarrow> client_id \<Rightarrow> rstring \<Rightarrow> 'r service \<Rightarrow> 'r service" where
  "peer_authenticated env h fingerprint sv =
     (let changed = hm_get (sv_capture_fingerprints sv) h \<noteq> Some fingerprint;
          sv = sv\<lparr>sv_capture_fingerprints := hm_insert h fingerprint (sv_capture_fingerprints sv)\<rparr>;
          sv = refresh_manual_routes env sv in
      if \<not> changed then sv
      else
        let sv = (if cm_peer_fingerprint h (sv_clients sv) \<noteq> Some fingerprint
                  then save_config env (sv\<lparr>sv_clients := cm_set_peer_fingerprint h fingerprint (sv_clients sv)\<rparr>) else sv);
            sv = publish_peer_sides env sv;
            sv = notify_frontend (EvClientFingerprint h fingerprint) sv in
        request_profile env fingerprint (CapturePeer h) sv)"

definition peer_state_changed :: "'r service_env \<Rightarrow> client_id \<Rightarrow> 'r service \<Rightarrow> 'r service" where
  "peer_state_changed env h sv =
     (let sv = publish_peer_availability (broadcast_client h sv) in
      if cm_alive h (sv_clients sv) then
        if CapturePeer h \<notin> set (sv_history_connected sv)
        then request_history_sync (CapturePeer h) 0
               (sv\<lparr>sv_history_connected := List.insert (CapturePeer h) (sv_history_connected sv)\<rparr>)
        else sv
      else history_peer_lost env (CapturePeer h) sv)"

definition hand_on ::
  "rstring \<Rightarrow> rstring \<Rightarrow> position \<Rightarrow> f32_bits option \<Rightarrow> 'r service \<Rightarrow> 'r service" where
  "hand_on controller target side along sv =
     (case find (\<lambda>(_, i). in_fingerprint i = controller) (sv_incoming sv) of
        None \<Rightarrow> sv
      | Some (_, i) \<Rightarrow>
          if target = controller then emit_sv (ToEmulation (ReqRelease (in_addr i) along)) sv
          else emit_sv (ToEmulation (ReqSendProto (in_addr i) (Handoff target side))) sv)"

definition capture_begin :: "'r service_env \<Rightarrow> client_id \<Rightarrow> f32_bits option \<Rightarrow> 'r service \<Rightarrow> 'r service" where
  "capture_begin env h along sv = (case hm_get (sv_incoming sv) h of
     None \<Rightarrow> sv
   | Some i \<Rightarrow>
       let sv = emit_sv (ToCapture (SetController None)) sv;
           pos = capture_position h sv;
           beyond = Option.bind pos (\<lambda>pos. fingerprint_at pos sv) in
       case (pos, beyond) of
         (Some pos, Some target) \<Rightarrow>
           if se_multi_hop env \<and> target \<noteq> in_fingerprint i
           then emit_sv (ToEmulation (ReqSendProto (in_addr i) (Handoff target (to_proto_pos pos)))) sv
           else emit_sv (ToEmulation (ReqRelease (in_addr i) along)) sv
       | _ \<Rightarrow> emit_sv (ToEmulation (ReqRelease (in_addr i) along)) sv)"

definition local_passage :: "'r service_env \<Rightarrow> edge \<Rightarrow> f32_bits option \<Rightarrow> bool \<Rightarrow> 'r service \<Rightarrow> 'r service" where
  "local_passage env edge along entered sv =
     (let passage = \<lparr>ps_edge = edge, ps_peer = None, ps_fingerprint = None, ps_relayed = False, ps_along = along\<rparr> in
      notify_frontend (if entered then EvPointerEntered passage else EvPointerLeft passage)
        (forward_pointer_to_plugins env passage entered sv))"

definition capture_event_action :: "'r service_env \<Rightarrow> icapture_event \<Rightarrow> 'r service \<Rightarrow> 'r service" where
  "capture_event_action env event sv = (case event of
     ClipboardReceived h fingerprint message \<Rightarrow>
       handle_peer_protocol env (CapturePeer h) message (refresh_manual_routes env
         (sv\<lparr>sv_capture_fingerprints := hm_insert h fingerprint (sv_capture_fingerprints sv)\<rparr>))
   | PeerAuthenticated h fingerprint \<Rightarrow> peer_authenticated env h fingerprint sv
   | FileClipboard h mime_type value \<Rightarrow>
       if is_own_clipboard_mount value then sv
       else provide_clipboard_data env (lit ''portal-'' @ dec_u64 h) mime_type value sv
   | PeerLost h \<Rightarrow>
       (let (ts, actions) = ts_peer_lost (sv_transfers sv) (CapturePeer h);
            sv = history_peer_lost env (CapturePeer h) (sv\<lparr>sv_transfers := ts\<rparr>) in
        if actions = [] then sv else execute_transfer_actions env actions sv)
   | PeerStateChanged h \<Rightarrow> peer_state_changed env h sv
   | StepInside edge \<Rightarrow> emit_sv (ToEmulation (ReqStepInside edge)) sv
   | PlacePointer edge \<Rightarrow> emit_sv (ToEmulation (ReqPlacePointer edge)) sv
   | HandOn controller target side along \<Rightarrow> hand_on controller target side along sv
   | CaptureBegin h along \<Rightarrow> capture_begin env h along sv
   | PointerReturned edge along \<Rightarrow> local_passage env edge along True sv
   | PointerLeft edge along \<Rightarrow> local_passage env edge along False sv
   | EdgePressure edge amount along \<Rightarrow> forward_pressure_to_plugins env edge along amount sv
   | CaptureDisabled \<Rightarrow>
       emit_sv (ToEmulation (ReqCaptureReady False))
         (notify_frontend (EvCaptureStatus False) (sv\<lparr>sv_capture_enabled := False\<rparr>))
   | CaptureEnabled backend \<Rightarrow>
       emit_sv (ToEmulation (ReqCaptureReady True))
         (notify_frontend (EvCaptureStatus True) (notify_frontend EvDaemonInfo (sv\<lparr>sv_capture_enabled := True\<rparr>)))
   | ClientEntered h \<Rightarrow>
       (let sv = emit_sv (ToEmulation ReqHidePointer) sv in
        if \<not> sv_input_sharing sv then sv
        else let sv = spawn_hook_command h sv in
          if sv_legacy_clipboard sv then emit_sv ReadClipboard sv else sv))"

definition handle_icapture_event :: "'r service_env \<Rightarrow> icapture_event \<Rightarrow> 'r service \<Rightarrow> 'r service" where
  "handle_icapture_event env event sv =
     (case configured_handle event of
        Some h \<Rightarrow> if cm_contains h (sv_clients sv) then capture_event_action env event sv else sv
      | None \<Rightarrow> capture_event_action env event sv)"

section \<open>Results of file work, and the timer\<close>

record source_result =
  sr_owner :: "service_peer transfer_owner"
  sr_file_id :: u64
  sr_request_id :: u64
  sr_offset :: u64
  sr_length :: u64
  sr_result :: "(source_map outgoing_file \<times> (u64 \<times> bytes) option \<times> bytes option) option"

definition handle_source_result :: "'r service_env \<Rightarrow> source_result \<Rightarrow> 'r service \<Rightarrow> 'r service" where
  "handle_source_result env r sv =
     (let sv = (case sr_result r of
          Some (file, Some (offset, data), digest) \<Rightarrow>
            (let (ts, inserted) = ts_insert_outgoing_file (sv_transfers sv) (sr_owner r) (sr_file_id r) (sr_request_id r)
                   (sr_offset r) (sr_length r) file;
                 sv = sv\<lparr>sv_transfers := ts\<rparr>;
                 sent = rbind inserted (\<lambda>_. ts_source_chunk ts (sr_owner r) (sr_file_id r) (sr_request_id r) offset data) in
             case sent of
               Inl _ \<Rightarrow> sv
             | Inr actions \<Rightarrow>
                 let sv = execute_transfer_actions env actions sv in
                 (case digest of
                    None \<Rightarrow> sv
                  | Some digest \<Rightarrow> run_transfers env (ts_source_complete (sv_transfers sv) (sr_owner r) (sr_file_id r)
                      (sr_request_id r) (sr_offset r + sr_length r) digest) sv))
        | _ \<Rightarrow> sv) in
      sv\<lparr>sv_transfers := ts_source_range_served (sv_transfers sv) (sr_owner r) (sr_file_id r) (sr_request_id r)\<rparr>)"

record manifest_offer =
  mo_generation :: u64
  mo_adapter_id :: rstring
  mo_transfer_id :: rstring
  mo_operation :: operation
  mo_offer :: "source_map file_offer option"

primrec offer_to_clients ::
  "manifest_offer \<Rightarrow> source_map file_offer \<Rightarrow> client_id list \<Rightarrow> 'r service \<times> (service_peer, source_map) transfer_action list
     \<Rightarrow> 'r service \<times> (service_peer, source_map) transfer_action list" where
  "offer_to_clients m offer [] r = r"
| "offer_to_clients m offer (h # hs) r =
     (let sv = fst r;
          wire_id = max (sv_next_clipboard_transfer sv + 1) 1;
          sv = sv\<lparr>sv_next_clipboard_transfer := wire_id\<rparr>;
          (ts, answer) = ts_local_copy_manifest (sv_transfers sv) (CapturePeer h) wire_id (mo_adapter_id m)
            (mo_transfer_id m) (mo_operation m) (offer\<lparr>fo_transfer_id := wire_id\<rparr>) in
      offer_to_clients m offer hs (sv\<lparr>sv_transfers := ts\<rparr>,
        snd r @ (case answer of Inl _ \<Rightarrow> [] | Inr actions \<Rightarrow> actions)))"

definition handle_manifest_offer :: "'r service_env \<Rightarrow> manifest_offer \<Rightarrow> 'r service \<Rightarrow> 'r service" where
  "handle_manifest_offer env m sv =
     (if mo_generation m \<noteq> sv_manifest_generation sv then sv
      else case mo_offer m of
        None \<Rightarrow> sv
      | Some offer \<Rightarrow>
          let (sv, actions) = offer_to_clients m offer (cm_clipboard_clients (sv_clients sv)) (sv, []) in
          execute_transfer_actions env actions sv)"

text \<open>The timer that runs every second.\<close>

definition service_tick :: "'r service_env \<Rightarrow> 'r service \<Rightarrow> 'r service" where
  "service_tick env sv =
     (let sv = publish_round_trips (retry_profiles env sv);
          (manual, actions) = mt_tick (sv_manual sv) (se_now env);
          sv = refresh_manual_routes env (execute_manual_actions actions (sv\<lparr>sv_manual := manual\<rparr>)) in
      sv\<lparr>sv_history_reassembler := fst (ra_expire (sv_history_reassembler sv) (se_now env))\<rparr>)"

end
