(* ===== verification/Service_Frame.thy ===== *)
theory Service_Frame
  imports Service_Input
begin

text \<open>
  What most handlers of the service leave alone. A view of the state that neither a change of the tables of
  profiles, pages, transfers and settings nor a message to another task touches is kept by every handler
  except those of the routes, of the authentication of devices and of remote clipboards; the locale proves it once for every
  such view, and its interpretations choose the view.
\<close>

locale service_view =
  fixes view :: "'r service \<Rightarrow> 'v"
  assumes updates [simp]:
    "view (sv\<lparr>sv_authorized_keys := x1\<rparr>) = view sv" "view (sv\<lparr>sv_port := x2\<rparr>) = view sv"
    "view (sv\<lparr>sv_capture_enabled := b1\<rparr>) = view sv" "view (sv\<lparr>sv_emulation_enabled := b2\<rparr>) = view sv"
    "view (sv\<lparr>sv_input_sharing := b3\<rparr>) = view sv" "view (sv\<lparr>sv_peer_fingerprints := x3\<rparr>) = view sv"
    "view (sv\<lparr>sv_local_profile := x5\<rparr>) = view sv" "view (sv\<lparr>sv_profile_reassembler := x6\<rparr>) = view sv"
    "view (sv\<lparr>sv_peer_profiles := x7\<rparr>) = view sv" "view (sv\<lparr>sv_profile_requests := x8\<rparr>) = view sv"
    "view (sv\<lparr>sv_history_reassembler := x9\<rparr>) = view sv" "view (sv\<lparr>sv_history_clear := x10\<rparr>) = view sv"
    "view (sv\<lparr>sv_history_connected := x11\<rparr>) = view sv" "view (sv\<lparr>sv_next_history_request := x12\<rparr>) = view sv"
    "view (sv\<lparr>sv_history_progress := x13\<rparr>) = view sv" "view (sv\<lparr>sv_shown_round_trips := x14\<rparr>) = view sv"
    "view (sv\<lparr>sv_next_clipboard_transfer := x16\<rparr>) = view sv" "view (sv\<lparr>sv_transfers := x17\<rparr>) = view sv"
    "view (sv\<lparr>sv_manual := x18\<rparr>) = view sv" "view (sv\<lparr>sv_manifest_generation := x19\<rparr>) = view sv"
    "view (sv\<lparr>sv_transfer_providers := x20\<rparr>) = view sv" "view (sv\<lparr>sv_announced := x21\<rparr>) = view sv"
    "view (sv\<lparr>sv_transfer_progress := x22\<rparr>) = view sv" "view (sv\<lparr>sv_last_file_clipboard := x23\<rparr>) = view sv"
    "view (sv\<lparr>sv_native_file_selection := b4\<rparr>) = view sv"
  and emissions [simp]:
    "view (emit_sv (ToEmulation er) sv) = view sv" "view (emit_sv (ToFrontend ev) sv) = view sv" "view (emit_sv (ToPlugin c) sv) = view sv"
    "view (emit_sv (ToResolver h n) sv) = view sv" "view (emit_sv (SpawnHook s) sv) = view sv"
    "view (emit_sv (WriteClipboard k) sv) = view sv" "view (emit_sv ReadClipboard sv) = view sv"
    "view (emit_sv (ReadSource ow a b c' d f) sv) = view sv" "view (emit_sv (ImportRecord x) sv) = view sv"
    "view (emit_sv (SaveConfig l keys) sv) = view sv" "view (emit_sv (ToCapture Release) sv) = view sv"
    "view (emit_sv (ToCapture (SetController k')) sv) = view sv" "view (emit_sv (ToCapture (SendProto h e)) sv) = view sv"
    "view (emit_sv (ToCapture (SendClipboard h t dat i)) sv) = view sv" "view (emit_sv (ToCapture (SetReleaseBind l')) sv) = view sv"
    "view (emit_sv (ToCapture Reenable) sv) = view sv"
begin

lemma fold_kept: "(\<And>x sv. view (f x sv) = view sv) \<Longrightarrow> view (fold f xs sv) = view sv"
  by (induction xs arbitrary: sv) simp_all

lemma notify_kept [simp]: "view (notify_frontend ev sv) = view sv"
  by (simp add: notify_frontend_def)

lemma send_peer_kept [simp]: "view (send_peer p e sv) = view sv"
  by (simp add: send_peer_def split: service_peer.split)

lemma send_peer_all_kept [simp]: "view (send_peer_all p es sv) = view sv"
  by (induction es arbitrary: sv) simp_all

lemma next_id_kept [simp]: "view (fst (next_history_request_id sv)) = view sv"
  by (simp add: next_history_request_id_def Let_def)

lemma manual_kept [simp]: "view (execute_manual_actions actions sv) = view sv"
  unfolding execute_manual_actions_def by (rule fold_kept) (simp add: manual_act_def split: manual_action.split)

lemma refresh_kept [simp]: "view (refresh_manual_routes env sv) = view sv"
  by (simp add: refresh_manual_routes_def split: prod.split)

lemma transfer_frontend_kept [simp]: "view (notify_transfer_frontend event sv) = view sv"
  by (simp add: notify_transfer_frontend_def transfer_ended_def split: Transfer_State.frontend_event.split)

lemma command_kept [simp]: "view (command_manager env c sv) = view sv"
  by (simp add: command_manager_def)

lemma adapter_act_kept [simp]: "view (adapter_act env a m sv) = view sv"
  by (simp add: adapter_act_def split: adapter_message.split option.split)

lemma start_mounted_kept [simp]: "view (fst (start_mounted_receive env t op es sv)) = view sv"
  by (simp add: start_mounted_receive_def split: option.split)

lemma transfer_acts_kept [simp]: "view (transfer_acts d env actions sv) = view sv"
proof (induction d arbitrary: actions sv)
  case 0
  have mount: "view (case start_mounted_receive env t op es x of (y, b) \<Rightarrow> y) = view x" for t op es x
    using start_mounted_kept by (simp add: case_prod_beta)
  show ?case
  proof (induction actions arbitrary: sv)
    case (Cons action actions)
    show ?case
    proof (cases action)
      case (ActAdapter a m)
      with Cons mount show ?thesis by (cases m) (simp_all add: Let_def case_prod_beta)
    qed (simp_all add: Cons)
  qed simp
next
  case (Suc d)
  show ?case
  proof (induction actions arbitrary: sv)
    case (Cons action actions)
    show ?case
    proof (cases action)
      case (ActAdapter a m)
      with Cons Suc show ?thesis by (cases m) (simp_all add: Let_def case_prod_beta)
    qed (simp_all add: Cons)
  qed simp
qed

lemma execute_kept [simp]: "view (execute_transfer_actions env actions sv) = view sv"
  by (simp add: execute_transfer_actions_def)

lemma publish_kept [simp]:
  "view (publish_peer_availability sv) = view sv" "view (publish_peer_sides env sv) = view sv"
  "view (save_config env sv) = view sv"
  by (simp_all add: publish_peer_availability_def publish_peer_sides_def save_config_def)

lemma forward_kept [simp]:
  "view (forward_pointer_to_plugins env p b sv) = view sv"
  "view (forward_pressure_to_plugins env e a m sv) = view sv"
  by (simp_all add: forward_pointer_to_plugins_def forward_pressure_to_plugins_def fold_kept)

text \<open>The protocol between peers.\<close>

lemma request_profile_kept [simp]: "view (request_profile env f p sv) = view sv"
  using next_id_kept [of sv] by (simp add: request_profile_def Let_def case_prod_beta)

lemma retry_profile_kept [simp]: "view (retry_profile env routes x sv) = view sv"
  by (simp add: retry_profile_def Let_def case_prod_beta split: option.split)

lemma retry_profiles_kept [simp]: "view (retry_profiles env sv) = view sv"
  by (simp add: retry_profiles_def Let_def fold_kept)

lemma profile_result_kept [simp]: "view (profile_result env f r sv) = view sv"
  by (simp add: profile_result_def accept_profile_def Let_def split: prod.split sum.split option.split)

lemma history_kept [simp]:
  "view (request_history_sync p n sv) = view sv"
  "view (broadcast_history_record env rec sv) = view sv"
  "view (send_history_page env p r n sv) = view sv"
  "view (history_page_end p r m sv) = view sv"
  by (simp_all add: request_history_sync_def broadcast_history_record_def send_history_page_def history_page_end_def
      Let_def case_prod_beta fold_kept split: sum.split option.split)

lemma clear_kept [simp]:
  "view (start_global_history_clear env sv) = view sv"
  "view (clear_boundary_answer env f op b sv) = view sv"
  "view (clear_ack_answer f op n e sv) = view sv"
  "view (history_clear_deadline env sv) = view sv"
  by (simp_all add: start_global_history_clear_def clear_boundary_answer_def clear_ack_answer_def history_clear_deadline_def
      finish_local_only_clear_def Let_def case_prod_beta fold_kept split: sum.split option.split)

lemma run_transfers_kept [simp]: "view (run_transfers env r sv) = view sv"
  by (simp add: run_transfers_def Let_def split: prod.split sum.split)

lemma file_protocol_kept [simp]: "view (handle_file_protocol env p e sv) = view sv"
  by (simp add: handle_file_protocol_def split: proto_event.split)

lemma manual_protocol_kept [simp]: "view (manual_protocol env p f e sv) = view sv"
  by (simp add: manual_protocol_def split: prod.split)

lemma peer_message_kept [simp]: "view (peer_message env p f e sv) = view sv"
  by (cases e) (simp_all add: peer_message_def Let_def case_prod_beta split: sum.split option.split)

lemma peer_protocol_kept [simp]: "view (handle_peer_protocol env p e sv) = view sv"
  by (simp add: handle_peer_protocol_def split: option.split)

text \<open>Clipboards, passages of the pointer, file work.\<close>

lemma clipboard_kept [simp]:
  "view (record_local_history env k sv) = view sv" "view (share_with k h sv) = view sv"
  "view (provide_clipboard_data env a b v sv) = view sv"
  "view (handle_native_file_clipboard env a v sv) = view sv"
  by (simp_all add: record_local_history_def share_with_def provide_clipboard_data_def
      handle_native_file_clipboard_def Let_def split: option.split)

lemma share_kept [simp]: "view (share_clipboard env k sv) = view sv"
  by (simp add: share_clipboard_def Let_def fold_kept)

lemma broadcast_kept [simp]: "view (broadcast_client h sv) = view sv"
  by (simp add: broadcast_client_def)

lemma resolve_kept [simp]: "view (sv_resolve h sv) = view sv"
  by (simp add: sv_resolve_def split: option.split)

lemma local_clipboard_kept [simp]: "view (local_clipboard env k sv) = view sv"
  by (simp add: local_clipboard_def)

lemma passage_kept [simp]:
  "view (hand_on a a2 s l sv) = view sv" "view (capture_begin env h l sv) = view sv"
  "view (local_passage env e l b sv) = view sv" "view (spawn_hook_command h sv) = view sv"
  by (simp_all add: hand_on_def capture_begin_def local_passage_def spawn_hook_command_def Let_def
      split: option.split prod.split)

lemma source_result_kept [simp]: "view (handle_source_result env r sv) = view sv"
  by (simp add: handle_source_result_def Let_def case_prod_beta split: option.split prod.split sum.split)

lemma offers_kept: "view (fst (offer_to_clients m f hs r)) = view (fst r)"
  by (induction hs arbitrary: r) (simp_all add: Let_def case_prod_beta)

lemma manifest_offer_kept [simp]: "view (handle_manifest_offer env m sv) = view sv"
  by (simp add: handle_manifest_offer_def case_prod_beta offers_kept split: option.split)

lemma round_trip_kept: "view (publish_round_trip h sv) = view sv"
  by (simp add: publish_round_trip_def Let_def)

lemma tick_kept [simp]: "view (service_tick env sv) = view sv"
  by (simp add: service_tick_def publish_round_trips_def Let_def case_prod_beta fold_kept round_trip_kept)

end

end
