(* ===== verification/Service_Invariant.thy ===== *)
theory Service_Invariant
  imports Service_Frame
begin

text \<open>
  The invariant of the routes: the barriers the service has asked the capture task for are exactly those of its
  active devices and its incoming connections. Most handlers leave the routes alone; \<open>route_view\<close> is what the invariant
  depends on, and the simplifier shows that a handler keeps it.
\<close>

section \<open>The barriers asked for\<close>

text \<open>What a request does to the captures of the capture task: \<open>add_capture\<close> and \<open>remove_capture\<close>.\<close>

definition captures_step ::
  "capture_request \<Rightarrow> (capture_handle \<times> edge \<times> capture_type) list \<Rightarrow> (capture_handle \<times> edge \<times> capture_type) list" where
  "captures_step request captures = (case request of
     Create h pos kind \<Rightarrow> captures @ [(h, pos, kind)]
   | Destroy h \<Rightarrow> filter (\<lambda>(h', _). h \<noteq> h') captures
   | _ \<Rightarrow> captures)"

definition effect_step ::
  "'r service_effect \<Rightarrow> (capture_handle \<times> edge \<times> capture_type) list \<Rightarrow> (capture_handle \<times> edge \<times> capture_type) list" where
  "effect_step e captures = (case e of ToCapture request \<Rightarrow> captures_step request captures | _ \<Rightarrow> captures)"

definition requested :: "'r service_effect list \<Rightarrow> (capture_handle \<times> edge \<times> capture_type) list" where
  "requested effects = fold effect_step effects []"

definition route_view :: "'r service \<Rightarrow> client_manager \<times> socket_addr list \<times> (client_id, incoming_peer) hash_map \<times> u64
    \<times> (capture_handle \<times> edge \<times> capture_type) list" where
  "route_view sv = (sv_clients sv, sv_incoming_conns sv, sv_incoming sv, sv_next_trigger_handle sv, requested (sv_trace sv))"

lemma requested_Nil [simp]: "requested [] = []"
  by (simp add: requested_def)

lemma requested_snoc [simp]: "requested (effects @ [e]) = effect_step e (requested effects)"
  by (simp add: requested_def)

lemma requested_emit [simp]: "requested (sv_trace (emit_sv e sv)) = effect_step e (requested (sv_trace sv))"
  by (simp add: requested_def emit_sv_def)

lemma emit_fields [simp]:
  "sv_clients (emit_sv e sv) = sv_clients sv" "sv_incoming_conns (emit_sv e sv) = sv_incoming_conns sv"
  "sv_incoming (emit_sv e sv) = sv_incoming sv" "sv_next_trigger_handle (emit_sv e sv) = sv_next_trigger_handle sv"
  by (simp_all add: emit_sv_def)

lemma effect_step_simps [simp]:
  "effect_step (ToCapture request) captures = captures_step request captures"
  "effect_step (ToEmulation er) captures = captures" "effect_step (ToFrontend ev) captures = captures"
  "effect_step (ToPlugin c) captures = captures" "effect_step (ToResolver h n) captures = captures"
  "effect_step (SpawnHook s) captures = captures" "effect_step (WriteClipboard k) captures = captures"
  "effect_step ReadClipboard captures = captures" "effect_step (ReadSource ow a b c' d f) captures = captures"
  "effect_step (ImportRecord x) captures = captures" "effect_step (SaveConfig l keys) captures = captures"
  by (simp_all add: effect_step_def)

lemma captures_step_simps [simp]:
  "captures_step Release captures = captures" "captures_step (SetController k) captures = captures"
  "captures_step (SendProto h e) captures = captures" "captures_step (SendClipboard h t d i) captures = captures"
  "captures_step (SetReleaseBind l) captures = captures" "captures_step Reenable captures = captures"
  by (simp_all add: captures_step_def)

interpretation routes: service_view route_view
  by unfold_locales (simp_all add: route_view_def)

lemma route_view_updates [simp]:
  "route_view (sv\<lparr>sv_capture_fingerprints := x4\<rparr>) = route_view sv"
  "route_view (sv\<lparr>sv_echoes := x15\<rparr>) = route_view sv"
  by (simp_all add: route_view_def)

lemma peer_lost_view [simp]: "route_view (history_peer_lost env p sv) = route_view sv"
  by (simp add: history_peer_lost_def Let_def split: option.split service_peer.split)

lemma clipboards_view [simp]:
  "route_view (remote_clipboard k sv) = route_view sv" "route_view (native_clipboard env k sv) = route_view sv"
  by (simp_all add: remote_clipboard_def native_clipboard_def Let_def split: clipboard_content.split)

lemma state_changed_view [simp]: "route_view (peer_state_changed env h sv) = route_view sv"
  by (simp add: peer_state_changed_def Let_def)

section \<open>The invariant\<close>

definition active_at :: "client_id \<Rightarrow> edge \<Rightarrow> client_manager \<Rightarrow> bool" where
  "active_at h pos cm = (case cm_get_state h cm of None \<Rightarrow> False | Some (c, s) \<Rightarrow> cst_active s \<and> cfg_pos c = pos)"

definition ips_ok :: "client_config \<times> client_state \<Rightarrow> bool" where
  "ips_ok e = (cst_ips (snd e) = set (cfg_fix_ips (fst e)) \<union> set (cst_dns_ips (snd e)))"

text \<open>The devices: one active device per edge at most, and the addresses of a device are its fixed and its resolved ones.\<close>

definition devices_ok :: "client_manager \<Rightarrow> bool" where
  "devices_ok cm \<longleftrightarrow> cm_inv cm \<and> (\<forall>h h' pos. active_at h pos cm \<and> active_at h' pos cm \<longrightarrow> h = h') \<and>
     (\<forall>h e. cm_get_state h cm = Some e \<longrightarrow> ips_ok e)"

text \<open>The incoming connections: one entry per address, under handles that the counter has issued.\<close>

definition incoming_ok :: "nat \<Rightarrow> 'r service \<Rightarrow> bool" where
  "incoming_ok n sv \<longleftrightarrow> hm_ok (sv_incoming sv) \<and> unat (sv_next_trigger_handle sv) \<le> n \<and>
     set (sv_incoming_conns sv) = (in_addr \<circ> snd) ` set (sv_incoming sv) \<and> inj_on (in_addr \<circ> snd) (set (sv_incoming sv)) \<and>
     (\<forall>h \<in> fst ` set (sv_incoming sv). 2 ^ 63 \<le> unat h \<and> unat h < 2 ^ 63 + unat (sv_next_trigger_handle sv))"

text \<open>The barrier a handle should have.\<close>

definition barrier_of :: "'r service \<Rightarrow> client_id \<Rightarrow> (edge \<times> capture_type) option" where
  "barrier_of sv h = (case hm_get (sv_incoming sv) h of
     Some i \<Rightarrow> Some (in_pos i, EnterOnly)
   | None \<Rightarrow> (case cm_get_state h (sv_clients sv) of
       Some (c, s) \<Rightarrow> if cst_active s then Some (cfg_pos c, DefaultCapture) else None
     | None \<Rightarrow> None))"

definition barriers_exact :: "'r service \<Rightarrow> bool" where
  "barriers_exact sv \<longleftrightarrow> hm_ok (requested (sv_trace sv)) \<and> (\<forall>h. hm_get (requested (sv_trace sv)) h = barrier_of sv h)"

definition routes_inv :: "nat \<Rightarrow> 'r service \<Rightarrow> bool" where
  "routes_inv n sv \<longleftrightarrow> devices_ok (sv_clients sv) \<and> incoming_ok n sv \<and> barriers_exact sv"

lemma routes_inv_view:
  "route_view sv' = route_view sv \<Longrightarrow> routes_inv n sv' = routes_inv n sv"
proof -
  assume "route_view sv' = route_view sv"
  then have same: "sv_clients sv' = sv_clients sv" "sv_incoming_conns sv' = sv_incoming_conns sv"
    "sv_incoming sv' = sv_incoming sv" "sv_next_trigger_handle sv' = sv_next_trigger_handle sv"
    "requested (sv_trace sv') = requested (sv_trace sv)" by (simp_all add: route_view_def)
  show ?thesis unfolding routes_inv_def incoming_ok_def barriers_exact_def barrier_of_def same by (rule refl)
qed

lemma notify_inv [simp]: "routes_inv n (notify_frontend ev sv) = routes_inv n sv"
  by (rule routes_inv_view) simp

lemma routes_inv_mono: "routes_inv n sv \<Longrightarrow> n \<le> m \<Longrightarrow> routes_inv m sv"
  by (auto simp: routes_inv_def incoming_ok_def)

lemma routes_inv_cm [simp]: "routes_inv n sv \<Longrightarrow> cm_inv (sv_clients sv)"
  by (simp add: routes_inv_def devices_ok_def)

lemma hm_append_new: "hm_get m h = None \<Longrightarrow> m @ [(h, v)] = hm_insert h v m"
  by (induction m) (auto simp: hm_get_def split: if_splits)

lemma capture_created: "hm_get caps h = None \<Longrightarrow> captures_step (Create h pos kind) caps = hm_insert h (pos, kind) caps"
  by (simp add: captures_step_def hm_append_new)

lemma capture_destroyed: "captures_step (Destroy h) caps = hm_remove h caps"
  by (auto simp: captures_step_def hm_remove_def hm_retain_def intro!: filter_cong)

text \<open>Configured handles lie below those of the incoming connections.\<close>

lemma low_not_incoming:
  assumes "routes_inv n sv" "h < ENTER_HANDLE_BEGIN" shows "hm_get (sv_incoming sv) h = None"
proof (rule ccontr)
  assume "hm_get (sv_incoming sv) h \<noteq> None"
  then have "h \<in> fst ` set (sv_incoming sv)" by (simp add: hm_get_None del: not_None_eq)
  then have "2 ^ 63 \<le> unat h" using assms(1) unfolding routes_inv_def incoming_ok_def by blast
  with assms(2) show False by (simp add: enter_handle_begin word_less_nat_alt)
qed

lemma configured_low:
  assumes "cm_inv cm" "cm_contains h cm" shows "h < ENTER_HANDLE_BEGIN"
proof -
  have "h < cm_next_handle cm" "cm_next_handle cm \<le> ENTER_HANDLE_BEGIN" using assms unfolding cm_inv_def by blast+
  then show ?thesis by simp
qed

text \<open>An operation of the table that changes one entry: what becomes of the invariant, with the requests that go with it.\<close>

definition entry_changed ::
  "client_id \<Rightarrow> (client_config \<times> client_state) option \<Rightarrow> 'r service \<Rightarrow> 'r service \<Rightarrow> bool" where
  "entry_changed h e sv sv' \<longleftrightarrow> cm_inv (sv_clients sv') \<and>
     (\<forall>k. cm_get_state k (sv_clients sv') = (if k = h then e else cm_get_state k (sv_clients sv))) \<and>
     sv_incoming sv' = sv_incoming sv \<and> sv_incoming_conns sv' = sv_incoming_conns sv \<and>
     sv_next_trigger_handle sv' = sv_next_trigger_handle sv"

lemma active_at_changed:
  "entry_changed h e sv sv' \<Longrightarrow> active_at k pos (sv_clients sv') =
     (if k = h then (case e of None \<Rightarrow> False | Some (c, s) \<Rightarrow> cst_active s \<and> cfg_pos c = pos) else active_at k pos (sv_clients sv))"
  by (simp add: entry_changed_def active_at_def)

lemma routes_inv_changed:
  assumes inv: "routes_inv n sv" and ch: "entry_changed h e sv sv'"
    and low: "h < ENTER_HANDLE_BEGIN" and ips: "\<And>x. e = Some x \<Longrightarrow> ips_ok x"
    and unique: "\<And>c s k. e = Some (c, s) \<Longrightarrow> cst_active s \<Longrightarrow> k \<noteq> h \<Longrightarrow> \<not> active_at k (cfg_pos c) (sv_clients sv)"
    and req: "hm_ok (requested (sv_trace sv'))"
      "\<And>k. k \<noteq> h \<Longrightarrow> hm_get (requested (sv_trace sv')) k = hm_get (requested (sv_trace sv)) k"
      "hm_get (requested (sv_trace sv')) h = (case e of None \<Rightarrow> None
        | Some (c, s) \<Rightarrow> if cst_active s then Some (cfg_pos c, DefaultCapture) else None)"
  shows "routes_inv n sv'"
proof -
  note not_in = low_not_incoming [OF inv low]
  have "devices_ok (sv_clients sv')"
    unfolding devices_ok_def
  proof (intro conjI allI impI)
    show "cm_inv (sv_clients sv')" using ch by (simp add: entry_changed_def)
    fix k k' pos assume "active_at k pos (sv_clients sv') \<and> active_at k' pos (sv_clients sv')"
    then have both: "active_at k pos (sv_clients sv')" "active_at k' pos (sv_clients sv')" by simp_all
    have other: "x = h \<or> active_at x pos (sv_clients sv)" if "active_at x pos (sv_clients sv')" for x
      using that by (auto simp: active_at_changed [OF ch] split: if_splits)
    have alone: "\<not> active_at x pos (sv_clients sv)" if "active_at h pos (sv_clients sv')" "x \<noteq> h" for x
      using that unique by (auto simp: active_at_changed [OF ch] split: option.splits)
    have old: "x = y" if "active_at x pos (sv_clients sv)" "active_at y pos (sv_clients sv)" for x y
      using inv that unfolding routes_inv_def devices_ok_def by blast
    show "k = k'" using both other alone old by metis
  next
    fix k x assume "cm_get_state k (sv_clients sv') = Some x"
    then have "(if k = h then e else cm_get_state k (sv_clients sv)) = Some x" using ch by (simp add: entry_changed_def)
    then show "ips_ok x" using ips [of x] inv unfolding routes_inv_def devices_ok_def by (metis (full_types))
  qed
  moreover have "incoming_ok n sv'" using inv ch by (simp add: routes_inv_def incoming_ok_def entry_changed_def)
  moreover have "hm_get (requested (sv_trace sv')) k = barrier_of sv' k" for k
  proof (cases "k = h")
    case True
    then show ?thesis using not_in ch req(3) by (auto simp: barrier_of_def entry_changed_def split: option.split)
  next
    case False
    then have same: "cm_get_state k (sv_clients sv') = cm_get_state k (sv_clients sv)" "sv_incoming sv' = sv_incoming sv"
      using ch by (simp_all add: entry_changed_def)
    have "barrier_of sv' k = barrier_of sv k" unfolding barrier_of_def same by (rule refl)
    then show ?thesis using inv req(2) [OF False] by (simp add: routes_inv_def barriers_exact_def)
  qed
  ultimately show ?thesis using req(1) by (simp add: routes_inv_def barriers_exact_def)
qed

section \<open>Operations on devices\<close>

lemma bt_insert_twice: "bt_insert k v (bt_insert k w m) = bt_insert k v m"
  by (induction m) auto

lemma cm_entry_twice: "bt_ok (cm_clients cm) \<Longrightarrow> cm_entry h g (cm_entry h f cm) = cm_entry h (g \<circ> f) cm"
  by (auto simp: cm_entry_def hash_map bt_insert_twice split: option.split)

lemma cm_entry_state:
  "cm_inv cm \<Longrightarrow> cm_get_state k (cm_entry h f cm) = (if k = h then map_option f (cm_get_state h cm) else cm_get_state k cm)"
  by (simp add: cm_get_state_def cm_entry_get)

lemma cm_entry_inv: "cm_inv cm \<Longrightarrow> cm_inv (cm_entry h f cm)"
  by (rule same_handles_inv [OF same_handles_entry [OF same_handles_refl]])

lemma state_contains: "cm_get_state h cm \<noteq> None \<longleftrightarrow> cm_contains h cm"
  by (simp add: cm_get_state_def cm_contains_def)

lemma entry_inv:
  assumes inv: "routes_inv n sv"
    and f: "\<And>c s. cfg_pos (fst (f (c, s))) = cfg_pos c \<and> cst_active (snd (f (c, s))) = cst_active s \<and>
      (ips_ok (c, s) \<longrightarrow> ips_ok (f (c, s)))"
  shows "routes_inv n (sv\<lparr>sv_clients := cm_entry h f (sv_clients sv)\<rparr>)"
proof (cases "cm_get_state h (sv_clients sv)")
  case None
  then have "cm_entry h f (sv_clients sv) = sv_clients sv" by (simp add: cm_entry_def cm_get_state_def)
  with inv show ?thesis by simp
next
  case (Some e)
  obtain c s where e: "e = (c, s)" by (cases e)
  let ?sv = "sv\<lparr>sv_clients := cm_entry h f (sv_clients sv)\<rparr>"
  have cm: "cm_inv (sv_clients sv)" using inv by simp
  have low: "h < ENTER_HANDLE_BEGIN" by (rule configured_low [OF cm]) (use Some state_contains in force)
  have ch: "entry_changed h (Some (f (c, s))) sv ?sv"
    using cm Some e by (simp add: entry_changed_def cm_entry_inv cm_entry_state)
  have req: "hm_get (requested (sv_trace sv)) h = barrier_of sv h" "hm_ok (requested (sv_trace sv))"
    using inv by (simp_all add: routes_inv_def barriers_exact_def)
  have act: "active_at h (cfg_pos c) (sv_clients sv) = cst_active s" using Some e by (simp add: active_at_def)
  show ?thesis
  proof (rule routes_inv_changed [OF inv ch low])
    show "ips_ok x" if "Some (f (c, s)) = Some x" for x
      using that f [of c s] inv Some e unfolding routes_inv_def devices_ok_def by blast
    show "\<not> active_at k (cfg_pos c') (sv_clients sv)"
      if "Some (f (c, s)) = Some (c', s')" "cst_active s'" "k \<noteq> h" for c' s' k
    proof
      assume k: "active_at k (cfg_pos c') (sv_clients sv)"
      have "cfg_pos c' = cfg_pos c" "cst_active s" using that f [of c s] by auto
      then have "active_at h (cfg_pos c') (sv_clients sv)" using act by simp
      with k \<open>k \<noteq> h\<close> inv show False unfolding routes_inv_def devices_ok_def by blast
    qed
    show "hm_get (requested (sv_trace ?sv)) h = (case Some (f (c, s)) of None \<Rightarrow> None
        | Some (c, s) \<Rightarrow> if cst_active s then Some (cfg_pos c, DefaultCapture) else None)"
      using req f [of c s] Some e low_not_incoming [OF inv low] by (simp add: barrier_of_def case_prod_beta)
  qed (use req in simp_all)
qed

lemma setter_inv [intro]:
  assumes "routes_inv n sv"
  shows "routes_inv n (sv\<lparr>sv_clients := cm_set_fix_ips h ips (sv_clients sv)\<rparr>)"
    "routes_inv n (sv\<lparr>sv_clients := cm_set_dns_ips h ips (sv_clients sv)\<rparr>)"
    "routes_inv n (sv\<lparr>sv_clients := cm_set_port h p (sv_clients sv)\<rparr>)"
    "routes_inv n (sv\<lparr>sv_clients := cm_set_enter_hook h hook (sv_clients sv)\<rparr>)"
    "routes_inv n (sv\<lparr>sv_clients := cm_set_resolving h b (sv_clients sv)\<rparr>)"
    "routes_inv n (sv\<lparr>sv_clients := cm_set_peer_commit h commit (sv_clients sv)\<rparr>)"
    "routes_inv n (sv\<lparr>sv_clients := cm_set_active_addr h addr (sv_clients sv)\<rparr>)"
    "routes_inv n (sv\<lparr>sv_clients := cm_set_alive h b (sv_clients sv)\<rparr>)"
    "routes_inv n (sv\<lparr>sv_clients := cm_record_round_trip h ns (sv_clients sv)\<rparr>)"
    "routes_inv n (sv\<lparr>sv_clients := cm_set_remote_ready h b (sv_clients sv)\<rparr>)"
proof -
  have cm: "bt_ok (cm_clients (sv_clients sv))" using assms by simp
  show "routes_inv n (sv\<lparr>sv_clients := cm_set_fix_ips h ips (sv_clients sv)\<rparr>)"
    "routes_inv n (sv\<lparr>sv_clients := cm_set_dns_ips h ips (sv_clients sv)\<rparr>)"
    unfolding setter_defs cm_entry_twice [OF cm] by (rule entry_inv [OF assms]; simp add: ips_ok_def)+
qed (unfold setter_defs, (rule entry_inv [OF assms]; simp add: ips_ok_def)+)

lemma hostname_inv: "routes_inv n sv \<Longrightarrow> routes_inv n (sv\<lparr>sv_clients := fst (cm_set_hostname h name (sv_clients sv))\<rparr>)"
  by (auto simp: cm_set_hostname_def cm_update_ips_def cm_entry_twice ips_ok_def split: option.split intro!: entry_inv)

lemma fingerprint_inv': "routes_inv n sv \<Longrightarrow> routes_inv n (sv\<lparr>sv_clients := cm_set_peer_fingerprint h f (sv_clients sv)\<rparr>)"
  by (simp add: routes_inv_def devices_ok_def incoming_ok_def barriers_exact_def barrier_of_def active_at_def cm_get_state_def
      fingerprint_inv cong: option.case_cong)

text \<open>Activation. A device that is switched off loses its barrier; one that is switched on displaces the device that
  had its edge.\<close>

definition switched :: "bool \<Rightarrow> client_config \<times> client_state \<Rightarrow> client_config \<times> client_state" where
  "switched b e = (fst e, (snd e)\<lparr>cst_active := b\<rparr>)"

lemma switched_fun: "switched b = (\<lambda>(c, s). (c, s\<lparr>cst_active := b\<rparr>))"
  by (auto simp: switched_def)

lemma find_SomeD: "find P xs = Some x \<Longrightarrow> x \<in> set xs \<and> P x"
  by (induction xs) (auto split: if_splits)

lemma find_found: "x \<in> set xs \<Longrightarrow> P x \<Longrightarrow> find P xs \<noteq> None"
  by (auto simp: find_None_iff simp del: not_None_eq)

lemma clients_same: "sv_clients sv = cm \<Longrightarrow> sv\<lparr>sv_clients := cm\<rparr> = sv"
  by auto

lemma ips_switched [simp]: "ips_ok (switched b e) = ips_ok e"
  by (simp add: switched_def ips_ok_def)

lemma deactivate_cases:
  "cm_deactivate_client h cm = (case cm_get_state h cm of
     Some e \<Rightarrow> if cst_active (snd e) then (cm_entry h (switched False) cm, True) else (cm, False)
   | None \<Rightarrow> (cm, False))"
  by (auto simp: cm_deactivate_client_def cm_get_state_def switched_fun split: option.split)

lemma activate_cases:
  "cm_activate_client h cm = (case cm_get_state h cm of
     Some e \<Rightarrow> if cst_active (snd e) then (cm, False) else (cm_entry h (switched True) cm, True)
   | None \<Rightarrow> (cm, False))"
  by (auto simp: cm_activate_client_def cm_get_state_def switched_fun split: option.split)

text \<open>\<open>deactivated\<close> is what \<open>deactivate_client\<close> leaves in the table, whatever the state of the entry.\<close>

lemma deactivate_state:
  "cm_inv cm \<Longrightarrow> cm_get_state k (fst (cm_deactivate_client h cm)) =
     (if k = h then map_option (switched False) (cm_get_state h cm) else cm_get_state k cm)"
  by (auto simp: deactivate_cases cm_entry_state switched_def split: option.split)

lemma deactivate_cm_inv: "cm_inv cm \<Longrightarrow> cm_inv (fst (cm_deactivate_client h cm))"
  by (auto simp: deactivate_cases cm_entry_inv split: option.split)

lemma sv_deactivate_view:
  "route_view (sv_deactivate_client h sv) = route_view (let (cm, changed) = cm_deactivate_client h (sv_clients sv);
     sv = sv\<lparr>sv_clients := cm\<rparr> in if changed then emit_sv (ToCapture (Destroy h)) sv else sv)"
  by (simp add: sv_deactivate_client_def Let_def split: prod.split)

lemma deactivate_inv:
  assumes inv: "routes_inv n sv" shows "routes_inv n (sv_deactivate_client h sv)"
proof (cases "cm_get_state h (sv_clients sv)")
  case None
  then have "route_view (sv_deactivate_client h sv) = route_view sv" by (simp add: sv_deactivate_view deactivate_cases)
  with inv show ?thesis using routes_inv_view by blast
next
  case (Some e)
  show ?thesis
  proof (cases "cst_active (snd e)")
    case False
    with Some have "route_view (sv_deactivate_client h sv) = route_view sv" by (simp add: sv_deactivate_view deactivate_cases)
    with inv show ?thesis using routes_inv_view by blast
  next
    case True
    let ?sv = "emit_sv (ToCapture (Destroy h)) (sv\<lparr>sv_clients := cm_entry h (switched False) (sv_clients sv)\<rparr>)"
    have view: "route_view (sv_deactivate_client h sv) = route_view ?sv"
      using Some True by (simp add: sv_deactivate_view deactivate_cases)
    have cm: "cm_inv (sv_clients sv)" using inv by simp
    have ok: "hm_ok (requested (sv_trace sv))" using inv by (simp add: routes_inv_def barriers_exact_def)
    have "routes_inv n ?sv"
    proof (rule routes_inv_changed [OF inv, where h = h and e = "Some (switched False e)"])
      show "entry_changed h (Some (switched False e)) sv ?sv"
        using cm Some by (simp add: entry_changed_def cm_entry_inv cm_entry_state)
      show "h < ENTER_HANDLE_BEGIN" by (rule configured_low [OF cm]) (use Some state_contains in force)
      show "ips_ok x" if "Some (switched False e) = Some x" for x
        using that inv Some unfolding routes_inv_def devices_ok_def by (metis ips_switched option.sel)
    qed (use ok in \<open>simp_all add: capture_destroyed hash_map switched_def\<close>)
    with view show ?thesis using routes_inv_view by blast
  qed
qed

lemma client_at_active:
  assumes "cm_inv cm" "cm_client_at pos cm = Some h" shows "active_at h pos cm"
proof -
  obtain c s where "(h, c, s) \<in> set (cm_clients cm)" "cst_active s" "cfg_pos c = pos"
    using assms(2) by (auto simp: cm_client_at_def cm_find_def dest!: find_SomeD)
  moreover have "hm_ok (cm_clients cm)" using assms(1) by (simp add: bt_ok_hm_ok)
  ultimately show ?thesis by (simp add: active_at_def cm_get_state_def hm_get_set)
qed

lemma client_at_none:
  assumes "cm_inv cm" "cm_client_at pos cm = None" shows "\<not> active_at h pos cm"
proof
  assume "active_at h pos cm"
  then obtain c s where e: "hm_get (cm_clients cm) h = Some (c, s)" "cst_active s" "cfg_pos c = pos"
    by (auto simp: active_at_def cm_get_state_def split: option.splits)
  have "hm_ok (cm_clients cm)" using assms(1) by (simp add: bt_ok_hm_ok)
  with e have "(h, c, s) \<in> set (cm_clients cm)" by (simp add: hm_get_set)
  with assms(2) e show False by (auto simp: cm_client_at_def cm_find_def find_None_iff)
qed

text \<open>After the device at the edge is displaced, nobody else is active there.\<close>

definition displaced :: "client_id \<Rightarrow> edge \<Rightarrow> 'r service \<Rightarrow> 'r service" where
  "displaced h pos sv = (case cm_client_at pos (sv_clients sv) of
     Some other \<Rightarrow> if other \<noteq> h then sv_deactivate_client other sv else sv | None \<Rightarrow> sv)"

lemma sv_deactivate_clients: "sv_clients (sv_deactivate_client h sv) = fst (cm_deactivate_client h (sv_clients sv))"
  by (simp add: sv_deactivate_client_def broadcast_client_def notify_frontend_def Let_def split: prod.split)

lemma displaced_inv:
  assumes inv: "routes_inv n sv" and h: "\<not> active_at h pos (sv_clients sv)"
  shows "routes_inv n (displaced h pos sv)" "\<not> active_at k pos (sv_clients (displaced h pos sv))"
    "cm_get_state h (sv_clients (displaced h pos sv)) = cm_get_state h (sv_clients sv)"
proof -
  have cm: "cm_inv (sv_clients sv)" using inv by simp
  show "routes_inv n (displaced h pos sv)" using inv deactivate_inv by (auto simp: displaced_def split: option.split)
  show "cm_get_state h (sv_clients (displaced h pos sv)) = cm_get_state h (sv_clients sv)"
    using cm by (auto simp: displaced_def sv_deactivate_clients deactivate_state split: option.split)
  show "\<not> active_at k pos (sv_clients (displaced h pos sv))"
  proof (cases "cm_client_at pos (sv_clients sv)")
    case None
    then show ?thesis using client_at_none [OF cm None] by (simp add: displaced_def)
  next
    case (Some other)
    have o: "active_at other pos (sv_clients sv)" by (rule client_at_active [OF cm Some])
    with h have ne: "other \<noteq> h" by blast
    have "\<not> active_at k pos (sv_clients sv)" if "k \<noteq> other"
      using that o inv unfolding routes_inv_def devices_ok_def by blast
    then show ?thesis using Some ne cm
      by (auto simp: displaced_def active_at_def sv_deactivate_clients deactivate_state switched_def split: option.splits)
  qed
qed

lemma activate_inv:
  assumes inv: "routes_inv n sv" shows "routes_inv n (sv_activate_client h sv)"
proof -
  let ?r = "sv_resolve h sv"
  have ri: "routes_inv n ?r" using inv routes_inv_view [OF routes.resolve_kept] by blast
  have rc: "sv_clients ?r = sv_clients sv" by (simp add: sv_resolve_def split: option.split)
  have cm: "cm_inv (sv_clients sv)" using inv by simp
  show ?thesis
  proof (cases "cm_get_state h (sv_clients sv)")
    case None
    then have "cm_get_pos h (sv_clients ?r) = None" by (simp add: rc cm_get_pos_def)
    then have "sv_activate_client h sv = ?r" by (simp add: sv_activate_client_def Let_def)
    with ri show ?thesis by simp
  next
    case (Some e)
    obtain c s where e: "e = (c, s)" by (cases e)
    let ?d = "displaced h (cfg_pos c) ?r"
    have pos: "cm_get_pos h (sv_clients ?r) = Some (cfg_pos c)" using Some e by (simp add: rc cm_get_pos_def)
    have view: "route_view (sv_activate_client h sv) = route_view (let (cm, changed) = cm_activate_client h (sv_clients ?d);
        sv' = ?d\<lparr>sv_clients := cm\<rparr> in if changed then emit_sv (ToCapture (Create h (cfg_pos c) DefaultCapture)) sv' else sv')"
      by (simp add: sv_activate_client_def displaced_def [symmetric] pos Let_def split: prod.split)
    show ?thesis
    proof (cases "cst_active s")
      case True
      then have "active_at h (cfg_pos c) (sv_clients sv)" using Some e by (simp add: active_at_def)
      moreover from this obtain other where at: "cm_client_at (cfg_pos c) (sv_clients sv) = Some other"
        using client_at_none [OF cm] by (cases "cm_client_at (cfg_pos c) (sv_clients sv)") auto
      ultimately have "other = h" using client_at_active [OF cm at] inv unfolding routes_inv_def devices_ok_def by blast
      then have "?d = ?r" using at by (simp add: displaced_def rc)
      then have "route_view (sv_activate_client h sv) = route_view ?r"
        using view Some e True by (simp add: activate_cases rc clients_same)
      with ri show ?thesis using routes_inv_view by blast
    next
      case False
      then have na: "\<not> active_at h (cfg_pos c) (sv_clients ?r)" using Some e by (simp add: active_at_def rc)
      note d = displaced_inv [OF ri na]
      have de: "cm_get_state h (sv_clients ?d) = Some (c, s)" using d(3) Some e rc by simp
      let ?sv = "emit_sv (ToCapture (Create h (cfg_pos c) DefaultCapture)) (?d\<lparr>sv_clients := cm_entry h (switched True) (sv_clients ?d)\<rparr>)"
      have view': "route_view (sv_activate_client h sv) = route_view ?sv"
        using view de False by (simp add: activate_cases)
      have dcm: "cm_inv (sv_clients ?d)" using d(1) by simp
      have low: "h < ENTER_HANDLE_BEGIN" by (rule configured_low [OF dcm]) (use de state_contains in force)
      have ok: "hm_ok (requested (sv_trace ?d))" using d(1) by (simp add: routes_inv_def barriers_exact_def)
      have none: "hm_get (requested (sv_trace ?d)) h = None"
        using d(1) de False low_not_incoming [OF d(1) low] by (simp add: routes_inv_def barriers_exact_def barrier_of_def)
      have "routes_inv n ?sv"
      proof (rule routes_inv_changed [OF d(1), where h = h and e = "Some (switched True (c, s))"])
        show "entry_changed h (Some (switched True (c, s))) ?d ?sv"
          using dcm de by (simp add: entry_changed_def cm_entry_inv cm_entry_state)
        show "h < ENTER_HANDLE_BEGIN" by (rule low)
        show "ips_ok x" if "Some (switched True (c, s)) = Some x" for x
          using that d(1) de unfolding routes_inv_def devices_ok_def by (metis ips_switched option.sel)
        show "\<not> active_at k (cfg_pos c') (sv_clients ?d)" if "Some (switched True (c, s)) = Some (c', s')" for c' s' k
          using that d(2) by (auto simp: switched_def)
      qed (use ok none in \<open>simp_all add: capture_created hash_map switched_def\<close>)
      with view' show ?thesis using routes_inv_view by blast
    qed
  qed
qed

text \<open>Removing and adding devices.\<close>

lemma remove_client_inv:
  assumes inv: "routes_inv n sv" shows "routes_inv n (sv_remove_client env h sv)"
proof -
  let ?cm = "fst (cm_remove_client h (sv_clients sv))"
  let ?act = "\<exists>c s. cm_get_state h (sv_clients sv) = Some (c, s) \<and> cst_active s"
  let ?sv = "if ?act then emit_sv (ToCapture (Destroy h)) (sv\<lparr>sv_clients := ?cm\<rparr>) else sv\<lparr>sv_clients := ?cm\<rparr>"
  have view: "route_view (sv_remove_client env h sv) = route_view ?sv"
    by (auto simp: sv_remove_client_def cm_remove_client_def cm_get_state_def Let_def split: option.split)
  have cm: "cm_inv (sv_clients sv)" using inv by simp
  have bt: "hm_ok (cm_clients (sv_clients sv))" using cm by (simp add: bt_ok_hm_ok)
  have ok: "hm_ok (requested (sv_trace sv))" and bar: "\<And>k. hm_get (requested (sv_trace sv)) k = barrier_of sv k"
    using inv by (simp_all add: routes_inv_def barriers_exact_def)
  show ?thesis
  proof (cases "cm_get_state h (sv_clients sv)")
    case None
    then have "cm_clients ?cm = cm_clients (sv_clients sv)"
      by (simp add: cm_remove_client_def hm_remove_absent cm_get_state_def)
    then have same: "cm_get_state k ?cm = cm_get_state k (sv_clients sv)" for k by (simp add: cm_get_state_def)
    have "routes_inv n (sv\<lparr>sv_clients := ?cm\<rparr>)" using inv remove_inv(1) [OF cm, of h]
      by (simp add: routes_inv_def devices_ok_def incoming_ok_def barriers_exact_def barrier_of_def active_at_def same cong: option.case_cong)
    with view None show ?thesis using routes_inv_view [OF view] by simp
  next
    case (Some e)
    have low: "h < ENTER_HANDLE_BEGIN" by (rule configured_low [OF cm]) (use Some state_contains in force)
    have "routes_inv n ?sv"
    proof (rule routes_inv_changed [OF inv _ low, where e = None])
      show "entry_changed h None sv ?sv"
        using remove_inv(1) [OF cm] bt by (auto simp: entry_changed_def cm_get_state_def cm_remove_client_def hash_map)
      show "hm_get (requested (sv_trace ?sv)) h = (case None of None \<Rightarrow> None
          | Some (c, s) \<Rightarrow> if cst_active s then Some (cfg_pos c, DefaultCapture) else None)"
        using Some ok bar [of h] low_not_incoming [OF inv low]
        by (cases e) (auto simp: capture_destroyed hash_map barrier_of_def)
    qed (use ok in \<open>auto simp: capture_destroyed hash_map\<close>)
    with routes_inv_view [OF view] show ?thesis by blast
  qed
qed

lemma new_device_inv:
  assumes inv: "routes_inv n sv" and low: "h < ENTER_HANDLE_BEGIN" and fresh: "cm_get_state h (sv_clients sv) = None"
    and cm: "cm_inv cm" and get: "\<And>k. cm_get_state k cm = (if k = h then Some (c, s) else cm_get_state k (sv_clients sv))"
    and off: "\<not> cst_active s" and ips: "ips_ok (c, s)"
  shows "routes_inv n (sv\<lparr>sv_clients := cm\<rparr>)"
proof (rule routes_inv_changed [OF inv _ low, where e = "Some (c, s)"])
  show "entry_changed h (Some (c, s)) sv (sv\<lparr>sv_clients := cm\<rparr>)" using cm get by (simp add: entry_changed_def)
  have ex: "hm_ok (requested (sv_trace sv))" "\<And>k. hm_get (requested (sv_trace sv)) k = barrier_of sv k"
    using inv by (simp_all add: routes_inv_def barriers_exact_def)
  then show "hm_ok (requested (sv_trace (sv\<lparr>sv_clients := cm\<rparr>)))" by simp
  show "hm_get (requested (sv_trace (sv\<lparr>sv_clients := cm\<rparr>))) h = (case Some (c, s) of None \<Rightarrow> None
      | Some (c, s) \<Rightarrow> if cst_active s then Some (cfg_pos c, DefaultCapture) else None)"
    using ex(2) [of h] off fresh low_not_incoming [OF inv low] by (simp add: barrier_of_def)
qed (use off ips in auto)

lemma add_client_inv:
  assumes inv: "routes_inv n sv" and add: "cm_add_client (sv_clients sv) = (cm, Done h)"
  shows "routes_inv n (sv\<lparr>sv_clients := cm\<rparr>)" "cm_get_state h cm \<noteq> None"
proof -
  have bt: "bt_ok (cm_clients (sv_clients sv))" and cm: "cm_inv (sv_clients sv)" using inv by simp_all
  note new = add_client_done [OF cm add]
  have get: "cm_get_state k cm = (if k = h then Some (client_config_default, client_state_default)
      else cm_get_state k (sv_clients sv))" for k
    using bt new(6) by (simp add: cm_get_state_def hash_map)
  show "cm_get_state h cm \<noteq> None" by (simp add: get)
  have "cm_get_state h (sv_clients sv) = None" using new(5) state_contains by blast
  then show "routes_inv n (sv\<lparr>sv_clients := cm\<rparr>)"
    by (rule new_device_inv [OF inv new(8) _ new(4) get])
      (simp_all add: client_state_default_def client_config_default_def ips_ok_def)
qed

lemma created_view: "route_view (fst (created h sv)) = route_view sv"
  by (simp add: created_def split: option.split)

definition safe :: "nat \<Rightarrow> 'r service \<times> 'a outcome \<Rightarrow> bool" where
  "safe n r \<longleftrightarrow> routes_inv n (fst r) \<and> (snd r = Panicked \<longrightarrow> cm_next_handle (sv_clients (fst r)) = ENTER_HANDLE_BEGIN) \<and>
     snd r \<noteq> Failed"

text \<open>The only panic left is that of the exhausted handle space.\<close>

lemma add_client_panics:
  assumes "cm_inv cm" "cm_add_client cm = (cm', r)" "\<forall>h. r \<noteq> Done h"
  shows "cm' = cm \<and> r = Panicked \<and> cm_next_handle cm = ENTER_HANDLE_BEGIN"
proof -
  have le: "cm_next_handle cm \<le> ENTER_HANDLE_BEGIN" using assms(1) by (simp add: cm_inv_def)
  then have "cm_next_handle cm \<noteq> - 1" by (auto simp: enter_handle_begin word_order.extremum_unique)
  with assms(2,3) le show ?thesis by (auto simp: cm_add_client_def Let_def split: if_splits)
qed

lemma sv_add_client_safe: "routes_inv n sv \<Longrightarrow> safe n (sv_add_client sv)"
proof -
  assume inv: "routes_inv n sv"
  then have cm: "cm_inv (sv_clients sv)" by simp
  obtain cm' r where add: "cm_add_client (sv_clients sv) = (cm', r)" by (cases "cm_add_client (sv_clients sv)")
  show ?thesis
  proof (cases "\<exists>h. r = Done h")
    case True
    then obtain h where h: "r = Done h" by blast
    note new = add_client_inv [OF inv add [unfolded h]]
    let ?sv = "sv\<lparr>sv_clients := cm'\<rparr>"
    have "routes_inv n (fst (created h ?sv))" using new(1) routes_inv_view [OF created_view] by blast
    moreover have "snd (created h ?sv) = Done ()" using new(2) by (auto simp: created_def)
    ultimately show ?thesis by (simp add: safe_def sv_add_client_def with_clients_def add h)
  next
    case False
    then have "\<forall>h. r \<noteq> Done h" by blast
    from add_client_panics [OF cm add this] inv show ?thesis
      by (simp add: safe_def sv_add_client_def with_clients_def add clients_same)
  qed
qed

lemma safe_done [simp]: "safe n (sv, Done x) = routes_inv n sv"
  by (simp add: safe_def)

lemma safe_and_then:
  assumes "safe n r" "\<And>sv x. r = (sv, Done x) \<Longrightarrow> routes_inv n sv \<Longrightarrow> safe n (f x sv)"
  shows "safe n (and_then r f)"
proof -
  obtain sv o' where r: "r = (sv, o')" by (cases r)
  with assms show ?thesis by (cases o') (auto simp: safe_def)
qed

text \<open>An operation that adds a device and then works with it.\<close>

lemma with_new_safe:
  assumes inv: "routes_inv n sv"
    and add: "\<And>cm h. f (sv_clients sv) = (cm, Done h) \<Longrightarrow> safe n (g h (sv\<lparr>sv_clients := cm\<rparr>))"
    and full: "\<And>cm r. f (sv_clients sv) = (cm, r) \<Longrightarrow> (\<forall>h. r \<noteq> Done h) \<Longrightarrow>
      cm = sv_clients sv \<and> r = Panicked \<and> cm_next_handle cm = ENTER_HANDLE_BEGIN"
  shows "safe n (and_then (with_clients f sv) g)"
proof -
  obtain cm r where f: "f (sv_clients sv) = (cm, r)" by (cases "f (sv_clients sv)")
  show ?thesis
  proof (cases "\<exists>h. r = Done h")
    case True
    then show ?thesis using add f by (auto simp: with_clients_def)
  next
    case False
    then have "cm = sv_clients sv \<and> r = Panicked \<and> cm_next_handle cm = ENTER_HANDLE_BEGIN" using full [OF f] by blast
    with inv show ?thesis by (auto simp: with_clients_def f safe_def clients_same)
  qed
qed

lemma created_safe: "routes_inv n sv \<Longrightarrow> cm_get_state h (sv_clients sv) \<noteq> None \<Longrightarrow> safe n (created h sv)"
  using routes_inv_view [OF created_view, of n h sv] by (auto simp: safe_def created_def split: option.splits)

lemma discovered_safe:
  assumes inv: "routes_inv n sv" shows "safe n (add_discovered_client addresses port sv)"
proof -
  have cm: "cm_inv (sv_clients sv)" using inv by simp
  have "safe n (and_then (with_clients cm_add_client sv) (\<lambda>h sv.
      created h (sv\<lparr>sv_clients := cm_set_port h port (cm_set_fix_ips h addresses (sv_clients sv))\<rparr>)))"
  proof (rule with_new_safe [OF inv])
    fix cm' h assume add: "cm_add_client (sv_clients sv) = (cm', Done h)"
    let ?sv = "sv\<lparr>sv_clients := cm'\<rparr>"
    note new = add_client_inv [OF inv add]
    have a: "routes_inv n (?sv\<lparr>sv_clients := cm_set_fix_ips h addresses cm'\<rparr>)"
      using setter_inv(1) [OF new(1), of h addresses] by simp
    have b: "routes_inv n (?sv\<lparr>sv_clients := cm_set_port h port (cm_set_fix_ips h addresses cm')\<rparr>)"
      using setter_inv(3) [OF a, of h port] by simp
    have "cm_inv cm'" "cm_inv (cm_set_fix_ips h addresses cm')" using new(1) a by (auto dest: routes_inv_cm)
    then have "cm_get_state h (cm_set_port h port (cm_set_fix_ips h addresses cm')) \<noteq> None"
      using new(2) by (simp add: setter_defs cm_entry_state cm_entry_inv del: not_None_eq)
    with b show "safe n (created h (?sv\<lparr>sv_clients := cm_set_port h port (cm_set_fix_ips h addresses (sv_clients ?sv))\<rparr>))"
      by (intro created_safe) simp_all
  qed (use add_client_panics [OF cm] in blast)
  with inv show ?thesis by (simp add: add_discovered_client_def)
qed

lemma add_with_config_panics:
  assumes "cm_inv cm" "cm_add_with_config k cm = (cm', r)" "\<forall>h. r \<noteq> Done h"
  shows "cm' = cm \<and> r = Panicked \<and> cm_next_handle cm = ENTER_HANDLE_BEGIN"
proof -
  obtain cm1 r1 where add: "cm_add_client cm = (cm1, r1)" by (cases "cm_add_client cm")
  have no: "\<forall>h. r1 \<noteq> Done h" using assms(2,3) by (auto simp: cm_add_with_config_def Let_def add)
  from add_client_panics [OF assms(1) add no] assms(2) show ?thesis by (auto simp: cm_add_with_config_def Let_def add)
qed

text \<open>A device of the configuration is added switched off, whatever the configuration says, before it is activated.\<close>

lemma loaded_off_inv:
  assumes inv: "routes_inv n sv" and add: "cm_add_with_config k (sv_clients sv) = (cm, Done h)"
  shows "routes_inv n (sv\<lparr>sv_clients := fst (cm_deactivate_client h cm)\<rparr>)"
proof -
  have cm0: "cm_inv (sv_clients sv)" using inv by simp
  note new = add_with_config_done [OF cm0 add]
  let ?c = "\<lparr>cfg_hostname = kc_hostname k, cfg_fix_ips = kc_ips k, cfg_port = kc_port k, cfg_pos = kc_pos k, cfg_cmd = kc_enter_hook k\<rparr>"
  let ?s = "client_state_default\<lparr>cst_active := False, cst_ips := set (kc_ips k)\<rparr>"
  have "h < ENTER_HANDLE_BEGIN" by (rule configured_low [OF new(4)]) (simp add: new(6))
  moreover have "cm_get_state h (sv_clients sv) = None" using new(5) state_contains by blast
  moreover have "cm_get_state x (fst (cm_deactivate_client h cm)) = (if x = h then Some (?c, ?s) else cm_get_state x (sv_clients sv))" for x
    using new(7) by (simp add: deactivate_state [OF new(4)] switched_def)
  ultimately show ?thesis
    by (rule new_device_inv [OF inv _ _ deactivate_cm_inv [OF new(4)]]) (simp_all add: ips_ok_def client_state_default_def)
qed

lemma reload_client_safe:
  assumes inv: "routes_inv n sv" shows "safe n (reload_client k sv)"
  unfolding reload_client_def
proof (rule with_new_safe [OF inv])
  have cm0: "cm_inv (sv_clients sv)" using inv by simp
  fix cm h assume add: "cm_add_with_config k (sv_clients sv) = (cm, Done h)"
  note new = add_with_config_done [OF cm0 add]
  let ?sv = "sv\<lparr>sv_clients := cm\<rparr>"
  obtain c s where e: "cm_get_state h cm = Some (c, s)" using new(7) [of h] by simp
  let ?off = "sv\<lparr>sv_clients := fst (cm_deactivate_client h cm)\<rparr>"
  have off: "routes_inv n ?off" by (rule loaded_off_inv [OF inv add])
  let ?sv' = "if cst_active s then sv_activate_client h ?off else ?sv"
  have "routes_inv n ?sv'"
  proof (cases "cst_active s")
    case True
    with activate_inv [OF off] show ?thesis by simp
  next
    case False
    with e have "fst (cm_deactivate_client h cm) = cm" by (simp add: deactivate_cases)
    with off False show ?thesis by simp
  qed
  then have "routes_inv n (notify_frontend (EvCreated h c s) ?sv')" using routes_inv_view [OF routes.notify_kept] by blast
  then show "safe n (case cm_get_state h (sv_clients ?sv) of None \<Rightarrow> (?sv, Panicked)
     | Some (c, s) \<Rightarrow> let sv = if cst_active s then sv_activate_client h (?sv\<lparr>sv_clients := fst (cm_deactivate_client h (sv_clients ?sv))\<rparr>)
                      else ?sv in (notify_frontend (EvCreated h c s) sv, Done ()))"
    by (cases "cst_active s") (simp_all add: e Let_def)
next
  show "cm = sv_clients sv \<and> r = Panicked \<and> cm_next_handle cm = ENTER_HANDLE_BEGIN"
    if "cm_add_with_config k (sv_clients sv) = (cm, r)" "\<forall>h. r \<noteq> Done h" for cm r
    using add_with_config_panics [OF _ that] inv by simp
qed

lemma reload_clients_safe: "routes_inv n sv \<Longrightarrow> safe n (reload_clients ks sv)"
proof (induction ks arbitrary: sv)
  case (Cons k ks)
  show ?case unfolding reload_clients.simps
    by (rule safe_and_then [OF reload_client_safe [OF Cons.prems]]) (rule Cons.IH)
qed simp

lemma fold_inv: "(\<And>x sv. routes_inv n sv \<Longrightarrow> routes_inv n (f x sv)) \<Longrightarrow> routes_inv n sv \<Longrightarrow> routes_inv n (fold f xs sv)"
  by (induction xs arbitrary: sv) simp_all

lemma config_change_safe:
  assumes inv: "routes_inv n sv" shows "safe n (handle_config_change env ks bind keys sv)"
  unfolding handle_config_change_def
proof (rule safe_and_then [OF reload_clients_safe])
  show "routes_inv n (fold (sv_remove_client env) (cm_registered_clients (sv_clients sv)) sv)"
    by (rule fold_inv [OF remove_client_inv inv])
  fix sv' x assume "routes_inv n (sv' :: 'a service)"
  moreover have "route_view (notify_frontend EvSnapshot ((emit_sv (ToCapture (SetReleaseBind bind)) sv')\<lparr>sv_authorized_keys := keys\<rparr>))
    = route_view sv'" by simp
  ultimately show "safe n (notify_frontend EvSnapshot ((emit_sv (ToCapture (SetReleaseBind bind)) sv')\<lparr>sv_authorized_keys := keys\<rparr>), Done ())"
    unfolding safe_done using routes_inv_view by blast
qed

text \<open>Moving a device to another edge.\<close>

definition moved :: "edge \<Rightarrow> client_config \<times> client_state \<Rightarrow> client_config \<times> client_state" where
  "moved pos e = ((fst e)\<lparr>cfg_pos := pos\<rparr>, snd e)"

lemma ips_moved [simp]: "ips_ok (moved pos e) = ips_ok e"
  by (simp add: moved_def ips_ok_def)

lemma set_pos_cases:
  "cm_set_pos h pos cm = (case cm_get_state h cm of
     Some e \<Rightarrow> if cfg_pos (fst e) \<noteq> pos then (cm_entry h (moved pos) cm, cst_active (snd e)) else (cm, False)
   | None \<Rightarrow> (cm, False))"
proof -
  have "moved pos = (\<lambda>(c, s). (c\<lparr>cfg_pos := pos\<rparr>, s))" by (auto simp: moved_def)
  then show ?thesis by (auto simp: cm_set_pos_def cm_get_state_def split: option.split)
qed

lemma moved_off_inv:
  assumes inv: "routes_inv n sv" and e: "cm_get_state h (sv_clients sv) = Some e"
  shows "routes_inv n (sv_deactivate_client h (sv\<lparr>sv_clients := cm_entry h (moved pos) (sv_clients sv)\<rparr>))"
proof -
  let ?m = "sv\<lparr>sv_clients := cm_entry h (moved pos) (sv_clients sv)\<rparr>"
  let ?cm = "cm_entry h (switched False) (cm_entry h (moved pos) (sv_clients sv))"
  let ?sv = "if cst_active (snd e) then emit_sv (ToCapture (Destroy h)) (sv\<lparr>sv_clients := ?cm\<rparr>) else ?m"
  have cm: "cm_inv (sv_clients sv)" using inv by simp
  then have cm': "cm_inv (cm_entry h (moved pos) (sv_clients sv))" by (rule cm_entry_inv)
  have me: "cm_get_state h (sv_clients ?m) = Some (moved pos e)" using e cm by (simp add: cm_entry_state)
  have view: "route_view (sv_deactivate_client h ?m) = route_view ?sv"
    using me by (simp add: sv_deactivate_view deactivate_cases moved_def)
  have low: "h < ENTER_HANDLE_BEGIN" by (rule configured_low [OF cm]) (use e state_contains in force)
  have ok: "hm_ok (requested (sv_trace sv))" and bar: "\<And>k. hm_get (requested (sv_trace sv)) k = barrier_of sv k"
    using inv by (simp_all add: routes_inv_def barriers_exact_def)
  have "routes_inv n ?sv"
  proof (rule routes_inv_changed [OF inv _ low, where e = "Some (switched False (moved pos e))"])
    have "switched False (moved pos e) = moved pos e" if "\<not> cst_active (snd e)"
      using that by (simp add: switched_def moved_def)
    then show "entry_changed h (Some (switched False (moved pos e))) sv ?sv"
      using cm cm' e by (auto simp: entry_changed_def cm_entry_state cm_entry_inv)
    show "ips_ok x" if "Some (switched False (moved pos e)) = Some x" for x
      using that e inv unfolding routes_inv_def devices_ok_def by (metis ips_moved ips_switched option.sel)
    show "hm_get (requested (sv_trace ?sv)) h = (case Some (switched False (moved pos e)) of None \<Rightarrow> None
        | Some (c, s) \<Rightarrow> if cst_active s then Some (cfg_pos c, DefaultCapture) else None)"
      using ok bar [of h] e low_not_incoming [OF inv low]
      by (cases e) (simp add: capture_destroyed hash_map switched_def barrier_of_def)
  qed (use ok in \<open>auto simp: capture_destroyed hash_map switched_def\<close>)
  with routes_inv_view [OF view] show ?thesis by blast
qed

lemma update_pos_inv:
  assumes inv: "routes_inv n sv" shows "routes_inv n (update_pos h pos sv)"
proof (cases "cm_get_state h (sv_clients sv)")
  case None
  then have "route_view (update_pos h pos sv) = route_view sv" by (simp add: update_pos_def set_pos_cases)
  with inv show ?thesis using routes_inv_view by blast
next
  case (Some e)
  let ?m = "sv\<lparr>sv_clients := cm_entry h (moved pos) (sv_clients sv)\<rparr>"
  note off = moved_off_inv [OF inv Some, of pos]
  show ?thesis
  proof (cases "cfg_pos (fst e) \<noteq> pos")
    case False
    with Some have "route_view (update_pos h pos sv) = route_view sv" by (simp add: update_pos_def set_pos_cases)
    with inv show ?thesis using routes_inv_view by blast
  next
    case ne: True
    show ?thesis
    proof (cases "cst_active (snd e)")
      case True
      with Some ne have "route_view (update_pos h pos sv) = route_view (sv_activate_client h (sv_deactivate_client h ?m))"
        by (simp add: update_pos_def set_pos_cases)
      with activate_inv [OF off] show ?thesis using routes_inv_view by blast
    next
      case False
      have cm: "cm_inv (sv_clients sv)" using inv by simp
      have "cm_get_state h (sv_clients ?m) = Some (moved pos e)" using Some cm by (simp add: cm_entry_state)
      with False have "route_view (sv_deactivate_client h ?m) = route_view ?m"
        by (simp add: sv_deactivate_view deactivate_cases moved_def)
      moreover have "route_view (update_pos h pos sv) = route_view ?m" using Some ne False by (simp add: update_pos_def set_pos_cases)
      ultimately show ?thesis using off routes_inv_view by metis
    qed
  qed
qed

lemma updates_inv:
  assumes inv: "routes_inv n sv"
  shows "routes_inv n (update_fix_ips h ips sv)" "routes_inv n (update_hostname h name sv)"
    "routes_inv n (update_port h p sv)" "routes_inv n (update_enter_hook h hook sv)"
    "routes_inv n (handle_resolver_event env event sv)"
proof -
  have b: "routes_inv n (broadcast_client h sv') = routes_inv n sv'" for h and sv' :: "'a service"
    by (rule routes_inv_view) simp
  have p: "routes_inv n (publish_peer_sides env sv') = routes_inv n sv'" for sv' :: "'a service"
    by (rule routes_inv_view) simp
  have r: "routes_inv n (sv_resolve h sv') = routes_inv n sv'" for h and sv' :: "'a service"
    by (rule routes_inv_view) simp
  show "routes_inv n (update_fix_ips h ips sv)" "routes_inv n (update_port h p sv)" "routes_inv n (update_enter_hook h hook sv)"
    using setter_inv [OF inv] by (simp_all add: update_fix_ips_def update_port_def update_enter_hook_def b)
  show "routes_inv n (update_hostname h name sv)"
    using hostname_inv [OF inv, of h name] by (simp add: update_hostname_def Let_def case_prod_beta b r)
  have dns: "routes_inv n (sv\<lparr>sv_clients := cm_set_dns_ips k l (cm_set_resolving k False (sv_clients sv))\<rparr>)" for k l
    using setter_inv(2) [OF setter_inv(5) [OF inv, of k False], of k l] by simp
  show "routes_inv n (handle_resolver_event env event sv)"
    using setter_inv(5) [OF inv] dns by (simp add: handle_resolver_event_def b p split: dns_event.split)
qed

section \<open>Incoming connections\<close>

lemma incoming_found:
  assumes "incoming_ok n sv" "addr \<in> set (sv_incoming_conns sv)"
  obtains h i where "find (\<lambda>(_, i). in_addr i = addr) (sv_incoming sv) = Some (h, i)" "in_addr i = addr"
    "hm_get (sv_incoming sv) h = Some i"
proof -
  obtain h0 i0 where "(h0, i0) \<in> set (sv_incoming sv)" "in_addr i0 = addr" using assms by (auto simp: incoming_ok_def)
  then have "find (\<lambda>(_, i). in_addr i = addr) (sv_incoming sv) \<noteq> None"
    by (auto simp: find_None_iff simp del: not_None_eq)
  then obtain h i where f: "find (\<lambda>(_, i). in_addr i = addr) (sv_incoming sv) = Some (h, i)" by auto
  then have "(h, i) \<in> set (sv_incoming sv)" "in_addr i = addr" by (auto dest: find_SomeD)
  moreover have "hm_get (sv_incoming sv) h = Some i" using calculation assms(1) by (simp add: incoming_ok_def hm_get_set)
  ultimately show thesis using f that by blast
qed

lemma incoming_absent:
  assumes "incoming_ok n sv" "addr \<notin> set (sv_incoming_conns sv)"
  shows "find (\<lambda>(_, i). in_addr i = addr) (sv_incoming sv) = None"
  using assms by (force simp: incoming_ok_def find_None_iff)

lemma set_hm_insert_new: "hm_get m k = None \<Longrightarrow> set (hm_insert k v m) = insert (k, v) (set m)"
  by (simp add: hm_append_new [symmetric])

lemma add_incoming_inv:
  assumes inv: "routes_inv n sv" and room: "n < 2 ^ 63" and new: "addr \<notin> set (sv_incoming_conns sv)"
  shows "routes_inv (Suc n) (add_incoming addr pos fingerprint sv)"
proof -
  let ?t = "sv_next_trigger_handle sv"
  let ?h = "ENTER_HANDLE_BEGIN + ?t"
  let ?i = "\<lparr>in_fingerprint = fingerprint, in_addr = addr, in_pos = pos\<rparr>"
  let ?sv = "add_incoming addr pos fingerprint sv"
  have inc: "incoming_ok n sv" and dev: "devices_ok (sv_clients sv)"
    and ex: "hm_ok (requested (sv_trace sv))" "\<And>k. hm_get (requested (sv_trace sv)) k = barrier_of sv k"
    using inv by (simp_all add: routes_inv_def barriers_exact_def)
  have t: "unat ?t \<le> n" using inc by (simp add: incoming_ok_def)
  have uh: "unat ?h = 2 ^ 63 + unat ?t" using t room by (simp add: enter_handle_begin unat_word_ariths)
  have ut: "unat (?t + 1) = unat ?t + 1" using t room by (simp add: unat_word_ariths)
  have "?h \<notin> fst ` set (sv_incoming sv)" using inc uh unfolding incoming_ok_def by fastforce
  then have none: "hm_get (sv_incoming sv) ?h = None" by (simp add: hm_get_None)
  have "\<not> ?h < ENTER_HANDLE_BEGIN" using uh by (simp add: enter_handle_begin word_less_nat_alt)
  then have "\<not> cm_contains ?h (sv_clients sv)" using configured_low dev unfolding devices_ok_def by blast
  then have nst: "cm_get_state ?h (sv_clients sv) = None" using state_contains by blast
  then have nreq: "hm_get (requested (sv_trace sv)) ?h = None" using ex(2) [of ?h] none by (simp add: barrier_of_def)
  have fields: "sv_clients ?sv = sv_clients sv" "sv_next_trigger_handle ?sv = ?t + 1"
    "sv_incoming ?sv = hm_insert ?h ?i (sv_incoming sv)" "set (sv_incoming_conns ?sv) = insert addr (set (sv_incoming_conns sv))"
    "requested (sv_trace ?sv) = hm_insert ?h (pos, EnterOnly) (requested (sv_trace sv))"
    by (simp_all add: add_incoming_def Let_def emit_sv_def capture_created [OF nreq])
  have set: "set (sv_incoming ?sv) = insert (?h, ?i) (set (sv_incoming sv))" by (simp add: fields set_hm_insert_new none)
  have "incoming_ok (Suc n) ?sv"
    unfolding incoming_ok_def
  proof (intro conjI)
    show "hm_ok (sv_incoming ?sv)" using inc by (simp add: fields incoming_ok_def)
    show "unat (sv_next_trigger_handle ?sv) \<le> Suc n" using t by (simp add: fields ut)
    show "set (sv_incoming_conns ?sv) = (in_addr \<circ> snd) ` set (sv_incoming ?sv)"
      unfolding set fields(4) using inc by (simp add: incoming_ok_def)
    have "addr \<notin> (in_addr \<circ> snd) ` set (sv_incoming sv)" using inc new by (simp add: incoming_ok_def)
    then show "inj_on (in_addr \<circ> snd) (set (sv_incoming ?sv))" unfolding set using inc by (auto simp: incoming_ok_def)
    show "\<forall>h \<in> fst ` set (sv_incoming ?sv). 2 ^ 63 \<le> unat h \<and> unat h < 2 ^ 63 + unat (sv_next_trigger_handle ?sv)"
      unfolding set fields(2) using inc uh ut by (auto simp: incoming_ok_def less_Suc_eq)
  qed
  moreover have "hm_get (requested (sv_trace ?sv)) k = barrier_of ?sv k" for k
    using ex(2) [of k] unfolding barrier_of_def fields by (simp add: hash_map)
  ultimately show ?thesis using dev ex(1) by (simp add: routes_inv_def barriers_exact_def fields)
qed

lemma remove_incoming_inv:
  assumes inv: "routes_inv n sv"
  shows "routes_inv n (fst (remove_incoming addr sv))" "addr \<notin> set (sv_incoming_conns (fst (remove_incoming addr sv)))"
proof -
  have inc: "incoming_ok n sv" using inv by (simp add: routes_inv_def)
  have "routes_inv n (fst (remove_incoming addr sv)) \<and> addr \<notin> set (sv_incoming_conns (fst (remove_incoming addr sv)))"
  proof (cases "addr \<in> set (sv_incoming_conns sv)")
    case False
    then show ?thesis using inv incoming_absent [OF inc False] by (simp add: remove_incoming_def)
  next
    case True
    obtain h i where f: "find (\<lambda>(_, i). in_addr i = addr) (sv_incoming sv) = Some (h, i)" and i: "in_addr i = addr"
      and g: "hm_get (sv_incoming sv) h = Some i" by (rule incoming_found [OF inc True])
    let ?sv = "fst (remove_incoming addr sv)"
    have ok: "hm_ok (sv_incoming sv)" and mem: "(h, i) \<in> set (sv_incoming sv)" and inj: "inj_on (in_addr \<circ> snd) (set (sv_incoming sv))"
      using inc g hm_get_set [of "sv_incoming sv" h i] by (simp_all add: incoming_ok_def)
    have ex: "hm_ok (requested (sv_trace sv))" "\<And>k. hm_get (requested (sv_trace sv)) k = barrier_of sv k"
      and dev: "devices_ok (sv_clients sv)" using inv by (simp_all add: routes_inv_def barriers_exact_def)
    have fields: "sv_clients ?sv = sv_clients sv" "sv_next_trigger_handle ?sv = sv_next_trigger_handle sv"
      "sv_incoming ?sv = hm_remove h (sv_incoming sv)" "set (sv_incoming_conns ?sv) = set (sv_incoming_conns sv) - {addr}"
      "requested (sv_trace ?sv) = hm_remove h (requested (sv_trace sv))"
      by (simp_all add: remove_incoming_def f Let_def emit_sv_def capture_destroyed)
    have set: "set (sv_incoming ?sv) = set (sv_incoming sv) - {(h, i)}"
      using ok mem by (auto simp: fields hm_remove_def set_hm_retain hm_get_set)
    have img: "(in_addr \<circ> snd) ` (set (sv_incoming sv) - {(h, i)}) = (in_addr \<circ> snd) ` set (sv_incoming sv) - {addr}"
      using inj_on_image_set_diff [OF inj, of "set (sv_incoming sv)" "{(h, i)}"] mem i by simp
    have "incoming_ok n ?sv"
      unfolding incoming_ok_def
    proof (intro conjI)
      show "set (sv_incoming_conns ?sv) = (in_addr \<circ> snd) ` set (sv_incoming ?sv)"
        unfolding set img fields(4) using inc by (simp add: incoming_ok_def)
      show "inj_on (in_addr \<circ> snd) (set (sv_incoming ?sv))" unfolding set by (rule inj_on_subset [OF inj]) blast
      show "\<forall>h \<in> fst ` set (sv_incoming ?sv). 2 ^ 63 \<le> unat h \<and> unat h < 2 ^ 63 + unat (sv_next_trigger_handle ?sv)"
        unfolding set fields(2) using inc by (auto simp: incoming_ok_def)
    qed (use inc ok in \<open>simp_all add: fields incoming_ok_def\<close>)
    moreover have "h \<in> fst ` set (sv_incoming sv)" using mem by force
    then have "2 ^ 63 \<le> unat h" using inc unfolding incoming_ok_def by blast
    then have "\<not> h < ENTER_HANDLE_BEGIN" by (simp add: enter_handle_begin word_less_nat_alt)
    then have "\<not> cm_contains h (sv_clients sv)" using configured_low dev unfolding devices_ok_def by blast
    then have "cm_get_state h (sv_clients sv) = None" using state_contains by blast
    then have "hm_get (requested (sv_trace ?sv)) k = barrier_of ?sv k" for k
      using ex(2) [of k] ex(1) ok unfolding barrier_of_def fields by (simp add: hash_map)
    ultimately show ?thesis using dev ex(1) by (simp add: routes_inv_def barriers_exact_def fields)
  qed
  then show "routes_inv n (fst (remove_incoming addr sv))" "addr \<notin> set (sv_incoming_conns (fst (remove_incoming addr sv)))" by auto
qed

lemma update_incoming_safe:
  assumes inv: "routes_inv n sv" and room: "n < 2 ^ 63" and old: "addr \<in> set (sv_incoming_conns sv)"
  shows "routes_inv (Suc n) (fst (update_incoming addr pos fingerprint sv)) \<and> snd (update_incoming addr pos fingerprint sv) = Done ()"
proof -
  have inc: "incoming_ok n sv" using inv by (simp add: routes_inv_def)
  obtain h i where f: "find (\<lambda>(_, i). in_addr i = addr) (sv_incoming sv) = Some (h, i)" and i: "in_addr i = addr"
    and g: "hm_get (sv_incoming sv) h = Some i" by (rule incoming_found [OF inc old])
  show ?thesis
  proof (cases "in_fingerprint i \<noteq> fingerprint \<or> in_pos i \<noteq> pos")
    case False
    then show ?thesis using inv by (simp add: update_incoming_def f routes_inv_mono)
  next
    case True
    let ?i = "i\<lparr>in_fingerprint := fingerprint, in_pos := pos\<rparr>"
    let ?u = "sv\<lparr>sv_incoming := hm_insert h ?i (sv_incoming sv)\<rparr>"
    have ok: "hm_ok (sv_incoming sv)" and inj: "inj_on (in_addr \<circ> snd) (set (sv_incoming sv))" and mem: "(h, i) \<in> set (sv_incoming sv)"
      using inc g hm_get_set [of "sv_incoming sv" h i] by (simp_all add: incoming_ok_def)
    have only: "k = h" if "hm_get (sv_incoming sv) k = Some j" "in_addr j = addr" for k j
    proof -
      have "(k, j) \<in> set (sv_incoming sv)" using ok that(1) by (simp add: hm_get_set)
      then show ?thesis using inj_onD [OF inj, of "(k, j)" "(h, i)"] mem i that(2) by simp
    qed
    have "(h, ?i) \<in> set (hm_insert h ?i (sv_incoming sv))" using ok by (simp add: hm_get_set hash_map)
    then have "find (\<lambda>(_, i). in_addr i = addr) (hm_insert h ?i (sv_incoming sv)) \<noteq> None"
      by (rule find_found) (simp add: i)
    then obtain k j where f': "find (\<lambda>(_, i). in_addr i = addr) (hm_insert h ?i (sv_incoming sv)) = Some (k, j)" by auto
    then have kj: "hm_get (hm_insert h ?i (sv_incoming sv)) k = Some j" "in_addr j = addr"
      using ok hm_get_set [of "hm_insert h ?i (sv_incoming sv)" k j] by (auto dest: find_SomeD)
    then have "k = h" using only [of k j] by (auto simp: hash_map split: if_splits)
    then have view: "route_view (fst (remove_incoming addr ?u)) = route_view (fst (remove_incoming addr sv))"
      using f f' by (simp add: remove_incoming_def Let_def route_view_def emit_sv_def hm_remove_insert)
    note gone = remove_incoming_inv [OF inv, of addr]
    have "routes_inv n (fst (remove_incoming addr ?u))" "addr \<notin> set (sv_incoming_conns (fst (remove_incoming addr ?u)))"
      using gone routes_inv_view [OF view] view by (simp_all add: route_view_def)
    from add_incoming_inv [OF this(1) room this(2), of pos fingerprint]
    have "routes_inv (Suc n) (add_incoming addr pos fingerprint (fst (remove_incoming addr ?u)))" .
    then show ?thesis using True by (simp add: update_incoming_def f Let_def)
  qed
qed

section \<open>Events\<close>

lemma conns_same: "route_view sv' = route_view sv \<Longrightarrow> sv_incoming_conns sv' = sv_incoming_conns sv"
  by (simp add: route_view_def)

lemma emulation_event_safe:
  assumes inv: "routes_inv n sv" and room: "n < 2 ^ 63"
  shows "routes_inv (Suc n) (fst (handle_emulation_event env event sv)) \<and> snd (handle_emulation_event env event sv) = Done ()"
proof -
  have same: "routes_inv (Suc n) sv'" if "route_view sv' = route_view sv" for sv' :: "'a service"
    using routes_inv_view [OF that, of n] inv routes_inv_mono by (metis le_SucI order_refl)
  show ?thesis
  proof (cases event)
    case (PeerEntered addr pos fingerprint first relayed along)
    show ?thesis
    proof (cases "sv_input_sharing sv")
      case False
      with PeerEntered show ?thesis by (simp add: handle_emulation_event_def same)
    next
      case True
      let ?p = "\<lparr>ps_edge = pos, ps_peer = Some addr, ps_fingerprint = Some fingerprint, ps_relayed = relayed, ps_along = along\<rparr>"
      let ?c = "emit_sv (ToCapture (SetController (Some (fingerprint, pos)))) sv"
      let ?e = "if first then notify_frontend (EvPointerEntered ?p) (forward_pointer_to_plugins env ?p True ?c) else ?c"
      have view: "route_view ?e = route_view sv" by simp
      have einv: "routes_inv n ?e" using inv routes_inv_view [OF view] by blast
      show ?thesis
      proof (cases "addr \<in> set (sv_incoming_conns ?e)")
        case old: True
        with True PeerEntered update_incoming_safe [OF einv room old] show ?thesis
          by (simp add: handle_emulation_event_def Let_def)
      next
        case False
        let ?a = "add_incoming addr pos fingerprint ?e"
        have a: "routes_inv (Suc n) ?a" by (rule add_incoming_inv [OF einv room False])
        have v: "route_view (notify_frontend (EvDeviceEntered fingerprint addr pos) ?a) = route_view ?a" by simp
        from a routes_inv_view [OF v] have "routes_inv (Suc n) (notify_frontend (EvDeviceEntered fingerprint addr pos) ?a)" by blast
        with True PeerEntered False show ?thesis by (simp add: handle_emulation_event_def Let_def)
      qed
    qed
  next
    case (PeerDisconnected addr)
    let ?l = "history_peer_lost env (EmulationPeer addr) sv"
    have "routes_inv n ?l" using inv routes_inv_view [OF peer_lost_view] by blast
    then have "routes_inv (Suc n) (fst (remove_incoming addr ?l))" using remove_incoming_inv(1) routes_inv_mono by (metis le_SucI order_refl)
    moreover have "route_view (case x of None \<Rightarrow> y | Some a \<Rightarrow> notify_frontend (EvIncomingDisconnected a) y) = route_view y" for x and y :: "'a service"
      by (simp split: option.split)
    ultimately show ?thesis using PeerDisconnected routes_inv_view
      by (simp add: handle_emulation_event_def case_prod_beta) blast
  next
    case (PortChanged port)
    then show ?thesis by (cases port) (simp_all add: handle_emulation_event_def same)
  next
    case (PublicationFallback fallback)
    then show ?thesis by (cases fallback) (simp_all add: handle_emulation_event_def same split: option.split)
  next
    case (PeerHello addr commit)
    have h: "routes_inv (Suc n) (broadcast_client h (sv\<lparr>sv_clients := cm_set_peer_commit h (Some commit) (sv_clients sv)\<rparr>))" for h
      using setter_inv(6) [OF inv, of h "Some commit"] routes_inv_view [OF routes.broadcast_kept] routes_inv_mono by (metis le_SucI order_refl)
    then show ?thesis using PeerHello by (simp add: handle_emulation_event_def same split: option.split)
  qed (simp_all add: handle_emulation_event_def Let_def same split: option.split)
qed

lemma peer_authenticated_inv:
  assumes inv: "routes_inv n sv" shows "routes_inv n (peer_authenticated env h fingerprint sv)"
proof -
  let ?r = "refresh_manual_routes env (sv\<lparr>sv_capture_fingerprints := hm_insert h fingerprint (sv_capture_fingerprints sv)\<rparr>)"
  have r: "routes_inv n ?r" using inv routes_inv_view [of ?r sv n] by simp
  let ?f = "?r\<lparr>sv_clients := cm_set_peer_fingerprint h fingerprint (sv_clients ?r)\<rparr>"
  have f: "routes_inv n ?f" by (rule fingerprint_inv' [OF r])
  let ?s = "if cm_peer_fingerprint h (sv_clients ?r) \<noteq> Some fingerprint then save_config env ?f else ?r"
  have s: "routes_inv n ?s" using r f routes_inv_view [OF routes.publish_kept(3), of n env ?f] by simp
  have "route_view (request_profile env fingerprint (CapturePeer h) (notify_frontend (EvClientFingerprint h fingerprint) (publish_peer_sides env ?s)))
    = route_view ?s" by simp
  from s routes_inv_view [OF this]
  have "routes_inv n (request_profile env fingerprint (CapturePeer h) (notify_frontend (EvClientFingerprint h fingerprint) (publish_peer_sides env ?s)))"
    by blast
  with r show ?thesis by (simp add: peer_authenticated_def Let_def)
qed

lemma capture_event_inv:
  assumes inv: "routes_inv n sv" shows "routes_inv n (handle_icapture_event env event sv)"
proof -
  have same: "routes_inv n sv'" if "route_view sv' = route_view sv" for sv' :: "'a service"
    using routes_inv_view [OF that, of n] inv by blast
  have "routes_inv n (capture_event_action env event sv)"
  proof (cases event)
    case (PeerAuthenticated h f)
    then show ?thesis using peer_authenticated_inv [OF inv] by (simp add: capture_event_action_def)
  qed (simp_all add: capture_event_action_def Let_def case_prod_beta same)
  with inv show ?thesis by (simp add: handle_icapture_event_def split: option.split)
qed

section \<open>The start\<close>

lemma load_clients_done:
  assumes "load_clients ks cm = (cm', Done ())" "cm_inv cm" "\<And>h e. cm_get_state h cm = Some e \<Longrightarrow> ips_ok e"
  shows "cm_inv cm' \<and> (\<forall>h e. cm_get_state h cm' = Some e \<longrightarrow> ips_ok e)"
  using assms
proof (induction ks arbitrary: cm)
  case (Cons k ks)
  obtain cm1 h where add: "cm_add_with_config k cm = (cm1, Done h)"
    using Cons.prems(1) by (cases "cm_add_with_config k cm"; cases "snd (cm_add_with_config k cm)") auto
  note new = add_with_config_done [OF Cons.prems(2) add]
  have "load_clients ks cm1 = (cm', Done ())" using Cons.prems(1) add by simp
  moreover have "ips_ok e" if "cm_get_state x cm1 = Some e" for x e
    using that Cons.prems(3) new(7) [of x] by (auto simp: ips_ok_def client_state_default_def split: if_splits)
  ultimately show ?case using Cons.IH new(4) by blast
qed simp

lemma deactivate_all:
  assumes "cm_inv cm"
  shows "cm_inv (fold (\<lambda>h cm. fst (cm_deactivate_client h cm)) hs cm) \<and>
    (\<forall>k. cm_get_state k (fold (\<lambda>h cm. fst (cm_deactivate_client h cm)) hs cm) =
       (if k \<in> set hs then map_option (switched False) (cm_get_state k cm) else cm_get_state k cm))"
  using assms
proof (induction hs arbitrary: cm)
  case (Cons h hs)
  have twice: "switched False (switched False e) = switched False e" for e by (simp add: switched_def)
  note IH = Cons.IH [OF deactivate_cm_inv [OF Cons.prems, of h]]
  show ?case using IH Cons.prems by (auto simp: deactivate_state twice option.map_comp comp_def)
qed simp

lemma active_clients_iff:
  "cm_inv cm \<Longrightarrow> h \<in> set (cm_active_clients cm) \<longleftrightarrow> (\<exists>pos. active_at h pos cm)"
  using bt_ok_hm_ok [of "cm_clients cm"]
  by (force simp: cm_active_clients_def active_at_def cm_get_state_def hm_get_set split: option.splits)

lemma start_routes_inv:
  assumes "load_clients ks cm_default = (cm, Done ())" "sv_clients sv = cm" "sv_incoming sv = []" "sv_incoming_conns sv = []"
    "sv_next_trigger_handle sv = 0" "sv_trace sv = []"
  shows "routes_inv 0 (start_routes env sv)"
proof -
  have "cm_inv cm \<and> (\<forall>h e. cm_get_state h cm = Some e \<longrightarrow> ips_ok e)"
    by (rule load_clients_done [OF assms(1)]) (simp_all add: cm_default_def cm_get_state_def hash_map cm_default_inv [unfolded cm_default_def])
  then have cm: "cm_inv cm" and ips: "\<And>h e. cm_get_state h cm = Some e \<Longrightarrow> ips_ok e" by auto
  let ?p = "publish_peer_sides env sv"
  have view: "route_view ?p = route_view sv" by simp
  then have pc: "sv_clients ?p = cm" using assms(2) by (simp add: route_view_def)
  let ?off = "fold (\<lambda>h cm. fst (cm_deactivate_client h cm)) (cm_active_clients cm) cm"
  note off = deactivate_all [OF cm, of "cm_active_clients cm"]
  have none: "\<not> active_at h pos ?off" for h pos
  proof
    assume a: "active_at h pos ?off"
    then have "h \<notin> set (cm_active_clients cm)" using off by (auto simp: active_at_def switched_def split: option.splits if_splits)
    with a off have "active_at h pos cm" by (simp add: active_at_def)
    with \<open>h \<notin> set (cm_active_clients cm)\<close> show False using active_clients_iff [OF cm] by blast
  qed
  have oips: "ips_ok e" if "cm_get_state h ?off = Some e" for h e
    using that off ips by (auto split: if_splits)
  have inactive: "\<not> cst_active s" if "cm_get_state h ?off = Some (c, s)" for h c s
    using none [of h "cfg_pos c"] that by (simp add: active_at_def)
  let ?sv = "?p\<lparr>sv_clients := ?off\<rparr>"
  have fields: "sv_incoming ?sv = []" "sv_incoming_conns ?sv = []" "sv_next_trigger_handle ?sv = 0" "requested (sv_trace ?sv) = []"
    using view assms by (simp_all add: route_view_def)
  have dev: "devices_ok ?off" unfolding devices_ok_def using off none oips by blast
  have inc: "incoming_ok 0 ?sv" by (simp add: incoming_ok_def fields)
  have "barrier_of ?sv h = None" for h
  proof (cases "cm_get_state h ?off")
    case (Some e)
    then show ?thesis using inactive [of h "fst e" "snd e"] by (simp add: barrier_of_def fields hash_map case_prod_beta)
  qed (simp add: barrier_of_def fields hash_map)
  then have "barriers_exact ?sv" unfolding barriers_exact_def fields by (simp add: hash_map)
  with dev inc have base: "routes_inv 0 ?sv" by (simp add: routes_inv_def)
  have "routes_inv 0 (fold sv_activate_client (cm_active_clients cm) ?sv)" by (rule fold_inv [OF activate_inv base])
  then show ?thesis by (simp add: start_routes_def Let_def pc)
qed

end
