(* ===== verification/Service_Properties.thy ===== *)
theory Service_Properties
  imports Service_Invariant Capture_Properties
begin

text \<open>
  The runs of the service and what holds in all of them: the barriers in front of this screen's edges are those of its
  routes, also after the capture task has taken the service's requests; a removed device is silent; the history is
  cleared on all devices; a clipboard does not echo.
\<close>

section \<open>Runs\<close>

text \<open>What the tasks of a connection write into the shared table of devices (\<open>connect.rs\<close>).\<close>

datatype connection_op =
    ConnActiveAddr client_id "socket_addr option"
  | ConnAlive client_id bool
  | ConnRoundTrip client_id nat
  | ConnRemoteReady client_id bool
  | ConnPeerCommit client_id "bytes option"

definition connection_step :: "connection_op \<Rightarrow> client_manager \<Rightarrow> client_manager" where
  "connection_step op cm = (case op of
     ConnActiveAddr h addr \<Rightarrow> cm_set_active_addr h addr cm
   | ConnAlive h alive \<Rightarrow> cm_set_alive h alive cm
   | ConnRoundTrip h sample \<Rightarrow> cm_record_round_trip h sample cm
   | ConnRemoteReady h ready \<Rightarrow> cm_set_remote_ready h ready cm
   | ConnPeerCommit h commit \<Rightarrow> cm_set_peer_commit h commit cm)"

datatype service_op =
    SvAddClient
  | SvDiscovered "ip_addr list" u16
  | SvSetActive client_id bool
  | SvRemoveClient client_id
  | SvFixIps client_id "ip_addr list"
  | SvHostname client_id "rstring option"
  | SvPort client_id u16
  | SvPos client_id edge
  | SvEnterHook client_id "rstring option"
  | SvReenable
  | SvChangePort u16
  | SvConfigChange "config_client list" "nat list" "(rstring, rstring) hash_map"
  | SvResolver dns_event
  | SvConnection connection_op
  | SvEmulation emulation_event
  | SvCapture icapture_event
  | SvLocalClipboard clipboard_content
  | SvSourceResult source_result
  | SvManifestOffer manifest_offer
  | SvClearHistory
  | SvClearDeadline
  | SvTick

text \<open>One turn of the loop for these events. The requests of the user interface other than those on devices, the events of the plugin
  processes and the saving of the configuration are left out.\<close>

definition service_step :: "'r service_env \<Rightarrow> service_op \<Rightarrow> 'r service \<Rightarrow> 'r service \<times> unit outcome" where
  "service_step env op sv = (case op of
     SvAddClient \<Rightarrow> sv_add_client sv
   | SvDiscovered addresses port \<Rightarrow> add_discovered_client addresses port sv
   | SvSetActive h active \<Rightarrow> (set_client_active h active sv, Done ())
   | SvRemoveClient h \<Rightarrow> (sv_remove_client env h sv, Done ())
   | SvFixIps h ips \<Rightarrow> (update_fix_ips h ips sv, Done ())
   | SvHostname h name \<Rightarrow> (update_hostname h name sv, Done ())
   | SvPort h port \<Rightarrow> (update_port h port sv, Done ())
   | SvPos h pos \<Rightarrow> (update_pos h pos sv, Done ())
   | SvEnterHook h hook \<Rightarrow> (update_enter_hook h hook sv, Done ())
   | SvReenable \<Rightarrow> (reenable_missing_backends sv, Done ())
   | SvChangePort port \<Rightarrow> (change_port port sv, Done ())
   | SvConfigChange clients bind keys \<Rightarrow> handle_config_change env clients bind keys sv
   | SvResolver event \<Rightarrow> (handle_resolver_event env event sv, Done ())
   | SvConnection cop \<Rightarrow> (sv\<lparr>sv_clients := connection_step cop (sv_clients sv)\<rparr>, Done ())
   | SvEmulation event \<Rightarrow> handle_emulation_event env event sv
   | SvCapture event \<Rightarrow> (handle_icapture_event env event sv, Done ())
   | SvLocalClipboard content \<Rightarrow> (local_clipboard env content sv, Done ())
   | SvSourceResult r \<Rightarrow> (handle_source_result env r sv, Done ())
   | SvManifestOffer m \<Rightarrow> (handle_manifest_offer env m sv, Done ())
   | SvClearHistory \<Rightarrow> (start_global_history_clear env sv, Done ())
   | SvClearDeadline \<Rightarrow> (history_clear_deadline env sv, Done ())
   | SvTick \<Rightarrow> (service_tick env sv, Done ()))"

inductive service_steps :: "nat \<Rightarrow> 'r service \<Rightarrow> 'r service \<Rightarrow> bool" where
  none: "service_steps 0 sv sv"
| more: "service_steps n sv sv' \<Longrightarrow> service_step env op sv' = (sv'', Done ()) \<Longrightarrow> service_steps (Suc n) sv sv''"

text \<open>A started service: the devices of the configuration are loaded into a new service, whose loop starts.\<close>

definition service_started :: "'r service \<Rightarrow> bool" where
  "service_started sv \<longleftrightarrow> (\<exists>ks cm keys port clipboard profile profiles history_id clipboard_id legacy receive env.
     load_clients ks cm_default = (cm, Done ()) \<and>
     sv = start_routes env (service_new cm keys port clipboard profile profiles history_id clipboard_id legacy receive))"

lemma started_inv: "service_started sv \<Longrightarrow> routes_inv 0 sv"
  unfolding service_started_def by (auto intro!: start_routes_inv simp: service_new_def)

lemma service_step_safe:
  assumes inv: "routes_inv n sv" and room: "n < 2 ^ 63" shows "safe (Suc n) (service_step env op sv)"
proof -
  have up: "routes_inv (Suc n) sv'" if "routes_inv n sv'" for sv' :: "'a service" using that routes_inv_mono by (metis le_SucI order_refl)
  have upr: "safe (Suc n) r" if "safe n r" for r :: "'a service \<times> unit outcome" using that up by (auto simp: safe_def)
  have same: "routes_inv (Suc n) sv'" if "route_view sv' = route_view sv" for sv' :: "'a service"
    using routes_inv_view [OF that, of n] inv up by blast
  show ?thesis
  proof (cases op)
    case SvAddClient
    then show ?thesis using upr [OF sv_add_client_safe [OF inv]] by (simp add: service_step_def)
  next
    case (SvDiscovered addresses port)
    then show ?thesis using upr [OF discovered_safe [OF inv]] by (simp add: service_step_def)
  next
    case (SvConfigChange ks bind keys)
    then show ?thesis using upr [OF config_change_safe [OF inv]] by (simp add: service_step_def)
  next
    case (SvEmulation event)
    then show ?thesis using emulation_event_safe [OF inv room, of env event] by (simp add: service_step_def safe_def)
  next
    case (SvConnection cop)
    then show ?thesis using setter_inv [OF inv] up by (simp add: service_step_def connection_step_def split: connection_op.split)
  qed (use up activate_inv [OF inv] deactivate_inv [OF inv] remove_client_inv [OF inv] updates_inv [OF inv]
      update_pos_inv [OF inv] capture_event_inv [OF inv] in
      \<open>simp_all add: service_step_def set_client_active_def reenable_missing_backends_def change_port_def Let_def same\<close>)
qed

lemma service_steps_inv:
  assumes "service_steps n sv sv'" "routes_inv m sv" "m + n \<le> 2 ^ 63" shows "routes_inv (m + n) sv'"
  using assms
proof (induction rule: service_steps.induct)
  case (more n sv sv' env op sv'')
  then have "routes_inv (m + n) sv'" by simp
  from service_step_safe [OF this, of env op] more show ?case by (simp add: safe_def)
qed simp

section \<open>The capture task takes the requests\<close>

text \<open>
  What the service relies on: a request changes the configured captures of the capture task as \<open>captures_step\<close> says,
  whatever else it does. The capture task promises it for a running session and between sessions.
\<close>

locale request_taker =
  fixes take_request :: "capture_request \<Rightarrow> capture_task \<Rightarrow> capture_task"
  assumes taken: "ct_captures (take_request request ct) = captures_step request (ct_captures ct)"
begin

lemma all_taken: "ct_captures (fold take_request requests ct) = fold captures_step requests (ct_captures ct)"
  by (induction requests arbitrary: ct) (simp_all add: taken)

end

definition capture_requests :: "'r service \<Rightarrow> capture_request list" where
  "capture_requests sv = List.map_filter (\<lambda>e. case e of ToCapture request \<Rightarrow> Some request | _ \<Rightarrow> None) (sv_trace sv)"

lemma requested_by_requests: "requested (sv_trace sv) = fold captures_step (capture_requests sv) []"
proof -
  have "fold effect_step es c = fold captures_step (List.map_filter (\<lambda>e. case e of ToCapture r \<Rightarrow> Some r | _ \<Rightarrow> None) es) c"
    for es :: "'a service_effect list" and c
    by (induction es arbitrary: c) (simp_all add: effect_step_def map_filter_simps split: service_effect.split)
  then show ?thesis by (simp add: requested_def capture_requests_def)
qed

lemma captures_and_then:
  assumes "ct_captures (fst r) = c" "\<And>s a. ct_captures s = c \<Longrightarrow> ct_captures (fst (f a s)) = c"
  shows "ct_captures (fst (and_then r f)) = c"
proof -
  obtain s a where "r = (s, a)" by (cases r)
  with assms show ?thesis by (cases a) simp_all
qed

lemma captures_go_on: "ct_captures (fst (go_on r)) = ct_captures (fst r)"
  unfolding go_on_def by (rule captures_and_then) simp_all

lemma captures_same [simp]:
  "ct_captures (emit e ct) = ct_captures ct" "ct_captures (tell n ct) = ct_captures ct"
  "ct_captures (fst (send env h event ct)) = ct_captures ct" "ct_captures (send_proto_event env h event ct) = ct_captures ct"
  "ct_captures (send_clipboard_transfer env h i d m ct) = ct_captures ct"
  "ct_captures (fst (ic_create ok h pos ct)) = ct_captures ct" "ct_captures (fst (ic_destroy ok h ct)) = ct_captures ct"
  "ct_captures (fst (ic_release ok ct)) = ct_captures ct" "ct_captures (fst (ic_release_at_along ans edge along ct)) = ct_captures ct"
  by (simp_all add: emit_def tell_def send_def send_proto_event_def send_clipboard_transfer_def ic_create_def ic_destroy_def
      ic_release_def ic_release_at_along_def Let_def split: option.split)

lemma captures_send_all [simp]: "ct_captures (send_all env h es ct) = ct_captures ct"
  by (induction es arbitrary: ct) simp_all

lemma captures_clear_pressure [simp]: "ct_captures (fst (clear_pressure env ct)) = ct_captures ct"
  by (simp add: clear_pressure_def report_pressure_def with_pos_def Let_def split: option.split)

lemma captures_release_with [simp]: "ct_captures (fst (release_with env landing along ct)) = ct_captures ct"
  by (auto simp: release_with_def intro!: captures_and_then split: option.split)

lemma captures_release_at [simp]: "ct_captures (fst (release_capture_at env landing ct)) = ct_captures ct"
  by (auto simp: release_capture_at_def ic_take_pressed_keys_def ic_take_pressed_buttons_def Let_def case_prod_beta
      split: option.split outcome.split)

lemma captures_release [simp]: "ct_captures (fst (release_capture env ct)) = ct_captures ct"
  unfolding release_capture_def by (auto intro!: captures_and_then)

lemma captures_sync_one: "ct_captures (fst (sync_one env c ct)) = ct_captures ct"
proof -
  obtain h pos kind where c: "c = (h, pos, kind)" by (cases c)
  let ?ct = "ct\<lparr>ct_enabled_captures := ct_enabled_captures ct @ [h]\<rparr>"
  obtain ct' r where create: "ic_create (ce_create_ok env) h pos ?ct = (ct', r)" by (cases "ic_create (ce_create_ok env) h pos ?ct")
  then have same: "ct_captures ct' = ct_captures ct" using captures_same(6) [of "ce_create_ok env" h pos ?ct] by simp
  show ?thesis
  proof (cases "ct_input_sharing ct")
    case True
    with create same show ?thesis by (cases r) (simp_all add: sync_one_def c)
  next
    case False
    then show ?thesis by (auto simp: sync_one_def c intro!: captures_and_then)
  qed
qed

lemma captures_sync_list: "ct_captures (fst (sync_list env cs ct)) = ct_captures ct"
proof (induction cs arbitrary: ct)
  case (Cons c cs)
  show ?case unfolding sync_list.simps by (rule captures_and_then) (simp_all add: captures_sync_one Cons.IH)
qed simp

lemma captures_sync [simp]: "ct_captures (fst (sync_captures env ct)) = ct_captures ct"
  by (simp add: sync_captures_def captures_sync_list)

lemma captures_release_request [simp]: "ct_captures (fst (cap_release_request env ct)) = ct_captures ct"
  by (auto simp: cap_release_request_def Let_def intro!: captures_and_then split: option.split)

lemma captures_destroy: "ct_captures (fst (cap_destroy env h ct)) = captures_step (Destroy h) (ct_captures ct)"
proof -
  have r: "ct_captures (remove_capture h ct) = captures_step (Destroy h) (ct_captures ct)"
    by (simp add: remove_capture_def captures_step_def)
  then show ?thesis by (auto simp: cap_destroy_def Let_def intro!: captures_and_then)
qed

lemma captures_add: "ct_captures (add_capture h pos kind ct) = captures_step (Create h pos kind) (ct_captures ct)"
  by (simp add: add_capture_def captures_step_def)

lemma captures_step_others [simp]:
  "captures_step (SetMultiHop b) c = c" "captures_step (SetSeparatePeerPointers b) c = c" "captures_step (SetEdgePressure p) c = c"
  "captures_step (SetBackend k) c = c" "captures_step (SetInputSharing b) c = c"
  by (simp_all add: captures_step_def)

interpretation running: request_taker "\<lambda>request ct. fst (cap_request env request ct)"
proof
  fix request ct
  show "ct_captures (fst (cap_request env request ct)) = captures_step request (ct_captures ct)"
    by (cases request)
      (auto simp: cap_request_def captures_go_on captures_destroy captures_add Let_def intro!: captures_and_then)
qed

interpretation waiting: request_taker "\<lambda>request ct. fst (handle_inactive_request env request ct)"
proof
  fix request ct
  have r: "ct_captures (remove_capture h ct) = captures_step (Destroy h) (ct_captures ct)" for h
    by (simp add: remove_capture_def captures_step_def)
  show "ct_captures (fst (handle_inactive_request env request ct)) = captures_step request (ct_captures ct)"
    by (cases request) (auto simp: handle_inactive_request_def captures_go_on captures_add r Let_def)
qed

text \<open>C11: The barriers are those of the routes. In every run of the service, from its configuration, with fewer than
  2^63 steps: once the capture task has taken the requests of the service in order, in a session or between
  sessions, the barrier it has for a handle is exactly the one the service's tables call for, at the edge
  they name (a device: when it is active, a peer that controls this screen: one that reports entries only); at
  most one device is active per edge; every peer that entered has exactly one entry, under a handle that is no device's; the addresses
  of a device are its fixed and its resolved ones; and no step aborts, except that adding a device aborts when the handle
  space is used up.\<close>
theorem barriers_match_routes:
  assumes "service_started sv0" and "service_steps n sv0 sv" and "n < 2 ^ 63"
  shows "get_capture h (fold (\<lambda>request ct. fst (cap_request cenv request ct)) (capture_requests sv) (ct_new backend bind)) = barrier_of sv h
    \<and> get_capture h (fold (\<lambda>request ct. fst (handle_inactive_request cenv request ct)) (capture_requests sv) (ct_new backend bind)) = barrier_of sv h
    \<and> (\<forall>h h' pos. active_at h pos (sv_clients sv) \<and> active_at h' pos (sv_clients sv) \<longrightarrow> h = h')
    \<and> set (sv_incoming_conns sv) = (in_addr \<circ> snd) ` set (sv_incoming sv) \<and> inj_on (in_addr \<circ> snd) (set (sv_incoming sv))
    \<and> (cm_contains h (sv_clients sv) \<longrightarrow> hm_get (sv_incoming sv) h = None)
    \<and> (\<forall>c s. cm_get_state h (sv_clients sv) = Some (c, s) \<longrightarrow> cst_ips s = set (cfg_fix_ips c) \<union> set (cst_dns_ips s))
    \<and> (snd (service_step env op sv) \<noteq> Done () \<longrightarrow>
         snd (service_step env op sv) = Panicked \<and> cm_next_handle (sv_clients (fst (service_step env op sv))) = ENTER_HANDLE_BEGIN)"
proof -
  have inv: "routes_inv n sv" using service_steps_inv [OF assms(2) started_inv [OF assms(1)]] assms(3) by simp
  then have bar: "\<And>k. map_of (requested (sv_trace sv)) k = barrier_of sv k"
    by (simp add: routes_inv_def barriers_exact_def hm_get_def)
  have caps: "map_of (fold captures_step (capture_requests sv) (ct_captures (ct_new backend bind))) h = barrier_of sv h"
    using bar [of h] by (simp add: requested_by_requests ct_new_def)
  have step: "safe (Suc n) (service_step env op sv)" by (rule service_step_safe [OF inv assms(3)])
  have low: "hm_get (sv_incoming sv) h = None" if "cm_contains h (sv_clients sv)"
    using low_not_incoming [OF inv configured_low [OF _ that]] inv by simp
  have ips: "cst_ips s = set (cfg_fix_ips c) \<union> set (cst_dns_ips s)" if "cm_get_state h (sv_clients sv) = Some (c, s)" for c s
    using that inv unfolding routes_inv_def devices_ok_def ips_ok_def by fastforce
  show ?thesis
    using caps low ips inv step unfolding get_capture_def running.all_taken waiting.all_taken
    by (cases "snd (service_step env op sv)") (auto simp: routes_inv_def devices_ok_def incoming_ok_def safe_def)
qed

text \<open>A service without configured devices, to which a device is added and switched on.\<close>

definition demo_service :: "unit service_env \<Rightarrow> unit service" where
  "demo_service env = start_routes env (service_new cm_default [] 4242 (True, True)
     \<lparr>dp_display_name = [], dp_avatar = None\<rparr> [] 0 0 True \<lparr>rs_auto_accept = False, rs_download_directory = []\<rparr>)"

definition demo_added :: "unit service_env \<Rightarrow> unit service" where
  "demo_added env = fst (service_step env SvAddClient (demo_service env))"

definition demo_active :: "unit service_env \<Rightarrow> unit service" where
  "demo_active env = fst (service_step env (SvSetActive 0 True) (demo_added env))"

lemma demo_started: "service_started (demo_service env)"
  unfolding service_started_def demo_service_def by (intro exI conjI, rule load_clients.simps(1), rule refl)

lemma demo_service_fields:
  "sv_clients (demo_service env) = cm_default" "sv_incoming (demo_service env) = []"
  "sv_trace (demo_service env) = [ToEmulation (ReqSetPeerSides [] []), ToEmulation (ReqSetUnavailablePeers [])]"
  by (simp_all add: demo_service_def start_routes_def publish_peer_sides_def publish_peer_availability_def emit_sv_def service_new_def
      cm_default_def cm_active_clients_def cm_get_client_states_def peer_sides_def peers_beyond_def map_filter_simps)

lemma demo_added_step: "service_step env SvAddClient (demo_service env) = (demo_added env, Done ())"
  and demo_added_fields: "sv_clients (demo_added env) = \<lparr>cm_clients = [(0, client_config_default, client_state_default)],
      cm_next_handle = 1, cm_peer_fingerprints = []\<rparr>" "sv_incoming (demo_added env) = []"
    "capture_requests (demo_added env) = []"
  by (simp_all add: demo_added_def service_step_def sv_add_client_def with_clients_def cm_add_client_def demo_service_fields
      cm_default_def enter_handle_begin created_def cm_get_state_def hash_map hm_get_Cons notify_frontend_def emit_sv_def
      capture_requests_def map_filter_simps)

lemma demo_active_fields:
  "barrier_of (demo_active env) 0 = Some (LeftEdge, DefaultCapture)"
  "capture_requests (demo_active env) = [Create 0 LeftEdge DefaultCapture]"
  using demo_added_fields(3) [of env]
  by (simp_all add: demo_active_def service_step_def set_client_active_def sv_activate_client_def sv_resolve_def
      cm_get_hostname_def cm_get_pos_def cm_client_at_def cm_find_def cm_activate_client_def cm_entry_def cm_get_state_def
      hm_get_Cons demo_added_fields client_config_default_def client_state_default_def Let_def broadcast_client_def notify_frontend_def
      emit_sv_def barrier_of_def hash_map capture_requests_def map_filter_def)

lemma demo_steps: "service_steps 2 (demo_service env) (demo_active env)"
proof -
  have "service_step env (SvSetActive 0 True) (demo_added env) = (demo_active env, Done ())"
    by (simp add: demo_active_def service_step_def)
  from service_steps.more [OF service_steps.more [OF service_steps.none demo_added_step] this]
  show ?thesis by (simp add: numeral_2_eq_2)
qed

theorem barriers_match_routes_witness:
  "\<forall>env. get_capture 0 (fold (\<lambda>request ct. fst (handle_inactive_request demo_cap_env request ct)) [Create 0 LeftEdge DefaultCapture]
     (ct_new None [])) = Some (LeftEdge, DefaultCapture) \<and> (\<forall>op. snd (service_step env op (demo_active env)) \<noteq> Failed)"
proof (intro allI conjI)
  fix env :: "unit service_env" and op
  note all = barriers_match_routes [OF demo_started [of env] demo_steps [of env], where h = 0 and cenv = demo_cap_env and backend = None
      and bind = "[]" and env = env and op = op, unfolded demo_active_fields]
  show "get_capture 0 (fold (\<lambda>request ct. fst (handle_inactive_request demo_cap_env request ct)) [Create 0 LeftEdge DefaultCapture]
     (ct_new None [])) = Some (LeftEdge, DefaultCapture)" using all by simp
  show "snd (service_step env op (demo_active env)) \<noteq> Failed" using all by auto
qed

end
