(* ===== verification/Service_Guards.thy ===== *)
theory Service_Guards
  imports Service_Properties
begin

text \<open>
  Two guards of the service over its runs: a device that was removed stays silent, because its handle is never
  used again and every event that names it is dropped; and a clipboard that came from a peer is not sent back when the
  desktop reports it.
\<close>

section \<open>Views that the tables of routes do not touch\<close>

locale settings_view = service_view view for view :: "'r service \<Rightarrow> 'v" +
  assumes tables [simp]: "view (sv\<lparr>sv_clients := c\<rparr>) = view sv" "view (sv\<lparr>sv_incoming_conns := l\<rparr>) = view sv"
    "view (sv\<lparr>sv_incoming := m\<rparr>) = view sv" "view (sv\<lparr>sv_next_trigger_handle := w\<rparr>) = view sv"
  and emitted [simp]: "view (emit_sv effect sv) = view sv"
begin

lemma and_then_kept: "view (fst r) = v \<Longrightarrow> (\<And>x s. view s = v \<Longrightarrow> view (fst (f x s)) = v) \<Longrightarrow> view (fst (and_then r f)) = v"
  by (cases r; cases "snd r") auto

lemma with_clients_kept [simp]: "view (fst (with_clients f sv)) = view sv"
  by (simp add: with_clients_def case_prod_beta)

lemma created_kept [simp]: "view (fst (created h sv)) = view sv"
  by (simp add: created_def split: option.split)

lemma add_clients_kept [simp]:
  "view (fst (sv_add_client sv)) = view sv" "view (fst (add_discovered_client addresses port sv)) = view sv"
  by (auto simp: sv_add_client_def add_discovered_client_def intro!: and_then_kept)

lemma deactivate_kept [simp]: "view (sv_deactivate_client h sv) = view sv"
  by (simp add: sv_deactivate_client_def Let_def case_prod_beta)

lemma activate_kept [simp]: "view (sv_activate_client h sv) = view sv"
  by (simp add: sv_activate_client_def Let_def case_prod_beta split: option.split)

lemma device_updates_kept [simp]:
  "view (set_client_active h b sv) = view sv" "view (update_fix_ips h ips sv) = view sv" "view (update_hostname h name sv) = view sv"
  "view (update_port h port sv) = view sv" "view (update_pos h pos sv) = view sv" "view (update_enter_hook h hook sv) = view sv"
  "view (reenable_missing_backends sv) = view sv" "view (change_port port sv) = view sv"
  "view (handle_resolver_event env e sv) = view sv"
  by (simp_all add: set_client_active_def update_fix_ips_def update_hostname_def update_port_def update_pos_def
      update_enter_hook_def reenable_missing_backends_def change_port_def handle_resolver_event_def Let_def case_prod_beta
      split: dns_event.split)

lemma reload_client_kept: "view (fst (reload_client k sv)) = view sv"
  by (auto simp: reload_client_def Let_def intro!: and_then_kept split: option.split)

lemma reload_clients_kept: "view (fst (reload_clients ks sv)) = view sv"
  by (induction ks arbitrary: sv) (auto intro!: and_then_kept simp: reload_client_kept)

lemma incoming_kept [simp]:
  "view (add_incoming addr pos f sv) = view sv" "view (fst (remove_incoming addr sv)) = view sv"
  "view (fst (update_incoming addr pos f sv)) = view sv"
  by (simp_all add: add_incoming_def remove_incoming_def update_incoming_def Let_def split: option.split prod.split)

lemma emulation_lost_kept [simp]: "view (history_peer_lost env (EmulationPeer addr) sv) = view sv"
  by (simp add: history_peer_lost_def Let_def split: option.split)

end

interpretation clients: service_view sv_clients
  by unfold_locales (simp_all add: emit_sv_def)

interpretation auth: settings_view sv_capture_fingerprints
  by unfold_locales (simp_all add: emit_sv_def)

definition clip_view :: "'r service \<Rightarrow> clipboard_content list \<times> bool \<times> bool" where
  "clip_view sv = (sv_echoes sv, sv_share_text sv, sv_share_image sv)"

interpretation clips: settings_view clip_view
  by unfold_locales (simp_all add: emit_sv_def clip_view_def)

section \<open>A removed device\<close>

text \<open>Handles only grow, and what was not registered below the counter stays unregistered.\<close>

definition handles_grow :: "client_manager \<Rightarrow> client_manager \<Rightarrow> bool" where
  "handles_grow cm cm' \<longleftrightarrow> cm_inv cm' \<and> cm_next_handle cm \<le> cm_next_handle cm' \<and>
     (\<forall>h. h < cm_next_handle cm \<and> cm_contains h cm' \<longrightarrow> cm_contains h cm)"

lemma grow_refl [simp]: "handles_grow cm cm = cm_inv cm"
  by (auto simp: handles_grow_def)

lemma grow_trans: "handles_grow a b \<Longrightarrow> handles_grow b c \<Longrightarrow> handles_grow a c"
  unfolding handles_grow_def by (meson order.strict_trans2 order_trans)

lemma grow_same: "cm_inv cm \<Longrightarrow> same_handles cm cm' \<Longrightarrow> handles_grow cm cm'"
  using same_handles_inv by (auto simp: handles_grow_def same_handles_def)

lemma grow_add: "cm_inv cm \<Longrightarrow> cm_add_client cm = (cm', Done h) \<Longrightarrow> handles_grow cm cm'"
  using add_client_done [of cm cm' h] by (auto simp: handles_grow_def)

lemma grow_add_with_config: "cm_inv cm \<Longrightarrow> cm_add_with_config k cm = (cm', Done h) \<Longrightarrow> handles_grow cm cm'"
  using add_with_config_done [of cm k cm' h] by (auto simp: handles_grow_def)

lemma grow_ops:
  assumes "cm_inv cm"
  shows "handles_grow cm (fst (cm_remove_client h cm))" "handles_grow cm (cm_set_peer_fingerprint h f cm)"
    "handles_grow cm (fst (cm_activate_client h cm))" "handles_grow cm (fst (cm_deactivate_client h cm))"
    "handles_grow cm (fst (cm_set_hostname h n cm))" "handles_grow cm (fst (cm_set_pos h p cm))"
    "handles_grow cm (cm_entry h g cm)"
  using remove_inv [OF assms] fingerprint_inv [OF assms] answers_same_handles [OF assms, THEN grow_same [OF assms]]
    grow_same [OF assms same_handles_entry [OF same_handles_refl [OF assms]]] by (auto simp: handles_grow_def)

lemma grow_setters:
  assumes "cm_inv cm"
  shows "handles_grow cm (cm_set_fix_ips h ips cm)" "handles_grow cm (cm_set_dns_ips h ips cm)" "handles_grow cm (cm_set_port h port cm)"
    "handles_grow cm (cm_set_enter_hook h hook cm)" "handles_grow cm (cm_set_resolving h b cm)"
    "handles_grow cm (cm_set_peer_commit h commit cm)" "handles_grow cm (connection_step cop cm)"
  by (auto simp: setter_defs connection_step_def intro!: grow_same [OF assms] same_handles_entry same_handles_refl assms
      split: connection_op.split)

lemma grow_inv: "handles_grow cm cm' \<Longrightarrow> cm_inv cm'"
  by (simp add: handles_grow_def)

lemma clients_created [simp]: "sv_clients (fst (created h sv)) = sv_clients sv"
  by (simp add: created_def split: option.split)

lemma grow_and_then:
  assumes "handles_grow cm (sv_clients (fst r))" "\<And>x s. r = (s, Done x) \<Longrightarrow> handles_grow (sv_clients s) (sv_clients (fst (f x s)))"
  shows "handles_grow cm (sv_clients (fst (and_then r f)))"
proof -
  obtain s a where r: "r = (s, a)" by (cases r)
  show ?thesis
  proof (cases a)
    case (Done x)
    with assms r show ?thesis using grow_trans by fastforce
  qed (use assms r in simp_all)
qed

lemma grow_with_clients:
  assumes "cm_inv (sv_clients sv)" "\<And>cm h. f (sv_clients sv) = (cm, Done h) \<Longrightarrow> handles_grow (sv_clients sv) cm"
    and "\<And>cm r. f (sv_clients sv) = (cm, r) \<Longrightarrow> \<forall>h. r \<noteq> Done h \<Longrightarrow> cm = sv_clients sv"
  shows "handles_grow (sv_clients sv) (sv_clients (fst (with_clients f sv)))"
proof -
  obtain cm r where f: "f (sv_clients sv) = (cm, r)" by (cases "f (sv_clients sv)")
  show ?thesis
  proof (cases r)
    case (Done h)
    with f assms(2) show ?thesis by (simp add: with_clients_def)
  qed (use f assms in \<open>auto simp: with_clients_def\<close>)
qed

lemma grow_new:
  assumes "cm_inv (sv_clients sv)"
  shows "handles_grow (sv_clients sv) (sv_clients (fst (with_clients cm_add_client sv)))"
    "handles_grow (sv_clients sv) (sv_clients (fst (with_clients (cm_add_with_config k) sv)))"
  using add_client_panics [OF assms] add_with_config_panics [OF assms] grow_add [OF assms] grow_add_with_config [OF assms]
  by (intro grow_with_clients; use assms in blast)+

lemma grow_added:
  assumes "cm_inv (sv_clients sv)"
  shows "handles_grow (sv_clients sv) (sv_clients (fst (sv_add_client sv)))"
    "handles_grow (sv_clients sv) (sv_clients (fst (add_discovered_client addresses port sv)))"
proof -
  have inv: "cm_inv (sv_clients s)" if "with_clients cm_add_client sv = (s, Done x)" for s x
    using grow_inv [OF grow_new(1) [OF assms]] that by simp
  show "handles_grow (sv_clients sv) (sv_clients (fst (sv_add_client sv)))"
    unfolding sv_add_client_def using inv by (intro grow_and_then grow_new(1) [OF assms]) simp
  show "handles_grow (sv_clients sv) (sv_clients (fst (add_discovered_client addresses port sv)))"
    using assms inv grow_setters(1) [THEN grow_trans, OF _ grow_setters(3)] grow_inv [OF grow_setters(1)]
    by (auto simp: add_discovered_client_def intro!: grow_and_then grow_new(1))
qed

lemma grow_deactivate: "cm_inv (sv_clients sv) \<Longrightarrow> handles_grow (sv_clients sv) (sv_clients (sv_deactivate_client h sv))"
  by (simp add: sv_deactivate_clients grow_ops)

lemma grow_activate:
  assumes "cm_inv (sv_clients sv)" shows "handles_grow (sv_clients sv) (sv_clients (sv_activate_client h sv))"
proof (cases "cm_get_pos h (sv_clients sv)")
  case None
  with assms show ?thesis by (simp add: sv_activate_client_def Let_def)
next
  case (Some pos)
  define d where "d = displaced h pos (sv_resolve h sv)"
  have d: "handles_grow (sv_clients sv) (sv_clients d)"
    using assms grow_deactivate [of "sv_resolve h sv"] by (simp add: d_def displaced_def split: option.split)
  have "sv_clients (sv_activate_client h sv) = fst (cm_activate_client h (sv_clients d))"
    using Some by (simp add: sv_activate_client_def d_def displaced_def Let_def case_prod_beta)
  with grow_trans [OF d grow_ops(3) [OF grow_inv [OF d]]] show ?thesis by simp
qed

lemma fingerprints_lost [simp]:
  "sv_capture_fingerprints (history_peer_lost env (CapturePeer h) sv) = hm_remove h (sv_capture_fingerprints sv)"
  by (simp add: history_peer_lost_def Let_def split: option.split)

lemma clients_lost [simp]: "sv_clients (history_peer_lost env p sv) = sv_clients sv"
  by (simp add: history_peer_lost_def Let_def split: option.split service_peer.split)

lemma clients_removed [simp]: "sv_clients (sv_remove_client env h sv) = fst (cm_remove_client h (sv_clients sv))"
  by (simp add: sv_remove_client_def Let_def case_prod_beta split: option.split)

lemma grow_updates:
  assumes "cm_inv (sv_clients sv)"
  shows "handles_grow (sv_clients sv) (sv_clients (set_client_active h b sv))"
    "handles_grow (sv_clients sv) (sv_clients (update_fix_ips h ips sv))"
    "handles_grow (sv_clients sv) (sv_clients (update_hostname h name sv))"
    "handles_grow (sv_clients sv) (sv_clients (update_port h port sv))"
    "handles_grow (sv_clients sv) (sv_clients (update_enter_hook h hook sv))"
    "handles_grow (sv_clients sv) (sv_clients (handle_resolver_event env e sv))"
  using assms grow_ops grow_setters grow_activate [OF assms] grow_deactivate [OF assms]
    grow_setters(5) [OF assms, THEN grow_trans, OF grow_setters(2) [OF grow_inv [OF grow_setters(5) [OF assms]]]]
  by (simp_all add: set_client_active_def update_fix_ips_def update_hostname_def update_port_def update_enter_hook_def
      handle_resolver_event_def Let_def case_prod_beta split: dns_event.split)

lemma grow_pos:
  assumes "cm_inv (sv_clients sv)" shows "handles_grow (sv_clients sv) (sv_clients (update_pos h pos sv))"
proof -
  let ?m = "sv\<lparr>sv_clients := fst (cm_set_pos h pos (sv_clients sv))\<rparr>"
  have m: "handles_grow (sv_clients sv) (sv_clients ?m)" using grow_ops(6) [OF assms] by simp
  note off = grow_trans [OF m grow_deactivate [OF grow_inv [OF m], of h]]
  from m grow_trans [OF off grow_activate [OF grow_inv [OF off], of h]] show ?thesis
    by (simp add: update_pos_def Let_def case_prod_beta)
qed

lemma grow_reload_client:
  assumes "cm_inv (sv_clients sv)" shows "handles_grow (sv_clients sv) (sv_clients (fst (reload_client k sv)))"
  unfolding reload_client_def
proof (rule grow_and_then [OF grow_new(2) [OF assms]])
  fix x s assume "with_clients (cm_add_with_config k) sv = (s, Done x)"
  with grow_inv [OF grow_new(2) [OF assms, of k]] have s: "cm_inv (sv_clients s)" by simp
  let ?off = "s\<lparr>sv_clients := fst (cm_deactivate_client x (sv_clients s))\<rparr>"
  have "handles_grow (sv_clients s) (sv_clients ?off)" using grow_ops(4) [OF s] by simp
  then have "handles_grow (sv_clients s) (sv_clients (sv_activate_client x ?off))"
    using grow_activate [OF grow_inv] grow_trans by blast
  with s show "handles_grow (sv_clients s) (sv_clients (fst (case cm_get_state x (sv_clients s) of None \<Rightarrow> (s, Panicked)
     | Some (c, st) \<Rightarrow> let s = if cst_active st then sv_activate_client x (s\<lparr>sv_clients := fst (cm_deactivate_client x (sv_clients s))\<rparr>) else s
       in (notify_frontend (EvCreated x c st) s, Done ()))))"
    by (simp add: Let_def split: option.split)
qed

lemma grow_reload_clients: "cm_inv (sv_clients sv) \<Longrightarrow> handles_grow (sv_clients sv) (sv_clients (fst (reload_clients ks sv)))"
proof (induction ks arbitrary: sv)
  case (Cons k ks)
  show ?case unfolding reload_clients.simps
  proof (rule grow_and_then [OF grow_reload_client [OF Cons.prems]])
    fix x s assume "reload_client k sv = (s, Done x)"
    with grow_inv [OF grow_reload_client [OF Cons.prems, of k]] show "handles_grow (sv_clients s) (sv_clients (fst (reload_clients ks s)))"
      by (intro Cons.IH) simp
  qed
qed simp

lemma grow_remove_all: "cm_inv (sv_clients sv) \<Longrightarrow> handles_grow (sv_clients sv) (sv_clients (fold (sv_remove_client env) hs sv))"
proof (induction hs arbitrary: sv)
  case (Cons h hs)
  have step: "handles_grow (sv_clients sv) (sv_clients (sv_remove_client env h sv))" using grow_ops(1) [OF Cons.prems] by simp
  from grow_trans [OF step Cons.IH [OF grow_inv [OF step]]] show ?case by simp
qed simp

lemma grow_config_change:
  assumes "cm_inv (sv_clients sv)" shows "handles_grow (sv_clients sv) (sv_clients (fst (handle_config_change env ks bind keys sv)))"
proof -
  let ?r = "fold (sv_remove_client env) (cm_registered_clients (sv_clients sv)) sv"
  note gone = grow_remove_all [OF assms, of env "cm_registered_clients (sv_clients sv)"]
  note all = grow_trans [OF gone grow_reload_clients [OF grow_inv [OF gone], of ks]]
  show ?thesis unfolding handle_config_change_def
    by (rule grow_and_then [OF all]) (use grow_inv [OF all] in simp)
qed

lemma clients_clipboards [simp]:
  "sv_clients (remote_clipboard k sv) = sv_clients sv" "sv_clients (native_clipboard env k sv) = sv_clients sv"
  by (simp_all add: remote_clipboard_def native_clipboard_def Let_def split: clipboard_content.split)

lemma clients_incoming [simp]:
  "sv_clients (add_incoming addr pos f sv) = sv_clients sv" "sv_clients (fst (remove_incoming addr sv)) = sv_clients sv"
  "sv_clients (fst (update_incoming addr pos f sv)) = sv_clients sv"
  by (simp_all add: add_incoming_def remove_incoming_def update_incoming_def Let_def emit_sv_def split: option.split prod.split)

lemma grow_emulation_event:
  assumes "cm_inv (sv_clients sv)" shows "handles_grow (sv_clients sv) (sv_clients (fst (handle_emulation_event env event sv)))"
  using assms grow_setters(6) [OF assms]
  by (simp add: handle_emulation_event_def Let_def case_prod_beta split: emulation_event.split option.split clipboard_fallback.split)

lemma grow_authenticated:
  assumes "cm_inv (sv_clients sv)" shows "handles_grow (sv_clients sv) (sv_clients (peer_authenticated env h f sv))"
  using assms grow_ops(2) [OF assms] by (simp add: peer_authenticated_def Let_def)

lemma grow_capture_event:
  assumes "cm_inv (sv_clients sv)" shows "handles_grow (sv_clients sv) (sv_clients (handle_icapture_event env event sv))"
proof -
  have "sv_clients (peer_state_changed env h sv) = sv_clients sv" for h by (simp add: peer_state_changed_def Let_def)
  then have "handles_grow (sv_clients sv) (sv_clients (capture_event_action env event sv))"
    using assms grow_authenticated [OF assms]
    by (simp add: capture_event_action_def Let_def case_prod_beta split: icapture_event.split)
  with assms show ?thesis by (simp add: handle_icapture_event_def split: option.split)
qed

lemma grow_step: "cm_inv (sv_clients sv) \<Longrightarrow> handles_grow (sv_clients sv) (sv_clients (fst (service_step env op sv)))"
  by (cases op) (simp_all add: service_step_def grow_added grow_updates grow_pos grow_ops grow_config_change grow_setters
      grow_emulation_event grow_capture_event reenable_missing_backends_def change_port_def Let_def)

text \<open>The certificate of a removed device: nothing brings it back.\<close>

lemma lost_key: "hm_get m h = None \<Longrightarrow> hm_get (hm_remove k m) h = None" "hm_get (hm_remove h m) h = None"
  by (auto simp: hm_get_None hm_remove_def hm_retain_def simp del: not_None_eq)

lemma auth_removed [simp]: "sv_capture_fingerprints (sv_remove_client env h sv) = hm_remove h (sv_capture_fingerprints sv)"
  by (simp add: sv_remove_client_def Let_def case_prod_beta split: option.split)

lemma auth_remove_all:
  "hm_get (sv_capture_fingerprints sv) h = None \<Longrightarrow> hm_get (sv_capture_fingerprints (fold (sv_remove_client env) hs sv)) h = None"
  by (induction hs arbitrary: sv) (simp_all add: lost_key)

lemma auth_clipboards [simp]:
  "sv_capture_fingerprints (remote_clipboard k sv) = sv_capture_fingerprints sv"
  "sv_capture_fingerprints (native_clipboard env k sv) = sv_capture_fingerprints sv"
  by (simp_all add: remote_clipboard_def native_clipboard_def Let_def split: clipboard_content.split)

lemma auth_emulation_event: "sv_capture_fingerprints (fst (handle_emulation_event env event sv)) = sv_capture_fingerprints sv"
  by (simp add: handle_emulation_event_def Let_def case_prod_beta split: emulation_event.split option.split clipboard_fallback.split)

lemma auth_capture_event:
  assumes "\<not> cm_contains h (sv_clients sv)" "hm_get (sv_capture_fingerprints sv) h = None"
  shows "hm_get (sv_capture_fingerprints (handle_icapture_event env event sv)) h = None"
proof -
  have other: "hm_get (sv_capture_fingerprints (capture_event_action env event sv)) h = None"
    if "configured_handle event \<noteq> Some h"
    using that assms(2) lost_key(1) [OF assms(2)]
    by (cases event) (auto simp: capture_event_action_def configured_handle_def peer_authenticated_def peer_state_changed_def
        Let_def case_prod_beta hash_map)
  show ?thesis
  proof (cases "configured_handle event")
    case None
    with other show ?thesis by (simp add: handle_icapture_event_def)
  next
    case (Some k)
    with other assms show ?thesis by (cases "k = h") (simp_all add: handle_icapture_event_def)
  qed
qed

lemma auth_step:
  assumes "\<not> cm_contains h (sv_clients sv)" "hm_get (sv_capture_fingerprints sv) h = None"
  shows "hm_get (sv_capture_fingerprints (fst (service_step env op sv))) h = None"
proof -
  have config: "hm_get (sv_capture_fingerprints (fst (handle_config_change env ks bind keys sv))) h = None" for ks bind keys
  proof -
    let ?r = "fold (sv_remove_client env) (cm_registered_clients (sv_clients sv)) sv"
    have "sv_capture_fingerprints (fst (handle_config_change env ks bind keys sv)) = sv_capture_fingerprints ?r"
      unfolding handle_config_change_def by (rule auth.and_then_kept) (simp_all add: auth.reload_clients_kept)
    with auth_remove_all [OF assms(2)] show ?thesis by simp
  qed
  show ?thesis
    using assms lost_key(1) [OF assms(2)] auth_capture_event [OF assms] config
    by (cases op) (simp_all add: service_step_def auth_emulation_event)
qed

lemma removed_steps:
  assumes "service_steps n sv sv'" "cm_inv (sv_clients sv)" "h < cm_next_handle (sv_clients sv)"
    "\<not> cm_contains h (sv_clients sv)" "hm_get (sv_capture_fingerprints sv) h = None"
  shows "cm_inv (sv_clients sv') \<and> h < cm_next_handle (sv_clients sv') \<and> \<not> cm_contains h (sv_clients sv')
    \<and> hm_get (sv_capture_fingerprints sv') h = None"
  using assms
proof (induction rule: service_steps.induct)
  case (more n sv sv' env op sv'')
  then have old: "cm_inv (sv_clients sv')" "h < cm_next_handle (sv_clients sv')" "\<not> cm_contains h (sv_clients sv')"
    "hm_get (sv_capture_fingerprints sv') h = None" by simp_all
  have "handles_grow (sv_clients sv') (sv_clients sv'')" using grow_step [OF old(1), of env op] more.hyps by simp
  moreover have "hm_get (sv_capture_fingerprints sv'') h = None" using auth_step [OF old(3,4), of env op] more.hyps by simp
  ultimately show ?case using old unfolding handles_grow_def by (meson order.strict_trans2)
qed simp

lemma routes_of_fingerprints:
  assumes "hm_get (sv_capture_fingerprints sv) h = None" shows "CapturePeer h \<notin> snd ` set (connected_authenticated_peers sv)"
proof
  have sub: "set (foldl (\<lambda>m (f, route). hm_insert f route m) m xs) \<subseteq> set m \<union> set xs" for xs :: "(rstring \<times> service_peer) list" and m
  proof (induction xs arbitrary: m)
    case (Cons x xs)
    show ?case using Cons.IH [of "hm_insert (fst x) (snd x) m"] set_hm_insert_subset [of "fst x" "snd x" m]
      by (auto simp: case_prod_beta)
  qed simp
  assume "CapturePeer h \<in> snd ` set (connected_authenticated_peers sv)"
  then obtain f where f: "(f, CapturePeer h) \<in> set (connected_authenticated_peers sv)" by auto
  let ?xs = "map (\<lambda>(h, f). (f, CapturePeer h)) (sv_capture_fingerprints sv) @ map (\<lambda>(addr, f). (f, EmulationPeer addr)) (sv_peer_fingerprints sv)"
  have "set (connected_authenticated_peers sv) \<subseteq> set ?xs"
    using sub [of "[]" ?xs] by (simp only: connected_authenticated_peers_def deduplicate_routes_def list.set(1) Un_empty_left)
  with f have "(f, CapturePeer h) \<in> set ?xs" by (rule rev_subsetD)
  then have "(h, f) \<in> set (sv_capture_fingerprints sv)" by auto
  then have "h \<in> fst ` set (sv_capture_fingerprints sv)" by (rule image_eqI [rotated]) simp
  with assms hm_get_None [of "sv_capture_fingerprints sv" h] show False by blast
qed

text \<open>C35: A removed device stays silent. After a device is removed, at any later point of a run of fewer than \<open>2^63\<close> steps: every message,
  authentication, file selection, change of state and entry that the capture task reports for its handle is dropped without a change, as is every message on its route; it is no route for
  history, profiles and manual transfers, is not in the table and has no barrier.\<close>
theorem removed_device_stays_silent:
  assumes "service_started sv0" and "service_steps n sv0 sv" and "cm_contains h (sv_clients sv)"
    and "service_steps m (sv_remove_client env h sv) sv'" and "n + m < 2 ^ 63"
  shows "(configured_handle event = Some h \<longrightarrow> handle_icapture_event env' event sv' = sv')
    \<and> handle_peer_protocol env' (CapturePeer h) message sv' = sv'
    \<and> CapturePeer h \<notin> snd ` set (connected_authenticated_peers sv')
    \<and> cm_get_state h (sv_clients sv') = None \<and> barrier_of sv' h = None
    \<and> get_capture h (fold (\<lambda>request ct. fst (cap_request cenv request ct)) (capture_requests sv') (ct_new backend bind)) = None"
proof -
  have inv: "routes_inv n sv" using service_steps_inv [OF assms(2) started_inv [OF assms(1)]] assms(5) by simp
  then have cm: "cm_inv (sv_clients sv)" by simp
  note r = remove_inv [OF cm]
  have low: "h < cm_next_handle (sv_clients sv)" using cm assms(3) by (simp add: cm_inv_def)
  have after: "cm_inv (sv_clients sv')" "\<not> cm_contains h (sv_clients sv')" "hm_get (sv_capture_fingerprints sv') h = None"
    using removed_steps [OF assms(4), of h] r low lost_key(2) [of h "sv_capture_fingerprints sv"] by simp_all
  have inv': "routes_inv (n + m) sv'"
    using service_steps_inv [OF assms(4) remove_client_inv [OF inv]] assms(5) by simp
  have state: "cm_get_state h (sv_clients sv') = None" using after(2) state_contains [of h "sv_clients sv'"] by blast
  have "h < ENTER_HANDLE_BEGIN" using low cm by (auto simp: cm_inv_def)
  then have "barrier_of sv' h = None" using low_not_incoming [OF inv'] state by (simp add: barrier_of_def)
  moreover have "map_of (requested (sv_trace sv')) h = barrier_of sv' h"
    using inv' by (simp add: routes_inv_def barriers_exact_def hm_get_def)
  then have "get_capture h (fold (\<lambda>request ct. fst (cap_request cenv request ct)) (capture_requests sv') (ct_new backend bind)) = barrier_of sv' h"
    by (simp add: get_capture_def running.all_taken requested_by_requests ct_new_def)
  ultimately show ?thesis using after state routes_of_fingerprints [OF after(3)]
    by (simp add: handle_icapture_event_def handle_peer_protocol_def peer_identity_def)
qed

theorem removed_device_stays_silent_witness:
  "\<forall>env. handle_icapture_event env (ClientEntered 0) (set_client_active 0 True (sv_remove_client env 0 (demo_active env)))
     = set_client_active 0 True (sv_remove_client env 0 (demo_active env))"
proof
  fix env :: "unit service_env"
  let ?r = "sv_remove_client env 0 (demo_active env)"
  have "sv_clients (demo_active env) = \<lparr>cm_clients = [(0, client_config_default, client_state_default\<lparr>cst_active := True\<rparr>)],
      cm_next_handle = 1, cm_peer_fingerprints = []\<rparr>"
    by (simp add: demo_active_def service_step_def set_client_active_def sv_activate_client_def sv_resolve_def
      cm_get_hostname_def cm_get_pos_def cm_client_at_def cm_find_def cm_activate_client_def cm_entry_def cm_get_state_def
      hm_get_Cons demo_added_fields client_config_default_def client_state_default_def Let_def hash_map)
  then have has: "cm_contains 0 (sv_clients (demo_active env))" by (simp add: cm_contains_def hm_get_Cons)
  have "service_step env (SvSetActive 0 True) ?r = (set_client_active 0 True ?r, Done ())" by (simp add: service_step_def)
  from service_steps.more [OF service_steps.none this]
  have "service_steps 1 ?r (set_client_active 0 True ?r)" by simp
  from removed_device_stays_silent [OF demo_started demo_steps has this, of "ClientEntered 0"]
  show "handle_icapture_event env (ClientEntered 0) (set_client_active 0 True ?r) = set_client_active 0 True ?r"
    by (simp add: configured_handle_def)
qed

section \<open>The clipboard of a peer is not sent back\<close>

definition is_remote :: "service_op \<Rightarrow> bool" where
  "is_remote op = (case op of SvEmulation (RemoteClipboard _) \<Rightarrow> True | _ \<Rightarrow> False)"

definition is_native :: "service_op \<Rightarrow> bool" where
  "is_native op = (case op of SvEmulation (NativeClipboard _) \<Rightarrow> True | _ \<Rightarrow> False)"

lemma clips_auth [simp]: "clip_view (sv\<lparr>sv_capture_fingerprints := m\<rparr>) = clip_view sv"
  by (simp add: clip_view_def)

lemma clips_lost [simp]: "clip_view (history_peer_lost env p sv) = clip_view sv"
  by (simp add: history_peer_lost_def Let_def split: option.split service_peer.split)

lemma clips_removed [simp]: "clip_view (sv_remove_client env h sv) = clip_view sv"
  by (simp add: sv_remove_client_def Let_def case_prod_beta split: option.split)

lemma clips_config: "clip_view (fst (handle_config_change env ks bind keys sv)) = clip_view sv"
  unfolding handle_config_change_def by (rule clips.and_then_kept) (simp_all add: clips.reload_clients_kept clips.fold_kept)

lemma clips_capture: "clip_view (handle_icapture_event env event sv) = clip_view sv"
proof -
  have "clip_view (capture_event_action env event sv) = clip_view sv"
    by (cases event) (simp_all add: capture_event_action_def peer_authenticated_def peer_state_changed_def Let_def case_prod_beta)
  then show ?thesis by (simp add: handle_icapture_event_def split: option.split)
qed

lemma clips_emulation:
  "\<not> is_remote (SvEmulation event) \<Longrightarrow> \<not> is_native (SvEmulation event) \<Longrightarrow> clip_view (fst (handle_emulation_event env event sv)) = clip_view sv"
  by (simp add: handle_emulation_event_def is_remote_def is_native_def Let_def case_prod_beta
      split: emulation_event.splits option.split clipboard_fallback.split)

lemma clips_step: "\<not> is_remote op \<Longrightarrow> \<not> is_native op \<Longrightarrow> clip_view (fst (service_step env op sv)) = clip_view sv"
  by (cases op) (simp_all add: service_step_def clips_config clips_capture clips_emulation)

text \<open>A content waits for its echo with at most \<open>k\<close> later ones behind it.\<close>

definition awaits_echo :: "clipboard_content \<Rightarrow> nat \<Rightarrow> 'r service \<Rightarrow> bool" where
  "awaits_echo content k sv \<longleftrightarrow> (\<exists>before behind. sv_echoes sv = before @ content # behind \<and> length behind \<le> k)"

lemma awaitsI: "sv_echoes sv = before @ content # behind \<Longrightarrow> length behind \<le> k \<Longrightarrow> awaits_echo content k sv"
  unfolding awaits_echo_def by blast

lemma clips_remote [simp]:
  "sv_echoes (remote_clipboard c sv) = (if length (sv_echoes sv) \<ge> 8 then tl (sv_echoes sv @ [c]) else sv_echoes sv @ [c])"
  "shares content (remote_clipboard c sv) = shares content sv"
  by (auto simp: remote_clipboard_def Let_def shares_def emit_sv_def split: clipboard_content.split)

lemma shares_view: "clip_view sv' = clip_view sv \<Longrightarrow> shares content sv' = shares content sv"
  by (simp add: clip_view_def shares_def split: clipboard_content.split)

lemma awaits_remote:
  assumes "awaits_echo content k sv" "k < 7" shows "awaits_echo content (Suc k) (remote_clipboard c sv)"
proof -
  obtain before behind where e: "sv_echoes sv = before @ content # behind" "length behind \<le> k"
    using assms(1) by (auto simp: awaits_echo_def)
  show ?thesis
  proof (cases before)
    case Nil
    with e assms(2) have "sv_echoes (remote_clipboard c sv) = [] @ content # (behind @ [c])" by simp
    from awaitsI [OF this] e show ?thesis by simp
  next
    case (Cons b bs)
    with e have "sv_echoes (remote_clipboard c sv) = (if length (sv_echoes sv) \<ge> 8 then bs else before) @ content # (behind @ [c])" by simp
    from awaitsI [OF this] e show ?thesis by simp
  qed
qed

lemma awaits_native:
  assumes "awaits_echo content k sv" "c \<noteq> content" shows "awaits_echo content k (native_clipboard env c sv)"
proof -
  obtain before behind where e: "sv_echoes sv = before @ content # behind" "length behind \<le> k"
    using assms(1) by (auto simp: awaits_echo_def)
  have kept: "sv_echoes (share_clipboard env c x) = sv_echoes x" for x :: "'a service"
    using clips.share_kept [of env c x] by (simp add: clip_view_def)
  show ?thesis
  proof (cases "c \<in> set (sv_echoes sv) \<and> shares c sv")
    case True
    have "remove1 c (before @ content # behind) = (if c \<in> set before then remove1 c before @ content # behind else before @ content # remove1 c behind)"
      using assms(2) by (simp add: remove1_append)
    moreover have "length (remove1 c behind) \<le> k" using e(2) by (auto simp: length_remove1)
    moreover have "shares c (sv\<lparr>sv_native_file_selection := False\<rparr>) = shares c sv" by (rule shares_view) simp
    ultimately show ?thesis using True e unfolding awaits_echo_def native_clipboard_def Let_def by (auto split: if_splits)
  next
    case False
    moreover have "shares c (sv\<lparr>sv_native_file_selection := False\<rparr>) = shares c sv" by (rule shares_view) simp
    ultimately show ?thesis using e unfolding awaits_echo_def native_clipboard_def Let_def by (auto simp: kept)
  qed
qed

definition service_run :: "('r service_env \<times> service_op) list \<Rightarrow> 'r service \<Rightarrow> 'r service" where
  "service_run = fold (\<lambda>(env, op) sv. fst (service_step env op sv))"

lemma native_shares [simp]: "shares content (native_clipboard env c sv) = shares content sv"
proof -
  have same: "shares content (sv'\<lparr>sv_echoes := e\<rparr>) = shares content sv'" for sv' :: "'a service" and e
    by (simp add: shares_def split: clipboard_content.split)
  have "shares content (share_clipboard env c x) = shares content x" for x :: "'a service" by (rule shares_view) simp
  moreover have "shares content (sv\<lparr>sv_native_file_selection := False\<rparr>) = shares content sv" by (rule shares_view) simp
  ultimately show ?thesis by (simp add: native_clipboard_def Let_def same)
qed

lemma echo_run:
  assumes "awaits_echo content k sv" "k + length (filter is_remote (map snd ops)) \<le> 7"
    "SvEmulation (NativeClipboard content) \<notin> snd ` set ops"
  shows "awaits_echo content 7 (service_run ops sv) \<and> shares content (service_run ops sv) = shares content sv"
  using assms
proof (induction ops arbitrary: sv k)
  case Nil
  then show ?case unfolding service_run_def awaits_echo_def by fastforce
next
  case (Cons x ops)
  obtain env op where x: "x = (env, op)" by (cases x)
  let ?sv = "fst (service_step env op sv)"
  have run: "service_run (x # ops) sv = service_run ops ?sv" by (simp add: service_run_def x)
  consider c where "op = SvEmulation (RemoteClipboard c)" | c where "op = SvEmulation (NativeClipboard c)"
    | "\<not> is_remote op" "\<not> is_native op"
  proof (cases op)
    case (SvEmulation event)
    then show thesis using that by (cases event) (auto simp: is_remote_def is_native_def)
  qed (use that in \<open>simp_all add: is_remote_def is_native_def\<close>)
  then show ?case
  proof cases
    case (1 c)
    then have sv: "?sv = remote_clipboard c sv" by (simp add: service_step_def handle_emulation_event_def)
    have "awaits_echo content (Suc k) ?sv" unfolding sv
      by (rule awaits_remote [OF Cons.prems(1)]) (use Cons.prems(2) 1 x in \<open>simp add: is_remote_def\<close>)
    from Cons.IH [OF this] Cons.prems 1 x sv show ?thesis unfolding run by (simp add: is_remote_def)
  next
    case (2 c)
    then have sv: "?sv = native_clipboard env c sv" and c: "c \<noteq> content"
      using Cons.prems(3) x by (auto simp: service_step_def handle_emulation_event_def)
    from Cons.IH [OF awaits_native [OF Cons.prems(1) c, of env]] Cons.prems 2 x sv show ?thesis
      unfolding run by (simp add: is_remote_def)
  next
    case 3
    then have view: "clip_view ?sv = clip_view sv" by (rule clips_step)
    then have "awaits_echo content k ?sv" using Cons.prems(1) by (simp add: awaits_echo_def clip_view_def)
    from Cons.IH [OF this] Cons.prems 3 x shares_view [OF view] show ?thesis unfolding run by simp
  qed
qed

text \<open>The clipboards sent to devices.\<close>

definition sent_clipboards :: "'r service_effect list \<Rightarrow> (client_id \<times> bytes \<times> (u32 \<times> u32) option) list" where
  "sent_clipboards es = List.map_filter (\<lambda>e. case e of ToCapture (SendClipboard h _ payload dims) \<Rightarrow> Some (h, payload, dims) | _ \<Rightarrow> None) es"

lemma sent_snoc: "sent_clipboards (es @ [e]) = sent_clipboards es @ (case e of ToCapture (SendClipboard h _ payload dims) \<Rightarrow> [(h, payload, dims)] | _ \<Rightarrow> [])"
  by (simp add: sent_clipboards_def map_filter_def split: service_effect.split capture_request.split)

lemma sent_share: "sent_clipboards (sv_trace (fold (share_with content) hs sv)) = sent_clipboards (sv_trace sv) @ map (\<lambda>h. (h, content_payload content)) hs"
  by (induction hs arbitrary: sv) (simp_all add: share_with_def Let_def sent_snoc emit_sv_def)

lemma sent_messages [simp]: "sent_clipboards (sv_trace (send_peer p e sv)) = sent_clipboards (sv_trace sv)"
  by (simp add: send_peer_def emit_sv_def sent_snoc split: service_peer.split)

lemma sent_message_list [simp]: "sent_clipboards (sv_trace (send_peer_all p es sv)) = sent_clipboards (sv_trace sv)"
  by (induction es arbitrary: sv) simp_all

lemma sent_record: "sent_clipboards (sv_trace (record_local_history env content sv)) = sent_clipboards (sv_trace sv)"
proof -
  have all: "sent_clipboards (sv_trace (fold (\<lambda>(_, peer) sv. send_peer peer (HistorySyncPageEnd i None) (send_peer_all peer es sv)) ps x))
      = sent_clipboards (sv_trace x)" for i es ps and x :: "'a service"
    by (induction ps arbitrary: x) (simp_all add: case_prod_beta)
  show ?thesis by (simp add: all record_local_history_def broadcast_history_record_def next_history_request_id_def Let_def split: option.split sum.split)
qed


lemma demo_clips: "clip_view (demo_service env) = ([], True, True)"
  by (simp add: demo_service_def start_routes_def Let_def clips.fold_kept) (simp add: clip_view_def service_new_def)


end
