(* ===== verification/Service_Clear.thy ===== *)
theory Service_Clear
  imports Service_Properties
begin

text \<open>
  The clear of the history on all devices, from the service that starts it to the result it reports. The
  coordinator's two phases (\<open>History_Clear\<close>) are driven by the messages of the peers, whose services answer with
  their snapshot and apply the boundary that comes back.
\<close>

section \<open>The answers of a peer\<close>

definition boundary_reply :: "'r service_env \<Rightarrow> bytes \<Rightarrow> proto_event" where
  "boundary_reply env operation_id = (case se_snapshot env of
     Inr boundary \<Rightarrow> HistoryClearBoundary operation_id (boundary_to_wire boundary)
   | Inl error \<Rightarrow> HistoryClearAck operation_id 0 (Some error))"

definition apply_reply :: "'r service_env \<Rightarrow> bytes \<Rightarrow> clear_boundary \<Rightarrow> proto_event" where
  "apply_reply env operation_id boundary = (case se_apply_clear env (hex_operation operation_id) boundary of
     Inr affected \<Rightarrow> HistoryClearAck operation_id affected None
   | Inl error \<Rightarrow> HistoryClearAck operation_id 0 (Some error))"

lemma peer_replies:
  assumes "peer_identity q pv \<noteq> None"
  shows "handle_peer_protocol env q (HistoryClearBoundaryRequest op) pv = send_peer q (boundary_reply env op) pv"
    "bt_ok boundary \<Longrightarrow> handle_peer_protocol env q (HistoryClearApply op (boundary_to_wire boundary)) pv = send_peer q (apply_reply env op boundary) pv"
  using assms by (auto simp: handle_peer_protocol_def peer_message_def boundary_reply_def apply_reply_def boundary_roundtrip
      split: option.split sum.split)

section \<open>The boundary phase\<close>

text \<open>The coordinator that waits for boundaries, of an operation among the peers \<open>P\<close>.\<close>

definition gathering :: "bytes \<Rightarrow> clear_boundary \<Rightarrow> ('p \<Rightarrow> clear_boundary) \<Rightarrow> 'p set \<Rightarrow> 'p set \<Rightarrow> 'p clear_coordinator \<Rightarrow> bool" where
  "gathering op local b P D cc \<longleftrightarrow> cc_collecting local b P D cc \<and> cc_operation_id cc = op \<and> cc_participants cc = P \<and>
     cc_peer_count cc = card P \<and> cc_errors cc = [] \<and> cc_awaiting_acks cc = {}"

lemma gathering_add:
  assumes "gathering op local b P D cc" "p \<in> P - D" "bt_ok (b p)"
  shows "\<exists>cc'. cc_add_boundary cc p (b p) = (cc', insert p D = P) \<and> gathering op local b P (insert p D) cc'"
proof -
  obtain cc' where c: "cc_add_boundary cc p (b p) = (cc', insert p D = P)" "cc_collecting local b P (insert p D) cc'"
    using cc_add_boundary_collecting(1) [of local b P D cc p] assms by (auto simp: gathering_def bt_ok_hm_ok)
  then have "cc_operation_id cc' = op" "cc_participants cc' = P" "cc_peer_count cc' = card P" "cc_errors cc' = []" "cc_awaiting_acks cc' = {}"
    using assms(1) by (auto simp: gathering_def cc_add_boundary_def Let_def split: if_splits)
  with c show ?thesis by (auto simp: gathering_def)
qed

definition clearing :: "'r service \<Rightarrow> rstring clear_coordinator \<Rightarrow> 'r service" where
  "clearing sv cc = sv\<lparr>sv_history_clear := Some cc\<rparr>"

lemma identity_clearing [simp]: "peer_identity p (clearing sv cc) = peer_identity p sv"
  by (simp add: clearing_def peer_identity_def split: service_peer.split)

lemma clearing_message:
  "peer_identity p sv = Some f \<Longrightarrow> handle_peer_protocol env p event (clearing sv cc) = peer_message env p f event (clearing sv cc)"
  by (simp add: handle_peer_protocol_def)

lemma clearing_simps [simp]:
  "sv_history_clear (clearing sv cc) = Some cc" "(clearing sv cc)\<lparr>sv_history_clear := Some cc'\<rparr> = clearing sv cc'"
  "(clearing sv cc)\<lparr>sv_history_clear := None\<rparr> = sv\<lparr>sv_history_clear := None\<rparr>"
  by (simp_all add: clearing_def)

lemma boundary_arrives:
  assumes "gathering op local b P D cc" "peer_identity p sv = Some f" "f \<in> P - D" "insert f D \<noteq> P" "bt_ok (b f)"
  shows "\<exists>cc'. handle_peer_protocol env p (HistoryClearBoundary op (boundary_to_wire (b f))) (clearing sv cc) = clearing sv cc'
    \<and> gathering op local b P (insert f D) cc'"
proof -
  obtain cc' where add: "cc_add_boundary cc f (b f) = (cc', False)" "gathering op local b P (insert f D) cc'"
    using gathering_add [OF assms(1,3,5)] assms(4) by auto
  have "cc_operation_id cc = op" using assms(1) by (simp add: gathering_def)
  with add(1) assms(5) have "handle_peer_protocol env p (HistoryClearBoundary op (boundary_to_wire (b f))) (clearing sv cc) = clearing sv cc'"
    by (simp add: clearing_message [OF assms(2)] peer_message_def clear_boundary_answer_def boundary_roundtrip)
  with add(2) show ?thesis by blast
qed

lemma boundaries_arrive:
  assumes "gathering op local b P D cc" "\<And>p. p \<in> set ps \<Longrightarrow> peer_identity p sv = Some (who p)" "distinct (map who ps)"
    "who ` set ps \<inter> D = {}" "who ` set ps \<subseteq> P" "D \<union> who ` set ps \<noteq> P" "\<And>f. bt_ok (b f)"
  shows "\<exists>cc'. fold (\<lambda>p. handle_peer_protocol env p (HistoryClearBoundary op (boundary_to_wire (b (who p))))) ps (clearing sv cc) = clearing sv cc'
    \<and> gathering op local b P (D \<union> who ` set ps) cc'"
  using assms
proof (induction ps arbitrary: D cc)
  case (Cons p ps)
  have sub: "insert (who p) D \<noteq> P" using Cons.prems(5,6) by auto
  obtain cc1 where one: "handle_peer_protocol env p (HistoryClearBoundary op (boundary_to_wire (b (who p)))) (clearing sv cc) = clearing sv cc1"
    "gathering op local b P (insert (who p) D) cc1"
    using boundary_arrives [of op local b P D cc p sv "who p" env] Cons.prems sub by auto
  have "\<exists>cc'. fold (\<lambda>p. handle_peer_protocol env p (HistoryClearBoundary op (boundary_to_wire (b (who p))))) ps (clearing sv cc1) = clearing sv cc'
    \<and> gathering op local b P (insert (who p) D \<union> who ` set ps) cc'"
    by (rule Cons.IH [OF one(2)]) (use Cons.prems in auto)
  with one(1) show ?case by simp
qed auto

text \<open>Messages only extend the trace.\<close>

definition peer_effect :: "service_peer \<Rightarrow> proto_event \<Rightarrow> 'r service_effect" where
  "peer_effect peer event = (case peer of CapturePeer h \<Rightarrow> ToCapture (SendProto h event) | EmulationPeer addr \<Rightarrow> ToEmulation (ReqSendProto addr event))"

definition told :: "'r service \<Rightarrow> 'r service_effect list \<Rightarrow> 'r service" where
  "told sv effects = sv\<lparr>sv_trace := sv_trace sv @ effects\<rparr>"

lemma told_told [simp]: "told (told sv es) es' = told sv (es @ es')" "told sv [] = sv" "sv_trace (told sv es) = sv_trace sv @ es"
  by (simp_all add: told_def)

lemma send_peer_told: "send_peer peer event sv = told sv [peer_effect peer event]"
  by (simp add: send_peer_def peer_effect_def told_def emit_sv_def split: service_peer.split)

lemma sends_told: "fold (\<lambda>(f, peer) sv. if f \<in> P then send_peer peer event sv else sv) peers sv =
    told sv (map (\<lambda>(f, peer). peer_effect peer event) (filter (\<lambda>(f, _). f \<in> P) peers))"
  by (induction peers arbitrary: sv) (auto simp: send_peer_told)

lemma told_same [simp]:
  "peer_identity p (told sv es) = peer_identity p sv" "connected_authenticated_peers (told sv es) = connected_authenticated_peers sv"
  "told (clearing sv cc) es = clearing (told sv es) cc"
  "(told (sv\<lparr>sv_history_clear := x\<rparr>) es)\<lparr>sv_history_clear := Some cc\<rparr> = clearing (told sv es) cc"
  "connected_authenticated_peers (sv\<lparr>sv_history_clear := x\<rparr>) = connected_authenticated_peers sv"
  "connected_authenticated_peers (sv\<lparr>sv_next_history_request := n\<rparr>) = connected_authenticated_peers sv"
  "peer_identity p (sv\<lparr>sv_next_history_request := n\<rparr>) = peer_identity p sv"
  by (simp_all add: told_def peer_identity_def connected_authenticated_peers_def clearing_def split: service_peer.split)

lemma last_boundary_arrives:
  assumes "gathering op local b P D cc" "peer_identity p sv = Some f" "f \<in> P - D" "insert f D = P" "bt_ok (b f)"
    and peers: "fst ` set (connected_authenticated_peers sv) = P"
    and applied: "\<And>B. bt_ok B \<Longrightarrow> (\<And>k. hm_get B k = boundary_sup local (b ` P) k) \<Longrightarrow> se_apply_clear env (hex_operation op) B = Inr affected"
  shows "\<exists>cc'. handle_peer_protocol env p (HistoryClearBoundary op (boundary_to_wire (b f))) (clearing sv cc) =
      clearing (told sv (map (\<lambda>(_, peer). peer_effect peer (HistoryClearApply op (boundary_to_wire (cc_boundary cc')))) (connected_authenticated_peers sv)))
        (cc_begin_apply (se_now env) cc' P affected)
    \<and> gathering op local b P P cc'"
proof -
  obtain cc' where add: "cc_add_boundary cc f (b f) = (cc', True)" "gathering op local b P P cc'"
    using gathering_add [OF assms(1,3,5)] assms(4) by auto
  have op: "cc_operation_id cc = op" "cc_participants cc' = P" using assms(1) add(2) by (simp_all add: gathering_def)
  have app: "se_apply_clear env (hex_operation op) (cc_boundary cc') = Inr affected"
    by (rule applied) (use add(2) in \<open>simp_all add: gathering_def cc_collecting_def\<close>)
  have all: "filter (\<lambda>(f, _). f \<in> P) (connected_authenticated_peers sv) = connected_authenticated_peers sv"
    using peers by (force simp: filter_id_conv)
  have bound: "cc_boundary (cc_begin_apply n cc' P affected) = cc_boundary cc'" for n by (simp add: cc_begin_apply_def)
  have "handle_peer_protocol env p (HistoryClearBoundary op (boundary_to_wire (b f))) (clearing sv cc) =
      clearing (told sv (map (\<lambda>(_, peer). peer_effect peer (HistoryClearApply op (boundary_to_wire (cc_boundary cc')))) (connected_authenticated_peers sv)))
        (cc_begin_apply (se_now env) cc' P affected)"
    using add(1) assms(5) op app
    by (simp add: clearing_message [OF assms(2)] peer_message_def clear_boundary_answer_def boundary_roundtrip sends_told all bound Let_def)
  with add(2) show ?thesis by blast
qed

section \<open>The acknowledgement phase\<close>

definition ack_values :: "'r service_env \<Rightarrow> bytes \<Rightarrow> clear_boundary \<Rightarrow> u64 \<times> rstring option" where
  "ack_values env op boundary = (case se_apply_clear env (hex_operation op) boundary of Inr affected \<Rightarrow> (affected, None) | Inl error \<Rightarrow> (0, Some error))"

lemma apply_reply_values: "apply_reply env op boundary = HistoryClearAck op (fst (ack_values env op boundary)) (snd (ack_values env op boundary))"
  by (simp add: apply_reply_def ack_values_def split: sum.split)

text \<open>The coordinator that waits for acknowledgements: what it has counted so far.\<close>

definition acking :: "bytes \<Rightarrow> 'p set \<Rightarrow> 'p set \<Rightarrow> nat \<Rightarrow> rstring list \<Rightarrow> 'p clear_coordinator \<Rightarrow> bool" where
  "acking op P D n errors cc \<longleftrightarrow> D \<subseteq> P \<and> cc_operation_id cc = op \<and> cc_applying cc \<and> cc_awaiting_acks cc = P - D \<and>
     cc_peer_count cc = card P \<and> unat (cc_affected cc) = min n (2 ^ 64 - 1) \<and> cc_errors cc = errors"

definition error_list :: "rstring option \<Rightarrow> rstring list" where
  "error_list e = (case e of None \<Rightarrow> [] | Some m \<Rightarrow> [m])"

lemma acking_add:
  assumes "acking op P D n errors cc" "f \<in> P - D"
  shows "\<exists>cc'. cc_add_ack cc f m e = (cc', insert f D = P) \<and> acking op P (insert f D) (n + unat m) (errors @ error_list e) cc'"
proof -
  have wait: "P - D - {f} = P - insert f D" "(P - insert f D = {}) = (insert f D = P)" using assms by (auto simp: acking_def)
  have "min (min n (2 ^ 64 - 1) + unat m) (2 ^ 64 - 1) = min (n + unat m) (2 ^ 64 - 1)" by (rule min_plus_cap)
  then show ?thesis using assms wait
    by (auto simp: cc_add_ack_def acking_def Let_def unat_saturating_add error_list_def)
qed

lemma ack_arrives:
  assumes "acking op P D n errors cc" "peer_identity p sv = Some f" "f \<in> P - D" "insert f D \<noteq> P"
  shows "\<exists>cc'. handle_peer_protocol env p (HistoryClearAck op m e) (clearing sv cc) = clearing sv cc'
    \<and> acking op P (insert f D) (n + unat m) (errors @ error_list e) cc'"
proof -
  obtain cc' where add: "cc_add_ack cc f m e = (cc', False)" "acking op P (insert f D) (n + unat m) (errors @ error_list e) cc'"
    using acking_add [OF assms(1,3), of m e] assms(4) by auto
  have "cc_operation_id cc = op" "cc_applying cc" using assms(1) by (simp_all add: acking_def)
  with add(1) have "handle_peer_protocol env p (HistoryClearAck op m e) (clearing sv cc) = clearing sv cc'"
    by (simp add: clearing_message [OF assms(2)] peer_message_def clear_ack_answer_def)
  with add(2) show ?thesis by blast
qed

lemma acks_arrive:
  assumes "acking op P D n errors cc" "\<And>p. p \<in> set ps \<Longrightarrow> peer_identity p sv = Some (who p)" "distinct (map who ps)"
    "who ` set ps \<inter> D = {}" "who ` set ps \<subseteq> P" "D \<union> who ` set ps \<noteq> P"
  shows "\<exists>cc'. fold (\<lambda>p. handle_peer_protocol env p (HistoryClearAck op (fst (v (who p))) (snd (v (who p))))) ps (clearing sv cc) = clearing sv cc'
    \<and> acking op P (D \<union> who ` set ps) (n + sum_list (map (\<lambda>p. unat (fst (v (who p)))) ps))
        (errors @ concat (map (\<lambda>p. error_list (snd (v (who p)))) ps)) cc'"
  using assms
proof (induction ps arbitrary: D n errors cc)
  case (Cons p ps)
  have sub: "insert (who p) D \<noteq> P" using Cons.prems(5,6) by auto
  let ?m = "fst (v (who p))" and ?e = "snd (v (who p))"
  obtain cc1 where one: "handle_peer_protocol env p (HistoryClearAck op ?m ?e) (clearing sv cc) = clearing sv cc1"
    "acking op P (insert (who p) D) (n + unat ?m) (errors @ error_list ?e) cc1"
    using ack_arrives [of op P D n errors cc p sv "who p" env ?m ?e] Cons.prems sub by auto
  have "\<exists>cc'. fold (\<lambda>p. handle_peer_protocol env p (HistoryClearAck op (fst (v (who p))) (snd (v (who p))))) ps (clearing sv cc1) = clearing sv cc'
    \<and> acking op P (insert (who p) D \<union> who ` set ps) (n + unat ?m + sum_list (map (\<lambda>p. unat (fst (v (who p)))) ps))
        ((errors @ error_list ?e) @ concat (map (\<lambda>p. error_list (snd (v (who p)))) ps)) cc'"
    by (rule Cons.IH [OF one(2)]) (use Cons.prems in auto)
  with one(1) show ?case by (simp add: add.assoc)
qed auto

lemma last_ack_arrives:
  assumes "acking op P D n errors cc" "peer_identity p sv = Some f" "f \<in> P - D" "insert f D = P" "sv_history_clear sv = None"
  shows "handle_peer_protocol env p (HistoryClearAck op m e) (clearing sv cc) =
    told sv [ToFrontend (EvHistoryClearResult (hex_operation op) (word_of_nat (min (n + unat m) (2 ^ 64 - 1))) (word_of_nat (card P))
      (if errors @ error_list e = [] then None else Some (join_lines (lit ''; '') (errors @ error_list e))))]"
proof -
  obtain cc' where add: "cc_add_ack cc f m e = (cc', True)" "acking op P P (n + unat m) (errors @ error_list e) cc'"
    using acking_add [OF assms(1,3), of m e] assms(4) by auto
  have op: "cc_operation_id cc = op" "cc_applying cc" using assms(1) by (simp_all add: acking_def)
  have "word_of_nat (unat (cc_affected cc')) = (word_of_nat (min (n + unat m) (2 ^ 64 - 1)) :: u64)"
    using add(2) unfolding acking_def by (intro arg_cong [of _ _ word_of_nat]) blast
  then have n: "cc_affected cc' = word_of_nat (min (n + unat m) (2 ^ 64 - 1))" by simp
  have c: "cc_peer_count cc' = card P" "cc_errors cc' = errors @ error_list e" using add(2) unfolding acking_def by blast+
  have "handle_peer_protocol env p (HistoryClearAck op m e) (clearing sv cc) =
    notify_frontend (EvHistoryClearResult (hex_operation op) (cc_affected cc') (word_of_nat (cc_peer_count cc'))
      (if cc_errors cc' = [] then None else Some (join_lines (lit ''; '') (cc_errors cc')))) (sv\<lparr>sv_history_clear := None\<rparr>)"
    using add(1) op by (simp add: clearing_message [OF assms(2)] peer_message_def clear_ack_answer_def del: lit_Cons)
  moreover have "sv\<lparr>sv_history_clear := None\<rparr> = sv" using assms(5) by simp
  ultimately show ?thesis unfolding n c notify_frontend_def emit_sv_def told_def by (simp only:)
qed

section \<open>The whole clear\<close>

definition clear_operation :: "'r service_env \<Rightarrow> 'r service \<Rightarrow> bytes" where
  "clear_operation env sv =
     take 16 (se_sha256 env (se_own_fingerprint env @ nat_be 16 (se_nanos env) @ put_u64 (sv_next_history_request sv + 1)))"

lemma clear_starts:
  assumes "sv_history_clear sv = None" "se_snapshot env = Inr local" "connected_authenticated_peers sv \<noteq> []"
  shows "start_global_history_clear env sv =
    clearing (told (sv\<lparr>sv_next_history_request := sv_next_history_request sv + 1\<rparr>)
        (map (\<lambda>(_, peer). peer_effect peer (HistoryClearBoundaryRequest (clear_operation env sv))) (connected_authenticated_peers sv)))
      (cc_new (se_now env) (clear_operation env sv) (fst ` set (connected_authenticated_peers sv)) local)"
proof -
  have all: "fold (\<lambda>(_, peer). send_peer peer event) peers x = told x (map (\<lambda>(_, peer). peer_effect peer event) peers)"
    for event peers and x :: "'a service"
    by (induction peers arbitrary: x) (auto simp: send_peer_told)
  show ?thesis using assms
    by (simp add: start_global_history_clear_def next_history_request_id_def clear_operation_def all clearing_def Let_def)
qed

lemma split_last:
  assumes "distinct (map who ps)" "who ` set ps = P" "P \<noteq> {}"
  obtains qs q where "ps = qs @ [q]" "distinct (map who qs)" "who ` set qs \<subseteq> P" "who ` set qs \<noteq> P" "who q \<in> P - who ` set qs"
    "insert (who q) (who ` set qs) = P"
proof -
  obtain qs q where ps: "ps = qs @ [q]" using assms by (cases ps rule: rev_cases) auto
  with assms have "who q \<notin> who ` set qs" by auto
  with ps assms show thesis by (intro that [of qs q]) auto
qed

lemma boundary_phase:
  assumes "gathering op local b P {} cc" "\<And>p. p \<in> set ps \<Longrightarrow> peer_identity p sv = Some (who p)" "distinct (map who ps)"
    "who ` set ps = P" "P \<noteq> {}" "\<And>f. bt_ok (b f)" "fst ` set (connected_authenticated_peers sv) = P"
    "\<And>B. bt_ok B \<Longrightarrow> (\<And>k. hm_get B k = boundary_sup local (b ` P) k) \<Longrightarrow> se_apply_clear env (hex_operation op) B = Inr affected"
  shows "\<exists>cc'. fold (\<lambda>p. handle_peer_protocol env p (HistoryClearBoundary op (boundary_to_wire (b (who p))))) ps (clearing sv cc) =
      clearing (told sv (map (\<lambda>(_, peer). peer_effect peer (HistoryClearApply op (boundary_to_wire (cc_boundary cc')))) (connected_authenticated_peers sv)))
        (cc_begin_apply (se_now env) cc' P affected)
    \<and> gathering op local b P P cc'"
proof -
  obtain qs q where ps: "ps = qs @ [q]" and d: "distinct (map who qs)" and sub: "who ` set qs \<subseteq> P" "who ` set qs \<noteq> P"
    and q: "who q \<in> P - who ` set qs" "insert (who q) (who ` set qs) = P"
    using split_last [OF assms(3,4,5)] by blast
  obtain cc1 where run: "fold (\<lambda>p. handle_peer_protocol env p (HistoryClearBoundary op (boundary_to_wire (b (who p))))) qs (clearing sv cc) = clearing sv cc1"
    and cc1: "gathering op local b P (who ` set qs) cc1"
    using boundaries_arrive [OF assms(1), of qs sv who env] assms(2,6) d sub ps by auto
  have "peer_identity q sv = Some (who q)" using assms(2) ps by simp
  from last_boundary_arrives [OF cc1 this q assms(6,7,8)] run show ?thesis by (simp add: ps)
qed

lemma ack_phase:
  assumes "acking op P {} n [] cc" "\<And>p. p \<in> set ps \<Longrightarrow> peer_identity p sv = Some (who p)" "distinct (map who ps)"
    "who ` set ps = P" "P \<noteq> {}" "sv_history_clear sv = None"
  shows "fold (\<lambda>p. handle_peer_protocol env p (HistoryClearAck op (fst (v (who p))) (snd (v (who p))))) ps (clearing sv cc) =
    told sv [ToFrontend (EvHistoryClearResult (hex_operation op) (word_of_nat (min (n + sum_list (map (\<lambda>p. unat (fst (v (who p)))) ps)) (2 ^ 64 - 1)))
      (word_of_nat (card P)) (if concat (map (\<lambda>p. error_list (snd (v (who p)))) ps) = [] then None
        else Some (join_lines (lit ''; '') (concat (map (\<lambda>p. error_list (snd (v (who p)))) ps)))))]"
proof -
  obtain qs q where ps: "ps = qs @ [q]" and d: "distinct (map who qs)" and sub: "who ` set qs \<subseteq> P" "who ` set qs \<noteq> P"
    and q: "who q \<in> P - who ` set qs" "insert (who q) (who ` set qs) = P"
    using split_last [OF assms(3,4,5)] by blast
  obtain cc1 where run: "fold (\<lambda>p. handle_peer_protocol env p (HistoryClearAck op (fst (v (who p))) (snd (v (who p))))) qs (clearing sv cc) = clearing sv cc1"
    and cc1: "acking op P (who ` set qs) (n + sum_list (map (\<lambda>p. unat (fst (v (who p)))) qs)) (concat (map (\<lambda>p. error_list (snd (v (who p)))) qs)) cc1"
    using acks_arrive [OF assms(1), of qs sv who env v] assms(2) d sub ps by auto
  have "peer_identity q sv = Some (who q)" using assms(2) ps by simp
  from last_ack_arrives [OF cc1 this q assms(6), of env "fst (v (who q))" "snd (v (who q))"] run show ?thesis
    by (simp add: ps add.assoc del: lit_Cons)
qed

lemma apply_begins:
  assumes "gathering op local b P P cc" shows "acking op P {} (unat affected) [] (cc_begin_apply now cc P affected)"
  using assms unsigned_less [of affected, where 'a = nat] by (simp add: gathering_def acking_def cc_begin_apply_def)

text \<open>C37: A clear of the history reaches every connected device. If every device can read the boundary of its history, the starting
  one can clear its own, and nothing but the answers of the peers comes in until the last (no timeout, no lost peer): the service that starts it asks each of its authenticated peers
  for the boundary of its history; whatever the order in which their services answer, on whichever of their routes, once the last
  answer is in, it clears its own history up to the largest sequence numbers reported by anyone and sends this boundary to every peer; their services
  apply exactly this boundary, and with the last acknowledgement the user sees the number of records
  cleared everywhere, the number of peers, and the errors of those that failed. Then no clear is in progress.\<close>
theorem global_clear_reaches_everyone:
  fixes sv :: "'r service" and penv :: "rstring \<Rightarrow> 'r service_env"
  assumes "sv_history_clear sv = None" and "se_snapshot env = Inr local" and "bt_ok local"
    and "connected_authenticated_peers sv \<noteq> []"
    and "\<forall>f. bt_ok (b f) \<and> se_snapshot (penv f) = Inr (b f)"
    and "\<forall>p \<in> set answers \<union> set acks. peer_identity p sv = Some (who p)"
    and "distinct (map who answers)" and "who ` set answers = fst ` set (connected_authenticated_peers sv)"
    and "distinct (map who acks)" and "who ` set acks = fst ` set (connected_authenticated_peers sv)"
    and "\<forall>B. bt_ok B \<and> (\<forall>k. hm_get B k = boundary_sup local (b ` who ` set answers) k) \<longrightarrow>
      se_apply_clear env (hex_operation (clear_operation env sv)) B = Inr affected"
  shows "\<exists>B. let op = clear_operation env sv;
        peers = connected_authenticated_peers sv;
        started = start_global_history_clear env sv;
        applying = fold (\<lambda>p. handle_peer_protocol env p (boundary_reply (penv (who p)) op)) answers started;
        ended = fold (\<lambda>p. handle_peer_protocol env p (apply_reply (penv (who p)) op B)) acks applying;
        values = map (\<lambda>p. ack_values (penv (who p)) op B) acks;
        errors = concat (map (error_list \<circ> snd) values)
      in bt_ok B \<and> (\<forall>k. hm_get B k = boundary_sup local (b ` who ` set answers) k)
      \<and> sv_trace started = sv_trace sv @ map (\<lambda>(_, p). peer_effect p (HistoryClearBoundaryRequest op)) peers
      \<and> sv_trace applying = sv_trace started @ map (\<lambda>(_, p). peer_effect p (HistoryClearApply op (boundary_to_wire B))) peers
      \<and> sv_trace ended = sv_trace applying @ [ToFrontend (EvHistoryClearResult (hex_operation op)
          (word_of_nat (min (unat affected + sum_list (map (unat \<circ> fst) values)) (2 ^ 64 - 1))) (word_of_nat (length acks))
          (if errors = [] then None else Some (join_lines (lit ''; '') errors)))]
      \<and> sv_history_clear ended = None
      \<and> (\<forall>f q pv. peer_identity q pv \<noteq> None \<longrightarrow>
          handle_peer_protocol (penv f) q (HistoryClearBoundaryRequest op) pv = send_peer q (boundary_reply (penv f) op) pv \<and>
          handle_peer_protocol (penv f) q (HistoryClearApply op (boundary_to_wire B)) pv = send_peer q (apply_reply (penv f) op B) pv)"
proof -
  let ?op = "clear_operation env sv" and ?peers = "connected_authenticated_peers sv" and ?P = "fst ` set (connected_authenticated_peers sv)"
  let ?s = "told (sv\<lparr>sv_next_history_request := sv_next_history_request sv + 1\<rparr>) (map (\<lambda>(_, p). peer_effect p (HistoryClearBoundaryRequest ?op)) ?peers)"
  have started: "start_global_history_clear env sv = clearing ?s (cc_new (se_now env) ?op ?P local)"
    by (rule clear_starts [OF assms(1,2,4)])
  have ne: "?P \<noteq> {}" using assms(4) by simp
  have peers: "connected_authenticated_peers ?s = ?peers" by simp
  have who: "peer_identity p ?s = Some (who p)" if "p \<in> set answers \<union> set acks" for p
    using assms(6) that by simp
  have replies: "boundary_reply (penv f) ?op = HistoryClearBoundary ?op (boundary_to_wire (b f))" for f
    using assms(5) by (simp add: boundary_reply_def)
  have new: "gathering ?op local b ?P {} (cc_new (se_now env) ?op ?P local)"
    using cc_new_collecting [of ?P local b "se_now env" ?op] assms(3) by (simp add: gathering_def cc_new_def)
  obtain cc where applying: "fold (\<lambda>p. handle_peer_protocol env p (boundary_reply (penv (who p)) ?op)) answers (start_global_history_clear env sv) =
      clearing (told ?s (map (\<lambda>(_, p). peer_effect p (HistoryClearApply ?op (boundary_to_wire (cc_boundary cc)))) ?peers)) (cc_begin_apply (se_now env) cc ?P affected)"
    and cc: "gathering ?op local b ?P ?P cc"
    using boundary_phase [OF new _ assms(7,8) ne, of ?s env affected] who assms(5,8,11) peers by (auto simp: started replies)
  define B where "B = cc_boundary cc"
  let ?t = "told ?s (map (\<lambda>(_, p). peer_effect p (HistoryClearApply ?op (boundary_to_wire B))) ?peers)"
  have B: "bt_ok B" "hm_get B k = boundary_sup local (b ` who ` set answers) k" for k
    using cc assms(8) by (simp_all add: gathering_def cc_collecting_def B_def)
  have "card ?P = length acks" using distinct_card [OF assms(9)] assms(10) by simp
  moreover have "sv_history_clear ?t = None" using assms(1) by (simp add: told_def)
  ultimately have ended: "fold (\<lambda>p. handle_peer_protocol env p (apply_reply (penv (who p)) ?op B)) acks (clearing ?t (cc_begin_apply (se_now env) cc ?P affected)) =
    told ?t [ToFrontend (EvHistoryClearResult (hex_operation ?op)
      (word_of_nat (min (unat affected + sum_list (map (\<lambda>p. unat (fst (ack_values (penv (who p)) ?op B))) acks)) (2 ^ 64 - 1)))
      (word_of_nat (length acks)) (if concat (map (\<lambda>p. error_list (snd (ack_values (penv (who p)) ?op B))) acks) = [] then None
        else Some (join_lines (lit ''; '') (concat (map (\<lambda>p. error_list (snd (ack_values (penv (who p)) ?op B))) acks)))))]"
    using ack_phase [OF apply_begins [OF cc] _ assms(9,10) ne, where sv = ?t and env = env and v = "\<lambda>f. ack_values (penv f) ?op B"] who
    by (simp add: apply_reply_values del: lit_Cons)
  have t1: "sv_trace (start_global_history_clear env sv) = sv_trace sv @ map (\<lambda>(_, p). peer_effect p (HistoryClearBoundaryRequest ?op)) ?peers"
    unfolding started by (simp add: clearing_def told_def)
  have t2: "sv_trace (clearing ?t c) = sv_trace sv @ map (\<lambda>(_, p). peer_effect p (HistoryClearBoundaryRequest ?op)) ?peers
      @ map (\<lambda>(_, p). peer_effect p (HistoryClearApply ?op (boundary_to_wire B))) ?peers"
    "sv_history_clear (told ?t es) = None" "sv_trace (told ?t es) = sv_trace sv @ map (\<lambda>(_, p). peer_effect p (HistoryClearBoundaryRequest ?op)) ?peers
      @ map (\<lambda>(_, p). peer_effect p (HistoryClearApply ?op (boundary_to_wire B))) ?peers @ es" for c es
    using assms(1) by (simp_all add: clearing_def told_def)
  show ?thesis
  proof (rule exI [of _ B], unfold Let_def applying [folded B_def] ended, intro conjI allI impI)
    fix k show "hm_get B k = boundary_sup local (b ` who ` set answers) k" by (rule B(2))
  qed (use B(1) peer_replies in \<open>simp_all only: t1 t2 append_assoc map_map comp_def\<close>)
qed

definition demo_clear_env :: "unit service_env \<Rightarrow> unit service_env" where
  "demo_clear_env env = env\<lparr>se_snapshot := Inr [], se_apply_clear := (\<lambda>_ _. Inr 2)\<rparr>"

definition demo_clear_service :: "unit service_env \<Rightarrow> unit service" where
  "demo_clear_service env = (service_new cm_default [] 4242 (True, True) \<lparr>dp_display_name = [], dp_avatar = None\<rparr> [] 0 0 True
     \<lparr>rs_auto_accept = False, rs_download_directory = []\<rparr>)\<lparr>sv_capture_fingerprints := [(0, [97])]\<rparr>"

theorem global_clear_reaches_everyone_witness:
  "\<forall>env. let env' = demo_clear_env env; sv = demo_clear_service env; op = clear_operation env' sv;
     ended = handle_peer_protocol env' (CapturePeer 0) (HistoryClearAck op 2 None)
       (handle_peer_protocol env' (CapturePeer 0) (HistoryClearBoundary op []) (start_global_history_clear env' sv))
   in last (sv_trace ended) = ToFrontend (EvHistoryClearResult (hex_operation op) 4 1 None) \<and> sv_history_clear ended = None"
proof
  fix env :: "unit service_env"
  let ?env = "demo_clear_env env" and ?sv = "demo_clear_service env"
  have sv: "sv_history_clear ?sv = None" "connected_authenticated_peers ?sv = [([97], CapturePeer 0)]"
    "peer_identity (CapturePeer 0) ?sv = Some [97]"
    by (simp_all add: demo_clear_service_def service_new_def connected_authenticated_peers_def deduplicate_routes_def peer_identity_def
        hm_get_Cons hash_map)
  have env: "se_snapshot ?env = Inr []" "se_apply_clear ?env = (\<lambda>_ _. Inr 2)" by (simp_all add: demo_clear_env_def)
  have vals: "ack_values ?env op B = (2, None)" "apply_reply ?env op B = HistoryClearAck op 2 None"
    "boundary_reply ?env op = HistoryClearBoundary op []" for op B
    by (simp_all add: ack_values_def apply_reply_def boundary_reply_def env boundary_to_wire_def)
  from global_clear_reaches_everyone [OF sv(1) env(1), of "\<lambda>_. []" "\<lambda>_. ?env" "[CapturePeer 0]" "[CapturePeer 0]" "\<lambda>_. [97]" 2] sv env
  show "let env' = demo_clear_env env; sv = demo_clear_service env; op = clear_operation env' sv;
     ended = handle_peer_protocol env' (CapturePeer 0) (HistoryClearAck op 2 None)
       (handle_peer_protocol env' (CapturePeer 0) (HistoryClearBoundary op []) (start_global_history_clear env' sv))
   in last (sv_trace ended) = ToFrontend (EvHistoryClearResult (hex_operation op) 4 1 None) \<and> sv_history_clear ended = None"
    by (auto simp: Let_def vals error_list_def)
qed

end
