(* ===== verification/Spec2Isabelle.thy ===== *)
theory Spec2Isabelle
  imports Proto_Roundtrip History_Clear Peer_Profile Clipboard Transfer_Steps Manual_Progress Pointer_Owner Windows_Input Clipboard_Stream
    Emulation_Properties Clipboard_Delivery Service_Guards Service_Clear
begin

text \<open>
  A verification library for Syntra, a program that shares input devices, the clipboard, files and
  the clipboard history between devices. A daemon per device talks to its peers in datagrams,
  to plugin processes (the adapters of the file clipboard) and to a user interface.

  \<^bold>\<open>Layers.\<close> \<open>Syntra_Prelude\<close> holds the machine integers, the error sum and its sequencing,
  checked arithmetic, UTF-8 and big-endian numbers; \<open>Hash_Map\<close> models the maps of the Rust standard
  library (locale \<open>key_value\<close>, interpreted on hash maps and ordered maps); \<open>Chunking\<close> holds the
  splitting of a payload into slices and the contract of a receiver of slices (locale
  \<open>slice_receiver\<close>: a receiver that keeps the laws delivers a payload whose slices arrive in any
  order with any duplicates), which the history and the profile reassemblers interpret.

  \<^bold>\<open>Wire protocol\<close> (\<open>crates/syntra-proto\<close>). \<open>Wire\<close>: the scalar readers and writers of \<open>wire.rs\<close> as a
  parser over byte lists. \<open>Proto_Types\<close>: limits, messages and discriminators. \<open>Proto_Validate\<close>: the
  validation functions; accepted paths stay below the directory they are resolved in. \<open>Proto_Codec\<close>:
  \<open>encode\<close> and \<open>decode\<close>, one definition per message. \<open>Proto_Roundtrip\<close>: what the receiver of an encoded
  message obtains, that accepted datagrams have one representation, that slices fit a datagram
  that is not fragmented, that unknown discriminators are rejected. Floating-point numbers in
  messages are their bit patterns. \<open>Chunk_Validator\<close>: the validator of the answers to one range request.

  \<^bold>\<open>History\<close> (\<open>crates/syntra-core/src/history_sync.rs\<close>). \<open>History_Sync\<close>: the reassembler of records
  with its budget, the splitting of records, and the message arms of \<open>service/peers.rs\<close> that feed it:
  bounded memory with exact accounting, and delivery exactly once. \<open>History_Clear\<close>: boundaries and
  the coordinator of a global clear with its two phases.

  \<^bold>\<open>Profiles\<close> (\<open>peer_profile.rs\<close>, \<open>DeviceProfile\<close> of \<open>syntra-api\<close>). \<open>Peer_Profile\<close>: validation, encoding
  and reassembly; bounded memory, and delivery of every valid profile.

  \<^bold>\<open>Clipboard\<close> (\<open>clipboard.rs\<close>). \<open>Clipboard\<close>: the state that tells local from remote content, the bounded
  queues and the two workers as a step relation with every interleaving; no echo while desktop
  reads succeed, and how it fails when they do not.

  \<^bold>\<open>File transfers\<close> (\<open>transfer_manager.rs\<close>). \<open>Transfer_State\<close>: the state machine with every operation.
  \<open>Transfer_Invariant\<close>: its invariant, a frame rule, and the search for a free user-interface id.
  \<open>Transfer_Steps\<close>: the operations as one step function, the invariant in every reachable state,
  and what the adapters and peers can rely on.

  \<^bold>\<open>Files on disk\<close> (\<open>file_transfer.rs\<close>). \<open>Source_Files\<close>: offers from URI lists and paths, with the manifest they
  send. \<open>File_Io\<close>: bounded reads of source files whose identity is checked, and received transfers:
  what is written, verified and finalised, and the cleanup of what is not, where removals fail too. The answers of the
  operating system are arguments; the content of files on the disk is not modelled.

  \<^bold>\<open>Manual transfers\<close> (\<open>manual_transfer.rs\<close>). \<open>Manual_Transfer\<close>: the table of transfers with all its
  operations. \<open>Manual_Invariant\<close>: the laws of an operation on one record (locale
  \<open>record_operation\<close>), interpreted on each of them. \<open>Manual_Steps\<close>: the table in every reachable
  state, consent, and the finality of an end. \<open>Manual_Progress\<close>: a completed file is verified, and
  silence ends a transfer.

  \<^bold>\<open>Clipboard streams\<close> (\<open>capture.rs\<close>, \<open>stream_clipboard\<close>). \<open>Clipboard_Stream\<close>: the messages that carry one
  clipboard content, which all encode.

  \<^bold>\<open>Input.\<close> \<open>Scancode\<close>: the tables of \<open>syntra-input-event/src/scancode.rs\<close> and their round trips.
  \<open>Ieee_Float\<close>: IEEE 754 arithmetic, executable and exact, where the code computes with \<open>f64\<close> and
  \<open>f32\<close>. \<open>Capture_Types\<close> and \<open>Input_Capture\<close>: \<open>syntra-input-capture/src/lib.rs\<close>, the barriers at the edges of the
  screen and the pressed keys. \<open>Capture_Task\<close>: the task of \<open>syntra-core/src/capture.rs\<close>, which hands the
  pointer to a device, waits for its acknowledgement and forwards input to it. Its effects on the
  backend, the connection and the service are a trace in the state. \<open>Capture_Invariant\<close> and
  \<open>Capture_Steps\<close>: the invariant and that every arm of the loop keeps it. \<open>Capture_Properties\<close>: what
  holds in every session whose requests meet \<open>request_ok\<close>, which leaves out those after which the code panics. \<open>Pointer_Owner\<close>: the task refines an automaton that says who may move the
  pointer (locale \<open>owner_relation\<close>). \<open>Input_Emulation\<close>: \<open>syntra-input-emulation/src/lib.rs\<close>, the devices of the peers
  and the keys they are asked to hold. \<open>Backend_Answers\<close>: what a backend that refuses calls really holds, against a
  reference. \<open>Emulation_Task\<close> and \<open>Listen_Task\<close>: the two tasks of
  \<open>syntra-core/src/emulation.rs\<close>, which share channels and cells; every interleaving of their steps is
  \<open>lt_reach\<close>. \<open>Emulation_Invariant\<close> and \<open>Listen_Invariant\<close>: what the backend is asked to hold down belongs to a peer, and who
  controls the screen is what the trace says. \<open>Emulation_Properties\<close>: what follows, and where the code departs from its
  intent. \<open>Clipboard_Delivery\<close>: a clipboard streamed by the capture task arrives at the listen task,
  unless a tick finds it too old. \<open>Windows_Input\<close>: the hooks, the display geometry and the injection of the
  Windows platform.

  \<^bold>\<open>The service.\<close> \<open>Client_Table\<close>: the shared table of configured devices (\<open>client.rs\<close>), whose handles are never
  used twice. The loop of \<open>syntra-core/src/service\<close> owns that table, the reassemblers, the transfer
  components and the coordinator of a clear, and steers the other tasks. \<open>Service_State\<close>: its state, its effects on the
  other tasks in order, and the execution of the actions of the transfer components (\<open>mod.rs\<close>, \<open>transfers.rs\<close>,
  \<open>frontend.rs\<close>). \<open>Service_Peers\<close>: the messages of peers, profiles, history pages and the global clear (\<open>peers.rs\<close>,
  \<open>history_reconcile.rs\<close>). \<open>Service_Routes\<close>: the devices, the connections that control this screen, start and
  reload (\<open>clients.rs\<close>). \<open>Service_Input\<close>: the events of the emulation and the capture task and the clipboard (\<open>input.rs\<close>,
  \<open>clipboard_sync.rs\<close>). \<open>Service_Frame\<close>: what most handlers leave alone, for every view of the state that does
  not depend on what they change (locale \<open>service_view\<close>). \<open>Service_Invariant\<close>: the barriers the service has asked for are those its tables call for.
  \<open>Service_Properties\<close>: runs of the service, and that the capture task ends up with these barriers
  (locale \<open>request_taker\<close>, interpreted on the two places where the task takes requests). \<open>Service_Guards\<close>: what depends on a setting
  (locale \<open>settings_view\<close>, interpreted on the device table, the authorised peers and the clipboard): a removed device starts
  nothing any more, and a clipboard that came from a peer is not sent back to it. \<open>Service_Clear\<close>: a global clear of the history
  reaches every peer that was connected when it began.

  \<^bold>\<open>State and errors.\<close> A method with \<open>&mut self\<close> is a function from the state to the new state and a
  result; \<open>Result\<close> is a sum with the error on the left. A loop over a collection is a recursive
  function or a fold. \<open>usize\<close> is 64 bits wide; lengths of byte lists are natural numbers and are
  converted where the source converts them. Time is a natural number of milliseconds that the
  caller passes in.

  \<^bold>\<open>Fuel.\<close> Two loops are bounded. \<open>allocate_loop\<close> has one more round than ids are in use; by the
  pigeonhole principle this is enough (\<open>ui_id_always_found\<close>). \<open>copy_file\<close>, which reads a file chunk by
  chunk and writes it, has one more round than the file has bytes (\<open>file_delivered\<close> shows that it
  ends with the whole file).

  \<^bold>\<open>Parameters.\<close> Code outside the repository is an argument: the serialiser of history records
  (bincode), SHA-256 and Base64. The properties that rely on the serialiser name its round trip as
  a hypothesis, and their witnesses instantiate it.

  \<^bold>\<open>Not modelled.\<close> The backends of input capture and emulation other than Windows, the user interface, sockets, DTLS, name resolution, the database, configuration files and
  plugin processes: they are bindings to libraries and operating systems. The capture and emulation tasks are those of desktop
  platforms (\<open>is_touchpad\<close> is false, the target is not Android). Of the service, the requests of the user interface beyond those on devices
  and the events of plugin processes are left out; the database, the plugin registry and mDNS are arguments or absent.
\<close>

end
